(* ===== verification/Prelude.thy ===== *)
theory Prelude
  imports Main "HOL-Library.Word"
begin

text \<open>
  Shared vocabulary of the development: the machine integers of
  \<^verbatim>\<open>include/gw_types.h\<close>, the status values of \<^verbatim>\<open>gw_types.h\<close> and
  \<^verbatim>\<open>gw_os_common.h\<close>, the memory image of 32-bit integers, and the facts on lists and
  words that several components use.
\<close>

unbundle bit_operations_syntax

section \<open>Machine integers\<close>

type_synonym u8 = "8 word"
type_synonym u16 = "16 word"
type_synonym u32 = "32 word"
type_synonym u64 = "64 word"

text \<open>Addresses of objects in memory; the NULL pointer is \<open>None\<close> of an \<open>addr option\<close>.\<close>

type_synonym addr = nat

section \<open>Rewrite collections\<close>

named_theorems gw_repr_simps \<open>unfolding of representation predicates\<close>
named_theorems gw_frame \<open>an operation leaves the other parts of a state alone\<close>
named_theorems gw_inv_intros \<open>preservation of component invariants\<close>

section \<open>Status values\<close>

text \<open>
  \<^verbatim>\<open>GW_OK\<close> / \<^verbatim>\<open>GW_ERROR\<close> (\<^verbatim>\<open>gw_types.h\<close>) and \<^verbatim>\<open>GWD_RETURN_OK\<close> /
  \<^verbatim>\<open>GWD_RETURN_ERR\<close> (\<^verbatim>\<open>oam.h\<close>): zero is success; the enumerator \<open>0xffffffff\<close> read
  through a signed 32-bit variable is -1.
\<close>

definition GW_OK :: int where "GW_OK = 0"
definition GW_E_CONFLICT :: int where "GW_E_CONFLICT = 4"
definition GW_ERROR :: int where "GW_ERROR = -1"

lemmas gw_status_defs = GW_OK_def GW_E_CONFLICT_def GW_ERROR_def

text \<open>The OSAL return codes, \<^verbatim>\<open>GW_E_OSAL_*\<close> of \<^verbatim>\<open>gw_os_common.h\<close>.\<close>

datatype osal_status =
    OSAL_OK | OSAL_ERR | OSAL_INVALID_POINTER | OSAL_ERR_ADDR_MISALIGNED | OSAL_ERR_TIMEOUT
  | OSAL_INVALID_INT_NUM | OSAL_SEM_FAILURE | OSAL_SEM_TIMEOUT | OSAL_QUEUE_EMPTY
  | OSAL_QUEUE_FULL | OSAL_QUEUE_TIMEOUT | OSAL_QUEUE_INVALID_SIZE | OSAL_QUEUE_ID_ERROR
  | OSAL_ERR_NAME_TOO_LONG | OSAL_ERR_NO_FREE_IDS | OSAL_ERR_NAME_TAKEN | OSAL_ERR_INVALID_ID
  | OSAL_ERR_NAME_NOT_FOUND | OSAL_ERR_SEM_NOT_FULL | OSAL_ERR_INVALID_PRIORITY

fun osal_code :: "osal_status \<Rightarrow> int" where
  "osal_code OSAL_OK = 0"
| "osal_code OSAL_ERR = -1"
| "osal_code OSAL_INVALID_POINTER = 1"
| "osal_code OSAL_ERR_ADDR_MISALIGNED = 2"
| "osal_code OSAL_ERR_TIMEOUT = 3"
| "osal_code OSAL_INVALID_INT_NUM = 4"
| "osal_code OSAL_SEM_FAILURE = 5"
| "osal_code OSAL_SEM_TIMEOUT = 6"
| "osal_code OSAL_QUEUE_EMPTY = 7"
| "osal_code OSAL_QUEUE_FULL = 8"
| "osal_code OSAL_QUEUE_TIMEOUT = 9"
| "osal_code OSAL_QUEUE_INVALID_SIZE = 10"
| "osal_code OSAL_QUEUE_ID_ERROR = 11"
| "osal_code OSAL_ERR_NAME_TOO_LONG = 12"
| "osal_code OSAL_ERR_NO_FREE_IDS = 13"
| "osal_code OSAL_ERR_NAME_TAKEN = 14"
| "osal_code OSAL_ERR_INVALID_ID = 15"
| "osal_code OSAL_ERR_NAME_NOT_FOUND = 16"
| "osal_code OSAL_ERR_SEM_NOT_FULL = 17"
| "osal_code OSAL_ERR_INVALID_PRIORITY = 18"

section \<open>Memory image of integers\<close>

text \<open>
  \<^verbatim>\<open>gw_os_config.h\<close> defines \<^verbatim>\<open>__BIG_ENDIAN__\<close>: the bytes of an integer in memory run
  from the most significant one.
\<close>

definition bytes_of_u32 :: "u32 \<Rightarrow> u8 list" where
  "bytes_of_u32 w = [ucast (drop_bit 24 w), ucast (drop_bit 16 w), ucast (drop_bit 8 w), ucast w]"

definition u32_of_bytes :: "u8 list \<Rightarrow> u32" where
  "u32_of_bytes bs =
     (push_bit 24 (ucast (bs ! 0)) OR push_bit 16 (ucast (bs ! 1)) OR
      push_bit 8 (ucast (bs ! 2)) OR ucast (bs ! 3))"

lemma length_bytes_of_u32 [simp]: "length (bytes_of_u32 w) = 4"
  by (simp add: bytes_of_u32_def)

lemma u32_of_bytes_of_u32 [simp]: "u32_of_bytes (bytes_of_u32 w) = w"
proof (rule bit_word_eqI)
  fix n assume n: "n < LENGTH(32)"
  have "n < 8 \<or> (8 \<le> n \<and> n < 16) \<or> (16 \<le> n \<and> n < 24) \<or> (24 \<le> n \<and> n < 32)"
    using n by auto
  then show "bit (u32_of_bytes (bytes_of_u32 w)) n = bit w n"
    using n by (elim disjE conjE) (auto simp: u32_of_bytes_def bytes_of_u32_def bit_simps)
qed

lemma u32_of_bytes_take: "4 \<le> length bs \<Longrightarrow> u32_of_bytes (take 4 bs) = u32_of_bytes bs"
  by (simp add: u32_of_bytes_def)

lemma u32_of_bytes_append [simp]:
  "u32_of_bytes (bytes_of_u32 w @ bs) = w"
  using u32_of_bytes_take [of "bytes_of_u32 w @ bs"] by simp

lemma unat_u32_less: "unat (w :: u32) < 4294967296"
  using unsigned_less [of w] by simp

lemma unat_of_nat_u32: "n < 4294967296 \<Longrightarrow> unat (of_nat n :: u32) = n"
  by (simp add: unat_of_nat)

section \<open>Lists and options\<close>

text \<open>The first element of a list, or a default pointer; the last one, likewise.\<close>

fun hd_or :: "addr list \<Rightarrow> addr option \<Rightarrow> addr option" where
  "hd_or [] q = q"
| "hd_or (x # xs) q = Some x"

fun last_or :: "addr option \<Rightarrow> addr list \<Rightarrow> addr option" where
  "last_or p [] = p"
| "last_or p (x # xs) = last_or (Some x) xs"

lemma hd_or_append [simp]: "hd_or (xs @ ys) q = hd_or xs (hd_or ys q)"
  by (cases xs) auto

lemma last_or_append [simp]: "last_or p (xs @ ys) = last_or (last_or p xs) ys"
  by (induction xs arbitrary: p) auto

lemma last_or_None_eq [simp]: "last_or None xs = None \<longleftrightarrow> xs = []"
  by (cases xs rule: rev_cases) auto

lemma hd_or_None_eq [simp]: "hd_or xs None = None \<longleftrightarrow> xs = []"
  by (cases xs) auto

lemma hd_or_nth: "xs \<noteq> [] \<Longrightarrow> hd_or xs q = Some (xs ! 0)"
  by (cases xs) auto

lemma find_append: "List.find P (xs @ ys) = (case List.find P xs of None \<Rightarrow> List.find P ys | Some x \<Rightarrow> Some x)"
  by (induction xs) auto

lemma find_SomeD: "List.find P xs = Some x \<Longrightarrow> x \<in> set xs \<and> P x"
  by (auto simp: find_Some_iff in_set_conv_nth)

lemma filter_neq_id: "x \<notin> set xs \<Longrightarrow> filter (\<lambda>y. y \<noteq> x) xs = xs"
  by (induction xs) auto

text \<open>
  The search loops of the source that walk a table from index 0 and stop at the first entry
  satisfying a condition; the length of the table when none does.
\<close>

fun first_idx :: "('a \<Rightarrow> bool) \<Rightarrow> 'a list \<Rightarrow> nat" where
  "first_idx P [] = 0"
| "first_idx P (x # xs) = (if P x then 0 else Suc (first_idx P xs))"

lemma first_idx_le [simp]: "first_idx P xs \<le> length xs"
  by (induction xs) auto

lemma first_idx_nth: "first_idx P xs < length xs \<Longrightarrow> P (xs ! first_idx P xs)"
  by (induction xs) auto

lemma first_idx_less: "i < first_idx P xs \<Longrightarrow> \<not> P (xs ! i)"
  by (induction xs arbitrary: i) (auto simp: nth_Cons' split: if_splits)

lemma first_idx_eq_length: "first_idx P xs = length xs \<longleftrightarrow> (\<forall>x \<in> set xs. \<not> P x)"
  by (induction xs) auto

lemma first_idx_less_iff: "first_idx P xs < length xs \<longleftrightarrow> (\<exists>x \<in> set xs. P x)"
  using first_idx_eq_length [of P xs] first_idx_le [of P xs] by (auto simp: le_less)

lemma first_idx_eqI:
  "i < length xs \<Longrightarrow> P (xs ! i) \<Longrightarrow> (\<And>j. j < i \<Longrightarrow> \<not> P (xs ! j)) \<Longrightarrow> first_idx P xs = i"
  by (metis first_idx_less first_idx_less_iff first_idx_nth linorder_neqE_nat nth_mem)

text \<open>An update of a list element that keeps a field of it keeps the field everywhere.\<close>

lemma nth_upd_field: "(\<And>x. g (f x) = g x) \<Longrightarrow> g (xs[i := f (xs ! i)] ! j) = g (xs ! j)"
  by (cases "i < length xs") (auto simp: nth_list_update list_update_beyond)

text \<open>Lists of a known length, as the fields of a frame are.\<close>

lemma list2: "length l = 2 \<longleftrightarrow> (\<exists>a b. l = [a, b])"
  by (auto simp: length_Suc_conv eval_nat_numeral)

lemma list4: "length l = 4 \<longleftrightarrow> (\<exists>a b c d. l = [a, b, c, d])"
  by (auto simp: length_Suc_conv eval_nat_numeral)

lemma list6: "length l = 6 \<longleftrightarrow> (\<exists>a b c d e f. l = [a, b, c, d, e, f])"
  by (auto simp: length_Suc_conv eval_nat_numeral)

end
