(* ===== verification/Gw_Port.thy ===== *)
theory Gw_Port
  imports Prelude
begin

text \<open>
  Port numbers (\<^verbatim>\<open>apps/gw_port.c\<close>): the tables between logical and physical ports, the
  members of a port bit map, and the test for multicast addresses of \<^verbatim>\<open>apps/gw_aux.c\<close>.
\<close>

definition NUM_PORTS_PER_SYSTEM :: nat where "NUM_PORTS_PER_SYSTEM = 26"
definition NUM_PORTS_MINIMUM_SYSYTEM :: nat where "NUM_PORTS_MINIMUM_SYSYTEM = 1"
definition NUM_UNITS_PER_SYSTEM :: nat where "NUM_UNITS_PER_SYSTEM = 5"
definition PHY_PORT_MAX :: nat where "PHY_PORT_MAX = 26"
definition PHY_ERROR :: u8 where "PHY_ERROR = 0"
definition PHY_OK :: u8 where "PHY_OK = 1"

lemmas port_limits = NUM_PORTS_PER_SYSTEM_def NUM_PORTS_MINIMUM_SYSYTEM_def NUM_UNITS_PER_SYSTEM_def PHY_PORT_MAX_def

section \<open>The tables\<close>

text \<open>Only the row of unit 0 has an initialiser; the others are zero.\<close>

definition phy_log_map :: "u8 list list" where
  "phy_log_map = (map of_nat [1..<27] @ [0xFF]) # replicate (NUM_UNITS_PER_SYSTEM - 1) (replicate (PHY_PORT_MAX + 1) 0)"

definition log_phy_map :: "(u8 \<times> u8) list" where
  "log_phy_map = map (\<lambda>p. (0, of_nat p)) [0..<NUM_PORTS_PER_SYSTEM]"

text \<open>The result, and what is stored through the pointer arguments, if anything.\<close>

definition boards_logical_to_physical :: "u32 \<Rightarrow> int \<times> (u32 \<times> u32) option" where
  "boards_logical_to_physical lport =
     (let lport_0 = sint (lport - 1) in
      if lport_0 < 0 \<or> lport_0 \<ge> int NUM_PORTS_PER_SYSTEM then (0, None)
      else case log_phy_map ! nat lport_0 of (unit, physical_port) \<Rightarrow> (1, Some (ucast unit, ucast physical_port)))"

definition boards_physical_to_logical :: "u32 \<Rightarrow> u32 \<Rightarrow> int \<times> u32 option" where
  "boards_physical_to_logical unit pport =
     (if unat unit \<ge> NUM_UNITS_PER_SYSTEM \<or> unat pport > PHY_PORT_MAX then (0, None)
      else let lport = ucast (phy_log_map ! unat unit ! unat pport)
           in if lport = 0xFF then (0, Some lport) else (1, Some lport))"

section \<open>Bit maps and addresses\<close>

definition onu_bitport_phyport_get :: "u32 \<Rightarrow> u8 list option \<Rightarrow> int \<times> u8 list option" where
  "onu_bitport_phyport_get egports phyportmember =
     (case phyportmember of
        None \<Rightarrow> (GW_ERROR, None)
      | Some _ \<Rightarrow>
          (let ms = map (\<lambda>p. if egports AND push_bit p 1 \<noteq> 0 then PHY_OK else PHY_ERROR) [0..<PHY_PORT_MAX]
           in (if PHY_OK \<notin> set ms then GW_ERROR else GW_OK, Some ms)))"

text \<open>The test compares the masked bit, 0 or 128, with 1.\<close>

definition onu_mulimac_cheak :: "u8 list option \<Rightarrow> int" where
  "onu_mulimac_cheak fdbmac =
     (case fdbmac of
        None \<Rightarrow> GW_OK
      | Some m \<Rightarrow> if push_bit 7 1 AND m ! 0 = 1 then GW_OK else GW_ERROR)"

section \<open>Lemmas\<close>

lemma below_cases: "unat (p :: u32) < n \<Longrightarrow> list_all (\<lambda>k. P (of_nat k)) [0..<n] \<Longrightarrow> P p"
proof -
  assume n: "unat p < n" and "list_all (\<lambda>k. P (of_nat k)) [0..<n]"
  then have "\<forall>k < n. P (of_nat k)" by (simp add: list_all_length)
  with n have "P (of_nat (unat p))" by blast
  then show ?thesis by simp
qed

lemma physical_to_logical_0:
  "boards_physical_to_logical 0 p =
     (if unat p > 26 then (0, None) else if unat p = 26 then (0, Some 0xFF) else (1, Some (p + 1)))"
proof (cases "unat p < 27")
  case True
  then have "boards_physical_to_logical 0 p = (if unat p = 26 then (0, Some 0xFF) else (1, Some (p + 1)))"
    by (rule below_cases) code_simp
  then show ?thesis using True by simp
qed (simp add: boards_physical_to_logical_def port_limits)

lemma logical_to_physical_eq:
  "boards_logical_to_physical l = (if 1 \<le> unat l \<and> unat l \<le> 26 then (1, Some (0, l - 1)) else (0, None))"
proof (cases "unat l < 27")
  case True
  then show ?thesis by (rule below_cases) code_simp
next
  case False
  have "\<not> (0 \<le> sint (l - 1) \<and> sint (l - 1) < 26)"
  proof
    assume a: "0 \<le> sint (l - 1) \<and> sint (l - 1) < 26"
    have "take_bit 32 (sint (l - 1)) = uint (l - 1)" 
      using unsigned_less [of "l - 1", where 'a = int] by (simp add: sint_uint take_bit_signed_take_bit take_bit_int_eq_self)
    then have "uint (l - 1) < 26" using a by (simp add: take_bit_int_eq_self)
    moreover have "unat (l - 1) = unat l - 1" using unat_sub [of 1 l] False by (simp add: word_le_nat_alt)
    moreover have "unat (l - 1) = nat (uint (l - 1))" by simp
    ultimately show False using False by linarith
  qed
  then show ?thesis using False by (auto simp: boards_logical_to_physical_def port_limits Let_def)
qed

lemma mulimac_never: "onu_mulimac_cheak (Some m) = GW_ERROR"
proof -
  have "\<not> bit (push_bit 7 1 AND m ! 0 :: u8) 0" by (simp add: bit_and_iff bit_push_bit_iff)
  then have "push_bit 7 1 AND m ! 0 \<noteq> (1 :: u8)" by (metis bit_1_iff)
  then show ?thesis by (simp add: onu_mulimac_cheak_def)
qed

section \<open>Properties\<close>

text \<open>
  C37. On unit 0 the two tables are inverse to each other, out-of-range arguments included: a
  physical port converts to a logical port exactly when that converts back, so 26 ports of
  each kind correspond one to one.
\<close>

theorem port_maps_inverse:
  "boards_physical_to_logical 0 p = (1, Some l) \<longleftrightarrow> boards_logical_to_physical l = (1, Some (0, p))"
proof (cases "l = p + 1")
  case True
  have m: "unat p = 4294967295" if "p + 1 = 0"
  proof -
    have "p = - 1" using that by (simp add: eq_neg_iff_add_eq_0)
    then show ?thesis by (simp add: unsigned_minus_1_eq_mask mask_eq_exp_minus_1)
  qed
  have "unat (p + 1) = unat p + 1 \<or> p + 1 = 0" using unatSuc [of p] by (auto simp: add.commute)
  then show ?thesis unfolding physical_to_logical_0 logical_to_physical_eq True
    using m by auto
next
  case False
  then show ?thesis unfolding physical_to_logical_0 logical_to_physical_eq by auto
qed

end
