(* ===== verification/Handle_Table.thy ===== *)
theory Handle_Table
  imports Prelude
begin

text \<open>
  The interface of an object table of the OS layer: creation hands out the index of a free
  slot as the object's id, destruction gives the slot back. The laws and what follows for
  every sequence of calls; the thread, semaphore, mutex and queue tables are its instances.
\<close>

section \<open>Live slots of a table\<close>

definition live_slots :: "('a \<Rightarrow> bool) \<Rightarrow> 'a list \<Rightarrow> nat set" where
  "live_slots fr xs = {i. i < length xs \<and> \<not> fr (xs ! i)}"

lemma live_slots_upd [simp]:
  "i < length xs \<Longrightarrow>
   live_slots fr (xs[i := x]) = (if fr x then live_slots fr xs - {i} else insert i (live_slots fr xs))"
  by (auto simp: live_slots_def nth_list_update)

lemma live_slots_same: "i < length xs \<Longrightarrow> fr x = fr (xs ! i) \<Longrightarrow> live_slots fr (xs[i := x]) = live_slots fr xs"
  by (auto simp: live_slots_def nth_list_update)

lemma live_slots_finite [simp]: "finite (live_slots fr xs)"
  by (simp add: live_slots_def)

lemma live_slots_bound: "i \<in> live_slots fr xs \<Longrightarrow> i < length xs"
  by (simp add: live_slots_def)

lemma live_slots_first: "first_idx fr xs < length xs \<Longrightarrow> first_idx fr xs \<notin> live_slots fr xs"
  using first_idx_nth [of fr xs] by (simp add: live_slots_def)

lemma live_slots_free [simp]: "\<forall>x \<in> set xs. fr x \<Longrightarrow> live_slots fr xs = {}"
  by (auto simp: live_slots_def)

lemma live_slots_card: "card (live_slots fr xs) = length (filter (\<lambda>x. \<not> fr x) xs)"
  by (simp add: live_slots_def length_filter_conv_card)

lemma inj_on_unat: "inj_on unat (A :: u32 set)"
  by (rule inj_onI) (simp add: word_unat_eq_iff)

lemma unat_image_remove: "unat ` (A - {x}) = unat ` A - {unat (x :: u32)}"
  using inj_on_image_set_diff [OF inj_on_unat [of UNIV], of A "{x}"] by simp

section \<open>Sequences of calls\<close>

datatype ('c, 'd) tab_op = Create 'c | Destroy 'd

text \<open>A run returns the final state and the ids the callers hold.\<close>

fun tab_run ::
  "('s \<Rightarrow> 'c \<Rightarrow> osal_status \<times> u32 option \<times> 's) \<Rightarrow> ('s \<Rightarrow> 'd \<Rightarrow> osal_status \<times> 's) \<Rightarrow> ('d \<Rightarrow> u32) \<Rightarrow>
   's \<Rightarrow> u32 list \<Rightarrow> ('c, 'd) tab_op list \<Rightarrow> 's \<times> u32 list" where
  "tab_run cr de idof s hs [] = (s, hs)"
| "tab_run cr de idof s hs (Create c # ops) =
     (case cr s c of (st, r, s') \<Rightarrow>
        tab_run cr de idof s' (if st = OSAL_OK then the r # hs else hs) ops)"
| "tab_run cr de idof s hs (Destroy d # ops) =
     (case de s d of (st, s') \<Rightarrow>
        tab_run cr de idof s' (if st = OSAL_OK then removeAll (idof d) hs else hs) ops)"

locale handle_table =
  fixes inv :: "'s \<Rightarrow> bool"
    and live :: "'s \<Rightarrow> nat set"
    and cap :: nat
    and cr :: "'s \<Rightarrow> 'c \<Rightarrow> osal_status \<times> u32 option \<times> 's"
    and de :: "'s \<Rightarrow> 'd \<Rightarrow> osal_status \<times> 's"
    and idof :: "'d \<Rightarrow> u32"
  assumes create_ok: "inv s \<Longrightarrow> cr s c = (OSAL_OK, r, s') \<Longrightarrow>
      \<exists>h. r = Some h \<and> unat h < cap \<and> unat h \<notin> live s \<and> live s' = insert (unat h) (live s) \<and> inv s'"
    and create_err: "inv s \<Longrightarrow> cr s c = (st, r, s') \<Longrightarrow> st \<noteq> OSAL_OK \<Longrightarrow> live s' = live s \<and> inv s'"
    and destroy_ok: "inv s \<Longrightarrow> de s d = (OSAL_OK, s') \<Longrightarrow>
      unat (idof d) \<in> live s \<and> live s' = live s - {unat (idof d)} \<and> inv s'"
    and destroy_err: "inv s \<Longrightarrow> de s d = (st, s') \<Longrightarrow> st \<noteq> OSAL_OK \<Longrightarrow> live s' = live s \<and> inv s'"
begin

definition held :: "'s \<Rightarrow> u32 list \<Rightarrow> bool" where
  "held s hs \<longleftrightarrow> inv s \<and> live s = unat ` set hs \<and> distinct hs \<and> (\<forall>h \<in> set hs. unat h < cap)"

lemma held_create:
  assumes "held s hs" "cr s c = (st, r, s')"
  shows "held s' (if st = OSAL_OK then the r # hs else hs)"
proof (cases "st = OSAL_OK")
  case True
  with create_ok [of s c r s'] assms obtain h where
    "r = Some h" "unat h < cap" "unat h \<notin> live s" "live s' = insert (unat h) (live s)" "inv s'"
    by (auto simp: held_def)
  with assms(1) True show ?thesis by (auto simp: held_def)
next
  case False
  with create_err [of s c st r s'] assms show ?thesis by (simp add: held_def)
qed

lemma held_destroy:
  assumes "held s hs" "de s d = (st, s')"
  shows "held s' (if st = OSAL_OK then removeAll (idof d) hs else hs)"
proof (cases "st = OSAL_OK")
  case True
  with destroy_ok [of s d s'] assms show ?thesis
    by (simp add: held_def unat_image_remove distinct_removeAll)
next
  case False
  with destroy_err [of s d st s'] assms show ?thesis by (simp add: held_def)
qed

lemma run_held: "held s hs \<Longrightarrow> tab_run cr de idof s hs ops = (s', hs') \<Longrightarrow> held s' hs'"
proof (induction ops arbitrary: s hs)
  case (Cons a ops)
  then show ?case
    by (cases a) (auto split: prod.splits dest: held_create held_destroy)
qed simp

lemma held_bound: "held s hs \<Longrightarrow> length hs \<le> cap"
proof -
  assume h: "held s hs"
  then have "unat ` set hs \<subseteq> {..<cap}" by (auto simp: held_def)
  then have "card (unat ` set hs) \<le> cap" using card_mono [of "{..<cap}"] by simp
  moreover have "card (unat ` set hs) = length hs"
    using h card_image [OF inj_on_unat [of "set hs"]] by (simp add: held_def distinct_card)
  ultimately show ?thesis by simp
qed

text \<open>
  From a table with no live object, whatever the callers create and destroy: the ids they hold
  are pairwise different, below the capacity, and are exactly the live slots.
\<close>

lemma handles_distinct:
  assumes "inv s" "live s = {}" "tab_run cr de idof s [] ops = (s', hs)"
  shows "distinct hs \<and> length hs \<le> cap \<and> live s' = unat ` set hs"
proof -
  have "held s' hs" using run_held [of s "[]" ops s' hs] assms by (simp add: held_def)
  then show ?thesis using held_bound by (auto simp: held_def)
qed

end

end
