(* ===== verification/Os_Core.thy ===== *)
theory Os_Core
  imports Handle_Table
begin

text \<open>
  The object tables of the OS abstraction layer, \<^verbatim>\<open>system/gw_os_api_core.c\<close>: threads,
  counting semaphores and mutexes (the branch compiled without \<^verbatim>\<open>CYG_LINUX\<close>). Every API
  call is one step, as it is under the table mutex of the code. What the operating system
  returns (a new thread id, the result of \<^verbatim>\<open>malloc\<close>, the status of \<^verbatim>\<open>sem_init\<close>) is an
  argument of the call; the value of a POSIX semaphore and the lock bit of a mutex are part
  of the state.
\<close>

section \<open>Tables\<close>

definition GW_OSAL_MAX_THREAD :: nat where "GW_OSAL_MAX_THREAD = 32"
definition GW_OSAL_MAX_COUNT_SEM :: nat where "GW_OSAL_MAX_COUNT_SEM = 50"
definition GW_OSAL_MAX_MUTEX :: nat where "GW_OSAL_MAX_MUTEX = 60"
definition GW_OSAL_MAX_QUEUE :: nat where "GW_OSAL_MAX_QUEUE = 10"
definition GW_OSAL_MAX_API_NAME :: nat where "GW_OSAL_MAX_API_NAME = 20"
definition GW_OSAL_MAX_QUEUE_PRI :: nat where "GW_OSAL_MAX_QUEUE_PRI = 8"
definition GW_OSAL_MAX_PRI :: nat where "GW_OSAL_MAX_PRI = 250"
definition SEM_VALUE_MAX :: nat where "SEM_VALUE_MAX = 2147483647"

lemmas osal_limits = GW_OSAL_MAX_THREAD_def GW_OSAL_MAX_COUNT_SEM_def GW_OSAL_MAX_MUTEX_def
  GW_OSAL_MAX_QUEUE_def GW_OSAL_MAX_API_NAME_def GW_OSAL_MAX_QUEUE_PRI_def GW_OSAL_MAX_PRI_def

record osal_thread =
  th_free :: bool
  th_id :: u32
  th_name :: string
  th_creator :: u32
  th_stack_size :: u32
  th_priority :: u32
  th_stack_buf :: "addr option"

record osal_sem =
  sm_free :: bool
  sm_id :: nat
  sm_name :: string
  sm_creator :: int

record osal_mut =
  mu_free :: bool
  mu_id :: bool
  mu_name :: string
  mu_creator :: int

text \<open>
  \<^verbatim>\<open>queue_size\<close> and \<^verbatim>\<open>depth\<close> are set from unsigned arguments and only compared with
  unsigned values, so they are kept as such. A queue list holds the messages of its nodes: the
  nodes are allocated by \<^verbatim>\<open>put\<close> and freed by \<^verbatim>\<open>get\<close>, and the list theory shows that
  \<^verbatim>\<open>gw_lst_add\<close> and \<^verbatim>\<open>gw_lst_get\<close> act on such a list as \<open>list_put\<close> and \<open>list_take\<close>.
\<close>

record osal_queue =
  qu_free :: bool
  qu_id :: int
  qu_name :: string
  qu_creator :: int
  qu_queue_size :: u32
  qu_depth :: u32
  qu_queue_type :: int
  qu_pri_num :: int
  qu_cnt_sem_id :: u32
  qu_queue_list :: "u8 list list list"
  qu_queue_mutex :: "u32 list"
  qu_pri_queue_peek :: "u32 list"
  qu_cur_num :: u32
  qu_peek_value :: u32
  qu_put_error :: u32
  qu_put_full_error :: u32
  qu_put_timeout_error :: u32
  qu_put_data_error :: u32
  qu_put_data_long :: u32
  qu_get_error :: u32
  qu_get_timeout_error :: u32
  qu_get_data_error :: u32
  qu_get_data_long :: u32

record osal =
  gw_osal_thread_table :: "osal_thread list"
  gw_osal_count_sem_table :: "osal_sem list"
  gw_osal_mut_table :: "osal_mut list"
  gw_osal_queue_table :: "osal_queue list"

definition thread_zero :: osal_thread where
  "thread_zero = \<lparr>th_free = True, th_id = 0, th_name = '''', th_creator = 0, th_stack_size = 0,
     th_priority = 0, th_stack_buf = None\<rparr>"

definition sem_zero :: osal_sem where
  "sem_zero = \<lparr>sm_free = True, sm_id = 0, sm_name = '''', sm_creator = 0\<rparr>"

definition mut_zero :: osal_mut where
  "mut_zero = \<lparr>mu_free = True, mu_id = False, mu_name = '''', mu_creator = 0\<rparr>"

definition queue_zero :: osal_queue where
  "queue_zero = \<lparr>qu_free = True, qu_id = 0, qu_name = '''', qu_creator = 0, qu_queue_size = 0,
     qu_depth = 0, qu_queue_type = 0, qu_pri_num = 0, qu_cnt_sem_id = 0,
     qu_queue_list = replicate 8 [], qu_queue_mutex = replicate 8 0,
     qu_pri_queue_peek = replicate 8 0, qu_cur_num = 0, qu_peek_value = 0, qu_put_error = 0,
     qu_put_full_error = 0, qu_put_timeout_error = 0, qu_put_data_error = 0,
     qu_put_data_long = 0, qu_get_error = 0, qu_get_timeout_error = 0, qu_get_data_error = 0,
     qu_get_data_long = 0\<rparr>"

text \<open>\<^verbatim>\<open>gw_osal_core_init\<close> clears every record and marks it free.\<close>

definition gw_osal_core_init :: osal where
  "gw_osal_core_init =
     \<lparr>gw_osal_thread_table = replicate GW_OSAL_MAX_THREAD thread_zero,
      gw_osal_count_sem_table = replicate GW_OSAL_MAX_COUNT_SEM sem_zero,
      gw_osal_mut_table = replicate GW_OSAL_MAX_MUTEX mut_zero,
      gw_osal_queue_table = replicate GW_OSAL_MAX_QUEUE queue_zero\<rparr>"

section \<open>Threads\<close>

text \<open>The slot whose recorded thread id is the caller's, free slots included; 32 when none is.\<close>

definition gw_creator_find :: "osal \<Rightarrow> u32 \<Rightarrow> u32" where
  "gw_creator_find os self =
     of_nat (first_idx (\<lambda>t. self = th_id t) (gw_osal_thread_table os))"

text \<open>
  \<open>has_id\<close>, \<open>has_fun\<close>: the pointer arguments are not NULL; \<open>stack\<close>: what \<^verbatim>\<open>malloc\<close> returned;
  \<open>tid\<close>: the thread id written by \<^verbatim>\<open>pthread_create\<close>, whose result is ignored; \<open>self\<close>: the
  calling thread. The third component of the result is the value stored through \<^verbatim>\<open>thread_id\<close>.
\<close>

definition gw_thread_create ::
  "osal \<Rightarrow> bool \<Rightarrow> string option \<Rightarrow> bool \<Rightarrow> u32 \<Rightarrow> u32 \<Rightarrow> addr option \<Rightarrow> u32 \<Rightarrow> u32 \<Rightarrow>
   osal_status \<times> u32 option \<times> osal" where
  "gw_thread_create os has_id name has_fun stack_size priority stack tid self =
     (case name of
        None \<Rightarrow> (OSAL_INVALID_POINTER, None, os)
      | Some thread_name \<Rightarrow>
          if \<not> has_fun \<or> \<not> has_id then (OSAL_INVALID_POINTER, None, os)
          else if length thread_name \<ge> GW_OSAL_MAX_API_NAME then (OSAL_ERR_NAME_TOO_LONG, None, os)
          else if unat priority > GW_OSAL_MAX_PRI then (OSAL_ERR_INVALID_PRIORITY, None, os)
          else if stack = None then (OSAL_ERR, None, os)
          else let i = first_idx th_free (gw_osal_thread_table os) in
            if i \<ge> GW_OSAL_MAX_THREAD then (OSAL_ERR_NO_FREE_IDS, None, os)
            else let t1 = (gw_osal_thread_table os ! i)\<lparr>th_free := False, th_id := tid, th_name := thread_name\<rparr>;
                     os1 = os\<lparr>gw_osal_thread_table := (gw_osal_thread_table os)[i := t1]\<rparr>;
                     t2 = t1\<lparr>th_creator := gw_creator_find os1 self, th_stack_size := stack_size,
                             th_priority := priority, th_stack_buf := stack\<rparr>
                 in (OSAL_OK, Some (of_nat i),
                     os1\<lparr>gw_osal_thread_table := (gw_osal_thread_table os1)[i := t2]\<rparr>))"

text \<open>Both ways to give up a thread's slot keep the recorded thread id.\<close>

definition thread_release :: "osal \<Rightarrow> nat \<Rightarrow> osal" where
  "thread_release os i =
     os\<lparr>gw_osal_thread_table := (gw_osal_thread_table os)
          [i := (gw_osal_thread_table os ! i)\<lparr>th_name := '''', th_free := True, th_creator := 0,
                  th_stack_size := 0, th_priority := 0, th_stack_buf := None\<rparr>]\<rparr>"

definition gw_thread_delete :: "osal \<Rightarrow> u32 \<Rightarrow> osal_status \<times> osal" where
  "gw_thread_delete os thread_id =
     (if unat thread_id \<ge> GW_OSAL_MAX_THREAD \<or> th_free (gw_osal_thread_table os ! unat thread_id)
      then (OSAL_ERR_INVALID_ID, os)
      else (OSAL_OK, thread_release os (unat thread_id)))"

definition gw_thread_exit :: "osal \<Rightarrow> u32 \<Rightarrow> osal_status \<times> osal" where
  "gw_thread_exit os self =
     (let thread_id = gw_creator_find os self in
      if unat thread_id \<ge> GW_OSAL_MAX_THREAD \<or> th_free (gw_osal_thread_table os ! unat thread_id)
      then (OSAL_ERR_INVALID_ID, os)
      else (OSAL_OK, thread_release os (unat thread_id)))"

section \<open>Counting semaphores\<close>

text \<open>\<open>os_ok\<close>: \<^verbatim>\<open>sem_init\<close> (or \<^verbatim>\<open>sem_destroy\<close>) succeeds.\<close>

definition gw_semaphore_init ::
  "osal \<Rightarrow> bool \<Rightarrow> string option \<Rightarrow> u32 \<Rightarrow> bool \<Rightarrow> osal_status \<times> u32 option \<times> osal" where
  "gw_semaphore_init os has_id name sem_initial_value os_ok =
     (case name of
        None \<Rightarrow> (OSAL_INVALID_POINTER, None, os)
      | Some sem_name \<Rightarrow>
          if \<not> has_id then (OSAL_INVALID_POINTER, None, os)
          else if length sem_name > GW_OSAL_MAX_API_NAME then (OSAL_ERR_NAME_TOO_LONG, None, os)
          else let i = first_idx sm_free (gw_osal_count_sem_table os) in
            if i \<ge> GW_OSAL_MAX_COUNT_SEM then (OSAL_ERR_NO_FREE_IDS, None, os)
            else if \<not> os_ok
            then (OSAL_ERR, None,
                  os\<lparr>gw_osal_count_sem_table := (gw_osal_count_sem_table os)[i := sem_zero]\<rparr>)
            else (OSAL_OK, Some (of_nat i),
                  os\<lparr>gw_osal_count_sem_table := (gw_osal_count_sem_table os)
                       [i := (gw_osal_count_sem_table os ! i)\<lparr>sm_free := False,
                               sm_id := unat sem_initial_value, sm_name := sem_name\<rparr>]\<rparr>))"

definition sem_valid :: "osal \<Rightarrow> u32 \<Rightarrow> bool" where
  "sem_valid os sem_id \<longleftrightarrow>
     \<not> (unat sem_id \<ge> GW_OSAL_MAX_COUNT_SEM \<or> sm_free (gw_osal_count_sem_table os ! unat sem_id))"

definition sem_value :: "osal \<Rightarrow> u32 \<Rightarrow> nat" where
  "sem_value os sem_id = sm_id (gw_osal_count_sem_table os ! unat sem_id)"

definition set_sem_value :: "osal \<Rightarrow> u32 \<Rightarrow> nat \<Rightarrow> osal" where
  "set_sem_value os sem_id v =
     os\<lparr>gw_osal_count_sem_table := (gw_osal_count_sem_table os)
          [unat sem_id := (gw_osal_count_sem_table os ! unat sem_id)\<lparr>sm_id := v\<rparr>]\<rparr>"

definition gw_semaphore_destroy :: "osal \<Rightarrow> u32 \<Rightarrow> bool \<Rightarrow> osal_status \<times> osal" where
  "gw_semaphore_destroy os sem_id os_ok =
     (if \<not> sem_valid os sem_id then (OSAL_ERR_INVALID_ID, os)
      else if \<not> os_ok then (OSAL_SEM_FAILURE, os)
      else (OSAL_OK,
            os\<lparr>gw_osal_count_sem_table := (gw_osal_count_sem_table os)[unat sem_id := sem_zero]\<rparr>))"

text \<open>\<^verbatim>\<open>sem_post\<close> fails at the largest value of a POSIX semaphore.\<close>

definition gw_semaphore_post :: "osal \<Rightarrow> u32 \<Rightarrow> osal_status \<times> osal" where
  "gw_semaphore_post os sem_id =
     (if \<not> sem_valid os sem_id then (OSAL_ERR_INVALID_ID, os)
      else if sem_value os sem_id \<ge> SEM_VALUE_MAX then (OSAL_SEM_FAILURE, os)
      else (OSAL_OK, set_sem_value os sem_id (sem_value os sem_id + 1)))"

text \<open>
  The timed wait polls every 100 ms. \<open>posts k\<close> is how often other threads post during the
  \<open>k\<close>-th sleep; the result is the status, the value left and the number of sleeps.
\<close>

function sem_timed_loop :: "(nat \<Rightarrow> nat) \<Rightarrow> nat \<Rightarrow> nat \<Rightarrow> int \<Rightarrow> osal_status \<times> nat \<times> nat" where
  "sem_timed_loop posts k v timeloop =
     (if timeloop > 0 then
        (if timeloop \<ge> 100 then
           (if v = 0 then sem_timed_loop posts (k + 1) (v + posts k) (timeloop - 100)
            else (OSAL_OK, v - 1, k))
         else if v = 0 then (OSAL_SEM_TIMEOUT, v, k)
              else (OSAL_OK, v - 1, k))
      else (OSAL_SEM_TIMEOUT, v, k))"
  by pat_completeness auto

termination sem_timed_loop
  by (relation "measure (\<lambda>(posts, k, v, timeloop). nat timeloop)") auto

declare sem_timed_loop.simps [simp del]

text \<open>
  \<open>None\<close>: the caller stays blocked (waiting forever on a semaphore of value 0).
\<close>

definition gw_semaphore_wait ::
  "(nat \<Rightarrow> nat) \<Rightarrow> osal \<Rightarrow> u32 \<Rightarrow> int \<Rightarrow> (osal_status \<times> osal) option" where
  "gw_semaphore_wait posts os sem_id timeout =
     (if \<not> sem_valid os sem_id then Some (OSAL_ERR_INVALID_ID, os)
      else if timeout = 0
      then (if sem_value os sem_id = 0 then Some (OSAL_ERR, os)
            else Some (OSAL_OK, set_sem_value os sem_id (sem_value os sem_id - 1)))
      else if timeout = -1
      then (if sem_value os sem_id = 0 then None
            else Some (OSAL_OK, set_sem_value os sem_id (sem_value os sem_id - 1)))
      else case sem_timed_loop posts 0 (sem_value os sem_id) timeout of
             (st, v, _) \<Rightarrow> Some (st, set_sem_value os sem_id v))"

definition gw_semaphore_number :: "osal \<Rightarrow> u32" where
  "gw_semaphore_number os =
     foldl (\<lambda>count s. if \<not> sm_free s then count + 1 else count) 0 (gw_osal_count_sem_table os)"

section \<open>Mutexes\<close>

definition gw_mutex_init ::
  "osal \<Rightarrow> bool \<Rightarrow> string option \<Rightarrow> bool \<Rightarrow> osal_status \<times> u32 option \<times> osal" where
  "gw_mutex_init os has_id name os_ok =
     (case name of
        None \<Rightarrow> (OSAL_INVALID_POINTER, None, os)
      | Some mut_name \<Rightarrow>
          if \<not> has_id then (OSAL_INVALID_POINTER, None, os)
          else if length mut_name > GW_OSAL_MAX_API_NAME then (OSAL_ERR_NAME_TOO_LONG, None, os)
          else let i = first_idx mu_free (gw_osal_mut_table os) in
            if i \<ge> GW_OSAL_MAX_MUTEX then (OSAL_ERR_NO_FREE_IDS, None, os)
            else if list_ex (\<lambda>x. \<not> mu_free x \<and> mut_name = mu_name x) (gw_osal_mut_table os)
            then (OSAL_ERR_NAME_TAKEN, None, os)
            else if \<not> os_ok
            then (OSAL_ERR, None, os\<lparr>gw_osal_mut_table := (gw_osal_mut_table os)[i := mut_zero]\<rparr>)
            else (OSAL_OK, Some (of_nat i),
                  os\<lparr>gw_osal_mut_table := (gw_osal_mut_table os)
                       [i := (gw_osal_mut_table os ! i)\<lparr>mu_free := False, mu_id := False,
                               mu_name := mut_name\<rparr>]\<rparr>))"

definition mut_valid :: "osal \<Rightarrow> u32 \<Rightarrow> bool" where
  "mut_valid os mut_id \<longleftrightarrow>
     \<not> (unat mut_id \<ge> GW_OSAL_MAX_MUTEX \<or> mu_free (gw_osal_mut_table os ! unat mut_id))"

definition mut_locked :: "osal \<Rightarrow> u32 \<Rightarrow> bool" where
  "mut_locked os mut_id = mu_id (gw_osal_mut_table os ! unat mut_id)"

definition set_mut_locked :: "osal \<Rightarrow> u32 \<Rightarrow> bool \<Rightarrow> osal" where
  "set_mut_locked os mut_id b =
     os\<lparr>gw_osal_mut_table := (gw_osal_mut_table os)
          [unat mut_id := (gw_osal_mut_table os ! unat mut_id)\<lparr>mu_id := b\<rparr>]\<rparr>"

definition gw_mutex_destroy :: "osal \<Rightarrow> u32 \<Rightarrow> bool \<Rightarrow> osal_status \<times> osal" where
  "gw_mutex_destroy os mut_id os_ok =
     (if \<not> mut_valid os mut_id then (OSAL_ERR_INVALID_ID, os)
      else if \<not> os_ok then (OSAL_SEM_FAILURE, os)
      else (OSAL_OK, os\<lparr>gw_osal_mut_table := (gw_osal_mut_table os)[unat mut_id := mut_zero]\<rparr>))"

definition gw_mutex_unlock :: "osal \<Rightarrow> u32 \<Rightarrow> osal_status \<times> osal" where
  "gw_mutex_unlock os mut_id =
     (if \<not> mut_valid os mut_id then (OSAL_ERR_INVALID_ID, os)
      else (OSAL_OK, set_mut_locked os mut_id False))"

text \<open>Locking a mutex that is held blocks the caller, the value \<open>None\<close>.\<close>

definition gw_mutex_lock :: "osal \<Rightarrow> u32 \<Rightarrow> (osal_status \<times> osal) option" where
  "gw_mutex_lock os mut_id =
     (if \<not> mut_valid os mut_id then Some (OSAL_ERR_INVALID_ID, os)
      else if mut_locked os mut_id then None
      else Some (OSAL_OK, set_mut_locked os mut_id True))"

definition gw_mutex_trylock :: "osal \<Rightarrow> u32 \<Rightarrow> osal_status \<times> osal" where
  "gw_mutex_trylock os mut_id =
     (if \<not> mut_valid os mut_id then (OSAL_ERR_INVALID_ID, os)
      else if mut_locked os mut_id then (OSAL_SEM_FAILURE, os)
      else (OSAL_OK, set_mut_locked os mut_id True))"

definition gw_mutex_number :: "osal \<Rightarrow> u32" where
  "gw_mutex_number os =
     foldl (\<lambda>count s. if \<not> mu_free s then count + 1 else count) 0 (gw_osal_mut_table os)"

section \<open>Time and error names\<close>

definition gw_milli_to_ticks :: "u32 \<Rightarrow> u32" where
  "gw_milli_to_ticks milli_seconds =
     (let sys_ticks = milli_seconds div 10 in if sys_ticks = 0 then 1 else sys_ticks)"

text \<open>The name of a status and the return code; \<open>None\<close> for a NULL result buffer.\<close>

definition gw_err_name_get :: "int \<Rightarrow> bool \<Rightarrow> osal_status \<times> string option" where
  "gw_err_name_get error_num has_name =
     (if \<not> has_name then (OSAL_OK, None)
      else if error_num = 0 then (OSAL_OK, Some ''GW_E_OSAL_OK'')
      else if error_num = -1 then (OSAL_OK, Some ''GW_E_OSAL_ERR'')
      else if error_num = 1 then (OSAL_OK, Some ''GW_E_OSAL_INVALID_POINTER'')
      else if error_num = 2 then (OSAL_OK, Some ''OSAL_ADDRESS_MISALIGNED'')
      else if error_num = 3 then (OSAL_OK, Some ''GW_E_OSAL_ERR_TIMEOUT'')
      else if error_num = 4 then (OSAL_OK, Some ''GW_E_OSAL_INVALID_INT_NUM'')
      else if error_num = 5 then (OSAL_OK, Some ''GW_E_OSAL_SEM_FAILURE'')
      else if error_num = 6 then (OSAL_OK, Some ''GW_E_OSAL_SEM_TIMEOUT'')
      else if error_num = 7 then (OSAL_OK, Some ''GW_E_OSAL_QUEUE_EMPTY'')
      else if error_num = 8 then (OSAL_OK, Some ''GW_E_OSAL_QUEUE_FULL'')
      else if error_num = 9 then (OSAL_OK, Some ''GW_E_OSAL_QUEUE_TIMEOUT'')
      else if error_num = 10 then (OSAL_OK, Some ''GW_E_OSAL_QUEUE_INVALID_SIZE'')
      else if error_num = 11 then (OSAL_OK, Some ''GW_E_OSAL_QUEUE_ID_ERROR'')
      else if error_num = 12 then (OSAL_OK, Some ''GW_E_OSAL_ERR_NAME_TOO_LONG'')
      else if error_num = 13 then (OSAL_OK, Some ''GW_E_OSAL_ERR_NO_FREE_IDS'')
      else if error_num = 14 then (OSAL_OK, Some ''GW_E_OSAL_ERR_NAME_TAKEN'')
      else if error_num = 15 then (OSAL_OK, Some ''GW_E_OSAL_ERR_INVALID_ID'')
      else if error_num = 16 then (OSAL_OK, Some ''GW_E_OSAL_ERR_NAME_NOT_FOUND'')
      else if error_num = 17 then (OSAL_OK, Some ''GW_E_OSAL_ERR_SEM_NOT_FULL'')
      else if error_num = 18 then (OSAL_OK, Some ''GW_E_OSAL_ERR_INVALID_PRIORITY'')
      else (OSAL_ERR, Some ''ERROR_UNKNOWN''))"

section \<open>Well-formed tables\<close>

definition osal_wf :: "osal \<Rightarrow> bool" where
  "osal_wf os \<longleftrightarrow>
     length (gw_osal_thread_table os) = GW_OSAL_MAX_THREAD \<and>
     length (gw_osal_count_sem_table os) = GW_OSAL_MAX_COUNT_SEM \<and>
     length (gw_osal_mut_table os) = GW_OSAL_MAX_MUTEX \<and>
     length (gw_osal_queue_table os) = GW_OSAL_MAX_QUEUE"

lemma osal_wf_init [simp]: "osal_wf gw_osal_core_init"
  by (simp add: osal_wf_def gw_osal_core_init_def)

lemma osal_wf_lengths:
  assumes "osal_wf os"
  shows "length (gw_osal_thread_table os) = GW_OSAL_MAX_THREAD"
    and "length (gw_osal_count_sem_table os) = GW_OSAL_MAX_COUNT_SEM"
    and "length (gw_osal_mut_table os) = GW_OSAL_MAX_MUTEX"
    and "length (gw_osal_queue_table os) = GW_OSAL_MAX_QUEUE"
  using assms by (auto simp: osal_wf_def)

lemma osal_wf_updates [simp]:
  "osal_wf os \<Longrightarrow> length ts = GW_OSAL_MAX_THREAD \<Longrightarrow> osal_wf (os\<lparr>gw_osal_thread_table := ts\<rparr>)"
  "osal_wf os \<Longrightarrow> length ss = GW_OSAL_MAX_COUNT_SEM \<Longrightarrow> osal_wf (os\<lparr>gw_osal_count_sem_table := ss\<rparr>)"
  "osal_wf os \<Longrightarrow> length ms = GW_OSAL_MAX_MUTEX \<Longrightarrow> osal_wf (os\<lparr>gw_osal_mut_table := ms\<rparr>)"
  "osal_wf os \<Longrightarrow> length qs = GW_OSAL_MAX_QUEUE \<Longrightarrow> osal_wf (os\<lparr>gw_osal_queue_table := qs\<rparr>)"
  by (simp_all add: osal_wf_def)

abbreviation live_threads :: "osal \<Rightarrow> nat set" where
  "live_threads os \<equiv> live_slots th_free (gw_osal_thread_table os)"

abbreviation live_sems :: "osal \<Rightarrow> nat set" where
  "live_sems os \<equiv> live_slots sm_free (gw_osal_count_sem_table os)"

abbreviation live_muts :: "osal \<Rightarrow> nat set" where
  "live_muts os \<equiv> live_slots mu_free (gw_osal_mut_table os)"

lemma sem_valid_iff: "osal_wf os \<Longrightarrow> sem_valid os i \<longleftrightarrow> unat i \<in> live_sems os"
  by (auto simp: sem_valid_def live_slots_def osal_wf_def)

lemma mut_valid_iff: "osal_wf os \<Longrightarrow> mut_valid os i \<longleftrightarrow> unat i \<in> live_muts os"
  by (auto simp: mut_valid_def live_slots_def osal_wf_def)

section \<open>Creation and destruction keep the laws of a handle table\<close>

lemma first_free_slot:
  assumes "length xs = cap" "first_idx fr xs < cap" "cap < 2 ^ 32"
  shows "unat (of_nat (first_idx fr xs) :: u32) = first_idx fr xs"
    "first_idx fr xs \<notin> live_slots fr xs"
  using assms live_slots_first [of fr xs] by (auto simp: unat_of_nat_u32)

definition sem_create_call :: "osal \<Rightarrow> bool \<times> string option \<times> u32 \<times> bool \<Rightarrow> osal_status \<times> u32 option \<times> osal" where
  "sem_create_call os = (\<lambda>(has_id, name, v, os_ok). gw_semaphore_init os has_id name v os_ok)"

definition sem_destroy_call :: "osal \<Rightarrow> u32 \<times> bool \<Rightarrow> osal_status \<times> osal" where
  "sem_destroy_call os = (\<lambda>(i, os_ok). gw_semaphore_destroy os i os_ok)"

definition mut_create_call :: "osal \<Rightarrow> bool \<times> string option \<times> bool \<Rightarrow> osal_status \<times> u32 option \<times> osal" where
  "mut_create_call os = (\<lambda>(has_id, name, os_ok). gw_mutex_init os has_id name os_ok)"

definition mut_destroy_call :: "osal \<Rightarrow> u32 \<times> bool \<Rightarrow> osal_status \<times> osal" where
  "mut_destroy_call os = (\<lambda>(i, os_ok). gw_mutex_destroy os i os_ok)"

definition thread_create_call ::
  "osal \<Rightarrow> bool \<times> string option \<times> bool \<times> u32 \<times> u32 \<times> addr option \<times> u32 \<times> u32 \<Rightarrow>
   osal_status \<times> u32 option \<times> osal" where
  "thread_create_call os = (\<lambda>(has_id, name, has_fun, size, pri, stack, tid, self).
     gw_thread_create os has_id name has_fun size pri stack tid self)"

interpretation semtab: handle_table osal_wf live_sems GW_OSAL_MAX_COUNT_SEM
  sem_create_call sem_destroy_call fst
proof
  fix s c r s' assume wf: "osal_wf s" and c: "sem_create_call s c = (OSAL_OK, r, s')"
  obtain a n v k where c2: "c = (a, n, v, k)" by (cases c)
  show "\<exists>h. r = Some h \<and> unat h < GW_OSAL_MAX_COUNT_SEM \<and> unat h \<notin> live_sems s \<and>
      live_sems s' = insert (unat h) (live_sems s) \<and> osal_wf s'"
    using c wf osal_wf_lengths(2) [OF wf]
      first_free_slot [of "gw_osal_count_sem_table s" GW_OSAL_MAX_COUNT_SEM sm_free]
    by (auto simp: c2 sem_create_call_def gw_semaphore_init_def Let_def osal_limits
          split: option.splits if_splits)
next
  fix s c st r s' assume wf: "osal_wf s" and c: "sem_create_call s c = (st, r, s')" and e: "st \<noteq> OSAL_OK"
  obtain a n v k where c2: "c = (a, n, v, k)" by (cases c)
  show "live_sems s' = live_sems s \<and> osal_wf s'"
    using c e wf osal_wf_lengths(2) [OF wf]
      first_free_slot [of "gw_osal_count_sem_table s" GW_OSAL_MAX_COUNT_SEM sm_free]
    by (auto simp: c2 sem_create_call_def gw_semaphore_init_def Let_def osal_limits sem_zero_def
          split: option.splits if_splits)
next
  fix s d s' assume wf: "osal_wf s" and d: "sem_destroy_call s d = (OSAL_OK, s')"
  show "unat (fst d) \<in> live_sems s \<and> live_sems s' = live_sems s - {unat (fst d)} \<and> osal_wf s'"
    using d wf osal_wf_lengths(2) [OF wf] sem_valid_iff [OF wf, of "fst d"]
    by (cases d) (auto simp: sem_destroy_call_def gw_semaphore_destroy_def sem_zero_def sem_valid_def
          osal_limits live_slots_def nth_list_update split: if_splits)
next
  fix s d st s' assume wf: "osal_wf s" and d: "sem_destroy_call s d = (st, s')" and e: "st \<noteq> OSAL_OK"
  show "live_sems s' = live_sems s \<and> osal_wf s'"
    using d e wf
    by (cases d) (auto simp: sem_destroy_call_def gw_semaphore_destroy_def split: if_splits)
qed

text \<open>Live mutexes have pairwise different names.\<close>

definition mut_names_ok :: "osal \<Rightarrow> bool" where
  "mut_names_ok os \<longleftrightarrow>
     (\<forall>i \<in> live_muts os. \<forall>j \<in> live_muts os.
        mu_name (gw_osal_mut_table os ! i) = mu_name (gw_osal_mut_table os ! j) \<longrightarrow> i = j)"

definition mut_inv :: "osal \<Rightarrow> bool" where
  "mut_inv os \<longleftrightarrow> osal_wf os \<and> mut_names_ok os"

lemma mut_names_drop:
  assumes "mut_names_ok os" "mu_free x" "i < length (gw_osal_mut_table os)"
  shows "mut_names_ok (os\<lparr>gw_osal_mut_table := (gw_osal_mut_table os)[i := x]\<rparr>)"
  using assms by (auto simp: mut_names_ok_def nth_list_update)

lemma mut_names_add:
  assumes "mut_names_ok os" "i < length (gw_osal_mut_table os)" "i \<notin> live_muts os"
    and "\<not> list_ex (\<lambda>y. \<not> mu_free y \<and> mu_name x = mu_name y) (gw_osal_mut_table os)"
  shows "mut_names_ok (os\<lparr>gw_osal_mut_table := (gw_osal_mut_table os)[i := x]\<rparr>)"
proof -
  have n: "mu_name x \<noteq> mu_name (gw_osal_mut_table os ! j)" if "j \<in> live_muts os" for j
    using assms(4) that nth_mem [of j "gw_osal_mut_table os"]
    by (auto simp: list_ex_iff live_slots_def simp del: nth_mem)
  show ?thesis
    using assms(1-3) n n [symmetric] by (auto simp: mut_names_ok_def nth_list_update)
qed

interpretation muttab: handle_table mut_inv live_muts GW_OSAL_MAX_MUTEX
  mut_create_call mut_destroy_call fst
proof
  fix s c r s' assume inv: "mut_inv s" and c: "mut_create_call s c = (OSAL_OK, r, s')"
  obtain a n k where c2: "c = (a, n, k)" by (cases c)
  have wf: "osal_wf s" using inv by (simp add: mut_inv_def)
  let ?i = "first_idx mu_free (gw_osal_mut_table s)"
  from c obtain nm where n: "n = Some nm" and i: "?i < GW_OSAL_MAX_MUTEX" and r: "r = Some (of_nat ?i)"
    and nt: "\<not> list_ex (\<lambda>x. \<not> mu_free x \<and> nm = mu_name x) (gw_osal_mut_table s)"
    and s': "s' = s\<lparr>gw_osal_mut_table := (gw_osal_mut_table s)
        [?i := (gw_osal_mut_table s ! ?i)\<lparr>mu_free := False, mu_id := False, mu_name := nm\<rparr>]\<rparr>"
    by (auto simp: c2 mut_create_call_def gw_mutex_init_def Let_def split: option.splits if_splits)
  note f = first_free_slot [of "gw_osal_mut_table s" GW_OSAL_MAX_MUTEX mu_free, OF osal_wf_lengths(3) [OF wf] i]
  show "\<exists>h. r = Some h \<and> unat h < GW_OSAL_MAX_MUTEX \<and> unat h \<notin> live_muts s \<and>
      live_muts s' = insert (unat h) (live_muts s) \<and> mut_inv s'"
    using inv wf r s' i f nt osal_wf_lengths(3) [OF wf]
    by (auto simp: mut_inv_def osal_limits intro!: mut_names_add)
next
  fix s c st r s' assume inv: "mut_inv s" and c: "mut_create_call s c = (st, r, s')" and e: "st \<noteq> OSAL_OK"
  obtain a n k where c2: "c = (a, n, k)" by (cases c)
  have wf: "osal_wf s" using inv by (simp add: mut_inv_def)
  show "live_muts s' = live_muts s \<and> mut_inv s'"
    using c e inv osal_wf_lengths(3) [OF wf]
      first_free_slot [of "gw_osal_mut_table s" GW_OSAL_MAX_MUTEX mu_free]
    by (auto simp: mut_inv_def c2 mut_create_call_def gw_mutex_init_def Let_def osal_limits mut_zero_def
          split: option.splits if_splits intro!: mut_names_drop)
next
  fix s d s' assume inv: "mut_inv s" and d: "mut_destroy_call s d = (OSAL_OK, s')"
  have wf: "osal_wf s" using inv by (simp add: mut_inv_def)
  show "unat (fst d) \<in> live_muts s \<and> live_muts s' = live_muts s - {unat (fst d)} \<and> mut_inv s'"
    using d inv osal_wf_lengths(3) [OF wf] mut_valid_iff [OF wf, of "fst d"]
    by (cases d) (auto simp: mut_inv_def mut_destroy_call_def gw_mutex_destroy_def mut_zero_def
        live_slots_bound osal_limits dest: live_slots_bound split: if_splits intro!: mut_names_drop)
next
  fix s d st s' assume inv: "mut_inv s" and d: "mut_destroy_call s d = (st, s')" and e: "st \<noteq> OSAL_OK"
  show "live_muts s' = live_muts s \<and> mut_inv s'"
    using d e inv
    by (cases d) (auto simp: mut_destroy_call_def gw_mutex_destroy_def split: if_splits)
qed

lemma thread_live_iff: "osal_wf os \<Longrightarrow>
    unat i < GW_OSAL_MAX_THREAD \<and> \<not> th_free (gw_osal_thread_table os ! unat i) \<longleftrightarrow> unat i \<in> live_threads os"
  by (auto simp: live_slots_def osal_wf_def)

lemma thread_release_live:
  assumes "osal_wf os" "i < GW_OSAL_MAX_THREAD"
  shows "live_threads (thread_release os i) = live_threads os - {i}" "osal_wf (thread_release os i)"
  using assms osal_wf_lengths(1) [of os] by (simp_all add: thread_release_def)

interpretation thrtab: handle_table osal_wf live_threads GW_OSAL_MAX_THREAD
  thread_create_call gw_thread_delete id
proof
  fix s c r s' assume wf: "osal_wf s" and c: "thread_create_call s c = (OSAL_OK, r, s')"
  obtain a n f z p b t e where c2: "c = (a, n, f, z, p, b, t, e)"
    using surj_pair by metis
  show "\<exists>h. r = Some h \<and> unat h < GW_OSAL_MAX_THREAD \<and> unat h \<notin> live_threads s \<and>
      live_threads s' = insert (unat h) (live_threads s) \<and> osal_wf s'"
    using c wf osal_wf_lengths(1) [OF wf]
      first_free_slot [of "gw_osal_thread_table s" GW_OSAL_MAX_THREAD th_free]
    by (auto simp: c2 thread_create_call_def gw_thread_create_def Let_def osal_limits
          split: option.splits if_splits)
next
  fix s c st r s' assume wf: "osal_wf s" and c: "thread_create_call s c = (st, r, s')" and e: "st \<noteq> OSAL_OK"
  obtain a n f z p b t u where c2: "c = (a, n, f, z, p, b, t, u)"
    using surj_pair by metis
  show "live_threads s' = live_threads s \<and> osal_wf s'"
    using c e wf
    by (auto simp: c2 thread_create_call_def gw_thread_create_def Let_def
          split: option.splits if_splits)
next
  fix s d s' assume wf: "osal_wf s" and d: "gw_thread_delete s d = (OSAL_OK, s')"
  then have "unat d < GW_OSAL_MAX_THREAD" "\<not> th_free (gw_osal_thread_table s ! unat d)"
    "s' = thread_release s (unat d)"
    by (auto simp: gw_thread_delete_def split: if_splits)
  then show "unat (id d) \<in> live_threads s \<and> live_threads s' = live_threads s - {unat (id d)} \<and> osal_wf s'"
    using thread_live_iff [OF wf, of d] thread_release_live [OF wf] by simp
next
  fix s d st s' assume wf: "osal_wf s" and d: "gw_thread_delete s d = (st, s')" and e: "st \<noteq> OSAL_OK"
  then show "live_threads s' = live_threads s \<and> osal_wf s'"
    by (auto simp: gw_thread_delete_def split: if_splits)
qed

section \<open>The timed wait\<close>

text \<open>
  \<open>sem_tries t\<close>: how many times the loop of \<^verbatim>\<open>gw_semaphore_wait\<close> tries the semaphore.
\<close>

definition sem_tries :: "int \<Rightarrow> nat" where
  "sem_tries t = nat ((t + 99) div 100)"

lemma sem_tries_step: "t \<ge> 100 \<Longrightarrow> sem_tries t = Suc (sem_tries (t - 100))"
proof -
  assume "t \<ge> 100"
  moreover have "(t + 99) div 100 = (t - 100 + 99) div 100 + 1" by simp
  ultimately show ?thesis by (simp add: sem_tries_def Suc_nat_eq_nat_zadd1 del: div_pos_pos_trivial)
qed

lemma sem_tries_last: "0 < t \<Longrightarrow> t < 100 \<Longrightarrow> sem_tries t = 1"
proof -
  assume "0 < t" "t < 100"
  then have "(t + 99) div 100 = 1"
    using div_pos_geq [of 100 "t + 99"] by (simp add: div_pos_pos_trivial)
  then show ?thesis by (simp add: sem_tries_def)
qed

lemma sum_shift: "(\<Sum>i<Suc j. f (k + i)) = f k + (\<Sum>i<j. f (Suc k + i) :: nat)"
  by (simp add: sum.lessThan_Suc_shift del: sum.lessThan_Suc)

lemma ex_less_Suc_shift: "(\<exists>j<Suc n. P j) \<longleftrightarrow> P 0 \<or> (\<exists>j<n. P (Suc j))"
  by (metis less_Suc_eq_0_disj)

lemma sem_timed_loop_spec:
  "sem_timed_loop posts k v t = (st, v', k') \<Longrightarrow>
   st \<in> {OSAL_OK, OSAL_SEM_TIMEOUT} \<and>
   (st = OSAL_OK \<longleftrightarrow> (\<exists>j < sem_tries t. 0 < v + (\<Sum>i<j. posts (k + i)))) \<and>
   k \<le> k' \<and> (0 \<le> t \<longrightarrow> 100 * int (k' - k) \<le> t) \<and>
   v' + (if st = OSAL_OK then 1 else 0) = v + (\<Sum>i<k'-k. posts (k + i))"
proof (induction posts k v t arbitrary: st v' k' rule: sem_timed_loop.induct)
  case (1 posts k v t)
  consider (again) "t \<ge> 100" "v = 0" | (got) "t > 0" "v > 0" | (last) "0 < t" "t < 100" "v = 0" | (over) "t \<le> 0"
    by linarith
  then show ?case
  proof cases
    case again
    from 1(2) again have r: "sem_timed_loop posts (k + 1) (v + posts k) (t - 100) = (st, v', k')"
      by (subst (asm) sem_timed_loop.simps) simp
    have t: "t > 0" using again by simp
    note ih = 1(1) [OF t again r]
    from ih have "k + 1 \<le> k'" by (elim conjE)
    then have d: "k' - k = Suc (k' - (k + 1))" by simp
    show ?thesis using ih again
      by (auto simp: d sem_tries_step ex_less_Suc_shift sum_shift simp del: sum.lessThan_Suc)
  next
    case got
    from 1(2) got have "st = OSAL_OK" "v' = v - 1" "k' = k"
      by (subst (asm) sem_timed_loop.simps; simp split: if_splits)+
    moreover have "0 < sem_tries t"
      using got sem_tries_step [of t] sem_tries_last [of t] by (cases "t \<ge> 100") auto
    ultimately show ?thesis using got by (auto intro!: exI [of _ 0])
  next
    case last
    from 1(2) last have "st = OSAL_SEM_TIMEOUT" "v' = v" "k' = k"
      by (subst (asm) sem_timed_loop.simps; simp)+
    then show ?thesis using last by (simp add: sem_tries_last)
  next
    case over
    from 1(2) over have "st = OSAL_SEM_TIMEOUT" "v' = v" "k' = k"
      by (subst (asm) sem_timed_loop.simps; simp)+
    then show ?thesis using over by (simp add: sem_tries_def)
  qed
qed

section \<open>Threads find their own slot\<close>

text \<open>
  Freed slots keep their old thread id, and \<^verbatim>\<open>gw_creator_find\<close> does not skip them. Since a
  new thread takes the first free slot, no slot before a live one ever holds its id.
\<close>

definition thr_ids_ok :: "osal \<Rightarrow> bool" where
  "thr_ids_ok os \<longleftrightarrow> osal_wf os \<and>
     (\<forall>i \<in> live_threads os. \<forall>j < i.
        th_id (gw_osal_thread_table os ! j) \<noteq> th_id (gw_osal_thread_table os ! i))"

lemma thr_ids_init: "thr_ids_ok gw_osal_core_init"
  by (simp add: thr_ids_ok_def) (simp add: gw_osal_core_init_def thread_zero_def)

lemma thr_ids_release [gw_inv_intros]:
  assumes "thr_ids_ok os" "i < GW_OSAL_MAX_THREAD"
  shows "thr_ids_ok (thread_release os i)"
proof -
  have wf: "osal_wf os" using assms(1) by (simp add: thr_ids_ok_def)
  have ids: "th_id (gw_osal_thread_table (thread_release os i) ! j) = th_id (gw_osal_thread_table os ! j)" for j
    using assms(2) osal_wf_lengths(1) [OF wf] by (auto simp: thread_release_def nth_list_update)
  show ?thesis
    using assms thread_release_live [OF wf assms(2)] by (auto simp: thr_ids_ok_def ids)
qed

lemma gw_thread_create_cases:
  assumes "gw_thread_create os a n f z p b tid self = (st, r, os')" "osal_wf os"
  shows "os' = os \<and> st \<noteq> OSAL_OK \<or>
    (let f = first_idx th_free (gw_osal_thread_table os); t = gw_osal_thread_table os' ! f in
       st = OSAL_OK \<and> f < GW_OSAL_MAX_THREAD \<and> \<not> th_free t \<and> th_id t = tid \<and>
       os' = os\<lparr>gw_osal_thread_table := (gw_osal_thread_table os)[f := t]\<rparr>)"
  using assms osal_wf_lengths(1) [of os] by (auto simp: gw_thread_create_def Let_def split: option.splits if_splits)

lemma before_first_free:
  "j < first_idx fr xs \<Longrightarrow> j \<in> live_slots fr xs"
  using first_idx_less [of j fr xs] first_idx_le [of fr xs] by (simp add: live_slots_def del: first_idx_le)

lemma thr_ids_create [gw_inv_intros]:
  assumes ok: "thr_ids_ok os" and c: "gw_thread_create os a n f z p b tid self = (st, r, os')"
    and fresh: "\<forall>i \<in> live_threads os. th_id (gw_osal_thread_table os ! i) \<noteq> tid"
  shows "thr_ids_ok os'"
proof -
  have wf: "osal_wf os" using ok by (simp add: thr_ids_ok_def)
  note len = osal_wf_lengths(1) [OF wf]
  let ?f = "first_idx th_free (gw_osal_thread_table os)"
  from gw_thread_create_cases [OF c wf] consider "os' = os"
    | t where "?f < GW_OSAL_MAX_THREAD" "\<not> th_free t" "th_id t = tid"
        "os' = os\<lparr>gw_osal_thread_table := (gw_osal_thread_table os)[?f := t]\<rparr>"
    unfolding Let_def by blast
  then show ?thesis
  proof cases
    case 1
    with ok show ?thesis by simp
  next
    case 2
    have "th_id ((gw_osal_thread_table os)[?f := t] ! j) \<noteq> th_id ((gw_osal_thread_table os)[?f := t] ! i)"
      if "i \<in> insert ?f (live_threads os)" "j < i" for i j
      using that fresh ok 2 len before_first_free [of j th_free "gw_osal_thread_table os"]
        live_slots_bound [of i th_free "gw_osal_thread_table os"]
      by (cases "i = ?f"; cases "j = ?f") (auto simp: thr_ids_ok_def)
    with 2 wf len show ?thesis by (auto simp: thr_ids_ok_def)
  qed
qed

lemma creator_find_own:
  assumes "thr_ids_ok os" "i \<in> live_threads os"
  shows "gw_creator_find os (th_id (gw_osal_thread_table os ! i)) = of_nat i"
proof -
  have "first_idx (\<lambda>t. th_id (gw_osal_thread_table os ! i) = th_id t) (gw_osal_thread_table os) = i"
    using assms live_slots_bound [OF assms(2)] by (intro first_idx_eqI) (auto simp: thr_ids_ok_def eq_commute [of "th_id (gw_osal_thread_table os ! i)"])
  then show ?thesis by (simp add: gw_creator_find_def)
qed

lemma thread_exit_own:
  assumes "thr_ids_ok os" "i \<in> live_threads os"
  shows "gw_thread_exit os (th_id (gw_osal_thread_table os ! i)) = (OSAL_OK, thread_release os i)"
proof -
  have "i < GW_OSAL_MAX_THREAD" "\<not> th_free (gw_osal_thread_table os ! i)"
    using assms osal_wf_lengths(1) [of os] by (auto simp: thr_ids_ok_def live_slots_def)
  then show ?thesis
    by (simp add: gw_thread_exit_def creator_find_own [OF assms] unat_of_nat_u32 osal_limits)
qed

text \<open>Runs of the thread calls, each creation with an id no live thread has.\<close>

datatype thr_op =
    ThCreate bool "string option" bool u32 u32 "addr option" u32 u32
  | ThDelete u32
  | ThExit u32

fun thr_step :: "osal \<Rightarrow> thr_op \<Rightarrow> osal" where
  "thr_step os (ThCreate a n f z p b tid self) = snd (snd (gw_thread_create os a n f z p b tid self))"
| "thr_step os (ThDelete i) = snd (gw_thread_delete os i)"
| "thr_step os (ThExit self) = snd (gw_thread_exit os self)"

fun thr_fresh :: "osal \<Rightarrow> thr_op list \<Rightarrow> bool" where
  "thr_fresh os [] = True"
| "thr_fresh os (ThCreate a n f z p b tid self # ops) \<longleftrightarrow>
     list_all (\<lambda>t. th_free t \<or> th_id t \<noteq> tid) (gw_osal_thread_table os) \<and>
     thr_fresh (thr_step os (ThCreate a n f z p b tid self)) ops"
| "thr_fresh os (opr # ops) \<longleftrightarrow> thr_fresh (thr_step os opr) ops"

lemma thr_ids_run: "thr_ids_ok os \<Longrightarrow> thr_fresh os ops \<Longrightarrow> thr_ids_ok (foldl thr_step os ops)"
proof (induction ops arbitrary: os)
  case (Cons x ops)
  show ?case
  proof (cases x)
    case (ThCreate a n f z p b tid self)
    obtain st r os' where c: "gw_thread_create os a n f z p b tid self = (st, r, os')"
      by (metis surj_pair)
    have "\<forall>i \<in> live_threads os. th_id (gw_osal_thread_table os ! i) \<noteq> tid"
      using Cons.prems ThCreate by (auto simp: live_slots_def list_all_length)
    from thr_ids_create [OF Cons.prems(1) c this] Cons ThCreate c show ?thesis by simp
  next
    case (ThDelete i)
    have "thr_ids_ok (snd (gw_thread_delete os i))"
      using Cons.prems(1) thr_ids_release by (simp add: gw_thread_delete_def)
    with Cons ThDelete show ?thesis by simp
  next
    case (ThExit self)
    have "thr_ids_ok (snd (gw_thread_exit os self))"
      using Cons.prems(1) thr_ids_release by (simp add: gw_thread_exit_def Let_def)
    with Cons ThExit show ?thesis by simp
  qed
qed simp

section \<open>Properties\<close>

text \<open>
  C30. Whatever sequence of create and destroy calls the clients make after
  \<^verbatim>\<open>gw_osal_core_init\<close>, the ids they hold are pairwise different, never more than the capacity
  of the table, and name exactly its live slots: for semaphores, mutexes and threads.
\<close>

theorem os_handles_unique:
  "(case tab_run sem_create_call sem_destroy_call fst gw_osal_core_init [] sops of (os, hs) \<Rightarrow>
      distinct hs \<and> length hs \<le> GW_OSAL_MAX_COUNT_SEM \<and> live_sems os = unat ` set hs) \<and>
   (case tab_run mut_create_call mut_destroy_call fst gw_osal_core_init [] mops of (os, hs) \<Rightarrow>
      distinct hs \<and> length hs \<le> GW_OSAL_MAX_MUTEX \<and> live_muts os = unat ` set hs) \<and>
   (case tab_run thread_create_call gw_thread_delete id gw_osal_core_init [] tops of (os, hs) \<Rightarrow>
      distinct hs \<and> length hs \<le> GW_OSAL_MAX_THREAD \<and> live_threads os = unat ` set hs)"
proof -
  have e: "live_sems gw_osal_core_init = {}" "live_muts gw_osal_core_init = {}"
      "live_threads gw_osal_core_init = {}" "mut_inv gw_osal_core_init"
    by (simp_all add: gw_osal_core_init_def sem_zero_def mut_zero_def thread_zero_def mut_inv_def
        mut_names_ok_def osal_wf_def)
  show ?thesis
    using semtab.handles_distinct [OF osal_wf_init e(1)] muttab.handles_distinct [OF e(4) e(2)]
      thrtab.handles_distinct [OF osal_wf_init e(3)]
    by (auto split: prod.splits)
qed

text \<open>
  After any sequence of thread creations, deletions and exits in which each new thread's
  system id differs from those of the live threads, every live thread that calls
  \<^verbatim>\<open>gw_thread_exit\<close> frees its own slot and no other, although freed slots keep stale ids.
\<close>

theorem thread_exit_frees_own_slot:
  assumes "thr_fresh gw_osal_core_init ops"
    and "i \<in> live_threads (foldl thr_step gw_osal_core_init ops)"
  shows "gw_thread_exit (foldl thr_step gw_osal_core_init ops)
           (th_id (gw_osal_thread_table (foldl thr_step gw_osal_core_init ops) ! i)) =
         (OSAL_OK, thread_release (foldl thr_step gw_osal_core_init ops) i)"
  using thread_exit_own [OF thr_ids_run [OF thr_ids_init assms(1)] assms(2)] .

theorem thread_exit_frees_own_slot_witness:
  "let os = foldl thr_step gw_osal_core_init
         [ThCreate True (Some ''a'') True 1 1 (Some 5) 77 0,
          ThCreate True (Some ''b'') True 1 1 (Some 6) 78 0, ThExit 77,
          ThCreate True (Some ''c'') True 1 1 (Some 7) 79 0]
   in gw_thread_exit os 78 = (OSAL_OK, thread_release os 1)"
proof -
  let ?ops = "[ThCreate True (Some ''a'') True 1 1 (Some 5) 77 0,
          ThCreate True (Some ''b'') True 1 1 (Some 6) 78 0, ThExit 77,
          ThCreate True (Some ''c'') True 1 1 (Some 7) 79 0]"
  have "thr_fresh gw_osal_core_init ?ops" by code_simp
  moreover have "1 \<in> live_threads (foldl thr_step gw_osal_core_init ?ops)"
    unfolding live_slots_def mem_Collect_eq by code_simp
  moreover have "th_id (gw_osal_thread_table (foldl thr_step gw_osal_core_init ?ops) ! 1) = 78"
    by code_simp
  ultimately show ?thesis
    using thread_exit_frees_own_slot [of ?ops 1] by (simp only: Let_def)
qed

text \<open>
  A wait on a valid semaphore with a positive timeout succeeds exactly when one of its
  \<open>sem_tries timeout\<close> polls (one per started 100 ms) finds the value positive, counting the
  posts that arrived before it; it then consumes one unit and otherwise none, it sleeps at
  most the timeout, and every other timeout except 0 and -1 fails at once.
\<close>

theorem sem_wait_timed:
  assumes "sem_valid os i" "timeout \<noteq> 0" "timeout \<noteq> -1"
    and "sem_timed_loop posts 0 (sem_value os i) timeout = (st, v', sleeps)"
  shows "gw_semaphore_wait posts os i timeout = Some (st, set_sem_value os i v') \<and>
    (st = OSAL_OK \<longleftrightarrow> (\<exists>j < sem_tries timeout. 0 < sem_value os i + (\<Sum>k<j. posts k))) \<and>
    (st \<noteq> OSAL_OK \<longrightarrow> st = OSAL_SEM_TIMEOUT) \<and>
    v' + (if st = OSAL_OK then 1 else 0) = sem_value os i + sum posts {..<sleeps} \<and>
    100 * int sleeps \<le> max 0 timeout"
proof (cases "0 \<le> timeout")
  case True
  then show ?thesis
    using sem_timed_loop_spec [OF assms(4)] assms by (auto simp: gw_semaphore_wait_def)
next
  case False
  then have "st = OSAL_SEM_TIMEOUT" "v' = sem_value os i" "sleeps = 0"
    using assms(4) by (subst (asm) sem_timed_loop.simps; simp)+
  with False show ?thesis using assms by (simp add: gw_semaphore_wait_def sem_tries_def)
qed

theorem sem_wait_timed_witness:
  "\<exists>os'. gw_semaphore_wait (\<lambda>k. if k = 1 then 1 else 0)
     (snd (snd (gw_semaphore_init gw_osal_core_init True (Some ''s'') 0 True))) 0 250 = Some (OSAL_OK, os')"
proof -
  let ?os = "snd (snd (gw_semaphore_init gw_osal_core_init True (Some ''s'') 0 True))"
  have v: "sem_valid ?os 0" "sem_value ?os 0 = 0"
    by (simp_all add: gw_semaphore_init_def gw_osal_core_init_def osal_limits sem_zero_def Let_def
        eval_nat_numeral sem_valid_def sem_value_def)
  have r: "sem_timed_loop (\<lambda>k. if k = 1 then 1 else 0) 0 (sem_value ?os 0) 250 = (OSAL_OK, 0, 2)"
    by (simp add: v sem_timed_loop.simps)
  show ?thesis using sem_wait_timed [OF v(1) _ _ r] by simp
qed

end
