(* ===== verification/Fifo_Spec.thy ===== *)
theory Fifo_Spec
  imports Prelude
begin

text \<open>
  The interface of a first-in first-out queue, as the clients of the intrusive list and of
  the OS message queues use it: what each operation promises about the represented list,
  and what follows for every sequence of operations.
\<close>

section \<open>Sequences of queue operations\<close>

datatype 'b fifo_op = Put 'b | Take

fun fifo_run ::
  "('s \<Rightarrow> 'b \<Rightarrow> 's) \<Rightarrow> ('s \<Rightarrow> 's \<times> 'b option) \<Rightarrow> 's \<Rightarrow> 'b fifo_op list \<Rightarrow> 's \<times> 'b option list" where
  "fifo_run add get s [] = (s, [])"
| "fifo_run add get s (Put b # ops) = fifo_run add get (add s b) ops"
| "fifo_run add get s (Take # ops) =
     (case get s of (s', r) \<Rightarrow> (case fifo_run add get s' ops of (s'', rs) \<Rightarrow> (s'', r # rs)))"

text \<open>The queue on plain lists, and the condition that every put of a sequence is allowed.\<close>

fun list_take :: "'b list \<Rightarrow> 'b list \<times> 'b option" where
  "list_take [] = ([], None)"
| "list_take (x # xs) = (xs, Some x)"

definition list_put :: "'b list \<Rightarrow> 'b \<Rightarrow> 'b list" where
  "list_put xs b = xs @ [b]"

fun fifo_allowed :: "('b list \<Rightarrow> 'b \<Rightarrow> bool) \<Rightarrow> 'b list \<Rightarrow> 'b fifo_op list \<Rightarrow> bool" where
  "fifo_allowed ok xs [] \<longleftrightarrow> True"
| "fifo_allowed ok xs (Put b # ops) \<longleftrightarrow> ok xs b \<and> fifo_allowed ok (list_put xs b) ops"
| "fifo_allowed ok xs (Take # ops) \<longleftrightarrow> fifo_allowed ok (fst (list_take xs)) ops"

lemma fst_list_take [simp]: "fst (list_take xs) = tl xs"
  by (cases xs) auto

lemma snd_list_take [simp]: "snd (list_take xs) = (case xs of [] \<Rightarrow> None | x # _ \<Rightarrow> Some x)"
  by (cases xs) auto

section \<open>The interface\<close>

locale fifo =
  fixes repr :: "'s \<Rightarrow> 'b list \<Rightarrow> bool"
    and ok :: "'b list \<Rightarrow> 'b \<Rightarrow> bool"
    and add :: "'s \<Rightarrow> 'b \<Rightarrow> 's"
    and get :: "'s \<Rightarrow> 's \<times> 'b option"
  assumes repr_add: "repr s xs \<Longrightarrow> ok xs b \<Longrightarrow> repr (add s b) (xs @ [b])"
    and get_empty: "repr s [] \<Longrightarrow> get s = (s', r) \<Longrightarrow> r = None \<and> repr s' []"
    and get_cons: "repr s (x # xs) \<Longrightarrow> get s = (s', r) \<Longrightarrow> r = Some x \<and> repr s' xs"
begin

lemma get_take: "repr s xs \<Longrightarrow> get s = (s', r) \<Longrightarrow> r = snd (list_take xs) \<and> repr s' (tl xs)"
  by (cases xs) (use get_empty get_cons in auto)

text \<open>Every run of the queue returns what the list model returns and stays in step with it.\<close>

lemma run_refines:
  "repr s xs \<Longrightarrow> fifo_allowed ok xs ops \<Longrightarrow>
   repr (fst (fifo_run add get s ops)) (fst (fifo_run list_put list_take xs ops)) \<and>
   snd (fifo_run add get s ops) = snd (fifo_run list_put list_take xs ops)"
proof (induction ops arbitrary: s xs)
  case (Cons a ops)
  show ?case
  proof (cases a)
    case (Put b)
    then show ?thesis
      using Cons.IH [of "add s b" "xs @ [b]"] Cons.prems repr_add by (simp add: list_put_def)
  next
    case Take
    obtain s' r where g: "get s = (s', r)" by fastforce
    from get_take [OF Cons.prems(1) g] have r: "r = snd (list_take xs)" "repr s' (tl xs)" by auto
    with Take Cons.IH [OF r(2)] Cons.prems(2) g show ?thesis
      by (cases "list_take xs") (auto split: prod.splits simp del: snd_list_take dest: arg_cong [of _ _ fst])
  qed
qed simp

text \<open>Elements put into an empty queue come out in the order they went in.\<close>

lemma list_drain: "fifo_run list_put list_take xs (replicate (length xs) Take) = ([], map Some xs)"
  by (induction xs) auto

lemma list_fill: "fifo_run list_put list_take xs (map Put bs @ ops) =
   fifo_run list_put list_take (xs @ bs) ops"
  by (induction bs arbitrary: xs) (auto simp: list_put_def)

lemma fill_drain:
  assumes "repr s []" "fifo_allowed ok [] (map Put bs @ replicate (length bs) Take)"
  shows "snd (fifo_run add get s (map Put bs @ replicate (length bs) Take)) = map Some bs"
  using run_refines [OF assms] list_drain [of bs] by (simp add: list_fill)

end

end
