(* ===== verification/Os_Queue.thy ===== *)
theory Os_Queue
  imports Os_Core Fifo_Spec
begin

text \<open>
  The message queues of \<^verbatim>\<open>system/gw_os_api_core.c\<close>: the bookkeeping around the POSIX message
  queues, and the priority queues built from one list per level, a mutex per level and a
  counting semaphore.
\<close>

section \<open>Access to the queue table\<close>

definition GW_NORMAL_QUEUE_TYPE :: int where "GW_NORMAL_QUEUE_TYPE = 0"
definition GW_PRI_QUEUE_TYPE :: int where "GW_PRI_QUEUE_TYPE = 1"
definition GW_OSAL_INVALID_QUEUE :: int where "GW_OSAL_INVALID_QUEUE = -1"

definition queue_rec :: "osal \<Rightarrow> u32 \<Rightarrow> osal_queue" where
  "queue_rec os queue_id = gw_osal_queue_table os ! unat queue_id"

definition upd_queue :: "osal \<Rightarrow> u32 \<Rightarrow> (osal_queue \<Rightarrow> osal_queue) \<Rightarrow> osal" where
  "upd_queue os queue_id f =
     os\<lparr>gw_osal_queue_table := (gw_osal_queue_table os)[unat queue_id := f (queue_rec os queue_id)]\<rparr>"

definition queue_valid :: "osal \<Rightarrow> u32 \<Rightarrow> bool" where
  "queue_valid os queue_id \<longleftrightarrow>
     \<not> (unat queue_id \<ge> GW_OSAL_MAX_QUEUE \<or> qu_free (queue_rec os queue_id))"

definition inc_put_error :: "osal_queue \<Rightarrow> osal_queue" where
  "inc_put_error q = q\<lparr>qu_put_error := qu_put_error q + 1\<rparr>"

definition inc_put_full_error :: "osal_queue \<Rightarrow> osal_queue" where
  "inc_put_full_error q = q\<lparr>qu_put_full_error := qu_put_full_error q + 1\<rparr>"

definition inc_put_data_error :: "osal_queue \<Rightarrow> osal_queue" where
  "inc_put_data_error q = q\<lparr>qu_put_data_error := qu_put_data_error q + 1\<rparr>"

definition inc_put_data_long :: "osal_queue \<Rightarrow> osal_queue" where
  "inc_put_data_long q = q\<lparr>qu_put_data_long := qu_put_data_long q + 1\<rparr>"

definition inc_get_error :: "osal_queue \<Rightarrow> osal_queue" where
  "inc_get_error q = q\<lparr>qu_get_error := qu_get_error q + 1\<rparr>"

definition inc_get_data_error :: "osal_queue \<Rightarrow> osal_queue" where
  "inc_get_data_error q = q\<lparr>qu_get_data_error := qu_get_data_error q + 1\<rparr>"

definition inc_get_data_long :: "osal_queue \<Rightarrow> osal_queue" where
  "inc_get_data_long q = q\<lparr>qu_get_data_long := qu_get_data_long q + 1\<rparr>"

lemmas queue_counters = inc_put_error_def inc_put_full_error_def inc_put_data_error_def
  inc_put_data_long_def inc_get_error_def inc_get_data_error_def inc_get_data_long_def

section \<open>Message queues\<close>

text \<open>\<open>mqd\<close>: the descriptor \<^verbatim>\<open>mq_open\<close> returned.\<close>

definition gw_queue_create ::
  "osal \<Rightarrow> bool \<Rightarrow> string option \<Rightarrow> u32 \<Rightarrow> u32 \<Rightarrow> int \<Rightarrow> osal_status \<times> u32 option \<times> osal" where
  "gw_queue_create os has_id name queue_depth data_size mqd =
     (case name of
        None \<Rightarrow> (OSAL_INVALID_POINTER, None, os)
      | Some queue_name \<Rightarrow>
          if \<not> has_id then (OSAL_INVALID_POINTER, None, os)
          else if queue_depth = 0 \<or> data_size = 0 then (OSAL_ERR, None, os)
          else if length queue_name \<ge> GW_OSAL_MAX_API_NAME then (OSAL_ERR_NAME_TOO_LONG, None, os)
          else let i = first_idx qu_free (gw_osal_queue_table os) in
            if i \<ge> GW_OSAL_MAX_QUEUE then (OSAL_ERR_NO_FREE_IDS, None, os)
            else if list_ex (\<lambda>x. \<not> qu_free x \<and> queue_name = qu_name x) (gw_osal_queue_table os)
            then (OSAL_ERR_NAME_TAKEN, None, os)
            else if mqd = 0
            then (OSAL_ERR, None, os\<lparr>gw_osal_queue_table := (gw_osal_queue_table os)[i := queue_zero]\<rparr>)
            else (OSAL_OK, Some (of_nat i),
                  os\<lparr>gw_osal_queue_table := (gw_osal_queue_table os)
                       [i := (gw_osal_queue_table os ! i)\<lparr>qu_free := False, qu_id := mqd,
                               qu_name := queue_name, qu_depth := queue_depth,
                               qu_queue_size := data_size,
                               qu_queue_type := GW_NORMAL_QUEUE_TYPE\<rparr>]\<rparr>))"

text \<open>The result names the message queue that \<^verbatim>\<open>mq_unlink\<close> is called for.\<close>

definition gw_queue_delete :: "osal \<Rightarrow> u32 \<Rightarrow> osal_status \<times> osal" where
  "gw_queue_delete os queue_id =
     (if \<not> queue_valid os queue_id then (OSAL_ERR_INVALID_ID, os)
      else (OSAL_OK, upd_queue os queue_id (\<lambda>_. queue_zero)))"

text \<open>\<open>recv_len\<close>: what \<^verbatim>\<open>mq_receive\<close> or \<^verbatim>\<open>mq_timedreceive\<close> returned.\<close>

definition gw_queue_get ::
  "osal \<Rightarrow> u32 \<Rightarrow> bool \<Rightarrow> bool \<Rightarrow> int \<Rightarrow> osal_status \<times> u32 option \<times> osal" where
  "gw_queue_get os queue_id has_data has_copied recv_len =
     (if \<not> queue_valid os queue_id then (OSAL_ERR_INVALID_ID, None, os)
      else if \<not> has_data \<or> \<not> has_copied
      then (OSAL_INVALID_POINTER, None, upd_queue os queue_id (\<lambda>q. inc_get_data_error (inc_get_error q)))
      else if recv_len = -1
      then (OSAL_ERR, None, upd_queue os queue_id (\<lambda>q. inc_get_data_error (inc_get_error q)))
      else (OSAL_OK, Some (of_int recv_len),
            upd_queue os queue_id
              (\<lambda>q. if qu_cur_num q > 0 then q\<lparr>qu_cur_num := qu_cur_num q - 1\<rparr> else q)))"

text \<open>\<open>sent\<close>: \<^verbatim>\<open>mq_timedsend\<close> succeeded.\<close>

definition gw_queue_put :: "osal \<Rightarrow> u32 \<Rightarrow> bool \<Rightarrow> u32 \<Rightarrow> bool \<Rightarrow> osal_status \<times> osal" where
  "gw_queue_put os queue_id has_data sz sent =
     (if \<not> queue_valid os queue_id then (OSAL_ERR_INVALID_ID, os)
      else if \<not> has_data
      then (OSAL_INVALID_POINTER, upd_queue os queue_id (\<lambda>q. inc_put_data_error (inc_put_error q)))
      else if sz > qu_queue_size (queue_rec os queue_id)
      then (OSAL_ERR, upd_queue os queue_id (\<lambda>q. inc_put_data_long (inc_put_error q)))
      else if \<not> sent
      then (OSAL_ERR, upd_queue os queue_id inc_put_full_error)
      else (OSAL_OK, upd_queue os queue_id
              (\<lambda>q. let q1 = q\<lparr>qu_cur_num := qu_cur_num q + 1\<rparr>
                   in if qu_peek_value q1 \<le> qu_cur_num q1
                      then q1\<lparr>qu_peek_value := qu_cur_num q1\<rparr> else q1)))"

definition gw_queue_number :: "osal \<Rightarrow> u32" where
  "gw_queue_number os =
     foldl (\<lambda>count q. if \<not> qu_free q \<and> qu_queue_type q = GW_NORMAL_QUEUE_TYPE then count + 1 else count)
       0 (gw_osal_queue_table os)"

definition gw_queue_count :: "osal \<Rightarrow> u32 \<Rightarrow> int" where
  "gw_queue_count os queue_id =
     (if \<not> queue_valid os queue_id \<or> qu_queue_type (queue_rec os queue_id) \<noteq> GW_NORMAL_QUEUE_TYPE
      then GW_OSAL_INVALID_QUEUE
      else sint (qu_cur_num (queue_rec os queue_id)))"

definition gw_queue_type_get :: "osal \<Rightarrow> u32 \<Rightarrow> int" where
  "gw_queue_type_get os queue_id =
     (if \<not> queue_valid os queue_id then GW_NORMAL_QUEUE_TYPE
      else qu_queue_type (queue_rec os queue_id))"

section \<open>Priority queues\<close>

definition digit_char :: "nat \<Rightarrow> char" where
  "digit_char n = char_of (48 + n)"

text \<open>The names \<^verbatim>\<open>pq_sem_%d\<close> and \<^verbatim>\<open>mx_%s_%d\<close>; both numbers are below ten.\<close>

definition pri_sem_name :: "nat \<Rightarrow> string" where
  "pri_sem_name qid = ''pq_sem_'' @ [digit_char qid]"

definition pri_mutex_name :: "string \<Rightarrow> nat \<Rightarrow> string" where
  "pri_mutex_name queue_name i = ''mx_'' @ queue_name @ ''_'' @ [digit_char i]"

text \<open>One round of the loop over the levels: the result of \<^verbatim>\<open>gw_mutex_init\<close> is ignored.\<close>

definition pri_level_init :: "string \<Rightarrow> nat \<Rightarrow> (nat \<Rightarrow> bool) \<Rightarrow> osal \<Rightarrow> nat \<Rightarrow> osal" where
  "pri_level_init queue_name qid mut_ok os i =
     (let os1 = upd_queue os (of_nat qid) (\<lambda>q. q\<lparr>qu_queue_list := (qu_queue_list q)[i := []]\<rparr>)
      in case gw_mutex_init os1 True (Some (pri_mutex_name queue_name i)) (mut_ok i) of
           (_, None, os2) \<Rightarrow> os2
         | (_, Some mid, os2) \<Rightarrow>
             upd_queue os2 (of_nat qid) (\<lambda>q. q\<lparr>qu_queue_mutex := (qu_queue_mutex q)[i := mid]\<rparr>))"

definition gw_pri_queue_create ::
  "osal \<Rightarrow> bool \<Rightarrow> string option \<Rightarrow> u32 \<Rightarrow> u32 \<Rightarrow> int \<Rightarrow> bool \<Rightarrow> (nat \<Rightarrow> bool) \<Rightarrow> u32 \<Rightarrow>
   osal_status \<times> u32 option \<times> osal" where
  "gw_pri_queue_create os has_id name queue_depth data_size pri_num sem_ok mut_ok self =
     (case name of
        None \<Rightarrow> (OSAL_INVALID_POINTER, None, os)
      | Some queue_name \<Rightarrow>
          if \<not> has_id then (OSAL_INVALID_POINTER, None, os)
          else if queue_depth = 0 \<or> data_size = 0 then (OSAL_ERR, None, os)
          else if pri_num \<le> 0 \<or> pri_num > int GW_OSAL_MAX_QUEUE_PRI then (OSAL_ERR, None, os)
          else if length queue_name \<ge> GW_OSAL_MAX_API_NAME then (OSAL_ERR_NAME_TOO_LONG, None, os)
          else let i = first_idx qu_free (gw_osal_queue_table os) in
            if i \<ge> GW_OSAL_MAX_QUEUE then (OSAL_ERR_NO_FREE_IDS, None, os)
            else (case gw_semaphore_init os True (Some (pri_sem_name i)) 0 sem_ok of
                    (st, None, os1) \<Rightarrow> (OSAL_ERR, None, os1)
                  | (st, Some sid, os1) \<Rightarrow>
                      let os2 = upd_queue os1 (of_nat i) (\<lambda>q. q\<lparr>qu_cnt_sem_id := sid\<rparr>);
                          os3 = foldl (pri_level_init queue_name i mut_ok) os2 [0..<nat pri_num]
                      in (OSAL_OK, Some (of_nat i),
                          upd_queue os3 (of_nat i)
                            (\<lambda>q. q\<lparr>qu_free := False, qu_id := int i, qu_pri_num := pri_num,
                               qu_name := queue_name, qu_creator := uint (gw_creator_find os3 self),
                               qu_queue_size := data_size, qu_depth := queue_depth,
                               qu_queue_type := GW_PRI_QUEUE_TYPE\<rparr>))))"

definition pri_valid :: "osal \<Rightarrow> u32 \<Rightarrow> bool" where
  "pri_valid os queue_id \<longleftrightarrow>
     queue_valid os queue_id \<and> qu_queue_type (queue_rec os queue_id) = GW_PRI_QUEUE_TYPE"

definition level_count :: "osal_queue \<Rightarrow> nat \<Rightarrow> u32" where
  "level_count q i = of_nat (length (qu_queue_list q ! i))"

definition gw_pri_queue_count :: "osal \<Rightarrow> u32 \<Rightarrow> int" where
  "gw_pri_queue_count os queue_id =
     (if \<not> pri_valid os queue_id then GW_OSAL_INVALID_QUEUE
      else let q = queue_rec os queue_id
           in sint (foldl (\<lambda>count i. count + level_count q i) (0 :: u32) [0..<nat (qu_pri_num q)]))"

text \<open>What \<^verbatim>\<open>gw_pri_queue_put\<close> does once it holds the mutex of the level.\<close>

definition pri_put_locked :: "osal \<Rightarrow> u32 \<Rightarrow> nat \<Rightarrow> u8 list \<Rightarrow> osal" where
  "pri_put_locked os1 queue_id p msg =
     (let os2 = upd_queue os1 queue_id (\<lambda>q. q\<lparr>qu_queue_list := (qu_queue_list q)
                  [p := list_put (qu_queue_list q ! p) msg]\<rparr>);
          os3 = upd_queue os2 queue_id (\<lambda>q.
                  if qu_pri_queue_peek q ! p < level_count q p
                  then q\<lparr>qu_pri_queue_peek := (qu_pri_queue_peek q)[p := level_count q p]\<rparr>
                  else q);
          total = of_int (gw_pri_queue_count os3 queue_id);
          os4 = upd_queue os3 queue_id (\<lambda>q.
                  if total > qu_peek_value q then q\<lparr>qu_peek_value := total\<rparr> else q);
          os5 = snd (gw_mutex_unlock os4 (qu_queue_mutex (queue_rec os4 queue_id) ! p))
      in snd (gw_semaphore_post os5 (qu_cnt_sem_id (queue_rec os5 queue_id))))"

text \<open>
  \<open>alloc\<close>: \<^verbatim>\<open>malloc\<close> succeeded. \<open>None\<close>: the caller blocks on the mutex of the level.
\<close>

definition gw_pri_queue_put ::
  "osal \<Rightarrow> u32 \<Rightarrow> u8 list option \<Rightarrow> int \<Rightarrow> bool \<Rightarrow> (osal_status \<times> osal) option" where
  "gw_pri_queue_put os queue_id data priority alloc =
     (if \<not> pri_valid os queue_id then Some (OSAL_ERR_INVALID_ID, os)
      else case data of
        None \<Rightarrow> Some (OSAL_INVALID_POINTER, upd_queue os queue_id (\<lambda>q. inc_put_error (inc_put_data_error q)))
      | Some msg \<Rightarrow>
          let q = queue_rec os queue_id in
          if of_nat (length msg) > qu_queue_size q
          then Some (OSAL_ERR, upd_queue os queue_id (\<lambda>q. inc_put_error (inc_put_data_long q)))
          else if priority < 0 \<or> priority \<ge> qu_pri_num q
          then Some (OSAL_ERR, upd_queue os queue_id inc_put_error)
          else if level_count q (nat priority) \<ge> qu_depth q
          then Some (OSAL_ERR, upd_queue os queue_id (\<lambda>q. inc_put_error (inc_put_full_error q)))
          else if \<not> alloc then Some (OSAL_ERR, upd_queue os queue_id inc_put_error)
          else (case gw_mutex_lock os (qu_queue_mutex q ! nat priority) of
                  None \<Rightarrow> None
                | Some (_, os1) \<Rightarrow>
                    Some (OSAL_OK, pri_put_locked os1 queue_id (nat priority) msg)))"

text \<open>
  The loop of \<^verbatim>\<open>gw_pri_queue_get\<close> over the levels from \<open>i - 1\<close> down to 0. The result holds the
  status, the bytes copied and the value stored through \<^verbatim>\<open>size_copied\<close>.
\<close>

fun pri_get_loop ::
  "osal \<Rightarrow> u32 \<Rightarrow> u32 \<Rightarrow> nat \<Rightarrow> (osal_status \<times> u8 list option \<times> u32 option \<times> osal) option" where
  "pri_get_loop os queue_id sz 0 =
     Some (OSAL_ERR, None, None, upd_queue os queue_id inc_get_error)"
| "pri_get_loop os queue_id sz (Suc i) =
     (if level_count (queue_rec os queue_id) i = 0 then pri_get_loop os queue_id sz i
      else case gw_mutex_lock os (qu_queue_mutex (queue_rec os queue_id) ! i) of
             None \<Rightarrow> None
           | Some (_, os1) \<Rightarrow>
               (case list_take (qu_queue_list (queue_rec os1 queue_id) ! i) of
                  (rest, None) \<Rightarrow> None
                | (rest, Some msg) \<Rightarrow>
                    let os2 = upd_queue os1 queue_id
                                (\<lambda>q. q\<lparr>qu_queue_list := (qu_queue_list q)[i := rest]\<rparr>);
                        os3 = snd (gw_mutex_unlock os2 (qu_queue_mutex (queue_rec os2 queue_id) ! i));
                        size_copied = of_nat (length msg)
                    in if size_copied > sz
                       then Some (OSAL_ERR, None, Some size_copied,
                              upd_queue os3 queue_id (\<lambda>q. inc_get_error (inc_get_data_long q)))
                       else Some (OSAL_OK, Some msg, Some size_copied, os3)))"

definition gw_pri_queue_get ::
  "(nat \<Rightarrow> nat) \<Rightarrow> osal \<Rightarrow> u32 \<Rightarrow> bool \<Rightarrow> u32 \<Rightarrow> int \<Rightarrow>
   (osal_status \<times> u8 list option \<times> u32 option \<times> osal) option" where
  "gw_pri_queue_get posts os queue_id has_data sz timeout =
     (if \<not> pri_valid os queue_id then Some (OSAL_ERR_INVALID_ID, None, None, os)
      else if \<not> has_data
      then Some (OSAL_INVALID_POINTER, None, None,
             upd_queue os queue_id (\<lambda>q. inc_get_error (inc_get_data_error q)))
      else case gw_semaphore_wait posts os (qu_cnt_sem_id (queue_rec os queue_id)) timeout of
             None \<Rightarrow> None
           | Some (ret, os1) \<Rightarrow>
               if ret \<noteq> OSAL_OK
               then Some (OSAL_ERR, None, None, upd_queue os1 queue_id inc_get_error)
               else pri_get_loop os1 queue_id sz (nat (qu_pri_num (queue_rec os1 queue_id))))"

definition gw_pri_queue_number :: "osal \<Rightarrow> u32" where
  "gw_pri_queue_number os =
     foldl (\<lambda>count q. if \<not> qu_free q \<and> qu_queue_type q = GW_PRI_QUEUE_TYPE then count + 1 else count)
       0 (gw_osal_queue_table os)"

definition gw_pri_queue_max_priority :: "osal \<Rightarrow> u32 \<Rightarrow> int" where
  "gw_pri_queue_max_priority os queue_id =
     (if \<not> pri_valid os queue_id then 0 else qu_pri_num (queue_rec os queue_id) - 1)"

section \<open>What each update leaves alone\<close>

lemma wf_updates [simp]:
  "osal_wf (upd_queue os i f) = osal_wf os"
  "osal_wf (set_sem_value os s v) = osal_wf os"
  "osal_wf (set_mut_locked os m b) = osal_wf os"
  by (simp_all add: osal_wf_def upd_queue_def set_sem_value_def set_mut_locked_def)

lemma queue_rec_frame [simp]:
  "queue_rec (set_sem_value os s v) i = queue_rec os i"
  "queue_rec (set_mut_locked os m b) i = queue_rec os i"
  by (simp_all add: queue_rec_def set_sem_value_def set_mut_locked_def)

lemma queue_rec_upd: "osal_wf os \<Longrightarrow> unat i < GW_OSAL_MAX_QUEUE \<Longrightarrow>
    queue_rec (upd_queue os i f) i = f (queue_rec os i)"
  by (simp add: queue_rec_def upd_queue_def osal_wf_def)

lemma sem_frame [simp]:
  "sem_valid (upd_queue os i f) s = sem_valid os s"
  "sem_value (upd_queue os i f) s = sem_value os s"
  "sem_valid (set_mut_locked os m b) s = sem_valid os s"
  "sem_value (set_mut_locked os m b) s = sem_value os s"
  by (simp_all add: sem_valid_def sem_value_def upd_queue_def set_mut_locked_def)

lemma mut_frame [simp]:
  "mut_valid (upd_queue os i f) m = mut_valid os m"
  "mut_locked (upd_queue os i f) m = mut_locked os m"
  "mut_valid (set_sem_value os s v) m = mut_valid os m"
  "mut_locked (set_sem_value os s v) m = mut_locked os m"
  by (simp_all add: mut_valid_def mut_locked_def upd_queue_def set_sem_value_def)

lemma sem_valid_set [simp]: "sem_valid (set_sem_value os s v) s' = sem_valid os s'"
  by (simp add: sem_valid_def set_sem_value_def
      nth_upd_field [where g = sm_free and f = "\<lambda>x. x\<lparr>sm_id := v\<rparr>"])

lemma sem_value_set [simp]: "osal_wf os \<Longrightarrow> sem_valid os s \<Longrightarrow> sem_value (set_sem_value os s v) s = v"
  by (simp add: sem_valid_def sem_value_def set_sem_value_def osal_wf_def)

lemma mut_valid_set [simp]: "mut_valid (set_mut_locked os m b) m' = mut_valid os m'"
  by (simp add: mut_valid_def set_mut_locked_def
      nth_upd_field [where g = mu_free and f = "\<lambda>x. x\<lparr>mu_id := b\<rparr>"])

lemma mut_locked_set: "osal_wf os \<Longrightarrow> mut_valid os m \<Longrightarrow>
    mut_locked (set_mut_locked os m b) m' = (if m' = m then b else mut_locked os m')"
  by (auto simp: mut_valid_def mut_locked_def set_mut_locked_def osal_wf_def nth_list_update
      word_unat_eq_iff)

text \<open>A mutex that does not block: not a live mutex at all, or not held.\<close>

definition mut_passes :: "osal \<Rightarrow> u32 \<Rightarrow> bool" where
  "mut_passes os m \<longleftrightarrow> \<not> (mut_valid os m \<and> mut_locked os m)"

definition lock_state :: "bool \<Rightarrow> osal \<Rightarrow> u32 \<Rightarrow> osal" where
  "lock_state b os m = (if mut_valid os m then set_mut_locked os m b else os)"

lemma mutex_lock_passes: "mut_passes os m \<Longrightarrow> \<exists>st. gw_mutex_lock os m = Some (st, lock_state True os m)"
  by (auto simp: mut_passes_def gw_mutex_lock_def lock_state_def)

lemma mutex_unlock_state [simp]: "snd (gw_mutex_unlock os m) = lock_state False os m"
  by (simp add: gw_mutex_unlock_def lock_state_def)

lemma lock_state_frame [simp]:
  "osal_wf (lock_state b os m) = osal_wf os"
  "queue_rec (lock_state b os m) i = queue_rec os i"
  "sem_valid (lock_state b os m) s = sem_valid os s"
  "sem_value (lock_state b os m) s = sem_value os s"
  by (simp_all add: lock_state_def)

lemma lock_state_valid [simp]: "mut_valid (lock_state b os m) m' = mut_valid os m'"
  by (simp add: lock_state_def)

lemma mut_passes_frame [simp]:
  "mut_passes (upd_queue os i f) m = mut_passes os m"
  "mut_passes (set_sem_value os s v) m = mut_passes os m"
  by (simp_all add: mut_passes_def)

lemma mut_passes_unlock:
  "osal_wf os \<Longrightarrow> mut_passes (lock_state False os m) m' \<longleftrightarrow> m' = m \<or> mut_passes os m'"
  by (auto simp: mut_passes_def lock_state_def mut_locked_set)

lemma mut_passes_lock:
  "osal_wf os \<Longrightarrow> m' \<noteq> m \<Longrightarrow> mut_passes (lock_state True os m) m' = mut_passes os m'"
  by (auto simp: mut_passes_def lock_state_def mut_locked_set)

section \<open>The invariant of a priority queue\<close>

text \<open>
  The abstract queue: the messages of each level, level 0 first. The counting semaphore counts
  all messages, every level keeps its depth, and no mutex of a level is held between calls.
\<close>

definition pq_abs :: "osal \<Rightarrow> u32 \<Rightarrow> u8 list list list" where
  "pq_abs os i = take (nat (qu_pri_num (queue_rec os i))) (qu_queue_list (queue_rec os i))"

definition pq_shape :: "osal_queue \<Rightarrow> bool" where
  "pq_shape q \<longleftrightarrow> \<not> qu_free q \<and> qu_queue_type q = GW_PRI_QUEUE_TYPE \<and>
     0 < qu_pri_num q \<and> qu_pri_num q \<le> int GW_OSAL_MAX_QUEUE_PRI \<and>
     length (qu_queue_list q) = GW_OSAL_MAX_QUEUE_PRI \<and>
     length (qu_pri_queue_peek q) = GW_OSAL_MAX_QUEUE_PRI \<and>
     unat (qu_depth q) * nat (qu_pri_num q) \<le> SEM_VALUE_MAX"

definition pq_inv :: "osal \<Rightarrow> u32 \<Rightarrow> bool" where
  "pq_inv os i \<longleftrightarrow> osal_wf os \<and> unat i < GW_OSAL_MAX_QUEUE \<and> pq_shape (queue_rec os i) \<and>
     (\<forall>l \<in> set (pq_abs os i). length l \<le> unat (qu_depth (queue_rec os i))) \<and>
     (\<forall>l \<in> set (pq_abs os i). \<forall>m \<in> set l. length m \<le> unat (qu_queue_size (queue_rec os i))) \<and>
     sem_valid os (qu_cnt_sem_id (queue_rec os i)) \<and>
     sem_value os (qu_cnt_sem_id (queue_rec os i)) = sum_list (map length (pq_abs os i)) \<and>
     (\<forall>p < nat (qu_pri_num (queue_rec os i)). mut_passes os (qu_queue_mutex (queue_rec os i) ! p))"

lemma pq_inv_valid: "pq_inv os i \<Longrightarrow> pri_valid os i"
  by (simp add: pq_inv_def pq_shape_def pri_valid_def queue_valid_def)

lemma pq_abs_length: "pq_inv os i \<Longrightarrow> length (pq_abs os i) = nat (qu_pri_num (queue_rec os i))"
  by (auto simp: pq_inv_def pq_shape_def pq_abs_def)

lemma pq_abs_nth: "p < nat (qu_pri_num (queue_rec os i)) \<Longrightarrow> pq_abs os i ! p = qu_queue_list (queue_rec os i) ! p"
  by (simp add: pq_abs_def)

lemma sum_lengths_upd:
  "p < length xs \<Longrightarrow> sum_list (map length (xs[p := l])) + length (xs ! p) = sum_list (map length xs) + length l"
  by (induction xs arbitrary: p) (auto split: nat.splits)

lemma sum_lengths_bound:
  "\<forall>l \<in> set xs. length l \<le> d \<Longrightarrow> sum_list (map length xs) \<le> d * length xs"
  by (induction xs) auto

lemma set_upd_subset: "\<forall>x \<in> set xs. P x \<Longrightarrow> P y \<Longrightarrow> \<forall>x \<in> set (xs[p := y]). P x"
  by (auto dest!: set_update_subset_insert [THEN subsetD])

section \<open>Put and get on the abstract queue\<close>

lemma post_state:
  "sem_valid os s \<Longrightarrow> sem_value os s < SEM_VALUE_MAX \<Longrightarrow>
   snd (gw_semaphore_post os s) = set_sem_value os s (sem_value os s + 1)"
  by (simp add: gw_semaphore_post_def)

lemma level_count_less:
  "length (qu_queue_list q ! p) \<le> unat (qu_depth q) \<Longrightarrow>
   level_count q p \<ge> qu_depth q \<longleftrightarrow> length (qu_queue_list q ! p) \<ge> unat (qu_depth q)"
proof -
  assume "length (qu_queue_list q ! p) \<le> unat (qu_depth q)"
  then have "unat (level_count q p) = length (qu_queue_list q ! p)"
    using unat_u32_less [of "qu_depth q"] by (simp add: level_count_def unat_of_nat_u32)
  then show ?thesis by (simp add: word_le_nat_alt)
qed

text \<open>The fields of the queue record that the bookkeeping of the peak values leaves alone.\<close>

lemma pri_put_locked_state:
  assumes wf: "osal_wf os" and i: "unat i < GW_OSAL_MAX_QUEUE"
    and sv: "sem_valid os (qu_cnt_sem_id (queue_rec os i))"
    and room: "sem_value os (qu_cnt_sem_id (queue_rec os i)) < SEM_VALUE_MAX"
  shows "\<exists>pk pv. queue_rec (pri_put_locked os i p msg) i = (queue_rec os i)
      \<lparr>qu_queue_list := (qu_queue_list (queue_rec os i))[p := list_put (qu_queue_list (queue_rec os i) ! p) msg],
       qu_pri_queue_peek := (qu_pri_queue_peek (queue_rec os i))[p := pk], qu_peek_value := pv\<rparr>"
    and "osal_wf (pri_put_locked os i p msg)"
    and "sem_valid (pri_put_locked os i p msg) s = sem_valid os s"
    and "sem_value (pri_put_locked os i p msg) (qu_cnt_sem_id (queue_rec os i)) =
      sem_value os (qu_cnt_sem_id (queue_rec os i)) + 1"
    and "mut_passes (pri_put_locked os i p msg) m =
      mut_passes (lock_state False os (qu_queue_mutex (queue_rec os i) ! p)) m"
proof -
  let ?os2 = "upd_queue os i (\<lambda>q. q\<lparr>qu_queue_list := (qu_queue_list q)
                  [p := list_put (qu_queue_list q ! p) msg]\<rparr>)"
  let ?os3 = "upd_queue ?os2 i (\<lambda>q. if qu_pri_queue_peek q ! p < level_count q p
                  then q\<lparr>qu_pri_queue_peek := (qu_pri_queue_peek q)[p := level_count q p]\<rparr> else q)"
  let ?total = "of_int (gw_pri_queue_count ?os3 i) :: u32"
  let ?os4 = "upd_queue ?os3 i (\<lambda>q. if ?total > qu_peek_value q then q\<lparr>qu_peek_value := ?total\<rparr> else q)"
  have q4: "\<exists>pk pv. queue_rec ?os4 i = (queue_rec os i)
      \<lparr>qu_queue_list := (qu_queue_list (queue_rec os i))[p := list_put (qu_queue_list (queue_rec os i) ! p) msg],
       qu_pri_queue_peek := (qu_pri_queue_peek (queue_rec os i))[p := pk], qu_peek_value := pv\<rparr>"
    by (rule exI [of _ "if qu_pri_queue_peek (queue_rec ?os2 i) ! p < level_count (queue_rec ?os2 i) p
           then level_count (queue_rec ?os2 i) p else qu_pri_queue_peek (queue_rec os i) ! p"],
        rule exI [of _ "if ?total > qu_peek_value (queue_rec ?os3 i) then ?total else qu_peek_value (queue_rec os i)"])
      (simp add: queue_rec_upd wf i)
  then obtain pk pv where q4: "queue_rec ?os4 i = (queue_rec os i)
      \<lparr>qu_queue_list := (qu_queue_list (queue_rec os i))[p := list_put (qu_queue_list (queue_rec os i) ! p) msg],
       qu_pri_queue_peek := (qu_pri_queue_peek (queue_rec os i))[p := pk], qu_peek_value := pv\<rparr>"
    by blast
  let ?m = "qu_queue_mutex (queue_rec os i) ! p" and ?s = "qu_cnt_sem_id (queue_rec os i)"
  have e: "pri_put_locked os i p msg =
      set_sem_value (lock_state False ?os4 ?m) ?s (sem_value os ?s + 1)"
    using sv room by (simp add: pri_put_locked_def Let_def q4 post_state)
  show "\<exists>pk pv. queue_rec (pri_put_locked os i p msg) i = (queue_rec os i)
      \<lparr>qu_queue_list := (qu_queue_list (queue_rec os i))[p := list_put (qu_queue_list (queue_rec os i) ! p) msg],
       qu_pri_queue_peek := (qu_pri_queue_peek (queue_rec os i))[p := pk], qu_peek_value := pv\<rparr>"
    using q4 by (auto simp: e)
  show "osal_wf (pri_put_locked os i p msg)" by (simp add: e wf)
  show "sem_valid (pri_put_locked os i p msg) s = sem_valid os s" by (simp add: e)
  show "sem_value (pri_put_locked os i p msg) ?s = sem_value os ?s + 1" by (simp add: e wf sv)
  show "mut_passes (pri_put_locked os i p msg) m = mut_passes (lock_state False os ?m) m"
    by (simp add: e mut_passes_unlock wf)
qed

lemma pri_put_ok:
  assumes inv: "pq_inv os i" and p: "p < length (pq_abs os i)"
    and room: "length (pq_abs os i ! p) < unat (qu_depth (queue_rec os i))"
    and sz: "length msg \<le> unat (qu_queue_size (queue_rec os i))"
  shows "\<exists>os'. gw_pri_queue_put os i (Some msg) (int p) True = Some (OSAL_OK, os') \<and>
    pq_inv os' i \<and> pq_abs os' i = (pq_abs os i)[p := list_put (pq_abs os i ! p) msg] \<and>
    qu_depth (queue_rec os' i) = qu_depth (queue_rec os i) \<and>
    qu_queue_size (queue_rec os' i) = qu_queue_size (queue_rec os i)"
proof -
  let ?q = "queue_rec os i" and ?n = "nat (qu_pri_num (queue_rec os i))"
  have wf: "osal_wf os" and i: "unat i < GW_OSAL_MAX_QUEUE" and sh: "pq_shape ?q"
    and lev: "\<forall>l \<in> set (pq_abs os i). length l \<le> unat (qu_depth ?q)"
    and msz: "\<forall>l \<in> set (pq_abs os i). \<forall>m \<in> set l. length m \<le> unat (qu_queue_size ?q)"
    and sv: "sem_valid os (qu_cnt_sem_id ?q)"
    and cnt: "sem_value os (qu_cnt_sem_id ?q) = sum_list (map length (pq_abs os i))"
    and mx: "\<forall>p < ?n. mut_passes os (qu_queue_mutex ?q ! p)"
    using inv by (auto simp: pq_inv_def)
  have pn: "p < ?n" using p pq_abs_length [OF inv] by simp
  have ln: "qu_queue_list ?q ! p = pq_abs os i ! p" using pn by (simp add: pq_abs_nth)
  have szw: "\<not> of_nat (length msg) > qu_queue_size ?q"
    using sz unat_u32_less [of "qu_queue_size ?q"] by (simp add: word_less_nat_alt unat_of_nat_u32)
  have rm: "\<not> level_count ?q p \<ge> qu_depth ?q"
    using room level_count_less [of ?q p] ln by simp
  let ?m = "qu_queue_mutex ?q ! p"
  obtain st where lk: "gw_mutex_lock os ?m = Some (st, lock_state True os ?m)"
    using mutex_lock_passes mx pn by blast
  have sum': "sum_list (map length ((pq_abs os i)[p := list_put (pq_abs os i ! p) msg])) =
      Suc (sum_list (map length (pq_abs os i)))"
    using sum_lengths_upd [OF p, of "list_put (pq_abs os i ! p) msg"] by (simp add: list_put_def)
  have lev': "\<forall>l \<in> set ((pq_abs os i)[p := list_put (pq_abs os i ! p) msg]). length l \<le> unat (qu_depth ?q)"
    using set_upd_subset [OF lev, of "list_put (pq_abs os i ! p) msg" p] room by (simp add: list_put_def)
  have lt: "sum_list (map length (pq_abs os i)) < SEM_VALUE_MAX"
    using sum' sum_lengths_bound [OF lev'] sh pq_abs_length [OF inv] by (simp add: pq_shape_def)
  let ?os1 = "lock_state True os ?m" and ?os' = "pri_put_locked (lock_state True os ?m) i p msg"
  note st = pri_put_locked_state [of ?os1 i p msg, simplified, OF wf i sv]
  have lt1: "sem_value os (qu_cnt_sem_id ?q) < SEM_VALUE_MAX" using lt cnt by simp
  obtain pk pv where q': "queue_rec ?os' i = ?q
      \<lparr>qu_queue_list := (qu_queue_list ?q)[p := list_put (qu_queue_list ?q ! p) msg],
       qu_pri_queue_peek := (qu_pri_queue_peek ?q)[p := pk], qu_peek_value := pv\<rparr>"
    using st(1) [OF lt1] by blast
  have abs': "pq_abs ?os' i = (pq_abs os i)[p := list_put (pq_abs os i ! p) msg]"
    using pn by (simp add: pq_abs_def q' take_update_swap)
  have mp: "mut_passes ?os' (qu_queue_mutex ?q ! k)" if "k < ?n" for k
    using st(5) [OF lt1] mx that wf
    by (cases "qu_queue_mutex ?q ! k = ?m") (simp_all add: mut_passes_unlock mut_passes_lock)
  have msz': "\<forall>l \<in> set ((pq_abs os i)[p := list_put (pq_abs os i ! p) msg]).
      \<forall>m \<in> set l. length m \<le> unat (qu_queue_size ?q)"
    using msz bspec [OF msz nth_mem [OF p]] sz by (intro set_upd_subset) (auto simp: list_put_def)
  have "pq_inv ?os' i"
    using wf i sh sv lev' msz' sum' mp st(2-4) [OF lt1] cnt
    unfolding pq_inv_def by (simp add: abs' q' pq_shape_def)
  then show ?thesis
    using pn szw rm lk pq_inv_valid [OF inv] abs' q'
    by (simp add: gw_pri_queue_put_def Let_def)
qed

text \<open>The highest level below \<open>n\<close> that holds a message.\<close>

fun top_level :: "nat \<Rightarrow> 'a list list \<Rightarrow> nat option" where
  "top_level 0 ls = None"
| "top_level (Suc n) ls = (if ls ! n = [] then top_level n ls else Some n)"

lemma top_level_SomeD: "top_level n ls = Some p \<Longrightarrow>
    p < n \<and> ls ! p \<noteq> [] \<and> (\<forall>k. p < k \<and> k < n \<longrightarrow> ls ! k = [])"
  by (induction n) (auto split: if_splits simp: less_Suc_eq)

lemma top_level_None: "top_level n ls = None \<longleftrightarrow> (\<forall>k < n. ls ! k = [])"
  by (induction n) (auto simp: less_Suc_eq)

lemma top_level_take [simp]: "n \<le> m \<Longrightarrow> top_level n (take m ls) = top_level n ls"
  by (induction n) auto

lemma sum_lengths_zero: "sum_list (map length xs) = 0 \<longleftrightarrow> (\<forall>k < length xs. xs ! k = [])"
  by (auto simp: all_set_conv_all_nth)

definition pri_take_state :: "osal \<Rightarrow> u32 \<Rightarrow> nat \<Rightarrow> osal" where
  "pri_take_state os i p =
     (let m = qu_queue_mutex (queue_rec os i) ! p in
      lock_state False (upd_queue (lock_state True os m) i
        (\<lambda>q. q\<lparr>qu_queue_list := (qu_queue_list q)[p := tl (qu_queue_list (queue_rec os i) ! p)]\<rparr>)) m)"

lemma pri_get_loop_top:
  assumes "osal_wf os" "unat i < GW_OSAL_MAX_QUEUE"
    and "\<forall>k < n. mut_passes os (qu_queue_mutex (queue_rec os i) ! k)"
    and "\<forall>k < n. length (qu_queue_list (queue_rec os i) ! k) < 4294967296"
    and "top_level n (qu_queue_list (queue_rec os i)) = Some p"
  shows "pri_get_loop os i sz n =
    (let msg = hd (qu_queue_list (queue_rec os i) ! p); os' = pri_take_state os i p in
     Some (if of_nat (length msg) > sz
       then (OSAL_ERR, None, Some (of_nat (length msg)),
             upd_queue os' i (\<lambda>q. inc_get_error (inc_get_data_long q)))
       else (OSAL_OK, Some msg, Some (of_nat (length msg)), os')))"
  using assms(3-5)
proof (induction n)
  case (Suc n)
  let ?l = "qu_queue_list (queue_rec os i) ! n"
  have z: "level_count (queue_rec os i) n = 0 \<longleftrightarrow> ?l = []"
    using Suc.prems(2) by (auto simp: level_count_def unat_eq_0 [symmetric] unat_of_nat_u32)
  show ?case
  proof (cases "?l = []")
    case True
    then show ?thesis using Suc z by simp
  next
    case False
    then have p: "p = n" using Suc.prems(3) by simp
    obtain st where lk: "gw_mutex_lock os (qu_queue_mutex (queue_rec os i) ! n) =
        Some (st, lock_state True os (qu_queue_mutex (queue_rec os i) ! n))"
      using mutex_lock_passes Suc.prems(1) by blast
    obtain x xs where l: "?l = x # xs" using False by (cases ?l) auto
    show ?thesis
      using False z lk l assms(1,2)
      by (simp add: p Let_def pri_take_state_def queue_rec_upd)
  qed
qed simp

lemma pri_get_loop_none:
  assumes "\<forall>k < n. qu_queue_list (queue_rec os i) ! k = []"
  shows "pri_get_loop os i sz n = Some (OSAL_ERR, None, None, upd_queue os i inc_get_error)"
  using assms by (induction n) (auto simp: level_count_def)

lemma pri_take_inv:
  assumes inv: "pq_inv os i" and t: "top_level (length (pq_abs os i)) (pq_abs os i) = Some p"
    and s: "s = qu_cnt_sem_id (queue_rec os i)" and v: "Suc v = sem_value os s"
  shows "pq_inv (pri_take_state (set_sem_value os s v) i p) i \<and>
    pq_abs (pri_take_state (set_sem_value os s v) i p) i =
      (pq_abs os i)[p := tl (pq_abs os i ! p)]"
proof -
  let ?os1 = "set_sem_value os s v"
  let ?q = "queue_rec os i" and ?n = "nat (qu_pri_num (queue_rec os i))"
  let ?os' = "pri_take_state ?os1 i p"
  have wf: "osal_wf os" and i: "unat i < GW_OSAL_MAX_QUEUE" and sh: "pq_shape ?q"
    and lev: "\<forall>l \<in> set (pq_abs os i). length l \<le> unat (qu_depth ?q)"
    and msz: "\<forall>l \<in> set (pq_abs os i). \<forall>m \<in> set l. length m \<le> unat (qu_queue_size ?q)"
    and sv: "sem_valid os s"
    and cnt: "sem_value os s = sum_list (map length (pq_abs os i))"
    and mx: "\<forall>p < ?n. mut_passes os (qu_queue_mutex ?q ! p)"
    using inv by (auto simp: pq_inv_def s)
  have p: "p < length (pq_abs os i)" "pq_abs os i ! p \<noteq> []" using top_level_SomeD [OF t] by auto
  then have pn: "p < ?n" using pq_abs_length [OF inv] by simp
  let ?m = "qu_queue_mutex ?q ! p"
  have q': "queue_rec ?os' i = ?q\<lparr>qu_queue_list := (qu_queue_list ?q)[p := tl (qu_queue_list ?q ! p)]\<rparr>"
    by (simp add: pri_take_state_def Let_def queue_rec_upd wf i)
  have abs': "pq_abs ?os' i = (pq_abs os i)[p := tl (pq_abs os i ! p)]"
    using pn by (simp add: pq_abs_def q' take_update_swap)
  have lev': "\<forall>l \<in> set (pq_abs ?os' i). length l \<le> unat (qu_depth ?q)"
    using set_upd_subset [OF lev, of "tl (pq_abs os i ! p)" p] bspec [OF lev nth_mem [OF p(1)]]
    by (simp add: abs')
  have msz': "\<forall>l \<in> set (pq_abs ?os' i). \<forall>m \<in> set l. length m \<le> unat (qu_queue_size ?q)"
    unfolding abs' using msz bspec [OF msz nth_mem [OF p(1)]]
    by (intro set_upd_subset) (auto dest: list.set_sel(2) [OF p(2)])
  have "sum_list (map length (pq_abs ?os' i)) = v"
    using sum_lengths_upd [OF p(1), of "tl (pq_abs os i ! p)"] p(2) v cnt
    by (cases "pq_abs os i ! p") (simp_all add: abs')
  moreover have "mut_passes ?os' (qu_queue_mutex ?q ! k)" if "k < ?n" for k
    using mx that wf
    by (cases "qu_queue_mutex ?q ! k = ?m")
      (simp_all add: pri_take_state_def Let_def mut_passes_unlock mut_passes_lock)
  ultimately have "pq_inv ?os' i"
    using wf i sh sv lev' msz' cnt q' s unfolding pq_inv_def
    by (simp add: pq_shape_def) (simp add: pri_take_state_def Let_def)
  with abs' show ?thesis by blast
qed

lemma wait_ready:
  assumes "sem_valid os s" "0 < sem_value os s" "-1 \<le> timeout"
  shows "gw_semaphore_wait posts os s timeout = Some (OSAL_OK, set_sem_value os s (sem_value os s - 1))"
  using assms by (auto simp: gw_semaphore_wait_def sem_timed_loop.simps)

lemma wait_empty:
  assumes "sem_valid os s" "sem_value os s = 0"
  shows "gw_semaphore_wait posts os s 0 = Some (OSAL_ERR, os)"
  using assms by (simp add: gw_semaphore_wait_def)

text \<open>Counting an error changes nothing the invariant or the abstract queue depends on.\<close>

definition same_core :: "osal_queue \<Rightarrow> osal_queue \<Rightarrow> bool" where
  "same_core q q' \<longleftrightarrow> qu_free q' = qu_free q \<and> qu_queue_type q' = qu_queue_type q \<and>
     qu_pri_num q' = qu_pri_num q \<and> qu_queue_list q' = qu_queue_list q \<and>
     qu_pri_queue_peek q' = qu_pri_queue_peek q \<and> qu_depth q' = qu_depth q \<and>
     qu_queue_size q' = qu_queue_size q \<and> qu_cnt_sem_id q' = qu_cnt_sem_id q \<and>
     qu_queue_mutex q' = qu_queue_mutex q"

lemma same_core_counters [simp]:
  "same_core q (inc_put_error q')  = same_core q q'"
  "same_core q (inc_put_full_error q') = same_core q q'"
  "same_core q (inc_put_data_error q') = same_core q q'"
  "same_core q (inc_put_data_long q') = same_core q q'"
  "same_core q (inc_get_error q') = same_core q q'"
  "same_core q (inc_get_data_error q') = same_core q q'"
  "same_core q (inc_get_data_long q') = same_core q q'"
  "same_core q q"
  by (simp_all add: same_core_def queue_counters)

lemma counter_keeps:
  assumes "pq_inv os i" "same_core (queue_rec os i) (f (queue_rec os i))"
  shows "pq_inv (upd_queue os i f) i \<and> pq_abs (upd_queue os i f) i = pq_abs os i \<and>
    qu_depth (queue_rec (upd_queue os i f) i) = qu_depth (queue_rec os i) \<and>
    qu_queue_size (queue_rec (upd_queue os i f) i) = qu_queue_size (queue_rec os i)"
proof -
  have q': "queue_rec (upd_queue os i f) i = f (queue_rec os i)"
    using assms(1) by (simp add: pq_inv_def queue_rec_upd)
  have "pq_abs (upd_queue os i f) i = pq_abs os i"
    using assms(2) by (simp add: pq_abs_def q' same_core_def)
  then show ?thesis
    using assms by (simp add: pq_inv_def q' same_core_def pq_shape_def)
qed

section \<open>The abstract priority queue\<close>

datatype pq_op = PqPut int "u8 list" | PqGet u32

fun pq_step :: "u32 \<Rightarrow> osal \<Rightarrow> pq_op \<Rightarrow> ((osal_status \<times> u8 list option) \<times> osal) option" where
  "pq_step i os (PqPut p msg) =
     map_option (\<lambda>(st, os'). ((st, None), os')) (gw_pri_queue_put os i (Some msg) p True)"
| "pq_step i os (PqGet sz) =
     map_option (\<lambda>(st, msg, _, os'). ((st, msg), os')) (gw_pri_queue_get (\<lambda>_. 0) os i True sz 0)"

fun apq_step :: "nat \<Rightarrow> nat \<Rightarrow> u8 list list list \<Rightarrow> pq_op \<Rightarrow> (osal_status \<times> u8 list option) \<times> u8 list list list" where
  "apq_step depth qsize ls (PqPut p msg) =
     (if length msg > qsize \<or> p < 0 \<or> p \<ge> int (length ls) \<or> length (ls ! nat p) \<ge> depth
      then ((OSAL_ERR, None), ls)
      else ((OSAL_OK, None), ls[nat p := ls ! nat p @ [msg]]))"
| "apq_step depth qsize ls (PqGet sz) =
     (case top_level (length ls) ls of
        None \<Rightarrow> ((OSAL_ERR, None), ls)
      | Some p \<Rightarrow>
          ((if length (hd (ls ! p)) > unat sz then (OSAL_ERR, None) else (OSAL_OK, Some (hd (ls ! p)))),
           ls[p := tl (ls ! p)]))"

fun pq_run :: "u32 \<Rightarrow> osal \<Rightarrow> pq_op list \<Rightarrow> ((osal_status \<times> u8 list option) list \<times> osal) option" where
  "pq_run i os [] = Some ([], os)"
| "pq_run i os (op1 # ops) =
     (case pq_step i os op1 of None \<Rightarrow> None
      | Some (r, os') \<Rightarrow> map_option (\<lambda>(rs, os''). (r # rs, os'')) (pq_run i os' ops))"

fun apq_run :: "nat \<Rightarrow> nat \<Rightarrow> u8 list list list \<Rightarrow> pq_op list \<Rightarrow>
    (osal_status \<times> u8 list option) list \<times> u8 list list list" where
  "apq_run depth qsize ls [] = ([], ls)"
| "apq_run depth qsize ls (op1 # ops) =
     (case apq_step depth qsize ls op1 of (r, ls') \<Rightarrow>
        (case apq_run depth qsize ls' ops of (rs, ls'') \<Rightarrow> (r # rs, ls'')))"

fun pq_op_ok :: "pq_op \<Rightarrow> bool" where
  "pq_op_ok (PqPut p msg) \<longleftrightarrow> length msg < 2 ^ 32"
| "pq_op_ok (PqGet sz) \<longleftrightarrow> True"

text \<open>One step of the code is one step of the abstract queue and keeps the invariant.\<close>

definition pq_refines :: "osal \<Rightarrow> u32 \<Rightarrow> ((osal_status \<times> u8 list option) \<times> u8 list list list) \<Rightarrow>
    ((osal_status \<times> u8 list option) \<times> osal) option \<Rightarrow> bool" where
  "pq_refines os i a c \<longleftrightarrow> (\<exists>os'. c = Some (fst a, os') \<and> pq_inv os' i \<and> pq_abs os' i = snd a \<and>
     qu_depth (queue_rec os' i) = qu_depth (queue_rec os i) \<and>
     qu_queue_size (queue_rec os' i) = qu_queue_size (queue_rec os i))"

lemma pri_put_refines:
  assumes inv: "pq_inv os i" and ok: "length msg < 2 ^ 32"
  shows "pq_refines os i (apq_step (unat (qu_depth (queue_rec os i))) (unat (qu_queue_size (queue_rec os i)))
      (pq_abs os i) (PqPut p msg)) (pq_step i os (PqPut p msg))"
proof -
  let ?q = "queue_rec os i"
  have n: "int (length (pq_abs os i)) = qu_pri_num ?q"
    using pq_abs_length [OF inv] inv by (simp add: pq_inv_def pq_shape_def)
  have szw: "of_nat (length msg) > qu_queue_size ?q \<longleftrightarrow> length msg > unat (qu_queue_size ?q)"
    using ok by (simp add: word_less_nat_alt unat_of_nat_u32)
  have cnt: "level_count ?q (nat p) \<ge> qu_depth ?q \<longleftrightarrow> length (pq_abs os i ! nat p) \<ge> unat (qu_depth ?q)"
    if "0 \<le> p" "p < qu_pri_num ?q"
  proof -
    have "nat p < length (pq_abs os i)" using that n by simp
    then have "length (pq_abs os i ! nat p) \<le> unat (qu_depth ?q)"
      using inv by (simp add: pq_inv_def)
    moreover have "pq_abs os i ! nat p = qu_queue_list ?q ! nat p" using that by (simp add: pq_abs_nth)
    ultimately show ?thesis using level_count_less [of ?q "nat p"] by simp
  qed
  consider (long) "length msg > unat (qu_queue_size ?q)"
    | (pri) "length msg \<le> unat (qu_queue_size ?q)" "p < 0 \<or> p \<ge> qu_pri_num ?q"
    | (full) "length msg \<le> unat (qu_queue_size ?q)" "0 \<le> p" "p < qu_pri_num ?q"
        "length (pq_abs os i ! nat p) \<ge> unat (qu_depth ?q)"
    | (fits) "length msg \<le> unat (qu_queue_size ?q)" "0 \<le> p" "p < qu_pri_num ?q"
        "length (pq_abs os i ! nat p) < unat (qu_depth ?q)"
    by linarith
  then show ?thesis
  proof cases
    case fits
    then have "nat p < length (pq_abs os i)" using n by simp
    from pri_put_ok [OF inv this fits(4,1)] fits n show ?thesis
      by (auto simp: pq_refines_def list_put_def)
  qed (use pq_inv_valid [OF inv] n szw cnt counter_keeps [OF inv] in
      \<open>auto simp: pq_refines_def gw_pri_queue_put_def Let_def\<close>)
qed

lemma pri_get_refines:
  assumes inv: "pq_inv os i"
  shows "pq_refines os i (apq_step (unat (qu_depth (queue_rec os i))) (unat (qu_queue_size (queue_rec os i)))
      (pq_abs os i) (PqGet sz)) (pq_step i os (PqGet sz))"
proof -
  let ?q = "queue_rec os i" and ?s = "qu_cnt_sem_id (queue_rec os i)"
  have sv: "sem_valid os ?s" and cnt: "sem_value os ?s = sum_list (map length (pq_abs os i))"
    and wf: "osal_wf os" and i: "unat i < GW_OSAL_MAX_QUEUE"
    and mx: "\<forall>p < nat (qu_pri_num ?q). mut_passes os (qu_queue_mutex ?q ! p)"
    using inv by (auto simp: pq_inv_def)
  note n = pq_abs_length [OF inv]
  show ?thesis
  proof (cases "top_level (length (pq_abs os i)) (pq_abs os i)")
    case None
    then have "sem_value os ?s = 0" using cnt sum_lengths_zero [of "pq_abs os i"] by (simp add: top_level_None)
    with None show ?thesis
      using pq_inv_valid [OF inv] wait_empty [OF sv] counter_keeps [OF inv, of inc_get_error]
      by (simp add: pq_refines_def gw_pri_queue_get_def)
  next
    case (Some p)
    have pos: "0 < sem_value os ?s"
      using Some cnt sum_lengths_zero [of "pq_abs os i"] top_level_None [of "length (pq_abs os i)" "pq_abs os i"]
      by (auto simp: zero_less_iff_neq_zero)
    obtain v where v: "Suc v = sem_value os ?s" using pos gr0_implies_Suc by metis
    let ?os1 = "set_sem_value os ?s v"
    have pn: "p < nat (qu_pri_num ?q)" using top_level_SomeD [OF Some] n by simp
    have small: "length (qu_queue_list ?q ! k) < 4294967296" if "k < nat (qu_pri_num ?q)" for k
    proof -
      have "length (pq_abs os i ! k) \<le> unat (qu_depth ?q)" using inv that n by (simp add: pq_inv_def)
      then show ?thesis using unat_u32_less [of "qu_depth ?q"] that by (simp add: pq_abs_nth)
    qed
    have top: "top_level (nat (qu_pri_num ?q)) (qu_queue_list ?q) = Some p"
      using Some n by (simp add: pq_abs_def)
    note loop = pri_get_loop_top [of ?os1 i "nat (qu_pri_num ?q)" p sz, simplified, OF wf i mx _ top]
    note keep = pri_take_inv [OF inv Some refl v]
    have w: "gw_semaphore_wait (\<lambda>_. 0) os ?s 0 = Some (OSAL_OK, ?os1)"
      using wait_ready [OF sv pos, of 0] v by (metis diff_Suc_1 zero_le_numeral neg_le_0_iff_le zero_le_one)
    have ab: "pq_abs os i ! p = qu_queue_list ?q ! p" using pn by (simp add: pq_abs_nth)
    have "hd (pq_abs os i ! p) \<in> set (pq_abs os i ! p)" "pq_abs os i ! p \<in> set (pq_abs os i)"
      using top_level_SomeD [OF Some] by auto
    then have "length (hd (pq_abs os i ! p)) \<le> unat (qu_queue_size ?q)"
      using inv by (auto simp: pq_inv_def)
    then have szw: "of_nat (length (hd (qu_queue_list ?q ! p))) > sz \<longleftrightarrow>
        length (hd (qu_queue_list ?q ! p)) > unat sz"
      using unat_u32_less [of "qu_queue_size ?q"] ab by (simp add: word_less_nat_alt unat_of_nat_u32)
    let ?os2 = "pri_take_state ?os1 i p"
    have qt: "qu_depth (queue_rec ?os2 i) = qu_depth ?q" "qu_queue_size (queue_rec ?os2 i) = qu_queue_size ?q"
      by (simp_all add: pri_take_state_def Let_def queue_rec_upd wf i)
    note keep2 = counter_keeps [OF conjunct1 [OF keep], of "\<lambda>q. inc_get_error (inc_get_data_long q)", simplified]
    show ?thesis
      using pq_inv_valid [OF inv] w loop small Some keep keep2 szw ab qt
      by (auto simp: pq_refines_def gw_pri_queue_get_def Let_def)
  qed
qed

lemma pq_step_refines:
  assumes "pq_inv os i" "pq_op_ok a"
  shows "pq_refines os i (apq_step (unat (qu_depth (queue_rec os i))) (unat (qu_queue_size (queue_rec os i)))
      (pq_abs os i) a) (pq_step i os a)"
  using assms pri_put_refines pri_get_refines by (cases a) (simp_all del: apq_step.simps pq_step.simps)

lemma pq_run_refines:
  assumes "pq_inv os i" "list_all pq_op_ok ops" "qu_depth (queue_rec os i) = d" "qu_queue_size (queue_rec os i) = z"
  shows "\<exists>os'. pq_run i os ops = Some (fst (apq_run (unat d) (unat z) (pq_abs os i) ops), os') \<and>
    pq_inv os' i \<and> pq_abs os' i = snd (apq_run (unat d) (unat z) (pq_abs os i) ops)"
  using assms
proof (induction ops arbitrary: os)
  case (Cons a ops)
  obtain r ls where a: "apq_step (unat d) (unat z) (pq_abs os i) a = (r, ls)" by fastforce
  from pq_step_refines [of os i a] Cons.prems a obtain os1 where
    c: "pq_step i os a = Some (r, os1)" "pq_inv os1 i" "pq_abs os1 i = ls"
      "qu_depth (queue_rec os1 i) = d" "qu_queue_size (queue_rec os1 i) = z"
    by (auto simp: pq_refines_def)
  from Cons.IH [OF c(2) _ c(4,5)] Cons.prems(2) a c(1,3) show ?case
    by (auto split: prod.splits)
qed simp

section \<open>Creation\<close>

definition no_mutex_held :: "osal \<Rightarrow> bool" where
  "no_mutex_held os \<longleftrightarrow> list_all (\<lambda>x. mu_free x \<or> \<not> mu_id x) (gw_osal_mut_table os)"

definition queue_arrays_ok :: "osal \<Rightarrow> bool" where
  "queue_arrays_ok os \<longleftrightarrow> list_all (\<lambda>q. length (qu_queue_list q) = GW_OSAL_MAX_QUEUE_PRI \<and>
     length (qu_pri_queue_peek q) = GW_OSAL_MAX_QUEUE_PRI) (gw_osal_queue_table os)"

lemma no_mutex_held_passes: "osal_wf os \<Longrightarrow> no_mutex_held os \<Longrightarrow> mut_passes os m"
  by (auto simp: no_mutex_held_def mut_passes_def mut_valid_def mut_locked_def list_all_length osal_wf_def not_le)

lemma mutex_init_keeps:
  assumes "gw_mutex_init os b nm ok = (st, r, os')" "osal_wf os" "no_mutex_held os"
  shows "osal_wf os' \<and> no_mutex_held os' \<and> gw_osal_queue_table os' = gw_osal_queue_table os \<and>
    gw_osal_count_sem_table os' = gw_osal_count_sem_table os"
  using assms osal_wf_lengths(3) [OF assms(2)]
  by (auto simp: gw_mutex_init_def Let_def no_mutex_held_def mut_zero_def list_all_length nth_list_update
      split: option.splits if_splits)

text \<open>What the rounds of the loop over the levels establish.\<close>

definition levels_ready :: "osal \<Rightarrow> u32 \<Rightarrow> u32 \<Rightarrow> nat \<Rightarrow> bool" where
  "levels_ready os i s n \<longleftrightarrow> osal_wf os \<and> no_mutex_held os \<and> sem_valid os s \<and> sem_value os s = 0 \<and>
     qu_cnt_sem_id (queue_rec os i) = s \<and>
     length (qu_queue_list (queue_rec os i)) = GW_OSAL_MAX_QUEUE_PRI \<and>
     length (qu_pri_queue_peek (queue_rec os i)) = GW_OSAL_MAX_QUEUE_PRI \<and>
     (\<forall>k < n. qu_queue_list (queue_rec os i) ! k = [])"

lemma no_mutex_held_upd [simp]: "no_mutex_held (upd_queue os i f) = no_mutex_held os"
  by (simp add: no_mutex_held_def upd_queue_def)

lemma level_init_ready:
  assumes "levels_ready os (of_nat q) s n" "q < GW_OSAL_MAX_QUEUE" "n < GW_OSAL_MAX_QUEUE_PRI"
  shows "levels_ready (pri_level_init nm q ok os n) (of_nat q) s (Suc n)"
proof -
  let ?i = "of_nat q :: u32"
  have i: "unat ?i < GW_OSAL_MAX_QUEUE" using assms(2) by (simp add: osal_limits unat_of_nat_u32)
  let ?os1 = "upd_queue os ?i (\<lambda>q. q\<lparr>qu_queue_list := (qu_queue_list q)[n := []]\<rparr>)"
  obtain st r os2 where m: "gw_mutex_init ?os1 True (Some (pri_mutex_name nm n)) (ok n) = (st, r, os2)"
    by (rule prod_cases3)
  have k: "osal_wf os2 \<and> no_mutex_held os2 \<and> gw_osal_queue_table os2 = gw_osal_queue_table ?os1 \<and>
      gw_osal_count_sem_table os2 = gw_osal_count_sem_table ?os1"
    using mutex_init_keeps [OF m] assms(1) by (simp add: levels_ready_def)
  then have e: "queue_rec os2 ?i = queue_rec ?os1 ?i" "sem_valid os2 s = sem_valid ?os1 s"
      "sem_value os2 s = sem_value ?os1 s"
    by (simp_all add: queue_rec_def sem_valid_def sem_value_def)
  have q1: "queue_rec ?os1 ?i = (queue_rec os ?i)\<lparr>qu_queue_list := (qu_queue_list (queue_rec os ?i))[n := []]\<rparr>"
    using assms(1) i by (simp add: queue_rec_upd levels_ready_def)
  have "levels_ready os2 ?i s (Suc n)"
    using k e assms(1,3) by (auto simp: levels_ready_def q1 nth_list_update less_Suc_eq)
  moreover have "levels_ready (upd_queue os2 ?i (\<lambda>q. q\<lparr>qu_queue_mutex := (qu_queue_mutex q)[n := mid]\<rparr>)) ?i s (Suc n)"
    if "levels_ready os2 ?i s (Suc n)" for mid
    using that i by (simp add: levels_ready_def queue_rec_upd)
  ultimately show ?thesis
    using m by (simp add: pri_level_init_def Let_def split: option.split)
qed

lemma levels_init_ready:
  assumes "levels_ready os (of_nat q) s 0" "q < GW_OSAL_MAX_QUEUE" "n \<le> GW_OSAL_MAX_QUEUE_PRI"
  shows "levels_ready (foldl (pri_level_init nm q ok) os [0..<n]) (of_nat q) s n"
  using assms(3)
proof (induction n)
  case (Suc n)
  then show ?case using level_init_ready [OF Suc.IH assms(2)] by simp
qed (simp add: assms(1))

lemma pri_create_inv:
  assumes c: "gw_pri_queue_create os b nm d z n sok mok self = (OSAL_OK, r, os')"
    and wf: "osal_wf os" "no_mutex_held os" "queue_arrays_ok os"
    and sz: "unat d * nat n \<le> SEM_VALUE_MAX"
  shows "\<exists>i. r = Some i \<and> pq_inv os' i \<and> pq_abs os' i = replicate (nat n) [] \<and>
    qu_depth (queue_rec os' i) = d \<and> qu_queue_size (queue_rec os' i) = z"
proof -
  let ?q = "first_idx qu_free (gw_osal_queue_table os)"
  let ?i = "of_nat ?q :: u32"
  obtain st sr os1 where s: "gw_semaphore_init os True (Some (pri_sem_name ?q)) 0 sok = (st, sr, os1)"
    by (metis surj_pair)
  from c obtain qn where q: "nm = Some qn" "?q < GW_OSAL_MAX_QUEUE" and n: "0 < n" "n \<le> int GW_OSAL_MAX_QUEUE_PRI"
    and r: "r = Some ?i" and sr: "sr \<noteq> None"
    by (auto simp: gw_pri_queue_create_def Let_def s split: option.splits if_splits)
  obtain sid where sid: "sr = Some sid" using sr by blast
  let ?os2 = "upd_queue os1 ?i (\<lambda>q. q\<lparr>qu_cnt_sem_id := sid\<rparr>)"
  let ?os3 = "foldl (pri_level_init qn ?q mok) ?os2 [0..<nat n]"
  have os': "os' = upd_queue ?os3 ?i (\<lambda>q. q\<lparr>qu_free := False, qu_id := int ?q, qu_pri_num := n,
       qu_name := qn, qu_creator := uint (gw_creator_find ?os3 self), qu_queue_size := z, qu_depth := d,
       qu_queue_type := GW_PRI_QUEUE_TYPE\<rparr>)"
    using c q sid by (auto simp: gw_pri_queue_create_def Let_def s split: if_splits)
  have i: "unat ?i < GW_OSAL_MAX_QUEUE" "unat ?i = ?q" using q(2) by (simp_all add: osal_limits unat_of_nat_u32)
  have os1: "osal_wf os1" "sem_valid os1 sid" "sem_value os1 sid = 0"
      "gw_osal_mut_table os1 = gw_osal_mut_table os" "gw_osal_queue_table os1 = gw_osal_queue_table os"
    using s wf(1) osal_wf_lengths(2) [OF wf(1)] sid
      first_free_slot [of "gw_osal_count_sem_table os" GW_OSAL_MAX_COUNT_SEM sm_free]
    by (auto simp: gw_semaphore_init_def Let_def osal_limits sem_valid_def sem_value_def split: if_splits)
  have h1: "no_mutex_held os1" using os1(4) wf(2) by (simp add: no_mutex_held_def)
  have "length (qu_queue_list (queue_rec os1 ?i)) = GW_OSAL_MAX_QUEUE_PRI \<and>
      length (qu_pri_queue_peek (queue_rec os1 ?i)) = GW_OSAL_MAX_QUEUE_PRI"
    using wf(3) i q(2) osal_wf_lengths(4) [OF wf(1)] by (simp add: queue_rec_def os1(5) queue_arrays_ok_def list_all_length)
  then have "levels_ready ?os2 ?i sid 0"
    using os1(1-3) i(1) h1 by (simp add: levels_ready_def queue_rec_upd)
  from levels_init_ready [OF this q(2), of "nat n" qn mok] n
  have lr: "levels_ready ?os3 ?i sid (nat n)" by simp
  then have rec: "queue_rec os' ?i = (queue_rec ?os3 ?i)\<lparr>qu_free := False, qu_id := int ?q, qu_pri_num := n,
       qu_name := qn, qu_creator := uint (gw_creator_find ?os3 self), qu_queue_size := z, qu_depth := d,
       qu_queue_type := GW_PRI_QUEUE_TYPE\<rparr>"
    using i(1) by (simp add: os' queue_rec_upd levels_ready_def)
  have abs: "pq_abs os' ?i = replicate (nat n) []"
    using lr n by (intro nth_equalityI) (auto simp: pq_abs_def rec levels_ready_def)
  have "pq_inv os' ?i"
    using lr n i sz abs no_mutex_held_passes [of ?os3]
    unfolding pq_inv_def by (simp add: rec levels_ready_def pq_shape_def) (simp add: os' sum_list_replicate)
  with r abs rec show ?thesis by simp
qed

lemma init_first_free [simp]:
  "first_idx qu_free (gw_osal_queue_table gw_osal_core_init) = 0"
  "first_idx sm_free (gw_osal_count_sem_table gw_osal_core_init) = 0"
  by (auto intro!: first_idx_eqI simp: gw_osal_core_init_def queue_zero_def sem_zero_def osal_limits)

lemma init_tables_ok: "no_mutex_held gw_osal_core_init" "queue_arrays_ok gw_osal_core_init"
  by (simp_all add: no_mutex_held_def queue_arrays_ok_def gw_osal_core_init_def list_all_length
      mut_zero_def queue_zero_def osal_limits)

lemma init_pri_create:
  "gw_pri_queue_create gw_osal_core_init True (Some ''q'') 2 4 3 True (\<lambda>_. True) 0 =
   (OSAL_OK, Some 0, snd (snd (gw_pri_queue_create gw_osal_core_init True (Some ''q'') 2 4 3 True (\<lambda>_. True) 0)))"
proof -
  have "fst (gw_pri_queue_create gw_osal_core_init True (Some ''q'') 2 4 3 True (\<lambda>_. True) 0) = OSAL_OK"
    "fst (snd (gw_pri_queue_create gw_osal_core_init True (Some ''q'') 2 4 3 True (\<lambda>_. True) 0)) = Some 0"
    by (simp_all add: gw_pri_queue_create_def gw_semaphore_init_def Let_def init_first_free osal_limits
        pri_sem_name_def del: upt_rec_numeral)
  then show ?thesis by (metis prod.collapse)
qed

section \<open>The queue table\<close>

abbreviation live_queues :: "osal \<Rightarrow> nat set" where
  "live_queues os \<equiv> live_slots qu_free (gw_osal_queue_table os)"

definition queue_create_call :: "osal \<Rightarrow> bool \<times> string option \<times> u32 \<times> u32 \<times> int \<Rightarrow> osal_status \<times> u32 option \<times> osal" where
  "queue_create_call os = (\<lambda>(has_id, name, d, z, mqd). gw_queue_create os has_id name d z mqd)"

interpretation quetab: handle_table osal_wf live_queues GW_OSAL_MAX_QUEUE
  queue_create_call gw_queue_delete id
proof
  fix s c r s' assume wf: "osal_wf s" and c: "queue_create_call s c = (OSAL_OK, r, s')"
  obtain a n d z m where c2: "c = (a, n, d, z, m)" by (cases c)
  show "\<exists>h. r = Some h \<and> unat h < GW_OSAL_MAX_QUEUE \<and> unat h \<notin> live_queues s \<and>
      live_queues s' = insert (unat h) (live_queues s) \<and> osal_wf s'"
    using c wf osal_wf_lengths(4) [OF wf]
      first_free_slot [of "gw_osal_queue_table s" GW_OSAL_MAX_QUEUE qu_free]
    by (auto simp: c2 queue_create_call_def gw_queue_create_def Let_def osal_limits
          split: option.splits if_splits)
next
  fix s c st r s' assume wf: "osal_wf s" and c: "queue_create_call s c = (st, r, s')" and e: "st \<noteq> OSAL_OK"
  obtain a n d z m where c2: "c = (a, n, d, z, m)" by (cases c)
  show "live_queues s' = live_queues s \<and> osal_wf s'"
    using c e wf osal_wf_lengths(4) [OF wf]
      first_free_slot [of "gw_osal_queue_table s" GW_OSAL_MAX_QUEUE qu_free]
    by (auto simp: c2 queue_create_call_def gw_queue_create_def Let_def osal_limits queue_zero_def
          split: option.splits if_splits)
next
  fix s d s' assume wf: "osal_wf s" and d: "gw_queue_delete s d = (OSAL_OK, s')"
  show "unat (id d) \<in> live_queues s \<and> live_queues s' = live_queues s - {unat (id d)} \<and> osal_wf s'"
    using d wf osal_wf_lengths(4) [OF wf]
    by (auto simp: gw_queue_delete_def queue_zero_def queue_valid_def upd_queue_def queue_rec_def
          osal_limits live_slots_def nth_list_update split: if_splits)
next
  fix s d st s' assume wf: "osal_wf s" and d: "gw_queue_delete s d = (st, s')" and e: "st \<noteq> OSAL_OK"
  then show "live_queues s' = live_queues s \<and> osal_wf s'"
    by (auto simp: gw_queue_delete_def split: if_splits)
qed

section \<open>Properties\<close>

text \<open>
  C3. On a well-formed priority queue, every sequence of puts and non-blocking gets returns what
  the abstract queue returns: a put fails exactly for a message longer than the queue's size,
  a priority outside its levels or a full level; a get delivers the oldest message of the
  highest non-empty level, drops it when the caller's buffer is too small, and fails only when
  every level is empty. No call blocks, and the semaphore keeps counting the messages.
\<close>

theorem pri_queue_trace:
  assumes "pq_inv os i" "list_all pq_op_ok ops"
  shows "\<exists>os'. pq_run i os ops =
      Some (fst (apq_run (unat (qu_depth (queue_rec os i))) (unat (qu_queue_size (queue_rec os i))) (pq_abs os i) ops), os') \<and>
    pq_inv os' i \<and>
    pq_abs os' i =
      snd (apq_run (unat (qu_depth (queue_rec os i))) (unat (qu_queue_size (queue_rec os i))) (pq_abs os i) ops)"
  using pq_run_refines [OF assms refl refl] .

theorem pri_queue_trace_witness:
  "\<exists>os'. pq_run 0 (snd (snd (gw_pri_queue_create gw_osal_core_init True (Some ''q'') 2 4 3 True (\<lambda>_. True) 0)))
     [PqPut 0 [1], PqPut 2 [2, 3], PqPut 0 [4], PqPut 0 [5], PqGet 4, PqGet 4, PqGet 0, PqGet 4] =
   Some ([(OSAL_OK, None), (OSAL_OK, None), (OSAL_OK, None), (OSAL_ERR, None),
          (OSAL_OK, Some [2, 3]), (OSAL_OK, Some [1]), (OSAL_ERR, None), (OSAL_ERR, None)], os')"
proof -
  let ?os = "snd (snd (gw_pri_queue_create gw_osal_core_init True (Some ''q'') 2 4 3 True (\<lambda>_. True) 0))"
  note c = init_pri_create
  from pri_create_inv [OF c osal_wf_init init_tables_ok] have p: "pq_inv ?os 0" "pq_abs ?os 0 = replicate 3 []"
      "qu_depth (queue_rec ?os 0) = 2" "qu_queue_size (queue_rec ?os 0) = 4"
    by (auto simp: SEM_VALUE_MAX_def)
  let ?ops = "[PqPut 0 [1], PqPut 2 [2, 3], PqPut 0 [4], PqPut 0 [5], PqGet 4, PqGet 4, PqGet 0, PqGet 4]"
  have a: "fst (apq_run 2 4 (replicate 3 []) ?ops) =
      [(OSAL_OK, None), (OSAL_OK, None), (OSAL_OK, None), (OSAL_ERR, None),
       (OSAL_OK, Some [2, 3]), (OSAL_OK, Some [1]), (OSAL_ERR, None), (OSAL_ERR, None)]"
    by code_simp
  have ok: "list_all pq_op_ok ?ops" by simp
  have u: "unat (2 :: u32) = 2" "unat (4 :: u32) = 4" by simp_all
  show ?thesis
    using pri_queue_trace [OF p(1) ok] unfolding p(2-4) u a by blast
qed

text \<open>
  \<^verbatim>\<open>gw_pri_queue_create\<close>, when it succeeds on well-formed tables with no mutex held, leaves
  an empty, usable queue of the requested depth and size, even if mutexes of its levels could
  not be created.
\<close>

theorem pri_create_usable:
  assumes "gw_pri_queue_create os b nm d z n sok mok self = (OSAL_OK, r, os')"
    and "osal_wf os" "no_mutex_held os" "queue_arrays_ok os" "unat d * nat n \<le> SEM_VALUE_MAX"
  shows "\<exists>i. r = Some i \<and> pq_inv os' i \<and> pq_abs os' i = replicate (nat n) [] \<and>
    qu_depth (queue_rec os' i) = d \<and> qu_queue_size (queue_rec os' i) = z"
  using pri_create_inv [OF assms] .

theorem pri_create_usable_witness:
  "pq_inv (snd (snd (gw_pri_queue_create gw_osal_core_init True (Some ''q'') 2 4 3 True (\<lambda>_. True) 0))) 0"
  using pri_create_usable [OF init_pri_create osal_wf_init init_tables_ok] by (auto simp: SEM_VALUE_MAX_def)

end
