(* ===== verification/Gw_Timer.thy ===== *)
theory Gw_Timer
  imports Os_Queue
begin

text \<open>
  The software timers of \<^verbatim>\<open>system/gw_timer.c\<close>. Timers live on a heap of records; the timer
  list and the expire list are lists of addresses (the list theory shows that the intrusive
  lists act as such). The times a round and a callback take are the 64-bit differences of the
  clock; the control block keeps 32 bits of them. The ticks of a timer are a tenth of a 32-bit
  number, so the signed fields \<^verbatim>\<open>interval\<close> and \<^verbatim>\<open>remain_interval\<close> are never negative. A use of a freed timer, or a second insertion of a node that is linked
  in the expire list, is a fault: the value \<open>None\<close>. What an application callback does to the
  timers is the sequence of timer calls it makes, given by the parameter \<open>app\<close>.
\<close>

section \<open>Timers and the control block\<close>

datatype timer_type = GW_ONCE_TIMER | GW_CIRCLE_TIMER
datatype stop_flag = GW_TIMER_NO_STOPPED | GW_TIMER_STOPPED | GW_TIMER_DESTROYED

text \<open>The internal callback of a timer: \<^verbatim>\<open>gw_timer_app_callback\<close> or \<^verbatim>\<open>gw_msg_timer_app_callback\<close>.\<close>

datatype timer_callback = AppCallback | MsgCallback

record gw_timer =
  tm_interval :: nat
  tm_remain_interval :: nat
  tm_callback :: timer_callback
  tm_data :: u32
  tm_app_callback :: "nat option"
  tm_timer_type :: timer_type
  tm_stop_flag :: stop_flag
  tm_queue_id :: u32
  tm_data_free_func :: "nat option"

text \<open>
  \<open>ts_heap a = None\<close>: nothing is allocated at \<open>a\<close>. \<open>ts_calls\<close> records, latest first, the
  application functions called (callbacks and data release functions) with their timer and data.
\<close>

record gw_timers =
  ts_heap :: "addr \<Rightarrow> gw_timer option"
  ts_timer_list :: "addr list"
  ts_expire_timer_list :: "addr list"
  ts_delta :: u32
  ts_msg_timer_sendQ_error :: u32
  ts_total_timeout_timer :: u32
  ts_total_timer_delta :: u32
  ts_timer_peek_value :: u32
  ts_callback_peek_time :: u32
  ts_callback_peek_ptr :: "timer_callback + nat option"
  ts_os :: osal
  ts_calls :: "(addr \<times> nat \<times> u32) list"

definition sys_interval_in_tick :: nat where "sys_interval_in_tick = 1"

definition GW_TIMER_OK :: int where "GW_TIMER_OK = 0"
definition GW_TIMER_ERROR :: int where "GW_TIMER_ERROR = -1"

definition set_timer :: "gw_timers \<Rightarrow> addr \<Rightarrow> gw_timer \<Rightarrow> gw_timers" where
  "set_timer st p t = st\<lparr>ts_heap := (ts_heap st)(p := Some t)\<rparr>"

section \<open>Creation, lookup and destruction\<close>

text \<open>\<open>a\<close>: the address \<^verbatim>\<open>malloc\<close> returned. The timeout arrives as a signed integer.\<close>

definition gw_create_timer ::
  "gw_timers \<Rightarrow> addr option \<Rightarrow> timer_callback \<Rightarrow> u32 \<Rightarrow> gw_timers \<times> addr option" where
  "gw_create_timer st a cb timeout =
     (if sint timeout \<le> 0 then (st, None)
      else case a of
        None \<Rightarrow> (st, None)
      | Some p \<Rightarrow>
          (set_timer st p
             \<lparr>tm_interval = unat (gw_milli_to_ticks timeout),
              tm_remain_interval = unat (gw_milli_to_ticks timeout), tm_callback = cb, tm_data = 0,
              tm_app_callback = None, tm_timer_type = GW_ONCE_TIMER,
              tm_stop_flag = GW_TIMER_NO_STOPPED, tm_queue_id = -1, tm_data_free_func = None\<rparr>,
           Some p))"

definition gw_lookup_timer :: "gw_timers \<Rightarrow> addr option \<Rightarrow> int" where
  "gw_lookup_timer st pTimer =
     (case pTimer of
        None \<Rightarrow> GW_TIMER_ERROR
      | Some p \<Rightarrow> if List.find (\<lambda>q. q = p) (ts_timer_list st) \<noteq> None then GW_TIMER_OK else GW_TIMER_ERROR)"

definition gw_count_timer :: "gw_timers \<Rightarrow> u32" where
  "gw_count_timer st = of_nat (length (ts_timer_list st))"

text \<open>A write to a field of a timer: a fault when it has been freed.\<close>

definition with_timer :: "gw_timers \<Rightarrow> addr \<Rightarrow> (gw_timer \<Rightarrow> gw_timer) \<Rightarrow> gw_timers option" where
  "with_timer st p f = (case ts_heap st p of None \<Rightarrow> None | Some t \<Rightarrow> Some (set_timer st p (f t)))"

definition gw_destroy_timer :: "gw_timers \<Rightarrow> addr option \<Rightarrow> gw_timers option" where
  "gw_destroy_timer st pTimer =
     (case pTimer of
        None \<Rightarrow> Some st
      | Some p \<Rightarrow>
          (case with_timer st p (\<lambda>t. t\<lparr>tm_stop_flag := GW_TIMER_DESTROYED\<rparr>) of
             None \<Rightarrow> None
           | Some st1 \<Rightarrow>
               if gw_lookup_timer st1 (Some p) = GW_TIMER_OK then Some st1
               else Some (st1\<lparr>ts_heap := (ts_heap st1)(p := None)\<rparr>)))"

section \<open>Start, stop, restart, retiming\<close>

definition remain_of :: "(addr \<Rightarrow> gw_timer option) \<Rightarrow> addr \<Rightarrow> nat" where
  "remain_of heap p = (case heap p of None \<Rightarrow> 0 | Some t \<Rightarrow> tm_remain_interval t)"

abbreviation remain_at :: "gw_timers \<Rightarrow> addr \<Rightarrow> nat" where
  "remain_at st \<equiv> remain_of (ts_heap st)"

text \<open>The scan of \<^verbatim>\<open>gw_start_timer\<close>: insert before the first timer that has longer to run.\<close>

fun insert_by_remain :: "(addr \<Rightarrow> nat) \<Rightarrow> nat \<Rightarrow> addr \<Rightarrow> addr list \<Rightarrow> addr list" where
  "insert_by_remain rem r p [] = [p]"
| "insert_by_remain rem r p (q # qs) =
     (if rem q \<le> r then q # insert_by_remain rem r p qs else p # q # qs)"

definition gw_start_timer :: "gw_timers \<Rightarrow> addr option \<Rightarrow> (int \<times> gw_timers) option" where
  "gw_start_timer st pTimer =
     (case pTimer of
        None \<Rightarrow> Some (GW_TIMER_ERROR, st)
      | Some p \<Rightarrow>
          (case with_timer st p (\<lambda>t. t\<lparr>tm_stop_flag := GW_TIMER_NO_STOPPED\<rparr>) of
             None \<Rightarrow> None
           | Some st1 \<Rightarrow>
               if gw_lookup_timer st1 (Some p) = GW_TIMER_OK then Some (GW_TIMER_OK, st1)
               else if p \<in> set (ts_expire_timer_list st1) then None
               else (case with_timer st1 p (\<lambda>t. t\<lparr>tm_remain_interval := tm_interval t\<rparr>) of
                       None \<Rightarrow> None
                     | Some st2 \<Rightarrow>
                         let st3 = st2\<lparr>ts_timer_list :=
                               insert_by_remain (remain_at st2) (remain_at st2 p) p (ts_timer_list st2)\<rparr>
                         in Some (GW_TIMER_OK,
                              if ts_timer_peek_value st3 \<le> gw_count_timer st3
                              then st3\<lparr>ts_timer_peek_value := gw_count_timer st3\<rparr> else st3))))"

definition gw_stop_timer :: "gw_timers \<Rightarrow> addr option \<Rightarrow> (int \<times> gw_timers) option" where
  "gw_stop_timer st pTimer =
     (case pTimer of
        None \<Rightarrow> Some (GW_TIMER_ERROR, st)
      | Some p \<Rightarrow>
          (case with_timer st p (\<lambda>t. t\<lparr>tm_stop_flag := GW_TIMER_STOPPED\<rparr>) of
             None \<Rightarrow> None
           | Some st1 \<Rightarrow>
               if gw_lookup_timer st1 (Some p) = GW_TIMER_ERROR then Some (GW_TIMER_OK, st1)
               else Some (GW_TIMER_OK, st1\<lparr>ts_timer_list := remove1 p (ts_timer_list st1)\<rparr>)))"

definition gw_restart_timer :: "gw_timers \<Rightarrow> addr option \<Rightarrow> (int \<times> gw_timers) option" where
  "gw_restart_timer st pTimer =
     (case pTimer of
        None \<Rightarrow> Some (GW_TIMER_ERROR, st)
      | Some p \<Rightarrow>
          (case gw_stop_timer st (Some p) of
             None \<Rightarrow> None
           | Some (_, st1) \<Rightarrow> map_option (\<lambda>(_, st2). (GW_TIMER_OK, st2)) (gw_start_timer st1 (Some p))))"

definition gw_retiming_timer :: "gw_timers \<Rightarrow> addr option \<Rightarrow> u32 \<Rightarrow> (int \<times> gw_timers) option" where
  "gw_retiming_timer st pTimer timeout =
     (case pTimer of
        None \<Rightarrow> Some (GW_TIMER_ERROR, st)
      | Some p \<Rightarrow>
          if gw_lookup_timer st (Some p) = GW_TIMER_ERROR then Some (GW_TIMER_OK, st)
          else map_option (\<lambda>st1. (GW_TIMER_OK, st1))
                 (with_timer st p (\<lambda>t. t\<lparr>tm_interval := unat (gw_milli_to_ticks timeout),
                    tm_remain_interval := unat (gw_milli_to_ticks timeout)\<rparr>)))"

section \<open>Public interface\<close>

text \<open>
  \<^verbatim>\<open>gw_timer_add\<close> and \<^verbatim>\<open>gw_circle_timer_add\<close> differ in the type they store; the two message
  variants set the queue and no application callback. The handle \<open>None\<close> is \<^verbatim>\<open>GW_INVALID_TIMER\<close>.
\<close>

definition timer_add_common ::
  "gw_timers \<Rightarrow> addr option \<Rightarrow> timer_callback \<Rightarrow> u32 \<Rightarrow> (gw_timer \<Rightarrow> gw_timer) \<Rightarrow>
   (addr option \<times> gw_timers) option" where
  "timer_add_common st a cb timeout setup =
     (case gw_create_timer st a cb timeout of
        (st1, None) \<Rightarrow> Some (None, st1)
      | (st1, Some p) \<Rightarrow>
          (case with_timer st1 p setup of
             None \<Rightarrow> None
           | Some st2 \<Rightarrow> map_option (\<lambda>(_, st3). (Some p, st3)) (gw_start_timer st2 (Some p))))"

definition gw_timer_add ::
  "gw_timers \<Rightarrow> addr option \<Rightarrow> u32 \<Rightarrow> nat option \<Rightarrow> u32 \<Rightarrow> (addr option \<times> gw_timers) option" where
  "gw_timer_add st a timeout callback data =
     (if callback = None then Some (None, st)
      else timer_add_common st a AppCallback timeout
             (\<lambda>t. t\<lparr>tm_queue_id := -1, tm_app_callback := callback, tm_data := data,
                   tm_timer_type := GW_ONCE_TIMER\<rparr>))"

definition gw_circle_timer_add ::
  "gw_timers \<Rightarrow> addr option \<Rightarrow> u32 \<Rightarrow> nat option \<Rightarrow> u32 \<Rightarrow> (addr option \<times> gw_timers) option" where
  "gw_circle_timer_add st a timeout callback data =
     (if callback = None then Some (None, st)
      else timer_add_common st a AppCallback timeout
             (\<lambda>t. t\<lparr>tm_queue_id := -1, tm_app_callback := callback, tm_data := data,
                   tm_timer_type := GW_CIRCLE_TIMER\<rparr>))"

definition gw_msg_timer_add ::
  "gw_timers \<Rightarrow> addr option \<Rightarrow> u32 \<Rightarrow> u32 \<Rightarrow> u32 \<Rightarrow> nat option \<Rightarrow> (addr option \<times> gw_timers) option" where
  "gw_msg_timer_add st a queue_id timeout data free_func =
     timer_add_common st a MsgCallback timeout
       (\<lambda>t. t\<lparr>tm_queue_id := queue_id, tm_data := data, tm_data_free_func := free_func,
             tm_timer_type := GW_ONCE_TIMER\<rparr>)"

definition gw_msg_circle_timer_add ::
  "gw_timers \<Rightarrow> addr option \<Rightarrow> u32 \<Rightarrow> u32 \<Rightarrow> u32 \<Rightarrow> (addr option \<times> gw_timers) option" where
  "gw_msg_circle_timer_add st a queue_id timeout data =
     timer_add_common st a MsgCallback timeout
       (\<lambda>t. t\<lparr>tm_queue_id := queue_id, tm_data := data, tm_data_free_func := None,
             tm_timer_type := GW_CIRCLE_TIMER\<rparr>)"

definition gw_timer_del :: "gw_timers \<Rightarrow> addr option \<Rightarrow> (int \<times> gw_timers) option" where
  "gw_timer_del st h =
     (case h of
        None \<Rightarrow> Some (GW_TIMER_ERROR, st)
      | Some p \<Rightarrow>
          (case gw_stop_timer st (Some p) of
             None \<Rightarrow> None
           | Some (_, st1) \<Rightarrow> map_option (\<lambda>st2. (GW_TIMER_OK, st2)) (gw_destroy_timer st1 (Some p))))"

definition gw_timer_stop :: "gw_timers \<Rightarrow> addr option \<Rightarrow> (int \<times> gw_timers) option" where
  "gw_timer_stop st h =
     (case h of None \<Rightarrow> Some (GW_TIMER_ERROR, st)
      | Some p \<Rightarrow> map_option (\<lambda>(_, st1). (GW_TIMER_OK, st1)) (gw_stop_timer st (Some p)))"

definition gw_timer_start :: "gw_timers \<Rightarrow> addr option \<Rightarrow> (int \<times> gw_timers) option" where
  "gw_timer_start st h =
     (case h of None \<Rightarrow> Some (GW_TIMER_ERROR, st)
      | Some p \<Rightarrow> map_option (\<lambda>(_, st1). (GW_TIMER_OK, st1)) (gw_start_timer st (Some p)))"

definition gw_timer_restart :: "gw_timers \<Rightarrow> addr option \<Rightarrow> (int \<times> gw_timers) option" where
  "gw_timer_restart st h =
     (case h of None \<Rightarrow> Some (GW_TIMER_ERROR, st)
      | Some p \<Rightarrow> map_option (\<lambda>(_, st1). (GW_TIMER_OK, st1)) (gw_restart_timer st (Some p)))"

definition gw_timer_retiming :: "gw_timers \<Rightarrow> addr option \<Rightarrow> u32 \<Rightarrow> (int \<times> gw_timers) option" where
  "gw_timer_retiming st h timeout = gw_retiming_timer st h timeout"

section \<open>Callbacks\<close>

text \<open>The timer calls an application callback can make.\<close>

datatype timer_call =
    TAdd "addr option" u32 "nat option" u32
  | TCircleAdd "addr option" u32 "nat option" u32
  | TDel "addr option"
  | TStop "addr option"
  | TStart "addr option"
  | TRestart "addr option"
  | TRetiming "addr option" u32

fun do_call :: "timer_call \<Rightarrow> gw_timers \<Rightarrow> gw_timers option" where
  "do_call (TAdd a t cb d) st = map_option snd (gw_timer_add st a t cb d)"
| "do_call (TCircleAdd a t cb d) st = map_option snd (gw_circle_timer_add st a t cb d)"
| "do_call (TDel h) st = map_option snd (gw_timer_del st h)"
| "do_call (TStop h) st = map_option snd (gw_timer_stop st h)"
| "do_call (TStart h) st = map_option snd (gw_timer_start st h)"
| "do_call (TRestart h) st = map_option snd (gw_timer_restart st h)"
| "do_call (TRetiming h t) st = map_option snd (gw_timer_retiming st h t)"

fun do_calls :: "timer_call list \<Rightarrow> gw_timers \<Rightarrow> gw_timers option" where
  "do_calls [] st = Some st"
| "do_calls (c # cs) st = (case do_call c st of None \<Rightarrow> None | Some st1 \<Rightarrow> do_calls cs st1)"

type_synonym app_fns = "nat \<Rightarrow> u32 \<Rightarrow> timer_call list"

definition call_app :: "app_fns \<Rightarrow> addr \<Rightarrow> nat \<Rightarrow> u32 \<Rightarrow> gw_timers \<Rightarrow> gw_timers option" where
  "call_app app p f d st = do_calls (app f d) (st\<lparr>ts_calls := (p, f, d) # ts_calls st\<rparr>)"

text \<open>What both internal callbacks end with: destroy a one-shot timer, start a periodic one.\<close>

definition finish_timer :: "gw_timers \<Rightarrow> addr \<Rightarrow> gw_timers option" where
  "finish_timer st p =
     (case ts_heap st p of
        None \<Rightarrow> None
      | Some t \<Rightarrow> if tm_timer_type t = GW_ONCE_TIMER then gw_destroy_timer st (Some p)
                  else map_option snd (gw_start_timer st (Some p)))"

definition gw_timer_app_callback :: "app_fns \<Rightarrow> gw_timers \<Rightarrow> addr \<Rightarrow> gw_timers option" where
  "gw_timer_app_callback app st p =
     (case ts_heap st p of
        None \<Rightarrow> None
      | Some t \<Rightarrow>
          if tm_timer_type t = GW_CIRCLE_TIMER \<and> tm_stop_flag t = GW_TIMER_DESTROYED
          then Some (st\<lparr>ts_heap := (ts_heap st)(p := None)\<rparr>)
          else if tm_timer_type t = GW_CIRCLE_TIMER \<and> tm_stop_flag t = GW_TIMER_STOPPED
          then Some st
          else let st1 = set_timer st p (t\<lparr>tm_stop_flag := GW_TIMER_NO_STOPPED\<rparr>) in
            (case (case tm_app_callback t of
                     None \<Rightarrow> Some st1
                   | Some f \<Rightarrow> call_app app p f (tm_data t) st1) of
               None \<Rightarrow> None
             | Some st2 \<Rightarrow> finish_timer st2 p))"

text \<open>\<open>sent\<close>: the POSIX queue accepts the message. The data word is sent as its four bytes.\<close>

definition timer_send :: "osal \<Rightarrow> u32 \<Rightarrow> u32 \<Rightarrow> bool \<Rightarrow> (osal_status \<times> osal) option" where
  "timer_send os queue_id data sent =
     (if gw_queue_type_get os queue_id = GW_NORMAL_QUEUE_TYPE
      then Some (gw_queue_put os queue_id True 4 sent)
      else gw_pri_queue_put os queue_id (Some (bytes_of_u32 data))
             (gw_pri_queue_max_priority os queue_id) True)"

definition gw_msg_timer_app_callback :: "app_fns \<Rightarrow> bool \<Rightarrow> gw_timers \<Rightarrow> addr \<Rightarrow> gw_timers option" where
  "gw_msg_timer_app_callback app sent st p =
     (case ts_heap st p of
        None \<Rightarrow> None
      | Some t \<Rightarrow>
          (case timer_send (ts_os st) (tm_queue_id t) (tm_data t) sent of
             None \<Rightarrow> None
           | Some (ret, os') \<Rightarrow>
               let st1 = st\<lparr>ts_os := os'\<rparr> in
               if ret \<noteq> OSAL_OK
               then map_option (\<lambda>s. s\<lparr>ts_msg_timer_sendQ_error := ts_msg_timer_sendQ_error s + 1\<rparr>)
                      (if tm_timer_type t = GW_ONCE_TIMER then finish_timer st1 p
                       else case (case tm_data_free_func t of
                                    None \<Rightarrow> Some st1
                                  | Some f \<Rightarrow> call_app app p f (tm_data t) st1) of
                              None \<Rightarrow> None
                            | Some st2 \<Rightarrow> finish_timer st2 p)
               else finish_timer st1 p))"

section \<open>One round of the timer thread\<close>

definition tick_remain :: "nat \<Rightarrow> nat \<Rightarrow> nat" where
  "tick_remain delta r =
     (let r1 = (if r < delta then 0 else r - delta)
      in if r1 > 0 then r1 - sys_interval_in_tick else r1)"

text \<open>The scan of \<^verbatim>\<open>gw_process_timer\<close> over the timer list.\<close>

fun process_scan :: "addr list \<Rightarrow> gw_timers \<Rightarrow> gw_timers option" where
  "process_scan [] st = Some st"
| "process_scan (p # ps) st =
     (case ts_heap st p of
        None \<Rightarrow> None
      | Some t \<Rightarrow>
          let r = tick_remain (unat (ts_delta st)) (tm_remain_interval t);
              st1 = set_timer st p (t\<lparr>tm_remain_interval := r\<rparr>)
          in if r \<ge> sys_interval_in_tick then process_scan ps st1
             else process_scan ps
                    (st1\<lparr>ts_timer_list := remove1 p (ts_timer_list st1),
                         ts_expire_timer_list := ts_expire_timer_list st1 @ [p],
                         ts_total_timeout_timer := ts_total_timeout_timer st1 + 1\<rparr>))"

text \<open>
  The callback of one expired timer, with its duration \<open>took\<close>. When it is the longest so far
  the timer's type is read again, after the callback: a fault for a timer freed by then. The
  comparison is made in 64 bits, the value kept has 32.
\<close>

definition run_expired :: "app_fns \<Rightarrow> bool \<Rightarrow> u64 \<Rightarrow> gw_timers \<Rightarrow> addr \<Rightarrow> gw_timers option" where
  "run_expired app sent took st p =
     (case ts_heap st p of
        None \<Rightarrow> None
      | Some t \<Rightarrow>
          (case (case tm_callback t of
                   AppCallback \<Rightarrow> gw_timer_app_callback app st p
                 | MsgCallback \<Rightarrow> gw_msg_timer_app_callback app sent st p) of
             None \<Rightarrow> None
           | Some st1 \<Rightarrow>
               if took > ucast (ts_callback_peek_time st1)
               then (case ts_heap st1 p of
                       None \<Rightarrow> None
                     | Some t1 \<Rightarrow>
                         Some (st1\<lparr>ts_callback_peek_time := ucast took,
                                   ts_callback_peek_ptr :=
                                     (if tm_timer_type t1 = GW_ONCE_TIMER then Inl (tm_callback t1)
                                      else Inr (tm_app_callback t1))\<rparr>))
               else Some st1))"

text \<open>
  The loop over the expire list, which takes the head before it runs the callback, and the
  whole round. \<open>sent\<close>, \<open>took\<close> and \<open>elapsed\<close>: for each timer, whether the POSIX queue takes
  its message and how long its callback ran; the ticks the whole round took, of which
  \<^verbatim>\<open>delta\<close> keeps 32 bits.
\<close>

partial_function (option) expire_loop ::
  "app_fns \<Rightarrow> (addr \<Rightarrow> bool) \<Rightarrow> (addr \<Rightarrow> u64) \<Rightarrow> gw_timers \<Rightarrow> gw_timers option" where
  "expire_loop app sent took st =
     (case ts_expire_timer_list st of
        [] \<Rightarrow> Some st
      | p # ps \<Rightarrow>
          (case run_expired app (sent p) (took p) (st\<lparr>ts_expire_timer_list := ps\<rparr>) p of
             None \<Rightarrow> None
           | Some st1 \<Rightarrow> expire_loop app sent took st1))"

definition gw_process_timer ::
  "app_fns \<Rightarrow> (addr \<Rightarrow> bool) \<Rightarrow> (addr \<Rightarrow> u64) \<Rightarrow> u64 \<Rightarrow> gw_timers \<Rightarrow> gw_timers option" where
  "gw_process_timer app sent took elapsed st =
     (case process_scan (ts_timer_list st) (st\<lparr>ts_expire_timer_list := []\<rparr>) of
        None \<Rightarrow> None
      | Some st1 \<Rightarrow>
          (case expire_loop app sent took st1 of
             None \<Rightarrow> None
           | Some st2 \<Rightarrow>
               Some (st2\<lparr>ts_delta := ucast elapsed,
                         ts_total_timer_delta := ts_total_timer_delta st2 + ucast elapsed\<rparr>)))"

text \<open>
  \<^verbatim>\<open>gw_timer_init\<close>: the result of the mutex creation is overwritten by that of the thread
  creation; \<open>stack\<close>, \<open>tid\<close>, \<open>self\<close> as for \<^verbatim>\<open>gw_thread_create\<close>.
\<close>

definition gw_timer_init :: "osal \<Rightarrow> bool \<Rightarrow> addr option \<Rightarrow> u32 \<Rightarrow> u32 \<Rightarrow> int \<times> gw_timers" where
  "gw_timer_init os mut_ok stack tid self =
     (case gw_mutex_init os True (Some ''timer_thread_mutex'') mut_ok of
        (_, mid, os1) \<Rightarrow>
          (case gw_thread_create os1 True (Some ''timer thread'') True 4096 8 stack tid self of
             (ret, _, os2) \<Rightarrow>
               let os3 = (if ret = OSAL_OK then os2
                          else snd (gw_mutex_destroy os2 (case mid of None \<Rightarrow> 0 | Some m \<Rightarrow> m) True))
               in (if ret = OSAL_OK then GW_TIMER_OK else GW_TIMER_ERROR,
                   \<lparr>ts_heap = (\<lambda>_. None), ts_timer_list = [], ts_expire_timer_list = [],
                    ts_delta = 0, ts_msg_timer_sendQ_error = 0, ts_total_timeout_timer = 0,
                    ts_total_timer_delta = 0, ts_timer_peek_value = 0, ts_callback_peek_time = 0,
                    ts_callback_peek_ptr = Inr None, ts_os = os3, ts_calls = []\<rparr>)))"

section \<open>Invariants\<close>

definition timers_wf :: "gw_timers \<Rightarrow> bool" where
  "timers_wf st \<longleftrightarrow> distinct (ts_timer_list st) \<and> list_all (\<lambda>p. ts_heap st p \<noteq> None) (ts_timer_list st) \<and>
     list_all (\<lambda>p. p \<notin> set (ts_timer_list st)) (ts_expire_timer_list st)"

definition timers_sorted :: "gw_timers \<Rightarrow> bool" where
  "timers_sorted st \<longleftrightarrow> sorted (map (remain_at st) (ts_timer_list st))"

lemma lookup_iff [simp]:
  "gw_lookup_timer st (Some p) = GW_TIMER_OK \<longleftrightarrow> p \<in> set (ts_timer_list st)"
  "gw_lookup_timer st (Some p) = GW_TIMER_ERROR \<longleftrightarrow> p \<notin> set (ts_timer_list st)"
  by (auto simp: gw_lookup_timer_def GW_TIMER_OK_def GW_TIMER_ERROR_def find_None_iff)

lemma set_insert_by_remain [simp]: "set (insert_by_remain rem r p qs) = insert p (set qs)"
  by (induction qs) auto

lemma distinct_insert_by_remain: "distinct qs \<Longrightarrow> p \<notin> set qs \<Longrightarrow> distinct (insert_by_remain rem r p qs)"
  by (induction qs) auto

lemma sorted_insert_by_remain:
  "sorted (map rem qs) \<Longrightarrow> rem p = r \<Longrightarrow> sorted (map rem (insert_by_remain rem r p qs))"
  by (induction qs) (auto simp: le_less)

text \<open>Timers with the same remaining time keep the order in which they were started.\<close>

lemma insert_by_remain_split:
  "insert_by_remain rem r p qs =
     takeWhile (\<lambda>q. rem q \<le> r) qs @ p # dropWhile (\<lambda>q. rem q \<le> r) qs"
  by (induction qs) auto

lemma with_timer_Some: "with_timer st p f = Some st1 \<longleftrightarrow> (\<exists>t. ts_heap st p = Some t \<and> st1 = set_timer st p (f t))"
  by (auto simp: with_timer_def split: option.splits)

lemma set_timer_fields [simp]:
  "ts_heap (set_timer st p t) = (ts_heap st)(p := Some t)"
  "ts_timer_list (set_timer st p t) = ts_timer_list st"
  "ts_expire_timer_list (set_timer st p t) = ts_expire_timer_list st"
  "ts_calls (set_timer st p t) = ts_calls st"
  "ts_delta (set_timer st p t) = ts_delta st"
  "ts_total_timeout_timer (set_timer st p t) = ts_total_timeout_timer st"
  by (simp_all add: set_timer_def)

text \<open>The effect of the four internal operations on the heap and the lists.\<close>

lemma start_timer_cases:
  assumes "gw_start_timer st (Some p) = Some (r, st')"
  shows "r = GW_TIMER_OK \<and> ts_expire_timer_list st' = ts_expire_timer_list st \<and> ts_calls st' = ts_calls st \<and>
    ts_delta st' = ts_delta st \<and>
    (\<exists>t. ts_heap st p = Some t \<and>
      (if p \<in> set (ts_timer_list st)
       then ts_timer_list st' = ts_timer_list st \<and>
            ts_heap st' = (ts_heap st)(p := Some (t\<lparr>tm_stop_flag := GW_TIMER_NO_STOPPED\<rparr>))
       else p \<notin> set (ts_expire_timer_list st) \<and>
            ts_heap st' = (ts_heap st)(p := Some (t\<lparr>tm_stop_flag := GW_TIMER_NO_STOPPED,
                              tm_remain_interval := tm_interval t\<rparr>)) \<and>
            ts_timer_list st' = insert_by_remain (remain_at st') (tm_interval t) p (ts_timer_list st)))"
  using assms
  by (auto simp: gw_start_timer_def with_timer_def Let_def remain_of_def split: option.splits if_splits)

lemma stop_timer_cases:
  assumes "gw_stop_timer st (Some p) = Some (r, st')"
  shows "r = GW_TIMER_OK \<and> ts_expire_timer_list st' = ts_expire_timer_list st \<and> ts_calls st' = ts_calls st \<and>
    ts_delta st' = ts_delta st \<and> ts_timer_list st' = remove1 p (ts_timer_list st) \<and>
    (\<exists>t. ts_heap st p = Some t \<and> ts_heap st' = (ts_heap st)(p := Some (t\<lparr>tm_stop_flag := GW_TIMER_STOPPED\<rparr>)))"
  using assms
  by (auto simp: gw_stop_timer_def with_timer_def remove1_idem split: option.splits if_splits)

lemma destroy_timer_cases:
  assumes "gw_destroy_timer st (Some p) = Some st'"
  shows "ts_expire_timer_list st' = ts_expire_timer_list st \<and> ts_calls st' = ts_calls st \<and>
    ts_delta st' = ts_delta st \<and> ts_timer_list st' = ts_timer_list st \<and>
    (\<exists>t. ts_heap st p = Some t \<and>
      ts_heap st' = (ts_heap st)(p := if p \<in> set (ts_timer_list st)
                                      then Some (t\<lparr>tm_stop_flag := GW_TIMER_DESTROYED\<rparr>) else None))"
  using assms
  by (auto simp: gw_destroy_timer_def with_timer_def split: option.splits if_splits)

section \<open>The calls of a callback\<close>

text \<open>What holds of a single timer call carries over to a sequence of them.\<close>

lemma do_calls_induct:
  assumes "do_calls cs st = Some st'" "I st"
    and "\<And>c st st'. c \<in> set cs \<Longrightarrow> I st \<Longrightarrow> do_call c st = Some st' \<Longrightarrow> I st'"
  shows "I st'"
  using assms
proof (induction cs arbitrary: st)
  case (Cons c cs)
  from Cons.prems(1) obtain st1 where 1: "do_call c st = Some st1" "do_calls cs st1 = Some st'"
    by (auto split: option.splits)
  have "I st1" using Cons.prems(2,3) 1(1) by (meson list.set_intros(1))
  with Cons.IH [OF 1(2)] Cons.prems(3) show ?case by (meson list.set_intros(2))
qed simp

text \<open>
  \<open>keeps p st st'\<close>: timer \<open>p\<close> has the same record, is in the timer list of both states or of
  neither, and none of its application calls was made in between.
\<close>

definition fires :: "addr \<Rightarrow> gw_timers \<Rightarrow> (addr \<times> nat \<times> u32) list" where
  "fires p st = filter (\<lambda>c. fst c = p) (ts_calls st)"

definition keeps :: "addr \<Rightarrow> gw_timers \<Rightarrow> gw_timers \<Rightarrow> bool" where
  "keeps p st st' \<longleftrightarrow> ts_heap st' p = ts_heap st p \<and>
     (p \<in> set (ts_timer_list st') \<longleftrightarrow> p \<in> set (ts_timer_list st)) \<and>
     fires p st' = fires p st \<and> ts_delta st' = ts_delta st"

lemma keeps_refl [simp]: "keeps p st st"
  by (simp add: keeps_def)

lemma keeps_trans: "keeps p st st1 \<Longrightarrow> keeps p st1 st2 \<Longrightarrow> keeps p st st2"
  by (simp add: keeps_def)

lemma start_keeps: "gw_start_timer st (Some q) = Some (r, st') \<Longrightarrow> p \<noteq> q \<Longrightarrow> keeps p st st'"
  using start_timer_cases [of st q r st'] by (auto simp: keeps_def fires_def split: if_splits)

lemma stop_keeps: "gw_stop_timer st (Some q) = Some (r, st') \<Longrightarrow> p \<noteq> q \<Longrightarrow> keeps p st st'"
  using stop_timer_cases [of st q r st'] by (auto simp: keeps_def fires_def)

lemma destroy_keeps: "gw_destroy_timer st (Some q) = Some st' \<Longrightarrow> p \<noteq> q \<Longrightarrow> keeps p st st'"
  using destroy_timer_cases [of st q st'] by (auto simp: keeps_def fires_def)

lemma keeps_set: "p \<noteq> q \<Longrightarrow> keeps p st (set_timer st q t)"
  by (simp add: keeps_def fires_def)

lemma add_keeps:
  assumes "timer_add_common st a cb t f = Some (h, st')" "a \<noteq> Some p"
  shows "keeps p st st'"
proof (cases "\<exists>q. a = Some q \<and> 0 < sint t")
  case False
  then show ?thesis using assms(1)
    by (auto simp: timer_add_common_def gw_create_timer_def split: option.splits if_splits)
next
  case True
  then obtain q where q: "a = Some q" "0 < sint t" by blast
  from assms(1) q obtain t1 t2 r where
    "gw_start_timer (set_timer (set_timer st q t1) q t2) (Some q) = Some (r, st')"
    by (auto simp: timer_add_common_def gw_create_timer_def with_timer_def split: option.splits)
  moreover have "p \<noteq> q" using q(1) assms(2) by blast
  ultimately show ?thesis
    by (metis keeps_trans keeps_set start_keeps)
qed

text \<open>A call that names another timer, and a creation at another address.\<close>

fun call_avoids :: "addr \<Rightarrow> timer_call \<Rightarrow> bool" where
  "call_avoids p (TAdd a t cb d) \<longleftrightarrow> a \<noteq> Some p"
| "call_avoids p (TCircleAdd a t cb d) \<longleftrightarrow> a \<noteq> Some p"
| "call_avoids p (TDel h) \<longleftrightarrow> h \<noteq> Some p"
| "call_avoids p (TStop h) \<longleftrightarrow> h \<noteq> Some p"
| "call_avoids p (TStart h) \<longleftrightarrow> h \<noteq> Some p"
| "call_avoids p (TRestart h) \<longleftrightarrow> h \<noteq> Some p"
| "call_avoids p (TRetiming h t) \<longleftrightarrow> h \<noteq> Some p"

lemma restart_cases:
  assumes "gw_restart_timer st (Some q) = Some (r, st')"
  obtains st1 r1 r2 where "gw_stop_timer st (Some q) = Some (r1, st1)" "gw_start_timer st1 (Some q) = Some (r2, st')"
  using assms by (auto simp: gw_restart_timer_def split: option.splits)

lemma del_cases:
  assumes "gw_timer_del st (Some q) = Some (r, st')"
  obtains st1 r1 where "gw_stop_timer st (Some q) = Some (r1, st1)" "gw_destroy_timer st1 (Some q) = Some st'"
  using assms by (auto simp: gw_timer_del_def split: option.splits)

lemma do_call_keeps:
  assumes "do_call c st = Some st'" "call_avoids p c"
  shows "keeps p st st'"
proof (cases c)
  case (TAdd a t cb d)
  with assms show ?thesis by (auto simp: gw_timer_add_def intro: add_keeps split: if_splits)
next
  case (TCircleAdd a t cb d)
  with assms show ?thesis by (auto simp: gw_circle_timer_add_def intro: add_keeps split: if_splits)
next
  case (TDel h)
  show ?thesis
  proof (cases h)
    case None
    with TDel assms show ?thesis by (simp add: gw_timer_del_def)
  next
    case (Some q)
    with TDel assms obtain r where "gw_timer_del st (Some q) = Some (r, st')" by auto
    then show ?thesis
      by (rule del_cases) (use Some TDel assms(2) in \<open>auto intro: keeps_trans stop_keeps destroy_keeps\<close>)
  qed
next
  case (TStop h)
  with assms show ?thesis
    by (cases h) (auto simp: gw_timer_stop_def intro: stop_keeps)
next
  case (TStart h)
  with assms show ?thesis
    by (cases h) (auto simp: gw_timer_start_def intro: start_keeps)
next
  case (TRestart h)
  show ?thesis
  proof (cases h)
    case None
    with TRestart assms show ?thesis by (simp add: gw_timer_restart_def)
  next
    case (Some q)
    with TRestart assms obtain r where "gw_restart_timer st (Some q) = Some (r, st')"
      by (auto simp: gw_timer_restart_def)
    then show ?thesis
      by (rule restart_cases) (use Some TRestart assms(2) in \<open>auto intro: keeps_trans stop_keeps start_keeps\<close>)
  qed
next
  case (TRetiming h t)
  with assms show ?thesis
    by (cases h) (auto simp: gw_timer_retiming_def gw_retiming_timer_def with_timer_def keeps_def fires_def
        split: if_splits option.splits)
qed

lemma do_calls_keeps:
  "do_calls cs st = Some st' \<Longrightarrow> list_all (call_avoids p) cs \<Longrightarrow> keeps p st st'"
  by (rule do_calls_induct [where I = "keeps p st"])
    (auto simp: list_all_iff intro: keeps_trans do_call_keeps)

section \<open>The scan of a round\<close>

definition tick_timer :: "u32 \<Rightarrow> gw_timer \<Rightarrow> gw_timer" where
  "tick_timer delta t = t\<lparr>tm_remain_interval := tick_remain (unat delta) (tm_remain_interval t)\<rparr>"

definition runs_on :: "gw_timers \<Rightarrow> addr \<Rightarrow> bool" where
  "runs_on st p \<longleftrightarrow> remain_at st p > unat (ts_delta st) + 1"

lemma tick_remain_ge: "tick_remain d r \<ge> sys_interval_in_tick \<longleftrightarrow> r > d + 1"
  and tick_remain_val: "r > d \<Longrightarrow> tick_remain d r = r - d - 1"
  by (auto simp: tick_remain_def sys_interval_in_tick_def Let_def)

lemma tick_remain_mono: "r \<le> r' \<Longrightarrow> tick_remain d r \<le> tick_remain d r'"
  by (auto simp: tick_remain_def sys_interval_in_tick_def Let_def)

lemma process_scan_result:
  assumes "distinct ps" "list_all (\<lambda>p. ts_heap st p \<noteq> None) ps"
  shows "process_scan ps st = Some (st\<lparr>
      ts_heap := (\<lambda>p. if p \<in> set ps then map_option (tick_timer (ts_delta st)) (ts_heap st p) else ts_heap st p),
      ts_timer_list := foldl (\<lambda>xs p. if runs_on st p then xs else remove1 p xs) (ts_timer_list st) ps,
      ts_expire_timer_list := ts_expire_timer_list st @ filter (\<lambda>p. \<not> runs_on st p) ps,
      ts_total_timeout_timer := ts_total_timeout_timer st + of_nat (length (filter (\<lambda>p. \<not> runs_on st p) ps))\<rparr>)"
  using assms
proof (induction ps arbitrary: st)
  case (Cons p ps)
  from Cons.prems obtain t where t: "ts_heap st p = Some t" by auto
  let ?t' = "tick_timer (ts_delta st) t"
  have ro: "runs_on st p \<longleftrightarrow> tick_remain (unat (ts_delta st)) (tm_remain_interval t) \<ge> sys_interval_in_tick"
    using t by (simp add: runs_on_def remain_of_def tick_remain_ge)
  define st1 where "st1 = (if runs_on st p then set_timer st p ?t'
     else (set_timer st p ?t')\<lparr>ts_timer_list := remove1 p (ts_timer_list st),
        ts_expire_timer_list := ts_expire_timer_list st @ [p],
        ts_total_timeout_timer := ts_total_timeout_timer st + 1\<rparr>)"
  have s1: "process_scan (p # ps) st = process_scan ps st1"
    using ro by (simp add: t st1_def Let_def tick_timer_def)
  have h1: "ts_heap st1 = (ts_heap st)(p := Some ?t')" "ts_delta st1 = ts_delta st"
    by (simp_all add: st1_def)
  have same: "runs_on st1 q = runs_on st q" if "q \<in> set ps" for q
    using that Cons.prems(1) by (auto simp: runs_on_def remain_of_def h1)
  have f: "filter (\<lambda>q. \<not> runs_on st1 q) ps = filter (\<lambda>q. \<not> runs_on st q) ps"
    "foldl (\<lambda>xs q. if runs_on st1 q then xs else remove1 q xs) xs ps =
     foldl (\<lambda>xs q. if runs_on st q then xs else remove1 q xs) xs ps" for xs
    using same by (auto intro: filter_cong foldl_cong)
  have heap: "(\<lambda>q. if q \<in> set ps then map_option (tick_timer (ts_delta st1)) (ts_heap st1 q) else ts_heap st1 q) =
     (\<lambda>q. if q \<in> set (p # ps) then map_option (tick_timer (ts_delta st)) (ts_heap st q) else ts_heap st q)"
    using Cons.prems(1) t by (auto simp: h1)
  have "list_all (\<lambda>q. ts_heap st1 q \<noteq> None) ps" using Cons.prems by (auto simp: h1 list_all_iff)
  from Cons.IH [OF _ this] Cons.prems(1) show ?case
    unfolding s1 heap f by (cases "runs_on st p") (simp_all add: st1_def set_timer_def algebra_simps)
qed simp

lemma foldl_remove1_filter:
  "distinct (xs @ ps) \<Longrightarrow>
   foldl (\<lambda>zs p. if P p then zs else remove1 p zs) (xs @ ps) ps = xs @ filter P ps"
proof (induction ps arbitrary: xs)
  case (Cons p ps)
  show ?case
  proof (cases "P p")
    case True
    then show ?thesis using Cons.IH [of "xs @ [p]"] Cons.prems by simp
  next
    case False
    then show ?thesis using Cons.IH [of xs] Cons.prems by (simp add: remove1_append)
  qed
qed simp

text \<open>
  The state after the scan: remaining timers counted down and in their order, the others on
  the expire list in theirs.
\<close>

definition scanned :: "gw_timers \<Rightarrow> gw_timers" where
  "scanned st = st\<lparr>
      ts_heap := (\<lambda>p. if p \<in> set (ts_timer_list st) then map_option (tick_timer (ts_delta st)) (ts_heap st p) else ts_heap st p),
      ts_timer_list := filter (runs_on st) (ts_timer_list st),
      ts_expire_timer_list := filter (\<lambda>p. \<not> runs_on st p) (ts_timer_list st),
      ts_total_timeout_timer := ts_total_timeout_timer st + of_nat (length (filter (\<lambda>p. \<not> runs_on st p) (ts_timer_list st)))\<rparr>"

lemma scan_round:
  assumes "timers_wf st"
  shows "process_scan (ts_timer_list st) (st\<lparr>ts_expire_timer_list := []\<rparr>) = Some (scanned st)"
proof -
  let ?s = "st\<lparr>ts_expire_timer_list := []\<rparr>"
  have r: "runs_on ?s = runs_on st" by (simp add: runs_on_def fun_eq_iff)
  show ?thesis
    using assms process_scan_result [of "ts_timer_list st" ?s]
      foldl_remove1_filter [of "[]" "ts_timer_list st" "runs_on st"]
    unfolding r by (simp add: timers_wf_def scanned_def cong: if_cong)
qed

lemma scanned_wf: "timers_wf st \<Longrightarrow> timers_wf (scanned st)"
  by (auto simp: timers_wf_def scanned_def list_all_iff)

lemma scanned_sorted:
  assumes "timers_wf st" "timers_sorted st"
  shows "timers_sorted (scanned st) \<and> sorted (map (remain_at st) (ts_expire_timer_list (scanned st)))"
proof -
  have r: "remain_at (scanned st) p = tick_remain (unat (ts_delta st)) (remain_at st p)" if "p \<in> set (ts_timer_list st)" for p
    using assms(1) that by (auto simp: timers_wf_def list_all_iff scanned_def remain_of_def tick_timer_def split: option.split)
  have s: "sorted (map (remain_at st) (ts_timer_list st))" using assms(2) by (simp add: timers_sorted_def)
  have "sorted (map (\<lambda>p. tick_remain (unat (ts_delta st)) (remain_at st p)) (filter (runs_on st) (ts_timer_list st)))"
    using sorted_filter [OF s] tick_remain_mono
    by (simp add: sorted_map sorted_wrt_mono_rel [of _ "\<lambda>x y. remain_at st x \<le> remain_at st y"])
  moreover have "map (remain_at (scanned st)) (filter (runs_on st) (ts_timer_list st)) =
     map (\<lambda>p. tick_remain (unat (ts_delta st)) (remain_at st p)) (filter (runs_on st) (ts_timer_list st))"
    using r by (intro map_cong) auto
  moreover have "ts_timer_list (scanned st) = filter (runs_on st) (ts_timer_list st)"
    by (simp add: scanned_def)
  ultimately have "timers_sorted (scanned st)" by (simp only: timers_sorted_def)
  moreover have "sorted (map (remain_at st) (ts_expire_timer_list (scanned st)))"
    using sorted_filter [OF s] by (simp add: scanned_def)
  ultimately show ?thesis by blast
qed

section \<open>Timer calls keep the lists well formed\<close>

text \<open>\<open>frame st st'\<close>: the expire list is untouched and well-formedness carries over.\<close>

definition frame :: "gw_timers \<Rightarrow> gw_timers \<Rightarrow> bool" where
  "frame st st' \<longleftrightarrow> ts_expire_timer_list st' = ts_expire_timer_list st \<and> (timers_wf st \<longrightarrow> timers_wf st')"

lemma frame_refl [simp]: "frame st st"
  by (simp add: frame_def)

lemma frame_trans: "frame st st1 \<Longrightarrow> frame st1 st2 \<Longrightarrow> frame st st2"
  by (simp add: frame_def)

lemma frame_set: "frame st (set_timer st p t)"
  by (auto simp: frame_def timers_wf_def list_all_iff)

lemma start_frame: "gw_start_timer st (Some p) = Some (r, st') \<Longrightarrow> frame st st'"
  using start_timer_cases [of st p r st']
  by (auto simp: frame_def timers_wf_def list_all_iff distinct_insert_by_remain split: if_splits)

lemma stop_frame: "gw_stop_timer st (Some p) = Some (r, st') \<Longrightarrow> frame st st'"
  using stop_timer_cases [of st p r st']
  by (auto simp: frame_def timers_wf_def list_all_iff split: if_splits dest: notin_set_remove1)

lemma destroy_frame: "gw_destroy_timer st (Some p) = Some st' \<Longrightarrow> frame st st'"
proof -
  assume "gw_destroy_timer st (Some p) = Some st'"
  from destroy_timer_cases [OF this] obtain t where
    "ts_expire_timer_list st' = ts_expire_timer_list st" "ts_timer_list st' = ts_timer_list st"
    "ts_heap st p = Some t" and h: "ts_heap st' = (ts_heap st)(p := if p \<in> set (ts_timer_list st)
                                      then Some (t\<lparr>tm_stop_flag := GW_TIMER_DESTROYED\<rparr>) else None)"
    by blast
  then show "frame st st'"
    by (cases "p \<in> set (ts_timer_list st)") (auto simp: frame_def timers_wf_def list_all_iff)
qed

lemma add_frame:
  assumes "timer_add_common st a cb t f = Some (h, st')"
  shows "frame st st'"
proof (cases "\<exists>q. a = Some q \<and> 0 < sint t")
  case False
  then show ?thesis using assms
    by (auto simp: timer_add_common_def gw_create_timer_def split: option.splits if_splits)
next
  case True
  then obtain q where q: "a = Some q" "0 < sint t" by blast
  from assms q obtain t1 t2 r where
    "gw_start_timer (set_timer (set_timer st q t1) q t2) (Some q) = Some (r, st')"
    by (auto simp: timer_add_common_def gw_create_timer_def with_timer_def split: option.splits)
  then show ?thesis by (metis frame_trans frame_set start_frame)
qed

lemma do_call_frame: "do_call c st = Some st' \<Longrightarrow> frame st st'"
proof (cases c)
  case (TDel h)
  then show "do_call c st = Some st' \<Longrightarrow> frame st st'"
    by (cases h) (auto simp: gw_timer_del_def split: option.splits
        intro: frame_trans [OF stop_frame destroy_frame])
next
  case (TRestart h)
  then show "do_call c st = Some st' \<Longrightarrow> frame st st'"
    by (cases h) (auto simp: gw_timer_restart_def gw_restart_timer_def split: option.splits
        intro: frame_trans [OF stop_frame start_frame])
next
  case (TRetiming h t)
  then show "do_call c st = Some st' \<Longrightarrow> frame st st'"
    by (cases h) (auto simp: gw_timer_retiming_def gw_retiming_timer_def with_timer_def frame_set
        split: if_splits option.splits)
next
  case (TStop h)
  then show "do_call c st = Some st' \<Longrightarrow> frame st st'"
    by (cases h) (auto simp: gw_timer_stop_def intro: stop_frame)
next
  case (TStart h)
  then show "do_call c st = Some st' \<Longrightarrow> frame st st'"
    by (cases h) (auto simp: gw_timer_start_def intro: start_frame)
qed (auto simp: gw_timer_add_def gw_circle_timer_add_def intro: add_frame split: if_splits)

lemma do_calls_frame: "do_calls cs st = Some st' \<Longrightarrow> frame st st'"
  by (rule do_calls_induct [where I = "frame st"]) (auto intro: frame_trans do_call_frame)

lemma call_app_frame: "call_app app p f d st = Some st' \<Longrightarrow> frame st st'"
  unfolding call_app_def
  by (rule frame_trans [OF _ do_calls_frame]) (simp_all add: frame_def timers_wf_def)

lemma finish_frame: "finish_timer st p = Some st' \<Longrightarrow> frame st st'"
  by (auto simp: finish_timer_def split: option.splits if_splits intro: destroy_frame start_frame)

text \<open>What the application part of a callback does: one call, or none without a function.\<close>

definition app_part :: "app_fns \<Rightarrow> addr \<Rightarrow> nat option \<Rightarrow> u32 \<Rightarrow> gw_timers \<Rightarrow> gw_timers option" where
  "app_part app p f d st = (case f of None \<Rightarrow> Some st | Some g \<Rightarrow> call_app app p g d st)"

lemma app_part_frame: "app_part app p f d st = Some st' \<Longrightarrow> frame st st'"
  by (cases f) (auto simp: app_part_def intro: call_app_frame)

lemma app_callback_cases:
  assumes "gw_timer_app_callback app st p = Some st'" "ts_heap st p = Some t"
  shows "if tm_timer_type t = GW_CIRCLE_TIMER \<and> tm_stop_flag t = GW_TIMER_DESTROYED
         then st' = st\<lparr>ts_heap := (ts_heap st)(p := None)\<rparr>
         else if tm_timer_type t = GW_CIRCLE_TIMER \<and> tm_stop_flag t = GW_TIMER_STOPPED then st' = st
         else \<exists>st2. app_part app p (tm_app_callback t) (tm_data t)
                  (set_timer st p (t\<lparr>tm_stop_flag := GW_TIMER_NO_STOPPED\<rparr>)) = Some st2 \<and>
                finish_timer st2 p = Some st'"
proof (cases "app_part app p (tm_app_callback t) (tm_data t)
                  (set_timer st p (t\<lparr>tm_stop_flag := GW_TIMER_NO_STOPPED\<rparr>))")
  case None
  then show ?thesis using assms
    by (simp add: gw_timer_app_callback_def Let_def app_part_def split: if_splits)
next
  case (Some st2)
  then show ?thesis using assms
    by (auto simp: gw_timer_app_callback_def Let_def app_part_def split: if_splits)
qed

lemma msg_callback_cases:
  assumes "gw_msg_timer_app_callback app sent st p = Some st'" "ts_heap st p = Some t"
  obtains os' st2 st3 where
    "st2 = st\<lparr>ts_os := os'\<rparr> \<or> app_part app p (tm_data_free_func t) (tm_data t) (st\<lparr>ts_os := os'\<rparr>) = Some st2"
    "finish_timer st2 p = Some st3"
    "st' = st3 \<or> st' = st3\<lparr>ts_msg_timer_sendQ_error := ts_msg_timer_sendQ_error st3 + 1\<rparr>"
proof -
  from assms obtain ret os' where o: "timer_send (ts_os st) (tm_queue_id t) (tm_data t) sent = Some (ret, os')"
    by (auto simp: gw_msg_timer_app_callback_def split: option.splits)
  let ?ap = "app_part app p (tm_data_free_func t) (tm_data t) (st\<lparr>ts_os := os'\<rparr>)"
  show thesis
  proof (cases "ret = OSAL_OK \<or> tm_timer_type t = GW_ONCE_TIMER")
    case True
    with assms o that [of "st\<lparr>ts_os := os'\<rparr>" os'] show thesis
      by (cases "finish_timer (st\<lparr>ts_os := os'\<rparr>) p")
        (auto simp: gw_msg_timer_app_callback_def Let_def split: if_splits)
  next
    case False
    with assms o that [of _ os'] show thesis
      by (cases ?ap) (auto simp: gw_msg_timer_app_callback_def Let_def app_part_def)
  qed
qed

lemma app_callback_frame:
  assumes "gw_timer_app_callback app st p = Some st'" "p \<notin> set (ts_timer_list st)"
  shows "frame st st'"
proof -
  from assms(1) obtain t where t: "ts_heap st p = Some t"
    by (cases "ts_heap st p") (simp_all add: gw_timer_app_callback_def)
  have f: "frame st (st\<lparr>ts_heap := (ts_heap st)(p := None)\<rparr>)"
    using assms(2) by (auto simp: frame_def timers_wf_def list_all_iff)
  from app_callback_cases [OF assms(1) t] show ?thesis
    using f by (auto split: if_splits intro: frame_trans [OF frame_set frame_trans [OF app_part_frame finish_frame]])
qed

lemma msg_callback_frame:
  assumes "gw_msg_timer_app_callback app sent st p = Some st'"
  shows "frame st st'"
proof -
  from assms obtain t where t: "ts_heap st p = Some t"
    by (cases "ts_heap st p") (simp_all add: gw_msg_timer_app_callback_def)
  have os: "frame st (st\<lparr>ts_os := os'\<rparr>)" for os' by (simp add: frame_def timers_wf_def)
  have er: "frame s (s\<lparr>ts_msg_timer_sendQ_error := n\<rparr>)" for s n by (simp add: frame_def timers_wf_def)
  from assms t show ?thesis
  proof (rule msg_callback_cases)
    fix os' st2 st3
    assume a: "st2 = st\<lparr>ts_os := os'\<rparr> \<or> app_part app p (tm_data_free_func t) (tm_data t) (st\<lparr>ts_os := os'\<rparr>) = Some st2"
      "finish_timer st2 p = Some st3"
      and b: "st' = st3 \<or> st' = st3\<lparr>ts_msg_timer_sendQ_error := ts_msg_timer_sendQ_error st3 + 1\<rparr>"
    have "frame st st2" using a(1) os frame_trans app_part_frame by blast
    then have "frame st st3" using finish_frame [OF a(2)] by (rule frame_trans)
    then show ?thesis using b er frame_trans by blast
  qed
qed

section \<open>The loop over the expired timers\<close>

fun run_all :: "app_fns \<Rightarrow> (addr \<Rightarrow> bool) \<Rightarrow> (addr \<Rightarrow> u64) \<Rightarrow> addr list \<Rightarrow> gw_timers \<Rightarrow> gw_timers option" where
  "run_all app sent took [] st = Some st"
| "run_all app sent took (p # ps) st =
     (case run_expired app (sent p) (took p) (st\<lparr>ts_expire_timer_list := ps\<rparr>) p of
        None \<Rightarrow> None
      | Some st1 \<Rightarrow> run_all app sent took ps st1)"

lemma run_expired_cases:
  assumes "run_expired app sent took st p = Some st'"
  obtains t st1 where "ts_heap st p = Some t"
    "case tm_callback t of AppCallback \<Rightarrow> gw_timer_app_callback app st p = Some st1
     | MsgCallback \<Rightarrow> gw_msg_timer_app_callback app sent st p = Some st1"
    "st' = st1 \<or> (\<exists>x. st' = st1\<lparr>ts_callback_peek_time := ucast took, ts_callback_peek_ptr := x\<rparr>)"
proof -
  from assms obtain t where t: "ts_heap st p = Some t"
    by (cases "ts_heap st p") (simp_all add: run_expired_def)
  let ?c = "case tm_callback t of AppCallback \<Rightarrow> gw_timer_app_callback app st p
     | MsgCallback \<Rightarrow> gw_msg_timer_app_callback app sent st p"
  from assms t obtain st1 where c: "?c = Some st1" by (cases ?c) (simp_all add: run_expired_def)
  have o: "st' = st1 \<or> (\<exists>x. st' = st1\<lparr>ts_callback_peek_time := ucast took, ts_callback_peek_ptr := x\<rparr>)"
    using assms t c by (auto simp: run_expired_def split: if_splits option.splits)
  show thesis by (rule that [OF t _ o]) (use c in \<open>cases "tm_callback t"; simp\<close>)
qed

lemma peek_irrelevant:
  "frame st (st1\<lparr>ts_callback_peek_time := k, ts_callback_peek_ptr := x\<rparr>) = frame st st1"
  "keeps p st (st1\<lparr>ts_callback_peek_time := k, ts_callback_peek_ptr := x\<rparr>) = keeps p st st1"
  "fires p (st1\<lparr>ts_callback_peek_time := k, ts_callback_peek_ptr := x\<rparr>) = fires p st1"
  by (simp_all add: frame_def timers_wf_def keeps_def fires_def)

lemma run_expired_frame:
  assumes "run_expired app sent took st p = Some st'" "p \<notin> set (ts_timer_list st)"
  shows "frame st st'"
  using assms(1)
proof (rule run_expired_cases)
  fix t st1
  assume "case tm_callback t of AppCallback \<Rightarrow> gw_timer_app_callback app st p = Some st1
     | MsgCallback \<Rightarrow> gw_msg_timer_app_callback app sent st p = Some st1"
    and o: "st' = st1 \<or> (\<exists>x. st' = st1\<lparr>ts_callback_peek_time := ucast took, ts_callback_peek_ptr := x\<rparr>)"
  then have "frame st st1"
    using app_callback_frame [of app st p] msg_callback_frame assms(2) by (auto split: timer_callback.splits)
  then show ?thesis using o by (auto simp: peek_irrelevant)
qed

text \<open>\<open>round_ok st\<close>: the invariant of the loop over the expire list.\<close>

definition round_ok :: "gw_timers \<Rightarrow> bool" where
  "round_ok st \<longleftrightarrow> timers_wf st \<and> distinct (ts_expire_timer_list st)"

lemma round_step:
  assumes "round_ok st" "ts_expire_timer_list st = p # ps"
    and "run_expired app sent took (st\<lparr>ts_expire_timer_list := ps\<rparr>) p = Some st1"
  shows "round_ok st1 \<and> ts_expire_timer_list st1 = ps"
proof -
  have p: "p \<notin> set (ts_timer_list (st\<lparr>ts_expire_timer_list := ps\<rparr>))"
    using assms(1,2) by (auto simp: round_ok_def timers_wf_def)
  have "timers_wf (st\<lparr>ts_expire_timer_list := ps\<rparr>)"
    using assms(1,2) by (simp add: round_ok_def timers_wf_def)
  then show ?thesis
    using run_expired_frame [OF assms(3) p] assms(1,2) by (simp add: frame_def round_ok_def)
qed

lemma expire_loop_run_all:
  "round_ok st \<Longrightarrow> ts_expire_timer_list st = ps \<Longrightarrow> expire_loop app sent took st = run_all app sent took ps st"
proof (induction ps arbitrary: st)
  case Nil
  then show ?case by (subst expire_loop.simps) simp
next
  case (Cons p ps)
  show ?case
    using Cons.prems Cons.IH round_step [OF Cons.prems]
    by (subst expire_loop.simps) (auto split: option.split)
qed

lemma run_all_frame:
  "round_ok st \<Longrightarrow> ts_expire_timer_list st = ps \<Longrightarrow> run_all app sent took ps st = Some st' \<Longrightarrow>
   round_ok st' \<and> ts_expire_timer_list st' = []"
proof (induction ps arbitrary: st)
  case (Cons p ps)
  from Cons.prems(3) obtain st1 where
    1: "run_expired app (sent p) (took p) (st\<lparr>ts_expire_timer_list := ps\<rparr>) p = Some st1"
       "run_all app sent took ps st1 = Some st'" by (auto split: option.splits)
  from round_step [OF Cons.prems(1,2) 1(1)] Cons.IH [OF _ _ 1(2)] show ?case by blast
qed simp

lemma scanned_round_ok: "timers_wf st \<Longrightarrow> round_ok (scanned st)"
  using scanned_wf by (simp add: round_ok_def) (simp add: scanned_def timers_wf_def)

text \<open>A round in one equation, and that it keeps the lists well formed.\<close>

lemma process_timer_eq:
  assumes "timers_wf st"
  shows "gw_process_timer app sent took e st =
    map_option (\<lambda>st2. st2\<lparr>ts_delta := ucast e, ts_total_timer_delta := ts_total_timer_delta st2 + ucast e\<rparr>)
      (run_all app sent took (filter (\<lambda>p. \<not> runs_on st p) (ts_timer_list st)) (scanned st))"
proof -
  have e: "ts_expire_timer_list (scanned st) = filter (\<lambda>p. \<not> runs_on st p) (ts_timer_list st)"
    by (simp add: scanned_def)
  show ?thesis
    using scan_round [OF assms] expire_loop_run_all [OF scanned_round_ok [OF assms] e, of app sent took]
    by (simp add: gw_process_timer_def split: option.split)
qed

lemma process_timer_wf:
  assumes "timers_wf st" "gw_process_timer app sent took e st = Some st'"
  shows "timers_wf st' \<and> ts_expire_timer_list st' = [] \<and> ts_delta st' = ucast e"
proof -
  have e: "ts_expire_timer_list (scanned st) = filter (\<lambda>p. \<not> runs_on st p) (ts_timer_list st)"
    by (simp add: scanned_def)
  from assms obtain st2 where "run_all app sent took (filter (\<lambda>p. \<not> runs_on st p) (ts_timer_list st)) (scanned st) = Some st2"
    "st' = st2\<lparr>ts_delta := ucast e, ts_total_timer_delta := ts_total_timer_delta st2 + ucast e\<rparr>"
    by (auto simp: process_timer_eq)
  then show ?thesis
    using run_all_frame [OF scanned_round_ok [OF assms(1)] e, of app sent took st2]
    by (simp add: round_ok_def timers_wf_def)
qed

section \<open>One timer among others\<close>

text \<open>No application callback touches timer \<open>p\<close>, and \<^verbatim>\<open>malloc\<close> does not return its address.\<close>

definition app_avoids :: "addr \<Rightarrow> app_fns \<Rightarrow> bool" where
  "app_avoids p app \<longleftrightarrow> (\<forall>f d. list_all (call_avoids p) (app f d))"

lemma keeps_os: "keeps p st (st\<lparr>ts_os := x\<rparr>)"
  and keeps_err: "keeps p st (st\<lparr>ts_msg_timer_sendQ_error := n\<rparr>)"
  and keeps_expire: "keeps p st (st\<lparr>ts_expire_timer_list := xs\<rparr>)"
  by (simp_all add: keeps_def fires_def)

lemma app_part_keeps:
  assumes "app_part app q f d st = Some st'" "app_avoids p app" "p \<noteq> q"
  shows "keeps p st st'"
proof (cases f)
  case None
  with assms show ?thesis by (simp add: app_part_def)
next
  case (Some g)
  have "keeps p st (st\<lparr>ts_calls := (q, g, d) # ts_calls st\<rparr>)" using assms(3) by (simp add: keeps_def fires_def)
  moreover have "keeps p (st\<lparr>ts_calls := (q, g, d) # ts_calls st\<rparr>) st'"
    using assms Some by (intro do_calls_keeps [of "app g d"]) (auto simp: app_part_def call_app_def app_avoids_def)
  ultimately show ?thesis by (rule keeps_trans)
qed

lemma finish_keeps: "finish_timer st q = Some st' \<Longrightarrow> p \<noteq> q \<Longrightarrow> keeps p st st'"
  by (auto simp: finish_timer_def split: option.splits if_splits intro: destroy_keeps start_keeps)

lemma run_expired_keeps:
  assumes "run_expired app sent took st q = Some st'" "app_avoids p app" "p \<noteq> q"
  shows "keeps p st st'"
  using assms(1)
proof (rule run_expired_cases)
  fix t st1
  assume t: "ts_heap st q = Some t"
    and c: "case tm_callback t of AppCallback \<Rightarrow> gw_timer_app_callback app st q = Some st1
     | MsgCallback \<Rightarrow> gw_msg_timer_app_callback app sent st q = Some st1"
    and o: "st' = st1 \<or> (\<exists>x. st' = st1\<lparr>ts_callback_peek_time := ucast took, ts_callback_peek_ptr := x\<rparr>)"
  have "keeps p st st1"
  proof (cases "tm_callback t")
    case AppCallback
    with c have a: "gw_timer_app_callback app st q = Some st1" by simp
    have f: "keeps p st (st\<lparr>ts_heap := (ts_heap st)(q := None)\<rparr>)" using assms(3) by (simp add: keeps_def fires_def)
    from app_callback_cases [OF a t] f show ?thesis
      using keeps_trans [OF keeps_set [OF assms(3)] keeps_trans [OF app_part_keeps [OF _ assms(2,3)] finish_keeps [OF _ assms(3)]]]
      by (auto split: if_splits)
  next
    case MsgCallback
    with c have m: "gw_msg_timer_app_callback app sent st q = Some st1" by simp
    from m t show ?thesis
    proof (rule msg_callback_cases)
      fix os' st2 st3
      assume a: "st2 = st\<lparr>ts_os := os'\<rparr> \<or> app_part app q (tm_data_free_func t) (tm_data t) (st\<lparr>ts_os := os'\<rparr>) = Some st2"
        "finish_timer st2 q = Some st3"
        and b: "st1 = st3 \<or> st1 = st3\<lparr>ts_msg_timer_sendQ_error := ts_msg_timer_sendQ_error st3 + 1\<rparr>"
      have "keeps p st st2" using a(1) keeps_os keeps_trans app_part_keeps [OF _ assms(2,3)] by blast
      then have "keeps p st st3" using finish_keeps [OF a(2) assms(3)] by (rule keeps_trans)
      then show ?thesis using b keeps_err keeps_trans by blast
    qed
  qed
  then show ?thesis using o by (auto simp: peek_irrelevant)
qed

lemma run_all_keeps:
  "run_all app sent took qs st = Some st' \<Longrightarrow> app_avoids p app \<Longrightarrow> p \<notin> set qs \<Longrightarrow> keeps p st st'"
proof (induction qs arbitrary: st)
  case (Cons q qs)
  from Cons.prems(1) obtain st1 where
    1: "run_expired app (sent q) (took q) (st\<lparr>ts_expire_timer_list := qs\<rparr>) q = Some st1"
       "run_all app sent took qs st1 = Some st'" by (auto split: option.splits)
  have "keeps p st st1"
    using keeps_trans [OF keeps_expire run_expired_keeps [OF 1(1) Cons.prems(2)]] Cons.prems(3) by simp
  then show ?case using Cons.IH [OF 1(2) Cons.prems(2)] Cons.prems(3) keeps_trans by simp
qed simp

lemma run_all_append:
  "run_all app sent took (ps @ qs) st = Some st' \<Longrightarrow> ts_expire_timer_list st = ps @ qs \<Longrightarrow> round_ok st \<Longrightarrow>
   \<exists>st1. ts_expire_timer_list st1 = qs \<and> round_ok st1 \<and> run_all app sent took qs st1 = Some st' \<and>
     (app_avoids p app \<longrightarrow> p \<notin> set ps \<longrightarrow> keeps p st st1)"
proof (induction ps arbitrary: st)
  case (Cons x ps)
  from Cons.prems(1) obtain s1 where
    1: "run_expired app (sent x) (took x) (st\<lparr>ts_expire_timer_list := ps @ qs\<rparr>) x = Some s1"
       "run_all app sent took (ps @ qs) s1 = Some st'" by (auto split: option.splits)
  have r: "round_ok s1 \<and> ts_expire_timer_list s1 = ps @ qs"
    using round_step [of st x "ps @ qs"] Cons.prems(2,3) 1(1) by auto
  from Cons.IH [OF 1(2)] r obtain st1 where "ts_expire_timer_list st1 = qs" "round_ok st1"
    "run_all app sent took qs st1 = Some st'" "app_avoids p app \<longrightarrow> p \<notin> set ps \<longrightarrow> keeps p s1 st1" by blast
  moreover have "keeps p st s1" if "app_avoids p app" "p \<noteq> x"
    using keeps_trans [OF keeps_expire run_expired_keeps [OF 1(1) that]] .
  ultimately show ?case by (auto intro: keeps_trans)
qed auto

lemma round_running:
  assumes "timers_wf st" "gw_process_timer app sent took e st = Some st'" "app_avoids p app"
    and "p \<in> set (ts_timer_list st)" "ts_heap st p = Some t" "runs_on st p"
  shows "ts_heap st' p = Some (tick_timer (ts_delta st) t) \<and> p \<in> set (ts_timer_list st') \<and> fires p st' = fires p st"
proof -
  from assms(1,2) obtain st2 where r: "run_all app sent took (filter (\<lambda>p. \<not> runs_on st p) (ts_timer_list st)) (scanned st) = Some st2"
    "st' = st2\<lparr>ts_delta := ucast e, ts_total_timer_delta := ts_total_timer_delta st2 + ucast e\<rparr>"
    by (auto simp: process_timer_eq)
  have k: "keeps p (scanned st) st2" using run_all_keeps [OF r(1) assms(3)] assms(6) by simp
  have f: "fires p (scanned st) = fires p st" by (simp add: fires_def scanned_def)
  have "ts_heap (scanned st) p = Some (tick_timer (ts_delta st) t)" "p \<in> set (ts_timer_list (scanned st))"
    using assms(4-6) by (simp_all add: scanned_def)
  with k show ?thesis by (simp add: r(2) keeps_def f) (simp add: fires_def)
qed

text \<open>A live timer with an application callback: what its expiry does.\<close>

definition app_timer :: "gw_timer \<Rightarrow> nat \<Rightarrow> bool" where
  "app_timer t f \<longleftrightarrow> tm_callback t = AppCallback \<and> tm_app_callback t = Some f \<and> tm_stop_flag t = GW_TIMER_NO_STOPPED"

lemma run_expired_app:
  assumes "run_expired app sent took st p = Some st'" "app_avoids p app" "p \<notin> set (ts_timer_list st)"
    and "p \<notin> set (ts_expire_timer_list st)" "ts_heap st p = Some t" "app_timer t f"
  shows "fires p st' = (p, f, tm_data t) # fires p st \<and>
    (if tm_timer_type t = GW_ONCE_TIMER then ts_heap st' p = None \<and> p \<notin> set (ts_timer_list st')
     else ts_heap st' p = Some (t\<lparr>tm_remain_interval := tm_interval t\<rparr>) \<and> p \<in> set (ts_timer_list st'))"
  using assms(1)
proof (rule run_expired_cases)
  fix t1 st1
  assume t1: "ts_heap st p = Some t1"
    and c: "case tm_callback t1 of AppCallback \<Rightarrow> gw_timer_app_callback app st p = Some st1
     | MsgCallback \<Rightarrow> gw_msg_timer_app_callback app sent st p = Some st1"
    and o: "st' = st1 \<or> (\<exists>x. st' = st1\<lparr>ts_callback_peek_time := ucast took, ts_callback_peek_ptr := x\<rparr>)"
  have t: "t1 = t" using t1 assms(5) by simp
  have tf: "t\<lparr>tm_stop_flag := GW_TIMER_NO_STOPPED\<rparr> = t" using assms(6) by (simp add: app_timer_def)
  have a: "gw_timer_app_callback app st p = Some st1" using c t assms(6) by (simp add: app_timer_def)
  let ?s1 = "set_timer st p t" and ?s2 = "(set_timer st p t)\<lparr>ts_calls := (p, f, tm_data t) # ts_calls st\<rparr>"
  obtain st2 where p2: "do_calls (app f (tm_data t)) ?s2 = Some st2" and fin: "finish_timer st2 p = Some st1"
    using app_callback_cases [OF a assms(5)] assms(6)
    by (auto simp: app_timer_def tf app_part_def call_app_def set_timer_def)
  have k: "keeps p ?s2 st2" using do_calls_keeps [OF p2] assms(2) by (simp add: app_avoids_def)
  then have h2: "ts_heap st2 p = Some t" "p \<notin> set (ts_timer_list st2)" "fires p st2 = (p, f, tm_data t) # fires p st"
    using assms(3) by (simp_all add: keeps_def) (simp add: fires_def)
  have "fires p st1 = (p, f, tm_data t) # fires p st \<and>
    (if tm_timer_type t = GW_ONCE_TIMER then ts_heap st1 p = None \<and> p \<notin> set (ts_timer_list st1)
     else ts_heap st1 p = Some (t\<lparr>tm_remain_interval := tm_interval t\<rparr>) \<and> p \<in> set (ts_timer_list st1))"
  proof (cases "tm_timer_type t = GW_ONCE_TIMER")
    case True
    then have d: "gw_destroy_timer st2 (Some p) = Some st1" using fin h2 by (simp add: finish_timer_def)
    then show ?thesis using destroy_timer_cases [OF d] h2 True by (auto simp: fires_def)
  next
    case False
    then obtain r where d: "gw_start_timer st2 (Some p) = Some (r, st1)" using fin h2 by (auto simp: finish_timer_def)
    have "t\<lparr>tm_stop_flag := GW_TIMER_NO_STOPPED, tm_remain_interval := tm_interval t\<rparr> =
        t\<lparr>tm_remain_interval := tm_interval t\<rparr>" using tf by (metis gw_timer.ext_inject gw_timer.surjective gw_timer.update_convs(2) gw_timer.update_convs(7))
    then show ?thesis using start_timer_cases [OF d] h2 False by (auto simp: fires_def)
  qed
  then show ?thesis using o by (auto simp: peek_irrelevant)
qed

lemma round_expires:
  assumes "timers_wf st" "gw_process_timer app sent took e st = Some st'" "app_avoids p app"
    and "p \<in> set (ts_timer_list st)" "ts_heap st p = Some t" "\<not> runs_on st p" "app_timer t f"
  shows "fires p st' = (p, f, tm_data t) # fires p st \<and>
    (if tm_timer_type t = GW_ONCE_TIMER then ts_heap st' p = None \<and> p \<notin> set (ts_timer_list st')
     else ts_heap st' p = Some (t\<lparr>tm_remain_interval := tm_interval t\<rparr>) \<and> p \<in> set (ts_timer_list st'))"
proof -
  let ?ex = "filter (\<lambda>p. \<not> runs_on st p) (ts_timer_list st)"
  from assms(1,2) obtain st2 where r: "run_all app sent took ?ex (scanned st) = Some st2"
    "st' = st2\<lparr>ts_delta := ucast e, ts_total_timer_delta := ts_total_timer_delta st2 + ucast e\<rparr>"
    by (auto simp: process_timer_eq)
  have ex: "ts_expire_timer_list (scanned st) = ?ex" by (simp add: scanned_def)
  have "p \<in> set ?ex" using assms(4,6) by simp
  then obtain qs1 qs2 where q: "?ex = qs1 @ p # qs2" by (meson split_list)
  have dist: "distinct ?ex" using assms(1) by (simp add: timers_wf_def)
  then have np: "p \<notin> set qs1" "p \<notin> set qs2" using q by auto
  from run_all_append [of app sent took qs1 "p # qs2" "scanned st" st2 p] r(1) q ex scanned_round_ok [OF assms(1)]
  obtain s1 where s1: "ts_expire_timer_list s1 = p # qs2" "round_ok s1"
    "run_all app sent took (p # qs2) s1 = Some st2" "keeps p (scanned st) s1"
    using assms(3) np(1) by auto
  from s1(3) obtain s2 where s2: "run_expired app (sent p) (took p) (s1\<lparr>ts_expire_timer_list := qs2\<rparr>) p = Some s2"
    "run_all app sent took qs2 s2 = Some st2" by (auto split: option.splits)
  let ?t = "tick_timer (ts_delta st) t"
  have h1: "ts_heap s1 p = Some ?t" "p \<notin> set (ts_timer_list s1)" "fires p s1 = fires p st"
    using s1(4) assms(4-6) by (simp_all add: keeps_def) (simp_all add: scanned_def fires_def)
  have at: "app_timer ?t f" "tm_timer_type ?t = tm_timer_type t" "tm_data ?t = tm_data t"
      "?t\<lparr>tm_remain_interval := tm_interval ?t\<rparr> = t\<lparr>tm_remain_interval := tm_interval t\<rparr>"
    using assms(7) by (simp_all add: app_timer_def tick_timer_def)
  have "fires p s2 = (p, f, tm_data t) # fires p st \<and>
    (if tm_timer_type t = GW_ONCE_TIMER then ts_heap s2 p = None \<and> p \<notin> set (ts_timer_list s2)
     else ts_heap s2 p = Some (t\<lparr>tm_remain_interval := tm_interval t\<rparr>) \<and> p \<in> set (ts_timer_list s2))"
    using run_expired_app [OF s2(1) assms(3) _ _ _ at(1)] h1 np(2) by (simp add: at fires_def)
  moreover have "keeps p s2 st2" by (rule run_all_keeps [OF s2(2) assms(3) np(2)])
  ultimately show ?thesis by (simp add: keeps_def r(2) fires_def)
qed

lemma round_absent:
  assumes "timers_wf st" "gw_process_timer app sent took e st = Some st'" "app_avoids p app"
    and "p \<notin> set (ts_timer_list st)"
  shows "p \<notin> set (ts_timer_list st') \<and> fires p st' = fires p st"
proof -
  from assms(1,2) obtain st2 where r: "run_all app sent took (filter (\<lambda>p. \<not> runs_on st p) (ts_timer_list st)) (scanned st) = Some st2"
    "st' = st2\<lparr>ts_delta := ucast e, ts_total_timer_delta := ts_total_timer_delta st2 + ucast e\<rparr>"
    by (auto simp: process_timer_eq)
  have k: "keeps p (scanned st) st2" using run_all_keeps [OF r(1) assms(3)] assms(4) by simp
  then show ?thesis using assms(4) by (simp add: r(2) keeps_def fires_def) (simp add: scanned_def)
qed

section \<open>Many rounds\<close>

text \<open>
  What a round depends on: whether the POSIX queues take the messages, how long each callback
  runs, and how long the round takes; of the last, \<open>round_ticks\<close> counts in the next round.
\<close>

type_synonym timer_round = "(addr \<Rightarrow> bool) \<times> (addr \<Rightarrow> u64) \<times> u64"

definition round_ticks :: "timer_round \<Rightarrow> nat" where
  "round_ticks r = unat (ucast (snd (snd r)) :: u32)"

fun timer_rounds :: "app_fns \<Rightarrow> timer_round list \<Rightarrow> gw_timers \<Rightarrow> gw_timers option" where
  "timer_rounds app [] st = Some st"
| "timer_rounds app ((sent, took, e) # rs) st =
     (case gw_process_timer app sent took e st of None \<Rightarrow> None
      | Some st1 \<Rightarrow> timer_rounds app rs st1)"

text \<open>
  The specification of one timer with interval \<open>n\<close>, \<open>r\<close> ticks to run and \<open>d\<close> ticks spent in the
  previous round: how often a periodic timer fires in rounds that take \<open>es\<close> ticks, and whether
  a one-shot timer does.
\<close>

fun countdown :: "nat \<Rightarrow> nat \<Rightarrow> nat \<Rightarrow> nat list \<Rightarrow> nat" where
  "countdown n r d [] = 0"
| "countdown n r d (e # es) =
     (if r > d + 1 then countdown n (r - d - 1) e es else Suc (countdown n n e es))"

fun fires_once :: "nat \<Rightarrow> nat \<Rightarrow> nat list \<Rightarrow> bool" where
  "fires_once r d [] \<longleftrightarrow> False"
| "fires_once r d (e # es) \<longleftrightarrow> (if r > d + 1 then fires_once (r - d - 1) e es else True)"

lemma fires_once_sum: "0 < r \<Longrightarrow> es \<noteq> [] \<Longrightarrow> fires_once r d es \<longleftrightarrow> r \<le> d + sum_list (butlast es) + length es"
proof (induction es arbitrary: r d)
  case (Cons e es)
  show ?case
  proof (cases "es = []")
    case False
    then show ?thesis using Cons.IH [of "r - d - 1" e] Cons.prems by auto
  qed auto
qed simp

text \<open>With rounds of \<open>e\<close> ticks a timer loses \<open>e + 1\<close> a round: \<open>n\<close> ticks last this many rounds.\<close>

definition rounds_for :: "nat \<Rightarrow> nat \<Rightarrow> nat" where
  "rounds_for e n = (n + e) div (e + 1)"

lemma rounds_for_step: "r > e + 1 \<Longrightarrow> rounds_for e r = Suc (rounds_for e (r - e - 1))"
proof -
  assume "r > e + 1"
  then have "r + e = (r - e - 1 + e) + (e + 1)" by simp
  then have "rounds_for e r = ((r - e - 1 + e) + (e + 1)) div (e + 1)" by (simp only: rounds_for_def)
  then show ?thesis by (simp only: rounds_for_def div_add_self2)
qed

lemma rounds_for_last: "0 < r \<Longrightarrow> r \<le> e + 1 \<Longrightarrow> rounds_for e r = 1"
proof -
  assume a: "0 < r" "r \<le> e + 1"
  then have "r + e = (r - 1) + (e + 1)" by simp
  then have "rounds_for e r = Suc ((r - 1) div (e + 1))" by (simp only: rounds_for_def div_add_self2)
  then show ?thesis using a by simp
qed

lemma rounds_for_pos: "0 < r \<Longrightarrow> 0 < rounds_for e r"
  using rounds_for_step [of e r] rounds_for_last [of r e] by (cases "r > e + 1") auto

lemma countdown_const:
  "0 < n \<Longrightarrow> 0 < r \<Longrightarrow>
   countdown n r e (replicate k e) = (if k < rounds_for e r then 0 else Suc ((k - rounds_for e r) div rounds_for e n))"
proof (induction k arbitrary: r)
  case 0
  then show ?case by (simp add: rounds_for_pos)
next
  case (Suc k)
  show ?case
  proof (cases "r > e + 1")
    case True
    then show ?thesis using Suc.IH [of "r - e - 1"] Suc.prems rounds_for_step [OF True] by simp
  next
    case False
    then have "rounds_for e r = 1" using rounds_for_last [of r e] Suc.prems by simp
    then show ?thesis using False Suc.IH [of n] Suc.prems by (auto simp: div_if [of k] rounds_for_pos)
  qed
qed

corollary countdown_period: "0 < n \<Longrightarrow> countdown n n e (replicate k e) = k div rounds_for e n"
  by (simp add: countdown_const div_if [of k] rounds_for_pos)

lemma circle_rounds:
  assumes "timers_wf st" "timer_rounds app rs st = Some st'" "app_avoids p app"
    and "p \<in> set (ts_timer_list st)" "ts_heap st p = Some t" "app_timer t f" "tm_timer_type t = GW_CIRCLE_TIMER"
  shows "length (fires p st') = length (fires p st) +
      countdown (tm_interval t) (tm_remain_interval t) (unat (ts_delta st)) (map round_ticks rs) \<and> p \<in> set (ts_timer_list st')"
  using assms
proof (induction rs arbitrary: st t)
  case (Cons x rs)
  obtain sent took e where x: "x = (sent, took, e)" by (cases x)
  from Cons.prems(2) obtain st1 where 1: "gw_process_timer app sent took e st = Some st1"
    "timer_rounds app rs st1 = Some st'" by (auto simp: x split: option.splits)
  have tk: "round_ticks x = unat (ucast e :: u32)" by (simp add: round_ticks_def x)
  note wf1 = process_timer_wf [OF Cons.prems(1) 1(1)]
  have ro: "runs_on st p \<longleftrightarrow> tm_remain_interval t > unat (ts_delta st) + 1"
    using Cons.prems(5) by (simp add: runs_on_def remain_of_def)
  show ?case
  proof (cases "runs_on st p")
    case True
    from round_running [OF Cons.prems(1) 1(1) Cons.prems(3-5) True]
    have h: "ts_heap st1 p = Some (tick_timer (ts_delta st) t)" "p \<in> set (ts_timer_list st1)" "fires p st1 = fires p st"
      by auto
    have "app_timer (tick_timer (ts_delta st) t) f" "tm_timer_type (tick_timer (ts_delta st) t) = GW_CIRCLE_TIMER"
      using Cons.prems(6,7) by (simp_all add: app_timer_def tick_timer_def)
    from Cons.IH [OF _ 1(2) Cons.prems(3) h(2,1) this] wf1 show ?thesis
      using True ro h(3) by (simp add: tick_timer_def tick_remain_val tk)
  next
    case False
    from round_expires [OF Cons.prems(1) 1(1) Cons.prems(3-5) False Cons.prems(6)] Cons.prems(7)
    have h: "ts_heap st1 p = Some (t\<lparr>tm_remain_interval := tm_interval t\<rparr>)" "p \<in> set (ts_timer_list st1)"
      "fires p st1 = (p, f, tm_data t) # fires p st" by auto
    have "app_timer (t\<lparr>tm_remain_interval := tm_interval t\<rparr>) f"
      "tm_timer_type (t\<lparr>tm_remain_interval := tm_interval t\<rparr>) = GW_CIRCLE_TIMER"
      using Cons.prems(6,7) by (simp_all add: app_timer_def)
    from Cons.IH [OF _ 1(2) Cons.prems(3) h(2,1) this] wf1 show ?thesis
      using False ro h(3) by (simp add: tk)
  qed
qed simp

lemma absent_rounds:
  assumes "timers_wf st" "timer_rounds app rs st = Some st'" "app_avoids p app" "p \<notin> set (ts_timer_list st)"
  shows "fires p st' = fires p st \<and> p \<notin> set (ts_timer_list st')"
  using assms
proof (induction rs arbitrary: st)
  case (Cons x rs)
  obtain sent took e where x: "x = (sent, took, e)" by (cases x)
  from Cons.prems(2) obtain st1 where 1: "gw_process_timer app sent took e st = Some st1"
    "timer_rounds app rs st1 = Some st'" by (auto simp: x split: option.splits)
  have tk: "round_ticks x = unat (ucast e :: u32)" by (simp add: round_ticks_def x)
  show ?case
    using Cons.IH [OF _ 1(2) Cons.prems(3)] process_timer_wf [OF Cons.prems(1) 1(1)]
      round_absent [OF Cons.prems(1) 1(1) Cons.prems(3,4)] by simp
qed simp

lemma once_rounds:
  assumes "timers_wf st" "timer_rounds app rs st = Some st'" "app_avoids p app"
    and "p \<in> set (ts_timer_list st)" "ts_heap st p = Some t" "app_timer t f" "tm_timer_type t = GW_ONCE_TIMER"
  shows "fires p st' = (if fires_once (tm_remain_interval t) (unat (ts_delta st)) (map round_ticks rs) then [(p, f, tm_data t)] else []) @ fires p st \<and>
    (p \<in> set (ts_timer_list st') \<longleftrightarrow> \<not> fires_once (tm_remain_interval t) (unat (ts_delta st)) (map round_ticks rs))"
  using assms
proof (induction rs arbitrary: st t)
  case (Cons x rs)
  obtain sent took e where x: "x = (sent, took, e)" by (cases x)
  from Cons.prems(2) obtain st1 where 1: "gw_process_timer app sent took e st = Some st1"
    "timer_rounds app rs st1 = Some st'" by (auto simp: x split: option.splits)
  have tk: "round_ticks x = unat (ucast e :: u32)" by (simp add: round_ticks_def x)
  note wf1 = process_timer_wf [OF Cons.prems(1) 1(1)]
  have ro: "runs_on st p \<longleftrightarrow> tm_remain_interval t > unat (ts_delta st) + 1"
    using Cons.prems(5) by (simp add: runs_on_def remain_of_def)
  show ?case
  proof (cases "runs_on st p")
    case True
    from round_running [OF Cons.prems(1) 1(1) Cons.prems(3-5) True]
    have h: "ts_heap st1 p = Some (tick_timer (ts_delta st) t)" "p \<in> set (ts_timer_list st1)" "fires p st1 = fires p st"
      by auto
    have "app_timer (tick_timer (ts_delta st) t) f" "tm_timer_type (tick_timer (ts_delta st) t) = GW_ONCE_TIMER"
      using Cons.prems(6,7) by (simp_all add: app_timer_def tick_timer_def)
    from Cons.IH [OF _ 1(2) Cons.prems(3) h(2,1) this] wf1 show ?thesis
      using True ro h(3) by (simp add: tick_timer_def tick_remain_val tk)
  next
    case False
    from round_expires [OF Cons.prems(1) 1(1) Cons.prems(3-5) False Cons.prems(6)] Cons.prems(7)
    have h: "p \<notin> set (ts_timer_list st1)" "fires p st1 = (p, f, tm_data t) # fires p st" by auto
    from absent_rounds [OF _ 1(2) Cons.prems(3) h(1)] wf1 show ?thesis
      using False ro h(2) by simp
  qed
qed simp

section \<open>Rounds do not fault\<close>

text \<open>
  A round touches a freed timer in few ways: a callback destroys its own timer or stops one
  that is gone, it starts a timer that is due in the same round, or the callback of a one-shot
  timer is the slowest so far. Without them rounds over application timers do not fault. Here
  callbacks may change the interval of any timer and stop the periodic ones.
\<close>

definition all_app :: "gw_timers \<Rightarrow> bool" where
  "all_app st \<longleftrightarrow>
     list_all (\<lambda>p. ts_heap st p \<noteq> None) (ts_expire_timer_list st) \<and>
     list_all (\<lambda>p. case ts_heap st p of None \<Rightarrow> True | Some t \<Rightarrow> tm_callback t = AppCallback)
       (ts_timer_list st @ ts_expire_timer_list st)"

abbreviation quiet :: app_fns where
  "quiet \<equiv> (\<lambda>f d. [])"

lemma quiet_avoids [simp]: "app_avoids p quiet"
  by (simp add: app_avoids_def)

text \<open>\<open>is_circle\<close>, \<open>is_once\<close>: a timer of that type is allocated at the address.\<close>

definition is_circle :: "gw_timers \<Rightarrow> addr \<Rightarrow> bool" where
  "is_circle st q \<longleftrightarrow> (case ts_heap st q of None \<Rightarrow> False | Some t \<Rightarrow> tm_timer_type t = GW_CIRCLE_TIMER)"

definition is_once :: "gw_timers \<Rightarrow> addr \<Rightarrow> bool" where
  "is_once st q \<longleftrightarrow> (case ts_heap st q of None \<Rightarrow> False | Some t \<Rightarrow> tm_timer_type t = GW_ONCE_TIMER)"

fun call_safe :: "(addr \<Rightarrow> bool) \<Rightarrow> timer_call \<Rightarrow> bool" where
  "call_safe C (TAdd a t cb d) \<longleftrightarrow> a = None"
| "call_safe C (TCircleAdd a t cb d) \<longleftrightarrow> a = None"
| "call_safe C (TDel h) \<longleftrightarrow> h = None"
| "call_safe C (TStop h) \<longleftrightarrow> (case h of None \<Rightarrow> True | Some q \<Rightarrow> C q)"
| "call_safe C (TStart h) \<longleftrightarrow> h = None"
| "call_safe C (TRestart h) \<longleftrightarrow> h = None"
| "call_safe C (TRetiming h t) \<longleftrightarrow> True"

text \<open>
  The conditions: callbacks make such calls only, no timer is marked as destroyed, and the
  callback of a one-shot timer takes no longer than the longest callback before.
\<close>

definition undestroyed :: "gw_timers \<Rightarrow> bool" where
  "undestroyed st \<longleftrightarrow> (\<forall>q t. ts_heap st q = Some t \<longrightarrow> tm_stop_flag t \<noteq> GW_TIMER_DESTROYED)"

definition calm_run :: "app_fns \<Rightarrow> timer_round list \<Rightarrow> gw_timers \<Rightarrow> bool" where
  "calm_run app rs st \<longleftrightarrow> all_app st \<and> undestroyed st \<and>
     (\<forall>f d. list_all (call_safe (is_circle st)) (app f d)) \<and>
     (\<forall>(sent, took, e) \<in> set rs. \<forall>q. unat (took q) < 2 ^ 32 \<and>
        (is_once st q \<longrightarrow> unat (took q) \<le> unat (ts_callback_peek_time st)))"

definition calm :: "(addr \<Rightarrow> bool) \<Rightarrow> (addr \<Rightarrow> bool) \<Rightarrow> nat \<Rightarrow> gw_timers \<Rightarrow> bool" where
  "calm C N b st \<longleftrightarrow> all_app st \<and> b \<le> unat (ts_callback_peek_time st) \<and> undestroyed st \<and>
     (\<forall>q. C q \<longrightarrow> is_circle st q) \<and> (\<forall>q. is_once st q \<longrightarrow> N q)"

text \<open>What a harmless call does not change: the lists, but for a removal, and the kind of each timer.\<close>

definition kind :: "gw_timers \<Rightarrow> addr \<Rightarrow> (timer_type \<times> timer_callback) option" where
  "kind st q = map_option (\<lambda>t. (tm_timer_type t, tm_callback t)) (ts_heap st q)"

lemma is_circle_kind: "is_circle st q \<longleftrightarrow> (\<exists>c. kind st q = Some (GW_CIRCLE_TIMER, c))"
  and is_once_kind: "is_once st q \<longleftrightarrow> (\<exists>c. kind st q = Some (GW_ONCE_TIMER, c))"
  by (auto simp: is_circle_def is_once_def kind_def split: option.splits)

lemma all_app_kind:
  "all_app st \<longleftrightarrow> list_all (\<lambda>p. kind st p \<noteq> None) (ts_expire_timer_list st) \<and>
     list_all (\<lambda>p. case kind st p of None \<Rightarrow> True | Some k \<Rightarrow> snd k = AppCallback)
       (ts_timer_list st @ ts_expire_timer_list st)"
proof -
  have "(case ts_heap st p of None \<Rightarrow> True | Some t \<Rightarrow> tm_callback t = AppCallback) =
      (case kind st p of None \<Rightarrow> True | Some k \<Rightarrow> snd k = AppCallback)" for p
    by (simp add: kind_def split: option.split)
  moreover have "(ts_heap st p \<noteq> None) = (kind st p \<noteq> None)" for p by (simp add: kind_def)
  ultimately show ?thesis by (simp only: all_app_def)
qed

definition same_kinds :: "gw_timers \<Rightarrow> gw_timers \<Rightarrow> bool" where
  "same_kinds st st' \<longleftrightarrow> kind st' = kind st \<and> ts_expire_timer_list st' = ts_expire_timer_list st \<and>
     set (ts_timer_list st') \<subseteq> set (ts_timer_list st) \<and> ts_callback_peek_time st' = ts_callback_peek_time st \<and>
     (timers_wf st \<longrightarrow> timers_wf st') \<and> (undestroyed st \<longrightarrow> undestroyed st')"

lemma same_kinds_refl [simp]: "same_kinds st st"
  by (simp add: same_kinds_def)

lemma same_kinds_trans: "same_kinds st st1 \<Longrightarrow> same_kinds st1 st2 \<Longrightarrow> same_kinds st st2"
  by (auto simp: same_kinds_def)

lemma same_kinds_calm: "same_kinds st st' \<Longrightarrow> calm C N b st \<Longrightarrow> calm C N b st'"
  by (auto simp: same_kinds_def calm_def all_app_kind is_circle_kind is_once_kind list_all_iff)

lemma same_kinds_set:
  "ts_heap st p = Some t \<Longrightarrow> tm_timer_type t' = tm_timer_type t \<Longrightarrow> tm_callback t' = tm_callback t \<Longrightarrow>
   tm_stop_flag t' = tm_stop_flag t \<or> tm_stop_flag t' \<noteq> GW_TIMER_DESTROYED \<Longrightarrow> same_kinds st (set_timer st p t')"
  using frame_set [of st p t']
  by (auto simp: same_kinds_def kind_def fun_eq_iff frame_def undestroyed_def set_timer_def)

lemma do_call_safe:
  assumes "call_safe C c" "calm C N b st" "timers_wf st"
  shows "\<exists>st'. do_call c st = Some st' \<and> same_kinds st st'"
proof (cases c)
  case (TStop h)
  show ?thesis
  proof (cases h)
    case None
    then show ?thesis by (simp add: TStop gw_timer_stop_def)
  next
    case (Some q)
    then have "is_circle st q" using assms(1,2) by (simp add: TStop calm_def)
    then obtain t where t: "ts_heap st q = Some t" by (auto simp: is_circle_def split: option.splits)
    let ?s = "set_timer st q (t\<lparr>tm_stop_flag := GW_TIMER_STOPPED\<rparr>)"
    obtain st' where d: "gw_stop_timer st (Some q) = Some (GW_TIMER_OK, st')"
      "st' = ?s \<or> st' = ?s\<lparr>ts_timer_list := remove1 q (ts_timer_list ?s)\<rparr>"
      using t that [of ?s] that [of "?s\<lparr>ts_timer_list := remove1 q (ts_timer_list ?s)\<rparr>"]
      by (cases "q \<in> set (ts_timer_list st)") (simp_all add: gw_stop_timer_def with_timer_def)
    have "same_kinds st ?s" by (rule same_kinds_set [OF t]) simp_all
    moreover have "set (ts_timer_list st') \<subseteq> set (ts_timer_list st)" using d(2) set_remove1_subset by fastforce
    ultimately have "same_kinds st st'" using d(2) stop_frame [OF d(1)] by (auto simp: same_kinds_def kind_def frame_def undestroyed_def fun_eq_iff)
    then show ?thesis using d(1) by (simp add: TStop Some gw_timer_stop_def)
  qed
next
  case (TRetiming h tm)
  show ?thesis
  proof (cases "\<exists>q. h = Some q \<and> q \<in> set (ts_timer_list st)")
    case True
    then obtain q t where q: "h = Some q" "q \<in> set (ts_timer_list st)" "ts_heap st q = Some t"
      using assms(3) by (auto simp: timers_wf_def list_all_iff)
    then show ?thesis
      using same_kinds_set [of st q t "t\<lparr>tm_interval := unat (gw_milli_to_ticks tm), tm_remain_interval := unat (gw_milli_to_ticks tm)\<rparr>"]
      by (simp add: TRetiming gw_timer_retiming_def gw_retiming_timer_def with_timer_def)
  next
    case False
    then have "do_call c st = Some st"
      by (cases h) (auto simp: TRetiming gw_timer_retiming_def gw_retiming_timer_def)
    then show ?thesis by simp
  qed
qed (use assms in \<open>auto simp: gw_timer_add_def gw_circle_timer_add_def timer_add_common_def gw_create_timer_def
      gw_timer_del_def gw_timer_start_def gw_timer_restart_def\<close>)

lemma do_calls_safe:
  "list_all (call_safe C) cs \<Longrightarrow> calm C N b st \<Longrightarrow> timers_wf st \<Longrightarrow> \<exists>st'. do_calls cs st = Some st' \<and> same_kinds st st'"
proof (induction cs arbitrary: st)
  case (Cons c cs)
  obtain st1 where 1: "do_call c st = Some st1" "same_kinds st st1"
    using do_call_safe [OF _ Cons.prems(2,3), of c] Cons.prems(1) by auto
  have "calm C N b st1" "timers_wf st1"
    using same_kinds_calm [OF 1(2) Cons.prems(2)] 1(2) Cons.prems(3) by (simp_all add: same_kinds_def)
  from Cons.IH [OF _ this] Cons.prems(1) obtain st2 where "do_calls cs st1 = Some st2" "same_kinds st1 st2" by auto
  then show ?case using 1 same_kinds_trans by auto
qed simp

lemma app_part_safe:
  assumes "\<forall>f d. list_all (call_safe C) (app f d)" "calm C N b st" "timers_wf st"
  shows "\<exists>st'. app_part app p f d st = Some st' \<and> same_kinds st st'"
proof (cases f)
  case None
  then show ?thesis by (simp add: app_part_def)
next
  case (Some g)
  let ?s = "st\<lparr>ts_calls := (p, g, d) # ts_calls st\<rparr>"
  have s: "same_kinds st ?s" by (simp add: same_kinds_def kind_def timers_wf_def undestroyed_def fun_eq_iff)
  then have "calm C N b ?s" "timers_wf ?s" using same_kinds_calm [OF s assms(2)] assms(3) by (simp_all add: same_kinds_def)
  from do_calls_safe [OF _ this, of "app g d"] assms(1) same_kinds_trans [OF s] show ?thesis
    by (auto simp: app_part_def Some call_app_def)
qed

lemma once_or_circle: "t \<noteq> GW_ONCE_TIMER \<longleftrightarrow> t = GW_CIRCLE_TIMER"
  by (cases t) auto

lemma finish_calm:
  assumes c: "calm C N b st" and t: "ts_heap st p = Some t" "tm_callback t = AppCallback"
    and p: "p \<notin> set (ts_timer_list st)" "p \<notin> set (ts_expire_timer_list st)"
  shows "\<exists>st'. finish_timer st p = Some st' \<and> calm C N b st' \<and>
    (tm_timer_type t = GW_CIRCLE_TIMER \<longrightarrow> ts_heap st' p \<noteq> None)"
proof (cases "tm_timer_type t = GW_ONCE_TIMER")
  case True
  let ?s = "st\<lparr>ts_heap := (ts_heap st)(p := None)\<rparr>"
  have f: "finish_timer st p = Some ?s"
    using t p True by (simp add: finish_timer_def gw_destroy_timer_def with_timer_def set_timer_def)
  have "\<not> C p" using c t(1) True by (auto simp: calm_def is_circle_def)
  then have "calm C N b ?s" using c p by (auto simp: calm_def all_app_def undestroyed_def is_circle_def is_once_def list_all_iff)
  then show ?thesis using f True by simp
next
  case False
  then have circ: "tm_timer_type t = GW_CIRCLE_TIMER" by (simp add: once_or_circle)
  obtain st' where s: "gw_start_timer st (Some p) = Some (GW_TIMER_OK, st')" "ts_callback_peek_time st' = ts_callback_peek_time st"
    using t(1) p by (auto simp: gw_start_timer_def with_timer_def Let_def set_timer_def)
  let ?t = "t\<lparr>tm_stop_flag := GW_TIMER_NO_STOPPED, tm_remain_interval := tm_interval t\<rparr>"
  from start_timer_cases [OF s(1)] t(1) p have h: "ts_heap st' = (ts_heap st)(p := Some ?t)"
    "set (ts_timer_list st') = insert p (set (ts_timer_list st))" "ts_expire_timer_list st' = ts_expire_timer_list st" by auto
  have f: "finish_timer st p = Some st'" using t(1) False s(1) by (simp add: finish_timer_def)
  have "calm C N b st'" using c h s(2) t(2) circ
    by (auto simp: calm_def all_app_def undestroyed_def is_circle_def is_once_def list_all_iff)
  then show ?thesis using f h(1) by simp
qed

lemma run_expired_calm:
  assumes app: "\<forall>f d. list_all (call_safe C) (app f d)" and c: "calm C N b st" "timers_wf st"
    and t: "ts_heap st p = Some t" "tm_callback t = AppCallback"
    and p: "p \<notin> set (ts_timer_list st)" "p \<notin> set (ts_expire_timer_list st)"
    and took: "unat took < 2 ^ 32" "N p \<longrightarrow> unat took \<le> b"
  shows "\<exists>st'. run_expired app sent took st p = Some st' \<and> calm C N b st'"
proof -
  have nd: "tm_stop_flag t \<noteq> GW_TIMER_DESTROYED" using c(1) t(1) by (auto simp: calm_def undestroyed_def)
  obtain s where s: "gw_timer_app_callback app st p = Some s" "calm C N b s"
    "tm_timer_type t = GW_CIRCLE_TIMER \<longrightarrow> ts_heap s p \<noteq> None"
  proof (cases "tm_timer_type t = GW_CIRCLE_TIMER \<and> tm_stop_flag t = GW_TIMER_STOPPED")
    case True
    then show thesis using that [of st] t c(1) by (simp add: gw_timer_app_callback_def)
  next
    case False
    let ?s = "set_timer st p (t\<lparr>tm_stop_flag := GW_TIMER_NO_STOPPED\<rparr>)"
    have k: "same_kinds st ?s" by (rule same_kinds_set [OF t(1)]) simp_all
    have "calm C N b ?s" "timers_wf ?s" using same_kinds_calm [OF k c(1)] k c(2) by (simp_all add: same_kinds_def)
    from app_part_safe [OF app this] obtain s2 where
      a: "app_part app p (tm_app_callback t) (tm_data t) ?s = Some s2" "same_kinds ?s s2" by blast
    have k2: "same_kinds st s2" by (rule same_kinds_trans [OF k a(2)])
    have "kind s2 p = kind st p" using k2 by (simp add: same_kinds_def)
    then obtain t2 where t2: "ts_heap s2 p = Some t2" "tm_timer_type t2 = tm_timer_type t" "tm_callback t2 = AppCallback"
      using t by (auto simp: kind_def)
    have "p \<notin> set (ts_timer_list s2)" "p \<notin> set (ts_expire_timer_list s2)" using k2 p by (auto simp: same_kinds_def)
    from finish_calm [OF same_kinds_calm [OF k2 c(1)] t2(1,3) this] obtain s3 where
      "finish_timer s2 p = Some s3" "calm C N b s3" "tm_timer_type t2 = GW_CIRCLE_TIMER \<longrightarrow> ts_heap s3 p \<noteq> None" by blast
    then show thesis using that [of s3] t(1) nd False a(1) t2(2)
      by (simp add: gw_timer_app_callback_def Let_def app_part_def)
  qed
  show ?thesis
  proof (cases "took > ucast (ts_callback_peek_time s)")
    case False
    then show ?thesis using s(1,2) t by (simp add: run_expired_def)
  next
    case True
    have lt: "unat (ts_callback_peek_time s) < unat took"
      using True unsigned_less [of "ts_callback_peek_time s", where ?'a = nat]
      by (simp add: word_less_nat_alt unsigned_ucast_eq take_bit_nat_eq_self)
    have low: "unat (ucast took :: u32) = unat took" using took(1) by (simp add: unsigned_ucast_eq take_bit_nat_eq_self)
    have b: "b \<le> unat (ts_callback_peek_time s)" using s(2) by (simp add: calm_def)
    then have "\<not> N p" using lt took(2) by auto
    then have "\<not> is_once st p" using c(1) by (auto simp: calm_def)
    then have "ts_heap s p \<noteq> None" using s(3) t(1) by (auto simp: is_once_def once_or_circle)
    then obtain t1 where t1: "ts_heap s p = Some t1" by blast
    let ?x = "if tm_timer_type t1 = GW_ONCE_TIMER then Inl (tm_callback t1) else Inr (tm_app_callback t1)"
    have "run_expired app sent took st p = Some (s\<lparr>ts_callback_peek_time := ucast took, ts_callback_peek_ptr := ?x\<rparr>)"
      using t s(1) True t1 by (simp add: run_expired_def)
    moreover have "calm C N b (s\<lparr>ts_callback_peek_time := ucast took, ts_callback_peek_ptr := ?x\<rparr>)"
      using s(2) b lt low by (simp add: calm_def all_app_def undestroyed_def is_circle_def is_once_def)
    ultimately show ?thesis by blast
  qed
qed

lemma run_all_calm:
  assumes "\<forall>f d. list_all (call_safe C) (app f d)" "\<forall>q. unat (took q) < 2 ^ 32 \<and> (N q \<longrightarrow> unat (took q) \<le> b)"
    and "round_ok st" "calm C N b st" "ts_expire_timer_list st = ps"
  shows "\<exists>st'. run_all app sent took ps st = Some st' \<and> calm C N b st'"
  using assms(3-5)
proof (induction ps arbitrary: st)
  case (Cons p ps)
  let ?s = "st\<lparr>ts_expire_timer_list := ps\<rparr>"
  have np: "p \<notin> set ps" "p \<notin> set (ts_timer_list st)" using Cons.prems by (auto simp: round_ok_def timers_wf_def)
  obtain t where t: "ts_heap st p = Some t" "tm_callback t = AppCallback"
    using Cons.prems(2,3) by (auto simp: calm_def all_app_def split: option.splits)
  have "calm C N b ?s" "timers_wf ?s" using Cons.prems
    by (simp_all add: calm_def all_app_def undestroyed_def is_circle_def is_once_def round_ok_def timers_wf_def list_all_iff)
  from run_expired_calm [OF assms(1) this] t np assms(2) obtain s1 where
    s1: "run_expired app (sent p) (took p) ?s p = Some s1" "calm C N b s1" by fastforce
  from round_step [OF Cons.prems(1,3) s1(1)] have "round_ok s1" "ts_expire_timer_list s1 = ps" by auto
  then show ?case using Cons.IH [OF _ s1(2)] s1(1) by simp
qed simp

lemma scanned_calm: "timers_wf st \<Longrightarrow> calm C N b st \<Longrightarrow> calm C N b (scanned st)"
proof -
  assume a: "timers_wf st" "calm C N b st"
  have k: "kind (scanned st) = kind st"
    by (auto simp: kind_def scanned_def tick_timer_def fun_eq_iff option.map_comp comp_def)
  have "undestroyed (scanned st)" using a(2)
    by (auto simp: calm_def undestroyed_def scanned_def tick_timer_def split: if_splits)
  moreover have "all_app (scanned st)" using a
    by (auto simp: all_app_def scanned_def list_all_iff timers_wf_def tick_timer_def calm_def split: option.splits)
  moreover have "ts_callback_peek_time (scanned st) = ts_callback_peek_time st" by (simp add: scanned_def)
  ultimately show ?thesis using a(2) by (simp add: calm_def is_circle_kind is_once_kind k)
qed

lemma rounds_calm:
  assumes "\<forall>f d. list_all (call_safe C) (app f d)"
    and "\<forall>(sent, took, e) \<in> set rs. \<forall>q. unat (took q) < 2 ^ 32 \<and> (N q \<longrightarrow> unat (took q) \<le> b)"
    and "timers_wf st" "calm C N b st"
  shows "\<exists>st'. timer_rounds app rs st = Some st'"
  using assms(2-4)
proof (induction rs arbitrary: st)
  case (Cons x rs)
  obtain sent took e where x: "x = (sent, took, e)" by (cases x)
  have ex: "ts_expire_timer_list (scanned st) = filter (\<lambda>p. \<not> runs_on st p) (ts_timer_list st)" by (simp add: scanned_def)
  from run_all_calm [OF assms(1) _ scanned_round_ok [OF Cons.prems(2)] scanned_calm [OF Cons.prems(2,3)] ex, of took sent] Cons.prems(1)
  obtain s2 where r: "run_all app sent took (filter (\<lambda>p. \<not> runs_on st p) (ts_timer_list st)) (scanned st) = Some s2"
    "calm C N b s2" by (auto simp: x)
  let ?s3 = "s2\<lparr>ts_delta := ucast e, ts_total_timer_delta := ts_total_timer_delta s2 + ucast e\<rparr>"
  have p: "gw_process_timer app sent took e st = Some ?s3" using r Cons.prems(2) by (simp add: process_timer_eq)
  have "calm C N b ?s3" using r(2) by (simp add: calm_def all_app_def undestroyed_def is_circle_def is_once_def)
  then show ?case using Cons.IH [of ?s3] Cons.prems(1) process_timer_wf [OF Cons.prems(2) p] p by (simp add: x)
qed simp

lemma calm_run_returns:
  assumes "timers_wf st" "calm_run app rs st"
  shows "\<exists>st'. timer_rounds app rs st = Some st'"
  using assms by (intro rounds_calm [of "is_circle st" app rs "is_once st" "unat (ts_callback_peek_time st)"])
    (auto simp: calm_run_def calm_def)

section \<open>A timer that was just added\<close>

definition fresh_timer :: "u32 \<Rightarrow> nat \<Rightarrow> u32 \<Rightarrow> timer_type \<Rightarrow> gw_timer" where
  "fresh_timer timeout f d ty =
     \<lparr>tm_interval = unat (gw_milli_to_ticks timeout), tm_remain_interval = unat (gw_milli_to_ticks timeout),
      tm_callback = AppCallback, tm_data = d, tm_app_callback = Some f, tm_timer_type = ty,
      tm_stop_flag = GW_TIMER_NO_STOPPED, tm_queue_id = -1, tm_data_free_func = None\<rparr>"

lemma ticks_pos: "0 < unat (gw_milli_to_ticks timeout)"
  by (simp add: gw_milli_to_ticks_def Let_def unat_gt_0)

lemma add_state:
  assumes "0 < sint timeout" "timers_wf st" "p \<notin> set (ts_timer_list st)" "p \<notin> set (ts_expire_timer_list st)"
  obtains st1 where
    "timer_add_common st (Some p) AppCallback timeout
       (\<lambda>t. t\<lparr>tm_queue_id := -1, tm_app_callback := Some f, tm_data := d, tm_timer_type := ty\<rparr>) = Some (Some p, st1)"
    "timers_wf st1" "ts_heap st1 = (ts_heap st)(p \<mapsto> fresh_timer timeout f d ty)"
    "set (ts_timer_list st1) = insert p (set (ts_timer_list st))" "ts_expire_timer_list st1 = ts_expire_timer_list st"
    "ts_delta st1 = ts_delta st" "ts_calls st1 = ts_calls st" "ts_callback_peek_time st1 = ts_callback_peek_time st"
proof -
  let ?t = "fresh_timer timeout f d ty"
  let ?fill = "\<lambda>t. t\<lparr>tm_queue_id := -1, tm_app_callback := Some f, tm_data := d, tm_timer_type := ty\<rparr>"
  let ?t1 = "\<lparr>tm_interval = tm_interval ?t, tm_remain_interval = tm_interval ?t, tm_callback = AppCallback, tm_data = 0,
              tm_app_callback = None, tm_timer_type = GW_ONCE_TIMER,
              tm_stop_flag = GW_TIMER_NO_STOPPED, tm_queue_id = -1, tm_data_free_func = None\<rparr>"
  let ?s = "set_timer (set_timer st p ?t1) p ?t"
  have eq: "timer_add_common st (Some p) AppCallback timeout ?fill = map_option (\<lambda>(_, s). (Some p, s)) (gw_start_timer ?s (Some p))"
    using assms(1) by (simp add: timer_add_common_def gw_create_timer_def with_timer_def fresh_timer_def)
  obtain st1 where s: "gw_start_timer ?s (Some p) = Some (GW_TIMER_OK, st1)" "ts_callback_peek_time st1 = ts_callback_peek_time st"
    using assms(3,4) by (auto simp: gw_start_timer_def with_timer_def Let_def set_timer_def)
  have a: "timer_add_common st (Some p) AppCallback timeout ?fill = Some (Some p, st1)" by (simp add: eq s(1))
  have w: "timers_wf st1" using add_frame [OF a] assms(2) by (simp add: frame_def)
  show thesis using start_timer_cases [OF s(1)] assms(3)
    by (intro that [OF a w _ _ _ _ _ s(2)]) (auto simp: fresh_timer_def)
qed

lemma fresh_app_timer [simp]:
  "app_timer (fresh_timer timeout f d ty) f"
  "tm_timer_type (fresh_timer timeout f d ty) = ty" "tm_data (fresh_timer timeout f d ty) = d"
  "tm_interval (fresh_timer timeout f d ty) = unat (gw_milli_to_ticks timeout)"
  "tm_remain_interval (fresh_timer timeout f d ty) = unat (gw_milli_to_ticks timeout)"
  "tm_callback (fresh_timer timeout f d ty) = AppCallback"
  "tm_stop_flag (fresh_timer timeout f d ty) = GW_TIMER_NO_STOPPED"
  by (simp_all add: app_timer_def fresh_timer_def)

lemma call_safe_mono: "call_safe C c \<Longrightarrow> (\<And>q. C q \<Longrightarrow> C' q) \<Longrightarrow> call_safe C' c"
  by (cases c) (auto split: option.splits)

text \<open>A new periodic timer does not disturb the conditions for rounds without a fault.\<close>

lemma calm_run_add:
  assumes "calm_run app rs st" "ts_heap st p = None" "ts_heap st1 = (ts_heap st)(p \<mapsto> fresh_timer timeout f d GW_CIRCLE_TIMER)"
    and "set (ts_timer_list st1) = insert p (set (ts_timer_list st))" "ts_expire_timer_list st1 = ts_expire_timer_list st"
    and "ts_callback_peek_time st1 = ts_callback_peek_time st"
  shows "calm_run app rs st1"
proof -
  have o: "is_once st1 q = is_once st q" for q using assms(2,3) by (simp add: is_once_def)
  have c: "is_circle st q \<Longrightarrow> is_circle st1 q" for q using assms(3) by (simp add: is_circle_def)
  have "all_app st1" using assms by (auto simp: calm_run_def all_app_def list_all_iff)
  moreover have "undestroyed st1" using assms(1,3) by (auto simp: calm_run_def undestroyed_def)
  moreover have "list_all (call_safe (is_circle st1)) (app f d)" for f d
    using assms(1) c call_safe_mono unfolding calm_run_def list_all_iff by blast
  ultimately show ?thesis using assms(1,6) by (simp add: calm_run_def o)
qed

definition timers_init :: gw_timers where
  "timers_init = snd (gw_timer_init gw_osal_core_init True (Some 2) 7 0)"

lemma timers_init_fields [simp]:
  "ts_heap timers_init = (\<lambda>_. None)" "ts_timer_list timers_init = []" "ts_expire_timer_list timers_init = []"
  "ts_delta timers_init = 0" "ts_calls timers_init = []" "ts_callback_peek_time timers_init = 0" "timers_wf timers_init"
  by (simp_all add: timers_init_def gw_timer_init_def timers_wf_def split: prod.split)

section \<open>Properties\<close>

text \<open>
  C4. Starting and stopping a timer keep the timer list well formed and sorted by remaining time;
  the scan of a round moves exactly the timers with at most the elapsed ticks plus one to run
  to the expire list, in the order of their remaining time, counts the others down by that
  amount, and keeps their list sorted.
\<close>

theorem timer_list_sorted:
  assumes "timers_wf st" "timers_sorted st"
  shows "(gw_start_timer st (Some p) = Some (r, st') \<longrightarrow> timers_wf st' \<and> timers_sorted st') \<and>
    (gw_stop_timer st (Some p) = Some (r, st') \<longrightarrow> timers_wf st' \<and> timers_sorted st') \<and>
    (\<exists>st2. process_scan (ts_timer_list st) (st\<lparr>ts_expire_timer_list := []\<rparr>) = Some st2 \<and>
       timers_wf st2 \<and> timers_sorted st2 \<and>
       ts_expire_timer_list st2 = filter (\<lambda>q. remain_at st q \<le> unat (ts_delta st) + 1) (ts_timer_list st) \<and>
       sorted (map (remain_at st) (ts_expire_timer_list st2)) \<and>
       (\<forall>q \<in> set (ts_timer_list st2). remain_at st2 q = remain_at st q - unat (ts_delta st) - 1))"
proof (intro conjI impI)
  assume s: "gw_start_timer st (Some p) = Some (r, st')"
  show "timers_wf st'" using start_frame [OF s] assms(1) by (simp add: frame_def)
  show "timers_sorted st'"
  proof (cases "p \<in> set (ts_timer_list st)")
    case True
    then have "ts_timer_list st' = ts_timer_list st" "remain_at st' = remain_at st"
      using start_timer_cases [OF s] by (auto simp: remain_of_def fun_eq_iff)
    then show ?thesis using assms(2) by (simp add: timers_sorted_def)
  next
    case False
    from start_timer_cases [OF s] False obtain t where
      h: "ts_heap st' = (ts_heap st)(p := Some (t\<lparr>tm_stop_flag := GW_TIMER_NO_STOPPED, tm_remain_interval := tm_interval t\<rparr>))"
      "ts_timer_list st' = insert_by_remain (remain_at st') (tm_interval t) p (ts_timer_list st)" by auto
    have "map (remain_at st') (ts_timer_list st) = map (remain_at st) (ts_timer_list st)"
      using False by (intro map_cong) (auto simp: h(1) remain_of_def)
    then have "sorted (map (remain_at st') (ts_timer_list st))" using assms(2) by (simp only: timers_sorted_def)
    then show ?thesis unfolding timers_sorted_def h(2) by (rule sorted_insert_by_remain) (simp add: h(1) remain_of_def)
  qed
next
  assume s: "gw_stop_timer st (Some p) = Some (r, st')"
  show "timers_wf st'" using stop_frame [OF s] assms(1) by (simp add: frame_def)
  have "remain_at st' = remain_at st" "ts_timer_list st' = remove1 p (ts_timer_list st)"
    using stop_timer_cases [OF s] by (auto simp: remain_of_def fun_eq_iff)
  then show "timers_sorted st'"
    using assms sorted_filter [of "remain_at st" "ts_timer_list st" "\<lambda>q. p \<noteq> q"]
    by (simp add: timers_sorted_def timers_wf_def distinct_remove1_removeAll removeAll_filter_not_eq)
next
  have ex: "ts_expire_timer_list (scanned st) = filter (\<lambda>q. remain_at st q \<le> unat (ts_delta st) + 1) (ts_timer_list st)"
    by (simp add: scanned_def runs_on_def not_less)
  have "remain_at (scanned st) q = remain_at st q - unat (ts_delta st) - 1" if "q \<in> set (ts_timer_list (scanned st))" for q
    using that assms(1)
    by (auto simp: scanned_def remain_of_def runs_on_def tick_timer_def tick_remain_val split: option.split)
  then show "\<exists>st2. process_scan (ts_timer_list st) (st\<lparr>ts_expire_timer_list := []\<rparr>) = Some st2 \<and>
       timers_wf st2 \<and> timers_sorted st2 \<and>
       ts_expire_timer_list st2 = filter (\<lambda>q. remain_at st q \<le> unat (ts_delta st) + 1) (ts_timer_list st) \<and>
       sorted (map (remain_at st) (ts_expire_timer_list st2)) \<and>
       (\<forall>q \<in> set (ts_timer_list st2). remain_at st2 q = remain_at st q - unat (ts_delta st) - 1)"
    using scan_round [OF assms(1)] scanned_wf [OF assms(1)] scanned_sorted [OF assms] ex by blast
qed

theorem timer_list_sorted_witness:
  "\<exists>st1 st2. gw_circle_timer_add timers_init (Some 3) 2000 (Some 5) 0 = Some (Some 3, st1) \<and>
     gw_stop_timer st1 (Some 3) = Some (GW_TIMER_OK, st2) \<and> timers_sorted st2"
proof -
  obtain st1 where a: "gw_circle_timer_add timers_init (Some 3) 2000 (Some 5) 0 = Some (Some 3, st1)" "timers_wf st1"
    "ts_heap st1 = [3 \<mapsto> fresh_timer 2000 5 0 GW_CIRCLE_TIMER]" "set (ts_timer_list st1) = {3}"
    using add_state [where timeout = 2000 and st = timers_init and p = 3 and f = 5 and d = 0 and ty = GW_CIRCLE_TIMER] by (auto simp: gw_circle_timer_add_def)
  have "distinct (ts_timer_list st1)" using a(2) by (simp add: timers_wf_def)
  then have "ts_timer_list st1 = [3]" using a(4) by (cases "ts_timer_list st1"; cases "tl (ts_timer_list st1)") auto
  then have "timers_sorted st1" by (simp add: timers_sorted_def)
  moreover obtain st2 where b: "gw_stop_timer st1 (Some 3) = Some (GW_TIMER_OK, st2)"
    using a(3,4) by (auto simp: gw_stop_timer_def with_timer_def)
  ultimately show ?thesis using timer_list_sorted [OF a(2), of 3 GW_TIMER_OK st2] a(1) b by blast
qed

text \<open>
  C6. A periodic timer added with \<^verbatim>\<open>gw_circle_timer_add\<close> at an unused address to a system of
  application timers, whose callbacks may take any time below \<open>2 ^ 32\<close> ticks (those of one-shot
  timers no longer than the longest callback before, since the code reads a one-shot timer
  after it is freed), retime any timer and stop periodic ones, but leave this one alone: the
  rounds of the timer thread run without a fault, whatever time they take, and the new
  timer's callback is called as often as its countdown from \<^verbatim>\<open>timeout/10\<close> ticks wraps - where
  every round takes \<open>e\<close> ticks, once every \<open>rounds_for e n\<close> rounds (\<open>n\<close> ticks at \<open>e + 1\<close> a round),
  so once every \<open>n\<close> rounds that take no time.
\<close>

theorem circle_timer_period:
  assumes "timers_wf st" "calm_run app rs st" "app_avoids p app" "ts_heap st p = None" "0 < sint timeout"
    and "gw_circle_timer_add st (Some p) timeout (Some f) d = Some (h, st1)" "n = unat (gw_milli_to_ticks timeout)"
  shows "\<exists>st'. timer_rounds app rs st1 = Some st' \<and>
    length (fires p st') = length (fires p st) + countdown n n (unat (ts_delta st)) (map round_ticks rs) \<and>
    (\<forall>e. unat (ts_delta st) = e \<and> map round_ticks rs = replicate (length rs) e \<longrightarrow>
       length (fires p st') = length (fires p st) + length rs div rounds_for e n)"
proof -
  have p: "p \<notin> set (ts_timer_list st)" "p \<notin> set (ts_expire_timer_list st)"
    using assms(1,2,4) by (auto simp: timers_wf_def list_all_iff calm_run_def all_app_def)
  from add_state [OF assms(5,1) p, where f = f and d = d and ty = GW_CIRCLE_TIMER] assms(6) have s: "timers_wf st1"
    "ts_heap st1 = (ts_heap st)(p \<mapsto> fresh_timer timeout f d GW_CIRCLE_TIMER)" "p \<in> set (ts_timer_list st1)"
    "set (ts_timer_list st1) = insert p (set (ts_timer_list st))" "ts_expire_timer_list st1 = ts_expire_timer_list st"
    "ts_delta st1 = ts_delta st" "ts_calls st1 = ts_calls st" "ts_callback_peek_time st1 = ts_callback_peek_time st"
    by (auto simp: gw_circle_timer_add_def)
  obtain st' where r: "timer_rounds app rs st1 = Some st'"
    using calm_run_returns [OF s(1) calm_run_add [OF assms(2,4) s(2,4,5,8)]] by blast
  have h: "ts_heap st1 p = Some (fresh_timer timeout f d GW_CIRCLE_TIMER)" by (simp add: s(2))
  have "length (fires p st') = length (fires p st) + countdown n n (unat (ts_delta st)) (map round_ticks rs)"
    using circle_rounds [OF s(1) r assms(3) s(3) h, of f] by (simp add: s(6,7) fires_def assms(7))
  then show ?thesis using r countdown_period [of n] ticks_pos [of timeout] assms(7) by auto
qed

theorem circle_timer_period_witness:
  "\<exists>st0 st1 st'. gw_circle_timer_add timers_init (Some 4) 50 (Some 6) 0 = Some (Some 4, st0) \<and>
     gw_circle_timer_add st0 (Some 3) 2000 (Some 5) 0 = Some (Some 3, st1) \<and>
     timer_rounds (\<lambda>f d. if f = 6 then [TStop (Some 4), TRetiming (Some 9) 7] else [])
       (replicate 600 (\<lambda>_. True, \<lambda>_. 5, 0)) st1 = Some st' \<and> length (fires 3 st') = 3"
proof -
  let ?app = "\<lambda>f d. if f = 6 then [TStop (Some 4), TRetiming (Some 9) 7] else [] :: timer_call list"
  let ?rs = "replicate 600 (\<lambda>_. True, \<lambda>_. 5, 0) :: timer_round list"
  obtain st0 where a: "gw_circle_timer_add timers_init (Some 4) 50 (Some 6) 0 = Some (Some 4, st0)" "timers_wf st0"
    "ts_heap st0 = [4 \<mapsto> fresh_timer 50 6 0 GW_CIRCLE_TIMER]" "set (ts_timer_list st0) = {4}" "ts_expire_timer_list st0 = []"
    "ts_delta st0 = 0" "ts_calls st0 = []"
    using add_state [where timeout = 50 and st = timers_init and p = 4 and f = 6 and d = 0 and ty = GW_CIRCLE_TIMER] by (auto simp: gw_circle_timer_add_def)
  have c: "calm_run ?app ?rs st0" using a
    by (auto simp: calm_run_def all_app_def undestroyed_def is_circle_def is_once_def list_all_iff split: if_splits)
  obtain st1 where b: "gw_circle_timer_add st0 (Some 3) 2000 (Some 5) 0 = Some (Some 3, st1)"
  proof (rule add_state [of 2000 st0 3])
    show "0 < sint (2000 :: u32)" by simp
  qed (use a that in \<open>auto simp: gw_circle_timer_add_def\<close>)
  have n: "(200::nat) = unat (gw_milli_to_ticks 2000)" by (simp add: gw_milli_to_ticks_def Let_def unat_div)
  have "app_avoids 3 ?app" by (simp add: app_avoids_def)
  from circle_timer_period [OF a(2) c this _ _ b n] a(3) obtain st' where
    "timer_rounds ?app ?rs st1 = Some st'" "length (fires 3 st') = length (fires 3 st0) + length ?rs div rounds_for 0 200"
    by (auto simp: a(6) round_ticks_def simp del: replicate.simps replicate_Suc)
  then show ?thesis using a(1) b by (auto simp: rounds_for_def fires_def a(7) simp del: replicate.simps)
qed

text \<open>
  C14. In any run of rounds, whatever time they take and whatever the other timers and callbacks
  do (as long as they leave this timer alone): unless the rounds fault - and they do not where
  \<open>calm_run\<close> holds - a one-shot timer fires at most once, exactly when the number of rounds and
  the ticks spent in them (of which the code keeps 32 bits per round) reach its remaining time,
  and is active until then; a periodic timer fires as often as its countdown wraps.
\<close>

theorem timer_fires_on_time:
  assumes "timers_wf st" "app_avoids p app" "p \<in> set (ts_timer_list st)" "ts_heap st p = Some t"
    and "app_timer t f" "0 < tm_remain_interval t" "rs \<noteq> []"
    and spent: "spent = unat (ts_delta st) + sum_list (map round_ticks (butlast rs)) + length rs"
  shows "(calm_run app rs st \<longrightarrow> (\<exists>st'. timer_rounds app rs st = Some st')) \<and>
   (\<forall>st'. timer_rounds app rs st = Some st' \<longrightarrow>
     (if tm_timer_type t = GW_ONCE_TIMER
      then fires p st' = (if tm_remain_interval t \<le> spent then [(p, f, tm_data t)] else []) @ fires p st \<and>
           (p \<in> set (ts_timer_list st') \<longleftrightarrow> tm_remain_interval t > spent)
      else length (fires p st') = length (fires p st) +
             countdown (tm_interval t) (tm_remain_interval t) (unat (ts_delta st)) (map round_ticks rs) \<and>
           p \<in> set (ts_timer_list st')))"
proof (intro conjI impI allI)
  show "calm_run app rs st \<Longrightarrow> \<exists>st'. timer_rounds app rs st = Some st'" by (rule calm_run_returns [OF assms(1)])
next
  fix st' assume r: "timer_rounds app rs st = Some st'"
  show "if tm_timer_type t = GW_ONCE_TIMER
      then fires p st' = (if tm_remain_interval t \<le> spent then [(p, f, tm_data t)] else []) @ fires p st \<and>
           (p \<in> set (ts_timer_list st') \<longleftrightarrow> tm_remain_interval t > spent)
      else length (fires p st') = length (fires p st) +
             countdown (tm_interval t) (tm_remain_interval t) (unat (ts_delta st)) (map round_ticks rs) \<and>
           p \<in> set (ts_timer_list st')"
  proof (cases "tm_timer_type t = GW_ONCE_TIMER")
    case True
    then show ?thesis
      using once_rounds [OF assms(1) r assms(2-5) True] fires_once_sum [OF assms(6), of "map round_ticks rs" "unat (ts_delta st)"] assms(7)
      by (auto simp: spent map_butlast)
  next
    case False
    then show ?thesis using circle_rounds [OF assms(1) r assms(2-5)] by (simp add: once_or_circle)
  qed
qed

text \<open>A periodic timer of 30 ms with slow callbacks and a one-shot timer of 30 ms, in four rounds.\<close>

theorem timer_fires_on_time_witness:
  "\<exists>st1 st2 st'. gw_circle_timer_add timers_init (Some 3) 30 (Some 5) 0 = Some (Some 3, st1) \<and>
     gw_timer_add st1 (Some 4) 30 (Some 6) 9 = Some (Some 4, st2) \<and>
     timer_rounds quiet (map (\<lambda>e. (\<lambda>_. True, \<lambda>q. if q = 3 then 2 else 0, e)) [1, 0, 2, 0]) st2 = Some st' \<and>
     length (fires 3 st') = 2 \<and> fires 4 st' = [(4, 6, 9)] \<and> 4 \<notin> set (ts_timer_list st')"
proof -
  let ?rs = "map (\<lambda>e. (\<lambda>_. True, \<lambda>q. if q = 3 then 2 else 0, e)) [1, 0, 2, 0] :: timer_round list"
  obtain st1 where a: "gw_circle_timer_add timers_init (Some 3) 30 (Some 5) 0 = Some (Some 3, st1)" "timers_wf st1"
    "ts_heap st1 = [3 \<mapsto> fresh_timer 30 5 0 GW_CIRCLE_TIMER]" "set (ts_timer_list st1) = {3}" "ts_expire_timer_list st1 = []"
    "ts_delta st1 = 0" "ts_calls st1 = []" "ts_callback_peek_time st1 = 0"
    using add_state [where timeout = 30 and st = timers_init and p = 3 and f = 5 and d = 0 and ty = GW_CIRCLE_TIMER] by (auto simp: gw_circle_timer_add_def)
  obtain st2 where b: "gw_timer_add st1 (Some 4) 30 (Some 6) 9 = Some (Some 4, st2)" "timers_wf st2"
    "ts_heap st2 = [3 \<mapsto> fresh_timer 30 5 0 GW_CIRCLE_TIMER, 4 \<mapsto> fresh_timer 30 6 9 GW_ONCE_TIMER]"
    "set (ts_timer_list st2) = {4, 3}" "ts_expire_timer_list st2 = []" "ts_delta st2 = 0" "ts_calls st2 = []" "ts_callback_peek_time st2 = 0"
    using add_state [where timeout = 30 and st = st1 and p = 4 and f = 6 and d = 9 and ty = GW_ONCE_TIMER] a by (auto simp: gw_timer_add_def)
  have c: "calm_run quiet ?rs st2" using b
    by (auto simp: calm_run_def all_app_def undestroyed_def is_once_def list_all_iff split: if_splits)
  have n: "unat (gw_milli_to_ticks 30) = 3" by (simp add: gw_milli_to_ticks_def Let_def unat_div)
  have h: "ts_heap st2 4 = Some (fresh_timer 30 6 9 GW_ONCE_TIMER)" "ts_heap st2 3 = Some (fresh_timer 30 5 0 GW_CIRCLE_TIMER)"
    by (simp_all add: b(3))
  have "4 \<in> set (ts_timer_list st2)" "3 \<in> set (ts_timer_list st2)" by (simp_all add: b(4))
  note q = this
  from timer_fires_on_time [OF b(2) quiet_avoids q(1) h(1) fresh_app_timer(1) _ _ refl, of ?rs] c obtain st' where
    r: "timer_rounds quiet ?rs st2 = Some st'" "fires 4 st' = [(4, 6, 9)]" "4 \<notin> set (ts_timer_list st')"
    by (auto simp: n b(6,7) round_ticks_def fires_def)
  moreover have "length (fires 3 st') = 2"
    using timer_fires_on_time [OF b(2) quiet_avoids q(2) h(2) fresh_app_timer(1) _ _ refl, of ?rs] r(1)
    by (auto simp: n b(6,7) round_ticks_def fires_def)
  ultimately show ?thesis using a(1) b(1) by blast
qed

text \<open>
  Stopping a periodic timer from its own callback has no effect: when the callback returns,
  the timer is started again and its stop flag is cleared.
\<close>

theorem stop_in_own_callback_lost:
  assumes "ts_heap st p = Some t" "app_timer t f" "tm_timer_type t = GW_CIRCLE_TIMER"
    and "app f (tm_data t) = [TStop (Some p)]"
    and "p \<notin> set (ts_timer_list st)" "p \<notin> set (ts_expire_timer_list st)"
  shows "\<exists>st' t'. gw_timer_app_callback app st p = Some st' \<and> p \<in> set (ts_timer_list st') \<and>
    ts_heap st' p = Some t' \<and> tm_stop_flag t' = GW_TIMER_NO_STOPPED"
  using assms
  by (simp add: gw_timer_app_callback_def app_timer_def call_app_def gw_timer_stop_def gw_stop_timer_def
      with_timer_def Let_def finish_timer_def gw_start_timer_def)

theorem stop_in_own_callback_lost_witness:
  "\<exists>st' t'. gw_timer_app_callback (\<lambda>_ _. [TStop (Some 3)])
     (timers_init\<lparr>ts_heap := [3 \<mapsto>
        \<lparr>tm_interval = 4, tm_remain_interval = 0, tm_callback = AppCallback, tm_data = 0, tm_app_callback = Some 5,
         tm_timer_type = GW_CIRCLE_TIMER, tm_stop_flag = GW_TIMER_NO_STOPPED, tm_queue_id = -1,
         tm_data_free_func = None\<rparr>], ts_timer_list := [], ts_expire_timer_list := []\<rparr>) 3 = Some st' \<and>
     3 \<in> set (ts_timer_list st') \<and> ts_heap st' 3 = Some t' \<and> tm_stop_flag t' = GW_TIMER_NO_STOPPED"
  by (rule stop_in_own_callback_lost [where f = 5 and t = "\<lparr>tm_interval = 4, tm_remain_interval = 0,
      tm_callback = AppCallback, tm_data = 0, tm_app_callback = Some 5, tm_timer_type = GW_CIRCLE_TIMER,
      tm_stop_flag = GW_TIMER_NO_STOPPED, tm_queue_id = -1, tm_data_free_func = None\<rparr>"])
    (simp_all add: app_timer_def)

text \<open>
  The type of a one-shot timer is read after its callback has freed it whenever the callback is
  the slowest so far.
\<close>

lemma slow_once_callback_faults:
  assumes "ts_heap st p = Some t" "app_timer t f" "tm_timer_type t = GW_ONCE_TIMER"
    and "p \<notin> set (ts_timer_list st)" "ucast (ts_callback_peek_time st) < took"
  shows "run_expired quiet sent took st p = None"
  using assms
  by (simp add: run_expired_def gw_timer_app_callback_def app_timer_def call_app_def Let_def finish_timer_def
      gw_destroy_timer_def with_timer_def set_timer_def)

end
