(* ===== verification/Oam_Msg.thy ===== *)
theory Oam_Msg
  imports Gw_Timer
begin

text \<open>
  The OAM message layer of \<^verbatim>\<open>apps/oam.c\<close>: the list of messages under reassembly, the receive
  function that collects fragments, the send function that cuts a message into frames, and the
  dispatch of a complete message. A NULL dereference, a use of freed memory and a copy beyond a
  buffer are faults, the value \<open>None\<close>.
\<close>

section \<open>Frames\<close>

text \<open>
  \<^verbatim>\<open>GWTT_OAM_HEADER\<close> with the values of its fields as the CPU loads them, and the bytes that
  follow it. \<^verbatim>\<open>__BIG_ENDIAN__\<close> is defined, so \<^verbatim>\<open>ntohs\<close> is the identity of \<^verbatim>\<open>gw_types.h\<close>,
  while \<^verbatim>\<open>gwd_htons\<close> swaps the bytes.
\<close>

record oam_frame =
  fr_oui :: "u8 list"
  fr_opCode :: u8
  fr_senderSerNo :: u32
  fr_wholePktLen :: u16
  fr_payloadOffset :: u16
  fr_payLoadLength :: u16
  fr_sessionId :: "u8 list"
  fr_payload :: "u8 list"

definition GwOUI :: "u8 list" where "GwOUI = [0x00, 0x0f, 0xe9]"
definition sizeof_GWTT_OAM_HEADER :: nat where "sizeof_GWTT_OAM_HEADER = 40"
definition OAM_DATA_LEN :: nat where "OAM_DATA_LEN = 65535"
definition WAIT_TIME_FOR_OAM_MESSAGE :: u32 where "WAIT_TIME_FOR_OAM_MESSAGE = 200"

definition ntohs :: "u16 \<Rightarrow> u16" where "ntohs x = x"

definition gwd_htons :: "u16 \<Rightarrow> u16" where
  "gwd_htons x = (push_bit 8 (x AND 0x00ff) OR drop_bit 8 (x AND 0xff00))"

section \<open>Results\<close>

datatype oam_result =
    OAM_MESSAGE_RECEV_OK | OAM_MESSAGE_RECEV_ERR | OAM_MESSAGE_RECEV_NOT_COMPLETE
  | OAM_MESSAGE_RECEV_TOO_LONG | OAM_MESSAGE_RECEV_NO_MEM | OAM_MESSAGE_RECEV_OPCODE_OK
  | OAM_MESSAGE_RECEV_OPCODE_ERR | OAM_MESSAGE_SEND_OPCODE_OK | OAM_MESSAGE_SEND_OPCODE_ERR
  | OAM_MESSAGE_RECEV_TIMER_ERR | OAM_MESSAGE_SEND_ERROR | OAM_MESSAGE_SEND_OK

definition EQU_DEVICE_INFO_REQ :: u8 where "EQU_DEVICE_INFO_REQ = 1"
definition EQU_DEVICE_INFO_RESP :: u8 where "EQU_DEVICE_INFO_RESP = 2"
definition ALARM_REQ :: u8 where "ALARM_REQ = 3"
definition ALARM_RESP :: u8 where "ALARM_RESP = 4"
definition FILE_READ_WRITE_REQ :: u8 where "FILE_READ_WRITE_REQ = 5"
definition FILE_TRANSFER_DATA :: u8 where "FILE_TRANSFER_DATA = 7"
definition FILE_TRANSFER_ACK :: u8 where "FILE_TRANSFER_ACK = 8"
definition SNMP_TRAN_REQ :: u8 where "SNMP_TRAN_REQ = 0x0b"
definition SNMP_TRAN_RESP :: u8 where "SNMP_TRAN_RESP = 0x0c"
definition SNMP_TRAN_TRAP :: u8 where "SNMP_TRAN_TRAP = 0x0d"
definition CLI_REQ_TRANSMIT :: u8 where "CLI_REQ_TRANSMIT = 0x10"
definition CLI_RESP_TRANSMIT :: u8 where "CLI_RESP_TRANSMIT = 0x11"
definition IGMP_AUTH_TRAN_REQ :: u8 where "IGMP_AUTH_TRAN_REQ = 0x12"
definition IGMP_AUTH_TRAN_RESP :: u8 where "IGMP_AUTH_TRAN_RESP = 0x13"
definition CLI_PTY_TRANSMIT :: u8 where "CLI_PTY_TRANSMIT = 0x14"
definition IGMP_TVM_REQ :: u8 where "IGMP_TVM_REQ = 0x16"
definition IGMP_TVM_RESP :: u8 where "IGMP_TVM_RESP = 0x17"

lemmas oam_opcodes = EQU_DEVICE_INFO_REQ_def EQU_DEVICE_INFO_RESP_def ALARM_REQ_def ALARM_RESP_def
  FILE_READ_WRITE_REQ_def FILE_TRANSFER_DATA_def FILE_TRANSFER_ACK_def SNMP_TRAN_REQ_def
  SNMP_TRAN_RESP_def SNMP_TRAN_TRAP_def CLI_REQ_TRANSMIT_def CLI_RESP_TRANSMIT_def
  IGMP_AUTH_TRAN_REQ_def IGMP_AUTH_TRAN_RESP_def CLI_PTY_TRANSMIT_def IGMP_TVM_REQ_def IGMP_TVM_RESP_def

definition GwOamRecevOpcodeCheck :: "u8 \<Rightarrow> oam_result" where
  "GwOamRecevOpcodeCheck GwOpcode =
     (if GwOpcode \<in> {EQU_DEVICE_INFO_REQ, ALARM_RESP, FILE_READ_WRITE_REQ, FILE_TRANSFER_DATA,
          FILE_TRANSFER_ACK, SNMP_TRAN_REQ, CLI_REQ_TRANSMIT, IGMP_AUTH_TRAN_REQ,
          IGMP_AUTH_TRAN_RESP, CLI_PTY_TRANSMIT, IGMP_TVM_REQ, IGMP_TVM_RESP}
      then OAM_MESSAGE_RECEV_OPCODE_OK else OAM_MESSAGE_RECEV_OPCODE_ERR)"

definition GwOamSendOpcodeCheck :: "u8 \<Rightarrow> oam_result" where
  "GwOamSendOpcodeCheck GwOpcode =
     (if GwOpcode \<in> {EQU_DEVICE_INFO_RESP, ALARM_REQ, FILE_READ_WRITE_REQ, FILE_TRANSFER_DATA,
          FILE_TRANSFER_ACK, SNMP_TRAN_RESP, SNMP_TRAN_TRAP, CLI_RESP_TRANSMIT, IGMP_AUTH_TRAN_REQ,
          IGMP_AUTH_TRAN_RESP, CLI_PTY_TRANSMIT, IGMP_TVM_REQ, IGMP_TVM_RESP}
      then OAM_MESSAGE_RECEV_OPCODE_OK else OAM_MESSAGE_RECEV_OPCODE_ERR)"

section \<open>The message list\<close>

record oam_node =
  on_GwOpcode :: u8
  on_SendSerNo :: u32
  on_WholePktLen :: u16
  on_RevPktLen :: u16
  on_SessionID :: "u8 list"
  on_TimerID :: "addr option"
  on_pPayLoad :: "u8 list option"

text \<open>
  \<open>om_heap\<close>: the nodes; \<open>om_list\<close>: the chain behind \<^verbatim>\<open>GwOamMessageListHead\<close>; \<open>om_timers\<close>: the
  timer service.
\<close>

record oam_state =
  om_heap :: "addr \<Rightarrow> oam_node option"
  om_list :: "addr list"
  om_timers :: gw_timers

definition om_serno :: "oam_state \<Rightarrow> addr \<Rightarrow> u32 option" where
  "om_serno st p = map_option on_SendSerNo (om_heap st p)"

definition GwOamMessageListGetNode :: "oam_state \<Rightarrow> u32 \<Rightarrow> addr option" where
  "GwOamMessageListGetNode st SerNo = List.find (\<lambda>p. om_serno st p = Some SerNo) (om_list st)"

text \<open>\<open>node\<close>, \<open>buf\<close>: the results of the two \<^verbatim>\<open>malloc\<close> calls.\<close>

definition GwOamMessageListNodeNew :: "addr option \<Rightarrow> bool \<Rightarrow> u16 \<Rightarrow> (addr \<times> oam_node) option" where
  "GwOamMessageListNodeNew node buf MessLen =
     (case node of
        None \<Rightarrow> None
      | Some p \<Rightarrow>
          if MessLen \<noteq> 0 \<and> \<not> buf then None
          else Some (p, \<lparr>on_GwOpcode = 0, on_SendSerNo = 0, on_WholePktLen = 0, on_RevPktLen = 0,
                         on_SessionID = replicate 8 0, on_TimerID = None,
                         on_pPayLoad = (if MessLen \<noteq> 0 then Some (replicate (unat MessLen + 1) 0) else None)\<rparr>))"

definition GwOamMessageListNodeRem :: "oam_state \<Rightarrow> addr \<Rightarrow> int \<times> oam_state" where
  "GwOamMessageListNodeRem st p =
     (if p \<in> set (om_list st) then (0, st\<lparr>om_list := remove1 p (om_list st)\<rparr>) else (-1, st))"

definition GwOamMessageListNodeFree :: "oam_state \<Rightarrow> addr option \<Rightarrow> oam_state" where
  "GwOamMessageListNodeFree st pNode =
     (case pNode of
        None \<Rightarrow> st
      | Some p \<Rightarrow> let st1 = snd (GwOamMessageListNodeRem st p) in st1\<lparr>om_heap := (om_heap st1)(p := None)\<rparr>)"

definition GwOamMessageListNodeAdd :: "oam_state \<Rightarrow> addr \<Rightarrow> oam_node \<Rightarrow> oam_state" where
  "GwOamMessageListNodeAdd st p n =
     st\<lparr>om_heap := (om_heap st)(p := Some n), om_list := p # om_list st\<rparr>"

text \<open>A copy of the first \<open>len\<close> bytes of \<open>src\<close> to an offset of a buffer.\<close>

definition copy_to :: "u8 list option \<Rightarrow> nat \<Rightarrow> u8 list \<Rightarrow> nat \<Rightarrow> u8 list option option" where
  "copy_to buf off src len =
     (if len = 0 then Some buf
      else case buf of
        None \<Rightarrow> None
      | Some b \<Rightarrow> if off + len > length b \<or> len > length src then None
                  else Some (Some (take off b @ take len src @ drop (off + len) b)))"

text \<open>
  \<^verbatim>\<open>gw_timer_add(..., OamMessageRecevTimeOut, &pMessageNode->SendSerNo)\<close>; the callback is
  function 1, its data the address of the node.
\<close>

definition oam_timer_add :: "gw_timers \<Rightarrow> addr option \<Rightarrow> addr \<Rightarrow> (addr option \<times> gw_timers) option" where
  "oam_timer_add ts a p = gw_timer_add ts a WAIT_TIME_FOR_OAM_MESSAGE (Some 1) (of_nat p)"

section \<open>Receiving\<close>

text \<open>
  The first fragment of a message (\<^verbatim>\<open>PayLoadOffset\<close> 0). \<open>ta\<close>: the address \<^verbatim>\<open>malloc\<close> gives a
  new timer. The results are the return value, the message handed out and the new state.
\<close>

definition recv_first ::
  "addr option \<Rightarrow> bool \<Rightarrow> addr option \<Rightarrow> oam_state \<Rightarrow> oam_frame \<Rightarrow>
   (oam_result \<times> addr option \<times> oam_state) option" where
  "recv_first node buf ta st f =
     (let WholePktLen = ntohs (fr_wholePktLen f); PayloadLength = ntohs (fr_payLoadLength f) in
      if GwOamMessageListGetNode st (fr_senderSerNo f) \<noteq> None
      then Some (OAM_MESSAGE_RECEV_ERR, None, st)
      else case GwOamMessageListNodeNew node buf WholePktLen of
        None \<Rightarrow> Some (OAM_MESSAGE_RECEV_NO_MEM, None, st)
      | Some (p, n0) \<Rightarrow>
          (case copy_to (on_pPayLoad n0) 0 (fr_payload f) (unat PayloadLength) of
             None \<Rightarrow> None
           | Some pl \<Rightarrow>
               let n = n0\<lparr>on_GwOpcode := fr_opCode f, on_RevPktLen := PayloadLength,
                          on_WholePktLen := WholePktLen, on_SendSerNo := fr_senderSerNo f,
                          on_SessionID := take 8 (fr_sessionId f), on_pPayLoad := pl\<rparr>;
                   st1 = GwOamMessageListNodeAdd st p n
               in if WholePktLen = PayloadLength then Some (OAM_MESSAGE_RECEV_OK, Some p, st1)
                  else (case oam_timer_add (om_timers st1) ta p of
                          None \<Rightarrow> None
                        | Some (h, ts) \<Rightarrow>
                            Some (OAM_MESSAGE_RECEV_ERR, None,
                              st1\<lparr>om_timers := ts, om_heap := (om_heap st1)(p := Some (n\<lparr>on_TimerID := h\<rparr>))\<rparr>))))"

text \<open>A later fragment. The timer created for the next one is not recorded in the node.\<close>

definition recv_next ::
  "addr option \<Rightarrow> oam_state \<Rightarrow> oam_frame \<Rightarrow> (oam_result \<times> addr option \<times> oam_state) option" where
  "recv_next ta st f =
     (let PayLoadOffset = ntohs (fr_payloadOffset f); PayloadLength = ntohs (fr_payLoadLength f) in
      case GwOamMessageListGetNode st (fr_senderSerNo f) of
        None \<Rightarrow> Some (OAM_MESSAGE_RECEV_ERR, None, st)
      | Some p \<Rightarrow>
          (case om_heap st p of
             None \<Rightarrow> None
           | Some n \<Rightarrow>
               if unat (on_RevPktLen n) + unat PayloadLength > unat (on_WholePktLen n) \<or>
                  on_RevPktLen n \<noteq> PayLoadOffset
               then Some (OAM_MESSAGE_RECEV_ERR, None, st)
               else (case gw_timer_del (om_timers st) (on_TimerID n) of
                       None \<Rightarrow> None
                     | Some (_, ts) \<Rightarrow>
                         if unat (on_RevPktLen n) + unat PayloadLength = unat (on_WholePktLen n)
                         then (case copy_to (on_pPayLoad n) (unat (on_RevPktLen n)) (fr_payload f) (unat PayloadLength) of
                                 None \<Rightarrow> None
                               | Some pl \<Rightarrow>
                                   Some (OAM_MESSAGE_RECEV_OK, Some p,
                                     st\<lparr>om_timers := ts, om_heap := (om_heap st)
                                          (p := Some (n\<lparr>on_pPayLoad := pl, on_RevPktLen := on_WholePktLen n\<rparr>))\<rparr>))
                         else (case oam_timer_add ts ta p of
                                 None \<Rightarrow> None
                               | Some (_, ts2) \<Rightarrow>
                                   (case copy_to (on_pPayLoad n) (unat (on_RevPktLen n)) (fr_payload f) (unat PayloadLength) of
                                      None \<Rightarrow> None
                                    | Some pl \<Rightarrow>
                                        Some (OAM_MESSAGE_RECEV_NOT_COMPLETE, None,
                                          st\<lparr>om_timers := ts2, om_heap := (om_heap st)
                                            (p := Some (n\<lparr>on_pPayLoad := pl,
                                               on_RevPktLen := on_RevPktLen n + PayloadLength\<rparr>))\<rparr>))))))"

definition CommOnuMsgReveive ::
  "addr option \<Rightarrow> bool \<Rightarrow> addr option \<Rightarrow> oam_state \<Rightarrow> oam_frame \<Rightarrow>
   (oam_result \<times> addr option \<times> oam_state) option" where
  "CommOnuMsgReveive node buf ta st f =
     (if fr_oui f \<noteq> GwOUI then Some (OAM_MESSAGE_RECEV_ERR, None, st)
      else if GwOamRecevOpcodeCheck (fr_opCode f) = OAM_MESSAGE_RECEV_OPCODE_ERR
      then Some (OAM_MESSAGE_RECEV_OPCODE_ERR, None, st)
      else if OAM_DATA_LEN < unat (ntohs (fr_wholePktLen f))
      then Some (OAM_MESSAGE_RECEV_TOO_LONG, None, st)
      else if ntohs (fr_payloadOffset f) = 0 then recv_first node buf ta st f
      else recv_next ta st f)"

text \<open>\<^verbatim>\<open>OamMessageRecevTimeOut\<close>: its data points into a node.\<close>

definition OamMessageRecevTimeOut :: "oam_state \<Rightarrow> addr \<Rightarrow> oam_state option" where
  "OamMessageRecevTimeOut st data =
     (case om_serno st data of
        None \<Rightarrow> None
      | Some SerNo \<Rightarrow> Some (GwOamMessageListNodeFree st (GwOamMessageListGetNode st SerNo)))"

section \<open>Sending\<close>

text \<open>
  \<open>hdr_ok\<close>: the header builder of the interface library delivered a header. A frame is sent
  with its total length.
\<close>

definition GwCommOamHeadBuild :: "u8 \<Rightarrow> u32 \<Rightarrow> u16 \<Rightarrow> u8 list option \<Rightarrow> oam_frame option" where
  "GwCommOamHeadBuild GwOpcode SendSerNo SendDataSize pSessionIdfield =
     (case pSessionIdfield of
        None \<Rightarrow> None
      | Some sid \<Rightarrow>
          if GwOamSendOpcodeCheck GwOpcode = OAM_MESSAGE_RECEV_OPCODE_ERR then None
          else Some \<lparr>fr_oui = [0x00, 0x0F, 0xE9], fr_opCode = GwOpcode, fr_senderSerNo = SendSerNo,
                     fr_wholePktLen = gwd_htons SendDataSize, fr_payloadOffset = 0,
                     fr_payLoadLength = 0, fr_sessionId = take 8 sid, fr_payload = []\<rparr>)"

definition usOAMPayloadLenGW :: nat where "usOAMPayloadLenGW = 128 - 22 - 22"

definition data_frame :: "oam_frame \<Rightarrow> u8 list \<Rightarrow> nat \<Rightarrow> nat \<Rightarrow> oam_frame \<times> nat" where
  "data_frame h data off len =
     (h\<lparr>fr_payLoadLength := gwd_htons (of_nat len), fr_payloadOffset := gwd_htons (of_nat off),
        fr_payload := take len (drop off data)\<rparr>, len + sizeof_GWTT_OAM_HEADER)"

function send_loop :: "oam_frame \<Rightarrow> u8 list \<Rightarrow> nat \<Rightarrow> (oam_frame \<times> nat) list" where
  "send_loop h data DataLenSended =
     (if usOAMPayloadLenGW + DataLenSended < length data
      then data_frame h data DataLenSended usOAMPayloadLenGW #
           send_loop h data (DataLenSended + usOAMPayloadLenGW)
      else [data_frame h data DataLenSended (length data - DataLenSended)])"
  by pat_completeness auto

termination send_loop
  by (relation "measure (\<lambda>(h, data, n). length data - n)") (auto simp: usOAMPayloadLenGW_def)

declare send_loop.simps [simp del]

definition CommOnuMsgSend ::
  "u8 \<Rightarrow> u32 \<Rightarrow> u8 list \<Rightarrow> u8 list option \<Rightarrow> int \<times> (oam_frame \<times> nat) list" where
  "CommOnuMsgSend GwOpcode SendSerNo data pSessionIdfield =
     (if length data > OAM_DATA_LEN - sizeof_GWTT_OAM_HEADER then (-1, [])
      else case GwCommOamHeadBuild GwOpcode SendSerNo (of_nat (length data)) pSessionIdfield of
        None \<Rightarrow> (10, [])
      | Some h \<Rightarrow>
          if usOAMPayloadLenGW < length data then (0, send_loop h data 0)
          else (0, [(h\<lparr>fr_payLoadLength := gwd_htons (of_nat (length data)), fr_payloadOffset := 0,
                       fr_payload := data\<rparr>, sizeof_GWTT_OAM_HEADER + length data)]))"

section \<open>Dispatch\<close>

text \<open>What is done with a complete message before its node is freed.\<close>

datatype oam_action =
    InformationRequest addr | AlarmResponse addr | AsyncTrans addr | PtyTrans addr | SnmpHandle addr | DropUnknown addr

definition oam_action_of :: "u8 \<Rightarrow> addr \<Rightarrow> oam_action" where
  "oam_action_of opcode p =
     (if opcode = EQU_DEVICE_INFO_REQ then InformationRequest p
      else if opcode = ALARM_RESP then AlarmResponse p
      else if opcode = CLI_REQ_TRANSMIT then AsyncTrans p
      else if opcode = CLI_PTY_TRANSMIT then PtyTrans p
      else if opcode = SNMP_TRAN_REQ then SnmpHandle p
      else DropUnknown p)"

text \<open>\<open>len\<close>: the length of the frame. The asynchronous CLI keeps the node, which it frees later.\<close>

definition Gwd_Oam_Handle ::
  "addr option \<Rightarrow> bool \<Rightarrow> addr option \<Rightarrow> oam_state \<Rightarrow> nat \<Rightarrow> oam_frame \<Rightarrow> nat \<Rightarrow>
   (oam_action option \<times> oam_state) option" where
  "Gwd_Oam_Handle node buf ta st port f len =
     (if port = 0 \<or> len < sizeof_GWTT_OAM_HEADER then Some (None, st)
      else case CommOnuMsgReveive node buf ta st f of
        None \<Rightarrow> None
      | Some (r, msg, st1) \<Rightarrow>
          (case msg of
             None \<Rightarrow> Some (None, st1)
           | Some p \<Rightarrow>
               if r \<noteq> OAM_MESSAGE_RECEV_OK then Some (None, st1)
               else (case om_heap st1 p of
                       None \<Rightarrow> None
                     | Some n \<Rightarrow>
                         let act = oam_action_of (on_GwOpcode n) p
                         in if on_GwOpcode n = CLI_REQ_TRANSMIT then Some (Some act, st1)
                            else Some (Some act, GwOamMessageListNodeFree st1 (Some p)))))"

section \<open>The OLT a frame comes from\<close>

datatype gwd_olt_type = GWD_OLT_NONE | GWD_OLT_GFA6100 | GWD_OLT_GFA6700 | GWD_OLT_GFA6900 | GWD_OLT_NOMATCH

definition gwPonMac :: "u8 list" where "gwPonMac = [0x00, 0x0c, 0xd5, 0x00, 0x01, 0x00]"

definition GwGetOltType :: "u8 list \<Rightarrow> gwd_olt_type" where
  "GwGetOltType mac =
     (if take 5 mac = take 5 gwPonMac
      then if mac ! 5 = 0x0 \<or> mac ! 5 = 0x10 \<or> mac ! 5 = 0x20 \<or> mac ! 5 = 0x30 then GWD_OLT_GFA6100
           else if mac ! 5 \<ge> 0xec then GWD_OLT_GFA6700 else GWD_OLT_NOMATCH
      else if take 3 mac = take 3 gwPonMac
      then if mac ! 3 = 0x61 then GWD_OLT_GFA6100
           else if mac ! 3 = 0x67 then GWD_OLT_GFA6700
           else if mac ! 3 = 0x69 then GWD_OLT_GFA6900 else GWD_OLT_NOMATCH
      else GWD_OLT_NONE)"

text \<open>The status and the slot and port stored, if any.\<close>

definition GwGetPonSlotPort :: "u8 list \<Rightarrow> gwd_olt_type \<Rightarrow> int \<times> (u32 \<times> u32) option" where
  "GwGetPonSlotPort mac type =
     (let ponMac = mac ! 5 in
      if take 5 mac = take 5 gwPonMac
      then (case type of
              GWD_OLT_GFA6100 \<Rightarrow>
                if ponMac = 0 then (0, Some (2, 1))
                else if ponMac = 0x10 then (0, Some (2, 2))
                else if ponMac = 0x20 then (0, Some (3, 1))
                else if ponMac = 0x30 then (0, Some (3, 2))
                else (-1, None)
            | GWD_OLT_GFA6700 \<Rightarrow>
                (0, Some (drop_bit 2 (ucast (ponMac AND 0x1c)) + 1, ucast (ponMac AND 0x3) + 1))
            | _ \<Rightarrow> (-1, Some (0xff, 0xff)))
      else if take 3 mac = take 3 gwPonMac then (0, Some (ucast (mac ! 4), ucast (mac ! 5)))
      else (-1, None))"

section \<open>Lemmas on sending\<close>

lemma gwd_htons_alt: "gwd_htons x = (push_bit 8 (x AND mask 8) OR drop_bit 8 (x AND push_bit 8 (mask 8)))"
  by (simp add: gwd_htons_def push_bit_eq_mult mask_eq_exp_minus_1)

lemma gwd_htons_invol [simp]: "gwd_htons (gwd_htons x) = x"
proof (rule bit_word_eqI)
  fix n assume "n < LENGTH(16)"
  then have "n < 8 \<or> (8 \<le> n \<and> n < 16)" by auto
  then show "bit (gwd_htons (gwd_htons x)) n = bit x n"
    by (auto simp: gwd_htons_alt bit_simps)
qed

lemma gwd_htons_0 [simp]: "gwd_htons 0 = 0"
  by (simp add: gwd_htons_def)

lemma unat_of_nat_u16: "n < 65536 \<Longrightarrow> unat (of_nat n :: u16) = n"
  by (simp add: unat_of_nat)

lemma unat_u16_less: "unat (w :: u16) < 65536"
  using unsigned_less [of w] by simp

text \<open>Frame \<open>i\<close> of a message: at most 84 bytes from offset \<open>84 * i\<close> on.\<close>

definition frag :: "u8 list \<Rightarrow> nat \<Rightarrow> u8 list" where
  "frag data i = take usOAMPayloadLenGW (drop (i * usOAMPayloadLenGW) data)"

definition frag_count :: "nat \<Rightarrow> nat" where
  "frag_count n = max 1 ((n + (usOAMPayloadLenGW - 1)) div usOAMPayloadLenGW)"

lemma payload_len [simp]: "usOAMPayloadLenGW = 84"
  by (simp add: usOAMPayloadLenGW_def)

definition frag_frame :: "oam_frame \<Rightarrow> u8 list \<Rightarrow> nat \<Rightarrow> oam_frame \<times> nat" where
  "frag_frame h data i = data_frame h data (84 * i) (length (frag data i))"

lemma take_length_take [simp]: "take (length (take n xs)) xs = take n xs"
  by (simp add: min_def)

lemma frag_frame_fst: "fst (frag_frame h data i) = h\<lparr>fr_payLoadLength := gwd_htons (of_nat (length (frag data i))),
     fr_payloadOffset := gwd_htons (of_nat (84 * i)), fr_payload := frag data i\<rparr>"
  unfolding frag_frame_def data_frame_def frag_def payload_len mult.commute [of i] take_length_take by simp

lemma frag_frame_snd: "snd (frag_frame h data i) = 40 + length (frag data i)"
  by (simp add: frag_frame_def data_frame_def sizeof_GWTT_OAM_HEADER_def)

lemma send_loop_frames:
  assumes "84 * i < length data \<or> i = 0 \<and> data = []"
  shows "send_loop h data (84 * i) = map (frag_frame h data) [i..<frag_count (length data)]"
  using assms
proof (induction "length data - 84 * i" arbitrary: i rule: less_induct)
  case less
  show ?case
  proof (cases "84 + 84 * i < length data")
    case True
    then have "send_loop h data (84 * Suc i) = map (frag_frame h data) [Suc i..<frag_count (length data)]"
      by (intro less.hyps) auto
    moreover have "i < frag_count (length data)" using True by (simp add: frag_count_def less_max_iff_disj)
    moreover have "length (frag data i) = 84" using True by (simp add: frag_def mult.commute)
    ultimately show ?thesis using True
      by (subst send_loop.simps) (simp add: upt_conv_Cons frag_frame_def add.commute)
  next
    case False
    have "frag_count (length data) = Suc i" using less.prems False by (auto simp: frag_count_def max_def)
    then show ?thesis using False
      by (subst send_loop.simps) (simp add: frag_frame_def frag_def min_def mult.commute)
  qed
qed

lemma concat_frags: "concat (map (frag data) [i..<frag_count (length data)]) = drop (84 * i) data"
proof (induction "length data - 84 * i" arbitrary: i rule: less_induct)
  case less
  show ?case
  proof (cases "84 * i < length data")
    case True
    then have "concat (map (frag data) [Suc i..<frag_count (length data)]) = drop (84 * Suc i) data"
      by (intro less) auto
    moreover have "i < frag_count (length data)" using True by (simp add: frag_count_def less_max_iff_disj)
    moreover have "frag data i @ drop (84 * Suc i) data = drop (84 * i) data"
      by (simp add: frag_def mult.commute) (metis append_take_drop_id drop_drop add.commute)
    ultimately show ?thesis by (simp add: upt_conv_Cons)
  next
    case False
    then have "[i..<frag_count (length data)] = [] \<or> frag data i = [] \<and> frag_count (length data) = Suc i"
      by (auto simp: frag_count_def max_def frag_def)
    then show ?thesis using False by auto
  qed
qed

section \<open>Lemmas on the message list and its timers\<close>

text \<open>A timer that is waiting in the timer list.\<close>

definition armed :: "gw_timers \<Rightarrow> addr \<Rightarrow> bool" where
  "armed ts a \<longleftrightarrow> timers_wf ts \<and> a \<in> set (ts_timer_list ts)"

definition disarmed :: "gw_timers \<Rightarrow> addr \<Rightarrow> bool" where
  "disarmed ts a \<longleftrightarrow> timers_wf ts \<and> ts_heap ts a = None \<and> a \<notin> set (ts_expire_timer_list ts)"

lemma timer_add_armed:
  assumes "disarmed ts a"
  shows "\<exists>ts'. oam_timer_add ts (Some a) p = Some (Some a, ts') \<and> armed ts' a \<and> (\<forall>b. b \<noteq> a \<longrightarrow> disarmed ts b \<longrightarrow> disarmed ts' b)"
proof -
  have a: "a \<notin> set (ts_timer_list ts)" "a \<notin> set (ts_expire_timer_list ts)" "ts_heap ts a = None" "timers_wf ts"
    using assms by (auto simp: disarmed_def timers_wf_def list_all_iff)
  then obtain ts' where t: "oam_timer_add ts (Some a) p = Some (Some a, ts')" "a \<in> set (ts_timer_list ts')"
    "\<forall>b. b \<noteq> a \<longrightarrow> ts_heap ts' b = ts_heap ts b"
    by (auto simp: oam_timer_add_def WAIT_TIME_FOR_OAM_MESSAGE_def gw_timer_add_def timer_add_common_def
        gw_create_timer_def with_timer_def gw_start_timer_def Let_def)
  have "frame ts ts'" using t(1) unfolding oam_timer_add_def gw_timer_add_def by (simp add: add_frame)
  then show ?thesis using t a by (auto simp: armed_def disarmed_def frame_def)
qed

lemma timer_del_disarmed:
  assumes "armed ts a"
  shows "\<exists>ts'. gw_timer_del ts (Some a) = Some (GW_TIMER_OK, ts') \<and> disarmed ts' a \<and>
    (\<forall>b. b \<noteq> a \<longrightarrow> disarmed ts b \<longrightarrow> disarmed ts' b)"
proof -
  have a: "a \<in> set (ts_timer_list ts)" "timers_wf ts" using assms by (auto simp: armed_def)
  then obtain t where t: "ts_heap ts a = Some t" by (auto simp: timers_wf_def list_all_iff)
  then obtain s1 where s: "gw_stop_timer ts (Some a) = Some (GW_TIMER_OK, s1)"
    using a by (auto simp: gw_stop_timer_def with_timer_def)
  from stop_timer_cases [OF s] a have l: "a \<notin> set (ts_timer_list s1)" and h: "ts_heap s1 a \<noteq> None"
    by (auto simp: timers_wf_def)
  then obtain s2 where d: "gw_destroy_timer s1 (Some a) = Some s2"
    by (auto simp: gw_destroy_timer_def with_timer_def)
  from destroy_timer_cases [OF d] l have "ts_heap s2 a = None" by auto
  moreover have "ts_heap s2 b = ts_heap ts b" if "b \<noteq> a" for b
    using that destroy_timer_cases [OF d] stop_timer_cases [OF s] by auto
  moreover have "timers_wf s2" "ts_expire_timer_list s2 = ts_expire_timer_list ts"
    using stop_frame [OF s] destroy_frame [OF d] a by (auto simp: frame_def)
  moreover have "a \<notin> set (ts_expire_timer_list ts)" using a by (auto simp: timers_wf_def list_all_iff)
  ultimately show ?thesis using s d by (simp add: gw_timer_del_def disarmed_def)
qed

lemma timer_del_freed: "ts_heap ts a = None \<Longrightarrow> gw_timer_del ts (Some a) = None"
  by (simp add: gw_timer_del_def gw_stop_timer_def with_timer_def)

text \<open>What the list search finds.\<close>

lemma get_node_head:
  "om_list st = p # ps \<Longrightarrow> om_heap st p = Some n \<Longrightarrow> GwOamMessageListGetNode st (on_SendSerNo n) = Some p"
  by (simp add: GwOamMessageListGetNode_def om_serno_def)

lemma get_node_Some:
  "GwOamMessageListGetNode st s = Some p \<Longrightarrow> p \<in> set (om_list st) \<and> (\<exists>n. om_heap st p = Some n \<and> on_SendSerNo n = s)"
  by (auto simp: GwOamMessageListGetNode_def om_serno_def dest: find_SomeD)

lemma get_node_None:
  "GwOamMessageListGetNode st s = None \<longleftrightarrow> (\<forall>p \<in> set (om_list st). om_serno st p \<noteq> Some s)"
  by (auto simp: GwOamMessageListGetNode_def find_None_iff)

lemma copy_to_fits:
  "off + len \<le> length b \<Longrightarrow> len \<le> length src \<Longrightarrow>
   copy_to (Some b) off src len = Some (Some (take off b @ take len src @ drop (off + len) b))"
  by (simp add: copy_to_def)

lemma copy_to_Some:
  "copy_to (Some b) off src len = Some pl \<Longrightarrow> \<exists>b'. pl = Some b' \<and> length b' = length b"
  by (auto simp: copy_to_def split: if_splits)

text \<open>
  The message list: distinct allocated nodes with different serial numbers, each with a buffer
  of one byte more than the message (none for an empty message) that holds what was received.
\<close>

definition node_wf :: "oam_node \<Rightarrow> bool" where
  "node_wf n \<longleftrightarrow> unat (on_RevPktLen n) \<le> unat (on_WholePktLen n) + 1 \<and>
     (if on_WholePktLen n = 0 then on_pPayLoad n = None \<and> on_RevPktLen n = 0
      else \<exists>b. on_pPayLoad n = Some b \<and> length b = unat (on_WholePktLen n) + 1)"

definition oam_wf :: "oam_state \<Rightarrow> bool" where
  "oam_wf st \<longleftrightarrow> distinct (om_list st) \<and> distinct (map (om_serno st) (om_list st)) \<and>
     list_all (\<lambda>p. \<exists>n. om_heap st p = Some n \<and> node_wf n) (om_list st)"

lemma node_wf_timer [simp]: "node_wf (n\<lparr>on_TimerID := h\<rparr>) = node_wf n"
  by (simp add: node_wf_def)

lemma node_wf_buffer: "node_wf n \<Longrightarrow> on_WholePktLen n \<noteq> 0 \<Longrightarrow> \<exists>b. on_pPayLoad n = Some b \<and> length b = unat (on_WholePktLen n) + 1"
  by (simp add: node_wf_def)

lemma oam_wf_node: "oam_wf st \<Longrightarrow> p \<in> set (om_list st) \<Longrightarrow> \<exists>n. om_heap st p = Some n \<and> node_wf n"
  by (simp add: oam_wf_def list_all_iff)

text \<open>Changing a node in place, adding one and removing one.\<close>

lemma oam_wf_update:
  assumes "oam_wf st" "om_heap st p = Some n" "on_SendSerNo n' = on_SendSerNo n" "node_wf n'"
  shows "oam_wf (st\<lparr>om_timers := ts, om_heap := (om_heap st)(p := Some n')\<rparr>)"
proof -
  have "om_serno (st\<lparr>om_timers := ts, om_heap := (om_heap st)(p := Some n')\<rparr>) = om_serno st"
    using assms(2,3) by (auto simp: om_serno_def)
  then show ?thesis using assms(1,4) by (auto simp: oam_wf_def list_all_iff)
qed

lemma oam_wf_add:
  assumes "oam_wf st" "om_heap st p = None" "GwOamMessageListGetNode st (on_SendSerNo n) = None" "node_wf n"
  shows "oam_wf (GwOamMessageListNodeAdd st p n)"
proof -
  let ?st' = "GwOamMessageListNodeAdd st p n"
  have p: "p \<notin> set (om_list st)" using oam_wf_node [OF assms(1)] assms(2) by force
  have l: "om_list ?st' = p # om_list st" "om_heap ?st' = (om_heap st)(p := Some n)"
    by (simp_all add: GwOamMessageListNodeAdd_def)
  have m: "map (om_serno ?st') (om_list st) = map (om_serno st) (om_list st)"
    using p by (intro map_cong) (auto simp: om_serno_def l)
  have "Some (on_SendSerNo n) \<notin> set (map (om_serno st) (om_list st))"
    using assms(3) by (auto simp: get_node_None)
  then have "distinct (map (om_serno ?st') (om_list ?st'))"
    using assms(1) unfolding l list.map m by (simp add: oam_wf_def om_serno_def l)
  then show ?thesis using assms(1,4) p by (auto simp: oam_wf_def list_all_iff l)
qed

lemma oam_wf_free:
  assumes "oam_wf st"
  shows "oam_wf (GwOamMessageListNodeFree st pNode)"
proof (cases pNode)
  case (Some p)
  let ?st' = "GwOamMessageListNodeFree st (Some p)"
  have l: "om_list ?st' = remove1 p (om_list st)" "om_heap ?st' = (om_heap st)(p := None)"
    by (auto simp: GwOamMessageListNodeFree_def GwOamMessageListNodeRem_def remove1_idem)
  have d: "distinct (om_list st)" using assms by (simp add: oam_wf_def)
  have r: "remove1 p (om_list st) = filter (\<lambda>q. q \<noteq> p) (om_list st)"
    using d by (simp add: distinct_remove1_removeAll removeAll_filter_not_eq neq_commute)
  have m: "map (om_serno ?st') (filter (\<lambda>q. q \<noteq> p) (om_list st)) = map (om_serno st) (filter (\<lambda>q. q \<noteq> p) (om_list st))"
    by (intro map_cong) (auto simp: om_serno_def l)
  have "distinct (map (om_serno ?st') (om_list ?st'))"
    using assms unfolding l r m by (simp add: oam_wf_def distinct_map_filter)
  then have "oam_wf ?st'" using assms d by (auto simp: oam_wf_def list_all_iff l r)
  then show ?thesis using Some by simp
qed (simp add: assms GwOamMessageListNodeFree_def)

section \<open>Lemmas on receiving\<close>

lemma receive_ok:
  assumes "fr_oui f = GwOUI" "GwOamRecevOpcodeCheck (fr_opCode f) = OAM_MESSAGE_RECEV_OPCODE_OK"
  shows "CommOnuMsgReveive node buf ta st f =
     (if fr_payloadOffset f = 0 then recv_first node buf ta st f else recv_next ta st f)"
  using assms unat_u16_less [of "fr_wholePktLen f"] by (simp add: CommOnuMsgReveive_def OAM_DATA_LEN_def ntohs_def)

text \<open>The node of a message after its first fragment, and the closed form of \<open>recv_first\<close>.\<close>

definition first_node :: "oam_frame \<Rightarrow> u8 list option \<Rightarrow> oam_node" where
  "first_node f pl = \<lparr>on_GwOpcode = fr_opCode f, on_SendSerNo = fr_senderSerNo f, on_WholePktLen = fr_wholePktLen f,
    on_RevPktLen = fr_payLoadLength f, on_SessionID = take 8 (fr_sessionId f), on_TimerID = None, on_pPayLoad = pl\<rparr>"

definition first_buf :: "oam_frame \<Rightarrow> u8 list option" where
  "first_buf f = (if fr_wholePktLen f \<noteq> 0 then Some (replicate (unat (fr_wholePktLen f) + 1) 0) else None)"

lemma recv_first_new:
  assumes "GwOamMessageListGetNode st (fr_senderSerNo f) = None" "fr_wholePktLen f = 0 \<or> buf"
    and "copy_to (first_buf f) 0 (fr_payload f) (unat (fr_payLoadLength f)) = Some pl"
  shows "recv_first (Some p) buf ta st f =
     (let st1 = GwOamMessageListNodeAdd st p (first_node f pl) in
      if fr_wholePktLen f = fr_payLoadLength f then Some (OAM_MESSAGE_RECEV_OK, Some p, st1)
      else (case oam_timer_add (om_timers st1) ta p of
              None \<Rightarrow> None
            | Some (h, ts) \<Rightarrow> Some (OAM_MESSAGE_RECEV_ERR, None,
                st1\<lparr>om_timers := ts, om_heap := (om_heap st1)(p := Some ((first_node f pl)\<lparr>on_TimerID := h\<rparr>))\<rparr>)))"
proof (cases "fr_wholePktLen f = 0")
  case True
  then have "fr_payLoadLength f = 0" "pl = None"
    using assms(3) by (auto simp: first_buf_def copy_to_def unat_eq_0 split: if_splits)
  then show ?thesis using assms True
    by (simp add: recv_first_def ntohs_def GwOamMessageListNodeNew_def first_node_def copy_to_def Let_def)
next
  case False
  then have "first_buf f = Some (replicate (unat (fr_wholePktLen f) + 1) 0)" by (simp add: first_buf_def)
  then show ?thesis using assms False
    by (simp add: recv_first_def ntohs_def GwOamMessageListNodeNew_def first_node_def Let_def split: option.split prod.split)
qed

lemma recv_first_old:
  assumes "GwOamMessageListGetNode st (fr_senderSerNo f) \<noteq> None \<or> (fr_wholePktLen f \<noteq> 0 \<and> \<not> buf)"
    and "recv_first (Some p) buf ta st f = Some (r, msg, st')"
  shows "st' = st"
  using assms by (auto simp: recv_first_def ntohs_def Let_def GwOamMessageListNodeNew_def split: if_splits)

lemma recv_first_overflow:
  assumes "GwOamMessageListGetNode st (fr_senderSerNo f) = None" "fr_wholePktLen f = 0 \<or> buf"
    and "copy_to (first_buf f) 0 (fr_payload f) (unat (fr_payLoadLength f)) = None"
  shows "recv_first (Some p) buf ta st f = None"
  using assms by (auto simp: recv_first_def ntohs_def GwOamMessageListNodeNew_def first_buf_def Let_def)

lemma recv_first_wf:
  assumes "oam_wf st" "recv_first (Some p) buf ta st f = Some (r, msg, st')" "om_heap st p = None"
  shows "oam_wf st'"
proof (cases "GwOamMessageListGetNode st (fr_senderSerNo f) \<noteq> None \<or> (fr_wholePktLen f \<noteq> 0 \<and> \<not> buf)")
  case True
  then show ?thesis using recv_first_old [OF True assms(2)] assms(1) by simp
next
  case False
  then have new: "GwOamMessageListGetNode st (fr_senderSerNo f) = None" "fr_wholePktLen f = 0 \<or> buf" by auto
  then obtain pl where c: "copy_to (first_buf f) 0 (fr_payload f) (unat (fr_payLoadLength f)) = Some pl"
    using assms(2) recv_first_overflow [OF new] by fastforce
  have n: "node_wf (first_node f pl)"
  proof (cases "fr_wholePktLen f = 0")
    case True
    then show ?thesis using c by (auto simp: node_wf_def first_node_def first_buf_def copy_to_def unat_eq_0 split: if_splits)
  next
    case False
    then have b: "first_buf f = Some (replicate (unat (fr_wholePktLen f) + 1) 0)" by (simp add: first_buf_def)
    then obtain b' where "pl = Some b'" "length b' = unat (fr_wholePktLen f) + 1" using c copy_to_Some by force
    moreover have "unat (fr_payLoadLength f) \<le> unat (fr_wholePktLen f) + 1"
      using c unfolding b copy_to_def by (auto split: if_splits)
    ultimately show ?thesis using False by (simp add: node_wf_def first_node_def)
  qed
  let ?st1 = "GwOamMessageListNodeAdd st p (first_node f pl)"
  have w: "oam_wf ?st1" using new n by (intro oam_wf_add assms) (auto simp: first_node_def)
  have h: "om_heap ?st1 p = Some (first_node f pl)" by (simp add: GwOamMessageListNodeAdd_def)
  have "st' = ?st1 \<or> (\<exists>ts h. st' = ?st1\<lparr>om_timers := ts,
        om_heap := (om_heap ?st1)(p := Some ((first_node f pl)\<lparr>on_TimerID := h\<rparr>))\<rparr>)"
    using assms(2) unfolding recv_first_new [OF new c] by (auto simp: Let_def split: if_splits option.splits)
  then show ?thesis using w oam_wf_update [OF w h] n by auto
qed

text \<open>The cases of \<open>recv_next\<close>.\<close>

definition next_rejected :: "oam_node \<Rightarrow> oam_frame \<Rightarrow> bool" where
  "next_rejected n f \<longleftrightarrow> unat (on_RevPktLen n) + unat (fr_payLoadLength f) > unat (on_WholePktLen n) \<or>
     on_RevPktLen n \<noteq> fr_payloadOffset f"

definition grown :: "oam_state \<Rightarrow> addr \<Rightarrow> oam_node \<Rightarrow> gw_timers \<Rightarrow> u8 list option \<Rightarrow> u16 \<Rightarrow> oam_state" where
  "grown st p n ts pl r = st\<lparr>om_timers := ts, om_heap := (om_heap st)(p := Some (n\<lparr>on_pPayLoad := pl, on_RevPktLen := r\<rparr>))\<rparr>"

lemma recv_next_rejected:
  assumes "GwOamMessageListGetNode st (fr_senderSerNo f) = Some p" "om_heap st p = Some n" "next_rejected n f"
  shows "recv_next ta st f = Some (OAM_MESSAGE_RECEV_ERR, None, st)"
  using assms by (simp add: recv_next_def ntohs_def Let_def next_rejected_def)

lemma recv_next_accepted:
  assumes "GwOamMessageListGetNode st (fr_senderSerNo f) = Some p" "om_heap st p = Some n" "\<not> next_rejected n f"
  shows "recv_next ta st f =
    (let c = copy_to (on_pPayLoad n) (unat (on_RevPktLen n)) (fr_payload f) (unat (fr_payLoadLength f)) in
     case gw_timer_del (om_timers st) (on_TimerID n) of
       None \<Rightarrow> None
     | Some (_, ts) \<Rightarrow>
         if unat (on_RevPktLen n) + unat (fr_payLoadLength f) = unat (on_WholePktLen n)
         then map_option (\<lambda>pl. (OAM_MESSAGE_RECEV_OK, Some p, grown st p n ts pl (on_WholePktLen n))) c
         else (case oam_timer_add ts ta p of
                 None \<Rightarrow> None
               | Some (_, ts2) \<Rightarrow> map_option (\<lambda>pl. (OAM_MESSAGE_RECEV_NOT_COMPLETE, None,
                   grown st p n ts2 pl (on_RevPktLen n + fr_payLoadLength f))) c))"
proof -
  have c: "(unat (on_RevPktLen n) + unat (fr_payLoadLength f) > unat (on_WholePktLen n) \<or>
     on_RevPktLen n \<noteq> fr_payloadOffset f) = False" using assms(3) unfolding next_rejected_def by blast
  show ?thesis unfolding recv_next_def ntohs_def Let_def assms(1,2) option.case c if_False grown_def map_option_case ..
qed

text \<open>A later fragment that fits stays within the buffer.\<close>

lemma recv_next_buffer:
  assumes "node_wf n" "unat (on_RevPktLen n) + l \<le> unat (on_WholePktLen n)" "l \<le> length src"
  shows "\<exists>pl. copy_to (on_pPayLoad n) (unat (on_RevPktLen n)) src l = Some pl"
  using assms node_wf_buffer [OF assms(1)]
  by (cases "on_WholePktLen n = 0") (auto simp: copy_to_def)

lemma node_wf_grow:
  assumes "node_wf n" "copy_to (on_pPayLoad n) k src l = Some pl" "unat r \<le> unat (on_WholePktLen n)"
    and "on_WholePktLen n = 0 \<longrightarrow> l = 0"
  shows "node_wf (n\<lparr>on_pPayLoad := pl, on_RevPktLen := r\<rparr>)"
proof (cases "on_WholePktLen n = 0")
  case True
  then have "pl = on_pPayLoad n" "r = 0" using assms by (auto simp: copy_to_def unat_eq_0)
  then show ?thesis using assms(1) True by (simp add: node_wf_def)
next
  case False
  then obtain b where b: "on_pPayLoad n = Some b" "length b = unat (on_WholePktLen n) + 1"
    using node_wf_buffer [OF assms(1)] by blast
  then obtain b' where "pl = Some b'" "length b' = length b" using assms(2) copy_to_Some by force
  then show ?thesis using assms(3) False b by (simp add: node_wf_def)
qed

lemma unat_plus_u16: "unat a + unat b < 65536 \<Longrightarrow> unat (a + b :: u16) = unat a + unat b"
  by (simp add: unat_plus_if')

lemma recv_next_wf:
  assumes "oam_wf st" "recv_next ta st f = Some (r, msg, st')"
  shows "oam_wf st'"
proof (cases "GwOamMessageListGetNode st (fr_senderSerNo f)")
  case (Some p)
  then obtain n where n: "om_heap st p = Some n" "node_wf n" using get_node_Some oam_wf_node [OF assms(1)] by blast
  show ?thesis
  proof (cases "next_rejected n f")
    case True
    then show ?thesis using assms recv_next_rejected [OF Some n(1)] by simp
  next
    case False
    then have sum: "unat (on_RevPktLen n + fr_payLoadLength f) = unat (on_RevPktLen n) + unat (fr_payLoadLength f)"
      using unat_u16_less [of "on_WholePktLen n"] unfolding next_rejected_def by (intro unat_plus_u16) linarith
    obtain ts pl m where st': "st' = grown st p n ts pl m"
      and c: "copy_to (on_pPayLoad n) (unat (on_RevPktLen n)) (fr_payload f) (unat (fr_payLoadLength f)) = Some pl"
      and m: "m = on_WholePktLen n \<or> m = on_RevPktLen n + fr_payLoadLength f"
      using assms(2) unfolding recv_next_accepted [OF Some n(1) False]
      by (auto simp: Let_def split: option.splits if_splits)
    have "node_wf (n\<lparr>on_pPayLoad := pl, on_RevPktLen := m\<rparr>)"
      using False m sum by (intro node_wf_grow [OF n(2) c]) (auto simp: next_rejected_def)
    then show ?thesis unfolding st' grown_def by (intro oam_wf_update [OF assms(1) n(1)]) auto
  qed
qed (use assms in \<open>auto simp: recv_next_def ntohs_def Let_def\<close>)

lemma receive_wf:
  assumes "oam_wf st" "CommOnuMsgReveive (Some p) buf ta st f = Some (r, msg, st')" "om_heap st p = None"
  shows "oam_wf st'"
  using assms(2) recv_first_wf [OF assms(1) _ assms(3)] recv_next_wf [OF assms(1)] assms(1)
  unfolding CommOnuMsgReveive_def by (simp split: if_split_asm)

section \<open>Reassembly\<close>

text \<open>
  A frame as a peer of the other byte order sends it, and the receiver run on a sequence of
  frames, each with the address that \<^verbatim>\<open>malloc\<close> gives for a timer started while the frame is received.
\<close>

definition frame_swap :: "oam_frame \<Rightarrow> oam_frame" where
  "frame_swap f = f\<lparr>fr_wholePktLen := gwd_htons (fr_wholePktLen f), fr_payloadOffset := gwd_htons (fr_payloadOffset f),
     fr_payLoadLength := gwd_htons (fr_payLoadLength f)\<rparr>"

fun recv_run ::
  "addr option \<Rightarrow> oam_state \<Rightarrow> (addr option \<times> oam_frame) list \<Rightarrow> ((oam_result \<times> addr option) list \<times> oam_state) option" where
  "recv_run node st [] = Some ([], st)"
| "recv_run node st ((ta, f) # fs) =
     (case CommOnuMsgReveive node True ta st f of
        None \<Rightarrow> None
      | Some (r, m, st1) \<Rightarrow>
          (case recv_run node st1 fs of None \<Rightarrow> None | Some (rs, st2) \<Rightarrow> Some ((r, m) # rs, st2)))"

definition wire :: "u8 \<Rightarrow> u32 \<Rightarrow> u8 list \<Rightarrow> u8 list \<Rightarrow> nat \<Rightarrow> oam_frame" where
  "wire op ser sid data i = \<lparr>fr_oui = GwOUI, fr_opCode = op, fr_senderSerNo = ser, fr_wholePktLen = of_nat (length data),
     fr_payloadOffset = of_nat (84 * i), fr_payLoadLength = of_nat (length (frag data i)), fr_sessionId = sid,
     fr_payload = frag data i\<rparr>"

text \<open>Fragments \<open>0\<close> to \<open>j - 1\<close> have arrived; the timer \<open>a\<close> of the message runs.\<close>

definition msg_node :: "u8 \<Rightarrow> u32 \<Rightarrow> u8 list \<Rightarrow> u8 list \<Rightarrow> nat \<Rightarrow> addr option \<Rightarrow> oam_node" where
  "msg_node op ser sid data k h = \<lparr>on_GwOpcode = op, on_SendSerNo = ser, on_WholePktLen = of_nat (length data),
     on_RevPktLen = of_nat k, on_SessionID = sid, on_TimerID = h,
     on_pPayLoad = (if data = [] then None else Some (take k data @ replicate (length data + 1 - k) 0))\<rparr>"

definition holds_msg :: "oam_state \<Rightarrow> oam_state \<Rightarrow> addr \<Rightarrow> oam_node \<Rightarrow> bool" where
  "holds_msg st0 st p n \<longleftrightarrow> om_list st = p # om_list st0 \<and> om_heap st = (om_heap st0)(p := Some n)"

lemma holds_get: "holds_msg st0 st p (msg_node op ser sid data k h) \<Longrightarrow> GwOamMessageListGetNode st ser = Some p"
  by (simp add: GwOamMessageListGetNode_def om_serno_def holds_msg_def msg_node_def)

lemma frag_copy:
  assumes "84 * i < length data"
  shows "copy_to (Some (take (84 * i) data @ replicate (length data + 1 - 84 * i) 0)) (84 * i) (frag data i) (length (frag data i)) =
     Some (Some (take (84 * i + length (frag data i)) data @ replicate (length data + 1 - (84 * i + length (frag data i))) 0))"
proof -
  let ?l = "length (frag data i)"
  have l: "84 * i + ?l \<le> length data" using assms by (simp add: frag_def mult.commute)
  have "take (84 * i) data @ frag data i = take (84 * i + ?l) data"
    by (simp add: frag_def take_add mult.commute min_def)
  moreover have "drop (84 * i + ?l) (take (84 * i) data @ replicate (length data + 1 - 84 * i) (0 :: u8)) =
    replicate (length data + 1 - (84 * i + ?l)) 0" using l assms by (simp add: min_def)
  ultimately show ?thesis using l assms by (subst copy_to_fits) (auto simp: min_def)
qed

text \<open>The effect of fragment \<open>j\<close> on the node that holds the fragments before it.\<close>

lemma accept_fragment:
  assumes "holds_msg st0 st p (msg_node op ser sid data (84 * j) h)"
    and "length data \<le> 65495" "0 < j" "84 * j < length data" "GwOamRecevOpcodeCheck op = OAM_MESSAGE_RECEV_OPCODE_OK"
  shows "CommOnuMsgReveive node True ta st (wire op ser sid data j) =
    (case gw_timer_del (om_timers st) h of
       None \<Rightarrow> None
     | Some (_, ts) \<Rightarrow>
         if 84 * Suc j < length data
         then (case oam_timer_add ts ta p of
                 None \<Rightarrow> None
               | Some (_, ts2) \<Rightarrow> Some (OAM_MESSAGE_RECEV_NOT_COMPLETE, None,
                   st\<lparr>om_timers := ts2, om_heap := (om_heap st)(p := Some (msg_node op ser sid data (84 * Suc j) h))\<rparr>))
         else Some (OAM_MESSAGE_RECEV_OK, Some p,
                st\<lparr>om_timers := ts, om_heap := (om_heap st)(p := Some (msg_node op ser sid data (length data) h))\<rparr>))"
proof -
  let ?n = "msg_node op ser sid data (84 * j) h" and ?f = "wire op ser sid data j" and ?l = "length (frag data j)"
  have l: "?l = min 84 (length data - 84 * j)" by (simp add: frag_def mult.commute min.commute)
  have u: "unat (of_nat (84 * j) :: u16) = 84 * j" "unat (of_nat ?l :: u16) = ?l" "unat (of_nat (length data) :: u16) = length data"
    using assms(2,4) by (simp_all add: l unat_of_nat_u16 del: of_nat_mult)
  then have nz: "(of_nat (84 * j) :: u16) \<noteq> 0" using assms(3) by (metis mult_eq_0_iff neq0_conv unat_0 zero_neq_numeral)
  have r: "CommOnuMsgReveive node True ta st ?f = recv_next ta st ?f"
    using receive_ok [of ?f] nz assms(5) by (simp add: wire_def)
  have g: "GwOamMessageListGetNode st (fr_senderSerNo ?f) = Some p" using holds_get [OF assms(1)] by (simp add: wire_def)
  have h: "om_heap st p = Some ?n" using assms(1) by (simp add: holds_msg_def)
  have nr: "\<not> next_rejected ?n ?f" using assms(4) u l by (auto simp: next_rejected_def msg_node_def wire_def)
  have c: "copy_to (on_pPayLoad ?n) (unat (on_RevPktLen ?n)) (fr_payload ?f) (unat (fr_payLoadLength ?f)) =
     Some (Some (take (84 * j + ?l) data @ replicate (length data + 1 - (84 * j + ?l)) 0))"
    using frag_copy [OF assms(4)] assms(4) u by (auto simp: msg_node_def wire_def simp del: of_nat_mult)
  have t: "on_TimerID ?n = h" by (simp add: msg_node_def)
  have w: "unat (on_RevPktLen ?n) + unat (fr_payLoadLength ?f) = unat (on_WholePktLen ?n) \<longleftrightarrow> \<not> 84 * Suc j < length data"
    using u l assms(4) by (auto simp: msg_node_def wire_def simp del: of_nat_mult)
  have n1: "?n\<lparr>on_pPayLoad := Some (take (84 * j + ?l) data @ replicate (length data + 1 - (84 * j + ?l)) 0),
      on_RevPktLen := on_RevPktLen ?n + fr_payLoadLength ?f\<rparr> = msg_node op ser sid data (84 * Suc j) h"
    if "84 * Suc j < length data"
    using that l by (auto simp: msg_node_def wire_def add.commute)
  have n2: "?n\<lparr>on_pPayLoad := Some (take (84 * j + ?l) data @ replicate (length data + 1 - (84 * j + ?l)) 0),
      on_RevPktLen := on_WholePktLen ?n\<rparr> = msg_node op ser sid data (length data) h"
    if "\<not> 84 * Suc j < length data"
    using that l assms(4) by (auto simp: msg_node_def)
  show ?thesis
    unfolding r recv_next_accepted [OF g h nr] c Let_def t w grown_def option.map
    by (cases "84 * Suc j < length data") (simp_all only: n1 n2 not_True_eq_False not_False_eq_True if_True if_False)
qed

lemma collect_last:
  assumes "holds_msg st0 st p (msg_node op ser sid data (84 * j) (Some a))" "armed (om_timers st) a"
    and "length data \<le> 65495" "0 < j" "84 * j < length data" "GwOamRecevOpcodeCheck op = OAM_MESSAGE_RECEV_OPCODE_OK"
    and "\<not> 84 * Suc j < length data"
  shows "\<exists>st'. CommOnuMsgReveive node True ta st (wire op ser sid data j) = Some (OAM_MESSAGE_RECEV_OK, Some p, st') \<and>
      holds_msg st0 st' p (msg_node op ser sid data (length data) (Some a)) \<and> disarmed (om_timers st') a"
proof -
  from timer_del_disarmed [OF assms(2)] obtain ts where d: "gw_timer_del (om_timers st) (Some a) = Some (GW_TIMER_OK, ts)"
    "disarmed ts a" by blast
  show ?thesis unfolding accept_fragment [OF assms(1,3-6)] d(1) option.case prod.case
    using d(2) assms(1,7) by (auto simp: holds_msg_def)
qed

lemma collect_middle:
  assumes "holds_msg st0 st p (msg_node op ser sid data (84 * j) (Some a))" "armed (om_timers st) a"
    and "length data \<le> 65495" "0 < j" "84 * Suc j < length data" "GwOamRecevOpcodeCheck op = OAM_MESSAGE_RECEV_OPCODE_OK"
    and "b = a \<or> disarmed (om_timers st) b"
  shows "\<exists>st'. CommOnuMsgReveive node True (Some b) st (wire op ser sid data j) = Some (OAM_MESSAGE_RECEV_NOT_COMPLETE, None, st') \<and>
      holds_msg st0 st' p (msg_node op ser sid data (84 * Suc j) (Some a)) \<and>
      (if b = a then armed (om_timers st') a else disarmed (om_timers st') a) \<and>
      (\<forall>c. c \<noteq> a \<longrightarrow> c \<noteq> b \<longrightarrow> disarmed (om_timers st) c \<longrightarrow> disarmed (om_timers st') c)"
proof -
  from timer_del_disarmed [OF assms(2)] obtain ts where d: "gw_timer_del (om_timers st) (Some a) = Some (GW_TIMER_OK, ts)"
    "disarmed ts a" "\<forall>c. c \<noteq> a \<longrightarrow> disarmed (om_timers st) c \<longrightarrow> disarmed ts c" by blast
  have "disarmed ts b" using assms(7) d(2,3) by auto
  from timer_add_armed [OF this] obtain ts2 where e: "oam_timer_add ts (Some b) p = Some (Some b, ts2)" "armed ts2 b"
    "\<forall>c. c \<noteq> b \<longrightarrow> disarmed ts c \<longrightarrow> disarmed ts2 c" by blast
  have l: "84 * j < length data" using assms(5) by simp
  show ?thesis unfolding accept_fragment [OF assms(1,3,4) l assms(6)] d(1) option.case prod.case e(1)
    using d(2,3) e(2,3) assms(1,5) by (auto simp: holds_msg_def)
qed

lemma collect_freed:
  assumes "holds_msg st0 st p (msg_node op ser sid data (84 * j) (Some a))" "disarmed (om_timers st) a"
    and "length data \<le> 65495" "0 < j" "84 * j < length data" "GwOamRecevOpcodeCheck op = OAM_MESSAGE_RECEV_OPCODE_OK"
  shows "CommOnuMsgReveive node True ta st (wire op ser sid data j) = None"
  using timer_del_freed [of "om_timers st" a] assms(2) unfolding accept_fragment [OF assms(1,3-6)] by (simp add: disarmed_def)

lemma run_cons:
  assumes "CommOnuMsgReveive node True ta st f = Some (r, None, st1)"
  shows "\<exists>rs st'. recv_run node st1 fs = Some (rs @ [x], st') \<and> list_all (\<lambda>x. snd x = None) rs \<and> Q st' \<Longrightarrow>
      \<exists>rs st'. recv_run node st ((ta, f) # fs) = Some (rs @ [x], st') \<and> list_all (\<lambda>x. snd x = None) rs \<and> Q st'"
    and "recv_run node st1 fs = None \<Longrightarrow> recv_run node st ((ta, f) # fs) = None"
proof -
  assume "\<exists>rs st'. recv_run node st1 fs = Some (rs @ [x], st') \<and> list_all (\<lambda>x. snd x = None) rs \<and> Q st'"
  then obtain rs st' where "recv_run node st1 fs = Some (rs @ [x], st')" "list_all (\<lambda>x. snd x = None) rs" "Q st'" by blast
  then show "\<exists>rs st'. recv_run node st ((ta, f) # fs) = Some (rs @ [x], st') \<and> list_all (\<lambda>x. snd x = None) rs \<and> Q st'"
    using assms by (intro exI [of _ "(r, None) # rs"] exI [of _ st']) simp
qed (use assms in simp)

text \<open>
  The later fragments: the message is complete when each fragment but the last is given the address of the first timer again,
  and a freed timer is used otherwise.
\<close>

lemma collect_run:
  assumes "holds_msg st0 st p (msg_node op ser sid data (84 * j) (Some a))" "armed (om_timers st) a"
    and "length data \<le> 65495" "0 < j" "84 * j < length data" "GwOamRecevOpcodeCheck op = OAM_MESSAGE_RECEV_OPCODE_OK"
    and "length tas = frag_count (length data) - j" "\<forall>b\<in>set tas. b \<noteq> a \<longrightarrow> disarmed (om_timers st) b"
  shows "if \<forall>b\<in>set (butlast tas). b = a
    then \<exists>rs st'. recv_run node st (zip (map Some tas) (map (wire op ser sid data) [j..<frag_count (length data)])) =
        Some (rs @ [(OAM_MESSAGE_RECEV_OK, Some p)], st') \<and> list_all (\<lambda>x. snd x = None) rs \<and>
      holds_msg st0 st' p (msg_node op ser sid data (length data) (Some a)) \<and> disarmed (om_timers st') a
    else recv_run node st (zip (map Some tas) (map (wire op ser sid data) [j..<frag_count (length data)])) = None"
  using assms
proof (induction "length data - 84 * j" arbitrary: j st tas rule: less_induct)
  case less
  have c: "j < frag_count (length data)" using less.prems(5) by (simp add: frag_count_def less_max_iff_disj)
  then obtain b tl where tas: "tas = b # tl" using less.prems(7) by (cases tas) auto
  have u: "map (wire op ser sid data) [j..<frag_count (length data)] =
      wire op ser sid data j # map (wire op ser sid data) [Suc j..<frag_count (length data)]" using c by (simp add: upt_conv_Cons)
  show ?case
  proof (cases "84 * Suc j < length data")
    case True
    have c2: "Suc j < frag_count (length data)" using True by (simp add: frag_count_def less_max_iff_disj)
    have tl: "tl \<noteq> []" "length tl = frag_count (length data) - Suc j" using less.prems(7) c2 by (auto simp: tas)
    have "b = a \<or> disarmed (om_timers st) b" using less.prems(8) by (auto simp: tas)
    from collect_middle [OF less.prems(1-4) True less.prems(6) this, of node] obtain st1 where
      s1: "CommOnuMsgReveive node True (Some b) st (wire op ser sid data j) = Some (OAM_MESSAGE_RECEV_NOT_COMPLETE, None, st1)"
        "holds_msg st0 st1 p (msg_node op ser sid data (84 * Suc j) (Some a))"
        "if b = a then armed (om_timers st1) a else disarmed (om_timers st1) a"
        "\<forall>c. c \<noteq> a \<longrightarrow> c \<noteq> b \<longrightarrow> disarmed (om_timers st) c \<longrightarrow> disarmed (om_timers st1) c" by blast
    show ?thesis
    proof (cases "b = a")
      case same: True
      have m: "length data - 84 * Suc j < length data - 84 * j" using less.prems(5) by simp
      have "armed (om_timers st1) a" "\<forall>c\<in>set tl. c \<noteq> a \<longrightarrow> disarmed (om_timers st1) c" using s1(3,4) same less.prems(8) by (auto simp: tas)
      note ih = less.hyps [OF m s1(2) this(1) less.prems(3) zero_less_Suc True less.prems(6) tl(2) this(2)]
      have e: "(\<forall>x\<in>set (butlast tas). x = a) \<longleftrightarrow> (\<forall>x\<in>set (butlast tl). x = a)" using tl(1) by (simp add: tas same)
      have e2: "(\<forall>x\<in>set (butlast (b # tl)). x = a) \<longleftrightarrow> (\<forall>x\<in>set (butlast tl). x = a)" using e by (simp add: tas)
      have sb: "Some b = Some a" using same by simp
      show ?thesis
      proof (cases "\<forall>x\<in>set (butlast tl). x = a")
        case all: True
        note run_cons(1) [OF s1(1), of _ _ "\<lambda>st'. holds_msg st0 st' p (msg_node op ser sid data (length data) (Some a)) \<and> disarmed (om_timers st') a",
            OF ih [unfolded if_P [OF all]]]
        then show ?thesis unfolding tas u list.map zip_Cons_Cons if_P [OF e2 [THEN iffD2, OF all]] .
      next
        case notall: False
        from run_cons(2) [OF s1(1) ih [unfolded if_not_P [OF notall]]] notall show ?thesis
          unfolding tas u list.map zip_Cons_Cons e2 by (simp only: if_False)
      qed
    next
      case False
      then have d: "disarmed (om_timers st1) a" using s1(3) by simp
      obtain b2 tl2 where t2: "tl = b2 # tl2" using tl(1) by (cases tl) auto
      have "CommOnuMsgReveive node True (Some b2) st1 (wire op ser sid data (Suc j)) = None"
        by (rule collect_freed [OF s1(2) d less.prems(3) zero_less_Suc True less.prems(6)])
      moreover have "\<not> (\<forall>x\<in>set (butlast tas). x = a)" using False by (simp add: tas t2)
      ultimately show ?thesis using s1(1) c2 False unfolding u tas t2 by (simp add: upt_conv_Cons)
    qed
  next
    case False
    then have e: "frag_count (length data) = Suc j" using less.prems(4,5) by (auto simp: frag_count_def max_def)
    then have "tl = []" using less.prems(7) by (simp add: tas)
    then show ?thesis using collect_last [OF less.prems(1-6) False, of node "Some b"] e
      by (auto simp: tas intro!: exI [of _ "[]"])
  qed
qed

text \<open>The first fragment of a message, alone or with others to follow.\<close>

lemma collect_first:
  assumes "om_heap st p = None" "GwOamMessageListGetNode st ser = None" "disarmed (om_timers st) a"
    and "length data \<le> 65495" "length sid = 8" "GwOamRecevOpcodeCheck op = OAM_MESSAGE_RECEV_OPCODE_OK"
  shows "\<exists>st'. if 84 < length data
    then CommOnuMsgReveive (Some p) True (Some a) st (wire op ser sid data 0) = Some (OAM_MESSAGE_RECEV_ERR, None, st') \<and>
      holds_msg st st' p (msg_node op ser sid data 84 (Some a)) \<and> armed (om_timers st') a \<and>
      (\<forall>b. b \<noteq> a \<longrightarrow> disarmed (om_timers st) b \<longrightarrow> disarmed (om_timers st') b)
    else CommOnuMsgReveive (Some p) True (Some a) st (wire op ser sid data 0) = Some (OAM_MESSAGE_RECEV_OK, Some p, st') \<and>
      holds_msg st st' p (msg_node op ser sid data (length data) None) \<and> om_timers st' = om_timers st"
proof -
  let ?f = "wire op ser sid data 0" and ?l = "length (frag data 0)"
  have l: "?l = min 84 (length data)" by (simp add: frag_def min.commute)
  have u: "unat (of_nat ?l :: u16) = ?l" "unat (of_nat (length data) :: u16) = length data"
    using assms(4) by (simp_all add: l unat_of_nat_u16)
  have z: "(of_nat (length data) :: u16) = 0 \<longleftrightarrow> data = []"
    using u(2) unfolding unat_eq_0 [symmetric] by (simp only: length_0_conv)
  have r: "CommOnuMsgReveive (Some p) True (Some a) st ?f = recv_first (Some p) True (Some a) st ?f"
    using receive_ok [of ?f] assms(6) by (simp add: wire_def)
  have g: "GwOamMessageListGetNode st (fr_senderSerNo ?f) = None" using assms(2) by (simp add: wire_def)
  let ?pl = "if data = [] then None else Some (take ?l data @ replicate (length data + 1 - ?l) 0)"
  have c: "copy_to (first_buf ?f) 0 (fr_payload ?f) (unat (fr_payLoadLength ?f)) = Some ?pl"
  proof (cases "data = []")
    case True
    then show ?thesis using l by (simp add: copy_to_def first_buf_def wire_def)
  next
    case False
    have b: "first_buf ?f = Some (take (84 * 0) data @ replicate (length data + 1 - 84 * 0) 0)"
      using False u z by (simp add: first_buf_def wire_def)
    have q: "fr_payload ?f = frag data 0" "unat (fr_payLoadLength ?f) = ?l" using u by (simp_all add: wire_def)
    show ?thesis unfolding b q using frag_copy [of 0 data] False by simp
  qed
  have n: "first_node ?f ?pl = msg_node op ser sid data ?l None"
    using assms(5) by (simp add: first_node_def msg_node_def wire_def)
  have e: "fr_wholePktLen ?f = fr_payLoadLength ?f \<longleftrightarrow> length data \<le> 84"
    using u l by (auto simp: wire_def word_unat_eq_iff)
  note R = r [unfolded recv_first_new [OF g disjI2 [OF TrueI] c] Let_def n e]
  let ?st1 = "GwOamMessageListNodeAdd st p (msg_node op ser sid data ?l None)"
  from timer_add_armed [OF assms(3)] obtain ts where t: "oam_timer_add (om_timers ?st1) (Some a) p = Some (Some a, ts)" "armed ts a"
    "\<forall>b. b \<noteq> a \<longrightarrow> disarmed (om_timers st) b \<longrightarrow> disarmed ts b"
    by (auto simp: GwOamMessageListNodeAdd_def)
  show ?thesis
  proof (cases "84 < length data")
    case True
    then have k: "?l = 84" using l by simp
    show ?thesis using True t R unfolding k by (auto simp: holds_msg_def GwOamMessageListNodeAdd_def msg_node_def)
  next
    case False
    then have k: "?l = length data" using l by simp
    show ?thesis using False R unfolding k by (auto simp: holds_msg_def GwOamMessageListNodeAdd_def)
  qed
qed

lemma wire_of_frame:
  "GwCommOamHeadBuild op ser (of_nat (length data)) (Some sid) = Some h \<Longrightarrow> length sid = 8 \<Longrightarrow>
   frame_swap (fst (frag_frame h data i)) = wire op ser sid data i"
  by (auto simp: GwCommOamHeadBuild_def frag_frame_fst frame_swap_def wire_def GwOUI_def split: if_splits)

lemma send_frames:
  assumes "CommOnuMsgSend op ser data (Some sid) = (0, fs)"
  shows "length data \<le> 65495 \<and> (\<exists>h. GwCommOamHeadBuild op ser (of_nat (length data)) (Some sid) = Some h \<and>
    fs = map (frag_frame h data) [0..<frag_count (length data)])"
proof -
  have len: "length data \<le> 65495"
    using assms by (auto simp: CommOnuMsgSend_def OAM_DATA_LEN_def sizeof_GWTT_OAM_HEADER_def split: if_splits)
  then obtain h where h: "GwCommOamHeadBuild op ser (of_nat (length data)) (Some sid) = Some h"
    using assms by (auto simp: CommOnuMsgSend_def OAM_DATA_LEN_def sizeof_GWTT_OAM_HEADER_def split: option.splits)
  show ?thesis
  proof (cases "84 < length data")
    case True
    then show ?thesis using assms len h send_loop_frames [of 0 data h]
      by (simp add: CommOnuMsgSend_def OAM_DATA_LEN_def sizeof_GWTT_OAM_HEADER_def)
  next
    case False
    then have "frag_count (length data) = 1" by (auto simp: frag_count_def max_def)
    moreover have "h\<lparr>fr_payLoadLength := gwd_htons (of_nat (length data)), fr_payloadOffset := 0, fr_payload := data\<rparr> =
      fst (frag_frame h data 0)" using False by (simp add: frag_frame_fst frag_def)
    ultimately show ?thesis using assms len h False
      by (auto simp: CommOnuMsgSend_def OAM_DATA_LEN_def sizeof_GWTT_OAM_HEADER_def frag_def
          frag_frame_snd prod_eq_iff split: if_splits)
  qed
qed

lemma collect_all:
  assumes "om_heap st p = None" "GwOamMessageListGetNode st ser = None" "\<forall>a\<in>set tas. disarmed (om_timers st) a"
    and "length data \<le> 65495" "length sid = 8" "GwOamRecevOpcodeCheck op = OAM_MESSAGE_RECEV_OPCODE_OK"
    and "length tas = frag_count (length data)"
  shows "if \<forall>b\<in>set (butlast (tl tas)). b = hd tas
    then \<exists>rs st' h. recv_run (Some p) st (zip (map Some tas) (map (wire op ser sid data) [0..<frag_count (length data)])) =
        Some (rs @ [(OAM_MESSAGE_RECEV_OK, Some p)], st') \<and>
      list_all (\<lambda>x. snd x = None) rs \<and> holds_msg st st' p (msg_node op ser sid data (length data) h) \<and> disarmed (om_timers st') (hd tas)
    else recv_run (Some p) st (zip (map Some tas) (map (wire op ser sid data) [0..<frag_count (length data)])) = None"
proof -
  have "0 < frag_count (length data)" by (simp add: frag_count_def)
  then have m: "map (wire op ser sid data) [0..<frag_count (length data)] =
      wire op ser sid data 0 # map (wire op ser sid data) [1..<frag_count (length data)]"
    by (simp add: upt_conv_Cons)
  obtain a as where tas: "tas = a # as" using assms(7) \<open>0 < frag_count (length data)\<close> by (cases tas) auto
  have a: "disarmed (om_timers st) a" using assms(3) by (simp add: tas)
  from collect_first [OF assms(1,2) a assms(4-6)] obtain st1 where f: "if 84 < length data
    then CommOnuMsgReveive (Some p) True (Some a) st (wire op ser sid data 0) = Some (OAM_MESSAGE_RECEV_ERR, None, st1) \<and>
      holds_msg st st1 p (msg_node op ser sid data 84 (Some a)) \<and> armed (om_timers st1) a \<and>
      (\<forall>b. b \<noteq> a \<longrightarrow> disarmed (om_timers st) b \<longrightarrow> disarmed (om_timers st1) b)
    else CommOnuMsgReveive (Some p) True (Some a) st (wire op ser sid data 0) = Some (OAM_MESSAGE_RECEV_OK, Some p, st1) \<and>
      holds_msg st st1 p (msg_node op ser sid data (length data) None) \<and> om_timers st1 = om_timers st" by blast
  show ?thesis
  proof (cases "84 < length data")
    case True
    with f have f1: "CommOnuMsgReveive (Some p) True (Some a) st (wire op ser sid data 0) = Some (OAM_MESSAGE_RECEV_ERR, None, st1)"
      and g: "holds_msg st st1 p (msg_node op ser sid data (84 * 1) (Some a))" "armed (om_timers st1) a"
      and o: "\<forall>b\<in>set as. b \<noteq> a \<longrightarrow> disarmed (om_timers st1) b" using assms(3) by (simp_all add: tas)
    have l: "length as = frag_count (length data) - 1" using assms(7) by (simp add: tas)
    have "84 * 1 < length data" using True by simp
    note rest = collect_run [OF g assms(4) zero_less_one this assms(6) l o, of "Some p"]
    show ?thesis
    proof (cases "\<forall>b\<in>set (butlast as). b = a")
      case same: True
      from rest [unfolded if_P [OF same]] have
        "\<exists>rs st'. recv_run (Some p) st1 (zip (map Some as) (map (wire op ser sid data) [1..<frag_count (length data)])) =
            Some (rs @ [(OAM_MESSAGE_RECEV_OK, Some p)], st') \<and> list_all (\<lambda>x. snd x = None) rs \<and>
          (holds_msg st st' p (msg_node op ser sid data (length data) (Some a)) \<and> disarmed (om_timers st') a)" .
      from run_cons(1) [OF f1 this] same show ?thesis unfolding m tas list.map zip_Cons_Cons list.sel by auto
    next
      case False
      from run_cons(2) [OF f1 rest [unfolded if_not_P [OF False]]] False show ?thesis unfolding m tas list.map zip_Cons_Cons list.sel by simp
    qed
  next
    case False
    then have "frag_count (length data) = 1" by (auto simp: frag_count_def max_def)
    then show ?thesis using f False a assms(7) unfolding m tas by (auto intro!: exI [of _ "[]"])
  qed
qed

text \<open>With unique serial numbers the search for a node's number finds the node.\<close>

lemma get_node_unique:
  assumes "oam_wf st" "q \<in> set (om_list st)" "om_heap st q = Some n"
  shows "GwOamMessageListGetNode st (on_SendSerNo n) = Some q"
proof (cases "GwOamMessageListGetNode st (on_SendSerNo n)")
  case None
  then show ?thesis using assms(2,3) by (auto simp: get_node_None om_serno_def)
next
  case (Some q')
  then have "q' \<in> set (om_list st)" "om_serno st q' = om_serno st q" using get_node_Some assms(3) by (auto simp: om_serno_def)
  then show ?thesis using assms(1,2) Some by (auto simp: oam_wf_def distinct_map inj_on_def)
qed

section \<open>Properties\<close>

text \<open>
  C2. A message of at most 65495 bytes with an opcode that may be sent goes out in the fewest
  frames of at most 84 bytes, numbered by their offset: frame \<open>i\<close> carries the serial number,
  opcode and total length of the message, its own offset \<open>84 * i\<close> and length in network order, and
  the payloads put together are the message. A longer message or another opcode sends nothing.
\<close>

theorem send_fragments:
  assumes "pSessionIdfield = Some sid"
  shows "if length data > 65495 then CommOnuMsgSend op ser data pSessionIdfield = (-1, [])
    else if GwOamSendOpcodeCheck op = OAM_MESSAGE_RECEV_OPCODE_ERR then CommOnuMsgSend op ser data pSessionIdfield = (10, [])
    else \<exists>fs. CommOnuMsgSend op ser data pSessionIdfield = (0, fs) \<and>
      length fs = max 1 ((length data + 83) div 84) \<and> concat (map (fr_payload \<circ> fst) fs) = data \<and>
      (\<forall>i < length fs. let f = fst (fs ! i); n = length (fr_payload f) in
         n \<le> 84 \<and> snd (fs ! i) = 40 + n \<and> fr_opCode f = op \<and> fr_senderSerNo f = ser \<and> fr_oui f = GwOUI \<and>
         fr_sessionId f = take 8 sid \<and> unat (gwd_htons (fr_wholePktLen f)) = length data \<and>
         unat (gwd_htons (fr_payloadOffset f)) = 84 * i \<and> unat (gwd_htons (fr_payLoadLength f)) = n)"
proof -
  let ?h = "\<lparr>fr_oui = [0x00, 0x0F, 0xE9], fr_opCode = op, fr_senderSerNo = ser,
     fr_wholePktLen = gwd_htons (of_nat (length data)), fr_payloadOffset = 0, fr_payLoadLength = 0,
     fr_sessionId = take 8 sid, fr_payload = []\<rparr>"
  let ?fs = "map (frag_frame ?h data) [0..<frag_count (length data)]"
  consider "length data > 65495" | "length data \<le> 65495" "GwOamSendOpcodeCheck op = OAM_MESSAGE_RECEV_OPCODE_ERR"
    | "length data \<le> 65495" "GwOamSendOpcodeCheck op \<noteq> OAM_MESSAGE_RECEV_OPCODE_ERR" by linarith
  then show ?thesis
  proof cases
    case 3
    have 1: "CommOnuMsgSend op ser data pSessionIdfield = (0, ?fs)"
    proof (cases "84 < length data")
      case True
      then show ?thesis using 3 assms send_loop_frames [of 0 data ?h]
        by (simp add: CommOnuMsgSend_def OAM_DATA_LEN_def sizeof_GWTT_OAM_HEADER_def GwCommOamHeadBuild_def)
    next
      case False
      then have "frag_count (length data) = 1" by (auto simp: frag_count_def max_def)
      then show ?thesis using 3 assms False
        by (simp add: CommOnuMsgSend_def OAM_DATA_LEN_def sizeof_GWTT_OAM_HEADER_def GwCommOamHeadBuild_def
            frag_frame_def data_frame_def frag_def)
    qed
    have 2: "concat (map (fr_payload \<circ> fst) ?fs) = data"
      using concat_frags [of data 0] by (simp add: comp_def frag_frame_fst)
    have 4: "84 * i < 65536" if "i < frag_count (length data)" for i
      using that 3 by (auto simp: frag_count_def max_def split: if_splits)
    have 5: "length (frag data i) \<le> 84" for i by (simp add: frag_def)
    have 6: "fst (?fs ! i) = ?h\<lparr>fr_payLoadLength := gwd_htons (of_nat (length (frag data i))),
         fr_payloadOffset := gwd_htons (of_nat (84 * i)), fr_payload := frag data i\<rparr>"
      "snd (?fs ! i) = 40 + length (frag data i)" if "i < frag_count (length data)" for i
      using that by (simp_all add: frag_frame_fst frag_frame_snd)
    have 7: "let f = fst (?fs ! i); n = length (fr_payload f) in
         n \<le> 84 \<and> snd (?fs ! i) = 40 + n \<and> fr_opCode f = op \<and> fr_senderSerNo f = ser \<and> fr_oui f = GwOUI \<and>
         fr_sessionId f = take 8 sid \<and> unat (gwd_htons (fr_wholePktLen f)) = length data \<and>
         unat (gwd_htons (fr_payloadOffset f)) = 84 * i \<and> unat (gwd_htons (fr_payLoadLength f)) = n"
      if i: "i < frag_count (length data)" for i
    proof -
      have "length (frag data i) < 65536" using 5 [of i] by simp
      then show ?thesis unfolding 6 [OF i] Let_def using 3 5 [of i] 4 [OF i]
        by (simp add: GwOUI_def unat_of_nat_u16 del: of_nat_mult)
    qed
    have "length ?fs = max 1 ((length data + 83) div 84)" by (simp add: frag_count_def)
    then show ?thesis using 3 1 2 7 by (subst if_not_P, simp, subst if_not_P, simp) auto
  qed (use assms in \<open>simp_all add: CommOnuMsgSend_def OAM_DATA_LEN_def sizeof_GWTT_OAM_HEADER_def GwCommOamHeadBuild_def\<close>)
qed

text \<open>
  C1. A message sent by \<^verbatim>\<open>CommOnuMsgSend\<close> and received, fragment by fragment, by a side of
  the other byte order is put together again: the last frame, and only it, hands out the node,
  which holds the opcode, serial number, session and bytes of the message. The other messages
  under reassembly are untouched and the first timer of the message is gone. \<open>tas\<close> are the addresses that \<^verbatim>\<open>malloc\<close> gives for the timers
  started with the fragments, free ones at the start. This holds of every message of one or two fragments. The handle of the timer
  that a middle fragment starts is not kept: when one of them is allocated at another address than the first timer,
  the next fragment deletes the first timer again, which is freed, and the receiver faults.
\<close>

theorem message_roundtrip:
  assumes "CommOnuMsgSend op ser data (Some sid) = (0, fs)" "length sid = 8"
    and "GwOamRecevOpcodeCheck op = OAM_MESSAGE_RECEV_OPCODE_OK"
    and "GwOamMessageListGetNode st ser = None" "om_heap st p = None"
    and "length tas = length fs" "\<forall>a\<in>set tas. disarmed (om_timers st) a"
  shows "if \<forall>i. 0 < i \<and> i + 1 < length fs \<longrightarrow> tas ! i = tas ! 0
    then \<exists>rs st' n. recv_run (Some p) st (zip (map Some tas) (map (frame_swap \<circ> fst) fs)) = Some (rs @ [(OAM_MESSAGE_RECEV_OK, Some p)], st') \<and>
      list_all (\<lambda>x. snd x = None) rs \<and> om_list st' = p # om_list st \<and> om_heap st' = (om_heap st)(p := Some n) \<and>
      on_GwOpcode n = op \<and> on_SendSerNo n = ser \<and> on_SessionID n = sid \<and>
      unat (on_WholePktLen n) = length data \<and> on_RevPktLen n = on_WholePktLen n \<and>
      on_pPayLoad n = (if data = [] then None else Some (data @ [0])) \<and> disarmed (om_timers st') (tas ! 0)
    else recv_run (Some p) st (zip (map Some tas) (map (frame_swap \<circ> fst) fs)) = None"
proof -
  from send_frames [OF assms(1)] obtain h where
    len: "length data \<le> 65495" and h: "GwCommOamHeadBuild op ser (of_nat (length data)) (Some sid) = Some h"
    and fs: "fs = map (frag_frame h data) [0..<frag_count (length data)]" by blast
  have m: "map (frame_swap \<circ> fst) fs = map (wire op ser sid data) [0..<frag_count (length data)]"
    using wire_of_frame [OF h assms(2)] by (simp add: fs)
  have l: "length tas = frag_count (length data)" "length tas = length fs" using assms(6) by (simp_all add: fs)
  then have "tas \<noteq> []" by (auto simp: frag_count_def)
  then have hd: "hd tas = tas ! 0" by (simp add: hd_conv_nth)
  have eq: "(\<forall>b\<in>set (butlast (tl tas)). b = tas ! 0) \<longleftrightarrow> (\<forall>i. 0 < i \<and> i + 1 < length fs \<longrightarrow> tas ! i = tas ! 0)"
  proof
    assume a: "\<forall>b\<in>set (butlast (tl tas)). b = tas ! 0"
    show "\<forall>i. 0 < i \<and> i + 1 < length fs \<longrightarrow> tas ! i = tas ! 0"
    proof (intro allI impI, elim conjE)
      fix i assume i: "0 < i" "i + 1 < length fs"
      then have "butlast (tl tas) ! (i - 1) = tas ! i" "i - 1 < length (butlast (tl tas))" using l(2) by (auto simp: nth_butlast nth_tl)
      then show "tas ! i = tas ! 0" using a by (metis nth_mem)
    qed
  next
    assume a: "\<forall>i. 0 < i \<and> i + 1 < length fs \<longrightarrow> tas ! i = tas ! 0"
    show "\<forall>b\<in>set (butlast (tl tas)). b = tas ! 0"
    proof
      fix b assume "b \<in> set (butlast (tl tas))"
      then obtain k where "k < length (butlast (tl tas))" and b: "b = butlast (tl tas) ! k" unfolding in_set_conv_nth by blast
      then have k: "k < length tas - 2" by simp
      then have "b = tas ! Suc k" unfolding b by (simp add: nth_butlast nth_tl)
      then show "b = tas ! 0" using a k l(2) by auto
    qed
  qed
  show ?thesis
  proof (cases "\<forall>i. 0 < i \<and> i + 1 < length fs \<longrightarrow> tas ! i = tas ! 0")
    case True
    with collect_all [OF assms(5,4,7) len assms(2,3) l(1)] obtain rs st' h where
      r: "recv_run (Some p) st (zip (map Some tas) (map (frame_swap \<circ> fst) fs)) = Some (rs @ [(OAM_MESSAGE_RECEV_OK, Some p)], st')"
      "list_all (\<lambda>x. snd x = None) rs" "holds_msg st st' p (msg_node op ser sid data (length data) h)" "disarmed (om_timers st') (tas ! 0)"
      unfolding m hd eq by auto
    show ?thesis unfolding if_P [OF True]
      using r len by (intro exI [of _ rs] exI [of _ st'] exI [of _ "msg_node op ser sid data (length data) h"])
        (simp add: holds_msg_def msg_node_def unat_of_nat_u16)
  next
    case False
    show ?thesis using collect_all [OF assms(5,4,7) len assms(2,3) l(1)] unfolding m hd eq if_not_P [OF False] .
  qed
qed

text \<open>
  A later fragment whose payload is as long as it says is never copied beyond the buffer of its message: a fault is one of the
  timer calls.
\<close>

lemma next_no_overrun:
  assumes "oam_wf st" "unat (ntohs (fr_payLoadLength f)) \<le> length (fr_payload f)" "recv_next ta st f = None"
  shows "\<exists>q n. GwOamMessageListGetNode st (fr_senderSerNo f) = Some q \<and> om_heap st q = Some n \<and>
    (gw_timer_del (om_timers st) (on_TimerID n) = None \<or>
     (\<exists>r ts. gw_timer_del (om_timers st) (on_TimerID n) = Some (r, ts) \<and> oam_timer_add ts ta q = None))"
proof -
  from assms(3) obtain q where q: "GwOamMessageListGetNode st (fr_senderSerNo f) = Some q"
    by (cases "GwOamMessageListGetNode st (fr_senderSerNo f)") (auto simp: recv_next_def)
  then have "q \<in> set (om_list st)" using get_node_Some by blast
  then obtain n where n: "om_heap st q = Some n" "node_wf n" using oam_wf_node [OF assms(1)] by blast
  have copy: "copy_to (on_pPayLoad n) (unat (on_RevPktLen n)) (fr_payload f) (unat (ntohs (fr_payLoadLength f))) \<noteq> None"
    if "\<not> unat (on_WholePktLen n) < unat (on_RevPktLen n) + unat (ntohs (fr_payLoadLength f))"
  proof (cases "on_WholePktLen n = 0")
    case True
    then show ?thesis using that by (simp add: copy_to_def)
  next
    case False
    then obtain b where "on_pPayLoad n = Some b" "length b = unat (on_WholePktLen n) + 1" using node_wf_buffer [OF n(2)] by blast
    then show ?thesis using that assms(2) by (auto simp: copy_to_def)
  qed
  show ?thesis using assms(3) q n copy by (auto simp: recv_next_def Let_def split: if_splits option.splits prod.splits)
qed

text \<open>
  C26. The message list stays well formed whatever frames arrive and whenever messages time out
  or are released: distinct allocated nodes with different serial numbers, each with a buffer of
  its message's length plus one, and no more bytes counted than the buffer holds. A later fragment with as many bytes of payload as it says
  is never copied beyond the buffer: when receiving it faults, one of the two calls of the timer service does. A timeout
  removes exactly the message of its timer.
\<close>

theorem oam_list_invariant:
  assumes "oam_wf st" "om_heap st p = None"
  shows "(CommOnuMsgReveive (Some p) buf ta st f = Some (r, msg, st1) \<longrightarrow> oam_wf st1) \<and>
    (q \<in> set (om_list st) \<longrightarrow> (\<exists>st2. OamMessageRecevTimeOut st q = Some st2 \<and> oam_wf st2 \<and>
       om_list st2 = remove1 q (om_list st) \<and> om_heap st2 = (om_heap st)(q := None))) \<and>
    oam_wf (GwOamMessageListNodeFree st pNode) \<and>
    (ntohs (fr_payloadOffset f) \<noteq> 0 \<and> unat (ntohs (fr_payLoadLength f)) \<le> length (fr_payload f) \<and> CommOnuMsgReveive (Some p) buf ta st f = None \<longrightarrow>
       (\<exists>k n. GwOamMessageListGetNode st (fr_senderSerNo f) = Some k \<and> om_heap st k = Some n \<and>
         (gw_timer_del (om_timers st) (on_TimerID n) = None \<or>
          (\<exists>r ts. gw_timer_del (om_timers st) (on_TimerID n) = Some (r, ts) \<and> oam_timer_add ts ta k = None))))"
proof (intro conjI impI)
  show "oam_wf st1" if "CommOnuMsgReveive (Some p) buf ta st f = Some (r, msg, st1)"
    by (rule receive_wf [OF assms(1) that assms(2)])
next
  assume q: "q \<in> set (om_list st)"
  then obtain n where n: "om_heap st q = Some n" using oam_wf_node [OF assms(1)] by blast
  have g: "GwOamMessageListGetNode st (on_SendSerNo n) = Some q" by (rule get_node_unique [OF assms(1) q n])
  show "\<exists>st2. OamMessageRecevTimeOut st q = Some st2 \<and> oam_wf st2 \<and>
       om_list st2 = remove1 q (om_list st) \<and> om_heap st2 = (om_heap st)(q := None)"
    using oam_wf_free [OF assms(1), of "Some q"] n g q
    by (simp add: OamMessageRecevTimeOut_def om_serno_def GwOamMessageListNodeFree_def GwOamMessageListNodeRem_def)
next
  assume "ntohs (fr_payloadOffset f) \<noteq> 0 \<and> unat (ntohs (fr_payLoadLength f)) \<le> length (fr_payload f) \<and> CommOnuMsgReveive (Some p) buf ta st f = None"
  then have "recv_next ta st f = None" "unat (ntohs (fr_payLoadLength f)) \<le> length (fr_payload f)"
    by (auto simp: CommOnuMsgReveive_def split: if_splits)
  from next_no_overrun [OF assms(1) this(2,1)] show "\<exists>k n. GwOamMessageListGetNode st (fr_senderSerNo f) = Some k \<and> om_heap st k = Some n \<and>
         (gw_timer_del (om_timers st) (on_TimerID n) = None \<or>
          (\<exists>r ts. gw_timer_del (om_timers st) (on_TimerID n) = Some (r, ts) \<and> oam_timer_add ts ta k = None))" .
qed (rule oam_wf_free [OF assms(1)])

text \<open>
  C34. A first fragment that claims more bytes than its message has, plus one, is copied beyond
  the buffer of the message.
\<close>

theorem first_fragment_overflow:
  assumes "fr_oui f = GwOUI" "GwOamRecevOpcodeCheck (fr_opCode f) = OAM_MESSAGE_RECEV_OPCODE_OK"
    and "fr_payloadOffset f = 0" "GwOamMessageListGetNode st (fr_senderSerNo f) = None"
    and "unat (fr_wholePktLen f) + 1 < unat (fr_payLoadLength f)"
  shows "CommOnuMsgReveive (Some p) True ta st f = None"
proof -
  have "copy_to (first_buf f) 0 (fr_payload f) (unat (fr_payLoadLength f)) = None"
    using assms(5) by (auto simp: first_buf_def copy_to_def)
  then show ?thesis using assms receive_ok [OF assms(1,2)] recv_first_overflow [OF assms(4) disjI2 [OF TrueI]] by simp
qed

theorem first_fragment_overflow_witness:
  "CommOnuMsgReveive (Some 3) True None \<lparr>om_heap = (\<lambda>_. None), om_list = [],
       om_timers = snd (gw_timer_init gw_osal_core_init True (Some 2) 7 0)\<rparr>
     \<lparr>fr_oui = [0x00, 0x0f, 0xe9], fr_opCode = 1, fr_senderSerNo = 7, fr_wholePktLen = 4, fr_payloadOffset = 0,
      fr_payLoadLength = 60, fr_sessionId = [], fr_payload = replicate 60 1\<rparr> = None"
  by (rule first_fragment_overflow)
    (simp_all add: GwOUI_def GwOamRecevOpcodeCheck_def oam_opcodes GwOamMessageListGetNode_def)

text \<open>
  A frame that holds a whole message is dispatched on its opcode. Its node is released,
  unless the message goes to the asynchronous command line, which keeps it. A frame from port 0
  is dropped.
\<close>

theorem single_frame_dispatch:
  assumes "fr_oui f = GwOUI" "GwOamRecevOpcodeCheck (fr_opCode f) = OAM_MESSAGE_RECEV_OPCODE_OK"
    and "fr_payloadOffset f = 0" "fr_wholePktLen f = fr_payLoadLength f" "unat (fr_payLoadLength f) \<le> length (fr_payload f)"
    and "GwOamMessageListGetNode st (fr_senderSerNo f) = None" "om_heap st p = None" "p \<notin> set (om_list st)" "40 \<le> len"
  shows "\<exists>st'. Gwd_Oam_Handle (Some p) True ta st port f len =
      (if port = 0 then Some (None, st) else Some (Some (oam_action_of (fr_opCode f) p), st')) \<and>
    om_timers st' = om_timers st \<and>
    (if fr_opCode f = CLI_REQ_TRANSMIT then om_list st' = p # om_list st \<and> om_heap st' p \<noteq> None
     else om_list st' = om_list st \<and> om_heap st' = om_heap st)"
proof -
  obtain pl where c: "copy_to (first_buf f) 0 (fr_payload f) (unat (fr_payLoadLength f)) = Some pl"
  proof (cases "fr_payLoadLength f = 0")
    case False
    then have b: "first_buf f = Some (replicate (unat (fr_payLoadLength f) + 1) 0)" using assms(4) by (simp add: first_buf_def)
    show ?thesis by (rule that, unfold b, rule copy_to_fits) (use assms(5) in simp_all)
  qed (use that in \<open>simp add: copy_to_def\<close>)
  let ?st1 = "GwOamMessageListNodeAdd st p (first_node f pl)"
  have r: "CommOnuMsgReveive (Some p) True ta st f = Some (OAM_MESSAGE_RECEV_OK, Some p, ?st1)"
    using receive_ok [OF assms(1,2)] recv_first_new [OF assms(6) disjI2 [OF TrueI] c] assms(3,4) by simp
  have n: "om_heap ?st1 p = Some (first_node f pl)" "on_GwOpcode (first_node f pl) = fr_opCode f" "om_list ?st1 = p # om_list st"
    "om_timers ?st1 = om_timers st" "(om_heap ?st1)(p := None) = om_heap st"
    using assms(7) by (auto simp: GwOamMessageListNodeAdd_def first_node_def)
  define st' where "st' = (if fr_opCode f = CLI_REQ_TRANSMIT then ?st1 else GwOamMessageListNodeFree ?st1 (Some p))"
  have "Gwd_Oam_Handle (Some p) True ta st port f len =
      (if port = 0 then Some (None, st) else Some (Some (oam_action_of (fr_opCode f) p), st'))"
    using assms(9) r n by (simp add: Gwd_Oam_Handle_def sizeof_GWTT_OAM_HEADER_def st'_def Let_def)
  moreover have "om_timers st' = om_timers st \<and>
    (if fr_opCode f = CLI_REQ_TRANSMIT then om_list st' = p # om_list st \<and> om_heap st' p \<noteq> None
     else om_list st' = om_list st \<and> om_heap st' = om_heap st)"
    using n by (simp add: st'_def GwOamMessageListNodeFree_def GwOamMessageListNodeRem_def)
  ultimately show ?thesis by blast
qed

theorem single_frame_dispatch_witness:
  "\<exists>st'. Gwd_Oam_Handle (Some 3) True None \<lparr>om_heap = (\<lambda>_. None), om_list = [],
       om_timers = snd (gw_timer_init gw_osal_core_init True (Some 2) 7 0)\<rparr> 5
     \<lparr>fr_oui = [0x00, 0x0f, 0xe9], fr_opCode = 1, fr_senderSerNo = 7, fr_wholePktLen = 2, fr_payloadOffset = 0,
      fr_payLoadLength = 2, fr_sessionId = [], fr_payload = [1, 6]\<rparr> 50 = Some (Some (InformationRequest 3), st') \<and> om_list st' = []"
  using single_frame_dispatch [of "\<lparr>fr_oui = [0x00, 0x0f, 0xe9], fr_opCode = 1, fr_senderSerNo = 7, fr_wholePktLen = 2, fr_payloadOffset = 0,
      fr_payLoadLength = 2, fr_sessionId = [], fr_payload = [1, 6]\<rparr>" "\<lparr>om_heap = (\<lambda>_. None), om_list = [],
       om_timers = snd (gw_timer_init gw_osal_core_init True (Some 2) 7 0)\<rparr>" 3 50 None 5]
  by (fastforce simp: GwOUI_def GwOamRecevOpcodeCheck_def oam_opcodes GwOamMessageListGetNode_def oam_action_of_def)

section \<open>Witnesses\<close>

text \<open>The state after the start: no message, no timer.\<close>

definition oam_start :: oam_state where
  "oam_start = \<lparr>om_heap = (\<lambda>_. None), om_list = [], om_timers = snd (gw_timer_init gw_osal_core_init True (Some 2) 7 0)\<rparr>"

lemma oam_start_ok:
  "oam_wf oam_start" "om_heap oam_start p = None" "GwOamMessageListGetNode oam_start ser = None" "disarmed (om_timers oam_start) a"
  by (simp_all add: oam_start_def oam_wf_def GwOamMessageListGetNode_def disarmed_def timers_wf_def gw_timer_init_def split: prod.split)

lemma opcode_pty: "GwOamRecevOpcodeCheck 0x14 = OAM_MESSAGE_RECEV_OPCODE_OK"
  by (simp add: GwOamRecevOpcodeCheck_def oam_opcodes)

lemma send_start: "\<exists>fs. CommOnuMsgSend 0x14 5 (replicate 200 9) (Some (replicate 8 1)) = (0, fs) \<and>
     GwCommOamHeadBuild 0x14 5 200 (Some (replicate 8 1)) \<noteq> None"
  by (simp add: CommOnuMsgSend_def GwCommOamHeadBuild_def GwOamSendOpcodeCheck_def oam_opcodes OAM_DATA_LEN_def sizeof_GWTT_OAM_HEADER_def)

text \<open>Three fragments: the second timer at the address of the first, and at another one.\<close>

theorem message_roundtrip_witness:
  "\<exists>fs rs st' n. CommOnuMsgSend 0x14 5 (replicate 200 9) (Some (replicate 8 1)) = (0, fs) \<and>
     recv_run (Some 3) oam_start (zip (map Some [4, 4, 6]) (map (frame_swap \<circ> fst) fs)) = Some (rs @ [(OAM_MESSAGE_RECEV_OK, Some 3)], st') \<and>
     om_heap st' 3 = Some n \<and> on_pPayLoad n = Some (replicate 200 9 @ [0]) \<and>
     recv_run (Some 3) oam_start (zip (map Some [4, 6, 4]) (map (frame_swap \<circ> fst) fs)) = None"
proof -
  from send_start obtain fs where s: "CommOnuMsgSend 0x14 5 (replicate 200 9) (Some (replicate 8 1)) = (0, fs)" by blast
  have l: "length (replicate 8 (1 :: u8)) = 8" by simp
  from send_frames [OF s] have n: "length fs = 3" by (auto simp: frag_count_def)
  have d: "\<forall>a\<in>set tas. disarmed (om_timers oam_start) a" for tas by (simp add: oam_start_ok(4))
  have r: "\<forall>i. 0 < i \<and> i + 1 < length fs \<longrightarrow> [4, 4, 6 :: addr] ! i = [4, 4, 6] ! 0"
    using n by (auto simp: less_Suc_eq numeral_3_eq_3)
  have w: "\<not> (\<forall>i. 0 < i \<and> i + 1 < length fs \<longrightarrow> [4, 6, 4 :: addr] ! i = [4, 6, 4] ! 0)"
    using n by (auto intro!: exI [of _ 1])
  have k: "length [4, 4, 6 :: addr] = length fs" "length [4, 6, 4 :: addr] = length fs" using n by simp_all
  note run = message_roundtrip [OF s l opcode_pty oam_start_ok(3,2) k(1) d, of 3, unfolded if_P [OF r]]
    message_roundtrip [OF s l opcode_pty oam_start_ok(3,2) k(2) d, of 3, unfolded if_not_P [OF w]]
  from run(1) obtain rs st' nd where
    "recv_run (Some 3) oam_start (zip (map Some [4, 4, 6]) (map (frame_swap \<circ> fst) fs)) = Some (rs @ [(OAM_MESSAGE_RECEV_OK, Some 3)], st')"
    "om_heap st' = (om_heap oam_start)(3 := Some nd)" "on_pPayLoad nd = (if replicate 200 (9 :: u8) = [] then None else Some (replicate 200 9 @ [0]))"
    by blast
  then show ?thesis using s run(2) by (intro exI [of _ fs] exI [of _ rs] exI [of _ st'] exI [of _ nd]) (simp del: replicate.simps)
qed

theorem oam_list_invariant_witness:
  "\<exists>st1. CommOnuMsgReveive (Some 3) True (Some 4) oam_start (wire 0x14 5 (replicate 8 1) [7, 8] 0) =
     Some (OAM_MESSAGE_RECEV_OK, Some 3, st1) \<and> oam_wf st1"
proof -
  from collect_first [OF oam_start_ok(2-4), of "[7, 8]" "replicate 8 1" "0x14" 3 4 5] opcode_pty
  obtain st1 where "CommOnuMsgReveive (Some 3) True (Some 4) oam_start (wire 0x14 5 (replicate 8 1) [7, 8] 0) =
     Some (OAM_MESSAGE_RECEV_OK, Some 3, st1)" by auto
  with oam_list_invariant [OF oam_start_ok(1,2)] show ?thesis by blast
qed

theorem send_fragments_witness:
  "\<exists>fs. CommOnuMsgSend 0x14 5 (replicate 200 9) (Some (replicate 8 1)) = (0, fs) \<and> length fs = 3"
  using send_fragments [of "Some (replicate 8 1)" "replicate 8 1" "replicate 200 9" "0x14" 5]
  by (auto simp: GwOamSendOpcodeCheck_def oam_opcodes)

end
