(* ===== verification/Lpb_List.thy ===== *)
theory Lpb_List
  imports Gw_Port Oam_Msg
begin

text \<open>
  The loop status of the ports per VLAN (\<^verbatim>\<open>apps/gwd_eth_loop_detect.c\<close>): a list of nodes, one per
  VLAN with a looped port, that the packet thread and the detection thread change under the
  semaphore \<^verbatim>\<open>gw_lpb_sem\<close>, with the alarms sent to the OLT and the ports shut and opened.
\<close>

section \<open>Data\<close>

record alarm_loop =
  al_alarmFlag :: u8
  al_portNum :: "u8 list"
  al_loopstate :: u8
  al_vlanid :: u16
  al_switchMac :: "u8 list"
  al_externFlag :: u8
  al_oltType :: u8
  al_oltMac :: "u8 list"
  al_onuLocation :: "u8 list"
  al_onuType :: u8
  al_onuMac :: "u8 list"
  al_onuPort :: "u8 list"

definition alarm_zero :: alarm_loop where
  "alarm_zero = \<lparr>al_alarmFlag = 0, al_portNum = replicate 4 0, al_loopstate = 0, al_vlanid = 0,
     al_switchMac = replicate 6 0, al_externFlag = 0, al_oltType = 0, al_oltMac = replicate 6 0,
     al_onuLocation = replicate 4 0, al_onuType = 0, al_onuMac = replicate 6 0, al_onuPort = replicate 4 0\<rparr>"

definition alarm_bytes :: "alarm_loop \<Rightarrow> u8 list" where
  "alarm_bytes a =
     al_alarmFlag a # al_portNum a @ al_loopstate a # ucast (drop_bit 8 (al_vlanid a)) # ucast (al_vlanid a) #
     al_switchMac a @ al_externFlag a # al_oltType a # al_oltMac a @ al_onuLocation a @ al_onuType a #
     al_onuMac a @ al_onuPort a"

text \<open>\<^verbatim>\<open>OAM_ONU_LPB_DETECT_FRAME\<close>: the settings of the OLT, and the local ones.\<close>

record lpb_frame =
  lf_enable :: u8
  lf_vid :: u16
  lf_smac :: "u8 list"
  lf_interval :: u16
  lf_policy :: u16
  lf_waitforwakeup :: u16
  lf_maxwakeup :: u16

text \<open>\<^verbatim>\<open>OAM_ONU_LPB_DETECT_CTRL\<close>: the node of a VLAN, with arrays indexed by the port.\<close>

record lpb_ctrl =
  ct_vid :: u16
  ct_mask :: "u8 list"
  ct_portdown :: "u8 list"
  ct_StateChg :: "u8 list"
  ct_wakeup :: "u8 list"
  ct_ClearCnt :: "u8 list"
  ct_slp :: "int list"
  ct_alarm :: "alarm_loop list"

definition lpb_ports :: nat where "lpb_ports = NUM_PORTS_PER_SYSTEM + 1"

definition ctrl_zero :: lpb_ctrl where
  "ctrl_zero = \<lparr>ct_vid = 0, ct_mask = replicate lpb_ports 0, ct_portdown = replicate lpb_ports 0,
     ct_StateChg = replicate lpb_ports 0, ct_wakeup = replicate lpb_ports 0, ct_ClearCnt = replicate lpb_ports 0,
     ct_slp = replicate lpb_ports 0, ct_alarm = replicate lpb_ports alarm_zero\<rparr>"

text \<open>
  The functions outside this code, on the state \<open>'h\<close> of the switch: the port interface functions
  (\<open>None\<close>: the call fails and stores nothing), the two allocations of a new node, the transmission
  of OAM frames, and the loop event. \<open>le_junk\<close>: what an uninitialised status variable holds.
\<close>

record 'h lpb_env =
  le_admin_get :: "'h \<Rightarrow> u32 \<Rightarrow> int option"
  le_admin_set :: "'h \<Rightarrow> u32 \<Rightarrow> int \<Rightarrow> int \<times> 'h"
  le_malloc :: "'h \<Rightarrow> bool \<times> bool"
  le_oam_tx :: "'h \<Rightarrow> (oam_frame \<times> nat) list \<Rightarrow> 'h"
  le_loop_event :: "'h \<Rightarrow> int \<Rightarrow> int \<times> 'h"
  le_junk :: int

text \<open>The global variables of the file, the value of the semaphore and the state of the switch.\<close>

record 'h lpb_state =
  lp_list :: "lpb_ctrl list"
  lp_sem :: nat
  lp_oam :: lpb_frame
  lp_local :: lpb_frame
  lp_PortDown :: "u32 list"
  lp_WakeupCounter :: "u32 list"
  lp_RecFlag :: "u32 list"
  lp_IgnorePort :: "u32 list"
  lp_timeCounter :: u32
  lp_Mode :: u32
  lp_Register :: u32
  lp_thread_id :: u32
  lp_session :: "u8 list"
  lp_sendAlarm :: alarm_loop
  lp_hw :: 'h

definition PORT_ADMIN_DOWN :: int where "PORT_ADMIN_DOWN = 0"
definition PORT_ADMIN_UP :: int where "PORT_ADMIN_UP = 1"
definition GWD_ETH_PORT_LOOP_ALARM :: int where "GWD_ETH_PORT_LOOP_ALARM = 1"
definition GWD_ETH_PORT_LOOP_ALARM_CLEAR :: int where "GWD_ETH_PORT_LOOP_ALARM_CLEAR = 2"
definition ONU_PORT_LOOP_ALARM :: u8 where "ONU_PORT_LOOP_ALARM = 11"
definition LPB_OAM_SEND_INTERVAL :: u32 where "LPB_OAM_SEND_INTERVAL = 1"

section \<open>The semaphore\<close>

text \<open>\<open>None\<close>: the caller waits for ever. The functions take it, run a body and give it back.\<close>

definition gw_lpb_sem_take :: "'h lpb_state \<Rightarrow> 'h lpb_state option" where
  "gw_lpb_sem_take s = (if lp_sem s = 0 then None else Some (s\<lparr>lp_sem := lp_sem s - 1\<rparr>))"

definition gw_lpb_sem_give :: "'h lpb_state \<Rightarrow> 'h lpb_state" where
  "gw_lpb_sem_give s = s\<lparr>lp_sem := lp_sem s + 1\<rparr>"

definition lpb_locked :: "('h lpb_state \<Rightarrow> 'r \<times> 'h lpb_state) \<Rightarrow> 'h lpb_state \<Rightarrow> ('r \<times> 'h lpb_state) option" where
  "lpb_locked f s =
     (case gw_lpb_sem_take s of
        None \<Rightarrow> None
      | Some s1 \<Rightarrow> (case f s1 of (r, s2) \<Rightarrow> Some (r, gw_lpb_sem_give s2)))"

section \<open>Nodes\<close>

text \<open>The position of a VLAN's node, the length of the list when there is none.\<close>

definition getVlanLpbStasNode :: "'h lpb_state \<Rightarrow> u16 \<Rightarrow> nat" where
  "getVlanLpbStasNode s vid = first_idx (\<lambda>c. ct_vid c = vid) (lp_list s)"

definition deleteLpbStatsNode :: "u16 \<Rightarrow> 'h lpb_state \<Rightarrow> 'h lpb_state" where
  "deleteLpbStatsNode vid s =
     (let k = getVlanLpbStasNode s vid in s\<lparr>lp_list := take k (lp_list s) @ drop (Suc k) (lp_list s)\<rparr>)"

definition upd_ctrl :: "nat \<Rightarrow> (lpb_ctrl \<Rightarrow> lpb_ctrl) \<Rightarrow> 'h lpb_state \<Rightarrow> 'h lpb_state" where
  "upd_ctrl k f s = s\<lparr>lp_list := (lp_list s)[k := f (lp_list s ! k)]\<rparr>"

text \<open>The settings in force.\<close>

definition lpb_active :: "'h lpb_state \<Rightarrow> lpb_frame" where
  "lpb_active s = (if lf_enable (lp_local s) = 0 then lp_oam s else lp_local s)"

section \<open>Alarms\<close>

definition MAX_GWD_OLT_SLOT :: u8 where "MAX_GWD_OLT_SLOT = 24"
definition MAX_GWD_OLT_PORT :: u8 where "MAX_GWD_OLT_PORT = 16"

definition notify_alarm :: "u8 \<Rightarrow> u8 \<Rightarrow> u16 \<Rightarrow> alarm_loop \<Rightarrow> alarm_loop" where
  "notify_alarm port state uvid info =
     (let a = alarm_zero\<lparr>al_alarmFlag := ONU_PORT_LOOP_ALARM, al_portNum := [0, 0, 1, port],
                al_loopstate := state, al_vlanid := ntohs uvid\<rparr> in
      if al_onuLocation info ! 1 \<ge> 1 \<and> al_onuLocation info ! 1 \<le> MAX_GWD_OLT_SLOT \<and>
         al_onuLocation info ! 2 \<ge> 1 \<and> al_onuLocation info ! 2 \<le> MAX_GWD_OLT_PORT \<and>
         al_oltType info > 0 \<and> al_oltType info < 4
      then a\<lparr>al_externFlag := 1, al_oltType := al_oltType info, al_oltMac := al_oltMac info,
             al_onuLocation := al_onuLocation info, al_onuType := al_onuType info,
             al_onuMac := al_onuMac info, al_onuPort := al_onuPort info\<rparr>
      else a)"

definition sendOamLpbDetectNotifyMsg ::
  "('h, 'z) lpb_env_scheme \<Rightarrow> u8 \<Rightarrow> u8 \<Rightarrow> u16 \<Rightarrow> u8 list option \<Rightarrow> alarm_loop option \<Rightarrow> 'h lpb_state \<Rightarrow> int \<times> 'h lpb_state" where
  "sendOamLpbDetectNotifyMsg env port state uvid session pAlarmInfo s =
     (case (session, pAlarmInfo) of
        (Some sid, Some info) \<Rightarrow>
          (case CommOnuMsgSend ALARM_REQ 0 (alarm_bytes (notify_alarm port state uvid info)) (Some sid) of
             (ret, fs) \<Rightarrow> (ret, s\<lparr>lp_hw := le_oam_tx env (lp_hw s) fs, lp_RecFlag := (lp_RecFlag s)[unat port := 0]\<rparr>))
      | _ \<Rightarrow> (GW_ERROR, s))"

section \<open>Operations on the list\<close>

text \<open>The body of the loop over the ports; the count of marked ports and the state.\<close>

definition report_port ::
  "('h, 'z) lpb_env_scheme \<Rightarrow> u16 \<Rightarrow> u8 list \<Rightarrow> nat \<Rightarrow> nat \<Rightarrow> nat \<times> 'h lpb_state \<Rightarrow> nat \<times> 'h lpb_state" where
  "report_port env vid session k i x =
     (let s = snd x;
          s1 = (if ct_portdown (lp_list s ! k) ! i \<noteq> 0
                then (if le_admin_get env (lp_hw s) (of_nat i) = Some PORT_ADMIN_UP
                      then upd_ctrl k (\<lambda>c. c\<lparr>ct_portdown := (ct_portdown c)[i := 0]\<rparr>) s else s)
                else s);
          c = lp_list s1 ! k;
          s2 = (if ct_mask c ! i \<noteq> 0 \<and> ct_ClearCnt c ! i = 0
                then (if lp_timeCounter s1 = LPB_OAM_SEND_INTERVAL
                      then snd (sendOamLpbDetectNotifyMsg env (of_nat i) 1 vid (Some session) (Some (ct_alarm c ! i)) s1)
                      else s1)
                else s1)
      in (if ct_mask c ! i \<noteq> 0 then Suc (fst x) else fst x, s2))"

definition reportPortsLpbStatus ::
  "('h, 'z) lpb_env_scheme \<Rightarrow> u16 \<Rightarrow> u8 list \<Rightarrow> 'h lpb_state \<Rightarrow> (unit \<times> 'h lpb_state) option" where
  "reportPortsLpbStatus env vid session =
     lpb_locked (\<lambda>s. let k = getVlanLpbStasNode s vid in
       if k \<ge> length (lp_list s) then ((), s)
       else (case fold (report_port env vid session k) [1..<NUM_PORTS_PER_SYSTEM] (0, s) of
               (almstats, s1) \<Rightarrow>
                 ((), if almstats = 0 then deleteLpbStatsNode (ct_vid (lp_list s1 ! k)) s1 else s1)))"

definition freeLpbStatusList :: "'h lpb_state \<Rightarrow> (unit \<times> 'h lpb_state) option" where
  "freeLpbStatusList = lpb_locked (\<lambda>s. ((), s\<lparr>lp_list := []\<rparr>))"

definition cls_port :: "nat \<Rightarrow> nat \<Rightarrow> 'h lpb_state \<Rightarrow> 'h lpb_state" where
  "cls_port k i s =
     (let c = lp_list s ! k in
      if ct_mask c ! i = 1 \<and> ct_portdown c ! i \<noteq> 1
      then (if lp_RecFlag s ! i = 0
            then upd_ctrl k (\<lambda>c. c\<lparr>ct_ClearCnt := (ct_ClearCnt c)[i := ct_ClearCnt c ! i + 1]\<rparr>) s else s)
      else s)"

definition clsPortLpbStatus :: "u16 \<Rightarrow> 'h lpb_state \<Rightarrow> (int \<times> 'h lpb_state) option" where
  "clsPortLpbStatus vid =
     lpb_locked (\<lambda>s. let k = getVlanLpbStasNode s vid in
       (0, if k < length (lp_list s) then fold (cls_port k) [1..<NUM_PORTS_PER_SYSTEM] s else s))"

text \<open>\<open>lport < 27\<close> at every call; \<open>shutdown\<close> is 0 or 1.\<close>

definition set_found :: "nat \<Rightarrow> nat \<Rightarrow> bool \<Rightarrow> 'h lpb_state \<Rightarrow> 'h lpb_state" where
  "set_found k lport shutdown s =
     (let s1 = upd_ctrl k (\<lambda>c. c\<lparr>ct_ClearCnt := (ct_ClearCnt c)[lport := 0], ct_mask := (ct_mask c)[lport := 1]\<rparr>) s in
      if \<not> shutdown then upd_ctrl k (\<lambda>c. c\<lparr>ct_portdown := (ct_portdown c)[lport := 0]\<rparr>) s1
      else let wk = ct_wakeup (lp_list s1 ! k) ! lport;
               s2 = (if ucast wk < lf_maxwakeup (lpb_active s1)
                     then (upd_ctrl k (\<lambda>c. c\<lparr>ct_slp := (ct_slp c)[lport := 0]\<rparr>) s1)
                            \<lparr>lp_WakeupCounter := (lp_WakeupCounter s1)[lport := ucast wk]\<rparr>
                     else if wk = 255
                     then (upd_ctrl k (\<lambda>c. c\<lparr>ct_wakeup := (ct_wakeup c)[lport := 0], ct_slp := (ct_slp c)[lport := 0]\<rparr>) s1)
                            \<lparr>lp_WakeupCounter := (lp_WakeupCounter s1)[lport := 0]\<rparr>
                     else (upd_ctrl k (\<lambda>c. c\<lparr>ct_wakeup := (ct_wakeup c)[lport := 255]\<rparr>) s1)
                            \<lparr>lp_WakeupCounter := (lp_WakeupCounter s1)[lport := 255]\<rparr>)
           in upd_ctrl k (\<lambda>c. c\<lparr>ct_portdown := (ct_portdown c)[lport := 1]\<rparr>) s2)"

definition new_ctrl :: "u16 \<Rightarrow> nat \<Rightarrow> bool \<Rightarrow> lpb_ctrl" where
  "new_ctrl vid lport shutdown =
     ctrl_zero\<lparr>ct_vid := vid, ct_mask := (ct_mask ctrl_zero)[lport := 1],
       ct_StateChg := (ct_StateChg ctrl_zero)[lport := 1],
       ct_portdown := (ct_portdown ctrl_zero)[lport := if shutdown then 1 else 0]\<rparr>"

definition store_alarm :: "nat \<Rightarrow> nat \<Rightarrow> alarm_loop option \<Rightarrow> 'h lpb_state \<Rightarrow> 'h lpb_state" where
  "store_alarm k lport pInfo s =
     (case pInfo of
        None \<Rightarrow> s
      | Some a \<Rightarrow> upd_ctrl k (\<lambda>c. c\<lparr>ct_alarm := (ct_alarm c)[lport := a]\<rparr>) s)"

definition setPortLpbStatus ::
  "('h, 'z) lpb_env_scheme \<Rightarrow> u16 \<Rightarrow> nat \<Rightarrow> bool \<Rightarrow> alarm_loop option \<Rightarrow> 'h lpb_state \<Rightarrow> (int \<times> 'h lpb_state) option" where
  "setPortLpbStatus env vid lport shutdown pInfo =
     lpb_locked (\<lambda>s. let k = getVlanLpbStasNode s vid in
       if k < length (lp_list s) then (GW_OK, store_alarm k lport pInfo (set_found k lport shutdown s))
       else if le_malloc env (lp_hw s) \<noteq> (True, True) then (GW_ERROR, s)
       else let s1 = s\<lparr>lp_list := lp_list s @ [new_ctrl vid lport shutdown],
                       lp_WakeupCounter := (if shutdown then (lp_WakeupCounter s)[lport := 0] else lp_WakeupCounter s)\<rparr>
            in (GW_OK, store_alarm k lport pInfo s1))"

text \<open>In C, \<^verbatim>\<open>!\<close> binds tighter than \<^verbatim>\<open>&\<close>: the test of a policy is that of its being 0.\<close>

definition policy_clear :: "lpb_frame \<Rightarrow> bool" where
  "policy_clear f \<longleftrightarrow> (if lf_policy f = 0 then 1 else 0) AND 0x0001 \<noteq> (0 :: u16)"

definition reset_port ::
  "('h, 'z) lpb_env_scheme \<Rightarrow> u8 list \<Rightarrow> nat \<Rightarrow> nat \<Rightarrow> 'h lpb_state \<Rightarrow> 'h lpb_state" where
  "reset_port env session k lport s =
     (if ct_portdown (lp_list s ! k) ! lport = 1
      then let s1 = s\<lparr>lp_hw := snd (le_admin_set env (lp_hw s) (of_nat lport) PORT_ADMIN_UP)\<rparr>;
               c = lp_list s1 ! k
           in (case sendOamLpbDetectNotifyMsg env (of_nat lport) 2 (ct_vid c) (Some session) (Some (ct_alarm c ! lport)) s1 of
                 (ret, s2) \<Rightarrow>
                   if ret = GW_OK
                   then upd_ctrl k (\<lambda>c. c\<lparr>ct_portdown := (ct_portdown c)[lport := 0], ct_mask := (ct_mask c)[lport := 0],
                          ct_ClearCnt := (ct_ClearCnt c)[lport := 0]\<rparr>) s2
                   else s2)
      else s)"

definition reset_node :: "('h, 'z) lpb_env_scheme \<Rightarrow> bool \<Rightarrow> u8 list \<Rightarrow> nat \<Rightarrow> 'h lpb_state \<Rightarrow> 'h lpb_state" where
  "reset_node env force session k s =
     (if (force \<or> policy_clear (lp_oam s)) \<or> (force \<or> policy_clear (lp_local s))
      then fold (reset_port env session k) [1..<NUM_PORTS_PER_SYSTEM] s else s)"

definition resetLpbPort ::
  "('h, 'z) lpb_env_scheme \<Rightarrow> bool \<Rightarrow> u8 list \<Rightarrow> 'h lpb_state \<Rightarrow> (int \<times> 'h lpb_state) option" where
  "resetLpbPort env force session =
     lpb_locked (\<lambda>s. (GW_OK, fold (reset_node env force session) [0..<length (lp_list s)] s))"

text \<open>The two tests of the loop over the ports of \<^verbatim>\<open>lpbDetectWakeupPorts\<close>.\<close>

definition wakeup_clear ::
  "('h, 'z) lpb_env_scheme \<Rightarrow> u16 \<Rightarrow> nat \<Rightarrow> nat \<Rightarrow> 'h lpb_state \<Rightarrow> 'h lpb_state" where
  "wakeup_clear env vid k i s =
     (let c = lp_list s ! k in
      if ct_mask c ! i = 1 \<and> 10 \<le> ct_ClearCnt c ! i
      then upd_ctrl k (\<lambda>c. c\<lparr>ct_mask := (ct_mask c)[i := 0], ct_wakeup := (ct_wakeup c)[i := 0],
               ct_slp := (ct_slp c)[i := 0], ct_ClearCnt := (ct_ClearCnt c)[i := 0]\<rparr>)
             (snd (sendOamLpbDetectNotifyMsg env (of_nat i) 2 vid (Some (lp_session s)) (Some (ct_alarm c ! i)) s))
      else s)"

definition wakeup_open ::
  "('h, 'z) lpb_env_scheme \<Rightarrow> u16 \<Rightarrow> nat \<Rightarrow> nat \<Rightarrow> 'h lpb_state \<Rightarrow> 'h lpb_state" where
  "wakeup_open env vid k i s =
     (let c = lp_list s ! k in
      if ct_mask c ! i = 1 \<and> 10 \<ge> ct_ClearCnt c ! i \<and> ct_portdown c ! i = 1
      then (if ucast (ct_wakeup c ! i) < lf_maxwakeup (lpb_active s)
            then let s1 = upd_ctrl k (\<lambda>c. c\<lparr>ct_slp := (ct_slp c)[i := ct_slp c ! i + 1]\<rparr>) s in
              if ct_slp (lp_list s1 ! k) ! i \<ge> uint (lf_waitforwakeup (lpb_active s1))
              then let s2 = s1\<lparr>lp_hw := snd (le_admin_set env (lp_hw s1) (of_nat i) PORT_ADMIN_UP)\<rparr>;
                       s3 = snd (sendOamLpbDetectNotifyMsg env (of_nat i) 2 vid (Some (lp_session s2))
                                   (Some (ct_alarm (lp_list s2 ! k) ! i)) s2)
                   in (upd_ctrl k (\<lambda>c. c\<lparr>ct_portdown := (ct_portdown c)[i := 0], ct_slp := (ct_slp c)[i := 0],
                          ct_wakeup := (ct_wakeup c)[i := ct_wakeup c ! i + 1]\<rparr>) s3)\<lparr>lp_PortDown := (lp_PortDown s3)[i := 0]\<rparr>
              else s1
            else s)
      else s)"

definition wakeup_port ::
  "('h, 'z) lpb_env_scheme \<Rightarrow> u16 \<Rightarrow> nat \<Rightarrow> nat \<Rightarrow> 'h lpb_state \<Rightarrow> 'h lpb_state" where
  "wakeup_port env vid k i s = wakeup_open env vid k i (wakeup_clear env vid k i s)"

definition lpbDetectWakeupPorts ::
  "('h, 'z) lpb_env_scheme \<Rightarrow> u16 \<Rightarrow> 'h lpb_state \<Rightarrow> (unit \<times> 'h lpb_state) option" where
  "lpbDetectWakeupPorts env usVid =
     lpb_locked (\<lambda>s. let k = getVlanLpbStasNode s usVid in
       ((), if k < length (lp_list s) then fold (wakeup_port env usVid k) [1..<NUM_PORTS_PER_SYSTEM] s else s))"

definition gw_port_is_lpb_mark :: "u16 \<Rightarrow> nat \<Rightarrow> 'h lpb_state \<Rightarrow> (int \<times> 'h lpb_state) option" where
  "gw_port_is_lpb_mark vid port s =
     (if port < NUM_PORTS_PER_SYSTEM
      then lpb_locked (\<lambda>s. let k = getVlanLpbStasNode s vid in
             (if k < length (lp_list s) \<and> ct_mask (lp_list s ! k) ! port \<noteq> 0 then 1 else 0, s)) s
      else Some (0, s))"

definition gwdEthPortLoopLedAction ::
  "('h, 'z) lpb_env_scheme \<Rightarrow> 'h lpb_state \<Rightarrow> (int \<times> 'h lpb_state) option" where
  "gwdEthPortLoopLedAction env s =
     (case lpb_locked (\<lambda>s. (list_ex (\<lambda>c. list_ex (\<lambda>i. ct_mask c ! i \<noteq> 0) [1..<NUM_PORTS_PER_SYSTEM]) (lp_list s), s)) s of
        None \<Rightarrow> None
      | Some (found, s1) \<Rightarrow>
          (case le_loop_event env (lp_hw s1) (if found then GWD_ETH_PORT_LOOP_ALARM else GWD_ETH_PORT_LOOP_ALARM_CLEAR) of
             (ret, hw) \<Rightarrow> Some (ret, s1\<lparr>lp_hw := hw\<rparr>)))"

section \<open>The invariant\<close>

text \<open>
  Marks and shut-down flags are 0 or 1; a port recorded as shut down is marked and its count of
  quiet intervals is 0; an unmarked port has no count, and no count exceeds 10.
\<close>

definition port_ok :: "u8 \<Rightarrow> u8 \<Rightarrow> u8 \<Rightarrow> bool" where
  "port_ok mark dn cnt \<longleftrightarrow> mark \<le> 1 \<and> dn \<le> 1 \<and> (dn = 1 \<longrightarrow> mark = 1 \<and> cnt = 0) \<and> (mark = 0 \<longrightarrow> cnt = 0) \<and> cnt \<le> 10"

definition ctrl_shape :: "lpb_ctrl \<Rightarrow> bool" where
  "ctrl_shape c \<longleftrightarrow> length (ct_mask c) = 27 \<and> length (ct_portdown c) = 27 \<and> length (ct_StateChg c) = 27 \<and>
     length (ct_wakeup c) = 27 \<and> length (ct_ClearCnt c) = 27 \<and> length (ct_slp c) = 27 \<and> length (ct_alarm c) = 27"

definition ctrl_ok :: "lpb_ctrl \<Rightarrow> bool" where
  "ctrl_ok c \<longleftrightarrow> ctrl_shape c \<and> (\<forall>i < 27. port_ok (ct_mask c ! i) (ct_portdown c ! i) (ct_ClearCnt c ! i))"

definition lpb_ok :: "'h lpb_state \<Rightarrow> bool" where
  "lpb_ok s \<longleftrightarrow> distinct (map ct_vid (lp_list s)) \<and> (\<forall>c \<in> set (lp_list s). ctrl_ok c) \<and>
     length (lp_PortDown s) = 27 \<and> length (lp_WakeupCounter s) = 27 \<and> length (lp_RecFlag s) = 27 \<and>
     length (lp_IgnorePort s) = 27"

text \<open>A call returns, keeps the invariant and gives the semaphore back.\<close>

definition lpb_safe :: "'h lpb_state \<Rightarrow> ('r \<times> 'h lpb_state) option \<Rightarrow> bool" where
  "lpb_safe s x \<longleftrightarrow> (\<exists>r s'. x = Some (r, s') \<and> lpb_ok s' \<and> lp_sem s' = lp_sem s)"

lemma u8_le_1: "(x :: u8) \<le> 1 \<longleftrightarrow> x = 0 \<or> x = 1"
proof -
  have "x \<le> 1 \<longleftrightarrow> unat x \<le> 1" by (simp add: word_le_nat_alt)
  also have "\<dots> \<longleftrightarrow> unat x = 0 \<or> unat x = 1" by auto
  also have "\<dots> \<longleftrightarrow> x = 0 \<or> x = 1" by (metis unat_0 unat_1 word_unat_eq_iff)
  finally show ?thesis .
qed

lemma lpb_locked_safe:
  assumes "lp_sem s \<noteq> 0" "lpb_ok s"
    and "\<And>s1 r s2. lpb_ok s1 \<Longrightarrow> lp_sem s1 = lp_sem s - 1 \<Longrightarrow> lp_list s1 = lp_list s \<Longrightarrow> f s1 = (r, s2) \<Longrightarrow> lpb_ok s2 \<and> lp_sem s2 = lp_sem s1"
  shows "lpb_safe s (lpb_locked f s)"
proof -
  let ?s1 = "s\<lparr>lp_sem := lp_sem s - 1\<rparr>"
  obtain r s2 where f: "f ?s1 = (r, s2)" by (cases "f ?s1")
  have "lpb_ok ?s1" using assms(2) by (simp add: lpb_ok_def)
  from assms(3) [OF this _ _ f] have "lpb_ok s2 \<and> lp_sem s2 = lp_sem s - 1" by simp
  then show ?thesis using assms(1) f
    by (simp add: lpb_safe_def lpb_locked_def gw_lpb_sem_take_def gw_lpb_sem_give_def lpb_ok_def)
qed

lemma upd_ctrl_sel [simp]:
  "lp_sem (upd_ctrl k f s) = lp_sem s" "length (lp_list (upd_ctrl k f s)) = length (lp_list s)"
  "lp_oam (upd_ctrl k f s) = lp_oam s" "lp_local (upd_ctrl k f s) = lp_local s" "lp_RecFlag (upd_ctrl k f s) = lp_RecFlag s"
  "lp_timeCounter (upd_ctrl k f s) = lp_timeCounter s" "lp_hw (upd_ctrl k f s) = lp_hw s" "lp_session (upd_ctrl k f s) = lp_session s"
  "k < length (lp_list s) \<Longrightarrow> lp_list (upd_ctrl k f s) ! k = f (lp_list s ! k)"
  "lp_PortDown (upd_ctrl k f s) = lp_PortDown s" "lp_WakeupCounter (upd_ctrl k f s) = lp_WakeupCounter s"
  "lp_IgnorePort (upd_ctrl k f s) = lp_IgnorePort s"
  by (simp_all add: upd_ctrl_def)

lemma upd_ctrl_ok:
  assumes "lpb_ok s" "k < length (lp_list s)" "ctrl_ok (lp_list s ! k) \<Longrightarrow> ctrl_ok (f (lp_list s ! k))"
    and "ct_vid (f (lp_list s ! k)) = ct_vid (lp_list s ! k)"
  shows "lpb_ok (upd_ctrl k f s)"
proof -
  have "map ct_vid ((lp_list s)[k := f (lp_list s ! k)]) = map ct_vid (lp_list s)"
    using assms(2,4) by (simp add: map_update) (metis length_map list_update_id nth_map)
  moreover have "\<forall>c \<in> set ((lp_list s)[k := f (lp_list s ! k)]). ctrl_ok c"
    using assms(1-3) by (auto simp: lpb_ok_def dest!: set_update_subset_insert [THEN subsetD])
  ultimately show ?thesis using assms(1) by (simp add: lpb_ok_def upd_ctrl_def)
qed

lemma send_state:
  "\<exists>hw rf. snd (sendOamLpbDetectNotifyMsg env port st vid sid info s) = s\<lparr>lp_hw := hw, lp_RecFlag := rf\<rparr> \<and>
     length rf = length (lp_RecFlag s)"
proof (cases "sid = None \<or> info = None")
  case True
  then have "snd (sendOamLpbDetectNotifyMsg env port st vid sid info s) = s\<lparr>lp_hw := lp_hw s, lp_RecFlag := lp_RecFlag s\<rparr>"
    by (auto simp: sendOamLpbDetectNotifyMsg_def split: option.split)
  then show ?thesis by blast
next
  case False
  then obtain x a where x: "sid = Some x" "info = Some a" by auto
  obtain r fs where m: "CommOnuMsgSend ALARM_REQ 0 (alarm_bytes (notify_alarm port st vid a)) (Some x) = (r, fs)" by fastforce
  show ?thesis unfolding sendOamLpbDetectNotifyMsg_def x m prod.case option.case snd_conv by fastforce
qed

lemma send_keeps [simp]:
  "lp_list (snd (sendOamLpbDetectNotifyMsg env port st vid sid info s)) = lp_list s"
  "lp_sem (snd (sendOamLpbDetectNotifyMsg env port st vid sid info s)) = lp_sem s"
  "lp_oam (snd (sendOamLpbDetectNotifyMsg env port st vid sid info s)) = lp_oam s"
  "lp_local (snd (sendOamLpbDetectNotifyMsg env port st vid sid info s)) = lp_local s"
  "lp_timeCounter (snd (sendOamLpbDetectNotifyMsg env port st vid sid info s)) = lp_timeCounter s"
  "lp_session (snd (sendOamLpbDetectNotifyMsg env port st vid sid info s)) = lp_session s"
  "lpb_ok (snd (sendOamLpbDetectNotifyMsg env port st vid sid info s)) = lpb_ok s"
proof -
  obtain hw rf where e: "snd (sendOamLpbDetectNotifyMsg env port st vid sid info s) = s\<lparr>lp_hw := hw, lp_RecFlag := rf\<rparr>"
    "length rf = length (lp_RecFlag s)" using send_state [of env port st vid sid info s] by blast
  show "lp_list (snd (sendOamLpbDetectNotifyMsg env port st vid sid info s)) = lp_list s"
    "lp_sem (snd (sendOamLpbDetectNotifyMsg env port st vid sid info s)) = lp_sem s"
    "lp_oam (snd (sendOamLpbDetectNotifyMsg env port st vid sid info s)) = lp_oam s"
    "lp_local (snd (sendOamLpbDetectNotifyMsg env port st vid sid info s)) = lp_local s"
    "lp_timeCounter (snd (sendOamLpbDetectNotifyMsg env port st vid sid info s)) = lp_timeCounter s"
    "lp_session (snd (sendOamLpbDetectNotifyMsg env port st vid sid info s)) = lp_session s"
    "lpb_ok (snd (sendOamLpbDetectNotifyMsg env port st vid sid info s)) = lpb_ok s"
    using e(2) by (simp_all add: e(1) lpb_ok_def)
qed

text \<open>A port's step on the node at position \<open>k\<close>, and a loop of such steps.\<close>

definition lpb_at :: "nat \<Rightarrow> nat \<Rightarrow> 'h lpb_state \<Rightarrow> bool" where
  "lpb_at k n s \<longleftrightarrow> lpb_ok s \<and> k < length (lp_list s) \<and> lp_sem s = n"

lemma lpb_at_upd:
  assumes "lpb_at k n s" "\<And>c. ctrl_ok c \<Longrightarrow> P c \<Longrightarrow> ctrl_ok (f c)" "P (lp_list s ! k)" "\<And>c. ct_vid (f c) = ct_vid c"
  shows "lpb_at k n (upd_ctrl k f s)"
  using assms(1,3,4) assms(2) [of "lp_list s ! k"] unfolding lpb_at_def by (auto intro!: upd_ctrl_ok)

lemma lpb_at_send [simp]: "lpb_at k n (snd (sendOamLpbDetectNotifyMsg env port st vid sid info s)) = lpb_at k n s"
  by (simp add: lpb_at_def)

lemma lpb_at_fields [simp]:
  "lpb_at k n (s\<lparr>lp_hw := h\<rparr>) = lpb_at k n s"
  "lpb_at k n (s\<lparr>lp_PortDown := (lp_PortDown s)[i := x]\<rparr>) = lpb_at k n s"
  "lpb_at k n (s\<lparr>lp_WakeupCounter := (lp_WakeupCounter s)[i := x]\<rparr>) = lpb_at k n s"
  by (auto simp: lpb_at_def lpb_ok_def)

lemma fold_at:
  assumes "lpb_at k n s" "\<And>i s. i < 26 \<Longrightarrow> lpb_at k n s \<Longrightarrow> lpb_at k n (f i s)"
  shows "lpb_at k n (fold f [1..<NUM_PORTS_PER_SYSTEM] s)"
proof (rule fold_invariant [where Q = "\<lambda>i. i < 26" and P = "lpb_at k n"])
  show "i < 26" if "i \<in> set [1..<NUM_PORTS_PER_SYSTEM]" for i using that by (simp add: NUM_PORTS_PER_SYSTEM_def)
qed (simp_all add: assms)

lemma ctrl_ok_upd:
  assumes "ctrl_ok c" "ctrl_shape c'"
    and "\<And>j. j < 27 \<Longrightarrow> j \<noteq> i \<Longrightarrow> ct_mask c' ! j = ct_mask c ! j \<and> ct_portdown c' ! j = ct_portdown c ! j \<and> ct_ClearCnt c' ! j = ct_ClearCnt c ! j"
    and "i < 27 \<Longrightarrow> port_ok (ct_mask c' ! i) (ct_portdown c' ! i) (ct_ClearCnt c' ! i)"
  shows "ctrl_ok c'"
  unfolding ctrl_ok_def
proof (intro conjI allI impI)
  fix j :: nat
  assume "j < 27"
  then show "port_ok (ct_mask c' ! j) (ct_portdown c' ! j) (ct_ClearCnt c' ! j)"
    using assms by (cases "j = i") (simp_all add: ctrl_ok_def)
qed (fact assms(2))

lemma ctrl_shapeD: "ctrl_ok c \<Longrightarrow> ctrl_shape c"
  by (simp add: ctrl_ok_def)

lemma ctrl_portD: "ctrl_ok c \<Longrightarrow> i < 27 \<Longrightarrow> port_ok (ct_mask c ! i) (ct_portdown c ! i) (ct_ClearCnt c ! i)"
  by (simp add: ctrl_ok_def)

lemma ctrl_ok_opened:
  "ctrl_ok c \<Longrightarrow> i < 27 \<Longrightarrow> ctrl_ok (c\<lparr>ct_portdown := (ct_portdown c)[i := 0]\<rparr>)"
  using ctrl_portD [of c i] by (auto intro!: ctrl_ok_upd [of c _ i] simp: ctrl_shape_def port_ok_def dest: ctrl_shapeD)

lemma ctrl_ok_cleared:
  "ctrl_ok c \<Longrightarrow> i < 27 \<Longrightarrow> ctrl_ok (c\<lparr>ct_portdown := (ct_portdown c)[i := 0], ct_mask := (ct_mask c)[i := 0], ct_ClearCnt := (ct_ClearCnt c)[i := 0]\<rparr>)"
  by (auto intro!: ctrl_ok_upd [of c _ i] simp: ctrl_shape_def port_ok_def dest: ctrl_shapeD)

lemma ctrl_ok_marked:
  "ctrl_ok c \<Longrightarrow> i < 27 \<Longrightarrow> d \<le> 1 \<Longrightarrow>
   ctrl_ok (c\<lparr>ct_ClearCnt := (ct_ClearCnt c)[i := 0], ct_mask := (ct_mask c)[i := 1], ct_portdown := (ct_portdown c)[i := d]\<rparr>)"
  by (auto intro!: ctrl_ok_upd [of c _ i] simp: ctrl_shape_def port_ok_def dest: ctrl_shapeD)

lemma ctrl_ok_same:
  "ctrl_ok (c\<lparr>ct_slp := x\<rparr>) \<longleftrightarrow> ctrl_shape (c\<lparr>ct_slp := x\<rparr>) \<and> (\<forall>i < 27. port_ok (ct_mask c ! i) (ct_portdown c ! i) (ct_ClearCnt c ! i))"
  "ctrl_ok (c\<lparr>ct_wakeup := y\<rparr>) \<longleftrightarrow> ctrl_shape (c\<lparr>ct_wakeup := y\<rparr>) \<and> (\<forall>i < 27. port_ok (ct_mask c ! i) (ct_portdown c ! i) (ct_ClearCnt c ! i))"
  "ctrl_ok (c\<lparr>ct_alarm := z\<rparr>) \<longleftrightarrow> ctrl_shape (c\<lparr>ct_alarm := z\<rparr>) \<and> (\<forall>i < 27. port_ok (ct_mask c ! i) (ct_portdown c ! i) (ct_ClearCnt c ! i))"
  by (simp_all add: ctrl_ok_def)

lemma ctrl_ok_slp [intro]: "ctrl_ok c \<Longrightarrow> length x = 27 \<Longrightarrow> ctrl_ok (c\<lparr>ct_slp := x\<rparr>)"
  and ctrl_ok_wake [intro]: "ctrl_ok c \<Longrightarrow> length y = 27 \<Longrightarrow> ctrl_ok (c\<lparr>ct_wakeup := y\<rparr>)"
  and ctrl_ok_alarm [intro]: "ctrl_ok c \<Longrightarrow> length z = 27 \<Longrightarrow> ctrl_ok (c\<lparr>ct_alarm := z\<rparr>)"
  by (simp_all add: ctrl_ok_def ctrl_shape_def)

lemma ctrl_ok_lengths:
  "ctrl_ok c \<Longrightarrow> length (ct_mask c) = 27 \<and> length (ct_portdown c) = 27 \<and> length (ct_wakeup c) = 27 \<and>
   length (ct_ClearCnt c) = 27 \<and> length (ct_slp c) = 27 \<and> length (ct_alarm c) = 27"
  by (simp add: ctrl_ok_def ctrl_shape_def)

lemma node_ok: "lpb_at k n s \<Longrightarrow> ctrl_ok (lp_list s ! k)"
  by (simp add: lpb_at_def lpb_ok_def)

lemma report_port_at:
  assumes "lpb_at k n (snd x)" "i < 26"
  shows "lpb_at k n (snd (report_port env vid session k i x))"
  using assms by (auto simp: report_port_def Let_def intro!: lpb_at_upd [where P = "\<lambda>_. True"] ctrl_ok_opened)

lemma fold_pair_at:
  assumes "lpb_at k n (snd x)" "\<And>i x. i < 26 \<Longrightarrow> lpb_at k n (snd x) \<Longrightarrow> lpb_at k n (snd (f i x))"
  shows "lpb_at k n (snd (fold f [1..<NUM_PORTS_PER_SYSTEM] x))"
proof (rule fold_invariant [where Q = "\<lambda>i. i < 26" and P = "\<lambda>x. lpb_at k n (snd x)"])
  show "i < 26" if "i \<in> set [1..<NUM_PORTS_PER_SYSTEM]" for i using that by (simp add: NUM_PORTS_PER_SYSTEM_def)
qed (simp_all add: assms)

lemma delete_ok:
  assumes "lpb_ok s"
  shows "lpb_ok (deleteLpbStatsNode vid s)" "lp_sem (deleteLpbStatsNode vid s) = lp_sem s"
proof -
  let ?k = "getVlanLpbStasNode s vid"
  have "set (take ?k (lp_list s) @ drop (Suc ?k) (lp_list s)) \<subseteq> set (lp_list s)"
    by (auto dest: in_set_takeD in_set_dropD)
  moreover have "distinct (map ct_vid (take ?k (lp_list s) @ drop (Suc ?k) (lp_list s)))"
  proof -
    have "distinct (take ?k xs @ drop (Suc ?k) xs)" if "distinct xs" for xs :: "u16 list"
      using that set_take_disj_set_drop_if_distinct [of xs ?k "Suc ?k"] by simp
    from this [of "map ct_vid (lp_list s)"] show ?thesis using assms by (simp add: take_map drop_map lpb_ok_def)
  qed
  ultimately show "lpb_ok (deleteLpbStatsNode vid s)" using assms by (auto simp: lpb_ok_def deleteLpbStatsNode_def Let_def)
qed (simp add: deleteLpbStatsNode_def Let_def)

lemma report_safe:
  assumes "lpb_ok s" "lp_sem s \<noteq> 0"
  shows "lpb_safe s (reportPortsLpbStatus env vid session s)"
  unfolding reportPortsLpbStatus_def
proof (rule lpb_locked_safe [OF assms(2,1)])
  fix s1 :: "'a lpb_state" and r s2
  assume a: "lpb_ok s1" "lp_sem s1 = lp_sem s - 1" "lp_list s1 = lp_list s"
    and f: "(let k = getVlanLpbStasNode s1 vid in
       if k \<ge> length (lp_list s1) then ((), s1)
       else (case fold (report_port env vid session k) [1..<NUM_PORTS_PER_SYSTEM] (0, s1) of
               (almstats, s1) \<Rightarrow>
                 ((), if almstats = 0 then deleteLpbStatsNode (ct_vid (lp_list s1 ! k)) s1 else s1))) = (r, s2)"
  let ?k = "getVlanLpbStasNode s1 vid"
  obtain al s3 where fo: "fold (report_port env vid session ?k) [1..<NUM_PORTS_PER_SYSTEM] (0, s1) = (al, s3)" by fastforce
  show "lpb_ok s2 \<and> lp_sem s2 = lp_sem s1"
  proof (cases "?k < length (lp_list s1)")
    case True
    then have "lpb_at ?k (lp_sem s1) (snd (fold (report_port env vid session ?k) [1..<NUM_PORTS_PER_SYSTEM] (0, s1)))"
      using a(1) by (intro fold_pair_at report_port_at) (simp_all add: lpb_at_def)
    then have "lpb_ok s3" "lp_sem s3 = lp_sem s1" unfolding fo snd_conv lpb_at_def by blast+
    then show ?thesis using f True by (auto simp: Let_def fo delete_ok simp del: One_nat_def split: if_splits)
  qed (use f a(1) in \<open>auto simp: Let_def\<close>)
qed

lemma free_safe: "lpb_ok s \<Longrightarrow> lp_sem s \<noteq> 0 \<Longrightarrow> lpb_safe s (freeLpbStatusList s)"
  unfolding freeLpbStatusList_def by (rule lpb_locked_safe) (auto simp: lpb_ok_def)

text \<open>The loop that counts quiet intervals, as one update of the node.\<close>

definition cls_counts :: "u32 list \<Rightarrow> lpb_ctrl \<Rightarrow> nat \<Rightarrow> u8" where
  "cls_counts rf c i =
     (if ct_mask c ! i = 1 \<and> ct_portdown c ! i \<noteq> 1 \<and> rf ! i = 0 then ct_ClearCnt c ! i + 1 else ct_ClearCnt c ! i)"

definition cls_ctrl :: "u32 list \<Rightarrow> nat \<Rightarrow> lpb_ctrl \<Rightarrow> lpb_ctrl" where
  "cls_ctrl rf n c = c\<lparr>ct_ClearCnt := map (\<lambda>i. if 1 \<le> i \<and> i < n then cls_counts rf c i else ct_ClearCnt c ! i) [0..<length (ct_ClearCnt c)]\<rparr>"

lemma upd_ctrl_id: "k < length (lp_list s) \<Longrightarrow> f (lp_list s ! k) = lp_list s ! k \<Longrightarrow> upd_ctrl k f s = s"
  by (simp add: upd_ctrl_def)

lemma upd_ctrl_comp: "k < length (lp_list s) \<Longrightarrow> upd_ctrl k g (upd_ctrl k f s) = upd_ctrl k (\<lambda>c. g (f c)) s"
  by (simp add: upd_ctrl_def)

lemma upd_ctrl_cong: "f (lp_list s ! k) = g (lp_list s ! k) \<Longrightarrow> upd_ctrl k f s = upd_ctrl k g s"
  by (simp add: upd_ctrl_def)

lemma cls_ctrl_Suc:
  assumes "1 \<le> n"
  shows "cls_ctrl rf (Suc n) c = (let d = cls_ctrl rf n c in
     if ct_mask d ! n = 1 \<and> ct_portdown d ! n \<noteq> 1 \<and> rf ! n = 0
     then d\<lparr>ct_ClearCnt := (ct_ClearCnt d)[n := ct_ClearCnt d ! n + 1]\<rparr> else d)"
proof -
  define f where "f m = map (\<lambda>i. if 1 \<le> i \<and> i < m then cls_counts rf c i else ct_ClearCnt c ! i) [0..<length (ct_ClearCnt c)]" for m
  have "f (Suc n) = (if ct_mask c ! n = 1 \<and> ct_portdown c ! n \<noteq> 1 \<and> rf ! n = 0 then (f n)[n := f n ! n + 1] else f n)"
  proof (rule nth_equalityI)
    fix i assume "i < length (f (Suc n))"
    then have i: "i < length (ct_ClearCnt c)" by (simp add: f_def)
    show "f (Suc n) ! i = (if ct_mask c ! n = 1 \<and> ct_portdown c ! n \<noteq> 1 \<and> rf ! n = 0 then (f n)[n := f n ! n + 1] else f n) ! i"
      using i assms by (cases "i = n") (simp_all add: f_def cls_counts_def less_Suc_eq)
  qed (simp add: f_def)
  then show ?thesis unfolding cls_ctrl_def f_def [symmetric] Let_def by simp
qed

lemma cls_fold:
  assumes "k < length (lp_list s)"
  shows "fold (cls_port k) [1..<Suc n] s = upd_ctrl k (cls_ctrl (lp_RecFlag s) (Suc n)) s"
proof (induction n)
  case 0
  have "cls_ctrl (lp_RecFlag s) (Suc 0) c = c" for c
  proof -
    have "map (\<lambda>i. if 1 \<le> i \<and> i < Suc 0 then cls_counts (lp_RecFlag s) c i else ct_ClearCnt c ! i) [0..<length (ct_ClearCnt c)] =
        ct_ClearCnt c" by (rule nth_equalityI) auto
    then show ?thesis unfolding cls_ctrl_def by simp
  qed
  then show ?case using assms by (simp add: upd_ctrl_id)
next
  case (Suc n)
  let ?t = "upd_ctrl k (cls_ctrl (lp_RecFlag s) (Suc n)) s"
  have "fold (cls_port k) [1..<Suc (Suc n)] s = cls_port k (Suc n) ?t" using Suc by simp
  also have "\<dots> = upd_ctrl k (cls_ctrl (lp_RecFlag s) (Suc (Suc n))) s"
    using assms cls_ctrl_Suc [of "Suc n" "lp_RecFlag s" "lp_list s ! k"]
    by (auto simp: cls_port_def Let_def upd_ctrl_comp intro!: upd_ctrl_cong)
  finally show ?case .
qed

text \<open>The counts of a VLAN's ports leave room for one more quiet interval.\<close>

definition room :: "u16 \<Rightarrow> 'h lpb_state \<Rightarrow> bool" where
  "room vid s \<longleftrightarrow> (\<forall>c \<in> set (lp_list s). ct_vid c = vid \<longrightarrow> (\<forall>i \<in> {1..<26}. ct_ClearCnt c ! i \<le> 9))"

lemma node_of_vid: "getVlanLpbStasNode s vid < length (lp_list s) \<Longrightarrow> ct_vid (lp_list s ! getVlanLpbStasNode s vid) = vid"
  using first_idx_nth [of "\<lambda>c. ct_vid c = vid" "lp_list s"] by (simp add: getVlanLpbStasNode_def)

lemma u8_suc_le: "(x :: u8) \<le> 9 \<Longrightarrow> x + 1 \<le> 10"
proof -
  assume "x \<le> 9"
  then have "unat x \<le> 9" by (simp add: word_le_nat_alt)
  then show ?thesis by (simp add: word_le_nat_alt unat_word_ariths(1))
qed

lemma cls_ctrl_ok:
  assumes "ctrl_ok c" "\<forall>i \<in> {1..<26}. ct_ClearCnt c ! i \<le> 9"
  shows "ctrl_ok (cls_ctrl rf 26 c)"
  unfolding ctrl_ok_def
proof (intro conjI allI impI)
  show "ctrl_shape (cls_ctrl rf 26 c)" using assms(1) by (simp add: ctrl_ok_def ctrl_shape_def cls_ctrl_def)
  fix i :: nat
  assume i: "i < 27"
  have p: "port_ok (ct_mask c ! i) (ct_portdown c ! i) (ct_ClearCnt c ! i)" using assms(1) i by (rule ctrl_portD)
  show "port_ok (ct_mask (cls_ctrl rf 26 c) ! i) (ct_portdown (cls_ctrl rf 26 c) ! i) (ct_ClearCnt (cls_ctrl rf 26 c) ! i)"
  proof (cases "1 \<le> i \<and> i < 26 \<and> ct_mask c ! i = 1 \<and> ct_portdown c ! i \<noteq> 1 \<and> rf ! i = 0")
    case True
    then have "ct_ClearCnt c ! i + 1 \<le> 10" using assms(2) by (intro u8_suc_le) simp
    then show ?thesis using True p i ctrl_ok_lengths [OF assms(1)] by (auto simp: cls_ctrl_def cls_counts_def port_ok_def)
  next
    case False
    then show ?thesis using p i ctrl_ok_lengths [OF assms(1)] by (auto simp: cls_ctrl_def cls_counts_def)
  qed
qed

lemma cls_safe:
  assumes "lpb_ok s" "lp_sem s \<noteq> 0" "room vid s"
  shows "lpb_safe s (clsPortLpbStatus vid s)"
  unfolding clsPortLpbStatus_def
proof (rule lpb_locked_safe [OF assms(2,1)])
  fix s1 :: "'a lpb_state" and r s2
  assume a: "lpb_ok s1" "lp_sem s1 = lp_sem s - 1" "lp_list s1 = lp_list s"
    and f: "(let k = getVlanLpbStasNode s1 vid in
       (0, if k < length (lp_list s1) then fold (cls_port k) [1..<NUM_PORTS_PER_SYSTEM] s1 else s1)) = (r, s2)"
  let ?k = "getVlanLpbStasNode s1 vid"
  show "lpb_ok s2 \<and> lp_sem s2 = lp_sem s1"
  proof (cases "?k < length (lp_list s1)")
    case True
    have r: "\<forall>i \<in> {1..<26}. ct_ClearCnt (lp_list s1 ! ?k) ! i \<le> 9"
      using assms(3) True node_of_vid [OF True] a(3) by (auto simp: room_def)
    have "lpb_ok (upd_ctrl ?k (cls_ctrl (lp_RecFlag s1) 26) s1)"
      using r by (intro upd_ctrl_ok [OF a(1) True] cls_ctrl_ok) (auto simp: cls_ctrl_def)
    moreover have "s2 = upd_ctrl ?k (cls_ctrl (lp_RecFlag s1) 26) s1"
      using f True cls_fold [OF True, of 25] by (simp add: Let_def NUM_PORTS_PER_SYSTEM_def)
    ultimately show ?thesis by simp
  qed (use f a(1) in \<open>auto simp: Let_def\<close>)
qed

lemma u8_not_ge: "x \<le> (10 :: u8) \<Longrightarrow> \<not> 10 \<le> x \<Longrightarrow> x \<le> 9"
  by (simp add: word_le_nat_alt)

lemma ctrl_ok_unmarked:
  assumes "ctrl_ok c" "i < 27" "10 \<le> ct_ClearCnt c ! i"
  shows "ctrl_ok (c\<lparr>ct_mask := (ct_mask c)[i := 0], ct_wakeup := (ct_wakeup c)[i := 0], ct_slp := (ct_slp c)[i := 0],
    ct_ClearCnt := (ct_ClearCnt c)[i := 0]\<rparr>)" (is "ctrl_ok ?c")
proof (rule ctrl_ok_upd [OF assms(1), where i = i])
  have "ct_portdown c ! i = 0"
    using ctrl_portD [OF assms(1,2)] assms(3) u8_le_1 [of "ct_portdown c ! i"] by (auto simp: port_ok_def)
  then show "port_ok (ct_mask ?c ! i) (ct_portdown ?c ! i) (ct_ClearCnt ?c ! i)"
    using assms(2) ctrl_ok_lengths [OF assms(1)] by (simp add: port_ok_def)
qed (use ctrl_shapeD [OF assms(1)] in \<open>auto simp: ctrl_shape_def\<close>)

lemma wakeup_clear_at:
  assumes "lpb_at k n s" "i < 26"
  shows "lpb_at k n (wakeup_clear env vid k i s)"
  using assms unfolding wakeup_clear_def Let_def
  by (auto intro!: lpb_at_upd [where P = "\<lambda>c. ct_mask c ! i = 1 \<and> 10 \<le> ct_ClearCnt c ! i"] ctrl_ok_unmarked)

lemma wakeup_clear_node:
  assumes "lpb_at k n s" "i < 26" "t = wakeup_clear env vid k i s"
  shows "ct_ClearCnt (lp_list t ! k) ! i \<le> 9 \<and> (\<forall>j. j \<noteq> i \<longrightarrow> ct_ClearCnt (lp_list t ! k) ! j = ct_ClearCnt (lp_list s ! k) ! j) \<and>
    ct_vid (lp_list t ! k) = ct_vid (lp_list s ! k)"
proof -
  have p: "port_ok (ct_mask (lp_list s ! k) ! i) (ct_portdown (lp_list s ! k) ! i) (ct_ClearCnt (lp_list s ! k) ! i)"
    using ctrl_portD [OF node_ok [OF assms(1)]] assms(2) by simp
  have l: "length (ct_ClearCnt (lp_list s ! k)) = 27" "k < length (lp_list s)"
    using ctrl_ok_lengths [OF node_ok [OF assms(1)]] assms(1) by (simp_all add: lpb_at_def)
  show ?thesis
  proof (cases "ct_mask (lp_list s ! k) ! i = 1 \<and> 10 \<le> ct_ClearCnt (lp_list s ! k) ! i")
    case True
    then show ?thesis using l assms(2) unfolding assms(3) wakeup_clear_def Let_def by simp
  next
    case False
    then have "ct_ClearCnt (lp_list s ! k) ! i \<le> 9"
      using p u8_not_ge [of "ct_ClearCnt (lp_list s ! k) ! i"] u8_le_1 [of "ct_mask (lp_list s ! k) ! i"] by (auto simp: port_ok_def)
    then show ?thesis using False unfolding assms(3) wakeup_clear_def Let_def by auto
  qed
qed

lemma wakeup_open_at:
  assumes "lpb_at k n s" "i < 26"
  shows "lpb_at k n (wakeup_open env vid k i s)"
proof -
  have slp: "lpb_at k n (upd_ctrl k (\<lambda>c. c\<lparr>ct_slp := (ct_slp c)[i := ct_slp c ! i + 1]\<rparr>) s)"
    using assms(1) by (rule lpb_at_upd [where P = "\<lambda>_. True"]) (simp_all add: ctrl_ok_slp ctrl_ok_lengths)
  have op: "lpb_at k n (upd_ctrl k (\<lambda>c. c\<lparr>ct_portdown := (ct_portdown c)[i := 0], ct_slp := (ct_slp c)[i := 0],
      ct_wakeup := (ct_wakeup c)[i := ct_wakeup c ! i + 1]\<rparr>) t)" if "lpb_at k n t" for t :: "'a lpb_state"
    using that
  proof (rule lpb_at_upd [where P = "\<lambda>_. True"])
    fix c assume c: "ctrl_ok c"
    have "ctrl_ok (c\<lparr>ct_portdown := (ct_portdown c)[i := 0]\<rparr>)" using ctrl_ok_opened [OF c] assms(2) by simp
    then show "ctrl_ok (c\<lparr>ct_portdown := (ct_portdown c)[i := 0], ct_slp := (ct_slp c)[i := 0],
        ct_wakeup := (ct_wakeup c)[i := ct_wakeup c ! i + 1]\<rparr>)"
      using ctrl_ok_lengths [OF c]
      by (intro ctrl_ok_wake [of "c\<lparr>ct_portdown := (ct_portdown c)[i := 0], ct_slp := (ct_slp c)[i := 0]\<rparr>", simplified]
          ctrl_ok_slp [of "c\<lparr>ct_portdown := (ct_portdown c)[i := 0]\<rparr>", simplified]) simp_all
  qed simp_all
  have pd: "lpb_at k n (t\<lparr>lp_PortDown := (lp_PortDown u)[i := 0]\<rparr>)" if "lpb_at k n t" "lpb_at k n u" for t u :: "'a lpb_state"
    using that by (simp add: lpb_at_def lpb_ok_def)
  show ?thesis using assms(1) slp unfolding wakeup_open_def Let_def
    by (auto intro!: pd op simp del: upd_ctrl_sel)
qed

lemma wakeup_open_node:
  assumes "k < length (lp_list s)"
  shows "ct_ClearCnt (lp_list (wakeup_open env vid k i s) ! k) = ct_ClearCnt (lp_list s ! k) \<and>
    ct_vid (lp_list (wakeup_open env vid k i s) ! k) = ct_vid (lp_list s ! k)"
  using assms unfolding wakeup_open_def Let_def by simp

lemma wakeup_fold:
  assumes "lpb_at k m s" "n < 26"
  shows "lpb_at k m (fold (wakeup_port env vid k) [1..<Suc n] s) \<and>
    (\<forall>i \<in> {1..<Suc n}. ct_ClearCnt (lp_list (fold (wakeup_port env vid k) [1..<Suc n] s) ! k) ! i \<le> 9) \<and>
    ct_vid (lp_list (fold (wakeup_port env vid k) [1..<Suc n] s) ! k) = ct_vid (lp_list s ! k)"
  using assms(2)
proof (induction n)
  case 0
  then show ?case using assms(1) by simp
next
  case (Suc n)
  let ?t = "fold (wakeup_port env vid k) [1..<Suc n] s"
  have e: "fold (wakeup_port env vid k) [1..<Suc (Suc n)] s = wakeup_open env vid k (Suc n) (wakeup_clear env vid k (Suc n) ?t)"
    by (simp add: wakeup_port_def)
  have t: "lpb_at k m ?t" "\<forall>i \<in> {1..<Suc n}. ct_ClearCnt (lp_list ?t ! k) ! i \<le> 9" "ct_vid (lp_list ?t ! k) = ct_vid (lp_list s ! k)"
    using Suc by simp_all
  note c = wakeup_clear_at [OF t(1) Suc.prems, of env vid] wakeup_clear_node [OF t(1) Suc.prems refl, of env vid]
  have k: "k < length (lp_list (wakeup_clear env vid k (Suc n) ?t))" using c(1) by (simp add: lpb_at_def)
  show ?case unfolding e
    using wakeup_open_at [OF c(1) Suc.prems, of env vid] wakeup_open_node [OF k, of env vid "Suc n"] c(2) t(2,3)
    by (auto simp: less_Suc_eq)
qed

lemma room_node:
  assumes "lpb_ok s" "k < length (lp_list s)" "ct_vid (lp_list s ! k) = vid" "\<forall>i \<in> {1..<26}. ct_ClearCnt (lp_list s ! k) ! i \<le> 9"
  shows "room vid s"
  unfolding room_def
proof (intro ballI impI)
  fix c and i :: nat assume c: "c \<in> set (lp_list s)" "ct_vid c = vid" and i: "i \<in> {1..<26}"
  then obtain j where j: "j < length (lp_list s)" "c = lp_list s ! j" by (auto simp: in_set_conv_nth)
  have "distinct (map ct_vid (lp_list s))" using assms(1) by (simp add: lpb_ok_def)
  then have "j = k" using j c assms(2,3) nth_eq_iff_index_eq [of "map ct_vid (lp_list s)" j k] by simp
  then show "ct_ClearCnt c ! i \<le> 9" using j assms(4) i by blast
qed

lemma room_none: "getVlanLpbStasNode s vid \<ge> length (lp_list s) \<Longrightarrow> room vid s"
  using first_idx_eq_length [of "\<lambda>c. ct_vid c = vid" "lp_list s"] first_idx_le [of "\<lambda>c. ct_vid c = vid" "lp_list s"]
  by (auto simp: room_def getVlanLpbStasNode_def)

lemma room_sem [simp]: "room vid (s\<lparr>lp_sem := n\<rparr>) = room vid s" "room vid (gw_lpb_sem_give s) = room vid s"
  by (simp_all add: room_def gw_lpb_sem_give_def)

lemma wakeup_safe:
  assumes "lpb_ok s" "lp_sem s \<noteq> 0"
  shows "\<exists>s'. lpbDetectWakeupPorts env vid s = Some ((), s') \<and> lpb_ok s' \<and> lp_sem s' = lp_sem s \<and> room vid s'"
proof -
  let ?s1 = "s\<lparr>lp_sem := lp_sem s - 1\<rparr>"
  let ?k = "getVlanLpbStasNode ?s1 vid"
  have ok: "lpb_ok ?s1" using assms(1) by (simp add: lpb_ok_def)
  show ?thesis
  proof (cases "?k < length (lp_list ?s1)")
    case True
    let ?t = "fold (wakeup_port env vid ?k) [1..<NUM_PORTS_PER_SYSTEM] ?s1"
    have at: "lpb_at ?k (lp_sem s - 1) ?s1" using ok True by (simp add: lpb_at_def)
    have t: "lpb_at ?k (lp_sem s - 1) ?t" "\<forall>i \<in> {1..<26}. ct_ClearCnt (lp_list ?t ! ?k) ! i \<le> 9" "ct_vid (lp_list ?t ! ?k) = vid"
      using wakeup_fold [OF at, of 25 env vid] node_of_vid [OF True] by (simp_all add: NUM_PORTS_PER_SYSTEM_def)
    have "room vid ?t" using t by (intro room_node [of _ ?k]) (simp_all add: lpb_at_def)
    then show ?thesis using assms(2) t(1) True
      by (simp add: lpbDetectWakeupPorts_def lpb_locked_def gw_lpb_sem_take_def Let_def) (simp add: lpb_at_def gw_lpb_sem_give_def lpb_ok_def)
  next
    case False
    then have "room vid s" using room_none [of ?s1 vid] by simp
    then show ?thesis using assms False ok
      by (simp add: lpbDetectWakeupPorts_def lpb_locked_def gw_lpb_sem_take_def Let_def) (simp add: gw_lpb_sem_give_def lpb_ok_def)
  qed
qed

lemma lpb_at_wake: "lpb_at k n t \<Longrightarrow> lpb_at k n u \<Longrightarrow> lpb_at k n (t\<lparr>lp_WakeupCounter := (lp_WakeupCounter u)[i := x]\<rparr>)"
  by (simp add: lpb_at_def lpb_ok_def)

text \<open>A marked node: the mark is set and the count is 0, so either flag fits.\<close>

definition marked :: "nat \<Rightarrow> lpb_ctrl \<Rightarrow> bool" where
  "marked i c \<longleftrightarrow> ct_mask c ! i = 1 \<and> ct_ClearCnt c ! i = 0"

lemma ctrl_ok_flag: "ctrl_ok c \<Longrightarrow> marked i c \<Longrightarrow> i < 27 \<Longrightarrow> d \<le> 1 \<Longrightarrow> ctrl_ok (c\<lparr>ct_portdown := (ct_portdown c)[i := d]\<rparr>)"
  by (auto intro!: ctrl_ok_upd [of c _ i] simp: ctrl_shape_def port_ok_def marked_def dest: ctrl_shapeD)

lemma set_found_at:
  assumes "lpb_at k n s" "i < 27"
  shows "lpb_at k n (set_found k i shutdown s)"
proof -
  let ?f1 = "\<lambda>c. c\<lparr>ct_ClearCnt := (ct_ClearCnt c)[i := 0], ct_mask := (ct_mask c)[i := 1]\<rparr>"
  let ?s1 = "upd_ctrl k ?f1 s"
  have k: "k < length (lp_list s)" "ctrl_ok (lp_list s ! k)" using assms(1) node_ok by (auto simp: lpb_at_def)
  have m: "marked i (?f1 c)" if "ctrl_ok c" for c using that assms(2) ctrl_ok_lengths [OF that] by (simp add: marked_def)
  have ok1: "ctrl_ok (?f1 c)" if "ctrl_ok c" for c
  proof (rule ctrl_ok_upd [OF that, where i = i])
    show "port_ok (ct_mask (?f1 c) ! i) (ct_portdown (?f1 c) ! i) (ct_ClearCnt (?f1 c) ! i)"
      using ctrl_portD [OF that assms(2)] ctrl_ok_lengths [OF that] assms(2) by (auto simp: port_ok_def)
  qed (use ctrl_shapeD [OF that] in \<open>auto simp: ctrl_shape_def\<close>)
  have at1: "lpb_at k n ?s1 \<and> marked i (lp_list ?s1 ! k)"
    using lpb_at_upd [OF assms(1), of "\<lambda>_. True" ?f1] ok1 m k by simp
  have keep: "lpb_at k n (upd_ctrl k g t) \<and> marked i (lp_list (upd_ctrl k g t) ! k)"
    if "lpb_at k n t \<and> marked i (lp_list t ! k)" "\<And>c. ctrl_ok c \<Longrightarrow> ctrl_ok (g c)"
      "\<And>c. ct_vid (g c) = ct_vid c \<and> ct_mask (g c) = ct_mask c \<and> ct_ClearCnt (g c) = ct_ClearCnt c" for g and t :: "'a lpb_state"
    using that lpb_at_upd [of k n t "\<lambda>_. True" g] by (auto simp: lpb_at_def marked_def)
  have wake: "lpb_at k n (t\<lparr>lp_WakeupCounter := (lp_WakeupCounter ?s1)[i := x]\<rparr>) \<and> marked i (lp_list (t\<lparr>lp_WakeupCounter := (lp_WakeupCounter ?s1)[i := x]\<rparr>) ! k)"
    if "lpb_at k n t \<and> marked i (lp_list t ! k)" for t x
    using that at1 lpb_at_wake [of k n t ?s1 i x] by simp
  have flag: "lpb_at k n (upd_ctrl k (\<lambda>c. c\<lparr>ct_portdown := (ct_portdown c)[i := d]\<rparr>) t)"
    if "lpb_at k n t \<and> marked i (lp_list t ! k)" "d \<le> 1" for t :: "'a lpb_state" and d
    using that assms(2) by (auto intro!: lpb_at_upd [where P = "marked i"] ctrl_ok_flag)
  have slp: "lpb_at k n (upd_ctrl k (\<lambda>c. c\<lparr>ct_slp := (ct_slp c)[i := 0]\<rparr>) ?s1) \<and> marked i (lp_list (upd_ctrl k (\<lambda>c. c\<lparr>ct_slp := (ct_slp c)[i := 0]\<rparr>) ?s1) ! k)"
    by (rule keep [OF at1]) (simp_all add: ctrl_ok_slp ctrl_ok_lengths)
  have wk: "lpb_at k n (upd_ctrl k (\<lambda>c. c\<lparr>ct_wakeup := (ct_wakeup c)[i := 255]\<rparr>) ?s1) \<and> marked i (lp_list (upd_ctrl k (\<lambda>c. c\<lparr>ct_wakeup := (ct_wakeup c)[i := 255]\<rparr>) ?s1) ! k)"
    by (rule keep [OF at1]) (simp_all add: ctrl_ok_wake ctrl_ok_lengths)
  have ws: "lpb_at k n (upd_ctrl k (\<lambda>c. c\<lparr>ct_wakeup := (ct_wakeup c)[i := 0], ct_slp := (ct_slp c)[i := 0]\<rparr>) ?s1) \<and>
      marked i (lp_list (upd_ctrl k (\<lambda>c. c\<lparr>ct_wakeup := (ct_wakeup c)[i := 0], ct_slp := (ct_slp c)[i := 0]\<rparr>) ?s1) ! k)"
  proof (rule keep [OF at1])
    fix c assume c: "ctrl_ok c"
    then show "ctrl_ok (c\<lparr>ct_wakeup := (ct_wakeup c)[i := 0], ct_slp := (ct_slp c)[i := 0]\<rparr>)"
      using ctrl_ok_slp [OF ctrl_ok_wake [OF c, of "(ct_wakeup c)[i := 0]"], of "(ct_slp c)[i := 0]"] by (simp add: ctrl_ok_lengths)
  qed simp
  show ?thesis
    unfolding set_found_def Let_def
    using flag [OF at1, of 0] flag [OF wake [OF slp], of 1] flag [OF wake [OF wk], of 1] flag [OF wake [OF ws], of 1]
    by (auto simp del: upd_ctrl_sel)
qed

lemma lpb_ok_hw [simp]: "lpb_ok (s\<lparr>lp_hw := h\<rparr>) = lpb_ok s"
  by (simp add: lpb_ok_def)

lemma store_alarm_at: "lpb_at k n s \<Longrightarrow> i < 27 \<Longrightarrow> lpb_at k n (store_alarm k i info s)"
  by (auto simp: store_alarm_def ctrl_ok_alarm ctrl_ok_lengths intro!: lpb_at_upd [where P = "\<lambda>_. True"] split: option.split)

lemma new_ctrl_ok: "i < 27 \<Longrightarrow> ctrl_ok (new_ctrl vid i shutdown)"
proof -
  have z: "ctrl_ok (ctrl_zero\<lparr>ct_vid := vid, ct_StateChg := (ct_StateChg ctrl_zero)[i := 1]\<rparr>)"
    by (simp add: ctrl_ok_def ctrl_shape_def ctrl_zero_def port_ok_def lpb_ports_def NUM_PORTS_PER_SYSTEM_def)
  assume "i < 27"
  then show ?thesis
    by (intro ctrl_ok_upd [OF z, where i = i])
      (auto simp: new_ctrl_def ctrl_shape_def ctrl_zero_def port_ok_def lpb_ports_def NUM_PORTS_PER_SYSTEM_def)
qed

lemma set_body_ok:
  assumes "lpb_ok s" "i < 27"
    and "(let k = getVlanLpbStasNode s vid in
       if k < length (lp_list s) then (GW_OK, store_alarm k i pInfo (set_found k i shutdown s))
       else if le_malloc env (lp_hw s) \<noteq> (True, True) then (GW_ERROR, s)
       else let s1 = s\<lparr>lp_list := lp_list s @ [new_ctrl vid i shutdown],
                       lp_WakeupCounter := (if shutdown then (lp_WakeupCounter s)[i := 0] else lp_WakeupCounter s)\<rparr>
            in (GW_OK, store_alarm k i pInfo s1)) = (r, s2)"
  shows "lpb_ok s2 \<and> lp_sem s2 = lp_sem s"
proof -
  let ?k = "getVlanLpbStasNode s vid"
  show ?thesis
  proof (cases "?k < length (lp_list s)")
    case True
    then have "lpb_at ?k (lp_sem s) (store_alarm ?k i pInfo (set_found ?k i shutdown s))"
      using assms(1,2) by (intro store_alarm_at set_found_at) (simp_all add: lpb_at_def)
    then show ?thesis using assms(3) True by (auto simp: lpb_at_def Let_def)
  next
    case False
    let ?s1 = "s\<lparr>lp_list := lp_list s @ [new_ctrl vid i shutdown],
       lp_WakeupCounter := (if shutdown then (lp_WakeupCounter s)[i := 0] else lp_WakeupCounter s)\<rparr>"
    have k: "?k = length (lp_list s)" using False by (simp add: getVlanLpbStasNode_def) (metis first_idx_le le_antisym not_le)
    then have "vid \<notin> ct_vid ` set (lp_list s)"
      using first_idx_eq_length [of "\<lambda>c. ct_vid c = vid" "lp_list s"] by (auto simp: getVlanLpbStasNode_def)
    then have "lpb_ok ?s1" using assms(1) new_ctrl_ok [OF assms(2), of vid shutdown]
      by (auto simp: lpb_ok_def new_ctrl_def)
    then have "lpb_at ?k (lp_sem s) (store_alarm ?k i pInfo ?s1)"
      using assms(2) k by (intro store_alarm_at) (simp_all add: lpb_at_def)
    then show ?thesis using assms(1,3) False by (auto simp: lpb_at_def Let_def split: if_splits)
  qed
qed

lemma set_safe:
  assumes "lpb_ok s" "lp_sem s \<noteq> 0" "i < 27"
  shows "lpb_safe s (setPortLpbStatus env vid i shutdown pInfo s)"
  unfolding setPortLpbStatus_def
  by (rule lpb_locked_safe [OF assms(2,1)]) (rule set_body_ok [OF _ assms(3)])

lemma reset_port_at:
  assumes "lpb_at k n s" "i < 26"
  shows "lpb_at k n (reset_port env session k i s) \<and> length (lp_list (reset_port env session k i s)) = length (lp_list s)"
proof (cases "ct_portdown (lp_list s ! k) ! i = 1")
  case True
  let ?s1 = "s\<lparr>lp_hw := snd (le_admin_set env (lp_hw s) (of_nat i) PORT_ADMIN_UP)\<rparr>"
  let ?c = "lp_list ?s1 ! k"
  let ?m = "sendOamLpbDetectNotifyMsg env (of_nat i) 2 (ct_vid ?c) (Some session) (Some (ct_alarm ?c ! i)) ?s1"
  obtain ret s2 where m: "?m = (ret, s2)" by (cases ?m)
  have e: "s2 = snd ?m" unfolding m by simp
  have s2: "lpb_at k n s2" unfolding e lpb_at_send lpb_at_fields by (rule assms(1))
  have l2: "length (lp_list s2) = length (lp_list s)" unfolding e send_keeps by simp
  have "lpb_at k n (upd_ctrl k (\<lambda>c. c\<lparr>ct_portdown := (ct_portdown c)[i := 0], ct_mask := (ct_mask c)[i := 0],
      ct_ClearCnt := (ct_ClearCnt c)[i := 0]\<rparr>) s2)"
    using assms(2) by (intro lpb_at_upd [OF s2, where P = "\<lambda>_. True"] ctrl_ok_cleared) simp_all
  then show ?thesis using True s2 l2 m unfolding reset_port_def Let_def by simp
qed (simp add: reset_port_def assms(1))

lemma reset_node_at:
  assumes "lpb_at k n s"
  shows "lpb_at k n (reset_node env force session k s) \<and> length (lp_list (reset_node env force session k s)) = length (lp_list s)"
proof -
  have "lpb_at k n (fold (reset_port env session k) [1..<NUM_PORTS_PER_SYSTEM] s) \<and>
      length (lp_list (fold (reset_port env session k) [1..<NUM_PORTS_PER_SYSTEM] s)) = length (lp_list s)"
  proof (rule fold_invariant [where Q = "\<lambda>i. i < 26" and P = "\<lambda>t. lpb_at k n t \<and> length (lp_list t) = length (lp_list s)"])
    show "i < 26" if "i \<in> set [1..<NUM_PORTS_PER_SYSTEM]" for i using that by (simp add: NUM_PORTS_PER_SYSTEM_def)
    show "lpb_at k n (reset_port env session k i t) \<and> length (lp_list (reset_port env session k i t)) = length (lp_list s)"
      if "i < 26" "lpb_at k n t \<and> length (lp_list t) = length (lp_list s)" for i t
      using that reset_port_at [of k n t i env session] by simp
  qed (simp add: assms)
  then show ?thesis using assms by (auto simp: reset_node_def)
qed

lemma reset_safe:
  assumes "lpb_ok s" "lp_sem s \<noteq> 0"
  shows "lpb_safe s (resetLpbPort env force session s)"
  unfolding resetLpbPort_def
proof (rule lpb_locked_safe [OF assms(2,1)])
  fix s1 :: "'a lpb_state" and r s2
  assume a: "lpb_ok s1" and f: "(GW_OK, fold (reset_node env force session) [0..<length (lp_list s1)] s1) = (r, s2)"
  have "lpb_ok s2 \<and> lp_sem s2 = lp_sem s1 \<and> length (lp_list s2) = length (lp_list s1)"
    using f [symmetric]
  proof (simp, intro fold_invariant [where Q = "\<lambda>k. k < length (lp_list s1)" and
      P = "\<lambda>t. lpb_ok t \<and> lp_sem t = lp_sem s1 \<and> length (lp_list t) = length (lp_list s1)"])
    fix k and t :: "'a lpb_state" assume "k < length (lp_list s1)" "lpb_ok t \<and> lp_sem t = lp_sem s1 \<and> length (lp_list t) = length (lp_list s1)"
    then show "lpb_ok (reset_node env force session k t) \<and> lp_sem (reset_node env force session k t) = lp_sem s1 \<and>
        length (lp_list (reset_node env force session k t)) = length (lp_list s1)"
      using reset_node_at [of k "lp_sem s1" t env force session] by (simp add: lpb_at_def)
  qed (use a in auto)
  then show "lpb_ok s2 \<and> lp_sem s2 = lp_sem s1" by simp
qed

lemma mark_safe:
  assumes "lpb_ok s" "lp_sem s \<noteq> 0"
  shows "\<exists>r. gw_port_is_lpb_mark vid port s = Some (r, s)"
  using assms(2) by (auto simp: gw_port_is_lpb_mark_def lpb_locked_def gw_lpb_sem_take_def gw_lpb_sem_give_def Let_def)

lemma led_safe:
  assumes "lpb_ok s" "lp_sem s \<noteq> 0"
  shows "lpb_safe s (gwdEthPortLoopLedAction env s)"
  using assms by (simp add: lpb_safe_def gwdEthPortLoopLedAction_def lpb_locked_def gw_lpb_sem_take_def gw_lpb_sem_give_def
      split: prod.split)

end
