(* ===== verification/Keyed_Store.thy ===== *)
theory Keyed_Store
  imports Prelude
begin

text \<open>
  The interface of the registries of the firmware, which keep one value per key and refuse a
  second one: the handlers of the configuration file, the packet parsers, the rules of the
  VLAN queue map. The first locale has lookup and insertion, the second one removal as well.
\<close>

section \<open>Operations on the abstract map\<close>

datatype ('k, 'v) store_op = Insert 'k 'v | Delete 'k

fun map_ok :: "('k \<Rightarrow> 'v option) \<Rightarrow> ('k, 'v) store_op \<Rightarrow> bool" where
  "map_ok m (Insert k v) \<longleftrightarrow> m k = None"
| "map_ok m (Delete k) \<longleftrightarrow> m k \<noteq> None"

fun map_do :: "('k \<Rightarrow> 'v option) \<Rightarrow> ('k, 'v) store_op \<Rightarrow> ('k \<Rightarrow> 'v option)" where
  "map_do m (Insert k v) = (if m k = None then m(k := Some v) else m)"
| "map_do m (Delete k) = m(k := None)"

fun op_key :: "('k, 'v) store_op \<Rightarrow> 'k" where
  "op_key (Insert k v) = k"
| "op_key (Delete k) = k"

fun map_run :: "('k \<Rightarrow> 'v option) \<Rightarrow> ('k, 'v) store_op list \<Rightarrow> bool list \<times> ('k \<Rightarrow> 'v option)" where
  "map_run m [] = ([], m)"
| "map_run m (c # cs) = (case map_run (map_do m c) cs of (rs, m') \<Rightarrow> (map_ok m c # rs, m'))"

fun store_run ::
  "('s \<Rightarrow> ('k, 'v) store_op \<Rightarrow> bool \<times> 's) \<Rightarrow> 's \<Rightarrow> ('k, 'v) store_op list \<Rightarrow> bool list \<times> 's" where
  "store_run step s [] = ([], s)"
| "store_run step s (c # cs) =
     (case step s c of (r, s1) \<Rightarrow> (case store_run step s1 cs of (rs, s2) \<Rightarrow> (r # rs, s2)))"

section \<open>The interfaces\<close>

locale registry =
  fixes inv :: "'s \<Rightarrow> bool"
    and valid :: "'k \<Rightarrow> bool"
    and lookup :: "'s \<Rightarrow> 'k \<Rightarrow> 'v option"
    and insert_new :: "'s \<Rightarrow> 'k \<Rightarrow> 'v \<Rightarrow> bool \<times> 's"
  assumes insert_ok: "inv s \<Longrightarrow> valid k \<Longrightarrow> insert_new s k v = (b, s') \<Longrightarrow> b = (lookup s k = None)"
    and insert_inv: "inv s \<Longrightarrow> valid k \<Longrightarrow> insert_new s k v = (b, s') \<Longrightarrow> inv s'"
    and insert_lookup: "inv s \<Longrightarrow> valid k \<Longrightarrow> valid j \<Longrightarrow> insert_new s k v = (b, s') \<Longrightarrow>
      lookup s' j = (if b \<and> j = k then Some v else lookup s j)"
begin

fun register_all :: "'s \<Rightarrow> ('k \<times> 'v) list \<Rightarrow> 's" where
  "register_all s [] = s"
| "register_all s ((k, v) # kvs) = register_all (snd (insert_new s k v)) kvs"

text \<open>The first registration of a key stays.\<close>

lemma register_all_lookup:
  "inv s \<Longrightarrow> list_all (\<lambda>(k, v). valid k) kvs \<Longrightarrow> valid j \<Longrightarrow>
   inv (register_all s kvs) \<and>
   lookup (register_all s kvs) j = (case lookup s j of None \<Rightarrow> map_of kvs j | Some v \<Rightarrow> Some v)"
proof (induction kvs arbitrary: s)
  case (Cons kv kvs)
  obtain k v where kv: "kv = (k, v)" by (cases kv)
  obtain b s1 where i: "insert_new s k v = (b, s1)" by (cases "insert_new s k v")
  have "inv s1" "lookup s1 j = (if b \<and> j = k then Some v else lookup s j)" "b = (lookup s k = None)"
    using Cons.prems i insert_ok [of s k v b s1] insert_inv [of s k v b s1] insert_lookup [of s k j v b s1] by (auto simp: kv)
  then show ?case using Cons.IH [of s1] Cons.prems i by (auto simp: kv split: option.split)
qed (auto split: option.split)

end

locale store = registry inv valid lookup insert_new
  for inv :: "'s \<Rightarrow> bool" and valid :: "'k \<Rightarrow> bool" and lookup :: "'s \<Rightarrow> 'k \<Rightarrow> 'v option"
    and insert_new :: "'s \<Rightarrow> 'k \<Rightarrow> 'v \<Rightarrow> bool \<times> 's" +
  fixes delete :: "'s \<Rightarrow> 'k \<Rightarrow> bool \<times> 's"
  assumes delete_ok: "inv s \<Longrightarrow> valid k \<Longrightarrow> delete s k = (b, s') \<Longrightarrow> b = (lookup s k \<noteq> None)"
    and delete_inv: "inv s \<Longrightarrow> valid k \<Longrightarrow> delete s k = (b, s') \<Longrightarrow> inv s'"
    and delete_lookup: "inv s \<Longrightarrow> valid k \<Longrightarrow> valid j \<Longrightarrow> delete s k = (b, s') \<Longrightarrow>
      lookup s' j = (if j = k then None else lookup s j)"
begin

fun step :: "'s \<Rightarrow> ('k, 'v) store_op \<Rightarrow> bool \<times> 's" where
  "step s (Insert k v) = insert_new s k v"
| "step s (Delete k) = delete s k"

definition agree :: "'s \<Rightarrow> ('k \<Rightarrow> 'v option) \<Rightarrow> bool" where
  "agree s m \<longleftrightarrow> inv s \<and> (\<forall>j. valid j \<longrightarrow> lookup s j = m j)"

lemma step_agree:
  assumes "agree s m" "valid (op_key c)" "step s c = (r, s')"
  shows "r = map_ok m c \<and> agree s' (map_do m c)"
proof (cases c)
  case (Insert k v)
  then show ?thesis
    using assms insert_ok [of s k v r s'] insert_inv [of s k v r s'] insert_lookup [of s k _ v r s']
    by (auto simp: agree_def)
next
  case (Delete k)
  then show ?thesis
    using assms delete_ok [of s k r s'] delete_inv [of s k r s'] delete_lookup [of s k _ r s']
    by (auto simp: agree_def)
qed

text \<open>Every sequence of operations returns what the map returns and stays in step with it.\<close>

lemma run_agree:
  assumes "agree s m" "list_all (\<lambda>c. valid (op_key c)) cs" "store_run step s cs = (rs, s')"
  shows "rs = fst (map_run m cs) \<and> agree s' (snd (map_run m cs))"
  using assms
proof (induction cs arbitrary: s m rs)
  case (Cons c cs)
  obtain r s1 where 1: "step s c = (r, s1)" by (cases "step s c")
  obtain rs2 s2 where 2: "store_run step s1 cs = (rs2, s2)" by (cases "store_run step s1 cs")
  have a: "r = map_ok m c \<and> agree s1 (map_do m c)" using step_agree [OF Cons.prems(1) _ 1] Cons.prems(2) by simp
  have "rs = r # rs2" "s' = s2" using Cons.prems(3) 1 2 by auto
  then show ?case using Cons.IH [of s1 "map_do m c" rs2] a 2 Cons.prems(2) by (auto split: prod.split)
qed simp

end

end
