(* ===== verification/Pkt_Main.thy ===== *)
theory Pkt_Main
  imports Os_Queue Keyed_Store "HOL-Library.Multiset"
begin

text \<open>
  The packet path of \<^verbatim>\<open>apps/pkt_main.c\<close>: the table of parsers and handlers, the priority of
  a packet type, the sender that puts a copy of a packet into the priority queue, and the
  packet thread that takes packets out and calls their handlers. Handlers work on the state
  \<open>'a\<close> of the components they belong to.
\<close>

section \<open>The table of callbacks\<close>

definition GW_PKT_OAM :: int where "GW_PKT_OAM = 0"
definition GW_PKT_LPB :: int where "GW_PKT_LPB = 1"
definition GW_PKT_RCP :: int where "GW_PKT_RCP = 2"
definition GW_PKT_MAX :: int where "GW_PKT_MAX = 3"

lemmas pkt_types = GW_PKT_OAM_def GW_PKT_LPB_def GW_PKT_RCP_def GW_PKT_MAX_def

type_synonym pkt_parse = "u8 list \<Rightarrow> u32 \<Rightarrow> int"
type_synonym 'a pkt_handler = "u8 list \<Rightarrow> u32 \<Rightarrow> u32 \<Rightarrow> 'a \<Rightarrow> int \<times> 'a"

record 'a pkt_cb =
  cb_parser :: "pkt_parse option"
  cb_handler :: "'a pkt_handler option"

definition gw_pkt_pri_maps :: "(int \<times> nat) list" where
  "gw_pkt_pri_maps = [(GW_PKT_OAM, 7), (GW_PKT_LPB, 0), (GW_PKT_RCP, 4)]"

definition gw_get_pkt_pri :: "int \<Rightarrow> nat" where
  "gw_get_pkt_pri type =
     (let pri = (case List.find (\<lambda>m. fst m = type) gw_pkt_pri_maps of
                   None \<Rightarrow> GW_OSAL_MAX_QUEUE_PRI | Some m \<Rightarrow> snd m)
      in if pri = GW_OSAL_MAX_QUEUE_PRI \<and> type \<noteq> GW_PKT_MAX then 0 else pri)"

definition gw_reg_pkt_parse :: "'a pkt_cb list \<Rightarrow> int \<Rightarrow> pkt_parse option \<Rightarrow> int \<times> 'a pkt_cb list" where
  "gw_reg_pkt_parse tab type parser =
     (if type < GW_PKT_MAX \<and> type \<ge> GW_PKT_OAM
      then (GW_OK, tab[nat type := (tab ! nat type)\<lparr>cb_parser := parser\<rparr>])
      else (GW_ERROR, tab))"

definition gw_reg_pkt_handler :: "'a pkt_cb list \<Rightarrow> int \<Rightarrow> 'a pkt_handler option \<Rightarrow> int \<times> 'a pkt_cb list" where
  "gw_reg_pkt_handler tab type handler =
     (if type < GW_PKT_MAX \<and> type \<ge> GW_PKT_OAM
      then (GW_OK, tab[nat type := (tab ! nat type)\<lparr>cb_handler := handler\<rparr>])
      else (GW_ERROR, tab))"

text \<open>The loop over the parsers, with the result so far.\<close>

fun parser_loop :: "'a pkt_cb list \<Rightarrow> u8 list \<Rightarrow> u32 \<Rightarrow> int \<Rightarrow> int" where
  "parser_loop [] pkt len ret = ret"
| "parser_loop (cb # cbs) pkt len ret =
     (case cb_parser cb of
        None \<Rightarrow> parser_loop cbs pkt len ret
      | Some p \<Rightarrow> if p pkt len \<noteq> GW_PKT_MAX then p pkt len else parser_loop cbs pkt len (p pkt len))"

definition gw_pkt_parser_call :: "'a pkt_cb list \<Rightarrow> u8 list \<Rightarrow> u32 \<Rightarrow> int" where
  "gw_pkt_parser_call tab pkt len = parser_loop tab pkt len GW_PKT_MAX"

definition gw_pkt_handler_call ::
  "'a pkt_cb list \<Rightarrow> int \<Rightarrow> u8 list \<Rightarrow> u32 \<Rightarrow> u32 \<Rightarrow> 'a \<Rightarrow> int \<times> 'a" where
  "gw_pkt_handler_call tab type pkt len portid app =
     (if type \<ge> 0 \<and> type < GW_PKT_MAX
      then (case cb_handler (tab ! nat type) of
              None \<Rightarrow> (GW_ERROR, app)
            | Some h \<Rightarrow> h pkt len portid app)
      else (GW_ERROR, app))"

section \<open>The queue of packets\<close>

text \<open>
  The memory image of \<^verbatim>\<open>queue_para_t\<close>: port, length and address of the copy, which lies in
  \<open>pk_heap\<close>.
\<close>

definition sizeof_queue_para_t :: nat where "sizeof_queue_para_t = 12"

definition queue_para :: "u32 \<Rightarrow> u32 \<Rightarrow> addr \<Rightarrow> u8 list" where
  "queue_para portid pkt_len pkt = bytes_of_u32 portid @ bytes_of_u32 pkt_len @ bytes_of_u32 (of_nat pkt)"

definition para_portid :: "u8 list \<Rightarrow> u32" where "para_portid m = u32_of_bytes m"
definition para_pkt_len :: "u8 list \<Rightarrow> u32" where "para_pkt_len m = u32_of_bytes (drop 4 m)"
definition para_pkt :: "u8 list \<Rightarrow> addr" where "para_pkt m = unat (u32_of_bytes (drop 8 m))"

record 'a pkt_sys =
  pk_os :: osal
  pk_queueid :: u32
  pk_tab :: "'a pkt_cb list"
  pk_heap :: "addr \<Rightarrow> u8 list option"
  pk_app :: 'a

definition gw_pkt_queue_depth :: u32 where "gw_pkt_queue_depth = 400"

definition GW_OSAL_THREAD_PRIO_NORMAL :: u32 where "GW_OSAL_THREAD_PRIO_NORMAL = 100"

text \<open>
  \<open>sem_ok\<close>, \<open>mut_ok\<close>, \<open>self\<close>: for \<^verbatim>\<open>gw_pri_queue_create\<close>; \<open>stack\<close>, \<open>tid\<close>: for
  \<^verbatim>\<open>gw_thread_create\<close>.
\<close>

definition init_pkt_proc ::
  "bool \<Rightarrow> (nat \<Rightarrow> bool) \<Rightarrow> u32 \<Rightarrow> addr option \<Rightarrow> u32 \<Rightarrow> 'a pkt_sys \<Rightarrow> int \<times> 'a pkt_sys" where
  "init_pkt_proc sem_ok mut_ok self stack tid s =
     (let s1 = s\<lparr>pk_tab := replicate (nat GW_PKT_MAX) \<lparr>cb_parser = None, cb_handler = None\<rparr>\<rparr> in
      case gw_pri_queue_create (pk_os s1) True (Some ''GW_PKT_QUEUE'') gw_pkt_queue_depth
             (of_nat sizeof_queue_para_t) (int GW_OSAL_MAX_QUEUE_PRI) sem_ok mut_ok self of
        (st, qid, os1) \<Rightarrow>
          let s2 = s1\<lparr>pk_os := os1, pk_queueid := (case qid of None \<Rightarrow> pk_queueid s1 | Some q \<Rightarrow> q)\<rparr> in
          if st \<noteq> OSAL_OK then (GW_ERROR, s2)
          else (case gw_thread_create os1 True (Some ''GW_PKT_THREAD'') True 65536 GW_OSAL_THREAD_PRIO_NORMAL stack tid self of
                  (st2, _, os2) \<Rightarrow>
                  (if st2 \<noteq> OSAL_OK then GW_ERROR else GW_OK, s2\<lparr>pk_os := os2\<rparr>)))"

text \<open>
  \<open>a\<close>: what \<^verbatim>\<open>malloc\<close> returns for the copy; \<open>node\<close>: the queue node can be allocated. \<open>None\<close>: the
  caller blocks on a mutex of the queue, or \<open>pkt\<close> has fewer than \<open>len\<close> bytes.
\<close>

definition gwlib_sendPktToQueue ::
  "addr option \<Rightarrow> bool \<Rightarrow> 'a pkt_sys \<Rightarrow> u8 list \<Rightarrow> u32 \<Rightarrow> u32 \<Rightarrow> (int \<times> 'a pkt_sys) option" where
  "gwlib_sendPktToQueue a node s pkt len portid =
     (let type = gw_pkt_parser_call (pk_tab s) pkt len; pri = gw_get_pkt_pri type in
      if pri \<noteq> GW_OSAL_MAX_QUEUE_PRI
      then (case a of
              None \<Rightarrow> Some (GW_ERROR, s)
            | Some data \<Rightarrow>
                if length pkt < unat len then None
                else (let s1 = s\<lparr>pk_heap := (pk_heap s)(data := Some (take (unat len) pkt))\<rparr> in
                  case gw_pri_queue_put (pk_os s1) (pk_queueid s1) (Some (queue_para portid len data)) (int pri) node of
                    None \<Rightarrow> None
                  | Some (st, os') \<Rightarrow>
                      if st \<noteq> OSAL_OK
                      then Some (GW_ERROR, s1\<lparr>pk_os := os', pk_heap := (pk_heap s1)(data := None)\<rparr>)
                      else Some (GW_OK, s1\<lparr>pk_os := os'\<rparr>)))
      else Some (GW_ERROR, s))"

text \<open>
  One round of the loop of the packet thread. \<open>None\<close>: it waits for a packet, or uses a freed
  copy.
\<close>

definition gw_pkt_proc_round :: "(nat \<Rightarrow> nat) \<Rightarrow> 'a pkt_sys \<Rightarrow> 'a pkt_sys option" where
  "gw_pkt_proc_round posts s =
     (case gw_pri_queue_get posts (pk_os s) (pk_queueid s) True (of_nat sizeof_queue_para_t) (-1) of
        None \<Rightarrow> None
      | Some (st, buf, len, os') \<Rightarrow>
          let s1 = s\<lparr>pk_os := os'\<rparr> in
          (case (if st = OSAL_OK then buf else None) of
             None \<Rightarrow> Some s1
           | Some p \<Rightarrow>
               if length p < sizeof_queue_para_t then Some s1
               else (case pk_heap s1 (para_pkt p) of
                       None \<Rightarrow> None
                     | Some pkt \<Rightarrow>
                         let type = gw_pkt_parser_call (pk_tab s1) pkt (para_pkt_len p);
                             app' = (if type \<noteq> GW_PKT_MAX
                                     then snd (gw_pkt_handler_call (pk_tab s1) type pkt (para_pkt_len p) (para_portid p) (pk_app s1))
                                     else pk_app s1)
                         in Some (s1\<lparr>pk_app := app', pk_heap := (pk_heap s1)(para_pkt p := None)\<rparr>))))"

section \<open>The abstract queue of packets\<close>

text \<open>Per level, the packets with their ports; the packet a message stands for.\<close>

definition pk_view :: "(addr \<Rightarrow> u8 list option) \<Rightarrow> u8 list \<Rightarrow> u32 \<times> u8 list" where
  "pk_view h m = (para_portid m, the (h (para_pkt m)))"

definition pk_msgs :: "'a pkt_sys \<Rightarrow> u8 list list" where
  "pk_msgs s = concat (pq_abs (pk_os s) (pk_queueid s))"

definition pk_abs :: "'a pkt_sys \<Rightarrow> (u32 \<times> u8 list) list list" where
  "pk_abs s = map (map (pk_view (pk_heap s))) (pq_abs (pk_os s) (pk_queueid s))"

definition pkt_inv :: "'a pkt_sys \<Rightarrow> bool" where
  "pkt_inv s \<longleftrightarrow> pq_inv (pk_os s) (pk_queueid s) \<and> length (pq_abs (pk_os s) (pk_queueid s)) = 8 \<and>
     qu_depth (queue_rec (pk_os s) (pk_queueid s)) = 400 \<and> qu_queue_size (queue_rec (pk_os s) (pk_queueid s)) = 12 \<and>
     distinct (map para_pkt (pk_msgs s)) \<and> dom (pk_heap s) = para_pkt ` set (pk_msgs s) \<and>
     (\<forall>m \<in> set (pk_msgs s). length m = 12 \<and> unat (para_pkt_len m) = length (the (pk_heap s (para_pkt m))))"

definition apk_send ::
  "'a pkt_cb list \<Rightarrow> (u32 \<times> u8 list) list list \<Rightarrow> u8 list \<Rightarrow> u32 \<Rightarrow> int \<times> (u32 \<times> u8 list) list list" where
  "apk_send tab ls pkt portid =
     (let k = gw_get_pkt_pri (gw_pkt_parser_call tab pkt (of_nat (length pkt))) in
      if k = 8 \<or> 400 \<le> length (ls ! k) then (GW_ERROR, ls) else (GW_OK, ls[k := ls ! k @ [(portid, pkt)]]))"

definition apk_handle :: "'a pkt_cb list \<Rightarrow> u32 \<times> u8 list \<Rightarrow> 'a \<Rightarrow> 'a" where
  "apk_handle tab x app =
     (case x of (portid, pkt) \<Rightarrow>
        let len = of_nat (length pkt); type = gw_pkt_parser_call tab pkt len in
        if type \<noteq> GW_PKT_MAX then snd (gw_pkt_handler_call tab type pkt len portid app) else app)"

definition apk_proc ::
  "'a pkt_cb list \<Rightarrow> (u32 \<times> u8 list) list list \<Rightarrow> 'a \<Rightarrow> ((u32 \<times> u8 list) list list \<times> 'a) option" where
  "apk_proc tab ls app =
     map_option (\<lambda>k. (ls[k := tl (ls ! k)], apk_handle tab (hd (ls ! k)) app)) (top_level (length ls) ls)"

section \<open>Lemmas\<close>

lemma queue_para_fields [simp]:
  "length (queue_para p l a) = 12" "para_portid (queue_para p l a) = p" "para_pkt_len (queue_para p l a) = l"
  "a < 4294967296 \<Longrightarrow> para_pkt (queue_para p l a) = a"
  using u32_of_bytes_append [of "of_nat a" "[]"]
  by (simp_all add: queue_para_def para_portid_def para_pkt_len_def para_pkt_def unat_of_nat_u32)

lemma pkt_pri_cases: "gw_get_pkt_pri t = 0 \<or> gw_get_pkt_pri t = 4 \<or> gw_get_pkt_pri t = 7 \<or> gw_get_pkt_pri t = 8"
  by (auto simp: gw_get_pkt_pri_def gw_pkt_pri_maps_def GW_OSAL_MAX_QUEUE_PRI_def Let_def)

lemma pkt_pri_less: "gw_get_pkt_pri t \<noteq> 8 \<Longrightarrow> gw_get_pkt_pri t < 8"
  using pkt_pri_cases [of t] by auto

lemma pri_max: "GW_OSAL_MAX_QUEUE_PRI = 8"
  by (simp add: GW_OSAL_MAX_QUEUE_PRI_def)

lemma mset_concat_snoc: "k < length ls \<Longrightarrow> mset (concat (ls[k := ls ! k @ [m]])) = mset (m # concat ls)"
  by (induction ls arbitrary: k) (auto simp: nth_Cons' less_Suc_eq_0_disj)

lemma mset_concat_tl: "k < length ls \<Longrightarrow> ls ! k \<noteq> [] \<Longrightarrow> mset (concat ls) = mset (hd (ls ! k) # concat (ls[k := tl (ls ! k)]))"
proof (induction ls arbitrary: k)
  case (Cons x ls)
  then show ?case by (cases k) (auto simp: neq_Nil_conv)
qed simp

lemma distinct_map_mset: "mset xs = mset ys \<Longrightarrow> distinct (map f xs) = distinct (map f ys)"
  by (metis mset_eq_imp_distinct_iff mset_map)

lemma top_level_map [simp]: "n \<le> length ls \<Longrightarrow> top_level n (map (map f) ls) = top_level n ls"
  by (induction n) auto

lemma get_forever:
  assumes "pq_inv os i"
  shows "gw_pri_queue_get posts os i True sz (-1) =
    (if top_level (length (pq_abs os i)) (pq_abs os i) = None then None
     else gw_pri_queue_get (\<lambda>_. 0) os i True sz 0)"
proof -
  let ?s = "qu_cnt_sem_id (queue_rec os i)"
  have v: "pri_valid os i" "sem_valid os ?s" "sem_value os ?s = sum_list (map length (pq_abs os i))"
    using assms pq_inv_valid by (auto simp: pq_inv_def)
  show ?thesis
  proof (cases "sem_value os ?s = 0")
    case True
    then show ?thesis
      using v sum_lengths_zero [of "pq_abs os i"] by (simp add: gw_pri_queue_get_def gw_semaphore_wait_def top_level_None)
  next
    case False
    then have "top_level (length (pq_abs os i)) (pq_abs os i) \<noteq> None"
      using v sum_lengths_zero [of "pq_abs os i"] by (auto simp: top_level_None)
    moreover have "gw_semaphore_wait posts os ?s (-1) = gw_semaphore_wait (\<lambda>_. 0) os ?s 0"
      using v(2) False wait_ready [of os ?s "-1" posts] wait_ready [of os ?s 0 "\<lambda>_. 0"] by simp
    ultimately show ?thesis
      using v(1) by (auto simp: gw_pri_queue_get_def)
  qed
qed

lemma msg_copy: "pkt_inv s \<Longrightarrow> m \<in> set (pk_msgs s) \<Longrightarrow> \<exists>b. pk_heap s (para_pkt m) = Some b"
proof -
  assume "pkt_inv s" "m \<in> set (pk_msgs s)"
  then have "para_pkt m \<in> dom (pk_heap s)" by (simp add: pkt_inv_def)
  then show "\<exists>b. pk_heap s (para_pkt m) = Some b" by auto
qed

text \<open>Adding and removing a copy leaves the view of the other messages alone.\<close>

lemma view_other:
  assumes "pk_heap s a = None" "pkt_inv s"
  shows "map (map (pk_view ((pk_heap s)(a := v)))) (pq_abs (pk_os s) (pk_queueid s)) = pk_abs s"
proof -
  have "para_pkt m \<noteq> a" if "m \<in> set l" "l \<in> set (pq_abs (pk_os s) (pk_queueid s))" for m l
  proof -
    have "m \<in> set (pk_msgs s)" using that by (auto simp: pk_msgs_def)
    from msg_copy [OF assms(2) this] assms(1) show ?thesis by auto
  qed
  then show ?thesis by (auto simp: pk_abs_def pk_view_def)
qed

lemma send_refines:
  assumes inv: "pkt_inv s" and a: "pk_heap s a = None" "a < 4294967296" and len: "length pkt < 4294967296"
  shows "\<exists>s'. gwlib_sendPktToQueue (Some a) True s pkt (of_nat (length pkt)) portid =
      Some (fst (apk_send (pk_tab s) (pk_abs s) pkt portid), s') \<and>
    pkt_inv s' \<and> pk_abs s' = snd (apk_send (pk_tab s) (pk_abs s) pkt portid) \<and>
    pk_tab s' = pk_tab s \<and> pk_app s' = pk_app s"
proof -
  let ?q = "pk_queueid s" and ?k = "gw_get_pkt_pri (gw_pkt_parser_call (pk_tab s) pkt (of_nat (length pkt)))"
  let ?ls = "pq_abs (pk_os s) ?q" and ?m = "queue_para portid (of_nat (length pkt)) a"
  have pq: "pq_inv (pk_os s) ?q" and n: "length ?ls = 8" "qu_depth (queue_rec (pk_os s) ?q) = 400" "qu_queue_size (queue_rec (pk_os s) ?q) = 12"
    using inv by (simp_all add: pkt_inv_def)
  have lk: "length (pk_abs s ! ?k) = length (?ls ! ?k)" if "?k < 8" using that n by (simp add: pk_abs_def)
  have ul: "unat (of_nat (length pkt) :: u32) = length pkt" using len by (rule unat_of_nat_u32)
  have r: "pq_refines (pk_os s) ?q (apq_step 400 12 ?ls (PqPut (int ?k) ?m)) (pq_step ?q (pk_os s) (PqPut (int ?k) ?m))"
    using pri_put_refines [OF pq, of ?m "int ?k"] n by simp
  show ?thesis
  proof (cases "?k = 8")
    case True
    then show ?thesis using inv by (simp add: gwlib_sendPktToQueue_def apk_send_def Let_def pri_max)
  next
    case False
    then have k8: "?k < 8" by (rule pkt_pri_less)
    show ?thesis
    proof (cases "400 \<le> length (?ls ! ?k)")
      case True
      with r n k8 obtain os' where o: "gw_pri_queue_put (pk_os s) ?q (Some ?m) (int ?k) True = Some (OSAL_ERR, os')"
        "pq_inv os' ?q" "pq_abs os' ?q = ?ls" "qu_depth (queue_rec os' ?q) = 400" "qu_queue_size (queue_rec os' ?q) = 12"
        by (auto simp: pq_refines_def)
      have "(pk_heap s)(a := None) = pk_heap s" using a by auto
      then have "gwlib_sendPktToQueue (Some a) True s pkt (of_nat (length pkt)) portid = Some (GW_ERROR, s\<lparr>pk_os := os'\<rparr>)"
        using False o(1) ul by (simp add: gwlib_sendPktToQueue_def Let_def pri_max)
      moreover have "pkt_inv (s\<lparr>pk_os := os'\<rparr>)" "pk_abs (s\<lparr>pk_os := os'\<rparr>) = pk_abs s"
        using inv o n by (simp_all add: pkt_inv_def pk_msgs_def pk_abs_def)
      ultimately show ?thesis using True lk [OF k8] by (simp add: apk_send_def Let_def)
    next
      case room: False
      with r n k8 obtain os' where o: "gw_pri_queue_put (pk_os s) ?q (Some ?m) (int ?k) True = Some (OSAL_OK, os')"
        "pq_inv os' ?q" "pq_abs os' ?q = ?ls[?k := ?ls ! ?k @ [?m]]" "qu_depth (queue_rec os' ?q) = 400" "qu_queue_size (queue_rec os' ?q) = 12"
        by (auto simp: pq_refines_def)
      let ?s' = "s\<lparr>pk_heap := (pk_heap s)(a := Some pkt), pk_os := os'\<rparr>"
      have "gwlib_sendPktToQueue (Some a) True s pkt (of_nat (length pkt)) portid = Some (GW_OK, ?s')"
        using False o(1) ul by (simp add: gwlib_sendPktToQueue_def Let_def pri_max)
      moreover have ms: "mset (pk_msgs ?s') = mset (?m # pk_msgs s)"
        using mset_concat_snoc [of ?k ?ls ?m] k8 n o(3) by (simp add: pk_msgs_def)
      have set: "set (pk_msgs ?s') = insert ?m (set (pk_msgs s))" using mset_eq_setD [OF ms] by simp
      have "para_pkt ?m \<notin> para_pkt ` set (pk_msgs s)" using msg_copy [OF inv] a by fastforce
      then have d: "distinct (map para_pkt (pk_msgs ?s'))" using inv unfolding distinct_map_mset [OF ms] by (simp add: pkt_inv_def)
      have "pkt_inv ?s'"
        unfolding pkt_inv_def set using inv o n d a ul k8 by (auto simp: pkt_inv_def)
      moreover have "pk_abs ?s' = snd (apk_send (pk_tab s) (pk_abs s) pkt portid)"
      proof -
        let ?V = "pk_view ((pk_heap s)(a := Some pkt))"
        have v: "map (map ?V) ?ls = pk_abs s" by (rule view_other [OF a(1) inv])
        have vk: "map ?V (?ls ! ?k) = pk_abs s ! ?k" using arg_cong [OF v, of "\<lambda>x. x ! ?k"] k8 n by simp
        have "pk_abs ?s' = (map (map ?V) ?ls)[?k := map ?V (?ls ! ?k) @ [?V ?m]]"
          by (simp add: pk_abs_def o(3) map_update)
        also have "?V ?m = (portid, pkt)" using a(2) by (simp add: pk_view_def)
        finally have "pk_abs ?s' = (pk_abs s)[?k := pk_abs s ! ?k @ [(portid, pkt)]]" unfolding v vk .
        then show ?thesis using room lk [OF k8] False by (simp add: apk_send_def Let_def)
      qed
      ultimately show ?thesis using room lk [OF k8] False by (simp add: apk_send_def Let_def)
    qed
  qed
qed

lemma proc_refines:
  assumes inv: "pkt_inv s"
  shows "case apk_proc (pk_tab s) (pk_abs s) (pk_app s) of
      None \<Rightarrow> gw_pkt_proc_round posts s = None
    | Some (ls, app) \<Rightarrow> \<exists>s'. gw_pkt_proc_round posts s = Some s' \<and> pkt_inv s' \<and> pk_abs s' = ls \<and> pk_app s' = app \<and>
        pk_tab s' = pk_tab s"
proof -
  let ?q = "pk_queueid s" and ?ls = "pq_abs (pk_os s) (pk_queueid s)"
  have pq: "pq_inv (pk_os s) ?q" and n: "length ?ls = 8" "qu_depth (queue_rec (pk_os s) ?q) = 400" "qu_queue_size (queue_rec (pk_os s) ?q) = 12"
    using inv by (simp_all add: pkt_inv_def)
  have top: "top_level (length (pk_abs s)) (pk_abs s) = top_level 8 ?ls" using n by (simp add: pk_abs_def)
  show ?thesis
  proof (cases "top_level 8 ?ls")
    case None
    then show ?thesis
      using top n get_forever [OF pq, of posts] by (simp add: apk_proc_def gw_pkt_proc_round_def)
  next
    case (Some k)
    let ?m = "hd (?ls ! k)"
    have k: "k < 8" "?ls ! k \<noteq> []" using top_level_SomeD [OF Some] by auto
    then have mem: "?m \<in> set (pk_msgs s)" using n by (auto simp: pk_msgs_def intro!: bexI [of _ "?ls ! k"])
    then have m: "length ?m = 12" "unat (para_pkt_len ?m) = length (the (pk_heap s (para_pkt ?m)))" "para_pkt ?m \<in> dom (pk_heap s)"
      using inv by (auto simp: pkt_inv_def)
    then obtain pkt where h: "pk_heap s (para_pkt ?m) = Some pkt" by auto
    have "of_nat (unat (para_pkt_len ?m)) = para_pkt_len ?m" by simp
    then have len: "para_pkt_len ?m = of_nat (length pkt)" using m(2) h by simp
    from pri_get_refines [OF pq, of 12] Some n m(1) obtain os' l where
      o: "gw_pri_queue_get (\<lambda>_. 0) (pk_os s) ?q True 12 0 = Some (OSAL_OK, Some ?m, l, os')"
      "pq_inv os' ?q" "pq_abs os' ?q = ?ls[k := tl (?ls ! k)]" "qu_depth (queue_rec os' ?q) = 400" "qu_queue_size (queue_rec os' ?q) = 12"
      by (auto simp: pq_refines_def)
    let ?app = "apk_handle (pk_tab s) (para_portid ?m, pkt) (pk_app s)"
    let ?s' = "s\<lparr>pk_os := os', pk_app := ?app, pk_heap := (pk_heap s)(para_pkt ?m := None)\<rparr>"
    have round: "gw_pkt_proc_round posts s = Some ?s'"
      using o(1) h len m(1) Some n get_forever [OF pq, of posts 12]
      by (simp add: gw_pkt_proc_round_def sizeof_queue_para_t_def Let_def apk_handle_def)
    have ms: "mset (pk_msgs s) = mset (?m # pk_msgs ?s')"
      using mset_concat_tl [of k ?ls] k n o(3) by (simp add: pk_msgs_def)
    have set: "set (pk_msgs s) = insert ?m (set (pk_msgs ?s'))" using mset_eq_setD [OF ms] by simp
    have d: "para_pkt ?m \<notin> para_pkt ` set (pk_msgs ?s')" "distinct (map para_pkt (pk_msgs ?s'))"
      using inv distinct_map_mset [OF ms, of para_pkt] by (auto simp: pkt_inv_def)
    have e: "dom (pk_heap s) = insert (para_pkt ?m) (para_pkt ` set (pk_msgs ?s'))"
      using inv unfolding pkt_inv_def set by (simp only: image_insert)
    have "dom (pk_heap ?s') = dom (pk_heap s) - {para_pkt ?m}" by auto
    also have "\<dots> = para_pkt ` set (pk_msgs ?s')" unfolding e using d(1) by (rule Diff_insert_absorb)
    finally have "dom (pk_heap ?s') = para_pkt ` set (pk_msgs ?s')" .
    moreover have "length m = 12 \<and> unat (para_pkt_len m) = length (the (pk_heap ?s' (para_pkt m)))"
      if "m \<in> set (pk_msgs ?s')" for m
    proof -
      have "para_pkt m \<noteq> para_pkt ?m" "m \<in> set (pk_msgs s)" using that d(1) set by (metis imageI, simp)
      then show ?thesis using inv by (simp add: pkt_inv_def)
    qed
    ultimately have inv': "pkt_inv ?s'" using o n d(2) by (simp add: pkt_inv_def)
    have other: "para_pkt m \<noteq> para_pkt ?m" if "l \<in> set (pq_abs os' ?q)" "m \<in> set l" for l m
    proof -
      have "m \<in> set (pk_msgs ?s')" using that by (auto simp: pk_msgs_def)
      then show ?thesis using d(1) by (metis imageI)
    qed
    have "map (map (pk_view (pk_heap ?s'))) (pq_abs os' ?q) = map (map (pk_view (pk_heap s))) (pq_abs os' ?q)"
      by (rule map_cong [OF refl], rule map_cong [OF refl]) (simp add: pk_view_def other)
    then have "pk_abs ?s' = (pk_abs s)[k := tl (pk_abs s ! k)]"
      using k(1) n o(3) by (simp add: pk_abs_def map_update map_tl)
    moreover have "hd (pk_abs s ! k) = (para_portid ?m, pkt)"
      using k n h by (simp add: pk_abs_def hd_map pk_view_def)
    ultimately show ?thesis using round inv' top Some by (simp add: apk_proc_def)
  qed
qed

section \<open>Runs\<close>

text \<open>
  Packets are sent and processed in any order. \<open>new\<close> is the allocator of the copies: a free
  address as long as at most as many copies live as the queue can hold.
\<close>

datatype pkt_op = SendPkt u32 "u8 list" | ProcPkt

definition alloc_ok :: "((addr \<Rightarrow> u8 list option) \<Rightarrow> addr) \<Rightarrow> bool" where
  "alloc_ok new \<longleftrightarrow> (\<forall>h. finite (dom h) \<longrightarrow> card (dom h) \<le> 3200 \<longrightarrow> h (new h) = None \<and> new h < 4294967296)"

fun pkt_step :: "((addr \<Rightarrow> u8 list option) \<Rightarrow> addr) \<Rightarrow> 'a pkt_sys \<Rightarrow> pkt_op \<Rightarrow> (int \<times> 'a pkt_sys) option" where
  "pkt_step new s (SendPkt portid pkt) =
     gwlib_sendPktToQueue (Some (new (pk_heap s))) True s pkt (of_nat (length pkt)) portid"
| "pkt_step new s ProcPkt = map_option (Pair GW_OK) (gw_pkt_proc_round (\<lambda>_. 0) s)"

fun pkt_run :: "((addr \<Rightarrow> u8 list option) \<Rightarrow> addr) \<Rightarrow> 'a pkt_sys \<Rightarrow> pkt_op list \<Rightarrow> (int list \<times> 'a pkt_sys) option" where
  "pkt_run new s [] = Some ([], s)"
| "pkt_run new s (c # cs) =
     (case pkt_step new s c of
        None \<Rightarrow> None
      | Some (r, s1) \<Rightarrow> map_option (\<lambda>(rs, s2). (r # rs, s2)) (pkt_run new s1 cs))"

text \<open>The same on levels of packets.\<close>

fun apkt_step :: "'a pkt_cb list \<Rightarrow> (u32 \<times> u8 list) list list \<times> 'a \<Rightarrow> pkt_op \<Rightarrow>
    (int \<times> (u32 \<times> u8 list) list list \<times> 'a) option" where
  "apkt_step tab (ls, app) (SendPkt portid pkt) =
     (case apk_send tab ls pkt portid of (r, ls') \<Rightarrow> Some (r, ls', app))"
| "apkt_step tab (ls, app) ProcPkt = map_option (Pair GW_OK) (apk_proc tab ls app)"

fun apkt_run :: "'a pkt_cb list \<Rightarrow> (u32 \<times> u8 list) list list \<times> 'a \<Rightarrow> pkt_op list \<Rightarrow>
    (int list \<times> (u32 \<times> u8 list) list list \<times> 'a) option" where
  "apkt_run tab x [] = Some ([], x)"
| "apkt_run tab x (c # cs) =
     (case apkt_step tab x c of
        None \<Rightarrow> None
      | Some (r, x1) \<Rightarrow> map_option (\<lambda>(rs, x2). (r # rs, x2)) (apkt_run tab x1 cs))"

fun pkt_op_ok :: "pkt_op \<Rightarrow> bool" where
  "pkt_op_ok (SendPkt portid pkt) \<longleftrightarrow> length pkt < 4294967296"
| "pkt_op_ok ProcPkt \<longleftrightarrow> True"

lemma length_concat_le: "\<forall>l \<in> set ls. length l \<le> d \<Longrightarrow> length (concat ls) \<le> length ls * d"
  by (induction ls) auto

lemma alloc_fresh:
  assumes "alloc_ok new" "pkt_inv s"
  shows "pk_heap s (new (pk_heap s)) = None \<and> new (pk_heap s) < 4294967296"
proof -
  have d: "dom (pk_heap s) = para_pkt ` set (pk_msgs s)" using assms(2) by (simp add: pkt_inv_def)
  have pq: "pq_inv (pk_os s) (pk_queueid s)" "qu_depth (queue_rec (pk_os s) (pk_queueid s)) = 400"
    and n: "length (pq_abs (pk_os s) (pk_queueid s)) = 8" using assms(2) by (simp_all add: pkt_inv_def)
  then have "\<forall>l \<in> set (pq_abs (pk_os s) (pk_queueid s)). length l \<le> 400"
    by (simp add: pq_inv_def)
  then have "length (pk_msgs s) \<le> 8 * 400"
    using length_concat_le [of "pq_abs (pk_os s) (pk_queueid s)" 400] n by (simp add: pk_msgs_def)
  then have "card (para_pkt ` set (pk_msgs s)) \<le> 3200"
    using card_image_le [of "set (pk_msgs s)" para_pkt] card_length [of "pk_msgs s"] by simp
  then show ?thesis using assms(1) d by (simp add: alloc_ok_def)
qed

lemma pkt_step_refines:
  assumes "pkt_inv s" "alloc_ok new" "pkt_op_ok c"
  shows "case apkt_step (pk_tab s) (pk_abs s, pk_app s) c of
      None \<Rightarrow> pkt_step new s c = None
    | Some (r, x) \<Rightarrow> \<exists>s'. pkt_step new s c = Some (r, s') \<and> pkt_inv s' \<and> (pk_abs s', pk_app s') = x \<and> pk_tab s' = pk_tab s"
proof (cases c)
  case (SendPkt portid pkt)
  then show ?thesis
    using send_refines [OF assms(1) conjunct1 [OF alloc_fresh] conjunct2 [OF alloc_fresh], OF assms(2,1) assms(2,1), of pkt portid] assms(3)
    by (auto split: prod.split)
next
  case ProcPkt
  then show ?thesis using proc_refines [OF assms(1), of "\<lambda>_. 0"]
    by (cases "apk_proc (pk_tab s) (pk_abs s) (pk_app s)") auto
qed

lemma pkt_run_refines:
  assumes "pkt_inv s" "alloc_ok new" "list_all pkt_op_ok cs"
  shows "case apkt_run (pk_tab s) (pk_abs s, pk_app s) cs of
      None \<Rightarrow> pkt_run new s cs = None
    | Some (rs, x) \<Rightarrow> \<exists>s'. pkt_run new s cs = Some (rs, s') \<and> pkt_inv s' \<and> (pk_abs s', pk_app s') = x \<and> pk_tab s' = pk_tab s"
  using assms(1,3)
proof (induction cs arbitrary: s)
  case (Cons c cs)
  note st = pkt_step_refines [OF Cons.prems(1) assms(2), of c]
  show ?case
  proof (cases "apkt_step (pk_tab s) (pk_abs s, pk_app s) c")
    case None
    then show ?thesis using st Cons.prems(2) by simp
  next
    case (Some rx)
    obtain r x where rx: "rx = (r, x)" by (cases rx)
    with st Some Cons.prems(2) obtain s' where s': "pkt_step new s c = Some (r, s')" "pkt_inv s'" "(pk_abs s', pk_app s') = x" "pk_tab s' = pk_tab s"
      by auto
    from Cons.IH [OF s'(2)] Cons.prems(2) s'(3,4) show ?thesis using Some rx s'(1)
      by (cases "apkt_run (pk_tab s) x cs") auto
  qed
qed simp

text \<open>The start of the packet path.\<close>

lemma thread_create_keeps:
  assumes "gw_thread_create os b nm f sz pr st tid self = (r, i, os')" "pq_inv os q"
  shows "pq_inv os' q \<and> pq_abs os' q = pq_abs os q \<and> queue_rec os' q = queue_rec os q"
proof -
  have "\<exists>t. os' = os\<lparr>gw_osal_thread_table := t\<rparr> \<and> length t = length (gw_osal_thread_table os)"
    using assms(1) by (auto simp: gw_thread_create_def Let_def split: option.splits if_splits intro: exI [of _ "gw_osal_thread_table os"])
  then obtain t where t: "os' = os\<lparr>gw_osal_thread_table := t\<rparr>" "length t = length (gw_osal_thread_table os)" by blast
  then show ?thesis using assms(2)
    by (simp add: pq_inv_def osal_wf_def pq_abs_def queue_rec_def sem_valid_def sem_value_def mut_passes_def mut_valid_def mut_locked_def)
qed

lemma init_inv:
  assumes "init_pkt_proc sem_ok mut_ok self stack tid s = (GW_OK, s')"
    and "osal_wf (pk_os s)" "no_mutex_held (pk_os s)" "queue_arrays_ok (pk_os s)" "pk_heap s = (\<lambda>_. None)"
  shows "pkt_inv s' \<and> pk_abs s' = replicate 8 [] \<and> pk_app s' = pk_app s \<and>
    pk_tab s' = replicate 3 \<lparr>cb_parser = None, cb_handler = None\<rparr>"
proof -
  obtain st qid os1 where c: "gw_pri_queue_create (pk_os s) True (Some ''GW_PKT_QUEUE'') 400 12 8 sem_ok mut_ok self = (st, qid, os1)"
    by (metis prod_cases3)
  have ok: "st = OSAL_OK"
    using assms(1) c by (auto simp: init_pkt_proc_def gw_pkt_queue_depth_def sizeof_queue_para_t_def pri_max gw_status_defs Let_def split: if_splits)
  from pri_create_inv [OF c [unfolded ok] assms(2-4)] obtain q where q: "qid = Some q" "pq_inv os1 q" "pq_abs os1 q = replicate 8 []"
    "qu_depth (queue_rec os1 q) = 400" "qu_queue_size (queue_rec os1 q) = 12" by (auto simp: SEM_VALUE_MAX_def)
  obtain st2 i os2 where t: "gw_thread_create os1 True (Some ''GW_PKT_THREAD'') True 65536 GW_OSAL_THREAD_PRIO_NORMAL stack tid self = (st2, i, os2)"
    by (metis prod_cases3)
  have s': "s' = s\<lparr>pk_tab := replicate 3 \<lparr>cb_parser = None, cb_handler = None\<rparr>, pk_os := os2, pk_queueid := q\<rparr>"
    using assms(1) c t ok q(1) by (auto simp: init_pkt_proc_def gw_pkt_queue_depth_def sizeof_queue_para_t_def pri_max GW_PKT_MAX_def Let_def)
  from thread_create_keeps [OF t q(2)] q show ?thesis
    unfolding s' using assms(5) by (simp add: pkt_inv_def pk_abs_def pk_msgs_def)
qed

section \<open>Bursts\<close>

text \<open>A burst of packets is put into its levels in order; the thread empties them from the highest level down.\<close>

definition pkt_pri :: "'a pkt_cb list \<Rightarrow> u32 \<times> u8 list \<Rightarrow> nat" where
  "pkt_pri tab x = gw_get_pkt_pri (gw_pkt_parser_call tab (snd x) (of_nat (length (snd x))))"

lemma apkt_run_append:
  "apkt_run tab x (cs @ ds) =
     (case apkt_run tab x cs of
        None \<Rightarrow> None
      | Some (rs, x1) \<Rightarrow> map_option (\<lambda>(qs, x2). (rs @ qs, x2)) (apkt_run tab x1 ds))"
  by (induction cs arbitrary: x) (auto simp: map_option_case split: option.splits prod.splits)

lemma burst_sends:
  assumes "\<forall>x \<in> set xs. pkt_pri tab x \<noteq> 8" "length ls = 8" "\<forall>k < 8. length (ls ! k) + length xs \<le> 400"
  shows "apkt_run tab (ls, app) (map (\<lambda>(p, pkt). SendPkt p pkt) xs) =
    Some (replicate (length xs) GW_OK, map (\<lambda>k. ls ! k @ filter (\<lambda>x. pkt_pri tab x = k) xs) [0..<8], app)"
  using assms
proof (induction xs arbitrary: ls)
  case Nil
  have "map (\<lambda>k. ls ! k) [0..<8] = ls" using Nil(2) map_nth [of ls] by simp
  then show ?case by simp
next
  case (Cons x xs)
  obtain p pkt where x: "x = (p, pkt)" by (cases x)
  let ?k = "pkt_pri tab x"
  have k: "?k < 8" using Cons.prems(1) pkt_pri_less by (simp add: pkt_pri_def)
  have "length (ls ! ?k) < 400" using Cons.prems(3) k by auto
  then have send: "apk_send tab ls pkt p = (GW_OK, ls[?k := ls ! ?k @ [x]])"
    using k by (simp add: apk_send_def pkt_pri_def x Let_def)
  have "\<forall>k < 8. length (ls[?k := ls ! ?k @ [x]] ! k) + length xs \<le> 400"
  proof (intro allI impI)
    fix j :: nat
    assume "j < 8"
    then have "length (ls ! j) + length (x # xs) \<le> 400" using Cons.prems(3) by blast
    then show "length (ls[?k := ls ! ?k @ [x]] ! j) + length xs \<le> 400"
      using Cons.prems(2) k by (cases "j = ?k") auto
  qed
  then have "apkt_run tab (ls[?k := ls ! ?k @ [x]], app) (map (\<lambda>(p, pkt). SendPkt p pkt) xs) =
    Some (replicate (length xs) GW_OK, map (\<lambda>k. ls[?k := ls ! ?k @ [x]] ! k @ filter (\<lambda>x. pkt_pri tab x = k) xs) [0..<8], app)"
    using Cons.prems(1,2) by (intro Cons.IH) auto
  also have "map (\<lambda>k. ls[?k := ls ! ?k @ [x]] ! k @ filter (\<lambda>x. pkt_pri tab x = k) xs) [0..<8] =
      map (\<lambda>k. ls ! k @ filter (\<lambda>x. pkt_pri tab x = k) (x # xs)) [0..<8]"
    using Cons.prems(2) by (intro map_cong) (auto simp: nth_list_update)
  finally show ?case unfolding x by (simp add: send [unfolded x] del: upt_rec_numeral)
qed

lemma top_level_append: "n \<le> length xs \<Longrightarrow> top_level n (xs @ ys) = top_level n xs"
  by (induction n) (auto simp: nth_append)

lemma top_level_rev:
  "case top_level (length ls) ls of
     None \<Rightarrow> concat (rev ls) = []
   | Some k \<Rightarrow> concat (rev ls) = hd (ls ! k) # concat (rev (ls[k := tl (ls ! k)]))"
proof (induction ls rule: rev_induct)
  case (snoc x ls)
  show ?case
  proof (cases x)
    case Nil
    then show ?thesis using snoc
      by (auto simp: top_level_append nth_append list_update_append split: option.splits dest: top_level_SomeD)
  qed simp
qed simp

lemma burst_procs:
  "apkt_run tab (ls, app) (replicate (length (concat (rev ls))) ProcPkt) =
     Some (replicate (length (concat (rev ls))) GW_OK, replicate (length ls) [], fold (apk_handle tab) (concat (rev ls)) app)"
proof (induction "length (concat (rev ls))" arbitrary: ls app)
  case 0
  then have "\<forall>l \<in> set ls. l = []" by simp
  then have ls: "ls = replicate (length ls) []" by (intro replicate_eqI) auto
  have "concat (rev ls) = []" using 0 by simp
  then show ?case using ls by (simp only: list.size replicate_0 apkt_run.simps fold_Nil id_apply)
next
  case (Suc n)
  have ne: "concat (rev ls) \<noteq> []" using Suc(2) by (metis length_0_conv nat.distinct(1))
  from ne top_level_rev [of ls] obtain k where k: "top_level (length ls) ls = Some k"
    and c: "concat (rev ls) = hd (ls ! k) # concat (rev (ls[k := tl (ls ! k)]))"
    by (cases "top_level (length ls) ls") (auto simp del: concat_eq_Nil_conv)
  have "n = length (concat (rev (ls[k := tl (ls ! k)])))" using Suc(2) unfolding c by simp
  from Suc(1) [OF this, of "apk_handle tab (hd (ls ! k)) app"] show ?case
    unfolding c using k by (simp add: apk_proc_def)
qed

lemma sum_classes:
  "sum_list (map (\<lambda>k. length (filter (\<lambda>x. f x = k) xs)) [0..<n]) = length (filter (\<lambda>x. f x < n) xs)"
proof (induction n)
  case (Suc n)
  have "length (filter (\<lambda>x. f x < Suc n) xs) = length (filter (\<lambda>x. f x < n) xs) + length (filter (\<lambda>x. f x = n) xs)"
    by (induction xs) auto
  with Suc show ?case by simp
qed simp

lemma burst_run:
  assumes "\<forall>x \<in> set xs. pkt_pri tab x \<noteq> 8" "length xs \<le> 400"
  shows "apkt_run tab (replicate 8 [], app) (map (\<lambda>(p, pkt). SendPkt p pkt) xs @ replicate (length xs) ProcPkt) =
    Some (replicate (2 * length xs) GW_OK, replicate 8 [],
      fold (apk_handle tab) (concat (map (\<lambda>k. filter (\<lambda>x. pkt_pri tab x = k) xs) (rev [0..<8]))) app)"
proof -
  let ?ls = "map (\<lambda>k. filter (\<lambda>x. pkt_pri tab x = k) xs) [0..<8]"
  have s: "apkt_run tab (replicate 8 [], app) (map (\<lambda>(p, pkt). SendPkt p pkt) xs) =
      Some (replicate (length xs) GW_OK, ?ls, app)"
    using burst_sends [of xs tab "replicate 8 []" app] assms by (simp cong: map_cong del: upt_rec_numeral)
  have "\<forall>x \<in> set xs. pkt_pri tab x < 8" using assms(1) pkt_pri_less by (simp add: pkt_pri_def)
  then have "sum_list (map (\<lambda>k. length (filter (\<lambda>x. pkt_pri tab x = k) xs)) [0..<8]) = length xs"
    by (simp add: sum_classes del: upt_rec_numeral)
  then have n: "length (concat (rev ?ls)) = length xs"
    by (simp add: length_concat rev_map [symmetric] comp_def sum_list_rev del: upt_rec_numeral)
  have "concat (rev ?ls) = concat (map (\<lambda>k. filter (\<lambda>x. pkt_pri tab x = k) xs) (rev [0..<8]))"
    by (simp only: rev_map)
  with s burst_procs [of tab ?ls app] n show ?thesis
    by (simp add: apkt_run_append mult_2 replicate_add del: upt_rec_numeral)
qed

lemma pri_max_iff: "pkt_pri tab x = 8 \<longleftrightarrow> gw_pkt_parser_call tab (snd x) (of_nat (length (snd x))) = GW_PKT_MAX"
  by (auto simp: pkt_pri_def gw_get_pkt_pri_def gw_pkt_pri_maps_def pkt_types pri_max Let_def)

lemma pkt_inv_empty: "pkt_inv s \<Longrightarrow> pk_abs s = replicate 8 [] \<Longrightarrow> pk_heap s = (\<lambda>_. None)"
proof -
  assume i: "pkt_inv s" and e: "pk_abs s = replicate 8 []"
  then have "length (pq_abs (pk_os s) (pk_queueid s)) = 8" by (simp add: pkt_inv_def)
  moreover have "l = []" if "l \<in> set (pq_abs (pk_os s) (pk_queueid s))" for l
  proof -
    have "map (pk_view (pk_heap s)) l \<in> set (pk_abs s)" using that by (simp add: pk_abs_def)
    then show ?thesis unfolding e by simp
  qed
  ultimately have "pk_msgs s = []" by (simp add: pk_msgs_def)
  then have "dom (pk_heap s) = {}" using i by (simp add: pkt_inv_def)
  then show ?thesis by simp
qed

text \<open>An allocator and a system to run.\<close>

definition first_hole :: "(addr \<Rightarrow> u8 list option) \<Rightarrow> addr" where
  "first_hole h = hd (filter (\<lambda>a. h a = None) [0..<4000])"

lemma first_hole_ok: "alloc_ok first_hole"
  unfolding alloc_ok_def
proof (intro allI impI)
  fix h :: "addr \<Rightarrow> u8 list option"
  assume f: "finite (dom h)" and c: "card (dom h) \<le> 3200"
  let ?l = "filter (\<lambda>a. h a = None) [0..<4000]"
  have "?l \<noteq> []"
  proof
    assume "?l = []"
    then have "{0..<4000} \<subseteq> dom h" by (auto simp: filter_empty_conv simp del: upt_rec_numeral)
    then have "card {0..<4000::nat} \<le> card (dom h)" using f by (rule card_mono [rotated])
    then show False using c by simp
  qed
  then have "first_hole h \<in> set ?l" unfolding first_hole_def by (rule hd_in_set)
  then show "h (first_hole h) = None \<and> first_hole h < 4294967296" by (simp del: upt_rec_numeral)
qed

definition pkt_start :: "(u32 \<times> u8 list) list pkt_sys" where
  "pkt_start = snd (init_pkt_proc True (\<lambda>_. True) 1 (Some 1) 2
     \<lparr>pk_os = gw_osal_core_init, pk_queueid = 0, pk_tab = [], pk_heap = (\<lambda>_. None), pk_app = []\<rparr>)"

text \<open>A parser that takes the type from the first byte, and handlers that record their packets.\<close>

definition log_tab :: "(u32 \<times> u8 list) list pkt_cb list" where
  "log_tab =
     (let h = Some (\<lambda>pkt len portid app. (GW_OK, app @ [(portid, pkt)])) in
      [\<lparr>cb_parser = Some (\<lambda>pkt len. if pkt = [] then GW_PKT_MAX else int (unat (hd pkt))), cb_handler = h\<rparr>,
       \<lparr>cb_parser = None, cb_handler = h\<rparr>, \<lparr>cb_parser = None, cb_handler = h\<rparr>])"

lemma levels_keep_threads [simp]:
  "gw_osal_thread_table (foldl (pri_level_init nm q ok) os ks) = gw_osal_thread_table os"
proof (induction ks arbitrary: os)
  case (Cons k ks)
  have "gw_osal_thread_table (pri_level_init nm q ok os k) = gw_osal_thread_table os"
    by (auto simp: pri_level_init_def gw_mutex_init_def upd_queue_def Let_def)
  with Cons show ?case by simp
qed simp

lemma thread_create_ok:
  assumes "first_idx th_free (gw_osal_thread_table os) < GW_OSAL_MAX_THREAD" "length nm < 20" "unat pr \<le> 250"
  shows "fst (gw_thread_create os True (Some nm) True sz pr (Some a) tid self) = OSAL_OK"
  using assms by (simp add: gw_thread_create_def Let_def osal_limits)

lemma init_first_thread: "first_idx th_free (gw_osal_thread_table gw_osal_core_init) = 0"
  by (auto intro!: first_idx_eqI simp: gw_osal_core_init_def thread_zero_def osal_limits)

lemma pkt_start_init:
  "init_pkt_proc True (\<lambda>_. True) 1 (Some 1) 2
     \<lparr>pk_os = gw_osal_core_init, pk_queueid = 0, pk_tab = [], pk_heap = (\<lambda>_. None), pk_app = []\<rparr> = (GW_OK, pkt_start)"
proof -
  have "fst (init_pkt_proc True (\<lambda>_. True) 1 (Some 1) 2
     \<lparr>pk_os = gw_osal_core_init, pk_queueid = 0, pk_tab = [], pk_heap = (\<lambda>_. None), pk_app = []\<rparr>) = GW_OK"
    by (simp add: init_pkt_proc_def gw_pri_queue_create_def gw_semaphore_init_def Let_def init_first_free osal_limits
        pri_sem_name_def gw_pkt_queue_depth_def sizeof_queue_para_t_def thread_create_ok init_first_thread upd_queue_def gw_status_defs
        GW_OSAL_THREAD_PRIO_NORMAL_def prod.case_distrib [of fst] split_beta del: upt_rec_numeral)
  then show ?thesis by (simp add: pkt_start_def prod_eq_iff)
qed

lemma pkt_start_inv:
  "pkt_inv (pkt_start\<lparr>pk_tab := tab\<rparr>)" "pk_abs (pkt_start\<lparr>pk_tab := tab\<rparr>) = replicate 8 []" "pk_app pkt_start = []"
  using init_inv [OF pkt_start_init] by (simp_all add: init_tables_ok pkt_inv_def pk_abs_def pk_msgs_def)

lemma pkt_start_fields: "pk_tab (pkt_start\<lparr>pk_tab := tab\<rparr>) = tab" "pk_app (pkt_start\<lparr>pk_tab := tab\<rparr>) = []"
  by (simp_all add: pkt_start_inv)

section \<open>Properties\<close>

text \<open>
  C36. The packet path refines a priority queue of packets with their ports: for every sequence
  of sends and rounds of the packet thread, the results, the packets waiting per level and the
  state the handlers have computed are those of the abstract queue, the run stops exactly where
  the abstract one waits for a packet, and the copies that live are those of the packets that
  wait, so none is leaked or freed twice.
\<close>

theorem packet_path_trace:
  assumes "pkt_inv s" "alloc_ok new" "list_all pkt_op_ok ops"
  shows "case apkt_run (pk_tab s) (pk_abs s, pk_app s) ops of
      None \<Rightarrow> pkt_run new s ops = None
    | Some (rs, x) \<Rightarrow> \<exists>s'. pkt_run new s ops = Some (rs, s') \<and> pkt_inv s' \<and> (pk_abs s', pk_app s') = x \<and> pk_tab s' = pk_tab s"
  by (rule pkt_run_refines [OF assms])

theorem packet_path_trace_witness:
  "\<exists>s'. pkt_run first_hole (pkt_start\<lparr>pk_tab := log_tab\<rparr>)
      [SendPkt 3 [1, 9], SendPkt 4 [0, 8], SendPkt 5 [3], ProcPkt, SendPkt 6 [2], ProcPkt] =
    Some ([GW_OK, GW_OK, GW_ERROR, GW_OK, GW_OK, GW_OK], s') \<and> pk_app s' = [(4, [0, 8]), (6, [2])] \<and>
    pk_abs s' = [[(3, [1, 9])], [], [], [], [], [], [], []]"
proof -
  let ?ops = "[SendPkt 3 [1, 9], SendPkt 4 [0, 8], SendPkt 5 [3], ProcPkt, SendPkt 6 [2], ProcPkt]"
  have a: "apkt_run log_tab (replicate 8 [], []) ?ops =
      Some ([GW_OK, GW_OK, GW_ERROR, GW_OK, GW_OK, GW_OK], [[(3, [1, 9])], [], [], [], [], [], [], []], [(4, [0, 8]), (6, [2])])"
    by code_simp
  have ok: "list_all pkt_op_ok ?ops" by simp
  from packet_path_trace [OF pkt_start_inv(1) first_hole_ok ok, of log_tab]
  obtain s' where s': "pkt_run first_hole (pkt_start\<lparr>pk_tab := log_tab\<rparr>) ?ops = Some ([GW_OK, GW_OK, GW_ERROR, GW_OK, GW_OK, GW_OK], s')"
    "(pk_abs s', pk_app s') = ([[(3, [1, 9])], [], [], [], [], [], [], []], [(4, [0, 8]), (6, [2])])"
    unfolding pkt_start_inv pkt_start_fields a option.case prod.case by blast
  then have "pk_app s' = [(4, [0, 8]), (6, [2])]" "pk_abs s' = [[(3, [1, 9])], [], [], [], [], [], [], []]" by simp_all
  with s'(1) show ?thesis by blast
qed

text \<open>
  A burst of at most 400 packets of known types, sent to an idle packet path, is accepted as
  a whole, and the rounds that follow handle every packet once: OAM packets first, then RCP
  packets, then loop detection packets, and packets of one priority in the order they came.
  No copy is left.
\<close>

theorem packet_burst_order:
  assumes "pkt_inv s" "pk_abs s = replicate 8 []" "alloc_ok new" "length xs \<le> 400"
    and "\<forall>x \<in> set xs. length (snd x) < 4294967296 \<and>
      gw_pkt_parser_call (pk_tab s) (snd x) (of_nat (length (snd x))) \<noteq> GW_PKT_MAX"
  shows "\<exists>s'. pkt_run new s (map (\<lambda>(p, pkt). SendPkt p pkt) xs @ replicate (length xs) ProcPkt) =
      Some (replicate (2 * length xs) GW_OK, s') \<and> pkt_inv s' \<and> pk_heap s' = (\<lambda>_. None) \<and>
    pk_app s' = fold (apk_handle (pk_tab s))
      (concat (map (\<lambda>k. filter (\<lambda>x. pkt_pri (pk_tab s) x = k) xs) (rev [0..<8]))) (pk_app s)"
proof -
  let ?ops = "map (\<lambda>(p, pkt). SendPkt p pkt) xs @ replicate (length xs) ProcPkt"
  have "list_all pkt_op_ok ?ops" using assms(5) by (auto simp: list_all_iff)
  from pkt_run_refines [OF assms(1,3) this] burst_run [of xs "pk_tab s" "pk_app s"] assms(2,4,5)
  obtain s' where s': "pkt_run new s ?ops = Some (replicate (2 * length xs) GW_OK, s')" "pkt_inv s'" "pk_abs s' = replicate 8 []"
    "pk_app s' = fold (apk_handle (pk_tab s))
      (concat (map (\<lambda>k. filter (\<lambda>x. pkt_pri (pk_tab s) x = k) xs) (rev [0..<8]))) (pk_app s)"
    by (auto simp: pri_max_iff simp del: upt_rec_numeral)
  then show ?thesis using pkt_inv_empty [OF s'(2,3)] by blast
qed

theorem packet_burst_order_witness:
  "\<exists>s'. pkt_run first_hole (pkt_start\<lparr>pk_tab := log_tab\<rparr>)
      (map (\<lambda>(p, pkt). SendPkt p pkt) [(1, [1]), (2, [2, 1]), (3, [0]), (4, [2, 2])] @ replicate 4 ProcPkt) =
    Some (replicate 8 GW_OK, s') \<and> pk_app s' = [(3, [0]), (2, [2, 1]), (4, [2, 2]), (1, [1])]"
proof -
  let ?xs = "[(1, [1]), (2, [2, 1]), (3, [0]), (4, [2, 2])] :: (u32 \<times> u8 list) list"
  have "\<forall>x \<in> set ?xs. gw_pkt_parser_call log_tab (snd x) (of_nat (length (snd x))) \<noteq> GW_PKT_MAX" by code_simp
  then have k: "\<forall>x \<in> set ?xs. length (snd x) < 4294967296 \<and>
      gw_pkt_parser_call log_tab (snd x) (of_nat (length (snd x))) \<noteq> GW_PKT_MAX" by simp
  have a: "fold (apk_handle log_tab) (concat (map (\<lambda>k. filter (\<lambda>x. pkt_pri log_tab x = k) ?xs) (rev [0..<8]))) [] =
      [(3, [0]), (2, [2, 1]), (4, [2, 2]), (1, [1])]" by code_simp
  have n: "length ?xs = 4" "2 * (4::nat) = 8" "length ?xs \<le> 400" by simp_all
  from packet_burst_order [OF pkt_start_inv(1,2) first_hole_ok n(3), of log_tab] k show ?thesis
    unfolding pkt_start_fields a n by blast
qed

text \<open>
  \<^verbatim>\<open>init_pkt_proc\<close>, when it returns success on well-formed tables of the OS layer with no
  mutex held, leaves an empty packet queue of eight levels of 400 packets that can be used, and
  an empty table of callbacks.
\<close>

theorem init_pkt_proc_usable:
  assumes "init_pkt_proc sem_ok mut_ok self stack tid s = (GW_OK, s')"
    and "osal_wf (pk_os s)" "no_mutex_held (pk_os s)" "queue_arrays_ok (pk_os s)" "pk_heap s = (\<lambda>_. None)"
  shows "pkt_inv s' \<and> pk_abs s' = replicate 8 [] \<and> pk_app s' = pk_app s \<and>
    pk_tab s' = replicate 3 \<lparr>cb_parser = None, cb_handler = None\<rparr>"
  by (rule init_inv [OF assms])

theorem init_pkt_proc_usable_witness: "pkt_inv pkt_start \<and> pk_abs pkt_start = replicate 8 []"
  using init_pkt_proc_usable [OF pkt_start_init] by (simp add: init_tables_ok)

end
