(* ===== verification/Loop_Detect.thy ===== *)
theory Loop_Detect
  imports Lpb_List Pkt_Main
begin

text \<open>
  Loop detection (\<^verbatim>\<open>apps/gwd_eth_loop_detect.c\<close>): the detection frames sent and received, the
  look-up of the detection address in the switch, the round of the detection thread, and its
  start and stop.
\<close>

section \<open>The environment\<close>

text \<open>
  The interface functions of the switch (\<open>None\<close>: the call fails), the number of ports and the
  address of the ONU, and what the uninitialised variables of \<^verbatim>\<open>lpbDetectTransFrames\<close> hold.
\<close>

record 'h det_env = "'h lpb_env" +
  de_vlan_get :: "'h \<Rightarrow> u16 \<Rightarrow> (u32 \<times> u32) option"
  de_fdb_get :: "'h \<Rightarrow> u16 \<Rightarrow> u8 list \<Rightarrow> u32 option"
  de_vlan_getnext :: "'h \<Rightarrow> u32 \<Rightarrow> (u16 \<times> u32 \<times> u32) option"
  de_oper_get :: "'h \<Rightarrow> u32 \<Rightarrow> int option"
  de_portsend :: "'h \<Rightarrow> u32 \<Rightarrow> u8 list \<Rightarrow> int \<times> 'h"
  de_olt_mac :: "'h \<Rightarrow> u8 list option"
  de_llid :: "'h \<Rightarrow> u32 option"
  de_mgt_mac_set :: "'h \<Rightarrow> u8 list \<Rightarrow> int \<times> 'h"
  de_port_num :: u8
  de_sys_mac :: "u8 list"
  de_slot0 :: u32
  de_pon0 :: u32
  de_llid0 :: u32

definition PORT_OPER_STATUS_UP :: int where "PORT_OPER_STATUS_UP = 1"
definition ETH_TYPE_LOOP_DETECT :: u16 where "ETH_TYPE_LOOP_DETECT = 0x0800"
definition LOOP_DETECT_CHECK :: u16 where "LOOP_DETECT_CHECK = 0x0080"
definition EPON_ETHERTYPE_DOT1Q :: u16 where "EPON_ETHERTYPE_DOT1Q = 0x8100"
definition loop_detect_mac :: "u8 list" where "loop_detect_mac = [0x00, 0x0F, 0xE9, 0x04, 0x8E, 0xDF]"
definition DEVICE_TYPE_GT813_C :: u16 where "DEVICE_TYPE_GT813_C = 0x002D"

lemmas loop_consts = PORT_OPER_STATUS_UP_def ETH_TYPE_LOOP_DETECT_def LOOP_DETECT_CHECK_def EPON_ETHERTYPE_DOT1Q_def

definition bytes_of_u16 :: "u16 \<Rightarrow> u8 list" where
  "bytes_of_u16 w = [ucast (drop_bit 8 w), ucast w]"

definition u16_at :: "u8 list \<Rightarrow> nat \<Rightarrow> u16" where
  "u16_at p i = (push_bit 8 (ucast (p ! i)) OR ucast (p ! Suc i))"

definition boards_port_is_uni :: "nat \<Rightarrow> bool" where
  "boards_port_is_uni lport \<longleftrightarrow> lport < NUM_PORTS_PER_SYSTEM"

text \<open>Interface indices: the bit fields of \<^verbatim>\<open>IFM_ETH_IF_INDEX_U\<close> fill the word from its most significant bit.\<close>

definition IFM_ETH_GET_SLOT :: "u32 \<Rightarrow> u32" where
  "IFM_ETH_GET_SLOT ifIndex = (drop_bit 9 ifIndex AND 0x1f)"

definition IFM_ETH_GET_PORT :: "u32 \<Rightarrow> u32" where
  "IFM_ETH_GET_PORT ifIndex = (drop_bit 14 ifIndex AND 0x3f)"

section \<open>Looking up the detection address\<close>

definition src_step :: "u32 \<Rightarrow> u32 \<Rightarrow> u32 \<Rightarrow> nat \<Rightarrow> int \<times> u32 \<Rightarrow> int \<times> u32" where
  "src_step eg tag untag i x =
     (if eg AND push_bit i 1 \<noteq> 0
      then if tag AND push_bit i 1 = 0 \<and> untag AND push_bit i 1 = 0 then (GW_ERROR, 0xFF)
           else (GW_OK, case snd (boards_physical_to_logical 0 (of_nat i)) of None \<Rightarrow> snd x | Some l \<Rightarrow> l)
      else x)"

text \<open>The result, and the logical port when it is \<open>GW_OK\<close>; failures of the interface functions are \<open>GW_ERROR\<close>.\<close>

definition gtGetSrcPortForMac :: "('h, 'z) det_env_scheme \<Rightarrow> u8 list \<Rightarrow> u16 \<Rightarrow> 'h \<Rightarrow> int \<times> u32" where
  "gtGetSrcPortForMac env mac vid hw =
     (case de_vlan_get env hw vid of
        None \<Rightarrow> (GW_ERROR, 0xFF)
      | Some (tag, untag) \<Rightarrow>
          (case de_fdb_get env hw vid mac of
             None \<Rightarrow> (GW_ERROR, 0xFF)
           | Some eg \<Rightarrow> fold (src_step eg tag untag) [0..<unat (de_port_num env)] (GW_OK, 0xFF)))"

definition vlan_member :: "u32 \<Rightarrow> u32 \<Rightarrow> nat \<Rightarrow> bool" where
  "vlan_member tag untag i \<longleftrightarrow> tag AND push_bit i 1 \<noteq> 0 \<or> untag AND push_bit i 1 \<noteq> 0"

definition IFM_GET_FIRST_PORTONVLAN :: "('h, 'z) det_env_scheme \<Rightarrow> u16 \<Rightarrow> 'h \<Rightarrow> u32 option" where
  "IFM_GET_FIRST_PORTONVLAN env vid hw =
     (case de_vlan_get env hw vid of
        None \<Rightarrow> None
      | Some (tag, untag) \<Rightarrow>
          (case List.find (\<lambda>i. vlan_member tag untag i \<and> fst (boards_physical_to_logical 0 (of_nat i)) \<noteq> 0) [0..<PHY_PORT_MAX] of
             None \<Rightarrow> None
           | Some i \<Rightarrow> snd (boards_physical_to_logical 0 (of_nat i))))"

text \<open>The policy in force asks for the port to be shut.\<close>

definition policy_shut :: "'h lpb_state \<Rightarrow> bool" where
  "policy_shut s \<longleftrightarrow> (lf_enable (lp_local s) = 0 \<and> lf_policy (lp_oam s) AND 0x0001 \<noteq> 0) \<or>
     (lf_enable (lp_local s) \<noteq> 0 \<and> lf_policy (lp_local s) AND 0x0001 \<noteq> 0)"

definition admin_status :: "('h, 'z) lpb_env_scheme \<Rightarrow> 'h \<Rightarrow> u32 \<Rightarrow> int" where
  "admin_status env hw port = (case le_admin_get env hw port of None \<Rightarrow> le_junk env | Some st \<Rightarrow> st)"

definition lpbDetectCheckMacTable ::
  "('h, 'z) det_env_scheme \<Rightarrow> u16 \<Rightarrow> 'h lpb_state \<Rightarrow> 'h lpb_state option" where
  "lpbDetectCheckMacTable env usVid s =
     (case gtGetSrcPortForMac env (lf_smac (lp_oam s)) usVid (lp_hw s) of
        (gtRet, lport) \<Rightarrow>
          if gtRet = GW_OK \<and> boards_port_is_uni (unat lport)
          then if lp_IgnorePort s ! unat lport \<noteq> 0 then Some s
               else if policy_shut s
               then if admin_status env (lp_hw s) lport = PORT_ADMIN_UP
                    then (case le_admin_set env (lp_hw s) lport PORT_ADMIN_DOWN of
                            (r, hw) \<Rightarrow>
                              let s1 = s\<lparr>lp_hw := hw\<rparr> in
                              if r = GW_OK
                              then map_option snd (setPortLpbStatus env usVid (unat lport) True None
                                     (s1\<lparr>lp_PortDown := (lp_PortDown s1)[unat lport := 1]\<rparr>))
                              else Some s1)
                    else Some s
               else map_option snd (setPortLpbStatus env usVid (unat lport) False None s)
          else map_option snd (clsPortLpbStatus usVid s))"

section \<open>Sending detection frames\<close>

definition olt_code :: "gwd_olt_type \<Rightarrow> u8" where
  "olt_code t = (case t of GWD_OLT_NONE \<Rightarrow> 0 | GWD_OLT_GFA6100 \<Rightarrow> 1 | GWD_OLT_GFA6700 \<Rightarrow> 2 | GWD_OLT_GFA6900 \<Rightarrow> 3 | GWD_OLT_NOMATCH \<Rightarrow> 4)"

definition loop_frame :: "('h, 'z) det_env_scheme \<Rightarrow> u16 \<Rightarrow> 'h lpb_state \<Rightarrow> u8 list" where
  "loop_frame env usVid s =
     (let olt_mac_addr = (case de_olt_mac env (lp_hw s) of None \<Rightarrow> replicate 6 0 | Some m \<Rightarrow> m);
          type = GwGetOltType olt_mac_addr;
          sp = (case snd (GwGetPonSlotPort olt_mac_addr type) of None \<Rightarrow> (de_slot0 env, de_pon0 env) | Some x \<Rightarrow> x);
          OnuLlid = (case de_llid env (lp_hw s) of None \<Rightarrow> de_llid0 env | Some l \<Rightarrow> l)
      in loop_detect_mac @ lf_smac (lp_oam s) @ bytes_of_u16 EPON_ETHERTYPE_DOT1Q @
         [ucast (drop_bit 8 usVid OR 0xe0), ucast (0xff AND usVid)] @ bytes_of_u16 ETH_TYPE_LOOP_DETECT @
         bytes_of_u16 LOOP_DETECT_CHECK @ [olt_code type, ucast DEVICE_TYPE_GT813_C] @
         [0, ucast (fst sp), ucast (snd sp), ucast OnuLlid] @ de_sys_mac env @ bytes_of_u16 usVid @
         bytes_of_u32 0 @ map of_nat [0..<64 - 38])"

definition trans_port :: "('h, 'z) det_env_scheme \<Rightarrow> u8 list \<Rightarrow> nat \<Rightarrow> int \<times> 'h lpb_state \<Rightarrow> int \<times> 'h lpb_state" where
  "trans_port env pkt i x =
     (case x of (status, s) \<Rightarrow>
        let status' = (case de_oper_get env (lp_hw s) (of_nat (i + 1)) of None \<Rightarrow> status | Some st \<Rightarrow> st) in
        (status', if status' = PORT_OPER_STATUS_UP
                  then s\<lparr>lp_hw := snd (de_portsend env (lp_hw s) (of_nat (i + 1)) pkt)\<rparr> else s))"

definition lpbDetectTransFrames :: "('h, 'z) det_env_scheme \<Rightarrow> u16 \<Rightarrow> 'h lpb_state \<Rightarrow> int \<times> 'h lpb_state" where
  "lpbDetectTransFrames env usVid s =
     (GW_OK, snd (fold (trans_port env (loop_frame env usVid s)) [0..<unat (de_port_num env)] (le_junk env, s)))"

section \<open>Receiving detection frames\<close>

text \<open>\<open>None\<close>: bytes beyond the frame are read. Of a frame without bytes nothing is read.\<close>

definition gw_loopbackFrameParser :: "u8 list option \<Rightarrow> u32 \<Rightarrow> int option" where
  "gw_loopbackFrameParser pkt len =
     (case pkt of
        None \<Rightarrow> Some GW_PKT_MAX
      | Some p \<Rightarrow>
          if len = 0 then Some GW_PKT_MAX
          else if length p < 14 then None
          else let pd = (if u16_at p 12 = EPON_ETHERTYPE_DOT1Q then 16 else 12) in
            if length p < pd + 2 then None
            else if u16_at p pd \<noteq> ntohs ETH_TYPE_LOOP_DETECT then Some GW_PKT_MAX
            else if length p < pd + 4 then None
            else if u16_at p (pd + 2) = ntohs LOOP_DETECT_CHECK then Some GW_PKT_LPB else Some GW_PKT_MAX)"

text \<open>The alarm made from a detection frame whose data start at \<open>d\<close>.\<close>

definition frame_alarm :: "u8 list \<Rightarrow> nat \<Rightarrow> alarm_loop" where
  "frame_alarm p d =
     (let onuIfindex = u32_of_bytes (drop (d + 18) p) in
      alarm_zero\<lparr>al_oltType := p ! (d + 4), al_onuType := p ! (d + 5),
        al_onuLocation := take 4 (drop (d + 6) p), al_onuMac := take 6 (drop (d + 10) p),
        al_onuPort := (if onuIfindex \<noteq> 0
                       then [0, 0, ucast (IFM_ETH_GET_SLOT onuIfindex), ucast (IFM_ETH_GET_PORT onuIfindex)]
                       else replicate 4 0),
        al_oltMac := take 6 (drop 6 p)\<rparr>)"

text \<open>\<open>None\<close>: an index or a read beyond its object, or a caller that waits for ever.\<close>

definition lpbDetectRevPacketHandle ::
  "('h, 'z) det_env_scheme \<Rightarrow> u8 list option \<Rightarrow> nat \<Rightarrow> u16 \<Rightarrow> 'h lpb_state \<Rightarrow> (int \<times> 'h lpb_state) option" where
  "lpbDetectRevPacketHandle env pkt port vid s =
     (case pkt of
        None \<Rightarrow> Some (GW_ERROR, s)
      | Some p \<Rightarrow>
          if length p < 14 then None
          else let d = (if p ! 12 = 0x81 \<and> p ! 13 = 0x00 then 16 else 12) in
            if length p < d + 4 then None
            else if ntohs (u16_at p (d + 2)) \<noteq> LOOP_DETECT_CHECK then Some (GW_ERROR, s)
            else if port \<ge> lpb_ports then None
            else if lp_IgnorePort s ! port \<noteq> 0 then Some (GW_OK, s)
            else if length p < d + 22 then None
            else let loopport = (if boards_port_is_uni port then port
                                 else case IFM_GET_FIRST_PORTONVLAN env vid (lp_hw s) of None \<Rightarrow> port | Some l \<Rightarrow> unat l);
                     a = frame_alarm p d;
                     s1 = s\<lparr>lp_RecFlag := (lp_RecFlag s)[loopport := 1], lp_sendAlarm := a\<rparr>
                 in if policy_shut s1
                    then (if admin_status env (lp_hw s1) (of_nat port) = PORT_ADMIN_UP
                          then (case le_admin_set env (lp_hw s1) (of_nat port) PORT_ADMIN_DOWN of
                                  (r, hw) \<Rightarrow>
                                    let s2 = s1\<lparr>lp_hw := hw\<rparr> in
                                    if r = GW_OK
                                    then (case setPortLpbStatus env vid loopport True (Some a)
                                                 (s2\<lparr>lp_PortDown := (lp_PortDown s2)[loopport := 1]\<rparr>) of
                                            None \<Rightarrow> None
                                          | Some (_, s3) \<Rightarrow>
                                              map_option (\<lambda>x. (GW_OK, snd x)) (reportPortsLpbStatus env vid (lp_session s3) s3))
                                    else Some (GW_OK, s2))
                          else Some (GW_OK, s1))
                    else (case gw_port_is_lpb_mark vid loopport s1 of
                            None \<Rightarrow> None
                          | Some (_, s2) \<Rightarrow>
                              map_option (\<lambda>x. (GW_OK, snd x)) (setPortLpbStatus env vid loopport False (Some a) s2)))"

definition gw_loopbackFrameRevHandle ::
  "('h, 'z) det_env_scheme \<Rightarrow> u8 list option \<Rightarrow> u32 \<Rightarrow> u32 \<Rightarrow> 'h lpb_state \<Rightarrow> (int \<times> 'h lpb_state) option" where
  "gw_loopbackFrameRevHandle env pkt len portid s =
     (case pkt of
        None \<Rightarrow> Some (0, s)
      | Some p \<Rightarrow>
          if len = 0 then Some (0, s)
          else if length p < 14 then None
          else if u16_at p 12 = EPON_ETHERTYPE_DOT1Q \<and> length p < 16 then None
          else let vid = (if u16_at p 12 = EPON_ETHERTYPE_DOT1Q then ntohs (u16_at p 14) AND 0x0FFF else 1)
               in lpbDetectRevPacketHandle env pkt (unat portid) vid s)"

section \<open>The round of the detection thread\<close>

text \<open>
  Whether a member port of the VLAN is up; the loop ends at the first one. A failing look-up
  leaves the status of the previous one in place.
\<close>

fun need_to_send :: "('h, 'z) det_env_scheme \<Rightarrow> 'h \<Rightarrow> u32 \<Rightarrow> u32 \<Rightarrow> nat list \<Rightarrow> int \<Rightarrow> bool \<times> int" where
  "need_to_send env hw tag untag [] status = (False, status)"
| "need_to_send env hw tag untag (i # is) status =
     (if vlan_member tag untag i \<and> fst (boards_physical_to_logical 0 (of_nat i)) \<noteq> 0
      then let lport = the (snd (boards_physical_to_logical 0 (of_nat i)));
               status' = (case de_oper_get env hw lport of None \<Rightarrow> status | Some st \<Rightarrow> st)
           in if status' = PORT_OPER_STATUS_UP then (True, status') else need_to_send env hw tag untag is status'
      else need_to_send env hw tag untag is status)"

definition one_vlan_round ::
  "('h, 'z) det_env_scheme \<Rightarrow> u16 \<Rightarrow> u8 list \<Rightarrow> 'h lpb_state \<Rightarrow> 'h lpb_state option" where
  "one_vlan_round env vid session s =
     (case lpbDetectWakeupPorts env vid s of
        None \<Rightarrow> None
      | Some (_, s1) \<Rightarrow>
          (case lpbDetectCheckMacTable env vid (snd (lpbDetectTransFrames env vid s1)) of
             None \<Rightarrow> None
           | Some s2 \<Rightarrow> map_option snd (reportPortsLpbStatus env vid session s2)))"

definition each_vlan_round ::
  "('h, 'z) det_env_scheme \<Rightarrow> u16 \<Rightarrow> u32 \<Rightarrow> u32 \<Rightarrow> u8 list \<Rightarrow> int \<Rightarrow> 'h lpb_state \<Rightarrow> (int \<times> 'h lpb_state) option" where
  "each_vlan_round env vid tag untag session status s =
     (case lpbDetectWakeupPorts env vid s of
        None \<Rightarrow> None
      | Some (_, s1) \<Rightarrow>
          (case need_to_send env (lp_hw s1) tag untag [0..<PHY_PORT_MAX] status of
             (need, status') \<Rightarrow>
               (case (if need then map_option (\<lambda>t. snd (lpbDetectTransFrames env vid t)) (lpbDetectCheckMacTable env vid s1)
                      else map_option snd (clsPortLpbStatus vid s1)) of
                  None \<Rightarrow> None
                | Some s2 \<Rightarrow> map_option (\<lambda>x. (status', snd x)) (reportPortsLpbStatus env vid session s2))))"

text \<open>\<open>None\<close>: the walk through the VLANs does not end.\<close>

partial_function (option) vlan_loop ::
  "('h, 'z) det_env_scheme \<Rightarrow> u8 list \<Rightarrow> u32 \<Rightarrow> int \<Rightarrow> 'h lpb_state \<Rightarrow> 'h lpb_state option" where
  "vlan_loop env session idx status s =
     (case de_vlan_getnext env (lp_hw s) idx of
        None \<Rightarrow> Some s
      | Some (vid, tag, untag) \<Rightarrow>
          if vid = 0 then vlan_loop env session (idx + 1) status s
          else (case each_vlan_round env vid tag untag session status s of
                  None \<Rightarrow> None
                | Some (status', s') \<Rightarrow> vlan_loop env session (idx + 1) status' s'))"

definition ethLoopBackDetectActionCall ::
  "('h, 'z) det_env_scheme \<Rightarrow> bool \<Rightarrow> u8 list \<Rightarrow> 'h lpb_state \<Rightarrow> (int \<times> 'h lpb_state) option" where
  "ethLoopBackDetectActionCall env enable session s =
     (case (if enable
            then (case resetLpbPort env False session s of
                    None \<Rightarrow> None
                  | Some (_, s1) \<Rightarrow>
                      if lf_enable (lp_local s1) = 0 \<and> lf_vid (lp_oam s1) \<noteq> 0
                      then one_vlan_round env (lf_vid (lp_oam s1)) session s1
                      else if lf_enable (lp_local s1) \<noteq> 0 \<and> lf_vid (lp_local s1) \<noteq> 0
                      then one_vlan_round env (lf_vid (lp_local s1)) session s1
                      else vlan_loop env session 0 (le_junk env) s1)
            else (case resetLpbPort env True session s of
                    None \<Rightarrow> None
                  | Some (_, s1) \<Rightarrow> map_option snd (freeLpbStatusList s1))) of
        None \<Rightarrow> None
      | Some s2 \<Rightarrow> map_option (\<lambda>x. (0, snd x)) (gwdEthPortLoopLedAction env s2))"

text \<open>One round of the loop of \<^verbatim>\<open>EthPortLoopBackDetectTask\<close>, with the pause in seconds; \<open>Some None\<close>: the thread ends.\<close>

definition EthPortLoopBackDetectTask ::
  "('h, 'z) det_env_scheme \<Rightarrow> 'h lpb_state \<Rightarrow> (u16 \<times> 'h lpb_state) option option" where
  "EthPortLoopBackDetectTask env s =
     (if lf_enable (lp_oam s) \<noteq> 0 \<and> lp_Mode s \<noteq> 0
      then let s1 = s\<lparr>lp_timeCounter := (if lp_timeCounter s = LPB_OAM_SEND_INTERVAL then 0 else lp_timeCounter s + 1)\<rparr>;
               intervalTime = lf_interval (if lf_enable (lp_local s1) = 0 then lp_oam s1 else lp_local s1)
           in map_option (\<lambda>x. Some (intervalTime, snd x)) (ethLoopBackDetectActionCall env True (lp_session s1) s1)
      else Some None)"

section \<open>Start and stop\<close>

text \<open>The packet table calls the parser and the handler; a fault in them is the state \<open>None\<close>.\<close>

definition lpb_parse :: pkt_parse where
  "lpb_parse pkt len = (case gw_loopbackFrameParser (Some pkt) len of None \<Rightarrow> GW_PKT_MAX | Some t \<Rightarrow> t)"

definition lpb_handle :: "('h, 'z) det_env_scheme \<Rightarrow> 'h lpb_state option pkt_handler" where
  "lpb_handle env pkt len portid app =
     (case app of
        None \<Rightarrow> (GW_ERROR, None)
      | Some s \<Rightarrow>
          (case gw_loopbackFrameRevHandle env (Some pkt) len portid s of
             None \<Rightarrow> (GW_ERROR, None)
           | Some (r, s') \<Rightarrow> (r, Some s')))"

record 'h det_sys =
  ds_tab :: "'h lpb_state option pkt_cb list"
  ds_os :: osal
  ds_lpb :: "'h lpb_state"

definition LOOP_DETECT_MODE_OLT :: u32 where "LOOP_DETECT_MODE_OLT = 1"
definition LOOP_DETECT_MODE_DISABLE :: u32 where "LOOP_DETECT_MODE_DISABLE = 0"
definition TASK_PRIORITY_LOWEST :: u32 where "TASK_PRIORITY_LOWEST = 26"

text \<open>\<open>stack\<close>, \<open>tid\<close>, \<open>self\<close>: for \<^verbatim>\<open>gw_thread_create\<close>.\<close>

definition EthLoopbackDetectControl ::
  "('h, 'z) det_env_scheme \<Rightarrow> u32 \<Rightarrow> u32 \<Rightarrow> addr option \<Rightarrow> u32 \<Rightarrow> u32 \<Rightarrow> 'h det_sys \<Rightarrow> int \<times> 'h det_sys" where
  "EthLoopbackDetectControl env oamEnable localEnable stack tid self d =
     (let s = ds_lpb d in
      if oamEnable \<noteq> 0 \<and> localEnable \<noteq> 0
      then if lf_enable (lp_oam s) \<noteq> 0 \<and> lp_Mode s \<noteq> 0 then (GW_OK, d)
           else let s1 = s\<lparr>lp_oam := (lp_oam s)\<lparr>lf_enable := 1\<rparr>, lp_Mode := LOOP_DETECT_MODE_OLT\<rparr> in
             if lp_Register s1 \<noteq> 0 then (GW_OK, d\<lparr>ds_lpb := s1\<rparr>)
             else let tab1 = snd (gw_reg_pkt_parse (ds_tab d) GW_PKT_LPB (Some lpb_parse));
                      tab2 = snd (gw_reg_pkt_handler tab1 GW_PKT_LPB (Some (lpb_handle env)));
                      s2 = s1\<lparr>lp_hw := snd (de_mgt_mac_set env (lp_hw s1) loop_detect_mac), lp_Register := 1\<rparr>
                  in (case gw_thread_create (ds_os d) True (Some ''gwdloopdetect'') True (8 * 1024) TASK_PRIORITY_LOWEST stack tid self of
                        (_, tno, os') \<Rightarrow>
                          (GW_OK, \<lparr>ds_tab = tab2, ds_os = os',
                             ds_lpb = s2\<lparr>lp_thread_id := (case tno of None \<Rightarrow> lp_thread_id s2 | Some i \<Rightarrow> i)\<rparr>\<rparr>))
      else let s1 = s\<lparr>lp_oam := (lp_oam s)\<lparr>lf_enable := (if oamEnable = 0 then 0 else 1)\<rparr>,
                      lp_Mode := (if localEnable = 0 then LOOP_DETECT_MODE_DISABLE else LOOP_DETECT_MODE_OLT)\<rparr>
           in (GW_OK, d\<lparr>ds_os := snd (gw_thread_delete (ds_os d) (lp_thread_id s1)), ds_lpb := s1\<lparr>lp_Register := 0\<rparr>\<rparr>))"

section \<open>The invariant through the round and the frames\<close>

text \<open>The semaphore is free.\<close>

definition lpb_idle :: "'h lpb_state \<Rightarrow> bool" where
  "lpb_idle s \<longleftrightarrow> lpb_ok s \<and> lp_sem s = 1"

lemma lpb_safeD: "lpb_safe s x \<Longrightarrow> lp_sem s = 1 \<Longrightarrow> \<exists>r s'. x = Some (r, s') \<and> lpb_idle s'"
  by (auto simp: lpb_safe_def lpb_idle_def)

lemma safe_snd: "lpb_safe s x \<Longrightarrow> lp_sem s = 1 \<Longrightarrow> \<exists>s'. map_option snd x = Some s' \<and> lpb_idle s'"
  by (auto simp: lpb_safe_def lpb_idle_def)

lemma idle_simps [simp]:
  "lpb_idle (s\<lparr>lp_hw := h\<rparr>) = lpb_idle s"
  "lpb_idle (s\<lparr>lp_PortDown := (lp_PortDown s)[i := x]\<rparr>) = lpb_idle s"
  "lpb_idle (s\<lparr>lp_timeCounter := t\<rparr>) = lpb_idle s"
  "lpb_idle (s\<lparr>lp_sendAlarm := a\<rparr>) = lpb_idle s"
  "lpb_idle (s\<lparr>lp_RecFlag := (lp_RecFlag s)[i := x]\<rparr>) = lpb_idle s"
  by (simp_all add: lpb_idle_def lpb_ok_def)

lemma room_simps [simp]: "room vid (s\<lparr>lp_hw := h\<rparr>) = room vid s"
  by (simp add: room_def)

lemma trans_hw: "\<exists>h. snd (lpbDetectTransFrames env vid s) = s\<lparr>lp_hw := h\<rparr>"
proof -
  have "\<exists>h. snd (fold (trans_port env pkt) is (st, s)) = s\<lparr>lp_hw := h\<rparr>" for pkt "is" st
  proof (rule fold_invariant [where Q = "\<lambda>_. True" and P = "\<lambda>x. \<exists>h. snd x = s\<lparr>lp_hw := h\<rparr>"])
    show "\<exists>h. snd (st, s) = s\<lparr>lp_hw := h\<rparr>" by (rule exI [of _ "lp_hw s"]) simp
  qed (auto simp: trans_port_def Let_def)
  then show ?thesis by (simp add: lpbDetectTransFrames_def)
qed

lemma trans_idle: "lpb_idle s \<Longrightarrow> lpb_idle (snd (lpbDetectTransFrames env vid s))"
  and trans_room: "room vid' s \<Longrightarrow> room vid' (snd (lpbDetectTransFrames env vid s))"
  using trans_hw [of env vid s] by auto

lemma check_idle:
  assumes "lpb_idle s" "room vid s"
  shows "\<exists>s'. lpbDetectCheckMacTable env vid s = Some s' \<and> lpb_idle s'"
proof -
  obtain ret lport where g: "gtGetSrcPortForMac env (lf_smac (lp_oam s)) vid (lp_hw s) = (ret, lport)" by fastforce
  have sem: "lp_sem s = 1" "lpb_ok s" using assms(1) by (simp_all add: lpb_idle_def)
  show ?thesis
  proof (cases "ret = GW_OK \<and> boards_port_is_uni (unat lport)")
    case True
    then have l: "unat lport < 27" by (simp add: boards_port_is_uni_def NUM_PORTS_PER_SYSTEM_def)
    obtain r hw where a: "le_admin_set env (lp_hw s) lport PORT_ADMIN_DOWN = (r, hw)" by fastforce
    let ?t = "(s\<lparr>lp_hw := hw\<rparr>)\<lparr>lp_PortDown := (lp_PortDown (s\<lparr>lp_hw := hw\<rparr>))[unat lport := 1]\<rparr>"
    have t: "lpb_ok ?t" "lp_sem ?t = 1" using sem by (simp_all add: lpb_ok_def)
    show ?thesis
      using True g a assms(1) safe_snd [OF set_safe [OF t(1) _ l, of env vid True None]]
        safe_snd [OF set_safe [OF sem(2) _ l, of env vid False None]] t sem
      by (simp add: lpbDetectCheckMacTable_def Let_def)
  next
    case False
    then show ?thesis
      using g safe_snd [OF cls_safe [OF sem(2) _ assms(2)]] sem
      by (simp add: lpbDetectCheckMacTable_def) (auto split: if_splits)
  qed
qed

lemma wakeup_idle:
  assumes "lpb_idle s"
  shows "\<exists>s'. lpbDetectWakeupPorts env vid s = Some ((), s') \<and> lpb_idle s' \<and> room vid s'"
  using wakeup_safe [of s env vid] assms by (auto simp: lpb_idle_def)

lemma report_idle: "lpb_idle s \<Longrightarrow> \<exists>s'. reportPortsLpbStatus env vid session s = Some ((), s') \<and> lpb_idle s'"
  using lpb_safeD [OF report_safe [of s env vid session]] by (auto simp: lpb_idle_def)

lemma one_vlan_idle:
  assumes "lpb_idle s"
  shows "\<exists>s'. one_vlan_round env vid session s = Some s' \<and> lpb_idle s'"
proof -
  obtain s1 where 1: "lpbDetectWakeupPorts env vid s = Some ((), s1)" "lpb_idle s1" "room vid s1"
    using wakeup_idle [OF assms] by blast
  obtain s2 where 2: "lpbDetectCheckMacTable env vid (snd (lpbDetectTransFrames env vid s1)) = Some s2" "lpb_idle s2"
    using check_idle [OF trans_idle [OF 1(2)] trans_room [OF 1(3)]] by blast
  show ?thesis using 1 2 report_idle [OF 2(2), of env vid session] by (auto simp: one_vlan_round_def)
qed

lemma each_vlan_idle:
  assumes "lpb_idle s"
  shows "\<exists>st s'. each_vlan_round env vid tag untag session status s = Some (st, s') \<and> lpb_idle s'"
proof -
  obtain s1 where 1: "lpbDetectWakeupPorts env vid s = Some ((), s1)" "lpb_idle s1" "room vid s1"
    using wakeup_idle [OF assms] by blast
  obtain need st where n: "need_to_send env (lp_hw s1) tag untag [0..<PHY_PORT_MAX] status = (need, st)" by fastforce
  have "\<exists>s2. (if need then map_option (\<lambda>t. snd (lpbDetectTransFrames env vid t)) (lpbDetectCheckMacTable env vid s1)
      else map_option snd (clsPortLpbStatus vid s1)) = Some s2 \<and> lpb_idle s2"
    using check_idle [OF 1(2,3), of env] safe_snd [OF cls_safe [of s1 vid]] 1(2,3) trans_idle [of _ env vid]
    by (auto simp: lpb_idle_def)
  then obtain s2 where 2: "(if need then map_option (\<lambda>t. snd (lpbDetectTransFrames env vid t)) (lpbDetectCheckMacTable env vid s1)
      else map_option snd (clsPortLpbStatus vid s1)) = Some s2" "lpb_idle s2" by blast
  show ?thesis using 1(1) n 2 report_idle [OF 2(2), of env vid session] by (auto simp: each_vlan_round_def)
qed

text \<open>The driver's enumeration of VLANs ends.\<close>

definition vlans_end :: "('h, 'z) det_env_scheme \<Rightarrow> bool" where
  "vlans_end env \<longleftrightarrow> (\<exists>n < 4294967296. \<forall>hw idx. n \<le> unat idx \<longrightarrow> de_vlan_getnext env hw idx = None)"

lemma vlan_loop_idle:
  assumes "vlans_end env" "lpb_idle s"
  shows "\<exists>s'. vlan_loop env session idx status s = Some s' \<and> lpb_idle s'"
proof -
  obtain n where n: "n < 4294967296" "\<And>hw idx. n \<le> unat idx \<Longrightarrow> de_vlan_getnext env hw idx = None"
    using assms(1) by (auto simp: vlans_end_def)
  show ?thesis using assms(2)
  proof (induction "n - unat idx" arbitrary: idx status s rule: less_induct)
    case less
    show ?case
    proof (cases "de_vlan_getnext env (lp_hw s) idx")
      case None
      then show ?thesis using less.prems by (subst vlan_loop.simps) simp
    next
      case (Some x)
      obtain vid tag untag where x: "x = (vid, tag, untag)" by (cases x)
      have i: "unat idx < n" using n(2) [of idx "lp_hw s"] Some by (metis not_le option.distinct(1))
      then have m: "n - unat (idx + 1) < n - unat idx" using n(1) by (simp add: unat_word_ariths(1))
      obtain st s' where e: "each_vlan_round env vid tag untag session status s = Some (st, s')" "lpb_idle s'"
        using each_vlan_idle [OF less.prems] by blast
      show ?thesis
        using less.hyps [OF m less.prems, of status] less.hyps [OF m e(2), of st] Some x e(1)
        by (subst vlan_loop.simps) simp
    qed
  qed
qed

lemma action_idle:
  assumes "vlans_end env" "lpb_idle s"
  shows "\<exists>s'. ethLoopBackDetectActionCall env enable session s = Some (0, s') \<and> lpb_idle s'"
proof -
  have rs: "\<exists>r s1. resetLpbPort env f session s = Some (r, s1) \<and> lpb_idle s1" for f
    using lpb_safeD [OF reset_safe [of s env f session]] assms(2) by (simp add: lpb_idle_def)
  have fr: "\<exists>s2. map_option snd (freeLpbStatusList s1) = Some s2 \<and> lpb_idle s2" if "lpb_idle s1" for s1 :: "'a lpb_state"
    using safe_snd [OF free_safe [of s1]] that by (simp add: lpb_idle_def)
  have led: "\<exists>r s3. gwdEthPortLoopLedAction env s2 = Some (r, s3) \<and> lpb_idle s3" if "lpb_idle s2" for s2 :: "'a lpb_state"
    using lpb_safeD [OF led_safe [of s2 env]] that by (simp add: lpb_idle_def)
  obtain r s1 where 1: "resetLpbPort env (\<not> enable) session s = Some (r, s1)" "lpb_idle s1" using rs by blast
  have "\<exists>s2. (if enable
            then (case resetLpbPort env False session s of
                    None \<Rightarrow> None
                  | Some (_, s1) \<Rightarrow>
                      if lf_enable (lp_local s1) = 0 \<and> lf_vid (lp_oam s1) \<noteq> 0
                      then one_vlan_round env (lf_vid (lp_oam s1)) session s1
                      else if lf_enable (lp_local s1) \<noteq> 0 \<and> lf_vid (lp_local s1) \<noteq> 0
                      then one_vlan_round env (lf_vid (lp_local s1)) session s1
                      else vlan_loop env session 0 (le_junk env) s1)
            else (case resetLpbPort env True session s of
                    None \<Rightarrow> None
                  | Some (_, s1) \<Rightarrow> map_option snd (freeLpbStatusList s1))) = Some s2 \<and> lpb_idle s2"
    using 1 fr [OF 1(2)] one_vlan_idle [OF 1(2), of env "lf_vid (lp_oam s1)" session]
      one_vlan_idle [OF 1(2), of env "lf_vid (lp_local s1)" session] vlan_loop_idle [OF assms(1) 1(2), of session 0 "le_junk env"]
    by (cases enable) simp_all
  then show ?thesis using led by (fastforce simp: ethLoopBackDetectActionCall_def)
qed

lemma first_port_bound:
  assumes "IFM_GET_FIRST_PORTONVLAN env vid hw = Some l"
  shows "unat l < 27"
proof -
  obtain i where i: "i < 26" "snd (boards_physical_to_logical 0 (of_nat i)) = Some l"
    using assms by (auto simp: IFM_GET_FIRST_PORTONVLAN_def PHY_PORT_MAX_def simp del: upt_rec_numeral split: option.splits prod.splits dest: find_SomeD)
  then have "l = of_nat i + 1" by (simp add: physical_to_logical_0 unat_of_nat_u32)
  then show ?thesis using i(1) unat_of_nat_u32 [of "i + 1"] by (simp add: add.commute)
qed

lemma rev_idle:
  assumes "lpb_idle s" "port < 27" "14 \<le> length p" "(if p ! 12 = 0x81 \<and> p ! 13 = 0x00 then 16 else 12) + 22 \<le> length p"
  shows "\<exists>r s'. lpbDetectRevPacketHandle env (Some p) port vid s = Some (r, s') \<and> lpb_idle s'"
proof -
  let ?d = "if p ! 12 = 0x81 \<and> p ! 13 = 0x00 then 16 else 12 :: nat"
  let ?lp = "if boards_port_is_uni port then port
    else case IFM_GET_FIRST_PORTONVLAN env vid (lp_hw s) of None \<Rightarrow> port | Some l \<Rightarrow> unat l"
  let ?s1 = "s\<lparr>lp_RecFlag := (lp_RecFlag s)[?lp := 1], lp_sendAlarm := frame_alarm p ?d\<rparr>"
  have s1: "lpb_idle ?s1" using assms(1) by (simp add: lpb_idle_def lpb_ok_def)
  have lp: "?lp < 27" using assms(2) first_port_bound by (auto split: option.split)
  have len: "\<not> length p < 14" "\<not> length p < ?d + 4" "\<not> length p < ?d + 22" "\<not> lpb_ports \<le> port"
    using assms(2-4) by (auto simp: lpb_ports_def NUM_PORTS_PER_SYSTEM_def)
  obtain r hw where a: "le_admin_set env (lp_hw s) (of_nat port) PORT_ADMIN_DOWN = (r, hw)" by fastforce
  let ?s2 = "(?s1\<lparr>lp_hw := hw\<rparr>)\<lparr>lp_PortDown := (lp_PortDown (?s1\<lparr>lp_hw := hw\<rparr>))[?lp := 1]\<rparr>"
  have s2: "lpb_ok ?s2" "lp_sem ?s2 = 1" using s1 by (simp_all add: lpb_idle_def lpb_ok_def)
  obtain r3 s3 where 3: "setPortLpbStatus env vid ?lp True (Some (frame_alarm p ?d)) ?s2 = Some (r3, s3)" "lpb_idle s3"
    using lpb_safeD [OF set_safe [OF s2(1) _ lp, of env vid True "Some (frame_alarm p ?d)"]] s2(2) by auto
  obtain s4 where 4: "reportPortsLpbStatus env vid (lp_session s3) s3 = Some ((), s4)" "lpb_idle s4"
    using report_idle [OF 3(2)] by blast
  obtain m where 5: "gw_port_is_lpb_mark vid ?lp ?s1 = Some (m, ?s1)"
    using mark_safe [of ?s1 vid ?lp] s1 by (auto simp: lpb_idle_def)
  obtain r6 s6 where 6: "setPortLpbStatus env vid ?lp False (Some (frame_alarm p ?d)) ?s1 = Some (r6, s6)" "lpb_idle s6"
    using lpb_safeD [OF set_safe [OF _ _ lp, of ?s1 env vid False "Some (frame_alarm p ?d)"]] s1 by (auto simp: lpb_idle_def)
  have i1: "lpb_idle (?s1\<lparr>lp_hw := hw\<rparr>)" using s1 by simp
  show ?thesis
    unfolding lpbDetectRevPacketHandle_def option.case Let_def if_not_P [OF len(1)] if_not_P [OF len(2)] if_not_P [OF len(3)]
      if_not_P [OF len(4)]
    using assms(1) s1 a 3 4 5 6 i1
    by (cases "lp_IgnorePort s ! port = 0"; cases "policy_shut ?s1"; cases "admin_status env (lp_hw ?s1) (of_nat port) = PORT_ADMIN_UP";
        cases "r = GW_OK") simp_all
qed

section \<open>Histories\<close>

text \<open>What reaches this code: a frame of the packet thread, a round of the detection thread, the stop.\<close>

datatype lpb_event = LpbFrame u32 "u8 list" | LpbRound | LpbStop

fun lpb_step :: "('h, 'z) det_env_scheme \<Rightarrow> 'h lpb_state \<Rightarrow> lpb_event \<Rightarrow> 'h lpb_state option" where
  "lpb_step env s (LpbFrame portid pkt) =
     map_option snd (gw_loopbackFrameRevHandle env (Some pkt) (of_nat (length pkt)) portid s)"
| "lpb_step env s LpbRound =
     (case EthPortLoopBackDetectTask env s of
        None \<Rightarrow> None
      | Some None \<Rightarrow> Some s
      | Some (Some (_, s')) \<Rightarrow> Some s')"
| "lpb_step env s LpbStop = map_option snd (ethLoopBackDetectActionCall env False (lp_session s) s)"

fun lpb_run :: "('h, 'z) det_env_scheme \<Rightarrow> 'h lpb_state \<Rightarrow> lpb_event list \<Rightarrow> 'h lpb_state option" where
  "lpb_run env s [] = Some s"
| "lpb_run env s (e # es) = (case lpb_step env s e of None \<Rightarrow> None | Some s' \<Rightarrow> lpb_run env s' es)"

text \<open>
  The frames that make the handler read outside of its memory: those that end before the field it reads next (the Ethernet type,
  the loop flag behind the optional VLAN tag, the data of a frame whose flag is right and whose port is not ignored), and
  detection frames from a port that the arrays of the ports do not have.
\<close>

definition frame_overrun :: "'h lpb_state \<Rightarrow> u32 \<Rightarrow> u8 list \<Rightarrow> bool" where
  "frame_overrun s portid p \<longleftrightarrow> (of_nat (length p) :: u32) \<noteq> 0 \<and>
     (length p < 14 \<or>
      (let d = (if p ! 12 = 0x81 \<and> p ! 13 = 0x00 then 16 else 12 :: nat) in
        length p < d + 4 \<or>
        ntohs (u16_at p (d + 2)) = LOOP_DETECT_CHECK \<and>
          (27 \<le> unat portid \<or> lp_IgnorePort s ! unat portid = 0 \<and> length p < d + 22)))"

lemma u16_parts:
  "ucast (push_bit 8 (ucast (a :: u8)) OR ucast (b :: u8) :: u16) = b"
  "ucast (drop_bit 8 (push_bit 8 (ucast (a :: u8)) OR ucast (b :: u8) :: u16)) = a"
  by (rule bit_word_eqI; auto simp: bit_simps dest: bit_imp_le_length)+

lemma dot1q_bytes: "u16_at p 12 = EPON_ETHERTYPE_DOT1Q \<Longrightarrow> p ! 12 = 0x81 \<and> p ! 13 = 0x00"
proof -
  assume "u16_at p 12 = EPON_ETHERTYPE_DOT1Q"
  then have e: "push_bit 8 (ucast (p ! 12)) OR ucast (p ! 13) = (0x8100 :: u16)" by (simp add: u16_at_def EPON_ETHERTYPE_DOT1Q_def)
  show ?thesis using u16_parts [of "p ! 12" "p ! 13"] unfolding e by simp
qed

lemma frame_step:
  assumes "lpb_idle s"
  shows "if frame_overrun s portid p then lpb_step env s (LpbFrame portid p) = None
    else \<exists>s'. lpb_step env s (LpbFrame portid p) = Some s' \<and> lpb_idle s'"
proof -
  let ?d = "if p ! 12 = 0x81 \<and> p ! 13 = 0x00 then 16 else 12 :: nat"
  let ?v = "if u16_at p 12 = EPON_ETHERTYPE_DOT1Q then ntohs (u16_at p 14) AND 0x0FFF else 1"
  consider "(of_nat (length p) :: u32) = 0" | "(of_nat (length p) :: u32) \<noteq> 0" "length p < 14"
    | "(of_nat (length p) :: u32) \<noteq> 0" "14 \<le> length p" "length p < ?d + 4"
    | "(of_nat (length p) :: u32) \<noteq> 0" "14 \<le> length p" "?d + 4 \<le> length p" by linarith
  then show ?thesis
  proof cases
    case 1
    then show ?thesis using assms by (simp add: frame_overrun_def gw_loopbackFrameRevHandle_def)
  next
    case 2
    then show ?thesis by (simp add: frame_overrun_def gw_loopbackFrameRevHandle_def)
  next
    case 3
    then have "frame_overrun s portid p" unfolding frame_overrun_def Let_def by blast
    moreover have "lpbDetectRevPacketHandle env (Some p) (unat portid) v s = None" for v
      using 3 by (simp add: lpbDetectRevPacketHandle_def Let_def)
    then have "lpb_step env s (LpbFrame portid p) = None" using 3 by (auto simp: gw_loopbackFrameRevHandle_def)
    ultimately show ?thesis by simp
  next
    case len: 4
    have "\<not> (u16_at p 12 = EPON_ETHERTYPE_DOT1Q \<and> length p < 16)" using dot1q_bytes [of p] len(3) by auto
    then have h: "lpb_step env s (LpbFrame portid p) = map_option snd (lpbDetectRevPacketHandle env (Some p) (unat portid) ?v s)"
      using len(1,2) by (cases "u16_at p 12 = EPON_ETHERTYPE_DOT1Q") (simp_all add: gw_loopbackFrameRevHandle_def)
    have ov: "frame_overrun s portid p \<longleftrightarrow> ntohs (u16_at p (?d + 2)) = LOOP_DETECT_CHECK \<and>
        (27 \<le> unat portid \<or> lp_IgnorePort s ! unat portid = 0 \<and> length p < ?d + 22)"
      using len unfolding frame_overrun_def Let_def by linarith
    consider "ntohs (u16_at p (?d + 2)) \<noteq> LOOP_DETECT_CHECK" | "ntohs (u16_at p (?d + 2)) = LOOP_DETECT_CHECK" "27 \<le> unat portid"
      | "ntohs (u16_at p (?d + 2)) = LOOP_DETECT_CHECK" "unat portid < 27" "lp_IgnorePort s ! unat portid \<noteq> 0"
      | "ntohs (u16_at p (?d + 2)) = LOOP_DETECT_CHECK" "unat portid < 27" "lp_IgnorePort s ! unat portid = 0" "length p < ?d + 22"
      | "unat portid < 27" "lp_IgnorePort s ! unat portid = 0" "?d + 22 \<le> length p" by linarith
    then show ?thesis
    proof cases
      case 1 then show ?thesis using len assms unfolding ov h by (simp add: lpbDetectRevPacketHandle_def Let_def)
    next
      case 2 then show ?thesis using len unfolding ov h by (simp add: lpbDetectRevPacketHandle_def Let_def lpb_ports_def NUM_PORTS_PER_SYSTEM_def)
    next
      case 3 then show ?thesis using len assms unfolding ov h by (simp add: lpbDetectRevPacketHandle_def Let_def lpb_ports_def NUM_PORTS_PER_SYSTEM_def)
    next
      case 4
      then show ?thesis using len unfolding ov h
        by (simp add: lpbDetectRevPacketHandle_def Let_def lpb_ports_def NUM_PORTS_PER_SYSTEM_def)
    next
      case 5
      obtain r s' where "lpbDetectRevPacketHandle env (Some p) (unat portid) ?v s = Some (r, s')" "lpb_idle s'"
        using rev_idle [OF assms 5(1) len(2) 5(3), of env ?v] by blast
      then show ?thesis using 5 unfolding ov h by simp
    qed
  qed
qed

lemma lpb_step_idle:
  assumes "vlans_end env" "lpb_idle s"
  shows "case lpb_step env s e of
      Some s' \<Rightarrow> lpb_idle s' \<and> (\<forall>portid p. e = LpbFrame portid p \<longrightarrow> \<not> frame_overrun s portid p)
    | None \<Rightarrow> (\<exists>portid p. e = LpbFrame portid p \<and> frame_overrun s portid p)"
proof (cases e)
  case (LpbFrame portid p)
  then show ?thesis using frame_step [OF assms(2), of portid p env] by (auto simp del: lpb_step.simps split: if_splits option.split)
next
  case LpbRound
  let ?s1 = "s\<lparr>lp_timeCounter := (if lp_timeCounter s = LPB_OAM_SEND_INTERVAL then 0 else lp_timeCounter s + 1)\<rparr>"
  have "lpb_idle ?s1" using assms(2) by simp
  from action_idle [OF assms(1) this, of True "lp_session ?s1"] obtain s2 where
    "ethLoopBackDetectActionCall env True (lp_session ?s1) ?s1 = Some (0, s2)" "lpb_idle s2" by blast
  then show ?thesis using assms(2) by (auto simp: LpbRound EthPortLoopBackDetectTask_def Let_def)
next
  case LpbStop
  then show ?thesis using action_idle [OF assms(1,2), of False "lp_session s"] by auto
qed

text \<open>A frame of a history that makes the handler read outside of its memory, with the state it is received in.\<close>

fun history_overrun :: "('h, 'z) det_env_scheme \<Rightarrow> 'h lpb_state \<Rightarrow> lpb_event list \<Rightarrow> bool" where
  "history_overrun env s [] \<longleftrightarrow> False"
| "history_overrun env s (e # es) \<longleftrightarrow>
     (case e of LpbFrame portid p \<Rightarrow> frame_overrun s portid p | _ \<Rightarrow> False) \<or>
     (case lpb_step env s e of None \<Rightarrow> False | Some s' \<Rightarrow> history_overrun env s' es)"

lemma lpb_run_idle:
  assumes "vlans_end env" "lpb_idle s"
  shows "case lpb_run env s es of Some s' \<Rightarrow> lpb_idle s' \<and> \<not> history_overrun env s es | None \<Rightarrow> history_overrun env s es"
  using assms(2)
proof (induction es arbitrary: s)
  case (Cons e es)
  show ?case
  proof (cases "lpb_step env s e")
    case None
    then show ?thesis using lpb_step_idle [OF assms(1) Cons.prems, of e] by (auto simp del: lpb_step.simps)
  next
    case (Some s1)
    then have "lpb_idle s1" "case e of LpbFrame portid p \<Rightarrow> \<not> frame_overrun s portid p | _ \<Rightarrow> True"
      using lpb_step_idle [OF assms(1) Cons.prems, of e] by (auto simp del: lpb_step.simps split: lpb_event.split)
    then show ?thesis using Cons.IH [of s1] Some by (auto simp del: lpb_step.simps split: lpb_event.splits option.splits)
  qed
qed simp

end
