(* ===== verification/Loop_Correct.thy ===== *)
theory Loop_Correct
  imports Loop_Detect
begin

text \<open>
  Correctness of the loop detection: histories of frames and rounds, frames sent and received
  back, ports without a loop, and the stop of the detection thread.
\<close>

section \<open>Histories\<close>

text \<open>A switch without VLANs, and the state after the start.\<close>

definition calm_env :: "unit det_env" where
  "calm_env = \<lparr>le_admin_get = \<lambda>_ _. Some 1, le_admin_set = \<lambda>h _ _. (GW_OK, h), le_malloc = \<lambda>_. (True, True),
     le_oam_tx = \<lambda>h _. h, le_loop_event = \<lambda>h _. (GW_OK, h), le_junk = 0,
     de_vlan_get = \<lambda>_ _. None, de_fdb_get = \<lambda>_ _ _. None, de_vlan_getnext = \<lambda>_ _. None,
     de_oper_get = \<lambda>_ _. Some 1, de_portsend = \<lambda>h _ _. (GW_OK, h), de_olt_mac = \<lambda>_. None, de_llid = \<lambda>_. None,
     de_mgt_mac_set = \<lambda>h _. (GW_OK, h), de_port_num = 4, de_sys_mac = [0, 15, 233, 1, 2, 3],
     de_slot0 = 0, de_pon0 = 0, de_llid0 = 0\<rparr>"

definition lpb_start :: "unit lpb_state" where
  "lpb_start = \<lparr>lp_list = [], lp_sem = 1,
     lp_oam = \<lparr>lf_enable = 1, lf_vid = 0, lf_smac = [0, 15, 233, 9, 9, 9], lf_interval = 5, lf_policy = 2, lf_waitforwakeup = 3, lf_maxwakeup = 3\<rparr>,
     lp_local = \<lparr>lf_enable = 0, lf_vid = 0, lf_smac = [], lf_interval = 5, lf_policy = 2, lf_waitforwakeup = 3, lf_maxwakeup = 3\<rparr>,
     lp_PortDown = replicate 27 0, lp_WakeupCounter = replicate 27 0, lp_RecFlag = replicate 27 0, lp_IgnorePort = replicate 27 0,
     lp_timeCounter = 0, lp_Mode = 1, lp_Register = 1, lp_thread_id = 0, lp_session = [], lp_sendAlarm = alarm_zero, lp_hw = ()\<rparr>"

lemma calm_ends: "vlans_end calm_env"
  by (auto simp: vlans_end_def calm_env_def intro!: exI [of _ 0])

lemma start_idle: "lpb_idle lpb_start"
  by (simp add: lpb_idle_def lpb_ok_def lpb_start_def)

text \<open>
  C9. A history of received frames, rounds of the detection thread and stops faults exactly when it holds a frame that makes the
  handler read outside of its memory (\<open>frame_overrun\<close>: the code tests neither the length of a frame nor its port). Without such
  a frame no function faults or waits for ever (the semaphore is taken only when free and always given
  back, the walk through the VLANs ends), and the lists stay well formed: one node per VLAN, arrays
  of one entry per port, marks and shut-down flags 0 or 1, a shut-down port marked and not counting,
  no counter of quiet intervals above 10.
\<close>

theorem lpb_history_safe:
  assumes "vlans_end env" "lpb_idle s"
  shows "case lpb_run env s es of
      None \<Rightarrow> history_overrun env s es
    | Some s' \<Rightarrow> \<not> history_overrun env s es \<and> lp_sem s' = 1 \<and> distinct (map ct_vid (lp_list s')) \<and>
        (\<forall>c \<in> set (lp_list s'). length (ct_mask c) = 27 \<and> length (ct_portdown c) = 27 \<and> length (ct_ClearCnt c) = 27 \<and>
          (\<forall>i < 27. port_ok (ct_mask c ! i) (ct_portdown c ! i) (ct_ClearCnt c ! i)))"
  using lpb_run_idle [OF assms, of es] by (auto simp: lpb_idle_def lpb_ok_def ctrl_ok_def ctrl_shape_def split: option.splits)

text \<open>The second history receives a detection frame without data.\<close>

theorem lpb_history_safe_witness:
  "(\<exists>s'. lpb_run calm_env lpb_start [LpbRound, LpbFrame 3 (replicate 64 8), LpbStop, LpbRound] = Some s' \<and> lp_sem s' = 1) \<and>
   lpb_run calm_env lpb_start [LpbFrame 3 (replicate 12 0 @ [0x08, 0x00, 0x00, 0x80])] = None"
proof -
  have "history_overrun calm_env lpb_start [LpbFrame 3 (replicate 12 0 @ [0x08, 0x00, 0x00, 0x80])]"
    by (simp add: frame_overrun_def nth_append u16_at_def ntohs_def LOOP_DETECT_CHECK_def lpb_start_def)
  moreover have "\<not> history_overrun calm_env lpb_start [LpbRound, LpbFrame 3 (replicate 64 8), LpbStop, LpbRound]"
    by (simp add: frame_overrun_def u16_at_def ntohs_def LOOP_DETECT_CHECK_def split: option.splits)
  ultimately show ?thesis
    using lpb_history_safe [OF calm_ends start_idle, of "[LpbRound, LpbFrame 3 (replicate 64 8), LpbStop, LpbRound]"]
      lpb_history_safe [OF calm_ends start_idle, of "[LpbFrame 3 (replicate 12 0 @ [0x08, 0x00, 0x00, 0x80])]"]
    by (auto split: option.splits)
qed

section \<open>A loop is found\<close>

lemma vid_bytes:
  assumes "unat vid < 4096"
  shows "u16_at [ucast (drop_bit 8 vid OR 0xe0), ucast (0xff AND vid)] 0 AND 0x0FFF = vid"
proof (rule bit_word_eqI)
  fix n assume n: "n < LENGTH(16)"
  have m: "n < 12" if "bit vid n"
  proof (rule ccontr)
    assume "\<not> n < 12"
    moreover have "vid = take_bit 12 vid"
      using assms by (simp add: word_unat_eq_iff unsigned_take_bit_eq take_bit_nat_eq_self)
    ultimately show False using that by (metis bit_take_bit_iff)
  qed
  have "(0x0FFF :: int) = mask 12" "(0xff :: int) = mask 8" "(0xe0 :: int) = push_bit 5 (mask 3)"
    by (simp_all add: mask_eq_exp_minus_1)
  then have b: "bit (0x0FFF :: int) k \<longleftrightarrow> k < 12" "bit (0xff :: int) k \<longleftrightarrow> k < 8" "bit (0xe0 :: int) k \<longleftrightarrow> 5 \<le> k \<and> k < 8" for k
    by (simp_all only: bit_simps) auto
  show "bit (u16_at [ucast (drop_bit 8 vid OR 0xe0), ucast (0xff AND vid)] 0 AND 0x0FFF) n = bit vid n"
    using n m by (cases "n < 8") (auto simp: u16_at_def bit_simps b)
qed

lemma u16_of_bytes_of_u16: "u16_at (bytes_of_u16 w) 0 = w"
proof (rule bit_word_eqI)
  fix n assume n: "n < LENGTH(16)"
  then show "bit (u16_at (bytes_of_u16 w) 0) n = bit w n"
    by (cases "n < 8") (auto simp: u16_at_def bytes_of_u16_def bit_simps)
qed

lemma u16_at_drop: "i + 2 \<le> length p \<Longrightarrow> u16_at (take 2 (drop i p)) 0 = u16_at p i"
  by (simp add: u16_at_def)

lemma node_sem [simp]: "getVlanLpbStasNode (s\<lparr>lp_sem := n\<rparr>) vid = getVlanLpbStasNode s vid"
  by (simp add: getVlanLpbStasNode_def)

text \<open>The effect of \<^verbatim>\<open>setPortLpbStatus\<close> on a port that stays open.\<close>

lemma set_open_effect:
  assumes "lpb_idle s" "i < 27" "le_malloc env (lp_hw s) = (True, True)"
  shows "\<exists>s'. setPortLpbStatus env vid i False (Some a) s = Some (GW_OK, s') \<and> lpb_idle s' \<and>
    getVlanLpbStasNode s' vid < length (lp_list s') \<and>
    ct_mask (lp_list s' ! getVlanLpbStasNode s' vid) ! i = 1 \<and>
    ct_portdown (lp_list s' ! getVlanLpbStasNode s' vid) ! i = 0 \<and>
    ct_ClearCnt (lp_list s' ! getVlanLpbStasNode s' vid) ! i = 0 \<and>
    ct_alarm (lp_list s' ! getVlanLpbStasNode s' vid) ! i = a \<and>
    lp_RecFlag s' = lp_RecFlag s \<and> lp_hw s' = lp_hw s"
proof -
  obtain r s' where r: "setPortLpbStatus env vid i False (Some a) s = Some (r, s')" "lpb_idle s'"
    using lpb_safeD [OF set_safe [of s i env vid False "Some a"]] assms(1,2) by (auto simp: lpb_idle_def)
  let ?k = "getVlanLpbStasNode s vid"
  have sem: "lp_sem s = Suc 0" "lpb_ok s" using assms(1) by (simp_all add: lpb_idle_def)
  have again: "s\<lparr>lp_sem := Suc 0\<rparr> = s" using sem(1) by (cases s) simp
  show ?thesis
  proof (cases "?k < length (lp_list s)")
    case True
    have c: "ctrl_ok (lp_list s ! ?k)" "ct_vid (lp_list s ! ?k) = vid"
      using sem(2) True node_of_vid [OF True] by (simp_all add: lpb_ok_def)
    let ?f = "\<lambda>c. c\<lparr>ct_ClearCnt := (ct_ClearCnt c)[i := 0], ct_mask := (ct_mask c)[i := 1],
        ct_portdown := (ct_portdown c)[i := 0], ct_alarm := (ct_alarm c)[i := a]\<rparr>"
    have e: "s' = upd_ctrl ?k ?f s" "r = GW_OK"
      using r(1) True sem(1)
      by (auto simp: setPortLpbStatus_def lpb_locked_def gw_lpb_sem_take_def gw_lpb_sem_give_def Let_def
          set_found_def store_alarm_def upd_ctrl_def again)
    have "getVlanLpbStasNode s' vid = ?k"
      unfolding getVlanLpbStasNode_def
    proof (rule first_idx_eqI)
      show "first_idx (\<lambda>c. ct_vid c = vid) (lp_list s) < length (lp_list s')"
        using True e(1) by (simp add: getVlanLpbStasNode_def)
      show "ct_vid (lp_list s' ! first_idx (\<lambda>c. ct_vid c = vid) (lp_list s)) = vid"
        using True c(2) e(1) by (simp add: getVlanLpbStasNode_def)
      fix j assume j: "j < first_idx (\<lambda>c. ct_vid c = vid) (lp_list s)"
      then have "j \<noteq> ?k" by (simp add: getVlanLpbStasNode_def)
      then have "lp_list s' ! j = lp_list s ! j" using e(1) by (simp add: upd_ctrl_def)
      then show "ct_vid (lp_list s' ! j) \<noteq> vid" using first_idx_less [OF j] by simp
    qed
    then show ?thesis using r e True ctrl_ok_lengths [OF c(1)] assms(2) by simp
  next
    case False
    then have k: "?k = length (lp_list s)" by (simp add: getVlanLpbStasNode_def) (metis first_idx_le le_antisym not_le)
    let ?c = "(new_ctrl vid i False)\<lparr>ct_alarm := (ct_alarm (new_ctrl vid i False))[i := a]\<rparr>"
    have e: "s' = s\<lparr>lp_list := lp_list s @ [?c]\<rparr>" "r = GW_OK"
      using r(1) False sem(1) assms(3) k
      by (auto simp: setPortLpbStatus_def lpb_locked_def gw_lpb_sem_take_def gw_lpb_sem_give_def Let_def
          store_alarm_def upd_ctrl_def again)
    have "getVlanLpbStasNode s' vid = length (lp_list s)"
      unfolding getVlanLpbStasNode_def
    proof (rule first_idx_eqI)
      fix j assume j: "j < length (lp_list s)"
      then have "\<not> ct_vid (lp_list s ! j) = vid"
        using first_idx_less [of j "\<lambda>c. ct_vid c = vid" "lp_list s"] k by (simp add: getVlanLpbStasNode_def)
      then show "ct_vid (lp_list s' ! j) \<noteq> vid" using j e(1) by (simp add: nth_append)
    qed (simp_all add: e(1) new_ctrl_def)
    then show ?thesis using r e assms(2) by (simp add: new_ctrl_def ctrl_zero_def lpb_ports_def NUM_PORTS_PER_SYSTEM_def)
  qed
qed

lemma loop_frame_fields:
  assumes "unat vid < 4096" "length (lf_smac (lp_oam s)) = 6" "length (de_sys_mac env) = 6"
    and "de_olt_mac env (lp_hw s) = Some olt" "snd (GwGetPonSlotPort olt (GwGetOltType olt)) = Some (slot, pon)"
    and "de_llid env (lp_hw s) = Some llid"
  shows "length (loop_frame env vid s) = 64"
    "u16_at (loop_frame env vid s) 12 = EPON_ETHERTYPE_DOT1Q"
    "loop_frame env vid s ! 12 = 0x81 \<and> loop_frame env vid s ! 13 = 0"
    "u16_at (loop_frame env vid s) 14 AND 0x0FFF = vid"
    "u16_at (loop_frame env vid s) 16 = ETH_TYPE_LOOP_DETECT"
    "u16_at (loop_frame env vid s) 18 = LOOP_DETECT_CHECK"
    "frame_alarm (loop_frame env vid s) 16 = alarm_zero\<lparr>al_oltType := olt_code (GwGetOltType olt), al_onuType := 0x2D,
       al_onuLocation := [0, ucast slot, ucast pon, ucast llid], al_onuMac := de_sys_mac env,
       al_onuPort := [0, 0, 0, 0], al_oltMac := lf_smac (lp_oam s)\<rparr>"
proof -
  obtain a b c d e f where m: "lf_smac (lp_oam s) = [a, b, c, d, e, f]" using assms(2) by (auto simp: list6)
  obtain g h i j k l where n: "de_sys_mac env = [g, h, i, j, k, l]" using assms(3) by (auto simp: list6)
  obtain rest where F: "loop_frame env vid s = [0x00, 0x0F, 0xE9, 0x04, 0x8E, 0xDF, a, b, c, d, e, f, 0x81, 0x00,
      ucast (drop_bit 8 vid OR 0xe0), ucast (0xff AND vid), 0x08, 0x00, 0x00, 0x80, olt_code (GwGetOltType olt), 0x2D,
      0, ucast slot, ucast pon, ucast llid, g, h, i, j, k, l, ucast (drop_bit 8 vid), ucast vid, 0, 0, 0, 0] @ rest" "length rest = 26"
    using m n assms(4-6)
    by (auto simp: loop_frame_def Let_def loop_detect_mac_def bytes_of_u16_def bytes_of_u32_def loop_consts DEVICE_TYPE_GT813_C_def)
  have v: "u16_at [ucast (drop_bit 8 vid OR 0xe0), ucast (0xff AND vid)] 0 AND 0x0FFF = vid" by (rule vid_bytes [OF assms(1)])
  show "length (loop_frame env vid s) = 64" "u16_at (loop_frame env vid s) 12 = EPON_ETHERTYPE_DOT1Q"
    "loop_frame env vid s ! 12 = 0x81 \<and> loop_frame env vid s ! 13 = 0"
    "u16_at (loop_frame env vid s) 16 = ETH_TYPE_LOOP_DETECT" "u16_at (loop_frame env vid s) 18 = LOOP_DETECT_CHECK"
    unfolding F(1) by (simp_all add: F(2) u16_at_def loop_consts)
  show "u16_at (loop_frame env vid s) 14 AND 0x0FFF = vid" unfolding F(1) using v by (simp add: u16_at_def)
  show "frame_alarm (loop_frame env vid s) 16 = alarm_zero\<lparr>al_oltType := olt_code (GwGetOltType olt), al_onuType := 0x2D,
       al_onuLocation := [0, ucast slot, ucast pon, ucast llid], al_onuMac := de_sys_mac env,
       al_onuPort := [0, 0, 0, 0], al_oltMac := lf_smac (lp_oam s)\<rparr>"
    unfolding F(1) m n by (simp add: frame_alarm_def u32_of_bytes_def alarm_zero_def eval_nat_numeral)
qed

lemma mark_idle:
  assumes "lpb_idle s" "i < 26" "getVlanLpbStasNode s vid < length (lp_list s)"
  shows "gw_port_is_lpb_mark vid i s = Some (if ct_mask (lp_list s ! getVlanLpbStasNode s vid) ! i \<noteq> 0 then 1 else 0, s)"
proof -
  have sem: "lp_sem s = Suc 0" using assms(1) by (simp add: lpb_idle_def)
  then have "s\<lparr>lp_sem := Suc 0\<rparr> = s" by (cases s) simp
  then show ?thesis using assms(2,3) sem
    by (simp add: gw_port_is_lpb_mark_def lpb_locked_def gw_lpb_sem_take_def gw_lpb_sem_give_def Let_def NUM_PORTS_PER_SYSTEM_def)
qed

lemma rev_open_port:
  assumes "length p = 64" "p ! 12 = 0x81 \<and> p ! 13 = 0" "u16_at p 18 = LOOP_DETECT_CHECK" "frame_alarm p 16 = a"
    and "lpb_idle s" "i < 26" "lp_IgnorePort s ! i = 0" "\<not> policy_shut s" "le_malloc env (lp_hw s) = (True, True)"
  shows "\<exists>s'. lpbDetectRevPacketHandle env (Some p) i vid s = Some (GW_OK, s') \<and>
    gw_port_is_lpb_mark vid i s' = Some (1, s') \<and> lp_RecFlag s' ! i = 1 \<and>
    ct_alarm (lp_list s' ! getVlanLpbStasNode s' vid) ! i = a"
proof -
  let ?s1 = "s\<lparr>lp_RecFlag := (lp_RecFlag s)[i := 1], lp_sendAlarm := a\<rparr>"
  have s1: "lpb_idle ?s1" "\<not> policy_shut ?s1" using assms(5,8) by (simp_all add: policy_shut_def)
  obtain m where m: "gw_port_is_lpb_mark vid i ?s1 = Some (m, ?s1)"
    using mark_safe [of ?s1 vid i] s1(1) by (auto simp: lpb_idle_def)
  obtain s' where s': "setPortLpbStatus env vid i False (Some a) ?s1 = Some (GW_OK, s')" "lpb_idle s'"
    "getVlanLpbStasNode s' vid < length (lp_list s')" "ct_mask (lp_list s' ! getVlanLpbStasNode s' vid) ! i = 1"
    "ct_alarm (lp_list s' ! getVlanLpbStasNode s' vid) ! i = a" "lp_RecFlag s' = (lp_RecFlag s)[i := 1]"
    using set_open_effect [OF s1(1), of i env vid a] assms(6,9) by auto
  have "i < length (lp_RecFlag s)" using assms(5,6) by (simp add: lpb_idle_def lpb_ok_def)
  moreover have "lpbDetectRevPacketHandle env (Some p) i vid s = Some (GW_OK, s')"
    using assms(1-4,6-8) m s'(1) s1(2)
    by (simp add: lpbDetectRevPacketHandle_def Let_def ntohs_def boards_port_is_uni_def NUM_PORTS_PER_SYSTEM_def lpb_ports_def)
  ultimately show ?thesis using mark_idle [OF s'(2) assms(6) s'(3)] s'(4-6) by auto
qed

text \<open>
  C7. A detection frame that the ONU sends in a VLAN and receives back on a port that it neither
  ignores nor shuts is recognised by the packet parser; the handler marks the port as looped in the
  VLAN, notes the reception, and stores for the alarm the type of the OLT, the slot, PON port and
  LLID, and the two MAC addresses with which the frame was sent.
\<close>

theorem loop_found:
  assumes "unat vid < 4096" "length (lf_smac (lp_oam s0)) = 6" "length (de_sys_mac env) = 6"
    and "de_olt_mac env (lp_hw s0) = Some olt" "snd (GwGetPonSlotPort olt (GwGetOltType olt)) = Some (slot, pon)"
    and "de_llid env (lp_hw s0) = Some llid"
    and "lpb_idle s" "unat port < 26" "lp_IgnorePort s ! unat port = 0" "\<not> policy_shut s" "le_malloc env (lp_hw s) = (True, True)"
  shows "gw_loopbackFrameParser (Some (loop_frame env vid s0)) 64 = Some GW_PKT_LPB \<and>
    (\<exists>s'. gw_loopbackFrameRevHandle env (Some (loop_frame env vid s0)) 64 port s = Some (GW_OK, s') \<and>
       gw_port_is_lpb_mark vid (unat port) s' = Some (1, s') \<and> lp_RecFlag s' ! unat port = 1 \<and>
       ct_alarm (lp_list s' ! getVlanLpbStasNode s' vid) ! unat port =
         alarm_zero\<lparr>al_oltType := olt_code (GwGetOltType olt), al_onuType := 0x2D,
           al_onuLocation := [0, ucast slot, ucast pon, ucast llid], al_onuMac := de_sys_mac env,
           al_onuPort := [0, 0, 0, 0], al_oltMac := lf_smac (lp_oam s0)\<rparr>)"
proof -
  note F = loop_frame_fields [OF assms(1-6)]
  show ?thesis
    using rev_open_port [OF F(1,3,6,7) assms(7-11), of vid] F(1,2,4-6)
    by (simp add: gw_loopbackFrameParser_def gw_loopbackFrameRevHandle_def Let_def ntohs_def)
qed

text \<open>The address of an OLT that the ONU knows.\<close>

definition known_env :: "unit det_env" where
  "known_env = calm_env\<lparr>de_olt_mac := \<lambda>_. Some [0, 0x0c, 0xd5, 0x67, 4, 2], de_llid := \<lambda>_. Some 7\<rparr>"

theorem loop_found_witness:
  "\<exists>s'. gw_loopbackFrameRevHandle known_env (Some (loop_frame known_env 4000 lpb_start)) 64 3 lpb_start = Some (GW_OK, s') \<and>
     gw_port_is_lpb_mark 4000 3 s' = Some (1, s')"
proof -
  have "snd (GwGetPonSlotPort [0, 0x0c, 0xd5, 0x67, 4, 2] GWD_OLT_GFA6700) = Some (4, 2)" by code_simp
  moreover have "GwGetOltType [0, 0x0c, 0xd5, 0x67, 4, 2] = GWD_OLT_GFA6700" by code_simp
  moreover have "\<not> policy_shut lpb_start" "lp_IgnorePort lpb_start ! 3 = 0" by (simp_all add: policy_shut_def lpb_start_def)
  ultimately show ?thesis
    using loop_found [of 4000 lpb_start known_env "[0, 0x0c, 0xd5, 0x67, 4, 2]" 4 2 7 lpb_start 3] start_idle
    by (auto simp: known_env_def calm_env_def lpb_start_def)
qed

section \<open>Start and stop\<close>

lemma start_thread:
  assumes "osal_wf os" "i = first_idx th_free (gw_osal_thread_table os)" "i < GW_OSAL_MAX_THREAD"
    and "gw_thread_create os True (Some ''gwdloopdetect'') True (8 * 1024) TASK_PRIORITY_LOWEST (Some b) tid self = (st, r, os')"
  shows "r = Some (of_nat i)" "\<not> th_free (gw_osal_thread_table os' ! i)" "th_name (gw_osal_thread_table os' ! i) = ''gwdloopdetect''"
    "\<forall>j. j \<noteq> i \<longrightarrow> gw_osal_thread_table os' ! j = gw_osal_thread_table os ! j"
    "length (gw_osal_thread_table os') = GW_OSAL_MAX_THREAD"
  using assms osal_wf_lengths(1) [of os] by (auto simp: gw_thread_create_def Let_def osal_limits TASK_PRIORITY_LOWEST_def)

lemma stop_thread:
  assumes "i < GW_OSAL_MAX_THREAD" "length (gw_osal_thread_table os) = GW_OSAL_MAX_THREAD" "\<not> th_free (gw_osal_thread_table os ! i)"
  shows "th_free (gw_osal_thread_table (snd (gw_thread_delete os (of_nat i))) ! i)"
    "\<forall>j. j \<noteq> i \<longrightarrow> gw_osal_thread_table (snd (gw_thread_delete os (of_nat i))) ! j = gw_osal_thread_table os ! j"
  using assms by (simp_all add: gw_thread_delete_def thread_release_def osal_limits unat_of_nat_u32)

text \<open>
  Switching the detection on registers its parser and handler, so that the packet thread hands
  detection frames to it, and creates its thread in the first free slot; a second request to
  switch it on changes nothing; switching it off releases that slot and leaves every other
  thread as it was before.
\<close>

theorem control_start_stop:
  assumes "osal_wf (ds_os d)" "i = first_idx th_free (gw_osal_thread_table (ds_os d))" "i < GW_OSAL_MAX_THREAD"
    and "lp_Register (ds_lpb d) = 0" "lf_enable (lp_oam (ds_lpb d)) = 0" "length (ds_tab d) = 3"
    and "case cb_parser (ds_tab d ! 0) of None \<Rightarrow> True | Some parse \<Rightarrow> parse pkt len = GW_PKT_MAX"
    and "gw_loopbackFrameParser (Some pkt) len = Some GW_PKT_LPB"
  shows "let (r1, d1) = EthLoopbackDetectControl env 1 1 (Some b) tid self d;
             (r2, d2) = EthLoopbackDetectControl env 0 1 stack2 tid2 self2 d1
         in r1 = GW_OK \<and> r2 = GW_OK \<and>
            gw_pkt_parser_call (ds_tab d1) pkt len = GW_PKT_LPB \<and>
            gw_pkt_handler_call (ds_tab d1) GW_PKT_LPB pkt len portid app = lpb_handle env pkt len portid app \<and>
            \<not> th_free (gw_osal_thread_table (ds_os d1) ! i) \<and> th_name (gw_osal_thread_table (ds_os d1) ! i) = ''gwdloopdetect'' \<and>
            EthLoopbackDetectControl env 1 1 stack2 tid2 self2 d1 = (GW_OK, d1) \<and>
            th_free (gw_osal_thread_table (ds_os d2) ! i) \<and> lf_enable (lp_oam (ds_lpb d2)) = 0 \<and>
            (\<forall>j. j \<noteq> i \<longrightarrow> gw_osal_thread_table (ds_os d2) ! j = gw_osal_thread_table (ds_os d) ! j)"
proof -
  obtain st r os' where c: "gw_thread_create (ds_os d) True (Some ''gwdloopdetect'') True (8 * 1024) TASK_PRIORITY_LOWEST (Some b) tid self = (st, r, os')"
    using prod_cases3 by blast
  note t = start_thread [OF assms(1-3) c]
  note e = stop_thread [OF assms(3) t(5,2)]
  obtain x y z where tab: "ds_tab d = [x, y, z]" using assms(6) by (auto simp: length_Suc_conv eval_nat_numeral)
  have p: "lpb_parse pkt len = GW_PKT_LPB" using assms(8) by (simp add: lpb_parse_def)
  show ?thesis
    using assms(4,5,7) t e c tab p
    by (auto simp: EthLoopbackDetectControl_def Let_def gw_reg_pkt_parse_def gw_reg_pkt_handler_def pkt_types
        gw_pkt_parser_call_def gw_pkt_handler_call_def LOOP_DETECT_MODE_OLT_def split: option.splits)
qed

definition loop_boot :: "unit det_sys" where
  "loop_boot = \<lparr>ds_tab = replicate 3 \<lparr>cb_parser = None, cb_handler = None\<rparr>, ds_os = gw_osal_core_init,
     ds_lpb = lpb_start\<lparr>lp_oam := (lp_oam lpb_start)\<lparr>lf_enable := 0\<rparr>, lp_Register := 0, lp_Mode := 0\<rparr>\<rparr>"

lemma loop_boot_fields:
  "ds_os loop_boot = gw_osal_core_init" "ds_tab loop_boot = replicate 3 \<lparr>cb_parser = None, cb_handler = None\<rparr>"
  "lp_Register (ds_lpb loop_boot) = 0" "lf_enable (lp_oam (ds_lpb loop_boot)) = 0" "lp_thread_id (ds_lpb loop_boot) = 0"
  by (simp_all add: loop_boot_def lpb_start_def)

theorem control_start_stop_witness:
  "EthLoopbackDetectControl calm_env 1 1 None 0 0 (snd (EthLoopbackDetectControl calm_env 1 1 (Some 5) 9 8 loop_boot)) =
     (GW_OK, snd (EthLoopbackDetectControl calm_env 1 1 (Some 5) 9 8 loop_boot))"
proof -
  let ?p = "[0, 0, 0, 0, 0, 0, 0, 0, 0, 0, 0, 0, 8, 0, 0, 0x80]"
  have "gw_loopbackFrameParser (Some ?p) 16 = Some GW_PKT_LPB"
    by (simp add: gw_loopbackFrameParser_def Let_def u16_at_def loop_consts ntohs_def)
  then show ?thesis
    using control_start_stop [of loop_boot 0 ?p 16 calm_env 5 9 8 None 0 0] init_first_thread
    by (simp add: loop_boot_fields osal_limits case_prod_unfold Let_def)
qed

text \<open>
  A request to switch the detection off while it was never switched on (the variable that keeps
  the thread's number is still 0) cancels whichever thread has slot 0, and leaves the other threads.
\<close>

theorem stop_without_start:
  assumes "osal_wf (ds_os d)" "lp_thread_id (ds_lpb d) = 0" "\<not> th_free (gw_osal_thread_table (ds_os d) ! 0)"
  shows "\<exists>d'. EthLoopbackDetectControl env 0 localEnable stack tid self d = (GW_OK, d') \<and>
    th_free (gw_osal_thread_table (ds_os d') ! 0) \<and> th_name (gw_osal_thread_table (ds_os d') ! 0) = [] \<and>
    (\<forall>j. j \<noteq> 0 \<longrightarrow> gw_osal_thread_table (ds_os d') ! j = gw_osal_thread_table (ds_os d) ! j)"
  using assms osal_wf_lengths(1) [of "ds_os d"]
  by (simp add: EthLoopbackDetectControl_def Let_def gw_thread_delete_def thread_release_def osal_limits)

text \<open>The packet thread, the first one, loses its slot.\<close>

definition pkt_only :: osal where
  "pkt_only = snd (snd (gw_thread_create gw_osal_core_init True (Some ''GW_PKT_THREAD'') True 65536 100 (Some 1) 2 1))"

lemma pkt_only_first:
  "osal_wf pkt_only" "th_name (gw_osal_thread_table pkt_only ! 0) = ''GW_PKT_THREAD''" "\<not> th_free (gw_osal_thread_table pkt_only ! 0)"
  using osal_wf_init osal_wf_lengths(1) [OF osal_wf_init]
  by (simp_all add: pkt_only_def gw_thread_create_def init_first_thread Let_def osal_limits osal_wf_def)

theorem stop_without_start_witness:
  "\<exists>d'. EthLoopbackDetectControl calm_env 0 1 None 0 0 (loop_boot\<lparr>ds_os := pkt_only\<rparr>) = (GW_OK, d') \<and>
     th_name (gw_osal_thread_table pkt_only ! 0) = ''GW_PKT_THREAD'' \<and> th_free (gw_osal_thread_table (ds_os d') ! 0)"
  using stop_without_start [of "loop_boot\<lparr>ds_os := pkt_only\<rparr>" calm_env 1 None 0 0] pkt_only_first
  by (auto simp: loop_boot_fields)

section \<open>A port without a loop\<close>

text \<open>The settings that the rounds leave alone, and the counter of the rounds between two alarms.\<close>

type_synonym lpb_settings = "lpb_frame \<times> lpb_frame \<times> u32 \<times> u8 list \<times> u32"

definition lpb_cfg :: "'h lpb_state \<Rightarrow> lpb_settings" where
  "lpb_cfg s = (lp_oam s, lp_local s, lp_Mode s, lp_session s, lp_timeCounter s)"

text \<open>
  Inside an operation on the node at position \<open>k\<close>: the mark, the shut-down flag and the count of quiet intervals of port \<open>i\<close>,
  and whether a frame has come back since its last alarm.
\<close>

definition port_at :: "nat \<Rightarrow> u16 \<Rightarrow> nat \<Rightarrow> u8 \<times> u8 \<times> u8 \<times> u32 \<Rightarrow> lpb_settings \<Rightarrow> 'h lpb_state \<Rightarrow> bool" where
  "port_at k vid i x cfg s \<longleftrightarrow> lpb_at k 0 s \<and> ct_vid (lp_list s ! k) = vid \<and>
     (ct_mask (lp_list s ! k) ! i, ct_portdown (lp_list s ! k) ! i, ct_ClearCnt (lp_list s ! k) ! i, lp_RecFlag s ! i) = x \<and>
     lpb_cfg s = cfg"

lemma send_cfg [simp]: "lpb_cfg (snd (sendOamLpbDetectNotifyMsg env port st vid sid info s)) = lpb_cfg s"
  using send_state [of env port st vid sid info s] by (auto simp: lpb_cfg_def)

lemma nth_upd_same: "xs ! i = x \<Longrightarrow> xs[j := x] ! i = x"
  by (metis list_update_beyond not_le nth_list_update_eq nth_list_update_neq)

lemma port_number [simp]: "j < 26 \<Longrightarrow> unat (of_nat j :: u8) = j"
  by (simp add: unat_of_nat)

lemma send_flag [simp]: "j < 26 \<Longrightarrow> j \<noteq> i \<Longrightarrow>
    lp_RecFlag (snd (sendOamLpbDetectNotifyMsg env (of_nat j) st vid sid info s)) ! i = lp_RecFlag s ! i"
  by (auto simp: sendOamLpbDetectNotifyMsg_def split: option.split prod.split)

lemma send_flag_own: "i < 26 \<Longrightarrow> length (lp_RecFlag s) = 27 \<Longrightarrow>
    lp_RecFlag (snd (sendOamLpbDetectNotifyMsg env (of_nat i) st vid (Some sid) (Some info) s)) ! i = 0"
  by (auto simp: sendOamLpbDetectNotifyMsg_def split: prod.split)

lemma cfg_simps [simp]:
  "lpb_cfg (upd_ctrl k f s) = lpb_cfg s" "lpb_cfg (s\<lparr>lp_hw := h\<rparr>) = lpb_cfg s" "lpb_cfg (s\<lparr>lp_PortDown := pd\<rparr>) = lpb_cfg s"
  "lpb_cfg (s\<lparr>lp_sem := n\<rparr>) = lpb_cfg s"
  by (simp_all add: lpb_cfg_def upd_ctrl_def)

lemma port_at_length: "port_at k vid i x cfg s \<Longrightarrow> k < length (lp_list s)"
  by (simp add: port_at_def lpb_at_def)

lemma wakeup_other:
  assumes "port_at k vid i x cfg s" "j \<noteq> i" "j < 26"
  shows "port_at k vid i x cfg (wakeup_port env v k j s)"
proof -
  note l = port_at_length [OF assms(1)]
  let ?t = "wakeup_clear env v k j s"
  have at: "lpb_at k 0 ?t" using wakeup_clear_at [of k 0 s j env v] assms(1,3) by (simp add: port_at_def)
  have t: "port_at k vid i x cfg ?t"
    using assms l at unfolding port_at_def
    by (simp add: wakeup_clear_def Let_def)
  have at2: "lpb_at k 0 (wakeup_open env v k j ?t)" by (rule wakeup_open_at [OF at assms(3)])
  show ?thesis unfolding wakeup_port_def
    using t assms(2,3) port_at_length [OF t] at2 unfolding port_at_def
    by (simp add: wakeup_open_def Let_def)
qed

lemma port_at_flags: "port_at k vid i x cfg s \<Longrightarrow> length (lp_RecFlag s) = 27"
  by (simp add: port_at_def lpb_at_def lpb_ok_def)

lemma wakeup_own:
  assumes "port_at k vid i (1, 0, c, f) cfg s" "i < 26"
  shows "port_at k vid i (if 10 \<le> c then (0, 0, 0, 0) else (1, 0, c, f)) cfg (wakeup_port env v k i s)"
proof -
  note l = port_at_length [OF assms(1)] and fl = port_at_flags [OF assms(1)]
  have n: "length (ct_mask (lp_list s ! k)) = 27" "length (ct_ClearCnt (lp_list s ! k)) = 27"
    using ctrl_ok_lengths [OF node_ok [of k 0 s]] assms(1) by (simp_all add: port_at_def)
  let ?t = "wakeup_clear env v k i s"
  have at: "lpb_at k 0 ?t" using wakeup_clear_at [of k 0 s i env v] assms by (simp add: port_at_def)
  have t: "port_at k vid i (if 10 \<le> c then (0, 0, 0, 0) else (1, 0, c, f)) cfg ?t"
    using assms l at n fl unfolding port_at_def by (simp add: wakeup_clear_def Let_def send_flag_own)
  then have "wakeup_open env v k i ?t = ?t" by (simp add: wakeup_open_def port_at_def Let_def split: if_splits)
  then show ?thesis unfolding wakeup_port_def using t by simp
qed

text \<open>A loop over the ports in which only the step of port \<open>i\<close> matters.\<close>

lemma fold_own:
  assumes "1 \<le> i" "i < 26" "P s"
    and "\<And>j s. j \<noteq> i \<Longrightarrow> j < 26 \<Longrightarrow> P s \<Longrightarrow> P (f j s)" "\<And>s. P s \<Longrightarrow> Q (f i s)"
    and "\<And>j s. j \<noteq> i \<Longrightarrow> j < 26 \<Longrightarrow> Q s \<Longrightarrow> Q (f j s)"
  shows "Q (fold f [1..<NUM_PORTS_PER_SYSTEM] s)"
proof -
  have e: "[1..<NUM_PORTS_PER_SYSTEM] = [1..<i] @ i # [Suc i..<26]"
    using assms(1,2) upt_add_eq_append [of 1 i "26 - i"] upt_conv_Cons [of i 26] by (simp add: NUM_PORTS_PER_SYSTEM_def)
  have "P (fold f [1..<i] s)"
    by (rule fold_invariant [where Q = "\<lambda>j. j \<noteq> i \<and> j < 26" and P = P]) (use assms in auto)
  then have "Q (fold f [Suc i..<26] (f i (fold f [1..<i] s)))"
    by (intro fold_invariant [where Q = "\<lambda>j. j \<noteq> i \<and> j < 26" and P = Q]) (use assms in auto)
  then show ?thesis unfolding e by simp
qed

lemma port_at_node: "port_at k vid i x cfg s \<Longrightarrow> getVlanLpbStasNode s vid = k"
proof -
  assume a: "port_at k vid i x cfg s"
  let ?n = "getVlanLpbStasNode s vid"
  have k: "k < length (lp_list s)" "distinct (map ct_vid (lp_list s))" "ct_vid (lp_list s ! k) = vid"
    using a by (simp_all add: port_at_def lpb_at_def lpb_ok_def)
  then have "?n < length (lp_list s)"
    by (auto simp: getVlanLpbStasNode_def first_idx_less_iff)
  moreover have "ct_vid (lp_list s ! ?n) = vid" using calculation by (rule node_of_vid)
  ultimately show "?n = k" using k nth_eq_iff_index_eq [of "map ct_vid (lp_list s)" ?n k] by simp
qed

text \<open>The same between operations.\<close>

definition port_st :: "u16 \<Rightarrow> nat \<Rightarrow> u8 \<times> u8 \<times> u8 \<times> u32 \<Rightarrow> lpb_settings \<Rightarrow> 'h lpb_state \<Rightarrow> bool" where
  "port_st vid i x cfg s \<longleftrightarrow> lp_sem s = 1 \<and> (\<exists>k. port_at k vid i x cfg (s\<lparr>lp_sem := 0\<rparr>))"

lemma port_st_idle: "port_st vid i x cfg s \<Longrightarrow> lpb_idle s"
  by (auto simp: port_st_def port_at_def lpb_at_def lpb_idle_def lpb_ok_def)

lemma locked_port:
  assumes "port_st vid i x cfg s"
    and "\<And>k t. port_at k vid i x cfg t \<Longrightarrow> getVlanLpbStasNode t vid = k \<Longrightarrow> k < length (lp_list t) \<Longrightarrow> port_at k vid i y cfg (snd (f t))"
  shows "\<exists>r s'. lpb_locked f s = Some (r, s') \<and> port_st vid i y cfg s'"
proof -
  let ?t = "s\<lparr>lp_sem := 0\<rparr>"
  obtain k where k: "port_at k vid i x cfg ?t" "lp_sem s = 1" using assms(1) by (auto simp: port_st_def)
  obtain r u where u: "f ?t = (r, u)" by fastforce
  have p: "port_at k vid i y cfg u" using assms(2) [OF k(1) port_at_node [OF k(1)] port_at_length [OF k(1)]] u by simp
  then have "lp_sem u = 0" by (simp add: port_at_def lpb_at_def)
  then have "gw_lpb_sem_give u\<lparr>lp_sem := 0\<rparr> = u" "lp_sem (gw_lpb_sem_give u) = 1"
    by (cases u, simp_all add: gw_lpb_sem_give_def)
  then have "port_st vid i y cfg (gw_lpb_sem_give u)" using p by (auto simp: port_st_def)
  then show ?thesis using u k(2) by (simp add: lpb_locked_def gw_lpb_sem_take_def)
qed

lemma wakeup_port_st:
  assumes "port_st vid i (1, 0, c, f) cfg s" "1 \<le> i" "i < 26"
  shows "\<exists>s'. lpbDetectWakeupPorts env vid s = Some ((), s') \<and> port_st vid i (if 10 \<le> c then (0, 0, 0, 0) else (1, 0, c, f)) cfg s'"
proof -
  have "\<exists>r s'. lpbDetectWakeupPorts env vid s = Some (r, s') \<and> port_st vid i (if 10 \<le> c then (0, 0, 0, 0) else (1, 0, c, f)) cfg s'"
    unfolding lpbDetectWakeupPorts_def
  proof (rule locked_port [OF assms(1)])
    fix k and t :: "'a lpb_state"
    assume a: "port_at k vid i (1, 0, c, f) cfg t" "getVlanLpbStasNode t vid = k" "k < length (lp_list t)"
    have "port_at k vid i (if 10 \<le> c then (0, 0, 0, 0) else (1, 0, c, f)) cfg (fold (wakeup_port env vid k) [1..<NUM_PORTS_PER_SYSTEM] t)"
      by (rule fold_own [where P = "port_at k vid i (1, 0, c, f) cfg", OF assms(2,3) a(1)]) (use wakeup_other wakeup_own assms(3) in blast)+
    then show "port_at k vid i (if 10 \<le> c then (0, 0, 0, 0) else (1, 0, c, f)) cfg
        (snd (let k = getVlanLpbStasNode t vid in ((), if k < length (lp_list t) then fold (wakeup_port env vid k) [1..<NUM_PORTS_PER_SYSTEM] t else t)))"
      using a(2,3) unfolding Let_def by (simp del: One_nat_def)
  qed
  then show ?thesis by simp
qed

text \<open>The flag after the alarm that is sent every other round.\<close>

definition flag_after :: "u8 \<Rightarrow> u8 \<Rightarrow> u32 \<Rightarrow> lpb_settings \<Rightarrow> u32" where
  "flag_after m c f cfg = (if m \<noteq> 0 \<and> c = 0 \<and> snd (snd (snd (snd cfg))) = LPB_OAM_SEND_INTERVAL then 0 else f)"

lemma report_other:
  assumes "port_at k vid i x cfg (snd y)" "j \<noteq> i" "j < 26"
  shows "port_at k vid i x cfg (snd (report_port env v session k j y))"
proof -
  note l = port_at_length [OF assms(1)]
  have at: "lpb_at k 0 (snd (report_port env v session k j y))"
    using report_port_at [of k 0 y j] assms(1,3) by (simp add: port_at_def)
  show ?thesis using assms l at unfolding port_at_def
    by (simp add: report_port_def Let_def)
qed

lemma report_own:
  assumes "port_at k vid i (m, 0, c, f) cfg (snd y)" "i < 26"
  shows "port_at k vid i (m, 0, c, flag_after m c f cfg) cfg (snd (report_port env v session k i y)) \<and>
    (m \<noteq> 0 \<longrightarrow> 0 < fst (report_port env v session k i y))"
proof -
  have at: "lpb_at k 0 (snd (report_port env v session k i y))"
    using report_port_at [of k 0 y i] assms by (simp add: port_at_def)
  have t: "lp_timeCounter (snd y) = snd (snd (snd (snd cfg)))" using assms(1) by (auto simp: port_at_def lpb_cfg_def)
  show ?thesis using assms at t port_at_length [OF assms(1)] port_at_flags [OF assms(1)] unfolding port_at_def
    by (simp add: report_port_def Let_def send_flag_own flag_after_def)
qed

lemma report_count: "0 < fst y \<Longrightarrow> 0 < fst (report_port env v session k j y)"
  by (simp add: report_port_def Let_def)

lemma report_port_fold:
  assumes "port_at k vid i (m, 0, c, f) cfg s" "1 \<le> i" "i < 26"
  shows "port_at k vid i (m, 0, c, flag_after m c f cfg) cfg (snd (fold (report_port env v session k) [1..<NUM_PORTS_PER_SYSTEM] (0, s))) \<and>
    (m \<noteq> 0 \<longrightarrow> 0 < fst (fold (report_port env v session k) [1..<NUM_PORTS_PER_SYSTEM] (0, s)))"
proof (rule fold_own [where P = "\<lambda>y. port_at k vid i (m, 0, c, f) cfg (snd y)" and i = i and
      Q = "\<lambda>y. port_at k vid i (m, 0, c, flag_after m c f cfg) cfg (snd y) \<and> (m \<noteq> 0 \<longrightarrow> 0 < fst y)"])
  show "port_at k vid i (m, 0, c, f) cfg (snd (0 :: nat, s))" using assms(1) by simp
next
  fix j and y :: "nat \<times> 'a lpb_state"
  show "port_at k vid i (m, 0, c, f) cfg (snd y) \<Longrightarrow> port_at k vid i (m, 0, c, flag_after m c f cfg) cfg (snd (report_port env v session k i y)) \<and>
      (m \<noteq> 0 \<longrightarrow> 0 < fst (report_port env v session k i y))"
    by (rule report_own [OF _ assms(3)])
  assume "j \<noteq> i" "j < 26"
  then show "port_at k vid i (m, 0, c, f) cfg (snd y) \<Longrightarrow> port_at k vid i (m, 0, c, f) cfg (snd (report_port env v session k j y))"
    "port_at k vid i (m, 0, c, flag_after m c f cfg) cfg (snd y) \<and> (m \<noteq> 0 \<longrightarrow> 0 < fst y) \<Longrightarrow>
      port_at k vid i (m, 0, c, flag_after m c f cfg) cfg (snd (report_port env v session k j y)) \<and> (m \<noteq> 0 \<longrightarrow> 0 < fst (report_port env v session k j y))"
    using report_other [of k vid i _ cfg y j env v session] report_count [of y env v session k j] by blast+
qed (fact assms(2,3))+

lemma report_open_st:
  assumes "port_st vid i (1, 0, c, f) cfg s" "1 \<le> i" "i < 26"
  shows "\<exists>s'. reportPortsLpbStatus env vid session s = Some ((), s') \<and> port_st vid i (1, 0, c, flag_after 1 c f cfg) cfg s'"
proof -
  have "\<exists>r s'. reportPortsLpbStatus env vid session s = Some (r, s') \<and> port_st vid i (1, 0, c, flag_after 1 c f cfg) cfg s'"
    unfolding reportPortsLpbStatus_def
  proof (rule locked_port [OF assms(1)])
    fix k and t :: "'a lpb_state"
    assume a: "port_at k vid i (1, 0, c, f) cfg t" "getVlanLpbStasNode t vid = k" "k < length (lp_list t)"
    show "port_at k vid i (1, 0, c, flag_after 1 c f cfg) cfg (snd (let k = getVlanLpbStasNode t vid in
       if k \<ge> length (lp_list t) then ((), t)
       else (case fold (report_port env vid session k) [1..<NUM_PORTS_PER_SYSTEM] (0, t) of
               (almstats, s1) \<Rightarrow> ((), if almstats = 0 then deleteLpbStatsNode (ct_vid (lp_list s1 ! k)) s1 else s1))))"
      using a(2,3) report_port_fold [OF a(1) assms(2,3), of env vid session]
      by (simp add: Let_def case_prod_unfold del: One_nat_def)
  qed
  then show ?thesis by simp
qed

definition count_after :: "u8 \<Rightarrow> u8 \<Rightarrow> u32 \<Rightarrow> u8" where
  "count_after m c f = (if m = 1 \<and> f = 0 then c + 1 else c)"

lemma cls_at:
  assumes "port_at k vid i (m, 0, c, f) cfg t" "room vid t" "1 \<le> i" "i < 26"
  shows "port_at k vid i (m, 0, count_after m c f, f) cfg (fold (cls_port k) [1..<NUM_PORTS_PER_SYSTEM] t)"
proof -
  have k: "k < length (lp_list t)" "lpb_ok t" "ct_vid (lp_list t ! k) = vid" "lp_sem t = 0" using assms(1) by (auto simp: port_at_def lpb_at_def)
  have r: "\<forall>i \<in> {1..<26}. ct_ClearCnt (lp_list t ! k) ! i \<le> 9"
    using assms(2) k by (auto simp: room_def)
  have c: "ctrl_ok (lp_list t ! k)" using k by (simp add: lpb_ok_def)
  have "lpb_ok (upd_ctrl k (cls_ctrl (lp_RecFlag t) 26) t)"
    using r by (intro upd_ctrl_ok [OF k(2,1)] cls_ctrl_ok) (auto simp: cls_ctrl_def)
  then show ?thesis
    using assms(1,3,4) k(1,4) ctrl_ok_lengths [OF c] cls_fold [OF k(1), of 25]
    by (simp add: NUM_PORTS_PER_SYSTEM_def port_at_def lpb_at_def count_after_def del: One_nat_def) (simp add: cls_ctrl_def cls_counts_def)
qed

lemma cls_st:
  assumes "port_st vid i (m, 0, c, f) cfg s" "room vid s" "1 \<le> i" "i < 26"
  shows "\<exists>s'. clsPortLpbStatus vid s = Some (0, s') \<and> port_st vid i (m, 0, count_after m c f, f) cfg s'"
proof -
  let ?t = "s\<lparr>lp_sem := 0\<rparr>"
  obtain k where k: "port_at k vid i (m, 0, c, f) cfg ?t" "lp_sem s = 1" using assms(1) by (auto simp: port_st_def)
  let ?u = "fold (cls_port k) [1..<NUM_PORTS_PER_SYSTEM] ?t"
  have u: "port_at k vid i (m, 0, count_after m c f, f) cfg ?u" using cls_at [OF k(1) _ assms(3,4)] assms(2) by simp
  then have "lp_sem ?u = 0" by (simp only: port_at_def lpb_at_def)
  then have g: "gw_lpb_sem_give ?u\<lparr>lp_sem := 0\<rparr> = ?u" "lp_sem (gw_lpb_sem_give ?u) = 1"
    by (cases ?u, simp_all add: gw_lpb_sem_give_def)
  have "clsPortLpbStatus vid s = Some (0, gw_lpb_sem_give ?u)"
    using k(2) port_at_node [OF k(1)] port_at_length [OF k(1)]
    by (simp add: clsPortLpbStatus_def lpb_locked_def gw_lpb_sem_take_def Let_def del: One_nat_def)
  then show ?thesis using u g by (auto simp: port_st_def simp del: One_nat_def)
qed

lemma port_st_hw [simp]: "port_st vid i x cfg (s\<lparr>lp_hw := h\<rparr>) = port_st vid i x cfg s"
proof -
  have "port_at k vid i x cfg (s\<lparr>lp_hw := h, lp_sem := 0\<rparr>) = port_at k vid i x cfg (s\<lparr>lp_sem := 0\<rparr>)" for k
    by (simp add: port_at_def lpb_at_def lpb_ok_def lpb_cfg_def)
  then show ?thesis by (simp add: port_st_def)
qed

lemma mark_gone:
  assumes "lp_sem w = 0" "i < 26"
    and "\<not> getVlanLpbStasNode w vid < length (lp_list w) \<or> ct_mask (lp_list w ! getVlanLpbStasNode w vid) ! i = 0"
  shows "gw_port_is_lpb_mark vid i (gw_lpb_sem_give w) = Some (0, gw_lpb_sem_give w)"
proof -
  have "w\<lparr>lp_sem := 0\<rparr> = w" using assms(1) by (cases w) simp
  then show ?thesis using assms
    by (auto simp: gw_port_is_lpb_mark_def lpb_locked_def gw_lpb_sem_take_def gw_lpb_sem_give_def Let_def NUM_PORTS_PER_SYSTEM_def)
qed

lemma report_clear_st:
  assumes "port_st vid i (0, 0, c, f) cfg s" "1 \<le> i" "i < 26"
  shows "\<exists>s'. reportPortsLpbStatus env vid session s = Some ((), s') \<and> gw_port_is_lpb_mark vid i s' = Some (0, s')"
proof -
  let ?t = "s\<lparr>lp_sem := 0\<rparr>"
  obtain k where k: "port_at k vid i (0, 0, c, f) cfg ?t" "lp_sem s = 1" using assms(1) by (auto simp: port_st_def)
  obtain n u where u: "fold (report_port env vid session k) [1..<NUM_PORTS_PER_SYSTEM] (0, ?t) = (n, u)" by fastforce
  have p: "port_at k vid i (0, 0, c, flag_after 0 c f cfg) cfg u" using report_port_fold [OF k(1) assms(2,3), of env vid session] u by simp
  let ?w = "if n = 0 then deleteLpbStatsNode vid u else u"
  have r: "reportPortsLpbStatus env vid session s = Some ((), gw_lpb_sem_give ?w)"
    using k(2) port_at_node [OF k(1)] port_at_length [OF k(1)] u p
    by (simp add: reportPortsLpbStatus_def lpb_locked_def gw_lpb_sem_take_def Let_def port_at_def del: One_nat_def)
  have w: "lp_sem ?w = 0" using p by (simp add: port_at_def lpb_at_def deleteLpbStatsNode_def Let_def)
  have "\<not> getVlanLpbStasNode ?w vid < length (lp_list ?w) \<or> ct_mask (lp_list ?w ! getVlanLpbStasNode ?w vid) ! i = 0"
  proof (cases "n = 0")
    case True
    have d: "distinct (map ct_vid (lp_list u))" "k < length (lp_list u)" "ct_vid (lp_list u ! k) = vid"
      using p by (simp_all add: port_at_def lpb_at_def lpb_ok_def)
    have "ct_vid x \<noteq> vid" if "x \<in> set (take k (lp_list u) @ drop (Suc k) (lp_list u))" for x
    proof -
      from that obtain j where "j < length (lp_list u)" "j \<noteq> k" "x = lp_list u ! j"
        by (auto simp: in_set_conv_nth) (metis add_Suc less_diff_conv add.commute not_add_less1 lessI)+
      then show ?thesis using d nth_eq_iff_index_eq [of "map ct_vid (lp_list u)" j k] by auto
    qed
    then have "\<not> first_idx (\<lambda>c. ct_vid c = vid) (take k (lp_list u) @ drop (Suc k) (lp_list u)) <
        length (take k (lp_list u) @ drop (Suc k) (lp_list u))" unfolding first_idx_less_iff by blast
    moreover have "lp_list ?w = take k (lp_list u) @ drop (Suc k) (lp_list u)"
      using True port_at_node [OF p] by (simp add: deleteLpbStatsNode_def Let_def)
    ultimately show ?thesis unfolding getVlanLpbStasNode_def by simp
  next
    case False
    then show ?thesis using p port_at_node [OF p] by (simp add: port_at_def)
  qed
  then have "gw_port_is_lpb_mark vid i (gw_lpb_sem_give ?w) = Some (0, gw_lpb_sem_give ?w)"
    by (rule mark_gone [OF w assms(3)])
  then show ?thesis using r by blast
qed

text \<open>A round.\<close>

definition quiet_cfg :: "u16 \<Rightarrow> lpb_settings \<Rightarrow> bool" where
  "quiet_cfg vid cfg \<longleftrightarrow> (case cfg of (oam, local, mode, session, time) \<Rightarrow>
     lf_enable oam \<noteq> 0 \<and> mode \<noteq> 0 \<and> lf_vid (if lf_enable local = 0 then oam else local) = vid \<and> vid \<noteq> 0 \<and>
     lf_policy oam \<noteq> 0 \<and> lf_policy local \<noteq> 0)"

lemma port_st_cfg: "port_st vid i x cfg s \<Longrightarrow> lpb_cfg s = cfg"
  by (auto simp: port_st_def port_at_def)

lemma reset_quiet:
  assumes "lp_sem s = 1" "quiet_cfg vid (lpb_cfg s)"
  shows "resetLpbPort env False session s = Some (GW_OK, s)"
proof -
  have "fold (reset_node env False session) ks t = t" if "\<not> policy_clear (lp_oam t)" "\<not> policy_clear (lp_local t)" for ks and t :: "'a lpb_state"
    using that by (induction ks) (simp_all add: reset_node_def)
  moreover have "s\<lparr>lp_sem := Suc 0\<rparr> = s" using assms(1) by (cases s) simp
  ultimately show ?thesis using assms
    by (simp add: resetLpbPort_def lpb_locked_def gw_lpb_sem_take_def gw_lpb_sem_give_def quiet_cfg_def lpb_cfg_def policy_clear_def)
qed

lemma check_miss:
  assumes "\<And>hw mac. de_fdb_get env hw vid mac = None"
  shows "lpbDetectCheckMacTable env vid s = map_option snd (clsPortLpbStatus vid s)"
proof -
  obtain r l where g: "gtGetSrcPortForMac env (lf_smac (lp_oam s)) vid (lp_hw s) = (r, l)" by fastforce
  then have "r \<noteq> GW_OK"
    using assms by (auto simp: gtGetSrcPortForMac_def gw_status_defs split: option.splits prod.splits)
  then show ?thesis using g by (simp add: lpbDetectCheckMacTable_def)
qed

lemma port_st_room:
  assumes "port_st vid i (1, 0, c, f) cfg s" "1 \<le> i" "i < 26"
  shows "\<exists>s'. lpbDetectWakeupPorts env vid s = Some ((), s') \<and> room vid s' \<and> port_st vid i (if 10 \<le> c then (0, 0, 0, 0) else (1, 0, c, f)) cfg s'"
  using wakeup_port_st [OF assms, of env] wakeup_idle [OF port_st_idle [OF assms(1)], of env vid] by auto

lemma quiet_vlan_round:
  assumes "\<And>hw mac. de_fdb_get env hw vid mac = None" "port_st vid i (1, 0, c, f) cfg s" "1 \<le> i" "i < 26"
  shows "\<exists>s'. one_vlan_round env vid session s = Some s' \<and>
    (if 10 \<le> c then gw_port_is_lpb_mark vid i s' = Some (0, s')
     else port_st vid i (1, 0, count_after 1 c f, flag_after 1 (count_after 1 c f) f cfg) cfg s')"
proof -
  let ?x = "if 10 \<le> c then (0, 0, 0, 0) else (1 :: u8, 0 :: u8, c, f)"
  obtain s1 where 1: "lpbDetectWakeupPorts env vid s = Some ((), s1)" "room vid s1" "port_st vid i ?x cfg s1"
    using port_st_room [OF assms(2-4), of env] by blast
  obtain h where h: "snd (lpbDetectTransFrames env vid s1) = s1\<lparr>lp_hw := h\<rparr>" using trans_hw [of env vid s1] by blast
  have r: "room vid (s1\<lparr>lp_hw := h\<rparr>)" using 1(2) by simp
  show ?thesis
  proof (cases "10 \<le> c")
    case True
    then have "port_st vid i (0, 0, 0, 0) cfg (s1\<lparr>lp_hw := h\<rparr>)" using 1(3) by simp
    from cls_st [OF this r assms(3,4)] obtain s2 where 2: "clsPortLpbStatus vid (s1\<lparr>lp_hw := h\<rparr>) = Some (0, s2)"
      "port_st vid i (0, 0, count_after 0 0 0, 0) cfg s2" by blast
    show ?thesis using True 1(1) h 2(1) report_clear_st [OF 2(2) assms(3,4), of env session]
      by (auto simp: one_vlan_round_def check_miss [OF assms(1)])
  next
    case False
    then have "port_st vid i (1, 0, c, f) cfg (s1\<lparr>lp_hw := h\<rparr>)" using 1(3) by simp
    from cls_st [OF this r assms(3,4)] obtain s2 where 2: "clsPortLpbStatus vid (s1\<lparr>lp_hw := h\<rparr>) = Some (0, s2)"
      "port_st vid i (1, 0, count_after 1 c f, f) cfg s2" by blast
    show ?thesis using False 1(1) h 2(1) report_open_st [OF 2(2) assms(3,4), of env session]
      by (auto simp: one_vlan_round_def check_miss [OF assms(1)])
  qed
qed

text \<open>The next value of the counter of rounds, and what a round makes of the count and the flag of a marked port.\<close>

definition tick_time :: "u32 \<Rightarrow> u32" where
  "tick_time t = (if t = LPB_OAM_SEND_INTERVAL then 0 else t + 1)"

fun tick :: "lpb_settings \<Rightarrow> lpb_settings" where
  "tick (oam, local, mode, session, t) = (oam, local, mode, session, tick_time t)"

fun quiet_step :: "u8 \<times> u32 \<times> lpb_settings \<Rightarrow> u8 \<times> u32 \<times> lpb_settings" where
  "quiet_step (c, f, cfg) = (count_after 1 c f, flag_after 1 (count_after 1 c f) f (tick cfg), tick cfg)"

lemma port_st_timer:
  assumes "port_st vid i x cfg s"
  shows "port_st vid i x (tick cfg) (s\<lparr>lp_timeCounter := tick_time (lp_timeCounter s)\<rparr>)"
proof -
  obtain k where k: "lp_sem s = 1" "port_at k vid i x cfg (s\<lparr>lp_sem := 0\<rparr>)" using assms by (auto simp: port_st_def)
  then have "cfg = lpb_cfg (s\<lparr>lp_sem := 0\<rparr>)" by (simp add: port_at_def)
  then have "port_at k vid i x (tick cfg) (s\<lparr>lp_timeCounter := tick_time (lp_timeCounter s), lp_sem := 0\<rparr>)"
    using k(2) by (simp add: port_at_def lpb_at_def lpb_ok_def lpb_cfg_def)
  then show ?thesis using k(1) by (auto simp: port_st_def)
qed

lemma led_hw:
  assumes "lp_sem s = 1"
  shows "\<exists>r h. gwdEthPortLoopLedAction env s = Some (r, s\<lparr>lp_hw := h\<rparr>)"
proof -
  have e: "s\<lparr>lp_sem := Suc 0, lp_hw := h\<rparr> = s\<lparr>lp_hw := h\<rparr>" for h using assms by (cases s) simp
  show ?thesis using assms
    by (auto simp: e gwdEthPortLoopLedAction_def lpb_locked_def gw_lpb_sem_take_def gw_lpb_sem_give_def split: prod.split)
qed

lemma mark_hw: "gw_port_is_lpb_mark vid i s = Some (m, s) \<Longrightarrow> gw_port_is_lpb_mark vid i (s\<lparr>lp_hw := h\<rparr>) = Some (m, s\<lparr>lp_hw := h\<rparr>)"
  by (cases s) (auto simp: gw_port_is_lpb_mark_def lpb_locked_def gw_lpb_sem_take_def gw_lpb_sem_give_def Let_def
      getVlanLpbStasNode_def split: if_splits)

lemma mark_sem: "gw_port_is_lpb_mark vid i s = Some (m, s) \<Longrightarrow> i < 26 \<Longrightarrow> lp_sem s \<noteq> 0"
  by (auto simp: gw_port_is_lpb_mark_def lpb_locked_def gw_lpb_sem_take_def NUM_PORTS_PER_SYSTEM_def split: if_splits)

lemma quiet_task_round:
  assumes "\<And>hw mac. de_fdb_get env hw vid mac = None" "port_st vid i (1, 0, c, f) cfg s" "1 \<le> i" "i < 26" "quiet_cfg vid cfg"
    and "quiet_step (c, f, cfg) = (c', f', cfg')"
  shows "\<exists>s'. lpb_step env s LpbRound = Some s' \<and>
    (if 10 \<le> c then gw_port_is_lpb_mark vid i s' = Some (0, s') else port_st vid i (1, 0, c', f') cfg' s')"
proof -
  let ?s1 = "s\<lparr>lp_timeCounter := tick_time (lp_timeCounter s)\<rparr>"
  have p1: "port_st vid i (1, 0, c, f) (tick cfg) ?s1" using port_st_timer [OF assms(2)] .
  have cfg: "lpb_cfg s = cfg" "lpb_cfg ?s1 = tick cfg" "lp_sem ?s1 = 1"
    using port_st_cfg [OF assms(2)] port_st_cfg [OF p1] p1 by (auto simp: port_st_def)
  have qc: "quiet_cfg vid (tick cfg)" using assms(5) by (auto simp: quiet_cfg_def split: prod.splits)
  have q: "lf_enable (lp_oam s) \<noteq> 0" "lp_Mode s \<noteq> 0" "lf_vid (if lf_enable (lp_local s) = 0 then lp_oam s else lp_local s) = vid" "vid \<noteq> 0"
    using assms(5) cfg(1) by (auto simp: quiet_cfg_def lpb_cfg_def)
  have r: "resetLpbPort env False session ?s1 = Some (GW_OK, ?s1)" for session
    by (rule reset_quiet [of ?s1 vid, OF cfg(3)]) (simp only: cfg(2) qc)
  obtain s2 where 2: "one_vlan_round env vid (lp_session ?s1) ?s1 = Some s2"
    "if 10 \<le> c then gw_port_is_lpb_mark vid i s2 = Some (0, s2) else port_st vid i (1, 0, c', f') cfg' s2"
    using quiet_vlan_round [OF assms(1) p1 assms(3,4)] assms(6) by fastforce
  have i2: "lpb_idle s2" using one_vlan_idle [OF port_st_idle [OF p1], of env vid "lp_session ?s1"] 2(1) by auto
  obtain x h where l: "gwdEthPortLoopLedAction env s2 = Some (x, s2\<lparr>lp_hw := h\<rparr>)" using led_hw [of s2 env] i2 by (auto simp: lpb_idle_def)
  have "ethLoopBackDetectActionCall env True (lp_session ?s1) ?s1 = Some (0, s2\<lparr>lp_hw := h\<rparr>)"
    using r q 2(1) l by (auto simp: ethLoopBackDetectActionCall_def split: if_splits)
  then have "lpb_step env s LpbRound = Some (s2\<lparr>lp_hw := h\<rparr>)"
    using q by (simp add: EthPortLoopBackDetectTask_def Let_def tick_time_def)
  then show ?thesis using 2(2) mark_hw [of vid i s2 0 h] by simp
qed

lemma lpb_run_append: "lpb_run env s (xs @ ys) = (case lpb_run env s xs of None \<Rightarrow> None | Some s' \<Rightarrow> lpb_run env s' ys)"
  by (induction xs arbitrary: s) (auto split: option.split)

lemma quiet_cfg_steps: "quiet_cfg vid (snd (snd ((quiet_step ^^ n) x))) = quiet_cfg vid (snd (snd x))"
proof (induction n)
  case (Suc n)
  then show ?case by (cases "(quiet_step ^^ n) x") (auto simp: quiet_cfg_def split: prod.splits)
qed simp

lemma quiet_rounds:
  assumes "\<And>hw mac. de_fdb_get env hw vid mac = None" "port_st vid i (1, 0, c, f) cfg s" "1 \<le> i" "i < 26" "quiet_cfg vid cfg"
    and "\<forall>m<n. \<not> 10 \<le> fst ((quiet_step ^^ m) (c, f, cfg))"
  shows "\<exists>s' c' f' cfg'. lpb_run env s (replicate n LpbRound) = Some s' \<and> (quiet_step ^^ n) (c, f, cfg) = (c', f', cfg') \<and>
    port_st vid i (1, 0, c', f') cfg' s'"
  using assms(6)
proof (induction n)
  case 0
  then show ?case using assms(2) by simp
next
  case (Suc n)
  then obtain s1 c1 f1 cfg1 where 1: "lpb_run env s (replicate n LpbRound) = Some s1" "(quiet_step ^^ n) (c, f, cfg) = (c1, f1, cfg1)"
    "port_st vid i (1, 0, c1, f1) cfg1 s1" by auto
  have "\<not> 10 \<le> c1" using Suc.prems 1(2) by (metis fst_conv lessI)
  moreover have "quiet_cfg vid cfg1" using quiet_cfg_steps [of vid n "(c, f, cfg)"] 1(2) assms(5) by simp
  moreover obtain c2 f2 cfg2 where s2: "quiet_step (c1, f1, cfg1) = (c2, f2, cfg2)" using prod_cases3 by blast
  ultimately obtain s2 where "lpb_step env s1 LpbRound = Some s2" "port_st vid i (1, 0, c2, f2) cfg2 s2"
    using quiet_task_round [OF assms(1) 1(3) assms(3,4)] by (auto simp del: quiet_step.simps)
  then have "lpb_run env s (replicate n LpbRound @ [LpbRound]) = Some s2 \<and> port_st vid i (1, 0, c2, f2) cfg2 s2"
    using 1(1) by (simp add: lpb_run_append del: replicate.simps)
  moreover have "(quiet_step ^^ Suc n) (c, f, cfg) = (c2, f2, cfg2)" using 1(2) s2 by (simp del: quiet_step.simps)
  ultimately show ?case unfolding replicate_append_same replicate_Suc [symmetric] by blast
qed

lemma quiet_last_round:
  assumes "\<And>hw mac. de_fdb_get env hw vid mac = None" "port_st vid i (1, 0, c, f) cfg s" "1 \<le> i" "i < 26" "quiet_cfg vid cfg"
    and "\<forall>m<n. \<not> 10 \<le> fst ((quiet_step ^^ m) (c, f, cfg))" "10 \<le> fst ((quiet_step ^^ n) (c, f, cfg))"
  shows "\<exists>s'. lpb_run env s (replicate (Suc n) LpbRound) = Some s' \<and> gw_port_is_lpb_mark vid i s' = Some (0, s')"
proof -
  from quiet_rounds [OF assms(1-6)] obtain s1 c1 f1 cfg1 where 1: "lpb_run env s (replicate n LpbRound) = Some s1"
    "(quiet_step ^^ n) (c, f, cfg) = (c1, f1, cfg1)" "port_st vid i (1, 0, c1, f1) cfg1 s1" by blast
  have "quiet_cfg vid cfg1" using quiet_cfg_steps [of vid n "(c, f, cfg)"] 1(2) assms(5) by simp
  moreover obtain c2 f2 cfg2 where s2: "quiet_step (c1, f1, cfg1) = (c2, f2, cfg2)" using prod_cases3 by blast
  moreover have "10 \<le> c1" using assms(7) 1(2) by simp
  ultimately obtain s2 where "lpb_step env s1 LpbRound = Some s2" "gw_port_is_lpb_mark vid i s2 = Some (0, s2)"
    using quiet_task_round [OF assms(1) 1(3) assms(3,4)] by (auto simp del: quiet_step.simps)
  then have "lpb_run env s (replicate n LpbRound @ [LpbRound]) = Some s2 \<and> gw_port_is_lpb_mark vid i s2 = Some (0, s2)"
    using 1(1) by (simp add: lpb_run_append del: replicate.simps)
  then show ?thesis unfolding replicate_append_same by (intro exI [of _ s2]) simp
qed

text \<open>
  The round in which a marked port loses its mark, from the count of quiet intervals, the flag of a frame and the counter of
  rounds: a frame stops the count until the next alarm, which is sent in every other round and only while the count is 0.
\<close>

definition quiet_clear_round :: "u8 \<Rightarrow> u32 \<Rightarrow> u32 \<Rightarrow> nat option" where
  "quiet_clear_round c f t =
     (if 10 \<le> c then Some 1
      else if f = 0 then Some (11 - unat c)
      else if c = 0 then Some (if t = 0 then 12 else 13)
      else None)"

lemma quiet_steps_counting: "\<exists>cfg'. (quiet_step ^^ m) (c, 0, cfg) = (c + of_nat m, 0, cfg')"
proof (induction m)
  case (Suc m)
  then show ?case by (auto simp: count_after_def flag_after_def)
next
  case 0
  show ?case by (intro exI [of _ cfg]) simp
qed

lemma count_small: "unat c + m < 256 \<Longrightarrow> unat (c + of_nat m :: u8) = unat c + m"
  by (simp add: unat_word_ariths unat_of_nat)

lemma quiet_counting:
  assumes "\<not> 10 \<le> c"
  shows "(\<forall>m<10 - unat c. \<not> 10 \<le> fst ((quiet_step ^^ m) (c, 0, cfg))) \<and> 10 \<le> fst ((quiet_step ^^ (10 - unat c)) (c, 0, cfg))"
proof -
  have c: "unat c < 10" using assms by (simp add: word_le_nat_alt)
  have "fst ((quiet_step ^^ m) (c, 0, cfg)) = c + of_nat m" for m using quiet_steps_counting [of m c cfg] by auto
  moreover have "10 \<le> (c + of_nat m :: u8) \<longleftrightarrow> 10 \<le> unat c + m" if "m \<le> 10" for m
    using count_small [of c m] that c by (simp add: word_le_nat_alt)
  ultimately show ?thesis using c by auto
qed

lemma quiet_steps_stuck: "f \<noteq> 0 \<Longrightarrow> c \<noteq> 0 \<Longrightarrow> \<exists>cfg'. (quiet_step ^^ m) (c, f, cfg) = (c, f, cfg')"
proof (induction m)
  case (Suc m)
  then show ?case by (auto simp: count_after_def flag_after_def)
next
  case 0
  show ?case by (intro exI [of _ cfg]) simp
qed

lemma quiet_clear_round_spec:
  assumes "t = snd (snd (snd (snd cfg)))" "t \<le> 1"
  shows "case quiet_clear_round c f t of
      None \<Rightarrow> \<forall>m. \<not> 10 \<le> fst ((quiet_step ^^ m) (c, f, cfg))
    | Some r \<Rightarrow> \<exists>n. r = Suc n \<and> (\<forall>m<n. \<not> 10 \<le> fst ((quiet_step ^^ m) (c, f, cfg))) \<and> 10 \<le> fst ((quiet_step ^^ n) (c, f, cfg))"
proof -
  consider "10 \<le> c" | "\<not> 10 \<le> c" "f = 0" | "\<not> 10 \<le> c" "f \<noteq> 0" "c \<noteq> 0" | "f \<noteq> 0" "c = 0" by blast
  then show ?thesis
  proof cases
    case 1
    then show ?thesis by (simp add: quiet_clear_round_def)
  next
    case 2
    then have "unat c < 10" by (simp add: word_le_nat_alt)
    then show ?thesis using 2 quiet_counting [OF 2(1), of cfg] by (auto simp: quiet_clear_round_def intro!: exI [of _ "10 - unat c"])
  next
    case 3
    have "fst ((quiet_step ^^ m) (c, f, cfg)) = c" for m using quiet_steps_stuck [OF 3(2,3), of m cfg] by auto
    then show ?thesis using 3 by (simp add: quiet_clear_round_def)
  next
    case 4
    obtain oam loc mode session where cfg: "cfg = (oam, loc, mode, session, t)" using assms(1) by (cases cfg) auto
    let ?d = "if t = 0 then 1 else 2 :: nat"
    have "t = 0 \<or> t = 1" using assms(2) by (metis dual_order.antisym linorder_not_le word_gt_0 inc_le add_0)
    then have d: "(quiet_step ^^ ?d) (c, f, cfg) = (0, 0, (tick ^^ ?d) cfg)" "?d = 2 \<longrightarrow> fst (quiet_step (c, f, cfg)) = 0"
      using 4 unfolding cfg
      by (auto simp: count_after_def flag_after_def tick_time_def LPB_OAM_SEND_INTERVAL_def numeral_2_eq_2)
    have add: "(quiet_step ^^ (m + ?d)) (c, f, cfg) = (quiet_step ^^ m) (0, 0, (tick ^^ ?d) cfg)" for m
      unfolding funpow_add comp_def d(1) ..
    have z: "\<not> 10 \<le> (0 :: u8)" by simp
    have "\<not> 10 \<le> fst ((quiet_step ^^ m) (c, f, cfg))" if m: "m < 10 + ?d" for m
    proof (cases "m < ?d")
      case True
      then have "m = 0 \<or> ?d = 2 \<and> m = 1" by auto
      then show ?thesis using 4 d(2) z by auto
    next
      case False
      then obtain k where "m = k + ?d" "k < 10" using m by (metis add.commute le_add_diff_inverse nat_add_left_cancel_less not_less)
      then show ?thesis using add [of k] quiet_counting [OF z, of "(tick ^^ ?d) cfg"] by simp
    qed
    moreover have "10 \<le> fst ((quiet_step ^^ (10 + ?d)) (c, f, cfg))"
      using add [of 10] quiet_counting [OF z, of "(tick ^^ ?d) cfg"] by simp
    moreover have "quiet_clear_round c f t = Some (Suc (10 + ?d))" using 4 z by (simp add: quiet_clear_round_def)
    ultimately show ?thesis by auto
  qed
qed

text \<open>
  C8. Detection works in one VLAN, of the OLT's settings or of the unit's own, with a policy other than 0 in both. Once the
  detection frames of a marked port that is not shut down stop coming back (the address table does not hold the detection
  address either), the port keeps its mark up to the round before \<open>quiet_clear_round\<close> and loses it in that round, whatever the
  other ports do: after ten intervals and one round from the last alarm, which is sent one or two rounds after the last frame.
  A port whose count has begun when a frame sets its flag again without starting the count anew keeps its mark forever.
\<close>

theorem quiet_port_cleared:
  assumes "\<And>hw mac. de_fdb_get env hw vid mac = None" "lpb_idle s"
    and "getVlanLpbStasNode s vid < length (lp_list s)" "c = lp_list s ! getVlanLpbStasNode s vid"
    and "ct_mask c ! i = 1" "ct_portdown c ! i = 0" "1 \<le> i" "i < 26" "lp_timeCounter s \<le> 1"
    and "lf_enable (lp_oam s) \<noteq> 0" "lp_Mode s \<noteq> 0" "lf_vid (if lf_enable (lp_local s) = 0 then lp_oam s else lp_local s) = vid" "vid \<noteq> 0"
    and "lf_policy (lp_oam s) \<noteq> 0" "lf_policy (lp_local s) \<noteq> 0"
    and "clear = quiet_clear_round (ct_ClearCnt c ! i) (lp_RecFlag s ! i) (lp_timeCounter s)"
  shows "(\<forall>n. (\<forall>r. clear = Some r \<longrightarrow> n < r) \<longrightarrow>
        (\<exists>s'. lpb_run env s (replicate n LpbRound) = Some s' \<and> gw_port_is_lpb_mark vid i s' = Some (1, s'))) \<and>
    (\<forall>r. clear = Some r \<longrightarrow> (\<exists>s'. lpb_run env s (replicate r LpbRound) = Some s' \<and> gw_port_is_lpb_mark vid i s' = Some (0, s')))"
proof -
  let ?c = "ct_ClearCnt c ! i" and ?f = "lp_RecFlag s ! i" and ?cfg = "lpb_cfg s"
  have q: "quiet_cfg vid ?cfg" using assms(10-15) by (simp add: quiet_cfg_def lpb_cfg_def)
  have p: "port_st vid i (1, 0, ?c, ?f) ?cfg s"
    using assms(2-6) node_of_vid [OF assms(3)]
    by (auto simp: port_st_def port_at_def lpb_at_def lpb_idle_def lpb_ok_def intro!: exI [of _ "getVlanLpbStasNode s vid"])
  have m: "gw_port_is_lpb_mark vid i t = Some (1, t)" if p': "port_st vid i (1, 0, x, y) cfg t" for x y cfg and t :: "'a lpb_state"
  proof -
    obtain k where k: "port_at k vid i (1, 0, x, y) cfg (t\<lparr>lp_sem := 0\<rparr>)" using p' unfolding port_st_def by blast
    then show ?thesis
      using mark_idle [OF port_st_idle [OF p'] assms(8), of vid] port_at_node [OF k] port_at_length [OF k]
      by (simp add: port_at_def)
  qed
  have spec: "case clear of None \<Rightarrow> \<forall>m. \<not> 10 \<le> fst ((quiet_step ^^ m) (?c, ?f, ?cfg))
    | Some r \<Rightarrow> \<exists>n. r = Suc n \<and> (\<forall>m<n. \<not> 10 \<le> fst ((quiet_step ^^ m) (?c, ?f, ?cfg))) \<and> 10 \<le> fst ((quiet_step ^^ n) (?c, ?f, ?cfg))"
    unfolding assms(16) by (rule quiet_clear_round_spec) (simp_all add: lpb_cfg_def assms(9))
  show ?thesis
  proof (intro conjI allI impI)
    fix n assume "\<forall>r. clear = Some r \<longrightarrow> n < r"
    then have "\<forall>m<n. \<not> 10 \<le> fst ((quiet_step ^^ m) (?c, ?f, ?cfg))" using spec by (auto split: option.splits)
    from quiet_rounds [OF assms(1) p assms(7,8) q this] m
    show "\<exists>s'. lpb_run env s (replicate n LpbRound) = Some s' \<and> gw_port_is_lpb_mark vid i s' = Some (1, s')" by blast
  next
    fix r assume "clear = Some r"
    then obtain n where n: "r = Suc n" "\<forall>m<n. \<not> 10 \<le> fst ((quiet_step ^^ m) (?c, ?f, ?cfg))" "10 \<le> fst ((quiet_step ^^ n) (?c, ?f, ?cfg))"
      using spec by auto
    show "\<exists>s'. lpb_run env s (replicate r LpbRound) = Some s' \<and> gw_port_is_lpb_mark vid i s' = Some (0, s')"
      unfolding n(1) by (rule quiet_last_round [OF assms(1) p assms(7,8) q n(2,3)])
  qed
qed

text \<open>A frame has just come back on port 4 of VLAN 100.\<close>

definition lpb_marked :: "unit lpb_state" where
  "lpb_marked = lpb_start\<lparr>lp_list := [new_ctrl 100 4 False], lp_RecFlag := (lp_RecFlag lpb_start)[4 := 1], lp_oam := (lp_oam lpb_start)\<lparr>lf_vid := 100\<rparr>\<rparr>"

theorem quiet_port_cleared_witness:
  "(\<exists>s'. lpb_run calm_env lpb_marked (replicate 11 LpbRound) = Some s' \<and> gw_port_is_lpb_mark 100 4 s' = Some (1, s')) \<and>
   (\<exists>s'. lpb_run calm_env lpb_marked (replicate 12 LpbRound) = Some s' \<and> gw_port_is_lpb_mark 100 4 s' = Some (0, s'))"
proof -
  have "lpb_idle lpb_marked"
    using new_ctrl_ok [of 4 100 False] start_idle by (simp add: lpb_marked_def lpb_idle_def lpb_ok_def)
  moreover have "getVlanLpbStasNode lpb_marked 100 = 0" "lp_list lpb_marked = [new_ctrl 100 4 False]"
    by (simp_all add: lpb_marked_def getVlanLpbStasNode_def new_ctrl_def)
  moreover have "ct_mask (new_ctrl 100 4 False) ! 4 = 1" "ct_portdown (new_ctrl 100 4 False) ! 4 = 0" "ct_ClearCnt (new_ctrl 100 4 False) ! 4 = 0"
    by (simp_all add: new_ctrl_def ctrl_zero_def lpb_ports_def NUM_PORTS_PER_SYSTEM_def)
  moreover have "de_fdb_get calm_env hw vid mac = None" for hw vid mac by (simp add: calm_env_def)
  moreover have "lp_RecFlag lpb_marked ! 4 = 1" "lp_timeCounter lpb_marked = 0" "lf_enable (lp_oam lpb_marked) \<noteq> 0" "lp_Mode lpb_marked \<noteq> 0"
    "lf_enable (lp_local lpb_marked) = 0" "lf_vid (lp_oam lpb_marked) = 100" "lf_policy (lp_oam lpb_marked) \<noteq> 0" "lf_policy (lp_local lpb_marked) \<noteq> 0"
    by (simp_all add: lpb_marked_def lpb_start_def)
  ultimately have "(\<forall>n. (\<forall>r. Some 12 = Some r \<longrightarrow> n < r) \<longrightarrow>
        (\<exists>s'. lpb_run calm_env lpb_marked (replicate n LpbRound) = Some s' \<and> gw_port_is_lpb_mark 100 4 s' = Some (1, s'))) \<and>
    (\<forall>r. Some 12 = Some r \<longrightarrow> (\<exists>s'. lpb_run calm_env lpb_marked (replicate r LpbRound) = Some s' \<and> gw_port_is_lpb_mark 100 4 s' = Some (0, s')))"
    by (intro quiet_port_cleared [of calm_env 100 lpb_marked "new_ctrl 100 4 False" 4]) (simp_all add: quiet_clear_round_def)
  then show ?thesis by (simp del: replicate.simps lpb_run.simps)
qed

end
