(* ===== verification/Broad_Storm.thy ===== *)
theory Broad_Storm
  imports Complex_Main Oam_Msg
begin

text \<open>
  The broadcast storm control of \<^verbatim>\<open>apps/gwd_broadstorm.c\<close>: a thread that computes, every ten seconds and for every port, the rate
  of broadcast packets, limits the rate of a port (or shuts it) after four loud rounds in a row, lifts the limit after four
  quiet ones, and reports both to the OLT. The rate is computed in binary32 numbers.
\<close>

section \<open>Binary32 numbers\<close>

text \<open>
  A number that is not negative is \<open>m * 2 ^ e\<close>, where \<open>m\<close> has 24 bits; the numbers that occur here are far from the ends of
  the range of exponents. \<open>f32_round n d\<close> is the number nearest to \<open>n / d\<close>, and the even one of two.
\<close>

type_synonym f32 = "nat \<times> int"

function f32_up :: "nat \<Rightarrow> nat \<Rightarrow> int \<Rightarrow> nat \<times> int" where
  "f32_up n d e = (if 0 < d \<and> 2 ^ 24 * d \<le> n then f32_up n (2 * d) (e + 1) else (d, e))"
  by auto
termination by (relation "measure (\<lambda>(n, d, e). n - d)") auto

function f32_down :: "nat \<Rightarrow> nat \<Rightarrow> int \<Rightarrow> nat \<times> int" where
  "f32_down n d e = (if 0 < n \<and> n < 2 ^ 23 * d then f32_down (2 * n) d (e - 1) else (n, e))"
  by auto
termination by (relation "measure (\<lambda>(n, d, e). 2 ^ 23 * d - n)") auto

declare f32_up.simps [simp del]
declare f32_down.simps [simp del]

definition f32_nearest :: "nat \<Rightarrow> nat \<Rightarrow> nat" where
  "f32_nearest n d = (let q = n div d; r = n mod d in if d < 2 * r \<or> d = 2 * r \<and> odd q then q + 1 else q)"

definition f32_round :: "nat \<Rightarrow> nat \<Rightarrow> f32" where
  "f32_round n d = (case f32_up n d 0 of (d, e) \<Rightarrow> case f32_down n d e of (n, e) \<Rightarrow> (f32_nearest n d, e))"

definition f32_of_nat :: "nat \<Rightarrow> f32" where "f32_of_nat n = f32_round n 1"

definition f32_div :: "f32 \<Rightarrow> f32 \<Rightarrow> f32" where
  "f32_div x y = (case f32_round (fst x) (fst y) of (m, e) \<Rightarrow> (m, e + snd x - snd y))"

definition f32_mul :: "f32 \<Rightarrow> f32 \<Rightarrow> f32" where
  "f32_mul x y = (case f32_round (fst x * fst y) 1 of (m, e) \<Rightarrow> (m, e + snd x + snd y))"

definition f32_trunc :: "f32 \<Rightarrow> nat" where
  "f32_trunc x = (if 0 \<le> snd x then fst x * 2 ^ nat (snd x) else fst x div 2 ^ nat (- snd x))"

section \<open>State\<close>

text \<open>The arrays of the file and of the thread, by physical port.\<close>

record storm_port =
  gulCurrentpktCntIn :: u64
  gulCurrentpktCntOut :: u64
  gulOctRateIn :: u64
  gulOctRateOut :: u64
  gulLastTick4PortMon :: u32
  gulCurrentTick4PortMon :: u32
  ulBcStormEventCnt :: u16
  ulBcStormStopCnt :: u16
  havebroadcaststorm :: u16
  havebroadcaststorm_end :: u16
  timeCouter :: u16
  startCouter :: u16

record broadcast_storm =
  gulBcStormThreshold :: u64
  gulBcStormStat :: u64

text \<open>What the thread does to a port: a limit, a shutdown, a message to the OLT with \<open>operate\<close> and \<open>state\<close>.\<close>

datatype storm_act = SpeedLimit u32 u32 | AdminDown u32 | BcMsg u32 u8 u8

text \<open>
  The calls of the interface library: \<open>se_stat\<close> gives the status and the two counters of broadcast packets, \<open>se_time\<close> the clock,
  given what the variable holds before; \<open>se_act\<close> is the effect of an action. A limit with rate 0 lifts the limit. The results
  of the calls that act on a port are not looked at.
\<close>

record 'w storm_env =
  se_malloc :: "'w \<Rightarrow> bool \<times> 'w"
  se_oper :: "u32 \<Rightarrow> 'w \<Rightarrow> (int \<times> u32) \<times> 'w"
  se_stat :: "u32 \<Rightarrow> 'w \<Rightarrow> (int \<times> u64 \<times> u64) \<times> 'w"
  se_time :: "u32 \<Rightarrow> 'w \<Rightarrow> u32 \<times> 'w"
  se_act :: "storm_act \<Rightarrow> 'w \<Rightarrow> 'w"

text \<open>\<open>bs_acts\<close>: what was done so far.\<close>

record 'w storm_sys =
  bs_ctl :: broadcast_storm
  bs_ports :: "storm_port list"
  bs_acts :: "storm_act list"
  bs_world :: 'w

definition storm_port_zero :: storm_port where
  "storm_port_zero = \<lparr>gulCurrentpktCntIn = 0, gulCurrentpktCntOut = 0, gulOctRateIn = 0, gulOctRateOut = 0, gulLastTick4PortMon = 0,
     gulCurrentTick4PortMon = 0, ulBcStormEventCnt = 0, ulBcStormStopCnt = 0, havebroadcaststorm = 0, havebroadcaststorm_end = 0,
     timeCouter = 0, startCouter = 0\<rparr>"

definition gw_broadcast_storm_init :: broadcast_storm where
  "gw_broadcast_storm_init = \<lparr>gulBcStormThreshold = 1000, gulBcStormStat = 0\<rparr>"

definition BC_PORTS :: nat where "BC_PORTS = 25"

section \<open>The rate of a port\<close>

definition gwd_onu_port_bcstorm_date_clear :: "storm_port \<Rightarrow> storm_port" where
  "gwd_onu_port_bcstorm_date_clear q =
     q\<lparr>gulCurrentpktCntOut := 0, gulCurrentpktCntIn := 0, gulOctRateOut := 0, gulOctRateIn := 0, gulCurrentTick4PortMon := 0, gulLastTick4PortMon := 0\<rparr>"

definition gwd_port_current_pkt_status_save :: "u64 \<times> u64 \<Rightarrow> storm_port \<Rightarrow> storm_port" where
  "gwd_port_current_pkt_status_save stat_date q = q\<lparr>gulCurrentpktCntIn := fst stat_date, gulOctRateOut := snd stat_date\<rparr>"

definition gwd_logical_to_physical :: "u32 \<Rightarrow> int \<times> u32" where
  "gwd_logical_to_physical lport = (if lport - 1 \<ge> 26 then (1, lport - 1) else (0, lport - 1))"

text \<open>\<open>None\<close>: a division by zero, or a rate that does not fit in 64 bits.\<close>

definition storm_rate :: "u64 \<Rightarrow> u64 \<Rightarrow> nat \<Rightarrow> u64 option" where
  "storm_rate n t k =
     (if t = 0 then None
      else let v = f32_trunc (f32_mul (f32_div (f32_of_nat (unat n)) (f32_of_nat (unat t))) (f32_of_nat k))
           in if v < 2 ^ 64 then Some (of_nat v) else None)"

definition storm_ticks :: "u32 \<Rightarrow> u32 \<Rightarrow> u64" where
  "storm_ticks cur old = (if cur > old then ucast (cur - old) else ucast (0xFFFFFFFF - (old - cur)))"

definition counter_rate :: "u64 \<Rightarrow> u64 \<Rightarrow> u64 \<Rightarrow> u64 option" where
  "counter_rate new old t = (if new \<ge> old then storm_rate (new - old) t 100 else storm_rate (0xFFFFFFFF - (old - new)) t 1000)"

text \<open>When the allocation or the call fails, \<^verbatim>\<open>pd\<close> is used without a value.\<close>

definition gwd_port_rate_update :: "'w storm_env \<Rightarrow> u32 \<Rightarrow> storm_port \<Rightarrow> 'w \<Rightarrow> (storm_port \<times> 'w) option" where
  "gwd_port_rate_update env port q w =
     (case se_malloc env w of (ok, w) \<Rightarrow>
      if \<not> ok then None
      else case se_stat env (port + 1) w of ((ret, rx, tx), w) \<Rightarrow>
      if ret \<noteq> GW_OK then None
      else case se_time env (gulCurrentTick4PortMon q) w of (cur, w) \<Rightarrow>
        let t = storm_ticks cur (gulLastTick4PortMon q) in
        Option.bind (counter_rate rx (gulCurrentpktCntIn q) t) (\<lambda>rin.
        Option.bind (counter_rate tx (gulCurrentpktCntOut q) t) (\<lambda>rout.
          Some (q\<lparr>gulCurrentTick4PortMon := cur, gulCurrentpktCntIn := rx, gulOctRateIn := rin, gulCurrentpktCntOut := tx,
                  gulOctRateOut := rout, gulLastTick4PortMon := cur\<rparr>, w))))"

section \<open>The rounds of the thread\<close>

definition gwd_onu_sw_bcstorm_msg_send :: "u32 \<Rightarrow> u32 \<Rightarrow> u8 \<Rightarrow> u8 \<Rightarrow> u8 list \<Rightarrow> int \<times> (oam_frame \<times> nat) list" where
  "gwd_onu_sw_bcstorm_msg_send slot port operate state session =
     (case CommOnuMsgSend ALARM_REQ 0 [22, 0, 0, ucast slot, ucast port, state, operate] (Some session) of
        (r, fs) \<Rightarrow> (if r \<noteq> GW_OK then 1 else 0, fs))"

text \<open>The frames of a message.\<close>

definition act_frames :: "storm_act \<Rightarrow> (oam_frame \<times> nat) list" where
  "act_frames a = (case a of BcMsg lport operate state \<Rightarrow> snd (gwd_onu_sw_bcstorm_msg_send 1 lport operate state (replicate 8 0)) | _ \<Rightarrow> [])"

text \<open>\<open>over\<close>: the rate of the round is above the threshold.\<close>

definition storm_count :: "u32 \<Rightarrow> bool \<Rightarrow> storm_port \<Rightarrow> storm_port \<times> storm_act list" where
  "storm_count lport over q =
     (if over then (q\<lparr>ulBcStormEventCnt := ulBcStormEventCnt q + 1, ulBcStormStopCnt := 0, timeCouter := 0\<rparr>, [])
      else let q = q\<lparr>ulBcStormEventCnt := 0, timeCouter := (if startCouter q = 0 then 0 else timeCouter q + 1)\<rparr> in
        if havebroadcaststorm_end q \<noteq> 0
        then let q = q\<lparr>ulBcStormStopCnt := ulBcStormStopCnt q + 1\<rparr> in
          if ulBcStormStopCnt q > 3
          then (q\<lparr>startCouter := 1, timeCouter := 0, havebroadcaststorm_end := 0, havebroadcaststorm := 0\<rparr>, [SpeedLimit lport 0])
          else (q, [])
        else (q, []))"

definition storm_start :: "u64 \<Rightarrow> u32 \<Rightarrow> storm_port \<Rightarrow> storm_port \<times> storm_act list" where
  "storm_start stat lport q =
     (if ulBcStormEventCnt q > 3
      then if stat = 1
           then (q\<lparr>havebroadcaststorm := 1, havebroadcaststorm_end := 1, ulBcStormEventCnt := 0\<rparr>, [AdminDown lport, BcMsg lport 2 1])
           else if havebroadcaststorm q = 0
           then (q\<lparr>havebroadcaststorm := 1, havebroadcaststorm_end := 1, ulBcStormEventCnt := 0\<rparr>, [SpeedLimit lport 64, BcMsg lport 1 1])
           else (q\<lparr>ulBcStormEventCnt := 0\<rparr>, [SpeedLimit lport 64])
      else (q, []))"

definition storm_stop :: "u32 \<Rightarrow> storm_port \<Rightarrow> storm_port \<times> storm_act list" where
  "storm_stop lport q = (if timeCouter q > 2 then (q\<lparr>startCouter := 0, timeCouter := 0\<rparr>, [BcMsg lport 1 2]) else (q, []))"

definition storm_react :: "u64 \<Rightarrow> u32 \<Rightarrow> bool \<Rightarrow> storm_port \<Rightarrow> storm_port \<times> storm_act list" where
  "storm_react stat lport over q =
     (case storm_count lport over q of (q, a) \<Rightarrow> case storm_start stat lport q of (q, b) \<Rightarrow> case storm_stop lport q of (q, c) \<Rightarrow> (q, a @ b @ c))"

text \<open>The round of a port also tells whether it was loud; \<open>None\<close> when its rate was not read.\<close>

definition storm_port_round :: "'w storm_env \<Rightarrow> u32 \<Rightarrow> 'w storm_sys \<Rightarrow> (bool option \<times> 'w storm_sys) option" where
  "storm_port_round env lport s =
     (case gwd_logical_to_physical lport of (ret, pport) \<Rightarrow>
      if ret \<noteq> 0 then Some (None, s)
      else case se_oper env lport (bs_world s) of ((ret, status), w) \<Rightarrow>
      if ret \<noteq> 0 then Some (None, s\<lparr>bs_world := w\<rparr>)
      else let i = unat pport in
      if i \<ge> length (bs_ports s) then None
      else if status = 1
      then Option.bind (gwd_port_rate_update env pport (bs_ports s ! i) w) (\<lambda>(q, w).
        let over = gulOctRateIn q > gulBcStormThreshold (bs_ctl s) in
        case storm_react (gulBcStormStat (bs_ctl s)) lport over q of
          (q, acts) \<Rightarrow> Some (Some over, s\<lparr>bs_ports := (bs_ports s)[i := q], bs_acts := bs_acts s @ acts, bs_world := fold (se_act env) acts w\<rparr>))
      else Some (None, s\<lparr>bs_ports := (bs_ports s)[i := gwd_onu_port_bcstorm_date_clear (bs_ports s ! i)], bs_world := w\<rparr>))"

fun storm_ports_round :: "'w storm_env \<Rightarrow> u32 list \<Rightarrow> 'w storm_sys \<Rightarrow> (bool option list \<times> 'w storm_sys) option" where
  "storm_ports_round env [] s = Some ([], s)"
| "storm_ports_round env (l # ls) s = Option.bind (storm_port_round env l s) (\<lambda>(b, s). map_option (apfst ((#) b)) (storm_ports_round env ls s))"

text \<open>One round; \<open>n\<close> is the number of ports that \<^verbatim>\<open>gw_onu_read_port_num\<close> gives.\<close>

definition broad_storm_round :: "'w storm_env \<Rightarrow> u8 \<Rightarrow> 'w storm_sys \<Rightarrow> (bool option list \<times> 'w storm_sys) option" where
  "broad_storm_round env n s = storm_ports_round env (map of_nat [1..<unat n + 1]) s"

fun storm_rounds :: "'w storm_env \<Rightarrow> u8 \<Rightarrow> nat \<Rightarrow> 'w storm_sys \<Rightarrow> (bool option list list \<times> 'w storm_sys) option" where
  "storm_rounds env n 0 s = Some ([], s)"
| "storm_rounds env n (Suc k) s = Option.bind (broad_storm_round env n s) (\<lambda>(l, s). map_option (apfst ((#) l)) (storm_rounds env n k s))"

section \<open>The counters\<close>

text \<open>What holds of the counters of a port between two rounds.\<close>

definition storm_ok :: "storm_port \<Rightarrow> bool" where
  "storm_ok q \<longleftrightarrow> ulBcStormEventCnt q \<le> 3 \<and> ulBcStormStopCnt q \<le> 4 \<and> (havebroadcaststorm q \<noteq> 0 \<longrightarrow> ulBcStormStopCnt q \<le> 3) \<and> timeCouter q \<le> 2 \<and> havebroadcaststorm q \<le> 1 \<and>
     havebroadcaststorm_end q = havebroadcaststorm q \<and> startCouter q \<le> 1 \<and> (startCouter q = 0 \<longrightarrow> timeCouter q = 0)"

lemma u16_le_cases:
  "(x :: u16) \<le> 1 \<longleftrightarrow> x = 0 \<or> x = 1" "x \<le> 2 \<longleftrightarrow> x = 0 \<or> x = 1 \<or> x = 2" "x \<le> 3 \<longleftrightarrow> x = 0 \<or> x = 1 \<or> x = 2 \<or> x = 3"
  for x
proof -
  have "unat x \<le> 1 \<longleftrightarrow> unat x = 0 \<or> unat x = 1" "unat x \<le> 2 \<longleftrightarrow> unat x = 0 \<or> unat x = 1 \<or> unat x = 2"
    "unat x \<le> 3 \<longleftrightarrow> unat x = 0 \<or> unat x = 1 \<or> unat x = 2 \<or> unat x = 3" by auto
  then show "x \<le> 1 \<longleftrightarrow> x = 0 \<or> x = 1" "x \<le> 2 \<longleftrightarrow> x = 0 \<or> x = 1 \<or> x = 2" "x \<le> 3 \<longleftrightarrow> x = 0 \<or> x = 1 \<or> x = 2 \<or> x = 3"
    by (simp_all add: word_le_nat_alt word_unat_eq_iff)
qed

lemmas storm_defs = storm_react_def storm_count_def storm_start_def storm_stop_def

lemma u16_up: "(x :: u16) \<le> 3 \<Longrightarrow> unat (x + 1) = unat x + 1" by (auto simp: u16_le_cases)

text \<open>The two kinds of rounds.\<close>

lemma react_loud:
  "storm_react stat lport True q =
     storm_start stat lport (q\<lparr>ulBcStormEventCnt := ulBcStormEventCnt q + 1, ulBcStormStopCnt := 0, timeCouter := 0\<rparr>)"
  by (simp add: storm_defs)

lemma react_quiet:
  "storm_react stat lport False q = (case storm_count lport False q of (q, a) \<Rightarrow> case storm_stop lport q of (q, c) \<Rightarrow> (q, a @ c))"
  by (simp add: storm_react_def storm_count_def storm_start_def Let_def)

lemma storm_ok_react:
  assumes "storm_ok q"
  shows "storm_ok (fst (storm_react stat lport over q))"
proof (cases over)
  case True
  define q1 where "q1 = q\<lparr>ulBcStormEventCnt := ulBcStormEventCnt q + 1, ulBcStormStopCnt := 0, timeCouter := 0\<rparr>"
  have q1: "ulBcStormStopCnt q1 = 0" "timeCouter q1 = 0" "havebroadcaststorm q1 \<le> 1" "havebroadcaststorm_end q1 = havebroadcaststorm q1" "startCouter q1 \<le> 1"
    using assms by (simp_all add: q1_def storm_ok_def)
  have "storm_react stat lport over q = storm_start stat lport q1" using True by (simp add: react_loud q1_def)
  then show ?thesis using q1 by (auto simp: storm_ok_def storm_start_def not_less)
next
  case False
  define q0 where "q0 = q\<lparr>ulBcStormEventCnt := 0, timeCouter := (if startCouter q = 0 then 0 else timeCouter q + 1)\<rparr>"
  have "timeCouter q + 1 \<le> 3" using assms by (auto simp: storm_ok_def u16_le_cases)
  then have q0: "timeCouter q0 \<le> 3" "startCouter q0 = 0 \<longrightarrow> timeCouter q0 = 0" "startCouter q0 \<le> 1" "ulBcStormEventCnt q0 = 0"
    "havebroadcaststorm q0 \<le> 1" "havebroadcaststorm_end q0 = havebroadcaststorm q0" "ulBcStormStopCnt q0 \<le> 4" "havebroadcaststorm q0 \<noteq> 0 \<Longrightarrow> ulBcStormStopCnt q0 + 1 \<le> 4"
    using assms by (auto simp: q0_def storm_ok_def u16_le_cases)
  have c: "storm_count lport False q =
    (if havebroadcaststorm_end q0 \<noteq> 0
     then if ulBcStormStopCnt q0 + 1 > 3
       then (q0\<lparr>ulBcStormStopCnt := ulBcStormStopCnt q0 + 1, startCouter := 1, timeCouter := 0, havebroadcaststorm_end := 0, havebroadcaststorm := 0\<rparr>, [SpeedLimit lport 0])
       else (q0\<lparr>ulBcStormStopCnt := ulBcStormStopCnt q0 + 1\<rparr>, [])
     else (q0, []))" by (simp add: storm_count_def q0_def Let_def)
  have "storm_react stat lport over q = (case storm_count lport False q of (q, a) \<Rightarrow> case storm_stop lport q of (q, c) \<Rightarrow> (q, a @ c))"
    using False by (simp add: react_quiet)
  then show ?thesis unfolding c using q0 by (auto simp: storm_stop_def storm_ok_def not_less)
qed

lemma bcstorm_frame [simp]:
  "storm_ok (gwd_onu_port_bcstorm_date_clear q) = storm_ok q" "storm_ok storm_port_zero"
  by (simp_all add: storm_ok_def gwd_onu_port_bcstorm_date_clear_def storm_port_zero_def)

lemma rate_update_ok: "gwd_port_rate_update env port q w = Some (q', w') \<Longrightarrow> storm_ok q' = storm_ok q"
  by (auto simp: gwd_port_rate_update_def Let_def storm_ok_def split: prod.splits if_splits Option.bind_splits)

text \<open>Runs of the reaction.\<close>

fun storm_hist :: "u64 \<Rightarrow> u32 \<Rightarrow> bool list \<Rightarrow> storm_port \<Rightarrow> storm_port \<times> storm_act list" where
  "storm_hist stat lport [] q = (q, [])"
| "storm_hist stat lport (b # bs) q = (case storm_react stat lport b q of (q, a) \<Rightarrow> case storm_hist stat lport bs q of (q, as) \<Rightarrow> (q, a @ as))"

lemma storm_hist_append:
  "storm_hist stat lport (xs @ ys) q = (case storm_hist stat lport xs q of (q, a) \<Rightarrow> case storm_hist stat lport ys q of (q, b) \<Rightarrow> (q, a @ b))"
  by (induction xs arbitrary: q) (auto split: prod.split)

lemma storm_hist_chain:
  "storm_hist stat lport xs q = (q1, a) \<Longrightarrow> storm_hist stat lport ys q1 = (q2, b) \<Longrightarrow> storm_hist stat lport (xs @ ys) q = (q2, a @ b)"
  by (simp add: storm_hist_append)

definition storm_free :: "storm_port \<Rightarrow> bool" where
  "storm_free q \<longleftrightarrow> ulBcStormEventCnt q = 0 \<and> havebroadcaststorm q = 0 \<and> havebroadcaststorm_end q = 0"

definition storm_idle :: "storm_port \<Rightarrow> bool" where
  "storm_idle q \<longleftrightarrow> storm_free q \<and> startCouter q = 0 \<and> timeCouter q = 0"

text \<open>A port with a storm, after \<open>e\<close> more loud rounds; \<open>c\<close> is whether the end of a storm is still to be reported.\<close>

definition stormy :: "nat \<Rightarrow> u16 \<Rightarrow> storm_port \<Rightarrow> bool" where
  "stormy e c q \<longleftrightarrow> ulBcStormEventCnt q = of_nat e \<and> ulBcStormStopCnt q = 0 \<and> havebroadcaststorm q = 1 \<and> havebroadcaststorm_end q = 1 \<and>
     timeCouter q = 0 \<and> startCouter q = c"

lemma stormy_loud:
  assumes "stormy e c q" "e < 4" "stat \<noteq> 1"
  shows "\<exists>q'. storm_react stat lport True q = (q', replicate ((e + 1) div 4) (SpeedLimit lport 64)) \<and> stormy ((e + 1) mod 4) c q'"
proof -
  have "e = 0 \<or> e = 1 \<or> e = 2 \<or> e = 3" using assms(2) by auto
  then show ?thesis using assms(1,3) by (elim disjE) (simp_all add: react_loud storm_start_def stormy_def)
qed

lemma stormy_run:
  assumes "stormy e c q" "e < 4" "stat \<noteq> 1"
  shows "\<exists>q'. storm_hist stat lport (replicate n True) q = (q', replicate ((e + n) div 4) (SpeedLimit lport 64)) \<and> stormy ((e + n) mod 4) c q'"
  using assms(1,2)
proof (induction n arbitrary: e q)
  case (Suc n)
  from stormy_loud [OF Suc.prems(1,2) assms(3)] obtain q1 where
    q1: "storm_react stat lport True q = (q1, replicate ((e + 1) div 4) (SpeedLimit lport 64))" "stormy ((e + 1) mod 4) c q1" by blast
  from Suc.IH [OF q1(2)] obtain q' where
    q': "storm_hist stat lport (replicate n True) q1 = (q', replicate (((e + 1) mod 4 + n) div 4) (SpeedLimit lport 64))" "stormy (((e + 1) mod 4 + n) mod 4) c q'"
    by auto
  have "(e + 1) div 4 + ((e + 1) mod 4 + n) div 4 = (e + Suc n) div 4" by presburger
  moreover have "((e + 1) mod 4 + n) mod 4 = (e + Suc n) mod 4" by presburger
  ultimately show ?case using q1 q' by (simp flip: replicate_add)
qed simp

lemma loud_run:
  assumes "storm_free q" "stat \<noteq> 1" "4 \<le> k"
  shows "\<exists>q' e. storm_hist stat lport (replicate k True) q =
      (q', SpeedLimit lport 64 # BcMsg lport 1 1 # replicate (k div 4 - 1) (SpeedLimit lport 64)) \<and> stormy e (startCouter q) q'"
proof -
  have "\<exists>q1. storm_hist stat lport [True, True, True, True] q = (q1, [SpeedLimit lport 64, BcMsg lport 1 1]) \<and> stormy 0 (startCouter q) q1"
    using assms(1,2) by (simp add: react_loud storm_start_def storm_free_def stormy_def)
  then obtain q1 where q1: "storm_hist stat lport [True, True, True, True] q = (q1, [SpeedLimit lport 64, BcMsg lport 1 1])" "stormy 0 (startCouter q) q1" by blast
  from stormy_run [OF q1(2) _ assms(2), of lport "k - 4"] obtain q' where
    q': "storm_hist stat lport (replicate (k - 4) True) q1 = (q', replicate ((k - 4) div 4) (SpeedLimit lport 64))" "stormy ((k - 4) mod 4) (startCouter q) q'" by auto
  have "replicate k True = [True, True, True, True] @ replicate (k - 4) True"
    using assms(3) by (simp add: numeral_eq_Suc Suc_diff_Suc flip: replicate_Suc)
  moreover have "(k - 4) div 4 = k div 4 - 1" using assms(3) by presburger
  ultimately have "storm_hist stat lport (replicate k True) q = (q', SpeedLimit lport 64 # BcMsg lport 1 1 # replicate (k div 4 - 1) (SpeedLimit lport 64))"
    using storm_hist_chain [OF q1(1) q'(1)] by simp
  then show ?thesis using q'(2) by blast
qed

text \<open>Quiet rounds after a storm.\<close>

lemma quiet_idle: "storm_idle q \<Longrightarrow> \<exists>q'. storm_hist stat lport (replicate n False) q = (q', []) \<and> storm_idle q'"
proof (induction n arbitrary: q)
  case (Suc n)
  have "\<exists>q'. storm_react stat lport False q = (q', []) \<and> storm_idle q'"
    using Suc.prems by (simp add: react_quiet storm_count_def storm_stop_def storm_idle_def storm_free_def)
  with Suc.IH show ?case by fastforce
qed simp

text \<open>\<open>j\<close> rounds after the limit was lifted.\<close>

definition calming :: "u16 \<Rightarrow> storm_port \<Rightarrow> bool" where
  "calming j q \<longleftrightarrow> storm_free q \<and> startCouter q = 1 \<and> timeCouter q = j"

lemma calming_quiet: "calming j q \<Longrightarrow> j + 1 \<le> 2 \<Longrightarrow> \<exists>q'. storm_react stat lport False q = (q', []) \<and> calming (j + 1) q'"
  by (simp add: react_quiet storm_count_def storm_stop_def calming_def storm_free_def not_less)

lemma calming_end: "calming 2 q \<Longrightarrow> \<exists>q'. storm_react stat lport False q = (q', [BcMsg lport 1 2]) \<and> storm_idle q'"
  by (simp add: react_quiet storm_count_def storm_stop_def calming_def storm_free_def storm_idle_def)

lemma quiet4:
  assumes "stormy e 0 q"
  shows "\<exists>q'. storm_hist stat lport [False, False, False, False] q = (q', [SpeedLimit lport 0]) \<and> calming 0 q'"
  using assms by (simp add: react_quiet storm_count_def storm_stop_def stormy_def calming_def storm_free_def)

lemma quiet_upto6:
  assumes "calming 0 q" "j \<le> 2"
  shows "\<exists>q'. storm_hist stat lport (replicate j False) q = (q', []) \<and> calming (of_nat j) q'"
proof -
  have "j = 0 \<or> j = 1 \<or> j = 2" using assms(2) by auto
  then show ?thesis using assms(1) by (elim disjE) (simp_all add: numeral_2_eq_2 react_quiet storm_count_def storm_stop_def calming_def storm_free_def)
qed

lemma quiet_run:
  assumes "stormy e 0 q" "7 \<le> m"
  shows "\<exists>q'. storm_hist stat lport (replicate m False) q = (q', [SpeedLimit lport 0, BcMsg lport 1 2]) \<and> storm_idle q'"
proof -
  from quiet4 [OF assms(1)] obtain q1 where q1: "storm_hist stat lport [False, False, False, False] q = (q1, [SpeedLimit lport 0])" "calming 0 q1" by blast
  from quiet_upto6 [OF q1(2), of 2] obtain q2 where q2: "storm_hist stat lport [False, False] q1 = (q2, [])" "calming 2 q2" by (auto simp: numeral_2_eq_2)
  from calming_end [OF q2(2)] obtain q3 where q3: "storm_react stat lport False q2 = (q3, [BcMsg lport 1 2])" "storm_idle q3" by blast
  from quiet_idle [OF q3(2)] obtain q4 where q4: "storm_hist stat lport (replicate (m - 7) False) q3 = (q4, [])" "storm_idle q4" by blast
  have "replicate m False = [False, False, False, False] @ [False, False] @ False # replicate (m - 7) False"
    using assms(2) by (simp add: numeral_eq_Suc Suc_diff_Suc flip: replicate_Suc)
  then have "storm_hist stat lport (replicate m False) q = (q4, [SpeedLimit lport 0, BcMsg lport 1 2])"
    using storm_hist_chain [OF q1(1) storm_hist_chain [OF q2(1), of "False # replicate (m - 7) False" q4 "[BcMsg lport 1 2]"]] q3(1) q4(1)
    by simp
  then show ?thesis using q4(2) by blast
qed

text \<open>Without four loud rounds in a row: \<open>e\<close> is the number of loud rounds before.\<close>

fun short_bursts :: "nat \<Rightarrow> bool list \<Rightarrow> bool" where
  "short_bursts e [] \<longleftrightarrow> True"
| "short_bursts e (True # bs) \<longleftrightarrow> e < 3 \<and> short_bursts (e + 1) bs"
| "short_bursts e (False # bs) \<longleftrightarrow> short_bursts 0 bs"

lemma short_run:
  assumes "short_bursts e bs" "e \<le> 3" "ulBcStormEventCnt q = of_nat e" "storm_idle (q\<lparr>ulBcStormEventCnt := 0\<rparr>)"
  shows "\<exists>q'. storm_hist stat lport bs q = (q', []) \<and> storm_idle (q'\<lparr>ulBcStormEventCnt := 0\<rparr>)"
  using assms
proof (induction e bs arbitrary: q rule: short_bursts.induct)
  case (2 e bs)
  have "e = 0 \<or> e = 1 \<or> e = 2" using 2(2) by auto
  then have "\<exists>q'. storm_react stat lport True q = (q', []) \<and> ulBcStormEventCnt q' = of_nat (e + 1) \<and> storm_idle (q'\<lparr>ulBcStormEventCnt := 0\<rparr>)"
    using 2(4,5) by (elim disjE) (simp_all add: react_loud storm_start_def storm_idle_def storm_free_def)
  then obtain q' where q': "storm_react stat lport True q = (q', [])" "ulBcStormEventCnt q' = of_nat (e + 1)" "storm_idle (q'\<lparr>ulBcStormEventCnt := 0\<rparr>)" by blast
  from 2(1) [OF _ _ q'(2,3)] 2(2) q'(1) show ?case by auto
next
  case (3 e bs)
  have "\<exists>q'. storm_react stat lport False q = (q', []) \<and> ulBcStormEventCnt q' = 0 \<and> storm_idle (q'\<lparr>ulBcStormEventCnt := 0\<rparr>)"
    using 3(5) by (simp add: react_quiet storm_count_def storm_stop_def storm_idle_def storm_free_def)
  then obtain q' where q': "storm_react stat lport False q = (q', [])" "ulBcStormEventCnt q' = of_nat 0" "storm_idle (q'\<lparr>ulBcStormEventCnt := 0\<rparr>)" by auto
  from 3(1) [OF _ _ q'(2,3)] 3(2) q'(1) show ?case by auto
qed simp

section \<open>A port in the rounds of the thread\<close>

text \<open>The counters of a port without its rates; an action is of one port.\<close>

abbreviation storm_core :: "storm_port \<Rightarrow> storm_port" where "storm_core \<equiv> gwd_onu_port_bcstorm_date_clear"

fun act_port :: "storm_act \<Rightarrow> u32" where
  "act_port (SpeedLimit l r) = l" | "act_port (AdminDown l) = l" | "act_port (BcMsg l a b) = l"

lemma storm_core_simps [simp]:
  "ulBcStormEventCnt (storm_core q) = ulBcStormEventCnt q" "ulBcStormStopCnt (storm_core q) = ulBcStormStopCnt q"
  "havebroadcaststorm (storm_core q) = havebroadcaststorm q" "havebroadcaststorm_end (storm_core q) = havebroadcaststorm_end q"
  "timeCouter (storm_core q) = timeCouter q" "startCouter (storm_core q) = startCouter q" "storm_core (storm_core q) = storm_core q"
  by (simp_all add: gwd_onu_port_bcstorm_date_clear_def)

lemma storm_core_upd:
  "storm_core (q\<lparr>ulBcStormEventCnt := x\<rparr>) = storm_core q\<lparr>ulBcStormEventCnt := x\<rparr>" "storm_core (q\<lparr>ulBcStormStopCnt := x\<rparr>) = storm_core q\<lparr>ulBcStormStopCnt := x\<rparr>"
  "storm_core (q\<lparr>havebroadcaststorm := x\<rparr>) = storm_core q\<lparr>havebroadcaststorm := x\<rparr>" "storm_core (q\<lparr>havebroadcaststorm_end := x\<rparr>) = storm_core q\<lparr>havebroadcaststorm_end := x\<rparr>"
  "storm_core (q\<lparr>timeCouter := x\<rparr>) = storm_core q\<lparr>timeCouter := x\<rparr>" "storm_core (q\<lparr>startCouter := x\<rparr>) = storm_core q\<lparr>startCouter := x\<rparr>"
  by (simp_all add: gwd_onu_port_bcstorm_date_clear_def)

lemma count_core: "storm_count lport b (storm_core q) = map_prod storm_core id (storm_count lport b q)"
  by (simp add: storm_count_def Let_def storm_core_upd)

lemma start_core: "storm_start stat lport (storm_core q) = map_prod storm_core id (storm_start stat lport q)"
  by (simp add: storm_start_def storm_core_upd)

lemma stop_core: "storm_stop lport (storm_core q) = map_prod storm_core id (storm_stop lport q)"
  by (simp add: storm_stop_def storm_core_upd)

lemma react_core: "storm_react stat lport b (storm_core q) = map_prod storm_core id (storm_react stat lport b q)"
  by (simp add: storm_react_def count_core start_core stop_core split: prod.split)

lemma react_port: "storm_react stat lport b q = (q', as) \<Longrightarrow> \<forall>a\<in>set as. act_port a = lport"
  by (auto simp: storm_defs Let_def split: if_splits)

lemma rate_update_core: "gwd_port_rate_update env port q w = Some (q', w') \<Longrightarrow> storm_core q' = storm_core q"
  by (auto simp: gwd_port_rate_update_def Let_def gwd_onu_port_bcstorm_date_clear_def split: prod.splits if_splits Option.bind_splits)

text \<open>What the round of a port does to a port.\<close>

definition own_acts :: "u32 \<Rightarrow> storm_act list \<Rightarrow> storm_act list" where "own_acts l as = filter (\<lambda>a. act_port a = l) as"

lemma own_acts_append [simp]: "own_acts l (xs @ ys) = own_acts l xs @ own_acts l ys" by (simp add: own_acts_def)

lemma own_acts_own [simp]: "\<forall>a\<in>set as. act_port a = l' \<Longrightarrow> own_acts l as = (if l = l' then as else [])"
  by (auto simp: own_acts_def filter_id_conv filter_empty_conv)

definition port_of :: "nat \<Rightarrow> 'w storm_sys \<Rightarrow> storm_port" where "port_of p s = storm_core (bs_ports s ! (p - 1))"

abbreviation seen :: "bool option \<Rightarrow> bool list" where "seen b \<equiv> case b of None \<Rightarrow> [] | Some b \<Rightarrow> [b]"

lemma port_of_upd:
  assumes "1 \<le> r" "1 \<le> p" "r \<le> length (bs_ports s)"
  shows "port_of p (s\<lparr>bs_ports := (bs_ports s)[r - 1 := q], bs_acts := as, bs_world := w\<rparr>) = (if r = p then storm_core q else port_of p s)"
    "port_of p (s\<lparr>bs_ports := (bs_ports s)[r - 1 := q], bs_world := w\<rparr>) = (if r = p then storm_core q else port_of p s)"
  using assms by (auto simp: port_of_def nth_list_update)

lemma small_port: "r \<le> 255 \<Longrightarrow> 1 \<le> r \<Longrightarrow> unat (of_nat r - 1 :: u32) = r - 1" "r \<le> 255 \<Longrightarrow> p \<le> 255 \<Longrightarrow> (of_nat r = (of_nat p :: u32)) \<longleftrightarrow> r = p"
proof -
  assume r: "r \<le> 255"
  then have u: "unat (of_nat r :: u32) = r" by (simp add: unat_of_nat take_bit_nat_eq_self)
  show "unat (of_nat r - 1 :: u32) = r - 1" if "1 \<le> r"
    using that u by (subst unat_sub) (simp_all add: word_le_nat_alt)
  show "(of_nat r = (of_nat p :: u32)) \<longleftrightarrow> r = p" if "p \<le> 255"
    using that r by (simp add: word_unat_eq_iff unat_of_nat take_bit_nat_eq_self)
qed

lemma port_round:
  assumes "storm_port_round env (of_nat r) s = Some (b, s')" "1 \<le> r" "r \<le> 255" "1 \<le> p" "p \<le> length (bs_ports s)" "p \<le> 255"
  shows "length (bs_ports s') = length (bs_ports s) \<and> bs_ctl s' = bs_ctl s \<and>
    (\<exists>as. own_acts (of_nat p) (bs_acts s') = own_acts (of_nat p) (bs_acts s) @ as \<and>
       storm_hist (gulBcStormStat (bs_ctl s)) (of_nat p) (if r = p then seen b else []) (port_of p s) = (port_of p s', as))"
proof -
  note u = small_port(1) [OF assms(3,2)] and e = small_port(2) [OF assms(3,6)]
  have idle: "storm_hist st l (if r = p then seen None else []) q = (q, [])" for st l q by simp
  obtain ret status w where o: "se_oper env (of_nat r) (bs_world s) = ((ret, status), w)" by (metis prod.exhaust)
  have l: "gwd_logical_to_physical (of_nat r) = (if r \<le> 26 then 0 else 1, of_nat r - 1)"
    using u assms(2) by (auto simp: gwd_logical_to_physical_def word_le_nat_alt)
  consider "b = None" "s' = s" | "b = None" "s' = s\<lparr>bs_world := w\<rparr>"
    | "b = None" "s' = s\<lparr>bs_ports := (bs_ports s)[r - 1 := storm_core (bs_ports s ! (r - 1))], bs_world := w\<rparr>" "r - 1 < length (bs_ports s)"
    | q w1 over q1 as where "r - 1 < length (bs_ports s)" "gwd_port_rate_update env (of_nat r - 1) (bs_ports s ! (r - 1)) w = Some (q, w1)"
        "storm_react (gulBcStormStat (bs_ctl s)) (of_nat r) over q = (q1, as)" "b = Some over"
        "s' = s\<lparr>bs_ports := (bs_ports s)[r - 1 := q1], bs_acts := bs_acts s @ as, bs_world := fold (se_act env) as w1\<rparr>"
  proof (cases "r \<le> 26 \<and> ret = 0 \<and> r - 1 < length (bs_ports s) \<and> status = 1")
    case False
    then show thesis using assms(1) that(1-3) unfolding storm_port_round_def l o by (auto simp: u Let_def split: if_splits)
  next
    case True
    then have body: "Option.bind (gwd_port_rate_update env (of_nat r - 1) (bs_ports s ! (r - 1)) w) (\<lambda>(q, w).
        let over = gulOctRateIn q > gulBcStormThreshold (bs_ctl s) in
        case storm_react (gulBcStormStat (bs_ctl s)) (of_nat r) over q of
          (q, acts) \<Rightarrow> Some (Some over, s\<lparr>bs_ports := (bs_ports s)[r - 1 := q], bs_acts := bs_acts s @ acts, bs_world := fold (se_act env) acts w\<rparr>)) = Some (b, s')"
      using assms(1) unfolding storm_port_round_def l o by (simp add: u Let_def)
    then obtain q w1 where q: "gwd_port_rate_update env (of_nat r - 1) (bs_ports s ! (r - 1)) w = Some (q, w1)"
      by (cases "gwd_port_rate_update env (of_nat r - 1) (bs_ports s ! (r - 1)) w") auto
    obtain q1 as where r: "storm_react (gulBcStormStat (bs_ctl s)) (of_nat r) (gulOctRateIn q > gulBcStormThreshold (bs_ctl s)) q = (q1, as)" by fastforce
    show thesis using that(4) [OF _ q r] body True unfolding q by (simp add: r Let_def)
  qed
  then show ?thesis
  proof cases
    case 1
    then show ?thesis by simp
  next
    case 2
    then show ?thesis by (simp add: port_of_def)
  next
    case 3
    then have "r \<le> length (bs_ports s)" using assms(2) by simp
    with 3 assms(2,4) show ?thesis by (simp add: port_of_upd) (simp add: port_of_def)
  next
    case 4
    then have r: "r \<le> length (bs_ports s)" using assms(2) by simp
    have a: "own_acts (of_nat p) as = (if r = p then as else [])"
      using own_acts_own [OF react_port [OF 4(3)], of "of_nat p"] e by (metis (full_types))
    have c: "storm_core (bs_ports s ! (r - 1)) = storm_core q" using rate_update_core [OF 4(2)] by simp
    have "storm_react (gulBcStormStat (bs_ctl s)) (of_nat r) over (storm_core q) = (storm_core q1, as)" by (simp add: react_core 4(3))
    with 4(4,5) a c show ?thesis using assms(2,4) r by (simp add: port_of_upd) (auto simp: port_of_def)
  qed
qed

lemma ports_round:
  assumes "storm_ports_round env (map of_nat rs) s = Some (bs, s')" "set rs \<subseteq> {1..255}" "distinct rs" "1 \<le> p" "p \<le> length (bs_ports s)" "p \<le> 255"
  shows "length (bs_ports s') = length (bs_ports s) \<and> bs_ctl s' = bs_ctl s \<and> length bs = length rs \<and>
    (\<exists>as. own_acts (of_nat p) (bs_acts s') = own_acts (of_nat p) (bs_acts s) @ as \<and>
       storm_hist (gulBcStormStat (bs_ctl s)) (of_nat p) (case map_of (zip rs bs) p of None \<Rightarrow> [] | Some b \<Rightarrow> seen b) (port_of p s) = (port_of p s', as))"
  using assms(1-3,5)
proof (induction rs arbitrary: s bs)
  case (Cons r rs)
  from Cons.prems(1) obtain b s1 bs1 where 1: "storm_port_round env (of_nat r) s = Some (b, s1)" and
    2: "storm_ports_round env (map of_nat rs) s1 = Some (bs1, s')" and bs: "bs = b # bs1"
    by (auto split: Option.bind_splits)
  from port_round [OF 1 _ _ assms(4) Cons.prems(4) assms(6)] Cons.prems(2) obtain as where
    p1: "length (bs_ports s1) = length (bs_ports s)" "bs_ctl s1 = bs_ctl s" "own_acts (of_nat p) (bs_acts s1) = own_acts (of_nat p) (bs_acts s) @ as"
    "storm_hist (gulBcStormStat (bs_ctl s)) (of_nat p) (if r = p then seen b else []) (port_of p s) = (port_of p s1, as)" by auto
  from Cons.IH [OF 2] Cons.prems p1(1) obtain as2 where
    p2: "length (bs_ports s') = length (bs_ports s1)" "bs_ctl s' = bs_ctl s1" "length bs1 = length rs" "own_acts (of_nat p) (bs_acts s') = own_acts (of_nat p) (bs_acts s1) @ as2"
    "storm_hist (gulBcStormStat (bs_ctl s1)) (of_nat p) (case map_of (zip rs bs1) p of None \<Rightarrow> [] | Some b \<Rightarrow> seen b) (port_of p s1) = (port_of p s', as2)" by auto
  have "p \<notin> set rs" if "r = p" using Cons.prems(3) that by auto
  then have "map_of (zip rs bs1) p = None" if "r = p" using that p2(3) by (metis map_of_zip_is_None)
  then have "(case map_of (zip (r # rs) bs) p of None \<Rightarrow> [] | Some b \<Rightarrow> seen b) =
    (if r = p then seen b else []) @ (case map_of (zip rs bs1) p of None \<Rightarrow> [] | Some b \<Rightarrow> seen b)" by (auto simp: bs)
  moreover note storm_hist_chain [OF p1(4) p2(5) [unfolded p1(2)]]
  ultimately show ?case using p1(1-3) p2(1-4) bs by auto
qed simp

text \<open>What the rounds saw of a port, in their order.\<close>

definition port_seen :: "nat \<Rightarrow> bool option list list \<Rightarrow> bool list" where
  "port_seen p ls = concat (map (\<lambda>l. seen (l ! (p - 1))) ls)"

lemma thread_round:
  assumes "broad_storm_round env n s = Some (bs, s')" "1 \<le> p" "p \<le> length (bs_ports s)" "p \<le> unat n"
  shows "length (bs_ports s') = length (bs_ports s) \<and> bs_ctl s' = bs_ctl s \<and>
    (\<exists>as. own_acts (of_nat p) (bs_acts s') = own_acts (of_nat p) (bs_acts s) @ as \<and>
       storm_hist (gulBcStormStat (bs_ctl s)) (of_nat p) (seen (bs ! (p - 1))) (port_of p s) = (port_of p s', as))"
proof -
  have n: "unat n \<le> 255" using unsigned_less [where ?'a = nat and w = n] by simp
  note r = ports_round [OF assms(1) [unfolded broad_storm_round_def] _ _ assms(2,3)]
  have "map_of (zip [1..<unat n + 1] bs) p = Some (bs ! (p - 1))" if "length bs = unat n"
  proof -
    have "[1..<unat n + 1] ! (p - 1) = p" by (subst nth_upt) (use assms(2,4) in auto)
    then show ?thesis using map_of_zip_nth [of "[1..<unat n + 1]" bs "p - 1"] that assms(2,4) by simp
  qed
  note map = this
  have "set [1..<unat n + 1] \<subseteq> {1..255}" "p \<le> 255" using n assms(4) by auto
  note rr = r [OF this(1) distinct_upt this(2)]
  then have l: "length bs = unat n" by (metis length_upt diff_add_inverse2)
  show ?thesis using rr unfolding map [OF l] option.case(2) by blast
qed

lemma storm_ports_independent_run:
  assumes "storm_rounds env n k s = Some (ls, s')" "1 \<le> p" "p \<le> unat n" "p \<le> length (bs_ports s)"
  shows "\<exists>as. own_acts (of_nat p) (bs_acts s') = own_acts (of_nat p) (bs_acts s) @ as \<and>
    storm_hist (gulBcStormStat (bs_ctl s)) (of_nat p) (port_seen p ls) (port_of p s) = (port_of p s', as)"
  using assms(1,4)
proof (induction k arbitrary: s ls)
    case (Suc k)
    from Suc.prems(1) obtain l s1 ls1 where 1: "broad_storm_round env n s = Some (l, s1)" and
      2: "storm_rounds env n k s1 = Some (ls1, s')" and ls: "ls = l # ls1" by (auto split: Option.bind_splits)
    from thread_round [OF 1 assms(2) Suc.prems(2) assms(3)] obtain as where
      p1: "length (bs_ports s1) = length (bs_ports s)" "bs_ctl s1 = bs_ctl s" "own_acts (of_nat p) (bs_acts s1) = own_acts (of_nat p) (bs_acts s) @ as"
      "storm_hist (gulBcStormStat (bs_ctl s)) (of_nat p) (seen (l ! (p - 1))) (port_of p s) = (port_of p s1, as)" by auto
    from Suc.IH [OF 2] Suc.prems(2) p1(1) obtain as2 where
      p2: "own_acts (of_nat p) (bs_acts s') = own_acts (of_nat p) (bs_acts s1) @ as2"
      "storm_hist (gulBcStormStat (bs_ctl s1)) (of_nat p) (port_seen p ls1) (port_of p s1) = (port_of p s', as2)" by auto
    from storm_hist_chain [OF p1(4) p2(2) [unfolded p1(2)]] p1(3) p2(1) show ?case by (simp add: ls port_seen_def)
qed (simp add: port_seen_def)

text \<open>
  C25. The ports are independent. In any number of rounds of the thread, whatever the drivers and the clock give, what
  the thread does to a port and what it reports of it depends only on the rounds in which the rate of this port was read and on
  which of them were loud: it is what the rules of a single port give.
\<close>

theorem storm_ports_independent:
  assumes "storm_rounds env n k s = Some (ls, s')" "1 \<le> p" "p \<le> unat n" "p \<le> length (bs_ports s)"
  shows "\<exists>as. own_acts (of_nat p) (bs_acts s') = own_acts (of_nat p) (bs_acts s) @ as \<and>
    storm_hist (gulBcStormStat (bs_ctl s)) (of_nat p) (port_seen p ls) (port_of p s) = (port_of p s', as)"
  using assms by (rule storm_ports_independent_run)

text \<open>Loud rounds and then quiet ones, as many as there are.\<close>

lemma quiet_few:
  assumes "stormy e 0 q" "m < 4"
  shows "\<exists>q'. storm_hist stat lport (replicate m False) q = (q', [])"
proof -
  have "m = 0 \<or> m = 1 \<or> m = 2 \<or> m = 3" using assms(2) by auto
  then have "replicate m False \<in> {[], [False], [False, False], [False, False, False]}" by (auto simp: numeral_2_eq_2 numeral_3_eq_3)
  then show ?thesis using assms(1)
    by (auto simp: react_quiet storm_count_def storm_stop_def stormy_def)
qed

lemma quiet_some:
  assumes "stormy e 0 q"
  shows "\<exists>q'. storm_hist stat lport (replicate m False) q =
      (q', (if 4 \<le> m then [SpeedLimit lport 0] else []) @ (if 7 \<le> m then [BcMsg lport 1 2] else [])) \<and> (7 \<le> m \<longrightarrow> storm_idle q')"
proof -
  consider "m < 4" | "4 \<le> m" "m - 4 \<le> 2" | "7 \<le> m" by linarith
  then show ?thesis
  proof cases
    case 1
    then show ?thesis using quiet_few [OF assms 1] by auto
  next
    case 2
    from quiet4 [OF assms] obtain q1 where q1: "storm_hist stat lport [False, False, False, False] q = (q1, [SpeedLimit lport 0])" "calming 0 q1" by blast
    from quiet_upto6 [OF q1(2) 2(2)] obtain q2 where "storm_hist stat lport (replicate (m - 4) False) q1 = (q2, [])" by blast
    moreover have "replicate m False = [False, False, False, False] @ replicate (m - 4) False"
      using 2(1) by (simp add: numeral_eq_Suc Suc_diff_Suc flip: replicate_Suc)
    ultimately show ?thesis using storm_hist_chain [OF q1(1)] 2 by auto
  next
    case 3
    then show ?thesis using quiet_run [OF assms 3] by auto
  qed
qed

lemma short_replicate: "e + k \<le> 3 \<Longrightarrow> short_bursts e (replicate k True)"
  by (induction k arbitrary: e) auto

lemma burst_quiet:
  assumes "storm_idle q" "k < 4"
  shows "\<exists>q'. storm_hist stat lport (replicate k True @ replicate m False) q = (q', []) \<and> (0 < m \<longrightarrow> storm_idle q')"
proof -
  have "ulBcStormEventCnt q = of_nat 0" "storm_idle (q\<lparr>ulBcStormEventCnt := 0\<rparr>)" "short_bursts 0 (replicate k True)"
    using assms short_replicate [of 0 k] by (simp_all add: storm_idle_def storm_free_def)
  with short_run [of 0 "replicate k True" q stat lport] obtain q1 where
    q1: "storm_hist stat lport (replicate k True) q = (q1, [])" "storm_idle (q1\<lparr>ulBcStormEventCnt := 0\<rparr>)" by auto
  show ?thesis
  proof (cases m)
    case 0
    then show ?thesis using q1(1) by simp
  next
    case (Suc l)
    have "\<exists>q2. storm_react stat lport False q1 = (q2, []) \<and> storm_idle q2"
      using q1(2) by (simp add: react_quiet storm_count_def storm_stop_def storm_idle_def storm_free_def)
    then obtain q2 where q2: "storm_react stat lport False q1 = (q2, [])" "storm_idle q2" by blast
    from quiet_idle [OF q2(2)] obtain q3 where q3: "storm_hist stat lport (replicate l False) q2 = (q3, [])" "storm_idle q3" by blast
    have "storm_hist stat lport (replicate m False) q1 = (q3, [])" using q2(1) q3(1) by (simp add: Suc)
    then show ?thesis using storm_hist_chain [OF q1(1)] q3(2) by auto
  qed
qed

text \<open>
  C24. A storm is reported and ended. On a port without a storm, with the limiting of rates, \<open>k\<close> loud rounds and then \<open>m\<close>
  quiet ones, for all numbers of rounds, have this effect and no other. Nothing is done up to the third loud round; in the fourth
  the rate is limited and a message reports the start; the limit is set again in every fourth loud round, without a message.
  After that nothing is done up to the third quiet round; in the fourth the limit is lifted, and only in the seventh a message
  reports the end. Then the port is without a storm again.
\<close>

theorem storm_reported_and_ended:
  assumes "storm_rounds env n j s = Some (ls, s')" "1 \<le> p" "p \<le> unat n" "p \<le> length (bs_ports s)"
    and "port_seen p ls = replicate k True @ replicate m False"
    and "storm_idle (port_of p s)" "gulBcStormStat (bs_ctl s) \<noteq> 1"
  shows "own_acts (of_nat p) (bs_acts s') = own_acts (of_nat p) (bs_acts s) @
      (if k < 4 then []
       else SpeedLimit (of_nat p) 64 # BcMsg (of_nat p) 1 1 # replicate (k div 4 - 1) (SpeedLimit (of_nat p) 64) @
         (if 4 \<le> m then [SpeedLimit (of_nat p) 0] else []) @ (if 7 \<le> m then [BcMsg (of_nat p) 1 2] else [])) \<and>
    (7 \<le> m \<longrightarrow> storm_idle (port_of p s'))"
proof (cases "k < 4")
  case True
  from burst_quiet [OF assms(6) True, of "gulBcStormStat (bs_ctl s)" "of_nat p" m] obtain q' where
    "storm_hist (gulBcStormStat (bs_ctl s)) (of_nat p) (port_seen p ls) (port_of p s) = (q', [])" "0 < m \<longrightarrow> storm_idle q'"
    by (auto simp: assms(5))
  with storm_ports_independent_run [OF assms(1-4)] True show ?thesis by auto
next
  case False
  then have k: "4 \<le> k" by simp
  have f: "storm_free (port_of p s)" "startCouter (port_of p s) = 0" using assms(6) by (simp_all add: storm_idle_def)
  from loud_run [OF f(1) assms(7) k, of "of_nat p", unfolded f(2)] obtain q e where
    q: "storm_hist (gulBcStormStat (bs_ctl s)) (of_nat p) (replicate k True) (port_of p s) =
        (q, SpeedLimit (of_nat p) 64 # BcMsg (of_nat p) 1 1 # replicate (k div 4 - 1) (SpeedLimit (of_nat p) 64))" "stormy e 0 q" by blast
  from quiet_some [OF q(2), of "gulBcStormStat (bs_ctl s)" "of_nat p" m] obtain q' where
    q': "storm_hist (gulBcStormStat (bs_ctl s)) (of_nat p) (replicate m False) q =
      (q', (if 4 \<le> m then [SpeedLimit (of_nat p) 0] else []) @ (if 7 \<le> m then [BcMsg (of_nat p) 1 2] else []))" "7 \<le> m \<longrightarrow> storm_idle q'" by blast
  from storm_ports_independent_run [OF assms(1-4)] storm_hist_chain [OF q(1) q'(1)] q'(2) False show ?thesis by (auto simp: assms(5))
qed

text \<open>
  Short bursts do nothing. As long as no four rounds in a row are loud, a port without a storm is neither limited nor
  shut, and nothing is reported of it.
\<close>

theorem short_bursts_ignored:
  assumes "storm_rounds env n j s = Some (ls, s')" "1 \<le> p" "p \<le> unat n" "p \<le> length (bs_ports s)"
    and "short_bursts 0 (port_seen p ls)" "storm_idle (port_of p s)"
  shows "own_acts (of_nat p) (bs_acts s') = own_acts (of_nat p) (bs_acts s)"
proof -
  have "ulBcStormEventCnt (port_of p s) = of_nat 0" "storm_idle (port_of p s\<lparr>ulBcStormEventCnt := 0\<rparr>)"
    using assms(6) by (simp_all add: storm_idle_def storm_free_def)
  from short_run [OF assms(5) le0 this] obtain q' where
    "storm_hist (gulBcStormStat (bs_ctl s)) (of_nat p) (port_seen p ls) (port_of p s) = (q', [])" by blast
  with storm_ports_independent_run [OF assms(1-4)] show ?thesis by auto
qed

text \<open>
  The end of a storm can go unreported. When the port gets loud again for four rounds after the limit is lifted and
  before the end is reported, a second start is reported without an end in between.
\<close>

theorem storm_end_unreported:
  assumes "storm_rounds env n j s = Some (ls, s')" "1 \<le> p" "p \<le> unat n" "p \<le> length (bs_ports s)"
    and "port_seen p ls = replicate k True @ replicate m False @ replicate k' True" "4 \<le> k" "4 \<le> m" "m \<le> 6" "4 \<le> k'"
    and "storm_idle (port_of p s)" "gulBcStormStat (bs_ctl s) \<noteq> 1"
  shows "filter (\<lambda>a. act_frames a \<noteq> []) (own_acts (of_nat p) (bs_acts s')) =
    filter (\<lambda>a. act_frames a \<noteq> []) (own_acts (of_nat p) (bs_acts s)) @ [BcMsg (of_nat p) 1 1, BcMsg (of_nat p) 1 1]"
proof -
  let ?st = "gulBcStormStat (bs_ctl s)" and ?l = "of_nat p :: u32"
  have f: "storm_free (port_of p s)" "startCouter (port_of p s) = 0" using assms(10) by (simp_all add: storm_idle_def)
  from loud_run [OF f(1) assms(11,6), of ?l, unfolded f(2)] obtain q e where
    q: "storm_hist ?st ?l (replicate k True) (port_of p s) = (q, SpeedLimit ?l 64 # BcMsg ?l 1 1 # replicate (k div 4 - 1) (SpeedLimit ?l 64))" "stormy e 0 q" by blast
  from quiet4 [OF q(2), of ?st ?l] obtain q1 where q1: "storm_hist ?st ?l [False, False, False, False] q = (q1, [SpeedLimit ?l 0])" "calming 0 q1" by blast
  have "m - 4 \<le> 2" using assms(8) by simp
  from quiet_upto6 [OF q1(2) this, of ?st ?l] obtain q2 where
    q2: "storm_hist ?st ?l (replicate (m - 4) False) q1 = (q2, [])" "calming (of_nat (m - 4)) q2" by blast
  have m: "replicate m False = [False, False, False, False] @ replicate (m - 4) False"
    using assms(7) by (simp add: numeral_eq_Suc Suc_diff_Suc flip: replicate_Suc)
  have "storm_free q2" using q2(2) by (simp add: calming_def)
  from loud_run [OF this assms(11,9), of ?l] obtain q3 where
    q3: "storm_hist ?st ?l (replicate k' True) q2 = (q3, SpeedLimit ?l 64 # BcMsg ?l 1 1 # replicate (k' div 4 - 1) (SpeedLimit ?l 64))" by blast
  have fr: "act_frames (BcMsg ?l 1 1) \<noteq> []" "\<And>a b. act_frames (SpeedLimit a b) = []"
    by (simp_all add: act_frames_def gwd_onu_sw_bcstorm_msg_send_def CommOnuMsgSend_def GwCommOamHeadBuild_def GwOamSendOpcodeCheck_def OAM_DATA_LEN_def sizeof_GWTT_OAM_HEADER_def split: prod.split option.split)
  from storm_ports_independent_run [OF assms(1-4)] storm_hist_chain [OF q(1) storm_hist_chain [OF storm_hist_chain [OF q1(1) q2(1), folded m] q3]] show ?thesis
    by (auto simp: assms(5) fr filter_replicate)
qed

section \<open>How exact the rate is\<close>

definition f32_val :: "f32 \<Rightarrow> real" where "f32_val x = real (fst x) * 2 powi snd x"

lemma f32_up_result:
  assumes "f32_up n d e = (d', e')" "0 < d"
  shows "n < 2 ^ 24 * d' \<and> real d' * 2 powi e = real d * 2 powi e' \<and> (d' = d \<or> 2 ^ 23 * d' \<le> n) \<and> 0 < d'"
  using assms
proof (induction n d e arbitrary: d' e' rule: f32_up.induct)
  case (1 n d e)
  show ?case
  proof (cases "2 ^ 24 * d \<le> n")
    case True
    then have u: "f32_up n (2 * d) (e + 1) = (d', e')" using 1(2,3) by (subst (asm) f32_up.simps) simp
    from 1(1) [OF _ u] 1(3) True have i: "n < 2 ^ 24 * d'" "real d' * 2 powi (e + 1) = real (2 * d) * 2 powi e'" "d' = 2 * d \<or> 2 ^ 23 * d' \<le> n" "0 < d'" by auto
    have "real d' * 2 powi e = real d * 2 powi e'" using i(2) by (simp add: power_int_add)
    then show ?thesis using i True by auto
  next
    case False
    then show ?thesis using 1(2,3) by (subst (asm) f32_up.simps) auto
  qed
qed

lemma f32_down_result:
  assumes "f32_down n d e = (n', e')" "0 < n" "n < 2 ^ 24 * d"
  shows "2 ^ 23 * d \<le> n' \<and> n' < 2 ^ 24 * d \<and> real n' * 2 powi e' = real n * 2 powi e"
  using assms
proof (induction n d e arbitrary: n' e' rule: f32_down.induct)
  case (1 n d e)
  show ?case
  proof (cases "n < 2 ^ 23 * d")
    case True
    then have u: "f32_down (2 * n) d (e - 1) = (n', e')" using 1(2,3) by (subst (asm) f32_down.simps) simp
    from 1(1) [OF _ u] 1(3) True have i: "2 ^ 23 * d \<le> n'" "n' < 2 ^ 24 * d" "real n' * 2 powi e' = real (2 * n) * 2 powi (e - 1)" by auto
    have "real n' * 2 powi e' = real n * 2 powi e" using i(3) by (simp add: power_int_diff)
    then show ?thesis using i by simp
  next
    case False
    then show ?thesis using 1(2-4) by (subst (asm) f32_down.simps) auto
  qed
qed

lemma f32_nearest_error: "0 < d \<Longrightarrow> \<bar>real (f32_nearest n d) - real n / real d\<bar> \<le> 1 / 2"
proof -
  assume d: "0 < d"
  let ?q = "n div d" and ?r = "n mod d"
  have n: "real n = real d * real ?q + real ?r" by (simp flip: of_nat_mult of_nat_add)
  then have f: "real n / real d = real ?q + real ?r / real d" using d by (simp add: field_simps)
  have r: "real ?r / real d < 1" "0 \<le> real ?r / real d" using d by simp_all
  show ?thesis
  proof (cases "d < 2 * ?r \<or> d = 2 * ?r \<and> odd ?q")
    case True
    then have "real d \<le> 2 * real ?r" by linarith
    then have "1 / 2 \<le> real ?r / real d" using d by (simp add: field_simps)
    then show ?thesis using True r f by (simp add: f32_nearest_def Let_def)
  next
    case False
    then have "2 * real ?r \<le> real d" by linarith
    then have "real ?r / real d \<le> 1 / 2" using d by (simp add: field_simps)
    moreover have "f32_nearest n d = ?q" using False by (auto simp: f32_nearest_def Let_def)
    ultimately show ?thesis using r f by simp
  qed
qed

text \<open>Each operation is exact up to a factor near 1.\<close>

definition near :: "real \<Rightarrow> bool" where "near x \<longleftrightarrow> \<bar>x - 1\<bar> \<le> 1 / 2 ^ 24"

lemma f32_round_error:
  assumes "0 < d"
  shows "\<exists>u. near u \<and> f32_val (f32_round n d) = real n / real d * u"
proof (cases "n = 0")
  case True
  have "f32_round 0 d = (0, 0)" using assms by (simp add: f32_round_def f32_up.simps f32_down.simps f32_nearest_def)
  then show ?thesis using True by (intro exI [of _ 1]) (simp add: near_def f32_val_def)
next
  case False
  obtain d' e1 where u: "f32_up n d 0 = (d', e1)" by fastforce
  obtain n' e where v: "f32_down n d' e1 = (n', e)" by fastforce
  from f32_up_result [OF u assms] have u': "n < 2 ^ 24 * d'" "real d' = real d * 2 powi e1" "0 < d'" by auto
  from f32_down_result [OF v _ u'(1)] False have v': "2 ^ 23 * d' \<le> n'" "real n' * 2 powi e = real n * 2 powi e1" by auto
  have q: "real n / real d = real n' / real d' * 2 powi e" using u'(2) v'(2) assms by (simp add: field_simps)
  have n': "2 ^ 23 \<le> real n' / real d'" using v'(1) u'(3) by (simp add: field_simps flip: of_nat_mult of_nat_power)
  define y where "y = real n' / real d'"
  define u where "u = real (f32_nearest n' d') / y"
  have y1: "2 ^ 23 \<le> y" using n' by (simp only: y_def)
  then have "y \<noteq> 0" by auto
  with y1 have y: "2 ^ 23 \<le> y" "y \<noteq> 0" by auto
  have "real (f32_nearest n' d') = y * u" using y(2) by (simp add: u_def)
  moreover have "near u"
  proof -
    have "u - 1 = (real (f32_nearest n' d') - y) / y" using y(2) by (simp add: u_def diff_divide_distrib)
    then have "\<bar>u - 1\<bar> = \<bar>real (f32_nearest n' d') - y\<bar> / y" using y(1) by (simp add: abs_divide)
    also have "\<dots> \<le> (1 / 2) / 2 ^ 23" by (rule frac_le) (use f32_nearest_error [OF u'(3), of n', folded y_def] y(1) in auto)
    finally show ?thesis by (simp add: near_def)
  qed
  moreover have "f32_round n d = (f32_nearest n' d', e)" by (simp add: f32_round_def u v)
  ultimately show ?thesis unfolding q y_def [symmetric] f32_val_def by (intro exI [of _ u]) simp
qed

lemma f32_of_nat_error: "\<exists>u. near u \<and> f32_val (f32_of_nat n) = real n * u"
  using f32_round_error [of 1 n] by (simp add: f32_of_nat_def)

lemma f32_mul_error: "\<exists>u. near u \<and> f32_val (f32_mul x y) = f32_val x * f32_val y * u"
proof -
  obtain m e where r: "f32_round (fst x * fst y) 1 = (m, e)" by fastforce
  from f32_round_error [OF zero_less_one, of "fst x * fst y"] obtain u where u: "near u" "real m * 2 powi e = real (fst x * fst y) * u"
    unfolding r f32_val_def by auto
  have "f32_val (f32_mul x y) = real m * 2 powi e * 2 powi snd x * 2 powi snd y" by (simp add: f32_mul_def r [unfolded One_nat_def] f32_val_def power_int_add)
  then show ?thesis using u by (intro exI [of _ u]) (simp add: f32_val_def)
qed

lemma f32_div_error: "0 < fst y \<Longrightarrow> \<exists>u. near u \<and> f32_val (f32_div x y) = f32_val x / f32_val y * u"
proof -
  assume y: "0 < fst y"
  obtain m e where r: "f32_round (fst x) (fst y) = (m, e)" by fastforce
  from f32_round_error [OF y, of "fst x"] obtain u where u: "near u" "real m * 2 powi e = real (fst x) / real (fst y) * u" by (auto simp: r f32_val_def)
  have "f32_val (f32_div x y) = real m * 2 powi e * 2 powi snd x / 2 powi snd y" by (simp add: f32_div_def r f32_val_def power_int_add power_int_diff)
  then show ?thesis using u by (intro exI [of _ u]) (simp add: f32_val_def)
qed

lemma f32_trunc_floor: "real (f32_trunc x) \<le> f32_val x \<and> f32_val x < real (f32_trunc x) + 1"
proof (cases "0 \<le> snd x")
  case True
  then have "(2 :: real) powi snd x = 2 ^ nat (snd x)" by (simp add: power_int_def)
  then show ?thesis using True by (simp add: f32_trunc_def f32_val_def)
next
  case False
  define k where "k = nat (- snd x)"
  have v: "f32_val x = real (fst x) / 2 ^ k" using False by (simp add: f32_val_def power_int_def k_def field_simps)
  have "f32_trunc x = fst x div 2 ^ k" using False by (simp add: f32_trunc_def k_def)
  moreover have "\<lfloor>real (fst x) / real (2 ^ k)\<rfloor> = int (fst x div 2 ^ k)" by (rule floor_divide_of_nat_eq)
  then have "real (fst x div 2 ^ k) \<le> real (fst x) / 2 ^ k \<and> real (fst x) / 2 ^ k < real (fst x div 2 ^ k) + 1" by (simp add: floor_eq_iff)
  ultimately show ?thesis using v by simp
qed

lemma near_product:
  assumes "near u1" "near u2" "near u3" "near u4" "near u5"
  shows "\<bar>u1 * u3 * u4 * u5 / u2 - 1\<bar> \<le> 1 / 2 ^ 21"
proof -
  let ?e = "1 / 2 ^ 24 :: real"
  have b: "1 - ?e \<le> u \<and> u \<le> 1 + ?e" if "near u" for u using that unfolding near_def abs_le_iff by linarith
  have p: "0 \<le> u" if "near u" for u using b [OF that] by simp
  have "u1 * u3 * u4 * u5 \<le> (1 + ?e) * (1 + ?e) * (1 + ?e) * (1 + ?e)"
    by (intro mult_mono) (use b p assms in auto)
  also have "\<dots> \<le> (1 + 1 / 2 ^ 21) * (1 - ?e)" by (simp add: power_divide)
  also have "\<dots> \<le> (1 + 1 / 2 ^ 21) * u2" using b [OF assms(2)] by (intro mult_left_mono) auto
  finally have u: "u1 * u3 * u4 * u5 \<le> (1 + 1 / 2 ^ 21) * u2" .
  have "(1 - 1 / 2 ^ 21) * u2 \<le> (1 - 1 / 2 ^ 21) * (1 + ?e)" using b [OF assms(2)] by (intro mult_left_mono) auto
  also have "\<dots> \<le> (1 - ?e) * (1 - ?e) * (1 - ?e) * (1 - ?e)" by (simp add: power_divide)
  also have "\<dots> \<le> u1 * u3 * u4 * u5" by (intro mult_mono) (use b p assms in auto)
  finally have l: "(1 - 1 / 2 ^ 21) * u2 \<le> u1 * u3 * u4 * u5" .
  have "0 < u2" using b [OF assms(2)] by (simp add: power_divide)
  then have "u1 * u3 * u4 * u5 / u2 \<le> 1 + 1 / 2 ^ 21" "1 - 1 / 2 ^ 21 \<le> u1 * u3 * u4 * u5 / u2" using u l by (simp_all only: pos_divide_le_eq pos_le_divide_eq)
  then show ?thesis by linarith
qed

lemma storm_rate_error:
  assumes "storm_rate n t k = Some r"
  shows "\<bar>real (unat r) - real k * real (unat n) / real (unat t)\<bar> \<le> 1 + real k * real (unat n) / real (unat t) / 2 ^ 21"
proof -
  let ?n = "f32_of_nat (unat n)" and ?t = "f32_of_nat (unat t)" and ?k = "f32_of_nat k"
  let ?v = "f32_mul (f32_div ?n ?t) ?k" and ?x = "real k * real (unat n) / real (unat t)"
  have t: "0 < unat t" using assms by (auto simp: storm_rate_def word_unat_eq_iff split: if_splits)
  have r: "unat r = f32_trunc ?v" using assms by (auto simp: storm_rate_def Let_def unat_of_nat take_bit_nat_eq_self split: if_splits)
  from f32_of_nat_error obtain u1 where u1: "near u1" "f32_val ?n = real (unat n) * u1" by blast
  from f32_of_nat_error obtain u2 where u2: "near u2" "f32_val ?t = real (unat t) * u2" by blast
  have "u2 \<noteq> 0" using u2(1) by (auto simp: near_def)
  moreover have "real (unat t) \<noteq> 0" using t by linarith
  ultimately have "f32_val ?t \<noteq> 0" unfolding u2(2) by (rule no_zero_divisors [rotated])
  then have "0 < fst ?t" by (auto simp: f32_val_def intro!: gr0I)
  from f32_div_error [OF this, of ?n] obtain u3 where u3: "near u3" "f32_val (f32_div ?n ?t) = f32_val ?n / f32_val ?t * u3" by blast
  from f32_of_nat_error obtain u4 where u4: "near u4" "f32_val ?k = real k * u4" by blast
  from f32_mul_error [of "f32_div ?n ?t" ?k] obtain u5 where u5: "near u5" "f32_val ?v = f32_val (f32_div ?n ?t) * f32_val ?k * u5" by blast
  have v: "f32_val ?v = ?x * (u1 * u3 * u4 * u5 / u2)" unfolding u5(2) u4(2) u3(2) u1(2) u2(2) by simp
  have x: "0 \<le> ?x" by (intro divide_nonneg_nonneg mult_nonneg_nonneg of_nat_0_le_iff)
  have "\<bar>f32_val ?v - ?x\<bar> = ?x * \<bar>u1 * u3 * u4 * u5 / u2 - 1\<bar>"
  proof -
    have "f32_val ?v - ?x = ?x * (u1 * u3 * u4 * u5 / u2 - 1)" unfolding v by (simp add: algebra_simps)
    moreover have "\<bar>y * z\<bar> = y * \<bar>z\<bar>" if "0 \<le> y" for y z :: real using that by (simp add: abs_mult)
    ultimately show ?thesis using x by metis
  qed
  also have "\<dots> \<le> ?x * (1 / 2 ^ 21)" by (intro mult_left_mono near_product u1 u2 u3 u4 u5 x)
  finally have "\<bar>f32_val ?v - ?x\<bar> \<le> ?x / 2 ^ 21" by simp
  then show ?thesis using f32_trunc_floor [of ?v] unfolding r by linarith
qed

text \<open>
  C40. The rate that is compared with the threshold. Up to the rounding of the arithmetic, it is a hundred times the number of
  broadcast packets that came in per tick of the clock since the round before. When the counter went back, it is ten
  times too high: a thousand times the number of packets, counted as if the counter had 32 bits.
\<close>

theorem storm_rate_bounds:
  assumes "gwd_port_rate_update env port q w = Some (q', w')"
  shows "let new = gulCurrentpktCntIn q'; old = gulCurrentpktCntIn q; t = real (unat (storm_ticks (gulCurrentTick4PortMon q') (gulLastTick4PortMon q)));
             x = (if new \<ge> old then 100 * real (unat (new - old)) / t else 1000 * real (unat (0xFFFFFFFF - (old - new))) / t)
         in \<bar>real (unat (gulOctRateIn q')) - x\<bar> \<le> 1 + x / 2 ^ 21"
proof -
  obtain rx tx cur where c: "counter_rate rx (gulCurrentpktCntIn q) (storm_ticks cur (gulLastTick4PortMon q)) = Some (gulOctRateIn q')"
    "gulCurrentpktCntIn q' = rx" "gulCurrentTick4PortMon q' = cur"
    using assms by (auto simp: gwd_port_rate_update_def Let_def split: prod.splits if_splits Option.bind_splits)
  then show ?thesis unfolding c(2,3) Let_def
    by (auto simp: counter_rate_def dest!: storm_rate_error split: if_splits)
qed

section \<open>On a test bench\<close>

text \<open>One port that is up; the world is the number of the round and the counter, \<open>loud\<close> the rounds with a hundred thousand packets.\<close>

definition bench_clock :: "nat \<Rightarrow> u32" where "bench_clock i = of_nat (1000 * i)"

definition storm_bench :: "nat list \<Rightarrow> (nat \<times> u64) storm_env" where
  "storm_bench loud = \<lparr>se_malloc = (\<lambda>w. (True, w)), se_oper = (\<lambda>l (i, c). ((0, 1), (Suc i, if i \<in> set loud then c + 100000 else c))),
     se_stat = (\<lambda>p (i, c). ((0, c, 0), (i, c))), se_time = (\<lambda>old (i, c). (bench_clock i, (i, c))), se_act = (\<lambda>a w. w)\<rparr>"

definition storm_bench_start :: "(nat \<times> u64) storm_sys" where
  "storm_bench_start = \<lparr>bs_ctl = gw_broadcast_storm_init, bs_ports = replicate BC_PORTS storm_port_zero, bs_acts = [], bs_world = (0, 0)\<rparr>"

lemma bench_rates: "storm_rate 100000 1000 100 = Some 10000" "storm_rate 0 1000 100 = Some 0"
  by (simp_all add: storm_rate_def f32_of_nat_def f32_div_def f32_mul_def f32_round_def f32_up.simps f32_down.simps f32_nearest_def f32_trunc_def Let_def)

definition bench_at :: "nat \<Rightarrow> (nat \<times> u64) storm_sys \<Rightarrow> bool" where
  "bench_at i s \<longleftrightarrow> bs_ctl s = gw_broadcast_storm_init \<and> bs_ports s \<noteq> [] \<and> fst (bs_world s) = i \<and>
     gulLastTick4PortMon (bs_ports s ! 0) = bench_clock i \<and> gulCurrentpktCntIn (bs_ports s ! 0) = snd (bs_world s) \<and>
     gulCurrentpktCntOut (bs_ports s ! 0) = 0 \<and> snd (bs_world s) \<le> of_nat (100000 * i)"

lemma bench_ticks: "i < 1000 \<Longrightarrow> storm_ticks (bench_clock (Suc i)) (bench_clock i) = 1000"
proof -
  assume i: "i < 1000"
  have "1000 * Suc i < 4294967296" "1000 * i < 4294967296" using i by simp_all
  note u = this [THEN unat_of_nat_u32]
  have "bench_clock i < bench_clock (Suc i)" unfolding word_less_nat_alt bench_clock_def u by simp
  moreover have "bench_clock (Suc i) - bench_clock i = 1000" by (simp add: bench_clock_def algebra_simps)
  ultimately show ?thesis by (simp add: storm_ticks_def)
qed

lemma bench_counter:
  assumes "i < 1000" "c \<le> (of_nat (100000 * i) :: u64)"
  shows "c \<le> c + 100000" "c + 100000 \<le> of_nat (100000 * Suc i)" "c \<le> of_nat (100000 * Suc i)"
proof -
  have e: "unat (of_nat n :: u64) = n" if "n < 2 ^ 64" for n using that by (simp add: unat_of_nat take_bit_nat_eq_self)
  have "100000 * i < 2 ^ 64" "100000 * Suc i < 2 ^ 64" using assms(1) by simp_all
  note u = this [THEN e]
  have c: "unat c \<le> 100000 * i" using assms(2) unfolding word_le_nat_alt u .
  have p: "unat (c + 100000) = unat c + 100000" using c assms(1) by (simp add: unat_word_ariths(1))
  show "c \<le> c + 100000" "c + 100000 \<le> of_nat (100000 * Suc i)" "c \<le> of_nat (100000 * Suc i)"
    unfolding word_le_nat_alt u p using c by simp_all
qed

lemma bench_round:
  assumes "bench_at i s" "i < 1000"
  shows "\<exists>s'. broad_storm_round (storm_bench loud) 1 s = Some ([Some (i \<in> set loud)], s') \<and> bench_at (Suc i) s' \<and> length (bs_ports s') = length (bs_ports s)"
proof -
  define q where "q = bs_ports s ! 0"
  define c where "c = snd (bs_world s)"
  define c' where "c' = (if i \<in> set loud then c + 100000 else c)"
  have w: "bs_world s = (i, c)" and q: "gulLastTick4PortMon q = bench_clock i" "gulCurrentpktCntIn q = c" "gulCurrentpktCntOut q = 0" "bs_ports s \<noteq> []"
    "bs_ctl s = gw_broadcast_storm_init" and c: "c \<le> of_nat (100000 * i)"
    using assms(1) by (auto simp: bench_at_def q_def c_def)
  have r: "counter_rate c' c 1000 = Some (if i \<in> set loud then 10000 else 0)" "counter_rate 0 0 1000 = Some 0"
    using bench_counter(1) [OF assms(2) c] by (simp_all add: counter_rate_def c'_def bench_rates)
  define q1 where "q1 = q\<lparr>gulCurrentTick4PortMon := bench_clock (Suc i), gulCurrentpktCntIn := c', gulOctRateIn := (if i \<in> set loud then 10000 else 0),
    gulCurrentpktCntOut := 0, gulOctRateOut := 0, gulLastTick4PortMon := bench_clock (Suc i)\<rparr>"
  have u: "gwd_port_rate_update (storm_bench loud) 0 q (Suc i, c') = Some (q1, (Suc i, c'))"
    using r q by (simp add: gwd_port_rate_update_def storm_bench_def bench_ticks [OF assms(2)] Let_def GW_OK_def q1_def)
  obtain q2 as where a: "storm_react 0 1 (i \<in> set loud) q1 = (q2, as)" by fastforce
  have f: "fold (se_act (storm_bench loud)) as (Suc i, c') = (Suc i, c')" by (induction as) (simp_all add: storm_bench_def)
  have q2: "gulLastTick4PortMon q2 = bench_clock (Suc i)" "gulCurrentpktCntIn q2 = c'" "gulCurrentpktCntOut q2 = 0"
    using a by (auto simp: storm_defs Let_def q1_def split: if_splits)
  have p: "storm_port_round (storm_bench loud) 1 s = Some (Some (i \<in> set loud), s\<lparr>bs_ports := (bs_ports s)[0 := q2], bs_acts := bs_acts s @ as, bs_world := (Suc i, c')\<rparr>)"
  proof -
    have o: "se_oper (storm_bench loud) 1 (i, c) = ((0, 1), (Suc i, c'))" by (simp add: storm_bench_def c'_def)
    have l: "gulOctRateIn q1 > 1000 \<longleftrightarrow> i \<in> set loud" by (simp add: q1_def)
    show ?thesis using u q(4,5) a f l
      by (simp add: storm_port_round_def gwd_logical_to_physical_def w o q_def [symmetric] Let_def gw_broadcast_storm_init_def)
  qed
  then have "broad_storm_round (storm_bench loud) 1 s = Some ([Some (i \<in> set loud)], s\<lparr>bs_ports := (bs_ports s)[0 := q2], bs_acts := bs_acts s @ as, bs_world := (Suc i, c')\<rparr>)"
    by (simp add: broad_storm_round_def)
  moreover have "c' \<le> of_nat (100000 * Suc i)" using bench_counter(2,3) [OF assms(2) c] by (simp add: c'_def del: of_nat_mult of_nat_Suc mult_Suc_right)
  ultimately show ?thesis using q2 q(4,5) by (simp add: bench_at_def del: of_nat_mult of_nat_Suc mult_Suc_right)
qed

lemma bench_rounds:
  assumes "bench_at i s" "i + k \<le> 1000"
  shows "\<exists>s'. storm_rounds (storm_bench loud) 1 k s = Some (map (\<lambda>j. [Some (j \<in> set loud)]) [i..<i + k], s')"
  using assms
proof (induction k arbitrary: i s)
  case (Suc k)
  then have "i < 1000" by simp
  from bench_round [OF Suc.prems(1) this] obtain s1 where s1: "broad_storm_round (storm_bench loud) 1 s = Some ([Some (i \<in> set loud)], s1)" "bench_at (Suc i) s1" by blast
  from Suc.IH [OF s1(2)] Suc.prems(2) obtain s' where "storm_rounds (storm_bench loud) 1 k s1 = Some (map (\<lambda>j. [Some (j \<in> set loud)]) [Suc i..<Suc i + k], s')" by auto
  moreover have "[i..<i + Suc k] = i # [Suc i..<Suc i + k]" by (simp add: upt_conv_Cons)
  ultimately show ?case by (simp add: s1(1))
qed simp

lemma storm_bench_start:
  "k \<le> 1000 \<Longrightarrow> \<exists>ls s'. storm_rounds (storm_bench loud) 1 k storm_bench_start = Some (ls, s') \<and> port_seen 1 ls = map (\<lambda>j. j \<in> set loud) [0..<k]"
proof -
  assume k: "k \<le> 1000"
  have "bench_at 0 storm_bench_start"
    by (simp add: bench_at_def storm_bench_start_def BC_PORTS_def storm_port_zero_def bench_clock_def)
  from bench_rounds [OF this, of k loud] k obtain s' where "storm_rounds (storm_bench loud) 1 k storm_bench_start = Some (map (\<lambda>j. [Some (j \<in> set loud)]) [0..<0 + k], s')" by auto
  moreover have "concat (map (\<lambda>l. seen (l ! 0)) (map (\<lambda>j. [Some (j \<in> A)]) xs)) = map (\<lambda>j. j \<in> A) xs" for A :: "nat set" and xs
    by (induction xs) auto
  ultimately show ?thesis by (fastforce simp: port_seen_def)
qed

theorem storm_reported_and_ended_witness:
  "\<exists>ls s'. storm_rounds (storm_bench [0..<8]) 1 20 storm_bench_start = Some (ls, s') \<and>
    own_acts 1 (bs_acts s') = [SpeedLimit 1 64, BcMsg 1 1 1, SpeedLimit 1 64, SpeedLimit 1 0, BcMsg 1 1 2]"
proof -
  from storm_bench_start [of 20 "[0..<8]"] obtain ls s' where
    r: "storm_rounds (storm_bench [0..<8]) 1 20 storm_bench_start = Some (ls, s')" "port_seen 1 ls = replicate 8 True @ replicate 12 False"
    by (auto simp: numeral_eq_Suc)
  from storm_reported_and_ended [OF r(1) _ _ _ r(2)] r(1) show ?thesis
    by (simp add: storm_bench_start_def BC_PORTS_def port_of_def storm_idle_def storm_free_def storm_port_zero_def gw_broadcast_storm_init_def own_acts_def)
qed

theorem short_bursts_ignored_witness:
  "\<exists>ls s'. storm_rounds (storm_bench [0, 1, 2, 4, 5, 6]) 1 8 storm_bench_start = Some (ls, s') \<and> own_acts 1 (bs_acts s') = []"
proof -
  from storm_bench_start [of 8 "[0, 1, 2, 4, 5, 6]"] obtain ls s' where
    r: "storm_rounds (storm_bench [0, 1, 2, 4, 5, 6]) 1 8 storm_bench_start = Some (ls, s')" "port_seen 1 ls = [True, True, True, False, True, True, True, False]"
    by (auto simp: numeral_eq_Suc)
  from short_bursts_ignored [OF r(1), where p = 1] r show ?thesis
    by (simp add: storm_bench_start_def BC_PORTS_def port_of_def storm_idle_def storm_free_def storm_port_zero_def own_acts_def)
qed

theorem storm_end_unreported_witness:
  "\<exists>ls s'. storm_rounds (storm_bench [0, 1, 2, 3, 8, 9, 10, 11]) 1 12 storm_bench_start = Some (ls, s') \<and>
    filter (\<lambda>a. act_frames a \<noteq> []) (own_acts 1 (bs_acts s')) = [BcMsg 1 1 1, BcMsg 1 1 1]"
proof -
  from storm_bench_start [of 12 "[0, 1, 2, 3, 8, 9, 10, 11]"] obtain ls s' where
    r: "storm_rounds (storm_bench [0, 1, 2, 3, 8, 9, 10, 11]) 1 12 storm_bench_start = Some (ls, s')"
      "port_seen 1 ls = replicate 4 True @ replicate 4 False @ replicate 4 True"
    by (auto simp: numeral_eq_Suc)
  from storm_end_unreported [OF r(1) _ _ _ r(2)] r(1) show ?thesis
    by (simp add: storm_bench_start_def BC_PORTS_def port_of_def storm_idle_def storm_free_def storm_port_zero_def gw_broadcast_storm_init_def own_acts_def)
qed

theorem storm_ports_independent_witness:
  "\<exists>ls s'. storm_rounds (storm_bench [0, 1, 2, 3]) 1 4 storm_bench_start = Some (ls, s') \<and>
    storm_hist 0 1 [True, True, True, True] (port_of 1 storm_bench_start) = (port_of 1 s', own_acts 1 (bs_acts s'))"
proof -
  from storm_bench_start [of 4 "[0, 1, 2, 3]"] obtain ls s' where
    r: "storm_rounds (storm_bench [0, 1, 2, 3]) 1 4 storm_bench_start = Some (ls, s')" "port_seen 1 ls = [True, True, True, True]"
    by (auto simp: numeral_eq_Suc)
  have "bs_acts storm_bench_start = []" "gulBcStormStat (bs_ctl storm_bench_start) = 0" "1 \<le> length (bs_ports storm_bench_start)"
    by (simp_all add: storm_bench_start_def gw_broadcast_storm_init_def BC_PORTS_def)
  with storm_ports_independent [OF r(1), where p = 1] r show ?thesis by (simp add: own_acts_def)
qed

theorem storm_rate_bounds_witness:
  "\<exists>q' w'. gwd_port_rate_update (storm_bench []) 0 storm_port_zero (1, 5) = Some (q', w') \<and>
    \<bar>real (unat (gulOctRateIn q')) - 500 / 1000\<bar> \<le> 1 + (500 / 1000) / 2 ^ 21"
proof -
  have "\<exists>q'. gwd_port_rate_update (storm_bench []) 0 storm_port_zero (1, 5) = Some (q', (1, 5)) \<and> gulCurrentpktCntIn q' = 5 \<and> gulCurrentTick4PortMon q' = 1000"
    by (simp add: gwd_port_rate_update_def storm_bench_def bench_clock_def storm_port_zero_def GW_OK_def storm_ticks_def counter_rate_def
        storm_rate_def f32_of_nat_def f32_div_def f32_mul_def f32_round_def f32_up.simps f32_down.simps f32_nearest_def f32_trunc_def Let_def)
  then obtain q' where q: "gwd_port_rate_update (storm_bench []) 0 storm_port_zero (1, 5) = Some (q', (1, 5))" "gulCurrentpktCntIn q' = 5" "gulCurrentTick4PortMon q' = 1000" by blast
  from storm_rate_bounds [OF q(1)] q show ?thesis by (simp add: Let_def storm_port_zero_def storm_ticks_def)
qed

end
