(* ===== verification/Cli_Parser.thy ===== *)
theory Cli_Parser
  imports Prelude
begin

text \<open>
  The command line of \<^verbatim>\<open>cli_lib/cli_parser.c\<close> and \<^verbatim>\<open>cli_lib/cli_common.c\<close>: the tree of commands, the splitting of a line into
  words, the search for the command of the words by abbreviations, modes and privileges, the completions and the
  history. The filters of the code are left out: its array of filters is never filled.
\<close>

section \<open>Strings\<close>

text \<open>A C string is the list of its characters, without the null character.\<close>

definition tolower :: "char \<Rightarrow> char" where
  "tolower c = (let n = of_char c :: nat in if 65 \<le> n \<and> n \<le> 90 then char_of (n + 32) else c)"

definition isspace :: "char \<Rightarrow> bool" where
  "isspace c \<longleftrightarrow> c = CHR '' '' \<or> (let n = of_char c :: nat in 9 \<le> n \<and> n \<le> 13)"

text \<open>\<^verbatim>\<open>strncasecmp(s, t, n) == 0\<close>\<close>

fun strncaseeq :: "nat \<Rightarrow> string \<Rightarrow> string \<Rightarrow> bool" where
  "strncaseeq 0 s t \<longleftrightarrow> True"
| "strncaseeq (Suc n) [] [] \<longleftrightarrow> True"
| "strncaseeq (Suc n) (a # s) (b # t) \<longleftrightarrow> tolower a = tolower b \<and> strncaseeq n s t"
| "strncaseeq (Suc n) _ _ \<longleftrightarrow> False"

abbreviation CLI_OK :: int where "CLI_OK \<equiv> 0"
abbreviation CLI_ERROR :: int where "CLI_ERROR \<equiv> -1"
abbreviation CLI_QUIT :: int where "CLI_QUIT \<equiv> -2"
abbreviation CLI_ERROR_ARG :: int where "CLI_ERROR_ARG \<equiv> -3"
abbreviation PRIVILEGE_UNPRIVILEGED :: int where "PRIVILEGE_UNPRIVILEGED \<equiv> 0"
abbreviation PRIVILEGE_PRIVILEGED :: int where "PRIVILEGE_PRIVILEGED \<equiv> 15"
abbreviation MODE_ANY :: int where "MODE_ANY \<equiv> -1"
abbreviation MODE_EXEC :: int where "MODE_EXEC \<equiv> 0"
abbreviation MODE_CONFIG :: int where "MODE_CONFIG \<equiv> 1"
abbreviation MODE_SWITCH :: int where "MODE_SWITCH \<equiv> 2"
abbreviation MODE_DEBUG :: int where "MODE_DEBUG \<equiv> 11"

definition MAX_HISTORY :: nat where "MAX_HISTORY = 10"
definition MAX_WORDS_NUM :: nat where "MAX_WORDS_NUM = 32"
definition MAX_WORDS_LEN :: nat where "MAX_WORDS_LEN = 192"
definition MAX_LINE_LENTH :: nat where "MAX_LINE_LENTH = 256"
definition GW_MAX_CLI_COMMAND :: nat where "GW_MAX_CLI_COMMAND = 256"

section \<open>State\<close>

text \<open>\<open>cl_enable\<close>: an enable password or callback is set. \<open>cl_asks\<close>: the state is \<^verbatim>\<open>STATE_ENABLE_PASSWORD\<close>.\<close>

record 'w cli_def =
  cl_privilege :: int
  cl_mode :: int
  cl_modestring :: "string option"
  cl_promptchar :: string
  cl_history :: "string list"
  cl_enable :: bool
  cl_asks :: bool
  cl_world :: 'w

text \<open>A callback gets the name of its command and the arguments. \<open>None\<close>: it reads outside of its memory.\<close>

type_synonym 'w cli_fun = "string option \<Rightarrow> string list \<Rightarrow> 'w cli_def \<Rightarrow> (int \<times> 'w cli_def) option"

text \<open>A command with its children, which the code links by pointers to the next sibling, the first child and the parent.\<close>

datatype 'w cli_command =
  Command (cc_command: string) (cc_callback: "'w cli_fun option") (cc_unique_len: nat) (cc_privilege: int) (cc_mode: int)
    (cc_children: "'w cli_command list")

section \<open>The tree of commands\<close>

fun common_prefix :: "string \<Rightarrow> string \<Rightarrow> nat" where
  "common_prefix (a # s) (b # t) = (if a = b then Suc (common_prefix s t) else 0)"
| "common_prefix _ _ = 0"

text \<open>The length from which an abbreviation of the name at \<open>i\<close> is none of another name.\<close>

definition unique_len :: "string list \<Rightarrow> nat \<Rightarrow> nat" where
  "unique_len ns i = fold (\<lambda>j l. if j = i then l else max l (1 + common_prefix (ns ! i) (ns ! j))) [0..<length ns] 1"

fun set_unique_len :: "nat \<Rightarrow> 'w cli_command \<Rightarrow> 'w cli_command" where
  "set_unique_len u (Command n f _ p m cs) = Command n f u p m cs"

fun build_children :: "'w cli_command \<Rightarrow> 'w cli_command" where
  "build_children (Command n f u p m cs) =
     Command n f u p m (map (\<lambda>(i, c). set_unique_len (unique_len (map cc_command cs) i) c) (enumerate 0 (map build_children cs)))"

definition gw_cli_build_shortest :: "'w cli_command list \<Rightarrow> 'w cli_command list" where
  "gw_cli_build_shortest cs =
     map (\<lambda>(i, c). set_unique_len (unique_len (map cc_command cs) i) c) (enumerate 0 (map build_children cs))"

fun command_size :: "'w cli_command \<Rightarrow> nat" where
  "command_size (Command n f u p m cs) = Suc (sum_list (map command_size cs))"

fun add_child :: "'w cli_command \<Rightarrow> 'w cli_command \<Rightarrow> 'w cli_command" where
  "add_child new (Command n f u p m cs) = Command n f u p m (cs @ [new])"

fun set_children :: "'w cli_command list \<Rightarrow> 'w cli_command \<Rightarrow> 'w cli_command" where
  "set_children cs (Command n f u p m _) = Command n f u p m cs"

text \<open>
  The parent is given by its path of indices, \<open>[]\<close> for no parent. The abbreviations are computed again for the list that
  starts at the parent, which leaves its elder siblings out.
\<close>

fun add_command :: "nat list \<Rightarrow> 'w cli_command \<Rightarrow> 'w cli_command list \<Rightarrow> 'w cli_command list" where
  "add_command [] new cs = gw_cli_build_shortest (cs @ [new])"
| "add_command [i] new cs = take i cs @ gw_cli_build_shortest (drop i (cs[i := add_child new (cs ! i)]))"
| "add_command (i # j # js) new cs = cs[i := set_children (add_command (j # js) new (cc_children (cs ! i))) (cs ! i)]"

definition gw_cli_register_command ::
  "'w cli_command list \<Rightarrow> nat list \<Rightarrow> string \<Rightarrow> 'w cli_fun option \<Rightarrow> int \<Rightarrow> int \<Rightarrow> 'w cli_command list option" where
  "gw_cli_register_command root parent command callback privilege mode =
     (if sum_list (map command_size root) \<ge> GW_MAX_CLI_COMMAND then None
      else Some (add_command parent (Command command callback 0 privilege mode []) root))"

fun gw_cli_unregister_command :: "string \<Rightarrow> 'w cli_command list \<Rightarrow> 'w cli_command list" where
  "gw_cli_unregister_command command [] = []"
| "gw_cli_unregister_command command (c # cs) = (if cc_command c = command then cs else c # gw_cli_unregister_command command cs)"

text \<open>The names from the root to the command, each followed by a blank. \<open>None\<close>: too long.\<close>

fun gw_cli_command_name :: "string \<Rightarrow> string list \<Rightarrow> string option" where
  "gw_cli_command_name name [] = Some name"
| "gw_cli_command_name name (c # cs) =
     (if length c + length name + 2 > MAX_LINE_LENTH then None else gw_cli_command_name (c @ '' '' @ name) cs)"

section \<open>Modes and privileges\<close>

definition gw_cli_set_promptchar :: "string \<Rightarrow> 'w cli_def \<Rightarrow> 'w cli_def" where
  "gw_cli_set_promptchar p s = s\<lparr>cl_promptchar := p\<rparr>"

definition gw_cli_set_privilege :: "int \<Rightarrow> 'w cli_def \<Rightarrow> 'w cli_def" where
  "gw_cli_set_privilege priv s =
     (let old = cl_privilege s; s = s\<lparr>cl_privilege := priv\<rparr>
      in if priv \<noteq> old then gw_cli_set_promptchar (if priv = PRIVILEGE_PRIVILEGED then ''# '' else ''> '') s else s)"

definition gw_cli_set_modestring :: "string option \<Rightarrow> 'w cli_def \<Rightarrow> 'w cli_def" where
  "gw_cli_set_modestring m s = s\<lparr>cl_modestring := m\<rparr>"

definition set_mode :: "string \<Rightarrow> string \<Rightarrow> string \<Rightarrow> int \<Rightarrow> string \<Rightarrow> 'w cli_def \<Rightarrow> 'w cli_def" where
  "set_mode plain pre post mode desc s =
     (let old = cl_mode s; s = s\<lparr>cl_mode := mode\<rparr>
      in if mode = old then s
         else gw_cli_set_modestring (if mode = 0 then None else if desc \<noteq> [] then Some (take 63 (pre @ desc @ post)) else Some plain) s)"

definition gw_cli_set_configmode :: "int \<Rightarrow> string \<Rightarrow> 'w cli_def \<Rightarrow> 'w cli_def" where
  "gw_cli_set_configmode = set_mode ''(config)'' ''(config-'' '')''"

definition gw_cli_set_switch_onuport_mode_enter :: "int \<Rightarrow> string \<Rightarrow> 'w cli_def \<Rightarrow> 'w cli_def" where
  "gw_cli_set_switch_onuport_mode_enter = set_mode ''(switch)'' ''(switch-'' '')''"

section \<open>Words\<close>

text \<open>
  The loop: what is left of the line, the word that has begun, the quote in which it is, and the words so far. The result
  also says whether all went well, and not that a word was too long.
\<close>

function parse_loop :: "nat \<Rightarrow> string \<Rightarrow> string option \<Rightarrow> char option \<Rightarrow> string list \<Rightarrow> bool \<times> string list" where
  "parse_loop max_words p word inquote words =
     (if length words \<ge> max_words - 1 then (True, words)
      else if p = [] \<or> Some (hd p) = inquote \<or> (word \<noteq> None \<and> inquote = None \<and> isspace (hd p))
      then if word \<noteq> None \<and> (length (the word) \<ge> MAX_WORDS_LEN \<or> length words \<ge> MAX_WORDS_NUM) then (False, words)
           else let words = (case word of None \<Rightarrow> words | Some w \<Rightarrow> words @ [w])
                in if p = [] then (True, words)
                   else parse_loop max_words (if inquote \<noteq> None then tl p else p) None None words
      else if hd p = CHR 0x22 \<or> hd p = CHR 0x27 then parse_loop max_words (tl p) (Some []) (Some (hd p)) words
      else case word of
             Some w \<Rightarrow> parse_loop max_words (tl p) (Some (w @ [hd p])) inquote words
           | None \<Rightarrow> if hd p = CHR ''|'' then parse_loop max_words (tl p) None inquote (words @ [''|''])
                     else if \<not> isspace (hd p) then parse_loop max_words (tl p) (Some [hd p]) inquote words
                     else parse_loop max_words (tl p) None inquote words)"
  by auto
termination by (relation "measure (\<lambda>(m, p, w, q, ws). 2 * length p + (if w = None then 0 else 1))") (auto simp: neq_Nil_conv)

declare parse_loop.simps [simp del]

text \<open>The result of the function and what it stored in the array.\<close>

definition gw_cli_parse_line :: "string \<Rightarrow> nat \<Rightarrow> nat \<times> string list" where
  "gw_cli_parse_line line max_words =
     (let p = dropWhile isspace line in
      case parse_loop max_words p (if p = [] then None else Some []) None [] of (ok, words) \<Rightarrow> (if ok then length words else 0, words))"

fun join_words :: "string list \<Rightarrow> string" where
  "join_words [] = []" | "join_words [w] = w" | "join_words (w # ws) = w @ '' '' @ join_words ws"

section \<open>The search for a command\<close>

definition cli_matches :: "int \<Rightarrow> string \<Rightarrow> 'w cli_command \<Rightarrow> bool" where
  "cli_matches priv word c \<longleftrightarrow>
     \<not> priv < cc_privilege c \<and> strncaseeq (cc_unique_len c) (cc_command c) word \<and> strncaseeq (length word) (cc_command c) word"

text \<open>The command that the loop ends with: one of the mode, or the last one of the configuration mode when the mode is a deeper one.\<close>

datatype 'w cli_pick = Here "'w cli_command" | Config "'w cli_command" | Nobody

fun cli_scan :: "int \<Rightarrow> int \<Rightarrow> string \<Rightarrow> 'w cli_command list \<Rightarrow> 'w cli_command option \<Rightarrow> 'w cli_pick" where
  "cli_scan priv mode word [] again = (case again of None \<Rightarrow> Nobody | Some c \<Rightarrow> Config c)"
| "cli_scan priv mode word (c # cs) again =
     (if \<not> cli_matches priv word c then cli_scan priv mode word cs again
      else if cc_mode c = mode \<or> cc_mode c = MODE_ANY then Here c
      else if mode > MODE_CONFIG \<and> cc_mode c = MODE_CONFIG then cli_scan priv mode word cs (Some c)
      else cli_scan priv mode word cs again)"

text \<open>A callback that is not there is called only by mistake.\<close>

definition call_back :: "string list \<Rightarrow> 'w cli_command \<Rightarrow> string list \<Rightarrow> 'w cli_def \<Rightarrow> (int \<times> 'w cli_def) option" where
  "call_back parents c args s =
     (case cc_callback c of None \<Rightarrow> None | Some f \<Rightarrow> f (gw_cli_command_name [] (cc_command c # parents)) args s)"

text \<open>\<open>parents\<close>: the names above, from the nearest one. An empty word is looked at before its first character.\<close>

fun gw_cli_find_command :: "string list \<Rightarrow> 'w cli_command list \<Rightarrow> string list \<Rightarrow> 'w cli_def \<Rightarrow> (int \<times> 'w cli_def) option" where
  "gw_cli_find_command parents commands [] s = Some (CLI_ERROR, s)"
| "gw_cli_find_command parents commands (word # words) s =
     (if word = [] then None
      else if last word = CHR ''?'' then if commands = [] then None else Some (CLI_OK, s)
      else case (case cli_scan (cl_privilege s) (cl_mode s) word commands None of
                   Here c \<Rightarrow> Some (c, s) | Config c \<Rightarrow> Some (c, gw_cli_set_configmode MODE_CONFIG [] s) | Nobody \<Rightarrow> None) of
        None \<Rightarrow> Some (CLI_ERROR_ARG, s)
      | Some (c, s) \<Rightarrow>
          if cc_children c = []
          then if cc_callback c = None then Some (CLI_ERROR, s) else call_back parents c words s
          else if words = []
          then if cc_callback c \<noteq> None then call_back parents c words s else Some (CLI_ERROR, s)
          else Option.bind (gw_cli_find_command (cc_command c # parents) (cc_children c) words s) (\<lambda>(rc, s).
            if rc = CLI_ERROR_ARG \<and> cc_callback c \<noteq> None then call_back parents c words s else Some (rc, s)))"

definition gw_cli_run_command :: "'w cli_command list \<Rightarrow> string \<Rightarrow> 'w cli_def \<Rightarrow> (int \<times> 'w cli_def) option" where
  "gw_cli_run_command commands command s =
     (let command = dropWhile isspace command in
      if command = [] then Some (CLI_OK, s)
      else case gw_cli_parse_line command MAX_WORDS_NUM of (num_words, words) \<Rightarrow>
        Option.bind (if num_words \<noteq> 0 then gw_cli_find_command [] commands words s else Some (CLI_ERROR, s))
          (\<lambda>(r, s). Some (if r = CLI_QUIT then r else CLI_OK, s)))"

text \<open>The last word is \<open>None\<close> when the line ends with a blank. \<open>room\<close>: how many completions still fit.\<close>

fun completions :: "int \<Rightarrow> int \<Rightarrow> nat \<Rightarrow> string list \<Rightarrow> string option \<Rightarrow> 'w cli_command list \<Rightarrow> string list" where
  "completions priv mode 0 words final commands = []"
| "completions priv mode (Suc room) words final [] = []"
| "completions priv mode (Suc room) [] final (c # cs) =
     (if priv < cc_privilege c \<or> (cc_mode c \<noteq> mode \<and> cc_mode c \<noteq> MODE_ANY) \<or>
         (case final of None \<Rightarrow> False | Some w \<Rightarrow> \<not> strncaseeq (length w) (cc_command c) w)
      then completions priv mode (Suc room) [] final cs
      else cc_command c # completions priv mode room [] final cs)"
| "completions priv mode (Suc room) (w # words) final (c # cs) =
     (if priv < cc_privilege c \<or> (cc_mode c \<noteq> mode \<and> cc_mode c \<noteq> MODE_ANY) \<or> \<not> strncaseeq (length w) (cc_command c) w \<or>
         length w < cc_unique_len c
      then completions priv mode (Suc room) (w # words) final cs
      else completions priv mode (Suc room) words final (cc_children c))"

definition gw_cli_get_completions :: "'w cli_command list \<Rightarrow> 'w cli_def \<Rightarrow> string \<Rightarrow> nat \<Rightarrow> string list" where
  "gw_cli_get_completions commands s command max_completions =
     (let command = dropWhile isspace command in
      case gw_cli_parse_line command MAX_WORDS_NUM of (n, words) \<Rightarrow>
        let num_words = (if command = [] \<or> last command = CHR '' '' then n + 1 else n) in
        if num_words = 0 then []
        else completions (cl_privilege s) (cl_mode s) max_completions (take (num_words - 1) words)
               (if num_words - 1 < length words then Some (words ! (num_words - 1)) else None) commands)"

section \<open>The history\<close>

definition gw_cli_free_history :: "'w cli_def \<Rightarrow> 'w cli_def" where
  "gw_cli_free_history s = s\<lparr>cl_history := replicate MAX_HISTORY []\<rparr>"

text \<open>\<open>None\<close>: the line does not fit.\<close>

definition gw_cli_add_history :: "string \<Rightarrow> 'w cli_def \<Rightarrow> 'w cli_def option" where
  "gw_cli_add_history cmd s =
     (let h = cl_history s; i = length (takeWhile (\<lambda>l. l \<noteq> []) h) in
      if i < length h
      then if i = 0 \<or> \<not> strncaseeq (Suc (length cmd)) (h ! (i - 1)) cmd
           then if length cmd \<ge> MAX_LINE_LENTH then None else Some (s\<lparr>cl_history := h[i := cmd]\<rparr>)
           else Some s
      else if length cmd \<ge> MAX_LINE_LENTH then None
      else Some (s\<lparr>cl_history := tl h @ [cmd]\<rparr>))"

section \<open>The commands of the library\<close>

text \<open>Whether help is asked for; the last argument is looked at before its first character when it is empty.\<close>

definition cli_help_requested :: "string list \<Rightarrow> bool option" where
  "cli_help_requested argv =
     (if argv = [] then Some False else if last argv = [] then None else Some (last (last argv) = CHR ''?''))"

definition unless_help :: "string list \<Rightarrow> ('w cli_def \<Rightarrow> int \<times> 'w cli_def) \<Rightarrow> 'w cli_def \<Rightarrow> (int \<times> 'w cli_def) option" where
  "unless_help argv f s = map_option (\<lambda>h. if h then (CLI_OK, s) else f s) (cli_help_requested argv)"

definition gw_cli_int_help :: "'w cli_fun" where "gw_cli_int_help command argv = unless_help argv (\<lambda>s. (CLI_OK, s))"

definition gw_cli_int_history :: "'w cli_fun" where "gw_cli_int_history command argv = unless_help argv (\<lambda>s. (CLI_OK, s))"

definition gw_cli_int_enable :: "'w cli_fun" where
  "gw_cli_int_enable command argv = unless_help argv (\<lambda>s.
     if cl_privilege s = PRIVILEGE_PRIVILEGED then (CLI_OK, s)
     else if \<not> cl_enable s then (CLI_OK, gw_cli_set_configmode MODE_EXEC [] (gw_cli_set_privilege PRIVILEGE_PRIVILEGED s))
     else (CLI_OK, s\<lparr>cl_asks := True\<rparr>))"

definition gw_cli_int_disable :: "'w cli_fun" where
  "gw_cli_int_disable command argv = unless_help argv (\<lambda>s.
     (CLI_OK, gw_cli_set_configmode MODE_EXEC [] (gw_cli_set_privilege PRIVILEGE_UNPRIVILEGED s)))"

definition gw_cli_int_quit :: "'w cli_fun" where
  "gw_cli_int_quit command argv = unless_help argv (\<lambda>s.
     if argv \<noteq> [] then (CLI_OK, s)
     else (CLI_QUIT, gw_cli_set_configmode MODE_EXEC [] (gw_cli_set_privilege PRIVILEGE_UNPRIVILEGED s)))"

definition gw_cli_int_exit :: "'w cli_fun" where
  "gw_cli_int_exit command argv s =
     Option.bind (cli_help_requested argv) (\<lambda>h.
       if h \<or> argv \<noteq> [] then Some (CLI_OK, s)
       else if cl_mode s = MODE_EXEC then gw_cli_int_quit command argv s
       else Some (CLI_OK, gw_cli_set_configmode (if cl_mode s > MODE_CONFIG then MODE_CONFIG else MODE_EXEC) [] s))"

definition gw_cli_interface_debug_terminal :: "'w cli_fun" where
  "gw_cli_interface_debug_terminal command argv = unless_help argv (\<lambda>s.
     if argv \<noteq> [] then (CLI_OK, s) else (CLI_OK, gw_cli_set_privilege PRIVILEGE_PRIVILEGED (gw_cli_set_configmode MODE_DEBUG ''advdebug'' s)))"

definition gw_cli_int_configure_terminal :: "'w cli_fun" where
  "gw_cli_int_configure_terminal command argv = unless_help argv (\<lambda>s.
     if argv \<noteq> [] then (CLI_OK, s) else (CLI_OK, gw_cli_set_privilege PRIVILEGE_PRIVILEGED (gw_cli_set_configmode MODE_CONFIG [] s)))"

fun register_all :: "(string \<times> 'w cli_fun \<times> int \<times> int) list \<Rightarrow> 'w cli_command list \<Rightarrow> 'w cli_command list option" where
  "register_all [] root = Some root"
| "register_all ((n, f, priv, mode) # rest) root = Option.bind (gw_cli_register_command root [] n (Some f) priv mode) (register_all rest)"

text \<open>
  The registrations of one application, in the order of its calls: the local variable that holds the parent is given by the
  number of the call that it got its value from, \<open>None\<close> for no parent. \<open>children_at\<close>: how many commands stand below a path, so
  the index that the next one gets.
\<close>

type_synonym 'w registration = "nat option \<times> string \<times> 'w cli_fun option \<times> int \<times> int"

fun children_at :: "nat list \<Rightarrow> 'w cli_command list \<Rightarrow> nat" where
  "children_at [] cs = length cs"
| "children_at (i # path) cs = children_at path (cc_children (cs ! i))"

fun register_seq :: "'w registration list \<Rightarrow> nat list list \<Rightarrow> 'w cli_command list \<Rightarrow> 'w cli_command list option" where
  "register_seq [] paths root = Some root"
| "register_seq ((parent, n, f, priv, mode) # rest) paths root =
     (let path = (case parent of None \<Rightarrow> [] | Some i \<Rightarrow> paths ! i)
      in Option.bind (gw_cli_register_command root path n f priv mode) (register_seq rest (paths @ [path @ [children_at path root]])))"

text \<open>
  The table of the applications that register commands: a description and a function, which is known by a name \<open>'h\<close> that
  stands for its address.
\<close>

definition MAX_USER_CMD_INIT_HANDLER :: nat where "MAX_USER_CMD_INIT_HANDLER = 16"
definition USER_CMD_INIT_HANDLE_DESC_LEN :: nat where "USER_CMD_INIT_HANDLE_DESC_LEN = 32"

type_synonym 'h user_init_handler = "string \<times> 'h option"

definition userCmdInitHandlerInit :: "'h user_init_handler list" where
  "userCmdInitHandlerInit = replicate MAX_USER_CMD_INIT_HANDLER ([], None)"

fun blank_handler :: "'h user_init_handler list \<Rightarrow> nat option" where
  "blank_handler [] = None"
| "blank_handler ((d, None) # hs) = Some 0"
| "blank_handler ((d, Some h) # hs) = map_option Suc (blank_handler hs)"

definition registerUserCmdInitHandler ::
  "string option \<Rightarrow> 'h option \<Rightarrow> 'h user_init_handler list \<Rightarrow> int \<times> 'h user_init_handler list" where
  "registerUserCmdInitHandler desc handler hs =
     (case (desc, handler) of
        (Some d, Some h) \<Rightarrow>
          if Some h \<in> set (map snd hs) then (GW_OK, hs)
          else (case blank_handler hs of
              None \<Rightarrow> (GW_ERROR, hs)
            | Some i \<Rightarrow> (GW_OK, hs[i := (take (USER_CMD_INIT_HANDLE_DESC_LEN - 1) d, Some h)]))
      | _ \<Rightarrow> (GW_ERROR, hs))"

text \<open>
  The tree: the commands of the library, then those of each application in the table; \<open>call\<close> is the function of a name.
\<close>

fun run_handlers :: "('h \<Rightarrow> 'w cli_command list \<Rightarrow> 'w cli_command list option) \<Rightarrow> 'h user_init_handler list \<Rightarrow>
    'w cli_command list \<Rightarrow> 'w cli_command list option" where
  "run_handlers call [] root = Some root"
| "run_handlers call ((desc, None) # hs) root = run_handlers call hs root"
| "run_handlers call ((desc, Some h) # hs) root = Option.bind (call h root) (run_handlers call hs)"

definition library_commands :: "(string \<times> 'w cli_fun \<times> int \<times> int) list" where
  "library_commands =
     [(''help'', gw_cli_int_help, PRIVILEGE_UNPRIVILEGED, MODE_ANY), (''history'', gw_cli_int_history, PRIVILEGE_UNPRIVILEGED, MODE_ANY),
      (''t_enable'', gw_cli_int_enable, PRIVILEGE_UNPRIVILEGED, MODE_EXEC), (''t_disable'', gw_cli_int_disable, PRIVILEGE_PRIVILEGED, MODE_EXEC),
      (''quit'', gw_cli_int_quit, PRIVILEGE_UNPRIVILEGED, MODE_ANY), (''logout'', gw_cli_int_quit, PRIVILEGE_UNPRIVILEGED, MODE_ANY),
      (''exit'', gw_cli_int_exit, PRIVILEGE_UNPRIVILEGED, MODE_ANY), (''enable'', gw_cli_int_configure_terminal, PRIVILEGE_PRIVILEGED, MODE_EXEC),
      (''advdebug'', gw_cli_interface_debug_terminal, PRIVILEGE_PRIVILEGED, MODE_CONFIG)]"

definition gw_cli_tree_init :: "('h \<Rightarrow> 'w cli_command list \<Rightarrow> 'w cli_command list option) \<Rightarrow> 'h user_init_handler list \<Rightarrow>
    'w cli_command list option" where
  "gw_cli_tree_init call hs = Option.bind (register_all library_commands []) (run_handlers call hs)"

text \<open>A session of \<^verbatim>\<open>gw_cli_init\<close>.\<close>

definition gw_cli_init :: "'w \<Rightarrow> 'w cli_def" where
  "gw_cli_init w =
     gw_cli_set_configmode MODE_EXEC [] (gw_cli_set_privilege PRIVILEGE_UNPRIVILEGED
       \<lparr>cl_privilege = -1, cl_mode = -1, cl_modestring = None, cl_promptchar = [], cl_history = replicate MAX_HISTORY [],
        cl_enable = False, cl_asks = False, cl_world = w\<rparr>)"

section \<open>Words and lines\<close>

text \<open>A word that needs no quotes.\<close>

definition plain_word :: "string \<Rightarrow> bool" where
  "plain_word w \<longleftrightarrow> w \<noteq> [] \<and> hd w \<noteq> CHR ''|'' \<and> length w < MAX_WORDS_LEN \<and> (\<forall>c\<in>set w. \<not> isspace c \<and> c \<noteq> CHR 0x22 \<and> c \<noteq> CHR 0x27)"

lemma parse_word:
  assumes "\<forall>c\<in>set w. \<not> isspace c \<and> c \<noteq> CHR 0x22 \<and> c \<noteq> CHR 0x27" "length words < m - 1"
  shows "parse_loop m (w @ rest) (Some a) None words = parse_loop m rest (Some (a @ w)) None words"
  using assms(1)
proof (induction w arbitrary: a)
  case (Cons c w)
  then have "parse_loop m ((c # w) @ rest) (Some a) None words = parse_loop m (w @ rest) (Some (a @ [c])) None words"
    using assms(2) by (subst parse_loop.simps) auto
  with Cons show ?case by simp
qed simp

lemma parse_word_end:
  assumes "length w < MAX_WORDS_LEN" "length words < m - 1" "length words < MAX_WORDS_NUM" "rest = [] \<or> isspace (hd rest)"
  shows "parse_loop m rest (Some w) None words = (if rest = [] then (True, words @ [w]) else parse_loop m (tl rest) None None (words @ [w]))"
proof (cases rest)
  case Nil
  then show ?thesis using assms by (subst parse_loop.simps) simp
next
  case (Cons c r)
  have c: "isspace c" "c \<noteq> CHR 0x22" "c \<noteq> CHR 0x27" "c \<noteq> CHR ''|''" using assms(4) Cons by (auto simp: isspace_def)
  have "parse_loop m rest (Some w) None words = parse_loop m rest None None (words @ [w])"
    using assms c Cons by (subst parse_loop.simps) simp
  also have "\<dots> = (if m - 1 \<le> Suc (length words) then (True, words @ [w]) else parse_loop m r None None (words @ [w]))"
    using c Cons by (subst parse_loop.simps) simp
  also have "\<dots> = parse_loop m r None None (words @ [w])"
  proof -
    have "parse_loop m r None None (words @ [w]) = (True, words @ [w])" if "m - 1 \<le> Suc (length words)"
      using that by (subst parse_loop.simps) simp
    then show ?thesis by simp
  qed
  finally show ?thesis using Cons by simp
qed

lemma parse_start:
  assumes "plain_word w" "length words < m - 1"
  shows "parse_loop m (w @ rest) None None words = parse_loop m rest (Some w) None words"
proof -
  obtain c r where w: "w = c # r" using assms(1) by (cases w) (auto simp: plain_word_def)
  have "parse_loop m (w @ rest) None None words = parse_loop m (r @ rest) (Some [c]) None words"
    using assms w by (subst parse_loop.simps) (auto simp: plain_word_def)
  also have "\<dots> = parse_loop m rest (Some w) None words" using parse_word [of r words m rest "[c]"] assms w by (auto simp: plain_word_def)
  finally show ?thesis .
qed

lemma parse_joined:
  assumes "\<forall>w\<in>set ws. plain_word w" "length words + length ws \<le> m - 1" "m \<le> MAX_WORDS_NUM" "ws \<noteq> []"
  shows "parse_loop m (join_words ws) None None words = (True, words @ ws)"
  using assms(1,2,4)
proof (induction ws arbitrary: words rule: join_words.induct)
  case (2 w)
  then have "length words < m - 1" "plain_word w" by auto
  then show ?case using parse_start [of w words m "[]"] parse_word_end [of w words m "[]"] assms(3) by (auto simp: plain_word_def)
next
  case (3 w v vs)
  then have "length words < m - 1" "plain_word w" by auto
  then have "parse_loop m (join_words (w # v # vs)) None None words = parse_loop m (join_words (v # vs)) None None (words @ [w])"
    using parse_start [of w words m "'' '' @ join_words (v # vs)"] parse_word_end [of w words m "'' '' @ join_words (v # vs)"] assms(3)
    by (auto simp: plain_word_def isspace_def)
  with 3 show ?case by simp
qed simp

lemma joined_start: "ws \<noteq> [] \<Longrightarrow> \<forall>w\<in>set ws. plain_word w \<Longrightarrow> \<exists>c r. join_words ws = c # r \<and> \<not> isspace c \<and> c \<noteq> CHR 0x22 \<and> c \<noteq> CHR 0x27 \<and> c \<noteq> CHR ''|''"
proof (induction ws rule: join_words.induct)
  case (2 w)
  then show ?case by (cases w) (auto simp: plain_word_def)
next
  case (3 w v vs)
  then show ?case by (cases w) (auto simp: plain_word_def)
qed simp

lemma parse_join:
  assumes "\<forall>w\<in>set ws. plain_word w" "length ws \<le> 31"
  shows "gw_cli_parse_line (join_words ws) MAX_WORDS_NUM = (length ws, ws)"
proof (cases "ws = []")
  case True
  then show ?thesis by (simp add: gw_cli_parse_line_def) (subst parse_loop.simps, simp)
next
  case False
  from joined_start [OF False assms(1)] obtain c r where c: "join_words ws = c # r" "\<not> isspace c"
    and q: "c \<noteq> CHR 0x22" "c \<noteq> CHR 0x27" "c \<noteq> CHR ''|''" by blast
  have "parse_loop MAX_WORDS_NUM (c # r) (Some []) None [] = parse_loop MAX_WORDS_NUM (c # r) None None []"
  proof -
    have n: "\<not> length ([] :: string list) \<ge> MAX_WORDS_NUM - 1" by (simp add: MAX_WORDS_NUM_def)
    have "parse_loop MAX_WORDS_NUM (c # r) (Some []) None [] = parse_loop MAX_WORDS_NUM r (Some [c]) None []"
      using c(2) q n by (subst parse_loop.simps) simp
    moreover have "parse_loop MAX_WORDS_NUM (c # r) None None [] = parse_loop MAX_WORDS_NUM r (Some [c]) None []"
      using c(2) q n by (subst parse_loop.simps) simp
    ultimately show ?thesis by simp
  qed
  also have "\<dots> = (True, ws)" using parse_joined [OF assms(1), of "[]" MAX_WORDS_NUM] assms(2) False c(1) by (simp add: MAX_WORDS_NUM_def)
  finally show ?thesis using c by (simp add: gw_cli_parse_line_def Let_def)
qed

text \<open>
  A line is taken apart where it was put together. Up to 31 words, none of them empty or longer than a word may be, without blanks, quotes
  and a bar at the start, are joined with blanks; the line is split into the same words.
\<close>

theorem words_roundtrip:
  assumes "\<forall>w\<in>set ws. plain_word w" "length ws \<le> 31"
  shows "gw_cli_parse_line (join_words ws) MAX_WORDS_NUM = (length ws, ws)"
  using assms by (rule parse_join)

theorem words_roundtrip_witness:
  "gw_cli_parse_line ''show port 3'' MAX_WORDS_NUM = (3, [''show'', ''port'', ''3''])"
  using words_roundtrip [of "[''show'', ''port'', ''3'']"] by (simp add: plain_word_def isspace_def MAX_WORDS_LEN_def Let_def)

section \<open>Abbreviations\<close>

abbreviation lower :: "string \<Rightarrow> string" where "lower \<equiv> map tolower"

lemma strncaseeq_take: "strncaseeq n s t \<longleftrightarrow> take n (lower s) = take n (lower t)"
  by (induction n s t rule: strncaseeq.induct) auto

lemma common_prefix_ge: "take n s = take n t \<Longrightarrow> n \<le> length s \<Longrightarrow> n \<le> length t \<Longrightarrow> n \<le> common_prefix s t"
proof (induction s t arbitrary: n rule: common_prefix.induct)
  case (1 a s b t)
  then show ?case by (cases n) auto
qed auto

lemma fold_max_start:
  fixes f :: "nat \<Rightarrow> nat"
  shows "a \<le> fold (\<lambda>j l. if j = i then l else max l (f j)) js a"
proof (induction js arbitrary: a)
  case (Cons k js)
  have "a \<le> (if k = i then a else max a (f k))" by simp
  also have "\<dots> \<le> fold (\<lambda>j l. if j = i then l else max l (f j)) js (if k = i then a else max a (f k))" by (rule Cons.IH)
  finally show ?case by simp
qed simp

lemma fold_max_ge:
  fixes f :: "nat \<Rightarrow> nat"
  shows "j \<in> set js \<Longrightarrow> j \<noteq> i \<Longrightarrow> f j \<le> fold (\<lambda>j l. if j = i then l else max l (f j)) js a"
proof (induction js arbitrary: a)
  case (Cons k js)
  show ?case
  proof (cases "j = k")
    case True
    have "f j \<le> max a (f k)" using True by simp
    also have "\<dots> \<le> fold (\<lambda>j l. if j = i then l else max l (f j)) js (max a (f k))" by (rule fold_max_start)
    finally show ?thesis using Cons.prems True by simp
  next
    case False
    then show ?thesis using Cons by simp
  qed
qed simp

lemma unique_len_ge:
  assumes "j < length ns" "j \<noteq> i"
  shows "1 + common_prefix (ns ! i) (ns ! j) \<le> unique_len ns i"
  unfolding unique_len_def using assms by (intro fold_max_ge) auto

text \<open>Siblings with names in lower case that differ, and with the right lengths of their abbreviations; on all levels.\<close>

definition names_ok :: "'w cli_command list \<Rightarrow> bool" where
  "names_ok cs \<longleftrightarrow> distinct (map cc_command cs) \<and> (\<forall>c\<in>set cs. cc_command c \<noteq> [] \<and> lower (cc_command c) = cc_command c)"

definition lens_ok :: "'w cli_command list \<Rightarrow> bool" where
  "lens_ok cs \<longleftrightarrow> (\<forall>i<length cs. cc_unique_len (cs ! i) = unique_len (map cc_command cs) i)"

fun command_names_ok :: "'w cli_command \<Rightarrow> bool" where
  "command_names_ok (Command n f u p m cs) \<longleftrightarrow> names_ok cs \<and> list_all command_names_ok cs"

fun command_lens_ok :: "'w cli_command \<Rightarrow> bool" where
  "command_lens_ok (Command n f u p m cs) \<longleftrightarrow> lens_ok cs \<and> list_all command_lens_ok cs"

definition tree_ok :: "'w cli_command list \<Rightarrow> bool" where
  "tree_ok cs \<longleftrightarrow> names_ok cs \<and> list_all command_names_ok cs \<and> lens_ok cs \<and> list_all command_lens_ok cs"

lemma tree_ok_children: "tree_ok cs \<Longrightarrow> c \<in> set cs \<Longrightarrow> tree_ok (cc_children c)"
  by (cases c) (auto simp: tree_ok_def list_all_iff)

text \<open>A word is the abbreviation of at most one of them.\<close>

lemma one_match:
  assumes "names_ok cs" "lens_ok cs" "i < length cs" "j < length cs" "cli_matches p w (cs ! i)" "cli_matches q w (cs ! j)"
  shows "i = j"
proof (rule ccontr)
  assume d: "i \<noteq> j"
  let ?n = "\<lambda>i. cc_command (cs ! i)" and ?w = "lower w"
  have low: "lower (?n i) = ?n i" "lower (?n j) = ?n j" using assms(1,3,4) by (auto simp: names_ok_def)
  have t: "take (length w) (?n i) = ?w" "take (length w) (?n j) = ?w"
    using assms(5,6) by (auto simp: cli_matches_def strncaseeq_take low)
  then have l: "length w \<le> length (?n i)" "length w \<le> length (?n j)" by (metis length_map length_take min.cobounded1 min_def)+
  have full: "?n k = ?w" if "take (length w) (?n k) = ?w" "take (cc_unique_len (cs ! k)) (?n k) = take (cc_unique_len (cs ! k)) ?w" "length w < cc_unique_len (cs ! k)" for k
  proof -
    have "take (cc_unique_len (cs ! k)) ?w = ?w" using that(3) by simp
    then have "length (take (cc_unique_len (cs ! k)) (?n k)) = length w" using that(2) by simp
    then have "length (?n k) = length w" using that(3) by (simp add: min_def split: if_splits)
    then show ?thesis using that(1) by simp
  qed
  have "length w \<le> common_prefix (?n i) (?n j)" "length w \<le> common_prefix (?n j) (?n i)"
    using t l by (auto intro!: common_prefix_ge)
  then have u: "length w < cc_unique_len (cs ! i)" "length w < cc_unique_len (cs ! j)"
    using unique_len_ge [of j "map cc_command cs" i] unique_len_ge [of i "map cc_command cs" j] d assms(2-4) by (auto simp: lens_ok_def)
  have "?n i = ?w" "?n j = ?w"
    using full [OF t(1) _ u(1)] full [OF t(2) _ u(2)] assms(5,6) by (auto simp: cli_matches_def strncaseeq_take low)
  moreover have "?n i \<noteq> ?n j" using assms(1,3,4) d by (auto simp: names_ok_def distinct_conv_nth)
  ultimately show False by simp
qed

lemma scan_match:
  assumes "c \<in> set cs" "cli_matches p w c" "cc_mode c = mode \<or> cc_mode c = MODE_ANY" "\<forall>d\<in>set cs. cli_matches p w d \<longrightarrow> d = c"
  shows "cli_scan p mode w cs again = Here c"
  using assms(1,4)
proof (induction cs)
  case (Cons d cs)
  show ?case
  proof (cases "d = c")
    case True
    then show ?thesis using assms(2,3) by simp
  next
    case False
    then have "\<not> cli_matches p w d" "c \<in> set cs" "\<forall>d\<in>set cs. cli_matches p w d \<longrightarrow> d = c" using Cons.prems by auto
    then show ?thesis using Cons.IH by simp
  qed
qed simp

lemma scan_abbreviation:
  assumes "tree_ok cs" "c \<in> set cs" "cli_matches p w c" "cc_mode c = mode \<or> cc_mode c = MODE_ANY"
  shows "cli_scan p mode w cs again = Here c"
proof (rule scan_match [OF assms(2-4)])
  show "\<forall>d\<in>set cs. cli_matches p w d \<longrightarrow> d = c"
    using one_match [of cs] assms(1-3) unfolding tree_ok_def by (metis in_set_conv_nth)
qed

text \<open>Words that lead to a command: each is an abbreviation of a command of the level that the user may use.\<close>

inductive leads :: "int \<Rightarrow> int \<Rightarrow> string list \<Rightarrow> 'w cli_command list \<Rightarrow> string list \<Rightarrow> 'w cli_command \<Rightarrow> string list \<Rightarrow> bool" for p mode where
  leads_here: "c \<in> set cs \<Longrightarrow> cli_matches p w c \<Longrightarrow> cc_mode c = mode \<or> cc_mode c = MODE_ANY \<Longrightarrow> w \<noteq> [] \<Longrightarrow> last w \<noteq> CHR ''?'' \<Longrightarrow>
     leads p mode parents cs [w] c parents"
| leads_down: "c \<in> set cs \<Longrightarrow> cli_matches p w c \<Longrightarrow> cc_mode c = mode \<or> cc_mode c = MODE_ANY \<Longrightarrow> w \<noteq> [] \<Longrightarrow> last w \<noteq> CHR ''?'' \<Longrightarrow>
     leads p mode (cc_command c # parents) (cc_children c) ws d ps \<Longrightarrow> leads p mode parents cs (w # ws) d ps"

inductive_cases leads_wordE: "leads p mode parents cs (w # ws) d ps"

lemma leads_words: "leads p mode parents cs ws d ps \<Longrightarrow> ws \<noteq> [] \<and> cs \<noteq> []"
  by (induction rule: leads.induct) auto

lemma find_leads:
  assumes "leads (cl_privilege s) (cl_mode s) parents cs ws c ps" "tree_ok cs" "cc_callback c = Some f" "cc_children c = [] \<or> args = []"
    "f (gw_cli_command_name [] (cc_command c # ps)) args s = Some (rc, s')" "rc \<noteq> CLI_ERROR_ARG"
  shows "gw_cli_find_command parents cs (ws @ args) s = Some (rc, s')"
  using assms(1-3,4-6)
proof (induction rule: leads.induct)
  case (leads_here c cs w parents)
  from scan_abbreviation [OF leads_here(6,1-3), of None] leads_here show ?case by (auto simp: call_back_def)
next
  case (leads_down c cs w parents ws d ps)
  note i = leads_down.IH [OF tree_ok_children [OF leads_down.prems(1) leads_down.hyps(1)] leads_down.prems(2-5)]
  from leads_words [OF leads_down.hyps(6)] have "ws \<noteq> []" "cc_children c \<noteq> []" by auto
  with scan_abbreviation [OF leads_down.prems(1) leads_down.hyps(1-3), of None] leads_down.hyps(4,5) i leads_down.prems(5)
  show ?case by simp
qed

lemma build_children_simps [simp]:
  "cc_command (build_children c) = cc_command c" "cc_callback (build_children c) = cc_callback c" "cc_privilege (build_children c) = cc_privilege c"
  "cc_mode (build_children c) = cc_mode c" "cc_command (set_unique_len u c) = cc_command c" "cc_callback (set_unique_len u c) = cc_callback c"
  "cc_privilege (set_unique_len u c) = cc_privilege c" "cc_mode (set_unique_len u c) = cc_mode c" "cc_unique_len (set_unique_len u c) = u"
  "cc_children (set_unique_len u c) = cc_children c" "command_names_ok (set_unique_len u c) = command_names_ok c" "command_lens_ok (set_unique_len u c) = command_lens_ok c"
  by (cases c; simp)+

lemma build_children_of: "cc_children (build_children c) = gw_cli_build_shortest (cc_children c)"
  by (cases c) (simp add: gw_cli_build_shortest_def)

lemma build_length [simp]: "length (gw_cli_build_shortest cs) = length cs" by (simp add: gw_cli_build_shortest_def)

lemma build_nth: "i < length cs \<Longrightarrow> gw_cli_build_shortest cs ! i = set_unique_len (unique_len (map cc_command cs) i) (build_children (cs ! i))"
  by (simp add: gw_cli_build_shortest_def enumerate_eq_zip)

lemma build_names [simp]: "map cc_command (gw_cli_build_shortest cs) = map cc_command cs"
  by (rule nth_equalityI) (simp_all add: build_nth)

lemma build_set: "c \<in> set (gw_cli_build_shortest cs) \<longleftrightarrow> (\<exists>i<length cs. c = set_unique_len (unique_len (map cc_command cs) i) (build_children (cs ! i)))"
  by (auto simp: in_set_conv_nth build_nth)

lemma names_ok_build: "names_ok (gw_cli_build_shortest cs) = names_ok cs"
proof -
  have "(\<forall>c\<in>set ds. cc_command c \<noteq> [] \<and> lower (cc_command c) = cc_command c) = (\<forall>n\<in>set (map cc_command ds). n \<noteq> [] \<and> lower n = n)" for ds :: "'a cli_command list"
    by auto
  then show ?thesis unfolding names_ok_def by (simp only: build_names)
qed

lemma lens_ok_build: "lens_ok (gw_cli_build_shortest cs)" by (simp add: lens_ok_def build_nth)

lemma build_ok:
  "command_names_ok c \<Longrightarrow> command_names_ok (build_children c) \<and> command_lens_ok (build_children c)"
proof (induction c rule: build_children.induct)
  case (1 n f u p m cs)
  have b: "build_children (Command n f u p m cs) = Command n f u p m (gw_cli_build_shortest cs)" by (simp add: gw_cli_build_shortest_def)
  have "command_names_ok c \<and> command_lens_ok c" if "c \<in> set (gw_cli_build_shortest cs)" for c
    using that 1 by (auto simp: build_set list_all_iff)
  then show ?case unfolding b using 1(2) by (simp add: names_ok_build lens_ok_build list_all_iff)
qed

lemma tree_ok_build:
  assumes "names_ok cs" "list_all command_names_ok cs"
  shows "tree_ok (gw_cli_build_shortest cs)"
  using assms by (auto simp: tree_ok_def names_ok_build lens_ok_build list_all_iff build_set intro!: build_ok [THEN conjunct1] build_ok [THEN conjunct2])

section \<open>Properties\<close>

text \<open>
  C17. A line runs the command that it abbreviates. In a tree whose siblings differ in their names and have the right lengths of abbreviations, a
  line of words that each abbreviate a command of their level, in the mode and with the privilege of the user, followed by arguments, calls the
  callback of the last of these commands, with its full name and the arguments, and nothing else. What it returns is what the line returns,
  except that only \<^verbatim>\<open>CLI_QUIT\<close> is passed on.
\<close>

theorem command_run:
  assumes "tree_ok commands" "leads (cl_privilege s) (cl_mode s) [] commands ws c ps" "cc_callback c = Some f" "cc_children c = [] \<or> args = []"
    and "f (gw_cli_command_name [] (cc_command c # ps)) args s = Some (rc, s')" "rc \<noteq> CLI_ERROR_ARG"
    and "\<forall>w\<in>set (ws @ args). plain_word w" "length (ws @ args) \<le> 31"
  shows "gw_cli_run_command commands (join_words (ws @ args)) s = Some (if rc = CLI_QUIT then CLI_QUIT else CLI_OK, s')"
proof -
  have ws: "ws @ args \<noteq> []" using leads_words [OF assms(2)] by simp
  from joined_start [OF ws assms(7)] obtain a r where j: "join_words (ws @ args) = a # r" "\<not> isspace a" by blast
  have "gw_cli_find_command [] commands (ws @ args) s = Some (rc, s')" by (rule find_leads [OF assms(2,1,3-6)])
  then show ?thesis using parse_join [OF assms(7,8)] j ws by (simp add: gw_cli_run_command_def)
qed

text \<open>
  Registering a command at the root keeps the tree in order: with a new name in lower case it succeeds as long as
  there is room, the abbreviations of all commands are right afterwards, and the new command is among them.
\<close>

theorem register_keeps_order:
  assumes "tree_ok root" "sum_list (map command_size root) < GW_MAX_CLI_COMMAND" "n \<notin> set (map cc_command root)" "n \<noteq> []" "lower n = n"
  shows "\<exists>root' c. gw_cli_register_command root [] n f p m = Some root' \<and> tree_ok root' \<and> map cc_command root' = map cc_command root @ [n] \<and>
    c \<in> set root' \<and> cc_command c = n \<and> cc_callback c = f \<and> cc_privilege c = p \<and> cc_mode c = m \<and> cc_children c = []"
proof -
  let ?new = "Command n f 0 p m []"
  let ?root = "gw_cli_build_shortest (root @ [?new])"
  have "tree_ok ?root" using assms by (intro tree_ok_build) (auto simp: tree_ok_def names_ok_def)
  moreover have "?root ! length root \<in> set ?root" by (rule nth_mem) simp
  moreover have "map cc_command ?root = map cc_command (root @ [?new])" by (rule build_names)
  moreover have "cc_children (?root ! length root) = []" by (simp add: build_nth nth_append)
  ultimately show ?thesis using assms(2)
    by (intro exI [of _ ?root] exI [of _ "?root ! length root"]) (simp add: gw_cli_register_command_def build_nth)
qed

text \<open>Commands that need more than the privilege get other callbacks.\<close>

fun replace_above :: "int \<Rightarrow> (string \<Rightarrow> 'w cli_fun option) \<Rightarrow> 'w cli_command \<Rightarrow> 'w cli_command" where
  "replace_above p g (Command n f u pr m cs) = Command n (if p < pr then g n else f) u pr m (map (replace_above p g) cs)"

lemma replace_above_simps [simp]:
  "cc_command (replace_above p g c) = cc_command c" "cc_unique_len (replace_above p g c) = cc_unique_len c" "cc_privilege (replace_above p g c) = cc_privilege c"
  "cc_mode (replace_above p g c) = cc_mode c" "cc_children (replace_above p g c) = map (replace_above p g) (cc_children c)"
  "\<not> p < cc_privilege c \<Longrightarrow> cc_callback (replace_above p g c) = cc_callback c"
  by (cases c; simp)+

lemma scan_replace:
  "cli_scan p mode w (map (replace_above p g) cs) (map_option (replace_above p g) again) =
     (case cli_scan p mode w cs again of Here c \<Rightarrow> Here (replace_above p g c) | Config c \<Rightarrow> Config (replace_above p g c) | Nobody \<Rightarrow> Nobody)"
  by (induction cs arbitrary: again) (auto simp: cli_matches_def split: option.split, (metis option.simps(9))+)

lemma scan_allowed:
  "(\<forall>c. again = Some c \<longrightarrow> \<not> p < cc_privilege c) \<Longrightarrow>
   (cli_scan p mode w cs again = Here c \<longrightarrow> \<not> p < cc_privilege c) \<and> (cli_scan p mode w cs again = Config c \<longrightarrow> \<not> p < cc_privilege c)"
  by (induction cs arbitrary: again) (auto simp: cli_matches_def split: option.split)

lemma call_replace: "\<not> p < cc_privilege c \<Longrightarrow> call_back parents (replace_above p g c) args s = call_back parents c args s"
  by (cases "cc_callback c") (simp_all add: call_back_def)

text \<open>
  C18. A user cannot run what is above the privilege. The result of a search depends in no way on the callbacks of commands that need a
  higher privilege than the one that the session has at its start, wherever in the tree they are: with any others in their place
  the same callbacks are called in the same states.
\<close>

theorem privilege_respected:
  "gw_cli_find_command parents (map (replace_above (cl_privilege s) g) commands) words s = gw_cli_find_command parents commands words s"
proof (induction parents commands words s rule: gw_cli_find_command.induct)
  case (2 parents commands word words s)
  let ?p = "cl_privilege s" and ?pick = "cli_scan (cl_privilege s) (cl_mode s) word commands None"
  have sc: "cli_scan ?p (cl_mode s) word (map (replace_above ?p g) commands) None =
     (case ?pick of Here c \<Rightarrow> Here (replace_above ?p g c) | Config c \<Rightarrow> Config (replace_above ?p g c) | Nobody \<Rightarrow> Nobody)"
    using scan_replace [of ?p "cl_mode s" word g commands None] by simp
  have al: "\<not> ?p < cc_privilege c" if "?pick = Here c \<or> ?pick = Config c" for c
    using scan_allowed [of None ?p "cl_mode s" word commands] that by blast
  have pr: "cl_privilege (gw_cli_set_configmode MODE_CONFIG [] s) = ?p"
    by (simp add: gw_cli_set_configmode_def set_mode_def gw_cli_set_modestring_def Let_def)
  show ?case
  proof (cases ?pick)
    case (Here c)
    then show ?thesis using al [of c] 2(1) [of "(c, s)" c s] by (auto simp: sc call_replace intro!: Option.bind_cong)
  next
    case (Config c)
    then show ?thesis using al [of c] 2(1) [of "(c, gw_cli_set_configmode MODE_CONFIG [] s)" c "gw_cli_set_configmode MODE_CONFIG [] s"]
      by (auto simp: sc call_replace pr intro!: Option.bind_cong)
  next
    case Nobody
    then show ?thesis by (simp add: sc)
  qed
qed simp

text \<open>
  An abbreviation can be taken by a younger sibling. Two commands at the root have longer names that start with the same letter, so that
  the letter abbreviates neither. When a command is registered below the second, the lengths are computed without the first, and
  the letter alone runs the second.
\<close>

theorem abbreviation_taken:
  assumes "root = [Command (x # as) fa ua pa ma ca, Command (x # bs) (Some g) ub pb MODE_ANY cb]" "tree_ok root" "x \<noteq> CHR ''?''" "as \<noteq> []" "bs \<noteq> []"
    and "pb \<le> cl_privilege s" "gw_cli_register_command root [1] n f p m = Some root'"
  shows "gw_cli_find_command [] root [[x]] s = Some (CLI_ERROR_ARG, s) \<and>
    gw_cli_find_command [] root' [[x]] s = g (gw_cli_command_name [] [x # bs]) [] s"
proof -
  have l: "tolower x = x" "lower as = as" "lower bs = bs" "as \<noteq> bs" using assms(1,2) by (auto simp: tree_ok_def names_ok_def)
  have "unique_len [x # as, x # bs] 0 = ua" "unique_len [x # as, x # bs] 1 = ub"
    using assms(1,2) by (auto simp: tree_ok_def lens_ok_def)
  then have u: "2 \<le> ua" "2 \<le> ub" by (auto simp: unique_len_def)
  have no: "\<not> strncaseeq k (x # cs) [x]" if "2 \<le> k" "cs \<noteq> []" for k cs
    using that by (auto simp: strncaseeq_take neq_Nil_conv take_Cons' numeral_2_eq_2 split: if_splits)
  have yes: "strncaseeq k (x # cs) [x]" if "k \<le> 1" for k cs
    using that by (cases k) auto
  define b where "b = set_unique_len 1 (build_children (Command (x # bs) (Some g) ub pb MODE_ANY (cb @ [Command n f 0 p m []])))"
  have "root' = [Command (x # as) fa ua pa ma ca, b]"
    using assms(7) by (auto simp: gw_cli_register_command_def assms(1) gw_cli_build_shortest_def unique_len_def b_def split: if_splits)
  moreover have "cc_command b = x # bs" "cc_callback b = Some g" "cc_privilege b = pb" "cc_mode b = MODE_ANY" "cc_unique_len b = 1"
    by (simp_all add: b_def)
  ultimately have "gw_cli_find_command [] root' [[x]] s = g (gw_cli_command_name [] [x # bs]) [] s"
    using assms(3,6) no [OF u(1) assms(4)] yes by (simp add: cli_matches_def call_back_def)
  moreover have "gw_cli_find_command [] root [[x]] s = Some (CLI_ERROR_ARG, s)"
    using assms(3) no [OF u(1) assms(4)] no [OF u(2) assms(5)] by (simp add: assms(1) cli_matches_def)
  ultimately show ?thesis by blast
qed

section \<open>The history\<close>

definition same_line :: "string \<Rightarrow> string \<Rightarrow> bool" where "same_line h cmd \<longleftrightarrow> strncaseeq (Suc (length cmd)) h cmd"

fun add_lines :: "string list \<Rightarrow> 'w cli_def \<Rightarrow> 'w cli_def option" where
  "add_lines [] s = Some s" | "add_lines (l # ls) s = Option.bind (gw_cli_add_history l s) (add_lines ls)"

fun no_repeats :: "string list \<Rightarrow> bool" where
  "no_repeats (a # b # ls) \<longleftrightarrow> \<not> same_line a b \<and> no_repeats (b # ls)" | "no_repeats _ \<longleftrightarrow> True"

definition last_lines :: "string list \<Rightarrow> string list" where
  "last_lines ls = drop (length ls - MAX_HISTORY) ls @ replicate (MAX_HISTORY - length ls) []"

lemma add_lines_append: "add_lines (xs @ ys) s = Option.bind (add_lines xs s) (add_lines ys)"
  by (induction xs arbitrary: s) (auto split: Option.bind_split)

lemma no_repeats_last: "no_repeats (ls @ [l]) \<Longrightarrow> no_repeats ls \<and> (ls \<noteq> [] \<longrightarrow> \<not> same_line (last ls) l)"
  by (induction ls rule: no_repeats.induct) auto

lemma add_last:
  assumes "cl_history s = last_lines ls" "\<forall>l\<in>set ls. l \<noteq> []" "ls \<noteq> [] \<longrightarrow> \<not> same_line (last ls) l" "length l < MAX_LINE_LENTH"
  shows "gw_cli_add_history l s = Some (s\<lparr>cl_history := last_lines (ls @ [l])\<rparr>)"
proof (cases "length ls < MAX_HISTORY")
  case True
  then have h: "cl_history s = ls @ replicate (MAX_HISTORY - length ls) []" using assms(1) by (simp add: last_lines_def)
  have t: "length (takeWhile (\<lambda>l. l \<noteq> []) (cl_history s)) = length ls"
    using True assms(2) by (simp add: h takeWhile_append2 takeWhile_eq_Nil_iff)
  have "(cl_history s)[length ls := l] = last_lines (ls @ [l])"
    using True by (cases "MAX_HISTORY - length ls") (auto simp: h last_lines_def list_update_append)
  moreover have "ls \<noteq> [] \<longrightarrow> cl_history s ! (length ls - 1) = last ls" by (auto simp: h nth_append last_conv_nth)
  moreover have "length (cl_history s) = MAX_HISTORY" using True by (simp add: h)
  ultimately show ?thesis using assms(3,4) True t by (auto simp: gw_cli_add_history_def Let_def same_line_def)
next
  case False
  then have h: "cl_history s = drop (length ls - MAX_HISTORY) ls" using assms(1) by (simp add: last_lines_def)
  have "takeWhile (\<lambda>l. l \<noteq> []) (cl_history s) = cl_history s" using assms(2) by (auto simp: h takeWhile_eq_all_conv dest: in_set_dropD)
  then have "length (takeWhile (\<lambda>l. l \<noteq> []) (cl_history s)) = length (cl_history s)" by (rule arg_cong)
  moreover have "tl (cl_history s) @ [l] = last_lines (ls @ [l])"
  proof -
    have "Suc (length ls - 10) = length ls - 9" using False by (simp add: MAX_HISTORY_def)
    then show ?thesis using False by (simp add: h last_lines_def tl_drop drop_Suc [symmetric] MAX_HISTORY_def)
  qed
  ultimately show ?thesis using assms(4) by (simp add: gw_cli_add_history_def Let_def)
qed

text \<open>
  The history holds the last ten lines. After any number of lines of which none is empty or too long and none repeats the one before
  it, the history has the last ten in their order, or all of them and empty entries.
\<close>

theorem history_keeps_last:
  assumes "\<forall>l\<in>set ls. l \<noteq> [] \<and> length l < MAX_LINE_LENTH" "no_repeats ls"
  shows "\<exists>s'. add_lines ls (gw_cli_free_history s) = Some s' \<and>
    cl_history s' = drop (length ls - MAX_HISTORY) ls @ replicate (MAX_HISTORY - length ls) []"
proof -
  have "add_lines ls (gw_cli_free_history s) = Some (s\<lparr>cl_history := last_lines ls\<rparr>)" using assms
  proof (induction ls rule: rev_induct)
    case Nil
    then show ?case by (simp add: gw_cli_free_history_def last_lines_def)
  next
    case (snoc l ls)
    from no_repeats_last [OF snoc.prems(2)] snoc add_last [of "s\<lparr>cl_history := last_lines ls\<rparr>" ls l]
    show ?case by (simp add: add_lines_append)
  qed
  then show ?thesis by (simp add: last_lines_def)
qed

theorem history_keeps_last_witness:
  "\<exists>s'. add_lines [''help'', ''exit'', ''help''] (gw_cli_free_history (gw_cli_init ())) = Some s' \<and>
     cl_history s' = [''help'', ''exit'', ''help''] @ replicate 7 []"
  using history_keeps_last [of "[''help'', ''exit'', ''help'']" "gw_cli_init ()"]
  by (simp add: MAX_LINE_LENTH_def MAX_HISTORY_def same_line_def tolower_def Let_def numeral_eq_Suc)

section \<open>On a small tree\<close>

definition bench_tree :: "unit cli_command list" where
  "bench_tree = gw_cli_build_shortest
     [Command ''help'' (Some gw_cli_int_help) 0 0 MODE_ANY [], Command ''history'' (Some gw_cli_int_history) 0 0 MODE_ANY [],
      Command ''enable'' (Some gw_cli_int_configure_terminal) 0 0 MODE_ANY [], Command ''exit'' (Some gw_cli_int_exit) 0 0 MODE_ANY []]"

lemma bench_tree_ok: "tree_ok bench_tree"
  unfolding bench_tree_def by (rule tree_ok_build) (simp_all add: names_ok_def tolower_def Let_def)

lemma bench_enable: "Command ''enable'' (Some gw_cli_int_configure_terminal) 2 0 MODE_ANY [] \<in> set bench_tree"
  by (simp add: bench_tree_def gw_cli_build_shortest_def unique_len_def numeral_2_eq_2)

theorem command_run_witness:
  "\<exists>s'. gw_cli_run_command bench_tree ''en'' (gw_cli_init ()) = Some (CLI_OK, s') \<and> cl_mode s' = MODE_CONFIG \<and> cl_privilege s' = PRIVILEGE_PRIVILEGED"
proof -
  let ?c = "Command ''enable'' (Some gw_cli_int_configure_terminal) 2 0 MODE_ANY [] :: unit cli_command"
  define s where "s = gw_cli_init ()"
  have s: "cl_privilege s = 0" by (simp add: s_def gw_cli_init_def gw_cli_set_configmode_def set_mode_def gw_cli_set_privilege_def gw_cli_set_modestring_def gw_cli_set_promptchar_def Let_def)
  have "cli_matches (cl_privilege s) ''en'' ?c"
    by (simp add: cli_matches_def s strncaseeq_take tolower_def Let_def numeral_2_eq_2)
  then have l: "leads (cl_privilege s) (cl_mode s) [] bench_tree [''en''] ?c []" by (intro leads_here bench_enable) simp_all
  have f: "gw_cli_int_configure_terminal (gw_cli_command_name [] [cc_command ?c]) [] s = Some (CLI_OK, gw_cli_set_privilege PRIVILEGE_PRIVILEGED (gw_cli_set_configmode MODE_CONFIG [] s))"
    by (simp add: gw_cli_int_configure_terminal_def unless_help_def cli_help_requested_def)
  have w: "\<forall>w\<in>set ([''en''] @ []). plain_word w" by (simp add: plain_word_def isspace_def Let_def MAX_WORDS_LEN_def)
  from command_run [where args = "[]" and f = gw_cli_int_configure_terminal, OF bench_tree_ok l _ _ f _ w] show ?thesis
    by (simp add: s_def [symmetric] gw_cli_set_configmode_def set_mode_def gw_cli_set_privilege_def gw_cli_set_modestring_def gw_cli_set_promptchar_def Let_def)
qed

theorem register_keeps_order_witness:
  "\<exists>root'. gw_cli_register_command bench_tree [] ''reset'' (Some gw_cli_int_quit) 0 MODE_ANY = Some root' \<and> tree_ok root' \<and>
     map cc_command root' = [''help'', ''history'', ''enable'', ''exit'', ''reset'']"
proof -
  have n: "map cc_command bench_tree = [''help'', ''history'', ''enable'', ''exit'']" by (simp add: bench_tree_def)
  have "sum_list (map command_size bench_tree) < GW_MAX_CLI_COMMAND"
    by (simp add: bench_tree_def gw_cli_build_shortest_def GW_MAX_CLI_COMMAND_def)
  from register_keeps_order [OF bench_tree_ok this, of "''reset''" "Some gw_cli_int_quit" 0 MODE_ANY] show ?thesis
    by (auto simp: n tolower_def Let_def)
qed

theorem abbreviation_taken_witness:
  "\<exists>root root' :: unit cli_command list. gw_cli_register_command root [1] ''reset'' None 0 MODE_ANY = Some root' \<and>
     gw_cli_find_command [] root [''h''] (gw_cli_init ()) = Some (CLI_ERROR_ARG, gw_cli_init ()) \<and>
     gw_cli_find_command [] root' [''h''] (gw_cli_init ()) = gw_cli_int_history (Some ''history '') [] (gw_cli_init ())"
proof -
  define root :: "unit cli_command list" where "root = [Command ''help'' (Some gw_cli_int_help) 2 0 MODE_ANY [], Command ''history'' (Some gw_cli_int_history) 2 0 MODE_ANY []]"
  have t: "tree_ok root"
    by (simp add: tree_ok_def root_def names_ok_def tolower_def Let_def lens_ok_def unique_len_def less_Suc_eq numeral_2_eq_2)
  obtain root' where r: "gw_cli_register_command root [1] ''reset'' None 0 MODE_ANY = Some root'"
    by (simp add: gw_cli_register_command_def root_def GW_MAX_CLI_COMMAND_def)
  have s: "0 \<le> cl_privilege (gw_cli_init ())" by (simp add: gw_cli_init_def gw_cli_set_configmode_def set_mode_def gw_cli_set_privilege_def gw_cli_set_modestring_def gw_cli_set_promptchar_def Let_def)
  from abbreviation_taken [OF root_def [unfolded append_Nil] t _ _ _ s r] r show ?thesis
    by (auto simp: MAX_LINE_LENTH_def)
qed

end
