(* ===== verification/User_Mac.thy ===== *)
theory User_Mac
  imports Gw_Port Oam_Msg
begin

text \<open>
  Locating the port of a user's MAC address: the scan of the switch's forwarding table and the
  search in its result (\<^verbatim>\<open>apps/gw_usermac.c\<close>), and the request of the OLT that uses them (case
  \<^verbatim>\<open>ONU_LOCATE_USER\<close> of \<^verbatim>\<open>GwOamInformationRequest\<close>).
\<close>

section \<open>Data\<close>

definition USR_MAC_MAX_T :: nat where "USR_MAC_MAX_T = 256"
definition USR_MAC_RESPONS_MAC_MAX :: nat where "USR_MAC_RESPONS_MAC_MAX = 32"
definition USR_MAC_REQUEST_MAX :: nat where "USR_MAC_REQUEST_MAX = 64"
definition NOMAC :: int where "NOMAC = 1"
definition HAVEMAC :: int where "HAVEMAC = 0"
definition ONU_LOCATE_USER :: u8 where "ONU_LOCATE_USER = 200"

lemmas user_mac_limits = USR_MAC_MAX_T_def USR_MAC_RESPONS_MAC_MAX_def USR_MAC_REQUEST_MAX_def

record mac_save =
  ms_egport :: u32
  ms_swmac :: "u8 list"

text \<open>
  The driver's \<^verbatim>\<open>fdbentrygetnext\<close>: from a VLAN and an address to the VLAN, address, port map
  and kind of the next entry, or \<open>None\<close> when it fails.
\<close>

type_synonym fdb_entry = "u32 \<times> u8 list \<times> u32 \<times> u32"
type_synonym fdb_next = "u32 \<Rightarrow> u8 list \<Rightarrow> fdb_entry option"

section \<open>The scan of the table\<close>

text \<open>The loop over the physical ports: the last value of \<^verbatim>\<open>logport\<close>, and the port stored.\<close>

fun port_scan :: "u8 list \<Rightarrow> nat list \<Rightarrow> u32 \<Rightarrow> u32 \<times> u32 option" where
  "port_scan phyportmember [] logport = (logport, None)"
| "port_scan phyportmember (phyport # ps) logport =
     (if phyportmember ! phyport = PHY_OK
      then (case boards_physical_to_logical 0 (of_nat phyport) of
              (r, l) \<Rightarrow>
                let logport' = (case l of None \<Rightarrow> logport | Some x \<Rightarrow> x) in
                if r = 0 then port_scan phyportmember ps logport'
                else if unat logport' > NUM_PORTS_PER_SYSTEM \<or> unat logport' < NUM_PORTS_MINIMUM_SYSYTEM
                then port_scan phyportmember ps logport'
                else (logport', Some logport'))
      else port_scan phyportmember ps logport)"

text \<open>\<open>None\<close>: the loop does not end. The result: buffer, last address, number of entries, \<^verbatim>\<open>ifhavemac\<close>.\<close>

partial_function (option) fdb_loop ::
  "fdb_next \<Rightarrow> mac_save list \<Rightarrow> u32 \<Rightarrow> u8 list \<Rightarrow> nat \<Rightarrow> u32 \<Rightarrow> int \<Rightarrow> (mac_save list \<times> u8 list \<times> nat \<times> int) option" where
  "fdb_loop getnext macbuf vid lastmac i logport have_mac =
     (case getnext vid lastmac of
        None \<Rightarrow> Some (macbuf, lastmac, i, have_mac)
      | Some (vid', mac', egports, statics) \<Rightarrow>
          if onu_mulimac_cheak (Some mac') = GW_OK then fdb_loop getnext macbuf vid' mac' i logport have_mac
          else (case onu_bitport_phyport_get egports (Some []) of
                  (ret, ms) \<Rightarrow>
                    if ret = GW_ERROR then fdb_loop getnext macbuf vid' mac' i logport have_mac
                    else (case port_scan (the ms) [0..<PHY_PORT_MAX] logport of
                            (logport', p) \<Rightarrow>
                              let buf1 = (case p of None \<Rightarrow> macbuf
                                          | Some x \<Rightarrow> macbuf[i := (macbuf ! i)\<lparr>ms_egport := x\<rparr>]) in
                              if logport' = 0 then fdb_loop getnext buf1 vid' mac' i logport' have_mac
                              else let buf2 = buf1[i := (buf1 ! i)\<lparr>ms_swmac := mac'\<rparr>] in
                                if Suc i \<ge> USR_MAC_MAX_T then Some (buf2, mac', Suc i, have_mac)
                                else fdb_loop getnext buf2 vid' mac' (Suc i) logport' NOMAC)))"

definition user_mac_onu_fdb_get ::
  "fdb_next \<Rightarrow> mac_save list \<Rightarrow> u8 list \<Rightarrow> (int \<times> mac_save list \<times> u8 list \<times> nat \<times> int) option" where
  "user_mac_onu_fdb_get getnext macbuf lastmac =
     map_option (Pair GW_OK) (fdb_loop getnext macbuf 0 lastmac 0 0 HAVEMAC)"

section \<open>The search\<close>

text \<open>
  \<open>sw\<close>: what \<^verbatim>\<open>RCP_Dev_Is_Exist\<close> and \<^verbatim>\<open>rcpDevList\<close> of the module of attached
  switches say about a port: the address of the switch that answers there, if any.
\<close>

type_synonym sub_switch = "nat \<Rightarrow> u8 list option"

record loc_out =
  lo_onuslot :: nat
  lo_onuport :: nat
  lo_subsw :: u8
  lo_swmac :: "u8 list"
  lo_swport :: u32

fun locateUserMac ::
  "sub_switch \<Rightarrow> u8 list \<Rightarrow> mac_save list \<Rightarrow> loc_out \<Rightarrow> int \<times> loc_out" where
  "locateUserMac sw mac [] out = (GW_ERROR, out)"
| "locateUserMac sw mac (e # es) out =
     (if mac = ms_swmac e
      then if unat (ms_egport e) \<ge> NUM_PORTS_PER_SYSTEM \<or> unat (ms_egport e) < NUM_PORTS_MINIMUM_SYSYTEM
           then locateUserMac sw mac es out
           else let out1 = out\<lparr>lo_onuslot := unat (ms_egport e) div 32 + 1, lo_onuport := unat (ms_egport e) mod 32\<rparr> in
             (case sw (lo_onuport out1) of
                Some m \<Rightarrow> (GW_OK, out1\<lparr>lo_subsw := 1, lo_swmac := m, lo_swport := 0\<rparr>)
              | None \<Rightarrow> (GW_OK, out1\<lparr>lo_subsw := 0\<rparr>))
      else locateUserMac sw mac es out)"

section \<open>The request\<close>

record loc_resp =
  lr_usermac :: "u8 list"
  lr_onuslot :: u8
  lr_onuport :: u8
  lr_subsw :: u8
  lr_swmac :: "u8 list"
  lr_swport :: u32

definition nullmac :: "u8 list" where "nullmac = replicate 6 0"

text \<open>One pass over the requested addresses: whether it jumps to \<^verbatim>\<open>END\<close>, and the new state.\<close>

fun locate_pass ::
  "sub_switch \<Rightarrow> mac_save list \<Rightarrow> nat \<Rightarrow> nat list \<Rightarrow> u8 list list \<Rightarrow> loc_resp list \<Rightarrow> loc_out \<Rightarrow>
   bool \<times> u8 list list \<times> loc_resp list \<times> loc_out" where
  "locate_pass sw found macNum [] info resps out = (False, info, resps, out)"
| "locate_pass sw found macNum (r # rs) info resps out =
     (if info ! r = nullmac then locate_pass sw found macNum rs info resps out
      else (case locateUserMac sw (info ! r) found out of
              (st, out1) \<Rightarrow>
                if st = GW_OK
                then let resp = \<lparr>lr_usermac = info ! r, lr_onuslot = of_nat (lo_onuslot out1), lr_onuport = of_nat (lo_onuport out1),
                                 lr_subsw = lo_subsw out1, lr_swmac = lo_swmac out1, lr_swport = lo_swport out1\<rparr>;
                         info1 = info[r := nullmac]; resps1 = resps @ [resp] in
                     if length resps1 = macNum \<or> length resps1 \<ge> USR_MAC_RESPONS_MAC_MAX then (True, info1, resps1, out1)
                     else locate_pass sw found macNum rs info1 resps1 out1
                else locate_pass sw found macNum rs info resps out1))"

text \<open>\<^verbatim>\<open>while(!ifhavemac)\<close>; \<open>None\<close>: it does not end.\<close>

partial_function (option) locate_loop ::
  "fdb_next \<Rightarrow> sub_switch \<Rightarrow> nat \<Rightarrow> mac_save list \<Rightarrow> u8 list \<Rightarrow> u8 list list \<Rightarrow> loc_resp list \<Rightarrow>
   loc_out \<Rightarrow> loc_resp list option" where
  "locate_loop getnext sw macNum macbuf lastmac info resps out =
     (case user_mac_onu_fdb_get getnext macbuf lastmac of
        None \<Rightarrow> None
      | Some (r, macbuf1, lastmac1, n, have_mac) \<Rightarrow>
          if n = 0 then Some resps
          else (case locate_pass sw (take n macbuf1) macNum [0..<macNum] info resps out of
                  (done, info1, resps1, out1) \<Rightarrow>
                    if done then Some resps1
                    else locate_loop getnext sw macNum macbuf1 lastmac1 info1 resps1 out1))"

definition resp_bytes :: "loc_resp \<Rightarrow> u8 list" where
  "resp_bytes r = lr_usermac r @ [0, 0, lr_onuslot r, lr_onuport r, lr_subsw r] @ lr_swmac r @ bytes_of_u32 (lr_swport r)"

definition locate_response :: "loc_resp list \<Rightarrow> u8 list" where
  "locate_response resps = [ONU_LOCATE_USER, 1, 1, of_nat (length resps)] @ concat (map resp_bytes resps) @ [0]"

text \<open>
  \<open>mem\<close>: the response header can be allocated. \<open>Some None\<close>: the addresses are read beyond the
  end of the payload.
\<close>

definition onu_locate_user ::
  "fdb_next \<Rightarrow> sub_switch \<Rightarrow> bool \<Rightarrow> u8 list \<Rightarrow> u32 \<Rightarrow> u8 list \<Rightarrow>
   (int \<times> (oam_frame \<times> nat) list) option option" where
  "onu_locate_user getnext sw mem payload SendSerNo SessionID =
     (if \<not> mem then Some (Some (-1, []))
      else if length payload < 4 then Some None
      else let macNum = unat (payload ! 3) in
        if macNum > USR_MAC_REQUEST_MAX then Some (Some (-1, []))
        else if length payload < 4 + 6 * macNum then Some None
        else (case locate_loop getnext sw macNum (replicate USR_MAC_MAX_T \<lparr>ms_egport = 0, ms_swmac = nullmac\<rparr>) nullmac
                     (map (\<lambda>r. take 6 (drop (4 + 6 * r) payload)) [0..<macNum]) []
                     \<lparr>lo_onuslot = 0, lo_onuport = 0, lo_subsw = 0, lo_swmac = nullmac, lo_swport = 0\<rparr> of
                None \<Rightarrow> None
              | Some resps \<Rightarrow>
                  if resps = [] then Some (Some (-1, []))
                  else Some (Some (CommOnuMsgSend EQU_DEVICE_INFO_RESP SendSerNo (locate_response resps) (Some SessionID)))))"

section \<open>The entries a scan collects\<close>

text \<open>The first port of a port map, and the entries that have one, in the order of the walk.\<close>

definition map_ports :: "u32 \<Rightarrow> nat list" where
  "map_ports egports = filter (bit egports) [0..<PHY_PORT_MAX]"

definition fdb_saved :: "fdb_entry list \<Rightarrow> mac_save list" where
  "fdb_saved es = map (\<lambda>(v, m, e, s). \<lparr>ms_egport = of_nat (hd (map_ports e) + 1), ms_swmac = m\<rparr>)
     (filter (\<lambda>(v, m, e, s). map_ports e \<noteq> []) es)"

text \<open>The driver walks through \<open>es\<close> and then fails.\<close>

fun walk :: "fdb_next \<Rightarrow> u32 \<Rightarrow> u8 list \<Rightarrow> fdb_entry list \<Rightarrow> bool" where
  "walk getnext vid mac [] \<longleftrightarrow> getnext vid mac = None"
| "walk getnext vid mac ((v, m, e, s) # es) \<longleftrightarrow> getnext vid mac = Some (v, m, e, s) \<and> walk getnext v m es"

lemma member_bits:
  "onu_bitport_phyport_get e (Some l) =
     (if map_ports e = [] then GW_ERROR else GW_OK, Some (map (\<lambda>p. if bit e p then PHY_OK else PHY_ERROR) [0..<PHY_PORT_MAX]))"
proof -
  have "(e AND push_bit p 1 \<noteq> 0) = bit e p" for p by (simp add: bit_iff_and_push_bit_not_eq_0)
  then show ?thesis
    by (auto simp: onu_bitport_phyport_get_def map_ports_def filter_empty_conv Let_def PHY_OK_def PHY_ERROR_def simp del: upt_rec_numeral)
qed

lemma physical_small: "p < 26 \<Longrightarrow> boards_physical_to_logical 0 (of_nat p) = (1, Some (of_nat p + 1))"
  by (simp add: physical_to_logical_0 unat_of_nat_u32)

lemma unat_suc_small: "p < 26 \<Longrightarrow> unat (of_nat p + 1 :: u32) = Suc p"
  using unat_of_nat_u32 [of "Suc p"] by (simp add: add.commute)

lemma port_scan_first:
  assumes "\<forall>p \<in> set ps. p < 26"
  shows "port_scan ms ps lp =
    (case filter (\<lambda>p. ms ! p = PHY_OK) ps of [] \<Rightarrow> (lp, None) | p # _ \<Rightarrow> (of_nat p + 1, Some (of_nat p + 1)))"
  using assms
  by (induction ps) (auto simp: physical_small unat_suc_small port_limits Let_def split: list.splits)

lemma port_scan_members:
  assumes "map_ports e \<noteq> []"
  shows "port_scan (map (\<lambda>p. if bit e p then PHY_OK else PHY_ERROR) [0..<PHY_PORT_MAX]) [0..<PHY_PORT_MAX] lp =
    (of_nat (hd (map_ports e) + 1), Some (of_nat (hd (map_ports e) + 1))) \<and> (of_nat (hd (map_ports e) + 1) :: u32) \<noteq> 0"
proof -
  let ?ms = "map (\<lambda>p. if bit e p then PHY_OK else PHY_ERROR) [0..<PHY_PORT_MAX]"
  have f: "filter (\<lambda>p. ?ms ! p = PHY_OK) [0..<PHY_PORT_MAX] = map_ports e"
    by (auto simp: map_ports_def PHY_OK_def PHY_ERROR_def intro!: filter_cong split: if_splits simp del: upt_rec_numeral)
  obtain p ps where p: "map_ports e = p # ps" using assms by (cases "map_ports e") auto
  have p26: "p < 26"
  proof -
    have "p \<in> set (map_ports e)" by (simp add: p)
    then show ?thesis by (simp add: map_ports_def port_limits)
  qed
  have "\<forall>q \<in> set [0..<PHY_PORT_MAX]. q < 26" by (simp add: port_limits)
  from port_scan_first [OF this, of ?ms lp] show ?thesis
    using unat_suc_small [OF p26] by (auto simp: f p add.commute)
qed

text \<open>The address of the last entry of the walk, from which the next scan goes on.\<close>

definition last_mac :: "u8 list \<Rightarrow> fdb_entry list \<Rightarrow> u8 list" where
  "last_mac mac es = last (mac # map (\<lambda>(v, m, e, s). m) es)"

lemma last_mac_simps [simp]:
  "last_mac mac [] = mac"
  "last_mac mac ((v, m, e, s) # es) = last_mac m es"
  by (simp_all add: last_mac_def)

lemma fdb_loop_walk:
  assumes "walk getnext vid mac es" "i < 256" "length buf = 256"
  shows "\<exists>buf' mac' h. fdb_loop getnext buf vid mac i lp hv = Some (buf', mac', min 256 (i + length (fdb_saved es)), h) \<and>
    length buf' = 256 \<and> take (min 256 (i + length (fdb_saved es))) buf' = take i buf @ take (256 - i) (fdb_saved es) \<and>
    (i + length (fdb_saved es) < 256 \<longrightarrow> mac' = last_mac mac es)"
  using assms
proof (induction es arbitrary: vid mac i buf lp hv)
  case Nil
  then show ?case by (subst fdb_loop.simps) (simp add: fdb_saved_def)
next
  case (Cons x es)
  obtain v m e s where x: "x = (v, m, e, s)" by (cases x)
  have n: "getnext vid mac = Some (v, m, e, s)" "walk getnext v m es" using Cons.prems(1) by (simp_all add: x)
  have mu: "onu_mulimac_cheak (Some m) \<noteq> GW_OK" by (simp add: mulimac_never gw_status_defs)
  show ?case
  proof (cases "map_ports e = []")
    case True
    have "fdb_saved (x # es) = fdb_saved es" by (simp add: fdb_saved_def x True)
    moreover have "fdb_loop getnext buf vid mac i lp hv = fdb_loop getnext buf v m i lp hv"
      by (subst fdb_loop.simps) (simp add: n mu member_bits True)
    ultimately show ?thesis using Cons.IH [OF n(2) Cons.prems(2,3)] by (simp add: x)
  next
    case False
    let ?e = "\<lparr>ms_egport = of_nat (hd (map_ports e) + 1), ms_swmac = m\<rparr>"
    have saved: "fdb_saved (x # es) = ?e # fdb_saved es" by (simp add: fdb_saved_def x False)
    have lm: "last_mac mac (x # es) = last_mac m es" by (simp add: x)
    have upd: "(buf[i := (buf ! i)\<lparr>ms_egport := ms_egport ?e\<rparr>])[i := (buf[i := (buf ! i)\<lparr>ms_egport := ms_egport ?e\<rparr>] ! i)\<lparr>ms_swmac := m\<rparr>] =
        buf[i := ?e]"
      using Cons.prems(2,3) by (cases "buf ! i") simp
    have tk: "take (Suc i) (buf[i := ?e]) = take i buf @ [?e]"
      using Cons.prems(2,3) by (simp add: take_Suc_conv_app_nth)
    have step: "fdb_loop getnext buf vid mac i lp hv =
        (if Suc i \<ge> 256 then Some (buf[i := ?e], m, Suc i, hv)
         else fdb_loop getnext (buf[i := ?e]) v m (Suc i) (ms_egport ?e) NOMAC)"
      using port_scan_members [OF False, of lp] upd
      by (subst fdb_loop.simps) (simp add: n mulimac_never member_bits False USR_MAC_MAX_T_def Let_def gw_status_defs del: of_nat_add)
    show ?thesis
    proof (cases "Suc i \<ge> 256")
      case True
      then have "i = 255" using Cons.prems(2) by simp
      then show ?thesis using step tk Cons.prems(3) by (simp add: saved)
    next
      case room: False
      from Cons.IH [OF n(2), of "Suc i" "buf[i := ?e]" "ms_egport ?e" NOMAC] room Cons.prems(3)
      obtain buf' mac' h where
        "fdb_loop getnext (buf[i := ?e]) v m (Suc i) (ms_egport ?e) NOMAC = Some (buf', mac', min 256 (Suc i + length (fdb_saved es)), h)"
        "length buf' = 256" "take (min 256 (Suc i + length (fdb_saved es))) buf' = take (Suc i) (buf[i := ?e]) @ take (256 - Suc i) (fdb_saved es)"
        "Suc i + length (fdb_saved es) < 256 \<longrightarrow> mac' = last_mac m es"
        by auto
      moreover have "take (256 - i) (?e # fdb_saved es) = ?e # take (256 - Suc i) (fdb_saved es)"
        using Cons.prems(2) by (simp add: take_Cons' Suc_diff_Suc)
      ultimately show ?thesis using step room tk by (simp add: saved lm)
    qed
  qed
qed

lemma fdb_get_walk:
  assumes "walk getnext 0 mac es" "length buf = 256"
  shows "\<exists>buf' mac' h. user_mac_onu_fdb_get getnext buf mac = Some (GW_OK, buf', mac', min 256 (length (fdb_saved es)), h) \<and>
    length buf' = 256 \<and> take (min 256 (length (fdb_saved es))) buf' = take 256 (fdb_saved es) \<and>
    (length (fdb_saved es) < 256 \<longrightarrow> mac' = last_mac mac es)"
  using fdb_loop_walk [OF assms(1) _ assms(2), of 0 0 HAVEMAC] by (auto simp: user_mac_onu_fdb_get_def)

section \<open>The search in a batch\<close>

definition on_port :: "u8 list \<Rightarrow> mac_save \<Rightarrow> bool" where
  "on_port mac e \<longleftrightarrow> ms_swmac e = mac \<and> 1 \<le> unat (ms_egport e) \<and> unat (ms_egport e) < 26"

definition user_port :: "mac_save list \<Rightarrow> u8 list \<Rightarrow> nat" where
  "user_port found mac = unat (ms_egport (the (List.find (on_port mac) found)))"

lemma locate_missing: "mac \<notin> ms_swmac ` set found \<Longrightarrow> locateUserMac sw mac found out = (GW_ERROR, out)"
  by (induction found) auto

lemma locate_none: "\<not> (\<exists>e \<in> set found. on_port mac e) \<Longrightarrow> locateUserMac sw mac found out = (GW_ERROR, out)"
  by (induction found) (auto simp: on_port_def port_limits)

lemma locate_hit:
  "\<exists>e \<in> set found. on_port mac e \<Longrightarrow> locateUserMac sw mac found out = (GW_OK,
     (case sw (user_port found mac) of
        Some m \<Rightarrow> \<lparr>lo_onuslot = 1, lo_onuport = user_port found mac, lo_subsw = 1, lo_swmac = m, lo_swport = 0\<rparr>
      | None \<Rightarrow> \<lparr>lo_onuslot = 1, lo_onuport = user_port found mac, lo_subsw = 0, lo_swmac = lo_swmac out, lo_swport = lo_swport out\<rparr>))"
proof (induction found)
  case (Cons e es)
  show ?case
  proof (cases "on_port mac e")
    case True
    then have "user_port (e # es) mac = unat (ms_egport e)" by (simp add: user_port_def)
    then show ?thesis using True by (cases out) (auto simp: on_port_def port_limits split: option.split)
  next
    case False
    then have u: "user_port (e # es) mac = user_port es mac" and ex: "\<exists>e \<in> set es. on_port mac e"
      using Cons.prems by (auto simp: user_port_def)
    have l: "locateUserMac sw mac (e # es) out = locateUserMac sw mac es out"
      using False by (auto simp: on_port_def port_limits)
    show ?thesis unfolding u l by (rule Cons.IH [OF ex])
  qed
qed simp

text \<open>
  The responses of a pass over requests that are all found. \<open>prev\<close> is the switch address of the
  answer before: an answer for a port without a switch repeats it.
\<close>

fun answers :: "sub_switch \<Rightarrow> mac_save list \<Rightarrow> u8 list \<Rightarrow> u8 list list \<Rightarrow> loc_resp list" where
  "answers sw found prev [] = []"
| "answers sw found prev (mac # macs) =
     (let p = user_port found mac; swmac = (case sw p of Some m \<Rightarrow> m | None \<Rightarrow> prev) in
      \<lparr>lr_usermac = mac, lr_onuslot = 1, lr_onuport = of_nat p, lr_subsw = (if sw p = None then 0 else 1),
       lr_swmac = swmac, lr_swport = 0\<rparr> # answers sw found swmac macs)"

lemma answers_empty [simp]: "answers sw found prev macs = [] \<longleftrightarrow> macs = []"
  by (cases macs) (simp_all add: Let_def)

text \<open>A requested address is looked for when it is not null, and found on the ports 1 to 25.\<close>

definition found_at :: "mac_save list \<Rightarrow> u8 list \<Rightarrow> bool" where
  "found_at found mac \<longleftrightarrow> mac \<noteq> nullmac \<and> (\<exists>e \<in> set found. on_port mac e)"

text \<open>
  One pass, exactly: it stops the search when all the requests are answered or 32 of them are,
  and answers those of its requests that it finds.
\<close>

lemma pass_exact:
  assumes "length resps < n" "length resps < 32" "length resps \<le> k" "length info = n" "lo_swport out = 0"
  shows "\<exists>info' out'. locate_pass sw found n [k..<n] info resps out =
    (length resps + length (filter (found_at found) (drop k info)) = n \<or>
       length resps + length (filter (found_at found) (drop k info)) \<ge> 32,
     info', resps @ answers sw found (lo_swmac out) (take (32 - length resps) (filter (found_at found) (drop k info))), out')"
  using assms
proof (induction "n - k" arbitrary: k info resps out)
  case (Suc d)
  then have k: "k < n" by simp
  have u: "[k..<n] = k # [Suc k..<n]" using k by (rule upt_conv_Cons)
  have dr: "drop k info = info ! k # drop (Suc k) info" using k Suc.prems(4) by (simp add: Cons_nth_drop_Suc)
  have d: "d = n - Suc k" using Suc.hyps(2) by simp
  show ?case
  proof (cases "found_at found (info ! k)")
    case True
    let ?p = "user_port found (info ! k)" and ?info = "info[k := nullmac]"
    let ?out = "\<lparr>lo_onuslot = 1, lo_onuport = ?p, lo_subsw = (if sw ?p = None then 0 else 1),
      lo_swmac = (case sw ?p of Some m \<Rightarrow> m | None \<Rightarrow> lo_swmac out), lo_swport = 0\<rparr>"
    let ?r = "\<lparr>lr_usermac = info ! k, lr_onuslot = 1, lr_onuport = of_nat ?p, lr_subsw = (if sw ?p = None then 0 else 1),
       lr_swmac = lo_swmac ?out, lr_swport = 0\<rparr>"
    have o: "locateUserMac sw (info ! k) found out = (GW_OK, ?out)"
      using True Suc.prems(5) by (simp add: locate_hit found_at_def split: option.split)
    have st: "locate_pass sw found n [k..<n] info resps out =
        (if Suc (length resps) = n \<or> Suc (length resps) \<ge> 32 then (True, ?info, resps @ [?r], ?out)
         else locate_pass sw found n [Suc k..<n] ?info (resps @ [?r]) ?out)"
      using True o by (simp add: u user_mac_limits Let_def found_at_def)
    have tk: "take (32 - length resps) (info ! k # ms) = info ! k # take (31 - length resps) ms" for ms
      using Suc.prems(2) by (simp add: take_Cons')
    show ?thesis
    proof (cases "Suc (length resps) = n \<or> Suc (length resps) \<ge> 32")
      case True
      have "take (31 - length resps) (filter (found_at found) (drop (Suc k) info)) = []"
        using True Suc.prems(3,4) k by auto
      then have "take (32 - length resps) (filter (found_at found) (drop k info)) = [info ! k]"
        using \<open>found_at found (info ! k)\<close> by (simp only: dr filter.simps tk simp_thms if_True)
      moreover have "length resps + length (filter (found_at found) (drop k info)) = n \<or> length resps + length (filter (found_at found) (drop k info)) \<ge> 32"
        using True Suc.prems(3,4) k \<open>found_at found (info ! k)\<close> by (auto simp: dr)
      ultimately show ?thesis using st True by (simp add: Let_def)
    next
      case False
      have l: "length (resps @ [?r]) < n" "length (resps @ [?r]) < 32" "length (resps @ [?r]) \<le> Suc k" "length ?info = n"
        using False Suc.prems(1-4) by auto
      obtain info' out' where "locate_pass sw found n [Suc k..<n] ?info (resps @ [?r]) ?out =
          (length (resps @ [?r]) + length (filter (found_at found) (drop (Suc k) ?info)) = n \<or>
             length (resps @ [?r]) + length (filter (found_at found) (drop (Suc k) ?info)) \<ge> 32,
           info', (resps @ [?r]) @ answers sw found (lo_swmac ?out)
             (take (32 - length (resps @ [?r])) (filter (found_at found) (drop (Suc k) ?info))), out')"
        using Suc.hyps(1) [OF d l, of ?out] by auto
      then show ?thesis using st False \<open>found_at found (info ! k)\<close>
        by (intro exI [of _ info'] exI [of _ out']) (simp add: dr tk Let_def)
    qed
  next
    case False
    have "locate_pass sw found n [k..<n] info resps out = locate_pass sw found n [Suc k..<n] info resps out"
    proof (cases "info ! k = nullmac")
      case False
      then have "locateUserMac sw (info ! k) found out = (GW_ERROR, out)"
        using \<open>\<not> found_at found (info ! k)\<close> by (intro locate_none) (simp add: found_at_def)
      then show ?thesis using False by (simp add: u gw_status_defs)
    qed (simp add: u)
    then show ?thesis using Suc.hyps(1) [OF d Suc.prems(1,2) _ Suc.prems(4,5)] Suc.prems(3) False by (simp add: dr)
  qed
qed simp

text \<open>A pass that misses one address does not end the search.\<close>

definition searching :: "u8 list \<Rightarrow> nat \<Rightarrow> nat \<Rightarrow> u8 list list \<Rightarrow> loc_resp list \<Rightarrow> bool" where
  "searching mac k n info resps \<longleftrightarrow> k < n \<and> n \<le> 32 \<and> length info = n \<and> info ! k = mac \<and> mac \<noteq> nullmac \<and>
     length resps \<le> length (filter (\<lambda>m. m = nullmac) info)"

lemma searching_less: "searching mac k n info resps \<Longrightarrow> length resps < n"
proof -
  assume s: "searching mac k n info resps"
  then have "info ! k \<in> set info" "info ! k \<noteq> nullmac" by (auto simp: searching_def)
  then have "length (filter (\<lambda>m. m = nullmac) info) < length info" by (intro length_filter_less)
  then show ?thesis using s by (simp add: searching_def)
qed

lemma nulls_upd: "r < length info \<Longrightarrow> info ! r \<noteq> x \<Longrightarrow>
    length (filter (\<lambda>m. m = x) (info[r := x])) = Suc (length (filter (\<lambda>m. m = x) info))"
  by (induction info arbitrary: r) (auto simp: nth_Cons' less_Suc_eq_0_disj)

lemma pass_misses:
  assumes "searching mac k n info resps" "mac \<notin> ms_swmac ` set found" "\<forall>r \<in> set rs. r < n"
  shows "\<exists>info' resps' out'. locate_pass sw found n rs info resps out = (False, info', resps', out') \<and> searching mac k n info' resps'"
  using assms(1,3)
proof (induction rs arbitrary: info resps out)
  case (Cons r rs)
  obtain st out1 where l: "locateUserMac sw (info ! r) found out = (st, out1)" by (cases "locateUserMac sw (info ! r) found out")
  show ?case
  proof (cases "info ! r \<noteq> nullmac \<and> st = GW_OK")
    case True
    let ?resp = "\<lparr>lr_usermac = info ! r, lr_onuslot = of_nat (lo_onuslot out1), lr_onuport = of_nat (lo_onuport out1),
       lr_subsw = lo_subsw out1, lr_swmac = lo_swmac out1, lr_swport = lo_swport out1\<rparr>"
    have "info ! r \<noteq> mac" using locate_missing [OF assms(2), of sw out] l True by (auto simp: gw_status_defs)
    then have s: "searching mac k n (info[r := nullmac]) (resps @ [?resp])"
      using Cons.prems True nulls_upd [of r info nullmac] by (auto simp: searching_def nth_list_update)
    have "\<not> (length (resps @ [?resp]) = n \<or> length (resps @ [?resp]) \<ge> 32)"
      using searching_less [OF s] Cons.prems(1) by (auto simp: searching_def)
    then have "locate_pass sw found n (r # rs) info resps out = locate_pass sw found n rs (info[r := nullmac]) (resps @ [?resp]) out1"
      using True l by (simp add: user_mac_limits Let_def)
    then show ?thesis using Cons.IH [OF s] Cons.prems(2) by simp
  next
    case False
    then show ?thesis using Cons.IH [OF Cons.prems(1)] Cons.prems(2) l by auto
  qed
qed auto

section \<open>The request as a whole\<close>

lemma take_req:
  "r < length reqs \<Longrightarrow> \<forall>m \<in> set reqs. length m = 6 \<Longrightarrow> take 6 (drop (6 * r) (concat reqs @ rest)) = reqs ! r"
proof (induction reqs arbitrary: r)
  case (Cons m reqs)
  show ?case
  proof (cases r)
    case (Suc j)
    have "drop (6 * r) (concat (m # reqs) @ rest) = drop (6 * j) (concat reqs @ rest)"
      using Cons.prems(2) by (simp add: Suc)
    then show ?thesis using Cons.IH [of j] Cons.prems by (simp add: Suc)
  qed (use Cons.prems in simp)
qed simp

lemma length_reqs: "\<forall>m \<in> set reqs. length m = 6 \<Longrightarrow> length (concat reqs) = 6 * length reqs"
  by (induction reqs) auto

definition loc_zero :: loc_out where
  "loc_zero = \<lparr>lo_onuslot = 0, lo_onuport = 0, lo_subsw = 0, lo_swmac = nullmac, lo_swport = 0\<rparr>"

definition locate_payload :: "u8 \<Rightarrow> u8 \<Rightarrow> u8 list list \<Rightarrow> u8 list \<Rightarrow> u8 list" where
  "locate_payload res mode reqs rest = [ONU_LOCATE_USER, res, mode, of_nat (length reqs)] @ concat reqs @ rest"

lemma locate_user_start:
  assumes "length reqs \<le> 64" "\<forall>m \<in> set reqs. length m = 6"
  shows "onu_locate_user getnext sw True (locate_payload res mode reqs rest) ser sid =
    (case locate_loop getnext sw (length reqs) (replicate 256 \<lparr>ms_egport = 0, ms_swmac = nullmac\<rparr>) nullmac reqs [] loc_zero of
       None \<Rightarrow> None
     | Some resps \<Rightarrow>
         if resps = [] then Some (Some (-1, []))
         else Some (Some (CommOnuMsgSend EQU_DEVICE_INFO_RESP ser (locate_response resps) (Some sid))))"
proof -
  let ?p = "locate_payload res mode reqs rest"
  have n: "unat (?p ! 3) = length reqs"
    using assms(1) by (simp add: locate_payload_def unsigned_of_nat take_bit_nat_eq_self)
  have l: "\<not> length ?p < 4 + 6 * length reqs" using length_reqs [OF assms(2)] by (simp add: locate_payload_def)
  have "map (\<lambda>r. take 6 (drop (4 + 6 * r) ?p)) [0..<length reqs] = reqs"
  proof (rule nth_equalityI)
    fix r assume "r < length (map (\<lambda>r. take 6 (drop (4 + 6 * r) ?p)) [0..<length reqs])"
    then have r: "r < length reqs" by simp
    have "drop 4 ?p = concat reqs @ rest" by (simp add: locate_payload_def)
    moreover have "drop (4 + 6 * r) ?p = drop (6 * r) (drop 4 ?p)" by (simp add: add.commute)
    ultimately have "drop (4 + 6 * r) ?p = drop (6 * r) (concat reqs @ rest)" by simp
    then show "map (\<lambda>r. take 6 (drop (4 + 6 * r) ?p)) [0..<length reqs] ! r = reqs ! r"
      using take_req [OF r assms(2), of rest] r by simp
  qed simp
  then show ?thesis
    using n l assms(1) by (simp add: onu_locate_user_def Let_def user_mac_limits loc_zero_def [symmetric])
qed

lemma batch_pos: "xs \<noteq> [] \<Longrightarrow> min 256 (length xs) \<noteq> 0"
  by (cases xs) auto

text \<open>A search that misses an address goes on for ever, if the scan always starts again.\<close>

lemma locate_loop_diverges:
  assumes w: "\<forall>m. walk getnext 0 m es" and ne: "fdb_saved es \<noteq> []"
    and miss: "mac \<notin> ms_swmac ` set (take 256 (fdb_saved es))"
    and s: "searching mac k n info resps" and len: "length buf = 256"
  shows "locate_loop getnext sw n buf lm info resps out = None"
proof (rule ccontr)
  assume "locate_loop getnext sw n buf lm info resps out \<noteq> None"
  then obtain y where y: "locate_loop getnext sw n buf lm info resps out = Some y" by auto
  have "\<not> (getnext = getnext \<and> n = n \<and> length buf = 256 \<and> searching mac k n info resps)"
  proof (rule locate_loop.raw_induct [where P = "\<lambda>gn sw' n' buf lm info resps out y.
        \<not> (gn = getnext \<and> n' = n \<and> length buf = 256 \<and> searching mac k n info resps)", OF _ y])
    fix loop gn and sw' :: sub_switch and n' buf lm info resps out y
    assume IH: "\<And>gn sw' n' buf lm info resps out y. loop gn sw' n' buf lm info resps out = Some y \<Longrightarrow>
        \<not> (gn = getnext \<and> n' = n \<and> length buf = 256 \<and> searching mac k n info resps)"
      and body: "(case user_mac_onu_fdb_get gn buf lm of None \<Rightarrow> None
        | Some (r, macbuf1, lastmac1, m, have_mac) \<Rightarrow>
            if m = 0 then Some resps
            else (case locate_pass sw' (take m macbuf1) n' [0..<n'] info resps out of
                    (done, info1, resps1, out1) \<Rightarrow>
                      if done then Some resps1 else loop gn sw' n' macbuf1 lastmac1 info1 resps1 out1)) = Some y"
    show "\<not> (gn = getnext \<and> n' = n \<and> length buf = 256 \<and> searching mac k n info resps)"
    proof
      assume h: "gn = getnext \<and> n' = n \<and> length buf = 256 \<and> searching mac k n info resps"
      obtain buf' mac' hv where g: "user_mac_onu_fdb_get getnext buf lm = Some (GW_OK, buf', mac', min 256 (length (fdb_saved es)), hv)"
        "length buf' = 256" "take (min 256 (length (fdb_saved es))) buf' = take 256 (fdb_saved es)"
        using fdb_get_walk [of getnext lm es buf] w h by auto
      obtain info' resps' out' where p: "locate_pass sw' (take 256 (fdb_saved es)) n [0..<n] info resps out = (False, info', resps', out')"
        "searching mac k n info' resps'"
        using pass_misses [OF conjunct2 [OF conjunct2 [OF conjunct2 [OF h]]] miss, of "[0..<n]" sw' out] by auto
      have "loop getnext sw' n buf' mac' info' resps' out' = Some y"
        using body h g p(1) batch_pos [OF ne] by simp
      then show False using IH g(2) p(2) by blast
    qed
  qed
  then show False using s len by simp
qed

text \<open>A table of two entries in VLAN 1: a multicast address on port 7, and a user on port 3.\<close>

definition fdb_two :: "fdb_entry list" where
  "fdb_two = [(1, [1, 0, 94, 0, 0, 5], 64, 1), (1, [2, 0, 0, 0, 0, 9], 260, 1)]"

definition next_two :: fdb_next where
  "next_two vid mac =
     (if vid = 0 then Some (fdb_two ! 0) else if mac = [1, 0, 94, 0, 0, 5] then Some (fdb_two ! 1) else None)"

lemma walk_two: "walk next_two 0 m fdb_two"
  by (simp add: next_two_def fdb_two_def)

text \<open>A driver that looks for the entry after an address in every VLAN.\<close>

definition next_end :: fdb_next where
  "next_end vid mac =
     (if mac = nullmac then Some (fdb_two ! 0) else if mac = [1, 0, 94, 0, 0, 5] then Some (fdb_two ! 1) else None)"

lemma walk_end: "walk next_end 0 nullmac fdb_two"
  by (simp add: next_end_def fdb_two_def nullmac_def numeral_eq_Suc)

lemma map_ports_two: "map_ports 64 = [6]" "map_ports 260 = [2, 8]"
  by code_simp+

lemma saved_two:
  "take 256 (fdb_saved fdb_two) = [\<lparr>ms_egport = 7, ms_swmac = [1, 0, 94, 0, 0, 5]\<rparr>, \<lparr>ms_egport = 3, ms_swmac = [2, 0, 0, 0, 0, 9]\<rparr>]"
  using map_ports_two by (simp add: fdb_saved_def fdb_two_def)

section \<open>Properties\<close>

text \<open>
  C38. A request for up to 64 addresses, with a forwarding table of any size whose first 256
  entries with a port are \<open>f\<close>: the first 32 requested addresses that \<open>f\<close> holds on a user port
  1 to 25 are answered, in the order of the request, and nothing else; there is no message when
  there is none. Every field is pinned: the address, slot 1, the port of its first such entry,
  whether a switch is attached there, the address of that switch - or, where there is none, the
  switch address of the answer before, which the code does not clear - and switch port 0.
  Multicast entries are not filtered out. The search comes to its end when all or 32 addresses
  are found, or when the whole table is one batch and the driver finds nothing after its last
  address; else the scan goes on from VLAN 0, and \<open>missing_user_hangs\<close> shows where it never ends.
\<close>

theorem users_located:
  assumes f_def: "f = take 256 (fdb_saved es)" and hits_def: "hits = filter (found_at f) reqs"
    and w: "walk getnext 0 nullmac es"
    and ne: "reqs \<noteq> []" and len: "length reqs \<le> 64" and six: "\<forall>m \<in> set reqs. length m = 6"
    and fin: "hits = reqs \<or> length hits \<ge> 32 \<or> length (fdb_saved es) < 256 \<and> getnext 0 (last_mac nullmac es) = None"
  shows "onu_locate_user getnext sw True (locate_payload res mode reqs rest) ser sid =
    (if hits = [] then Some (Some (-1, []))
     else Some (Some (CommOnuMsgSend EQU_DEVICE_INFO_RESP ser (locate_response (answers sw f nullmac (take 32 hits))) (Some sid))))"
proof -
  let ?n = "length reqs" and ?b = "replicate 256 \<lparr>ms_egport = 0, ms_swmac = nullmac\<rparr>"
  obtain buf' mac' hv where g: "user_mac_onu_fdb_get getnext ?b nullmac = Some (GW_OK, buf', mac', min 256 (length (fdb_saved es)), hv)"
    "take (min 256 (length (fdb_saved es))) buf' = f" "length buf' = 256"
    "length (fdb_saved es) < 256 \<longrightarrow> mac' = last_mac nullmac es"
    using fdb_get_walk [OF w, of ?b] by (auto simp: f_def)
  obtain info' out' where p: "locate_pass sw f ?n [0..<?n] reqs [] loc_zero =
      (length hits = ?n \<or> length hits \<ge> 32, info', answers sw f nullmac (take 32 hits), out')"
    using pass_exact [of "[]" ?n 0 reqs loc_zero sw f] ne by (auto simp: loc_zero_def hits_def)
  have al: "length hits = ?n \<longleftrightarrow> hits = reqs" unfolding hits_def by (metis filter_True filter_False length_filter_less order_less_irrefl filter_id_conv)
  have "locate_loop getnext sw ?n ?b nullmac reqs [] loc_zero = Some (answers sw f nullmac (take 32 hits))"
  proof (cases "fdb_saved es = []")
    case True
    then have "hits = []" by (simp add: hits_def f_def found_at_def)
    then show ?thesis using g(1) True by (subst locate_loop.simps) simp
  next
    case False
    show ?thesis
    proof (cases "hits = reqs \<or> length hits \<ge> 32")
      case True
      then show ?thesis using g(1,2) p False by (subst locate_loop.simps) (auto simp: batch_pos al)
    next
      case open_end: False
      then have "walk getnext 0 mac' []" using fin g(4) by simp
      from fdb_get_walk [OF this g(3)] have "\<exists>b' m' h. user_mac_onu_fdb_get getnext buf' mac' = Some (GW_OK, b', m', 0, h)"
        by (auto simp: fdb_saved_def)
      then show ?thesis using g(1,2) p False open_end
        by (subst locate_loop.simps) (auto simp: batch_pos al locate_loop.simps [of getnext sw ?n buf'])
    qed
  qed
  then show ?thesis using locate_user_start [OF len six, of getnext sw res mode rest ser sid] by simp
qed

text \<open>
  The user on port 3 has the switch of that port, and the address of the multicast entry on port
  7, where there is no switch, is answered with the same switch address; 2:0:0:0:0:8 is not in
  the table and gets no answer.
\<close>

theorem users_located_witness:
  "onu_locate_user next_end (\<lambda>p. if p = 3 then Some [0, 15, 233, 1, 1, 1] else None) True
      (locate_payload 0 1 [[2, 0, 0, 0, 0, 9], [2, 0, 0, 0, 0, 8], [1, 0, 94, 0, 0, 5]] []) 7 (replicate 8 0) =
    Some (Some (CommOnuMsgSend EQU_DEVICE_INFO_RESP 7 (locate_response
      [\<lparr>lr_usermac = [2, 0, 0, 0, 0, 9], lr_onuslot = 1, lr_onuport = 3, lr_subsw = 1, lr_swmac = [0, 15, 233, 1, 1, 1], lr_swport = 0\<rparr>,
       \<lparr>lr_usermac = [1, 0, 94, 0, 0, 5], lr_onuslot = 1, lr_onuport = 7, lr_subsw = 0, lr_swmac = [0, 15, 233, 1, 1, 1], lr_swport = 0\<rparr>])
      (Some (replicate 8 0))))"
proof -
  let ?reqs = "[[2, 0, 0, 0, 0, 9], [2, 0, 0, 0, 0, 8], [1, 0, 94, 0, 0, 5]] :: u8 list list"
  let ?sw = "\<lambda>p. if p = 3 then Some [0, 15, 233, 1, 1, 1] else None :: u8 list option"
  have h: "filter (found_at (take 256 (fdb_saved fdb_two))) ?reqs = [[2, 0, 0, 0, 0, 9], [1, 0, 94, 0, 0, 5]]"
    unfolding saved_two by code_simp
  have a: "answers ?sw (take 256 (fdb_saved fdb_two)) nullmac [[2, 0, 0, 0, 0, 9], [1, 0, 94, 0, 0, 5]] =
      [\<lparr>lr_usermac = [2, 0, 0, 0, 0, 9], lr_onuslot = 1, lr_onuport = 3, lr_subsw = 1, lr_swmac = [0, 15, 233, 1, 1, 1], lr_swport = 0\<rparr>,
       \<lparr>lr_usermac = [1, 0, 94, 0, 0, 5], lr_onuslot = 1, lr_onuport = 7, lr_subsw = 0, lr_swmac = [0, 15, 233, 1, 1, 1], lr_swport = 0\<rparr>]"
    unfolding saved_two by code_simp
  have e: "length (fdb_saved fdb_two) < 256" using map_ports_two by (simp add: fdb_saved_def fdb_two_def)
  have "next_end 0 (last_mac nullmac fdb_two) = None" by (simp add: next_end_def last_mac_def fdb_two_def nullmac_def numeral_eq_Suc)
  with e have "filter (found_at (take 256 (fdb_saved fdb_two))) ?reqs = ?reqs \<or> length (filter (found_at (take 256 (fdb_saved fdb_two))) ?reqs) \<ge> 32 \<or>
      length (fdb_saved fdb_two) < 256 \<and> next_end 0 (last_mac nullmac fdb_two) = None" by blast
  from users_located [OF refl refl walk_end _ _ _ this, of ?sw 0 1 "[]" 7 "replicate 8 0"] show ?thesis
    unfolding h by (simp add: a del: answers.simps)
qed

text \<open>
  The scan forgets its VLAN between two batches. With a driver whose search from VLAN 0 starts
  at the beginning whatever the address, as one ordered by VLAN does when no entry lies in VLAN
  0, a request for an address the table does not hold never returns.
\<close>

theorem missing_user_hangs:
  assumes "\<forall>m. walk getnext 0 m es" "fdb_saved es \<noteq> []" "length reqs \<le> 32" "\<forall>m \<in> set reqs. length m = 6"
    and "mac \<in> set reqs" "mac \<noteq> nullmac" "mac \<notin> ms_swmac ` set (take 256 (fdb_saved es))"
  shows "onu_locate_user getnext sw True (locate_payload res mode reqs rest) ser sid = None"
proof -
  obtain k where k: "k < length reqs" "reqs ! k = mac" using assms(5) by (auto simp: in_set_conv_nth)
  then have "searching mac k (length reqs) reqs []" using assms(3,6) by (simp add: searching_def)
  from locate_loop_diverges [OF assms(1,2,7) this] show ?thesis
    using locate_user_start [of reqs getnext sw res mode rest ser sid] assms(3,4) by simp
qed

theorem missing_user_hangs_witness:
  "onu_locate_user next_two (\<lambda>p. None) True (locate_payload 0 1 [[2, 0, 0, 0, 0, 8]] []) 7 (replicate 8 0) = None"
proof (rule missing_user_hangs [of next_two fdb_two _ "[2, 0, 0, 0, 0, 8]"])
  show "fdb_saved fdb_two \<noteq> []" using saved_two by auto
  show "[2, 0, 0, 0, 0, 8] \<notin> ms_swmac ` set (take 256 (fdb_saved fdb_two))" unfolding saved_two by code_simp
  show "[2, 0, 0, 0, 0, 8] \<noteq> nullmac" by code_simp
qed (simp_all add: walk_two)

end
