(* ===== verification/Cli_Commands.thy ===== *)
theory Cli_Commands
  imports Cli_Parser
begin

text \<open>
  The commands that the applications register in the tree of \<^verbatim>\<open>Cli_Parser\<close>: those for attached switches
  (\<^verbatim>\<open>apps/rcp_switch_cli.c\<close>), for the ports and the forwarding table (\<^verbatim>\<open>apps/oam_cli.c\<close>), for statistics, storms and queues
  (\<^verbatim>\<open>apps/gw_cli_commands.c\<close>) and for the power of the ports (\<^verbatim>\<open>apps/poe_api.c\<close>). The callbacks are not modelled here:
  \<open>other\<close> gives the callback of a C function by its name. The lemmas show that such registrations leave all elder commands
  of the tree as they are.
\<close>

section \<open>The registrations\<close>

definition gw_cli_switch_gwd_cmd :: "(string \<Rightarrow> 'w cli_fun) \<Rightarrow> 'w cli_command list \<Rightarrow> 'w cli_command list option" where
  "gw_cli_switch_gwd_cmd other = register_seq
    [(None, ''interface'', None, PRIVILEGE_PRIVILEGED, MODE_CONFIG),
     (Some 0, ''switch'', Some (other ''cli_int_interface_switch''), PRIVILEGE_PRIVILEGED, MODE_CONFIG),
     (None, ''show'', None, PRIVILEGE_PRIVILEGED, MODE_SWITCH),
     (Some 2, ''loop_port'', Some (other ''cli_int_show_loop_port''), PRIVILEGE_PRIVILEGED, MODE_SWITCH),
     (Some 2, ''mac'', Some (other ''cli_int_show_mac''), PRIVILEGE_PRIVILEGED, MODE_SWITCH),
     (Some 2, ''mgt'', None, PRIVILEGE_PRIVILEGED, MODE_SWITCH),
     (Some 2, ''system'', None, PRIVILEGE_PRIVILEGED, MODE_SWITCH),
     (Some 6, ''information'', Some (other ''cli_int_system_information''), PRIVILEGE_PRIVILEGED, MODE_SWITCH),
     (Some 5, ''port'', Some (other ''cli_int_show_mgt_port''), PRIVILEGE_PRIVILEGED, MODE_SWITCH),
     (None, ''port'', None, PRIVILEGE_PRIVILEGED, MODE_SWITCH),
     (Some 9, ''en'', Some (other ''cli_int_port_en''), PRIVILEGE_PRIVILEGED, MODE_SWITCH),
     (Some 9, ''fc'', Some (other ''cli_int_port_fc''), PRIVILEGE_PRIVILEGED, MODE_SWITCH),
     (Some 9, ''link_show'', Some (other ''cli_int_port_link_show''), PRIVILEGE_PRIVILEGED, MODE_SWITCH),
     (Some 9, ''mode'', Some (other ''cli_int_port_mode''), PRIVILEGE_PRIVILEGED, MODE_SWITCH),
     (Some 9, ''mode_show'', Some (other ''cli_int_port_mode_show''), PRIVILEGE_PRIVILEGED, MODE_SWITCH),
     (Some 9, ''ingress_rate'', Some (other ''cli_int_port_ingress_rate''), PRIVILEGE_PRIVILEGED, MODE_SWITCH),
     (Some 9, ''egress_rate'', Some (other ''cli_int_port_egress_rate''), PRIVILEGE_PRIVILEGED, MODE_SWITCH),
     (Some 9, ''mirror_to'', Some (other ''cli_int_port_mirror_to''), PRIVILEGE_PRIVILEGED, MODE_SWITCH),
     (Some 9, ''mirror_from'', Some (other ''cli_int_port_mirror_from''), PRIVILEGE_PRIVILEGED, MODE_SWITCH),
     (Some 9, ''mirror_show'', Some (other ''cli_int_port_mirror_show''), PRIVILEGE_PRIVILEGED, MODE_SWITCH),
     (None, ''vlan'', None, PRIVILEGE_PRIVILEGED, MODE_SWITCH),
     (Some 20, ''leaky'', Some (other ''cli_int_vlan_leaky''), PRIVILEGE_PRIVILEGED, MODE_SWITCH),
     (Some 20, ''show'', Some (other ''cli_int_vlan_info_show''), PRIVILEGE_PRIVILEGED, MODE_SWITCH),
     (Some 20, ''pvid'', Some (other ''cli_int_vlan_pvid''), PRIVILEGE_PRIVILEGED, MODE_SWITCH),
     (Some 20, ''dot1q'', Some (other ''cli_int_vlan_dotlq''), PRIVILEGE_PRIVILEGED, MODE_SWITCH),
     (Some 20, ''dot1q_show'', Some (other ''cli_int_vlan_dotlq_show''), PRIVILEGE_PRIVILEGED, MODE_SWITCH),
     (Some 20, ''dot1q_add'', Some (other ''cli_int_vlan_dotlq_add''), PRIVILEGE_PRIVILEGED, MODE_SWITCH),
     (Some 20, ''dot1q_del'', Some (other ''cli_int_vlan_dotlq_del''), PRIVILEGE_PRIVILEGED, MODE_SWITCH),
     (Some 20, ''dot1q_port_add'', Some (other ''cli_int_vlan_dotlq_port_add''), PRIVILEGE_PRIVILEGED, MODE_SWITCH),
     (Some 20, ''dot1q_port_del'', Some (other ''cli_int_vlan_dotlq_port_del''), PRIVILEGE_PRIVILEGED, MODE_SWITCH),
     (Some 20, ''port_isolate'', Some (other ''cli_int_vlan_port_isolate''), PRIVILEGE_PRIVILEGED, MODE_SWITCH),
     (Some 20, ''insert_pvid'', Some (other ''cli_int_vlan_insert_pvid''), PRIVILEGE_PRIVILEGED, MODE_SWITCH),
     (Some 20, ''output_tag'', Some (other ''cli_int_vlan_output_tag''), PRIVILEGE_PRIVILEGED, MODE_SWITCH),
     (Some 20, ''ingress_filtering'', Some (other ''cli_int_vlan_ingress_filtering''), PRIVILEGE_PRIVILEGED, MODE_SWITCH),
     (Some 20, ''acceptable_frame_types'', Some (other ''cli_int_vlan_acceptable_frame_types''), PRIVILEGE_PRIVILEGED, MODE_SWITCH),
     (None, ''stat'', None, PRIVILEGE_PRIVILEGED, MODE_SWITCH),
     (Some 35, ''rx'', Some (other ''cli_int_stat_rx''), PRIVILEGE_PRIVILEGED, MODE_SWITCH),
     (Some 35, ''tx'', Some (other ''cli_int_stat_tx''), PRIVILEGE_PRIVILEGED, MODE_SWITCH),
     (Some 35, ''diag'', Some (other ''cli_int_stat_diag''), PRIVILEGE_PRIVILEGED, MODE_SWITCH),
     (None, ''broadcast'', None, PRIVILEGE_PRIVILEGED, MODE_SWITCH),
     (Some 39, ''fc'', Some (other ''cli_int_broadcast_fc''), PRIVILEGE_PRIVILEGED, MODE_SWITCH),
     (Some 39, ''storm'', None, PRIVILEGE_PRIVILEGED, MODE_SWITCH),
     (Some 41, ''filtering'', Some (other ''cli_int_broadcast_storm_filtering''), PRIVILEGE_PRIVILEGED, MODE_SWITCH),
     (None, ''filtering'', Some (other ''cli_int_igmpsnooping''), PRIVILEGE_PRIVILEGED, MODE_SWITCH),
     (None, ''multicast'', None, PRIVILEGE_PRIVILEGED, MODE_SWITCH),
     (Some 44, ''fc'', Some (other ''cli_int_multicast_fc''), PRIVILEGE_PRIVILEGED, MODE_SWITCH),
     (None, ''qos'', None, PRIVILEGE_PRIVILEGED, MODE_SWITCH),
     (Some 46, ''dscp_pri_en'', Some (other ''cli_int_qos_dscp_pri_en''), PRIVILEGE_PRIVILEGED, MODE_SWITCH),
     (Some 46, ''user_pri_en'', Some (other ''cli_int_qos_user_pri_en''), PRIVILEGE_PRIVILEGED, MODE_SWITCH),
     (Some 46, ''adapted_fc'', Some (other ''cli_int_qos_adapted_fc''), PRIVILEGE_PRIVILEGED, MODE_SWITCH),
     (Some 46, ''priority_ratio'', Some (other ''cli_int_qos_priority_ratio''), PRIVILEGE_PRIVILEGED, MODE_SWITCH),
     (Some 46, ''port_priority'', Some (other ''cli_int_qos_port_priority''), PRIVILEGE_PRIVILEGED, MODE_SWITCH),
     (Some 46, ''priority_type'', Some (other ''cli_int_qos_priority_type''), PRIVILEGE_PRIVILEGED, MODE_SWITCH),
     (None, ''loopback'', None, PRIVILEGE_PRIVILEGED, MODE_SWITCH),
     (Some 53, ''auto-detect'', Some (other ''cli_int_loopback_auto_detect''), PRIVILEGE_PRIVILEGED, MODE_SWITCH),
     (None, ''auto-detect'', None, PRIVILEGE_PRIVILEGED, MODE_SWITCH),
     (Some 55, ''learning'', Some (other ''cli_int_atu_learning''), PRIVILEGE_PRIVILEGED, MODE_SWITCH),
     (Some 55, ''aging'', Some (other ''cli_int_atu_aging''), PRIVILEGE_PRIVILEGED, MODE_SWITCH),
     (Some 55, ''filter'', Some (other ''cli_int_atu_filter''), PRIVILEGE_PRIVILEGED, MODE_SWITCH),
     (None, ''cable'', None, PRIVILEGE_PRIVILEGED, MODE_SWITCH),
     (Some 59, ''test'', None, PRIVILEGE_PRIVILEGED, MODE_SWITCH),
     (Some 60, ''port'', Some (other ''cli_int_cable_test_port''), PRIVILEGE_PRIVILEGED, MODE_SWITCH),
     (None, ''mgt'', None, PRIVILEGE_PRIVILEGED, MODE_SWITCH),
     (Some 62, ''reset'', Some (other ''cli_int_mgt_reset''), PRIVILEGE_PRIVILEGED, MODE_SWITCH),
     (None, ''mask'', None, PRIVILEGE_PRIVILEGED, MODE_SWITCH),
     (Some 64, ''alarm'', None, PRIVILEGE_PRIVILEGED, MODE_SWITCH),
     (Some 65, ''switch'', Some (other ''cli_int_mask_alarm_switch''), PRIVILEGE_PRIVILEGED, MODE_SWITCH),
     (None, ''clear'', None, PRIVILEGE_PRIVILEGED, MODE_SWITCH),
     (Some 67, ''switch'', Some (other ''cli_int_clear_switch''), PRIVILEGE_PRIVILEGED, MODE_SWITCH),
     (None, ''switch'', None, PRIVILEGE_PRIVILEGED, MODE_CONFIG),
     (Some 69, ''manage'', None, PRIVILEGE_PRIVILEGED, MODE_CONFIG),
     (Some 70, ''auth'', Some (other ''cli_int_switch_manage_auth''), PRIVILEGE_PRIVILEGED, MODE_CONFIG)] []"

definition gw_cli_debeg_gwd_cmd :: "(string \<Rightarrow> 'w cli_fun) \<Rightarrow> 'w cli_command list \<Rightarrow> 'w cli_command list option" where
  "gw_cli_debeg_gwd_cmd other = register_seq
    [(None, ''regget'', None, PRIVILEGE_PRIVILEGED, MODE_DEBUG),
     (Some 0, ''rcpreg'', Some (other ''cli_int_get_rcpreg''), PRIVILEGE_PRIVILEGED, MODE_DEBUG),
     (Some 0, ''rcpeeprom'', Some (other ''cli_int_get_rcpeeprom''), PRIVILEGE_PRIVILEGED, MODE_DEBUG),
     (Some 0, ''rcpphy'', Some (other ''cli_int_get_rcpphy''), PRIVILEGE_PRIVILEGED, MODE_DEBUG),
     (None, ''regset'', None, PRIVILEGE_PRIVILEGED, MODE_DEBUG),
     (Some 4, ''rcpreg'', Some (other ''cli_int_set_rcpreg''), PRIVILEGE_PRIVILEGED, MODE_DEBUG),
     (Some 4, ''switch'', Some (other ''cli_int_set_switch''), PRIVILEGE_PRIVILEGED, MODE_DEBUG),
     (Some 4, ''rcpeeprom'', Some (other ''cli_int_set_rcpeeprom''), PRIVILEGE_PRIVILEGED, MODE_DEBUG),
     (Some 4, ''rcpphy'', Some (other ''cli_int_set_rcpphy''), PRIVILEGE_PRIVILEGED, MODE_DEBUG),
     (Some 4, ''product'', None, PRIVILEGE_PRIVILEGED, MODE_SWITCH),
     (Some 9, ''series'', Some (other ''cli_int_set_product_series''), PRIVILEGE_PRIVILEGED, MODE_SWITCH),
     (Some 9, ''type'', Some (other ''cli_int_set_product_type''), PRIVILEGE_PRIVILEGED, MODE_SWITCH),
     (Some 4, ''board'', None, PRIVILEGE_PRIVILEGED, MODE_SWITCH),
     (Some 12, ''type'', Some (other ''cli_int_set_board_type''), PRIVILEGE_PRIVILEGED, MODE_SWITCH),
     (Some 4, ''rcphw_version'', Some (other ''cli_int_set_rcphw_version''), PRIVILEGE_PRIVILEGED, MODE_SWITCH),
     (Some 4, ''rcpmanufacture'', None, PRIVILEGE_PRIVILEGED, MODE_DEBUG),
     (Some 15, ''serial'', Some (other ''cli_int_set_rcphw_version''), PRIVILEGE_PRIVILEGED, MODE_SWITCH),
     (Some 15, ''date'', Some (other ''cli_int_rcpmanufacture_date''), PRIVILEGE_PRIVILEGED, MODE_SWITCH),
     (Some 4, ''rcpmac'', Some (other ''cli_int_set_rcpmac''), PRIVILEGE_PRIVILEGED, MODE_DEBUG),
     (None, ''show'', None, PRIVILEGE_PRIVILEGED, MODE_DEBUG),
     (Some 19, ''authenKey'', Some (other ''cli_int_show_authenkey''), PRIVILEGE_PRIVILEGED, MODE_DEBUG)] []"

definition cli_reg_rcp_cmd :: "(string \<Rightarrow> 'w cli_fun) \<Rightarrow> 'w cli_command list \<Rightarrow> 'w cli_command list option" where
  "cli_reg_rcp_cmd other = register_seq
    [(None, ''show'', None, PRIVILEGE_UNPRIVILEGED, MODE_CONFIG),
     (Some 0, ''switch'', Some (other ''cmd_switch_show''), PRIVILEGE_UNPRIVILEGED, MODE_CONFIG)] []"

definition gw_cli_reg_oam_cmd :: "(string \<Rightarrow> 'w cli_fun) \<Rightarrow> 'w cli_command list \<Rightarrow> 'w cli_command list option" where
  "gw_cli_reg_oam_cmd other = register_seq
    [(None, ''port'', None, PRIVILEGE_UNPRIVILEGED, MODE_ANY),
     (Some 0, ''mode'', Some (other ''cmd_oam_port_mode''), PRIVILEGE_UNPRIVILEGED, MODE_ANY),
     (Some 0, ''mirror_from'', Some (other ''cmd_oam_port_mirror_from''), PRIVILEGE_UNPRIVILEGED, MODE_ANY),
     (Some 0, ''mirror_to'', Some (other ''cmd_oam_port_mirror_to''), PRIVILEGE_UNPRIVILEGED, MODE_ANY),
     (None, ''atu'', None, PRIVILEGE_UNPRIVILEGED, MODE_EXEC),
     (Some 4, ''learning'', Some (other ''cmd_oam_atu_learn''), PRIVILEGE_UNPRIVILEGED, MODE_ANY),
     (Some 4, ''aging'', Some (other ''cmd_oam_atu_age''), PRIVILEGE_UNPRIVILEGED, MODE_ANY),
     (Some 4, ''show'', Some (other ''cmd_show_fdb''), PRIVILEGE_UNPRIVILEGED, MODE_ANY),
     (Some 4, ''static_add'', Some (other ''cmd_static_mac_add_fdb''), PRIVILEGE_UNPRIVILEGED, MODE_ANY),
     (Some 4, ''static_del'', Some (other ''cmd_static_mac_del_fdb''), PRIVILEGE_UNPRIVILEGED, MODE_ANY),
     (None, ''vlan'', None, PRIVILEGE_UNPRIVILEGED, MODE_EXEC),
     (Some 10, ''port_isolate'', Some (other ''cmd_oam_port_isolate''), PRIVILEGE_UNPRIVILEGED, MODE_ANY),
     (None, ''mgt'', None, PRIVILEGE_UNPRIVILEGED, MODE_EXEC),
     (Some 12, ''laser'', Some (other ''cmd_gw_laser''), PRIVILEGE_UNPRIVILEGED, MODE_EXEC),
     (Some 12, ''config'', Some (other ''cmd_gw_conf''), PRIVILEGE_UNPRIVILEGED, MODE_ANY),
     (None, ''event'', None, PRIVILEGE_UNPRIVILEGED, MODE_ANY),
     (Some 15, ''show'', Some (other ''cmd_oam_event_show''), PRIVILEGE_UNPRIVILEGED, MODE_ANY),
     (None, ''ONU'', None, PRIVILEGE_UNPRIVILEGED, MODE_ANY),
     (Some 17, ''reboot'', Some (other ''cmd_onu_reboot''), PRIVILEGE_UNPRIVILEGED, MODE_ANY)] []"

definition gw_cli_reg_native_cmd :: "(string \<Rightarrow> 'w cli_fun) \<Rightarrow> 'w cli_command list \<Rightarrow> 'w cli_command list option" where
  "gw_cli_reg_native_cmd other = register_seq
    [(None, ''stat'', None, PRIVILEGE_UNPRIVILEGED, MODE_ANY),
     (Some 0, ''port_show'', Some (other ''cmd_stat_port_show''), PRIVILEGE_UNPRIVILEGED, MODE_ANY),
     (Some 0, ''port_flush'', Some (other ''cmd_stat_port_clear''), PRIVILEGE_UNPRIVILEGED, MODE_ANY),
     (None, ''broadcast'', None, PRIVILEGE_UNPRIVILEGED, MODE_ANY),
     (Some 3, ''storm'', None, PRIVILEGE_UNPRIVILEGED, MODE_ANY),
     (Some 4, ''portdown'', Some (other ''cmd_bsctrl_policy''), PRIVILEGE_UNPRIVILEGED, MODE_ANY),
     (Some 4, ''threshold'', Some (other ''cmd_bsctrl_threshold''), PRIVILEGE_UNPRIVILEGED, MODE_ANY),
     (None, ''qos'', None, PRIVILEGE_UNPRIVILEGED, MODE_ANY),
     (Some 7, ''add-vid-queue-map'', Some (other ''cmd_qos_vlan_queue_map''), PRIVILEGE_UNPRIVILEGED, MODE_ANY),
     (Some 7, ''del-vid-queue-map'', Some (other ''cmd_qos_vlan_queue_map_del''), PRIVILEGE_UNPRIVILEGED, MODE_ANY),
     (Some 7, ''show-vid-queue-map'', Some (other ''cmd_qos_vlan_queue_map_show''), PRIVILEGE_UNPRIVILEGED, MODE_ANY),
     (Some 7, ''apply-vid-queue-map'', Some (other ''cmd_qos_vlan_queue_map_apply''), PRIVILEGE_UNPRIVILEGED, MODE_ANY)] []"

definition cli_reg_gwd_poe_cmd :: "(string \<Rightarrow> 'w cli_fun) \<Rightarrow> 'w cli_command list \<Rightarrow> 'w cli_command list option" where
  "cli_reg_gwd_poe_cmd other = register_seq
    [(None, ''poe'', Some (other ''cmd_onu_poe_cfg_set''), PRIVILEGE_UNPRIVILEGED, MODE_CONFIG),
     (None, ''cpld'', None, PRIVILEGE_PRIVILEGED, MODE_DEBUG),
     (Some 1, ''register'', Some (other ''cmd_onu_cpld_reg_cfg_set''), PRIVILEGE_PRIVILEGED, MODE_DEBUG)] []"

definition gw_cli_multicast_gwd_cmd :: "(string \<Rightarrow> 'w cli_fun) \<Rightarrow> 'w cli_command list \<Rightarrow> 'w cli_command list option" where
  "gw_cli_multicast_gwd_cmd other = register_seq
    [(None, ''igmp-mode'', Some (other ''cmd_igmp_mode''), PRIVILEGE_PRIVILEGED, MODE_CONFIG)] []"

section \<open>Elder commands stay\<close>

text \<open>The tree without the lengths of its abbreviations, which a whole word does not need.\<close>

fun bare :: "'w cli_command \<Rightarrow> 'w cli_command" where
  "bare (Command n f u p m cs) = Command n f 0 p m (map bare cs)"

lemma bare_len [simp]: "bare (set_unique_len u c) = bare c"
  by (cases c) simp

lemma bare_parts [simp]: "cc_command (bare c) = cc_command c" "cc_callback (bare c) = cc_callback c" "cc_privilege (bare c) = cc_privilege c"
    "cc_mode (bare c) = cc_mode c" "cc_children (bare c) = map bare (cc_children c)"
  by (cases c; simp)+

lemma map_set_len: "map bare (map (\<lambda>(i, c). set_unique_len (g i) c) (enumerate k cs)) = map bare cs"
  by (induction cs arbitrary: k) auto

lemma bare_build: "bare (build_children c) = bare c"
proof (induction c rule: build_children.induct)
  case (1 n f u p m cs)
  then show ?case by (simp only: build_children.simps bare.simps map_set_len) simp
qed

lemma bare_shortest [simp]: "map bare (gw_cli_build_shortest cs) = map bare cs"
  unfolding gw_cli_build_shortest_def map_set_len by (simp add: bare_build)

lemma command_size_bare [simp]: "command_size (bare c) = command_size c"
  by (induction c rule: bare.induct) (simp add: comp_def cong: map_cong)

text \<open>A registration below no parent, or below a command from the index \<open>k\<close> on, keeps the first \<open>k\<close> commands.\<close>

lemma size_update: "sum_list (map command_size (cs[i := c])) \<le> sum_list (map command_size cs) + (command_size c - command_size (cs ! i))"
proof (induction cs arbitrary: i)
  case (Cons a cs)
  show ?case
  proof (cases i)
    case (Suc j) with Cons.IH [of j] show ?thesis by simp
  qed simp
qed simp

lemma size_add_child [simp]: "command_size (add_child new c) = command_size c + command_size new"
  by (cases c) simp

lemma size_children: "command_size (set_children cs c) = Suc (sum_list (map command_size cs))" "command_size c = Suc (sum_list (map command_size (cc_children c)))"
  by (cases c; simp)+

lemma sizes_bare: "map bare cs = map bare ds \<Longrightarrow> sum_list (map command_size cs) = sum_list (map command_size ds)"
proof -
  assume "map bare cs = map bare ds"
  then have "map command_size (map bare cs) = map command_size (map bare ds)" by (rule arg_cong)
  then show ?thesis by (simp add: comp_def)
qed

lemma size_shortest [simp]: "sum_list (map command_size (gw_cli_build_shortest cs)) = sum_list (map command_size cs)"
  by (rule sizes_bare) simp

lemma length_shortest [simp]: "length (gw_cli_build_shortest cs) = length cs"
  by (simp add: gw_cli_build_shortest_def)

lemma size_add: "sum_list (map command_size (add_command path new cs)) \<le> sum_list (map command_size cs) + command_size new"
proof (induction path new cs rule: add_command.induct)
  case (2 i new cs)
  let ?ds = "cs[i := add_child new (cs ! i)]"
  have "sum_list (map command_size ?ds) = sum_list (map command_size (take i ?ds @ drop i ?ds))" by (simp only: append_take_drop_id)
  then have "sum_list (map command_size (take i cs @ gw_cli_build_shortest (drop i ?ds))) = sum_list (map command_size ?ds)"
    by (simp del: append_take_drop_id)
  also have "\<dots> \<le> sum_list (map command_size cs) + command_size new" using size_update [of cs i "add_child new (cs ! i)"] by simp
  finally show ?case by simp
next
  case (3 i j js new cs)
  let ?c = "set_children (add_command (j # js) new (cc_children (cs ! i))) (cs ! i)"
  have "command_size ?c - command_size (cs ! i) \<le> command_size new"
    using 3 size_children(2) [of "cs ! i"] by (simp add: size_children(1))
  then show ?case using size_update [of cs i ?c] by simp
qed simp

lemma length_add: "length cs \<le> length (add_command path new cs)"
  by (cases "(path, new, cs)" rule: add_command.cases) auto

lemma keeps_add:
  assumes "k \<le> length cs" "path = [] \<or> k \<le> hd path"
  shows "take k (map bare (add_command path new cs)) = take k (map bare cs)"
proof (cases "(path, new, cs)" rule: add_command.cases)
  case (1 new cs) then show ?thesis using assms(1) by simp
next
  case (2 i new cs)
  then show ?thesis using assms by (simp add: take_map)
next
  case (3 i j js new cs) then show ?thesis using assms by (simp add: take_map)
qed

fun parents_ok :: "nat \<Rightarrow> 'w registration list \<Rightarrow> bool" where
  "parents_ok n [] \<longleftrightarrow> True"
| "parents_ok n ((parent, _) # rest) \<longleftrightarrow> (case parent of None \<Rightarrow> True | Some i \<Rightarrow> i < n) \<and> parents_ok (Suc n) rest"

definition keeps_elder :: "nat \<Rightarrow> ('w cli_command list \<Rightarrow> 'w cli_command list option) \<Rightarrow> bool" where
  "keeps_elder n f \<longleftrightarrow> (\<forall>k root. k \<le> length root \<and> sum_list (map command_size root) + n \<le> GW_MAX_CLI_COMMAND \<longrightarrow>
     (\<exists>t. f root = Some t \<and> k \<le> length t \<and> take k (map bare t) = take k (map bare root) \<and>
       sum_list (map command_size t) \<le> sum_list (map command_size root) + n))"

lemma register_seq_keeps:
  assumes "k \<le> length root" "sum_list (map command_size root) + length rs \<le> GW_MAX_CLI_COMMAND"
    and "parents_ok (length paths) rs" "\<forall>q\<in>set paths. q \<noteq> [] \<and> k \<le> hd q"
  shows "\<exists>t. register_seq rs paths root = Some t \<and> k \<le> length t \<and> take k (map bare t) = take k (map bare root) \<and>
    sum_list (map command_size t) \<le> sum_list (map command_size root) + length rs"
  using assms
proof (induction rs arbitrary: paths root)
  case (Cons r rs)
  obtain parent n f p m where r: "r = (parent, n, f, p, m)" by (cases r)
  define path where "path = (case parent of None \<Rightarrow> [] | Some i \<Rightarrow> paths ! i)"
  define t where "t = add_command path (Command n f 0 p m []) root"
  have path: "path = [] \<or> k \<le> hd path" using Cons.prems(3,4) by (auto simp: path_def r split: option.splits)
  have reg: "gw_cli_register_command root path n f p m = Some t"
    using Cons.prems(2) by (simp add: gw_cli_register_command_def t_def)
  have keep: "k \<le> length t" "take k (map bare t) = take k (map bare root)" "sum_list (map command_size t) \<le> Suc (sum_list (map command_size root))"
    using length_add [of root path "Command n f 0 p m []"] keeps_add [OF Cons.prems(1) path] size_add [of path "Command n f 0 p m []" root]
      Cons.prems(1) by (simp_all add: t_def)
  have new: "\<forall>q\<in>set (paths @ [path @ [children_at path root]]). q \<noteq> [] \<and> k \<le> hd q"
    using Cons.prems(1,4) path by (cases path) auto
  have "parents_ok (length (paths @ [path @ [children_at path root]])) rs" using Cons.prems(3) by (simp add: r)
  from Cons.IH [OF keep(1) _ this new] keep Cons.prems(2) obtain t' where
    "register_seq rs (paths @ [path @ [children_at path root]]) t = Some t'" "k \<le> length t'" "take k (map bare t') = take k (map bare t)"
    "sum_list (map command_size t') \<le> sum_list (map command_size t) + length rs" by auto
  then show ?case using keep by (auto simp: r path_def [symmetric] Let_def reg)
qed simp

lemma seq_keeps_elder: "parents_ok 0 rs \<Longrightarrow> length rs \<le> n \<Longrightarrow> keeps_elder n (register_seq rs [])"
  unfolding keeps_elder_def
proof (intro allI impI, elim conjE)
  fix k :: nat and root :: "'a cli_command list"
  assume a: "parents_ok 0 rs" "length rs \<le> n" "k \<le> length root" "sum_list (map command_size root) + n \<le> GW_MAX_CLI_COMMAND"
  then have "sum_list (map command_size root) + length rs \<le> GW_MAX_CLI_COMMAND" by simp
  from register_seq_keeps [OF a(3) this, of "[]"] a(1,2) show "\<exists>t. register_seq rs [] root = Some t \<and> k \<le> length t \<and>
      take k (map bare t) = take k (map bare root) \<and> sum_list (map command_size t) \<le> sum_list (map command_size root) + n" by fastforce
qed

lemma commands_keep_elder:
  "keeps_elder 72 (gw_cli_switch_gwd_cmd other)" "keeps_elder 21 (gw_cli_debeg_gwd_cmd other)" "keeps_elder 2 (cli_reg_rcp_cmd other)"
  "keeps_elder 19 (gw_cli_reg_oam_cmd other)" "keeps_elder 12 (gw_cli_reg_native_cmd other)" "keeps_elder 3 (cli_reg_gwd_poe_cmd other)"
  "keeps_elder 1 (gw_cli_multicast_gwd_cmd other)"
  unfolding gw_cli_switch_gwd_cmd_def gw_cli_debeg_gwd_cmd_def cli_reg_rcp_cmd_def gw_cli_reg_oam_cmd_def gw_cli_reg_native_cmd_def
    cli_reg_gwd_poe_cmd_def gw_cli_multicast_gwd_cmd_def
  by (rule seq_keeps_elder; simp)+

lemma keeps_elder_two:
  assumes "keeps_elder n f" "keeps_elder m g"
  shows "keeps_elder (n + m) (\<lambda>r. Option.bind (f r) g)"
  unfolding keeps_elder_def
proof (intro allI impI, elim conjE)
  fix k :: nat and root :: "'a cli_command list"
  assume a: "k \<le> length root" "sum_list (map command_size root) + (n + m) \<le> GW_MAX_CLI_COMMAND"
  from assms(1) a obtain t where t: "f root = Some t" "k \<le> length t" "take k (map bare t) = take k (map bare root)"
    "sum_list (map command_size t) \<le> sum_list (map command_size root) + n" by (fastforce simp: keeps_elder_def)
  have "sum_list (map command_size t) + m \<le> GW_MAX_CLI_COMMAND" using t(4) a(2) by linarith
  with assms(2) t(2) obtain u where "g t = Some u" "k \<le> length u" "take k (map bare u) = take k (map bare t)"
    "sum_list (map command_size u) \<le> sum_list (map command_size t) + m" by (auto simp: keeps_elder_def)
  then show "\<exists>u. Option.bind (f root) g = Some u \<and> k \<le> length u \<and> take k (map bare u) = take k (map bare root) \<and>
      sum_list (map command_size u) \<le> sum_list (map command_size root) + (n + m)" using t by auto
qed

lemma handlers_keep_elder:
  assumes "\<forall>h. Some h \<in> set (map snd hs) \<longrightarrow> keeps_elder (cost h) (call h)"
  shows "keeps_elder (sum_list (map (case_option 0 cost) (map snd hs))) (run_handlers call hs)"
  using assms
proof (induction hs)
  case Nil
  have "run_handlers call [] = Some" by (rule ext) simp
  then show ?case by (simp add: keeps_elder_def)
next
  case (Cons x hs)
  then have ih: "keeps_elder (sum_list (map (case_option 0 cost) (map snd hs))) (run_handlers call hs)" by simp
  obtain d h where x: "x = (d, h)" by (cases x)
  show ?case
  proof (cases h)
    case None
    have "run_handlers call (x # hs) = run_handlers call hs" by (rule ext) (simp add: x None)
    then show ?thesis using ih by (simp add: x None)
  next
    case (Some g)
    have "run_handlers call (x # hs) = (\<lambda>r. Option.bind (call g r) (run_handlers call hs))" by (rule ext) (simp add: x Some)
    moreover have "keeps_elder (cost g) (call g)" using Cons.prems by (simp add: x Some)
    ultimately show ?thesis using keeps_elder_two [OF _ ih] by (simp add: x Some)
  qed
qed

end
