(* ===== verification/Sys_Info.thy ===== *)
theory Sys_Info
  imports Loop_Correct User_Mac Cli_Commands
begin

text \<open>
  The system information of the unit (\<^verbatim>\<open>apps/oam.c\<close>): the record and its copy in flash, the commands that set its
  fields, registered in the tree of \<^verbatim>\<open>Cli_Parser\<close>, and the requests of the OLT that read and set it, set the clock and
  configure the loop detection. A C string is read and written in an array of fixed length; reading past its end and
  writing past its end are faults, the value \<open>None\<close>.
\<close>

section \<open>Text in arrays\<close>

definition chars :: "string \<Rightarrow> u8 list" where "chars s = map of_char s"

definition cstr :: "u8 list \<Rightarrow> u8 list option" where
  "cstr b = (if 0 \<in> set b then Some (takeWhile (\<lambda>x. x \<noteq> 0) b) else None)"

text \<open>\<^verbatim>\<open>sprintf\<close> and \<^verbatim>\<open>snprintf\<close> of a text into an array\<close>

definition sput :: "u8 list \<Rightarrow> u8 list \<Rightarrow> u8 list option" where
  "sput b s = (if length s < length b then Some (s @ 0 # drop (Suc (length s)) b) else None)"

definition snput :: "u8 list \<Rightarrow> u8 list \<Rightarrow> u8 list" where
  "snput b s = (let t = take (length b - 1) s in t @ 0 # drop (Suc (length t)) b)"

text \<open>The conversions \<^verbatim>\<open>%d\<close> and, with a width, \<^verbatim>\<open>%02d\<close> and \<^verbatim>\<open>%4d\<close>.\<close>

function dec :: "nat \<Rightarrow> string" where
  "dec n = (if n < 10 then [char_of (48 + n)] else dec (n div 10) @ [char_of (48 + n mod 10)])"
  by auto
termination by (relation "measure id") auto

declare dec.simps [simp del]

definition fmt_d :: "int \<Rightarrow> string" where
  "fmt_d i = (if i < 0 then CHR ''-'' # dec (nat (- i)) else dec (nat i))"

definition fmt_02d :: "int \<Rightarrow> string" where
  "fmt_02d i = (if 0 \<le> i \<and> i < 10 then CHR ''0'' # dec (nat i) else fmt_d i)"

definition fmt_4d :: "int \<Rightarrow> string" where
  "fmt_4d i = (let s = fmt_d i in replicate (4 - length s) (CHR '' '') @ s)"

definition hex_digit :: "nat \<Rightarrow> char" where
  "hex_digit n = (if n < 10 then char_of (48 + n) else char_of (87 + n))"

definition fmt_02x :: "u8 \<Rightarrow> string" where
  "fmt_02x b = [hex_digit (unat b div 16), hex_digit (unat b mod 16)]"

text \<open>\<^verbatim>\<open>atoi\<close>, with the bounds of a \<^verbatim>\<open>long\<close> of 32 bits as \<^verbatim>\<open>strtol\<close> has them.\<close>

definition isdigit :: "char \<Rightarrow> bool" where
  "isdigit c \<longleftrightarrow> (let n = of_char c :: nat in 48 \<le> n \<and> n \<le> 57)"

definition dec_value :: "string \<Rightarrow> int" where
  "dec_value s = foldl (\<lambda>v c. 10 * v + (of_char c - 48)) 0 s"

definition scan_sign :: "string \<Rightarrow> bool \<times> string" where
  "scan_sign s = (if s \<noteq> [] \<and> (hd s = CHR ''-'' \<or> hd s = CHR ''+'') then (hd s = CHR ''-'', tl s) else (False, s))"

definition atoi :: "string \<Rightarrow> int" where
  "atoi s = (case scan_sign (dropWhile isspace s) of (neg, r) \<Rightarrow>
     let v = dec_value (takeWhile isdigit r)
     in max (- (2 ^ 31)) (min (2 ^ 31 - 1) (if neg then - v else v)))"

text \<open>One conversion \<^verbatim>\<open>%x\<close> of \<^verbatim>\<open>sscanf\<close>, with what is left, and up to \<open>n\<close> of them with colons between.\<close>

definition hex_val :: "char \<Rightarrow> int option" where
  "hex_val c = (let n = of_char c :: int in
     if 48 \<le> n \<and> n \<le> 57 then Some (n - 48)
     else if 97 \<le> n \<and> n \<le> 102 then Some (n - 87)
     else if 65 \<le> n \<and> n \<le> 70 then Some (n - 55) else None)"

definition scan_hex :: "string \<Rightarrow> (int \<times> string) option" where
  "scan_hex s = (case scan_sign (dropWhile isspace s) of (neg, r) \<Rightarrow>
     let r = (if take 2 r = ''0x'' \<or> take 2 r = ''0X'' then drop 2 r else r);
         ds = takeWhile (\<lambda>c. hex_val c \<noteq> None) r;
         v = foldl (\<lambda>v c. 16 * v + the (hex_val c)) 0 ds
     in if ds = [] then None else Some (if neg then - v else v, drop (length ds) r))"

fun scan_hexes :: "nat \<Rightarrow> string \<Rightarrow> int list" where
  "scan_hexes 0 s = []"
| "scan_hexes (Suc n) s =
     (case scan_hex s of
        None \<Rightarrow> []
      | Some (v, r) \<Rightarrow> v # (if r \<noteq> [] \<and> hd r = CHR '':'' then scan_hexes n (tl r) else []))"

definition toupper_u8 :: "char \<Rightarrow> char" where
  "toupper_u8 c = (let n = of_char c :: nat in if 97 \<le> n \<and> n \<le> 122 then char_of (n - 32) else c)"

section \<open>The record and its copy in flash\<close>

text \<open>\<^verbatim>\<open>ONU_SYS_INFO_TOTAL\<close>; \<open>si_rest\<close> are the bytes of the fields that the code never touches one by one.\<close>

record sys_info =
  si_product_serial :: u16
  si_product_type :: u16
  si_device_name :: "u8 list"
  si_sw_version :: "u8 list"
  si_serial_no :: "u8 list"
  si_hw_version :: "u8 list"
  si_hw_manufature_date :: "u8 list"
  si_rest :: "u8 list"
  si_valid_flag :: u8

definition info_zero :: sys_info where
  "info_zero = \<lparr>si_product_serial = 0, si_product_type = 0, si_device_name = replicate 132 0, si_sw_version = replicate 12 0,
     si_serial_no = replicate 18 0, si_hw_version = replicate 7 0, si_hw_manufature_date = replicate 12 0,
     si_rest = replicate 33 0, si_valid_flag = 0\<rparr>"

definition DEVICE_TYPE_UNKNOWN :: u16 where "DEVICE_TYPE_UNKNOWN = 0x0001"
definition DEVICE_TYPE_GT811_A :: u16 where "DEVICE_TYPE_GT811_A = 0x0011"
abbreviation PRODUCT_GT813_C :: u16 where "PRODUCT_GT813_C \<equiv> 0x002D"
abbreviation VALID_E :: u8 where "VALID_E \<equiv> 0x45"

text \<open>The time of day as the OLT sets it\<close>

record localtime_tm =
  tm_sec :: int
  tm_min :: int
  tm_hour :: int
  tm_mday :: int
  tm_mon :: int
  tm_year :: int

text \<open>The calls of the interface library: save, restore into a cleared record, the version into its array, the address.\<close>

record 'f sys_env =
  se_save :: "sys_info \<Rightarrow> 'f \<Rightarrow> int \<times> 'f"
  se_restore :: "'f \<Rightarrow> int \<times> sys_info"
  se_ver_get :: "u8 list \<Rightarrow> u8 list"
  se_mac_set :: "u8 list \<Rightarrow> 'f \<Rightarrow> int \<times> 'f"
  se_port_num :: u8

record 'f sys_world =
  sw_info :: sys_info
  sw_flash :: 'f
  sw_mac :: "u8 list"
  sw_connect :: u32
  sw_SetTime :: "u8 list"
  sw_tim :: localtime_tm

definition GW_Onu_Sysinfo_Save_To_Flash :: "'f sys_env \<Rightarrow> 'f sys_world \<Rightarrow> int \<times> 'f sys_world" where
  "GW_Onu_Sysinfo_Save_To_Flash env w = (case se_save env (sw_info w) (sw_flash w) of (r, f) \<Rightarrow> (r, w\<lparr>sw_flash := f\<rparr>))"

definition resetSysInfoToDefault :: "'f sys_env \<Rightarrow> sys_info" where
  "resetSysInfoToDefault env =
     (let z = info_zero
      in z\<lparr>si_device_name := snput (si_device_name z) (chars (''ONU-'' @ fmt_d (int (unat (se_port_num env))) @ ''FE'')),
           si_product_type := DEVICE_TYPE_UNKNOWN,
           si_serial_no := snput (si_serial_no z) (chars ''SN00000001''),
           si_sw_version := snput (si_sw_version z) (chars ''V1R01B001''),
           si_hw_version := snput (si_hw_version z) (chars ''V1.0''),
           si_hw_manufature_date := snput (si_hw_manufature_date z) (chars ''1970-01-01''),
           si_valid_flag := VALID_E\<rparr>)"

definition cut_text :: "u8 list \<Rightarrow> u8 list" where "cut_text b = b[length b - 1 := 0]"

definition GW_Onu_Sysinfo_Get_From_Flash :: "'f sys_env \<Rightarrow> 'f sys_world \<Rightarrow> int \<times> 'f sys_world" where
  "GW_Onu_Sysinfo_Get_From_Flash env w =
     (let i1 = (case se_restore env (sw_flash w) of (r, i) \<Rightarrow> if r \<noteq> GW_OK then resetSysInfoToDefault env else i);
          i2 = (if si_valid_flag i1 \<noteq> VALID_E then resetSysInfoToDefault env else i1);
          i3 = i2\<lparr>si_device_name := cut_text (si_device_name i2), si_serial_no := cut_text (si_serial_no i2),
                  si_hw_manufature_date := cut_text (si_hw_manufature_date i2), si_sw_version := se_ver_get env (si_sw_version i2)\<rparr>
      in (0, w\<lparr>sw_info := i3\<rparr>))"

definition GW_Onu_Sysinfo_Save :: "'f sys_env \<Rightarrow> 'f sys_world \<Rightarrow> int \<times> 'f sys_world" where
  "GW_Onu_Sysinfo_Save env w =
     GW_Onu_Sysinfo_Save_To_Flash env (w\<lparr>sw_info := (sw_info w)\<lparr>si_product_type := PRODUCT_GT813_C, si_valid_flag := VALID_E\<rparr>\<rparr>)"

abbreviation GW_Onu_Sysinfo_Get :: "'f sys_env \<Rightarrow> 'f sys_world \<Rightarrow> int \<times> 'f sys_world" where
  "GW_Onu_Sysinfo_Get \<equiv> GW_Onu_Sysinfo_Get_From_Flash"

section \<open>The commands\<close>

text \<open>
  A command of the world in the session. Help only prints. \<open>saved\<close>: what is left to do once a field is written, \<open>None\<close>
  for a text that does not fit.
\<close>

definition saved :: "'f sys_env \<Rightarrow> 'f sys_world cli_def \<Rightarrow> sys_info option \<Rightarrow> (int \<times> 'f sys_world cli_def) option" where
  "saved env s i = map_option (\<lambda>i. (CLI_OK, s\<lparr>cl_world := snd (GW_Onu_Sysinfo_Save env ((cl_world s)\<lparr>sw_info := i\<rparr>))\<rparr>)) i"

definition read_flash :: "'f sys_env \<Rightarrow> 'f sys_world cli_def \<Rightarrow> 'f sys_world cli_def" where
  "read_flash env s = s\<lparr>cl_world := snd (GW_Onu_Sysinfo_Get env (cl_world s))\<rparr>"

definition help_or :: "string list \<Rightarrow> ('w cli_def \<Rightarrow> (int \<times> 'w cli_def) option) \<Rightarrow> 'w cli_def \<Rightarrow> (int \<times> 'w cli_def) option" where
  "help_or argv f s = Option.bind (cli_help_requested argv) (\<lambda>h. if h then Some (CLI_OK, s) else f s)"

definition put_date :: "int \<Rightarrow> int \<Rightarrow> int \<Rightarrow> sys_info \<Rightarrow> sys_info option" where
  "put_date y m d i = map_option (\<lambda>t. i\<lparr>si_hw_manufature_date := t\<rparr>)
     (sput (si_hw_manufature_date i) (chars (fmt_d y @ ''-'' @ fmt_02d m @ ''-'' @ fmt_02d d)))"

definition cmd_onu_mgt_config_product_date_local :: "'f sys_env \<Rightarrow> 'f sys_world cli_fun" where
  "cmd_onu_mgt_config_product_date_local env command argv = help_or argv (\<lambda>s.
     if length argv = 3
     then let s1 = read_flash env s
          in saved env s1 (put_date (atoi (argv ! 0)) (atoi (argv ! 1)) (atoi (argv ! 2)) (sw_info (cl_world s1)))
     else Some (CLI_OK, s))"

definition cmd_onu_mgt_config_product_date :: "'f sys_env \<Rightarrow> 'f sys_world cli_fun" where
  "cmd_onu_mgt_config_product_date env command argv = help_or argv (\<lambda>s.
     if length argv = 3
     then let year = atoi (argv ! 0); month = atoi (argv ! 1); date = atoi (argv ! 2) in
       if year < 2007 \<or> year > 2100 then Some (CLI_ERROR, s)
       else if month < 1 \<or> month > 12 then Some (CLI_ERROR, s)
       else if date < 1 \<or> date > 31 then Some (CLI_ERROR, s)
       else let s1 = read_flash env s in saved env s1 (put_date year month date (sw_info (cl_world s1)))
     else Some (CLI_OK, s))"

definition put_hw :: "string \<Rightarrow> sys_info \<Rightarrow> sys_info option" where
  "put_hw v i = map_option (\<lambda>t. i\<lparr>si_hw_version := t\<rparr>) (sput (si_hw_version i) (chars v))"

definition cmd_onu_mgt_config_product_hw_version_local :: "'f sys_env \<Rightarrow> 'f sys_world cli_fun" where
  "cmd_onu_mgt_config_product_hw_version_local env command argv = help_or argv (\<lambda>s.
     if length argv = 2
     then saved env s (put_hw (''V'' @ fmt_d (atoi (argv ! 0)) @ ''.'' @ fmt_d (atoi (argv ! 1))) (sw_info (cl_world s)))
     else Some (CLI_OK, s))"

definition cmd_onu_mgt_config_product_hw_version :: "'f sys_env \<Rightarrow> 'f sys_world cli_fun" where
  "cmd_onu_mgt_config_product_hw_version env command argv = help_or argv (\<lambda>s.
     if length argv = 3
     then let v_major = atoi (argv ! 0); v_rel = atoi (argv ! 1); vb = atoi (argv ! 2) in
       if v_major < 1 \<or> v_major > 9 then Some (CLI_ERROR, s)
       else if v_rel < 0 \<or> v_rel > 9 then Some (CLI_ERROR, s)
       else if vb < 1 \<or> vb > 9 then Some (CLI_ERROR, s)
       else saved env s (put_hw (''V'' @ fmt_d v_major @ ''.'' @ fmt_d v_rel @ ''B'' @ fmt_d vb) (sw_info (cl_world s)))
     else Some (CLI_OK, s))"

definition put_serial :: "u8 list \<Rightarrow> sys_info \<Rightarrow> sys_info option" where
  "put_serial t i = map_option (\<lambda>b. i\<lparr>si_serial_no := b\<rparr>) (sput (si_serial_no i) t)"

definition put_name :: "u8 list \<Rightarrow> sys_info \<Rightarrow> sys_info option" where
  "put_name t i = map_option (\<lambda>b. i\<lparr>si_device_name := b\<rparr>) (sput (si_device_name i) t)"

text \<open>
  A text in capitals through a local array of \<open>bufsize\<close> bytes. \<open>limit\<close>: the length that is still accepted.
\<close>

definition capitals :: "nat \<Rightarrow> string \<Rightarrow> u8 list option" where
  "capitals bufsize arg = (if length arg < bufsize then Some (chars (map toupper_u8 arg)) else None)"

definition set_text ::
  "'f sys_env \<Rightarrow> nat \<Rightarrow> nat \<Rightarrow> (u8 list \<Rightarrow> sys_info \<Rightarrow> sys_info option) \<Rightarrow> 'f sys_world cli_fun" where
  "set_text env limit bufsize put command argv = help_or argv (\<lambda>s.
     if length argv = 1
     then if length (argv ! 0) > limit then Some (CLI_OK, s)
          else Option.bind (capitals bufsize (argv ! 0)) (\<lambda>t.
            let s1 = read_flash env s in saved env s1 (put t (sw_info (cl_world s1))))
     else Some (CLI_OK, s))"

definition cmd_onu_mgt_config_product_sn_local :: "'f sys_env \<Rightarrow> 'f sys_world cli_fun" where
  "cmd_onu_mgt_config_product_sn_local env = set_text env 16 18 put_serial"

definition cmd_onu_mgt_config_product_sn :: "'f sys_env \<Rightarrow> 'f sys_world cli_fun" where
  "cmd_onu_mgt_config_product_sn env = set_text env 16 18 put_serial"

definition cmd_onu_mgt_config_device_name_local :: "'f sys_env \<Rightarrow> 'f sys_world cli_fun" where
  "cmd_onu_mgt_config_device_name_local env = set_text env 64 64 put_name"

definition cmd_onu_mgt_config_device_name :: "'f sys_env \<Rightarrow> 'f sys_world cli_fun" where
  "cmd_onu_mgt_config_device_name env = set_text env 128 129 put_name"

text \<open>The address as it is printed, and the commands that read it.\<close>

fun mac_text :: "u8 list \<Rightarrow> string" where
  "mac_text [] = []" | "mac_text [b] = fmt_02x b" | "mac_text (b # bs) = fmt_02x b @ '':'' @ mac_text bs"

definition cmd_set_onu_mac :: "'f sys_env \<Rightarrow> 'f sys_world cli_fun" where
  "cmd_set_onu_mac env command argv = help_or argv (\<lambda>s.
     if length argv = 1
     then if length (argv ! 0) > 18 then Some (CLI_ERROR, s)
          else let mac1 = scan_hexes 6 (argv ! 0) in
            if length mac1 \<noteq> 6 \<or> odd (mac1 ! 0) then Some (CLI_ERROR, s)
            else let mac2 = map word_of_int mac1; w = cl_world s in
              (case se_mac_set env mac2 (sw_flash w) of (r, f) \<Rightarrow>
                 if r = GW_OK then Some (CLI_OK, s\<lparr>cl_world := w\<lparr>sw_flash := f, sw_mac := mac2\<rparr>\<rparr>)
                 else Some (CLI_ERROR, s\<lparr>cl_world := w\<lparr>sw_flash := f\<rparr>\<rparr>))
     else Some (CLI_OK, s))"

definition cmd_set_onu_mac_local :: "'f sys_env \<Rightarrow> 'f sys_world cli_fun" where
  "cmd_set_onu_mac_local = cmd_set_onu_mac"

text \<open>The commands that print the record read it from flash first.\<close>

definition cmd_show_system_information :: "'f sys_env \<Rightarrow> 'f sys_world cli_fun" where
  "cmd_show_system_information env command argv s = Some (CLI_OK, read_flash env s)"

section \<open>Requests of the OLT\<close>

definition ONU_INFOR_GET :: u8 where "ONU_INFOR_GET = 1"
definition ONU_INFOR_SET :: u8 where "ONU_INFOR_SET = 2"
definition ONU_REALTIME_SYNC :: u8 where "ONU_REALTIME_SYNC = 3"
definition ONU_LPB_DETECT :: u8 where "ONU_LPB_DETECT = 4"
definition ACCESS_IDENTIFIER :: u8 where "ACCESS_IDENTIFIER = 8"

definition lv :: "u8 list \<Rightarrow> u8 list" where "lv t = of_nat (length t) # t"

text \<open>The answer to \<^verbatim>\<open>ONU_INFOR_GET\<close>; a text of more than 128 bytes is cut for the name.\<close>

definition onu_infor_get :: "sys_info \<Rightarrow> u8 list option" where
  "onu_infor_get i =
     Option.bind (cstr (si_hw_version i)) (\<lambda>hw.
     Option.bind (cstr (si_sw_version i)) (\<lambda>sw.
     Option.bind (cstr (si_device_name i)) (\<lambda>name.
     Option.bind (cstr (si_serial_no i)) (\<lambda>sn.
     Option.bind (cstr (si_hw_manufature_date i)) (\<lambda>date.
       Some ([ONU_INFOR_GET] @ bytes_of_u16 DEVICE_TYPE_GT811_A @ [0x00, 0x0f, 0xe9] @ lv hw @ lv (chars '' boot '') @ lv sw @
             lv (chars ''V3.1.1.1'') @ lv (take 128 name) @ lv (chars ''CTC-ONU-Ready'') @ lv (chars ''Beijing China'') @
             lv (chars ''GW Delight'') @ lv sn @ lv date @ [0, 0, 0xfe, 3, 0x80]))))))"

text \<open>
  \<^verbatim>\<open>ONU_INFOR_SET\<close>: three texts, each with its length before it. Only the name is kept. A read beyond the payload is a
  fault.
\<close>

definition bytes_at :: "u8 list \<Rightarrow> nat \<Rightarrow> nat \<Rightarrow> u8 list option" where
  "bytes_at b off n = (if off + n \<le> length b then Some (take n (drop off b)) else None)"

definition onu_infor_set :: "'f sys_env \<Rightarrow> u8 list \<Rightarrow> 'f sys_world \<Rightarrow> (u8 list \<times> 'f sys_world) option" where
  "onu_infor_set env payload w =
     Option.bind (bytes_at payload 1 1) (\<lambda>l1. let nameLen = unat (hd l1) in
     Option.bind (if nameLen \<noteq> 0
                  then let tmpLen = min nameLen 132; w1 = snd (GW_Onu_Sysinfo_Get env w) in
                    Option.bind (bytes_at payload 2 tmpLen) (\<lambda>name.
                      Some ([1], snd (GW_Onu_Sysinfo_Save env (w1\<lparr>sw_info := (sw_info w1)\<lparr>si_device_name := name @ replicate (132 - tmpLen) 0\<rparr>\<rparr>))))
                  else Some ([], w)) (\<lambda>(r1, w1).
     Option.bind (bytes_at payload (2 + nameLen) 1) (\<lambda>l2. let descrLen = unat (hd l2); r2 = (if descrLen \<noteq> 0 then [1] else []) in
     Option.bind (bytes_at payload (3 + nameLen + descrLen) 1) (\<lambda>l3. let r3 = (if unat (hd l3) \<noteq> 0 then [1] else []) in
       Some ([ONU_INFOR_SET] @ r1 @ r2 @ r3, w1)))))"

text \<open>
  \<^verbatim>\<open>ONU_REALTIME_SYNC\<close>: the text of the time goes piece by piece into an array of 20 bytes, and each field is checked
  against its bound before it is written. The result says whether all were accepted.
\<close>

definition tm_zero :: localtime_tm where
  "tm_zero = \<lparr>tm_sec = 0, tm_min = 0, tm_hour = 0, tm_mday = 0, tm_mon = 0, tm_year = 0\<rparr>"

definition sync_put :: "u8 list \<Rightarrow> nat \<Rightarrow> 'f sys_world \<Rightarrow> 'f sys_world option" where
  "sync_put t off w =
     (if off + length t < length (sw_SetTime w)
      then Some (w\<lparr>sw_SetTime := take off (sw_SetTime w) @ t @ 0 # drop (off + length t + 1) (sw_SetTime w)\<rparr>) else None)"

fun sync_fields ::
  "(nat \<times> string \<times> (int \<Rightarrow> localtime_tm \<Rightarrow> localtime_tm)) list \<Rightarrow> u8 list \<Rightarrow> nat \<Rightarrow> 'f sys_world \<Rightarrow> (bool \<times> 'f sys_world) option" where
  "sync_fields [] bs off w = Some (True, w)"
| "sync_fields ((bound, sep, upd) # fs) [] off w = None"
| "sync_fields ((bound, sep, upd) # fs) (b # bs) off w =
     (if unat b > bound then Some (False, w)
      else let t = chars (fmt_02d (int (unat b)) @ sep) in
        Option.bind (sync_put t off w) (\<lambda>w. sync_fields fs bs (off + length t) (w\<lparr>sw_tim := upd (int (unat b)) (sw_tim w)\<rparr>)))"

definition sync_table :: "(nat \<times> string \<times> (int \<Rightarrow> localtime_tm \<Rightarrow> localtime_tm)) list" where
  "sync_table = [(12, ''/'', \<lambda>v t. t\<lparr>tm_mon := v\<rparr>), (31, '':'', \<lambda>v t. t\<lparr>tm_mday := v\<rparr>), (24, '':'', \<lambda>v t. t\<lparr>tm_hour := v\<rparr>),
     (59, '':'', \<lambda>v t. t\<lparr>tm_min := v\<rparr>), (59, [], \<lambda>v t. t\<lparr>tm_sec := v\<rparr>)]"

definition onu_realtime_sync :: "u8 list \<Rightarrow> 'f sys_world \<Rightarrow> (bool \<times> 'f sys_world) option" where
  "onu_realtime_sync payload w =
     (let w = w\<lparr>sw_tim := tm_zero\<rparr> in
      Option.bind (bytes_at payload 1 2) (\<lambda>y. let usValue = 256 * int (unat (y ! 0)) + int (unat (y ! 1)) in
        if usValue < 1980 \<or> usValue > 2079 then Some (False, w)
        else let t = chars (fmt_4d usValue @ ''/'') in
          Option.bind (sync_put t 0 w) (\<lambda>w. sync_fields sync_table (drop 3 payload) (length t) (w\<lparr>sw_tim := (sw_tim w)\<lparr>tm_year := usValue\<rparr>\<rparr>))))"

text \<open>
  \<^verbatim>\<open>ONU_LPB_DETECT\<close>: the whole message is copied over a cleared frame of 19 bytes. An old request of 15 bytes has no
  numbers of wake-ups.
\<close>

definition LPB_FRAME_LEN :: nat where "LPB_FRAME_LEN = 19"
definition LPB_OLD_VER_LEN :: nat where "LPB_OLD_VER_LEN = LPB_FRAME_LEN - 4"

definition lpb_config :: "u8 list \<Rightarrow> bool \<Rightarrow> lpb_frame \<Rightarrow> lpb_frame" where
  "lpb_config t old f =
     f\<lparr>lf_smac := take 6 (drop 5 t), lf_vid := ntohs (u16_at t 3),
       lf_interval := (let nv = ntohs (u16_at t 11) in if nv \<noteq> 0 then nv else 10),
       lf_policy := ntohs (u16_at t 13),
       lf_waitforwakeup := (if old then 3 else ntohs (u16_at t 15)),
       lf_maxwakeup := (if old then 3 else ntohs (u16_at t 17))\<rparr>"

definition onu_lpb_detect ::
  "('h, 'z) det_env_scheme \<Rightarrow> addr option \<Rightarrow> u32 \<Rightarrow> u32 \<Rightarrow> u8 list \<Rightarrow> nat \<Rightarrow> 'h det_sys \<Rightarrow> 'h det_sys option" where
  "onu_lpb_detect env stack tid self payload WholePktLen d =
     (if WholePktLen > LPB_FRAME_LEN \<or> WholePktLen > length payload then None
      else let t = take WholePktLen payload @ replicate (LPB_FRAME_LEN - WholePktLen) 0;
               s = ds_lpb d;
               s1 = s\<lparr>lp_oam := lpb_config t (WholePktLen = LPB_OLD_VER_LEN) (lp_oam s)\<rparr>
           in Some (snd (EthLoopbackDetectControl env (ucast (t ! 2)) (lp_Mode s1) stack tid self (d\<lparr>ds_lpb := s1\<rparr>))))"

text \<open>
  The request: its result, the frames of the answer and the state. As in \<open>onu_locate_user\<close>, \<open>None\<close> is a search that does
  not end and \<open>Some None\<close> a fault. The answer to a set clock is eight bytes of a buffer that nobody has filled.
\<close>

type_synonym ('f, 'h) info_result = "(int \<times> (oam_frame \<times> nat) list \<times> 'f sys_world \<times> 'h det_sys) option"

definition info_answer :: "oam_node \<Rightarrow> u8 list \<Rightarrow> 'f sys_world \<Rightarrow> 'h det_sys \<Rightarrow> ('f, 'h) info_result" where
  "info_answer n resp w d =
     (case CommOnuMsgSend EQU_DEVICE_INFO_RESP (on_SendSerNo n) resp (Some (on_SessionID n)) of (r, fs) \<Rightarrow> Some (r, fs, w, d))"

record info_ctx =
  ic_next :: fdb_next
  ic_sw :: sub_switch
  ic_mem :: bool
  ic_stack :: "addr option"
  ic_tid :: u32
  ic_self :: u32

definition GwOamInformationRequest ::
  "'f sys_env \<Rightarrow> ('h, 'z) det_env_scheme \<Rightarrow> info_ctx \<Rightarrow> oam_node \<Rightarrow> 'f sys_world \<Rightarrow> 'h det_sys \<Rightarrow> ('f, 'h) info_result option" where
  "GwOamInformationRequest env denv cx n w d =
     (if on_GwOpcode n \<noteq> EQU_DEVICE_INFO_REQ then Some (Some (-1, [], w, d))
      else case on_pPayLoad n of
        None \<Rightarrow> Some (Some (-1, [], w, d))
      | Some [] \<Rightarrow> Some None
      | Some payload \<Rightarrow>
          if hd payload = ONU_INFOR_GET
          then Some (Option.bind (onu_infor_get (sw_info w)) (\<lambda>resp. info_answer n resp (w\<lparr>sw_connect := 1\<rparr>) d))
          else if hd payload = ONU_INFOR_SET
          then Some (Option.bind (onu_infor_set env payload w) (\<lambda>(resp, w1). info_answer n resp w1 d))
          else if hd payload = ONU_REALTIME_SYNC
          then Some (Option.bind (onu_realtime_sync payload w) (\<lambda>(ok, w1).
                 if ok then info_answer n (replicate 8 0) w1 d else Some (-1, [], w1, d)))
          else if hd payload = ACCESS_IDENTIFIER then Some (info_answer n [] w d)
          else if hd payload = ONU_LPB_DETECT
          then Some (map_option (\<lambda>d1. (0, [], w, d1))
                 (onu_lpb_detect denv (ic_stack cx) (ic_tid cx) (ic_self cx) payload (unat (on_WholePktLen n)) d))
          else if hd payload = ONU_LOCATE_USER
          then map_option (map_option (\<lambda>(r, fs). (r, fs, w, d)))
                 (onu_locate_user (ic_next cx) (ic_sw cx) (ic_mem cx) payload (on_SendSerNo n) (on_SessionID n))
          else Some (Some (-1, [], w, d)))"

text \<open>An answer of the OLT to an alarm is only recognised. \<open>None\<close>: an empty payload is read.\<close>

definition GwOamAlarmResponse :: "oam_node \<Rightarrow> int option" where
  "GwOamAlarmResponse n =
     (case on_pPayLoad n of
        None \<Rightarrow> Some (-1)
      | Some [] \<Rightarrow> None
      | Some (b # _) \<Rightarrow> Some (if b \<in> {2, 10, 20, 21, 30, 100, 80, 50} then 0 else -1))"

definition ONU_Oam_BCStorm_Trap_Report_API :: "u32 \<Rightarrow> u32 \<Rightarrow> u8 \<Rightarrow> u8 \<Rightarrow> u8 list \<Rightarrow> int \<times> (oam_frame \<times> nat) list" where
  "ONU_Oam_BCStorm_Trap_Report_API slot port operate state session =
     CommOnuMsgSend ALARM_REQ 0 [22, 0, 0, ucast slot, ucast port, state, operate] (Some session)"

section \<open>The clock\<close>

text \<open>
  The time of the OLT and the time since the start of the unit, added field by field with a carry. \<open>carry\<close>: what an
  overflowing field leaves and what it carries.
\<close>

definition carry :: "int \<Rightarrow> int \<Rightarrow> int \<times> int" where
  "carry limit v = (if v > limit then (v - (v div limit) * limit, v div limit) else (v, 0))"

definition curr_time_cheak_and_get :: "localtime_tm \<Rightarrow> localtime_tm \<Rightarrow> localtime_tm" where
  "curr_time_cheak_and_get olt onu =
     (case carry 60 (tm_sec onu + tm_sec olt) of (sec, c1) \<Rightarrow>
      case carry 60 (tm_min onu + tm_min olt + c1) of (mi, c2) \<Rightarrow>
      case carry 24 (tm_hour onu + tm_hour olt + c2) of (h, c3) \<Rightarrow>
      case carry 31 (tm_mday onu + tm_mday olt - 1 + c3) of (day, c4) \<Rightarrow>
      case carry 12 (tm_mon onu + tm_mon olt - 1 + c4) of (mon, c5) \<Rightarrow>
        \<lparr>tm_sec = sec, tm_min = mi, tm_hour = h, tm_mday = day, tm_mon = mon, tm_year = tm_year onu + tm_year olt - 70 + c5\<rparr>)"

section \<open>Registration\<close>

text \<open>The commands of \<^verbatim>\<open>cli_reg_gwd_cmd\<close> below \<^verbatim>\<open>set\<close> and \<^verbatim>\<open>display\<close>; \<open>other\<close> gives the callbacks that are not modelled here.\<close>

fun register_below :: "nat list \<Rightarrow> (string \<times> 'w cli_fun) list \<Rightarrow> int \<Rightarrow> int \<Rightarrow> 'w cli_command list \<Rightarrow> 'w cli_command list option" where
  "register_below parent [] priv mode root = Some root"
| "register_below parent ((n, f) # rest) priv mode root =
     Option.bind (gw_cli_register_command root parent n (Some f) priv mode) (register_below parent rest priv mode)"

definition cli_reg_gwd_cmd ::
  "'f sys_env \<Rightarrow> (string \<Rightarrow> 'f sys_world cli_fun) \<Rightarrow> 'f sys_world cli_command list \<Rightarrow> 'f sys_world cli_command list option" where
  "cli_reg_gwd_cmd env other root =
     (let k = length root in
      Option.bind (gw_cli_register_command root [] ''set'' None PRIVILEGE_PRIVILEGED MODE_CONFIG) (\<lambda>r.
      Option.bind (register_below [k] [(''date'', cmd_onu_mgt_config_product_date env), (''serial'', cmd_onu_mgt_config_product_sn env),
          (''devicename'', cmd_onu_mgt_config_device_name env), (''hw-version'', cmd_onu_mgt_config_product_hw_version env),
          (''mac'', cmd_set_onu_mac env)] PRIVILEGE_PRIVILEGED MODE_CONFIG r) (\<lambda>r.
      Option.bind (gw_cli_register_command r [] ''display'' None PRIVILEGE_UNPRIVILEGED MODE_ANY) (\<lambda>r.
      Option.bind (register_below [k + 1] [(''product'', cmd_show_system_information env), (''version'', other ''cmd_show_version_build_time''),
          (''opm'', other ''cmd_show_opm_diagnostic_variables'')] PRIVILEGE_UNPRIVILEGED MODE_ANY r) (\<lambda>r.
      Option.bind (gw_cli_register_command r [] ''dbg'' None PRIVILEGE_UNPRIVILEGED MODE_ANY) (\<lambda>r.
      Option.bind (register_below [k + 2] [(''module'', other ''cmd_dbg_mod_man''), (''level'', other ''cmd_dbg_lvl_man'')] PRIVILEGE_UNPRIVILEGED MODE_ANY r) (\<lambda>r.
        gw_cli_register_command r [] ''product-cli'' (Some (other ''cmd_entry_product_cli'')) PRIVILEGE_PRIVILEGED MODE_CONFIG)))))))"

text \<open>
  The table of \<^verbatim>\<open>gwd_onu_init\<close>: one constructor for each function that is entered, in that order; \<open>poe\<close>: the unit can power
  its ports.
\<close>

datatype user_cmd = Cli_reg_gwd_cmd | Gw_cli_switch_gwd_cmd | Gw_cli_debeg_gwd_cmd | Cli_reg_rcp_cmd | Gw_cli_reg_oam_cmd
  | Gw_cli_reg_native_cmd | Cli_reg_gwd_poe_cmd | Gw_cli_multicast_gwd_cmd

fun call_user_cmd :: "'f sys_env \<Rightarrow> (string \<Rightarrow> 'f sys_world cli_fun) \<Rightarrow> user_cmd \<Rightarrow>
    'f sys_world cli_command list \<Rightarrow> 'f sys_world cli_command list option" where
  "call_user_cmd env other Cli_reg_gwd_cmd = cli_reg_gwd_cmd env other"
| "call_user_cmd env other Gw_cli_switch_gwd_cmd = gw_cli_switch_gwd_cmd other"
| "call_user_cmd env other Gw_cli_debeg_gwd_cmd = gw_cli_debeg_gwd_cmd other"
| "call_user_cmd env other Cli_reg_rcp_cmd = cli_reg_rcp_cmd other"
| "call_user_cmd env other Gw_cli_reg_oam_cmd = gw_cli_reg_oam_cmd other"
| "call_user_cmd env other Gw_cli_reg_native_cmd = gw_cli_reg_native_cmd other"
| "call_user_cmd env other Cli_reg_gwd_poe_cmd = cli_reg_gwd_poe_cmd other"
| "call_user_cmd env other Gw_cli_multicast_gwd_cmd = gw_cli_multicast_gwd_cmd other"

definition gwd_onu_init_cmds :: "bool \<Rightarrow> user_cmd user_init_handler list" where
  "gwd_onu_init_cmds poe =
     fold (\<lambda>(desc, h) hs. snd (registerUserCmdInitHandler (Some desc) (Some h) hs))
       ([(''gwd'', Cli_reg_gwd_cmd), (''rcp-switch'', Gw_cli_switch_gwd_cmd), (''rcp-switch-debug'', Gw_cli_debeg_gwd_cmd),
         (''rcp-switch-show'', Cli_reg_rcp_cmd), (''oam-mgt'', Gw_cli_reg_oam_cmd), (''native_mgt'', Gw_cli_reg_native_cmd)] @
        (if poe then [(''gwd'', Cli_reg_gwd_poe_cmd)] else []) @ [(''multicast'', Gw_cli_multicast_gwd_cmd)])
       userCmdInitHandlerInit"

text \<open>The tree that \<^verbatim>\<open>oam_cli_start\<close> builds once the table is filled.\<close>

definition onu_cli_tree :: "'f sys_env \<Rightarrow> bool \<Rightarrow> (string \<Rightarrow> 'f sys_world cli_fun) \<Rightarrow> 'f sys_world cli_command list option" where
  "onu_cli_tree env poe other = gw_cli_tree_init (call_user_cmd env other) (gwd_onu_init_cmds poe)"

section \<open>Lemmas on texts\<close>

lemma length_chars [simp]: "length (chars s) = length s"
  by (simp add: chars_def)

lemma chars_append [simp]: "chars (s @ t) = chars s @ chars t"
  by (simp add: chars_def)

lemma chars_simps [simp]: "chars [] = []" "chars (c # s) = of_char c # chars s"
  by (simp_all add: chars_def)

lemma cstr_text: "0 \<notin> set t \<Longrightarrow> cstr (t @ 0 # r) = Some t"
  by (induction t) (auto simp: cstr_def)

lemma cstr_some: "0 \<in> set b \<Longrightarrow> \<exists>t. cstr b = Some t \<and> length t < length b \<and> 0 \<notin> set t"
  by (induction b) (auto simp: cstr_def dest: set_takeWhileD)

lemma cstr_none: "0 \<notin> set b \<Longrightarrow> cstr b = None"
  by (simp add: cstr_def)

lemma sput_some: "sput b s = Some b' \<Longrightarrow> length b' = length b \<and> 0 \<in> set b'"
  by (auto simp: sput_def split: if_splits)

lemma sput_fits: "length s < length b \<Longrightarrow> \<exists>b'. sput b s = Some b' \<and> length b' = length b \<and> 0 \<in> set b'"
  by (auto simp: sput_def)

lemma snput_ok: "b \<noteq> [] \<Longrightarrow> length (snput b s) = length b \<and> 0 \<in> set (snput b s)"
  by (cases b) (auto simp: snput_def Let_def min_def)

lemma cut_text_ok [simp]: "length (cut_text b) = length b" "b \<noteq> [] \<Longrightarrow> 0 \<in> set (cut_text b)"
  unfolding cut_text_def by (simp, metis diff_less length_greater_0_conv less_one set_update_memI)

lemma cut_text_text: "0 \<notin> set t \<Longrightarrow> length t < n \<Longrightarrow> cstr (cut_text (t @ replicate (n - length t) 0)) = Some t"
proof -
  assume a: "0 \<notin> set t" "length t < n"
  then obtain k where k: "n - length t = Suc k" by (metis Suc_diff_Suc)
  have "(t @ replicate (n - length t) 0) ! (n - 1) = 0" using a k by (auto simp: nth_append nth_Cons' simp del: replicate_Suc)
  then have "cut_text (t @ replicate (n - length t) 0) = t @ replicate (n - length t) 0"
    unfolding cut_text_def using a by (metis (no_types, lifting) add_diff_inverse_nat length_append length_replicate list_update_id not_less_iff_gr_or_eq)
  then show ?thesis using cstr_text [OF a(1), of "replicate k 0"] k by simp
qed

lemma dec_less: "n < 10 \<Longrightarrow> dec n = [char_of (48 + n)]"
  by (subst dec.simps) simp

lemma length_dec: "n < 10 ^ k \<Longrightarrow> 0 < k \<Longrightarrow> length (dec n) \<le> k"
proof (induction k arbitrary: n)
  case (Suc k)
  show ?case
  proof (cases "n < 10")
    case True then show ?thesis by (simp add: dec_less)
  next
    case False
    with Suc.prems(1) have "n div 10 < 10 ^ k" "0 < k" by (auto intro: gr0I simp: less_mult_imp_div_less mult.commute)
    from Suc.IH [OF this] show ?thesis by (subst dec.simps) (simp add: False)
  qed
qed simp

lemma length_dec_pos: "0 < length (dec n)"
  by (subst dec.simps) simp

lemma length_fmt_d: "0 \<le> i \<Longrightarrow> i < 10 ^ k \<Longrightarrow> 0 < k \<Longrightarrow> length (fmt_d i) \<le> k"
  using length_dec [of "nat i" k] by (simp add: fmt_d_def nat_less_iff)

lemma length_fmt_02d: "0 \<le> i \<Longrightarrow> i < 100 \<Longrightarrow> length (fmt_02d i) = 2"
proof -
  assume i: "0 \<le> i" "i < 100"
  show ?thesis
  proof (cases "i < 10")
    case True then show ?thesis using i by (simp add: fmt_02d_def dec_less nat_less_iff)
  next
    case False
    then have "nat i div 10 < 10" "\<not> nat i < 10" using i by auto
    then show ?thesis using False by (simp add: fmt_02d_def fmt_d_def dec.simps [of "nat i"] dec_less)
  qed
qed

lemma length_fmt_4d: "1000 \<le> i \<Longrightarrow> i < 10000 \<Longrightarrow> length (fmt_4d i) = 4"
proof -
  assume i: "1000 \<le> i" "i < 10000"
  have "length (fmt_d i) \<le> 4" using length_fmt_d [of i 4] i by simp
  then show ?thesis by (simp add: fmt_4d_def Let_def)
qed

section \<open>The invariant of the record\<close>

text \<open>Every text ends within its array.\<close>

definition ends_in :: "nat \<Rightarrow> u8 list \<Rightarrow> bool" where "ends_in n b \<longleftrightarrow> length b = n \<and> 0 \<in> set b"

definition info_ok :: "sys_info \<Rightarrow> bool" where
  "info_ok i \<longleftrightarrow> ends_in 132 (si_device_name i) \<and> ends_in 12 (si_sw_version i) \<and> ends_in 18 (si_serial_no i) \<and>
     ends_in 7 (si_hw_version i) \<and> ends_in 12 (si_hw_manufature_date i)"

text \<open>
  What is asked of the interface library: the version is a text that fits its array, and what it restores as valid has arrays of the
  right length, with a version of the hardware that ends, as \<^verbatim>\<open>GW_Onu_Sysinfo_Save\<close> writes it.
\<close>

definition restores_ok :: "'f sys_env \<Rightarrow> bool" where
  "restores_ok env \<longleftrightarrow> (\<forall>b. ends_in 12 b \<longrightarrow> ends_in 12 (se_ver_get env b)) \<and>
     (\<forall>f i. se_restore env f = (GW_OK, i) \<and> si_valid_flag i = VALID_E \<longrightarrow>
        length (si_device_name i) = 132 \<and> ends_in 12 (si_sw_version i) \<and> length (si_serial_no i) = 18 \<and>
        ends_in 7 (si_hw_version i) \<and> length (si_hw_manufature_date i) = 12)"

lemma ends_in_snput: "length b = n \<Longrightarrow> 0 < n \<Longrightarrow> ends_in n (snput b s)"
  using snput_ok [of b s] by (auto simp: ends_in_def)

lemma ends_in_sput: "length s < n \<Longrightarrow> length b = n \<Longrightarrow> \<exists>b'. sput b s = Some b' \<and> ends_in n b'"
  using sput_fits [of s b] by (auto simp: ends_in_def)

lemma ends_in_cut: "length b = n \<Longrightarrow> 0 < n \<Longrightarrow> ends_in n (cut_text b)"
  by (auto simp: ends_in_def)

lemma default_ok: "info_ok (resetSysInfoToDefault env)"
  by (simp add: info_ok_def resetSysInfoToDefault_def info_zero_def ends_in_snput del: replicate.simps)

lemma info_okD:
  assumes "info_ok i"
  shows "length (si_device_name i) = 132" "length (si_serial_no i) = 18" "length (si_hw_version i) = 7"
    "length (si_hw_manufature_date i) = 12" "length (si_sw_version i) = 12"
  using assms by (auto simp: info_ok_def ends_in_def)

lemma get_ok:
  assumes "restores_ok env"
  shows "info_ok (sw_info (snd (GW_Onu_Sysinfo_Get env w)))"
proof -
  obtain r i where r: "se_restore env (sw_flash w) = (r, i)" by fastforce
  define j where "j = (let i1 = (if r \<noteq> GW_OK then resetSysInfoToDefault env else i)
     in if si_valid_flag i1 \<noteq> VALID_E then resetSysInfoToDefault env else i1)"
  have "length (si_device_name j) = 132 \<and> ends_in 12 (si_sw_version j) \<and> length (si_serial_no j) = 18 \<and>
      ends_in 7 (si_hw_version j) \<and> length (si_hw_manufature_date j) = 12"
    using assms r default_ok [of env] by (auto simp: j_def Let_def restores_ok_def info_ok_def ends_in_def)
  moreover have "sw_info (snd (GW_Onu_Sysinfo_Get env w)) = j\<lparr>si_device_name := cut_text (si_device_name j),
      si_serial_no := cut_text (si_serial_no j), si_hw_manufature_date := cut_text (si_hw_manufature_date j),
      si_sw_version := se_ver_get env (si_sw_version j)\<rparr>"
    by (simp add: GW_Onu_Sysinfo_Get_From_Flash_def r j_def Let_def)
  ultimately show ?thesis using assms by (simp add: info_ok_def ends_in_cut restores_ok_def)
qed

lemma save_fields [simp]:
  "sw_info (snd (GW_Onu_Sysinfo_Save env w)) = (sw_info w)\<lparr>si_product_type := PRODUCT_GT813_C, si_valid_flag := VALID_E\<rparr>"
  by (simp add: GW_Onu_Sysinfo_Save_def GW_Onu_Sysinfo_Save_To_Flash_def split: prod.splits)

lemma save_flash: "sw_flash (snd (GW_Onu_Sysinfo_Save env w)) = snd (se_save env (sw_info (snd (GW_Onu_Sysinfo_Save env w))) (sw_flash w))"
  by (simp add: GW_Onu_Sysinfo_Save_def GW_Onu_Sysinfo_Save_To_Flash_def split: prod.splits)

lemma info_ok_valid [simp]: "info_ok (i\<lparr>si_product_type := t, si_valid_flag := v\<rparr>) = info_ok i"
  by (simp add: info_ok_def)

text \<open>A command with one more field keeps the invariant.\<close>

definition keeps_ok :: "'f sys_world cli_def \<Rightarrow> (int \<times> 'f sys_world cli_def) option \<Rightarrow> bool" where
  "keeps_ok s x \<longleftrightarrow> (\<exists>r s'. x = Some (r, s') \<and> info_ok (sw_info (cl_world s')))"

lemma keeps_saved: "\<exists>i. x = Some i \<and> info_ok i \<Longrightarrow> keeps_ok s0 (saved env s x)"
  by (auto simp: keeps_ok_def saved_def)

lemma keeps_same: "info_ok (sw_info (cl_world s)) \<Longrightarrow> keeps_ok s (Some (r, s))"
  by (simp add: keeps_ok_def)

lemma keeps_help:
  assumes "argv = [] \<or> last argv \<noteq> []" "info_ok (sw_info (cl_world s))" "keeps_ok s (f s)"
  shows "keeps_ok s (help_or argv f s)"
  using assms by (auto simp: keeps_ok_def help_or_def cli_help_requested_def)

lemma read_ok: "restores_ok env \<Longrightarrow> info_ok (sw_info (cl_world (read_flash env s)))"
  by (simp add: read_flash_def get_ok)

lemma put_date_ok:
  assumes "info_ok i" "1000 \<le> y" "y < 10000" "0 \<le> m" "m < 100" "0 \<le> d" "d < 100"
  shows "\<exists>i'. put_date y m d i = Some i' \<and> info_ok i'"
proof -
  have "length (fmt_d y) \<le> 4" using assms(2,3) length_fmt_d [of y 4] by simp
  then have "length (chars (fmt_d y @ ''-'' @ fmt_02d m @ ''-'' @ fmt_02d d)) < 12"
    using assms(4-7) by (simp add: length_fmt_02d)
  from ends_in_sput [OF this info_okD(4) [OF assms(1)]] assms(1) show ?thesis
    by (auto simp: put_date_def info_ok_def simp del: chars_append)
qed

lemma put_hw_ok:
  assumes "info_ok i" "length v < 7"
  shows "\<exists>i'. put_hw v i = Some i' \<and> info_ok i'"
  using ends_in_sput [of "chars v" 7, OF _ info_okD(3) [OF assms(1)]] assms by (auto simp: put_hw_def info_ok_def)

lemma put_serial_ok:
  assumes "info_ok i" "length t < 18"
  shows "\<exists>i'. put_serial t i = Some i' \<and> info_ok i'"
  using ends_in_sput [of t 18, OF _ info_okD(2) [OF assms(1)]] assms by (auto simp: put_serial_def info_ok_def)

lemma put_name_ok:
  assumes "info_ok i" "length t < 132"
  shows "\<exists>i'. put_name t i = Some i' \<and> info_ok i'"
  using ends_in_sput [of t 132, OF _ info_okD(1) [OF assms(1)]] assms by (auto simp: put_name_def info_ok_def)

lemma set_text_ok:
  assumes "restores_ok env" "info_ok (sw_info (cl_world s))" "argv = [] \<or> last argv \<noteq> []" "limit < bufsize"
    and "\<And>t i. info_ok i \<Longrightarrow> length t \<le> limit \<Longrightarrow> \<exists>i'. put t i = Some i' \<and> info_ok i'"
  shows "keeps_ok s (set_text env limit bufsize put command argv s)"
  unfolding set_text_def
proof (rule keeps_help [OF assms(3,2)])
  show "keeps_ok s (if length argv = 1 then if length (argv ! 0) > limit then Some (CLI_OK, s)
          else Option.bind (capitals bufsize (argv ! 0)) (\<lambda>t.
            let s1 = read_flash env s in saved env s1 (put t (sw_info (cl_world s1))))
     else Some (CLI_OK, s))"
  proof (cases "length argv = 1 \<and> length (argv ! 0) \<le> limit")
    case True
    let ?t = "chars (map toupper_u8 (argv ! 0))" and ?s = "read_flash env s"
    have i: "\<exists>i'. put ?t (sw_info (cl_world ?s)) = Some i' \<and> info_ok i'"
      using assms(5) [OF read_ok [OF assms(1)], of ?t s] True by auto
    have "keeps_ok s (saved env ?s (put ?t (sw_info (cl_world ?s))))" by (rule keeps_saved [OF i])
    then show ?thesis using True assms(4) by (simp add: capitals_def Let_def not_less)
  qed (use assms(2) in \<open>auto simp: keeps_ok_def\<close>)
qed

lemma set_commands_ok:
  assumes "restores_ok env" "info_ok (sw_info (cl_world s))" "argv = [] \<or> last argv \<noteq> []"
  shows "keeps_ok s (cmd_onu_mgt_config_product_date env command argv s)"
    "keeps_ok s (cmd_onu_mgt_config_product_hw_version env command argv s)"
    "keeps_ok s (cmd_onu_mgt_config_product_sn env command argv s)"
    "keeps_ok s (cmd_onu_mgt_config_device_name env command argv s)"
    "keeps_ok s (cmd_set_onu_mac env command argv s)"
    "keeps_ok s (cmd_show_system_information env command argv s)"
proof -
  show "keeps_ok s (cmd_onu_mgt_config_product_date env command argv s)"
    unfolding cmd_onu_mgt_config_product_date_def Let_def
    by (rule keeps_help [OF assms(3,2)])
      (auto intro!: keeps_same keeps_saved put_date_ok read_ok simp: assms)
  show "keeps_ok s (cmd_onu_mgt_config_product_hw_version env command argv s)"
    unfolding cmd_onu_mgt_config_product_hw_version_def Let_def
  proof (rule keeps_help [OF assms(3,2)], goal_cases)
    case 1
    have v: "length (''V'' @ fmt_d a @ ''.'' @ fmt_d b @ ''B'' @ fmt_d c) < 7" if "0 \<le> a" "a \<le> 9" "0 \<le> b" "b \<le> 9" "0 \<le> c" "c \<le> 9" for a b c
      using length_fmt_d [of a 1] length_fmt_d [of b 1] length_fmt_d [of c 1] that by simp
    show ?case using v by (auto intro!: keeps_same keeps_saved put_hw_ok simp: assms)
  qed
  show "keeps_ok s (cmd_onu_mgt_config_product_sn env command argv s)"
    unfolding cmd_onu_mgt_config_product_sn_def by (rule set_text_ok [OF assms]) (auto intro: put_serial_ok)
  show "keeps_ok s (cmd_onu_mgt_config_device_name env command argv s)"
    unfolding cmd_onu_mgt_config_device_name_def by (rule set_text_ok [OF assms]) (auto intro: put_name_ok)
  show "keeps_ok s (cmd_set_onu_mac env command argv s)"
    unfolding cmd_set_onu_mac_def Let_def
    by (rule keeps_help [OF assms(3,2)]) (use assms(2) in \<open>auto simp: keeps_ok_def split: prod.splits\<close>)
  show "keeps_ok s (cmd_show_system_information env command argv s)"
    by (simp add: keeps_ok_def cmd_show_system_information_def read_ok assms(1))
qed

section \<open>The answer with the texts\<close>

fun lv_texts :: "nat \<Rightarrow> u8 list \<Rightarrow> u8 list list option" where
  "lv_texts 0 b = Some []"
| "lv_texts (Suc n) [] = None"
| "lv_texts (Suc n) (l # b) =
     (if length b < unat l then None else map_option (Cons (take (unat l) b)) (lv_texts n (drop (unat l) b)))"

lemma unat_of_nat_u8: "n < 256 \<Longrightarrow> unat (of_nat n :: u8) = n"
  by (simp add: unat_of_nat)

lemma lv_texts_lv: "length t < 256 \<Longrightarrow> lv_texts (Suc n) (lv t @ r) = map_option (Cons t) (lv_texts n r)"
  by (simp add: lv_def unat_of_nat_u8)

lemma infor_get_texts:
  assumes "info_ok i"
  obtains resp hw sw name sn date where "onu_infor_get i = Some resp" "cstr (si_device_name i) = Some name"
    "cstr (si_serial_no i) = Some sn" "cstr (si_hw_version i) = Some hw" "cstr (si_sw_version i) = Some sw"
    "cstr (si_hw_manufature_date i) = Some date"
    "lv_texts 10 (drop 6 resp) = Some [hw, chars '' boot '', sw, chars ''V3.1.1.1'', take 128 name, chars ''CTC-ONU-Ready'',
       chars ''Beijing China'', chars ''GW Delight'', sn, date]"
proof -
  have c: "\<exists>t. cstr b = Some t \<and> length t < n" if "ends_in n b" for n b
    using that cstr_some [of b] by (auto simp: ends_in_def)
  from assms obtain hw sw name sn date where t: "cstr (si_device_name i) = Some name" "length name < 132"
    "cstr (si_serial_no i) = Some sn" "length sn < 18" "cstr (si_hw_version i) = Some hw" "length hw < 7"
    "cstr (si_sw_version i) = Some sw" "length sw < 12" "cstr (si_hw_manufature_date i) = Some date" "length date < 12"
    unfolding info_ok_def by (meson c)
  have ten: "(10::nat) = Suc (Suc (Suc (Suc (Suc (Suc (Suc (Suc (Suc (Suc 0)))))))))" by simp
  show ?thesis
  proof (rule that [OF _ t(1,3,5,7,9)])
    show "onu_infor_get i = Some ([ONU_INFOR_GET] @ bytes_of_u16 DEVICE_TYPE_GT811_A @ [0x00, 0x0f, 0xe9] @ lv hw @ lv (chars '' boot '') @ lv sw @
             lv (chars ''V3.1.1.1'') @ lv (take 128 name) @ lv (chars ''CTC-ONU-Ready'') @ lv (chars ''Beijing China'') @
             lv (chars ''GW Delight'') @ lv sn @ lv date @ [0, 0, 0xfe, 3, 0x80])"
      using t by (simp add: onu_infor_get_def)
    show "lv_texts 10 (drop 6 ([ONU_INFOR_GET] @ bytes_of_u16 DEVICE_TYPE_GT811_A @ [0x00, 0x0f, 0xe9] @ lv hw @ lv (chars '' boot '') @ lv sw @
             lv (chars ''V3.1.1.1'') @ lv (take 128 name) @ lv (chars ''CTC-ONU-Ready'') @ lv (chars ''Beijing China'') @
             lv (chars ''GW Delight'') @ lv sn @ lv date @ [0, 0, 0xfe, 3, 0x80])) =
         Some [hw, chars '' boot '', sw, chars ''V3.1.1.1'', take 128 name, chars ''CTC-ONU-Ready'',
           chars ''Beijing China'', chars ''GW Delight'', sn, date]"
      using t unfolding ten by (simp add: bytes_of_u16_def lv_texts_lv del: chars_simps lv_texts.simps(3))
  qed
qed

section \<open>Setting the name\<close>

definition flash_keeps :: "'f sys_env \<Rightarrow> bool" where
  "flash_keeps env \<longleftrightarrow> (\<forall>i f. info_ok i \<longrightarrow> (\<exists>f'. se_save env i f = (GW_OK, f') \<and> se_restore env f' = (GW_OK, i)))"

definition named :: "'f sys_env \<Rightarrow> u8 list \<Rightarrow> 'f sys_world \<Rightarrow> 'f sys_world" where
  "named env name w =
     (let tmpLen = min (length name) 132; w1 = snd (GW_Onu_Sysinfo_Get env w)
      in snd (GW_Onu_Sysinfo_Save env (w1\<lparr>sw_info := (sw_info w1)\<lparr>si_device_name := take tmpLen name @ replicate (132 - tmpLen) 0\<rparr>\<rparr>)))"

lemma bytes_at_append [simp]: "bytes_at (a @ b) (length a) n = bytes_at b 0 n"
  by (simp add: bytes_at_def)

lemma infor_set_name:
  assumes "name \<noteq> []" "length name < 256" "length descr < 256" "length loc < 256"
  shows "onu_infor_set env (ONU_INFOR_SET # lv name @ lv descr @ lv loc @ rest) w =
    Some ([ONU_INFOR_SET, 1] @ (if descr = [] then [] else [1]) @ (if loc = [] then [] else [1]), named env name w)"
proof -
  let ?p = "ONU_INFOR_SET # lv name @ lv descr @ lv loc @ rest"
  have 1: "bytes_at ?p 1 1 = Some [of_nat (length name)]" by (simp add: bytes_at_def lv_def)
  have 2: "bytes_at ?p 2 (min (length name) 132) = Some (take (min (length name) 132) name)"
    by (simp add: bytes_at_def lv_def take_append)
  have "?p = (ONU_INFOR_SET # lv name) @ lv descr @ lv loc @ rest" "length (ONU_INFOR_SET # lv name) = 2 + length name" by (simp_all add: lv_def)
  then have "bytes_at ?p (2 + length name) 1 = bytes_at (lv descr @ lv loc @ rest) 0 1" by (metis bytes_at_append)
  then have 3: "bytes_at ?p (2 + length name) 1 = Some [of_nat (length descr)]" by (simp add: bytes_at_def lv_def)
  have "?p = (ONU_INFOR_SET # lv name @ lv descr) @ lv loc @ rest" "length (ONU_INFOR_SET # lv name @ lv descr) = 3 + length name + length descr"
    by (simp_all add: lv_def)
  then have "bytes_at ?p (3 + length name + length descr) 1 = bytes_at (lv loc @ rest) 0 1" by (metis bytes_at_append)
  then have 4: "bytes_at ?p (3 + length name + length descr) 1 = Some [of_nat (length loc)]" by (simp add: bytes_at_def lv_def)
  show ?thesis
    unfolding onu_infor_set_def 1 Option.bind.bind_lunit list.sel unat_of_nat_u8 [OF assms(2)] Let_def
    using assms 2 3 4 by (simp add: unat_of_nat_u8 named_def Let_def del: lv_def)
qed

lemma named_ok:
  assumes "restores_ok env" "length name < 132"
  shows "info_ok (sw_info (named env name w))"
  using get_ok [OF assms(1), of w] assms(2) by (auto simp: named_def Let_def info_ok_def ends_in_def min_def)

lemma named_text:
  assumes "0 \<notin> set name" "length name < 132"
  shows "si_device_name (sw_info (named env name w)) = name @ replicate (132 - length name) 0"
  using assms by (simp add: named_def Let_def min_def)

lemma named_restart:
  assumes "restores_ok env" "flash_keeps env" "0 \<notin> set name" "length name < 132" "sw_flash w2 = sw_flash (named env name w)"
  shows "cstr (si_device_name (sw_info (snd (GW_Onu_Sysinfo_Get env w2)))) = Some name"
proof -
  define i where "i = sw_info (named env name w)"
  have i: "si_device_name i = name @ replicate (132 - length name) 0" "si_valid_flag i = VALID_E"
    using named_text [OF assms(3,4)] by (simp_all add: i_def named_def Let_def)
  have "\<exists>f. sw_flash (named env name w) = snd (se_save env i f)"
    unfolding i_def named_def Let_def by (rule exI, rule save_flash)
  then obtain f where "sw_flash (named env name w) = snd (se_save env i f)" ..
  moreover obtain f' where "se_save env i f = (GW_OK, f')" "se_restore env f' = (GW_OK, i)"
    using assms(2) named_ok [OF assms(1,4), of w] unfolding flash_keeps_def i_def by blast
  ultimately have "se_restore env (sw_flash w2) = (GW_OK, i)" using assms(5) by simp
  then have "si_device_name (sw_info (snd (GW_Onu_Sysinfo_Get env w2))) = cut_text (name @ replicate (132 - length name) 0)"
    using i by (simp add: GW_Onu_Sysinfo_Get_From_Flash_def Let_def)
  then show ?thesis using cut_text_text [OF assms(3,4)] by simp
qed

section \<open>Setting the clock\<close>

definition time_at :: "u8 list \<Rightarrow> 'f sys_world \<Rightarrow> bool" where
  "time_at t w \<longleftrightarrow> length (sw_SetTime w) = 20 \<and> take (length t) (sw_SetTime w) = t \<and> length t < 20 \<and> sw_SetTime w ! length t = 0"

lemma sync_put_at:
  assumes "length (sw_SetTime w) = 20" "take (length t) (sw_SetTime w) = t" "length t + length t' < 20"
  shows "\<exists>w'. sync_put t' (length t) w = Some w' \<and> time_at (t @ t') w' \<and> sw_tim w' = sw_tim w"
  using assms by (auto simp: sync_put_def time_at_def nth_append)

lemma time_at_text: "time_at t w \<Longrightarrow> 0 \<notin> set t \<Longrightarrow> cstr (sw_SetTime w) = Some t"
proof -
  assume t: "time_at t w" "0 \<notin> set t"
  then have "sw_SetTime w = t @ 0 # drop (Suc (length t)) (sw_SetTime w)"
    by (metis id_take_nth_drop time_at_def)
  then show ?thesis using cstr_text [OF t(2)] by metis
qed

definition clock_ok :: "u8 list \<Rightarrow> bool" where
  "clock_ok b \<longleftrightarrow> (let y = 256 * int (unat (b ! 0)) + int (unat (b ! 1)) in 1980 \<le> y \<and> y \<le> 2079) \<and>
     b ! 2 \<le> 12 \<and> b ! 3 \<le> 31 \<and> b ! 4 \<le> 24 \<and> b ! 5 \<le> 59 \<and> b ! 6 \<le> 59"

definition clock_text :: "u8 list \<Rightarrow> string" where
  "clock_text b = (let v = \<lambda>k. fmt_02d (int (unat (b ! k)))
     in fmt_4d (256 * int (unat (b ! 0)) + int (unat (b ! 1))) @ ''/'' @ v 2 @ ''/'' @ v 3 @ '':'' @ v 4 @ '':'' @ v 5 @ '':'' @ v 6)"

definition clock_time :: "u8 list \<Rightarrow> localtime_tm" where
  "clock_time b = \<lparr>tm_sec = int (unat (b ! 6)), tm_min = int (unat (b ! 5)), tm_hour = int (unat (b ! 4)), tm_mday = int (unat (b ! 3)),
     tm_mon = int (unat (b ! 2)), tm_year = 256 * int (unat (b ! 0)) + int (unat (b ! 1))\<rparr>"

lemma fmt_nonzero [simp]: "0 \<notin> set (chars (dec n))"
proof (induction n rule: dec.induct)
  case (1 n)
  have d: "of_char (char_of (48 + k) :: char) \<noteq> (0 :: u8)" if "k < 10" for k :: nat
  proof -
    have "of_char (char_of (48 + k) :: char) = (of_nat (of_char (char_of (48 + k) :: char)) :: u8)" by (rule of_nat_of_char [symmetric])
    then have "of_char (char_of (48 + k) :: char) = (of_nat (48 + k) :: u8)" using that by simp
    moreover have "unat (of_nat (48 + k) :: u8) \<noteq> 0" using unat_of_nat_u8 [of "48 + k"] that by linarith
    ultimately show ?thesis by (metis unat_0)
  qed
  show ?case
  proof (cases "n < 10")
    case True then show ?thesis using d [OF True] by (simp add: dec_less)
  next
    case False
    then show ?thesis using 1 d [of "n mod 10"] by (subst dec.simps) simp
  qed
qed

lemma fmt_d_nonzero: "0 \<notin> set (chars (fmt_d i))" "0 \<notin> set (chars (fmt_02d i))" "0 \<notin> set (chars (fmt_4d i))"
proof -
  show 1: "0 \<notin> set (chars (fmt_d i))" using fmt_nonzero by (simp add: fmt_d_def)
  then show "0 \<notin> set (chars (fmt_02d i))" using fmt_nonzero by (simp add: fmt_02d_def)
  from 1 show "0 \<notin> set (chars (fmt_4d i))" by (auto simp: fmt_4d_def Let_def chars_def)
qed

lemma sync_step:
  assumes "time_at t w" "unat b < 100" "length t + 2 + length sep < 20"
  shows "sync_fields ((bound, sep, upd) # fs) (b # bs) (length t) w =
      (if unat b > bound then Some (False, w)
       else let w' = the (sync_put (chars (fmt_02d (int (unat b)) @ sep)) (length t) w)
            in sync_fields fs bs (length (t @ chars (fmt_02d (int (unat b)) @ sep))) (w'\<lparr>sw_tim := upd (int (unat b)) (sw_tim w')\<rparr>))"
    and "\<exists>w'. sync_put (chars (fmt_02d (int (unat b)) @ sep)) (length t) w = Some w' \<and>
      time_at (t @ chars (fmt_02d (int (unat b)) @ sep)) w' \<and> sw_tim w' = sw_tim w"
proof -
  have "length (fmt_02d (int (unat b))) = 2" using assms(2) by (intro length_fmt_02d) linarith+
  then have "length (chars (fmt_02d (int (unat b)) @ sep)) = 2 + length sep" by simp
  then show 2: "\<exists>w'. sync_put (chars (fmt_02d (int (unat b)) @ sep)) (length t) w = Some w' \<and>
      time_at (t @ chars (fmt_02d (int (unat b)) @ sep)) w' \<and> sw_tim w' = sw_tim w"
    using sync_put_at [of w t "chars (fmt_02d (int (unat b)) @ sep)"] assms(1,3) by (simp add: time_at_def)
  show "sync_fields ((bound, sep, upd) # fs) (b # bs) (length t) w =
      (if unat b > bound then Some (False, w)
       else let w' = the (sync_put (chars (fmt_02d (int (unat b)) @ sep)) (length t) w)
            in sync_fields fs bs (length (t @ chars (fmt_02d (int (unat b)) @ sep))) (w'\<lparr>sw_tim := upd (int (unat b)) (sw_tim w')\<rparr>))"
    using 2 by (auto simp: Let_def simp del: chars_append)
qed

lemma sync_chain:
  assumes "time_at t w" "bound < 100" "length t + 2 + length sep < 20"
    and "\<And>w'. time_at (t @ chars (fmt_02d (int (unat b)) @ sep)) w' \<Longrightarrow> sw_tim w' = upd (int (unat b)) (sw_tim w) \<Longrightarrow> unat b \<le> bound \<Longrightarrow>
      \<exists>ok w2. sync_fields fs bs (length (t @ chars (fmt_02d (int (unat b)) @ sep))) w' = Some (ok, w2) \<and> Q ok w2"
    and "bound < unat b \<Longrightarrow> Q False w"
  shows "\<exists>ok w2. sync_fields ((bound, sep, upd) # fs) (b # bs) (length t) w = Some (ok, w2) \<and> Q ok w2"
proof (cases "unat b > bound")
  case True
  then show ?thesis using assms(5) by auto
next
  case False
  then have b: "unat b < 100" using assms(2) by simp
  obtain w' where w': "sync_put (chars (fmt_02d (int (unat b)) @ sep)) (length t) w = Some w'"
    "time_at (t @ chars (fmt_02d (int (unat b)) @ sep)) w'" "sw_tim w' = sw_tim w"
    using sync_step(2) [OF assms(1) b assms(3)] by blast
  have "time_at (t @ chars (fmt_02d (int (unat b)) @ sep)) (w'\<lparr>sw_tim := upd (int (unat b)) (sw_tim w')\<rparr>)"
    using w'(2) by (simp add: time_at_def)
  from assms(4) [OF this] w'(3) False show ?thesis
    unfolding sync_step(1) [OF assms(1) b assms(3)] w'(1) by (simp add: Let_def)
qed

lemma realtime_sync:
  assumes len: "length (sw_SetTime w) = 20" and b: "7 \<le> length b"
  shows "\<exists>ok w'. onu_realtime_sync (ONU_REALTIME_SYNC # b) w = Some (ok, w') \<and> ok = clock_ok b \<and> length (sw_SetTime w') = 20 \<and>
    (ok \<longrightarrow> sw_tim w' = clock_time b \<and> cstr (sw_SetTime w') = Some (chars (clock_text b)))"
proof -
  obtain k where "length b = 7 + k" using b nat_le_iff_add by blast
  then have "length b = Suc (Suc (Suc (Suc (Suc (Suc (Suc k))))))" by simp
  then obtain y1 y0 mo da h mi s r where bs: "b = y1 # y0 # mo # da # h # mi # s # r"
    by (auto simp: length_Suc_conv)
  define year where "year = 256 * int (unat y1) + int (unat y0)"
  define good where "good \<longleftrightarrow> 1980 \<le> year \<and> year \<le> 2079"
  define Q :: "bool \<Rightarrow> 'a sys_world \<Rightarrow> bool" where "Q ok w' \<longleftrightarrow> ok = clock_ok b \<and> length (sw_SetTime w') = 20 \<and>
    (ok \<longrightarrow> sw_tim w' = clock_time b \<and> cstr (sw_SetTime w') = Some (chars (clock_text b)))" for ok w'
  have ck: "clock_ok b \<longleftrightarrow> good \<and> unat mo \<le> 12 \<and> unat da \<le> 31 \<and> unat h \<le> 24 \<and> unat mi \<le> 59 \<and> unat s \<le> 59"
    by (simp add: clock_ok_def bs good_def year_def Let_def word_le_nat_alt)
  have yu: "256 * uint y1 + uint y0 = year" by (simp add: year_def)
  have y: "bytes_at (ONU_REALTIME_SYNC # b) 1 2 = Some [y1, y0]" by (simp add: bytes_at_def bs)
  have reject: "Q False w'" if "length (sw_SetTime w') = 20" "\<not> clock_ok b" for w' using that by (simp add: Q_def)
  show ?thesis
  proof (cases good)
    case False
    then have "onu_realtime_sync (ONU_REALTIME_SYNC # b) w = Some (False, w\<lparr>sw_tim := tm_zero\<rparr>)"
      unfolding onu_realtime_sync_def y by (auto simp: Let_def good_def year_def)
    then show ?thesis using False ck len by auto
  next
    case True
    define t0 where "t0 = chars (fmt_4d year @ ''/'')"
    have l0: "length t0 = 5" using True length_fmt_4d [of year] by (simp add: t0_def good_def)
    obtain w1 where w1: "sync_put t0 0 (w\<lparr>sw_tim := tm_zero\<rparr>) = Some w1" "time_at t0 w1" "sw_tim w1 = tm_zero"
      using sync_put_at [of "w\<lparr>sw_tim := tm_zero\<rparr>" "[]" t0] len l0 by auto
    define w2 where "w2 = w1\<lparr>sw_tim := (sw_tim w1)\<lparr>tm_year := year\<rparr>\<rparr>"
    have w2: "time_at t0 w2" "sw_tim w2 = tm_zero\<lparr>tm_year := year\<rparr>" using w1(2,3) by (simp_all add: w2_def time_at_def)
    have two: "length (fmt_02d (uint v)) = 2" if "unat v < 100" for v :: u8
    proof -
      have "length (fmt_02d (int (unat v))) = 2" using that by (intro length_fmt_02d) linarith+
      then show ?thesis by simp
    qed
    have "\<exists>ok w'. sync_fields sync_table (mo # da # h # mi # s # r) (length t0) w2 = Some (ok, w') \<and> Q ok w'"
      unfolding sync_table_def
    proof (rule sync_chain [OF w2(1)], goal_cases)
      case (3 w3)
      note m = 3
      show ?case
      proof (rule sync_chain [OF m(1)], goal_cases)
        case (3 w4)
        note d = 3
        show ?case
        proof (rule sync_chain [OF d(1)], goal_cases)
          case (3 w5)
          note h = 3
          show ?case
          proof (rule sync_chain [OF h(1)], goal_cases)
            case (3 w6)
            note mi = 3
            show ?case
            proof (rule sync_chain [OF mi(1)], goal_cases)
              case (3 w7)
              note s = 3
              have c: "clock_ok b" using True m(3) d(3) h(3) mi(3) s(3) ck by simp
              have "time_at (chars (clock_text b)) w7" using s(1) by (simp add: clock_text_def bs Let_def t0_def year_def)
              moreover have "0 \<notin> set (chars (clock_text b))" by (simp add: clock_text_def Let_def fmt_d_nonzero)
              ultimately have "cstr (sw_SetTime w7) = Some (chars (clock_text b))" "length (sw_SetTime w7) = 20"
                by (auto intro: time_at_text simp: time_at_def)
              moreover have "sw_tim w7 = clock_time b"
                using s(2) mi(2) h(2) d(2) m(2) w2(2) by (simp add: clock_time_def bs tm_zero_def year_def)
              ultimately show ?case using c by (auto simp: Q_def)
            qed (use ck m d h mi in \<open>auto simp: l0 two intro!: reject simp: time_at_def\<close>)
          qed (use ck m d h in \<open>auto simp: l0 two intro!: reject simp: time_at_def\<close>)
        qed (use ck m d in \<open>auto simp: l0 two intro!: reject simp: time_at_def\<close>)
      qed (use ck m in \<open>auto simp: l0 two intro!: reject simp: time_at_def\<close>)
    qed (use ck w2 in \<open>auto simp: l0 two intro!: reject simp: time_at_def\<close>)
    moreover have "onu_realtime_sync (ONU_REALTIME_SYNC # b) w = sync_fields sync_table (mo # da # h # mi # s # r) (length t0) w2"
      unfolding onu_realtime_sync_def y using True w1(1) by (simp add: Let_def bs good_def yu t0_def w2_def del: chars_append)
    ultimately show ?thesis unfolding Q_def by metis
  qed
qed

text \<open>The seconds of a time in a calendar of months of 31 days.\<close>

definition clock_secs :: "localtime_tm \<Rightarrow> int" where
  "clock_secs t = ((((tm_year t * 12 + tm_mon t) * 31 + tm_mday t) * 24 + tm_hour t) * 60 + tm_min t) * 60 + tm_sec t"

lemma carry_value: "0 \<le> limit \<Longrightarrow> fst (carry limit v) + limit * snd (carry limit v) = v"
  by (simp add: carry_def)

lemma carry_bounds: "0 < limit \<Longrightarrow> 0 \<le> v \<Longrightarrow> 0 \<le> fst (carry limit v) \<and> fst (carry limit v) \<le> limit \<and> 0 \<le> snd (carry limit v)"
proof -
  assume l: "0 < limit" "0 \<le> v"
  have "v - (v div limit) * limit = v mod limit" by (simp add: minus_div_mult_eq_mod)
  then show ?thesis using l less_imp_le [OF pos_mod_bound [of limit v]] pos_mod_sign [of limit v] by (auto simp: carry_def pos_imp_zdiv_nonneg_iff)
qed

section \<open>The address\<close>

lemma hex_digit_cases:
  assumes "n < 16"
  shows "hex_val (hex_digit n) = Some (int n)" "\<not> isspace (hex_digit n)" "hex_digit n \<notin> {CHR ''-'', CHR ''+'', CHR ''x'', CHR ''X'', CHR '':'', CHR ''?''}"
proof -
  have c: "(of_char (hex_digit n) :: nat) = (if n < 10 then 48 + n else 87 + n)" using assms by (simp add: hex_digit_def)
  have i: "(of_char (hex_digit n) :: int) = (if n < 10 then 48 + int n else 87 + int n)"
    using c by (metis of_nat_of_char of_nat_add of_nat_numeral)
  show "hex_val (hex_digit n) = Some (int n)" using assms by (auto simp: hex_val_def i)
  have ne: "hex_digit n \<noteq> d" if "(of_char d :: nat) < 48 \<or> 57 < (of_char d :: nat) \<and> (of_char d :: nat) < 97 \<or> 102 < (of_char d :: nat)" for d
    using that c assms by (auto split: if_splits)
  show "\<not> isspace (hex_digit n)" using c ne [of "CHR '' ''"] by (auto simp: isspace_def Let_def)
  show "hex_digit n \<notin> {CHR ''-'', CHR ''+'', CHR ''x'', CHR ''X'', CHR '':'', CHR ''?''}"
    using ne by auto
qed

lemma scan_hex_two:
  assumes "hex_val h = Some a" "hex_val l = Some c" "\<not> isspace h" "h \<noteq> CHR ''-''" "h \<noteq> CHR ''+''" "l \<noteq> CHR ''x''" "l \<noteq> CHR ''X''"
    and "rest = [] \<or> hd rest = CHR '':''"
  shows "scan_hex (h # l # rest) = Some (16 * a + c, rest)"
proof -
  have n: "hex_val CHR '':'' = None" by (simp add: hex_val_def)
  have w: "takeWhile (\<lambda>c. hex_val c \<noteq> None) (h # l # rest) = [h, l]" using assms n by (cases rest) auto
  have "scan_sign (dropWhile isspace (h # l # rest)) = (False, h # l # rest)" using assms by (simp add: scan_sign_def)
  then show ?thesis unfolding scan_hex_def using assms w by (simp add: Let_def del: takeWhile.simps)
qed

lemma scan_hex_byte:
  assumes "rest = [] \<or> hd rest = CHR '':''"
  shows "scan_hex (fmt_02x b @ rest) = Some (int (unat b), rest)"
proof -
  have "unat b < 256" using unsigned_less [of b] by simp
  then have h: "unat b div 16 < 16" "unat b mod 16 < 16" by auto
  have "16 * int (unat b div 16) + int (unat b mod 16) = int (unat b)"
    by (metis mult_div_mod_eq of_nat_add of_nat_mult of_nat_numeral)
  then show ?thesis
    using scan_hex_two [OF hex_digit_cases(1) [OF h(1)] hex_digit_cases(1) [OF h(2)] hex_digit_cases(2) [OF h(1)] _ _ _ _ assms]
      hex_digit_cases(3) [OF h(1)] hex_digit_cases(3) [OF h(2)] by (simp add: fmt_02x_def)
qed

lemma scan_hexes_text: "length mac = n \<Longrightarrow> scan_hexes n (mac_text mac) = map (\<lambda>b. int (unat b)) mac"
proof (induction mac arbitrary: n rule: mac_text.induct)
  case (3 b c bs)
  then obtain m where m: "n = Suc m" by (cases n) auto
  have "scan_hexes m (mac_text (c # bs)) = map (\<lambda>b. int (unat b)) (c # bs)" by (rule 3(1)) (use 3(2) m in simp)
  then show ?case by (simp add: m scan_hex_byte del: list.map(2)) simp
qed (auto simp: scan_hex_byte [where rest = "[]", simplified])

lemma length_mac_text: "mac \<noteq> [] \<Longrightarrow> length (mac_text mac) = 3 * length mac - 1"
  by (induction mac rule: mac_text.induct) (auto simp: fmt_02x_def)

lemma last_mac_text: "mac \<noteq> [] \<Longrightarrow> mac_text mac \<noteq> [] \<and> last (mac_text mac) \<noteq> CHR ''?''"
proof (induction mac rule: mac_text.induct)
  case (2 b)
  then show ?case using hex_digit_cases(3) [of "unat b mod 16"] by (simp add: fmt_02x_def)
qed (auto simp: fmt_02x_def)

section \<open>The tree with the commands\<close>

fun add_bare :: "nat list \<Rightarrow> 'w cli_command \<Rightarrow> 'w cli_command list \<Rightarrow> 'w cli_command list" where
  "add_bare [] new cs = cs @ [new]"
| "add_bare [i] new cs = cs[i := add_child new (cs ! i)]"
| "add_bare (i # j # js) new cs = cs[i := set_children (add_bare (j # js) new (cc_children (cs ! i))) (cs ! i)]"

lemma bare_add_child: "bare (add_child new c) = add_child (bare new) (bare c)"
  by (cases c) simp

lemma bare_add: "length path \<le> 1 \<Longrightarrow> (\<forall>i\<in>set path. i < length cs) \<Longrightarrow> map bare (add_command path new cs) = add_bare path (bare new) (map bare cs)"
proof (cases path)
  case (Cons i r)
  assume "length path \<le> 1" "\<forall>i\<in>set path. i < length cs"
  then have "path = [i]" "i < length cs" using Cons by auto
  moreover have "map bare (take i cs @ drop i (cs[i := add_child new (cs ! i)])) = (map bare cs)[i := bare (add_child new (cs ! i))]"
    using \<open>i < length cs\<close> by (simp add: map_update [symmetric] take_update_cancel [symmetric, of i i cs "add_child new (cs ! i)"] del: take_update_cancel map_append flip: map_append)
  ultimately show ?thesis by (simp add: bare_add_child)
qed simp

text \<open>A registration, followed by the rest.\<close>

definition grown :: "'w cli_command list \<Rightarrow> 'w cli_command list option \<Rightarrow> bool" where
  "grown r x \<longleftrightarrow> (\<exists>t. x = Some t \<and> map bare t = r)"

lemma grown_last: "map bare t = r \<Longrightarrow> grown r (Some t)"
  by (simp add: grown_def)

lemma grown_register:
  assumes "map bare t = r0" "sum_list (map command_size r0) < GW_MAX_CLI_COMMAND" "length path \<le> 1" "\<forall>i\<in>set path. i < length r0"
    and "\<And>t'. map bare t' = add_bare path (Command n f 0 p m []) r0 \<Longrightarrow> grown r (g t')"
  shows "grown r (Option.bind (gw_cli_register_command t path n f p m) g)"
proof -
  have "sum_list (map command_size t) = sum_list (map command_size r0)" "length t = length r0"
    using assms(1) by (auto simp: comp_def)
  then show ?thesis
    using assms bare_add [of path t "Command n f 0 p m []"] by (simp add: gw_cli_register_command_def)
qed

lemma grown_register_last:
  assumes "map bare t = r0" "sum_list (map command_size r0) < GW_MAX_CLI_COMMAND" "length path \<le> 1" "\<forall>i\<in>set path. i < length r0"
    and "r = add_bare path (Command n f 0 p m []) r0"
  shows "grown r (gw_cli_register_command t path n f p m)"
  using grown_register [OF assms(1-4), of n f p m r Some] assms(5) by (simp add: grown_last Option.bind_rzero)

lemma grown_bind: "grown r0 x \<Longrightarrow> (\<And>t. map bare t = r0 \<Longrightarrow> grown r (g t)) \<Longrightarrow> grown r (Option.bind x g)"
  by (auto simp: grown_def)

definition lib_bare :: "'w cli_command list" where
  "lib_bare =
     [Command ''help'' (Some gw_cli_int_help) 0 PRIVILEGE_UNPRIVILEGED MODE_ANY [],
      Command ''history'' (Some gw_cli_int_history) 0 PRIVILEGE_UNPRIVILEGED MODE_ANY [],
      Command ''t_enable'' (Some gw_cli_int_enable) 0 PRIVILEGE_UNPRIVILEGED MODE_EXEC [],
      Command ''t_disable'' (Some gw_cli_int_disable) 0 PRIVILEGE_PRIVILEGED MODE_EXEC [],
      Command ''quit'' (Some gw_cli_int_quit) 0 PRIVILEGE_UNPRIVILEGED MODE_ANY [],
      Command ''logout'' (Some gw_cli_int_quit) 0 PRIVILEGE_UNPRIVILEGED MODE_ANY [],
      Command ''exit'' (Some gw_cli_int_exit) 0 PRIVILEGE_UNPRIVILEGED MODE_ANY [],
      Command ''enable'' (Some gw_cli_int_configure_terminal) 0 PRIVILEGE_PRIVILEGED MODE_EXEC [],
      Command ''advdebug'' (Some gw_cli_interface_debug_terminal) 0 PRIVILEGE_PRIVILEGED MODE_CONFIG []]"

lemma lib_tree: "grown lib_bare (register_all library_commands [])"
  unfolding library_commands_def lib_bare_def register_all.simps
  by (rule grown_register grown_register_last, (simp; fail)?, (simp add: GW_MAX_CLI_COMMAND_def; fail)?, (simp; fail)?, (simp; fail)?, simp?)+

definition set_bare :: "'f sys_env \<Rightarrow> 'f sys_world cli_command list" where
  "set_bare env = map (\<lambda>(n, f). Command n (Some f) 0 PRIVILEGE_PRIVILEGED MODE_CONFIG [])
     [(''date'', cmd_onu_mgt_config_product_date env), (''serial'', cmd_onu_mgt_config_product_sn env),
      (''devicename'', cmd_onu_mgt_config_device_name env), (''hw-version'', cmd_onu_mgt_config_product_hw_version env), (''mac'', cmd_set_onu_mac env)]"

definition gwd_bare :: "'f sys_env \<Rightarrow> (string \<Rightarrow> 'f sys_world cli_fun) \<Rightarrow> 'f sys_world cli_command list" where
  "gwd_bare env other = lib_bare @
     [Command ''set'' None 0 PRIVILEGE_PRIVILEGED MODE_CONFIG (set_bare env),
      Command ''display'' None 0 PRIVILEGE_UNPRIVILEGED MODE_ANY
        [Command ''product'' (Some (cmd_show_system_information env)) 0 PRIVILEGE_UNPRIVILEGED MODE_ANY [],
         Command ''version'' (Some (other ''cmd_show_version_build_time'')) 0 PRIVILEGE_UNPRIVILEGED MODE_ANY [],
         Command ''opm'' (Some (other ''cmd_show_opm_diagnostic_variables'')) 0 PRIVILEGE_UNPRIVILEGED MODE_ANY []],
      Command ''dbg'' None 0 PRIVILEGE_UNPRIVILEGED MODE_ANY
        [Command ''module'' (Some (other ''cmd_dbg_mod_man'')) 0 PRIVILEGE_UNPRIVILEGED MODE_ANY [],
         Command ''level'' (Some (other ''cmd_dbg_lvl_man'')) 0 PRIVILEGE_UNPRIVILEGED MODE_ANY []],
      Command ''product-cli'' (Some (other ''cmd_entry_product_cli'')) 0 PRIVILEGE_PRIVILEGED MODE_CONFIG []]"

lemma gwd_tree: "grown (gwd_bare env other) (Option.bind (register_all library_commands []) (cli_reg_gwd_cmd env other))"
proof (rule grown_bind [OF lib_tree])
  fix t :: "'a sys_world cli_command list" assume t: "map bare t = lib_bare"
  have k: "length t = 9" using arg_cong [OF t, of length] by (simp add: lib_bare_def)
  have l: "length (lib_bare :: 'a sys_world cli_command list) = 9" "sum_list (map command_size (lib_bare :: 'a sys_world cli_command list)) = 9"
    by (simp_all add: lib_bare_def)
  show "grown (gwd_bare env other) (cli_reg_gwd_cmd env other t)"
    unfolding cli_reg_gwd_cmd_def k Let_def register_below.simps gwd_bare_def set_bare_def list.map prod.case
    by (rule grown_bind | rule grown_register grown_register_last grown_last, (rule t | assumption; fail)?,
        (simp add: l GW_MAX_CLI_COMMAND_def; fail)?, (simp; fail)?, (simp add: l; fail)?,
        (simp add: l nth_append list_update_append numeral_2_eq_2)?)+
qed

text \<open>The table holds the functions in the order they are entered, and the tree starts with the commands of the library and of \<open>oam.c\<close>.\<close>

lemma handlers_entered:
  "map snd (gwd_onu_init_cmds poe) =
     map Some ([Cli_reg_gwd_cmd, Gw_cli_switch_gwd_cmd, Gw_cli_debeg_gwd_cmd, Cli_reg_rcp_cmd, Gw_cli_reg_oam_cmd, Gw_cli_reg_native_cmd] @
       (if poe then [Cli_reg_gwd_poe_cmd] else []) @ [Gw_cli_multicast_gwd_cmd]) @ replicate (if poe then 8 else 9) None"
  by (cases poe) (simp_all add: gwd_onu_init_cmds_def registerUserCmdInitHandler_def userCmdInitHandlerInit_def
      MAX_USER_CMD_INIT_HANDLER_def eval_nat_numeral)

fun user_cmd_count :: "user_cmd \<Rightarrow> nat" where
  "user_cmd_count Cli_reg_gwd_cmd = 14"
| "user_cmd_count Gw_cli_switch_gwd_cmd = 72"
| "user_cmd_count Gw_cli_debeg_gwd_cmd = 21"
| "user_cmd_count Cli_reg_rcp_cmd = 2"
| "user_cmd_count Gw_cli_reg_oam_cmd = 19"
| "user_cmd_count Gw_cli_reg_native_cmd = 12"
| "user_cmd_count Cli_reg_gwd_poe_cmd = 3"
| "user_cmd_count Gw_cli_multicast_gwd_cmd = 1"

lemma later_keep_elder: "h \<noteq> Cli_reg_gwd_cmd \<Longrightarrow> keeps_elder (user_cmd_count h) (call_user_cmd env other h)"
  using commands_keep_elder [of other] by (cases h) simp_all

lemma onu_tree: "\<exists>t later. onu_cli_tree env poe other = Some t \<and> map bare t = gwd_bare env other @ later"
proof -
  obtain d hs where h: "gwd_onu_init_cmds poe = (d, Some Cli_reg_gwd_cmd) # hs"
    and hs: "map snd hs = map Some ([Gw_cli_switch_gwd_cmd, Gw_cli_debeg_gwd_cmd, Cli_reg_rcp_cmd, Gw_cli_reg_oam_cmd, Gw_cli_reg_native_cmd] @
       (if poe then [Cli_reg_gwd_poe_cmd] else []) @ [Gw_cli_multicast_gwd_cmd]) @ replicate (if poe then 8 else 9) None"
    using handlers_entered [of poe] by (cases "gwd_onu_init_cmds poe") auto
  obtain t where t: "Option.bind (register_all library_commands []) (cli_reg_gwd_cmd env other) = Some t" "map bare t = gwd_bare env other"
    using gwd_tree [of env other] by (auto simp: grown_def)
  have tree: "onu_cli_tree env poe other = run_handlers (call_user_cmd env other) hs t"
    using t(1) by (auto simp: onu_cli_tree_def gw_cli_tree_init_def h split: Option.bind_splits)
  have "\<forall>h. Some h \<in> set (map snd hs) \<longrightarrow> h \<noteq> Cli_reg_gwd_cmd" unfolding hs by (auto split: if_splits)
  moreover define n where "n = sum_list (map (case_option 0 user_cmd_count) (map snd hs))"
  ultimately have keep: "keeps_elder n (run_handlers (call_user_cmd env other) hs)"
    unfolding n_def by (intro handlers_keep_elder) (use later_keep_elder in blast)
  have "n \<le> 130" unfolding n_def hs by (simp add: sum_list_replicate)
  moreover have "sum_list (map command_size t) = 23"
    using arg_cong [OF t(2), of "\<lambda>cs. sum_list (map command_size cs)"] by (simp add: gwd_bare_def lib_bare_def set_bare_def comp_def)
  ultimately have "sum_list (map command_size t) + n \<le> GW_MAX_CLI_COMMAND" by (simp add: GW_MAX_CLI_COMMAND_def)
  with keep obtain u where u: "run_handlers (call_user_cmd env other) hs t = Some u" "take (length t) (map bare u) = take (length t) (map bare t)"
    unfolding keeps_elder_def by (meson order_refl)
  have "map bare u = map bare t @ drop (length t) (map bare u)" using u(2) append_take_drop_id [of "length t" "map bare u"] by simp
  then show ?thesis using u(1) tree t(2) by metis
qed

lemma scan_exact:
  assumes "\<forall>x\<in>set xs. \<not> strncaseeq (length w) (cc_command x) w" "cc_command c = w" "cc_privilege c \<le> priv" "cc_mode c = mode \<or> cc_mode c = MODE_ANY"
  shows "cli_scan priv mode w (xs @ c # ys) None = Here c"
proof -
  have r: "strncaseeq k w w" for k
  proof (induction k arbitrary: w)
    case (Suc k) then show ?case by (cases w) auto
  qed simp
  show ?thesis using assms by (induction xs) (auto simp: cli_matches_def r)
qed

text \<open>A line \<open>set\<close> \<open>n\<close> \<open>args\<close> of a session that may configure calls the command of that name.\<close>

lemma find_set:
  assumes t: "map bare tree = gwd_bare env other @ later" and s: "cl_mode s = MODE_CONFIG" "cl_privilege s = PRIVILEGE_PRIVILEGED"
    and f: "set_bare env = xs @ Command n (Some f) 0 PRIVILEGE_PRIVILEGED MODE_CONFIG [] # ys" "n \<noteq> []" "last n \<noteq> CHR ''?''"
      "\<forall>x\<in>set xs. \<not> strncaseeq (length n) (cc_command x) n"
    and r: "f (gw_cli_command_name [] [n, ''set'']) args s = Some (rc, s')" "rc \<noteq> CLI_ERROR_ARG"
  shows "gw_cli_find_command [] tree (''set'' # n # args) s = Some (rc, s')"
proof -
  from t obtain as c bs where c: "tree = as @ c # bs" "map bare as = lib_bare" "bare c = Command ''set'' None 0 PRIVILEGE_PRIVILEGED MODE_CONFIG (set_bare env)"
    by (auto simp: gwd_bare_def map_eq_append_conv map_eq_Cons_conv)
  have p: "cc_command c = ''set''" "cc_privilege c = PRIVILEGE_PRIVILEGED" "cc_mode c = MODE_CONFIG" "map bare (cc_children c) = set_bare env"
    using arg_cong [OF c(3), of cc_command] arg_cong [OF c(3), of cc_privilege] arg_cong [OF c(3), of cc_mode] arg_cong [OF c(3), of cc_children]
    by simp_all
  have "\<forall>m\<in>set (map cc_command (map bare as)). \<not> strncaseeq 3 m ''set''"
    unfolding c(2) lib_bare_def by (simp add: numeral_3_eq_3 tolower_def Let_def)
  then have a: "\<forall>x\<in>set as. \<not> strncaseeq (length ''set'') (cc_command x) ''set''" by (simp add: numeral_3_eq_3)
  have 1: "cli_scan (cl_privilege s) (cl_mode s) ''set'' tree None = Here c"
    unfolding c(1) by (rule scan_exact [OF a]) (use p s in auto)
  from p(4) f(1) obtain as' d bs' where d: "cc_children c = as' @ d # bs'" "map bare as' = xs" "bare d = Command n (Some f) 0 PRIVILEGE_PRIVILEGED MODE_CONFIG []"
    by (auto simp: map_eq_append_conv map_eq_Cons_conv)
  have q: "cc_command d = n" "cc_privilege d = PRIVILEGE_PRIVILEGED" "cc_mode d = MODE_CONFIG" "cc_callback d = Some f" "cc_children d = []"
    using arg_cong [OF d(3), of cc_command] arg_cong [OF d(3), of cc_privilege] arg_cong [OF d(3), of cc_mode] arg_cong [OF d(3), of cc_callback]
      arg_cong [OF d(3), of cc_children] by simp_all
  have "\<forall>x\<in>set as'. \<not> strncaseeq (length n) (cc_command x) n" using f(4) unfolding d(2) [symmetric] by simp
  then have 2: "cli_scan (cl_privilege s) (cl_mode s) n (cc_children c) None = Here d"
    unfolding d(1) by (rule scan_exact) (use q s in auto)
  have "gw_cli_find_command [''set''] (cc_children c) (n # args) s = Some (rc, s')"
    using f(2,3) 2 q r(1) by (simp add: call_back_def)
  then show ?thesis using 1 d(1) p(1) r(2) by simp
qed

lemma run_set:
  assumes "gw_cli_find_command [] tree (''set'' # n # args) s = Some (CLI_OK, s')" "\<forall>w\<in>set (''set'' # n # args). plain_word w" "length args \<le> 29"
  shows "gw_cli_run_command tree (join_words (''set'' # n # args)) s = Some (CLI_OK, s')"
proof -
  have l: "length (''set'' # n # args) \<le> 31" using assms(3) by simp
  from joined_start [OF _ assms(2)] obtain a r where j: "join_words (''set'' # n # args) = a # r" "\<not> isspace a" by blast
  have p: "gw_cli_parse_line (a # r) MAX_WORDS_NUM = (length (''set'' # n # args), ''set'' # n # args)"
    using parse_join [OF assms(2) l] unfolding j(1) .
  show ?thesis unfolding j(1) gw_cli_run_command_def using j(2) assms(1) by (simp add: p)
qed

lemma toupper_nonzero: "of_char c \<noteq> (0 :: u8) \<Longrightarrow> of_char (toupper_u8 c) \<noteq> (0 :: u8)"
proof -
  assume c: "of_char c \<noteq> (0 :: u8)"
  show ?thesis
  proof (cases "97 \<le> (of_char c :: nat) \<and> (of_char c :: nat) \<le> 122")
    case True
    have "of_char (toupper_u8 c) = (of_nat (of_char (toupper_u8 c)) :: u8)" by (rule of_nat_of_char [symmetric])
    also have "of_char (toupper_u8 c) = (of_char c - 32 :: nat)"
    proof -
      define k :: nat where "k = of_char c"
      have "k \<le> 122" using True unfolding k_def by blast
      then have "(k - 32) mod 256 = k - 32" by simp
      then have "(of_char c - 32) mod 256 = (of_char c - 32 :: nat)" unfolding k_def .
      then show ?thesis using True by (simp add: toupper_u8_def Let_def)
    qed
    finally have e: "of_char (toupper_u8 c) = (of_nat (of_char c - 32) :: u8)" .
    have "unat (of_nat (of_char c - 32) :: u8) = of_char c - 32" using True by (intro unat_of_nat_u8, elim conjE) linarith
    then have "unat (of_nat (of_char c - 32) :: u8) \<noteq> 0" using True by simp
    then show ?thesis unfolding e by (metis unat_0)
  qed (use c in \<open>auto simp: toupper_u8_def Let_def\<close>)
qed

lemma set_serial:
  assumes "restores_ok env" "length arg \<le> 16" "\<forall>c\<in>set arg. of_char c \<noteq> (0 :: u8)" "arg \<noteq> []" "last arg \<noteq> CHR ''?''"
  shows "\<exists>s'. cmd_onu_mgt_config_product_sn env command [arg] s = Some (CLI_OK, s') \<and> info_ok (sw_info (cl_world s')) \<and>
    cstr (si_serial_no (sw_info (cl_world s'))) = Some (chars (map toupper_u8 arg))"
proof -
  let ?t = "chars (map toupper_u8 arg)" and ?s = "read_flash env s"
  have ok: "info_ok (sw_info (cl_world ?s))" by (rule read_ok [OF assms(1)])
  obtain i where i: "put_serial ?t (sw_info (cl_world ?s)) = Some i" "info_ok i" using put_serial_ok [OF ok, of ?t] assms(2) by auto
  have z: "0 \<notin> set ?t"
  proof
    assume "0 \<in> set ?t"
    then obtain c where "c \<in> set arg" "of_char (toupper_u8 c) = (0 :: u8)" by (auto simp: chars_def)
    then show False using toupper_nonzero assms(3) by blast
  qed
  have "length ?t < length (si_serial_no (sw_info (cl_world ?s)))" using info_okD(2) [OF ok] assms(2) by simp
  then have c: "cstr (si_serial_no i) = Some ?t" using i(1) cstr_text [OF z] by (auto simp: put_serial_def sput_def)
  have h: "cli_help_requested [arg] = Some False" using assms(4,5) by (simp add: cli_help_requested_def)
  have k: "capitals 18 arg = Some ?t" using assms(2) by (simp add: capitals_def)
  have "cmd_onu_mgt_config_product_sn env command [arg] s = saved env ?s (Some i)"
    using assms(2) i(1) by (simp add: cmd_onu_mgt_config_product_sn_def set_text_def help_or_def h k Let_def)
  then show ?thesis using c i(2) by (auto simp: saved_def)
qed

section \<open>Properties\<close>

lemma request_get:
  assumes "on_GwOpcode n = EQU_DEVICE_INFO_REQ" "on_pPayLoad n = Some (ONU_INFOR_GET # rest)"
  shows "GwOamInformationRequest env denv cx n w d =
    Some (Option.bind (onu_infor_get (sw_info w)) (\<lambda>resp. info_answer n resp (w\<lparr>sw_connect := 1\<rparr>) d))"
  using assms by (simp add: GwOamInformationRequest_def)

lemma request_set:
  assumes "on_GwOpcode n = EQU_DEVICE_INFO_REQ" "on_pPayLoad n = Some (ONU_INFOR_SET # rest)"
  shows "GwOamInformationRequest env denv cx n w d =
    Some (Option.bind (onu_infor_set env (ONU_INFOR_SET # rest) w) (\<lambda>(resp, w1). info_answer n resp w1 d))"
  using assms by (simp add: GwOamInformationRequest_def ONU_INFOR_GET_def ONU_INFOR_SET_def)

text \<open>A request for the information in a state with texts that end, and what its answer holds.\<close>

lemma request_texts:
  assumes "on_GwOpcode n = EQU_DEVICE_INFO_REQ" "on_pPayLoad n = Some (ONU_INFOR_GET # rest)" "info_ok (sw_info w)"
    and "cstr (si_device_name (sw_info w)) = Some name" "cstr (si_serial_no (sw_info w)) = Some sn"
  shows "\<exists>resp texts. GwOamInformationRequest env denv cx n w d = Some (info_answer n resp (w\<lparr>sw_connect := 1\<rparr>) d) \<and>
    lv_texts 10 (drop 6 resp) = Some texts \<and> texts ! 4 = take 128 name \<and> texts ! 8 = sn"
proof -
  obtain resp hw sw name' sn' date where t: "onu_infor_get (sw_info w) = Some resp" "cstr (si_device_name (sw_info w)) = Some name'"
    "cstr (si_serial_no (sw_info w)) = Some sn'"
    "lv_texts 10 (drop 6 resp) = Some [hw, chars '' boot '', sw, chars ''V3.1.1.1'', take 128 name', chars ''CTC-ONU-Ready'',
       chars ''Beijing China'', chars ''GW Delight'', sn', date]"
    by (rule infor_get_texts [OF assms(3)])
  have "GwOamInformationRequest env denv cx n w d = Some (info_answer n resp (w\<lparr>sw_connect := 1\<rparr>) d)"
    unfolding request_get [OF assms(1,2)] t(1) by simp
  moreover have "[hw, chars '' boot '', sw, chars ''V3.1.1.1'', take 128 name', chars ''CTC-ONU-Ready'', chars ''Beijing China'',
      chars ''GW Delight'', sn', date] ! 4 = take 128 name" "[hw, chars '' boot '', sw, chars ''V3.1.1.1'', take 128 name',
      chars ''CTC-ONU-Ready'', chars ''Beijing China'', chars ''GW Delight'', sn', date] ! 8 = sn"
    using t(2,3) assms(4,5) by simp_all
  ultimately show ?thesis using t(4) by blast
qed

lemma ends_cstr: "ends_in n b \<Longrightarrow> \<exists>t. cstr b = Some t"
  using cstr_some by (auto simp: ends_in_def)

text \<open>
  C15. A name of up to 131 bytes that the OLT sets, with any description and location, is the fifth text of the answer to its next request
  for the information, at once and after every restart that reads the same flash; the name is cut to 128 bytes there.
\<close>

theorem name_survives:
  assumes "restores_ok env" "flash_keeps env"
    and "name \<noteq> []" "0 \<notin> set name" "length name < 132" "length descr < 256" "length loc < 256"
    and "on_GwOpcode n = EQU_DEVICE_INFO_REQ" "on_pPayLoad n = Some (ONU_INFOR_SET # lv name @ lv descr @ lv loc @ rest)"
    and "on_GwOpcode n' = EQU_DEVICE_INFO_REQ" "on_pPayLoad n' = Some (ONU_INFOR_GET # rest')"
  shows "\<exists>resp w1. GwOamInformationRequest env denv cx n w d = Some (info_answer n resp w1 d) \<and>
    (\<forall>w2 d'. w2 = w1 \<or> (\<exists>w3. sw_flash w3 = sw_flash w1 \<and> w2 = snd (GW_Onu_Sysinfo_Get env w3)) \<longrightarrow>
      (\<exists>resp' texts. GwOamInformationRequest env denv cx n' w2 d' = Some (info_answer n' resp' (w2\<lparr>sw_connect := 1\<rparr>) d') \<and>
        lv_texts 10 (drop 6 resp') = Some texts \<and> texts ! 4 = take 128 name))"
proof -
  have read: "\<exists>resp' texts. GwOamInformationRequest env denv cx n' w2 d' = Some (info_answer n' resp' (w2\<lparr>sw_connect := 1\<rparr>) d') \<and>
      lv_texts 10 (drop 6 resp') = Some texts \<and> texts ! 4 = take 128 name"
    if ok: "info_ok (sw_info w2)" and c: "cstr (si_device_name (sw_info w2)) = Some name" for w2 d'
  proof -
    from ok obtain sn where "cstr (si_serial_no (sw_info w2)) = Some sn" by (auto simp: info_ok_def dest: ends_cstr)
    from request_texts [OF assms(10,11) ok c this] show ?thesis by blast
  qed
  have l: "length name < 256" using assms(5) by simp
  have "GwOamInformationRequest env denv cx n w d =
      Some (info_answer n ([ONU_INFOR_SET, 1] @ (if descr = [] then [] else [1]) @ (if loc = [] then [] else [1])) (named env name w) d)"
    unfolding request_set [OF assms(8,9)] infor_set_name [OF assms(3) l assms(6,7)] by simp
  moreover have "info_ok (sw_info w2) \<and> cstr (si_device_name (sw_info w2)) = Some name"
    if w2: "w2 = named env name w \<or> (\<exists>w3. sw_flash w3 = sw_flash (named env name w) \<and> w2 = snd (GW_Onu_Sysinfo_Get env w3))" for w2
    using w2
  proof
    assume "w2 = named env name w"
    moreover obtain k where "132 - length name = Suc k" using assms(5) by (metis Suc_diff_Suc)
    ultimately show ?thesis using named_ok [OF assms(1,5)] named_text [OF assms(4,5), of env w] cstr_text [OF assms(4)] by simp
  next
    assume "\<exists>w3. sw_flash w3 = sw_flash (named env name w) \<and> w2 = snd (GW_Onu_Sysinfo_Get env w3)"
    then show ?thesis using get_ok [OF assms(1)] named_restart [OF assms(1,2,4,5)] by blast
  qed
  ultimately show ?thesis using read by blast
qed

text \<open>
  C33. A name of 132 bytes or more fills its array without an end: the next request of the OLT for the information reads beyond it.
\<close>

theorem full_name_overruns:
  assumes "132 \<le> length name" "length name < 256" "0 \<notin> set name" "length descr < 256" "length loc < 256" "restores_ok env"
    and "on_GwOpcode n = EQU_DEVICE_INFO_REQ" "on_pPayLoad n = Some (ONU_INFOR_SET # lv name @ lv descr @ lv loc @ rest)"
    and "on_GwOpcode n' = EQU_DEVICE_INFO_REQ" "on_pPayLoad n' = Some (ONU_INFOR_GET # rest')"
  shows "\<exists>resp w1. GwOamInformationRequest env denv cx n w d = Some (info_answer n resp w1 d) \<and>
    GwOamInformationRequest env denv cx n' w1 d' = Some None"
proof -
  have ne: "name \<noteq> []" using assms(1) by auto
  have s: "GwOamInformationRequest env denv cx n w d =
      Some (info_answer n ([ONU_INFOR_SET, 1] @ (if descr = [] then [] else [1]) @ (if loc = [] then [] else [1])) (named env name w) d)"
    unfolding request_set [OF assms(7,8)] infor_set_name [OF ne assms(2,4,5)] by simp
  have "si_device_name (sw_info (named env name w)) = take 132 name" using assms(1) by (simp add: named_def Let_def min_def)
  moreover have "0 \<notin> set (take 132 name)" using assms(3) by (meson in_set_takeD)
  ultimately have "cstr (si_device_name (sw_info (named env name w))) = None" by (simp add: cstr_none)
  moreover have "Option.bind x (\<lambda>_. None) = None" for x :: "u8 list option" by (cases x) auto
  ultimately have "onu_infor_get (sw_info (named env name w)) = None" by (simp add: onu_infor_get_def)
  then have "GwOamInformationRequest env denv cx n' (named env name w) d' = Some None"
    unfolding request_get [OF assms(9,10)] by simp
  then show ?thesis using s by blast
qed

text \<open>
  C19. In the tree that the unit builds at its start, of the commands of the library and of all applications that \<^verbatim>\<open>gwd_onu_init\<close>
  enters, with or without power for the ports, the line \<open>set serial\<close> with a word of up to 16 characters, typed in the configuration
  mode, makes the word in capitals the ninth text of the answer to the next request of the OLT.
\<close>

theorem typed_serial:
  assumes "restores_ok env" "cl_mode s = MODE_CONFIG" "cl_privilege s = PRIVILEGE_PRIVILEGED"
    and "plain_word arg" "length arg \<le> 16" "\<forall>c\<in>set arg. of_char c \<noteq> (0 :: u8)" "last arg \<noteq> CHR ''?''"
    and "on_GwOpcode n = EQU_DEVICE_INFO_REQ" "on_pPayLoad n = Some (ONU_INFOR_GET # rest)"
  shows "\<exists>tree s' resp texts. onu_cli_tree env poe other = Some tree \<and>
    gw_cli_run_command tree (''set serial '' @ arg) s = Some (CLI_OK, s') \<and>
    GwOamInformationRequest env denv cx n (cl_world s') d = Some (info_answer n resp ((cl_world s')\<lparr>sw_connect := 1\<rparr>) d) \<and>
    lv_texts 10 (drop 6 resp) = Some texts \<and> texts ! 8 = chars (map toupper_u8 arg)"
proof -
  obtain tree later where t: "onu_cli_tree env poe other = Some tree" "map bare tree = gwd_bare env other @ later"
    using onu_tree [of env poe other] by blast
  have ne: "arg \<noteq> []" using assms(4) by (simp add: plain_word_def)
  obtain s' where s': "cmd_onu_mgt_config_product_sn env (gw_cli_command_name [] [''serial'', ''set'']) [arg] s = Some (CLI_OK, s')"
    "info_ok (sw_info (cl_world s'))" "cstr (si_serial_no (sw_info (cl_world s'))) = Some (chars (map toupper_u8 arg))"
    using set_serial [OF assms(1,5,6) ne assms(7)] by blast
  have b: "set_bare env = [Command ''date'' (Some (cmd_onu_mgt_config_product_date env)) 0 PRIVILEGE_PRIVILEGED MODE_CONFIG []] @
      Command ''serial'' (Some (cmd_onu_mgt_config_product_sn env)) 0 PRIVILEGE_PRIVILEGED MODE_CONFIG [] # drop 2 (set_bare env)"
    by (simp add: set_bare_def)
  have "gw_cli_find_command [] tree (''set'' # ''serial'' # [arg]) s = Some (CLI_OK, s')"
    by (rule find_set [OF t(2) assms(2,3) b _ _ _ s'(1)]) (simp_all add: tolower_def Let_def eval_nat_numeral)
  moreover have "\<forall>w\<in>set (''set'' # ''serial'' # [arg]). plain_word w"
    using assms(4) by (simp add: plain_word_def isspace_def Let_def MAX_WORDS_LEN_def)
  ultimately have "gw_cli_run_command tree (join_words (''set'' # ''serial'' # [arg])) s = Some (CLI_OK, s')"
    by (intro run_set) simp_all
  then have r: "gw_cli_run_command tree (''set serial '' @ arg) s = Some (CLI_OK, s')" by simp
  from s'(2) obtain name where "cstr (si_device_name (sw_info (cl_world s'))) = Some name" by (auto simp: info_ok_def dest: ends_cstr)
  from request_texts [OF assms(8,9) s'(2) this s'(3)] t(1) r show ?thesis by blast
qed

text \<open>
  C20. Setting the clock never writes beyond the array of its text. It is accepted exactly when year, month, day, hour, minute and second lie
  in the ranges of the code, which let month 0, day 0 and hour 24 pass. Then text and time are those of the request, and the answer is
  eight zero bytes whatever the request was.
\<close>

theorem clock_set:
  assumes "length (sw_SetTime w) = 20" "7 \<le> length b"
    and "on_GwOpcode n = EQU_DEVICE_INFO_REQ" "on_pPayLoad n = Some (ONU_REALTIME_SYNC # b)"
  shows "\<exists>w'. GwOamInformationRequest env denv cx n w d =
      Some (if clock_ok b then info_answer n (replicate 8 0) w' d else Some (-1, [], w', d)) \<and> length (sw_SetTime w') = 20 \<and>
    (clock_ok b \<longrightarrow> sw_tim w' = clock_time b \<and> cstr (sw_SetTime w') = Some (chars (clock_text b)))"
proof -
  from realtime_sync [OF assms(1,2)] obtain w' where w': "onu_realtime_sync (ONU_REALTIME_SYNC # b) w = Some (clock_ok b, w')"
    "length (sw_SetTime w') = 20" "clock_ok b \<longrightarrow> sw_tim w' = clock_time b \<and> cstr (sw_SetTime w') = Some (chars (clock_text b))" by blast
  have "GwOamInformationRequest env denv cx n w d = Some (Option.bind (onu_realtime_sync (ONU_REALTIME_SYNC # b) w) (\<lambda>(ok, w1).
      if ok then info_answer n (replicate 8 0) w1 d else Some (-1, [], w1, d)))"
    using assms(3,4) by (simp add: GwOamInformationRequest_def ONU_INFOR_GET_def ONU_INFOR_SET_def ONU_REALTIME_SYNC_def)
  then show ?thesis using w' by auto
qed

text \<open>
  The time of the OLT and the time since the start are added with all carries: in a calendar of months of 31 days the sum is that of the
  two times, less the day, the month and the 70 years that both count. The real calendar has shorter months, so the clock runs behind it.
\<close>

theorem clock_adds:
  "clock_secs (curr_time_cheak_and_get olt onu) = clock_secs olt + clock_secs onu - ((70 * 12 + 1) * 31 + 1) * 24 * 60 * 60"
proof -
  define p1 where "p1 = carry 60 (tm_sec onu + tm_sec olt)"
  define p2 where "p2 = carry 60 (tm_min onu + tm_min olt + snd p1)"
  define p3 where "p3 = carry 24 (tm_hour onu + tm_hour olt + snd p2)"
  define p4 where "p4 = carry 31 (tm_mday onu + tm_mday olt - 1 + snd p3)"
  define p5 where "p5 = carry 12 (tm_mon onu + tm_mon olt - 1 + snd p4)"
  have v: "fst p1 + 60 * snd p1 = tm_sec onu + tm_sec olt" "fst p2 + 60 * snd p2 = tm_min onu + tm_min olt + snd p1"
    "fst p3 + 24 * snd p3 = tm_hour onu + tm_hour olt + snd p2" "fst p4 + 31 * snd p4 = tm_mday onu + tm_mday olt - 1 + snd p3"
    "fst p5 + 12 * snd p5 = tm_mon onu + tm_mon olt - 1 + snd p4"
    unfolding p1_def p2_def p3_def p4_def p5_def by (rule carry_value; simp)+
  have "curr_time_cheak_and_get olt onu = \<lparr>tm_sec = fst p1, tm_min = fst p2, tm_hour = fst p3, tm_mday = fst p4, tm_mon = fst p5,
      tm_year = tm_year onu + tm_year olt - 70 + snd p5\<rparr>"
    by (simp add: curr_time_cheak_and_get_def p1_def p2_def p3_def p4_def p5_def split: prod.splits)
  then show ?thesis using v by (simp add: clock_secs_def)
qed

text \<open>
  C31. An address as \<open>display product\<close> prints it, given to \<open>set mac\<close>: a group address is refused and nothing changes; any other
  one is handed to the library with exactly its six bytes, and becomes the address of the unit when the library takes it. When
  the library refuses it, the command reports an error and the address of the unit stays as it was.
\<close>

theorem mac_roundtrip:
  assumes "length mac = 6"
  shows "cmd_set_onu_mac env command [mac_text mac] s =
    (if odd (unat (hd mac)) then Some (CLI_ERROR, s)
     else case se_mac_set env mac (sw_flash (cl_world s)) of (r, f) \<Rightarrow>
       if r = GW_OK then Some (CLI_OK, s\<lparr>cl_world := (cl_world s)\<lparr>sw_flash := f, sw_mac := mac\<rparr>\<rparr>)
       else Some (CLI_ERROR, s\<lparr>cl_world := (cl_world s)\<lparr>sw_flash := f\<rparr>\<rparr>))"
proof -
  have ne: "mac \<noteq> []" using assms by auto
  have h: "cli_help_requested [mac_text mac] = Some False" using last_mac_text [OF ne] by (simp add: cli_help_requested_def)
  have l: "length (mac_text mac) = 17" using length_mac_text [OF ne] assms by simp
  have v: "scan_hexes 6 (mac_text mac) = map (\<lambda>b. int (unat b)) mac" by (rule scan_hexes_text [OF assms])
  have "map (\<lambda>b. int (unat b)) mac ! 0 = int (unat (hd mac))" using ne by (cases mac) auto
  then have e: "odd (scan_hexes 6 (mac_text mac) ! 0) = odd (unat (hd mac))" unfolding v by (simp only: even_of_nat)
  have m: "map word_of_int (scan_hexes 6 (mac_text mac)) = mac" unfolding v by (simp add: map_idI)
  have n: "length (scan_hexes 6 (mac_text mac)) = 6" unfolding v using assms by simp
  show ?thesis unfolding cmd_set_onu_mac_def help_or_def h Let_def using e m n l by (simp split: prod.splits)
qed

text \<open>What the commands of the local terminal, which check no bounds, do with a text that does not fit.\<close>

lemma saved_none [simp]: "saved env s i = None \<longleftrightarrow> i = None"
  by (simp add: saved_def)

lemma sput_none: "sput b t = None \<longleftrightarrow> length b \<le> length t"
  by (auto simp: sput_def)

lemma help_or_none: "help_or argv f s = None \<longleftrightarrow> cli_help_requested argv = None \<or> cli_help_requested argv = Some False \<and> f s = None"
  by (cases "cli_help_requested argv") (auto simp: help_or_def)

lemma help_or_ok:
  assumes "info_ok (sw_info (cl_world s))" "\<And>r s'. f s = Some (r, s') \<Longrightarrow> info_ok (sw_info (cl_world s'))"
    and "help_or argv f s = Some (r, s')"
  shows "info_ok (sw_info (cl_world s'))"
  using assms by (auto simp: help_or_def Option.bind_eq_Some_conv split: if_splits)

lemma saved_ok: "saved env s x = Some (r, s') \<Longrightarrow> (\<And>i. x = Some i \<Longrightarrow> info_ok i) \<Longrightarrow> info_ok (sw_info (cl_world s'))"
  by (auto simp: saved_def)

lemma put_ok_if:
  assumes "info_ok i"
  shows "put_date y m d i = Some i' \<Longrightarrow> info_ok i'" "put_hw v i = Some i' \<Longrightarrow> info_ok i'" "put_name t i = Some i' \<Longrightarrow> info_ok i'"
  using assms info_okD [OF assms]
  by (auto simp: put_date_def put_hw_def put_name_def info_ok_def ends_in_def simp del: chars_append dest!: sput_some)

lemma local_date:
  assumes "restores_ok env" "info_ok (sw_info (cl_world s))"
  shows "cmd_onu_mgt_config_product_date_local env command argv s = None \<longleftrightarrow>
      cli_help_requested argv = None \<or> cli_help_requested argv = Some False \<and> length argv = 3 \<and>
        12 \<le> length (fmt_d (atoi (argv ! 0)) @ ''-'' @ fmt_02d (atoi (argv ! 1)) @ ''-'' @ fmt_02d (atoi (argv ! 2)))"
    and "cmd_onu_mgt_config_product_date_local env command argv s = Some (r, s') \<Longrightarrow> info_ok (sw_info (cl_world s'))"
  using info_okD(4) [OF read_ok [OF assms(1)], of s]
  by (auto simp: cmd_onu_mgt_config_product_date_local_def help_or_none Let_def put_date_def sput_none simp del: chars_append
      elim!: help_or_ok [OF assms(2)] saved_ok split: if_splits)
    (auto simp: cmd_onu_mgt_config_product_date_local_def Let_def assms(2) simp del: chars_append
      elim!: help_or_ok [OF assms(2), rotated] saved_ok put_ok_if(1) [OF read_ok [OF assms(1)]] split: if_splits)

lemma local_hw_version:
  assumes "info_ok (sw_info (cl_world s))"
  shows "cmd_onu_mgt_config_product_hw_version_local env command argv s = None \<longleftrightarrow>
      cli_help_requested argv = None \<or> cli_help_requested argv = Some False \<and> length argv = 2 \<and>
        7 \<le> length (''V'' @ fmt_d (atoi (argv ! 0)) @ ''.'' @ fmt_d (atoi (argv ! 1)))"
    and "cmd_onu_mgt_config_product_hw_version_local env command argv s = Some (r, s') \<Longrightarrow> info_ok (sw_info (cl_world s'))"
  using info_okD(3) [OF assms]
  by (auto simp: cmd_onu_mgt_config_product_hw_version_local_def help_or_none Let_def put_hw_def sput_none simp del: chars_append)
    (auto simp: cmd_onu_mgt_config_product_hw_version_local_def Let_def assms simp del: chars_append
      elim!: help_or_ok [OF assms, rotated] saved_ok put_ok_if(2) [OF assms] split: if_splits)

lemma local_name:
  assumes "restores_ok env" "info_ok (sw_info (cl_world s))"
  shows "cmd_onu_mgt_config_device_name_local env command argv s = None \<longleftrightarrow>
      cli_help_requested argv = None \<or> cli_help_requested argv = Some False \<and> length argv = 1 \<and> length (argv ! 0) = 64"
    and "cmd_onu_mgt_config_device_name_local env command argv s = Some (r, s') \<Longrightarrow> info_ok (sw_info (cl_world s'))"
proof -
  have l: "length (si_device_name (sw_info (cl_world (read_flash env s)))) = 132" by (rule info_okD(1) [OF read_ok [OF assms(1)]])
  then show "cmd_onu_mgt_config_device_name_local env command argv s = None \<longleftrightarrow>
      cli_help_requested argv = None \<or> cli_help_requested argv = Some False \<and> length argv = 1 \<and> length (argv ! 0) = 64"
    by (auto simp: cmd_onu_mgt_config_device_name_local_def set_text_def help_or_none Let_def capitals_def put_name_def sput_none)
  show "cmd_onu_mgt_config_device_name_local env command argv s = Some (r, s') \<Longrightarrow> info_ok (sw_info (cl_world s'))"
    by (auto simp: cmd_onu_mgt_config_device_name_local_def set_text_def Let_def assms(2) Option.bind_eq_Some_conv
      elim!: help_or_ok [OF assms(2), rotated] saved_ok put_ok_if(3) [OF read_ok [OF assms(1)]] split: if_splits)
qed

lemma help_none: "cli_help_requested argv = None \<longleftrightarrow> argv \<noteq> [] \<and> last argv = []"
  by (simp add: cli_help_requested_def)

lemma no_help_word: "cli_help_requested argv = None \<Longrightarrow> help_or argv f s = None"
  by (simp add: help_or_def)

lemma set_commands_total:
  assumes "restores_ok env" "info_ok (sw_info (cl_world s))"
    and "f \<in> {cmd_onu_mgt_config_product_date env, cmd_onu_mgt_config_product_hw_version env, cmd_onu_mgt_config_product_sn env,
      cmd_onu_mgt_config_device_name env, cmd_set_onu_mac env, cmd_onu_mgt_config_product_sn_local env, cmd_set_onu_mac_local env}"
  shows "if argv \<noteq> [] \<and> last argv = [] then f command argv s = None
    else \<exists>r s'. f command argv s = Some (r, s') \<and> info_ok (sw_info (cl_world s'))"
proof (cases "argv \<noteq> [] \<and> last argv = []")
  case True
  then have "cli_help_requested argv = None" by (simp add: help_none)
  from no_help_word [OF this] show ?thesis using assms(3) True
    by (auto simp: cmd_onu_mgt_config_product_date_def cmd_onu_mgt_config_product_hw_version_def cmd_onu_mgt_config_product_sn_def
      cmd_onu_mgt_config_device_name_def set_text_def cmd_set_onu_mac_def cmd_onu_mgt_config_product_sn_local_def cmd_set_onu_mac_local_def)
next
  case False
  have l: "cmd_onu_mgt_config_product_sn_local env = cmd_onu_mgt_config_product_sn env" "cmd_set_onu_mac_local env = cmd_set_onu_mac env"
    by (simp_all add: cmd_onu_mgt_config_product_sn_local_def cmd_onu_mgt_config_product_sn_def cmd_set_onu_mac_local_def)
  from False have "argv = [] \<or> last argv \<noteq> []" by blast
  from set_commands_ok [OF assms(1,2) this, of command] show ?thesis using assms(3) False unfolding keeps_ok_def l by auto
qed

text \<open>
  C16. The commands that write the record, with any arguments. A command whose last argument is empty reads the byte before that
  argument when it looks for a request for help, and faults. Otherwise each of the commands below \<open>set\<close>, the local ones of the
  serial number and of the address, and \<open>display product\<close> return and keep every text of the record within its array. The other
  local commands fault exactly when the text they compose does not fit: a date of 12 or more characters, a version of 7 or more,
  a name of 64; they too never leave a text that has no end. The restored record is assumed to have terminated versions
  (\<open>restores_ok\<close>): the code ends only the name, the serial number and the date itself.
\<close>

theorem commands_keep_texts:
  assumes "restores_ok env" "info_ok (sw_info (cl_world s))"
  shows
    "(\<forall>f\<in>{cmd_onu_mgt_config_product_date env, cmd_onu_mgt_config_product_hw_version env, cmd_onu_mgt_config_product_sn env,
        cmd_onu_mgt_config_device_name env, cmd_set_onu_mac env, cmd_onu_mgt_config_product_sn_local env, cmd_set_onu_mac_local env}.
       if argv \<noteq> [] \<and> last argv = [] then f command argv s = None
       else \<exists>r s'. f command argv s = Some (r, s') \<and> info_ok (sw_info (cl_world s'))) \<and>
     (\<exists>r s'. cmd_show_system_information env command argv s = Some (r, s') \<and> info_ok (sw_info (cl_world s'))) \<and>
     (\<forall>f\<in>{cmd_onu_mgt_config_product_date_local env, cmd_onu_mgt_config_product_hw_version_local env,
        cmd_onu_mgt_config_device_name_local env}.
       \<forall>r s'. f command argv s = Some (r, s') \<longrightarrow> info_ok (sw_info (cl_world s'))) \<and>
     (cmd_onu_mgt_config_product_date_local env command argv s = None \<longleftrightarrow>
        argv \<noteq> [] \<and> last argv = [] \<or> cli_help_requested argv = Some False \<and> length argv = 3 \<and>
          12 \<le> length (fmt_d (atoi (argv ! 0)) @ ''-'' @ fmt_02d (atoi (argv ! 1)) @ ''-'' @ fmt_02d (atoi (argv ! 2)))) \<and>
     (cmd_onu_mgt_config_product_hw_version_local env command argv s = None \<longleftrightarrow>
        argv \<noteq> [] \<and> last argv = [] \<or> cli_help_requested argv = Some False \<and> length argv = 2 \<and>
          7 \<le> length (''V'' @ fmt_d (atoi (argv ! 0)) @ ''.'' @ fmt_d (atoi (argv ! 1)))) \<and>
     (cmd_onu_mgt_config_device_name_local env command argv s = None \<longleftrightarrow>
        argv \<noteq> [] \<and> last argv = [] \<or> cli_help_requested argv = Some False \<and> length argv = 1 \<and> length (argv ! 0) = 64)"
  unfolding help_none [symmetric]
proof (intro conjI ballI)
  fix f assume "f \<in> {cmd_onu_mgt_config_product_date env, cmd_onu_mgt_config_product_hw_version env, cmd_onu_mgt_config_product_sn env,
      cmd_onu_mgt_config_device_name env, cmd_set_onu_mac env, cmd_onu_mgt_config_product_sn_local env, cmd_set_onu_mac_local env}"
  from set_commands_total [OF assms this, of argv command]
  show "if cli_help_requested argv = None then f command argv s = None
    else \<exists>r s'. f command argv s = Some (r, s') \<and> info_ok (sw_info (cl_world s'))" unfolding help_none .
next
  show "\<exists>r s'. cmd_show_system_information env command argv s = Some (r, s') \<and> info_ok (sw_info (cl_world s'))"
    by (simp add: cmd_show_system_information_def read_ok assms(1))
next
  fix f assume "f \<in> {cmd_onu_mgt_config_product_date_local env, cmd_onu_mgt_config_product_hw_version_local env,
        cmd_onu_mgt_config_device_name_local env}"
  then show "\<forall>r s'. f command argv s = Some (r, s') \<longrightarrow> info_ok (sw_info (cl_world s'))"
    using local_date(2) [OF assms] local_hw_version(2) [OF assms(2)] local_name(2) [OF assms] by blast
qed (rule local_date(1) [OF assms] local_hw_version(1) [OF assms(2)] local_name(1) [OF assms])+

section \<open>Witnesses\<close>

text \<open>A unit whose flash is the record itself, restored when its texts end.\<close>

definition bench_unit :: "sys_info sys_env" where
  "bench_unit = \<lparr>se_save = \<lambda>i f. (GW_OK, i), se_restore = \<lambda>f. (if info_ok f then GW_OK else GW_ERROR, f), se_ver_get = id,
     se_mac_set = \<lambda>m f. (GW_OK, f), se_port_num = 4\<rparr>"

definition bench_world :: "sys_info sys_world" where
  "bench_world = \<lparr>sw_info = resetSysInfoToDefault bench_unit, sw_flash = resetSysInfoToDefault bench_unit, sw_mac = replicate 6 0,
     sw_connect = 0, sw_SetTime = replicate 20 0, sw_tim = tm_zero\<rparr>"

definition bench_ctx :: info_ctx where
  "bench_ctx = \<lparr>ic_next = next_two, ic_sw = \<lambda>_. None, ic_mem = True, ic_stack = None, ic_tid = 0, ic_self = 0\<rparr>"

definition bench_request :: "u8 list \<Rightarrow> oam_node" where
  "bench_request p = \<lparr>on_GwOpcode = EQU_DEVICE_INFO_REQ, on_SendSerNo = 7, on_WholePktLen = of_nat (length p), on_RevPktLen = of_nat (length p),
     on_SessionID = replicate 8 0, on_TimerID = None, on_pPayLoad = Some p\<rparr>"

definition bench_session :: "sys_info sys_world cli_def" where
  "bench_session = (gw_cli_init bench_world)\<lparr>cl_privilege := PRIVILEGE_PRIVILEGED, cl_mode := MODE_CONFIG\<rparr>"

lemma bench_restores: "restores_ok bench_unit"
  by (auto simp: restores_ok_def bench_unit_def info_ok_def ends_in_def gw_status_defs split: if_splits)

lemma bench_keeps: "flash_keeps bench_unit"
  by (simp add: flash_keeps_def bench_unit_def)

lemma bench_request_parts [simp]: "on_GwOpcode (bench_request p) = EQU_DEVICE_INFO_REQ" "on_pPayLoad (bench_request p) = Some p"
  by (simp_all add: bench_request_def)

lemma bench_session_parts [simp]: "cl_mode bench_session = MODE_CONFIG" "cl_privilege bench_session = PRIVILEGE_PRIVILEGED"
  "cl_world bench_session = bench_world"
  by (simp_all add: bench_session_def gw_cli_init_def gw_cli_set_configmode_def set_mode_def gw_cli_set_privilege_def gw_cli_set_modestring_def
    gw_cli_set_promptchar_def Let_def)

theorem name_survives_witness:
  "\<exists>resp w1. GwOamInformationRequest bench_unit calm_env bench_ctx (bench_request [ONU_INFOR_SET, 2, 0x4f, 0x4e, 0, 0]) bench_world loop_boot =
      Some (info_answer (bench_request [ONU_INFOR_SET, 2, 0x4f, 0x4e, 0, 0]) resp w1 loop_boot) \<and>
    (\<exists>resp' texts. GwOamInformationRequest bench_unit calm_env bench_ctx (bench_request [ONU_INFOR_GET]) (snd (GW_Onu_Sysinfo_Get bench_unit w1)) loop_boot =
        Some (info_answer (bench_request [ONU_INFOR_GET]) resp' ((snd (GW_Onu_Sysinfo_Get bench_unit w1))\<lparr>sw_connect := 1\<rparr>) loop_boot) \<and>
      lv_texts 10 (drop 6 resp') = Some texts \<and> texts ! 4 = [0x4f, 0x4e])"
proof -
  let ?p = "[ONU_INFOR_SET, 2, 0x4f, 0x4e, 0, 0]"
  have p: "on_pPayLoad (bench_request ?p) = Some (ONU_INFOR_SET # lv [0x4f, 0x4e] @ lv [] @ lv [] @ [])" by (simp add: lv_def)
  have g: "on_pPayLoad (bench_request [ONU_INFOR_GET]) = Some (ONU_INFOR_GET # [])" by simp
  have n: "[0x4f, 0x4e :: u8] \<noteq> []" "0 \<notin> set [0x4f, 0x4e :: u8]" "length [0x4f, 0x4e :: u8] < 132" "length ([] :: u8 list) < 256" by simp_all
  from name_survives [OF bench_restores bench_keeps n n(4) _ p _ g, of calm_env bench_ctx bench_world loop_boot] obtain resp w1 where
    r: "GwOamInformationRequest bench_unit calm_env bench_ctx (bench_request ?p) bench_world loop_boot = Some (info_answer (bench_request ?p) resp w1 loop_boot)"
    and all: "\<forall>w2 d'. w2 = w1 \<or> (\<exists>w3. sw_flash w3 = sw_flash w1 \<and> w2 = snd (GW_Onu_Sysinfo_Get bench_unit w3)) \<longrightarrow>
      (\<exists>resp' texts. GwOamInformationRequest bench_unit calm_env bench_ctx (bench_request [ONU_INFOR_GET]) w2 d' =
          Some (info_answer (bench_request [ONU_INFOR_GET]) resp' (w2\<lparr>sw_connect := 1\<rparr>) d') \<and>
        lv_texts 10 (drop 6 resp') = Some texts \<and> texts ! 4 = take 128 [0x4f, 0x4e])" by auto
  from all [rule_format, of "snd (GW_Onu_Sysinfo_Get bench_unit w1)" loop_boot] r show ?thesis by auto
qed

theorem full_name_overruns_witness:
  "\<exists>resp w1. GwOamInformationRequest bench_unit calm_env bench_ctx (bench_request (ONU_INFOR_SET # 132 # replicate 132 0x41 @ [0, 0])) bench_world loop_boot =
      Some (info_answer (bench_request (ONU_INFOR_SET # 132 # replicate 132 0x41 @ [0, 0])) resp w1 loop_boot) \<and>
    GwOamInformationRequest bench_unit calm_env bench_ctx (bench_request [ONU_INFOR_GET]) w1 loop_boot = Some None"
proof -
  let ?name = "replicate 132 0x41 :: u8 list"
  have p: "on_pPayLoad (bench_request (ONU_INFOR_SET # 132 # ?name @ [0, 0])) = Some (ONU_INFOR_SET # lv ?name @ lv [] @ lv [] @ [])"
    by (simp add: lv_def del: replicate.simps)
  have n: "132 \<le> length ?name" "length ?name < 256" "0 \<notin> set ?name" "length ([] :: u8 list) < 256" by (simp_all del: replicate.simps)
  show ?thesis by (rule full_name_overruns [OF n n(4) bench_restores _ p, where rest' = "[]"]) simp_all
qed

theorem typed_serial_witness:
  "\<exists>tree s' resp texts. onu_cli_tree bench_unit True (\<lambda>_ _ _ s. Some (CLI_OK, s)) = Some tree \<and>
    gw_cli_run_command tree (''set serial ab12'') bench_session = Some (CLI_OK, s') \<and>
    GwOamInformationRequest bench_unit calm_env bench_ctx (bench_request [ONU_INFOR_GET]) (cl_world s') loop_boot =
      Some (info_answer (bench_request [ONU_INFOR_GET]) resp ((cl_world s')\<lparr>sw_connect := 1\<rparr>) loop_boot) \<and>
    lv_texts 10 (drop 6 resp) = Some texts \<and> texts ! 8 = chars ''AB12''"
proof -
  have w: "plain_word ''ab12''" "length ''ab12'' \<le> 16" "\<forall>c\<in>set ''ab12''. of_char c \<noteq> (0 :: u8)" "last ''ab12'' \<noteq> CHR ''?''"
    by (simp_all add: plain_word_def isspace_def Let_def MAX_WORDS_LEN_def)
  have u: "map toupper_u8 ''ab12'' = ''AB12''" by code_simp
  from typed_serial [OF bench_restores bench_session_parts(1,2) w, of "bench_request [ONU_INFOR_GET]" "[]" True "\<lambda>_ _ _ s. Some (CLI_OK, s)" calm_env bench_ctx loop_boot]
  show ?thesis unfolding u by simp
qed

theorem clock_set_witness:
  "\<exists>w'. GwOamInformationRequest bench_unit calm_env bench_ctx (bench_request [ONU_REALTIME_SYNC, 7, 0xdd, 2, 28, 23, 59, 58]) bench_world loop_boot =
      Some (info_answer (bench_request [ONU_REALTIME_SYNC, 7, 0xdd, 2, 28, 23, 59, 58]) (replicate 8 0) w' loop_boot) \<and>
    sw_tim w' = \<lparr>tm_sec = 58, tm_min = 59, tm_hour = 23, tm_mday = 28, tm_mon = 2, tm_year = 2013\<rparr> \<and>
    cstr (sw_SetTime w') = Some (chars (clock_text [7, 0xdd, 2, 28, 23, 59, 58]))"
proof -
  let ?b = "[7, 0xdd, 2, 28, 23, 59, 58] :: u8 list"
  have c: "clock_ok ?b" by (simp add: clock_ok_def Let_def)
  have t: "clock_time ?b = \<lparr>tm_sec = 58, tm_min = 59, tm_hour = 23, tm_mday = 28, tm_mon = 2, tm_year = 2013\<rparr>" by (simp add: clock_time_def)
  have "length (sw_SetTime bench_world) = 20" "7 \<le> length ?b" by (simp_all add: bench_world_def)
  from clock_set [OF this, of "bench_request (ONU_REALTIME_SYNC # ?b)" bench_unit calm_env bench_ctx loop_boot] c t show ?thesis by auto
qed

theorem mac_roundtrip_witness:
  "\<exists>s'. cmd_set_onu_mac bench_unit None [mac_text [0, 0x0f, 0xe9, 0x1a, 2, 0xff]] bench_session = Some (CLI_OK, s') \<and>
    sw_mac (cl_world s') = [0, 0x0f, 0xe9, 0x1a, 2, 0xff]"
proof -
  let ?m = "[0, 0x0f, 0xe9, 0x1a, 2, 0xff] :: u8 list"
  have "length ?m = 6" by simp
  from mac_roundtrip [OF this, of bench_unit None bench_session] show ?thesis by (simp add: bench_unit_def)
qed

theorem commands_keep_texts_witness:
  "(\<exists>r s'. cmd_onu_mgt_config_product_date bench_unit None [''2013'', ''5'', ''31''] bench_session = Some (r, s') \<and> info_ok (sw_info (cl_world s'))) \<and>
   cmd_onu_mgt_config_device_name_local bench_unit None [replicate 64 (CHR ''a'')] bench_session = None"
proof -
  have i: "info_ok (sw_info (cl_world bench_session))" by (simp add: bench_world_def default_ok)
  have h: "cli_help_requested [replicate 64 (CHR ''a'')] = Some False" by (simp add: cli_help_requested_def)
  show ?thesis
    using commands_keep_texts [OF bench_restores i, of "[''2013'', ''5'', ''31'']" None]
      commands_keep_texts [OF bench_restores i, of "[replicate 64 (CHR ''a'')]" None] h by auto
qed

end
