(* ===== verification/Util_List.thy ===== *)
theory Util_List
  imports Fifo_Spec
begin

text \<open>
  The intrusive doubly linked list of \<^verbatim>\<open>system/util_list.c\<close> on an explicit memory of
  nodes, its representation predicate, and the proof that every operation implements the
  corresponding operation on HOL lists.
\<close>

section \<open>Nodes, lists and memory\<close>

text \<open>
  \<^verbatim>\<open>gw_node\<close> and \<^verbatim>\<open>gw_list\<close> of \<^verbatim>\<open>include/util_list.h\<close>. The list header stores the
  head and tail in a node of its own (\<^verbatim>\<open>gw_head\<close> is \<^verbatim>\<open>node.next\<close>, \<^verbatim>\<open>gw_tail\<close> is
  \<^verbatim>\<open>node.previous\<close>). The compare callback is a function pointer: a number, with the
  functions themselves given by the parameter \<open>fns\<close>, because \<^verbatim>\<open>gw_lst_concat\<close> compares
  the pointers.
\<close>

record gw_node =
  nd_previous :: "addr option"
  nd_next :: "addr option"

type_synonym mem = "addr \<Rightarrow> gw_node"

record gw_list =
  gw_head :: "addr option"
  gw_tail :: "addr option"
  lst_count :: u32
  lst_compare :: "nat option"

type_synonym cmp_fns = "nat \<Rightarrow> addr \<Rightarrow> u32 \<Rightarrow> int"

definition set_next :: "mem \<Rightarrow> addr \<Rightarrow> addr option \<Rightarrow> mem" where
  "set_next m a v = m(a := (m a)\<lparr>nd_next := v\<rparr>)"

definition set_previous :: "mem \<Rightarrow> addr \<Rightarrow> addr option \<Rightarrow> mem" where
  "set_previous m a v = m(a := (m a)\<lparr>nd_previous := v\<rparr>)"

section \<open>Operations\<close>

definition gw_lst_init :: "nat option \<Rightarrow> gw_list" where
  "gw_lst_init cmp = \<lparr>gw_head = None, gw_tail = None, lst_count = 0, lst_compare = cmp\<rparr>"

definition gw_lst_insert :: "mem \<Rightarrow> gw_list \<Rightarrow> addr option \<Rightarrow> addr \<Rightarrow> mem \<times> gw_list" where
  "gw_lst_insert m l pPrevious pNode =
     (let (pNext, m1, l1) =
            (case pPrevious of
               None \<Rightarrow> (gw_head l, m, l\<lparr>gw_head := Some pNode\<rparr>)
             | Some p \<Rightarrow> (nd_next (m p), set_next m p (Some pNode), l));
          (m2, l2) =
            (case pNext of
               None \<Rightarrow> (m1, l1\<lparr>gw_tail := Some pNode\<rparr>)
             | Some q \<Rightarrow> (set_previous m1 q (Some pNode), l1));
          m3 = set_next (set_previous m2 pNode pPrevious) pNode pNext
      in (m3, l2\<lparr>lst_count := lst_count l2 + 1\<rparr>))"

definition gw_lst_add :: "mem \<Rightarrow> gw_list \<Rightarrow> addr \<Rightarrow> mem \<times> gw_list" where
  "gw_lst_add m l pNode = gw_lst_insert m l (gw_tail l) pNode"

definition gw_lst_delete :: "mem \<Rightarrow> gw_list \<Rightarrow> addr \<Rightarrow> mem \<times> gw_list" where
  "gw_lst_delete m l pNode =
     (let (m1, l1) =
            (case nd_previous (m pNode) of
               None \<Rightarrow> (m, l\<lparr>gw_head := nd_next (m pNode)\<rparr>)
             | Some p \<Rightarrow> (set_next m p (nd_next (m pNode)), l));
          (m2, l2) =
            (case nd_next (m1 pNode) of
               None \<Rightarrow> (m1, l1\<lparr>gw_tail := nd_previous (m1 pNode)\<rparr>)
             | Some q \<Rightarrow> (set_previous m1 q (nd_previous (m1 pNode)), l1))
      in (m2, l2\<lparr>lst_count := lst_count l2 - 1\<rparr>))"

definition gw_lst_first :: "gw_list \<Rightarrow> addr option" where
  "gw_lst_first l = gw_head l"

definition gw_lst_last :: "gw_list \<Rightarrow> addr option" where
  "gw_lst_last l = gw_tail l"

definition gw_lst_prev :: "mem \<Rightarrow> addr \<Rightarrow> addr option" where
  "gw_lst_prev m pNode = nd_previous (m pNode)"

definition gw_lst_next :: "mem \<Rightarrow> addr \<Rightarrow> addr option" where
  "gw_lst_next m pNode = nd_next (m pNode)"

definition gw_lst_count :: "gw_list \<Rightarrow> u32" where
  "gw_lst_count l = lst_count l"

definition gw_lst_get :: "mem \<Rightarrow> gw_list \<Rightarrow> mem \<times> gw_list \<times> addr option" where
  "gw_lst_get m l =
     (case gw_head l of
        None \<Rightarrow> (m, l, None)
      | Some pNode \<Rightarrow>
          let l1 = l\<lparr>gw_head := nd_next (m pNode)\<rparr>;
              (m2, l2) =
                (case nd_next (m pNode) of
                   None \<Rightarrow> (m, l1\<lparr>gw_tail := None\<rparr>)
                 | Some q \<Rightarrow> (set_previous m q None, l1))
          in (m2, l2\<lparr>lst_count := lst_count l2 - 1\<rparr>, Some pNode))"

text \<open>
  \<^verbatim>\<open>gw_lst_scan\<close> follows the next pointers to NULL. On a cyclic chain it does not end,
  which is the value \<open>None\<close>. The result of a scan that ends is the node it stopped at.
\<close>

partial_function (option) gw_lst_scan ::
  "mem \<Rightarrow> (addr \<Rightarrow> bool) \<Rightarrow> addr option \<Rightarrow> addr option option" where
  "gw_lst_scan m stop pNode =
     (case pNode of
        None \<Rightarrow> Some None
      | Some p \<Rightarrow> if stop p then Some (Some p) else gw_lst_scan m stop (gw_lst_next m p))"

definition gw_lst_find :: "cmp_fns \<Rightarrow> mem \<Rightarrow> gw_list \<Rightarrow> u32 \<Rightarrow> addr option option" where
  "gw_lst_find fns m l key =
     (case lst_compare l of
        None \<Rightarrow> Some None
      | Some c \<Rightarrow> gw_lst_scan m (\<lambda>p. fns c p key = 0) (gw_lst_first l))"

definition gw_lst_remove ::
  "cmp_fns \<Rightarrow> mem \<Rightarrow> gw_list \<Rightarrow> u32 \<Rightarrow> (mem \<times> gw_list \<times> addr option) option" where
  "gw_lst_remove fns m l key =
     (case lst_compare l of
        None \<Rightarrow> Some (m, l, None)
      | Some c \<Rightarrow>
          (case gw_lst_scan m (\<lambda>p. fns c p key = 0) (gw_lst_first l) of
             None \<Rightarrow> None
           | Some None \<Rightarrow> Some (m, l, None)
           | Some (Some p) \<Rightarrow> (case gw_lst_delete m l p of (m', l') \<Rightarrow> Some (m', l', Some p))))"

text \<open>
  The two loops of \<^verbatim>\<open>gw_lst_nth\<close>. A step through a NULL pointer is a fault, the value
  \<open>None\<close>. The second loop is written \<^verbatim>\<open>while (++nodeNum > 0)\<close> in the source.
\<close>

partial_function (option) nth_forward :: "mem \<Rightarrow> int \<Rightarrow> addr option \<Rightarrow> addr option option" where
  "nth_forward m nodeNum pNode =
     (if nodeNum - 1 > 0
      then (case pNode of
              None \<Rightarrow> None
            | Some p \<Rightarrow> nth_forward m (nodeNum - 1) (gw_lst_next m p))
      else Some pNode)"

partial_function (option) nth_backward :: "mem \<Rightarrow> int \<Rightarrow> addr option \<Rightarrow> addr option option" where
  "nth_backward m nodeNum pNode =
     (if nodeNum + 1 > 0
      then (case pNode of
              None \<Rightarrow> None
            | Some p \<Rightarrow> nth_backward m (nodeNum + 1) (gw_lst_prev m p))
      else Some pNode)"

definition gw_lst_nth :: "mem \<Rightarrow> gw_list \<Rightarrow> int \<Rightarrow> addr option option" where
  "gw_lst_nth m l nodeNum =
     (if nodeNum < 1 \<or> nodeNum > uint (lst_count l) then Some None
      else if nodeNum < uint (drop_bit 1 (lst_count l + 1))
           then nth_forward m nodeNum (gw_head l)
           else nth_backward m (uint (lst_count l) - nodeNum) (gw_tail l))"

text \<open>
  \<^verbatim>\<open>gw_lst_concat\<close> on two list objects; the result holds the memory, the two headers and
  the returned pointer (\<open>True\<close> for \<^verbatim>\<open>pDst\<close>, \<open>False\<close> for NULL). A missing tail or head
  with a non-zero count is a NULL dereference.
\<close>

definition gw_lst_concat ::
  "mem \<Rightarrow> gw_list option \<Rightarrow> gw_list option \<Rightarrow>
   (mem \<times> gw_list option \<times> gw_list option \<times> bool) option" where
  "gw_lst_concat m pDst pSrc =
     (case (pDst, pSrc) of
        (Some d, Some s) \<Rightarrow>
          if lst_compare d \<noteq> lst_compare s then Some (m, pDst, pSrc, False)
          else if lst_count d = 0 then Some (m, Some s, Some s, True)
          else if lst_count s = 0 then Some (m, pDst, pSrc, True)
          else (case (gw_tail d, gw_head s) of
                  (Some t, Some h) \<Rightarrow>
                    Some (set_previous (set_next m t (Some h)) h (Some t),
                          Some (d\<lparr>gw_tail := gw_tail s, lst_count := lst_count d + lst_count s\<rparr>),
                          Some (gw_lst_init (lst_compare s)), True)
                | _ \<Rightarrow> None)
      | _ \<Rightarrow> Some (m, pDst, pSrc, False))"

section \<open>Representation\<close>

text \<open>
  \<open>dseg m p xs q\<close>: the nodes \<open>xs\<close> are linked in this order, the first one points back to
  \<open>p\<close> and the last one forward to \<open>q\<close>. A list header represents \<open>xs\<close> when its nodes
  form a segment between two NULLs and the header fields agree with it.
\<close>

fun dseg :: "mem \<Rightarrow> addr option \<Rightarrow> addr list \<Rightarrow> addr option \<Rightarrow> bool" where
  "dseg m p [] q \<longleftrightarrow> True"
| "dseg m p (x # xs) q \<longleftrightarrow>
     nd_previous (m x) = p \<and> nd_next (m x) = hd_or xs q \<and> dseg m (Some x) xs q"

definition lst_repr :: "mem \<Rightarrow> gw_list \<Rightarrow> addr list \<Rightarrow> bool" where
  "lst_repr m l xs \<longleftrightarrow>
     dseg m None xs None \<and> distinct xs \<and> gw_head l = hd_or xs None \<and>
     gw_tail l = last_or None xs \<and> uint (lst_count l) = int (length xs)"

lemma dseg_append [simp]:
  "dseg m p (xs @ ys) q \<longleftrightarrow> dseg m p xs (hd_or ys q) \<and> dseg m (last_or p xs) ys q"
  by (induction xs arbitrary: p) auto

lemma dseg_cong: "\<forall>x \<in> set xs. m' x = m x \<Longrightarrow> dseg m' p xs q = dseg m p xs q"
  by (induction xs arbitrary: p) auto

lemma dseg_upd [simp]: "x \<notin> set xs \<Longrightarrow> dseg (m(x := v)) p xs q = dseg m p xs q"
  by (rule dseg_cong) auto

lemma set_next_other [simp]: "a \<noteq> x \<Longrightarrow> set_next m a v x = m x"
  and set_previous_other [simp]: "a \<noteq> x \<Longrightarrow> set_previous m a v x = m x"
  and set_next_fields [simp]: "nd_next (set_next m a v a) = v"
    "nd_previous (set_next m a v b) = nd_previous (m b)"
  and set_previous_fields [simp]: "nd_previous (set_previous m a v a) = v"
    "nd_next (set_previous m a v b) = nd_next (m b)"
  by (auto simp: set_next_def set_previous_def)

lemma dseg_set_next [simp]: "x \<notin> set xs \<Longrightarrow> dseg (set_next m x v) p xs q = dseg m p xs q"
  and dseg_set_previous [simp]: "x \<notin> set xs \<Longrightarrow> dseg (set_previous m x v) p xs q = dseg m p xs q"
  by (auto simp: set_next_def set_previous_def)

lemma lst_repr_distinct: "lst_repr m l xs \<Longrightarrow> distinct xs"
  by (simp add: lst_repr_def)

lemma lst_repr_count: "lst_repr m l xs \<Longrightarrow> uint (lst_count l) = int (length xs)"
  by (simp add: lst_repr_def)

lemma lst_repr_bound: "lst_repr m l xs \<Longrightarrow> length xs < 2 ^ 32"
  using uint_lt2p [of "lst_count l"] by (simp add: lst_repr_def)

lemma lst_repr_frame [gw_frame]:
  "\<forall>x \<in> set xs. m' x = m x \<Longrightarrow> lst_repr m' l xs = lst_repr m l xs"
  using dseg_cong [of xs m' m] by (simp add: lst_repr_def)

text \<open>The header's counter follows the length as long as 32 bits hold it.\<close>

lemma uint_count_inc [simp]: "uint (c :: u32) + 1 < 4294967296 \<Longrightarrow> uint (c + 1) = uint c + 1"
  using uint_ge_0 [of c] by (simp add: uint_word_ariths)

lemma uint_count_dec [simp]: "0 < uint (c :: u32) \<Longrightarrow> uint (c - 1) = uint c - 1"
  using uint_lt2p [of c] by (simp add: uint_word_ariths)

section \<open>The operations on the represented list\<close>

lemma lst_init_repr: "lst_repr m (gw_lst_init cmp) []"
  by (simp add: lst_repr_def gw_lst_init_def)

lemma lst_insert_repr:
  assumes "lst_repr m l (ys @ zs)" "n \<notin> set (ys @ zs)" "length (ys @ zs) + 1 < 2 ^ 32"
    and "gw_lst_insert m l (last_or None ys) n = (m', l')"
  shows "lst_repr m' l' (ys @ n # zs)"
  using assms
  by (cases ys rule: rev_cases; cases zs)
    (auto simp: lst_repr_def gw_lst_insert_def Let_def)

lemma lst_insert_frame [gw_frame]:
  assumes "gw_lst_insert m l p n = (m', l')" "x \<noteq> n" "p \<noteq> Some x"
    and "case p of None \<Rightarrow> gw_head l \<noteq> Some x | Some a \<Rightarrow> nd_next (m a) \<noteq> Some x"
  shows "m' x = m x"
  using assms
  by (auto simp: gw_lst_insert_def Let_def split: option.splits)

lemma lst_delete_repr:
  assumes "lst_repr m l (ys @ n # zs)" and "gw_lst_delete m l n = (m', l')"
  shows "lst_repr m' l' (ys @ zs)"
  using assms
  by (cases ys rule: rev_cases; cases zs)
    (auto simp: lst_repr_def gw_lst_delete_def Let_def)

lemma lst_add_repr:
  assumes "lst_repr m l xs" "n \<notin> set xs" "length xs + 1 < 2 ^ 32" "gw_lst_add m l n = (m', l')"
  shows "lst_repr m' l' (xs @ [n])"
  using lst_insert_repr [of m l xs "[]" n m' l'] assms
  by (simp add: gw_lst_add_def lst_repr_def)

lemma lst_get_empty: "lst_repr m l [] \<Longrightarrow> gw_lst_get m l = (m, l, None)"
  by (simp add: lst_repr_def gw_lst_get_def)

lemma lst_get_repr:
  assumes "lst_repr m l (x # xs)" "gw_lst_get m l = (m', l', r)"
  shows "r = Some x \<and> lst_repr m' l' xs"
  using assms
  by (cases xs) (auto simp: lst_repr_def gw_lst_get_def Let_def)

lemma lst_first_repr: "lst_repr m l xs \<Longrightarrow> gw_lst_first l = hd_or xs None"
  and lst_last_repr: "lst_repr m l xs \<Longrightarrow> gw_lst_last l = last_or None xs"
  and lst_count_repr: "lst_repr m l xs \<Longrightarrow> uint (gw_lst_count l) = int (length xs)"
  by (simp_all add: lst_repr_def gw_lst_first_def gw_lst_last_def gw_lst_count_def)

lemma lst_next_repr: "lst_repr m l (ys @ n # zs) \<Longrightarrow> gw_lst_next m n = hd_or zs None"
  and lst_prev_repr: "lst_repr m l (ys @ n # zs) \<Longrightarrow> gw_lst_prev m n = last_or None ys"
  by (simp_all add: lst_repr_def gw_lst_next_def gw_lst_prev_def)

text \<open>A scan of a well-formed list ends, at the first node that satisfies the condition.\<close>

lemma scan_dseg: "dseg m p xs None \<Longrightarrow> gw_lst_scan m stop (hd_or xs None) = Some (List.find stop xs)"
proof (induction xs arbitrary: p)
  case Nil
  show ?case by (subst gw_lst_scan.simps) simp
next
  case (Cons x xs)
  then show ?case by (subst gw_lst_scan.simps) (auto simp: gw_lst_next_def)
qed

lemma scan_repr: "lst_repr m l xs \<Longrightarrow> gw_lst_scan m stop (gw_lst_first l) = Some (List.find stop xs)"
  by (auto simp: lst_repr_def gw_lst_first_def intro: scan_dseg)

lemma lst_find_repr:
  assumes "lst_repr m l xs"
  shows "gw_lst_find fns m l key =
    Some (case lst_compare l of None \<Rightarrow> None | Some c \<Rightarrow> List.find (\<lambda>p. fns c p key = 0) xs)"
  using scan_repr [OF assms] by (simp add: gw_lst_find_def split: option.split)

lemma lst_remove_repr:
  assumes "lst_repr m l (ys @ n # zs)" "lst_compare l = Some c"
    and "\<forall>y \<in> set ys. fns c y key \<noteq> 0" "fns c n key = 0"
  shows "\<exists>m' l'. gw_lst_remove fns m l key = Some (m', l', Some n) \<and> lst_repr m' l' (ys @ zs)"
proof -
  have f: "List.find (\<lambda>p. fns c p key = 0) ys = None"
    using assms(3) by (simp add: find_None_iff)
  obtain m' l' where d: "gw_lst_delete m l n = (m', l')" by fastforce
  show ?thesis
    using scan_repr [OF assms(1)] assms(2,4) d lst_delete_repr [OF assms(1) d] f
    by (simp add: gw_lst_remove_def find_append)
qed

text \<open>The two walks of \<^verbatim>\<open>gw_lst_nth\<close>.\<close>

lemma nth_forward_dseg:
  "dseg m p xs None \<Longrightarrow> 1 \<le> k \<Longrightarrow> k \<le> length xs \<Longrightarrow>
   nth_forward m (int k) (hd_or xs None) = Some (Some (xs ! (k - 1)))"
proof (induction xs arbitrary: p k)
  case (Cons x xs)
  show ?case
  proof (cases "k = 1")
    case True
    then show ?thesis by (subst nth_forward.simps) simp
  next
    case False
    with Cons.prems have k: "1 \<le> k - 1" "k - 1 \<le> length xs" by auto
    have "nth_forward m (int (k - 1)) (hd_or xs None) = Some (Some (xs ! (k - 1 - 1)))"
      using Cons.IH [OF _ k, of "Some x"] Cons.prems(1) by simp
    moreover have "int (k - 1) = int k - 1" using Cons.prems(2) by simp
    ultimately show ?thesis
      using Cons.prems k by (subst nth_forward.simps) (auto simp: gw_lst_next_def nth_Cons')
  qed
qed simp

lemma nth_backward_None: "0 \<le> k \<Longrightarrow> nth_backward m k None = None"
  by (subst nth_backward.simps) simp

lemma nth_backward_faults:
  "dseg m None xs q \<Longrightarrow> 0 \<le> k \<Longrightarrow> nth_backward m k (last_or None xs) = None"
proof (induction xs arbitrary: k q rule: rev_induct)
  case Nil
  then show ?case by (simp add: nth_backward_None)
next
  case (snoc x xs)
  then show ?case
    by (subst nth_backward.simps) (auto simp: gw_lst_prev_def)
qed

lemma drop_half: "uint (drop_bit (Suc 0) (c :: u32)) = uint c div 2"
  by (simp add: drop_bit_eq_div uint_word_ariths uint_div)

lemma lst_nth_cases:
  assumes "lst_repr m l xs" "length xs + 1 < 2 ^ 32"
  shows "gw_lst_nth m l k =
    (if k < 1 \<or> k > int (length xs) then Some None
     else if k < (int (length xs) + 1) div 2 then Some (Some (xs ! (nat k - 1)))
     else None)"
proof -
  have c: "uint (lst_count l) = int (length xs)" and d: "dseg m None xs None"
    and h: "gw_head l = hd_or xs None" "gw_tail l = last_or None xs"
    using assms(1) by (auto simp: lst_repr_def)
  have half: "uint (drop_bit 1 (lst_count l + 1)) = (int (length xs) + 1) div 2"
    using c assms(2) by (simp add: drop_half)
  have "1 \<le> k \<Longrightarrow> k \<le> int (length xs) \<Longrightarrow>
      nth_forward m k (hd_or xs None) = Some (Some (xs ! (nat k - 1)))"
    using nth_forward_dseg [OF d, of "nat k"] by (simp add: le_nat_iff nat_le_iff)
  then show ?thesis
    using c h half nth_backward_faults [OF d, of "int (length xs) - k"]
    by (auto simp: gw_lst_nth_def)
qed

text \<open>Joining two lists.\<close>

lemma lst_concat_nonempty:
  assumes "lst_repr m d xs" "lst_repr m s ys" "set xs \<inter> set ys = {}" "lst_compare d = lst_compare s"
    and "xs \<noteq> []" "length xs + length ys < 2 ^ 32"
  shows "\<exists>m' d' s'. gw_lst_concat m (Some d) (Some s) = Some (m', Some d', Some s', True) \<and>
    lst_repr m' d' (xs @ ys) \<and> (ys \<noteq> [] \<longrightarrow> lst_repr m' s' [])"
proof -
  have cd: "lst_count d \<noteq> 0" using assms(1,5) by (auto simp: lst_repr_def)
  show ?thesis
  proof (cases ys)
    case Nil
    then have "lst_count s = 0" using assms(2) by (simp add: lst_repr_def uint_0_iff)
    with cd Nil assms(1,4) show ?thesis by (simp add: gw_lst_concat_def)
  next
    case (Cons y ys')
    obtain xs' x where xs: "xs = xs' @ [x]" using assms(5) by (cases xs rule: rev_cases) auto
    have cs: "lst_count s \<noteq> 0" using assms(2) Cons by (auto simp: lst_repr_def)
    have "uint (lst_count d + lst_count s) = int (length xs + length ys)"
      using assms(1,2,6) by (simp add: lst_repr_def uint_word_ariths)
    moreover have "gw_tail d = Some x" "gw_head s = Some y"
      using assms(1,2) xs Cons by (simp_all add: lst_repr_def)
    ultimately show ?thesis
      using assms(1-4) xs Cons cd cs
      by (auto simp: gw_lst_concat_def lst_repr_def gw_lst_init_def)
  qed
qed

lemma lst_concat_empty:
  assumes "lst_repr m d []" "lst_compare d = lst_compare s"
  shows "gw_lst_concat m (Some d) (Some s) = Some (m, Some s, Some s, True)"
  using assms by (simp add: gw_lst_concat_def lst_repr_def uint_0_iff)

section \<open>The list as a queue\<close>

text \<open>The clients use \<^verbatim>\<open>gw_lst_add\<close> and \<^verbatim>\<open>gw_lst_get\<close> as a queue of nodes.\<close>

type_synonym lst_state = "mem \<times> gw_list"

definition lst_state_repr :: "lst_state \<Rightarrow> addr list \<Rightarrow> bool" where
  "lst_state_repr s xs \<longleftrightarrow> lst_repr (fst s) (snd s) xs"

definition lst_state_ok :: "addr list \<Rightarrow> addr \<Rightarrow> bool" where
  "lst_state_ok xs n \<longleftrightarrow> n \<notin> set xs \<and> length xs + 1 < 2 ^ 32"

definition lst_state_add :: "lst_state \<Rightarrow> addr \<Rightarrow> lst_state" where
  "lst_state_add s n = gw_lst_add (fst s) (snd s) n"

definition lst_state_get :: "lst_state \<Rightarrow> lst_state \<times> addr option" where
  "lst_state_get s = (case gw_lst_get (fst s) (snd s) of (m', l', r) \<Rightarrow> ((m', l'), r))"

interpretation lstq: fifo lst_state_repr lst_state_ok lst_state_add lst_state_get
proof
  show "lst_state_repr s xs \<Longrightarrow> lst_state_ok xs b \<Longrightarrow> lst_state_repr (lst_state_add s b) (xs @ [b])"
    for s xs b
    using lst_add_repr [of "fst s" "snd s" xs b]
    by (simp add: lst_state_repr_def lst_state_ok_def lst_state_add_def)
  show "lst_state_repr s [] \<Longrightarrow> lst_state_get s = (s', r) \<Longrightarrow> r = None \<and> lst_state_repr s' []"
    for s s' r
    by (auto simp: lst_state_repr_def lst_state_get_def lst_get_empty)
  show "lst_state_repr s (x # xs) \<Longrightarrow> lst_state_get s = (s', r) \<Longrightarrow>
      r = Some x \<and> lst_state_repr s' xs" for s x xs s' r
    using lst_get_repr [of "fst s" "snd s" x xs]
    by (auto simp: lst_state_repr_def lst_state_get_def split: prod.splits)
qed

section \<open>Properties\<close>

text \<open>
  C29. For every sequence of \<^verbatim>\<open>gw_lst_add\<close> and \<^verbatim>\<open>gw_lst_get\<close> calls on a well-formed list
  (each added node is not yet linked, the 32-bit counter does not overflow) the nodes returned
  are those of the first-in first-out list, \<^verbatim>\<open>NULL\<close> exactly when it is empty, and the
  pointers, head, tail and counter represent the resulting list.
\<close>

theorem lst_queue_trace:
  assumes "lst_state_repr s xs" and "fifo_allowed lst_state_ok xs ops"
  shows "lst_state_repr (fst (fifo_run lst_state_add lst_state_get s ops))
           (fst (fifo_run list_put list_take xs ops)) \<and>
         snd (fifo_run lst_state_add lst_state_get s ops) =
           snd (fifo_run list_put list_take xs ops)"
  using assms by (rule lstq.run_refines)

theorem lst_queue_trace_witness:
  "snd (fifo_run lst_state_add lst_state_get ((\<lambda>_. \<lparr>nd_previous = None, nd_next = None\<rparr>), gw_lst_init None)
     [Put 3, Put 5, Take, Put 7, Take, Take, Take]) = [Some 3, Some 5, Some 7, None]"
  using lst_queue_trace [of "((\<lambda>_. \<lparr>nd_previous = None, nd_next = None\<rparr>), gw_lst_init None)" "[]"
      "[Put 3, Put 5, Take, Put 7, Take, Take, Take]"]
  by (simp add: lst_state_repr_def lst_init_repr lst_state_ok_def list_put_def)

text \<open>
  \<^verbatim>\<open>gw_lst_remove\<close> returns the first node whose compare result is 0, cuts exactly this node
  out and leaves a well-formed list of the others in their order; when no node matches it
  returns NULL and changes nothing.
\<close>

theorem lst_remove_first_match:
  assumes "lst_repr m l xs" "lst_compare l = Some c"
  shows "case List.find (\<lambda>p. fns c p key = 0) xs of
      None \<Rightarrow> gw_lst_remove fns m l key = Some (m, l, None)
    | Some n \<Rightarrow> \<exists>m' l'. gw_lst_remove fns m l key = Some (m', l', Some n) \<and>
        lst_repr m' l' (filter (\<lambda>x. x \<noteq> n) xs)"
proof (cases "List.find (\<lambda>p. fns c p key = 0) xs")
  case None
  then show ?thesis using scan_repr [OF assms(1)] assms(2) by (simp add: gw_lst_remove_def)
next
  case (Some n)
  then obtain i where i: "i < length xs" "fns c (xs ! i) key = 0" "n = xs ! i"
      "\<forall>j<i. fns c (xs ! j) key \<noteq> 0"
    by (auto simp: find_Some_iff)
  have xs: "xs = take i xs @ n # drop (Suc i) xs" using i by (simp add: id_take_nth_drop)
  have d: "n \<notin> set (take i xs)" "n \<notin> set (drop (Suc i) xs)"
    using lst_repr_distinct [OF assms(1)] xs by (metis distinct_append disjoint_iff list.set_intros(1), metis distinct_append distinct.simps(2))
  have "filter (\<lambda>x. x \<noteq> n) xs = take i xs @ drop (Suc i) xs"
    using d by (subst xs) (simp add: filter_neq_id del: take_append)
  moreover have "\<forall>y \<in> set (take i xs). fns c y key \<noteq> 0"
    using i(4) by (auto simp: in_set_conv_nth)
  ultimately show ?thesis
    using lst_remove_repr [of m l "take i xs" n "drop (Suc i) xs" c fns key] assms xs i Some by simp
qed

theorem lst_remove_first_match_witness:
  "\<exists>m' l'. gw_lst_remove (\<lambda>c p k. if p = unat k then 0 else 1)
      ((\<lambda>_. \<lparr>nd_previous = None, nd_next = None\<rparr>)(1 := \<lparr>nd_previous = None, nd_next = Some 2\<rparr>,
         2 := \<lparr>nd_previous = Some 1, nd_next = None\<rparr>))
      \<lparr>gw_head = Some 1, gw_tail = Some 2, lst_count = 2, lst_compare = Some 9\<rparr> 2 =
      Some (m', l', Some 2) \<and> lst_repr m' l' [1]"
  using lst_remove_first_match [of "(\<lambda>_. \<lparr>nd_previous = None, nd_next = None\<rparr>)
      (1 := \<lparr>nd_previous = None, nd_next = Some 2\<rparr>, 2 := \<lparr>nd_previous = Some 1, nd_next = None\<rparr>)"
      "\<lparr>gw_head = Some 1, gw_tail = Some 2, lst_count = 2, lst_compare = Some 9\<rparr>" "[1, 2]" 9
      "\<lambda>c p k. if p = unat k then 0 else 1" 2]
  by (simp add: lst_repr_def)

text \<open>
  \<^verbatim>\<open>gw_lst_nth\<close> returns the node of a 1-based position below the middle and NULL outside
  the list; from the middle on, its backward walk has no way to stop (the loop counts up while
  it is positive) and runs off the front of the list through a NULL pointer.
\<close>

theorem lst_nth_behaviour:
  assumes "lst_repr m l xs" "length xs + 1 < 2 ^ 32"
  shows "gw_lst_nth m l k =
    (if k < 1 \<or> k > int (length xs) then Some None
     else if k < (int (length xs) + 1) div 2 then Some (Some (xs ! (nat k - 1)))
     else None)"
  using assms by (rule lst_nth_cases)

theorem lst_nth_behaviour_witness:
  "gw_lst_nth ((\<lambda>_. \<lparr>nd_previous = None, nd_next = None\<rparr>)(4 := \<lparr>nd_previous = None, nd_next = None\<rparr>))
     \<lparr>gw_head = Some 4, gw_tail = Some 4, lst_count = 1, lst_compare = None\<rparr> 1 = None"
  using lst_nth_behaviour [of "(\<lambda>_. \<lparr>nd_previous = None, nd_next = None\<rparr>)
      (4 := \<lparr>nd_previous = None, nd_next = None\<rparr>)"
      "\<lparr>gw_head = Some 4, gw_tail = Some 4, lst_count = 1, lst_compare = None\<rparr>" "[4]" 1]
  by (simp add: lst_repr_def)

end
