(* ===== verification/Oam_Pty.thy ===== *)
theory Oam_Pty
  imports Oam_Msg
begin

text \<open>
  The remote terminal of \<^verbatim>\<open>apps/oam_core.c\<close>: one session of the OLT at a time is connected to a pseudo
  terminal. Messages from the OAM channel, from a timer of one second and from the shell are put in one
  queue; the main thread takes them out and handles them. Also here: the commands that the OLT sends
  without a session, with their output buffer.
\<close>

section \<open>State\<close>

abbreviation CON_CTL_CODE_KPL :: u8 where "CON_CTL_CODE_KPL \<equiv> 1"
abbreviation CON_CTL_CODE_CONREQ :: u8 where "CON_CTL_CODE_CONREQ \<equiv> 2"
abbreviation CON_CTL_CODE_CONRES :: u8 where "CON_CTL_CODE_CONRES \<equiv> 3"
abbreviation CON_CTL_CODE_FREEREQ :: u8 where "CON_CTL_CODE_FREEREQ \<equiv> 4"
abbreviation CON_CTL_CODE_FREERES :: u8 where "CON_CTL_CODE_FREERES \<equiv> 5"
abbreviation CON_CTL_CODE_DATA :: u8 where "CON_CTL_CODE_DATA \<equiv> 6"
abbreviation PTY_CONNECT_REQ_RESP_ACCEPT :: u8 where "PTY_CONNECT_REQ_RESP_ACCEPT \<equiv> 3"
abbreviation PTY_CONNECT_REQ_RESP_REJECT :: u8 where "PTY_CONNECT_REQ_RESP_REJECT \<equiv> 2"
abbreviation PTY_SHELL_CLOSE_FLAG :: int where "PTY_SHELL_CLOSE_FLAG \<equiv> 0x5192"

record pty_ctrl =
  lConnect :: bool
  lFd :: int
  bSessionId :: "u8 list"
  lTimeOut :: int
  lSendKpl :: int
  lSerNo :: u32

text \<open>
  A message of the queue is four words, of which the third says what the others are. The two buffers that
  a packet message points to belong to it from the time it is queued until it is handled, so they are
  part of it: the session, the serial number, and the payload with its length.
\<close>

datatype pty_msg =
    PTY_PACKET "u32 \<times> u8 list" "u8 list" int
  | PTY_NOTI_MSG int int
  | PTY_TIMER_MSG
  | PTY_ONU_LOSE

text \<open>
  \<open>pt_queue\<close>: the priority queue, of which only level 0 is used. \<open>pt_frames\<close>: the frames sent on
  the OAM channel. \<open>pt_tty\<close>: the descriptors and bytes written by \<^verbatim>\<open>pty_write\<close>.
\<close>

record pty_sys =
  gmCliPtyCtrl :: pty_ctrl
  g_pty_master :: int
  g_oam_pty_cli_thread_id :: u32
  pty_oam_2_telnet :: bool
  pt_queue :: "pty_msg list"
  pt_os :: osal
  pt_frames :: "(oam_frame \<times> nat) list"
  pt_tty :: "(int \<times> u8) list"

text \<open>\<open>pe_malloc\<close>: the allocations succeed, also that of a node of the queue; the rest is for \<^verbatim>\<open>gw_thread_create\<close>.\<close>

record pty_env =
  pe_malloc :: bool
  pe_stack :: "addr option"
  pe_tid :: u32
  pe_self :: u32

definition g_oam_pty_queue_deepth :: nat where "g_oam_pty_queue_deepth = 100"

definition pty_put :: "pty_env \<Rightarrow> pty_msg \<Rightarrow> pty_sys \<Rightarrow> bool \<times> pty_sys" where
  "pty_put env msg s =
     (if length (pt_queue s) < g_oam_pty_queue_deepth \<and> pe_malloc env then (True, s\<lparr>pt_queue := pt_queue s @ [msg]\<rparr>) else (False, s))"

text \<open>\<^verbatim>\<open>CommOnuMsgSend(CLI_PTY_TRANSMIT, gmCliPtyCtrl.lSerNo++, ...)\<close>\<close>

definition pty_send :: "u8 list \<Rightarrow> u8 list \<Rightarrow> pty_sys \<Rightarrow> pty_sys" where
  "pty_send data sid s =
     s\<lparr>pt_frames := pt_frames s @ snd (CommOnuMsgSend CLI_PTY_TRANSMIT (lSerNo (gmCliPtyCtrl s)) data (Some sid)),
       gmCliPtyCtrl := (gmCliPtyCtrl s)\<lparr>lSerNo := lSerNo (gmCliPtyCtrl s) + 1\<rparr>\<rparr>"

definition pty_writes :: "u8 list \<Rightarrow> pty_sys \<Rightarrow> pty_sys" where
  "pty_writes bs s = s\<lparr>pt_tty := pt_tty s @ map (Pair (lFd (gmCliPtyCtrl s))) bs\<rparr>"

section \<open>Into the queue\<close>

definition gwd_oam_pty_trans :: "pty_env \<Rightarrow> oam_node \<Rightarrow> pty_sys \<Rightarrow> (int \<times> pty_sys) option" where
  "gwd_oam_pty_trans env msg s =
     (if \<not> pe_malloc env then Some (GW_ERROR, s)
      else case on_pPayLoad msg of
        None \<Rightarrow> if on_RevPktLen msg = 0 then
                  (case pty_put env (PTY_PACKET (on_SendSerNo msg, take 8 (on_SessionID msg)) (replicate 8 0) 0) s of
                     (ok, s) \<Rightarrow> Some (if ok then GW_OK else GW_ERROR, s))
                else None
      | Some p \<Rightarrow>
          if length p < unat (on_RevPktLen msg) then None
          else (case pty_put env (PTY_PACKET (on_SendSerNo msg, take 8 (on_SessionID msg))
                                   (take (unat (on_RevPktLen msg)) p @ replicate 8 0) (int (unat (on_RevPktLen msg)))) s of
                  (ok, s) \<Rightarrow> Some (if ok then GW_OK else GW_ERROR, s)))"

definition OamPtyShellCloseNoti :: "pty_env \<Rightarrow> int \<Rightarrow> pty_sys \<Rightarrow> pty_sys" where
  "OamPtyShellCloseNoti env fd s = snd (pty_put env (PTY_NOTI_MSG PTY_SHELL_CLOSE_FLAG fd) s)"

definition OamPtyShellTimerNoti :: "pty_env \<Rightarrow> pty_sys \<Rightarrow> pty_sys" where
  "OamPtyShellTimerNoti env s = snd (pty_put env PTY_TIMER_MSG s)"

section \<open>Out of the queue\<close>

definition OamPtyTimerMsgProcess :: "pty_env \<Rightarrow> pty_sys \<Rightarrow> pty_sys" where
  "OamPtyTimerMsgProcess env s =
     (if lConnect (gmCliPtyCtrl s)
      then let s = s\<lparr>gmCliPtyCtrl := (gmCliPtyCtrl s)\<lparr>lTimeOut := lTimeOut (gmCliPtyCtrl s) + 1\<rparr>\<rparr>
           in if lTimeOut (gmCliPtyCtrl s) \<ge> 30 then OamPtyShellCloseNoti env (g_pty_master s) s else s
      else s)"

text \<open>The session is told twice that it is over, forgotten, and the shell's thread is deleted.\<close>

definition OamPtyNotiMsgProcess :: "int \<Rightarrow> int \<Rightarrow> pty_sys \<Rightarrow> pty_sys" where
  "OamPtyNotiMsgProcess flag fd s =
     (if lConnect (gmCliPtyCtrl s) \<and> flag = PTY_SHELL_CLOSE_FLAG \<and> fd = lFd (gmCliPtyCtrl s)
      then let s = pty_send [CON_CTL_CODE_FREEREQ] (bSessionId (gmCliPtyCtrl s)) s;
               s = pty_send [CON_CTL_CODE_FREEREQ] (bSessionId (gmCliPtyCtrl s)) s
           in s\<lparr>gmCliPtyCtrl := (gmCliPtyCtrl s)\<lparr>lConnect := False, lSendKpl := 0, lTimeOut := 0, lFd := 0, bSessionId := replicate 8 0\<rparr>,
                pt_os := snd (gw_thread_delete (pt_os s) (g_oam_pty_cli_thread_id s)),
                g_oam_pty_cli_thread_id := of_nat GW_OSAL_MAX_THREAD\<rparr>
      else s)"

definition start_oamPtyCliThread :: "pty_env \<Rightarrow> pty_sys \<Rightarrow> pty_sys" where
  "start_oamPtyCliThread env s =
     (if g_oam_pty_cli_thread_id s = of_nat GW_OSAL_MAX_THREAD
      then case gw_thread_create (pt_os s) True (Some ''ptycli'') True (16 * 1024) 110 (pe_stack env) (pe_tid env) (pe_self env) of
             (_, i, os) \<Rightarrow> s\<lparr>pt_os := os, g_oam_pty_cli_thread_id := (case i of None \<Rightarrow> g_oam_pty_cli_thread_id s | Some i \<Rightarrow> i)\<rparr>
      else s)"

definition cl_pty_fd_get :: "pty_sys \<Rightarrow> int" where "cl_pty_fd_get s = g_pty_master s"

definition OamPtyConnectReqPro :: "pty_env \<Rightarrow> u8 list \<Rightarrow> pty_sys \<Rightarrow> pty_sys" where
  "OamPtyConnectReqPro env sid s =
     (if lConnect (gmCliPtyCtrl s)
      then pty_send [CON_CTL_CODE_CONRES, if bSessionId (gmCliPtyCtrl s) = sid then PTY_CONNECT_REQ_RESP_ACCEPT else PTY_CONNECT_REQ_RESP_REJECT] sid s
      else if cl_pty_fd_get s > 0
      then pty_send [CON_CTL_CODE_CONRES, PTY_CONNECT_REQ_RESP_ACCEPT] sid
             (start_oamPtyCliThread env
               (s\<lparr>gmCliPtyCtrl := \<lparr>lConnect = True, lFd = cl_pty_fd_get s, bSessionId = sid, lTimeOut = 0, lSendKpl = 0, lSerNo = 0\<rparr>\<rparr>))
      else pty_send [CON_CTL_CODE_CONRES, PTY_CONNECT_REQ_RESP_REJECT] sid
             (s\<lparr>gmCliPtyCtrl := \<lparr>lConnect = False, lFd = cl_pty_fd_get s, bSessionId = replicate 8 0, lTimeOut = 0, lSendKpl = 0, lSerNo = 0\<rparr>\<rparr>))"

text \<open>The session stays connected until the shell has gone; \<open>quit\<close> is typed on its behalf.\<close>

definition OamPtyConFreeReqPro :: "u8 list \<Rightarrow> pty_sys \<Rightarrow> pty_sys" where
  "OamPtyConFreeReqPro sid s =
     (if lConnect (gmCliPtyCtrl s) \<and> bSessionId (gmCliPtyCtrl s) = sid
      then pty_writes [113, 117, 105, 116, 13] (pty_send [CON_CTL_CODE_FREERES, PTY_CONNECT_REQ_RESP_ACCEPT] sid s)
      else s)"

text \<open>\<^verbatim>\<open>strstr(p, "\r\n")\<close>, which needs the string to end.\<close>

fun has_crlf :: "u8 list \<Rightarrow> bool" where
  "has_crlf (a # b # bs) \<longleftrightarrow> a = 13 \<and> b = 10 \<or> has_crlf (b # bs)"
| "has_crlf _ \<longleftrightarrow> False"

text \<open>The typed text: a line end is written as one byte, wherever in the text it is, by leaving out the last byte.\<close>

definition pty_data :: "u8 list \<Rightarrow> int \<Rightarrow> pty_sys \<Rightarrow> pty_sys option" where
  "pty_data payload lPayLen s =
     (let p = drop 1 payload in
      if 0 \<notin> set p then None
      else let n = lPayLen - (if has_crlf (takeWhile (\<lambda>b. b \<noteq> 0) p) then 1 else 0) - 1;
               b = (if \<not> pty_oam_2_telnet s then (if hd p = 0x0a then 0x0d else hd p) else if hd p = 0x0d then 0x0a else hd p);
               p = b # tl p;
               s = s\<lparr>gmCliPtyCtrl := (gmCliPtyCtrl s)\<lparr>lTimeOut := 0\<rparr>\<rparr>
           in if n > 0 \<and> lFd (gmCliPtyCtrl s) \<ge> 0 \<and> b \<noteq> 0xff
              then if nat n > length p then None else Some (pty_writes (take (nat n) p) s)
              else Some s)"

definition OamPtyPacketProcess :: "pty_env \<Rightarrow> u8 list \<Rightarrow> u8 list \<Rightarrow> int \<Rightarrow> pty_sys \<Rightarrow> pty_sys option" where
  "OamPtyPacketProcess env sid payload lPayLen s =
     (if payload = [] then None
      else let lCtlCode = hd payload; own = (lConnect (gmCliPtyCtrl s) \<and> bSessionId (gmCliPtyCtrl s) = sid) in
        if lCtlCode = CON_CTL_CODE_KPL
        then Some (if own then s\<lparr>gmCliPtyCtrl := (gmCliPtyCtrl s)\<lparr>lTimeOut := 0\<rparr>\<rparr> else s)
        else if lCtlCode = CON_CTL_CODE_CONREQ then Some (OamPtyConnectReqPro env sid s)
        else if lCtlCode = CON_CTL_CODE_FREEREQ then Some (OamPtyConFreeReqPro sid s)
        else if lCtlCode = CON_CTL_CODE_DATA then (if own then pty_data payload lPayLen s else Some s)
        else Some s)"

text \<open>One message, and one round of the main thread. \<open>None\<close>: the thread waits, or a buffer is overrun.\<close>

fun pty_handle :: "pty_env \<Rightarrow> pty_msg \<Rightarrow> pty_sys \<Rightarrow> pty_sys option" where
  "pty_handle env (PTY_PACKET (ser, sid) payload len) s = OamPtyPacketProcess env sid payload len s"
| "pty_handle env (PTY_NOTI_MSG flag fd) s = Some (OamPtyNotiMsgProcess flag fd s)"
| "pty_handle env PTY_TIMER_MSG s = Some (OamPtyTimerMsgProcess env s)"
| "pty_handle env PTY_ONU_LOSE s = Some s"

definition gw_oam_pty_main_round :: "pty_env \<Rightarrow> pty_sys \<Rightarrow> pty_sys option" where
  "gw_oam_pty_main_round env s =
     (case pt_queue s of [] \<Rightarrow> None | m # ms \<Rightarrow> pty_handle env m (s\<lparr>pt_queue := ms\<rparr>))"

text \<open>One round of the thread that reads what the shell prints: \<open>out\<close> is the result of \<^verbatim>\<open>pty_read\<close>.\<close>

definition gw_oam_pty_sub_round :: "u8 list option \<Rightarrow> pty_sys \<Rightarrow> pty_sys" where
  "gw_oam_pty_sub_round out s =
     (case out of None \<Rightarrow> s
      | Some bs \<Rightarrow> if bs = [] then s else pty_send (6 # take 4094 bs) (bSessionId (gmCliPtyCtrl s)) s)"

text \<open>
  \<^verbatim>\<open>init_oam_pty\<close>: \<open>pid\<close>, \<open>master\<close> and \<open>slave\<close> are the results of creating and opening the terminal, the
  flags those of creating the queue and the main thread. The results are the terminal's number and
  whether the main thread runs; the timer is added in every case.
\<close>

definition init_oam_pty :: "int \<Rightarrow> int \<Rightarrow> int \<Rightarrow> bool \<Rightarrow> bool \<Rightarrow> pty_sys \<Rightarrow> (int \<times> bool \<times> bool) \<times> pty_sys" where
  "init_oam_pty pid master slave queue thread s =
     (if pid \<noteq> -1
      then let s = s\<lparr>g_pty_master := master\<rparr> in
        if master \<noteq> -1 \<and> slave \<noteq> -1
        then if \<not> queue \<or> \<not> thread then ((pid, False, False), s) else ((pid, True, True), s\<lparr>pt_queue := []\<rparr>)
        else ((0, False, True), s)
      else ((pid, False, True), s))"

section \<open>Commands without a session\<close>

definition OAM_CLI_OUT_BUF_LENGTH :: nat where "OAM_CLI_OUT_BUF_LENGTH = 2048"

record cli_out =
  g_oam_cli_out_buf :: "u8 list"
  g_oam_cli_out_len :: u32

text \<open>\<open>p\<close> is the string without its end; \<open>sprintf\<close> adds a line end and the zero byte. \<open>None\<close>: beyond the buffer.\<close>

definition gwd_oam_cli_printf :: "u8 list \<Rightarrow> int \<Rightarrow> cli_out \<Rightarrow> (u32 \<times> cli_out) option" where
  "gwd_oam_cli_printf p len ob =
     (if len \<noteq> 0 \<and> of_int len + g_oam_cli_out_len ob < of_nat OAM_CLI_OUT_BUF_LENGTH
      then let n = unat (g_oam_cli_out_len ob) in
        if n + length p + 3 > OAM_CLI_OUT_BUF_LENGTH then None
        else let l = g_oam_cli_out_len ob + of_nat (length p + 2)
             in Some (l, ob\<lparr>g_oam_cli_out_buf := take n (g_oam_cli_out_buf ob) @ p @ [13, 10, 0] @ drop (n + length p + 3) (g_oam_cli_out_buf ob), g_oam_cli_out_len := l\<rparr>)
      else Some (g_oam_cli_out_len ob, ob))"

definition gwd_oam_cli_trans_send_out :: "(u8 list \<Rightarrow> 'w \<Rightarrow> int \<times> 'w) \<Rightarrow> cli_out \<Rightarrow> 'w \<Rightarrow> int \<times> cli_out \<times> 'w" where
  "gwd_oam_cli_trans_send_out portsend ob w =
     (let ob = (if g_oam_cli_out_len ob > of_nat OAM_CLI_OUT_BUF_LENGTH then ob\<lparr>g_oam_cli_out_len := of_nat OAM_CLI_OUT_BUF_LENGTH\<rparr> else ob)
      in case portsend (take (unat (g_oam_cli_out_len ob)) (g_oam_cli_out_buf ob)) w of (r, w) \<Rightarrow> (r, ob, w))"

text \<open>
  What the thread of the asynchronous commands does with a message: \<open>run\<close> is the command line, which prints with
  \<^verbatim>\<open>gwd_oam_cli_printf\<close>. The results are the frames of the answer, whether the node is freed, and the
  buffer. A response is sent out on the PON port; its node is not freed.
\<close>

definition gw_oam_async_message ::
  "(u8 list \<Rightarrow> cli_out \<Rightarrow> cli_out option) \<Rightarrow> (u8 list \<Rightarrow> 'w \<Rightarrow> int \<times> 'w) \<Rightarrow> oam_node \<Rightarrow> cli_out \<Rightarrow> 'w \<Rightarrow>
   (((oam_frame \<times> nat) list \<times> bool) \<times> cli_out \<times> 'w) option" where
  "gw_oam_async_message run portsend msg ob w =
     (if on_GwOpcode msg = CLI_REQ_TRANSMIT
      then Option.bind (on_pPayLoad msg) (\<lambda>cmd. Option.bind (run cmd ob) (\<lambda>ob.
        let fs = snd (CommOnuMsgSend CLI_RESP_TRANSMIT (on_SendSerNo msg) (take (unat (ucast (g_oam_cli_out_len ob) :: u16)) (g_oam_cli_out_buf ob)) (Some (on_SessionID msg)))
        in Some ((fs, True), ob\<lparr>g_oam_cli_out_len := 0\<rparr>, w)))
      else if on_GwOpcode msg = CLI_RESP_TRANSMIT
      then (case gwd_oam_cli_trans_send_out portsend ob w of (_, ob, w) \<Rightarrow> Some (([], False), ob, w))
      else Some (([], False), ob, w))"

section \<open>Handling a list of messages\<close>

fun pty_handles :: "pty_env \<Rightarrow> pty_msg list \<Rightarrow> pty_sys \<Rightarrow> pty_sys option" where
  "pty_handles env [] s = Some s"
| "pty_handles env (m # ms) s = Option.bind (pty_handle env m s) (pty_handles env ms)"

text \<open>A packet of a session other than \<open>sid\<close>, with a control code; and one that asks to be connected.\<close>

fun foreign :: "u8 list \<Rightarrow> pty_msg \<Rightarrow> bool" where
  "foreign sid (PTY_PACKET (ser, y) payload len) \<longleftrightarrow> y \<noteq> sid \<and> payload \<noteq> []"
| "foreign sid m \<longleftrightarrow> False"

fun asks :: "pty_msg \<Rightarrow> u8 list option" where
  "asks (PTY_PACKET (ser, y) payload len) = (if hd payload = CON_CTL_CODE_CONREQ then Some y else None)"
| "asks m = None"

text \<open>The refusals sent, numbered from \<open>n\<close>.\<close>

fun refusals :: "u32 \<Rightarrow> u8 list list \<Rightarrow> (oam_frame \<times> nat) list" where
  "refusals n [] = []"
| "refusals n (y # ys) = snd (CommOnuMsgSend CLI_PTY_TRANSMIT n [CON_CTL_CODE_CONRES, PTY_CONNECT_REQ_RESP_REJECT] (Some y)) @ refusals (n + 1) ys"

definition refused :: "pty_msg list \<Rightarrow> u8 list list" where "refused ms = List.map_filter asks ms"

lemma refused_simps [simp]:
  "refused [] = []" "refused (m # ms) = (case asks m of None \<Rightarrow> refused ms | Some y \<Rightarrow> y # refused ms)"
  by (simp_all add: refused_def List.map_filter_simps split: option.split)

lemma foreign_handle:
  assumes "foreign (bSessionId (gmCliPtyCtrl s)) m" "lConnect (gmCliPtyCtrl s)"
  shows "pty_handle env m s = Some (case asks m of None \<Rightarrow> s | Some y \<Rightarrow> pty_send [CON_CTL_CODE_CONRES, PTY_CONNECT_REQ_RESP_REJECT] y s)"
  using assms by (cases m)
    (auto simp: OamPtyPacketProcess_def OamPtyConnectReqPro_def OamPtyConFreeReqPro_def Let_def)

text \<open>What a run of messages leaves when the owner is not heard: the refusals, and the seconds counted.\<close>

definition waited :: "pty_msg list \<Rightarrow> pty_sys \<Rightarrow> pty_sys" where
  "waited ms s =
     s\<lparr>pt_frames := pt_frames s @ refusals (lSerNo (gmCliPtyCtrl s)) (refused ms),
       gmCliPtyCtrl := (gmCliPtyCtrl s)\<lparr>lSerNo := lSerNo (gmCliPtyCtrl s) + of_nat (length (refused ms)),
         lTimeOut := lTimeOut (gmCliPtyCtrl s) + int (count_list ms PTY_TIMER_MSG)\<rparr>\<rparr>"

lemma waiting:
  assumes "list_all (\<lambda>m. m = PTY_TIMER_MSG \<or> foreign (bSessionId (gmCliPtyCtrl s)) m) ms" "lConnect (gmCliPtyCtrl s)"
    "PTY_TIMER_MSG \<in> set ms \<longrightarrow> lTimeOut (gmCliPtyCtrl s) + int (count_list ms PTY_TIMER_MSG) < 30"
  shows "pty_handles env ms s = Some (waited ms s)"
  using assms
proof (induction ms arbitrary: s)
  case Nil
  then show ?case by (simp add: waited_def)
next
  case (Cons m ms)
  show ?case
  proof (cases "m = PTY_TIMER_MSG")
    case True
    let ?s = "s\<lparr>gmCliPtyCtrl := (gmCliPtyCtrl s)\<lparr>lTimeOut := lTimeOut (gmCliPtyCtrl s) + 1\<rparr>\<rparr>"
    have "pty_handle env m s = Some ?s" using True Cons.prems by (simp add: OamPtyTimerMsgProcess_def Let_def)
    then show ?thesis using Cons.IH [of ?s] Cons.prems True by (simp add: waited_def algebra_simps)
  next
    case False
    then have f: "foreign (bSessionId (gmCliPtyCtrl s)) m" using Cons.prems by simp
    show ?thesis
    proof (cases "asks m")
      case None
      then show ?thesis using foreign_handle [OF f Cons.prems(2)] Cons False by (simp add: waited_def)
    next
      case (Some y)
      let ?s = "pty_send [CON_CTL_CODE_CONRES, PTY_CONNECT_REQ_RESP_REJECT] y s"
      have "pty_handles env ms ?s = Some (waited ms ?s)"
        using Cons.prems False by (intro Cons.IH) (simp_all add: pty_send_def)
      then show ?thesis using foreign_handle [OF f Cons.prems(2)] Some False
        by (simp add: waited_def pty_send_def algebra_simps)
    qed
  qed
qed

lemma pty_handles_append: "pty_handles env (xs @ ys) s = Option.bind (pty_handles env xs s) (pty_handles env ys)"
  by (induction xs arbitrary: s) (auto split: Option.bind_split)

section \<open>Properties\<close>

text \<open>
  C21. The terminal belongs to the session that was accepted. While it is connected, any number of packets of
  other sessions change neither the session, nor its time-out, nor the shell's thread, nor the queue, and write
  nothing to the terminal; each request to connect among them is refused, in order, and nothing
  else is sent.
\<close>

theorem session_exclusive:
  assumes "lConnect (gmCliPtyCtrl s)" "list_all (foreign (bSessionId (gmCliPtyCtrl s))) ms"
  shows "pty_handles env ms s =
    Some (s\<lparr>pt_frames := pt_frames s @ refusals (lSerNo (gmCliPtyCtrl s)) (refused ms),
      gmCliPtyCtrl := (gmCliPtyCtrl s)\<lparr>lSerNo := lSerNo (gmCliPtyCtrl s) + of_nat (length (refused ms))\<rparr>\<rparr>)"
proof -
  have "PTY_TIMER_MSG \<notin> set ms" "count_list ms PTY_TIMER_MSG = 0" using assms(2) by (induction ms) auto
  moreover have "list_all (\<lambda>m. m = PTY_TIMER_MSG \<or> foreign (bSessionId (gmCliPtyCtrl s)) m) ms" using assms(2) by (auto simp: list_all_iff)
  ultimately show ?thesis using waiting [of s ms env] assms(1) by (simp add: waited_def)
qed

text \<open>A terminal on descriptor 5, connected to the session \<open>sid\<close>, with the two messages of two seconds waiting.\<close>

definition pty_start :: "u8 list \<Rightarrow> int \<Rightarrow> pty_msg list \<Rightarrow> pty_sys" where
  "pty_start sid ticks q =
     \<lparr>gmCliPtyCtrl = \<lparr>lConnect = True, lFd = 5, bSessionId = sid, lTimeOut = ticks, lSendKpl = 0, lSerNo = 1\<rparr>, g_pty_master = 5,
      g_oam_pty_cli_thread_id = of_nat GW_OSAL_MAX_THREAD, pty_oam_2_telnet = False, pt_queue = q, pt_os = gw_osal_core_init, pt_frames = [], pt_tty = []\<rparr>"

definition pty_env_ok :: pty_env where
  "pty_env_ok = \<lparr>pe_malloc = True, pe_stack = Some 0, pe_tid = 0, pe_self = 0\<rparr>"

theorem session_exclusive_witness:
  "\<exists>s'. pty_handles pty_env_ok [PTY_PACKET (9, [2, 2, 2, 2, 2, 2, 2, 2]) [CON_CTL_CODE_CONREQ, 0] 1,
        PTY_PACKET (9, [2, 2, 2, 2, 2, 2, 2, 2]) [CON_CTL_CODE_DATA, 65, 0] 2] (pty_start [1, 1, 1, 1, 1, 1, 1, 1] 0 []) = Some s' \<and>
     pt_tty s' = [] \<and> bSessionId (gmCliPtyCtrl s') = [1, 1, 1, 1, 1, 1, 1, 1] \<and> lSerNo (gmCliPtyCtrl s') = 2"
  by (subst session_exclusive) (simp_all add: pty_start_def)

text \<open>
  C22. A silent session ends. When the main thread has handled 30 messages of the timer since it last heard the owner, among any
  packets of other sessions, it has queued exactly one notice, and none after 29. Handling the notice tells the
  owner, forgets the session and frees the shell's thread; from then on a request of any session is
  accepted.
\<close>

theorem silent_session_closed:
  assumes c: "lConnect (gmCliPtyCtrl s)" "lFd (gmCliPtyCtrl s) = g_pty_master s" "0 < g_pty_master s" "lTimeOut (gmCliPtyCtrl s) = 0"
    and ms: "list_all (\<lambda>m. m = PTY_TIMER_MSG \<or> foreign (bSessionId (gmCliPtyCtrl s)) m) ms" "count_list ms PTY_TIMER_MSG = 29"
    and q: "length (pt_queue s) < g_oam_pty_queue_deepth" "pe_malloc env"
  shows "\<exists>s0 s1 s2. pty_handles env ms s = Some s0 \<and> lConnect (gmCliPtyCtrl s0) \<and> pt_queue s0 = pt_queue s \<and>
    pty_handles env (ms @ [PTY_TIMER_MSG]) s = Some s1 \<and> lConnect (gmCliPtyCtrl s1) \<and>
    pt_queue s1 = pt_queue s @ [PTY_NOTI_MSG PTY_SHELL_CLOSE_FLAG (g_pty_master s)] \<and>
    pty_handle env (PTY_NOTI_MSG PTY_SHELL_CLOSE_FLAG (g_pty_master s)) s1 = Some s2 \<and>
    pt_frames s2 = pt_frames s1 @
      snd (CommOnuMsgSend CLI_PTY_TRANSMIT (lSerNo (gmCliPtyCtrl s1)) [CON_CTL_CODE_FREEREQ] (Some (bSessionId (gmCliPtyCtrl s)))) @
      snd (CommOnuMsgSend CLI_PTY_TRANSMIT (lSerNo (gmCliPtyCtrl s1) + 1) [CON_CTL_CODE_FREEREQ] (Some (bSessionId (gmCliPtyCtrl s)))) \<and>
    \<not> lConnect (gmCliPtyCtrl s2) \<and> bSessionId (gmCliPtyCtrl s2) = replicate 8 0 \<and> g_oam_pty_cli_thread_id s2 = of_nat GW_OSAL_MAX_THREAD \<and>
    (\<forall>y ser payload len. hd payload = CON_CTL_CODE_CONREQ \<and> payload \<noteq> [] \<longrightarrow>
      (\<exists>s3. pty_handle env (PTY_PACKET (ser, y) payload len) s2 = Some s3 \<and> lConnect (gmCliPtyCtrl s3) \<and> bSessionId (gmCliPtyCtrl s3) = y))"
proof -
  let ?s0 = "waited ms s"
  let ?s1 = "OamPtyTimerMsgProcess env ?s0"
  let ?s2 = "OamPtyNotiMsgProcess PTY_SHELL_CLOSE_FLAG (g_pty_master s) ?s1"
  have 0: "pty_handles env ms s = Some ?s0" by (rule waiting) (use assms in simp_all)
  have f0: "lConnect (gmCliPtyCtrl ?s0)" "pt_queue ?s0 = pt_queue s" "g_pty_master ?s0 = g_pty_master s" "lFd (gmCliPtyCtrl ?s0) = g_pty_master s"
    "lTimeOut (gmCliPtyCtrl ?s0) = 29" "bSessionId (gmCliPtyCtrl ?s0) = bSessionId (gmCliPtyCtrl s)" using assms by (simp_all add: waited_def)
  have f1: "lConnect (gmCliPtyCtrl ?s1)" "pt_queue ?s1 = pt_queue s @ [PTY_NOTI_MSG PTY_SHELL_CLOSE_FLAG (g_pty_master s)]"
    "g_pty_master ?s1 = g_pty_master s" "lFd (gmCliPtyCtrl ?s1) = g_pty_master s" "bSessionId (gmCliPtyCtrl ?s1) = bSessionId (gmCliPtyCtrl s)"
    using f0 q by (simp_all add: OamPtyTimerMsgProcess_def OamPtyShellCloseNoti_def pty_put_def Let_def)
  have f2: "\<not> lConnect (gmCliPtyCtrl ?s2)" "bSessionId (gmCliPtyCtrl ?s2) = replicate 8 0" "g_oam_pty_cli_thread_id ?s2 = of_nat GW_OSAL_MAX_THREAD"
    "g_pty_master ?s2 = g_pty_master s"
    "pt_frames ?s2 = pt_frames ?s1 @ snd (CommOnuMsgSend CLI_PTY_TRANSMIT (lSerNo (gmCliPtyCtrl ?s1)) [CON_CTL_CODE_FREEREQ] (Some (bSessionId (gmCliPtyCtrl s)))) @
      snd (CommOnuMsgSend CLI_PTY_TRANSMIT (lSerNo (gmCliPtyCtrl ?s1) + 1) [CON_CTL_CODE_FREEREQ] (Some (bSessionId (gmCliPtyCtrl s))))"
    using f1 by (simp_all add: OamPtyNotiMsgProcess_def pty_send_def Let_def)
  have "pty_handle env (PTY_PACKET (ser, y) payload len) ?s2 = Some (OamPtyConnectReqPro env y ?s2)"
    if "hd payload = CON_CTL_CODE_CONREQ" "payload \<noteq> []" for ser y payload len
    using that by (simp add: OamPtyPacketProcess_def Let_def)
  moreover have "lConnect (gmCliPtyCtrl (OamPtyConnectReqPro env y ?s2)) \<and> bSessionId (gmCliPtyCtrl (OamPtyConnectReqPro env y ?s2)) = y" for y
    using f2 c(3) by (simp add: OamPtyConnectReqPro_def cl_pty_fd_get_def pty_send_def start_oamPtyCliThread_def split: prod.split)
  ultimately show ?thesis using 0 f0 f1 f2 by (simp add: pty_handles_append)
qed

theorem silent_session_closed_witness:
  "\<exists>s1 s2. pty_handles pty_env_ok (replicate 29 PTY_TIMER_MSG @ [PTY_TIMER_MSG]) (pty_start [1, 1, 1, 1, 1, 1, 1, 1] 0 []) = Some s1 \<and>
     pt_queue s1 = [PTY_NOTI_MSG PTY_SHELL_CLOSE_FLAG 5] \<and>
     pty_handle pty_env_ok (PTY_NOTI_MSG PTY_SHELL_CLOSE_FLAG 5) s1 = Some s2 \<and> \<not> lConnect (gmCliPtyCtrl s2)"
proof -
  let ?s = "pty_start [1, 1, 1, 1, 1, 1, 1, 1] 0 []"
  have "list_all (\<lambda>m. m = PTY_TIMER_MSG \<or> P m) (replicate n PTY_TIMER_MSG)" "count_list (replicate n PTY_TIMER_MSG) PTY_TIMER_MSG = n" for P n
    by (induction n) auto
  from silent_session_closed [where s = ?s and env = pty_env_ok, OF _ _ _ _ this] show ?thesis
    by (fastforce simp: pty_start_def pty_env_ok_def g_oam_pty_queue_deepth_def)
qed

text \<open>
  A notice can close a session that it was not meant for. When two seconds wait in the queue and the first is the 30th, a
  second notice is queued before the first is handled; a request of another session that arrives in between is
  accepted once the first notice is handled, and the second notice ends the new session at once.
\<close>

theorem stale_notice_closes_next:
  assumes "lConnect (gmCliPtyCtrl s)" "lFd (gmCliPtyCtrl s) = g_pty_master s" "0 < g_pty_master s" "lTimeOut (gmCliPtyCtrl s) = 29"
    "pt_queue s = [PTY_TIMER_MSG, PTY_TIMER_MSG]" "pe_malloc env"
    "on_pPayLoad n = Some (CON_CTL_CODE_CONREQ # data)" "unat (on_RevPktLen n) = Suc (length data)"
  shows "\<exists>s1 s2 s3 s4 s5 s6. gw_oam_pty_main_round env s = Some s1 \<and> gwd_oam_pty_trans env n s1 = Some (GW_OK, s2) \<and>
    gw_oam_pty_main_round env s2 = Some s3 \<and> gw_oam_pty_main_round env s3 = Some s4 \<and> \<not> lConnect (gmCliPtyCtrl s4) \<and>
    gw_oam_pty_main_round env s4 = Some s5 \<and> lConnect (gmCliPtyCtrl s5) \<and> bSessionId (gmCliPtyCtrl s5) = take 8 (on_SessionID n) \<and>
    gw_oam_pty_main_round env s5 = Some s6 \<and> \<not> lConnect (gmCliPtyCtrl s6) \<and> pt_queue s6 = []"
proof -
  let ?n = "PTY_NOTI_MSG PTY_SHELL_CLOSE_FLAG (g_pty_master s)" and ?p = "PTY_PACKET (on_SendSerNo n, take 8 (on_SessionID n)) (CON_CTL_CODE_CONREQ # data @ replicate 8 0) (int (Suc (length data)))"
  let ?t = "\<lambda>k s. s\<lparr>gmCliPtyCtrl := (gmCliPtyCtrl s)\<lparr>lTimeOut := k\<rparr>\<rparr>"
  define s1 where "s1 = (?t 30 s)\<lparr>pt_queue := [PTY_TIMER_MSG, ?n]\<rparr>"
  define s2 where "s2 = s1\<lparr>pt_queue := [PTY_TIMER_MSG, ?n, ?p]\<rparr>"
  define s3 where "s3 = (?t 31 s2)\<lparr>pt_queue := [?n, ?p, ?n]\<rparr>"
  define s4 where "s4 = OamPtyNotiMsgProcess PTY_SHELL_CLOSE_FLAG (g_pty_master s) (s3\<lparr>pt_queue := [?p, ?n]\<rparr>)"
  define s5 where "s5 = OamPtyConnectReqPro env (take 8 (on_SessionID n)) (s4\<lparr>pt_queue := [?n]\<rparr>)"
  define s6 where "s6 = OamPtyNotiMsgProcess PTY_SHELL_CLOSE_FLAG (g_pty_master s) (s5\<lparr>pt_queue := []\<rparr>)"
  note d = gw_oam_pty_main_round_def OamPtyTimerMsgProcess_def OamPtyShellCloseNoti_def pty_put_def g_oam_pty_queue_deepth_def Let_def
  have 1: "gw_oam_pty_main_round env s = Some s1" using assms by (simp add: d s1_def)
  have 2: "gwd_oam_pty_trans env n s1 = Some (GW_OK, s2)" using assms by (simp add: gwd_oam_pty_trans_def d s1_def s2_def)
  have f2: "lConnect (gmCliPtyCtrl s2)" "lTimeOut (gmCliPtyCtrl s2) = 30" "g_pty_master s2 = g_pty_master s" "lFd (gmCliPtyCtrl s2) = g_pty_master s"
    "pt_queue s2 = [PTY_TIMER_MSG, ?n, ?p]" using assms by (simp_all add: s2_def s1_def)
  have 3: "gw_oam_pty_main_round env s2 = Some s3" using assms f2 by (simp add: d s3_def)
  have f3: "lConnect (gmCliPtyCtrl s3)" "g_pty_master s3 = g_pty_master s" "lFd (gmCliPtyCtrl s3) = g_pty_master s"
    "pt_queue s3 = [?n, ?p, ?n]" using f2 by (simp_all add: s3_def)
  have 4: "gw_oam_pty_main_round env s3 = Some s4" using f3 by (simp add: d s4_def)
  have f4: "\<not> lConnect (gmCliPtyCtrl s4)" "g_pty_master s4 = g_pty_master s" "pt_queue s4 = [?p, ?n]"
    using f3 by (simp_all add: s4_def OamPtyNotiMsgProcess_def pty_send_def Let_def)
  have 5: "gw_oam_pty_main_round env s4 = Some s5" using f4 by (simp add: d s5_def OamPtyPacketProcess_def)
  have f5: "lConnect (gmCliPtyCtrl s5)" "lFd (gmCliPtyCtrl s5) = g_pty_master s" "pt_queue s5 = [?n]" "bSessionId (gmCliPtyCtrl s5) = take 8 (on_SessionID n)"
    using f4 assms(3) by (simp_all add: s5_def OamPtyConnectReqPro_def cl_pty_fd_get_def pty_send_def start_oamPtyCliThread_def split: prod.split)
  have 6: "gw_oam_pty_main_round env s5 = Some s6" using f5 by (simp add: d s6_def)
  have "\<not> lConnect (gmCliPtyCtrl s6)" "pt_queue s6 = []" using f5 by (simp_all add: s6_def OamPtyNotiMsgProcess_def pty_send_def Let_def)
  with 1 2 3 4 5 6 f4 f5 show ?thesis by blast
qed

theorem stale_notice_closes_next_witness:
  "\<exists>s1 s2. gw_oam_pty_main_round pty_env_ok (pty_start [1, 1, 1, 1, 1, 1, 1, 1] 29 [PTY_TIMER_MSG, PTY_TIMER_MSG]) = Some s1 \<and>
     gwd_oam_pty_trans pty_env_ok \<lparr>on_GwOpcode = CLI_PTY_TRANSMIT, on_SendSerNo = 7, on_WholePktLen = 2, on_RevPktLen = 2,
       on_SessionID = [2, 2, 2, 2, 2, 2, 2, 2], on_TimerID = None, on_pPayLoad = Some [CON_CTL_CODE_CONREQ, 0]\<rparr> s1 = Some (GW_OK, s2)"
  using stale_notice_closes_next [of "pty_start [1, 1, 1, 1, 1, 1, 1, 1] 29 [PTY_TIMER_MSG, PTY_TIMER_MSG]" pty_env_ok
    "\<lparr>on_GwOpcode = CLI_PTY_TRANSMIT, on_SendSerNo = 7, on_WholePktLen = 2, on_RevPktLen = 2,
       on_SessionID = [2, 2, 2, 2, 2, 2, 2, 2], on_TimerID = None, on_pPayLoad = Some [CON_CTL_CODE_CONREQ, 0]\<rparr>" "[0]"]
  by (auto simp: pty_start_def pty_env_ok_def)

lemma has_crlf_length: "has_crlf bs \<Longrightarrow> 2 \<le> length bs"
  by (induction bs rule: has_crlf.induct) auto

text \<open>
  What the owner types reaches the terminal. A data message of the owner, through the queue, writes its text with a leading
  line feed turned into a carriage return; a text that has a CR LF anywhere loses its last byte, wherever the
  pair is. The time-out starts again, and nothing is sent.
\<close>

theorem typed_text_written:
  assumes "lConnect (gmCliPtyCtrl s)" "bSessionId (gmCliPtyCtrl s) = take 8 (on_SessionID n)" "0 \<le> lFd (gmCliPtyCtrl s)" "\<not> pty_oam_2_telnet s"
    "pt_queue s = []" "pe_malloc env"
    "on_pPayLoad n = Some (CON_CTL_CODE_DATA # typed)" "unat (on_RevPktLen n) = Suc (length typed)" "0 \<notin> set typed" "typed \<noteq> []" "hd typed \<noteq> 0xff"
  shows "\<exists>s1. gwd_oam_pty_trans env n s = Some (GW_OK, s1) \<and>
    gw_oam_pty_main_round env s1 = Some (s\<lparr>gmCliPtyCtrl := (gmCliPtyCtrl s)\<lparr>lTimeOut := 0\<rparr>,
      pt_tty := pt_tty s @ map (Pair (lFd (gmCliPtyCtrl s)))
        ((if hd typed = 0x0a then 0x0d else hd typed) # tl (if has_crlf typed then butlast typed else typed))\<rparr>)"
proof -
  let ?m = "PTY_PACKET (on_SendSerNo n, take 8 (on_SessionID n)) (CON_CTL_CODE_DATA # typed @ replicate 8 0) (int (Suc (length typed)))"
  let ?line = "if has_crlf typed then butlast typed else typed"
  have t: "takeWhile (\<lambda>b. b \<noteq> 0) (typed @ replicate 8 0) = typed"
    using assms(9) by (simp add: takeWhile_append)
  have l: "take (length typed - (if has_crlf typed then 1 else 0)) (b # tl typed @ replicate 8 0) = b # tl ?line" for b
    using assms(10) has_crlf_length [of typed] by (cases typed) (auto simp: butlast_conv_take take_Cons' split: nat.split)
  have n: "0 < length typed - (if has_crlf typed then 1 else 0)" using assms(10) has_crlf_length [of typed] by (cases typed) auto
  have "gwd_oam_pty_trans env n s = Some (GW_OK, s\<lparr>pt_queue := [?m]\<rparr>)"
    using assms by (simp add: gwd_oam_pty_trans_def pty_put_def g_oam_pty_queue_deepth_def)
  moreover have "gw_oam_pty_main_round env (s\<lparr>pt_queue := [?m]\<rparr>) = pty_data (CON_CTL_CODE_DATA # typed @ replicate 8 0) (int (Suc (length typed))) (s\<lparr>pt_queue := []\<rparr>)"
    using assms by (simp add: gw_oam_pty_main_round_def OamPtyPacketProcess_def Let_def)
  moreover have "pty_data (CON_CTL_CODE_DATA # typed @ replicate 8 0) (int (Suc (length typed))) (s\<lparr>pt_queue := []\<rparr>) =
      Some (s\<lparr>gmCliPtyCtrl := (gmCliPtyCtrl s)\<lparr>lTimeOut := 0\<rparr>,
        pt_tty := pt_tty s @ map (Pair (lFd (gmCliPtyCtrl s))) ((if hd typed = 0x0a then 0x0d else hd typed) # tl ?line)\<rparr>)"
  proof -
    define c where "c = (if has_crlf typed then 1 else 0 :: int)"
    obtain b bs where tb: "typed = b # bs" using assms(10) by (cases typed) auto
    have c: "nat (int (length typed) - c) = length typed - (if has_crlf typed then 1 else 0)" "0 < int (length typed) - c"
      using n by (auto simp: c_def)
    have m: "nat (int (length typed) - c) \<le> length (x # tl typed @ replicate 8 0)" for x by (auto simp: c_def)
    have e: "int (Suc (length typed)) - (if has_crlf typed then 1 else 0) - 1 = int (length typed) - c" by (simp add: c_def)
    have z: "drop 1 (CON_CTL_CODE_DATA # typed @ replicate 8 0) = typed @ replicate 8 0" "hd (typed @ replicate 8 0) = hd typed"
      "tl (typed @ replicate 8 0) = tl typed @ replicate 8 0" "0 \<in> set (typed @ replicate 8 (0 :: u8))" "s\<lparr>pt_queue := []\<rparr> = s"
      using assms(5) by (simp_all add: tb)
    have nf: "(if hd typed = 0x0a then 0x0d else hd typed) \<noteq> 0xff" using assms(11) by auto
    show ?thesis
      unfolding pty_data_def z Let_def t e using z(4) assms(3,4) c(2) nf l m [of "if hd typed = 0x0a then 0x0d else hd typed", unfolded not_less [symmetric]]
      by (simp only: if_True if_False not_True_eq_False not_False_eq_True simp_thms c(1) pty_sys.simps pty_ctrl.simps pty_writes_def not_not) (simp split del: if_split)
  qed
  ultimately show ?thesis by simp
qed

theorem typed_text_written_witness:
  "\<exists>s1 s2. gwd_oam_pty_trans pty_env_ok \<lparr>on_GwOpcode = CLI_PTY_TRANSMIT, on_SendSerNo = 7, on_WholePktLen = 4, on_RevPktLen = 4,
       on_SessionID = [1, 1, 1, 1, 1, 1, 1, 1], on_TimerID = None, on_pPayLoad = Some [CON_CTL_CODE_DATA, 65, 13, 10]\<rparr> (pty_start [1, 1, 1, 1, 1, 1, 1, 1] 20 []) = Some (GW_OK, s1) \<and>
     gw_oam_pty_main_round pty_env_ok s1 = Some s2 \<and> pt_tty s2 = [(5, 65), (5, 13)]"
  using typed_text_written [of "pty_start [1, 1, 1, 1, 1, 1, 1, 1] 20 []" "\<lparr>on_GwOpcode = CLI_PTY_TRANSMIT, on_SendSerNo = 7, on_WholePktLen = 4, on_RevPktLen = 4,
       on_SessionID = [1, 1, 1, 1, 1, 1, 1, 1], on_TimerID = None, on_pPayLoad = Some [CON_CTL_CODE_DATA, 65, 13, 10]\<rparr>" pty_env_ok "[65, 13, 10]"]
  by (auto simp: pty_start_def pty_env_ok_def)

text \<open>
  The output buffer of the commands overflows at its edge. With the length given as the string's own, a string is appended with its line
  end when at least three bytes more than it are left, and dropped when not even the string fits; with one or two
  bytes more than the string left, the bytes that \<^verbatim>\<open>sprintf\<close> adds go beyond the buffer.
\<close>

theorem cli_printf_bounds:
  assumes "length (g_oam_cli_out_buf b) = OAM_CLI_OUT_BUF_LENGTH" "g_oam_cli_out_len b = of_nat n" "n < OAM_CLI_OUT_BUF_LENGTH"
    "p \<noteq> []" "length p < 2 ^ 31"
  shows "gwd_oam_cli_printf p (int (length p)) b =
    (if n + length p + 3 \<le> OAM_CLI_OUT_BUF_LENGTH
     then Some (of_nat (n + length p + 2), b\<lparr>g_oam_cli_out_buf := take n (g_oam_cli_out_buf b) @ p @ [13, 10, 0] @ drop (n + length p + 3) (g_oam_cli_out_buf b),
       g_oam_cli_out_len := of_nat (n + length p + 2)\<rparr>)
     else if n + length p < OAM_CLI_OUT_BUF_LENGTH then None
     else Some (of_nat n, b))"
proof -
  have n: "unat (of_nat n :: u32) = n" using assms(3) by (simp add: unat_of_nat take_bit_nat_eq_self OAM_CLI_OUT_BUF_LENGTH_def)
  have "unat (of_nat (length p + n) :: u32) = length p + n"
    using assms(3,5) by (subst unat_of_nat, simp add: OAM_CLI_OUT_BUF_LENGTH_def)
  moreover have "unat (of_nat OAM_CLI_OUT_BUF_LENGTH :: u32) = OAM_CLI_OUT_BUF_LENGTH" by (simp add: OAM_CLI_OUT_BUF_LENGTH_def)
  ultimately have c: "(of_int (int (length p)) + of_nat n < (of_nat OAM_CLI_OUT_BUF_LENGTH :: u32)) \<longleftrightarrow> n + length p < OAM_CLI_OUT_BUF_LENGTH"
    unfolding word_less_nat_alt by (simp add: add.commute flip: of_nat_add)
  show ?thesis unfolding gwd_oam_cli_printf_def assms(2) c n Let_def using assms(4) by (auto simp: OAM_CLI_OUT_BUF_LENGTH_def ac_simps)
qed

theorem cli_printf_bounds_witness:
  "gwd_oam_cli_printf [65] 1 \<lparr>g_oam_cli_out_buf = replicate 2048 0, g_oam_cli_out_len = of_nat 2045\<rparr> = None"
  using cli_printf_bounds [of "\<lparr>g_oam_cli_out_buf = replicate 2048 0, g_oam_cli_out_len = of_nat 2045\<rparr>" 2045 "[65]"]
  by (simp add: OAM_CLI_OUT_BUF_LENGTH_def)

end
