(* ===== verification/Gw_Log.thy ===== *)
theory Gw_Log
  imports Prelude
begin

text \<open>
  The log of \<^verbatim>\<open>apps/gw_log.c\<close>: a ring of 1024 entries of 128 bytes, of which the first byte says whether the entry is
  valid. A message is printed or recorded by its level.
\<close>

section \<open>State and operations\<close>

definition GW_MAX_EVENT_LOG_NUM :: nat where "GW_MAX_EVENT_LOG_NUM = 1024"
definition GW_EVENT_LOG_LENGTH :: nat where "GW_EVENT_LOG_LENGTH = 128"

record log_entry =
  le_valid :: bool
  le_text :: "u8 list"

record gw_log =
  log_level :: int
  log_record_level :: int
  log_current_slot :: nat
  g_eventmsgqueue :: "log_entry list"

definition log_entry_zero :: log_entry where
  "log_entry_zero = \<lparr>le_valid = False, le_text = replicate (GW_EVENT_LOG_LENGTH - 1) 0\<rparr>"

definition gw_log_init :: gw_log where
  "gw_log_init = \<lparr>log_level = 2, log_record_level = 3, log_current_slot = 0, g_eventmsgqueue = replicate GW_MAX_EVENT_LOG_NUM log_entry_zero\<rparr>"

definition setGwLogLevel :: "int \<Rightarrow> gw_log \<Rightarrow> int \<times> gw_log" where
  "setGwLogLevel lv s = (lv, s\<lparr>log_level := lv\<rparr>)"

definition getGwlogLevel :: "gw_log \<Rightarrow> int" where "getGwlogLevel s = log_level s"

definition setGwLogRecordLevel :: "int \<Rightarrow> gw_log \<Rightarrow> int \<times> gw_log" where
  "setGwLogRecordLevel lv s =
     (let s = (if lv \<ge> 0 \<and> lv \<le> 4 then s\<lparr>log_record_level := lv\<rparr> else s) in (log_record_level s, s))"

definition getGwLogRecordLevel :: "gw_log \<Rightarrow> int" where "getGwLogRecordLevel s = log_record_level s"

text \<open>The text of an entry: the first 126 bytes of the record, and zeros. \<open>None\<close>: the record has fewer than \<open>len\<close> bytes.\<close>

definition log_text :: "u8 list \<Rightarrow> u8 list" where
  "log_text rec = (let t = take (GW_EVENT_LOG_LENGTH - 2) rec in t @ replicate (GW_EVENT_LOG_LENGTH - 1 - length t) 0)"

definition log_next_slot :: "nat \<Rightarrow> nat" where
  "log_next_slot i = (if i = GW_MAX_EVENT_LOG_NUM - 1 then 0 else i + 1)"

definition gw_log_add_record :: "u8 list option \<Rightarrow> int \<Rightarrow> gw_log \<Rightarrow> (nat \<times> gw_log) option" where
  "gw_log_add_record rec len s =
     (case rec of
        Some r \<Rightarrow>
          if len > 0
          then if nat (min len 126) > length r then None
               else let i = (if log_current_slot s < GW_MAX_EVENT_LOG_NUM - 1 then log_current_slot s + 1 else 0);
                        s = s\<lparr>g_eventmsgqueue := (g_eventmsgqueue s)[i := \<lparr>le_valid = True, le_text = log_text (take (nat len) r)\<rparr>],
                              log_current_slot := log_next_slot (log_current_slot s)\<rparr>
                    in Some (log_current_slot s, s)
          else Some (log_current_slot s, s)
      | None \<Rightarrow> Some (log_current_slot s, s))"

definition gw_log_get_record :: "int \<Rightarrow> gw_log \<Rightarrow> u8 list option" where
  "gw_log_get_record slot s =
     (if \<not> (slot < 0 \<or> slot \<ge> int GW_MAX_EVENT_LOG_NUM) \<and> le_valid (g_eventmsgqueue s ! nat slot)
      then Some (le_text (g_eventmsgqueue s ! nat slot)) else None)"

text \<open>The search for the next valid entry goes round the ring until it finds one.\<close>

partial_function (option) log_next_loop :: "log_entry list \<Rightarrow> nat \<Rightarrow> (u8 list \<times> nat) option" where
  "log_next_loop q i = (if le_valid (q ! i) then Some (le_text (q ! i), i) else log_next_loop q (log_next_slot i))"

definition gw_log_getnext_record :: "int \<Rightarrow> gw_log \<Rightarrow> (u8 list \<times> nat) option" where
  "gw_log_getnext_record slot s =
     log_next_loop (g_eventmsgqueue s)
       (if \<not> (slot < 0 \<or> slot \<ge> int GW_MAX_EVENT_LOG_NUM) then log_next_slot (nat slot) else log_current_slot s)"

definition gw_log_get_current_msg_slot :: "gw_log \<Rightarrow> nat" where "gw_log_get_current_msg_slot s = log_current_slot s"

text \<open>\<open>msg\<close> is the formatted message; its buffer has 256 bytes. The result is whether it is printed, and the length.\<close>

definition gw_syslog :: "int \<Rightarrow> u8 list \<Rightarrow> gw_log \<Rightarrow> ((bool \<times> nat) \<times> gw_log) option" where
  "gw_syslog level msg s =
     (if length msg \<ge> 256 then None
      else Option.bind (if level \<ge> log_record_level s then gw_log_add_record (Some msg) (int (length msg)) s else Some (log_current_slot s, s))
        (\<lambda>(_, s'). Some ((level \<ge> log_level s, length msg), s')))"

section \<open>The ring as a list\<close>

text \<open>Record number \<open>t\<close>, counted from 1, is in slot \<open>t mod 1024\<close> while it is among the last 1024.\<close>

definition log_holds :: "gw_log \<Rightarrow> u8 list list \<Rightarrow> bool" where
  "log_holds s rs \<longleftrightarrow> length (g_eventmsgqueue s) = 1024 \<and> log_current_slot s = length rs mod 1024 \<and>
     (\<forall>t. 1 \<le> t \<longrightarrow> t \<le> length rs \<longrightarrow> length rs < t + 1024 \<longrightarrow> g_eventmsgqueue s ! (t mod 1024) = \<lparr>le_valid = True, le_text = log_text (rs ! (t - 1))\<rparr>) \<and>
     (length rs < 1024 \<longrightarrow> (\<forall>i<1024. i = 0 \<or> length rs < i \<longrightarrow> \<not> le_valid (g_eventmsgqueue s ! i)))"

fun log_adds :: "u8 list list \<Rightarrow> gw_log \<Rightarrow> gw_log option" where
  "log_adds [] s = Some s"
| "log_adds (r # rs) s = Option.bind (gw_log_add_record (Some r) (int (length r)) s) (\<lambda>(_, s). log_adds rs s)"

lemma log_next_slot_mod: "i < 1024 \<Longrightarrow> log_next_slot i = Suc i mod 1024"
  by (auto simp: log_next_slot_def GW_MAX_EVENT_LOG_NUM_def)

lemma log_holds_init: "log_holds gw_log_init []"
  by (simp add: log_holds_def gw_log_init_def log_entry_zero_def GW_MAX_EVENT_LOG_NUM_def)

lemma mod_apart: "t < u \<Longrightarrow> u < t + 1024 \<Longrightarrow> t mod 1024 \<noteq> u mod (1024 :: nat)"
proof
  assume l: "t < u" "u < t + 1024" and "t mod 1024 = u mod 1024"
  then have "1024 dvd u - t" by (metis mod_eq_dvd_iff_nat less_imp_le_nat)
  then show False using l by (auto dest: dvd_imp_le)
qed

lemma log_add:
  assumes "log_holds s rs" "r \<noteq> []"
  shows "\<exists>s'. gw_log_add_record (Some r) (int (length r)) s = Some (log_current_slot s', s') \<and> log_holds s' (rs @ [r])"
proof -
  let ?u = "Suc (length rs)"
  define s' where "s' = s\<lparr>g_eventmsgqueue := (g_eventmsgqueue s)[?u mod 1024 := \<lparr>le_valid = True, le_text = log_text r\<rparr>], log_current_slot := ?u mod 1024\<rparr>"
  have c: "log_current_slot s = length rs mod 1024" "log_current_slot s < 1024" "length (g_eventmsgqueue s) = 1024"
    using assms(1) by (auto simp: log_holds_def)
  have n: "(if log_current_slot s < 1023 then log_current_slot s + 1 else 0) = ?u mod 1024" "log_next_slot (log_current_slot s) = ?u mod 1024"
    using c log_next_slot_mod [OF c(2)] by (auto simp: mod_Suc)
  have "gw_log_add_record (Some r) (int (length r)) s = Some (log_current_slot s', s')"
    using assms(2) n by (simp add: gw_log_add_record_def s'_def GW_MAX_EVENT_LOG_NUM_def Let_def)
  moreover have "log_holds s' (rs @ [r])"
    unfolding log_holds_def
  proof (intro conjI allI impI)
    show "length (g_eventmsgqueue s') = 1024" "log_current_slot s' = length (rs @ [r]) mod 1024" using c by (simp_all add: s'_def)
  next
    fix t assume t: "1 \<le> t" "t \<le> length (rs @ [r])" "length (rs @ [r]) < t + 1024"
    show "g_eventmsgqueue s' ! (t mod 1024) = \<lparr>le_valid = True, le_text = log_text ((rs @ [r]) ! (t - 1))\<rparr>"
    proof (cases "t = ?u")
      case True
      then show ?thesis using c by (simp add: s'_def)
    next
      case False
      then have u: "t mod 1024 \<noteq> ?u mod 1024" using t by (intro mod_apart) auto
      have "g_eventmsgqueue s ! (t mod 1024) = \<lparr>le_valid = True, le_text = log_text (rs ! (t - 1))\<rparr>"
        using assms(1) t False by (auto simp: log_holds_def)
      moreover have "t - 1 < length rs" using t False by auto
      ultimately show ?thesis using u by (simp add: s'_def nth_append)
    qed
  next
    fix i assume i: "length (rs @ [r]) < 1024" "i < 1024" "i = 0 \<or> length (rs @ [r]) < i"
    then have "\<not> le_valid (g_eventmsgqueue s ! i)" using assms(1) by (auto simp: log_holds_def)
    then show "\<not> le_valid (g_eventmsgqueue s' ! i)" using i by (auto simp: s'_def)
  qed
  ultimately show ?thesis by blast
qed

lemma log_adds_hold:
  assumes "log_holds s rs" "[] \<notin> set ms"
  shows "\<exists>s'. log_adds ms s = Some s' \<and> log_holds s' (rs @ ms)"
  using assms
proof (induction ms arbitrary: s rs)
  case (Cons m ms)
  from log_add [OF Cons.prems(1), of m] Cons.prems(2) obtain s1 where
    s1: "gw_log_add_record (Some m) (int (length m)) s = Some (log_current_slot s1, s1)" "log_holds s1 (rs @ [m])" by auto
  from Cons.IH [OF s1(2)] Cons.prems(2) s1(1) show ?case by auto
qed simp

lemma log_next_found:
  assumes "i < 1024" "\<forall>e<d. \<not> le_valid (q ! ((i + e) mod 1024))" "le_valid (q ! ((i + d) mod 1024))"
  shows "log_next_loop q i = Some (le_text (q ! ((i + d) mod 1024)), (i + d) mod 1024)"
  using assms
proof (induction d arbitrary: i)
  case 0
  then show ?case by (simp add: log_next_loop.simps [of q i])
next
  case (Suc d)
  from Suc.prems(2) have "\<not> le_valid (q ! ((i + 0) mod 1024))" by blast
  then have "log_next_loop q i = log_next_loop q (Suc i mod 1024)"
    using Suc.prems(1) by (simp add: log_next_loop.simps [of q i] log_next_slot_mod)
  moreover have e: "(Suc i mod 1024 + k) mod 1024 = (i + Suc k) mod 1024" for k by (simp add: mod_simps)
  have "log_next_loop q (Suc i mod 1024) = Some (le_text (q ! ((Suc i mod 1024 + d) mod 1024)), (Suc i mod 1024 + d) mod 1024)"
  proof (rule Suc.IH)
    show "\<forall>k<d. \<not> le_valid (q ! ((Suc i mod 1024 + k) mod 1024))" unfolding e using Suc.prems(2) by blast
    show "le_valid (q ! ((Suc i mod 1024 + d) mod 1024))" unfolding e by (rule Suc.prems(3))
  qed simp
  ultimately show ?case unfolding e by simp
qed

text \<open>Reading from a slot: each call continues at the slot that the last one stored.\<close>

fun log_reads :: "nat \<Rightarrow> nat \<Rightarrow> gw_log \<Rightarrow> (u8 list list \<times> nat) option" where
  "log_reads 0 i s = Some ([], i)"
| "log_reads (Suc n) i s = Option.bind (gw_log_getnext_record (int i) s) (\<lambda>(r, j). map_option (\<lambda>(rs, k). (r # rs, k)) (log_reads n j s))"

lemma getnext_record:
  assumes "log_holds s rs" "1 \<le> t" "t \<le> length rs" "length rs < t + 1024"
    "i = (t - 1) mod 1024 \<or> i = length rs mod 1024 \<and> length rs < 1024 \<and> t = 1"
  shows "gw_log_getnext_record (int i) s = Some (log_text (rs ! (t - 1)), t mod 1024)"
proof -
  have v: "g_eventmsgqueue s ! (t mod 1024) = \<lparr>le_valid = True, le_text = log_text (rs ! (t - 1))\<rparr>" using assms(1-4) by (simp add: log_holds_def)
  have i: "i < 1024" using assms(5) by auto
  have g: "gw_log_getnext_record (int i) s = log_next_loop (g_eventmsgqueue s) (Suc i mod 1024)"
    using i by (simp add: gw_log_getnext_record_def log_next_slot_mod GW_MAX_EVENT_LOG_NUM_def)
  consider "i = (t - 1) mod 1024" | "i = length rs" "length rs < 1024" "t = 1" using assms(5) by auto
  then show ?thesis
  proof cases
    case 1
    then have "Suc i mod 1024 = t mod 1024" using assms(2) by (metis Suc_pred' mod_Suc_eq less_eq_Suc_le One_nat_def)
    then show ?thesis using v unfolding g by (simp add: log_next_loop.simps [of _ "t mod 1024"])
  next
    case 2
    have empty: "\<forall>i<1024. i = 0 \<or> length rs < i \<longrightarrow> \<not> le_valid (g_eventmsgqueue s ! i)" using assms(1) 2(2) by (simp add: log_holds_def)
    have e: "(Suc i mod 1024 + k) mod 1024 = (length rs + Suc k) mod 1024" for k using 2 by (simp add: mod_simps)
    have "log_next_loop (g_eventmsgqueue s) (Suc i mod 1024) =
        Some (le_text (g_eventmsgqueue s ! ((Suc i mod 1024 + (1024 - length rs)) mod 1024)), (Suc i mod 1024 + (1024 - length rs)) mod 1024)"
    proof (rule log_next_found)
      show "\<forall>k<1024 - length rs. \<not> le_valid (g_eventmsgqueue s ! ((Suc i mod 1024 + k) mod 1024))"
      proof (intro allI impI)
        fix k assume "k < 1024 - length rs"
        then have "(length rs + Suc k) mod 1024 = 0 \<or> length rs < (length rs + Suc k) mod 1024"
          by (cases "length rs + Suc k = 1024") auto
        then show "\<not> le_valid (g_eventmsgqueue s ! ((Suc i mod 1024 + k) mod 1024))"
          unfolding e using empty [rule_format, of "(length rs + Suc k) mod 1024"] by simp
      qed
      show "le_valid (g_eventmsgqueue s ! ((Suc i mod 1024 + (1024 - length rs)) mod 1024))"
        unfolding e using v 2 by simp
    qed simp
    then show ?thesis unfolding g e using v 2 by simp
  qed
qed

lemma reads_from:
  assumes "log_holds s rs" "1 \<le> t" "t + n = Suc (length rs)" "length rs < t + 1024" "i = (t - 1) mod 1024 \<or> i = length rs mod 1024 \<and> length rs < 1024 \<and> t = 1"
    "0 < n"
  shows "log_reads n i s = Some (map log_text (drop (t - 1) rs), length rs mod 1024)"
  using assms
proof (induction n arbitrary: t i)
  case (Suc n)
  have g: "gw_log_getnext_record (int i) s = Some (log_text (rs ! (t - 1)), t mod 1024)"
    using getnext_record [OF Suc.prems(1,2) _ Suc.prems(4,5)] Suc.prems(3) by simp
  have d: "drop (t - 1) rs = rs ! (t - 1) # drop t rs" using Suc.prems(2,3) by (cases t) (auto simp: Cons_nth_drop_Suc)
  show ?case
  proof (cases n)
    case 0
    then show ?thesis using g d Suc.prems(3) by simp
  next
    case (Suc m)
    from Suc.IH [of "Suc t" "t mod 1024"] Suc.prems g d Suc show ?thesis by simp
  qed
qed simp

section \<open>Properties\<close>

text \<open>
  C23. The log keeps the last records in their order. After any number of records were added to the empty log, reading on from
  the current slot, as many times as there are entries, returns the texts of the last 1024 records (or all of them), oldest
  first, each cut to 126 bytes, and comes back to the current slot.
\<close>

theorem log_keeps_last:
  assumes "rs \<noteq> []" "[] \<notin> set rs"
  shows "\<exists>s. log_adds rs gw_log_init = Some s \<and>
    log_reads (min (length rs) GW_MAX_EVENT_LOG_NUM) (gw_log_get_current_msg_slot s) s =
      Some (map log_text (drop (length rs - GW_MAX_EVENT_LOG_NUM) rs), gw_log_get_current_msg_slot s)"
proof -
  from log_adds_hold [OF log_holds_init assms(2)] obtain s where s: "log_adds rs gw_log_init = Some s" "log_holds s rs" by auto
  have c: "gw_log_get_current_msg_slot s = length rs mod 1024" using s(2) by (simp add: gw_log_get_current_msg_slot_def log_holds_def)
  define t where "t = Suc (length rs - 1024)"
  have "length rs mod 1024 = (t - 1) mod 1024 \<or> length rs mod 1024 = length rs mod 1024 \<and> length rs < 1024 \<and> t = 1"
    by (cases "length rs < 1024") (auto simp: t_def le_mod_geq)
  from reads_from [OF s(2) _ _ _ this, of "min (length rs) 1024"] assms(1) s(1) show ?thesis
    by (auto simp: c t_def GW_MAX_EVENT_LOG_NUM_def)
qed

theorem log_keeps_last_witness:
  "\<exists>s. log_adds [[72, 105], [33]] gw_log_init = Some s \<and>
     log_reads 2 (gw_log_get_current_msg_slot s) s = Some ([log_text [72, 105], log_text [33]], gw_log_get_current_msg_slot s)"
  using log_keeps_last [of "[[72, 105], [33]]"] by (simp add: GW_MAX_EVENT_LOG_NUM_def numeral_2_eq_2 del: log_reads.simps log_adds.simps)

text \<open>
  Reading an empty log does not return: the search for the next valid entry goes round for ever, from every slot.
\<close>

theorem empty_log_hangs: "gw_log_getnext_record slot gw_log_init = None"
proof -
  have "q' = g_eventmsgqueue gw_log_init \<longrightarrow> i < 1024 \<longrightarrow> False" if "log_next_loop q' i = Some p" for q' i p
  proof (rule log_next_loop.raw_induct [OF _ that], intro impI)
    fix lp q' i p
    assume IH: "\<And>q' i p. lp q' i = Some p \<Longrightarrow> q' = g_eventmsgqueue gw_log_init \<longrightarrow> i < 1024 \<longrightarrow> False"
      and st: "(if le_valid (q' ! i) then Some (le_text (q' ! i), i) else lp q' (log_next_slot i)) = Some p"
      and h: "q' = g_eventmsgqueue gw_log_init" "i < 1024"
    have "\<not> le_valid (q' ! i)" "log_next_slot i < 1024"
      using h by (simp_all add: gw_log_init_def log_entry_zero_def GW_MAX_EVENT_LOG_NUM_def log_next_slot_mod)
    with st h(1) IH [of q' "log_next_slot i" p] show False by simp
  qed
  then have n: "i < 1024 \<Longrightarrow> log_next_loop (g_eventmsgqueue gw_log_init) i = None" for i
    by (cases "log_next_loop (g_eventmsgqueue gw_log_init) i") auto
  have "(if \<not> (slot < 0 \<or> slot \<ge> int GW_MAX_EVENT_LOG_NUM) then log_next_slot (nat slot) else log_current_slot gw_log_init) < 1024"
    by (auto simp: GW_MAX_EVENT_LOG_NUM_def log_next_slot_mod gw_log_init_def)
  from n [OF this] show ?thesis by (simp add: gw_log_getnext_record_def)
qed

end
