(* ===== verification/Conf_File.thy ===== *)
theory Conf_File
  imports Keyed_Store
begin

text \<open>
  The configuration file of \<^verbatim>\<open>apps/gw_conf_file.c\<close>: a header, then one type-length-value
  record per registered handler. The medium is a file or a memory buffer, as the interface
  function \<^verbatim>\<open>LIB_IF_VFILE_OPEN\<close> gives it. \<open>'s\<close> is the state of the components whose handlers
  are registered. An access beyond the buffer and a call of a NULL function are faults, \<open>None\<close>.
\<close>

section \<open>Handlers\<close>

record 's conf_handle =
  ch_type :: u32
  ch_func_s :: "('s \<Rightarrow> int \<times> u32 \<times> u8 list option) option"
  ch_func_r :: "(u32 \<Rightarrow> u8 list \<Rightarrow> 's \<Rightarrow> 's) option"

definition gw_conf_compare :: "'s conf_handle \<Rightarrow> u32 \<Rightarrow> int" where
  "gw_conf_compare ph key = (if ch_type ph > key then 1 else if ch_type ph = key then 0 else -1)"

definition conf_find :: "'s conf_handle list \<Rightarrow> u32 \<Rightarrow> 's conf_handle option" where
  "conf_find hs key = List.find (\<lambda>p. gw_conf_compare p key = 0) hs"

definition gw_register_conf_handlers ::
  "bool \<Rightarrow> 's conf_handle list \<Rightarrow> u32 \<Rightarrow> ('s \<Rightarrow> int \<times> u32 \<times> u8 list option) option \<Rightarrow>
   (u32 \<Rightarrow> u8 list \<Rightarrow> 's \<Rightarrow> 's) option \<Rightarrow> int \<times> 's conf_handle list" where
  "gw_register_conf_handlers mem hs type s r =
     (if mem
      then if conf_find hs type \<noteq> None then (GW_E_CONFLICT, hs)
           else (GW_OK, hs @ [\<lparr>ch_type = type, ch_func_s = s, ch_func_r = r\<rparr>])
      else (GW_ERROR, hs))"

section \<open>The medium\<close>

text \<open>
  \<open>cf_data\<close>: the bytes of the file behind \<^verbatim>\<open>vf\<close> or of the buffer at \<^verbatim>\<open>pval\<close>.
\<close>

record conf_file =
  cf_offset :: u32
  cf_isfs :: int
  cf_len :: u32
  cf_data :: "u8 list"

definition gw_conf_file_init :: conf_file where
  "gw_conf_file_init = \<lparr>cf_offset = 0, cf_isfs = -1, cf_len = 0, cf_data = []\<rparr>"

text \<open>What \<^verbatim>\<open>LIB_IF_VFILE_OPEN\<close> returned: its result, the number stored and the bytes.\<close>

definition vfile_open :: "conf_file \<Rightarrow> int \<times> u32 \<times> u8 list \<Rightarrow> int \<times> conf_file" where
  "vfile_open pf opened =
     (case opened of (ret, fd, pv) \<Rightarrow>
        if ret \<ge> 0
        then (0, if ret = 1 then pf\<lparr>cf_isfs := ret, cf_data := pv\<rparr>
                 else pf\<lparr>cf_isfs := ret, cf_len := fd, cf_data := pv\<rparr>)
        else (ret, pf))"

text \<open>The result and the bytes stored through \<^verbatim>\<open>val\<close>. The test for the buffer wraps at 32 bits.\<close>

definition vfile_read :: "conf_file \<Rightarrow> u32 \<Rightarrow> u32 \<Rightarrow> (int \<times> u8 list) option" where
  "vfile_read pf offset len =
     (let bs = take (unat len) (drop (unat offset) (cf_data pf)) in
      if cf_isfs pf > 0 then Some (int (length bs), bs)
      else if cf_len pf \<ge> len + offset
      then if length bs < unat len then None else Some (sint len, bs)
      else Some (0, []))"

text \<open>\<open>val\<close>: the bytes of the source, a fault when there are fewer than \<open>len\<close>.\<close>

definition vfile_write :: "conf_file \<Rightarrow> u32 \<Rightarrow> u32 \<Rightarrow> u8 list \<Rightarrow> (int \<times> conf_file) option" where
  "vfile_write pf offset len val =
     (let o1 = unat offset; n = unat len; d = cf_data pf in
      if cf_isfs pf > 0
      then if length val < n then None
           else Some (int n, pf\<lparr>cf_data := take o1 d @ replicate (o1 - length d) 0 @ take n val @ drop (o1 + n) d\<rparr>)
      else if cf_len pf \<ge> len + offset
      then if length val < n \<or> length d < o1 + n then None
           else Some (sint len, pf\<lparr>cf_data := take o1 d @ take n val @ drop (o1 + n) d\<rparr>)
      else Some (0, pf))"

definition vfile_close :: "conf_file \<Rightarrow> conf_file" where
  "vfile_close pf = pf\<lparr>cf_isfs := -1, cf_len := 0, cf_data := []\<rparr>"

section \<open>Saving\<close>

definition put_int :: "u32 \<Rightarrow> conf_file \<Rightarrow> conf_file option" where
  "put_int v pf = (case vfile_write pf (cf_offset pf) 4 (bytes_of_u32 v) of
      None \<Rightarrow> None | Some (_, pf1) \<Rightarrow> Some (pf1\<lparr>cf_offset := cf_offset pf1 + 4\<rparr>))"

text \<open>The body of the scan over the handlers: \<open>None\<close> inside is the \<^verbatim>\<open>break\<close>.\<close>

definition save_record :: "u32 \<Rightarrow> u32 \<Rightarrow> u8 list \<Rightarrow> conf_file \<Rightarrow> conf_file option option" where
  "save_record type len pv pf =
     (if cf_isfs pf = 0 \<and> cf_offset pf + len > cf_len pf then Some None
      else case put_int type pf of
        None \<Rightarrow> None
      | Some pf1 \<Rightarrow>
          (case put_int len pf1 of
             None \<Rightarrow> None
           | Some pf2 \<Rightarrow>
               (case vfile_write pf2 (cf_offset pf2) len pv of
                  None \<Rightarrow> None
                | Some (_, pf3) \<Rightarrow> Some (Some (pf3\<lparr>cf_offset := cf_offset pf3 + len\<rparr>)))))"

fun save_handlers :: "'s conf_handle list \<Rightarrow> 's \<Rightarrow> conf_file \<Rightarrow> conf_file option" where
  "save_handlers [] s pf = Some pf"
| "save_handlers (p # ps) s pf =
     (case ch_func_s p of
        None \<Rightarrow> save_handlers ps s pf
      | Some f \<Rightarrow>
          (case f s of (r, len, pv) \<Rightarrow>
             if r = GW_OK
             then (case save_record (ch_type p) len (case pv of None \<Rightarrow> [] | Some bs \<Rightarrow> bs) pf of
                     None \<Rightarrow> None
                   | Some None \<Rightarrow> Some pf
                   | Some (Some pf1) \<Rightarrow> save_handlers ps s pf1)
             else save_handlers ps s pf))"

text \<open>The loop that erases the flash, which makes at most three tries.\<close>

fun erase_tries :: "nat \<Rightarrow> ('s \<Rightarrow> int \<times> 's) \<Rightarrow> 's \<Rightarrow> 's" where
  "erase_tries 0 erase s = s"
| "erase_tries (Suc n) erase s = (case erase s of (r, s1) \<Rightarrow> if r = GW_OK then s1 else erase_tries n erase s1)"

text \<open>
  \<open>saveAllRcpDevCfgToFlash\<close>, \<open>ereaseRcpDevCfgInFlash\<close>: the functions of the switch component;
  \<open>wr_flash\<close>: the result of \<^verbatim>\<open>LIB_IF_CONF_WR_FLASH\<close>. The results are the return value, the
  bytes left on the medium, the control block and the state.
\<close>

definition gw_conf_save ::
  "('s \<Rightarrow> 's) \<Rightarrow> ('s \<Rightarrow> int \<times> 's) \<Rightarrow> int \<Rightarrow> int \<times> u32 \<times> u8 list \<Rightarrow> 's conf_handle list \<Rightarrow> int \<Rightarrow>
   conf_file \<Rightarrow> 's \<Rightarrow> (int \<times> u8 list \<times> conf_file \<times> 's) option" where
  "gw_conf_save saveAllRcpDevCfgToFlash ereaseRcpDevCfgInFlash wr_flash opened hs mgt_code pf0 s =
     (case vfile_open pf0 opened of (r, pf) \<Rightarrow>
        if r < 0 then Some (-1, [], pf, s)
        else (case (if mgt_code = 1
                    then map_option (\<lambda>pf1. (pf1, saveAllRcpDevCfgToFlash s)) (save_handlers hs s (pf\<lparr>cf_offset := 8\<rparr>))
                    else Some (pf\<lparr>cf_offset := 8\<rparr>, erase_tries 3 ereaseRcpDevCfgInFlash s)) of
                None \<Rightarrow> None
              | Some (pf1, s1) \<Rightarrow>
                  (case vfile_write pf1 0 4 (bytes_of_u32 8) of
                     None \<Rightarrow> None
                   | Some (_, pf2) \<Rightarrow>
                       (case vfile_write pf2 4 4 (bytes_of_u32 (cf_offset pf2 - 8)) of
                          None \<Rightarrow> None
                        | Some (_, pf3) \<Rightarrow> Some (wr_flash, cf_data pf3, vfile_close pf3, s1)))))"

section \<open>Restoring\<close>

text \<open>An integer variable with the value \<open>old\<close> after a read of four bytes into it.\<close>

definition read_int :: "conf_file \<Rightarrow> u32 \<Rightarrow> u32 \<Rightarrow> u32 option" where
  "read_int pf offset old =
     (case vfile_read pf offset 4 of
        None \<Rightarrow> None
      | Some (_, bs) \<Rightarrow> Some (u32_of_bytes (bs @ drop (length bs) (bytes_of_u32 old))))"

text \<open>
  The loop, with the variables \<^verbatim>\<open>type\<close> and \<^verbatim>\<open>length\<close>. It may not end: then its value is \<open>None\<close>;
  a fault is \<open>Some None\<close>. \<open>mem n\<close>: \<^verbatim>\<open>malloc(n)\<close> succeeds.
\<close>

partial_function (option) restore_loop ::
  "(u32 \<Rightarrow> bool) \<Rightarrow> 's conf_handle list \<Rightarrow> u32 \<Rightarrow> u32 \<Rightarrow> conf_file \<Rightarrow> 's \<Rightarrow> (conf_file \<times> 's) option option" where
  "restore_loop mem hs type0 length0 pf s =
     (if cf_offset pf < cf_len pf
      then (case read_int pf (cf_offset pf) type0 of
              None \<Rightarrow> Some None
            | Some type \<Rightarrow>
                (case read_int pf (cf_offset pf + 4) length0 of
                   None \<Rightarrow> Some None
                 | Some len \<Rightarrow>
                     (let off = cf_offset pf + 4 + 4 in
                      if off + len > cf_len pf then Some (Some (pf\<lparr>cf_offset := off\<rparr>, s))
                      else (case conf_find hs type of
                              None \<Rightarrow> restore_loop mem hs type len (pf\<lparr>cf_offset := off + len\<rparr>) s
                            | Some p \<Rightarrow>
                                if \<not> mem len then restore_loop mem hs type len (pf\<lparr>cf_offset := off + len\<rparr>) s
                                else (case vfile_read pf off len of
                                        None \<Rightarrow> Some None
                                      | Some (_, data) \<Rightarrow>
                                          (case ch_func_r p of
                                             None \<Rightarrow> Some None
                                           | Some r \<Rightarrow> restore_loop mem hs type len
                                               (pf\<lparr>cf_offset := off + len\<rparr>) (r len data s)))))))
      else Some (Some (pf, s)))"

text \<open>\<open>iv0\<close>, \<open>type0\<close>, \<open>length0\<close>: what the uninitialised variables hold.\<close>

definition gw_conf_restore ::
  "(u32 \<Rightarrow> bool) \<Rightarrow> u32 \<Rightarrow> u32 \<Rightarrow> u32 \<Rightarrow> int \<times> u32 \<times> u8 list \<Rightarrow> 's conf_handle list \<Rightarrow>
   conf_file \<Rightarrow> 's \<Rightarrow> (int \<times> conf_file \<times> 's) option option" where
  "gw_conf_restore mem iv0 type0 length0 opened hs pf0 s =
     (case vfile_open pf0 opened of (r, pf) \<Rightarrow>
        if r < 0 then Some (Some (-1, pf, s))
        else (let pf1 = (if cf_isfs pf > 0 then pf\<lparr>cf_len := of_nat (length (cf_data pf))\<rparr> else pf) in
          case read_int pf1 0 iv0 of
            None \<Rightarrow> Some None
          | Some headlen \<Rightarrow>
              (case read_int pf1 4 headlen of
                 None \<Rightarrow> Some None
               | Some tlv_len \<Rightarrow>
                   (let pf2 = pf1\<lparr>cf_offset := headlen\<rparr> in
                    if sint tlv_len > 0
                    then (case restore_loop mem hs type0 length0 pf2 s of
                            None \<Rightarrow> None
                          | Some None \<Rightarrow> Some None
                          | Some (Some (pf3, s1)) \<Rightarrow> Some (Some (0, vfile_close pf3, s1)))
                    else Some (Some (0, vfile_close pf2, s))))))"

section \<open>Lemmas on the registry\<close>

lemma conf_find_type: "conf_find hs key = List.find (\<lambda>p. ch_type p = key) hs"
  unfolding conf_find_def by (intro List.find_cong) (auto simp: gw_conf_compare_def)

definition conf_reg_inv :: "'s conf_handle list \<Rightarrow> bool" where
  "conf_reg_inv hs \<longleftrightarrow> distinct (map ch_type hs)"

definition conf_lookup :: "'s conf_handle list \<Rightarrow> u32 \<Rightarrow>
    (('s \<Rightarrow> int \<times> u32 \<times> u8 list option) option \<times> (u32 \<Rightarrow> u8 list \<Rightarrow> 's \<Rightarrow> 's) option) option" where
  "conf_lookup hs t = map_option (\<lambda>h. (ch_func_s h, ch_func_r h)) (conf_find hs t)"

definition conf_insert :: "'s conf_handle list \<Rightarrow> u32 \<Rightarrow>
    ('s \<Rightarrow> int \<times> u32 \<times> u8 list option) option \<times> (u32 \<Rightarrow> u8 list \<Rightarrow> 's \<Rightarrow> 's) option \<Rightarrow> bool \<times> 's conf_handle list" where
  "conf_insert hs t v = (case gw_register_conf_handlers True hs t (fst v) (snd v) of (r, hs') \<Rightarrow> (r = GW_OK, hs'))"

interpretation confreg: registry conf_reg_inv "\<lambda>_. True" conf_lookup conf_insert
proof unfold_locales
  fix hs :: "'a conf_handle list" and k v b hs' assume a: "conf_insert hs k v = (b, hs')" and w: "conf_reg_inv hs"
  show "b = (conf_lookup hs k = None)"
    using a by (auto simp: conf_insert_def gw_register_conf_handlers_def conf_lookup_def gw_status_defs split: if_splits)
  show "conf_reg_inv hs'"
    using a w by (auto simp: conf_insert_def gw_register_conf_handlers_def conf_reg_inv_def conf_find_type find_None_iff split: if_splits)
  show "conf_lookup hs' j = (if b \<and> j = k then Some v else conf_lookup hs j)" for j
    using a by (auto simp: conf_insert_def gw_register_conf_handlers_def conf_lookup_def conf_find_type find_append gw_status_defs
        split: if_splits option.split)
qed

section \<open>Lemmas on memory buffers\<close>

text \<open>A memory buffer whose bytes \<open>pre\<close> lie before the offset and \<open>gap\<close> behind it.\<close>

definition memfile :: "u8 list \<Rightarrow> u8 list \<Rightarrow> conf_file" where
  "memfile pre gap = \<lparr>cf_offset = of_nat (length pre), cf_isfs = 0, cf_len = of_nat (length pre + length gap),
     cf_data = pre @ gap\<rparr>"

definition small :: "u8 list \<Rightarrow> u8 list \<Rightarrow> bool" where
  "small pre gap \<longleftrightarrow> length pre + length gap < 1073741824"

lemma unat_sum: "m < 4294967296 \<Longrightarrow> unat (of_nat m :: u32) = m"
  by (rule unat_of_nat_u32)

lemma fits_iff:
  "m < 4294967296 \<Longrightarrow> n < 4294967296 \<Longrightarrow> (of_nat m :: u32) \<le> of_nat n \<longleftrightarrow> m \<le> n"
  by (simp add: word_le_nat_alt unat_of_nat_u32)

lemma memfile_write:
  assumes "small pre gap" "length val \<le> length gap"
  shows "vfile_write (memfile pre gap) (of_nat (length pre)) (of_nat (length val)) val =
    Some (sint (of_nat (length val) :: u32), (memfile pre gap)\<lparr>cf_data := pre @ val @ drop (length val) gap\<rparr>)"
proof -
  have u: "unat (of_nat (length pre) :: u32) = length pre" "unat (of_nat (length val) :: u32) = length val"
    using assms by (simp_all add: small_def unat_of_nat_u32)
  have "(of_nat (length val) + of_nat (length pre) :: u32) \<le> of_nat (length pre + length gap)"
    using assms fits_iff [of "length val + length pre" "length pre + length gap"] by (simp add: small_def)
  then show ?thesis using assms(2) u by (simp add: vfile_write_def memfile_def Let_def)
qed

lemma put_int_memfile:
  assumes "small pre gap" "4 \<le> length gap"
  shows "put_int v (memfile pre gap) = Some (memfile (pre @ bytes_of_u32 v) (drop 4 gap))"
  using memfile_write [OF assms(1), of "bytes_of_u32 v"] assms(2)
  by (simp add: put_int_def memfile_def)

definition tlv :: "u32 \<times> u8 list \<Rightarrow> u8 list" where
  "tlv e = bytes_of_u32 (fst e) @ bytes_of_u32 (of_nat (length (snd e))) @ snd e"

definition tlvs :: "(u32 \<times> u8 list) list \<Rightarrow> u8 list" where
  "tlvs es = concat (map tlv es)"

lemma length_tlv [simp]: "length (tlv e) = 8 + length (snd e)"
  by (simp add: tlv_def)

lemma tlvs_simps [simp]: "tlvs [] = []" "tlvs (e # es) = tlv e @ tlvs es"
  by (simp_all add: tlvs_def)

lemma save_record_memfile:
  assumes "small pre gap" "length (tlv (t, b)) \<le> length gap"
  shows "save_record t (of_nat (length b)) b (memfile pre gap) =
    Some (Some (memfile (pre @ tlv (t, b)) (drop (length (tlv (t, b))) gap)))"
proof -
  let ?p1 = "pre @ bytes_of_u32 t" and ?p2 = "pre @ bytes_of_u32 t @ bytes_of_u32 (of_nat (length b))"
  have "\<not> (of_nat (length pre) + of_nat (length b) :: u32) > of_nat (length pre + length gap)"
    using assms fits_iff [of "length pre + length b" "length pre + length gap"] by (simp add: small_def not_less)
  then have c: "\<not> (cf_isfs (memfile pre gap) = 0 \<and> cf_offset (memfile pre gap) + of_nat (length b) > cf_len (memfile pre gap))"
    by (simp add: memfile_def)
  have 1: "put_int t (memfile pre gap) = Some (memfile ?p1 (drop 4 gap))"
    using assms by (intro put_int_memfile) auto
  have 2: "put_int (of_nat (length b)) (memfile ?p1 (drop 4 gap)) = Some (memfile ?p2 (drop 8 gap))"
    using put_int_memfile [of ?p1 "drop 4 gap" "of_nat (length b)"] assms by (simp add: small_def)
  have 3: "vfile_write (memfile ?p2 (drop 8 gap)) (of_nat (length ?p2)) (of_nat (length b)) b =
    Some (sint (of_nat (length b) :: u32), (memfile ?p2 (drop 8 gap))\<lparr>cf_data := ?p2 @ b @ drop (length b) (drop 8 gap)\<rparr>)"
    using assms by (intro memfile_write) (auto simp: small_def)
  have o: "cf_offset (memfile ?p2 (drop 8 gap)) = of_nat (length ?p2)" by (simp only: memfile_def conf_file.select_convs)
  show ?thesis using assms(2) unfolding save_record_def if_not_P [OF c] 1 2 option.case o 3 prod.case
    by (simp add: memfile_def tlv_def add.commute)
qed

text \<open>Handler \<open>h\<close> saves the record \<open>e\<close> in state \<open>s\<close>.\<close>

definition saves :: "'s \<Rightarrow> 's conf_handle \<Rightarrow> u32 \<times> u8 list \<Rightarrow> bool" where
  "saves s h e \<longleftrightarrow> fst e = ch_type h \<and> (case ch_func_s h of None \<Rightarrow> False
     | Some f \<Rightarrow> f s = (GW_OK, of_nat (length (snd e)), Some (snd e)))"

lemma save_handlers_memfile:
  assumes "list_all2 (saves s) hs es" "small pre gap" "length (tlvs es) \<le> length gap"
  shows "save_handlers hs s (memfile pre gap) = Some (memfile (pre @ tlvs es) (drop (length (tlvs es)) gap))"
  using assms
proof (induction hs es arbitrary: pre gap rule: list_all2_induct)
  case (Cons h hs e es)
  obtain t b where e: "e = (t, b)" by (cases e)
  then obtain f where f: "ch_func_s h = Some f" "f s = (GW_OK, of_nat (length b), Some b)" "ch_type h = t"
    using Cons.hyps(1) by (auto simp: saves_def split: option.splits)
  have "small (pre @ tlv e) (drop (length (tlv e)) gap)" using Cons.prems by (simp add: small_def)
  from Cons.IH [OF this] Cons.prems save_record_memfile [of pre gap t b] f show ?case
    by (simp add: e add.commute)
qed simp

text \<open>The medium after a save: header, records, and what was behind them.\<close>

definition conf_image :: "(u32 \<times> u8 list) list \<Rightarrow> u8 list \<Rightarrow> u8 list" where
  "conf_image es rest = bytes_of_u32 8 @ bytes_of_u32 (of_nat (length (tlvs es))) @ tlvs es @ rest"

lemma mem_write_at:
  assumes "cf_isfs pf = 0" "unat (cf_len pf) = length (cf_data pf)" "k + length val \<le> length (cf_data pf)" "length (cf_data pf) < 1073741824"
  shows "\<exists>r. vfile_write pf (of_nat k) (of_nat (length val)) val =
    Some (r, pf\<lparr>cf_data := take k (cf_data pf) @ val @ drop (k + length val) (cf_data pf)\<rparr>)"
proof -
  have "unat (of_nat k :: u32) = k" "unat (of_nat (length val) :: u32) = length val"
    using assms by (simp_all add: unat_of_nat_u32)
  moreover have "of_nat (length val) + of_nat k \<le> cf_len pf"
    using assms fits_iff [of "length val + k" "length (cf_data pf)"] by (simp add: word_le_nat_alt unat_of_nat_u32)
  ultimately show ?thesis using assms by (simp add: vfile_write_def Let_def)
qed

lemma save_image:
  assumes "list_all2 (saves s) hs es" "8 + length (tlvs es) \<le> length buf" "length buf < 1073741824"
  shows "gw_conf_save rcp er wfl (0, of_nat (length buf), buf) hs 1 pf0 s =
    Some (wfl, conf_image es (drop (8 + length (tlvs es)) buf),
          vfile_close (memfile (take 8 buf @ tlvs es) []), rcp s)"
proof -
  let ?pre = "take 8 buf" and ?gap = "drop 8 buf"
  have l: "length ?pre = 8" "length ?gap = length buf - 8" using assms(2) by simp_all
  have pf: "vfile_open pf0 (0, of_nat (length buf), buf) = (0, pf0\<lparr>cf_isfs := 0, cf_len := of_nat (length buf), cf_data := buf\<rparr>)"
    by (simp add: vfile_open_def)
  have m: "pf0\<lparr>cf_isfs := 0, cf_len := of_nat (length buf), cf_data := buf, cf_offset := 8\<rparr> = memfile ?pre ?gap"
    using assms(2) l by (simp add: memfile_def)
  have h: "save_handlers hs s (memfile ?pre ?gap) = Some (memfile (?pre @ tlvs es) (drop (length (tlvs es)) ?gap))"
    using assms l by (intro save_handlers_memfile) (auto simp: small_def)
  let ?m1 = "memfile (?pre @ tlvs es) (drop (length (tlvs es)) ?gap)"
  have d: "cf_data ?m1 = ?pre @ tlvs es @ drop (8 + length (tlvs es)) buf" "cf_isfs ?m1 = 0"
    "cf_offset ?m1 = of_nat (8 + length (tlvs es))" "unat (cf_len ?m1) = length (cf_data ?m1)"
    using assms l by (simp_all add: memfile_def add.commute unat_of_nat_u32 del: of_nat_add)
  have len: "length (cf_data ?m1) = length buf" unfolding d(1) using assms by simp
  obtain r1 where w1: "vfile_write ?m1 0 4 (bytes_of_u32 8) = Some (r1, ?m1\<lparr>cf_data := bytes_of_u32 8 @ drop 4 (cf_data ?m1)\<rparr>)"
    using mem_write_at [of ?m1 0 "bytes_of_u32 8"] d len assms by auto
  let ?m2 = "?m1\<lparr>cf_data := bytes_of_u32 8 @ drop 4 (cf_data ?m1)\<rparr>"
  have o: "cf_offset ?m2 - 8 = of_nat (length (tlvs es))" using d by simp
  have m2: "length (cf_data ?m2) = length buf" "cf_isfs ?m2 = 0" "unat (cf_len ?m2) = length (cf_data ?m2)"
    using d len assms(2) by simp_all
  have "4 + length (bytes_of_u32 (of_nat (length (tlvs es)))) \<le> length (cf_data ?m2)" using m2(1) assms(2) by simp
  from mem_write_at [OF m2(2,3) this] m2(1) assms(3) obtain r2 where w2: "vfile_write ?m2 4 4 (bytes_of_u32 (of_nat (length (tlvs es)))) =
     Some (r2, ?m2\<lparr>cf_data := bytes_of_u32 8 @ bytes_of_u32 (of_nat (length (tlvs es))) @ drop 8 (cf_data ?m1)\<rparr>)" by auto
  have "drop 8 (cf_data ?m1) = tlvs es @ drop (8 + length (tlvs es)) buf" unfolding d(1) using l by simp
  then show ?thesis
    unfolding gw_conf_save_def pf using m h w1 w2 o by (simp add: conf_image_def vfile_close_def memfile_def)
qed

section \<open>Lemmas on restoring\<close>

lemma memfile_read:
  assumes "small pre gap"
  shows "k + n \<le> length gap \<Longrightarrow> vfile_read (memfile pre gap) (of_nat (length pre + k)) (of_nat n) =
      Some (sint (of_nat n :: u32), take n (drop k gap))"
    and "length gap < k + n \<Longrightarrow> k + n < 1073741824 \<Longrightarrow> vfile_read (memfile pre gap) (of_nat (length pre + k)) (of_nat n) = Some (0, [])"
proof -
  assume a: "k + n \<le> length gap"
  have u: "unat (of_nat (length pre + k) :: u32) = length pre + k" "unat (of_nat n :: u32) = n"
    using assms a unat_of_nat_u32 [of "length pre + k"] unat_of_nat_u32 [of n] by (simp_all add: small_def del: of_nat_add)
  have "of_nat n + of_nat (length pre + k) \<le> (of_nat (length pre + length gap) :: u32)"
    using assms a fits_iff [of "n + (length pre + k)" "length pre + length gap"] by (simp add: small_def)
  then show "vfile_read (memfile pre gap) (of_nat (length pre + k)) (of_nat n) = Some (sint (of_nat n :: u32), take n (drop k gap))"
    using a u by (simp add: vfile_read_def memfile_def Let_def del: of_nat_add)
next
  assume a: "length gap < k + n" "k + n < 1073741824"
  have "\<not> of_nat n + of_nat (length pre + k) \<le> (of_nat (length pre + length gap) :: u32)"
    using assms a fits_iff [of "n + (length pre + k)" "length pre + length gap"] by (simp add: small_def)
  then show "vfile_read (memfile pre gap) (of_nat (length pre + k)) (of_nat n) = Some (0, [])"
    by (simp add: vfile_read_def memfile_def Let_def del: of_nat_add)
qed

lemma read_int_memfile:
  assumes "small pre gap"
  shows "k + 4 \<le> length gap \<Longrightarrow> read_int (memfile pre gap) (of_nat (length pre + k)) old = Some (u32_of_bytes (drop k gap))"
    and "length gap < k + 4 \<Longrightarrow> k < 1000 \<Longrightarrow> read_int (memfile pre gap) (of_nat (length pre + k)) old = Some old"
  using memfile_read [OF assms, of k 4] u32_of_bytes_take [of "drop k gap"] by (simp_all add: read_int_def)

text \<open>What restoring a record does to the state.\<close>

definition restore_entry :: "(u32 \<Rightarrow> bool) \<Rightarrow> 's conf_handle list \<Rightarrow> u32 \<times> u8 list \<Rightarrow> 's \<Rightarrow> 's" where
  "restore_entry mem hs e s =
     (case conf_find hs (fst e) of
        None \<Rightarrow> s
      | Some p \<Rightarrow> if \<not> mem (of_nat (length (snd e))) then s
                  else (case ch_func_r p of None \<Rightarrow> s | Some r \<Rightarrow> r (of_nat (length (snd e))) (snd e) s))"

lemma memfile_move: "(memfile pre gap)\<lparr>cf_offset := of_nat (length pre + k)\<rparr> = memfile (pre @ take k gap) (drop k gap)" if "k \<le> length gap"
  using that by (simp add: memfile_def)

lemma restore_record:
  assumes "small pre (tlv e @ gap)" "\<forall>h \<in> set hs. ch_func_r h \<noteq> None"
  shows "restore_loop mem hs t0 l0 (memfile pre (tlv e @ gap)) s =
    restore_loop mem hs (fst e) (of_nat (length (snd e))) (memfile (pre @ tlv e) gap) (restore_entry mem hs e s)"
proof -
  let ?m = "memfile pre (tlv e @ gap)" and ?n = "length (snd e)"
  have lt: "cf_offset ?m < cf_len ?m"
    using assms(1) by (simp add: memfile_def small_def word_less_nat_alt unat_of_nat_u32 del: of_nat_add)
  have o: "cf_offset ?m = of_nat (length pre + 0)" "cf_offset ?m + 4 = of_nat (length pre + 4)" "cf_offset ?m + 4 + 4 = of_nat (length pre + 8)"
    by (simp_all add: memfile_def)
  have t: "read_int ?m (cf_offset ?m) t0 = Some (fst e)"
    unfolding o(1) using read_int_memfile(1) [OF assms(1), of 0 t0] by (simp add: tlv_def)
  have l: "read_int ?m (cf_offset ?m + 4) l0 = Some (of_nat ?n)"
    unfolding o(2) using read_int_memfile(1) [OF assms(1), of 4 l0] by (simp add: tlv_def)
  have "(of_nat (length pre + 8) + of_nat ?n :: u32) \<le> cf_len ?m"
    using assms(1) fits_iff [of "length pre + 8 + ?n" "length pre + length (tlv e @ gap)"] by (simp add: memfile_def small_def)
  then have nb: "\<not> cf_offset ?m + 4 + 4 + of_nat ?n > cf_len ?m" unfolding o(3) by simp
  have d: "vfile_read ?m (cf_offset ?m + 4 + 4) (of_nat ?n) = Some (sint (of_nat ?n :: u32), snd e)"
    unfolding o(3) using memfile_read(1) [OF assms(1), of 8 ?n] by (simp add: tlv_def)
  have mv: "?m\<lparr>cf_offset := cf_offset ?m + 4 + 4 + of_nat ?n\<rparr> = memfile (pre @ tlv e) gap"
    unfolding o(3) using memfile_move [of "8 + ?n" "tlv e @ gap" pre] by (simp add: add.assoc)
  have find: "\<exists>r. ch_func_r p = Some r" if "conf_find hs k = Some p" for p k
    using that assms(2) find_SomeD unfolding conf_find_type by fastforce
  show ?thesis
    unfolding restore_loop.simps [of mem hs t0 l0 ?m s] if_P [OF lt] t l option.case Let_def if_not_P [OF nb] mv d prod.case
    using find by (cases "conf_find hs (fst e)") (fastforce simp: restore_entry_def)+
qed

lemma restore_records:
  assumes "small pre (tlvs es @ gap)" "\<forall>h \<in> set hs. ch_func_r h \<noteq> None"
  shows "\<exists>t l. restore_loop mem hs t0 l0 (memfile pre (tlvs es @ gap)) s =
      restore_loop mem hs t l (memfile (pre @ tlvs es) gap) (fold (restore_entry mem hs) es s) \<and>
    (es \<noteq> [] \<longrightarrow> unat l < 1073741824)"
  using assms(1)
proof (induction es arbitrary: pre t0 l0 s)
  case (Cons e es)
  have r: "restore_loop mem hs t0 l0 (memfile pre (tlvs (e # es) @ gap)) s =
    restore_loop mem hs (fst e) (of_nat (length (snd e))) (memfile (pre @ tlv e) (tlvs es @ gap)) (restore_entry mem hs e s)"
    using restore_record [of pre e "tlvs es @ gap" hs mem t0 l0 s] Cons.prems assms(2) by simp
  show ?case
  proof (cases "es = []")
    case True
    have "unat (of_nat (length (snd e)) :: u32) < 1073741824"
      using Cons.prems by (simp add: small_def unat_of_nat_u32)
    then show ?thesis using r True by auto
  next
    case False
    have "small (pre @ tlv e) (tlvs es @ gap)" using Cons.prems by (simp add: small_def)
    from Cons.IH [OF this, of "fst e" "of_nat (length (snd e))" "restore_entry mem hs e s"] False show ?thesis
      unfolding r by simp
  qed
qed auto

text \<open>Behind the records: zero bytes are records of the unused type 0.\<close>

lemma restore_zeros:
  assumes "small pre (replicate k 0)" "conf_find hs 0 = None" "unat l < 1073741824"
  shows "\<exists>pf'. restore_loop mem hs t l (memfile pre (replicate k 0)) s = Some (Some (pf', s))"
  using assms(1,3)
proof (induction k arbitrary: pre t l rule: less_induct)
  case (less k)
  let ?g = "replicate k (0 :: u8)" and ?m = "memfile pre (replicate k 0)"
  have len: "unat (cf_len ?m) = length pre + k" "unat (cf_offset ?m) = length pre"
    using less.prems by (simp_all add: memfile_def small_def unat_of_nat_u32 del: of_nat_add)
  have o: "cf_offset ?m = of_nat (length pre + 0)" "cf_offset ?m + 4 = of_nat (length pre + 4)" "cf_offset ?m + 4 + 4 = of_nat (length pre + 8)"
    by (simp_all add: memfile_def)
  have z: "u32_of_bytes (replicate n 0) = 0" if "4 \<le> n" for n
    using that by (simp add: u32_of_bytes_def)
  show ?case
  proof (cases "8 \<le> k")
    case True
    have lt: "cf_offset ?m < cf_len ?m" using True len by (simp add: word_less_nat_alt)
    have t: "read_int ?m (cf_offset ?m) t = Some 0"
      unfolding o(1) using read_int_memfile(1) [OF less.prems(1), of 0 t] True z [of k] by simp
    have l: "read_int ?m (cf_offset ?m + 4) l = Some 0"
      unfolding o(2) using read_int_memfile(1) [OF less.prems(1), of 4 l] True z [of "k - 4"] by simp
    have "(of_nat (length pre + 8) :: u32) \<le> cf_len ?m"
      using True less.prems fits_iff [of "length pre + 8" "length pre + k"] by (simp add: memfile_def small_def)
    then have nb: "\<not> cf_offset ?m + 4 + 4 + 0 > cf_len ?m" unfolding o(3) by simp
    have mv: "?m\<lparr>cf_offset := cf_offset ?m + 4 + 4 + 0\<rparr> = memfile (pre @ replicate 8 0) (replicate (k - 8) 0)"
      unfolding o(3) using memfile_move [of 8 ?g pre] True by (simp add: min_def)
    have "small (pre @ replicate 8 0) (replicate (k - 8) 0)" using less.prems True by (simp add: small_def)
    from less.IH [OF _ this, of 0 0] True show ?thesis
      unfolding restore_loop.simps [of mem hs t l ?m s] if_P [OF lt] t l option.case Let_def if_not_P [OF nb] mv assms(2) by simp
  next
    case False
    have "\<exists>t'. read_int ?m (cf_offset ?m) t = Some t'"
      unfolding o(1) using read_int_memfile [OF less.prems(1), of 0 t] False by (cases "4 \<le> k") auto
    then obtain t' where t: "read_int ?m (cf_offset ?m) t = Some t'" by blast
    have l: "read_int ?m (cf_offset ?m + 4) l = Some l"
      unfolding o(2) using read_int_memfile(2) [OF less.prems(1), of 4 l] False by simp
    have "unat (of_nat (length pre + 8) + l :: u32) = length pre + 8 + unat l"
      using less.prems unat_of_nat_u32 [of "length pre + 8 + unat l"] by (simp add: small_def)
    then have nb: "cf_offset ?m + 4 + 4 + l > cf_len ?m" unfolding o(3) using len False by (simp add: word_less_nat_alt)
    show ?thesis
      unfolding restore_loop.simps [of mem hs t l ?m s] t l option.case Let_def if_P [OF nb] by simp
  qed
qed

lemma restore_header:
  assumes "data = bytes_of_u32 8 @ bytes_of_u32 n @ body" "length data < 1073741824" "0 < sint n"
  shows "gw_conf_restore mem iv0 t0 l0 (0, of_nat (length data), data) hs pf0 s =
    (case restore_loop mem hs t0 l0 (memfile (bytes_of_u32 8 @ bytes_of_u32 n) body) s of
       None \<Rightarrow> None
     | Some None \<Rightarrow> Some None
     | Some (Some (pf3, s1)) \<Rightarrow> Some (Some (0, vfile_close pf3, s1)))"
proof -
  let ?pf = "pf0\<lparr>cf_isfs := 0, cf_len := of_nat (length data), cf_data := data\<rparr>"
  have o: "vfile_open pf0 (0, of_nat (length data), data) = (0, ?pf)" by (simp add: vfile_open_def)
  have ld: "length data = 8 + length body" by (simp add: assms(1))
  have r: "vfile_read ?pf (of_nat j) 4 = Some (4, take 4 (drop j data))" if "j = 0 \<or> j = 4" for j
  proof -
    have "unat (of_nat j :: u32) = j" using that by auto
    moreover have "4 + of_nat j \<le> (of_nat (length data) :: u32)"
      using that assms(2) fits_iff [of "4 + j" "length data"] by (auto simp: ld)
    ultimately show ?thesis using that by (auto simp: vfile_read_def Let_def ld)
  qed
  have r1: "read_int ?pf 0 iv0 = Some 8" using r [of 0] by (simp add: read_int_def assms(1))
  have r2: "read_int ?pf 4 8 = Some n" using r [of 4] by (simp add: read_int_def assms(1))
  have m: "?pf\<lparr>cf_offset := 8\<rparr> = memfile (bytes_of_u32 8 @ bytes_of_u32 n) body" by (simp add: memfile_def assms(1))
  show ?thesis unfolding gw_conf_restore_def o using r1 r2 assms(3) m by (simp add: Let_def)
qed

lemma sint_small: "0 < n \<Longrightarrow> n < 1073741824 \<Longrightarrow> 0 < sint (of_nat n :: u32)"
  by (simp add: signed_of_nat signed_take_bit_int_eq_self)

lemma restore_image:
  assumes "8 + length (tlvs es) + k < 1073741824" "\<forall>h \<in> set hs. ch_func_r h \<noteq> None" "conf_find hs 0 = None" "es \<noteq> []"
  shows "\<exists>pf'. gw_conf_restore mem iv0 t0 l0 (0, of_nat (length (conf_image es (replicate k 0))), conf_image es (replicate k 0)) hs pf0 s =
    Some (Some (0, pf', fold (restore_entry mem hs) es s))"
proof -
  let ?n = "length (tlvs es)"
  let ?pre = "bytes_of_u32 8 @ bytes_of_u32 (of_nat ?n)"
  have sm: "small ?pre (tlvs es @ replicate k 0)" using assms(1) by (simp add: small_def)
  have pos: "sint (of_nat ?n :: u32) > 0" using assms(1,4) by (intro sint_small) (cases es; simp)+
  from restore_records [OF sm assms(2), of mem t0 l0 s] assms(4) obtain t l where
    1: "restore_loop mem hs t0 l0 (memfile ?pre (tlvs es @ replicate k 0)) s =
      restore_loop mem hs t l (memfile (?pre @ tlvs es) (replicate k 0)) (fold (restore_entry mem hs) es s)" "unat l < 1073741824" by blast
  have "small (?pre @ tlvs es) (replicate k 0)" using assms(1) by (simp add: small_def)
  from restore_zeros [OF this assms(3) 1(2), of mem t "fold (restore_entry mem hs) es s"] obtain pf' where
    "restore_loop mem hs t l (memfile (?pre @ tlvs es) (replicate k 0)) (fold (restore_entry mem hs) es s) =
      Some (Some (pf', fold (restore_entry mem hs) es s))" by blast
  moreover have len: "length (conf_image es (replicate k 0)) < 1073741824" using assms(1) by (simp add: conf_image_def)
  note restore_header [OF conf_image_def [of es "replicate k 0"] len pos, of mem iv0 t0 l0 hs pf0 s]
  ultimately show ?thesis unfolding 1(1) by simp
qed

lemma restore_entries_own:
  assumes "list_all2 (\<lambda>h e. fst e = ch_type h) hs' es" "set hs' \<subseteq> set hs" "distinct (map ch_type hs)"
    and "\<forall>h \<in> set hs. ch_func_r h \<noteq> None"
  shows "fold (restore_entry (\<lambda>_. True) hs) es s =
    fold (\<lambda>(h, e). the (ch_func_r h) (of_nat (length (snd e))) (snd e)) (zip hs' es) s"
  using assms(1,2)
proof (induction hs' es arbitrary: s rule: list_all2_induct)
  case (Cons h hs' e es)
  have "List.find (\<lambda>p. ch_type p = ch_type h) hs = Some h"
  proof (cases "List.find (\<lambda>p. ch_type p = ch_type h) hs")
    case None
    then show ?thesis using Cons.prems by (auto simp: find_None_iff)
  next
    case (Some h')
    then show ?thesis using find_SomeD [OF Some] Cons.prems assms(3) by (auto simp: distinct_map inj_on_def)
  qed
  then have "restore_entry (\<lambda>_. True) hs e s = the (ch_func_r h) (of_nat (length (snd e))) (snd e) s"
    using Cons.hyps(1) Cons.prems assms(4) by (auto simp: restore_entry_def conf_find_type)
  then show ?case using Cons by simp
qed simp

text \<open>A record with length \<open>-8\<close> and without a handler leaves the offset where it was.\<close>

lemma restore_loop_stuck:
  assumes "length pre = 8" "small pre gap" "8 \<le> length gap"
    and "u32_of_bytes (drop 4 gap) = -8" "conf_find hs (u32_of_bytes gap) = None"
  shows "restore_loop mem hs t l (memfile pre gap) s = None"
proof (rule ccontr)
  let ?m = "memfile pre gap"
  have o: "cf_offset ?m = of_nat (length pre + 0)" "cf_offset ?m + 4 = of_nat (length pre + 4)"
    by (simp_all add: memfile_def)
  have lt: "cf_offset ?m < cf_len ?m"
    using assms(1-3) by (simp add: memfile_def small_def word_less_nat_alt unat_of_nat_u32 del: of_nat_add) auto
  have t: "read_int ?m (cf_offset ?m) t = Some (u32_of_bytes gap)" for t
    unfolding o(1) using read_int_memfile(1) [OF assms(2), of 0 t] assms(3) by simp
  have l: "read_int ?m (cf_offset ?m + 4) l = Some (-8)" for l
    unfolding o(2) using read_int_memfile(1) [OF assms(2), of 4 l] assms(3,4) by simp
  have b: "cf_offset ?m + 4 + 4 + - 8 = cf_offset ?m" by simp
  have nb: "\<not> cf_offset ?m + 4 + 4 + - 8 > cf_len ?m" unfolding b using lt by simp
  have mv: "?m\<lparr>cf_offset := cf_offset ?m + 4 + 4 + - 8\<rparr> = ?m" unfolding b by simp
  assume "restore_loop mem hs t l ?m s \<noteq> None"
  then obtain y where y: "restore_loop mem hs t l ?m s = Some y" by auto
  have "\<not> (?m = memfile pre gap \<and> hs = hs)"
  proof (rule restore_loop.raw_induct [where P = "\<lambda>mem' hs' t l pf s y. \<not> (pf = memfile pre gap \<and> hs' = hs)", OF _ y])
    fix loop mem' hs' t l pf s y
    assume IH: "\<And>mem' hs' t l pf s y. loop mem' hs' t l pf s = Some y \<Longrightarrow> \<not> (pf = memfile pre gap \<and> hs' = hs)"
      and body: "(if cf_offset pf < cf_len pf
      then (case read_int pf (cf_offset pf) t of
              None \<Rightarrow> Some None
            | Some type \<Rightarrow>
                (case read_int pf (cf_offset pf + 4) l of
                   None \<Rightarrow> Some None
                 | Some len \<Rightarrow>
                     (let off = cf_offset pf + 4 + 4 in
                      if off + len > cf_len pf then Some (Some (pf\<lparr>cf_offset := off\<rparr>, s))
                      else (case conf_find hs' type of
                              None \<Rightarrow> loop mem' hs' type len (pf\<lparr>cf_offset := off + len\<rparr>) s
                            | Some p \<Rightarrow>
                                if \<not> mem' len then loop mem' hs' type len (pf\<lparr>cf_offset := off + len\<rparr>) s
                                else (case vfile_read pf off len of
                                        None \<Rightarrow> Some None
                                      | Some (_, data) \<Rightarrow>
                                          (case ch_func_r p of
                                             None \<Rightarrow> Some None
                                           | Some r \<Rightarrow> loop mem' hs' type len
                                               (pf\<lparr>cf_offset := off + len\<rparr>) (r len data s)))))))
      else Some (Some (pf, s))) = Some y"
    show "\<not> (pf = memfile pre gap \<and> hs' = hs)"
    proof
      assume e: "pf = memfile pre gap \<and> hs' = hs"
      from body have "loop mem' hs (u32_of_bytes gap) (- 8) ?m s = Some y"
        unfolding conjunct1 [OF e] conjunct2 [OF e] if_P [OF lt] t l option.case Let_def if_not_P [OF nb] assms(5) mv .
      from IH [OF this] show False by simp
    qed
  qed
  then show False by simp
qed

text \<open>The value of the last record is not written when it does not fit.\<close>

lemma save_lost:
  assumes "saves s h (t, b)" "16 \<le> length buf" "8 + length b \<le> length buf" "length buf < 16 + length b" "length buf < 1073741824"
  shows "\<exists>pf1. gw_conf_save rcp er wfl (0, of_nat (length buf), buf) [h] 1 pf s = Some (wfl,
    bytes_of_u32 8 @ bytes_of_u32 (of_nat (8 + length b)) @ bytes_of_u32 t @ bytes_of_u32 (of_nat (length b)) @ drop 16 buf, pf1, rcp s)"
proof -
  let ?n = "length b" and ?hd = "take 8 buf"
  have f: "ch_type h = t" "\<exists>f. ch_func_s h = Some f \<and> f s = (GW_OK, of_nat ?n, Some b)"
    using assms(1) by (auto simp: saves_def split: option.splits)
  let ?m0 = "memfile ?hd (drop 8 buf)" and ?m1 = "memfile (?hd @ bytes_of_u32 t) (drop 12 buf)"
    and ?m2 = "memfile (?hd @ bytes_of_u32 t @ bytes_of_u32 (of_nat ?n)) (drop 16 buf)"
  have m0: "pf\<lparr>cf_isfs := 0, cf_len := of_nat (length buf), cf_data := buf, cf_offset := 8\<rparr> = ?m0"
    using assms(2) by (simp add: memfile_def)
  have "\<not> (8 + of_nat ?n :: u32) > of_nat (length buf)"
    using assms fits_iff [of "8 + ?n" "length buf"] by (simp add: not_less)
  then have c: "\<not> (cf_isfs ?m0 = 0 \<and> cf_offset ?m0 + of_nat ?n > cf_len ?m0)" using assms(2) by (simp add: memfile_def)
  have 1: "put_int t ?m0 = Some ?m1" using put_int_memfile [of ?hd "drop 8 buf" t] assms(2,5) by (simp add: small_def)
  have 2: "put_int (of_nat ?n) ?m1 = Some ?m2"
    using put_int_memfile [of "?hd @ bytes_of_u32 t" "drop 12 buf" "of_nat ?n"] assms(2,5) by (simp add: small_def)
  have "\<not> (of_nat ?n + 16 :: u32) \<le> of_nat (length buf)"
    using assms fits_iff [of "?n + 16" "length buf"] by simp
  then have 3: "vfile_write ?m2 (cf_offset ?m2) (of_nat ?n) b = Some (0, ?m2)"
    using assms(2) by (simp add: vfile_write_def memfile_def Let_def)
  have r: "save_record t (of_nat ?n) b ?m0 = Some (Some (?m2\<lparr>cf_offset := cf_offset ?m2 + of_nat ?n\<rparr>))"
    unfolding save_record_def if_not_P [OF c] 1 2 3 option.case prod.case ..
  let ?m3 = "?m2\<lparr>cf_offset := cf_offset ?m2 + of_nat ?n\<rparr>"
  define hs where "hs = [h]"
  have sh: "save_handlers hs s ?m0 = Some ?m3" using f r by (auto simp: hs_def)
  have d: "cf_data ?m3 = ?hd @ bytes_of_u32 t @ bytes_of_u32 (of_nat ?n) @ drop 16 buf" "cf_isfs ?m3 = 0"
    "cf_offset ?m3 - 8 = of_nat (8 + ?n)" "unat (cf_len ?m3) = length (cf_data ?m3)"
    using assms(2,5) by (simp_all add: memfile_def unat_of_nat_u32 del: of_nat_add) (simp add: memfile_def)
  have len: "length (cf_data ?m3) = length buf" unfolding d(1) using assms(2) by simp
  obtain r1 where w1: "vfile_write ?m3 0 4 (bytes_of_u32 8) = Some (r1, ?m3\<lparr>cf_data := bytes_of_u32 8 @ drop 4 (cf_data ?m3)\<rparr>)"
    using mem_write_at [of ?m3 0 "bytes_of_u32 8"] d len assms by auto
  let ?m4 = "?m3\<lparr>cf_data := bytes_of_u32 8 @ drop 4 (cf_data ?m3)\<rparr>"
  have m4: "length (cf_data ?m4) = length buf" "cf_isfs ?m4 = 0" "unat (cf_len ?m4) = length (cf_data ?m4)"
    using d len assms(2) by simp_all
  have "4 + length (bytes_of_u32 (of_nat (8 + ?n))) \<le> length (cf_data ?m4)" using m4(1) assms(2) by simp
  from mem_write_at [OF m4(2,3) this] m4(1) assms(5) obtain r2 where w2: "vfile_write ?m4 4 4 (bytes_of_u32 (of_nat (8 + ?n))) =
     Some (r2, ?m4\<lparr>cf_data := bytes_of_u32 8 @ bytes_of_u32 (of_nat (8 + ?n)) @ drop 8 (cf_data ?m3)\<rparr>)" by auto
  have e: "drop 8 (cf_data ?m3) = bytes_of_u32 t @ bytes_of_u32 (of_nat ?n) @ drop 16 buf" unfolding d(1) using assms(2) by simp
  show ?thesis
    unfolding gw_conf_save_def vfile_open_def hs_def [symmetric] using m0 sh w1 w2 d(3) e by simp
qed

text \<open>A record that is longer than what is left ends the restore.\<close>

lemma restore_loop_short:
  assumes "small pre gap" "8 \<le> length gap" "gap = bytes_of_u32 t @ bytes_of_u32 (of_nat n) @ rest" "length rest < n" "n < 1073741824"
  shows "\<exists>pf'. restore_loop mem hs t0 l0 (memfile pre gap) s = Some (Some (pf', s))"
proof -
  let ?m = "memfile pre gap"
  have o: "cf_offset ?m = of_nat (length pre + 0)" "cf_offset ?m + 4 = of_nat (length pre + 4)" "cf_offset ?m + 4 + 4 = of_nat (length pre + 8)"
    by (simp_all add: memfile_def)
  have t: "read_int ?m (cf_offset ?m) t0 = Some t"
    unfolding o(1) using read_int_memfile(1) [OF assms(1), of 0 t0] assms(2,3) by simp
  have l: "read_int ?m (cf_offset ?m + 4) l0 = Some (of_nat n)"
    unfolding o(2) using read_int_memfile(1) [OF assms(1), of 4 l0] assms(2,3) by simp
  have "\<not> (of_nat (length pre + 8 + n) :: u32) \<le> of_nat (length pre + length gap)"
    using assms fits_iff [of "length pre + 8 + n" "length pre + length gap"] by (simp add: small_def)
  then have nb: "cf_offset ?m + 4 + 4 + of_nat n > cf_len ?m" unfolding o(3) by (simp add: memfile_def not_le)
  show ?thesis
    unfolding restore_loop.simps [of mem hs t0 l0 ?m s] t l option.case Let_def if_P [OF nb] by simp
qed

text \<open>A save and a restore of what it wrote.\<close>

lemma save_then_restore:
  assumes "list_all2 (saves s) hs es" "hs \<noteq> []" "distinct (map ch_type hs)"
    and "\<forall>h \<in> set hs. ch_func_r h \<noteq> None \<and> ch_type h \<noteq> 0"
    and "8 + length (tlvs es) \<le> length buf" "length buf < 1073741824" "drop (8 + length (tlvs es)) buf = replicate k 0"
  shows "\<exists>data pf1 pf2. gw_conf_save rcp er wfl (0, of_nat (length buf), buf) hs 1 pf s = Some (wfl, data, pf1, rcp s) \<and>
    gw_conf_restore (\<lambda>_. True) iv0 t0 l0 (0, of_nat (length data), data) hs pf1 s' =
      Some (Some (0, pf2, fold (\<lambda>(h, e). the (ch_func_r h) (of_nat (length (snd e))) (snd e)) (zip hs es) s'))"
proof -
  have es: "es \<noteq> []" using assms(1,2) by auto
  have r: "\<forall>h \<in> set hs. ch_func_r h \<noteq> None" and z: "conf_find hs 0 = None"
    using assms(4) by (auto simp: conf_find_type find_None_iff)
  have k: "8 + length (tlvs es) + k < 1073741824" using arg_cong [OF assms(7), of length] assms(5,6) by simp
  have "list_all2 (\<lambda>h e. fst e = ch_type h) hs es" using assms(1) by (rule list_all2_mono) (simp add: saves_def)
  note own = restore_entries_own [OF this _ assms(3) r]
  from restore_image [OF k r z es, of "\<lambda>_. True" iv0 t0 l0 "vfile_close (memfile (take 8 buf @ tlvs es) [])" s'] obtain pf2 where
    "gw_conf_restore (\<lambda>_. True) iv0 t0 l0 (0, of_nat (length (conf_image es (replicate k 0))), conf_image es (replicate k 0)) hs
       (vfile_close (memfile (take 8 buf @ tlvs es) [])) s' = Some (Some (0, pf2, fold (restore_entry (\<lambda>_. True) hs) es s'))" by blast
  then show ?thesis
    using save_image [OF assms(1,5,6), of rcp er wfl pf] own [of s'] unfolding assms(7) by auto
qed

section \<open>Properties\<close>

text \<open>
  C27. What \<^verbatim>\<open>gw_conf_save\<close> writes to a memory buffer, \<^verbatim>\<open>gw_conf_restore\<close> gives back: every
  handler is called once, in the order of registration, with the bytes and the length it saved.
  The types are distinct and not 0, the records fit and the rest of the buffer is zero.
\<close>

theorem conf_save_restore:
  assumes "list_all2 (saves s) hs es" "hs \<noteq> []" "distinct (map ch_type hs)"
    and "\<forall>h \<in> set hs. ch_func_r h \<noteq> None \<and> ch_type h \<noteq> 0"
    and "8 + length (tlvs es) \<le> length buf" "length buf < 1073741824" "drop (8 + length (tlvs es)) buf = replicate k 0"
  shows "\<exists>data pf1 pf2. gw_conf_save rcp er wfl (0, of_nat (length buf), buf) hs 1 pf s = Some (wfl, data, pf1, rcp s) \<and>
    gw_conf_restore (\<lambda>_. True) iv0 t0 l0 (0, of_nat (length data), data) hs pf1 s' =
      Some (Some (0, pf2, fold (\<lambda>(h, e). the (ch_func_r h) (of_nat (length (snd e))) (snd e)) (zip hs es) s'))"
  by (rule save_then_restore [OF assms])

theorem conf_save_restore_witness:
  "\<exists>data pf1 pf2. gw_conf_save id (\<lambda>s. (0, s)) 0 (0, 64, replicate 64 0)
       [\<lparr>ch_type = 1, ch_func_s = Some (\<lambda>s. (0, of_nat (length s), Some s)), ch_func_r = Some (\<lambda>_ b _. b)\<rparr>] 1 gw_conf_file_init [7, 8, 9] =
       Some (0, data, pf1, [7, 8, 9]) \<and>
     gw_conf_restore (\<lambda>_. True) 0 0 0 (0, of_nat (length data), data)
       [\<lparr>ch_type = 1, ch_func_s = Some (\<lambda>s. (0, of_nat (length s), Some s)), ch_func_r = Some (\<lambda>_ b _. b)\<rparr>] pf1 [] =
       Some (Some (0, pf2, [7, 8, 9]))"
  using conf_save_restore [of "[7, 8, 9]" "[\<lparr>ch_type = 1, ch_func_s = Some (\<lambda>s. (0, of_nat (length s), Some s)),
      ch_func_r = Some (\<lambda>_ b _. b)\<rparr>]" "[(1, [7, 8, 9])]" "replicate 64 0" 45 id "\<lambda>s. (0, s)" 0 gw_conf_file_init 0 0 0 "[]"]
  by (simp add: saves_def GW_OK_def)

text \<open>
  Handlers registered one after the other: the registry holds for each type the handlers of
  its first registration, and types without a registration have none.
\<close>

theorem conf_registry:
  "conf_reg_inv (fold (\<lambda>(t, s, r) hs. snd (gw_register_conf_handlers True hs t s r)) kvs []) \<and>
   conf_lookup (fold (\<lambda>(t, s, r) hs. snd (gw_register_conf_handlers True hs t s r)) kvs []) t = map_of kvs t"
proof -
  have "fold (\<lambda>(t, s, r) hs. snd (gw_register_conf_handlers True hs t s r)) kvs hs = confreg.register_all hs kvs" for hs :: "'a conf_handle list"
    by (induction kvs arbitrary: hs) (auto simp: conf_insert_def split: prod.split)
  then show ?thesis
    using confreg.register_all_lookup [of "[] :: 'a conf_handle list" kvs t]
    by (simp add: conf_reg_inv_def conf_lookup_def conf_find_def list_all_iff)
qed

text \<open>
  A record of \<open>n\<close> bytes in a buffer with less than \<open>n + 16\<close> bytes passes the check of the
  save, which does not count the eight bytes of type and length: the header counts it, but its
  value is not written, and the restore leaves the state as it is.
\<close>

theorem conf_record_lost:
  assumes "saves s h (t, b)" "16 \<le> length buf" "8 + length b \<le> length buf" "length buf < 16 + length b" "length buf < 1073741824"
  shows "\<exists>data pf1 pf2. gw_conf_save rcp er wfl (0, of_nat (length buf), buf) [h] 1 pf s = Some (wfl, data, pf1, rcp s) \<and>
    data = bytes_of_u32 8 @ bytes_of_u32 (of_nat (8 + length b)) @ bytes_of_u32 t @ bytes_of_u32 (of_nat (length b)) @ drop 16 buf \<and>
    gw_conf_restore mem iv0 t0 l0 (0, of_nat (length data), data) hs pf1 s' = Some (Some (0, pf2, s'))"
proof -
  let ?n = "length b" and ?hd = "take 8 buf" and ?gap = "drop 8 buf"
  let ?data = "bytes_of_u32 8 @ bytes_of_u32 (of_nat (8 + ?n)) @ bytes_of_u32 t @ bytes_of_u32 (of_nat ?n) @ drop 16 buf"
  obtain pf1 where save: "gw_conf_save rcp er wfl (0, of_nat (length buf), buf) [h] 1 pf s = Some (wfl, ?data, pf1, rcp s)"
    using save_lost [OF assms(1-5)] by blast
  have sm: "small (bytes_of_u32 8 @ bytes_of_u32 (of_nat (8 + ?n))) (bytes_of_u32 t @ bytes_of_u32 (of_nat ?n) @ drop 16 buf)"
    using assms(2,5) by (simp add: small_def)
  have len: "length ?data < 1073741824" using assms(2,5) by simp
  have pos: "0 < sint (of_nat (8 + ?n) :: u32)" using assms(3,5) by (intro sint_small) auto
  have "8 \<le> length (bytes_of_u32 t @ bytes_of_u32 (of_nat ?n) @ drop 16 buf)" "length (drop 16 buf) < ?n" "?n < 1073741824"
    using assms(2-5) by auto
  from restore_loop_short [OF sm this(1) refl this(2,3), of mem hs t0 l0 s'] obtain pf' where
    r: "restore_loop mem hs t0 l0 (memfile (bytes_of_u32 8 @ bytes_of_u32 (of_nat (8 + ?n)))
      (bytes_of_u32 t @ bytes_of_u32 (of_nat ?n) @ drop 16 buf)) s' = Some (Some (pf', s'))" by blast
  have "?data = bytes_of_u32 8 @ bytes_of_u32 (of_nat (8 + ?n)) @ (bytes_of_u32 t @ bytes_of_u32 (of_nat ?n) @ drop 16 buf)" by simp
  from restore_header [OF this len pos, of mem iv0 t0 l0 hs pf1 s', unfolded r] save show ?thesis by auto
qed

theorem conf_record_lost_witness:
  "\<exists>data pf1 pf2. gw_conf_save id (\<lambda>s. (0, s)) 0 (0, 24, replicate 24 0)
       [\<lparr>ch_type = 1, ch_func_s = Some (\<lambda>s. (0, of_nat (length s), Some s)), ch_func_r = Some (\<lambda>_ b _. b)\<rparr>] 1 gw_conf_file_init (replicate 16 5) =
       Some (0, data, pf1, replicate 16 5) \<and>
     gw_conf_restore (\<lambda>_. True) 0 0 0 (0, of_nat (length data), data)
       [\<lparr>ch_type = 1, ch_func_s = Some (\<lambda>s. (0, of_nat (length s), Some s)), ch_func_r = Some (\<lambda>_ b _. b)\<rparr>] pf1 [] =
       Some (Some (0, pf2, []))"
  using conf_record_lost [of "replicate 16 5" "\<lparr>ch_type = 1, ch_func_s = Some (\<lambda>s. (0, of_nat (length s), Some s)),
      ch_func_r = Some (\<lambda>_ b _. b)\<rparr>" 1 "replicate 16 5" "replicate 24 0" id "\<lambda>s. (0, s)" 0 gw_conf_file_init "\<lambda>_. True" 0 0 0
      "[\<lparr>ch_type = 1, ch_func_s = Some (\<lambda>s. (0, of_nat (length s), Some s)), ch_func_r = Some (\<lambda>_ b _. b)\<rparr>]" "[]"]
  by (auto simp: saves_def GW_OK_def)

text \<open>
  A record of a type without a handler whose length field is -8 makes the restore run
  forever.
\<close>

theorem conf_restore_diverges:
  assumes "data = bytes_of_u32 8 @ bytes_of_u32 n @ bytes_of_u32 t @ bytes_of_u32 (-8) @ rest"
    and "0 < sint n" "conf_find hs t = None" "length data < 1073741824"
  shows "gw_conf_restore mem iv0 t0 l0 (0, of_nat (length data), data) hs pf s = None"
proof -
  let ?gap = "bytes_of_u32 t @ bytes_of_u32 (-8) @ rest"
  have d: "data = bytes_of_u32 8 @ bytes_of_u32 n @ ?gap" by (simp add: assms(1))
  have "small (bytes_of_u32 8 @ bytes_of_u32 n) ?gap" using assms(4) by (simp add: small_def d)
  then have "restore_loop mem hs t0 l0 (memfile (bytes_of_u32 8 @ bytes_of_u32 n) ?gap) s = None"
    using assms(3) by (intro restore_loop_stuck) auto
  then show ?thesis unfolding restore_header [OF d assms(4,2)] by simp
qed

theorem conf_restore_diverges_witness:
  "gw_conf_restore (\<lambda>_. True) 0 0 0 (0, 32, bytes_of_u32 8 @ bytes_of_u32 24 @ bytes_of_u32 5 @ bytes_of_u32 (-8) @ replicate 16 0)
     [] gw_conf_file_init () = None"
  using conf_restore_diverges [OF refl, of 24 "[]" 5 "replicate 16 0" "\<lambda>_. True" 0 0 0 gw_conf_file_init "()"]
  by (simp add: conf_find_def)

end
