(* ===== verification/Qos.thy ===== *)
theory Qos
  imports Keyed_Store
begin

text \<open>
  The VLAN to queue map of \<^verbatim>\<open>qos/qos.c\<close>: a list of rules, one per port and VLAN, its
  handlers for the configuration file and its transfer to the switch. The list theory shows
  that the intrusive list acts as the list of rules used here.
\<close>

section \<open>Rules\<close>

record qos_vlan =
  qv_port :: u32
  qv_vid :: u32
  qv_queue :: u32

definition qos_key :: "u32 \<Rightarrow> u32 \<Rightarrow> u32" where
  "qos_key port vlanid = (push_bit 16 port OR vlanid)"

definition qos_vlan_queue_compare :: "qos_vlan \<Rightarrow> u32 \<Rightarrow> int" where
  "qos_vlan_queue_compare pv key =
     (let port = drop_bit 16 key; vlan = key AND 0xffff
      in if qv_port pv = port \<and> qv_vid pv = vlan then 0 else -1)"

definition qos_find :: "qos_vlan list \<Rightarrow> u32 \<Rightarrow> qos_vlan option" where
  "qos_find l key = List.find (\<lambda>p. qos_vlan_queue_compare p key = 0) l"

text \<open>\<open>mem\<close>: \<^verbatim>\<open>malloc\<close> succeeds.\<close>

definition gw_qos_vlan_queue_add :: "bool \<Rightarrow> qos_vlan list \<Rightarrow> u32 \<Rightarrow> u32 \<Rightarrow> u32 \<Rightarrow> int \<times> qos_vlan list" where
  "gw_qos_vlan_queue_add mem l port vlanid queue =
     (if qos_find l (qos_key port vlanid) = None
      then if mem then (GW_OK, l @ [\<lparr>qv_port = port, qv_vid = vlanid, qv_queue = queue\<rparr>])
           else (GW_ERROR, l)
      else (GW_ERROR, l))"

text \<open>The entry found is unlinked: the first one that matches the key.\<close>

fun unlink_first :: "(qos_vlan \<Rightarrow> bool) \<Rightarrow> qos_vlan list \<Rightarrow> qos_vlan list" where
  "unlink_first P [] = []"
| "unlink_first P (x # xs) = (if P x then xs else x # unlink_first P xs)"

definition gw_qos_vlan_queue_remove :: "qos_vlan list \<Rightarrow> u32 \<Rightarrow> u32 \<Rightarrow> int \<times> qos_vlan list" where
  "gw_qos_vlan_queue_remove l port vlanid =
     (let key = qos_key port vlanid in
      if qos_find l key = None then (GW_ERROR, l)
      else (0, unlink_first (\<lambda>p. qos_vlan_queue_compare p key = 0) l))"

text \<open>
  \<open>copied i\<close>: \<^verbatim>\<open>malloc\<close> succeeds for the copy of rule \<open>i\<close>; \<open>mem\<close>: for the result. The result
  is the count and the array stored through \<^verbatim>\<open>pv\<close>, if any.
\<close>

definition gw_qos_vlan_queue_entry_get_by_port ::
  "(nat \<Rightarrow> bool) \<Rightarrow> bool \<Rightarrow> qos_vlan list \<Rightarrow> u8 \<Rightarrow> int \<times> qos_vlan list option" where
  "gw_qos_vlan_queue_entry_get_by_port copied mem l port =
     (let plist = (if port = 0xff then l
                   else map snd (filter (\<lambda>(i, p). qv_port p = ucast port \<and> copied i) (enumerate 0 l)))
      in if length plist > 0 \<and> mem then (int (length plist), Some plist) else (0, None))"

text \<open>
  \<open>queue_map count rules\<close>: the result of the interface function \<^verbatim>\<open>LIB_IF_QOS_VLAN_QUEUE_MAP\<close>.
  The second component is its call.
\<close>

definition gw_qos_vlan_queue_rules_apply ::
  "(int \<Rightarrow> qos_vlan list option \<Rightarrow> int) \<Rightarrow> bool \<Rightarrow> qos_vlan list \<Rightarrow> bool \<Rightarrow> int \<times> (int \<times> qos_vlan list option) option" where
  "gw_qos_vlan_queue_rules_apply queue_map mem l reset =
     (let (count, pd) = (if reset then (0, None) else gw_qos_vlan_queue_entry_get_by_port (\<lambda>_. True) mem l 0xff) in
      if count \<ge> 0
      then (if queue_map count pd \<noteq> GW_OK then GW_ERROR else GW_OK, Some (count, pd))
      else (GW_ERROR, None))"

section \<open>The handlers of the configuration file\<close>

definition rule_bytes :: "qos_vlan \<Rightarrow> u8 list" where
  "rule_bytes p = bytes_of_u32 (qv_port p) @ bytes_of_u32 (qv_vid p) @ bytes_of_u32 (qv_queue p)"

text \<open>The status, and the length and buffer stored through the pointers.\<close>

definition gw_qos_vlan_showrun :: "bool \<Rightarrow> qos_vlan list \<Rightarrow> int \<times> u32 \<times> u8 list option" where
  "gw_qos_vlan_showrun mem l =
     (let len = of_nat (length l) * 3 * 4 in
      if mem then (GW_OK, len, Some (concat (map rule_bytes l))) else (GW_ERROR, len, None))"

text \<open>The rules in a buffer, with the port cut to \<^verbatim>\<open>gw_uint8\<close>.\<close>

fun restore_rules :: "nat \<Rightarrow> u8 list \<Rightarrow> (nat \<Rightarrow> bool) \<Rightarrow> qos_vlan list \<Rightarrow> qos_vlan list" where
  "restore_rules 0 bs mem l = l"
| "restore_rules (Suc n) bs mem l =
     (let port = ucast (ucast (u32_of_bytes bs) :: u8); vid = u32_of_bytes (drop 4 bs); queue = u32_of_bytes (drop 8 bs)
      in restore_rules n (drop 12 bs) mem (snd (gw_qos_vlan_queue_add (mem n) l port vid queue)))"

text \<open>
  \<open>len\<close> is divided as an unsigned number. \<open>mem n\<close>: \<^verbatim>\<open>malloc\<close> succeeds with \<open>n\<close> rules to go.
\<close>

definition gw_qos_vlan_restore ::
  "(nat \<Rightarrow> bool) \<Rightarrow> (int \<Rightarrow> qos_vlan list option \<Rightarrow> int) \<Rightarrow> bool \<Rightarrow> u32 \<Rightarrow> u8 list \<Rightarrow> qos_vlan list \<Rightarrow>
   int \<times> qos_vlan list \<times> (int \<times> qos_vlan list option) option" where
  "gw_qos_vlan_restore mem queue_map amem len pv l =
     (let num = unat len div 12; l' = restore_rules num pv mem l
      in (0, l', snd (gw_qos_vlan_queue_rules_apply queue_map amem l' False)))"

section \<open>Lemmas\<close>

text \<open>Ports and VLANs below \<open>65536\<close> are the two halves of their key.\<close>

definition half_words :: "u32 \<times> u32 \<Rightarrow> bool" where
  "half_words k \<longleftrightarrow> unat (fst k) < 65536 \<and> unat (snd k) < 65536"

lemma low_bits: "unat (w :: u32) < 65536 \<Longrightarrow> bit w n \<Longrightarrow> n < 16"
proof -
  assume "unat w < 65536" "bit w n"
  then have "take_bit 16 (unat w) = unat w" "bit (unat w) n" by (simp_all add: take_bit_nat_eq_self bit_unsigned_iff)
  then show "n < 16" by (metis bit_take_bit_iff)
qed

lemma ffff_mask: "(0xffff :: u32) = mask 16"
  by (simp add: mask_eq_exp_minus_1)

lemma key_halves:
  assumes "half_words (port, vid)"
  shows "drop_bit 16 (qos_key port vid) = port" "qos_key port vid AND 0xffff = vid"
proof -
  have h: "bit port n \<Longrightarrow> n < 16" "bit vid n \<Longrightarrow> n < 16" for n
    using assms low_bits by (auto simp: half_words_def)
  show "drop_bit 16 (qos_key port vid) = port"
    using h(1) by (intro bit_word_eqI) (auto simp: qos_key_def bit_simps dest: h(2))
  show "qos_key port vid AND 0xffff = vid"
    unfolding ffff_mask by (intro bit_word_eqI) (auto simp: qos_key_def bit_simps dest: h(2))
qed

lemma compare_key: "half_words (port, vid) \<Longrightarrow> qos_vlan_queue_compare p (qos_key port vid) = 0 \<longleftrightarrow> qv_port p = port \<and> qv_vid p = vid"
  by (simp add: qos_vlan_queue_compare_def key_halves)

text \<open>Rules in range, at most one per port and VLAN.\<close>

definition rules_wf :: "qos_vlan list \<Rightarrow> bool" where
  "rules_wf l \<longleftrightarrow> distinct (map (\<lambda>p. (qv_port p, qv_vid p)) l) \<and> list_all (\<lambda>p. half_words (qv_port p, qv_vid p)) l"

definition rule_of :: "qos_vlan list \<Rightarrow> u32 \<times> u32 \<Rightarrow> u32 option" where
  "rule_of l k = map_option qv_queue (qos_find l (qos_key (fst k) (snd k)))"

definition add_rule :: "qos_vlan list \<Rightarrow> u32 \<times> u32 \<Rightarrow> u32 \<Rightarrow> bool \<times> qos_vlan list" where
  "add_rule l k q = (case gw_qos_vlan_queue_add True l (fst k) (snd k) q of (r, l') \<Rightarrow> (r = GW_OK, l'))"

definition remove_rule :: "qos_vlan list \<Rightarrow> u32 \<times> u32 \<Rightarrow> bool \<times> qos_vlan list" where
  "remove_rule l k = (case gw_qos_vlan_queue_remove l (fst k) (snd k) of (r, l') \<Rightarrow> (r = 0, l'))"

lemma qos_find_key:
  "half_words k \<Longrightarrow> qos_find l (qos_key (fst k) (snd k)) = List.find (\<lambda>p. (qv_port p, qv_vid p) = k) l"
  by (cases k) (simp add: qos_find_def compare_key cong: List.find_cong)

lemma qos_find_None: "half_words k \<Longrightarrow> qos_find l (qos_key (fst k) (snd k)) = None \<longleftrightarrow> k \<notin> (\<lambda>p. (qv_port p, qv_vid p)) ` set l"
  by (auto simp: qos_find_key find_None_iff)

lemma unlink_first_filter:
  "distinct (map f l) \<Longrightarrow> unlink_first (\<lambda>p. f p = k) l = filter (\<lambda>p. f p \<noteq> k) l"
proof (induction l)
  case (Cons a l)
  have "filter (\<lambda>p. f p \<noteq> f a) l = l" using Cons.prems by (simp add: filter_id_conv) (metis imageI)
  then show ?case using Cons by auto
qed simp

lemma find_filter_neq:
  "List.find (\<lambda>p. f p = j) (filter (\<lambda>p. f p \<noteq> k) l) = (if j = k then None else List.find (\<lambda>p. f p = j) l)"
  by (induction l) auto

lemma unlink_key:
  assumes "rules_wf l" "half_words k"
  shows "unlink_first (\<lambda>p. qos_vlan_queue_compare p (qos_key (fst k) (snd k)) = 0) l = filter (\<lambda>p. (qv_port p, qv_vid p) \<noteq> k) l"
  using unlink_first_filter [of "\<lambda>p. (qv_port p, qv_vid p)" l k] assms
  by (cases k) (simp add: compare_key rules_wf_def)

lemma remove_rule_filter:
  assumes "rules_wf l" "half_words k"
  shows "remove_rule l k = (rule_of l k \<noteq> None, filter (\<lambda>p. (qv_port p, qv_vid p) \<noteq> k) l)"
proof (cases "qos_find l (qos_key (fst k) (snd k)) = None")
  case True
  then have "filter (\<lambda>p. (qv_port p, qv_vid p) \<noteq> k) l = l"
    using qos_find_None [OF assms(2), of l] by (auto simp: filter_id_conv)
  then show ?thesis using True by (simp add: remove_rule_def gw_qos_vlan_queue_remove_def rule_of_def gw_status_defs)
next
  case False
  then show ?thesis using unlink_key [OF assms] by (auto simp: remove_rule_def gw_qos_vlan_queue_remove_def rule_of_def Let_def)
qed

interpretation qosmap: store rules_wf half_words rule_of add_rule remove_rule
proof unfold_locales
  fix l :: "qos_vlan list" and k v b l' assume a: "rules_wf l" "half_words k" "add_rule l k v = (b, l')"
  show "b = (rule_of l k = None)"
    using a(3) by (auto simp: add_rule_def gw_qos_vlan_queue_add_def rule_of_def gw_status_defs split: if_splits)
  show "rules_wf l'"
    using a qos_find_None [OF a(2)] by (cases k) (auto simp: add_rule_def gw_qos_vlan_queue_add_def rules_wf_def split: if_splits)
next
  fix l :: "qos_vlan list" and k j v b l' assume a: "rules_wf l" "half_words k" "half_words j" "add_rule l k v = (b, l')"
  show "rule_of l' j = (if b \<and> j = k then Some v else rule_of l j)"
  proof (cases "qos_find l (qos_key (fst k) (snd k)) = None")
    case True
    then have l': "l' = l @ [\<lparr>qv_port = fst k, qv_vid = snd k, qv_queue = v\<rparr>]" "b"
      using a(4) by (simp_all add: add_rule_def gw_qos_vlan_queue_add_def)
    show ?thesis using True a(2,3) by (auto simp: l' rule_of_def qos_find_key find_append split: option.split)
  next
    case False
    then show ?thesis using a(4) by (auto simp: add_rule_def gw_qos_vlan_queue_add_def gw_status_defs)
  qed
next
  fix l :: "qos_vlan list" and k b l' assume a: "rules_wf l" "half_words k" "remove_rule l k = (b, l')"
  show "b = (rule_of l k \<noteq> None)" using a(3) unfolding remove_rule_filter [OF a(1,2)] by simp
  show "rules_wf l'" using a(1,3) unfolding remove_rule_filter [OF a(1,2)]
    by (auto simp: rules_wf_def distinct_map_filter list_all_iff)
next
  fix l :: "qos_vlan list" and k j b l' assume a: "rules_wf l" "half_words k" "half_words j" "remove_rule l k = (b, l')"
  show "rule_of l' j = (if j = k then None else rule_of l j)"
    using a(3,4) find_filter_neq [of "\<lambda>p. (qv_port p, qv_vid p)" j k l] unfolding remove_rule_filter [OF a(1,2)]
    by (auto simp: rule_of_def qos_find_key)
qed

text \<open>One rule operation, as the clients of the map call it.\<close>

fun qos_step :: "qos_vlan list \<Rightarrow> (u32 \<times> u32, u32) store_op \<Rightarrow> bool \<times> qos_vlan list" where
  "qos_step l (Insert k q) = add_rule l k q"
| "qos_step l (Delete k) = remove_rule l k"

lemma qos_step_store: "store_run qos_step l cs = store_run qosmap.step l cs"
proof (induction cs arbitrary: l)
  case (Cons c cs)
  have "qos_step l c = qosmap.step l c" by (cases c) simp_all
  then show ?case using Cons by simp
qed simp

lemma length_rule_bytes [simp]: "length (rule_bytes p) = 12"
  by (simp add: rule_bytes_def)

lemma length_rules_bytes [simp]: "length (concat (map rule_bytes l)) = length l * 12"
  by (induction l) simp_all

lemma rule_bytes_fields:
  "u32_of_bytes (rule_bytes p @ bs) = qv_port p" "u32_of_bytes (drop 4 (rule_bytes p @ bs)) = qv_vid p"
  "u32_of_bytes (drop 8 (rule_bytes p @ bs)) = qv_queue p" "drop 12 (rule_bytes p @ bs) = bs"
  by (simp_all add: rule_bytes_def)

lemma port_byte: "unat (w :: u32) < 256 \<Longrightarrow> ucast (ucast w :: u8) = w"
  by (rule word_unat_eq_iff [THEN iffD2]) (simp add: unsigned_ucast_eq unsigned_take_bit_eq take_bit_nat_eq_self)

lemma restore_rules_bytes:
  assumes "rules_wf (l @ rs)" "list_all (\<lambda>p. unat (qv_port p) < 256) rs"
  shows "restore_rules (length rs) (concat (map rule_bytes rs)) (\<lambda>_. True) l = l @ rs"
  using assms
proof (induction rs arbitrary: l)
  case (Cons r rs)
  have hw: "half_words (qv_port r, qv_vid r)" using Cons.prems(1) by (simp add: rules_wf_def)
  have "qos_find l (qos_key (qv_port r) (qv_vid r)) = None"
    using qos_find_None [OF hw, of l] Cons.prems(1) by (force simp: rules_wf_def)
  then have "snd (gw_qos_vlan_queue_add True l (qv_port r) (qv_vid r) (qv_queue r)) = l @ [r]"
    by (simp add: gw_qos_vlan_queue_add_def)
  then show ?case
    using Cons.IH [of "l @ [r]"] Cons.prems rule_bytes_fields [of r "concat (map rule_bytes rs)"]
    by (simp add: port_byte Let_def)
qed simp

lemma enumerate_filter:
  "map snd (filter (\<lambda>(i, p). P p) (enumerate k l)) = filter P l"
  by (induction l arbitrary: k) auto

section \<open>Properties\<close>

text \<open>
  C28. For every sequence of rule insertions and removals with ports and VLANs below 65536, the
  list of rules behaves as a map from port and VLAN to queue: an insertion succeeds exactly
  when the pair has no rule, a removal exactly when it has one, and the rules in force are
  those of the map.
\<close>

theorem vlan_rules_trace:
  assumes "list_all (\<lambda>c. half_words (op_key c)) cs" "store_run qos_step [] cs = (rs, l)"
  shows "rs = fst (map_run (\<lambda>_. None) cs) \<and> rules_wf l \<and>
    (\<forall>k. half_words k \<longrightarrow> rule_of l k = snd (map_run (\<lambda>_. None) cs) k)"
proof -
  have "qosmap.agree [] (\<lambda>_. None)" by (simp add: qosmap.agree_def rules_wf_def rule_of_def qos_find_def)
  from qosmap.run_agree [OF this assms(1), of rs l] assms(2) show ?thesis
    by (simp add: qosmap.agree_def qos_step_store)
qed

theorem vlan_rules_trace_witness:
  "\<exists>l. store_run qos_step [] [Insert (1, 100) 3, Insert (1, 100) 4, Insert (2, 100) 5, Delete (2, 100)] = ([True, False, True, True], l) \<and>
     rule_of l (1, 100) = Some 3 \<and> rule_of l (2, 100) = None"
proof -
  let ?cs = "[Insert (1, 100) 3, Insert (1, 100) 4, Insert (2, 100) 5, Delete (2, 100)] :: (u32 \<times> u32, u32) store_op list"
  obtain rs l where r: "store_run qos_step [] ?cs = (rs, l)" by (cases "store_run qos_step [] ?cs")
  have "list_all (\<lambda>c. half_words (op_key c)) ?cs" by (simp add: half_words_def)
  from vlan_rules_trace [OF this r] r show ?thesis by (auto simp: half_words_def)
qed

text \<open>
  The rules saved by \<^verbatim>\<open>gw_qos_vlan_showrun\<close> and restored by \<^verbatim>\<open>gw_qos_vlan_restore\<close> are the
  same rules in the same order, for ports below 256, and they are all applied to the switch.
\<close>

theorem vlan_rules_save_restore:
  assumes "rules_wf l" "list_all (\<lambda>p. unat (qv_port p) < 256) l" "length l * 12 < 4294967296"
  shows "\<exists>len bs. gw_qos_vlan_showrun True l = (GW_OK, len, Some bs) \<and> unat len = length bs \<and>
    gw_qos_vlan_restore (\<lambda>_. True) queue_map True len bs [] =
      (0, l, Some (int (length l), if l = [] then None else Some l))"
proof -
  have len: "unat (12 * of_nat (length l) :: u32) = length l * 12"
    using unat_of_nat_u32 [OF assms(3)] by (simp add: mult.commute)
  have e: "gw_qos_vlan_queue_entry_get_by_port (\<lambda>_. True) True l 255 = (int (length l), if l = [] then None else Some l)"
    by (simp add: gw_qos_vlan_queue_entry_get_by_port_def)
  show ?thesis
    using restore_rules_bytes [of "[]" l] assms(1,2) len e
    by (simp add: gw_qos_vlan_showrun_def gw_qos_vlan_restore_def gw_qos_vlan_queue_rules_apply_def Let_def mult.commute)
qed

theorem vlan_rules_save_restore_witness:
  "\<exists>len bs. gw_qos_vlan_showrun True [\<lparr>qv_port = 3, qv_vid = 4094, qv_queue = 7\<rparr>, \<lparr>qv_port = 4, qv_vid = 1, qv_queue = 2\<rparr>] =
       (GW_OK, len, Some bs) \<and> length bs = 24 \<and>
     fst (snd (gw_qos_vlan_restore (\<lambda>_. True) (\<lambda>_ _. 0) True len bs [])) =
       [\<lparr>qv_port = 3, qv_vid = 4094, qv_queue = 7\<rparr>, \<lparr>qv_port = 4, qv_vid = 1, qv_queue = 2\<rparr>]"
  using vlan_rules_save_restore [of "[\<lparr>qv_port = 3, qv_vid = 4094, qv_queue = 7\<rparr>, \<lparr>qv_port = 4, qv_vid = 1, qv_queue = 2\<rparr>]" "\<lambda>_ _. 0"]
  by (auto simp: rules_wf_def half_words_def gw_qos_vlan_showrun_def)

text \<open>
  The rules reported for a port are the rules of that port in their order; port 255 stands
  for all ports. Without rules, or without memory, nothing is reported.
\<close>

theorem rules_by_port:
  "gw_qos_vlan_queue_entry_get_by_port (\<lambda>_. True) mem l port =
     (let rs = if port = 255 then l else filter (\<lambda>p. qv_port p = ucast port) l in
      if rs \<noteq> [] \<and> mem then (int (length rs), Some rs) else (0, None))"
  by (simp add: gw_qos_vlan_queue_entry_get_by_port_def enumerate_filter Let_def)

end
