(* ===== verification/Rcp_Reg.thy ===== *)
theory Rcp_Reg
  imports Prelude
begin

text \<open>
  Register fields of an attached switch (\<^verbatim>\<open>apps/rcp_gwd.c\<close>, lines 1084 to 1456): the port
  tables, the fields of 16-bit registers, the EEPROM behind two of the registers, and the place
  in the EEPROM that belongs to a register. The functions are over the operations of the
  link to one switch, \<open>rcp_io\<close>; the theory of the link provides them.
\<close>

section \<open>Results\<close>

text \<open>
  An operation returns an error code (\<open>Inl\<close>) or, where the code returns \<^verbatim>\<open>RCP_OK\<close>, what it
  stores through its output pointer (\<open>Inr\<close>). \<open>None\<close> is a loop that does not end or an access
  beyond a table.
\<close>

abbreviation RCP_FAIL :: int where "RCP_FAIL \<equiv> 1"
abbreviation RCP_BAD_VALUE :: int where "RCP_BAD_VALUE \<equiv> 2"
abbreviation RCP_BAD_PARAM :: int where "RCP_BAD_PARAM \<equiv> 3"
abbreviation RCP_NOT_FOUND :: int where "RCP_NOT_FOUND \<equiv> 4"
abbreviation RCP_NO_MORE :: int where "RCP_NO_MORE \<equiv> 5"
abbreviation RCP_NO_SUCH :: int where "RCP_NO_SUCH \<equiv> 6"
abbreviation RCP_TIMEOUT :: int where "RCP_TIMEOUT \<equiv> 7"
abbreviation RCP_NOT_SUPPORTED :: int where "RCP_NOT_SUPPORTED \<equiv> 8"
abbreviation RCP_ALREADY_EXIST :: int where "RCP_ALREADY_EXIST \<equiv> 9"
abbreviation RCP_NOT_INITIALIZED :: int where "RCP_NOT_INITIALIZED \<equiv> 10"
abbreviation RCP_ILLEGAL_ADDRESS :: int where "RCP_ILLEGAL_ADDRESS \<equiv> 12"
abbreviation RCP_NO_MEM :: int where "RCP_NO_MEM \<equiv> 15"
abbreviation RCP_UNKOWN :: int where "RCP_UNKOWN \<equiv> 16"
abbreviation RCP_NO_RESOURCE :: int where "RCP_NO_RESOURCE \<equiv> 17"
abbreviation RCP_ILLEGAL_AUTHKEY :: int where "RCP_ILLEGAL_AUTHKEY \<equiv> 25"

type_synonym ('s, 'a) rcp = "'s \<Rightarrow> ((int + 'a) \<times> 's) option"

definition rcp_ret :: "'a \<Rightarrow> ('s, 'a) rcp" where "rcp_ret x s = Some (Inr x, s)"
definition rcp_err :: "int \<Rightarrow> ('s, 'a) rcp" where "rcp_err e s = Some (Inl e, s)"
definition rcp_fault :: "('s, 'a) rcp" where "rcp_fault s = None"

text \<open>The idiom \<^verbatim>\<open>if(RCP_OK != (ret = m)) return ret;\<close>.\<close>

definition rcp_bind :: "('s, 'a) rcp \<Rightarrow> ('a \<Rightarrow> ('s, 'b) rcp) \<Rightarrow> ('s, 'b) rcp" where
  "rcp_bind m f s = Option.bind (m s) (\<lambda>(r, s'). case r of Inl e \<Rightarrow> Some (Inl e, s') | Inr x \<Rightarrow> f x s')"

definition rcp_then :: "('s, 'a) rcp \<Rightarrow> ('s, 'b) rcp \<Rightarrow> ('s, 'b) rcp" where
  "rcp_then m k = rcp_bind m (\<lambda>_. k)"

text \<open>A loop over a list that stops at the first error.\<close>

fun rcp_each :: "('a \<Rightarrow> ('s, unit) rcp) \<Rightarrow> 'a list \<Rightarrow> ('s, unit) rcp" where
  "rcp_each f [] = rcp_ret ()"
| "rcp_each f (x # xs) = rcp_then (f x) (rcp_each f xs)"

lemma rcp_bind_simps [simp]:
  "m s = Some (Inr x, s') \<Longrightarrow> rcp_bind m f s = f x s'"
  "m s = Some (Inl e, s') \<Longrightarrow> rcp_bind m f s = Some (Inl e, s')"
  "m s = None \<Longrightarrow> rcp_bind m f s = None"
  "m s = Some (Inr x, s') \<Longrightarrow> rcp_then m k s = k s'"
  "m s = Some (Inl e, s') \<Longrightarrow> rcp_then m k s = Some (Inl e, s')"
  "m s = None \<Longrightarrow> rcp_then m k s = None"
  by (simp_all add: rcp_bind_def rcp_then_def)

lemma rcp_pure_simps [simp]:
  "rcp_bind (rcp_ret x) f = f x" "rcp_bind (rcp_err e) f = rcp_err e" "rcp_bind rcp_fault f = rcp_fault"
  "rcp_then (rcp_ret x) k = k" "rcp_then (rcp_err e) k = rcp_err e" "rcp_then rcp_fault k = rcp_fault"
  by (auto simp: rcp_bind_def rcp_then_def rcp_ret_def rcp_err_def rcp_fault_def fun_eq_iff)

lemma rcp_bind_ok: "rcp_bind m f s = Some (Inr y, s'') \<longleftrightarrow> (\<exists>x s'. m s = Some (Inr x, s') \<and> f x s' = Some (Inr y, s''))"
  by (cases "m s") (auto simp: rcp_bind_def split: sum.splits)

lemma rcp_bind_assoc: "rcp_bind (rcp_bind m f) g = rcp_bind m (\<lambda>x. rcp_bind (f x) g)"
  by (rule ext) (auto simp: rcp_bind_def split: Option.bind_split sum.splits)

section \<open>A switch\<close>

text \<open>
  The data kept of a switch (\<^verbatim>\<open>struct _RCP_DEV\<close>). Its function pointers are the same for
  every device and are called directly here.
\<close>

record rcp_dev =
  rd_deviceId :: nat
  rd_switchMac :: "u8 list"
  rd_previousswitchMac :: "u8 list"
  rd_parentMac :: "u8 list"
  rd_chipID :: "u8 list"
  rd_vendorID :: "u8 list"
  rd_authenKey :: "u8 list"
  rd_upLinkPort :: u8
  rd_parentPort :: u8
  rd_paSlot :: u8
  rd_paPort :: u8
  rd_onlineStatus :: u8
  rd_alarmMask :: u8
  rd_vlanPort :: "u32 list"
  rd_vlanVid :: "u16 list"
  rd_vlanPortIsolate :: u8
  rd_numOfPorts :: nat
  rd_timeoutCounter :: u8
  rd_timeoutFlag :: u8
  rd_mgtVid :: u16
  rd_phyAddr :: u16
  rd_modelID :: "u8 list"
  rd_previousOnlineStatus :: u8
  rd_alarmStatus :: u8
  rd_previousUplinkPort :: u32
  rd_loopStatus :: u32
  rd_loopAndDown :: u32

definition GH1508 :: nat where "GH1508 = 0"
definition GH1516 :: nat where "GH1516 = 1"
definition GH1524 :: nat where "GH1524 = 2"
definition GH1532 :: nat where "GH1532 = 3"
definition MAX_RCP_VLAN_NUM :: nat where "MAX_RCP_VLAN_NUM = 32"
definition MAX_RCP_PORT_NUM :: nat where "MAX_RCP_PORT_NUM = 32"

lemmas rcp_limits = GH1508_def GH1516_def GH1524_def GH1532_def MAX_RCP_VLAN_NUM_def MAX_RCP_PORT_NUM_def

text \<open>What the operations on registers use of the link: \<^verbatim>\<open>RCP_Read_Reg\<close>, \<^verbatim>\<open>RCP_Read_32bit_Reg\<close>,
  \<^verbatim>\<open>RCP_Write_Reg\<close>, and the data of the device. \<open>io_junk\<close> is the value of an uninitialised byte of
  the stack.\<close>

record 's rcp_io =
  io_read :: "u16 \<Rightarrow> ('s, u16) rcp"
  io_read32 :: "u16 \<Rightarrow> ('s, u32) rcp"
  io_write :: "u16 \<Rightarrow> u16 \<Rightarrow> ('s, unit) rcp"
  io_dev :: "'s \<Rightarrow> rcp_dev"
  io_mod :: "(rcp_dev \<Rightarrow> rcp_dev) \<Rightarrow> 's \<Rightarrow> 's"
  io_junk :: u8

definition rcp_dev_get :: "'s rcp_io \<Rightarrow> (rcp_dev \<Rightarrow> 'a) \<Rightarrow> ('s, 'a) rcp" where
  "rcp_dev_get io f s = Some (Inr (f (io_dev io s)), s)"

definition rcp_dev_mod :: "'s rcp_io \<Rightarrow> (rcp_dev \<Rightarrow> rcp_dev) \<Rightarrow> ('s, unit) rcp" where
  "rcp_dev_mod io f s = Some (Inr (), io_mod io f s)"

section \<open>Ports\<close>

text \<open>
  \<^verbatim>\<open>gDevBoradInfo\<close>, \<^verbatim>\<open>gDevUnitInfo\<close>, \<^verbatim>\<open>gDevLPortInfo\<close> and \<^verbatim>\<open>gDevPPortInfo\<close>, one row per device
  type; a row shorter than 33 entries is filled with zeros.
\<close>

definition gDevBoradInfo :: "(nat \<times> nat) list" where
  "gDevBoradInfo = [(1, 8), (1, 16), (1, 24), (1, 32)]"

definition gDevUnitInfo :: "(nat \<times> nat) list" where
  "gDevUnitInfo = [(0, 8), (0, 16), (0, 24), (0, 32)]"

definition gDevLPortInfo :: "(nat \<times> nat) list list" where
  "gDevLPortInfo =
     [((0xFF, 0xFF) # map (Pair 0) [0..<8] @ replicate 8 (0xFF, 0xFF)) @ replicate 16 (0, 0),
      ((0xFF, 0xFF) # map (Pair 0) [0..<16]) @ replicate 16 (0, 0),
      ((0xFF, 0xFF) # map (Pair 0) [0..<24]) @ replicate 8 (0, 0),
      (0xFF, 0xFF) # map (Pair 0) [0..<32]]"

definition gDevPPortInfo :: "(nat \<times> nat) list list" where
  "gDevPPortInfo =
     [map (Pair 1) [1..<9] @ replicate 25 (0, 0),
      map (Pair 1) [1..<17] @ replicate 17 (0, 0),
      map (Pair 1) [1..<25] @ replicate 9 (0, 0),
      map (Pair 1) [1..<33] @ [(0, 0)]]"

text \<open>Only slot 1 and unit 0 pass the tests, so the index is the port itself.\<close>

definition RCPLPort2Port :: "nat \<Rightarrow> nat \<Rightarrow> nat \<Rightarrow> int + nat \<times> nat" where
  "RCPLPort2Port deviceId slot lPort =
     (if deviceId \<ge> length gDevBoradInfo then Inl RCP_BAD_PARAM
      else if slot > fst (gDevBoradInfo ! deviceId) \<or> slot = 0 then Inl RCP_BAD_VALUE
      else if lPort > snd (gDevBoradInfo ! deviceId) \<or> lPort = 0 then Inl RCP_BAD_VALUE
      else Inr (gDevLPortInfo ! deviceId ! ((slot - 1) * 24 + lPort)))"

definition RCPPort2LPort :: "nat \<Rightarrow> nat \<Rightarrow> nat \<Rightarrow> int + nat \<times> nat" where
  "RCPPort2LPort deviceId unit phyPort =
     (if deviceId \<ge> length gDevUnitInfo then Inl RCP_BAD_PARAM
      else if unit > fst (gDevUnitInfo ! deviceId) then Inl RCP_BAD_VALUE
      else if phyPort > snd (gDevUnitInfo ! deviceId) then Inl RCP_BAD_VALUE
      else Inr (gDevPPortInfo ! deviceId ! (unit * 24 + phyPort)))"

definition rcp_lift :: "int + 'a \<Rightarrow> ('s, 'a) rcp" where
  "rcp_lift r s = Some (r, s)"

text \<open>\<^verbatim>\<open>rrcp_dev->frcpLPort2Port(rrcp_dev, slot, port, &unit, &phyPort)\<close>, of which the physical port is used.\<close>

definition phy_of :: "'s rcp_io \<Rightarrow> nat \<Rightarrow> nat \<Rightarrow> ('s, nat) rcp" where
  "phy_of io slot port =
     rcp_bind (rcp_dev_get io rd_deviceId) (\<lambda>d. rcp_bind (rcp_lift (RCPLPort2Port d slot port)) (\<lambda>(unit, phyPort). rcp_ret phyPort))"

section \<open>Fields of a register\<close>

text \<open>\<^verbatim>\<open>CALC_MASK\<close>, on the type of the mask variable.\<close>

definition CALC_MASK :: "nat \<Rightarrow> nat \<Rightarrow> 'a::len word" where
  "CALC_MASK fieldOffset fieldLen =
     (if fieldLen + fieldOffset \<ge> 16 then 0 - push_bit fieldOffset 1
      else push_bit (fieldLen + fieldOffset) 1 - push_bit fieldOffset 1)"

definition field_get :: "nat \<Rightarrow> nat \<Rightarrow> 'a::len word \<Rightarrow> 'a word" where
  "field_get off len w = drop_bit off (w AND CALC_MASK off len)"

definition field_set :: "nat \<Rightarrow> nat \<Rightarrow> 'a::len word \<Rightarrow> 'a word \<Rightarrow> 'a word" where
  "field_set off len d w = (w AND NOT (CALC_MASK off len)) OR (push_bit off d AND CALC_MASK off len)"

definition RCP_GetRegField :: "'s rcp_io \<Rightarrow> u16 \<Rightarrow> nat \<Rightarrow> nat \<Rightarrow> ('s, u16) rcp" where
  "RCP_GetRegField io regAddr fieldOffset fieldLength =
     rcp_bind (io_read io regAddr) (\<lambda>tmpData. rcp_ret (field_get fieldOffset fieldLength tmpData))"

definition RCP_SetRegisterField :: "'s rcp_io \<Rightarrow> u16 \<Rightarrow> nat \<Rightarrow> nat \<Rightarrow> u16 \<Rightarrow> ('s, unit) rcp" where
  "RCP_SetRegisterField io regAddr fieldOffset fieldLength data =
     rcp_bind (io_read io regAddr) (\<lambda>tmpData. io_write io regAddr (field_set fieldOffset fieldLength data tmpData))"

section \<open>The EEPROM\<close>

abbreviation RT8326_EEPROM_RW_CTL :: u16 where "RT8326_EEPROM_RW_CTL \<equiv> 0x0217"
abbreviation RT8326_EEPROM_RW_DATA :: u16 where "RT8326_EEPROM_RW_DATA \<equiv> 0x0218"

text \<open>The loop \<^verbatim>\<open>do { if(RCP_OK != (ret = m)) return ret; } while(data != 0)\<close>.\<close>

partial_function (option) poll_zero :: "('s, u16) rcp \<Rightarrow> 's \<Rightarrow> ((int + unit) \<times> 's) option" where
  "poll_zero m s = Option.bind (m s) (\<lambda>(r, s'). case r of Inl e \<Rightarrow> Some (Inl e, s')
     | Inr d \<Rightarrow> if d \<noteq> 0 then poll_zero m s' else Some (Inr (), s'))"

text \<open>
  When the switch reports a failed access, the code returns \<^verbatim>\<open>ret\<close>, which is \<^verbatim>\<open>RCP_OK\<close>, and leaves
  the output alone; the result is then \<open>Inr None\<close>.
\<close>

definition RCP_GetEepromValue :: "'s rcp_io \<Rightarrow> u16 \<Rightarrow> ('s, u8 option) rcp" where
  "RCP_GetEepromValue io eeAddr =
     rcp_then (RCP_SetRegisterField io RT8326_EEPROM_RW_CTL 0 12 (eeAddr OR 0x0800))
     (rcp_then (poll_zero (RCP_GetRegField io RT8326_EEPROM_RW_CTL 12 1))
     (rcp_bind (RCP_GetRegField io RT8326_EEPROM_RW_CTL 13 1) (\<lambda>data.
        if data = 0
        then rcp_bind (RCP_GetRegField io RT8326_EEPROM_RW_DATA 8 8) (\<lambda>data. rcp_ret (Some (ucast data)))
        else rcp_ret None)))"

definition RCP_SetEepromValue :: "'s rcp_io \<Rightarrow> u16 \<Rightarrow> u8 \<Rightarrow> ('s, unit) rcp" where
  "RCP_SetEepromValue io eeAddr value =
     rcp_then (RCP_SetRegisterField io RT8326_EEPROM_RW_DATA 0 8 (ucast value))
     (rcp_then (RCP_SetRegisterField io RT8326_EEPROM_RW_CTL 0 12 (eeAddr OR 0x0000))
     (rcp_then (poll_zero (RCP_GetRegField io RT8326_EEPROM_RW_CTL 12 1))
     (rcp_bind (RCP_GetRegField io RT8326_EEPROM_RW_CTL 13 1) (\<lambda>data. rcp_ret ()))))"

text \<open>\<^verbatim>\<open>tmpData\<close> is uninitialised when the EEPROM reports a failure.\<close>

definition RCP_GetEepromField :: "'s rcp_io \<Rightarrow> u16 \<Rightarrow> nat \<Rightarrow> nat \<Rightarrow> ('s, u8) rcp" where
  "RCP_GetEepromField io eeAddr fieldOffset fieldLen =
     rcp_bind (RCP_GetEepromValue io eeAddr) (\<lambda>v. rcp_ret (field_get fieldOffset fieldLen (case v of Some b \<Rightarrow> b | None \<Rightarrow> io_junk io)))"

definition RCP_SetEepromField :: "'s rcp_io \<Rightarrow> u16 \<Rightarrow> nat \<Rightarrow> nat \<Rightarrow> u8 \<Rightarrow> ('s, unit) rcp" where
  "RCP_SetEepromField io eeAddr fieldOffset fieldLen value =
     rcp_bind (RCP_GetEepromValue io eeAddr) (\<lambda>v.
       RCP_SetEepromValue io eeAddr (field_set fieldOffset fieldLen value (case v of Some b \<Rightarrow> b | None \<Rightarrow> io_junk io)))"

section \<open>The place of a register in the EEPROM\<close>

definition eeMgt :: "u16 list" where
  "eeMgt = [0xc, 0xd, 0xe, 0xf, 0x10, 0x11, 0x12, 0x13, 0x14, 0x15, 0x16, 0x17, 0x18, 0x19, 0x1a, 0x1b, 0x1c, 0x1d]"
definition eeQos :: "u16 list" where
  "eeQos = [0x2e, 0x2f, 0x30, 0x31, 0x32, 0x33]"
definition eePort :: "u16 list" where
  "eePort = [0x3a, 0x3b, 0x3c, 0x3d, 0x3e, 0x3f, 0x40, 0x41, 0x42, 0x43, 0x44, 0x45, 0x46, 0x47, 0x48]"
definition eeMirror :: "u16 list" where
  "eeMirror = [0x72, 0x73, 0x74, 0x75, 0x76, 0x77, 0x78, 0x79, 0x7a, 0x7b]"
definition eeBW :: "u16 list" where
  "eeBW = [0x80, 0x81, 0x82, 0x83, 0x84, 0x85, 0x86, 0x87, 0x88, 0x89, 0x8a, 0x8b, 0x8c, 0x8d, 0x8e, 0x8f]"
definition eeVlan :: "u16 list" where
  "eeVlan = map of_nat [0x98..<0xa2] @ [0x12] @ map of_nat [0xa3..<0x180]"

text \<open>One half of a register, from a table: byte \<open>2 * i\<close> for the lower eight bits, \<open>2 * i + 1\<close> for the others.\<close>

definition ee_half :: "u16 list \<Rightarrow> nat \<Rightarrow> nat \<Rightarrow> nat \<Rightarrow> (int + u16 \<times> nat \<times> nat) option" where
  "ee_half tab i fieldOffset fieldLength =
     (if fieldOffset < 8
      then if 2 * i < length tab then Some (Inr (tab ! (2 * i), fieldOffset, fieldLength)) else None
      else if 2 * i + 1 < length tab then Some (Inr (tab ! (2 * i + 1), fieldOffset - 8, fieldLength)) else None)"

definition RCP_GetEeaddrFromReg :: "u16 \<Rightarrow> nat \<Rightarrow> nat \<Rightarrow> (int + u16 \<times> nat \<times> nat) option" where
  "RCP_GetEeaddrFromReg regAddr fieldOffset fieldLength =
     (let r = unat regAddr in
      if 0x0200 \<le> r \<and> r \<le> 0x0208 then ee_half eeMgt (r - 0x0200) fieldOffset fieldLength
      else if 0x020A \<le> r \<and> r \<le> 0x0211 then ee_half eeBW (r - 0x020A) fieldOffset fieldLength
      else if 0x0219 \<le> r \<and> r \<le> 0x021D then ee_half eeMirror (r - 0x0219) fieldOffset fieldLength
      else if r = 0x0300 then Some (Inr (0x22, fieldOffset, fieldLength))
      else if r = 0x0308 then Some (Inr (0x26, fieldOffset, fieldLength))
      else if r = 0x030B then Some (Inr (0x28, fieldOffset, fieldLength))
      else if 0x030C \<le> r \<and> r \<le> 0x037D then ee_half eeVlan (r - 0x030C) fieldOffset fieldLength
      else if 0x0400 \<le> r \<and> r \<le> 0x0402 then ee_half eeQos (r - 0x0400) fieldOffset fieldLength
      else if r = 0x0607 then Some (Inr (0x38, fieldOffset, fieldLength))
      else if r = 0x0608 then Some (Inr (if fieldOffset < 8 then 0x68 else 0x69, fieldOffset, fieldLength))
      else if 0x060A \<le> r \<and> r \<le> 0x0611 then ee_half eePort (r - 0x060A) fieldOffset fieldLength
      else Some (Inl RCP_BAD_PARAM))"

definition ee_place :: "u16 \<Rightarrow> nat \<Rightarrow> nat \<Rightarrow> ('s, u16 \<times> nat \<times> nat) rcp" where
  "ee_place regAddr off len s = (case RCP_GetEeaddrFromReg regAddr off len of None \<Rightarrow> None | Some r \<Rightarrow> Some (r, s))"

section \<open>Setting a field in the register, the EEPROM, or both\<close>

definition RCP_CONFIG_REGISTER :: u32 where "RCP_CONFIG_REGISTER = 1"
definition RCP_CONFIG_EEPROM :: u32 where "RCP_CONFIG_EEPROM = 2"
definition RCP_CONFIG_2_BOTH :: u32 where "RCP_CONFIG_2_BOTH = 3"

lemmas rcp_flags = RCP_CONFIG_REGISTER_def RCP_CONFIG_EEPROM_def RCP_CONFIG_2_BOTH_def

definition RCP_SetRegField :: "'s rcp_io \<Rightarrow> u16 \<Rightarrow> nat \<Rightarrow> nat \<Rightarrow> u16 \<Rightarrow> u32 \<Rightarrow> ('s, unit) rcp" where
  "RCP_SetRegField io regAddr fieldOffset fieldLength data flag =
     rcp_then
       (if flag AND RCP_CONFIG_EEPROM = 0x02
        then rcp_bind (ee_place regAddr fieldOffset fieldLength) (\<lambda>(eeAddr, eeOffset, eeLength).
               RCP_SetEepromField io eeAddr eeOffset eeLength (ucast data))
        else rcp_ret ())
       (if flag AND RCP_CONFIG_REGISTER = 0x01
        then RCP_SetRegisterField io regAddr fieldOffset fieldLength data
        else rcp_ret ())"

section \<open>Masks and fields\<close>

lemma push_bit_1_diff: "push_bit (off + len) 1 - push_bit off 1 = (push_bit off (mask len) :: 'a::len word)"
  by (simp add: mask_eq_exp_minus_1 push_bit_eq_mult power_add algebra_simps)

lemma bit_CALC_MASK:
  "LENGTH('a::len) \<le> 16 \<Longrightarrow> bit (CALC_MASK off len :: 'a word) n \<longleftrightarrow> off \<le> n \<and> n < off + len \<and> n < LENGTH('a)"
proof (cases "len + off \<ge> 16")
  case True
  assume l: "LENGTH('a) \<le> 16"
  have "CALC_MASK off len = (NOT (mask off) :: 'a word)" using True by (simp add: CALC_MASK_def minus_exp_eq_not_mask push_bit_eq_mult)
  then show ?thesis using l True by (auto simp: bit_simps)
next
  case False
  then have "CALC_MASK off len = (push_bit off (mask len) :: 'a word)" using push_bit_1_diff [of off len] by (simp add: CALC_MASK_def add.commute)
  then show ?thesis by (auto simp: bit_simps)
qed

lemma bit_field_get:
  "LENGTH('a::len) \<le> 16 \<Longrightarrow> bit (field_get off len (w :: 'a word)) n \<longleftrightarrow> n < len \<and> bit w (off + n)"
  using bit_imp_le_length [of w "off + n"] by (auto simp: field_get_def bit_drop_bit_eq bit_and_iff bit_CALC_MASK)

lemma bit_field_set:
  "LENGTH('a::len) \<le> 16 \<Longrightarrow> bit (field_set off len d (w :: 'a word)) n \<longleftrightarrow>
     (if off \<le> n \<and> n < off + len then n < LENGTH('a) \<and> bit d (n - off) else bit w n)"
  using bit_imp_le_length [of w n] bit_imp_le_length [of d "n - off"]
  by (auto simp: field_set_def bit_or_iff bit_and_iff bit_not_iff bit_push_bit_iff bit_CALC_MASK)

lemma field_get_set:
  "off + len \<le> LENGTH('a::len) \<Longrightarrow> LENGTH('a) \<le> 16 \<Longrightarrow> field_get off len (field_set off len d w) = take_bit len (d :: 'a word)"
  by (rule bit_word_eqI) (auto simp: bit_field_get bit_field_set bit_take_bit_iff)

lemma field_get_set_other:
  "off + len \<le> off' \<or> off' + len' \<le> off \<Longrightarrow> LENGTH('a::len) \<le> 16 \<Longrightarrow>
     field_get off len (field_set off' len' d w) = field_get off len (w :: 'a word)"
  by (rule bit_word_eqI) (auto simp: bit_field_get bit_field_set)

lemma field_set_outside: "off \<ge> LENGTH('a::len) \<Longrightarrow> LENGTH('a) \<le> 16 \<Longrightarrow> field_set off len d w = (w :: 'a word)"
  by (rule bit_word_eqI) (auto simp: bit_field_set)

lemma field_get_outside: "off \<ge> LENGTH('a::len) \<Longrightarrow> LENGTH('a) \<le> 16 \<Longrightarrow> field_get off len w = (0 :: 'a word)"
  by (rule bit_word_eqI) (use bit_imp_le_length in \<open>fastforce simp: bit_field_get\<close>)

lemma field_set_full: "len \<ge> LENGTH('a::len) \<Longrightarrow> LENGTH('a) \<le> 16 \<Longrightarrow> field_set 0 len d w = (d :: 'a word)"
  by (rule bit_word_eqI) (auto simp: bit_field_set)

lemma field_get_full: "len \<ge> LENGTH('a::len) \<Longrightarrow> LENGTH('a) \<le> 16 \<Longrightarrow> field_get 0 len w = (w :: 'a word)"
  by (rule bit_word_eqI) (use bit_imp_le_length in \<open>fastforce simp: bit_field_get\<close>)

section \<open>Simulation\<close>

text \<open>
  An operation on the state of the link simulates one on a view of it: same result, same
  effect on the view. The rules follow the structure of the code.
\<close>

definition rcp_sim :: "('s \<Rightarrow> bool) \<Rightarrow> ('s \<Rightarrow> 'v) \<Rightarrow> ('s, 'a) rcp \<Rightarrow> ('v, 'a) rcp \<Rightarrow> bool" where
  "rcp_sim ok view m f \<longleftrightarrow>
     (\<forall>s r v. ok s \<longrightarrow> f (view s) = Some (r, v) \<longrightarrow> (\<exists>s'. m s = Some (r, s') \<and> ok s' \<and> view s' = v))"

named_theorems rcp_sims \<open>simulation of each operation\<close>

lemma rcp_simD:
  "rcp_sim ok view m f \<Longrightarrow> ok s \<Longrightarrow> f (view s) = Some (r, v) \<Longrightarrow> \<exists>s'. m s = Some (r, s') \<and> ok s' \<and> view s' = v"
  by (auto simp: rcp_sim_def)

lemma rcp_sim_pure [rcp_sims]:
  "rcp_sim ok view (rcp_ret x) (rcp_ret x)" "rcp_sim ok view (rcp_err e) (rcp_err e)"
  "rcp_sim ok view (rcp_lift r) (rcp_lift r)" "rcp_sim ok view (ee_place a off len) (ee_place a off len)"
  by (auto simp: rcp_sim_def rcp_ret_def rcp_err_def rcp_lift_def ee_place_def split: option.splits)

lemma rcp_sim_bind [rcp_sims]:
  assumes "rcp_sim ok view m f" "\<And>x. rcp_sim ok view (k x) (g x)"
  shows "rcp_sim ok view (rcp_bind m k) (rcp_bind f g)"
  unfolding rcp_sim_def
proof (intro allI impI)
  fix s r v assume o: "ok s" and g: "rcp_bind f g (view s) = Some (r, v)"
  then obtain q u where q: "f (view s) = Some (q, u)" by (cases "f (view s)") auto
  from rcp_simD [OF assms(1) o q] obtain s1 where s1: "m s = Some (q, s1)" "ok s1" "view s1 = u" by blast
  show "\<exists>s'. rcp_bind m k s = Some (r, s') \<and> ok s' \<and> view s' = v"
  proof (cases q)
    case (Inl e)
    then show ?thesis using s1 q g by auto
  next
    case (Inr x)
    then have "g x (view s1) = Some (r, v)" using q g s1(3) by simp
    from rcp_simD [OF assms(2) s1(2) this] show ?thesis using s1(1) Inr by simp
  qed
qed

lemma rcp_sim_then [rcp_sims]:
  "rcp_sim ok view m f \<Longrightarrow> rcp_sim ok view k g \<Longrightarrow> rcp_sim ok view (rcp_then m k) (rcp_then f g)"
  by (simp add: rcp_then_def rcp_sim_bind)

lemma rcp_sim_control [rcp_sims]:
  fixes ok :: "'s \<Rightarrow> bool" and view :: "'s \<Rightarrow> 'v" and k :: "'b \<Rightarrow> 'c \<Rightarrow> ('s, 'a) rcp" and l :: "'b \<Rightarrow> ('s, 'a) rcp"
  shows "(b \<Longrightarrow> rcp_sim ok view m f) \<Longrightarrow> (\<not> b \<Longrightarrow> rcp_sim ok view m' f') \<Longrightarrow> rcp_sim ok view (if b then m else m') (if b then f else f')"
  "(\<And>x y. p = (x, y) \<Longrightarrow> rcp_sim ok view (k x y) (g x y)) \<Longrightarrow> rcp_sim ok view (case p of (x, y) \<Rightarrow> k x y) (case p of (x, y) \<Rightarrow> g x y)"
  "(\<And>x. rcp_sim ok view (l x) (h x)) \<Longrightarrow> rcp_sim ok view (Let a l) (Let a h)"
  by (auto split: prod.splits)

lemma rcp_sim_each [rcp_sims]:
  "(\<And>x. x \<in> set xs \<Longrightarrow> rcp_sim ok view (k x) (g x)) \<Longrightarrow> rcp_sim ok view (rcp_each k xs) (rcp_each g xs)"
  by (induction xs) (auto intro: rcp_sim_pure rcp_sim_then)

lemma rcp_sim_poll [rcp_sims]:
  assumes "rcp_sim ok view m f"
  shows "rcp_sim ok view (poll_zero m) (poll_zero f)"
  unfolding rcp_sim_def
proof (intro allI impI)
  fix s r v assume "ok s" "poll_zero f (view s) = Some (r, v)"
  moreover have "m' = f \<longrightarrow> (\<forall>s. ok s \<longrightarrow> view s = u \<longrightarrow> (\<exists>s'. poll_zero m s = Some (fst p, s') \<and> ok s' \<and> view s' = snd p))"
    if "poll_zero m' u = Some p" for m' u p
  proof (rule poll_zero.raw_induct [OF _ that], intro impI allI)
    fix pz m' u p s
    assume IH: "\<And>m' u p. pz m' u = Some p \<Longrightarrow> m' = f \<longrightarrow> (\<forall>s. ok s \<longrightarrow> view s = u \<longrightarrow>
        (\<exists>s'. poll_zero m s = Some (fst p, s') \<and> ok s' \<and> view s' = snd p))"
      and st: "Option.bind (m' u) (\<lambda>(r, s'). case r of Inl e \<Rightarrow> Some (Inl e, s')
          | Inr d \<Rightarrow> if d \<noteq> 0 then pz m' s' else Some (Inr (), s')) = Some p"
      and h: "m' = f" "ok s" "view s = u"
    from st obtain q w where q: "f (view s) = Some (q, w)" using h by (cases "m' u") auto
    from rcp_simD [OF assms h(2) q] obtain s1 where s1: "m s = Some (q, s1)" "ok s1" "view s1 = w" by blast
    show "\<exists>s'. poll_zero m s = Some (fst p, s') \<and> ok s' \<and> view s' = snd p"
    proof (cases q)
      case (Inl e)
      then show ?thesis using st h q s1 by (auto simp: poll_zero.simps [of m s])
    next
      case (Inr d)
      show ?thesis
      proof (cases "d = 0")
        case True
        then show ?thesis using Inr st h q s1 by (auto simp: poll_zero.simps [of m s])
      next
        case False
        then have "pz f w = Some p" using Inr st h q by simp
        with IH [of f w p] s1 show ?thesis using False Inr by (auto simp: poll_zero.simps [of m s])
      qed
    qed
  qed
  ultimately show "\<exists>s'. poll_zero m s = Some (r, s') \<and> ok s' \<and> view s' = v" by fastforce
qed

section \<open>The switch\<close>

text \<open>
  What the code relies on of a switch: registers that keep what is written (of the counters, all
  32 bits can be read), an EEPROM
  that is accessed through two registers and PHY registers accessed through three. An access to
  the EEPROM or a PHY is complete when the control register is next read. Nothing is said of a
  write to the register of the authentication key (\<open>None\<close>): it makes the switch listen to
  another key.
\<close>

record rcp_switch =
  sw_vals :: "u16 \<Rightarrow> u32"
  sw_ee :: "u16 \<Rightarrow> u8"
  sw_phy :: "u16 \<Rightarrow> u16"
  sw_dev :: rcp_dev

abbreviation RT8326_ACCESS_CTL :: u16 where "RT8326_ACCESS_CTL \<equiv> 0x0500"
abbreviation RT8326_ACCESS_WRITE :: u16 where "RT8326_ACCESS_WRITE \<equiv> 0x0501"
abbreviation RT8326_ACCESS_READ :: u16 where "RT8326_ACCESS_READ \<equiv> 0x0502"

definition sw_regs :: "rcp_switch \<Rightarrow> u16 \<Rightarrow> u16" where "sw_regs v a = ucast (sw_vals v a)"

definition sw_upd :: "u16 \<Rightarrow> u16 \<Rightarrow> rcp_switch \<Rightarrow> rcp_switch" where
  "sw_upd a d v = v\<lparr>sw_vals := (sw_vals v)(a := ucast d)\<rparr>"

definition sw_write :: "u16 \<Rightarrow> u16 \<Rightarrow> rcp_switch \<Rightarrow> rcp_switch" where
  "sw_write a d v =
     (if a = RT8326_EEPROM_RW_CTL
      then if bit d 11
           then sw_upd RT8326_EEPROM_RW_DATA (push_bit 8 (ucast (sw_ee v (take_bit 11 d))) OR take_bit 8 (sw_regs v RT8326_EEPROM_RW_DATA))
                  (sw_upd a (take_bit 12 d) v)
           else (sw_upd a (take_bit 12 d) v)\<lparr>sw_ee := (sw_ee v)(take_bit 11 d := ucast (sw_regs v RT8326_EEPROM_RW_DATA))\<rparr>
      else if a = RT8326_ACCESS_CTL
      then if bit d 14
           then (sw_upd a (take_bit 15 d) v)\<lparr>sw_phy := (sw_phy v)(take_bit 10 d := sw_regs v RT8326_ACCESS_WRITE)\<rparr>
           else sw_upd RT8326_ACCESS_READ (sw_phy v (take_bit 10 d)) (sw_upd a (take_bit 15 d) v)
      else sw_upd a d v)"

abbreviation RT8326_RRCP_AUTHKEY :: u16 where "RT8326_RRCP_AUTHKEY \<equiv> 0x0209"

definition sw_io :: "rcp_switch rcp_io" where
  "sw_io = \<lparr>io_read = \<lambda>a v. Some (Inr (sw_regs v a), v), io_read32 = \<lambda>a v. Some (Inr (sw_vals v a), v),
     io_write = \<lambda>a d v. if a = RT8326_RRCP_AUTHKEY then None else Some (Inr (), sw_write a d v), io_dev = sw_dev, io_mod = \<lambda>f v. v\<lparr>sw_dev := f (sw_dev v)\<rparr>, io_junk = 0\<rparr>"

text \<open>What an operation may do to the data of a device without losing the switch: its addresses,
  its key and its port stay.\<close>

definition rd_link :: "rcp_dev \<Rightarrow> u8 list \<times> u8 list \<times> u8 list \<times> u8 \<times> u16" where
  "rd_link d = (rd_switchMac d, rd_parentMac d, rd_authenKey d, rd_paPort d, rd_mgtVid d)"

definition keeps_link :: "(rcp_dev \<Rightarrow> rcp_dev) \<Rightarrow> bool" where
  "keeps_link f \<longleftrightarrow> (\<forall>d. rd_link (f d) = rd_link d)"

locale reg_access =
  fixes io :: "'s rcp_io" and view :: "'s \<Rightarrow> rcp_switch" and ok :: "'s \<Rightarrow> bool"
  assumes read_sim: "rcp_sim ok view (io_read io a) (io_read sw_io a)"
    and read32_sim: "rcp_sim ok view (io_read32 io a) (io_read32 sw_io a)"
    and write_sim: "rcp_sim ok view (io_write io a d) (io_write sw_io a d)"
    and dev_eq: "ok s \<Longrightarrow> io_dev io s = sw_dev (view s)"
    and mod_ok: "ok s \<Longrightarrow> keeps_link f \<Longrightarrow> ok (io_mod io f s)"
    and mod_view: "ok s \<Longrightarrow> keeps_link f \<Longrightarrow> view (io_mod io f s) = (view s)\<lparr>sw_dev := f (sw_dev (view s))\<rparr>"
    and junk: "io_junk io = io_junk sw_io"
begin

lemma dev_get_sim: "rcp_sim ok view (rcp_dev_get io f) (rcp_dev_get sw_io f)"
  by (auto simp: rcp_sim_def rcp_dev_get_def dev_eq sw_io_def)

lemma dev_mod_sim: "keeps_link f \<Longrightarrow> rcp_sim ok view (rcp_dev_mod io f) (rcp_dev_mod sw_io f)"
  by (auto simp: rcp_sim_def rcp_dev_mod_def mod_ok mod_view sw_io_def)

lemmas access_sims = read_sim read32_sim write_sim dev_get_sim dev_mod_sim

lemma phy_of_sim: "rcp_sim ok view (phy_of io slot port) (phy_of sw_io slot port)"
  unfolding phy_of_def by (intro rcp_sims access_sims)

lemma GetRegField_sim: "rcp_sim ok view (RCP_GetRegField io a off len) (RCP_GetRegField sw_io a off len)"
  unfolding RCP_GetRegField_def by (intro rcp_sims access_sims)

lemma SetRegisterField_sim: "rcp_sim ok view (RCP_SetRegisterField io a off len d) (RCP_SetRegisterField sw_io a off len d)"
  unfolding RCP_SetRegisterField_def by (intro rcp_sims access_sims)

lemma GetEepromValue_sim: "rcp_sim ok view (RCP_GetEepromValue io a) (RCP_GetEepromValue sw_io a)"
  unfolding RCP_GetEepromValue_def by (intro rcp_sims GetRegField_sim SetRegisterField_sim)

lemma SetEepromValue_sim: "rcp_sim ok view (RCP_SetEepromValue io a d) (RCP_SetEepromValue sw_io a d)"
  unfolding RCP_SetEepromValue_def by (intro rcp_sims GetRegField_sim SetRegisterField_sim)

lemma GetEepromField_sim: "rcp_sim ok view (RCP_GetEepromField io a off len) (RCP_GetEepromField sw_io a off len)"
  unfolding RCP_GetEepromField_def junk by (intro rcp_sims GetEepromValue_sim)

lemma SetEepromField_sim: "rcp_sim ok view (RCP_SetEepromField io a off len d) (RCP_SetEepromField sw_io a off len d)"
  unfolding RCP_SetEepromField_def junk by (intro rcp_sims GetEepromValue_sim SetEepromValue_sim)

lemma SetRegField_sim: "rcp_sim ok view (RCP_SetRegField io a off len d fl) (RCP_SetRegField sw_io a off len d fl)"
  unfolding RCP_SetRegField_def by (intro rcp_sims SetEepromField_sim SetRegisterField_sim)

lemmas field_sims = rcp_sims access_sims phy_of_sim GetRegField_sim SetRegisterField_sim
  GetEepromValue_sim SetEepromValue_sim GetEepromField_sim SetEepromField_sim SetRegField_sim

end

interpretation sw: reg_access sw_io "\<lambda>v. v" "\<lambda>_. True"
  by unfold_locales (auto simp: rcp_sim_def sw_io_def)

section \<open>The operations on a switch\<close>

definition sw_ctl :: "u16 set" where
  "sw_ctl = {RT8326_EEPROM_RW_CTL, RT8326_EEPROM_RW_DATA, RT8326_ACCESS_CTL, RT8326_ACCESS_WRITE, RT8326_ACCESS_READ}"

text \<open>A switch up to the registers that control accesses.\<close>

definition sw_core :: "rcp_switch \<Rightarrow> rcp_switch" where
  "sw_core v = v\<lparr>sw_vals := (\<lambda>a. if a \<in> sw_ctl then 0 else sw_vals v a)\<rparr>"

lemma sw_core_eqD:
  "sw_core v = sw_core w \<Longrightarrow> a \<notin> sw_ctl \<Longrightarrow> sw_vals v a = sw_vals w a"
  "sw_core v = sw_core w \<Longrightarrow> a \<notin> sw_ctl \<Longrightarrow> sw_regs v a = sw_regs w a"
  "sw_core v = sw_core w \<Longrightarrow> sw_ee v = sw_ee w" "sw_core v = sw_core w \<Longrightarrow> sw_phy v = sw_phy w"
  "sw_core v = sw_core w \<Longrightarrow> sw_dev v = sw_dev w"
proof -
  assume e: "sw_core v = sw_core w"
  show "sw_vals v a = sw_vals w a" if "a \<notin> sw_ctl"
    using that arg_cong [OF e, of "\<lambda>x. sw_vals x a"] by (simp add: sw_core_def)
  then show "sw_regs v a = sw_regs w a" if "a \<notin> sw_ctl" using that by (simp add: sw_regs_def)
  show "sw_ee v = sw_ee w" using arg_cong [OF e, of sw_ee] by (simp add: sw_core_def)
  show "sw_phy v = sw_phy w" using arg_cong [OF e, of sw_phy] by (simp add: sw_core_def)
  show "sw_dev v = sw_dev w" using arg_cong [OF e, of sw_dev] by (simp add: sw_core_def)
qed

lemma sw_upd_simps [simp]:
  "sw_regs (sw_upd a d v) b = (if b = a then d else sw_regs v b)"
  "sw_ee (sw_upd a d v) = sw_ee v" "sw_phy (sw_upd a d v) = sw_phy v" "sw_dev (sw_upd a d v) = sw_dev v"
  "sw_regs (v\<lparr>sw_ee := e\<rparr>) b = sw_regs v b" "sw_regs (v\<lparr>sw_phy := f\<rparr>) b = sw_regs v b" "sw_regs (v\<lparr>sw_dev := g\<rparr>) b = sw_regs v b"
  by (auto simp: sw_regs_def sw_upd_def intro!: bit_word_eqI simp: bit_simps)

lemma sw_core_upd: "a \<in> sw_ctl \<Longrightarrow> sw_core (sw_upd a d v) = sw_core v"
  "sw_core (v\<lparr>sw_ee := e\<rparr>) = (sw_core v)\<lparr>sw_ee := e\<rparr>" "sw_core (v\<lparr>sw_phy := f\<rparr>) = (sw_core v)\<lparr>sw_phy := f\<rparr>"
  by (auto simp: sw_core_def sw_upd_def fun_eq_iff)

lemma sw_read [simp]: "io_read sw_io a v = Some (Inr (sw_regs v a), v)"
  and sw_read32 [simp]: "io_read32 sw_io a v = Some (Inr (sw_vals v a), v)"
  and sw_io_write [simp]: "a \<noteq> RT8326_RRCP_AUTHKEY \<Longrightarrow> io_write sw_io a d v = Some (Inr (), sw_write a d v)"
  and sw_dev_get [simp]: "rcp_dev_get sw_io f v = Some (Inr (f (sw_dev v)), v)"
  and sw_dev_mod [simp]: "rcp_dev_mod sw_io g v = Some (Inr (), v\<lparr>sw_dev := g (sw_dev v)\<rparr>)"
  by (simp_all add: sw_io_def rcp_dev_get_def rcp_dev_mod_def)

lemma sw_write_plain: "a \<notin> sw_ctl \<Longrightarrow> sw_write a d v = sw_upd a d v"
  by (simp add: sw_write_def sw_ctl_def)

lemma sw_GetRegField [simp]: "RCP_GetRegField sw_io a off len v = Some (Inr (field_get off len (sw_regs v a)), v)"
  by (simp add: RCP_GetRegField_def rcp_ret_def)

lemma sw_SetRegisterField [simp]:
  "a \<noteq> RT8326_RRCP_AUTHKEY \<Longrightarrow> RCP_SetRegisterField sw_io a off len d v = Some (Inr (), sw_write a (field_set off len d (sw_regs v a)) v)"
  by (simp add: RCP_SetRegisterField_def)

lemma poll_zero_done: "m s = Some (Inr 0, s') \<Longrightarrow> poll_zero m s = Some (Inr (), s')"
  by (simp add: poll_zero.simps [of m s])

lemma low_bits_field: "take_bit n (field_set 0 m d (w :: u16)) = take_bit n d" if "n \<le> m"
  using that by (intro bit_word_eqI) (auto simp: bit_take_bit_iff bit_field_set)

lemma take_bit_or_high: "n \<le> k \<Longrightarrow> take_bit n (a OR 2 ^ k) = take_bit n (a :: u16)"
  by (rule bit_word_eqI) (auto simp: bit_simps)

lemma eeprom_command:
  "take_bit 11 (field_set 0 12 (a OR 0x0800) (w :: u16)) = take_bit 11 a" "bit (field_set 0 12 (a OR 0x0800) w) 11"
  "take_bit 11 (field_set 0 12 a w) = take_bit 11 a" "take_bit 11 a = a \<Longrightarrow> \<not> bit (field_set 0 12 a w) 11"
proof -
  have p: "(0x0800 :: u16) = 2 ^ 11" by simp
  show "take_bit 11 (field_set 0 12 (a OR 0x0800) w) = take_bit 11 a"
    unfolding p low_bits_field [of 11 12, simplified] by (rule take_bit_or_high) simp
  show "bit (field_set 0 12 (a OR 0x0800) w) 11"
    unfolding p by (simp add: bit_field_set bit_or_iff bit_exp_iff)
  show "take_bit 11 (field_set 0 12 a w) = take_bit 11 a" by (simp add: low_bits_field)
  assume "take_bit 11 a = a"
  then have "\<not> bit a 11" by (metis bit_take_bit_iff less_irrefl)
  then show "\<not> bit (field_set 0 12 a w) 11" by (simp add: bit_field_set)
qed

lemma field_get_beyond: "off \<ge> n \<Longrightarrow> field_get off len (take_bit n (w :: u16)) = 0"
  by (rule bit_word_eqI) (auto simp: bit_field_get bit_take_bit_iff)

lemma sw_GetEepromValue:
  assumes "take_bit 11 a = a"
  shows "\<exists>v'. RCP_GetEepromValue sw_io a v = Some (Inr (Some (sw_ee v a)), v') \<and> sw_core v' = sw_core v"
proof -
  let ?d = "field_set 0 12 (a OR 0x0800) (sw_regs v RT8326_EEPROM_RW_CTL)"
  let ?v = "sw_write RT8326_EEPROM_RW_CTL ?d v"
  have c: "sw_regs ?v RT8326_EEPROM_RW_CTL = take_bit 12 ?d"
    "field_get 8 8 (sw_regs ?v RT8326_EEPROM_RW_DATA) = ucast (sw_ee v a)"
    using eeprom_command(1,2) [of a "sw_regs v RT8326_EEPROM_RW_CTL"] assms bit_imp_le_length [of "sw_ee v a"]
    by (auto simp: sw_write_def intro!: bit_word_eqI simp: bit_field_get bit_simps)
  have p: "poll_zero (RCP_GetRegField sw_io RT8326_EEPROM_RW_CTL 12 1) ?v = Some (Inr (), ?v)"
    by (rule poll_zero_done) (simp add: c field_get_beyond)
  have e: "ucast (ucast (sw_ee v a) :: u16) = sw_ee v a" by (rule bit_word_eqI) (simp add: bit_simps)
  have "RCP_GetEepromValue sw_io a v = Some (Inr (Some (sw_ee v a)), ?v)"
    by (simp add: RCP_GetEepromValue_def p c field_get_beyond e rcp_ret_def del: fun_upd_apply One_nat_def)
  moreover have "sw_core ?v = sw_core v"
    by (simp add: sw_core_upd sw_write_def sw_ctl_def eeprom_command(2))
  ultimately show ?thesis by blast
qed

lemma sw_SetEepromValue:
  assumes "take_bit 11 a = a"
  shows "\<exists>v'. RCP_SetEepromValue sw_io a d v = Some (Inr (), v') \<and> sw_core v' = (sw_core v)\<lparr>sw_ee := (sw_ee v)(a := d)\<rparr>"
proof -
  let ?w = "sw_write RT8326_EEPROM_RW_DATA (field_set 0 8 (ucast d) (sw_regs v RT8326_EEPROM_RW_DATA)) v"
  let ?d = "field_set 0 12 a (sw_regs ?w RT8326_EEPROM_RW_CTL)"
  let ?v = "sw_write RT8326_EEPROM_RW_CTL ?d ?w"
  have nb: "\<not> bit ?d 11" "take_bit 11 ?d = a" using eeprom_command(3,4) assms by auto
  have c: "sw_regs ?v RT8326_EEPROM_RW_CTL = take_bit 12 ?d" using nb by (simp add: sw_write_def)
  have p: "poll_zero (RCP_GetRegField sw_io RT8326_EEPROM_RW_CTL 12 1) ?v = Some (Inr (), ?v)"
    by (rule poll_zero_done) (simp add: c field_get_beyond)
  have "RCP_SetEepromValue sw_io a d v = Some (Inr (), ?v)"
    by (simp add: RCP_SetEepromValue_def p c field_get_beyond rcp_ret_def del: One_nat_def)
  moreover have "ucast (field_set 0 8 (ucast d) (sw_regs v RT8326_EEPROM_RW_DATA)) = d"
    by (rule bit_word_eqI) (auto simp: bit_field_set bit_simps)
  then have "sw_core ?v = (sw_core v)\<lparr>sw_ee := (sw_ee v)(a := d)\<rparr>"
    using nb by (simp add: sw_core_upd sw_write_def sw_ctl_def)
  ultimately show ?thesis by blast
qed

end
