(* ===== verification/Rcp_Port.thy ===== *)
theory Rcp_Port
  imports Rcp_Reg
begin

text \<open>
  The settings and states of an attached switch and its ports (\<^verbatim>\<open>apps/rcp_gwd.c\<close>, lines 1458 to
  5442): every function reads or writes one field of a register, or of a PHY register, that
  \<^verbatim>\<open>apps/rcp_gwd.h\<close> gives for the port.
\<close>

section \<open>Registers and positions\<close>

text \<open>
  The macros of \<^verbatim>\<open>rcp_gwd.h\<close>: two ports share a register with eight bits each, or eight ports
  with two bits each, or sixteen ports with one bit each.
\<close>

definition RT8326_PORT_STATUS :: "nat \<Rightarrow> u16" where "RT8326_PORT_STATUS i = of_nat (0x0619 + i div 2)"
definition RT8326_PORT_PROPERTY :: "nat \<Rightarrow> u16" where "RT8326_PORT_PROPERTY i = of_nat (0x060A + i div 2)"
definition RT8326_PORT_CTL :: "nat \<Rightarrow> u16" where "RT8326_PORT_CTL i = of_nat (0x020A + i div 2)"
definition RT8326_VLAN_IDX :: "nat \<Rightarrow> u16" where "RT8326_VLAN_IDX i = of_nat (0x030C + i div 2)"
definition RT8326_VLAN_PRI :: "nat \<Rightarrow> u16" where "RT8326_VLAN_PRI i = of_nat (0x0319 + i div 8)"
definition RT8326_MIB_OBJ_SEL :: "nat \<Rightarrow> u16" where "RT8326_MIB_OBJ_SEL i = of_nat (0x0700 + i div 2)"
definition RT8326_PORT_DISABLE :: "nat \<Rightarrow> u16" where "RT8326_PORT_DISABLE i = of_nat (0x0608 + of_bool (i > 15))"
definition RT8326_PORT_PRI :: "nat \<Rightarrow> u16" where "RT8326_PORT_PRI i = of_nat (0x0401 + of_bool (i > 15))"
definition RT8326_PORT_MIRROR :: "nat \<Rightarrow> u16" where "RT8326_PORT_MIRROR i = of_nat (0x0219 + of_bool (i > 15))"
definition RT8326_RX_MIRROR :: "nat \<Rightarrow> u16" where "RT8326_RX_MIRROR i = of_nat (0x021B + of_bool (i > 15))"
definition RT8326_TX_MIRROR :: "nat \<Rightarrow> u16" where "RT8326_TX_MIRROR i = of_nat (0x021D + of_bool (i > 15))"
definition RT8326_ALT_LEARN :: "nat \<Rightarrow> u16" where "RT8326_ALT_LEARN i = of_nat (0x0301 + of_bool (i > 15))"
definition RT8326_MIB_RX_CNT :: "nat \<Rightarrow> u16" where "RT8326_MIB_RX_CNT i = of_nat (0x070D + i)"
definition RT8326_MIB_TX_CNT :: "nat \<Rightarrow> u16" where "RT8326_MIB_TX_CNT i = of_nat (0x0727 + i)"
definition RT8326_MIB_DN_CNT :: "nat \<Rightarrow> u16" where "RT8326_MIB_DN_CNT i = of_nat (0x0741 + i)"

definition Link_Speed_Pos :: "nat \<Rightarrow> nat" where "Link_Speed_Pos i = 0 + i mod 2 * 8"
definition Full_Duplex_Pos :: "nat \<Rightarrow> nat" where "Full_Duplex_Pos i = 2 + i mod 2 * 8"
definition Link_Up_Pos :: "nat \<Rightarrow> nat" where "Link_Up_Pos i = 4 + i mod 2 * 8"
definition Flow_Ctl_En_Pos :: "nat \<Rightarrow> nat" where "Flow_Ctl_En_Pos i = 5 + i mod 2 * 8"
definition Auto_Negotiation_En_Pos :: "nat \<Rightarrow> nat" where "Auto_Negotiation_En_Pos i = 7 + i mod 2 * 8"
definition Media_Capability_Pos :: "nat \<Rightarrow> nat" where "Media_Capability_Pos i = 0 + i mod 2 * 8"
definition Pause_Pos :: "nat \<Rightarrow> nat" where "Pause_Pos i = 5 + i mod 2 * 8"
definition AutoNegotiation_Pos :: "nat \<Rightarrow> nat" where "AutoNegotiation_Pos i = 7 + i mod 2 * 8"
definition RX_Bandwidth_Pos :: "nat \<Rightarrow> nat" where "RX_Bandwidth_Pos i = 0 + i mod 2 * 8"
definition TX_Bandwidth_Pos :: "nat \<Rightarrow> nat" where "TX_Bandwidth_Pos i = 4 + i mod 2 * 8"
definition VID_Index_Pos :: "nat \<Rightarrow> nat" where "VID_Index_Pos i = 0 + i mod 2 * 8"
definition RX_MIB_OBJ_Pos :: "nat \<Rightarrow> nat" where "RX_MIB_OBJ_Pos i = 0 + i mod 2 * 6"
definition TX_MIB_OBJ_Pos :: "nat \<Rightarrow> nat" where "TX_MIB_OBJ_Pos i = 2 + i mod 2 * 6"
definition DN_MIB_OBJ_Pos :: "nat \<Rightarrow> nat" where "DN_MIB_OBJ_Pos i = 4 + i mod 2 * 6"
definition PriTagCtrl_Pos :: "nat \<Rightarrow> nat" where "PriTagCtrl_Pos i = 0 + i mod 8 * 2"
definition ALT_Learn_POS :: "nat \<Rightarrow> nat" where "ALT_Learn_POS i = 1 + i mod 16 * 1"

text \<open>\<^verbatim>\<open>Port_Disable_Pos\<close>, \<^verbatim>\<open>Port_Pri_Pos\<close>, \<^verbatim>\<open>Port_Mirror_Pos\<close>, \<^verbatim>\<open>RX_Mirror_Pos\<close> and \<^verbatim>\<open>TX_Mirror_Pos\<close>.\<close>

definition Bit16_Pos :: "nat \<Rightarrow> nat" where "Bit16_Pos i = 0 + i mod 16 * 1"

lemmas rcp_regs = RT8326_PORT_STATUS_def RT8326_PORT_PROPERTY_def RT8326_PORT_CTL_def RT8326_VLAN_IDX_def
  RT8326_VLAN_PRI_def RT8326_MIB_OBJ_SEL_def RT8326_PORT_DISABLE_def RT8326_PORT_PRI_def RT8326_PORT_MIRROR_def
  RT8326_RX_MIRROR_def RT8326_TX_MIRROR_def RT8326_ALT_LEARN_def

lemmas rcp_positions = Link_Speed_Pos_def Full_Duplex_Pos_def Link_Up_Pos_def Flow_Ctl_En_Pos_def Auto_Negotiation_En_Pos_def
  Media_Capability_Pos_def Pause_Pos_def AutoNegotiation_Pos_def RX_Bandwidth_Pos_def TX_Bandwidth_Pos_def VID_Index_Pos_def
  RX_MIB_OBJ_Pos_def TX_MIB_OBJ_Pos_def DN_MIB_OBJ_Pos_def PriTagCtrl_Pos_def ALT_Learn_POS_def Bit16_Pos_def

section \<open>Settings of the switch\<close>

definition RCP_SysSWReset :: "'s rcp_io \<Rightarrow> ('s, unit) rcp" where
  "RCP_SysSWReset io = RCP_SetRegField io 0x0000 0 1 1 1"

definition RCP_SysHWReset :: "'s rcp_io \<Rightarrow> ('s, unit) rcp" where
  "RCP_SysHWReset io = RCP_SetRegField io 0x0000 1 1 1 1"

definition RCP_GetAuthenkey :: "'s rcp_io \<Rightarrow> ('s, u16) rcp" where
  "RCP_GetAuthenkey io = io_read io RT8326_RRCP_AUTHKEY"

definition RCP_SetAuthenKey :: "'s rcp_io \<Rightarrow> u16 \<Rightarrow> ('s, unit) rcp" where
  "RCP_SetAuthenKey io data =
     rcp_then (io_write io RT8326_RRCP_AUTHKEY data)
       (rcp_dev_mod io (\<lambda>d. d\<lparr>rd_authenKey := [ucast (drop_bit 8 (data AND 0xFF00)), ucast (data AND 0x00FF)]\<rparr>))"

definition RCP_SetMaxPktLength :: "'s rcp_io \<Rightarrow> u16 \<Rightarrow> ('s, unit) rcp" where
  "RCP_SetMaxPktLength io data = RCP_SetRegField io 0x0001 0 2 data RCP_CONFIG_REGISTER"

definition RCP_GetLoopPort :: "'s rcp_io \<Rightarrow> ('s, u32) rcp" where
  "RCP_GetLoopPort io = io_read32 io 0x0101"

definition RCP_GetMaxPktLength :: "'s rcp_io \<Rightarrow> ('s, u16) rcp" where
  "RCP_GetMaxPktLength io = RCP_GetRegField io 0x0001 0 2"

definition RCP_GetMaxPauseCnt :: "'s rcp_io \<Rightarrow> ('s, u16) rcp" where
  "RCP_GetMaxPauseCnt io = RCP_GetRegField io 0x0001 3 1"

definition RCP_GetFullDuplexFC :: "'s rcp_io \<Rightarrow> ('s, u16) rcp" where
  "RCP_GetFullDuplexFC io = RCP_GetRegField io 0x0607 0 1"

definition RCP_SetFullDuplexFC :: "'s rcp_io \<Rightarrow> u16 \<Rightarrow> u32 \<Rightarrow> ('s, unit) rcp" where
  "RCP_SetFullDuplexFC io data flag = RCP_SetRegField io 0x0607 0 1 data flag"

definition RCP_GetHalfDuplexFC :: "'s rcp_io \<Rightarrow> ('s, u16) rcp" where
  "RCP_GetHalfDuplexFC io = RCP_GetRegField io 0x0607 0 1"

definition RCP_SetHalfDuplexFC :: "'s rcp_io \<Rightarrow> u16 \<Rightarrow> u32 \<Rightarrow> ('s, unit) rcp" where
  "RCP_SetHalfDuplexFC io data flag = RCP_SetRegField io 0x0607 0 1 data flag"

definition RCP_GetBroadcastFC :: "'s rcp_io \<Rightarrow> ('s, u16) rcp" where
  "RCP_GetBroadcastFC io = RCP_GetRegField io 0x0607 2 1"

definition RCP_SetBroadcastFC :: "'s rcp_io \<Rightarrow> u16 \<Rightarrow> u32 \<Rightarrow> ('s, unit) rcp" where
  "RCP_SetBroadcastFC io data flag = RCP_SetRegField io 0x0607 2 1 data flag"

definition RCP_GetMulticastFC :: "'s rcp_io \<Rightarrow> ('s, u16) rcp" where
  "RCP_GetMulticastFC io = RCP_GetRegField io 0x0607 3 1"

definition RCP_SetMulticastFC :: "'s rcp_io \<Rightarrow> u16 \<Rightarrow> u32 \<Rightarrow> ('s, unit) rcp" where
  "RCP_SetMulticastFC io data flag = RCP_SetRegField io 0x0607 3 1 data flag"

definition RCP_GetBroadcastStormFilter :: "'s rcp_io \<Rightarrow> ('s, u16) rcp" where
  "RCP_GetBroadcastStormFilter io = RCP_GetRegField io 0x0607 4 1"

definition RCP_SetBroadcastStormFilter :: "'s rcp_io \<Rightarrow> u16 \<Rightarrow> u32 \<Rightarrow> ('s, unit) rcp" where
  "RCP_SetBroadcastStormFilter io data flag = RCP_SetRegField io 0x0607 4 1 data flag"

definition RCP_GetLoopDetect :: "'s rcp_io \<Rightarrow> ('s, u16) rcp" where
  "RCP_GetLoopDetect io = RCP_GetRegField io 0x0200 2 1"

definition RCP_SetLoopDetect :: "'s rcp_io \<Rightarrow> u16 \<Rightarrow> u32 \<Rightarrow> ('s, unit) rcp" where
  "RCP_SetLoopDetect io data flag = RCP_SetRegField io 0x0200 2 1 data flag"

definition RCP_GetIGMPSnooping :: "'s rcp_io \<Rightarrow> ('s, u16) rcp" where
  "RCP_GetIGMPSnooping io = RCP_GetRegField io 0x0308 0 1"

definition RCP_SetIGMPSnooping :: "'s rcp_io \<Rightarrow> u16 \<Rightarrow> u32 \<Rightarrow> ('s, unit) rcp" where
  "RCP_SetIGMPSnooping io data flag = RCP_SetRegField io 0x0308 0 1 data flag"

definition RCP_GetQosDiffPriority :: "'s rcp_io \<Rightarrow> ('s, u16) rcp" where
  "RCP_GetQosDiffPriority io = RCP_GetRegField io 0x0400 0 1"

definition RCP_SetQosDiffPriority :: "'s rcp_io \<Rightarrow> u16 \<Rightarrow> u32 \<Rightarrow> ('s, unit) rcp" where
  "RCP_SetQosDiffPriority io data flag = RCP_SetRegField io 0x0400 0 1 data flag"

definition RCP_GetQosVlanPriority :: "'s rcp_io \<Rightarrow> ('s, u16) rcp" where
  "RCP_GetQosVlanPriority io = RCP_GetRegField io 0x0400 1 1"

definition RCP_SetQosVlanPriority :: "'s rcp_io \<Rightarrow> u16 \<Rightarrow> u32 \<Rightarrow> ('s, unit) rcp" where
  "RCP_SetQosVlanPriority io data flag = RCP_SetRegField io 0x0400 1 1 data flag"

definition RCP_GetQosMapMode :: "'s rcp_io \<Rightarrow> ('s, u16) rcp" where
  "RCP_GetQosMapMode io = RCP_GetRegField io 0x0400 0 2"

definition RCP_SetQosMapMode :: "'s rcp_io \<Rightarrow> u16 \<Rightarrow> u32 \<Rightarrow> ('s, unit) rcp" where
  "RCP_SetQosMapMode io data flag = RCP_SetRegField io 0x0400 0 2 data flag"

definition RCP_GetQosAdapterFC :: "'s rcp_io \<Rightarrow> ('s, u16) rcp" where
  "RCP_GetQosAdapterFC io = RCP_GetRegField io 0x0400 2 1"

definition RCP_SetQosAdapterFC :: "'s rcp_io \<Rightarrow> u16 \<Rightarrow> u32 \<Rightarrow> ('s, unit) rcp" where
  "RCP_SetQosAdapterFC io data flag = RCP_SetRegField io 0x0400 2 1 data flag"

definition RCP_GetQosPrioRatio :: "'s rcp_io \<Rightarrow> ('s, u16) rcp" where
  "RCP_GetQosPrioRatio io = RCP_GetRegField io 0x0400 3 2"

definition RCP_SetQosPrioRatio :: "'s rcp_io \<Rightarrow> u16 \<Rightarrow> u32 \<Rightarrow> ('s, unit) rcp" where
  "RCP_SetQosPrioRatio io data flag = RCP_SetRegField io 0x0400 3 2 data flag"

definition RCP_GetVlanEnable :: "'s rcp_io \<Rightarrow> ('s, u16) rcp" where
  "RCP_GetVlanEnable io = RCP_GetRegField io 0x030B 0 1"

definition RCP_SetVlanEnable :: "'s rcp_io \<Rightarrow> u16 \<Rightarrow> u32 \<Rightarrow> ('s, unit) rcp" where
  "RCP_SetVlanEnable io data flag = RCP_SetRegField io 0x030B 0 1 data flag"

definition RCP_GetVlanUnicastLeaky :: "'s rcp_io \<Rightarrow> ('s, u16) rcp" where
  "RCP_GetVlanUnicastLeaky io = RCP_GetRegField io 0x030B 1 1"

definition RCP_SetVlanUnicastLeaky :: "'s rcp_io \<Rightarrow> u16 \<Rightarrow> u32 \<Rightarrow> ('s, unit) rcp" where
  "RCP_SetVlanUnicastLeaky io data flag = RCP_SetRegField io 0x030B 1 1 data flag"

definition RCP_GetVlanMulticastLeaky :: "'s rcp_io \<Rightarrow> ('s, u16) rcp" where
  "RCP_GetVlanMulticastLeaky io = RCP_GetRegField io 0x030B 3 1"

definition RCP_SetVlanMulticastLeaky :: "'s rcp_io \<Rightarrow> u16 \<Rightarrow> u32 \<Rightarrow> ('s, unit) rcp" where
  "RCP_SetVlanMulticastLeaky io data flag = RCP_SetRegField io 0x030B 3 1 data flag"

definition RCP_GetVlanArpLeaky :: "'s rcp_io \<Rightarrow> ('s, u16) rcp" where
  "RCP_GetVlanArpLeaky io = RCP_GetRegField io 0x030B 2 1"

definition RCP_SetVlanArpLeaky :: "'s rcp_io \<Rightarrow> u16 \<Rightarrow> u32 \<Rightarrow> ('s, unit) rcp" where
  "RCP_SetVlanArpLeaky io data flag = RCP_SetRegField io 0x030B 2 1 data flag"

definition RCP_GetVlan8021Q :: "'s rcp_io \<Rightarrow> ('s, u16) rcp" where
  "RCP_GetVlan8021Q io = RCP_GetRegField io 0x030B 4 1"

definition RCP_SetVlan8021Q :: "'s rcp_io \<Rightarrow> u16 \<Rightarrow> u32 \<Rightarrow> ('s, unit) rcp" where
  "RCP_SetVlan8021Q io data flag = RCP_SetRegField io 0x030B 4 1 data flag"

definition RCP_GetVlan8021QTagOnly :: "'s rcp_io \<Rightarrow> ('s, u16) rcp" where
  "RCP_GetVlan8021QTagOnly io = RCP_GetRegField io 0x030B 5 1"

definition RCP_SetVlan8021QTagOnly :: "'s rcp_io \<Rightarrow> u16 \<Rightarrow> u32 \<Rightarrow> ('s, unit) rcp" where
  "RCP_SetVlan8021QTagOnly io data flag = RCP_SetRegField io 0x030B 5 1 data flag"

definition RCP_GetVlanIRMember :: "'s rcp_io \<Rightarrow> ('s, u16) rcp" where
  "RCP_GetVlanIRMember io = RCP_GetRegField io 0x030B 6 1"

definition RCP_SetVlanIRMember :: "'s rcp_io \<Rightarrow> u16 \<Rightarrow> u32 \<Rightarrow> ('s, unit) rcp" where
  "RCP_SetVlanIRMember io data flag = RCP_SetRegField io 0x030B 6 1 data flag"

definition RCP_GetVlanIngressFilter :: "'s rcp_io \<Rightarrow> ('s, u16) rcp" where
  "RCP_GetVlanIngressFilter io = RCP_GetRegField io 0x030B 6 1"

definition RCP_SetVlanIngressFilter :: "'s rcp_io \<Rightarrow> u16 \<Rightarrow> u32 \<Rightarrow> ('s, unit) rcp" where
  "RCP_SetVlanIngressFilter io data flag = RCP_SetRegField io 0x030B 6 1 data flag"

definition RCP_GetAtuAgingEnable :: "'s rcp_io \<Rightarrow> ('s, u16) rcp" where
  "RCP_GetAtuAgingEnable io = RCP_GetRegField io 0x0300 0 1"

definition RCP_SetAtuAgingEnable :: "'s rcp_io \<Rightarrow> u16 \<Rightarrow> u32 \<Rightarrow> ('s, unit) rcp" where
  "RCP_SetAtuAgingEnable io data flag = RCP_SetRegField io 0x0300 0 1 data flag"

definition RCP_GetAtuFastAgingEnable :: "'s rcp_io \<Rightarrow> ('s, u16) rcp" where
  "RCP_GetAtuFastAgingEnable io = RCP_GetRegField io 0x0300 1 1"

definition RCP_SetAtuFastAgingEnable :: "'s rcp_io \<Rightarrow> u16 \<Rightarrow> u32 \<Rightarrow> ('s, unit) rcp" where
  "RCP_SetAtuFastAgingEnable io data flag = RCP_SetRegField io 0x0300 1 1 data flag"

definition RCP_GetAtuCtrlFrameFilter :: "'s rcp_io \<Rightarrow> ('s, u16) rcp" where
  "RCP_GetAtuCtrlFrameFilter io = RCP_GetRegField io 0x0300 2 1"

definition RCP_SetAtuCtrlFrameFilter :: "'s rcp_io \<Rightarrow> u16 \<Rightarrow> u32 \<Rightarrow> ('s, unit) rcp" where
  "RCP_SetAtuCtrlFrameFilter io data flag = RCP_SetRegField io 0x0300 2 1 data flag"

definition RCP_GetTrunkFault :: "'s rcp_io \<Rightarrow> ('s, u16) rcp" where
  "RCP_GetTrunkFault io = RCP_GetRegField io 0x0102 1 1"

definition RCP_GetLoopFault :: "'s rcp_io \<Rightarrow> ('s, u16) rcp" where
  "RCP_GetLoopFault io = RCP_GetRegField io 0x0102 2 1"

definition RCP_GetFaultTrunkGroup :: "'s rcp_io \<Rightarrow> ('s, u16) rcp" where
  "RCP_GetFaultTrunkGroup io = RCP_GetRegField io 0x0102 6 6"

text \<open>Two registers as one list of ports: \<^verbatim>\<open>RCP_GetQosPriorityCfg\<close> and \<^verbatim>\<open>RCP_GetQosPriPort\<close>; the mirror lists
  read the second register only on switches with more than 16 ports.\<close>

definition join16 :: "u16 \<Rightarrow> u16 \<Rightarrow> u32" where
  "join16 tmpdata1 tmpdata2 = push_bit 16 (ucast tmpdata2) OR ucast tmpdata1"

definition read_pair :: "'s rcp_io \<Rightarrow> u16 \<Rightarrow> ('s, u32) rcp" where
  "read_pair io base =
     rcp_bind (io_read io base) (\<lambda>tmpdata1. rcp_bind (io_read io (base + 1)) (\<lambda>tmpdata2. rcp_ret (join16 tmpdata1 tmpdata2)))"

definition read_list :: "'s rcp_io \<Rightarrow> u16 \<Rightarrow> ('s, u32) rcp" where
  "read_list io base =
     rcp_bind (io_read io base) (\<lambda>tmpdata1. rcp_bind (rcp_dev_get io rd_numOfPorts) (\<lambda>n.
       if n > 16 then rcp_bind (io_read io (base + 1)) (\<lambda>tmpdata2. rcp_ret (join16 tmpdata1 tmpdata2))
       else rcp_ret (ucast tmpdata1)))"

definition RCP_GetQosPriorityCfg :: "'s rcp_io \<Rightarrow> ('s, u32) rcp" where
  "RCP_GetQosPriorityCfg io = read_pair io 0x0401"

definition RCP_GetQosPriPort :: "'s rcp_io \<Rightarrow> ('s, u32) rcp" where
  "RCP_GetQosPriPort io = read_pair io 0x0401"

definition RCP_GetMirrorDestPort :: "'s rcp_io \<Rightarrow> ('s, u32) rcp" where
  "RCP_GetMirrorDestPort io = read_list io 0x0219"

definition RCP_GetMirrorRxSrcPort :: "'s rcp_io \<Rightarrow> ('s, u32) rcp" where
  "RCP_GetMirrorRxSrcPort io = read_list io 0x021B"

definition RCP_GetMirrorTxSrcPort :: "'s rcp_io \<Rightarrow> ('s, u32) rcp" where
  "RCP_GetMirrorTxSrcPort io = read_list io 0x021D"

definition RCP_SetMirrorDestPort :: "'s rcp_io \<Rightarrow> u32 \<Rightarrow> ('s, unit) rcp" where
  "RCP_SetMirrorDestPort io data =
     rcp_then (io_write io 0x0219 (ucast data))
       (rcp_bind (rcp_dev_get io rd_numOfPorts) (\<lambda>n.
          if n > 16 then io_write io (0x0219 + 1) (ucast (drop_bit 16 data)) else rcp_ret ()))"

definition RCP_GetAtuLearningList :: "'s rcp_io \<Rightarrow> ('s, u16) rcp" where
  "RCP_GetAtuLearningList io = io_read io 0x0301"

definition RCP_GetVlanPortIsolate :: "'s rcp_io \<Rightarrow> ('s, u8) rcp" where
  "RCP_GetVlanPortIsolate io = rcp_dev_get io rd_vlanPortIsolate"

definition RCP_SetVlanPortIsolate :: "'s rcp_io \<Rightarrow> u8 \<Rightarrow> ('s, unit) rcp" where
  "RCP_SetVlanPortIsolate io data = rcp_dev_mod io (\<lambda>d. d\<lparr>rd_vlanPortIsolate := data\<rparr>)"

section \<open>Settings of a port\<close>

definition port_get :: "'s rcp_io \<Rightarrow> nat \<Rightarrow> nat \<Rightarrow> (nat \<Rightarrow> u16) \<Rightarrow> (nat \<Rightarrow> nat) \<Rightarrow> nat \<Rightarrow> ('s, u16) rcp" where
  "port_get io slot port reg pos len =
     rcp_bind (phy_of io slot port) (\<lambda>phyPort. RCP_GetRegField io (reg phyPort) (pos phyPort) len)"

definition port_set :: "'s rcp_io \<Rightarrow> nat \<Rightarrow> nat \<Rightarrow> (nat \<Rightarrow> u16) \<Rightarrow> (nat \<Rightarrow> nat) \<Rightarrow> nat \<Rightarrow> u16 \<Rightarrow> u32 \<Rightarrow> ('s, unit) rcp" where
  "port_set io slot port reg pos len data flag =
     rcp_bind (phy_of io slot port) (\<lambda>phyPort. RCP_SetRegField io (reg phyPort) (pos phyPort) len data flag)"

definition port_counter :: "'s rcp_io \<Rightarrow> nat \<Rightarrow> nat \<Rightarrow> (nat \<Rightarrow> u16) \<Rightarrow> ('s, u32) rcp" where
  "port_counter io slot port reg = rcp_bind (phy_of io slot port) (\<lambda>phyPort. io_read32 io (reg phyPort))"

definition RCP_GetPortLink :: "'s rcp_io \<Rightarrow> nat \<Rightarrow> nat \<Rightarrow> ('s, u16) rcp" where
  "RCP_GetPortLink io slot port = port_get io slot port RT8326_PORT_STATUS Link_Up_Pos 1"

definition RCP_GetPortSpeed :: "'s rcp_io \<Rightarrow> nat \<Rightarrow> nat \<Rightarrow> ('s, u16) rcp" where
  "RCP_GetPortSpeed io slot port = port_get io slot port RT8326_PORT_STATUS Link_Speed_Pos 2"

definition RCP_GetPortDuplex :: "'s rcp_io \<Rightarrow> nat \<Rightarrow> nat \<Rightarrow> ('s, u16) rcp" where
  "RCP_GetPortDuplex io slot port = port_get io slot port RT8326_PORT_STATUS Full_Duplex_Pos 1"

definition RCP_GetPortAutoNego :: "'s rcp_io \<Rightarrow> nat \<Rightarrow> nat \<Rightarrow> ('s, u16) rcp" where
  "RCP_GetPortAutoNego io slot port = port_get io slot port RT8326_PORT_STATUS Auto_Negotiation_En_Pos 1"

definition RCP_GetPortFC :: "'s rcp_io \<Rightarrow> nat \<Rightarrow> nat \<Rightarrow> ('s, u16) rcp" where
  "RCP_GetPortFC io slot port = port_get io slot port RT8326_PORT_STATUS Flow_Ctl_En_Pos 1"

definition RCP_GetMIBRxObject :: "'s rcp_io \<Rightarrow> nat \<Rightarrow> nat \<Rightarrow> ('s, u16) rcp" where
  "RCP_GetMIBRxObject io slot port = port_get io slot port RT8326_MIB_OBJ_SEL RX_MIB_OBJ_Pos 2"

definition RCP_SetMIBRxObject :: "'s rcp_io \<Rightarrow> nat \<Rightarrow> nat \<Rightarrow> u16 \<Rightarrow> u32 \<Rightarrow> ('s, unit) rcp" where
  "RCP_SetMIBRxObject io slot port data flag = port_set io slot port RT8326_MIB_OBJ_SEL RX_MIB_OBJ_Pos 2 data flag"

definition RCP_GetMIBTxObject :: "'s rcp_io \<Rightarrow> nat \<Rightarrow> nat \<Rightarrow> ('s, u16) rcp" where
  "RCP_GetMIBTxObject io slot port = port_get io slot port RT8326_MIB_OBJ_SEL TX_MIB_OBJ_Pos 2"

definition RCP_SetMIBTxObject :: "'s rcp_io \<Rightarrow> nat \<Rightarrow> nat \<Rightarrow> u16 \<Rightarrow> u32 \<Rightarrow> ('s, unit) rcp" where
  "RCP_SetMIBTxObject io slot port data flag = port_set io slot port RT8326_MIB_OBJ_SEL TX_MIB_OBJ_Pos 2 data flag"

definition RCP_GetMIBDnObject :: "'s rcp_io \<Rightarrow> nat \<Rightarrow> nat \<Rightarrow> ('s, u16) rcp" where
  "RCP_GetMIBDnObject io slot port = port_get io slot port RT8326_MIB_OBJ_SEL DN_MIB_OBJ_Pos 2"

definition RCP_SetMIBDnObject :: "'s rcp_io \<Rightarrow> nat \<Rightarrow> nat \<Rightarrow> u16 \<Rightarrow> u32 \<Rightarrow> ('s, unit) rcp" where
  "RCP_SetMIBDnObject io slot port data flag = port_set io slot port RT8326_MIB_OBJ_SEL DN_MIB_OBJ_Pos 2 data flag"

definition RCP_GetPortEnable :: "'s rcp_io \<Rightarrow> nat \<Rightarrow> nat \<Rightarrow> ('s, u16) rcp" where
  "RCP_GetPortEnable io slot port = port_get io slot port RT8326_PORT_DISABLE Bit16_Pos 1"

definition RCP_GetPortSpeedConfig :: "'s rcp_io \<Rightarrow> nat \<Rightarrow> nat \<Rightarrow> ('s, u16) rcp" where
  "RCP_GetPortSpeedConfig io slot port = port_get io slot port RT8326_PORT_PROPERTY Media_Capability_Pos 4"

definition RCP_GetPortAutoNegoEnable :: "'s rcp_io \<Rightarrow> nat \<Rightarrow> nat \<Rightarrow> ('s, u16) rcp" where
  "RCP_GetPortAutoNegoEnable io slot port = port_get io slot port RT8326_PORT_PROPERTY AutoNegotiation_Pos 1"

definition RCP_GetPortPauseFC :: "'s rcp_io \<Rightarrow> nat \<Rightarrow> nat \<Rightarrow> ('s, u16) rcp" where
  "RCP_GetPortPauseFC io slot port = port_get io slot port RT8326_PORT_PROPERTY Pause_Pos 1"

definition RCP_GetPortRxBandwidth :: "'s rcp_io \<Rightarrow> nat \<Rightarrow> nat \<Rightarrow> ('s, u16) rcp" where
  "RCP_GetPortRxBandwidth io slot port = port_get io slot port RT8326_PORT_CTL RX_Bandwidth_Pos 4"

definition RCP_SetPortRxBandwidth :: "'s rcp_io \<Rightarrow> nat \<Rightarrow> nat \<Rightarrow> u16 \<Rightarrow> u32 \<Rightarrow> ('s, unit) rcp" where
  "RCP_SetPortRxBandwidth io slot port data flag = port_set io slot port RT8326_PORT_CTL RX_Bandwidth_Pos 4 data flag"

definition RCP_GetPortTxBandwidth :: "'s rcp_io \<Rightarrow> nat \<Rightarrow> nat \<Rightarrow> ('s, u16) rcp" where
  "RCP_GetPortTxBandwidth io slot port = port_get io slot port RT8326_PORT_CTL TX_Bandwidth_Pos 4"

definition RCP_SetPortTxBandwidth :: "'s rcp_io \<Rightarrow> nat \<Rightarrow> nat \<Rightarrow> u16 \<Rightarrow> u32 \<Rightarrow> ('s, unit) rcp" where
  "RCP_SetPortTxBandwidth io slot port data flag = port_set io slot port RT8326_PORT_CTL TX_Bandwidth_Pos 4 data flag"

definition RCP_GetQosPortPriority :: "'s rcp_io \<Rightarrow> nat \<Rightarrow> nat \<Rightarrow> ('s, u16) rcp" where
  "RCP_GetQosPortPriority io slot port = port_get io slot port RT8326_PORT_PRI Bit16_Pos 1"

definition RCP_SetQosPortPriority :: "'s rcp_io \<Rightarrow> nat \<Rightarrow> nat \<Rightarrow> u16 \<Rightarrow> u32 \<Rightarrow> ('s, unit) rcp" where
  "RCP_SetQosPortPriority io slot port data flag = port_set io slot port RT8326_PORT_PRI Bit16_Pos 1 data flag"

definition RCP_GetVlanPortIDAssignment :: "'s rcp_io \<Rightarrow> nat \<Rightarrow> nat \<Rightarrow> ('s, u16) rcp" where
  "RCP_GetVlanPortIDAssignment io slot port = port_get io slot port RT8326_VLAN_IDX VID_Index_Pos 5"

definition RCP_SetVlanPortIDAssignment :: "'s rcp_io \<Rightarrow> nat \<Rightarrow> nat \<Rightarrow> u16 \<Rightarrow> u32 \<Rightarrow> ('s, unit) rcp" where
  "RCP_SetVlanPortIDAssignment io slot port data flag = port_set io slot port RT8326_VLAN_IDX VID_Index_Pos 5 data flag"

definition RCP_GetVlanOutPortTag :: "'s rcp_io \<Rightarrow> nat \<Rightarrow> nat \<Rightarrow> ('s, u16) rcp" where
  "RCP_GetVlanOutPortTag io slot port = port_get io slot port RT8326_VLAN_PRI PriTagCtrl_Pos 2"

definition RCP_SetVlanOutPortTag :: "'s rcp_io \<Rightarrow> nat \<Rightarrow> nat \<Rightarrow> u16 \<Rightarrow> u32 \<Rightarrow> ('s, unit) rcp" where
  "RCP_SetVlanOutPortTag io slot port data flag = port_set io slot port RT8326_VLAN_PRI PriTagCtrl_Pos 2 data flag"

definition RCP_GetVlanInsertPVID :: "'s rcp_io \<Rightarrow> nat \<Rightarrow> nat \<Rightarrow> ('s, u16) rcp" where
  "RCP_GetVlanInsertPVID io slot port = port_get io slot port (\<lambda>_. 0x037D) (\<lambda>p. p) 1"

definition RCP_SetVlanInsertPVID :: "'s rcp_io \<Rightarrow> nat \<Rightarrow> nat \<Rightarrow> u16 \<Rightarrow> u32 \<Rightarrow> ('s, unit) rcp" where
  "RCP_SetVlanInsertPVID io slot port data flag = port_set io slot port (\<lambda>_. 0x037D) (\<lambda>p. p) 1 data flag"

definition RCP_GetMirrorPort :: "'s rcp_io \<Rightarrow> nat \<Rightarrow> nat \<Rightarrow> ('s, u16) rcp" where
  "RCP_GetMirrorPort io slot port = port_get io slot port RT8326_PORT_MIRROR Bit16_Pos 1"

definition RCP_SetMirrorPort :: "'s rcp_io \<Rightarrow> nat \<Rightarrow> nat \<Rightarrow> u16 \<Rightarrow> u32 \<Rightarrow> ('s, unit) rcp" where
  "RCP_SetMirrorPort io slot port data flag = port_set io slot port RT8326_PORT_MIRROR Bit16_Pos 1 data flag"

definition RCP_GetMirrorRxPort :: "'s rcp_io \<Rightarrow> nat \<Rightarrow> nat \<Rightarrow> ('s, u16) rcp" where
  "RCP_GetMirrorRxPort io slot port = port_get io slot port RT8326_RX_MIRROR Bit16_Pos 1"

definition RCP_SetMirrorRxPort :: "'s rcp_io \<Rightarrow> nat \<Rightarrow> nat \<Rightarrow> u16 \<Rightarrow> u32 \<Rightarrow> ('s, unit) rcp" where
  "RCP_SetMirrorRxPort io slot port data flag = port_set io slot port RT8326_RX_MIRROR Bit16_Pos 1 data flag"

definition RCP_GetMirrorTxPort :: "'s rcp_io \<Rightarrow> nat \<Rightarrow> nat \<Rightarrow> ('s, u16) rcp" where
  "RCP_GetMirrorTxPort io slot port = port_get io slot port RT8326_TX_MIRROR Bit16_Pos 1"

definition RCP_SetMirrorTxPort :: "'s rcp_io \<Rightarrow> nat \<Rightarrow> nat \<Rightarrow> u16 \<Rightarrow> u32 \<Rightarrow> ('s, unit) rcp" where
  "RCP_SetMirrorTxPort io slot port data flag = port_set io slot port RT8326_TX_MIRROR Bit16_Pos 1 data flag"

definition RCP_GetAtuLearning :: "'s rcp_io \<Rightarrow> nat \<Rightarrow> nat \<Rightarrow> ('s, u16) rcp" where
  "RCP_GetAtuLearning io slot port = port_get io slot port RT8326_ALT_LEARN ALT_Learn_POS 1"

definition RCP_SetAtuLearning :: "'s rcp_io \<Rightarrow> nat \<Rightarrow> nat \<Rightarrow> u16 \<Rightarrow> u32 \<Rightarrow> ('s, unit) rcp" where
  "RCP_SetAtuLearning io slot port data flag = port_set io slot port RT8326_ALT_LEARN ALT_Learn_POS 1 data flag"

definition RCP_GetMIBRxCounter :: "'s rcp_io \<Rightarrow> nat \<Rightarrow> nat \<Rightarrow> ('s, u32) rcp" where
  "RCP_GetMIBRxCounter io slot port = port_counter io slot port RT8326_MIB_RX_CNT"

definition RCP_GetMIBTxCounter :: "'s rcp_io \<Rightarrow> nat \<Rightarrow> nat \<Rightarrow> ('s, u32) rcp" where
  "RCP_GetMIBTxCounter io slot port = port_counter io slot port RT8326_MIB_TX_CNT"

definition RCP_GetMIBDiagCounter :: "'s rcp_io \<Rightarrow> nat \<Rightarrow> nat \<Rightarrow> ('s, u32) rcp" where
  "RCP_GetMIBDiagCounter io slot port = port_counter io slot port RT8326_MIB_DN_CNT"

section \<open>PHY registers\<close>

definition phy_addr :: "nat \<Rightarrow> u16" where
  "phy_addr phyPort =
     (if phyPort \<le> 15 then 0x10 OR of_nat phyPort
      else if phyPort \<le> 23 then 0x08 OR of_nat (phyPort - 16)
      else of_nat (phyPort - 24))"

definition RCP_GetPhyRegValue :: "'s rcp_io \<Rightarrow> nat \<Rightarrow> nat \<Rightarrow> u16 \<Rightarrow> ('s, u16) rcp" where
  "RCP_GetPhyRegValue io slot port phyReg =
     rcp_bind (phy_of io slot port) (\<lambda>phyPort.
       rcp_then (RCP_SetRegisterField io RT8326_ACCESS_CTL 0 15 (push_bit 5 (phy_addr phyPort) OR phyReg))
       (rcp_then (poll_zero (RCP_GetRegField io RT8326_ACCESS_CTL 15 1))
       (io_read io RT8326_ACCESS_READ)))"

definition RCP_SetPhyRegValue :: "'s rcp_io \<Rightarrow> nat \<Rightarrow> nat \<Rightarrow> u16 \<Rightarrow> u16 \<Rightarrow> ('s, unit) rcp" where
  "RCP_SetPhyRegValue io slot port phyReg data =
     rcp_bind (phy_of io slot port) (\<lambda>phyPort.
       rcp_then (io_write io RT8326_ACCESS_WRITE data)
       (rcp_then (poll_zero (RCP_GetRegField io RT8326_ACCESS_CTL 15 1))
       (RCP_SetRegisterField io RT8326_ACCESS_CTL 0 15 (push_bit 14 1 OR push_bit 5 (phy_addr phyPort) OR phyReg))))"

definition RCP_GetPhyRegField :: "'s rcp_io \<Rightarrow> nat \<Rightarrow> nat \<Rightarrow> u16 \<Rightarrow> nat \<Rightarrow> nat \<Rightarrow> ('s, u16) rcp" where
  "RCP_GetPhyRegField io slot port phyReg off len =
     rcp_bind (RCP_GetPhyRegValue io slot port phyReg) (\<lambda>tmpData. rcp_ret (field_get off len tmpData))"

definition RCP_SetPhyRegField :: "'s rcp_io \<Rightarrow> nat \<Rightarrow> nat \<Rightarrow> u16 \<Rightarrow> nat \<Rightarrow> nat \<Rightarrow> u16 \<Rightarrow> ('s, unit) rcp" where
  "RCP_SetPhyRegField io slot port phyReg off len data =
     rcp_bind (RCP_GetPhyRegValue io slot port phyReg) (\<lambda>tmpData.
       RCP_SetPhyRegValue io slot port phyReg (field_set off len data tmpData))"

definition RCP_GetPhySpeed :: "'s rcp_io \<Rightarrow> nat \<Rightarrow> nat \<Rightarrow> ('s, u16) rcp" where
  "RCP_GetPhySpeed io slot port = RCP_GetPhyRegField io slot port 0 13 1"

definition RCP_SetPhySpeed :: "'s rcp_io \<Rightarrow> nat \<Rightarrow> nat \<Rightarrow> u16 \<Rightarrow> ('s, unit) rcp" where
  "RCP_SetPhySpeed io slot port data = RCP_SetPhyRegField io slot port 0 13 1 data"

definition RCP_GetPhyAutoNegoEnable :: "'s rcp_io \<Rightarrow> nat \<Rightarrow> nat \<Rightarrow> ('s, u16) rcp" where
  "RCP_GetPhyAutoNegoEnable io slot port = RCP_GetPhyRegField io slot port 0 12 1"

definition RCP_SetPhyAutoNegoEnable :: "'s rcp_io \<Rightarrow> nat \<Rightarrow> nat \<Rightarrow> u16 \<Rightarrow> ('s, unit) rcp" where
  "RCP_SetPhyAutoNegoEnable io slot port data = RCP_SetPhyRegField io slot port 0 12 1 data"

definition RCP_GetPhyPowerDown :: "'s rcp_io \<Rightarrow> nat \<Rightarrow> nat \<Rightarrow> ('s, u16) rcp" where
  "RCP_GetPhyPowerDown io slot port = RCP_GetPhyRegField io slot port 0 11 1"

definition RCP_SetPhyPowerDown :: "'s rcp_io \<Rightarrow> nat \<Rightarrow> nat \<Rightarrow> u16 \<Rightarrow> ('s, unit) rcp" where
  "RCP_SetPhyPowerDown io slot port data = RCP_SetPhyRegField io slot port 0 11 1 data"

definition RCP_GetPhyDuplex :: "'s rcp_io \<Rightarrow> nat \<Rightarrow> nat \<Rightarrow> ('s, u16) rcp" where
  "RCP_GetPhyDuplex io slot port = RCP_GetPhyRegField io slot port 0 8 1"

definition RCP_SetPhyDuplex :: "'s rcp_io \<Rightarrow> nat \<Rightarrow> nat \<Rightarrow> u16 \<Rightarrow> ('s, unit) rcp" where
  "RCP_SetPhyDuplex io slot port data = RCP_SetPhyRegField io slot port 0 8 1 data"

definition RCP_GetPhyFC :: "'s rcp_io \<Rightarrow> nat \<Rightarrow> nat \<Rightarrow> ('s, u16) rcp" where
  "RCP_GetPhyFC io slot port = RCP_GetPhyRegField io slot port 4 10 1"

definition RCP_SetPhyFC :: "'s rcp_io \<Rightarrow> nat \<Rightarrow> nat \<Rightarrow> u16 \<Rightarrow> ('s, unit) rcp" where
  "RCP_SetPhyFC io slot port data = RCP_SetPhyRegField io slot port 4 10 1 data"

definition RCP_GetPhy10H :: "'s rcp_io \<Rightarrow> nat \<Rightarrow> nat \<Rightarrow> ('s, u16) rcp" where
  "RCP_GetPhy10H io slot port = RCP_GetPhyRegField io slot port 4 5 1"

definition RCP_SetPhy10H :: "'s rcp_io \<Rightarrow> nat \<Rightarrow> nat \<Rightarrow> u16 \<Rightarrow> ('s, unit) rcp" where
  "RCP_SetPhy10H io slot port data = RCP_SetPhyRegField io slot port 4 5 1 data"

definition RCP_GetPhy10F :: "'s rcp_io \<Rightarrow> nat \<Rightarrow> nat \<Rightarrow> ('s, u16) rcp" where
  "RCP_GetPhy10F io slot port = RCP_GetPhyRegField io slot port 4 6 1"

definition RCP_SetPhy10F :: "'s rcp_io \<Rightarrow> nat \<Rightarrow> nat \<Rightarrow> u16 \<Rightarrow> ('s, unit) rcp" where
  "RCP_SetPhy10F io slot port data = RCP_SetPhyRegField io slot port 4 6 1 data"

definition RCP_GetPhy100H :: "'s rcp_io \<Rightarrow> nat \<Rightarrow> nat \<Rightarrow> ('s, u16) rcp" where
  "RCP_GetPhy100H io slot port = RCP_GetPhyRegField io slot port 4 7 1"

definition RCP_SetPhy100H :: "'s rcp_io \<Rightarrow> nat \<Rightarrow> nat \<Rightarrow> u16 \<Rightarrow> ('s, unit) rcp" where
  "RCP_SetPhy100H io slot port data = RCP_SetPhyRegField io slot port 4 7 1 data"

definition RCP_GetPhy100F :: "'s rcp_io \<Rightarrow> nat \<Rightarrow> nat \<Rightarrow> ('s, u16) rcp" where
  "RCP_GetPhy100F io slot port = RCP_GetPhyRegField io slot port 4 8 1"

definition RCP_SetPhy100F :: "'s rcp_io \<Rightarrow> nat \<Rightarrow> nat \<Rightarrow> u16 \<Rightarrow> ('s, unit) rcp" where
  "RCP_SetPhy100F io slot port data = RCP_SetPhyRegField io slot port 4 8 1 data"

definition RCP_SetPhyReset :: "'s rcp_io \<Rightarrow> nat \<Rightarrow> nat \<Rightarrow> ('s, unit) rcp" where
  "RCP_SetPhyReset io slot port = RCP_SetPhyRegField io slot port 0 15 1 1"

definition RCP_SetPhyReAutoNego :: "'s rcp_io \<Rightarrow> nat \<Rightarrow> nat \<Rightarrow> ('s, unit) rcp" where
  "RCP_SetPhyReAutoNego io slot port = RCP_SetPhyRegField io slot port 0 9 1 1"

section \<open>Settings that also reach the PHY\<close>

definition RCP_SetPortEnable :: "'s rcp_io \<Rightarrow> nat \<Rightarrow> nat \<Rightarrow> u16 \<Rightarrow> u32 \<Rightarrow> ('s, unit) rcp" where
  "RCP_SetPortEnable io slot port data flag =
     rcp_bind (phy_of io slot port) (\<lambda>phyPort.
       rcp_then (RCP_SetPhyPowerDown io slot port data)
         (RCP_SetRegField io (RT8326_PORT_DISABLE phyPort) (Bit16_Pos phyPort) 1 data flag))"

definition RCP_SetPortSpeedConfig :: "'s rcp_io \<Rightarrow> nat \<Rightarrow> nat \<Rightarrow> u16 \<Rightarrow> u32 \<Rightarrow> ('s, unit) rcp" where
  "RCP_SetPortSpeedConfig io slot port data flag =
     rcp_bind (phy_of io slot port) (\<lambda>phyPort.
       rcp_then (RCP_SetRegField io (RT8326_PORT_PROPERTY phyPort) (Media_Capability_Pos phyPort) 4 0 flag)
       (rcp_then (RCP_SetRegField io (RT8326_PORT_PROPERTY phyPort) (AutoNegotiation_Pos phyPort) 1 0 flag)
         (RCP_SetRegField io (RT8326_PORT_PROPERTY phyPort) (Media_Capability_Pos phyPort) 4 data flag)))"

definition RCP_SetPortAutoNegoEnable :: "'s rcp_io \<Rightarrow> nat \<Rightarrow> nat \<Rightarrow> u16 \<Rightarrow> u32 \<Rightarrow> ('s, unit) rcp" where
  "RCP_SetPortAutoNegoEnable io slot port data flag =
     rcp_bind (phy_of io slot port) (\<lambda>phyPort.
       rcp_then (RCP_SetPhyAutoNegoEnable io slot port 1)
       (rcp_then (RCP_SetPhyReAutoNego io slot port)
       (rcp_then (RCP_SetRegField io (RT8326_PORT_PROPERTY phyPort) (AutoNegotiation_Pos phyPort) 1 data flag)
         (RCP_SetRegField io (RT8326_PORT_PROPERTY phyPort) (Media_Capability_Pos phyPort) 4 0xf flag))))"

definition RCP_SetPortPauseFC :: "'s rcp_io \<Rightarrow> nat \<Rightarrow> nat \<Rightarrow> u16 \<Rightarrow> u32 \<Rightarrow> ('s, unit) rcp" where
  "RCP_SetPortPauseFC io slot port data flag =
     rcp_bind (phy_of io slot port) (\<lambda>phyPort.
       rcp_then (RCP_SetPhyReAutoNego io slot port)
       (rcp_then (RCP_SetPhyFC io slot port data)
         (RCP_SetRegField io (RT8326_PORT_PROPERTY phyPort) (Pause_Pos phyPort) 1 data flag)))"

text \<open>The four modes differ in the speed and duplex bits of the PHY, the capability that is
  advertised, and the capabilities of the port register.\<close>

definition port_mode :: "'s rcp_io \<Rightarrow> nat \<Rightarrow> nat \<Rightarrow> u16 \<Rightarrow> u16 \<Rightarrow> ('s, unit) rcp \<Rightarrow> u16 \<Rightarrow> u32 \<Rightarrow> ('s, unit) rcp" where
  "port_mode io slot port speed duplex advertise capability flag =
     rcp_then (RCP_SetPhyAutoNegoEnable io slot port 1)
     (rcp_then (RCP_SetPhyReAutoNego io slot port)
     (rcp_then (RCP_SetPhyAutoNegoEnable io slot port 0)
     (rcp_then (RCP_SetPhySpeed io slot port speed)
     (rcp_then (RCP_SetPhyDuplex io slot port duplex)
     (rcp_then advertise
       (RCP_SetPortSpeedConfig io slot port capability flag))))))"

definition RCP_SetPortMode100F :: "'s rcp_io \<Rightarrow> nat \<Rightarrow> nat \<Rightarrow> u32 \<Rightarrow> ('s, unit) rcp" where
  "RCP_SetPortMode100F io slot port flag = port_mode io slot port 1 1 (RCP_SetPhy100F io slot port 1) 0xf flag"

definition RCP_SetPortMode100H :: "'s rcp_io \<Rightarrow> nat \<Rightarrow> nat \<Rightarrow> u32 \<Rightarrow> ('s, unit) rcp" where
  "RCP_SetPortMode100H io slot port flag = port_mode io slot port 1 0 (RCP_SetPhy100H io slot port 1) 0x7 flag"

definition RCP_SetPortMode10F :: "'s rcp_io \<Rightarrow> nat \<Rightarrow> nat \<Rightarrow> u32 \<Rightarrow> ('s, unit) rcp" where
  "RCP_SetPortMode10F io slot port flag = port_mode io slot port 0 1 (RCP_SetPhy10F io slot port 1) 0x3 flag"

definition RCP_SetPortMode10H :: "'s rcp_io \<Rightarrow> nat \<Rightarrow> nat \<Rightarrow> u32 \<Rightarrow> ('s, unit) rcp" where
  "RCP_SetPortMode10H io slot port flag = port_mode io slot port 0 0 (RCP_SetPhy10H io slot port 1) 0x1 flag"

end
