(* ===== verification/Rcp_Link.thy ===== *)
theory Rcp_Link
  imports Rcp_Port Os_Core
begin

text \<open>
  The link to the attached switches (\<^verbatim>\<open>apps/rcp_gwd.c\<close>, lines 196 to 1120 and 6672 to 6797): the
  list of switches, the list of register accesses that wait for a reply, the frames sent and
  received, and the registers of a switch read and written through them.
\<close>

section \<open>State\<close>

definition MAX_RRCP_SWITCH_TO_MANAGE :: nat where "MAX_RRCP_SWITCH_TO_MANAGE = 26"
definition MAX_RTL_REG_TO_ACCESS :: nat where "MAX_RTL_REG_TO_ACCESS = 10"
definition RCP_RESPONSE_TIMEOUT :: int where "RCP_RESPONSE_TIMEOUT = 5000"

lemmas rcp_sizes = MAX_RRCP_SWITCH_TO_MANAGE_def MAX_RTL_REG_TO_ACCESS_def

text \<open>
  \<^verbatim>\<open>RCP_REG\<close>, an access that waits for its reply. A node is used only while it is in the list, so the
  list holds the nodes; \<open>rg_addr\<close> is the address that \<^verbatim>\<open>malloc\<close> gave it. The device is the
  index in \<^verbatim>\<open>rcpDevList\<close>.
\<close>

record rcp_reg =
  rg_addr :: addr
  rg_address :: u16
  rg_value :: u32
  rg_dev :: nat
  rg_validFlag :: u16
  rg_semAccess :: u32

record 'w rcp_sys =
  rcpDevList :: "rcp_dev option list"
  rcpRegList :: "rcp_reg option list"
  rcp_os :: osal
  semAccessRcpDevList :: u32
  semAccessRcpChannel :: u32
  semAccessRcpRegList :: u32
  rcp_next :: addr
  vlan_dot_1q_enable :: bool
  gulGwdRcpAuth :: bool
  gulEthRxTaskReady :: bool
  gucRcpAlarmMask :: u8
  rcp_world :: 'w

text \<open>
  What the module does not control, on a state \<open>'w\<close>: whether \<^verbatim>\<open>malloc\<close> succeeds, \<^verbatim>\<open>LIB_IF_PORTSEND\<close>, the
  frames that the receiving thread handles while a caller waits for its reply,
  \<^verbatim>\<open>LIB_IF_PORT_PVID_GET\<close> and \<^verbatim>\<open>LIB_IF_PORT_OPER_STATUS_GET\<close> (\<open>None\<close>: nothing is stored), the local
  address. \<open>ev_semret\<close>: the code takes a result of \<^verbatim>\<open>gw_rcp_sem_create\<close>, which has none; it is what
  the call of \<^verbatim>\<open>gw_semaphore_init\<close> left behind.
\<close>

record 'w rcp_env =
  ev_malloc :: "'w \<Rightarrow> bool \<times> 'w"
  ev_send :: "nat \<Rightarrow> u8 list \<Rightarrow> 'w \<Rightarrow> int \<times> 'w"
  ev_recv :: "'w \<Rightarrow> (nat \<times> u8 list) list \<times> 'w"
  ev_pvid :: "nat \<Rightarrow> 'w \<Rightarrow> u16 option \<times> 'w"
  ev_oper_up :: "nat \<Rightarrow> 'w \<Rightarrow> bool \<times> 'w"
  ev_local_mac :: "u8 list"
  ev_semret :: "osal_status \<Rightarrow> int"

definition rcp_dev_zero :: rcp_dev where
  "rcp_dev_zero = \<lparr>rd_deviceId = 0, rd_switchMac = replicate 6 0, rd_previousswitchMac = replicate 6 0, rd_parentMac = replicate 6 0,
     rd_chipID = replicate 2 0, rd_vendorID = replicate 4 0, rd_authenKey = replicate 2 0, rd_upLinkPort = 0,
     rd_parentPort = 0, rd_paSlot = 0, rd_paPort = 0, rd_onlineStatus = 0, rd_alarmMask = 0,
     rd_vlanPort = replicate MAX_RCP_VLAN_NUM 0, rd_vlanVid = replicate MAX_RCP_VLAN_NUM 0, rd_vlanPortIsolate = 0,
     rd_numOfPorts = 0, rd_timeoutCounter = 0, rd_timeoutFlag = 0, rd_mgtVid = 0, rd_phyAddr = 0,
     rd_modelID = replicate 16 0, rd_previousOnlineStatus = 0, rd_alarmStatus = 0, rd_previousUplinkPort = 0, rd_loopStatus = 0, rd_loopAndDown = 0\<rparr>"

section \<open>Calls below\<close>

definition rcp_malloc :: "'w rcp_env \<Rightarrow> 'w rcp_sys \<Rightarrow> addr option \<times> 'w rcp_sys" where
  "rcp_malloc env s = (case ev_malloc env (rcp_world s) of (ok, w) \<Rightarrow>
     if ok then (Some (rcp_next s), s\<lparr>rcp_next := rcp_next s + 1, rcp_world := w\<rparr>) else (None, s\<lparr>rcp_world := w\<rparr>))"

definition rcp_portsend :: "'w rcp_env \<Rightarrow> nat \<Rightarrow> u8 list \<Rightarrow> 'w rcp_sys \<Rightarrow> int \<times> 'w rcp_sys" where
  "rcp_portsend env p frm s = (case ev_send env p frm (rcp_world s) of (r, w) \<Rightarrow> (r, s\<lparr>rcp_world := w\<rparr>))"

definition rcp_pvid_get :: "'w rcp_env \<Rightarrow> nat \<Rightarrow> 'w rcp_sys \<Rightarrow> u16 option \<times> 'w rcp_sys" where
  "rcp_pvid_get env p s = (case ev_pvid env p (rcp_world s) of (r, w) \<Rightarrow> (r, s\<lparr>rcp_world := w\<rparr>))"

definition rcp_oper_up :: "'w rcp_env \<Rightarrow> nat \<Rightarrow> 'w rcp_sys \<Rightarrow> bool \<times> 'w rcp_sys" where
  "rcp_oper_up env p s = (case ev_oper_up env p (rcp_world s) of (r, w) \<Rightarrow> (r, s\<lparr>rcp_world := w\<rparr>))"

text \<open>\<^verbatim>\<open>gw_rcp_sem_create\<close>: the id is stored only on success. Nobody waits on a semaphore that is deleted.\<close>

definition gw_rcp_sem_create :: "string \<Rightarrow> u32 \<Rightarrow> 'w rcp_sys \<Rightarrow> osal_status \<times> u32 option \<times> 'w rcp_sys" where
  "gw_rcp_sem_create name initval s =
     (case gw_semaphore_init (rcp_os s) True (Some name) initval True of (st, sid, os) \<Rightarrow> (st, sid, s\<lparr>rcp_os := os\<rparr>))"

definition gw_rcp_sem_delete :: "u32 \<Rightarrow> 'w rcp_sys \<Rightarrow> 'w rcp_sys" where
  "gw_rcp_sem_delete semid s = s\<lparr>rcp_os := snd (gw_semaphore_destroy (rcp_os s) semid True)\<rparr>"

definition gw_rcp_sem_take :: "u32 \<Rightarrow> int \<Rightarrow> 'w rcp_sys \<Rightarrow> (osal_status \<times> 'w rcp_sys) option" where
  "gw_rcp_sem_take semid timeout s =
     map_option (\<lambda>(st, os). (st, s\<lparr>rcp_os := os\<rparr>)) (gw_semaphore_wait (\<lambda>_. 0) (rcp_os s) semid timeout)"

definition gw_rcp_sem_give :: "u32 \<Rightarrow> 'w rcp_sys \<Rightarrow> 'w rcp_sys" where
  "gw_rcp_sem_give semid s = s\<lparr>rcp_os := snd (gw_semaphore_post (rcp_os s) semid)\<rparr>"

section \<open>Devices\<close>

definition rcp_dev_at :: "'w rcp_sys \<Rightarrow> nat \<Rightarrow> rcp_dev option" where
  "rcp_dev_at s d = (if d < MAX_RRCP_SWITCH_TO_MANAGE then rcpDevList s ! d else None)"

definition rcp_dev_upd :: "nat \<Rightarrow> (rcp_dev \<Rightarrow> rcp_dev) \<Rightarrow> 'w rcp_sys \<Rightarrow> 'w rcp_sys" where
  "rcp_dev_upd d f s = s\<lparr>rcpDevList := (rcpDevList s)[d := map_option f (rcpDevList s ! d)]\<rparr>"

definition RCP_Get_Dev_Ptr :: "'w rcp_sys \<Rightarrow> nat \<Rightarrow> nat option" where
  "RCP_Get_Dev_Ptr s parentPort =
     (if parentPort \<ge> MAX_RRCP_SWITCH_TO_MANAGE then None
      else if rcpDevList s ! parentPort = None then None else Some parentPort)"

definition RCP_Dev_Is_Valid :: "'w rcp_sys \<Rightarrow> nat \<Rightarrow> bool" where
  "RCP_Dev_Is_Valid s parentPort =
     (if parentPort \<ge> MAX_RRCP_SWITCH_TO_MANAGE then False
      else case rcpDevList s ! parentPort of None \<Rightarrow> False | Some dev \<Rightarrow> rd_switchMac dev \<noteq> replicate 6 0)"

definition RCP_Dev_Status_Set :: "nat \<Rightarrow> u8 \<Rightarrow> 'w rcp_sys \<Rightarrow> int \<times> 'w rcp_sys" where
  "RCP_Dev_Status_Set parentPort up s =
     (if parentPort \<ge> MAX_RRCP_SWITCH_TO_MANAGE then (RCP_BAD_PARAM, s)
      else if rcpDevList s ! parentPort = None then (RCP_NOT_INITIALIZED, s)
      else (0, rcp_dev_upd parentPort (\<lambda>d. d\<lparr>rd_onlineStatus := (if up \<noteq> 0 then 1 else 0)\<rparr>) s))"

section \<open>Frames\<close>

text \<open>\<^verbatim>\<open>SET_SHORT_TO_RCP_PKT\<close> and its inverses: the low byte first.\<close>

definition rcp_short :: "u16 \<Rightarrow> u8 list" where
  "rcp_short v = [ucast (v AND 0x00FF), ucast (drop_bit 8 (v AND 0xFF00))]"

definition GET_RCP_PKT_SHORT :: "u8 list \<Rightarrow> u16" where
  "GET_RCP_PKT_SHORT b = push_bit 8 (ucast (b ! 1)) OR ucast (b ! 0)"

definition GET_RCP_PKT_LONG :: "u8 list \<Rightarrow> u32" where
  "GET_RCP_PKT_LONG b = ucast (b ! 0) OR push_bit 8 (ucast (b ! 1)) OR push_bit 16 (ucast (b ! 2)) OR push_bit 24 (ucast (b ! 3))"

definition RCP_HELLO_PAYLOAD_OFFSET :: nat where "RCP_HELLO_PAYLOAD_OFFSET = 20"
definition RCP_HELLO_CHIPID_OFFSET :: nat where "RCP_HELLO_CHIPID_OFFSET = 30"
definition RCP_PKT_MAX_LENGTH :: nat where "RCP_PKT_MAX_LENGTH = 80"

text \<open>The tag of the management VLAN and the RRCP header; the first 64 bytes of the buffer are sent.\<close>

definition rcp_vid :: "u16 \<Rightarrow> u8 list" where
  "rcp_vid vid = [ucast (drop_bit 8 (0xff00 AND vid) OR 0xf0), ucast (0xff AND vid)]"

definition rcp_frame :: "bool \<Rightarrow> u8 list \<Rightarrow> u8 list \<Rightarrow> u8 list \<Rightarrow> u8 \<Rightarrow> u8 list \<Rightarrow> u8 list \<Rightarrow> u8 list" where
  "rcp_frame tagged dmac smac vid opcode key body =
     (let f = dmac @ smac @ (if tagged then [0x81, 0x00] @ vid else []) @ [0x88, 0x99] @ [0x01, opcode] @ key @ body
      in take 64 (f @ replicate 80 0))"

definition rcp_get_frame :: "bool \<Rightarrow> rcp_dev \<Rightarrow> u16 \<Rightarrow> u8 list" where
  "rcp_get_frame tagged dev regAddr =
     rcp_frame tagged (rd_switchMac dev) (rd_parentMac dev) (rcp_vid (rd_mgtVid dev)) 0x01 (rd_authenKey dev) (rcp_short regAddr)"

definition rcp_set_frame :: "bool \<Rightarrow> rcp_dev \<Rightarrow> u16 \<Rightarrow> u16 \<Rightarrow> u8 list" where
  "rcp_set_frame tagged dev regAddr data =
     rcp_frame tagged (rd_switchMac dev) (rd_parentMac dev) (rcp_vid (rd_mgtVid dev)) 0x02 (rd_authenKey dev) (rcp_short regAddr @ rcp_short data)"

section \<open>Waiting accesses\<close>

definition RCP_RegList_Insert :: "rcp_reg \<Rightarrow> rcp_reg option list \<Rightarrow> int \<times> rcp_reg option list" where
  "RCP_RegList_Insert reg l =
     (let i = first_idx (\<lambda>r. r = None) l in if i < length l then (0, l[i := Some reg]) else (RCP_NO_RESOURCE, l))"

text \<open>The devices are compared by their addresses; the entry's device is dereferenced.\<close>

definition RCP_RegList_Search :: "'w rcp_sys \<Rightarrow> rcp_dev \<Rightarrow> u16 \<Rightarrow> nat option" where
  "RCP_RegList_Search s dev regAddr =
     (let i = first_idx (\<lambda>r. case r of None \<Rightarrow> False
                | Some reg \<Rightarrow> regAddr = rg_address reg \<and> (case rcp_dev_at s (rg_dev reg) of None \<Rightarrow> False | Some e \<Rightarrow> rd_switchMac dev = rd_switchMac e))
              (rcpRegList s)
      in if i < length (rcpRegList s) then Some i else None)"

definition RCP_RegList_Delete :: "addr \<Rightarrow> rcp_reg option list \<Rightarrow> int \<times> rcp_reg option list" where
  "RCP_RegList_Delete a l =
     (let i = first_idx (\<lambda>r. case r of None \<Rightarrow> False | Some reg \<Rightarrow> rg_addr reg = a) l
      in if i < length l then (0, l[i := None]) else (RCP_NO_SUCH, l))"

section \<open>Writing a register\<close>

definition RCP_Write_Reg :: "'w rcp_env \<Rightarrow> nat \<Rightarrow> u16 \<Rightarrow> u16 \<Rightarrow> ('w rcp_sys, unit) rcp" where
  "RCP_Write_Reg env d regAddr data s =
     (case rcp_dev_at s d of
        None \<Rightarrow> Some (Inl RCP_BAD_PARAM, s)
      | Some dev \<Rightarrow>
          Option.bind (gw_rcp_sem_take (semAccessRcpChannel s) 1000 s) (\<lambda>(_, s).
            case rcp_portsend env (unat (rd_paPort dev)) (rcp_set_frame (vlan_dot_1q_enable s) dev regAddr data) s of (r, s) \<Rightarrow>
              if r \<noteq> 0 then Some (Inl RCP_FAIL, gw_rcp_sem_give (semAccessRcpChannel s) s)
              else Some (Inr (), gw_rcp_sem_give (semAccessRcpChannel s) s)))"

section \<open>Received frames\<close>

text \<open>\<^verbatim>\<open>n\<close> bytes of a packet; beyond its end the read is a fault.\<close>

definition pkt_sub :: "u8 list \<Rightarrow> nat \<Rightarrow> nat \<Rightarrow> u8 list option" where
  "pkt_sub pkt off n = (if off + n \<le> length pkt then Some (take n (drop off pkt)) else None)"

definition Rcp_ChipId_AuthCheck :: "u8 list \<Rightarrow> int option" where
  "Rcp_ChipId_AuthCheck packet =
     map_option (\<lambda>tmp. let chip_id = push_bit 8 (ucast (tmp ! 1)) OR ucast (tmp ! 0) :: u16
        in if chip_id = 0xc \<or> chip_id = 0xd \<or> chip_id = 0xe then 0 else RCP_UNKOWN)
       (pkt_sub packet RCP_HELLO_CHIPID_OFFSET 2)"

text \<open>The management VLAN: asked for, or 0 without 802.1Q; an answer that fails leaves it.\<close>

definition mgt_vid_set :: "'w rcp_env \<Rightarrow> nat \<Rightarrow> 'w rcp_sys \<Rightarrow> 'w rcp_sys" where
  "mgt_vid_set env p s =
     (if vlan_dot_1q_enable s
      then (case rcp_pvid_get env p s of (v, s) \<Rightarrow> rcp_dev_upd p (\<lambda>d. case v of None \<Rightarrow> d | Some vid \<Rightarrow> d\<lparr>rd_mgtVid := vid\<rparr>) s)
      else rcp_dev_upd p (\<lambda>d. d\<lparr>rd_mgtVid := 0\<rparr>) s)"

text \<open>The switch of a port is created with the first hello reply.\<close>

definition rcp_dev_create :: "'w rcp_env \<Rightarrow> nat \<Rightarrow> u8 list \<Rightarrow> 'w rcp_sys \<Rightarrow> (bool \<times> 'w rcp_sys) option" where
  "rcp_dev_create env p pkt s =
     (case rcpDevList s ! p of
        Some _ \<Rightarrow> Some (True, s)
      | None \<Rightarrow> (case rcp_malloc env s of
            (None, s) \<Rightarrow> Some (False, s)
          | (Some _, s) \<Rightarrow>
              let s = mgt_vid_set env p (s\<lparr>rcpDevList := (rcpDevList s)[p := Some rcp_dev_zero]\<rparr>)
              in map_option (\<lambda>m. (True, rcp_dev_upd p (\<lambda>d. d\<lparr>rd_parentMac := m, rd_parentPort := of_nat p, rd_paSlot := 1, rd_paPort := of_nat p\<rparr>) s))
                   (pkt_sub pkt 0 6)))"

text \<open>
  A hello reply: the switch of the port is created or its data replaced; a switch that has
  another key is given the one of this firmware. The list's semaphore stays taken when the
  allocation fails.
\<close>

definition RCP_DevList_Update :: "'w rcp_env \<Rightarrow> nat \<Rightarrow> u8 list \<Rightarrow> 'w rcp_sys \<Rightarrow> (int \<times> 'w rcp_sys) option" where
  "RCP_DevList_Update env parentPort pkt s =
     (if parentPort \<ge> MAX_RRCP_SWITCH_TO_MANAGE then Some (RCP_BAD_PARAM, s)
      else case Rcp_ChipId_AuthCheck pkt of None \<Rightarrow> None | Some c \<Rightarrow>
        if c \<noteq> 0 then Some (RCP_UNKOWN, s)
        else Option.bind (gw_rcp_sem_take (semAccessRcpDevList s) (-1) s) (\<lambda>(_, s).
          Option.bind (rcp_dev_create env parentPort pkt s) (\<lambda>(ok, s).
          if \<not> ok then Some (RCP_NO_MEM, s)
          else Option.bind (pkt_sub pkt 0 36) (\<lambda>p.
               let s = rcp_dev_upd parentPort (\<lambda>d. d\<lparr>rd_switchMac := take 6 (drop 6 p), rd_chipID := take 2 (drop 30 p),
                         rd_vendorID := take 4 (drop 32 p), rd_upLinkPort := p ! 22\<rparr>) s;
                   s = mgt_vid_set env parentPort s;
                   s = rcp_dev_upd parentPort (\<lambda>d. d\<lparr>rd_authenKey := take 2 (drop 20 p)\<rparr>) s
               in Option.bind
                    (if take 2 (drop 20 p) \<noteq> [0x23, 0x79]
                     then Option.bind (RCP_Write_Reg env parentPort RT8326_RRCP_AUTHKEY 0x2379 s) (\<lambda>(r, s).
                            case r of Inl _ \<Rightarrow> Some s | Inr _ \<Rightarrow> Some (rcp_dev_upd parentPort (\<lambda>d. d\<lparr>rd_authenKey := [0x23, 0x79]\<rparr>) s))
                     else Some s)
                    (\<lambda>s. let s = rcp_dev_upd parentPort (\<lambda>d. d\<lparr>rd_timeoutFlag := 0, rd_timeoutCounter := 0, rd_phyAddr := 0x10,
                                   rd_alarmMask := gucRcpAlarmMask s\<rparr>) s
                          in Some (0, gw_rcp_sem_give (semAccessRcpDevList s) s))))))"

text \<open>A get reply: the value goes to the access that waits for it, which is woken.\<close>

definition RCP_RegList_Update :: "nat \<Rightarrow> u8 list \<Rightarrow> 'w rcp_sys \<Rightarrow> (int \<times> 'w rcp_sys) option" where
  "RCP_RegList_Update parentPort pkt s =
     (if parentPort \<ge> MAX_RRCP_SWITCH_TO_MANAGE then Some (RCP_BAD_PARAM, s)
      else case rcpDevList s ! parentPort of
        None \<Rightarrow> Some (RCP_NOT_INITIALIZED, s)
      | Some dev \<Rightarrow>
          Option.bind (pkt_sub pkt RCP_HELLO_PAYLOAD_OFFSET 2) (\<lambda>key.
          if rd_authenKey dev \<noteq> key then Some (RCP_UNKOWN, s)
          else Option.bind (pkt_sub pkt 22 2) (\<lambda>adr.
            Option.bind (gw_rcp_sem_take (semAccessRcpRegList s) (-1) s) (\<lambda>(_, s).
              case RCP_RegList_Search s dev (GET_RCP_PKT_SHORT adr) of
                None \<Rightarrow> Some (RCP_NO_SUCH, gw_rcp_sem_give (semAccessRcpRegList s) s)
              | Some i \<Rightarrow>
                  Option.bind (pkt_sub pkt 24 4) (\<lambda>val.
                    let reg = (the (rcpRegList s ! i))\<lparr>rg_value := GET_RCP_PKT_LONG val, rg_validFlag := 1\<rparr>;
                        s = s\<lparr>rcpRegList := (rcpRegList s)[i := Some reg]\<rparr>;
                        s = gw_rcp_sem_give (rg_semAccess reg) s
                    in Some (0, gw_rcp_sem_give (semAccessRcpRegList s) s))))))"

definition rrcp_packet_handler :: "'w rcp_env \<Rightarrow> nat \<Rightarrow> u8 list \<Rightarrow> 'w rcp_sys \<Rightarrow> (int \<times> 'w rcp_sys) option" where
  "rrcp_packet_handler env srcPort packet s =
     Option.bind (if gulGwdRcpAuth s then map_option (\<lambda>m. m = [0x00, 0x0f, 0xe9]) (pkt_sub packet 6 3) else Some True) (\<lambda>auth.
       if \<not> auth then Some (RCP_ILLEGAL_AUTHKEY, s)
       else Option.bind (pkt_sub packet 16 2) (\<lambda>ty.
         if ty \<noteq> [0x88, 0x99] then Some (RCP_BAD_VALUE, s)
         else Option.bind (pkt_sub packet 18 2) (\<lambda>ver.
           if ver = [0x01, 0x80] then RCP_DevList_Update env srcPort packet s
           else if ver = [0x01, 0x81] then RCP_RegList_Update srcPort packet s
           else Some (RCP_NOT_SUPPORTED, s))))"

text \<open>A frame without a tag gets one, in a buffer of 80 bytes.\<close>

definition RcpFrameRevHandle :: "'w rcp_env \<Rightarrow> nat \<Rightarrow> u8 list \<Rightarrow> 'w rcp_sys \<Rightarrow> (int \<times> 'w rcp_sys) option" where
  "RcpFrameRevHandle env portid frm s =
     (if length frm < 16 \<or> length frm \<ge> RCP_PKT_MAX_LENGTH - 4 then Some (0, s)
      else Option.bind
        (if frm ! 12 = 0x81 \<and> frm ! 13 = 0 then rrcp_packet_handler env portid frm s
         else rrcp_packet_handler env portid
                (take RCP_PKT_MAX_LENGTH (take 12 frm @ [0x81, 0, 0, 0x01] @ drop 12 frm @ replicate RCP_PKT_MAX_LENGTH 0)) s)
        (\<lambda>(iRet, s). Some (if iRet = 0 then 1 else 0, s)))"

definition gw_rcppktparser :: "u8 list \<Rightarrow> bool" where
  "gw_rcppktparser pkt \<longleftrightarrow>
     length pkt > 18 \<and>
     (if take 2 (drop 12 pkt) = [0x81, 0x00] then take 2 (drop 16 pkt) else take 2 (drop 12 pkt)) = [0x88, 0x99]"

section \<open>Reading a register\<close>

text \<open>The frames that the receiving thread handles while the caller waits.\<close>

fun rcp_handle_frames :: "'w rcp_env \<Rightarrow> (nat \<times> u8 list) list \<Rightarrow> 'w rcp_sys \<Rightarrow> 'w rcp_sys option" where
  "rcp_handle_frames env [] s = Some s"
| "rcp_handle_frames env ((p, f) # fs) s =
     Option.bind (RcpFrameRevHandle env p f s) (\<lambda>(_, s). rcp_handle_frames env fs s)"

definition rcp_receive :: "'w rcp_env \<Rightarrow> 'w rcp_sys \<Rightarrow> 'w rcp_sys option" where
  "rcp_receive env s = (case ev_recv env (rcp_world s) of (fs, w) \<Rightarrow> rcp_handle_frames env fs (s\<lparr>rcp_world := w\<rparr>))"

definition rcp_reg_of :: "addr \<Rightarrow> 'w rcp_sys \<Rightarrow> rcp_reg option" where
  "rcp_reg_of a s = Option.bind (List.find (\<lambda>r. case r of None \<Rightarrow> False | Some reg \<Rightarrow> rg_addr reg = a) (rcpRegList s)) id"

text \<open>The end of an access: label \<^verbatim>\<open>ERROR_RETURN\<close>.\<close>

definition read_reg_end :: "addr \<Rightarrow> u32 \<Rightarrow> int + 'a \<Rightarrow> ('w rcp_sys, 'a) rcp" where
  "read_reg_end a sid r s =
     Option.bind (gw_rcp_sem_take (semAccessRcpRegList s) (-1) (gw_rcp_sem_delete sid s)) (\<lambda>(_, s).
       let s = s\<lparr>rcpRegList := snd (RCP_RegList_Delete a (rcpRegList s))\<rparr>;
           s = gw_rcp_sem_give (semAccessRcpRegList s) s
       in Some (r, gw_rcp_sem_give (semAccessRcpChannel s) s))"

definition RCP_Read_Reg :: "'w rcp_env \<Rightarrow> nat \<Rightarrow> u16 \<Rightarrow> ('w rcp_sys, u16) rcp" where
  "RCP_Read_Reg env d regAddr s =
     (case rcp_dev_at s d of
        None \<Rightarrow> Some (Inl RCP_BAD_PARAM, s)
      | Some dev \<Rightarrow>
      case rcp_malloc env s of
        (None, s) \<Rightarrow> Some (Inl RCP_NO_MEM, s)
      | (Some a, s) \<Rightarrow>
      case gw_rcp_sem_create ''read_reg'' 0 s of (st, sido, s) \<Rightarrow>
      let sid = (case sido of None \<Rightarrow> 0 | Some i \<Rightarrow> i) in
      if ev_semret env st \<noteq> 0 then Some (Inl (-1), s)
      else Option.bind (gw_rcp_sem_take (semAccessRcpRegList s) (-1) s) (\<lambda>(_, s).
        case RCP_RegList_Insert \<lparr>rg_addr = a, rg_address = regAddr, rg_value = 0, rg_dev = d, rg_validFlag = 0, rg_semAccess = sid\<rparr> (rcpRegList s) of
          (iRet, l) \<Rightarrow>
        if iRet \<noteq> 0
        then (let s = gw_rcp_sem_delete sid s in Some (Inl iRet, gw_rcp_sem_give (semAccessRcpRegList s) s))
        else let s = gw_rcp_sem_give (semAccessRcpRegList s) (s\<lparr>rcpRegList := l\<rparr>) in
          Option.bind (gw_rcp_sem_take (semAccessRcpChannel s) RCP_RESPONSE_TIMEOUT s) (\<lambda>(_, s).
          case rcp_portsend env (unat (rd_paPort dev)) (rcp_get_frame (vlan_dot_1q_enable s) dev regAddr) s of (r, s) \<Rightarrow>
          if r \<noteq> 0 then read_reg_end a sid (Inl RCP_FAIL) s
          else Option.bind (rcp_receive env s) (\<lambda>s.
          Option.bind (gw_rcp_sem_take sid RCP_RESPONSE_TIMEOUT s) (\<lambda>(st, s).
          if st \<noteq> OSAL_OK then read_reg_end a sid (Inl RCP_TIMEOUT) s
          else Option.bind (rcp_reg_of a s) (\<lambda>reg.
            let r = (if rg_validFlag reg = 1 then Inr (ucast (rg_value reg)) else Inl RCP_UNKOWN);
                s = gw_rcp_sem_give sid s
            in read_reg_end a sid r s))))))"

text \<open>
  \<^verbatim>\<open>RCP_Read_32bit_Reg\<close> uses the list without its semaphore, ignores a failed creation of its
  semaphore, and gives the channel back first. A full list leaves the semaphore behind.
\<close>

definition read_32bit_end :: "addr \<Rightarrow> u32 \<Rightarrow> int + 'a \<Rightarrow> ('w rcp_sys, 'a) rcp" where
  "read_32bit_end a sid r s =
     (let s = gw_rcp_sem_give (semAccessRcpChannel s) s;
          s = gw_rcp_sem_delete sid s
      in Some (r, s\<lparr>rcpRegList := snd (RCP_RegList_Delete a (rcpRegList s))\<rparr>))"

definition RCP_Read_32bit_Reg :: "'w rcp_env \<Rightarrow> nat \<Rightarrow> u16 \<Rightarrow> ('w rcp_sys, u32) rcp" where
  "RCP_Read_32bit_Reg env d regAddr s =
     (case rcp_dev_at s d of
        None \<Rightarrow> Some (Inl RCP_BAD_PARAM, s)
      | Some dev \<Rightarrow>
      case rcp_malloc env s of
        (None, s) \<Rightarrow> Some (Inl RCP_NO_MEM, s)
      | (Some a, s) \<Rightarrow>
      case gw_rcp_sem_create ''read_32bit'' 0 s of (_, sido, s) \<Rightarrow>
      let sid = (case sido of None \<Rightarrow> 0 | Some i \<Rightarrow> i) in
      case RCP_RegList_Insert \<lparr>rg_addr = a, rg_address = regAddr, rg_value = 0, rg_dev = d, rg_validFlag = 0, rg_semAccess = sid\<rparr> (rcpRegList s) of
        (iRet, l) \<Rightarrow>
      if iRet \<noteq> 0 then Some (Inl iRet, s)
      else Option.bind (gw_rcp_sem_take (semAccessRcpChannel s) RCP_RESPONSE_TIMEOUT (s\<lparr>rcpRegList := l\<rparr>)) (\<lambda>(_, s).
        case rcp_portsend env (unat (rd_paPort dev)) (rcp_get_frame (vlan_dot_1q_enable s) dev regAddr) s of (r, s) \<Rightarrow>
        if r \<noteq> 0 then read_32bit_end a sid (Inl RCP_FAIL) s
        else Option.bind (rcp_receive env s) (\<lambda>s.
        Option.bind (gw_rcp_sem_take sid RCP_RESPONSE_TIMEOUT s) (\<lambda>(st, s).
        if st \<noteq> OSAL_OK then read_32bit_end a sid (Inl RCP_TIMEOUT) s
        else Option.bind (rcp_reg_of a s) (\<lambda>reg.
          let r = (if rg_validFlag reg = 1 then Inr (rg_value reg) else Inl RCP_UNKOWN);
              s = gw_rcp_sem_give sid s
          in read_32bit_end a sid r s)))))"

text \<open>The operations of the link to the switch at index \<open>d\<close>.\<close>

definition rcp_link :: "'w rcp_env \<Rightarrow> nat \<Rightarrow> 'w rcp_sys rcp_io" where
  "rcp_link env d = \<lparr>io_read = RCP_Read_Reg env d, io_read32 = RCP_Read_32bit_Reg env d, io_write = RCP_Write_Reg env d,
     io_dev = (\<lambda>s. the (rcp_dev_at s d)), io_mod = (\<lambda>f. rcp_dev_upd d f), io_junk = 0\<rparr>"

section \<open>Semaphores by their values\<close>

text \<open>The value of each live semaphore; the calls of the OS layer as updates of this map.\<close>

definition sem_map :: "osal \<Rightarrow> nat \<Rightarrow> nat option" where
  "sem_map os i =
     (if i < GW_OSAL_MAX_COUNT_SEM \<and> \<not> sm_free (gw_osal_count_sem_table os ! i)
      then Some (sm_id (gw_osal_count_sem_table os ! i)) else None)"

lemma sem_map_valid: "sem_map os (unat i) = Some v \<Longrightarrow> sem_valid os i \<and> sem_value os i = v"
  by (auto simp: sem_map_def sem_valid_def sem_value_def not_le split: if_splits)

lemma sem_map_set:
  "osal_wf os \<Longrightarrow> sem_map os (unat i) = Some v \<Longrightarrow> sem_map (set_sem_value os i u) = (sem_map os)(unat i \<mapsto> u) \<and> osal_wf (set_sem_value os i u)"
  by (auto simp: sem_map_def set_sem_value_def fun_eq_iff nth_list_update osal_wf_lengths(2) split: if_splits)

lemma sem_map_take:
  assumes "osal_wf os" "sem_map os (unat i) = Some (Suc v)" "t = -1 \<or> t > 0"
  shows "\<exists>os'. gw_semaphore_wait (\<lambda>_. 0) os i t = Some (OSAL_OK, os') \<and> osal_wf os' \<and> sem_map os' = (sem_map os)(unat i \<mapsto> v)"
proof -
  have "t > 0 \<Longrightarrow> sem_timed_loop (\<lambda>_. 0) 0 (Suc v) t = (OSAL_OK, v, 0)" by (simp add: sem_timed_loop.simps)
  then have "gw_semaphore_wait (\<lambda>_. 0) os i t = Some (OSAL_OK, set_sem_value os i v)"
    using assms(3) sem_map_valid [OF assms(2)] by (auto simp: gw_semaphore_wait_def)
  then show ?thesis using sem_map_set [OF assms(1,2)] by blast
qed

lemma sem_map_post:
  assumes "osal_wf os" "sem_map os (unat i) = Some v" "v < 1000"
  shows "\<exists>os'. gw_semaphore_post os i = (OSAL_OK, os') \<and> osal_wf os' \<and> sem_map os' = (sem_map os)(unat i \<mapsto> Suc v)"
  using sem_map_valid [OF assms(2)] sem_map_set [OF assms(1,2), of "v + 1"] assms(3)
  by (simp add: gw_semaphore_post_def SEM_VALUE_MAX_def)

lemma sem_map_init:
  assumes "osal_wf os" "k < GW_OSAL_MAX_COUNT_SEM" "sem_map os k = None" "length n \<le> 20"
  shows "\<exists>i os'. gw_semaphore_init os True (Some n) v True = (OSAL_OK, Some i, os') \<and> osal_wf os' \<and>
     unat i < GW_OSAL_MAX_COUNT_SEM \<and> sem_map os (unat i) = None \<and> sem_map os' = (sem_map os)(unat i \<mapsto> unat v)"
proof -
  let ?i = "first_idx sm_free (gw_osal_count_sem_table os)"
  have l: "length (gw_osal_count_sem_table os) = GW_OSAL_MAX_COUNT_SEM" using assms(1) by (rule osal_wf_lengths)
  have "sm_free (gw_osal_count_sem_table os ! k)" using assms(2,3) by (simp add: sem_map_def split: if_splits)
  then have "?i < length (gw_osal_count_sem_table os)" using assms(2) l unfolding first_idx_less_iff by (metis nth_mem)
  then have i: "?i < GW_OSAL_MAX_COUNT_SEM" "sm_free (gw_osal_count_sem_table os ! ?i)" using l first_idx_nth [of sm_free "gw_osal_count_sem_table os"] by auto
  then have u: "unat (of_nat ?i :: u32) = ?i" by (simp add: unat_of_nat_u32 GW_OSAL_MAX_COUNT_SEM_def)
  show ?thesis using i u l assms(1,4)
    by (auto simp: gw_semaphore_init_def Let_def GW_OSAL_MAX_API_NAME_def sem_map_def fun_eq_iff nth_list_update not_le)
qed

lemma sem_map_destroy:
  assumes "osal_wf os" "sem_map os (unat i) = Some v"
  shows "\<exists>os'. gw_semaphore_destroy os i True = (OSAL_OK, os') \<and> osal_wf os' \<and> sem_map os' = (sem_map os)(unat i := None)"
  using sem_map_valid [OF assms(2)] assms
  by (auto simp: gw_semaphore_destroy_def sem_map_def fun_eq_iff nth_list_update osal_wf_lengths(2) sem_zero_def split: if_splits)

lemma rcp_take_ok:
  assumes "osal_wf (rcp_os s)" "sem_map (rcp_os s) (unat i) = Some (Suc v)" "t = -1 \<or> t > 0"
  obtains os' where "gw_rcp_sem_take i t s = Some (OSAL_OK, s\<lparr>rcp_os := os'\<rparr>)" "osal_wf os'" "sem_map os' = (sem_map (rcp_os s))(unat i \<mapsto> v)"
  using sem_map_take [OF assms] by (auto simp: gw_rcp_sem_take_def)

lemma rcp_give_ok:
  assumes "osal_wf (rcp_os s)" "sem_map (rcp_os s) (unat i) = Some v" "v < 1000"
  obtains os' where "gw_rcp_sem_give i s = s\<lparr>rcp_os := os'\<rparr>" "osal_wf os'" "sem_map os' = (sem_map (rcp_os s))(unat i \<mapsto> Suc v)"
  using sem_map_post [OF assms] by (auto simp: gw_rcp_sem_give_def)

lemma rcp_create_ok:
  assumes "osal_wf (rcp_os s)" "k < GW_OSAL_MAX_COUNT_SEM" "sem_map (rcp_os s) k = None" "length n \<le> 20"
  obtains i os' where "gw_rcp_sem_create n v s = (OSAL_OK, Some i, s\<lparr>rcp_os := os'\<rparr>)" "osal_wf os'"
    "sem_map (rcp_os s) (unat i) = None" "sem_map os' = (sem_map (rcp_os s))(unat i \<mapsto> unat v)"
  using sem_map_init [OF assms, of v] by (auto simp: gw_rcp_sem_create_def)

lemma rcp_delete_ok:
  assumes "osal_wf (rcp_os s)" "sem_map (rcp_os s) (unat i) = Some v"
  obtains os' where "gw_rcp_sem_delete i s = s\<lparr>rcp_os := os'\<rparr>" "osal_wf os'" "sem_map os' = (sem_map (rcp_os s))(unat i := None)"
  using sem_map_destroy [OF assms] by (auto simp: gw_rcp_sem_delete_def)

section \<open>A reply reaches the access that waits\<close>

definition rcp_long :: "u32 \<Rightarrow> u8 list" where
  "rcp_long x = [ucast x, ucast (drop_bit 8 x), ucast (drop_bit 16 x), ucast (drop_bit 24 x)]"

text \<open>The reply of a switch, with the management tag or without.\<close>

definition rcp_reply :: "bool \<Rightarrow> rcp_dev \<Rightarrow> u16 \<Rightarrow> u32 \<Rightarrow> u8 list" where
  "rcp_reply tagged dev a x =
     rd_parentMac dev @ rd_switchMac dev @ (if tagged then [0x81, 0x00] @ rcp_vid (rd_mgtVid dev) else []) @
     [0x88, 0x99, 0x01, 0x81] @ rd_authenKey dev @ rcp_short a @ rcp_long x @ replicate 32 0"

lemma rcp_short_get: "GET_RCP_PKT_SHORT (rcp_short a) = a"
proof (rule bit_word_eqI)
  fix n assume "n < LENGTH(16)"
  have e: "(255 :: u16) = mask 8" "(65280 :: u16) = push_bit 8 (mask 8)" by (simp_all add: mask_eq_exp_minus_1 push_bit_eq_mult)
  show "bit (GET_RCP_PKT_SHORT (rcp_short a)) n = bit a n" using \<open>n < LENGTH(16)\<close>
    unfolding GET_RCP_PKT_SHORT_def rcp_short_def e by (auto simp: bit_simps)
qed

lemma rcp_long_get: "GET_RCP_PKT_LONG (rcp_long x) = x"
proof (rule bit_word_eqI)
  fix n assume n: "n < LENGTH(32)"
  have "n < 8 \<or> (8 \<le> n \<and> n < 16) \<or> (16 \<le> n \<and> n < 24) \<or> (24 \<le> n \<and> n < 32)" using n by auto
  then show "bit (GET_RCP_PKT_LONG (rcp_long x)) n = bit x n"
    using n by (elim disjE conjE) (auto simp: GET_RCP_PKT_LONG_def rcp_long_def bit_simps)
qed

definition rcp_dev_wf :: "rcp_dev \<Rightarrow> bool" where
  "rcp_dev_wf dev \<longleftrightarrow> length (rd_switchMac dev) = 6 \<and> length (rd_parentMac dev) = 6 \<and> length (rd_authenKey dev) = 2"

text \<open>The frame that the handler sees, tagged or after the tag was put in.\<close>

lemma rcp_reply_parts:
  assumes "rcp_dev_wf dev" "tagged \<longrightarrow> pkt = rcp_reply tagged dev a x"
    and "\<not> tagged \<longrightarrow> pkt = take RCP_PKT_MAX_LENGTH (take 12 (rcp_reply tagged dev a x) @ [0x81, 0, 0, 0x01] @ drop 12 (rcp_reply tagged dev a x) @ replicate RCP_PKT_MAX_LENGTH 0)"
  shows "pkt_sub pkt 6 3 = Some (take 3 (rd_switchMac dev))" "pkt_sub pkt 16 2 = Some [0x88, 0x99]" "pkt_sub pkt 18 2 = Some [0x01, 0x81]"
    "pkt_sub pkt 20 2 = Some (rd_authenKey dev)" "pkt_sub pkt 22 2 = Some (rcp_short a)" "pkt_sub pkt 24 4 = Some (rcp_long x)"
proof -
  obtain p0 p1 p2 p3 p4 p5 where p: "rd_parentMac dev = [p0, p1, p2, p3, p4, p5]" using assms(1) by (auto simp: rcp_dev_wf_def list6)
  obtain m0 m1 m2 m3 m4 m5 where m: "rd_switchMac dev = [m0, m1, m2, m3, m4, m5]" using assms(1) by (auto simp: rcp_dev_wf_def list6)
  obtain k0 k1 where k: "rd_authenKey dev = [k0, k1]" using assms(1) by (auto simp: rcp_dev_wf_def list2)
  obtain t0 t1 where "pkt = [p0, p1, p2, p3, p4, p5, m0, m1, m2, m3, m4, m5, 0x81, 0, t0, t1, 0x88, 0x99, 0x01, 0x81, k0, k1] @
      rcp_short a @ rcp_long x @ replicate (if tagged then 32 else 52) 0"
  proof (cases tagged)
    case True
    with assms(2) show ?thesis by (intro that) (simp add: rcp_reply_def p m k rcp_vid_def)
  next
    case False
    have r: "replicate 80 0 = replicate 20 (0 :: u8) @ replicate 60 0" "replicate 52 0 = replicate 32 (0 :: u8) @ replicate 20 0"
      by (simp_all flip: replicate_add)
    from False assms(3) show ?thesis
      by (intro that [of 0 1]) (simp add: rcp_reply_def p m k RCP_PKT_MAX_LENGTH_def rcp_short_def rcp_long_def r)
  qed
  then show "pkt_sub pkt 6 3 = Some (take 3 (rd_switchMac dev))" "pkt_sub pkt 16 2 = Some [0x88, 0x99]" "pkt_sub pkt 18 2 = Some [0x01, 0x81]"
    "pkt_sub pkt 20 2 = Some (rd_authenKey dev)" "pkt_sub pkt 22 2 = Some (rcp_short a)" "pkt_sub pkt 24 4 = Some (rcp_long x)"
    by (simp_all add: pkt_sub_def m k rcp_short_def rcp_long_def)
qed

lemma rcp_reply_shape:
  assumes "rcp_dev_wf dev"
  shows "length (rcp_reply tagged dev a x) = (if tagged then 60 else 56)"
    "rcp_reply tagged dev a x ! 12 = 0x81 \<and> rcp_reply tagged dev a x ! 13 = 0 \<longleftrightarrow> tagged"
proof -
  obtain p0 p1 p2 p3 p4 p5 where p: "rd_parentMac dev = [p0, p1, p2, p3, p4, p5]" using assms by (auto simp: rcp_dev_wf_def list6)
  obtain m0 m1 m2 m3 m4 m5 where m: "rd_switchMac dev = [m0, m1, m2, m3, m4, m5]" using assms by (auto simp: rcp_dev_wf_def list6)
  obtain k0 k1 where k: "rd_authenKey dev = [k0, k1]" using assms by (auto simp: rcp_dev_wf_def list2)
  show "length (rcp_reply tagged dev a x) = (if tagged then 60 else 56)"
    "rcp_reply tagged dev a x ! 12 = 0x81 \<and> rcp_reply tagged dev a x ! 13 = 0 \<longleftrightarrow> tagged"
    by (simp_all add: rcp_reply_def p m k rcp_vid_def rcp_short_def rcp_long_def)
qed

lemma reply_handled:
  assumes wf: "rcp_dev_wf dev" "d < MAX_RRCP_SWITCH_TO_MANAGE" "rcpDevList s ! d = Some dev"
    and key: "gulGwdRcpAuth s \<longrightarrow> take 3 (rd_switchMac dev) = [0x00, 0x0f, 0xe9]"
    and reg: "rcpRegList s = Some reg # rest" "rg_address reg = a" "rg_dev reg = d"
    and os: "osal_wf (rcp_os s)" "sem_map (rcp_os s) (unat (semAccessRcpRegList s)) = Some 1"
      "sem_map (rcp_os s) (unat (rg_semAccess reg)) = Some 0" "unat (semAccessRcpRegList s) \<noteq> unat (rg_semAccess reg)"
  obtains os' where "RcpFrameRevHandle env d (rcp_reply tagged dev a x) s =
      Some (1, s\<lparr>rcpRegList := Some (reg\<lparr>rg_value := x, rg_validFlag := 1\<rparr>) # rest, rcp_os := os'\<rparr>)"
    "osal_wf os'" "sem_map os' = (sem_map (rcp_os s))(unat (rg_semAccess reg) \<mapsto> 1)"
proof -
  let ?f = "rcp_reply tagged dev a x"
  let ?pkt = "if tagged then ?f else take RCP_PKT_MAX_LENGTH (take 12 ?f @ [0x81, 0, 0, 0x01] @ drop 12 ?f @ replicate RCP_PKT_MAX_LENGTH 0)"
  have parts: "pkt_sub ?pkt 6 3 = Some (take 3 (rd_switchMac dev))" "pkt_sub ?pkt 16 2 = Some [0x88, 0x99]" "pkt_sub ?pkt 18 2 = Some [0x01, 0x81]"
    "pkt_sub ?pkt 20 2 = Some (rd_authenKey dev)" "pkt_sub ?pkt 22 2 = Some (rcp_short a)" "pkt_sub ?pkt 24 4 = Some (rcp_long x)"
    by (rule rcp_reply_parts [of dev tagged ?pkt a x, OF wf(1)]; simp)+
  let ?reg = "reg\<lparr>rg_value := x, rg_validFlag := 1\<rparr>"
  from rcp_take_ok [OF os(1), of "semAccessRcpRegList s" 0 "-1"] os(2)
  obtain o1 where o1: "gw_rcp_sem_take (semAccessRcpRegList s) (-1) s = Some (OSAL_OK, s\<lparr>rcp_os := o1\<rparr>)" "osal_wf o1"
    "sem_map o1 = (sem_map (rcp_os s))(unat (semAccessRcpRegList s) \<mapsto> 0)" by auto
  let ?s1 = "s\<lparr>rcp_os := o1\<rparr>"
  let ?s2 = "?s1\<lparr>rcpRegList := Some ?reg # rest\<rparr>"
  from rcp_give_ok [of ?s2 "rg_semAccess reg" 0] o1 os(3,4)
  obtain o2 where o2: "gw_rcp_sem_give (rg_semAccess reg) ?s2 = ?s2\<lparr>rcp_os := o2\<rparr>" "osal_wf o2"
    "sem_map o2 = (sem_map o1)(unat (rg_semAccess reg) \<mapsto> 1)" by auto
  let ?s3 = "?s2\<lparr>rcp_os := o2\<rparr>"
  from rcp_give_ok [of ?s3 "semAccessRcpRegList s" 0] o1 o2 os(3,4)
  obtain o3 where o3: "gw_rcp_sem_give (semAccessRcpRegList s) ?s3 = ?s3\<lparr>rcp_os := o3\<rparr>" "osal_wf o3"
    "sem_map o3 = (sem_map o2)(unat (semAccessRcpRegList s) \<mapsto> 1)" by auto
  have se: "RCP_RegList_Search ?s1 dev a = Some 0"
    using reg wf by (simp add: RCP_RegList_Search_def rcp_dev_at_def)
  have up: "RCP_RegList_Update d ?pkt s = Some (0, s\<lparr>rcpRegList := Some ?reg # rest, rcp_os := o3\<rparr>)"
    using o1(1) o2(1) o3(1) se reg wf
    by (simp add: RCP_RegList_Update_def parts RCP_HELLO_PAYLOAD_OFFSET_def rcp_short_get rcp_long_get not_le Let_def del: if_split)
  have ha: "rrcp_packet_handler env d ?pkt s = Some (0, s\<lparr>rcpRegList := Some ?reg # rest, rcp_os := o3\<rparr>)"
    using key up by (simp add: rrcp_packet_handler_def parts del: if_split)
  have "RcpFrameRevHandle env d ?f s = Some (1, s\<lparr>rcpRegList := Some ?reg # rest, rcp_os := o3\<rparr>)"
    using ha rcp_reply_shape [OF wf(1), of tagged a x]
    by (cases tagged) (auto simp: RcpFrameRevHandle_def RCP_PKT_MAX_LENGTH_def)
  moreover have "sem_map o3 = (sem_map (rcp_os s))(unat (rg_semAccess reg) \<mapsto> 1)"
    using o1(3) o2(3) o3(3) os by (auto simp: fun_eq_iff)
  ultimately show thesis using o3(2) that by blast
qed

section \<open>A conforming switch\<close>

text \<open>
  The switch that the code relies on, on port \<open>d\<close>: the state \<open>vw w\<close> of its registers, with the
  addresses and the key of \<open>dev\<close>. A get frame is answered in time by the value of the register, a
  set frame writes the register, and \<^verbatim>\<open>malloc\<close> succeeds.
\<close>

definition rcp_conforms :: "'w rcp_env \<Rightarrow> ('w \<Rightarrow> rcp_switch) \<Rightarrow> ('w \<Rightarrow> bool) \<Rightarrow> nat \<Rightarrow> bool \<Rightarrow> rcp_dev \<Rightarrow> bool" where
  "rcp_conforms env vw good d tagged dev \<longleftrightarrow>
     ev_semret env OSAL_OK = 0 \<and>
     (\<forall>w. good w \<longrightarrow> (\<exists>w1. ev_malloc env w = (True, w1) \<and> good w1 \<and> vw w1 = vw w)) \<and>
     (\<forall>w a. good w \<longrightarrow> (\<exists>w1 w2. ev_send env (unat (rd_paPort dev)) (rcp_get_frame tagged dev a) w = (0, w1) \<and>
        ev_recv env w1 = ([(d, rcp_reply tagged dev a (sw_vals (vw w) a))], w2) \<and> good w2 \<and> vw w2 = vw w)) \<and>
     (\<forall>w a x. good w \<longrightarrow> a \<noteq> RT8326_RRCP_AUTHKEY \<longrightarrow>
        (\<exists>w1. ev_send env (unat (rd_paPort dev)) (rcp_set_frame tagged dev a x) w = (0, w1) \<and> good w1 \<and> vw w1 = sw_write a x (vw w)))"

text \<open>The state between two accesses, with a conforming switch on port \<open>d\<close>.\<close>

definition rcp_sems_ok :: "osal \<Rightarrow> u32 \<Rightarrow> u32 \<Rightarrow> bool" where
  "rcp_sems_ok os r c \<longleftrightarrow> osal_wf os \<and> unat r \<noteq> unat c \<and> sem_map os (unat r) = Some 1 \<and> sem_map os (unat c) = Some 1 \<and>
     (\<exists>k < GW_OSAL_MAX_COUNT_SEM. sem_map os k = None)"

definition rcp_link_ok :: "'w rcp_env \<Rightarrow> ('w \<Rightarrow> rcp_switch) \<Rightarrow> ('w \<Rightarrow> bool) \<Rightarrow> nat \<Rightarrow> 'w rcp_sys \<Rightarrow> bool" where
  "rcp_link_ok env vw good d s \<longleftrightarrow>
     d < MAX_RRCP_SWITCH_TO_MANAGE \<and> length (rcpDevList s) = MAX_RRCP_SWITCH_TO_MANAGE \<and>
     rcpRegList s = replicate MAX_RTL_REG_TO_ACCESS None \<and>
     rcp_sems_ok (rcp_os s) (semAccessRcpRegList s) (semAccessRcpChannel s) \<and> good (rcp_world s) \<and>
     (case rcpDevList s ! d of None \<Rightarrow> False
      | Some dev \<Rightarrow> rcp_dev_wf dev \<and> rcp_conforms env vw good d (vlan_dot_1q_enable s) dev \<and>
          (gulGwdRcpAuth s \<longrightarrow> take 3 (rd_switchMac dev) = [0x00, 0x0f, 0xe9]))"

definition rcp_view :: "('w \<Rightarrow> rcp_switch) \<Rightarrow> nat \<Rightarrow> 'w rcp_sys \<Rightarrow> rcp_switch" where
  "rcp_view vw d s = (vw (rcp_world s))\<lparr>sw_dev := the (rcp_dev_at s d)\<rparr>"

lemma rcp_link_okE:
  assumes "rcp_link_ok env vw good d s"
  obtains dev where "d < 26" "length (rcpDevList s) = 26" "rcpDevList s ! d = Some dev" "rcp_dev_at s d = Some dev" "rcp_dev_wf dev"
    "rcp_conforms env vw good d (vlan_dot_1q_enable s) dev" "good (rcp_world s)"
    "gulGwdRcpAuth s \<longrightarrow> take 3 (rd_switchMac dev) = [0x00, 0x0f, 0xe9]"
    "rcpRegList s = replicate 10 None" "rcp_sems_ok (rcp_os s) (semAccessRcpRegList s) (semAccessRcpChannel s)"
  using assms by (auto simp: rcp_link_ok_def rcp_sizes rcp_dev_at_def split: option.splits)

text \<open>Sending, the reply, and the wait, as both read functions make them.\<close>

lemma get_reply_exchange:
  assumes wf: "rcp_dev_wf dev" "d < MAX_RRCP_SWITCH_TO_MANAGE" "rcpDevList s ! d = Some dev"
    and cf: "rcp_conforms env vw good d (vlan_dot_1q_enable s) dev" "good (rcp_world s)"
    and key: "gulGwdRcpAuth s \<longrightarrow> take 3 (rd_switchMac dev) = [0x00, 0x0f, 0xe9]"
    and reg: "rcpRegList s = Some reg # rest" "rg_address reg = a" "rg_dev reg = d"
    and os: "osal_wf (rcp_os s)" "sem_map (rcp_os s) (unat (semAccessRcpRegList s)) = Some 1"
      "sem_map (rcp_os s) (unat (rg_semAccess reg)) = Some 0" "unat (semAccessRcpRegList s) \<noteq> unat (rg_semAccess reg)"
  obtains w1 w2 o1 o2 where
    "rcp_portsend env (unat (rd_paPort dev)) (rcp_get_frame (vlan_dot_1q_enable s) dev a) s = (0, s\<lparr>rcp_world := w1\<rparr>)"
    "rcp_receive env (s\<lparr>rcp_world := w1\<rparr>) = Some (s\<lparr>rcp_world := w2, rcpRegList := Some (reg\<lparr>rg_value := sw_vals (vw (rcp_world s)) a, rg_validFlag := 1\<rparr>) # rest, rcp_os := o1\<rparr>)"
    "good w2" "vw w2 = vw (rcp_world s)" "osal_wf o1" "sem_map o1 = (sem_map (rcp_os s))(unat (rg_semAccess reg) \<mapsto> 1)"
proof -
  let ?x = "sw_vals (vw (rcp_world s)) a"
  from cf obtain w1 w2 where w: "ev_send env (unat (rd_paPort dev)) (rcp_get_frame (vlan_dot_1q_enable s) dev a) (rcp_world s) = (0, w1)"
    "ev_recv env w1 = ([(d, rcp_reply (vlan_dot_1q_enable s) dev a ?x)], w2)" "good w2" "vw w2 = vw (rcp_world s)"
    unfolding rcp_conforms_def by blast
  have send: "rcp_portsend env (unat (rd_paPort dev)) (rcp_get_frame (vlan_dot_1q_enable s) dev a) s = (0, s\<lparr>rcp_world := w1\<rparr>)"
    using w(1) by (simp add: rcp_portsend_def)
  let ?s = "s\<lparr>rcp_world := w2\<rparr>"
  have "rcpDevList ?s ! d = Some dev" "gulGwdRcpAuth ?s \<longrightarrow> take 3 (rd_switchMac dev) = [0x00, 0x0f, 0xe9]" "rcpRegList ?s = Some reg # rest"
    "osal_wf (rcp_os ?s)" "sem_map (rcp_os ?s) (unat (semAccessRcpRegList ?s)) = Some 1" "sem_map (rcp_os ?s) (unat (rg_semAccess reg)) = Some 0"
    "unat (semAccessRcpRegList ?s) \<noteq> unat (rg_semAccess reg)" using wf key reg os by simp_all
  from reply_handled [OF wf(1,2) this(1,2,3) reg(2,3) this(4-7), of env "vlan_dot_1q_enable s" ?x]
  obtain o1 where o1: "RcpFrameRevHandle env d (rcp_reply (vlan_dot_1q_enable s) dev a ?x) ?s =
      Some (1, ?s\<lparr>rcpRegList := Some (reg\<lparr>rg_value := ?x, rg_validFlag := 1\<rparr>) # rest, rcp_os := o1\<rparr>)"
    "osal_wf o1" "sem_map o1 = (sem_map (rcp_os s))(unat (rg_semAccess reg) \<mapsto> 1)" by auto
  show thesis
    by (rule that [OF send _ w(3,4) o1(2,3)]) (simp add: rcp_receive_def w(2) o1(1))
qed

lemma read_reg_end_ok:
  assumes "osal_wf (rcp_os s)" "sem_map (rcp_os s) (unat sid) = Some v"
    and "unat sid \<noteq> unat (semAccessRcpRegList s)" "unat sid \<noteq> unat (semAccessRcpChannel s)" "unat (semAccessRcpRegList s) \<noteq> unat (semAccessRcpChannel s)"
    and "sem_map (rcp_os s) (unat (semAccessRcpRegList s)) = Some 1" "sem_map (rcp_os s) (unat (semAccessRcpChannel s)) = Some 0"
    and "rcpRegList s = Some reg # replicate 9 None" "rg_addr reg = a"
  obtains os' where "read_reg_end a sid r s = Some (r, s\<lparr>rcpRegList := replicate 10 None, rcp_os := os'\<rparr>)" "osal_wf os'"
    "sem_map os' = (sem_map (rcp_os s))(unat sid := None, unat (semAccessRcpChannel s) \<mapsto> 1)"
proof -
  from rcp_delete_ok [OF assms(1,2)] obtain o1 where o1: "gw_rcp_sem_delete sid s = s\<lparr>rcp_os := o1\<rparr>" "osal_wf o1"
    "sem_map o1 = (sem_map (rcp_os s))(unat sid := None)" .
  from rcp_take_ok [of "s\<lparr>rcp_os := o1\<rparr>" "semAccessRcpRegList s" 0 "-1"] o1 assms
  obtain o2 where o2: "gw_rcp_sem_take (semAccessRcpRegList s) (-1) (s\<lparr>rcp_os := o1\<rparr>) = Some (OSAL_OK, s\<lparr>rcp_os := o2\<rparr>)" "osal_wf o2"
    "sem_map o2 = (sem_map o1)(unat (semAccessRcpRegList s) \<mapsto> 0)" by auto
  let ?s2 = "s\<lparr>rcp_os := o2, rcpRegList := replicate 10 None\<rparr>"
  from rcp_give_ok [of ?s2 "semAccessRcpRegList s" 0] o2
  obtain o3 where o3: "gw_rcp_sem_give (semAccessRcpRegList s) ?s2 = ?s2\<lparr>rcp_os := o3\<rparr>" "osal_wf o3"
    "sem_map o3 = (sem_map o2)(unat (semAccessRcpRegList s) \<mapsto> 1)" by auto
  from rcp_give_ok [of "?s2\<lparr>rcp_os := o3\<rparr>" "semAccessRcpChannel s" 0] o1 o2 o3 assms
  obtain o4 where o4: "gw_rcp_sem_give (semAccessRcpChannel s) (?s2\<lparr>rcp_os := o3\<rparr>) = ?s2\<lparr>rcp_os := o4\<rparr>" "osal_wf o4"
    "sem_map o4 = (sem_map o3)(unat (semAccessRcpChannel s) \<mapsto> 1)" by auto
  have del: "snd (RCP_RegList_Delete a (rcpRegList s)) = replicate 10 None"
    using assms(8,9) by (simp add: RCP_RegList_Delete_def eval_nat_numeral)
  have "read_reg_end a sid r s = Some (r, s\<lparr>rcpRegList := replicate 10 None, rcp_os := o4\<rparr>)"
    using o1(1) o2(1) o3(1) o4(1) del by (simp add: read_reg_end_def Let_def)
  moreover have "sem_map o4 = (sem_map (rcp_os s))(unat sid := None, unat (semAccessRcpChannel s) \<mapsto> 1)"
    using o1(3) o2(3) o3(3) o4(3) assms by (auto simp: fun_eq_iff)
  ultimately show thesis using o4(2) that by blast
qed

text \<open>What a complete access leaves of the state: the addresses handed out and the world of the switch.\<close>

lemma rcp_link_ok_after:
  assumes "rcp_link_ok env vw good d s" "good w" "osal_wf os'" "sem_map os' = sem_map (rcp_os s)"
  shows "rcp_link_ok env vw good d (s\<lparr>rcp_next := n, rcp_world := w, rcpRegList := replicate 10 None, rcp_os := os'\<rparr>)"
    "rcp_view vw d (s\<lparr>rcp_next := n, rcp_world := w, rcpRegList := replicate 10 None, rcp_os := os'\<rparr>) = (vw w)\<lparr>sw_dev := the (rcp_dev_at s d)\<rparr>"
  using assms by (auto simp: rcp_link_ok_def rcp_view_def rcp_sems_ok_def MAX_RTL_REG_TO_ACCESS_def rcp_dev_at_def split: option.splits)

text \<open>The start of an access: its node and its semaphore.\<close>

lemma rcp_open_access:
  assumes ok: "rcp_link_ok env vw good d s" and n: "length name \<le> 20"
  obtains dev w0 sid o1 where "rcp_dev_at s d = Some dev" "ev_semret env OSAL_OK = 0"
    "rcp_malloc env s = (Some (rcp_next s), s\<lparr>rcp_next := rcp_next s + 1, rcp_world := w0\<rparr>)" "good w0" "vw w0 = vw (rcp_world s)"
    "gw_rcp_sem_create name 0 (s\<lparr>rcp_next := rcp_next s + 1, rcp_world := w0\<rparr>) = (OSAL_OK, Some sid, s\<lparr>rcp_next := rcp_next s + 1, rcp_world := w0, rcp_os := o1\<rparr>)"
    "osal_wf o1" "sem_map (rcp_os s) (unat sid) = None" "sem_map o1 = (sem_map (rcp_os s))(unat sid \<mapsto> 0)"
    "unat (semAccessRcpRegList s) \<noteq> unat (semAccessRcpChannel s)" "unat (semAccessRcpRegList s) \<noteq> unat sid" "unat (semAccessRcpChannel s) \<noteq> unat sid"
    "sem_map (rcp_os s) (unat (semAccessRcpRegList s)) = Some 1" "sem_map (rcp_os s) (unat (semAccessRcpChannel s)) = Some 1"
proof -
  from ok obtain dev where dev: "rcp_dev_at s d = Some dev" "rcp_conforms env vw good d (vlan_dot_1q_enable s) dev" "good (rcp_world s)"
    "rcp_sems_ok (rcp_os s) (semAccessRcpRegList s) (semAccessRcpChannel s)"
    by (rule rcp_link_okE)
  from dev(4) obtain k where os: "osal_wf (rcp_os s)" "unat (semAccessRcpRegList s) \<noteq> unat (semAccessRcpChannel s)"
    "sem_map (rcp_os s) (unat (semAccessRcpRegList s)) = Some 1" "sem_map (rcp_os s) (unat (semAccessRcpChannel s)) = Some 1"
    "k < GW_OSAL_MAX_COUNT_SEM" "sem_map (rcp_os s) k = None" by (auto simp: rcp_sems_ok_def)
  from dev(2,3) obtain w0 where w0: "ev_malloc env (rcp_world s) = (True, w0)" "good w0" "vw w0 = vw (rcp_world s)" "ev_semret env OSAL_OK = 0"
    unfolding rcp_conforms_def by blast
  let ?s1 = "s\<lparr>rcp_next := rcp_next s + 1, rcp_world := w0\<rparr>"
  have m: "rcp_malloc env s = (Some (rcp_next s), ?s1)" using w0(1) by (simp add: rcp_malloc_def)
  from rcp_create_ok [of ?s1 k name 0] os n
  obtain sid o1 where o1: "gw_rcp_sem_create name 0 ?s1 = (OSAL_OK, Some sid, ?s1\<lparr>rcp_os := o1\<rparr>)" "osal_wf o1"
    "sem_map (rcp_os s) (unat sid) = None" "sem_map o1 = (sem_map (rcp_os s))(unat sid \<mapsto> 0)" by auto
  show thesis
    by (rule that [OF dev(1) w0(4) m w0(2,3) o1 os(2) _ _ os(3,4)]) (use os(3,4) o1(3) in auto)
qed

text \<open>Sending, the reply, and the wait for it.\<close>

lemma rcp_await_reply:
  assumes ok: "rcp_link_ok env vw good d s0" "rcp_dev_at s0 d = Some dev"
    and same: "rcpDevList s = rcpDevList s0" "vlan_dot_1q_enable s = vlan_dot_1q_enable s0" "gulGwdRcpAuth s = gulGwdRcpAuth s0"
    and w: "good (rcp_world s)" "vw (rcp_world s) = vw (rcp_world s0)"
    and reg: "rcpRegList s = Some reg # rest" "rg_address reg = a" "rg_dev reg = d" "rg_semAccess reg = sid" "rg_addr reg = n"
    and os: "osal_wf (rcp_os s)" "sem_map (rcp_os s) (unat (semAccessRcpRegList s)) = Some 1"
      "sem_map (rcp_os s) (unat sid) = Some 0" "unat (semAccessRcpRegList s) \<noteq> unat sid"
  obtains s1 s2 s3 w2 o3 reg1 where
    "rcp_portsend env (unat (rd_paPort dev)) (rcp_get_frame (vlan_dot_1q_enable s0) dev a) s = (0, s1)" "rcp_receive env s1 = Some s2"
    "gw_rcp_sem_take sid 5000 s2 = Some (OSAL_OK, s3)" "rcp_reg_of n s3 = Some reg1" "rg_validFlag reg1 = 1" "rg_addr reg1 = n"
    "rg_value reg1 = sw_vals (rcp_view vw d s0) a"
    "gw_rcp_sem_give sid s3 = s\<lparr>rcp_world := w2, rcpRegList := Some reg1 # rest, rcp_os := o3\<rparr>"
    "good w2" "vw w2 = vw (rcp_world s0)" "osal_wf o3" "sem_map o3 = (sem_map (rcp_os s))(unat sid \<mapsto> 1)"
proof -
  from ok(1) obtain dev' where dev: "d < 26" "rcpDevList s0 ! d = Some dev'" "rcp_dev_at s0 d = Some dev'" "rcp_dev_wf dev'"
    "rcp_conforms env vw good d (vlan_dot_1q_enable s0) dev'" "gulGwdRcpAuth s0 \<longrightarrow> take 3 (rd_switchMac dev') = [0x00, 0x0f, 0xe9]"
    by (rule rcp_link_okE)
  have eq: "dev' = dev" using dev(3) ok(2) by simp
  note dev = dev [unfolded eq]
  have e: "d < MAX_RRCP_SWITCH_TO_MANAGE" "rcpDevList s ! d = Some dev" "rcp_conforms env vw good d (vlan_dot_1q_enable s) dev"
    "gulGwdRcpAuth s \<longrightarrow> take 3 (rd_switchMac dev) = [0x00, 0x0f, 0xe9]"
    "sem_map (rcp_os s) (unat (rg_semAccess reg)) = Some 0" "unat (semAccessRcpRegList s) \<noteq> unat (rg_semAccess reg)"
    using dev same reg os by (simp_all add: rcp_sizes)
  let ?reg1 = "reg\<lparr>rg_value := sw_vals (vw (rcp_world s)) a, rg_validFlag := 1\<rparr>"
  obtain w1 w2 o1 where x: "rcp_portsend env (unat (rd_paPort dev)) (rcp_get_frame (vlan_dot_1q_enable s) dev a) s = (0, s\<lparr>rcp_world := w1\<rparr>)"
    "rcp_receive env (s\<lparr>rcp_world := w1\<rparr>) = Some (s\<lparr>rcp_world := w2, rcpRegList := Some ?reg1 # rest, rcp_os := o1\<rparr>)"
    "good w2" "vw w2 = vw (rcp_world s)" "osal_wf o1" "sem_map o1 = (sem_map (rcp_os s))(unat (rg_semAccess reg) \<mapsto> 1)"
    by (rule get_reply_exchange [OF dev(4) e(1-3) w(1) e(4) reg(1-3) os(1,2) e(5,6)])
  let ?s2 = "s\<lparr>rcp_world := w2, rcpRegList := Some ?reg1 # rest, rcp_os := o1\<rparr>"
  from rcp_take_ok [of ?s2 sid 0 5000] x reg(4)
  obtain o2 where o2: "gw_rcp_sem_take sid 5000 ?s2 = Some (OSAL_OK, ?s2\<lparr>rcp_os := o2\<rparr>)" "osal_wf o2" "sem_map o2 = (sem_map o1)(unat sid \<mapsto> 0)" by auto
  from rcp_give_ok [of "?s2\<lparr>rcp_os := o2\<rparr>" sid 0] o2
  obtain o3 where o3: "gw_rcp_sem_give sid (?s2\<lparr>rcp_os := o2\<rparr>) = ?s2\<lparr>rcp_os := o3\<rparr>" "osal_wf o3" "sem_map o3 = (sem_map o2)(unat sid \<mapsto> 1)" by auto
  have of: "rcp_reg_of n (?s2\<lparr>rcp_os := o2\<rparr>) = Some ?reg1" using reg(5) by (simp add: rcp_reg_of_def)
  have c: "rcp_portsend env (unat (rd_paPort dev)) (rcp_get_frame (vlan_dot_1q_enable s0) dev a) s = (0, s\<lparr>rcp_world := w1\<rparr>)"
    "rg_validFlag ?reg1 = 1" "rg_addr ?reg1 = n" "rg_value ?reg1 = sw_vals (rcp_view vw d s0) a"
    "gw_rcp_sem_give sid (?s2\<lparr>rcp_os := o2\<rparr>) = s\<lparr>rcp_world := w2, rcpRegList := Some ?reg1 # rest, rcp_os := o3\<rparr>"
    "vw w2 = vw (rcp_world s0)" "sem_map o3 = (sem_map (rcp_os s))(unat sid \<mapsto> 1)"
    using x(1) same(2) reg(5) w(2) o3(1) x(4) by (simp_all add: rcp_view_def o3(3) o2(3) x(6) reg(4))
  show thesis by (rule that [OF c(1) x(2) o2(1) of c(2-5) x(3) c(6) o3(2) c(7)])
qed

lemma RCP_Read_Reg_ok:
  assumes ok: "rcp_link_ok env vw good d s"
  shows "\<exists>s'. RCP_Read_Reg env d a s = Some (Inr (sw_regs (rcp_view vw d s) a), s') \<and> rcp_link_ok env vw good d s' \<and> rcp_view vw d s' = rcp_view vw d s"
proof -
  let ?r = "semAccessRcpRegList s" and ?c = "semAccessRcpChannel s" and ?n = "rcp_next s"
  have name: "length ''read_reg'' \<le> 20" by simp
  obtain dev w0 sid o1 where a: "rcp_dev_at s d = Some dev" "ev_semret env OSAL_OK = 0"
    "rcp_malloc env s = (Some ?n, s\<lparr>rcp_next := ?n + 1, rcp_world := w0\<rparr>)" "good w0" "vw w0 = vw (rcp_world s)"
    "gw_rcp_sem_create ''read_reg'' 0 (s\<lparr>rcp_next := ?n + 1, rcp_world := w0\<rparr>) = (OSAL_OK, Some sid, s\<lparr>rcp_next := ?n + 1, rcp_world := w0, rcp_os := o1\<rparr>)"
    "osal_wf o1" "sem_map (rcp_os s) (unat sid) = None" "sem_map o1 = (sem_map (rcp_os s))(unat sid \<mapsto> 0)"
    "unat ?r \<noteq> unat ?c" "unat ?r \<noteq> unat sid" "unat ?c \<noteq> unat sid" "sem_map (rcp_os s) (unat ?r) = Some 1" "sem_map (rcp_os s) (unat ?c) = Some 1"
    by (rule rcp_open_access [OF ok name])
  let ?s1 = "s\<lparr>rcp_next := ?n + 1, rcp_world := w0\<rparr>"
  let ?reg = "\<lparr>rg_addr = ?n, rg_address = a, rg_value = 0, rg_dev = d, rg_validFlag = 0, rg_semAccess = sid\<rparr>"
  from rcp_take_ok [of "?s1\<lparr>rcp_os := o1\<rparr>" ?r 0 "-1"] a
  obtain o2 where o2: "gw_rcp_sem_take ?r (-1) (?s1\<lparr>rcp_os := o1\<rparr>) = Some (OSAL_OK, ?s1\<lparr>rcp_os := o2\<rparr>)" "osal_wf o2"
    "sem_map o2 = (sem_map o1)(unat ?r \<mapsto> 0)" by auto
  let ?s2 = "?s1\<lparr>rcp_os := o2, rcpRegList := Some ?reg # replicate 9 None\<rparr>"
  have ins: "RCP_RegList_Insert ?reg (rcpRegList s) = (0, Some ?reg # replicate 9 None)"
    using ok by (simp add: rcp_link_ok_def MAX_RTL_REG_TO_ACCESS_def RCP_RegList_Insert_def eval_nat_numeral)
  from rcp_give_ok [of ?s2 ?r 0] o2
  obtain o3 where o3: "gw_rcp_sem_give ?r ?s2 = ?s2\<lparr>rcp_os := o3\<rparr>" "osal_wf o3" "sem_map o3 = (sem_map o2)(unat ?r \<mapsto> 1)" by auto
  from rcp_take_ok [of "?s2\<lparr>rcp_os := o3\<rparr>" ?c 0 5000] a o2 o3
  obtain o4 where o4: "gw_rcp_sem_take ?c 5000 (?s2\<lparr>rcp_os := o3\<rparr>) = Some (OSAL_OK, ?s2\<lparr>rcp_os := o4\<rparr>)" "osal_wf o4"
    "sem_map o4 = (sem_map o3)(unat ?c \<mapsto> 0)" by auto
  let ?s4 = "?s2\<lparr>rcp_os := o4\<rparr>"
  have e: "rcpDevList ?s4 = rcpDevList s" "vlan_dot_1q_enable ?s4 = vlan_dot_1q_enable s" "gulGwdRcpAuth ?s4 = gulGwdRcpAuth s"
    "good (rcp_world ?s4)" "vw (rcp_world ?s4) = vw (rcp_world s)"
    "rg_address ?reg = a" "rg_dev ?reg = d" "rg_semAccess ?reg = sid" "rg_addr ?reg = ?n"
    "sem_map (rcp_os ?s4) (unat (semAccessRcpRegList ?s4)) = Some 1" "sem_map (rcp_os ?s4) (unat sid) = Some 0"
    "unat (semAccessRcpRegList ?s4) \<noteq> unat sid"
    using a(4,5,10-14) by (simp_all add: o4(3) o3(3) o2(3) a(9))
  have rl: "rcpRegList ?s4 = Some ?reg # replicate 9 None" and o4f: "osal_wf (rcp_os ?s4)" using o4(2) by simp_all
  obtain s5 s6 s7 w2 o7 reg1 where x: "rcp_portsend env (unat (rd_paPort dev)) (rcp_get_frame (vlan_dot_1q_enable s) dev a) ?s4 = (0, s5)" "rcp_receive env s5 = Some s6"
    "gw_rcp_sem_take sid 5000 s6 = Some (OSAL_OK, s7)" "rcp_reg_of ?n s7 = Some reg1" "rg_validFlag reg1 = 1" "rg_addr reg1 = ?n"
    "rg_value reg1 = sw_vals (rcp_view vw d s) a"
    "gw_rcp_sem_give sid s7 = ?s4\<lparr>rcp_world := w2, rcpRegList := Some reg1 # replicate 9 None, rcp_os := o7\<rparr>"
    "good w2" "vw w2 = vw (rcp_world s)" "osal_wf o7" "sem_map o7 = (sem_map (rcp_os ?s4))(unat sid \<mapsto> 1)"
    by (rule rcp_await_reply [OF ok a(1) e(1-5) rl e(6-9) o4f e(10-12)])
  let ?s8 = "?s4\<lparr>rcp_world := w2, rcpRegList := Some reg1 # replicate 9 None, rcp_os := o7\<rparr>"
  let ?v = "Inr (ucast (rg_value reg1)) :: int + u16"
  have "osal_wf (rcp_os ?s8)" "sem_map (rcp_os ?s8) (unat sid) = Some 1" "sem_map (rcp_os ?s8) (unat ?r) = Some 1" "sem_map (rcp_os ?s8) (unat ?c) = Some 0"
    using a o2 o3 o4 x by auto
  with read_reg_end_ok [of ?s8 sid 1 reg1 ?n ?v] a x
  obtain o9 where o9: "read_reg_end ?n sid ?v ?s8 = Some (?v, ?s8\<lparr>rcpRegList := replicate 10 None, rcp_os := o9\<rparr>)"
    "osal_wf o9" "sem_map o9 = (sem_map o7)(unat sid := None, unat ?c \<mapsto> 1)" by auto
  have mp: "sem_map o9 = sem_map (rcp_os s)" using a o2 o3 o4 x o9 by (auto simp: fun_eq_iff)
  have "RCP_Read_Reg env d a s = Some (?v, s\<lparr>rcp_next := ?n + 1, rcp_world := w2, rcpRegList := replicate 10 None, rcp_os := o9\<rparr>)"
    unfolding RCP_Read_Reg_def using a(1-3,6) o2(1) ins o3(1) o4(1) x(1-5,8) o9(1)
    by (simp add: RCP_RESPONSE_TIMEOUT_def Let_def)
  with rcp_link_ok_after [OF ok x(9) o9(2) mp, of "?n + 1"] x(7,10) show ?thesis by (auto simp: rcp_view_def sw_regs_def)
qed

lemma RCP_Read_32bit_Reg_ok:
  assumes ok: "rcp_link_ok env vw good d s"
  shows "\<exists>s'. RCP_Read_32bit_Reg env d a s = Some (Inr (sw_vals (rcp_view vw d s) a), s') \<and> rcp_link_ok env vw good d s' \<and> rcp_view vw d s' = rcp_view vw d s"
proof -
  let ?r = "semAccessRcpRegList s" and ?c = "semAccessRcpChannel s" and ?n = "rcp_next s"
  have name: "length ''read_32bit'' \<le> 20" by simp
  obtain dev w0 sid o1 where a: "rcp_dev_at s d = Some dev" "ev_semret env OSAL_OK = 0"
    "rcp_malloc env s = (Some ?n, s\<lparr>rcp_next := ?n + 1, rcp_world := w0\<rparr>)" "good w0" "vw w0 = vw (rcp_world s)"
    "gw_rcp_sem_create ''read_32bit'' 0 (s\<lparr>rcp_next := ?n + 1, rcp_world := w0\<rparr>) = (OSAL_OK, Some sid, s\<lparr>rcp_next := ?n + 1, rcp_world := w0, rcp_os := o1\<rparr>)"
    "osal_wf o1" "sem_map (rcp_os s) (unat sid) = None" "sem_map o1 = (sem_map (rcp_os s))(unat sid \<mapsto> 0)"
    "unat ?r \<noteq> unat ?c" "unat ?r \<noteq> unat sid" "unat ?c \<noteq> unat sid" "sem_map (rcp_os s) (unat ?r) = Some 1" "sem_map (rcp_os s) (unat ?c) = Some 1"
    by (rule rcp_open_access [OF ok name])
  let ?s1 = "s\<lparr>rcp_next := ?n + 1, rcp_world := w0, rcp_os := o1\<rparr>"
  let ?reg = "\<lparr>rg_addr = ?n, rg_address = a, rg_value = 0, rg_dev = d, rg_validFlag = 0, rg_semAccess = sid\<rparr>"
  let ?s2 = "?s1\<lparr>rcpRegList := Some ?reg # replicate 9 None\<rparr>"
  have ins: "RCP_RegList_Insert ?reg (rcpRegList s) = (0, Some ?reg # replicate 9 None)"
    using ok by (simp add: rcp_link_ok_def MAX_RTL_REG_TO_ACCESS_def RCP_RegList_Insert_def eval_nat_numeral)
  from rcp_take_ok [of ?s2 ?c 0 5000] a
  obtain o4 where o4: "gw_rcp_sem_take ?c 5000 ?s2 = Some (OSAL_OK, ?s2\<lparr>rcp_os := o4\<rparr>)" "osal_wf o4"
    "sem_map o4 = (sem_map o1)(unat ?c \<mapsto> 0)" by auto
  let ?s4 = "?s2\<lparr>rcp_os := o4\<rparr>"
  have e: "rcpDevList ?s4 = rcpDevList s" "vlan_dot_1q_enable ?s4 = vlan_dot_1q_enable s" "gulGwdRcpAuth ?s4 = gulGwdRcpAuth s"
    "good (rcp_world ?s4)" "vw (rcp_world ?s4) = vw (rcp_world s)"
    "rg_address ?reg = a" "rg_dev ?reg = d" "rg_semAccess ?reg = sid" "rg_addr ?reg = ?n"
    "sem_map (rcp_os ?s4) (unat (semAccessRcpRegList ?s4)) = Some 1" "sem_map (rcp_os ?s4) (unat sid) = Some 0"
    "unat (semAccessRcpRegList ?s4) \<noteq> unat sid"
    using a(4,5,10-14) by (simp_all add: o4(3) a(9))
  have rl: "rcpRegList ?s4 = Some ?reg # replicate 9 None" and o4f: "osal_wf (rcp_os ?s4)" using o4(2) by simp_all
  obtain s5 s6 s7 w2 o7 reg1 where x: "rcp_portsend env (unat (rd_paPort dev)) (rcp_get_frame (vlan_dot_1q_enable s) dev a) ?s4 = (0, s5)" "rcp_receive env s5 = Some s6"
    "gw_rcp_sem_take sid 5000 s6 = Some (OSAL_OK, s7)" "rcp_reg_of ?n s7 = Some reg1" "rg_validFlag reg1 = 1" "rg_addr reg1 = ?n"
    "rg_value reg1 = sw_vals (rcp_view vw d s) a"
    "gw_rcp_sem_give sid s7 = ?s4\<lparr>rcp_world := w2, rcpRegList := Some reg1 # replicate 9 None, rcp_os := o7\<rparr>"
    "good w2" "vw w2 = vw (rcp_world s)" "osal_wf o7" "sem_map o7 = (sem_map (rcp_os ?s4))(unat sid \<mapsto> 1)"
    by (rule rcp_await_reply [OF ok a(1) e(1-5) rl e(6-9) o4f e(10-12)])
  let ?s8 = "?s4\<lparr>rcp_world := w2, rcpRegList := Some reg1 # replicate 9 None, rcp_os := o7\<rparr>"
  from rcp_give_ok [of ?s8 ?c 0] a o4 x
  obtain o8 where o8: "gw_rcp_sem_give ?c ?s8 = ?s8\<lparr>rcp_os := o8\<rparr>" "osal_wf o8" "sem_map o8 = (sem_map o7)(unat ?c \<mapsto> 1)" by auto
  from rcp_delete_ok [of "?s8\<lparr>rcp_os := o8\<rparr>" sid 1] a o4 x o8
  obtain o9 where o9: "gw_rcp_sem_delete sid (?s8\<lparr>rcp_os := o8\<rparr>) = ?s8\<lparr>rcp_os := o9\<rparr>" "osal_wf o9" "sem_map o9 = (sem_map o8)(unat sid := None)" by auto
  have del: "snd (RCP_RegList_Delete ?n (rcpRegList ?s8)) = replicate 10 None"
    using x(6) by (simp add: RCP_RegList_Delete_def eval_nat_numeral)
  have mp: "sem_map o9 = sem_map (rcp_os s)" using a o4 x o8 o9 by (auto simp: fun_eq_iff)
  have "RCP_Read_32bit_Reg env d a s = Some (Inr (rg_value reg1), s\<lparr>rcp_next := ?n + 1, rcp_world := w2, rcpRegList := replicate 10 None, rcp_os := o9\<rparr>)"
    unfolding RCP_Read_32bit_Reg_def read_32bit_end_def using a(1-3,6) ins o4(1) x(1-5,8) o8(1) o9(1) del
    by (simp add: RCP_RESPONSE_TIMEOUT_def Let_def)
  with rcp_link_ok_after [OF ok x(9) o9(2) mp, of "?n + 1"] x(7,10) show ?thesis by (auto simp: rcp_view_def)
qed

lemma RCP_Write_Reg_ok:
  assumes ok: "rcp_link_ok env vw good d s" and a: "a \<noteq> RT8326_RRCP_AUTHKEY"
  shows "\<exists>s'. RCP_Write_Reg env d a x s = Some (Inr (), s') \<and> rcp_link_ok env vw good d s' \<and> rcp_view vw d s' = sw_write a x (rcp_view vw d s)"
proof -
  let ?c = "semAccessRcpChannel s"
  from ok obtain dev where dev: "rcp_dev_at s d = Some dev" "rcp_conforms env vw good d (vlan_dot_1q_enable s) dev" "good (rcp_world s)"
    "rcpRegList s = replicate 10 None" "rcp_sems_ok (rcp_os s) (semAccessRcpRegList s) ?c"
    by (rule rcp_link_okE)
  from dev(5) have os: "osal_wf (rcp_os s)" "sem_map (rcp_os s) (unat ?c) = Some 1" by (auto simp: rcp_sems_ok_def)
  from dev(2,3) a obtain w1 where w1: "ev_send env (unat (rd_paPort dev)) (rcp_set_frame (vlan_dot_1q_enable s) dev a x) (rcp_world s) = (0, w1)"
    "good w1" "vw w1 = sw_write a x (vw (rcp_world s))" unfolding rcp_conforms_def by blast
  from rcp_take_ok [of s ?c 0 1000] os
  obtain o1 where o1: "gw_rcp_sem_take ?c 1000 s = Some (OSAL_OK, s\<lparr>rcp_os := o1\<rparr>)" "osal_wf o1" "sem_map o1 = (sem_map (rcp_os s))(unat ?c \<mapsto> 0)" by auto
  let ?t = "s\<lparr>rcp_os := o1, rcp_world := w1\<rparr>"
  have t: "osal_wf (rcp_os ?t)" "sem_map (rcp_os ?t) (unat ?c) = Some 0" "(0::nat) < 1000" using o1(2,3) by simp_all
  obtain o2' where "gw_rcp_sem_give ?c ?t = ?t\<lparr>rcp_os := o2'\<rparr>" "osal_wf o2'" "sem_map o2' = (sem_map (rcp_os ?t))(unat ?c \<mapsto> Suc 0)"
    by (rule rcp_give_ok [OF t])
  then obtain o2 where o2: "gw_rcp_sem_give ?c ?t = s\<lparr>rcp_world := w1, rcp_os := o2\<rparr>" "osal_wf o2" "sem_map o2 = (sem_map o1)(unat ?c \<mapsto> 1)" by simp
  have mp: "sem_map o2 = sem_map (rcp_os s)" using o1 o2 os by (auto simp: fun_eq_iff)
  let ?s' = "s\<lparr>rcp_next := rcp_next s, rcp_world := w1, rcpRegList := replicate 10 None, rcp_os := o2\<rparr>"
  have "?s' = s\<lparr>rcp_world := w1, rcp_os := o2\<rparr>" using dev(4) by (cases s) simp
  then have "RCP_Write_Reg env d a x s = Some (Inr (), ?s')"
    using dev(1) o1(1) w1(1) o2(1) by (simp add: RCP_Write_Reg_def rcp_portsend_def)
  moreover have "sw_write a x (vw (rcp_world s))\<lparr>sw_dev := e\<rparr> = sw_write a x (vw (rcp_world s)\<lparr>sw_dev := e\<rparr>)" for e
    by (simp add: sw_write_def sw_upd_def sw_regs_def)
  ultimately show ?thesis using rcp_link_ok_after [OF ok w1(2) o2(2) mp, of "rcp_next s"] w1(3) by (auto simp: rcp_view_def)
qed

text \<open>Changes of a device's data that keep its addresses and key.\<close>

lemma frames_link: "rd_link dev = rd_link dev' \<Longrightarrow> rcp_get_frame t dev a = rcp_get_frame t dev' a"
  "rd_link dev = rd_link dev' \<Longrightarrow> rcp_set_frame t dev a x = rcp_set_frame t dev' a x"
  "rd_link dev = rd_link dev' \<Longrightarrow> rcp_reply t dev a v = rcp_reply t dev' a v"
  by (simp_all add: rd_link_def rcp_get_frame_def rcp_set_frame_def rcp_reply_def)

lemma rcp_conforms_link:
  assumes "rd_link dev = rd_link dev'"
  shows "rcp_conforms env vw good d t dev = rcp_conforms env vw good d t dev'" "rcp_dev_wf dev = rcp_dev_wf dev'"
    "rd_switchMac dev = rd_switchMac dev'"
  using assms frames_link [OF assms] by (simp_all add: rcp_conforms_def rcp_dev_wf_def rd_link_def)

lemma rcp_dev_upd_ok:
  assumes ok: "rcp_link_ok env vw good d s" and k: "keeps_link f"
  shows "rcp_link_ok env vw good d (rcp_dev_upd d f s)" "rcp_view vw d (rcp_dev_upd d f s) = (rcp_view vw d s)\<lparr>sw_dev := f (sw_dev (rcp_view vw d s))\<rparr>"
proof -
  from ok obtain dev where dev: "d < 26" "length (rcpDevList s) = 26" "rcpDevList s ! d = Some dev" "rcp_dev_at s d = Some dev" "rcp_dev_wf dev"
    "rcp_conforms env vw good d (vlan_dot_1q_enable s) dev" "good (rcp_world s)"
    "gulGwdRcpAuth s \<longrightarrow> take 3 (rd_switchMac dev) = [0x00, 0x0f, 0xe9]"
    "rcpRegList s = replicate 10 None" "rcp_sems_ok (rcp_os s) (semAccessRcpRegList s) (semAccessRcpChannel s)"
    by (rule rcp_link_okE)
  have l: "rd_link dev = rd_link (f dev)" using k by (simp add: keeps_link_def)
  have c: "rcp_conforms env vw good d (vlan_dot_1q_enable s) (f dev)" "rcp_dev_wf (f dev)" "rd_switchMac (f dev) = rd_switchMac dev"
    using dev(5,6) rcp_conforms_link [OF l] by metis+
  show "rcp_link_ok env vw good d (rcp_dev_upd d f s)" using dev c
    by (simp add: rcp_link_ok_def rcp_dev_upd_def rcp_sizes)
  show "rcp_view vw d (rcp_dev_upd d f s) = (rcp_view vw d s)\<lparr>sw_dev := f (sw_dev (rcp_view vw d s))\<rparr>"
    using dev by (simp add: rcp_view_def rcp_dev_upd_def rcp_dev_at_def rcp_sizes)
qed

text \<open>The link to a conforming switch provides the registers that the operations use.\<close>

interpretation link: reg_access "rcp_link env d" "rcp_view vw d" "rcp_link_ok env vw good d"
proof
  fix a :: u16 and x :: u16
  show "rcp_sim (rcp_link_ok env vw good d) (rcp_view vw d) (io_read (rcp_link env d) a) (io_read sw_io a)"
    using RCP_Read_Reg_ok [of env vw good d] by (fastforce simp: rcp_sim_def rcp_link_def)
  show "rcp_sim (rcp_link_ok env vw good d) (rcp_view vw d) (io_read32 (rcp_link env d) a) (io_read32 sw_io a)"
    using RCP_Read_32bit_Reg_ok [of env vw good d] by (fastforce simp: rcp_sim_def rcp_link_def)
  show "rcp_sim (rcp_link_ok env vw good d) (rcp_view vw d) (io_write (rcp_link env d) a x) (io_write sw_io a x)"
    using RCP_Write_Reg_ok [of env vw good d _ a x] by (fastforce simp: rcp_sim_def rcp_link_def sw_io_def)
qed (simp_all add: rcp_link_def sw_io_def rcp_dev_upd_ok, simp add: rcp_view_def)

end
