(* ===== verification/Rcp_Dev.thy ===== *)
theory Rcp_Dev
  imports Rcp_Link
begin

text \<open>
  Finding the attached switches (\<^verbatim>\<open>apps/rcp_gwd.c\<close>, lines 845 to 1032): the hello frames, the test
  whether a switch answers; the switches as the rows of the SNMP tables (lines 5443 to 5619), and
  the notice of a loop behind a switch.
\<close>

section \<open>Hello\<close>

definition hello_frame :: "'w rcp_env \<Rightarrow> bool \<Rightarrow> u8 list \<Rightarrow> u8 list \<Rightarrow> u8 list \<Rightarrow> u8 list" where
  "hello_frame env tagged switchMac RcpVid authKey = rcp_frame tagged switchMac (ev_local_mac env) RcpVid 0x00 authKey []"

text \<open>The channel is taken, its time-out only logged, and given back after the frame is sent.\<close>

definition hello_send :: "'w rcp_env \<Rightarrow> nat \<Rightarrow> u8 list \<Rightarrow> 'w rcp_sys \<Rightarrow> (int \<times> 'w rcp_sys) option" where
  "hello_send env lport frm s =
     Option.bind (gw_rcp_sem_take (semAccessRcpChannel s) 200 s) (\<lambda>(_, s).
       case rcp_portsend env lport frm s of (r, s) \<Rightarrow>
         Some (if r \<noteq> 0 then RCP_FAIL else 0, gw_rcp_sem_give (semAccessRcpChannel s) s))"

text \<open>One port of the broadcast: a port that is down is left out; the VLAN of the last answer stays.\<close>

definition hello_port :: "'w rcp_env \<Rightarrow> nat \<Rightarrow> int \<times> u16 \<times> 'w rcp_sys \<Rightarrow> (int \<times> u16 \<times> 'w rcp_sys) option" where
  "hello_port env lport st = (case st of (iRet, broadcastVid, s) \<Rightarrow>
     case rcp_oper_up env lport s of (up, s) \<Rightarrow>
     if \<not> up then Some (iRet, broadcastVid, s)
     else case rcp_pvid_get env lport s of (v, s) \<Rightarrow>
       let vid = (case v of None \<Rightarrow> broadcastVid | Some x \<Rightarrow> x) in
       map_option (\<lambda>(r, s). (if r \<noteq> 0 then r else iRet, vid, s))
         (hello_send env lport (hello_frame env (vlan_dot_1q_enable s) (replicate 6 0xFF) (rcp_vid vid) [0x23, 0x79]) s))"

fun hello_ports :: "'w rcp_env \<Rightarrow> nat list \<Rightarrow> int \<times> u16 \<times> 'w rcp_sys \<Rightarrow> (int \<times> u16 \<times> 'w rcp_sys) option" where
  "hello_ports env [] st = Some st"
| "hello_ports env (p # ps) st = Option.bind (hello_port env p st) (hello_ports env ps)"

text \<open>\<open>junk\<close> is \<^verbatim>\<open>RcpVid\<close> before it is set: the code does not set it for a port without a known switch.\<close>

definition RCP_Say_Hello :: "'w rcp_env \<Rightarrow> u8 list \<Rightarrow> int \<Rightarrow> u16 \<Rightarrow> 'w rcp_sys \<Rightarrow> (int \<times> 'w rcp_sys) option" where
  "RCP_Say_Hello env junk parentPort broadcastVid s =
     (if \<not> gulEthRxTaskReady s then Some (RCP_NOT_INITIALIZED, s)
      else if parentPort > 0
      then if parentPort \<ge> int MAX_RRCP_SWITCH_TO_MANAGE then Some (RCP_BAD_PARAM, s)
        else let lport = nat parentPort;
                 (switchMac, authKey, RcpVid) = (case rcpDevList s ! lport of
                    None \<Rightarrow> (replicate 6 0xFF, [0x23, 0x79], junk)
                  | Some dev \<Rightarrow> (rd_switchMac dev, rd_authenKey dev, rcp_vid (rd_mgtVid dev)))
             in case rcp_oper_up env lport s of (up, s) \<Rightarrow>
               if \<not> up then Some (0, s)
               else hello_send env lport (hello_frame env (vlan_dot_1q_enable s) switchMac RcpVid authKey) s
      else if parentPort = 0 then Some (0, s)
      else map_option (\<lambda>(iRet, _, s). (iRet, s)) (hello_ports env [1..<26] (0, broadcastVid, s)))"

text \<open>
  \<^verbatim>\<open>0 == rcpDevList[parentPort]->chipID\<close> compares the address of the array, which is never 0. A port
  out of range gives \<^verbatim>\<open>RCP_BAD_PARAM\<close>, which the callers take for yes. While the thread sleeps after
  a hello, the frames that arrive are handled.
\<close>

definition RCP_Dev_Is_Exist :: "'w rcp_env \<Rightarrow> u8 list \<Rightarrow> u16 \<Rightarrow> nat \<Rightarrow> 'w rcp_sys \<Rightarrow> (int \<times> 'w rcp_sys) option" where
  "RCP_Dev_Is_Exist env junk mgtPvid parentPort s =
     (if parentPort \<ge> MAX_RRCP_SWITCH_TO_MANAGE then Some (RCP_BAD_PARAM, s)
      else case rcpDevList s ! parentPort of
        Some dev \<Rightarrow> (case rcp_oper_up env parentPort s of (up, s) \<Rightarrow>
          if \<not> up then Some (0, s) else Some (if rd_onlineStatus dev = 1 then 1 else 0, s))
      | None \<Rightarrow> (case rcp_pvid_get env parentPort s of (v, s) \<Rightarrow>
          Option.bind (RCP_Say_Hello env junk (int parentPort) (case v of None \<Rightarrow> mgtPvid | Some x \<Rightarrow> x) s) (\<lambda>(_, s).
          Option.bind (rcp_receive env s) (\<lambda>s.
            Some (if rcpDevList s ! parentPort \<noteq> None then 1 else 0, s)))))"

section \<open>The management port and a loop behind a switch\<close>

definition Rcp_Get_MGT_Port :: "'s rcp_io \<Rightarrow> ('s, nat \<times> nat) rcp" where
  "Rcp_Get_MGT_Port io =
     rcp_bind (rcp_dev_get io rd_deviceId) (\<lambda>d. rcp_bind (rcp_dev_get io rd_upLinkPort) (\<lambda>u. rcp_lift (RCPPort2LPort d 0 (unat u))))"

text \<open>The alarm is sent through \<open>send\<close>, the code's \<^verbatim>\<open>CommOnuMsgSend\<close>. A port without a switch is dereferenced.\<close>

definition sendOamRcpLpbDetectNotifyMsg ::
  "(u8 list \<Rightarrow> 'w \<Rightarrow> int \<times> 'w) \<Rightarrow> u8 \<Rightarrow> u8 \<Rightarrow> u8 \<Rightarrow> u16 \<Rightarrow> 'w rcp_sys \<Rightarrow> (int \<times> 'w rcp_sys) option" where
  "sendOamRcpLpbDetectNotifyMsg send onuPort rcpPort state uvid s =
     (case rcp_dev_at s (unat onuPort) of None \<Rightarrow> None
      | Some dev \<Rightarrow>
          (case send ([11, 1, rcpPort, 1, onuPort, state, ucast (drop_bit 8 uvid), ucast (uvid AND 0xff)] @ take 6 (rd_switchMac dev)) (rcp_world s) of
             (ret, w) \<Rightarrow> Some (ret, s\<lparr>rcp_world := w\<rparr>)))"

section \<open>The switches as table rows\<close>

definition convertOidToChar :: "u32 list \<Rightarrow> u8 list" where
  "convertOidToChar oidMac = map ucast (take 6 oidMac)"

definition convertMacToOid :: "u8 list \<Rightarrow> u32 list" where
  "convertMacToOid charMac = map ucast (take 6 charMac)"

definition mac_is_at :: "'w rcp_sys \<Rightarrow> u8 list \<Rightarrow> nat \<Rightarrow> bool" where
  "mac_is_at s mac i \<longleftrightarrow> (case rcp_dev_at s i of None \<Rightarrow> False | Some dev \<Rightarrow> rd_switchMac dev = mac)"

text \<open>The result is the return value and what is stored, if anything; the counter \<^verbatim>\<open>flag\<close> of \<^verbatim>\<open>RCP_GetDevIndexByMac\<close>
  and of \<^verbatim>\<open>RCP_GetFirstIndex\<close> is compared with a number that it cannot reach.\<close>

definition RCP_GetDevIndexByMac :: "'w rcp_sys \<Rightarrow> u32 list \<Rightarrow> int \<times> nat option" where
  "RCP_GetDevIndexByMac s mac =
     (case List.find (\<lambda>i. RCP_Dev_Is_Valid s i \<and> mac_is_at s (convertOidToChar mac) i) [1..<MAX_RRCP_SWITCH_TO_MANAGE] of
        Some i \<Rightarrow> (0, Some i)
      | None \<Rightarrow> (let flag = length [1..<MAX_RRCP_SWITCH_TO_MANAGE] in (if flag = MAX_RRCP_SWITCH_TO_MANAGE then -1 else 0, None)))"

definition RCP_GetValidIndex :: "'w rcp_sys \<Rightarrow> u32 list \<Rightarrow> int \<times> nat option" where
  "RCP_GetValidIndex s mac =
     (case List.find (\<lambda>i. RCP_Dev_Is_Valid s i \<and> mac_is_at s (convertOidToChar mac) i) [1..<MAX_RRCP_SWITCH_TO_MANAGE] of
        Some i \<Rightarrow> (0, Some i)
      | None \<Rightarrow> (let flag = length (filter (RCP_Dev_Is_Valid s) [1..<MAX_RRCP_SWITCH_TO_MANAGE]) in (if flag = 0 then -1 else 0, None)))"

definition RCP_GetFirstIndex :: "'w rcp_sys \<Rightarrow> int \<times> nat option" where
  "RCP_GetFirstIndex s =
     (case List.find (RCP_Dev_Is_Valid s) [1..<MAX_RRCP_SWITCH_TO_MANAGE] of
        Some i \<Rightarrow> (0, Some i)
      | None \<Rightarrow> (let flag = length [1..<MAX_RRCP_SWITCH_TO_MANAGE] in (if flag = MAX_RRCP_SWITCH_TO_MANAGE then -1 else 0, None)))"

definition RCP_GetNextIndex :: "'w rcp_sys \<Rightarrow> nat \<Rightarrow> int \<times> nat option" where
  "RCP_GetNextIndex s index =
     (if index = 0 then (-1, None)
      else case List.find (RCP_Dev_Is_Valid s) [index + 1..<MAX_RRCP_SWITCH_TO_MANAGE] of
        Some i \<Rightarrow> (0, Some i)
      | None \<Rightarrow> (let flag = length [index + 1..<MAX_RRCP_SWITCH_TO_MANAGE] in (if flag + index + 1 = MAX_RRCP_SWITCH_TO_MANAGE then -1 else 0, None)))"

section \<open>Lists of ports for SNMP\<close>

definition port_list8_step :: "u8 \<Rightarrow> nat \<Rightarrow> u8 \<Rightarrow> u8" where
  "port_list8_step portList i tmp3 =
     tmp3 OR push_bit (2 * i - 1) (portList AND push_bit (4 - i) 1) OR drop_bit (2 * i - 1) (portList AND push_bit (3 + i) 1)"

definition RCP_GetPortList8SNMP :: "u8 \<Rightarrow> u8" where
  "RCP_GetPortList8SNMP portList = fold (port_list8_step portList) [4, 3, 2, 1] 0"

text \<open>The bits are added to what \<^verbatim>\<open>newList\<close> holds; a list that is too short is overrun.\<close>

definition snmp_bit :: "u32 \<Rightarrow> nat \<Rightarrow> u8 list option \<Rightarrow> u8 list option" where
  "snmp_bit portList i newList = Option.bind newList (\<lambda>l.
     if i div 8 < length l
     then Some (l[i div 8 := push_bit (7 - i mod 8) (ucast (drop_bit i (portList AND push_bit i 1))) OR l ! (i div 8)])
     else None)"

definition RCP_PortListToSNMP :: "rcp_dev \<Rightarrow> u32 \<Rightarrow> u8 list \<Rightarrow> u8 list option" where
  "RCP_PortListToSNMP rcpDev portList newList = fold (snmp_bit portList) [0..<rd_numOfPorts rcpDev] (Some newList)"

definition port_bit :: "u8 list \<Rightarrow> nat \<Rightarrow> u32 option \<Rightarrow> u32 option" where
  "port_bit newList i acc = Option.bind acc (\<lambda>tmp2.
     if i div 8 < length newList
     then Some (push_bit i (ucast (drop_bit (7 - i mod 8) (newList ! (i div 8) AND push_bit (7 - i mod 8) 1))) OR tmp2)
     else None)"

definition RCP_SNMPToPortList :: "rcp_dev \<Rightarrow> u8 list \<Rightarrow> u32 option" where
  "RCP_SNMPToPortList rcpDev newList = fold (port_bit newList) [0..<rd_numOfPorts rcpDev] (Some 0)"

section \<open>Correctness of the port lists\<close>

lemma bit_and_push: "bit (w AND push_bit k 1) m \<longleftrightarrow> m = k \<and> bit (w :: 'a::len word) k"
  by (auto simp: bit_simps dest: bit_imp_le_length)

lemma bit_single: "bit (drop_bit k (w AND push_bit k 1)) m \<longleftrightarrow> m = 0 \<and> bit (w :: 'a::len word) k"
  unfolding bit_drop_bit_eq comp_def bit_and_push by auto

lemma port_list8_step_bit:
  assumes "1 \<le> i" "i \<le> 4" "n < 8"
  shows "bit (port_list8_step p i t) n \<longleftrightarrow> bit t n \<or> n = 3 + i \<and> bit p (4 - i) \<or> n = 4 - i \<and> bit p (3 + i)"
proof -
  have "bit (push_bit (2 * i - 1) (p AND push_bit (4 - i) 1)) n \<longleftrightarrow> n = 3 + i \<and> bit p (4 - i)"
    using assms unfolding bit_push_bit_iff bit_and_push by auto
  moreover have "bit (drop_bit (2 * i - 1) (p AND push_bit (3 + i) 1)) n \<longleftrightarrow> n = 4 - i \<and> bit p (3 + i)"
    using assms unfolding bit_drop_bit_eq comp_def bit_and_push by auto
  ultimately show ?thesis by (simp add: port_list8_step_def bit_or_iff)
qed

lemma port_list8_bit:
  assumes "n < 8"
  shows "bit (RCP_GetPortList8SNMP p) n = bit p (7 - n)"
proof -
  have "n = 0 \<or> n = 1 \<or> n = 2 \<or> n = 3 \<or> n = 4 \<or> n = 5 \<or> n = 6 \<or> n = 7" using assms by arith
  then show ?thesis by (elim disjE) (simp_all add: RCP_GetPortList8SNMP_def port_list8_step_bit)
qed

lemma snmp_byte:
  assumes "n < 32"
  shows "bit (push_bit (7 - n mod 8) (ucast (drop_bit n (pl AND push_bit n 1))) OR b) (7 - i mod 8) \<longleftrightarrow>
    (i mod 8 = n mod 8 \<and> bit (pl :: u32) n) \<or> bit (b :: u8) (7 - i mod 8)"
proof -
  have "7 - i mod 8 - (7 - n mod 8) = 0 \<and> 7 - n mod 8 \<le> 7 - i mod 8 \<longleftrightarrow> i mod 8 = n mod 8"
  proof -
    have "a < 8 \<Longrightarrow> b < 8 \<Longrightarrow> 7 - a - (7 - b) = 0 \<and> 7 - b \<le> 7 - a \<longleftrightarrow> a = b" for a b :: nat by auto
    then show ?thesis by simp
  qed
  moreover have "bit (push_bit (7 - n mod 8) (x :: u8)) (7 - i mod 8) \<longleftrightarrow> 7 - n mod 8 \<le> 7 - i mod 8 \<and> bit x (7 - i mod 8 - (7 - n mod 8))" for x
    unfolding bit_push_bit_iff by auto
  moreover have "bit (ucast (drop_bit n (pl AND push_bit n 1)) :: u8) m \<longleftrightarrow> m = 0 \<and> bit pl n" for m
    unfolding bit_ucast_iff bit_single by auto
  ultimately show ?thesis unfolding bit_or_iff by auto
qed

lemma snmp_bits:
  assumes "n \<le> 8 * length l" "n \<le> 32"
  shows "\<exists>l'. fold (snmp_bit pl) [0..<n] (Some l) = Some l' \<and> length l' = length l \<and>
    (\<forall>i < 8 * length l. bit (l' ! (i div 8)) (7 - i mod 8) \<longleftrightarrow> bit (l ! (i div 8)) (7 - i mod 8) \<or> i < n \<and> bit pl i)"
  using assms
proof (induction n)
  case (Suc n)
  then obtain l' where l': "fold (snmp_bit pl) [0..<n] (Some l) = Some l'" "length l' = length l"
    "\<forall>i < 8 * length l. bit (l' ! (i div 8)) (7 - i mod 8) \<longleftrightarrow> bit (l ! (i div 8)) (7 - i mod 8) \<or> i < n \<and> bit pl i" by auto
  have d: "n div 8 < length l'" using Suc.prems l'(2) by auto
  let ?b = "push_bit (7 - n mod 8) (ucast (drop_bit n (pl AND push_bit n 1))) OR l' ! (n div 8)"
  have n: "n < 32" using Suc.prems by simp
  have "bit ((l'[n div 8 := ?b]) ! (i div 8)) (7 - i mod 8) \<longleftrightarrow> bit (l ! (i div 8)) (7 - i mod 8) \<or> i < Suc n \<and> bit pl i"
    if i: "i < 8 * length l" for i
  proof (cases "i div 8 = n div 8")
    case True
    then have "i mod 8 = n mod 8 \<longleftrightarrow> i = n" by (metis div_mult_mod_eq)
    moreover have "(l'[n div 8 := ?b]) ! (i div 8) = ?b" using True d by simp
    moreover have "bit (l' ! (n div 8)) (7 - i mod 8) \<longleftrightarrow> bit (l ! (i div 8)) (7 - i mod 8) \<or> i < n \<and> bit pl i"
      using l'(3) i True by metis
    ultimately show ?thesis using snmp_byte [OF n, of pl "l' ! (n div 8)" i] by (auto simp: less_Suc_eq)
  next
    case False
    then have "i \<noteq> n" "(l'[n div 8 := ?b]) ! (i div 8) = l' ! (i div 8)" by auto
    then show ?thesis using l'(3) i by (auto simp: less_Suc_eq)
  qed
  moreover have "fold (snmp_bit pl) [0..<Suc n] (Some l) = Some (l'[n div 8 := ?b])" using l'(1) d by (simp add: snmp_bit_def)
  ultimately show ?case using l'(2) by (metis length_list_update)
qed simp

lemma port_bits:
  assumes "n \<le> 8 * length l" "n \<le> 32"
  shows "\<exists>v. fold (port_bit l) [0..<n] (Some 0) = Some v \<and> (\<forall>i. bit v i \<longleftrightarrow> i < n \<and> bit (l ! (i div 8)) (7 - i mod 8))"
  using assms
proof (induction n)
  case (Suc n)
  then obtain v where v: "fold (port_bit l) [0..<n] (Some 0) = Some v" "\<forall>i. bit v i \<longleftrightarrow> i < n \<and> bit (l ! (i div 8)) (7 - i mod 8)" by auto
  have "n div 8 < length l" using Suc.prems by auto
  then have "fold (port_bit l) [0..<Suc n] (Some 0) =
      Some (push_bit n (ucast (drop_bit (7 - n mod 8) (l ! (n div 8) AND push_bit (7 - n mod 8) 1))) OR v)"
    using v(1) by (simp add: port_bit_def)
  moreover have "bit (push_bit n (ucast (drop_bit (7 - n mod 8) (l ! (n div 8) AND push_bit (7 - n mod 8) 1))) OR v) i \<longleftrightarrow>
      i < Suc n \<and> bit (l ! (i div 8)) (7 - i mod 8)" for i
  proof -
    have "bit (push_bit n (ucast (drop_bit (7 - n mod 8) (l ! (n div 8) AND push_bit (7 - n mod 8) 1)) :: u32)) i \<longleftrightarrow>
        i = n \<and> bit (l ! (n div 8)) (7 - n mod 8)"
      unfolding bit_push_bit_iff bit_ucast_iff bit_single using Suc.prems by auto
    then show ?thesis unfolding bit_or_iff v(2) [rule_format] less_Suc_eq by auto
  qed
  ultimately show ?case by blast
qed simp

text \<open>
  Port lists for SNMP: a list of ports that is turned into the bytes of an SNMP table and back is
  the list, cut to the ports of the switch; port \<open>i\<close> is bit \<open>7 - i mod 8\<close> of byte \<open>i div 8\<close>.
\<close>
theorem snmp_ports_roundtrip:
  assumes "rd_numOfPorts dev \<le> 8 * k" "rd_numOfPorts dev \<le> 32"
  shows "\<exists>l. RCP_PortListToSNMP dev pl (replicate k 0) = Some l \<and> RCP_SNMPToPortList dev l = Some (take_bit (rd_numOfPorts dev) pl) \<and>
    (\<forall>i < 8 * k. bit (l ! (i div 8)) (7 - i mod 8) \<longleftrightarrow> i < rd_numOfPorts dev \<and> bit pl i)"
proof -
  let ?n = "rd_numOfPorts dev"
  from snmp_bits [of ?n "replicate k 0" pl] assms obtain l where l: "RCP_PortListToSNMP dev pl (replicate k 0) = Some l" "length l = k"
    "\<forall>i < 8 * k. bit (l ! (i div 8)) (7 - i mod 8) \<longleftrightarrow> i < ?n \<and> bit pl i"
    by (auto simp: RCP_PortListToSNMP_def nth_replicate)
  from port_bits [of ?n l] assms l(2) obtain v where v: "RCP_SNMPToPortList dev l = Some v" "\<forall>i. bit v i \<longleftrightarrow> i < ?n \<and> bit (l ! (i div 8)) (7 - i mod 8)"
    by (auto simp: RCP_SNMPToPortList_def)
  have "v = take_bit ?n pl" using v(2) l(3) assms by (intro bit_word_eqI) (auto simp: bit_take_bit_iff)
  then show ?thesis using l v by blast
qed

theorem snmp_ports_roundtrip_witness:
  "\<exists>l. RCP_PortListToSNMP (rcp_dev_zero\<lparr>rd_numOfPorts := 24\<rparr>) 0x800081 (replicate 3 0) = Some l \<and>
    RCP_SNMPToPortList (rcp_dev_zero\<lparr>rd_numOfPorts := 24\<rparr>) l = Some 0x800081"
  using snmp_ports_roundtrip [of "rcp_dev_zero\<lparr>rd_numOfPorts := 24\<rparr>" 3 "0x800081"] by auto

end
