(* ===== verification/Rcp_Alarm.thy ===== *)
theory Rcp_Alarm
  imports Rcp_Reg
begin

text \<open>
  The queue of messages on switches that come and go (\<^verbatim>\<open>apps/rcp_gwd.c\<close>, lines 6233 to 6330): a
  doubly linked list on the heap, filled at the top and sent to the OLT from the bottom. \<^verbatim>\<open>malloc\<close> and
  \<^verbatim>\<open>CommOnuMsgSend\<close> are arguments that act on a state \<open>'w\<close>.
\<close>

section \<open>State\<close>

record alarm_entry =
  ae_MsgBody :: "u8 list"
  ae_MsgLen :: u16
  ae_pNext :: "addr option"
  ae_pPrevious :: "addr option"

record alarm_fifo =
  af_top :: "addr option"
  af_bottom :: "addr option"
  af_occupancy :: u16
  af_lengthLimitMax :: u16

record 'w alarm_sys =
  al_heap :: "addr \<Rightarrow> alarm_entry option"
  al_next :: addr
  gpstAlmFifo :: "alarm_fifo option"
  al_world :: 'w

definition alarm_fifo_init :: alarm_fifo where
  "alarm_fifo_init = \<lparr>af_top = None, af_bottom = None, af_occupancy = 0, af_lengthLimitMax = 52\<rparr>"

section \<open>Operations\<close>

definition alarm_malloc :: "('w \<Rightarrow> bool \<times> 'w) \<Rightarrow> 'w alarm_sys \<Rightarrow> addr option \<times> 'w alarm_sys" where
  "alarm_malloc mal s = (case mal (al_world s) of (ok, w) \<Rightarrow>
     if ok then (Some (al_next s), s\<lparr>al_next := al_next s + 1, al_world := w\<rparr>) else (None, s\<lparr>al_world := w\<rparr>))"

definition alarm_body :: "u8 \<times> u8 list \<times> u8 \<times> u8 \<Rightarrow> u8 list" where
  "alarm_body m = (case m of (onuPort, switchMac, msgType, reason) \<Rightarrow>
     [80, 0, 0, 1, onuPort, msgType] @ take 6 switchMac @ [reason, 0])"

definition pushOneSwitchStatusChgMsg :: "('w \<Rightarrow> bool \<times> 'w) \<Rightarrow> u8 \<Rightarrow> u8 list \<Rightarrow> u8 \<Rightarrow> u8 \<Rightarrow> 'w alarm_sys \<Rightarrow> int \<times> 'w alarm_sys" where
  "pushOneSwitchStatusChgMsg mal onuPort switchMac msgType reason s =
     (case gpstAlmFifo s of None \<Rightarrow> (RCP_NOT_INITIALIZED, s)
      | Some f \<Rightarrow>
        if af_occupancy f \<ge> af_lengthLimitMax f then (RCP_NO_RESOURCE, s)
        else case alarm_malloc mal s of
          (None, s) \<Rightarrow> (RCP_NO_MEM, s)
        | (Some a, s) \<Rightarrow>
        case alarm_malloc mal s of
          (None, s) \<Rightarrow> (RCP_NO_MEM, s)
        | (Some _, s) \<Rightarrow>
          let e = \<lparr>ae_MsgBody = alarm_body (onuPort, switchMac, msgType, reason), ae_MsgLen = 14, ae_pNext = af_top f, ae_pPrevious = None\<rparr>;
              h = (case af_top f of None \<Rightarrow> al_heap s
                   | Some t \<Rightarrow> (al_heap s)(t := map_option (\<lambda>x. x\<lparr>ae_pPrevious := Some a\<rparr>) (al_heap s t)));
              f = (if af_top f = None then f\<lparr>af_bottom := Some a\<rparr> else f)
          in (0, s\<lparr>al_heap := h(a \<mapsto> e), gpstAlmFifo := Some (f\<lparr>af_top := Some a, af_occupancy := af_occupancy f + 1\<rparr>)\<rparr>))"

text \<open>The entry at the bottom, after it was sent: unlinked and freed.\<close>

definition alarm_unlink :: "addr \<Rightarrow> alarm_entry \<Rightarrow> alarm_fifo \<Rightarrow> 'w alarm_sys \<Rightarrow> 'w alarm_sys" where
  "alarm_unlink a e f s =
     (let h = (case ae_pPrevious e of None \<Rightarrow> al_heap s
               | Some p \<Rightarrow> (al_heap s)(p := map_option (\<lambda>x. x\<lparr>ae_pNext := None\<rparr>) (al_heap s p)))
      in s\<lparr>al_heap := h(a := None), gpstAlmFifo := Some (f\<lparr>af_bottom := ae_pPrevious e, af_occupancy := af_occupancy f - 1\<rparr>)\<rparr>)"

text \<open>The loop of \<^verbatim>\<open>popAllSwitchStatusChgMsg\<close>: \<^verbatim>\<open>pMsg\<close> is the bottom of the queue.\<close>

partial_function (option) alarm_pop_loop :: "(u8 list \<Rightarrow> 'w \<Rightarrow> int \<times> 'w) \<Rightarrow> 'w alarm_sys \<Rightarrow> (int \<times> 'w alarm_sys) option" where
  "alarm_pop_loop send s =
     (case gpstAlmFifo s of None \<Rightarrow> None
      | Some f \<Rightarrow> (case af_bottom f of
          None \<Rightarrow> Some (0, s\<lparr>gpstAlmFifo := Some (f\<lparr>af_top := None\<rparr>)\<rparr>)
        | Some a \<Rightarrow> (case al_heap s a of
            None \<Rightarrow> None
          | Some e \<Rightarrow> (case send (take (unat (ae_MsgLen e)) (ae_MsgBody e)) (al_world s) of (r, w) \<Rightarrow>
              if r \<noteq> 0 then Some (RCP_FAIL, s\<lparr>al_world := w\<rparr>)
              else alarm_pop_loop send (alarm_unlink a e f (s\<lparr>al_world := w\<rparr>))))))"

definition popAllSwitchStatusChgMsg :: "(u8 list \<Rightarrow> 'w \<Rightarrow> int \<times> 'w) \<Rightarrow> 'w alarm_sys \<Rightarrow> (int \<times> 'w alarm_sys) option" where
  "popAllSwitchStatusChgMsg send s =
     (case gpstAlmFifo s of None \<Rightarrow> Some (RCP_NOT_INITIALIZED, s)
      | Some f \<Rightarrow>
        if af_occupancy f = 0 then Some (RCP_NO_MORE, s)
        else if af_bottom f = None then Some (RCP_NOT_FOUND, s)
        else alarm_pop_loop send s)"

section \<open>The queue as a list\<close>

text \<open>From the bottom: \<open>n\<close> is the entry before \<open>c\<close>, to which its \<^verbatim>\<open>pNext\<close> points.\<close>

fun achain :: "(addr \<Rightarrow> alarm_entry option) \<Rightarrow> addr option \<Rightarrow> addr option \<Rightarrow> addr list \<Rightarrow> bool" where
  "achain h n c [] \<longleftrightarrow> c = None"
| "achain h n c (a # as) \<longleftrightarrow> c = Some a \<and> (case h a of None \<Rightarrow> False | Some e \<Rightarrow> ae_pNext e = n \<and> achain h (Some a) (ae_pPrevious e) as)"

definition entry_is :: "(addr \<Rightarrow> alarm_entry option) \<Rightarrow> addr \<Rightarrow> u8 \<times> u8 list \<times> u8 \<times> u8 \<Rightarrow> bool" where
  "entry_is h a m \<longleftrightarrow> (case h a of None \<Rightarrow> False | Some e \<Rightarrow> ae_MsgBody e = alarm_body m \<and> ae_MsgLen e = 14) \<and> length (fst (snd m)) = 6"

definition alarm_repr :: "'w alarm_sys \<Rightarrow> (u8 \<times> u8 list \<times> u8 \<times> u8) list \<Rightarrow> bool" where
  "alarm_repr s ms \<longleftrightarrow> (\<exists>f as. gpstAlmFifo s = Some f \<and> achain (al_heap s) None (af_bottom f) as \<and> distinct as \<and>
     list_all2 (entry_is (al_heap s)) as ms \<and> af_top f = (if as = [] then None else Some (last as)) \<and>
     (\<forall>a\<in>set as. a < al_next s) \<and> unat (af_occupancy f) = length ms \<and> af_lengthLimitMax f = 52 \<and> length ms \<le> 52)"

text \<open>Inside the loop the top of an emptied queue still points to the last entry that was freed.\<close>

definition alarm_loop :: "'w alarm_sys \<Rightarrow> alarm_fifo \<Rightarrow> addr list \<Rightarrow> (u8 \<times> u8 list \<times> u8 \<times> u8) list \<Rightarrow> bool" where
  "alarm_loop s f as ms \<longleftrightarrow> gpstAlmFifo s = Some f \<and> achain (al_heap s) None (af_bottom f) as \<and> distinct as \<and>
     list_all2 (entry_is (al_heap s)) as ms \<and> (as \<noteq> [] \<longrightarrow> af_top f = Some (last as)) \<and>
     (\<forall>a\<in>set as. a < al_next s) \<and> unat (af_occupancy f) = length ms \<and> af_lengthLimitMax f = 52 \<and> length ms \<le> 52"

lemma achain_frame: "\<forall>a\<in>set as. h a = h' a \<Longrightarrow> achain h n c as = achain h' n c as"
  by (induction as arbitrary: n c) (auto split: option.splits)

lemma achain_snoc:
  assumes "achain h n c as" "distinct as" "a \<notin> set as" "as \<noteq> []"
    and "h' a = Some e" "ae_pNext e = Some (last as)" "ae_pPrevious e = None"
    and "h' (last as) = map_option (\<lambda>x. x\<lparr>ae_pPrevious := Some a\<rparr>) (h (last as))"
    and "\<forall>b\<in>set as - {last as}. h' b = h b"
  shows "achain h' n c (as @ [a])"
  using assms
proof (induction as arbitrary: n c)
  case (Cons b as)
  show ?case
  proof (cases "as = []")
    case True
    then show ?thesis using Cons.prems by (auto split: option.splits)
  next
    case False
    then have l: "last (b # as) = last as" by simp
    then have b: "h' b = h b" using Cons.prems(2,9) False by (metis DiffI distinct.simps(2) last_in_set list.set_intros(1) singletonD)
    obtain x where x: "h b = Some x" "ae_pNext x = n" "achain h (Some b) (ae_pPrevious x) as" "c = Some b"
      using Cons.prems(1) by (auto split: option.splits)
    have "achain h' (Some b) (ae_pPrevious x) (as @ [a])"
      by (rule Cons.IH) (use x Cons.prems l False in auto)
    then show ?thesis using x b by simp
  qed
qed simp

lemma achain_tl:
  assumes "achain h n (Some a) (a # as)" "distinct (a # as)" "h a = Some e"
    and "\<forall>p. ae_pPrevious e = Some p \<longrightarrow> h' p = map_option (\<lambda>x. x\<lparr>ae_pNext := None\<rparr>) (h p)"
    and "\<forall>b. b \<noteq> a \<longrightarrow> Some b \<noteq> ae_pPrevious e \<longrightarrow> h' b = h b"
  shows "achain h' None (ae_pPrevious e) as"
proof (cases as)
  case Nil
  then show ?thesis using assms by simp
next
  case (Cons b bs)
  with assms obtain x where x: "ae_pPrevious e = Some b" "h b = Some x" "achain h (Some b) (ae_pPrevious x) bs"
    by (auto split: option.splits)
  have "\<forall>c\<in>set bs. h' c = h c"
  proof
    fix c assume "c \<in> set bs"
    then have "c \<noteq> a" "c \<noteq> b" using assms(2) Cons by auto
    then show "h' c = h c" using assms(5) x(1) by simp
  qed
  then have "achain h' (Some b) (ae_pPrevious x) bs" using achain_frame x(3) by blast
  then show ?thesis using Cons x assms(4) by simp
qed

lemma alarm_reprE:
  assumes "alarm_repr s ms"
  obtains f as where "gpstAlmFifo s = Some f" "achain (al_heap s) None (af_bottom f) as" "distinct as"
    "list_all2 (entry_is (al_heap s)) as ms" "af_top f = (if as = [] then None else Some (last as))"
    "\<forall>a\<in>set as. a < al_next s" "unat (af_occupancy f) = length ms" "af_lengthLimitMax f = 52" "length ms \<le> 52"
  using assms by (auto simp: alarm_repr_def)

lemma entry_is_heap: "h' a = Some e' \<Longrightarrow> h a = Some e \<Longrightarrow> ae_MsgBody e' = ae_MsgBody e \<Longrightarrow> ae_MsgLen e' = ae_MsgLen e \<Longrightarrow>
    entry_is h a m \<Longrightarrow> entry_is h' a m"
  by (auto simp: entry_is_def)

lemma push_repr:
  assumes r: "alarm_repr s ms" and l: "length ms < 52" "length mac = 6" and mal: "\<And>w. fst (mal w)"
  shows "fst (pushOneSwitchStatusChgMsg mal p mac t why s) = 0"
    "alarm_repr (snd (pushOneSwitchStatusChgMsg mal p mac t why s)) (ms @ [(p, mac, t, why)])"
proof -
  from r obtain f as where f: "gpstAlmFifo s = Some f" "achain (al_heap s) None (af_bottom f) as" "distinct as"
    "list_all2 (entry_is (al_heap s)) as ms" "af_top f = (if as = [] then None else Some (last as))"
    "\<forall>a\<in>set as. a < al_next s" "unat (af_occupancy f) = length ms" "af_lengthLimitMax f = 52" "length ms \<le> 52"
    by (rule alarm_reprE)
  have m: "\<exists>w'. mal w = (True, w')" for w using mal [of w] by (cases "mal w") auto
  obtain w1 where w1: "mal (al_world s) = (True, w1)" using m by blast
  obtain w2 where w2: "mal w1 = (True, w2)" using m by blast
  let ?a = "al_next s"
  let ?e = "\<lparr>ae_MsgBody = alarm_body (p, mac, t, why), ae_MsgLen = 14, ae_pNext = af_top f, ae_pPrevious = None\<rparr>"
  let ?h = "(case af_top f of None \<Rightarrow> al_heap s
     | Some t \<Rightarrow> (al_heap s)(t := map_option (\<lambda>x. x\<lparr>ae_pPrevious := Some ?a\<rparr>) (al_heap s t)))(?a \<mapsto> ?e)"
  let ?f = "(if af_top f = None then f\<lparr>af_bottom := Some ?a\<rparr> else f)\<lparr>af_top := Some ?a, af_occupancy := af_occupancy f + 1\<rparr>"
  have na: "\<not> af_occupancy f \<ge> af_lengthLimitMax f" using f(7,8) l(1) by (simp add: word_le_nat_alt)
  have push: "pushOneSwitchStatusChgMsg mal p mac t why s = (0, s\<lparr>al_next := ?a + 2, al_world := w2, al_heap := ?h, gpstAlmFifo := Some ?f\<rparr>)"
    using na f(1) w1 w2 by (cases "af_top f") (simp_all add: pushOneSwitchStatusChgMsg_def alarm_malloc_def Let_def)
  then show "fst (pushOneSwitchStatusChgMsg mal p mac t why s) = 0" by simp
  have fresh: "?a \<notin> set as" using f(6) by blast
  have occ: "unat (af_occupancy f + 1) = Suc (length ms)"
    using f(7) l(1) by (simp add: unat_word_ariths)
  have chain: "achain ?h None (if af_top f = None then Some ?a else af_bottom f) (as @ [?a])"
  proof (cases "as = []")
    case True
    then show ?thesis using f(5) by simp
  next
    case False
    then have t: "af_top f = Some (last as)" "last as \<noteq> ?a" using f(5) fresh False by (simp, metis last_in_set)
    show ?thesis unfolding t(1) option.case
      by (simp only: option.distinct if_False, rule achain_snoc [OF f(2,3) fresh False, of _ ?e])
        (use t fresh in auto)
  qed
  have ent: "entry_is ?h b m" if "b \<in> set as" "entry_is (al_heap s) b m" for b m
    using that fresh f(5) by (auto simp: entry_is_def split: option.splits if_splits)
  have "list_all2 (entry_is ?h) as ms"
    by (rule list.rel_mono_strong [OF f(4)]) (use ent in blast)
  moreover have "entry_is ?h ?a (p, mac, t, why)" using l(2) by (simp add: entry_is_def)
  ultimately have all: "list_all2 (entry_is ?h) (as @ [?a]) (ms @ [(p, mac, t, why)])" by (simp add: list_all2_appendI)
  show "alarm_repr (snd (pushOneSwitchStatusChgMsg mal p mac t why s)) (ms @ [(p, mac, t, why)])"
    unfolding push alarm_repr_def
    by (rule exI [of _ ?f], rule exI [of _ "as @ [?a]"])
      (use chain all f fresh occ l(1) in \<open>auto simp del: achain.simps\<close>)
qed

lemma unlink_loop:
  assumes l: "alarm_loop s f (a # as) (m # ms)" and e: "al_heap s a = Some e"
  shows "alarm_loop (alarm_unlink a e f (s\<lparr>al_world := w\<rparr>)) (f\<lparr>af_bottom := ae_pPrevious e, af_occupancy := af_occupancy f - 1\<rparr>) as ms"
proof -
  let ?h = "(case ae_pPrevious e of None \<Rightarrow> al_heap s
     | Some p \<Rightarrow> (al_heap s)(p := map_option (\<lambda>x. x\<lparr>ae_pNext := None\<rparr>) (al_heap s p)))(a := None)"
  have f: "achain (al_heap s) None (Some a) (a # as)" "distinct (a # as)" "list_all2 (entry_is (al_heap s)) as ms"
    "as \<noteq> [] \<longrightarrow> af_top f = Some (last as)" "\<forall>a\<in>set as. a < al_next s" "unat (af_occupancy f) = Suc (length ms)"
    "af_lengthLimitMax f = 52" "length ms < 52" using l by (auto simp: alarm_loop_def)
  have pa: "ae_pPrevious e \<noteq> Some a" using f(1,2) e by (cases as) auto
  have chain: "achain ?h None (ae_pPrevious e) as"
    by (rule achain_tl [OF f(1,2) e]) (use pa in \<open>auto split: option.splits\<close>)
  have ent: "entry_is ?h b x" if "b \<in> set as" "entry_is (al_heap s) b x" for b x
    using that f(2) by (auto simp: entry_is_def split: option.splits if_splits)
  have all: "list_all2 (entry_is ?h) as ms"
    by (rule list.rel_mono_strong [OF f(3)]) (use ent in blast)
  have "af_occupancy f \<noteq> 0" using f(6) by auto
  then have occ: "unat (af_occupancy f - 1) = length ms" using f(6) by (simp add: unat_minus_one)
  have u: "alarm_unlink a e f (s\<lparr>al_world := w\<rparr>) =
      s\<lparr>al_world := w, al_heap := ?h, gpstAlmFifo := Some (f\<lparr>af_bottom := ae_pPrevious e, af_occupancy := af_occupancy f - 1\<rparr>)\<rparr>"
    by (cases "ae_pPrevious e") (simp_all add: alarm_unlink_def)
  show ?thesis unfolding u alarm_loop_def using chain all f(2,4-8) occ by simp
qed

text \<open>The messages that are sent before the first failure, and how many.\<close>

fun send_prefix :: "(u8 list \<Rightarrow> 'w \<Rightarrow> int \<times> 'w) \<Rightarrow> u8 list list \<Rightarrow> 'w \<Rightarrow> nat \<times> 'w" where
  "send_prefix send [] w = (0, w)"
| "send_prefix send (b # bs) w = (case send b w of (r, w') \<Rightarrow>
     if r \<noteq> 0 then (0, w') else (case send_prefix send bs w' of (k, w'') \<Rightarrow> (Suc k, w'')))"

lemma alarm_loop_repr: "alarm_loop s f as ms \<Longrightarrow> as \<noteq> [] \<Longrightarrow> alarm_repr s ms"
  by (auto simp: alarm_loop_def alarm_repr_def)

lemma pop_loop:
  "alarm_loop s f as ms \<Longrightarrow> send_prefix send (map alarm_body ms) (al_world s) = (k, w) \<Longrightarrow>
   \<exists>s'. alarm_pop_loop send s = Some (if k = length ms then 0 else RCP_FAIL, s') \<and> alarm_repr s' (drop k ms) \<and> al_world s' = w"
proof (induction ms arbitrary: s f as k w)
  case Nil
  then have "as = []" "af_bottom f = None" "gpstAlmFifo s = Some f" "af_lengthLimitMax f = 52" "af_occupancy f = 0"
    by (auto simp: alarm_loop_def unat_eq_0)
  then show ?case using Nil by (auto simp: alarm_pop_loop.simps [of send s] alarm_repr_def)
next
  case (Cons m ms)
  then obtain a bs where as: "as = a # bs" by (auto simp: alarm_loop_def list_all2_Cons2)
  with Cons.prems(1) obtain e where e: "al_heap s a = Some e" "ae_MsgBody e = alarm_body m" "ae_MsgLen e = 14" "length (fst (snd m)) = 6"
    "af_bottom f = Some a" "gpstAlmFifo s = Some f"
    by (auto simp: alarm_loop_def entry_is_def split: option.splits)
  have "length (alarm_body m) = 14" using e(4) by (cases m) (simp add: alarm_body_def)
  then have b: "take (unat (ae_MsgLen e)) (ae_MsgBody e) = alarm_body m" using e(2,3) by simp
  obtain r w1 where r: "send (alarm_body m) (al_world s) = (r, w1)" by fastforce
  show ?case
  proof (cases "r = 0")
    case False
    then have "k = 0" "w = w1" using Cons.prems(2) r by auto
    moreover have "alarm_repr (s\<lparr>al_world := w1\<rparr>) (m # ms)"
      using alarm_loop_repr [OF Cons.prems(1)] as by (auto simp: alarm_repr_def)
    ultimately show ?thesis using e b r False by (simp add: alarm_pop_loop.simps [of send s])
  next
    case True
    let ?s = "alarm_unlink a e f (s\<lparr>al_world := w1\<rparr>)"
    obtain j w2 where j: "send_prefix send (map alarm_body ms) w1 = (j, w2)" by fastforce
    have w: "al_world ?s = w1" by (simp add: alarm_unlink_def Let_def)
    have k: "k = Suc j" "w = w2" using Cons.prems(2) r True j by auto
    from Cons.IH [OF unlink_loop [OF Cons.prems(1) [unfolded as] e(1), of w1]] j w
    show ?thesis using e b r True k by (auto simp: alarm_pop_loop.simps [of send s])
  qed
qed

lemma popAll_repr:
  assumes r: "alarm_repr s ms" and k: "send_prefix send (map alarm_body ms) (al_world s) = (k, w)"
  shows "\<exists>s'. popAllSwitchStatusChgMsg send s = Some (if ms = [] then RCP_NO_MORE else if k = length ms then 0 else RCP_FAIL, s') \<and>
    alarm_repr s' (drop k ms) \<and> al_world s' = w"
proof -
  from r obtain f as where f: "gpstAlmFifo s = Some f" "achain (al_heap s) None (af_bottom f) as" "distinct as"
    "list_all2 (entry_is (al_heap s)) as ms" "af_top f = (if as = [] then None else Some (last as))"
    "\<forall>a\<in>set as. a < al_next s" "unat (af_occupancy f) = length ms" "af_lengthLimitMax f = 52" "length ms \<le> 52"
    by (rule alarm_reprE)
  show ?thesis
  proof (cases "ms = []")
    case True
    then have "af_occupancy f = 0" using f(7) by (simp add: unat_eq_0)
    then show ?thesis using True f(1) r k by (simp add: popAllSwitchStatusChgMsg_def)
  next
    case False
    then have "af_occupancy f \<noteq> 0" "as \<noteq> []" using f(4,7) by auto
    moreover from this f(2) have "af_bottom f \<noteq> None" by (cases as) auto
    moreover have "alarm_loop s f as ms" using f by (auto simp: alarm_loop_def)
    ultimately show ?thesis using pop_loop [of s f as ms send k w] k f(1) False by (simp add: popAllSwitchStatusChgMsg_def)
  qed
qed

section \<open>The messages reach the OLT in order\<close>

fun push_all :: "('w \<Rightarrow> bool \<times> 'w) \<Rightarrow> (u8 \<times> u8 list \<times> u8 \<times> u8) list \<Rightarrow> 'w alarm_sys \<Rightarrow> 'w alarm_sys" where
  "push_all mal [] s = s"
| "push_all mal ((p, mac, t, why) # ms) s = push_all mal ms (snd (pushOneSwitchStatusChgMsg mal p mac t why s))"

lemma push_full: "alarm_repr s ms \<Longrightarrow> length ms = 52 \<Longrightarrow> pushOneSwitchStatusChgMsg mal p mac t why s = (RCP_NO_RESOURCE, s)"
  by (erule alarm_reprE) (simp add: pushOneSwitchStatusChgMsg_def word_le_nat_alt)

lemma alarm_repr_length: "alarm_repr s ms \<Longrightarrow> length ms \<le> 52"
  by (erule alarm_reprE)

lemma push_all_repr:
  assumes "alarm_repr s xs" "\<forall>m\<in>set ms. length (fst (snd m)) = 6" "\<And>w. fst (mal w)"
  shows "alarm_repr (push_all mal ms s) (take 52 (xs @ ms))"
  using assms(1,2)
proof (induction ms arbitrary: s xs)
  case Nil
  then show ?case using alarm_repr_length [OF Nil(1)] by simp
next
  case (Cons m ms)
  obtain p mac t why where m: "m = (p, mac, t, why)" by (metis prod_cases4)
  show ?case
  proof (cases "length xs < 52")
    case True
    from push_repr(2) [OF Cons.prems(1) True, of mac mal p t why] Cons.prems(2) assms(3) m
    have "alarm_repr (snd (pushOneSwitchStatusChgMsg mal p mac t why s)) (xs @ [m])" by simp
    from Cons.IH [OF this] Cons.prems(2) m show ?thesis by simp
  next
    case False
    then have l: "length xs = 52" using alarm_repr_length [OF Cons.prems(1)] by simp
    from Cons.IH [OF Cons.prems(1)] push_full [OF Cons.prems(1) l] Cons.prems(2) m l show ?thesis by simp
  qed
qed

text \<open>
  C32. The messages on switches that come and go: whatever is pushed on the new queue, the first 52 are
  kept, further ones are refused; sending them passes their bytes to the OAM sender in the order they
  were pushed up to the first one that it refuses, and exactly the ones not sent stay queued.
\<close>
theorem alarms_in_order:
  assumes "gpstAlmFifo s = Some alarm_fifo_init" "\<forall>m\<in>set ms. length (fst (snd m)) = 6" "\<And>w. fst (mal w)"
    and "send_prefix send (map alarm_body (take 52 ms)) (al_world (push_all mal ms s)) = (k, w)"
  shows "\<exists>s'. popAllSwitchStatusChgMsg send (push_all mal ms s) =
      Some (if ms = [] then RCP_NO_MORE else if k = length (take 52 ms) then 0 else RCP_FAIL, s') \<and>
    al_world s' = w \<and> alarm_repr s' (drop k (take 52 ms))"
proof -
  have "alarm_repr s []" using assms(1) by (auto simp: alarm_repr_def alarm_fifo_init_def)
  from push_all_repr [OF this assms(2,3)] have "alarm_repr (push_all mal ms s) (take 52 ms)" by simp
  from popAll_repr [OF this assms(4)] show ?thesis by auto
qed

theorem alarms_in_order_witness:
  "\<exists>s'. popAllSwitchStatusChgMsg (\<lambda>b w. (0, w @ [b]))
      (push_all (\<lambda>w. (True, w)) [(3, [0, 15, 233, 1, 2, 3], 1, 0), (4, [0, 15, 233, 4, 5, 6], 3, 2)]
        \<lparr>al_heap = \<lambda>_. None, al_next = 1, gpstAlmFifo = Some alarm_fifo_init, al_world = []\<rparr>) = Some (0, s') \<and>
    al_world s' = [[80, 0, 0, 1, 3, 1, 0, 15, 233, 1, 2, 3, 0, 0], [80, 0, 0, 1, 4, 3, 0, 15, 233, 4, 5, 6, 2, 0]] \<and> alarm_repr s' []"
proof -
  let ?s = "\<lparr>al_heap = \<lambda>_. None, al_next = 1, gpstAlmFifo = Some alarm_fifo_init, al_world = []\<rparr>"
  let ?ms = "[(3, [0, 15, 233, 1, 2, 3], 1, 0), (4, [0, 15, 233, 4, 5, 6], 3, 2)] :: (u8 \<times> u8 list \<times> u8 \<times> u8) list"
  let ?send = "\<lambda>b w. (0 :: int, w @ [b])"
  have "al_world (push_all (\<lambda>w. (True, w)) ?ms ?s) = []"
    by (simp add: pushOneSwitchStatusChgMsg_def alarm_fifo_init_def alarm_malloc_def word_le_nat_alt)
  then have k: "send_prefix ?send (map alarm_body (take 52 ?ms)) (al_world (push_all (\<lambda>w. (True, w)) ?ms ?s)) = (2, map alarm_body ?ms)"
    by simp
  have "gpstAlmFifo ?s = Some alarm_fifo_init" "\<forall>m\<in>set ?ms. length (fst (snd m)) = 6" "\<And>w. fst (True, w)" by simp_all
  from alarms_in_order [OF this k] show ?thesis by (simp add: alarm_body_def del: push_all.simps One_nat_def)
qed

end
