(* ===== verification/Rcp_Flash.thy ===== *)
theory Rcp_Flash
  imports Rcp_Dev Rcp_Alarm
begin

text \<open>
  The settings of the attached switches in the flash memory (\<^verbatim>\<open>apps/rcp_gwd.c\<close>, lines 146 to 164, 262
  to 308 and 6331 to 6670): one buffer of 26 blocks of 160 half words, the first holding the addresses of the
  registers, the others their values; block \<open>i\<close> belongs to the switch on port \<open>i\<close>. The last entry of a block
  marks it valid, the one before holds the number of registers, or the device type and the isolation flag.
\<close>

section \<open>State\<close>

definition gusSwitchCfgRegAddrArray :: "u16 list" where
  "gusSwitchCfgRegAddrArray =
     [0x0200, 0x0300, 0x0307, 0x0308, 0x030B, 0x0400, 0x0401, 0x0402, 0x0607, 0x060A, 0x060B, 0x060C, 0x060D, 0x060E, 0x060F, 0x0610,
      0x0611, 0x0612, 0x0613, 0x0614, 0x0615, 0x0608, 0x0609, 0x0219, 0x021A, 0x021B, 0x021C, 0x021D, 0x021E, 0x020A, 0x020B, 0x020C,
      0x020D, 0x020E, 0x020F, 0x0210, 0x0211, 0x0212, 0x0213, 0x0214, 0x0215, 0x0301, 0x0302, 0x030C, 0x030D, 0x030E, 0x030F, 0x0310,
      0x0311, 0x0312, 0x0313, 0x0314, 0x0315, 0x0316, 0x0317, 0x0319, 0x031A, 0x031B] @ map of_nat [0x031D..<0x037F]"

definition gusSwitchCfgArraySizeMax :: nat where "gusSwitchCfgArraySizeMax = 159"
definition gusSwitchCfgArraySizeMaxInFlash :: nat where "gusSwitchCfgArraySizeMaxInFlash = 160"
definition gusSwitchDataValidFlag :: u16 where "gusSwitchDataValidFlag = 0x5A5A"
definition glSwitchCfgFileSizeMaxInFlash :: nat where "glSwitchCfgFileSizeMaxInFlash = 2 * 160 * 26"

lemmas flash_sizes = gusSwitchCfgArraySizeMax_def gusSwitchCfgArraySizeMaxInFlash_def glSwitchCfgFileSizeMaxInFlash_def

text \<open>
  The module: the switches, the queue of messages and the buffer, which is \<open>None\<close> until \<^verbatim>\<open>RCP_Init\<close>
  has got it. The flash is behind two functions of the interface library: saving takes the buffer and a
  number of bytes, restoring gives the return value and what it stored.
\<close>

record 'w rcp_mod =
  rm_sys :: "'w rcp_sys"
  rm_fifo :: "alarm_fifo option"
  rm_buf :: "u16 list option"

record 'w flash_env =
  fe_save :: "u16 list \<Rightarrow> nat \<Rightarrow> 'w \<Rightarrow> int \<times> 'w"
  fe_restore :: "u16 list \<Rightarrow> nat \<Rightarrow> 'w \<Rightarrow> u16 list \<times> 'w"

definition gusSwitchCfgArraySize :: nat where
  "gusSwitchCfgArraySize = min (length gusSwitchCfgRegAddrArray) gusSwitchCfgArraySizeMax"

definition device_conf_write_switch_conf_to_flash :: "'w flash_env \<Rightarrow> u16 list \<Rightarrow> nat \<Rightarrow> 'w rcp_mod \<Rightarrow> int \<times> 'w rcp_mod" where
  "device_conf_write_switch_conf_to_flash fe buf len st =
     (case fe_save fe buf len (rcp_world (rm_sys st)) of (r, w) \<Rightarrow> (r, st\<lparr>rm_sys := (rm_sys st)\<lparr>rcp_world := w\<rparr>\<rparr>))"

definition device_conf_read_switch_conf_from_flash :: "'w flash_env \<Rightarrow> u16 list \<Rightarrow> nat \<Rightarrow> 'w rcp_sys \<Rightarrow> u16 list \<times> 'w rcp_sys" where
  "device_conf_read_switch_conf_from_flash fe buf len s =
     (case fe_restore fe buf len (rcp_world s) of (b, w) \<Rightarrow> (b, s\<lparr>rcp_world := w\<rparr>))"

section \<open>Initialisation\<close>

definition sem_store :: "string \<Rightarrow> (u32 \<Rightarrow> 'w rcp_sys \<Rightarrow> 'w rcp_sys) \<Rightarrow> 'w rcp_sys \<Rightarrow> 'w rcp_sys" where
  "sem_store name put s = (case gw_rcp_sem_create name 1 s of (_, sid, s) \<Rightarrow> (case sid of None \<Rightarrow> s | Some i \<Rightarrow> put i s))"

definition RCP_Init :: "'w rcp_env \<Rightarrow> 'w flash_env \<Rightarrow> u8 \<Rightarrow> 'w rcp_mod \<Rightarrow> int \<times> 'w rcp_mod" where
  "RCP_Init env fe gucRcpAlarmMaskDef st =
     (let s = (rm_sys st)\<lparr>gucRcpAlarmMask := gucRcpAlarmMaskDef, rcpDevList := replicate MAX_RRCP_SWITCH_TO_MANAGE None,
                rcpRegList := replicate MAX_RTL_REG_TO_ACCESS None\<rparr>
      in case rcp_malloc env s of
           (None, s) \<Rightarrow> (RCP_NO_MEM, st\<lparr>rm_sys := s, rm_fifo := None\<rparr>)
         | (Some _, s) \<Rightarrow>
             (case rcp_malloc env s of
                (None, s) \<Rightarrow> (RCP_NO_MEM, st\<lparr>rm_sys := s, rm_fifo := Some alarm_fifo_init, rm_buf := None\<rparr>)
              | (Some _, s) \<Rightarrow>
                  let (buf, s) = device_conf_read_switch_conf_from_flash fe (replicate (160 * 26) 0) glSwitchCfgFileSizeMaxInFlash s;
                      s = sem_store ''rcp_devlst'' (\<lambda>i s. s\<lparr>semAccessRcpDevList := i\<rparr>) s;
                      s = sem_store ''rcp_chan'' (\<lambda>i s. s\<lparr>semAccessRcpChannel := i\<rparr>) s;
                      s = sem_store ''rcp reglist'' (\<lambda>i s. s\<lparr>semAccessRcpRegList := i\<rparr>) s
                  in (0, \<lparr>rm_sys = s, rm_fifo = Some alarm_fifo_init, rm_buf = Some buf\<rparr>)))"

section \<open>Saving\<close>

definition blk_fill :: "nat \<Rightarrow> u16 list \<Rightarrow> u16 list" where
  "blk_fill base buf = take base buf @ replicate gusSwitchCfgArraySizeMaxInFlash 0 @ drop (base + gusSwitchCfgArraySizeMaxInFlash) buf"

text \<open>The block of addresses.\<close>

definition save_header :: "u16 list \<Rightarrow> u16 list" where
  "save_header buf =
     ((take gusSwitchCfgArraySize gusSwitchCfgRegAddrArray @ drop gusSwitchCfgArraySize (blk_fill 0 buf))
        [gusSwitchCfgArraySizeMax - 1 := of_nat gusSwitchCfgArraySize, gusSwitchCfgArraySizeMax := gusSwitchDataValidFlag])"

text \<open>The registers of one switch; one that cannot be read makes the block
  invalid, and one without a valid value is stored as \<^verbatim>\<open>0xFFFF\<close> by \<^verbatim>\<open>RCP_Read_Reg\<close>. The address is read from the buffer each time.\<close>

fun save_regs :: "'w rcp_env \<Rightarrow> nat \<Rightarrow> nat \<Rightarrow> nat list \<Rightarrow> u16 list \<times> 'w rcp_sys \<Rightarrow> (u16 list \<times> 'w rcp_sys) option" where
  "save_regs env d base [] bs = Some bs"
| "save_regs env d base (j # js) (buf, s) =
     Option.bind (RCP_Read_Reg env d (buf ! j) s) (\<lambda>(r, s).
       save_regs env d base js (case r of Inr v \<Rightarrow> (buf[base + j := v], s) 
         | Inl e \<Rightarrow> ((if e = RCP_UNKOWN then buf[base + j := 0xFFFF] else buf)[base + gusSwitchCfgArraySizeMax := 0], s)))"

definition save_block :: "'w rcp_env \<Rightarrow> nat \<Rightarrow> nat \<Rightarrow> u16 list \<times> 'w rcp_sys \<Rightarrow> (u16 list \<times> 'w rcp_sys) option" where
  "save_block env d i bs = (case bs of (buf, s) \<Rightarrow>
     let base = gusSwitchCfgArraySizeMaxInFlash * i in
     if base + gusSwitchCfgArraySizeMaxInFlash > length buf then None
     else Option.bind (save_regs env d base [0..<gusSwitchCfgArraySize] ((blk_fill base buf)[base + gusSwitchCfgArraySizeMax := gusSwitchDataValidFlag], s))
       (\<lambda>(buf, s). map_option (\<lambda>dev. (buf[base + (gusSwitchCfgArraySizeMax - 1) :=
            (if rd_vlanPortIsolate dev \<noteq> 0 then 1 else 0) OR push_bit 8 (of_nat (rd_deviceId dev))], s)) (rcp_dev_at s d)))"

fun save_blocks :: "'w rcp_env \<Rightarrow> u8 list \<Rightarrow> (nat \<Rightarrow> u16) \<Rightarrow> nat list \<Rightarrow> u16 list \<times> 'w rcp_sys \<Rightarrow> (u16 list \<times> 'w rcp_sys) option" where
  "save_blocks env junk mgtPvid [] bs = Some bs"
| "save_blocks env junk mgtPvid (i # is) (buf, s) =
     Option.bind (RCP_Dev_Is_Exist env junk (mgtPvid i) i s) (\<lambda>(e, s).
       Option.bind (if e \<noteq> 0 then save_block env i i (buf, s) else Some (buf, s)) (save_blocks env junk mgtPvid is))"

definition saveAllRcpDevCfgToFlash :: "'w rcp_env \<Rightarrow> 'w flash_env \<Rightarrow> u8 list \<Rightarrow> (nat \<Rightarrow> u16) \<Rightarrow> 'w rcp_mod \<Rightarrow> (int \<times> 'w rcp_mod) option" where
  "saveAllRcpDevCfgToFlash env fe junk mgtPvid st =
     (case rm_buf st of None \<Rightarrow> Some (RCP_NOT_INITIALIZED, st)
      | Some buf \<Rightarrow>
          Option.bind (save_blocks env junk mgtPvid [1..<MAX_RRCP_SWITCH_TO_MANAGE] (save_header buf, rm_sys st)) (\<lambda>(buf, s).
            Some (device_conf_write_switch_conf_to_flash fe buf glSwitchCfgFileSizeMaxInFlash (st\<lparr>rm_sys := s, rm_buf := Some buf\<rparr>))))"

definition saveOneRcpDevCfgToFlash :: "'w rcp_env \<Rightarrow> 'w flash_env \<Rightarrow> u8 list \<Rightarrow> (nat \<Rightarrow> u16) \<Rightarrow> nat \<Rightarrow> 'w rcp_mod \<Rightarrow> (int \<times> 'w rcp_mod) option" where
  "saveOneRcpDevCfgToFlash env fe junk mgtPvid d st =
     (case rm_buf st of None \<Rightarrow> Some (RCP_NOT_INITIALIZED, st)
      | Some buf \<Rightarrow>
          Option.bind (rcp_dev_at (rm_sys st) d) (\<lambda>rcpDev.
          let p = unat (rd_parentPort rcpDev) in
          Option.bind (RCP_Dev_Is_Exist env junk (mgtPvid p) p (rm_sys st)) (\<lambda>(e, s).
          Option.bind (if e \<noteq> 0 then save_block env d p (save_header buf, s) else Some (save_header buf, s)) (\<lambda>(buf, s).
            Some (device_conf_write_switch_conf_to_flash fe buf glSwitchCfgFileSizeMaxInFlash (st\<lparr>rm_sys := s, rm_buf := Some buf\<rparr>))))))"

section \<open>Restoring\<close>

definition RCP_GetVlanPortIsolate_InEeprom :: "'s rcp_io \<Rightarrow> ('s, u8) rcp" where
  "RCP_GetVlanPortIsolate_InEeprom io = RCP_GetEepromField io 0x28 7 1"

text \<open>The isolation flag from the EEPROM; it is stored when the EEPROM can be read.\<close>

definition restore_isolate :: "'s rcp_io \<Rightarrow> ('s, unit) rcp" where
  "restore_isolate io =
     rcp_bind (RCP_GetVlanPortIsolate_InEeprom io) (\<lambda>data. rcp_dev_mod io (\<lambda>d. d\<lparr>rd_vlanPortIsolate := data\<rparr>))"

fun restore_regs :: "'s rcp_io \<Rightarrow> u16 list \<Rightarrow> nat \<Rightarrow> nat list \<Rightarrow> ('s, unit) rcp" where
  "restore_regs io buf base [] = rcp_ret ()"
| "restore_regs io buf base (j # js) =
     (if base + j < length buf then rcp_then (io_write io (buf ! j) (buf ! (base + j))) (restore_regs io buf base js) else rcp_fault)"

text \<open>The flag is set even when a register cannot be written.\<close>

definition rcp_finally :: "('s, 'a) rcp \<Rightarrow> ('s, unit) rcp \<Rightarrow> ('s, 'a) rcp" where
  "rcp_finally m k s = Option.bind (m s) (\<lambda>(r, s). map_option (\<lambda>(_, s). (r, s)) (k s))"

definition restore_block :: "'s rcp_io \<Rightarrow> u16 list \<Rightarrow> nat \<Rightarrow> ('s, unit) rcp" where
  "restore_block io buf base =
     rcp_finally (restore_regs io buf base [0..<unat (buf ! (gusSwitchCfgArraySizeMax - 1))])
       (rcp_dev_mod io (\<lambda>d. d\<lparr>rd_vlanPortIsolate := (if buf ! (base + (gusSwitchCfgArraySizeMax - 1)) AND 1 \<noteq> 0 then 1 else 0)\<rparr>))"

definition restoreRcpDevCfgFromFlash :: "'s rcp_io \<Rightarrow> u16 list \<Rightarrow> ('s, unit) rcp" where
  "restoreRcpDevCfgFromFlash io buf =
     rcp_bind (rcp_dev_get io (\<lambda>d. (unat (rd_parentPort d), rd_deviceId d))) (\<lambda>(p, dv).
       let base = gusSwitchCfgArraySizeMaxInFlash * p in
       if base + gusSwitchCfgArraySizeMax \<ge> length buf then rcp_fault
       else if buf ! gusSwitchCfgArraySizeMax = gusSwitchDataValidFlag \<and> buf ! (base + gusSwitchCfgArraySizeMax) = gusSwitchDataValidFlag
            \<and> unat (drop_bit 8 (buf ! (base + (gusSwitchCfgArraySizeMax - 1)))) = dv
       then restore_block io buf base
       else restore_isolate io)"

section \<open>Erasing and looking up\<close>

text \<open>For all switches, \<^verbatim>\<open>fileLen\<close> is uninitialised (\<open>junk\<close>).\<close>

definition ereaseRcpDevCfgInFlash :: "'w flash_env \<Rightarrow> nat \<Rightarrow> nat \<Rightarrow> int \<Rightarrow> 'w rcp_mod \<Rightarrow> (int \<times> 'w rcp_mod) option" where
  "ereaseRcpDevCfgInFlash fe junk d allDev st =
     Option.bind (rm_buf st) (\<lambda>buf.
       if allDev = 1
       then (let buf = replicate (length buf) 0
             in Some (device_conf_write_switch_conf_to_flash fe buf junk (st\<lparr>rm_buf := Some buf\<rparr>)))
       else Option.bind (rcp_dev_at (rm_sys st) d) (\<lambda>rcpDev.
         let i = gusSwitchCfgArraySizeMaxInFlash * unat (rd_parentPort rcpDev) + gusSwitchCfgArraySizeMax in
         if i \<ge> length buf then None
         else if buf ! i = gusSwitchDataValidFlag
         then (let buf = buf[i := 0]
               in Some (device_conf_write_switch_conf_to_flash fe buf glSwitchCfgFileSizeMaxInFlash (st\<lparr>rm_buf := Some buf\<rparr>)))
         else Some (0, st)))"

definition flash_at :: "u16 list \<Rightarrow> rcp_dev \<Rightarrow> nat \<Rightarrow> u16 option" where
  "flash_at buf dev k =
     (let i = gusSwitchCfgArraySizeMaxInFlash * unat (rd_parentPort dev) + k in if i < length buf then Some (buf ! i) else None)"

definition IS_Flash_Data_Valid :: "u16 list \<Rightarrow> rcp_dev \<Rightarrow> int option" where
  "IS_Flash_Data_Valid buf dev = map_option (\<lambda>v. if v = gusSwitchDataValidFlag then 1 else 0) (flash_at buf dev gusSwitchCfgArraySizeMax)"

definition getRegValueInFlash :: "u16 list \<Rightarrow> rcp_dev \<Rightarrow> u16 \<Rightarrow> (int + u16) option" where
  "getRegValueInFlash buf dev usRegAddr =
     (let (pAddrBuf, usLen) = (if buf ! gusSwitchCfgArraySizeMax = gusSwitchDataValidFlag
            then (buf, unat (buf ! (gusSwitchCfgArraySizeMax - 1)))
            else (gusSwitchCfgRegAddrArray, gusSwitchCfgArraySize))
      in Option.bind (flash_at buf dev gusSwitchCfgArraySizeMax) (\<lambda>v.
         if v = gusSwitchDataValidFlag
         then (case List.find (\<lambda>i. pAddrBuf ! i = usRegAddr) [0..<min usLen (length pAddrBuf)] of
                 Some i \<Rightarrow> map_option Inr (flash_at buf dev i)
               | None \<Rightarrow> if usLen > length pAddrBuf then None else Some (Inl RCP_NOT_FOUND))
         else Some (Inl RCP_NOT_INITIALIZED)))"

text \<open>An entry of the block of a switch, when the address block and the block of the switch are valid.\<close>

definition flash_info :: "u16 list \<Rightarrow> rcp_dev \<Rightarrow> (u16 \<Rightarrow> 'a) \<Rightarrow> (int + 'a) option" where
  "flash_info buf dev f =
     (if buf ! gusSwitchCfgArraySizeMax = gusSwitchDataValidFlag
      then Option.bind (flash_at buf dev gusSwitchCfgArraySizeMax) (\<lambda>v.
        if v = gusSwitchDataValidFlag then map_option (\<lambda>x. Inr (f x)) (flash_at buf dev (gusSwitchCfgArraySizeMax - 1))
        else Some (Inl RCP_NOT_INITIALIZED))
      else Some (Inl RCP_NOT_INITIALIZED))"

definition RCP_GetVlanPortIsolate_InFlash :: "u16 list \<Rightarrow> rcp_dev \<Rightarrow> (int + u8) option" where
  "RCP_GetVlanPortIsolate_InFlash buf dev = flash_info buf dev (\<lambda>x. if x AND 1 \<noteq> 0 then 1 else 0)"

definition RCP_GetDeviceID_InFlash :: "u16 list \<Rightarrow> rcp_dev \<Rightarrow> (int + u16) option" where
  "RCP_GetDeviceID_InFlash buf dev = flash_info buf dev (drop_bit 8)"

text \<open>The pseudo device 0 stands for a switch that is not attached; its type is the one in the flash.\<close>

definition dev_for_flash :: "'w rcp_env \<Rightarrow> nat \<Rightarrow> 'w rcp_sys \<Rightarrow> bool \<times> 'w rcp_sys" where
  "dev_for_flash env parentPort s =
     (case rcpDevList s ! 0 of
        Some _ \<Rightarrow> (True, s)
      | None \<Rightarrow> (case rcp_malloc env s of
            (None, s) \<Rightarrow> (False, s)
          | (Some _, s) \<Rightarrow>
              let s = s\<lparr>rcpDevList := (rcpDevList s)[0 := Some rcp_dev_zero]\<rparr> in
              (True, if vlan_dot_1q_enable s
                 then (case rcp_pvid_get env parentPort s of (v, s) \<Rightarrow> rcp_dev_upd 0 (\<lambda>d. case v of None \<Rightarrow> d | Some vid \<Rightarrow> d\<lparr>rd_mgtVid := vid\<rparr>) s)
                 else rcp_dev_upd 0 (\<lambda>d. d\<lparr>rd_mgtVid := 0\<rparr>) s)))"

definition dev_type :: "u16 \<Rightarrow> rcp_dev \<Rightarrow> rcp_dev" where
  "dev_type data d =
     (if unat data = GH1516 then d\<lparr>rd_deviceId := GH1516, rd_numOfPorts := 16\<rparr>
      else if unat data = GH1524 then d\<lparr>rd_deviceId := GH1524, rd_numOfPorts := 24\<rparr>
      else if unat data = GH1532 then d\<lparr>rd_deviceId := GH1532, rd_numOfPorts := 32\<rparr> else d)"

definition RCP_Get_Dev_Ptr_For_Flash :: "'w rcp_env \<Rightarrow> nat \<Rightarrow> 'w rcp_mod \<Rightarrow> (nat option \<times> 'w rcp_mod) option" where
  "RCP_Get_Dev_Ptr_For_Flash env parentPort st =
     (case dev_for_flash env parentPort (rm_sys st) of (ok, s) \<Rightarrow>
      if \<not> ok then Some (None, st\<lparr>rm_sys := s\<rparr>)
      else let s = rcp_dev_upd 0 (\<lambda>d. d\<lparr>rd_parentPort := of_nat parentPort, rd_paSlot := 1, rd_paPort := of_nat parentPort,
                     rd_deviceId := GH1508, rd_numOfPorts := 8\<rparr>) s
           in Option.bind (rm_buf st) (\<lambda>buf. Option.bind (rcp_dev_at s 0) (\<lambda>dev. Option.bind (RCP_GetDeviceID_InFlash buf dev) (\<lambda>r.
                Some (Some 0, st\<lparr>rm_sys := (case r of Inl _ \<Rightarrow> s | Inr data \<Rightarrow> rcp_dev_upd 0 (dev_type data) s)\<rparr>)))))"

section \<open>The saved registers\<close>

definition cfg_low :: "u16 list" where
  "cfg_low = take 58 gusSwitchCfgRegAddrArray"

lemma cfg_split: "gusSwitchCfgRegAddrArray = cfg_low @ map of_nat [0x031D..<0x037F]" "length cfg_low = 58"
  by (simp_all add: cfg_low_def gusSwitchCfgRegAddrArray_def)

lemma cfg_low_list: "cfg_low = [0x0200, 0x0300, 0x0307, 0x0308, 0x030B, 0x0400, 0x0401, 0x0402, 0x0607, 0x060A, 0x060B, 0x060C, 0x060D, 0x060E, 0x060F, 0x0610,
      0x0611, 0x0612, 0x0613, 0x0614, 0x0615, 0x0608, 0x0609, 0x0219, 0x021A, 0x021B, 0x021C, 0x021D, 0x021E, 0x020A, 0x020B, 0x020C,
      0x020D, 0x020E, 0x020F, 0x0210, 0x0211, 0x0212, 0x0213, 0x0214, 0x0215, 0x0301, 0x0302, 0x030C, 0x030D, 0x030E, 0x030F, 0x0310,
      0x0311, 0x0312, 0x0313, 0x0314, 0x0315, 0x0316, 0x0317, 0x0319, 0x031A, 0x031B]"
  by (simp add: cfg_low_def gusSwitchCfgRegAddrArray_def)

lemma cfg_low_facts: "distinct cfg_low" "\<forall>a\<in>set cfg_low. (unat a < 0x031D \<or> 0x037F \<le> unat a) \<and> a \<notin> insert RT8326_RRCP_AUTHKEY sw_ctl"
  unfolding cfg_low_list by (simp_all add: sw_ctl_def)

lemma cfg_high_facts:
  "distinct (map of_nat [0x031D..<0x037F] :: u16 list)" "\<forall>a\<in>set (map of_nat [0x031D..<0x037F]). 0x031D \<le> unat (a :: u16) \<and> unat a < 0x037F"
proof -
  have u: "n < 0x037F \<Longrightarrow> unat (of_nat n :: u16) = n" for n by (simp add: unat_of_nat take_bit_nat_eq_self)
  have "inj_on (of_nat :: nat \<Rightarrow> u16) {0x031D..<0x037F}"
    by (rule inj_on_inverseI [where g = unat]) (use u in auto)
  then show "distinct (map of_nat [0x031D..<0x037F] :: u16 list)" by (simp add: distinct_map del: upt_rec_numeral)
  show "\<forall>a\<in>set (map of_nat [0x031D..<0x037F]). 0x031D \<le> unat (a :: u16) \<and> unat a < 0x037F" using u by (auto simp del: upt_rec_numeral)
qed

lemma cfg_addresses: "length gusSwitchCfgRegAddrArray = 156" "distinct gusSwitchCfgRegAddrArray"
  "\<forall>a\<in>set gusSwitchCfgRegAddrArray. a \<notin> insert RT8326_RRCP_AUTHKEY sw_ctl"
proof -
  show "length gusSwitchCfgRegAddrArray = 156" unfolding cfg_split(1) length_append cfg_split(2) by (simp del: upt_rec_numeral)
  show "distinct gusSwitchCfgRegAddrArray" unfolding cfg_split(1) distinct_append
    using cfg_low_facts cfg_high_facts by (fastforce simp del: upt_rec_numeral)
  have "a \<notin> insert RT8326_RRCP_AUTHKEY sw_ctl" if "0x031D \<le> unat a" "unat a < 0x037F" for a :: u16
    using that by (auto simp: sw_ctl_def)
  then show "\<forall>a\<in>set gusSwitchCfgRegAddrArray. a \<notin> insert RT8326_RRCP_AUTHKEY sw_ctl"
    unfolding cfg_split(1) set_append using cfg_low_facts(2) cfg_high_facts(2) by blast
qed

lemma cfg_size: "gusSwitchCfgArraySize = 156"
  by (simp add: gusSwitchCfgArraySize_def cfg_addresses(1) gusSwitchCfgArraySizeMax_def)

section \<open>Saving through the link\<close>

lemma save_regs_ok:
  assumes "rcp_link_ok env vw good d s" "set js \<subseteq> {..<156}" "distinct js" "160 \<le> base" "base + 160 \<le> length buf"
    "\<forall>j<156. buf ! j = gusSwitchCfgRegAddrArray ! j"
  shows "\<exists>buf' s'. save_regs env d base js (buf, s) = Some (buf', s') \<and> rcp_link_ok env vw good d s' \<and> rcp_view vw d s' = rcp_view vw d s \<and>
    length buf' = length buf \<and> (\<forall>j\<in>set js. buf' ! (base + j) = sw_regs (rcp_view vw d s) (gusSwitchCfgRegAddrArray ! j)) \<and>
    (\<forall>i. i \<notin> (\<lambda>j. base + j) ` set js \<longrightarrow> buf' ! i = buf ! i)"
  using assms
proof (induction js arbitrary: buf s)
  case (Cons j js)
  let ?a = "gusSwitchCfgRegAddrArray ! j"
  have j: "j < 156" "buf ! j = ?a" using Cons.prems by auto
  from RCP_Read_Reg_ok [OF Cons.prems(1), of ?a] obtain s1 where s1: "RCP_Read_Reg env d ?a s = Some (Inr (sw_regs (rcp_view vw d s) ?a), s1)"
    "rcp_link_ok env vw good d s1" "rcp_view vw d s1 = rcp_view vw d s" by blast
  let ?b = "buf[base + j := sw_regs (rcp_view vw d s) ?a]"
  have p: "set js \<subseteq> {..<156}" "distinct js" "160 \<le> base" "base + 160 \<le> length ?b" "\<forall>j<156. ?b ! j = gusSwitchCfgRegAddrArray ! j"
    using Cons.prems by auto
  from Cons.IH [OF s1(2) p] obtain buf' s' where r: "save_regs env d base js (?b, s1) = Some (buf', s')" "rcp_link_ok env vw good d s'"
    "rcp_view vw d s' = rcp_view vw d s1" "length buf' = length ?b" "\<forall>j\<in>set js. buf' ! (base + j) = sw_regs (rcp_view vw d s1) (gusSwitchCfgRegAddrArray ! j)"
    "\<forall>i. i \<notin> (\<lambda>j. base + j) ` set js \<longrightarrow> buf' ! i = ?b ! i" by blast
  have "base + j \<notin> (\<lambda>j. base + j) ` set js" using Cons.prems(3) by auto
  then have "buf' ! (base + j) = ?b ! (base + j)" using r(6) by blast
  moreover have "base + j < length buf" using Cons.prems(5) j(1) by simp
  ultimately have bj: "buf' ! (base + j) = sw_regs (rcp_view vw d s) ?a" by simp
  have "save_regs env d base (j # js) (buf, s) = Some (buf', s')" using s1(1) r(1) j(2) by simp
  moreover have "\<forall>i. i \<notin> (\<lambda>j. base + j) ` set (j # js) \<longrightarrow> buf' ! i = buf ! i" using r(6) by auto
  moreover have "\<forall>k\<in>set (j # js). buf' ! (base + k) = sw_regs (rcp_view vw d s) (gusSwitchCfgRegAddrArray ! k)"
    using r(5) bj s1(3) by auto
  ultimately show ?case using r(2,3,4) s1(3) by auto
qed simp

lemma blk_fill_simps:
  assumes "base + 160 \<le> length buf"
  shows "length (blk_fill base buf) = length buf" "i < base \<or> base + 160 \<le> i \<Longrightarrow> blk_fill base buf ! i = buf ! i"
  using assms by (auto simp: blk_fill_def flash_sizes nth_append)

lemma save_header_simps:
  assumes "160 \<le> length buf"
  shows "length (save_header buf) = length buf" "i < 156 \<Longrightarrow> save_header buf ! i = gusSwitchCfgRegAddrArray ! i"
    "save_header buf ! 158 = 156" "save_header buf ! 159 = gusSwitchDataValidFlag" "160 \<le> i \<Longrightarrow> save_header buf ! i = buf ! i"
  using assms blk_fill_simps [of 0 buf] by (simp_all add: save_header_def cfg_size cfg_addresses(1) flash_sizes nth_append)

lemma save_block_ok:
  assumes l: "rcp_link_ok env vw good d s" and dev: "rcp_dev_at s d = Some dev" "rd_deviceId dev < 256"
    and b: "1 \<le> i" "160 * i + 160 \<le> length buf" "\<forall>j<156. buf ! j = gusSwitchCfgRegAddrArray ! j"
  shows "\<exists>buf' s'. save_block env d i (buf, s) = Some (buf', s') \<and> rcp_link_ok env vw good d s' \<and> rcp_view vw d s' = rcp_view vw d s \<and>
    length buf' = length buf \<and> (\<forall>j<156. buf' ! (160 * i + j) = sw_regs (rcp_view vw d s) (gusSwitchCfgRegAddrArray ! j)) \<and>
    buf' ! (160 * i + 158) = (if rd_vlanPortIsolate dev \<noteq> 0 then 1 else 0) OR push_bit 8 (of_nat (rd_deviceId dev)) \<and>
    buf' ! (160 * i + 159) = gusSwitchDataValidFlag \<and> (\<forall>k. k < 160 * i \<or> 160 * i + 160 \<le> k \<longrightarrow> buf' ! k = buf ! k)"
proof -
  let ?base = "160 * i"
  let ?b = "(blk_fill ?base buf)[?base + 159 := gusSwitchDataValidFlag]"
  have p: "set [0..<156] \<subseteq> {..<156}" "distinct [0..<156]" "160 \<le> ?base" "?base + 160 \<le> length ?b" "\<forall>j<156. ?b ! j = gusSwitchCfgRegAddrArray ! j"
    using b blk_fill_simps [OF b(2)] by auto
  from save_regs_ok [OF l p] obtain buf' s' where r: "save_regs env d ?base [0..<156] (?b, s) = Some (buf', s')" "rcp_link_ok env vw good d s'"
    "rcp_view vw d s' = rcp_view vw d s" "length buf' = length ?b" "\<forall>j\<in>set [0..<156]. buf' ! (?base + j) = sw_regs (rcp_view vw d s) (gusSwitchCfgRegAddrArray ! j)"
    "\<forall>k. k \<notin> (\<lambda>j. ?base + j) ` set [0..<156] \<longrightarrow> buf' ! k = ?b ! k" by blast
  from r(2) obtain dev' where d': "rcp_dev_at s' d = Some dev'" by (rule rcp_link_okE)
  have dd: "dev' = dev" using r(3) dev(1) d' by (auto simp: rcp_view_def dest: arg_cong [where f = sw_dev])
  let ?x = "(if rd_vlanPortIsolate dev \<noteq> 0 then 1 else 0) OR push_bit 8 (of_nat (rd_deviceId dev)) :: u16"
  let ?b' = "buf'[?base + 158 := ?x]"
  have n: "?base + 160 \<le> length buf" "length buf' = length buf" using b(2) r(4) blk_fill_simps(1) [OF b(2)] by simp_all
  have "save_block env d i (buf, s) = Some (?b', s')"
    using r(1) d' dd b(2) by (simp add: save_block_def Let_def flash_sizes cfg_size del: upt_rec_numeral)
  moreover have "\<forall>j<156. ?b' ! (?base + j) = sw_regs (rcp_view vw d s) (gusSwitchCfgRegAddrArray ! j)" using r(5) by simp
  moreover have "?b' ! (?base + 158) = ?x" using n by simp
  moreover have "?base + 159 \<notin> (\<lambda>j. ?base + j) ` set [0..<156]" by auto
  then have "?b' ! (?base + 159) = gusSwitchDataValidFlag" using r(6) n blk_fill_simps(1) [OF b(2)] by simp
  moreover have "?b' ! k = buf ! k" if k: "k < ?base \<or> ?base + 160 \<le> k" for k
  proof -
    have "k \<notin> (\<lambda>j. ?base + j) ` set [0..<156]" using k by auto
    then have "buf' ! k = ?b ! k" using r(6) by blast
    then show ?thesis using k blk_fill_simps(2) [OF b(2) k] by auto
  qed
  ultimately show ?thesis using r(2,3) n by (intro exI [of _ ?b'] exI [of _ s'] conjI allI impI) auto
qed

section \<open>Restoring on a switch\<close>

lemma restore_regs_switch:
  assumes "\<forall>j\<in>set js. buf ! j \<notin> insert RT8326_RRCP_AUTHKEY sw_ctl \<and> base + j < length buf"
  shows "restore_regs sw_io buf base js v = Some (Inr (), fold (\<lambda>j. sw_upd (buf ! j) (buf ! (base + j))) js v)"
  using assms by (induction js arbitrary: v) (auto simp: rcp_ret_def rcp_then_def sw_write_plain)

lemma fold_upd_other: "a \<notin> (!) buf ` set js \<Longrightarrow> sw_regs (fold (\<lambda>j. sw_upd (buf ! j) (buf ! (base + j))) js v) a = sw_regs v a"
  by (induction js arbitrary: v) auto

lemma fold_upd_same:
  assumes "distinct (map ((!) buf) js)" "j \<in> set js"
  shows "sw_regs (fold (\<lambda>j. sw_upd (buf ! j) (buf ! (base + j))) js v) (buf ! j) = buf ! (base + j)"
  using assms
proof (induction js arbitrary: v)
  case (Cons k js)
  show ?case
  proof (cases "j = k")
    case True
    then have "buf ! j \<notin> (!) buf ` set js" using Cons.prems(1) by auto
    from fold_upd_other [OF this] show ?thesis using True by simp
  qed (use Cons in auto)
qed simp

lemma fold_upd_dev: "sw_dev (fold (\<lambda>j. sw_upd (buf ! j) (buf ! (base + j))) js v) = sw_dev v"
  by (induction js arbitrary: v) auto

lemma rcp_sim_finally [rcp_sims]:
  assumes "rcp_sim ok view m f" "rcp_sim ok view k g"
  shows "rcp_sim ok view (rcp_finally m k) (rcp_finally f g)"
  unfolding rcp_sim_def
proof (intro allI impI)
  fix s r v assume o: "ok s" and e: "rcp_finally f g (view s) = Some (r, v)"
  then obtain u q where f: "f (view s) = Some (r, u)" and g: "g u = Some (q, v)"
    by (auto simp: rcp_finally_def bind_eq_Some_conv)
  from rcp_simD [OF assms(1) o f] obtain s1 where s1: "m s = Some (r, s1)" "ok s1" "view s1 = u" by blast
  from rcp_simD [OF assms(2) s1(2)] g s1(3) obtain s2 where "k s1 = Some (q, s2)" "ok s2" "view s2 = v" by blast
  then show "\<exists>s'. rcp_finally m k s = Some (r, s') \<and> ok s' \<and> view s' = v" using s1(1) by (auto simp: rcp_finally_def)
qed

lemma rcp_sim_fault [rcp_sims]: "rcp_sim ok view rcp_fault rcp_fault"
  by (simp add: rcp_sim_def rcp_fault_def)

lemma keeps_isolate: "keeps_link (\<lambda>d. d\<lparr>rd_vlanPortIsolate := x\<rparr>)"
  by (simp add: keeps_link_def rd_link_def)

context reg_access
begin

lemma restore_regs_sim: "rcp_sim ok view (restore_regs io buf base js) (restore_regs sw_io buf base js)"
proof (induction js)
  case (Cons j js)
  show ?case unfolding restore_regs.simps by (intro rcp_sims access_sims Cons.IH)
qed (simp add: rcp_sim_pure)

lemma restore_sim: "rcp_sim ok view (restoreRcpDevCfgFromFlash io buf) (restoreRcpDevCfgFromFlash sw_io buf)"
  unfolding restoreRcpDevCfgFromFlash_def restore_block_def restore_isolate_def RCP_GetVlanPortIsolate_InEeprom_def Let_def
  by (intro field_sims rcp_sim_finally rcp_sim_fault restore_regs_sim keeps_isolate)

end

section \<open>A switch that is saved and restored\<close>

lemma restore_switch:
  assumes p: "unat (rd_parentPort (sw_dev v)) = i" "160 * i + 160 \<le> length buf" "1 \<le> i"
    and h: "\<forall>j<156. buf ! j = gusSwitchCfgRegAddrArray ! j" "buf ! 158 = 156" "buf ! 159 = gusSwitchDataValidFlag"
    and b: "buf ! (160 * i + 159) = gusSwitchDataValidFlag" "unat (drop_bit 8 (buf ! (160 * i + 158))) = rd_deviceId (sw_dev v)"
  shows "\<exists>v'. restoreRcpDevCfgFromFlash sw_io buf v = Some (Inr (), v') \<and>
    (\<forall>j<156. sw_regs v' (gusSwitchCfgRegAddrArray ! j) = buf ! (160 * i + j)) \<and>
    (\<forall>a. a \<notin> set gusSwitchCfgRegAddrArray \<longrightarrow> sw_regs v' a = sw_regs v a) \<and>
    rd_vlanPortIsolate (sw_dev v') = (if buf ! (160 * i + 158) AND 1 \<noteq> 0 then 1 else 0)"
proof -
  let ?w = "fold (\<lambda>j. sw_upd (buf ! j) (buf ! (160 * i + j))) [0..<156] v"
  have addr: "map ((!) buf) [0..<156] = gusSwitchCfgRegAddrArray"
    using h(1) cfg_addresses(1) by (intro nth_equalityI) auto
  have "\<forall>j\<in>set [0..<156]. buf ! j \<notin> insert RT8326_RRCP_AUTHKEY sw_ctl \<and> 160 * i + j < length buf"
  proof
    fix j assume j: "j \<in> set [0..<156::nat]"
    then have "buf ! j \<in> set gusSwitchCfgRegAddrArray" using h(1) cfg_addresses(1) by auto
    then show "buf ! j \<notin> insert RT8326_RRCP_AUTHKEY sw_ctl \<and> 160 * i + j < length buf" using cfg_addresses(3) p(2) j by auto
  qed
  from restore_regs_switch [OF this, of v] have w: "restore_regs sw_io buf (160 * i) [0..<156] v = Some (Inr (), ?w)" .
  have "sw_regs ?w (gusSwitchCfgRegAddrArray ! j) = buf ! (160 * i + j)" if "j < 156" for j
    using fold_upd_same [of buf "[0..<156]" j "160 * i" v] addr cfg_addresses(2) h(1) that by simp
  moreover have "sw_regs ?w a = sw_regs v a" if "a \<notin> set gusSwitchCfgRegAddrArray" for a
  proof -
    have "(!) buf ` set [0..<156] = set gusSwitchCfgRegAddrArray" using arg_cong [OF addr, of set] by simp
    with that show ?thesis using fold_upd_other [of a buf "[0..<156]" "160 * i" v] by simp
  qed
  moreover have u: "unat (156 :: u16) = 156" by simp
  have "restoreRcpDevCfgFromFlash sw_io buf v = Some (Inr (), ?w\<lparr>sw_dev := (sw_dev ?w)\<lparr>rd_vlanPortIsolate := (if buf ! (160 * i + 158) AND 1 \<noteq> 0 then 1 else 0)\<rparr>\<rparr>)"
    using w p h b by (simp add: restoreRcpDevCfgFromFlash_def restore_block_def rcp_finally_def flash_sizes Let_def del: upt_rec_numeral)
  ultimately show ?thesis by (intro exI [of _ "?w\<lparr>sw_dev := (sw_dev ?w)\<lparr>rd_vlanPortIsolate := (if buf ! (160 * i + 158) AND 1 \<noteq> 0 then 1 else 0)\<rparr>\<rparr>"]) simp
qed

end
