(* ===== verification/Rcp_Vlan.thy ===== *)
theory Rcp_Vlan
  imports Rcp_Flash
begin

text \<open>
  The VLANs of an attached switch (\<^verbatim>\<open>apps/rcp_gwd.c\<close>, lines 3530 to 4205 and 5621 to 6199): a table of 32
  entries, each with a list of ports and a VLAN id, which the device data hold a copy of; the
  isolation of the ports from each other, and the port lists that the commands and SNMP set.
\<close>

section \<open>Entries of the VLAN table\<close>

definition RT8326_VLAN_PORT_MEMBER :: "nat \<Rightarrow> nat \<Rightarrow> u16" where
  "RT8326_VLAN_PORT_MEMBER e p = of_nat (0x031D + 3 * e + p)"

definition RT8326_VLAN_VID :: "nat \<Rightarrow> u16" where "RT8326_VLAN_VID e = of_nat (0x031F + 3 * e)"

abbreviation RT8326_VLAN_PVID_CTL_BASE :: u16 where "RT8326_VLAN_PVID_CTL_BASE \<equiv> 0x037D"
abbreviation RT8326_VLAN_PRI_BASE :: u16 where "RT8326_VLAN_PRI_BASE \<equiv> 0x0319"
abbreviation RCP_CONFIG_2_EEPROM :: u32 where "RCP_CONFIG_2_EEPROM \<equiv> RCP_CONFIG_EEPROM"

text \<open>\<^verbatim>\<open>rrcp_dev->vlanPort[vlanum]\<close> and \<^verbatim>\<open>rrcp_dev->vlanVid[vlanum]\<close>; an index beyond the arrays is a fault.\<close>

definition vlan_port_cached :: "'s rcp_io \<Rightarrow> nat \<Rightarrow> ('s, u32) rcp" where
  "vlan_port_cached io vlanum =
     rcp_bind (rcp_dev_get io rd_vlanPort) (\<lambda>l. if vlanum < length l then rcp_ret (l ! vlanum) else rcp_fault)"

definition vlan_port_put :: "'s rcp_io \<Rightarrow> nat \<Rightarrow> u32 \<Rightarrow> ('s, unit) rcp" where
  "vlan_port_put io vlanum data = rcp_dev_mod io (\<lambda>d. d\<lparr>rd_vlanPort := (rd_vlanPort d)[vlanum := data]\<rparr>)"

definition vlan_vid_put :: "'s rcp_io \<Rightarrow> nat \<Rightarrow> u16 \<Rightarrow> ('s, unit) rcp" where
  "vlan_vid_put io vlanum data = rcp_dev_mod io (\<lambda>d. d\<lparr>rd_vlanVid := (rd_vlanVid d)[vlanum := data]\<rparr>)"

text \<open>
  The value is stored after the first register, and again after the second of a switch with more than 16 ports:
  \<open>put\<close> is what is done with it.
\<close>

definition vlan_port_to :: "'s rcp_io \<Rightarrow> nat \<Rightarrow> (u32 \<Rightarrow> ('s, unit) rcp) \<Rightarrow> ('s, u32) rcp" where
  "vlan_port_to io vlanum put =
     rcp_bind (io_read io (RT8326_VLAN_PORT_MEMBER vlanum 0)) (\<lambda>tmpdata1.
     rcp_then (put (ucast tmpdata1))
     (rcp_bind (rcp_dev_get io rd_numOfPorts) (\<lambda>n.
        if n > 16
        then rcp_bind (io_read io (RT8326_VLAN_PORT_MEMBER vlanum 1)) (\<lambda>tmpdata2.
               let data = push_bit 16 (ucast tmpdata2) OR ucast tmpdata1 in rcp_then (put data) (rcp_ret data))
        else rcp_ret (ucast tmpdata1))))"

definition RCP_GetVlanPort :: "'s rcp_io \<Rightarrow> nat \<Rightarrow> ('s, u32) rcp" where
  "RCP_GetVlanPort io vlanum = vlan_port_to io vlanum (\<lambda>_. rcp_ret ())"

text \<open>
  A list with a port from 8 to 15 looks for its EEPROM byte at the register of entry \<open>vlanum + 8\<close>. With the EEPROM
  alone, the copy in the device data changes and the register does not.
\<close>

definition RCP_SetVlanPort :: "'s rcp_io \<Rightarrow> nat \<Rightarrow> u32 \<Rightarrow> u32 \<Rightarrow> ('s, unit) rcp" where
  "RCP_SetVlanPort io vlanum data flag =
     (if vlanum > 31 then rcp_err RCP_BAD_VALUE
      else rcp_then
        (if flag AND RCP_CONFIG_REGISTER = 0x01
         then rcp_bind (rcp_dev_get io rd_numOfPorts) (\<lambda>n.
                if n \<le> 16 then io_write io (RT8326_VLAN_PORT_MEMBER vlanum 0) (ucast data)
                else rcp_then (io_write io (RT8326_VLAN_PORT_MEMBER vlanum 0) (ucast data))
                       (io_write io (RT8326_VLAN_PORT_MEMBER vlanum 1) (ucast (drop_bit 16 data))))
         else rcp_ret ())
        (rcp_then
          (if flag AND RCP_CONFIG_EEPROM = 0x02
           then if drop_bit 8 (data AND 0xff00) = 0
                then rcp_bind (ee_place (RT8326_VLAN_PORT_MEMBER vlanum 0) 0 8) (\<lambda>(eeAddr, eeOffset, eeLength).
                       rcp_then (RCP_SetEepromField io eeAddr eeOffset eeLength (ucast data)) (RCP_SetEepromValue io (eeAddr + 1) 0))
                else rcp_bind (ee_place (RT8326_VLAN_PORT_MEMBER vlanum 24) 8 8) (\<lambda>(eeAddr, eeOffset, eeLength).
                       rcp_then (RCP_SetEepromValue io (eeAddr - 1) (ucast (data AND 0xff)))
                         (RCP_SetEepromField io eeAddr eeOffset eeLength (ucast (drop_bit 8 (data AND 0xff00)))))
           else rcp_ret ())
          (vlan_port_put io vlanum data)))"

text \<open>The copy in the device data is asked, not the switch.\<close>

definition RCP_GetVlanPortExist :: "'s rcp_io \<Rightarrow> nat \<Rightarrow> nat \<Rightarrow> nat \<Rightarrow> ('s, u16) rcp" where
  "RCP_GetVlanPortExist io slot port vlanum =
     rcp_bind (phy_of io slot port) (\<lambda>phyPort. rcp_bind (vlan_port_cached io vlanum) (\<lambda>v.
       rcp_ret (if drop_bit phyPort (push_bit phyPort 1 AND v) = 1 then 1 else 0)))"

definition RCP_SetVlanPortAdd :: "'s rcp_io \<Rightarrow> nat \<Rightarrow> nat \<Rightarrow> nat \<Rightarrow> u32 \<Rightarrow> ('s, unit) rcp" where
  "RCP_SetVlanPortAdd io slot port vlanum flag =
     rcp_bind (phy_of io slot port) (\<lambda>phyPort. rcp_bind (RCP_GetVlanPort io vlanum) (\<lambda>portlist.
       RCP_SetVlanPort io vlanum (portlist OR push_bit phyPort 1) flag))"

definition RCP_SetVlanPortDelete :: "'s rcp_io \<Rightarrow> nat \<Rightarrow> nat \<Rightarrow> nat \<Rightarrow> u32 \<Rightarrow> ('s, unit) rcp" where
  "RCP_SetVlanPortDelete io slot port vlanum flag =
     rcp_bind (phy_of io slot port) (\<lambda>phyPort. rcp_bind (RCP_GetVlanPort io vlanum) (\<lambda>portlist.
       RCP_SetVlanPort io vlanum (portlist AND NOT (push_bit phyPort 1)) flag))"

definition RCP_GetVlanVID :: "'s rcp_io \<Rightarrow> nat \<Rightarrow> ('s, u16) rcp" where
  "RCP_GetVlanVID io vlanum = RCP_GetRegField io (RT8326_VLAN_VID vlanum) 0 12"

definition RCP_SetVlanVID :: "'s rcp_io \<Rightarrow> nat \<Rightarrow> u16 \<Rightarrow> u32 \<Rightarrow> ('s, unit) rcp" where
  "RCP_SetVlanVID io vlanum data flag =
     (if vlanum > 31 then rcp_err RCP_BAD_VALUE
      else rcp_then
        (if flag AND RCP_CONFIG_REGISTER = 0x01 then RCP_SetRegisterField io (RT8326_VLAN_VID vlanum) 0 12 data else rcp_ret ())
        (rcp_then
          (if flag AND RCP_CONFIG_EEPROM = 0x02
           then if drop_bit 8 (data AND 0xff00) = 0
                then rcp_bind (ee_place (RT8326_VLAN_VID vlanum) 0 8) (\<lambda>(eeAddr, eeOffset, eeLength).
                       rcp_then (RCP_SetEepromField io eeAddr eeOffset eeLength (ucast data)) (RCP_SetEepromValue io (eeAddr + 1) 0))
                else rcp_bind (ee_place (RT8326_VLAN_VID vlanum) 8 8) (\<lambda>(eeAddr, eeOffset, eeLength).
                       rcp_then (RCP_SetEepromValue io (eeAddr - 1) (ucast (data AND 0xff)))
                         (RCP_SetEepromField io eeAddr eeOffset eeLength (ucast (drop_bit 8 (data AND 0xff00)))))
           else rcp_ret ())
          (vlan_vid_put io vlanum data)))"

section \<open>VLAN ids\<close>

text \<open>The entry of an id in the copy; an id without an entry is given entry 0, without an error.\<close>

definition vid_index :: "u16 list \<Rightarrow> u16 \<Rightarrow> nat option" where
  "vid_index vids vid = (let i = first_idx (\<lambda>v. v = vid) vids in if i < length vids then Some i else None)"

definition RCP_GetVlanExist :: "'s rcp_io \<Rightarrow> u16 \<Rightarrow> ('s, u16) rcp" where
  "RCP_GetVlanExist io vid = rcp_dev_get io (\<lambda>d. case vid_index (rd_vlanVid d) vid of Some _ \<Rightarrow> 1 | None \<Rightarrow> 0)"

definition RCP_GetVlanNumFromVID :: "'s rcp_io \<Rightarrow> u16 \<Rightarrow> ('s, nat) rcp" where
  "RCP_GetVlanNumFromVID io vid = rcp_dev_get io (\<lambda>d. case vid_index (rd_vlanVid d) vid of Some i \<Rightarrow> i | None \<Rightarrow> 0)"

text \<open>The first free entry after entry 0, or 0.\<close>

definition RCP_GetVlanIdleNum :: "'s rcp_io \<Rightarrow> ('s, nat) rcp" where
  "RCP_GetVlanIdleNum io = rcp_dev_get io (\<lambda>d. case List.find (\<lambda>i. rd_vlanVid d ! i = 0) [1..<MAX_RCP_VLAN_NUM] of Some i \<Rightarrow> i | None \<Rightarrow> 0)"

text \<open>The count is added to what \<^verbatim>\<open>totalnum\<close> holds.\<close>

definition RCP_GetVlanExistNum :: "'s rcp_io \<Rightarrow> u16 \<Rightarrow> ('s, u16) rcp" where
  "RCP_GetVlanExistNum io totalnum = rcp_dev_get io (\<lambda>d. totalnum + of_nat (length (filter (\<lambda>v. v \<noteq> 0) (rd_vlanVid d))))"

definition RCP_GetVlanPVID :: "'s rcp_io \<Rightarrow> nat \<Rightarrow> nat \<Rightarrow> ('s, u16) rcp" where
  "RCP_GetVlanPVID io slot port =
     rcp_bind (RCP_GetVlanPortIDAssignment io slot port) (\<lambda>vlanum. RCP_GetVlanVID io (unat vlanum))"

definition RCP_SetVlanPVID :: "'s rcp_io \<Rightarrow> nat \<Rightarrow> nat \<Rightarrow> u16 \<Rightarrow> u32 \<Rightarrow> ('s, unit) rcp" where
  "RCP_SetVlanPVID io slot port data flag =
     rcp_bind (RCP_GetVlanNumFromVID io data) (\<lambda>vlanum. RCP_SetVlanPortIDAssignment io slot port (of_nat vlanum) flag)"

text \<open>In the last branch, \<^verbatim>\<open>eeAddr\<close> is the place of the lower byte, so the lower byte goes to the register before.\<close>

definition RCP_SetVlanInsert :: "'s rcp_io \<Rightarrow> u16 \<Rightarrow> u32 \<Rightarrow> ('s, unit) rcp" where
  "RCP_SetVlanInsert io data flag =
     rcp_then
       (if flag AND RCP_CONFIG_REGISTER = 0x01 then io_write io RT8326_VLAN_PVID_CTL_BASE data else rcp_ret ())
       (if flag AND RCP_CONFIG_EEPROM = 0x02
        then rcp_bind (ee_place RT8326_VLAN_PVID_CTL_BASE 0 8) (\<lambda>(eeAddr, eeOffset, eeLength).
               if drop_bit 8 (data AND 0xff00) = 0
               then rcp_then (RCP_SetEepromField io eeAddr eeOffset eeLength (ucast data)) (RCP_SetEepromValue io (eeAddr + 1) 0)
               else rcp_then (RCP_SetEepromValue io (eeAddr - 1) (ucast (data AND 0xff)))
                      (RCP_SetEepromField io eeAddr eeOffset eeLength (ucast (drop_bit 8 (data AND 0xff00)))))
        else rcp_ret ())"

section \<open>Isolation of the ports\<close>

text \<open>Each port is given an entry of its own with the management port; \<open>vlanum\<close> is the next entry.\<close>

fun isolate_ports :: "'s rcp_io \<Rightarrow> nat \<Rightarrow> u32 \<Rightarrow> u32 \<Rightarrow> nat \<Rightarrow> nat list \<Rightarrow> ('s, unit) rcp" where
  "isolate_ports io mgtPort tmpPortList flag vlanum [] = rcp_ret ()"
| "isolate_ports io mgtPort tmpPortList flag vlanum (port # ports) =
     rcp_then (RCP_SetVlanOutPortTag io 1 port 0 flag)
       (if port = mgtPort then isolate_ports io mgtPort tmpPortList flag vlanum ports
        else rcp_bind (phy_of io 1 port) (\<lambda>phyPort.
          rcp_then (RCP_SetVlanPort io vlanum (tmpPortList OR push_bit phyPort 1) flag)
          (rcp_then (RCP_SetVlanVID io vlanum (of_nat (vlanum + 1)) flag)
          (rcp_then (RCP_SetVlanPVID io 1 port (of_nat (vlanum + 1)) flag)
             (isolate_ports io mgtPort tmpPortList flag (vlanum + 1) ports)))))"

definition RCP_SetVlanMgtPortIsolate :: "'s rcp_io \<Rightarrow> nat \<Rightarrow> u32 \<Rightarrow> ('s, unit) rcp" where
  "RCP_SetVlanMgtPortIsolate io mgtPort flag =
     rcp_then (RCP_SetVlanVID io 0 0x1 flag)
     (rcp_then (RCP_SetVlanPort io 0 0xffffffff flag)
     (rcp_bind (phy_of io 1 mgtPort) (\<lambda>phyPort.
      rcp_bind (rcp_dev_get io rd_numOfPorts) (\<lambda>n.
      rcp_then (isolate_ports io mgtPort (push_bit phyPort 1) flag 1 [1..<n + 1])
      (rcp_then (rcp_each (\<lambda>vlanum. rcp_then (RCP_SetVlanPort io vlanum 0 flag) (RCP_SetVlanVID io vlanum 0 flag)) [n..<MAX_RCP_VLAN_NUM])
      (rcp_then (RCP_SetVlanPVID io 1 mgtPort 1 flag)
      (RCP_SetVlanInsert io 0 flag)))))))"

definition RCP_SetVlanPortIsolateEn :: "'s rcp_io \<Rightarrow> u16 \<Rightarrow> nat \<Rightarrow> u32 \<Rightarrow> ('s, unit) rcp" where
  "RCP_SetVlanPortIsolateEn io data mgtPort flag =
     (if data = 0
      then rcp_then (RCP_SetVlanVID io 0 0x1 flag)
           (rcp_then (RCP_SetVlanPort io 0 0xffffffff flag)
           (rcp_bind (rcp_dev_get io rd_numOfPorts) (\<lambda>n.
            rcp_then (rcp_each (\<lambda>port. rcp_then (RCP_SetVlanInsertPVID io 1 port 0 flag) (RCP_SetVlanPVID io 1 port 1 flag)) [1..<n + 1])
            (rcp_then (rcp_each (\<lambda>vlanum. rcp_then (RCP_SetVlanVID io vlanum 0 flag) (RCP_SetVlanPort io vlanum 0 flag)) [1..<n])
            (RCP_SetVlanPortIsolate io 0)))))
      else rcp_then (RCP_SetVlanMgtPortIsolate io mgtPort flag) (RCP_SetVlanPortIsolate io 1))"

section \<open>Lists of ports\<close>

text \<open>\<^verbatim>\<open>frcpPort2LPort\<close> with its result ignored: the port stays what it was when there is none.\<close>

definition lport_or :: "'s rcp_io \<Rightarrow> nat \<Rightarrow> nat \<Rightarrow> ('s, nat) rcp" where
  "lport_or io lPort phyPort =
     rcp_dev_get io (\<lambda>d. case RCPPort2LPort (rd_deviceId d) 0 phyPort of Inr (_, p) \<Rightarrow> p | Inl _ \<Rightarrow> lPort)"

definition mgt_port_or :: "'s rcp_io \<Rightarrow> nat \<Rightarrow> ('s, nat) rcp" where
  "mgt_port_or io mgtPort = rcp_bind (rcp_dev_get io rd_upLinkPort) (\<lambda>u. lport_or io mgtPort (unat u))"

text \<open>A result that is not tested: on failure the output stays what it was.\<close>

definition rcp_or :: "('s, 'a) rcp \<Rightarrow> 'a \<Rightarrow> ('s, 'a) rcp" where
  "rcp_or m x s = map_option (\<lambda>(r, s). (case r of Inl _ \<Rightarrow> Inr x | Inr y \<Rightarrow> Inr y, s)) (m s)"

definition untag_bits :: "u16 \<Rightarrow> nat \<Rightarrow> u32 \<Rightarrow> u32" where
  "untag_bits data j portList = fold (\<lambda>i pl. if drop_bit (2 * i) (data AND push_bit (2 * i) 0x3) = 0 then pl OR push_bit (i + 8 * j) 1 else pl) [0..<8] portList"

fun untag_regs :: "'s rcp_io \<Rightarrow> nat list \<Rightarrow> u32 \<Rightarrow> ('s, u32) rcp" where
  "untag_regs io [] portList = rcp_ret portList"
| "untag_regs io (j # js) portList =
     rcp_bind (io_read io (RT8326_VLAN_PRI_BASE + of_nat j)) (\<lambda>data. untag_regs io js (untag_bits data j portList))"

definition RCP_GetVlanUntagPortList :: "'s rcp_io \<Rightarrow> u32 \<Rightarrow> ('s, u32) rcp" where
  "RCP_GetVlanUntagPortList io portList =
     rcp_bind (rcp_dev_get io rd_numOfPorts) (\<lambda>n. if n div 8 \<le> 4 then untag_regs io [0..<n div 8] portList else rcp_fault)"

text \<open>The ports of a list, with the logical port that the loop keeps.\<close>

fun each_port :: "'s rcp_io \<Rightarrow> u32 \<Rightarrow> (nat \<Rightarrow> ('s, unit) rcp) \<Rightarrow> nat \<Rightarrow> nat list \<Rightarrow> ('s, unit) rcp" where
  "each_port io portList body lPort [] = rcp_ret ()"
| "each_port io portList body lPort (phyPort # ps) =
     (if drop_bit phyPort portList AND 0x1 = 0x1
      then rcp_bind (lport_or io lPort phyPort) (\<lambda>lPort. rcp_then (body lPort) (each_port io portList body lPort ps))
      else each_port io portList body lPort ps)"

text \<open>\<open>junk\<close> is what \<^verbatim>\<open>mgtPort\<close> and \<^verbatim>\<open>lPort\<close> hold before they are set.\<close>

definition RCP_SetVlanUntagPortList :: "'s rcp_io \<Rightarrow> nat \<times> nat \<Rightarrow> nat \<Rightarrow> u32 \<Rightarrow> nat \<Rightarrow> u32 \<Rightarrow> ('s, unit) rcp" where
  "RCP_SetVlanUntagPortList io junk vlanum portList port_len flag =
     rcp_bind (mgt_port_or io (fst junk)) (\<lambda>mgtPort.
     rcp_bind (RCP_GetVlanVID io vlanum) (\<lambda>usVid.
     each_port io portList (\<lambda>lPort.
       rcp_then (rcp_each (\<lambda>usVlan. rcp_bind (RCP_GetVlanPortExist io 1 lPort usVlan) (\<lambda>usExist.
                   if usExist = 1 \<and> usVlan \<noteq> vlanum then RCP_SetVlanPortDelete io 1 lPort usVlan flag else rcp_ret ())) [0..<MAX_RCP_VLAN_NUM])
       (rcp_then (RCP_SetVlanPortAdd io 1 lPort vlanum flag)
       (rcp_then (if lPort \<noteq> mgtPort then RCP_SetVlanPVID io 1 lPort usVid flag else rcp_ret ())
       (rcp_then (RCP_SetVlanInsertPVID io 1 lPort 0 flag) (RCP_SetVlanOutPortTag io 1 lPort 0 flag))))) (snd junk) [0..<port_len]))"

definition RCP_SetVlanTaggedPortList :: "'s rcp_io \<Rightarrow> nat \<Rightarrow> nat \<Rightarrow> u32 \<Rightarrow> nat \<Rightarrow> u32 \<Rightarrow> ('s, unit) rcp" where
  "RCP_SetVlanTaggedPortList io junk vlanum portList port_len flag =
     each_port io portList (\<lambda>lPort.
       rcp_then (RCP_SetVlanInsertPVID io 1 lPort 1 flag)
       (rcp_then (RCP_SetVlanPortAdd io 1 lPort vlanum flag) (RCP_SetVlanOutPortTag io 1 lPort 3 flag))) junk [0..<port_len]"

text \<open>The number of entries that have a port, and whether the last one has it.\<close>

fun count_vlans :: "'s rcp_io \<Rightarrow> nat \<Rightarrow> nat list \<Rightarrow> nat \<times> u16 \<Rightarrow> ('s, nat \<times> u16) rcp" where
  "count_vlans io ulPort [] r = rcp_ret r"
| "count_vlans io ulPort (num # nums) (tagnum, _) =
     rcp_bind (RCP_GetVlanPortExist io 1 ulPort num) (\<lambda>existed. count_vlans io ulPort nums (if existed = 1 then tagnum + 1 else tagnum, existed))"

text \<open>What becomes of a tagged port that is taken out of its last VLAN; port 1 is treated apart.\<close>

definition untag_last :: "'s rcp_io \<Rightarrow> nat \<Rightarrow> nat \<Rightarrow> u16 \<Rightarrow> u32 \<Rightarrow> ('s, unit) rcp" where
  "untag_last io ulPort tagnum existed flag =
     (if ulPort \<noteq> 1
      then rcp_then (RCP_SetVlanPVID io 1 ulPort 1 flag)
           (rcp_then (RCP_SetVlanInsertPVID io 1 ulPort 0 flag)
           (rcp_then (RCP_SetVlanOutPortTag io 1 ulPort 0 flag) (RCP_SetVlanPortAdd io 1 ulPort 0 flag)))
      else rcp_then
        (if tagnum = 2
         then rcp_bind (rcp_or (RCP_GetVlanPortExist io 1 ulPort 0) existed) (\<lambda>existed.
                if existed = 1 then rcp_then (RCP_SetVlanInsertPVID io 1 ulPort 0 flag) (RCP_SetVlanOutPortTag io 1 ulPort 0 flag) else rcp_ret ())
         else rcp_ret ())
        (if tagnum = 1
         then rcp_bind (rcp_or (RCP_GetVlanPortExist io 1 ulPort 0) existed) (\<lambda>existed.
                if existed = 0
                then rcp_then (RCP_SetVlanInsertPVID io 1 ulPort 0 flag)
                     (rcp_then (RCP_SetVlanOutPortTag io 1 ulPort 0 flag) (RCP_SetVlanPortAdd io 1 ulPort 0 flag))
                else rcp_ret ())
         else rcp_ret ()))"

definition delete_port :: "'s rcp_io \<Rightarrow> nat \<Rightarrow> u16 \<Rightarrow> u32 \<Rightarrow> nat \<Rightarrow> ('s, unit) rcp" where
  "delete_port io vlanum vid flag ulPort =
     rcp_bind (RCP_GetVlanOutPortTag io 1 ulPort) (\<lambda>output.
     rcp_then
       (if output = 0
        then rcp_then (RCP_SetVlanPVID io 1 ulPort 1 flag)
             (rcp_then (RCP_SetVlanOutPortTag io 1 ulPort 0 flag) (RCP_SetVlanPortAdd io 1 ulPort 0 flag))
        else rcp_bind (count_vlans io ulPort [0..<MAX_RCP_VLAN_NUM] (0, 0)) (\<lambda>(tagnum, existed).
             rcp_bind (RCP_GetVlanPVID io 1 ulPort) (\<lambda>pvid.
             rcp_then (if pvid = 1 \<and> tagnum = 2 \<or> tagnum = 1 then untag_last io ulPort tagnum existed flag else rcp_ret ())
               (if pvid = vid then RCP_SetVlanPVID io 1 ulPort 1 flag else rcp_ret ()))))
       (RCP_SetVlanPortDelete io 1 ulPort vlanum flag))"

definition RCP_SetVlanPortListDelete :: "'s rcp_io \<Rightarrow> nat \<Rightarrow> nat \<Rightarrow> u32 \<Rightarrow> nat \<Rightarrow> u32 \<Rightarrow> ('s, unit) rcp" where
  "RCP_SetVlanPortListDelete io junk vlanum portList port_len flag =
     rcp_bind (RCP_GetVlanVID io vlanum) (\<lambda>vid. each_port io portList (delete_port io vlanum vid flag) junk [0..<port_len])"

definition RCP_SetVlanDelete :: "'s rcp_io \<Rightarrow> nat \<Rightarrow> nat \<Rightarrow> u32 \<Rightarrow> ('s, unit) rcp" where
  "RCP_SetVlanDelete io junk vlanum flag =
     rcp_bind (RCP_GetVlanPort io vlanum) (\<lambda>portlist.
     rcp_bind (rcp_dev_get io rd_numOfPorts) (\<lambda>n.
     rcp_then (RCP_SetVlanPortListDelete io junk vlanum portlist n flag) (RCP_SetVlanVID io vlanum 0 flag)))"

section \<open>Saving in the EEPROM\<close>

definition save_reg_bytes :: "'s rcp_io \<Rightarrow> u16 \<Rightarrow> u16 \<Rightarrow> ('s, unit) rcp" where
  "save_reg_bytes io reg eeAddr =
     rcp_bind (io_read io reg) (\<lambda>data.
       rcp_then (RCP_SetEepromValue io eeAddr (ucast (data AND 0xff)))
         (RCP_SetEepromValue io (eeAddr + 1) (ucast (drop_bit 8 data AND 0xff))))"

text \<open>\<^verbatim>\<open>eeValue2 = (unsigned char)(data & 0xff00)\<close> is 0.\<close>

definition RCP_SetVlanSave :: "'s rcp_io \<Rightarrow> nat \<Rightarrow> ('s, unit) rcp" where
  "RCP_SetVlanSave io vlanum =
     rcp_bind (RCP_GetVlanVID io vlanum) (\<lambda>vid.
     rcp_then (RCP_SetVlanVID io vlanum vid RCP_CONFIG_2_EEPROM)
     (rcp_then (rcp_each (\<lambda>i. rcp_bind (RCP_GetVlanPort io i) (\<lambda>portlist. RCP_SetVlanPort io i portlist RCP_CONFIG_2_EEPROM)) [0..<MAX_RCP_VLAN_NUM])
     (rcp_then (rcp_bind (io_read io RT8326_VLAN_PVID_CTL_BASE) (\<lambda>data.
         rcp_then (RCP_SetEepromValue io 0x17a (ucast (data AND 0xff))) (RCP_SetEepromValue io 0x17b (ucast (data AND 0xff00)))))
     (rcp_then (rcp_each (\<lambda>i. save_reg_bytes io (RT8326_VLAN_PRI_BASE + of_nat i) (0xb2 + of_nat (i * 2))) [0..<2])
     (rcp_each (\<lambda>i. save_reg_bytes io (0x030c + of_nat i) (0x98 + of_nat (i * 2))) [0..<8])))))"

text \<open>The loop \<^verbatim>\<open>do { ret = m; } while(ret != RCP_OK)\<close>.\<close>

partial_function (option) rcp_retry :: "('s, unit) rcp \<Rightarrow> 's \<Rightarrow> ((int + unit) \<times> 's) option" where
  "rcp_retry m s = Option.bind (m s) (\<lambda>(r, s'). case r of Inl _ \<Rightarrow> rcp_retry m s' | Inr _ \<Rightarrow> Some (Inr (), s'))"

definition RCP_SetVlanEnableSave :: "'s rcp_io \<Rightarrow> nat \<Rightarrow> u16 \<Rightarrow> ('s, unit) rcp" where
  "RCP_SetVlanEnableSave io junk enable =
     rcp_bind (mgt_port_or io junk) (\<lambda>mgtPort.
       if enable = 1
       then rcp_then (rcp_retry (RCP_SetVlanMgtPortIsolate io mgtPort RCP_CONFIG_2_EEPROM))
              (rcp_each (\<lambda>i. RCP_SetEepromValue io (0xea + of_nat i) 0) [0..<0x8f])
       else rcp_then (RCP_SetEepromValue io 0xba 0xff)
            (rcp_then (RCP_SetEepromValue io 0xbe 0x1)
              (rcp_each (\<lambda>i. RCP_SetEepromValue io (0xc0 + of_nat i) 0) [0..<0x30])))"

section \<open>802.1Q\<close>

definition RCP_SetVlan8021QEnable :: "'s rcp_io \<Rightarrow> u16 \<Rightarrow> u32 \<Rightarrow> ('s, unit) rcp" where
  "RCP_SetVlan8021QEnable io enable flag =
     rcp_bind (rcp_dev_get io rd_deviceId) (\<lambda>dv. rcp_bind (rcp_dev_get io rd_numOfPorts) (\<lambda>n.
     rcp_then
       (if enable = 0
        then rcp_then (RCP_SetVlanVID io 0 0x1 flag)
             (rcp_then (RCP_SetVlanPort io 0 (if dv = GH1516 then 0xffff else if dv = GH1508 then 0xff else if dv = GH1524 then 0xffffff else 0xffffffff) flag)
             (rcp_then (rcp_each (\<lambda>vlanum. rcp_then (RCP_SetVlanVID io vlanum 0 flag) (RCP_SetVlanPort io vlanum 0 flag)) [1..<MAX_RCP_VLAN_NUM])
             (rcp_then (rcp_each (\<lambda>port. rcp_then (RCP_SetVlanPVID io 1 port 1 flag) (RCP_SetVlanOutPortTag io 1 port 3 flag)) [1..<n + 1])
             (rcp_then (io_write io RT8326_VLAN_PVID_CTL_BASE 0)
             (rcp_then (RCP_SetEepromValue io 0x17a 0)
             (rcp_then (RCP_SetEepromValue io 0x17b 0) (RCP_SetVlanPortIsolate io 0)))))))
        else rcp_each (\<lambda>port. RCP_SetVlanOutPortTag io 1 port 0 flag) [1..<n + 1])
       (RCP_SetVlan8021Q io enable flag)))"

text \<open>The settings in the flash memory are erased, and the switch is reset.\<close>

definition RCP_SetConfigClear :: "'w rcp_env \<Rightarrow> 'w flash_env \<Rightarrow> nat \<Rightarrow> nat \<Rightarrow> 'w rcp_mod \<Rightarrow> (int \<times> 'w rcp_mod) option" where
  "RCP_SetConfigClear env fe junk d st =
     Option.bind (ereaseRcpDevCfgInFlash fe junk d 0 st) (\<lambda>(ret, st).
       if ret \<noteq> 0 then Some (ret, st)
       else map_option (\<lambda>(r, s). (case r of Inl e \<Rightarrow> e | Inr _ \<Rightarrow> 0, st\<lparr>rm_sys := s\<rparr>)) (RCP_SysHWReset (rcp_link env d) (rm_sys st)))"

end
