(* ===== verification/Rcp_Mon.thy ===== *)
theory Rcp_Mon
  imports Rcp_Vlan
begin

text \<open>
  The threads that watch the attached switches (\<^verbatim>\<open>apps/rcp_switch_cli.c\<close>, lines 5615 to 6013): one sends hellos and decides which
  switches are on line, reports those that come and go and configures them; one shuts ports behind which a loop
  is. Also the parameters in the EEPROM of a switch (lines 6258 to 6368).
\<close>

section \<open>Parameters in the EEPROM\<close>

definition RCP_EEPROM_BASIC_ADDR :: u16 where "RCP_EEPROM_BASIC_ADDR = 0x400"

text \<open>Address and length of each parameter, and the rates with their index.\<close>

definition RCPBoardInfoArr :: "(u16 \<times> nat) list" where
  "RCPBoardInfoArr = [(0, 1), (1, 2), (3, 16), (19, 2), (21, 16), (37, 6), (43, 10)]"

definition RCPPortRate :: "u32 list" where "RCPPortRate = [0, 128, 256, 512, 1000, 2000, 4000, 8000]"

abbreviation RCP_EEPROM_VERSION :: nat where "RCP_EEPROM_VERSION \<equiv> 2"
abbreviation RCP_EEPROM_MODULE_TYPE :: nat where "RCP_EEPROM_MODULE_TYPE \<equiv> 3"
abbreviation RCP_ERROR :: int where "RCP_ERROR \<equiv> -1"

text \<open>A call whose result is looked at, or not at all, and does not end the caller.\<close>

definition rcp_try :: "('s, 'a) rcp \<Rightarrow> ('s, int + 'a) rcp" where
  "rcp_try m s = map_option (\<lambda>(r, s). (Inr r, s)) (m s)"

definition rcp_ignore :: "('s, 'a) rcp \<Rightarrow> ('s, unit) rcp" where
  "rcp_ignore m = rcp_bind (rcp_try m) (\<lambda>_. rcp_ret ())"

definition param_addr :: "nat \<Rightarrow> u16" where
  "param_addr type = (case RCPBoardInfoArr ! type of (cAddr, cLen) \<Rightarrow> RCP_EEPROM_BASIC_ADDR - cAddr - of_nat cLen)"

text \<open>
  The bytes are stored one by one into \<open>data\<close>, which keeps what was stored before a failure; a byte that the switch does not
  give stays what it was. The result is the return value and the array.
\<close>

fun get_param :: "'s rcp_io \<Rightarrow> u16 \<Rightarrow> nat list \<Rightarrow> u8 list \<Rightarrow> ('s, int \<times> u8 list) rcp" where
  "get_param io eeAddr [] data = rcp_ret (0, data)"
| "get_param io eeAddr (i # is) data =
     (if i \<ge> length data then rcp_fault
      else rcp_bind (rcp_try (RCP_GetEepromValue io (eeAddr + of_nat i))) (\<lambda>r.
        case r of Inl e \<Rightarrow> rcp_ret (e, data)
        | Inr v \<Rightarrow> get_param io eeAddr is (case v of None \<Rightarrow> data | Some x \<Rightarrow> data[i := x])))"

definition Rcp_Get_Eeprom_Param :: "'s rcp_io \<Rightarrow> nat \<Rightarrow> u8 list \<Rightarrow> ('s, int \<times> u8 list) rcp" where
  "Rcp_Get_Eeprom_Param io type data =
     (let n = snd (RCPBoardInfoArr ! type) in
      rcp_bind (get_param io (param_addr type) [0..<n] data) (\<lambda>(ret, data).
        if ret \<noteq> 0 then rcp_ret (ret, data)
        else if n \<ge> length data then rcp_fault else rcp_ret (0, data[n := 0])))"

definition Rcp_Set_Eeprom_Param :: "'s rcp_io \<Rightarrow> nat \<Rightarrow> u8 list \<Rightarrow> ('s, unit) rcp" where
  "Rcp_Set_Eeprom_Param io type data =
     rcp_each (\<lambda>i. if i \<ge> length data then rcp_fault else RCP_SetEepromValue io (param_addr type + of_nat i) (data ! i))
       [0..<snd (RCPBoardInfoArr ! type)]"

definition Rcp_PortRateToEnum :: "u32 \<Rightarrow> nat" where
  "Rcp_PortRateToEnum ulRate = min (first_idx (\<lambda>r. ulRate \<le> r) RCPPortRate) 7"

text \<open>Five attempts to write a parameter and read it back; \<open>cmpdata\<close> is the array that it is read into.\<close>

fun set_protect :: "'s rcp_io \<Rightarrow> nat \<Rightarrow> u8 list \<Rightarrow> nat \<Rightarrow> nat \<Rightarrow> u8 list \<Rightarrow> ('s, unit) rcp" where
  "set_protect io type data datalen 0 cmpdata = rcp_err RCP_ERROR"
| "set_protect io type data datalen (Suc n) cmpdata =
     rcp_bind (rcp_try (Rcp_Set_Eeprom_Param io type data)) (\<lambda>r1.
     rcp_bind (Rcp_Get_Eeprom_Param io type cmpdata) (\<lambda>(r2, cmpdata).
       if (case r1 of Inl e \<Rightarrow> e | Inr _ \<Rightarrow> 0) + r2 = 0 \<and> take datalen data = take datalen cmpdata then rcp_ret ()
       else set_protect io type data datalen n cmpdata))"

definition Rcp_Eeprom_Value_Set_Protect :: "'s rcp_io \<Rightarrow> nat \<Rightarrow> u8 list \<Rightarrow> nat \<Rightarrow> u8 list \<Rightarrow> ('s, unit) rcp" where
  "Rcp_Eeprom_Value_Set_Protect io type data datalen cmpdata = set_protect io type data datalen 5 cmpdata"

text \<open>The board type. \<^verbatim>\<open>numOfPorts = -1\<close> in an unsigned field of 8 bits.\<close>

definition model_id :: "u8 list \<Rightarrow> u8 list \<Rightarrow> u8 list" where "model_id name old = name @ drop (length name) old"

definition Rcp_Get_Device_Info :: "'s rcp_io \<Rightarrow> u8 list \<Rightarrow> ('s, unit) rcp" where
  "Rcp_Get_Device_Info io junk =
     rcp_bind (Rcp_Get_Eeprom_Param io RCP_EEPROM_MODULE_TYPE (take 3 junk)) (\<lambda>(ret, board_type).
       if ret \<noteq> 0 then rcp_err ret
       else let boardType = push_bit 8 (ucast (board_type ! 0)) OR ucast (board_type ! 1) :: u16;
                set = (\<lambda>dv n name. rcp_dev_mod io (\<lambda>d. d\<lparr>rd_deviceId := dv, rd_numOfPorts := n, rd_modelID := model_id name (rd_modelID d)\<rparr>))
            in if boardType = 2 then set GH1508 8 [71, 72, 49, 53, 48, 56]
               else if boardType = 3 then set GH1516 16 [71, 72, 49, 53, 49, 54]
               else if boardType = 4 then set GH1524 24 [71, 72, 49, 53, 50, 52]
               else if boardType = 5 then set GH1532 32 [71, 72, 49, 53, 51, 50]
               else rcp_then (rcp_dev_mod io (\<lambda>d. d\<lparr>rd_numOfPorts := 255\<rparr>)) (rcp_err RCP_UNKOWN))"

section \<open>The state of the monitor\<close>

text \<open>The module with the heap of the queue of messages, and the countdown to the next discovery.\<close>

record 'w mon =
  mn_mod :: "'w rcp_mod"
  mn_heap :: "addr \<Rightarrow> alarm_entry option"
  mn_next :: addr
  iDiscovreyPeriod :: u32

abbreviation RCP_DISCOVERY_PERIOD_DEF :: u32 where "RCP_DISCOVERY_PERIOD_DEF \<equiv> 5"
abbreviation RCP_KEEP_ALIVE_TIMEOUT_DEF :: u8 where "RCP_KEEP_ALIVE_TIMEOUT_DEF \<equiv> 2"
abbreviation RCP_ALARM_STATUS_REGISTER :: u8 where "RCP_ALARM_STATUS_REGISTER \<equiv> 0x01"
abbreviation RCP_ALARM_STATUS_RE_REGISTER :: u8 where "RCP_ALARM_STATUS_RE_REGISTER \<equiv> 0x02"
abbreviation RCP_ALARM_STATUS_OFFLINE :: u8 where "RCP_ALARM_STATUS_OFFLINE \<equiv> 0x04"
abbreviation ONU_SWITCH_STATUS_CHANGE_ALM_REG :: u8 where "ONU_SWITCH_STATUS_CHANGE_ALM_REG \<equiv> 0x01"
abbreviation ONU_SWITCH_STATUS_CHANGE_ALM_REREG :: u8 where "ONU_SWITCH_STATUS_CHANGE_ALM_REREG \<equiv> 0x02"
abbreviation ONU_SWITCH_STATUS_CHANGE_ALM_OFFLINE :: u8 where "ONU_SWITCH_STATUS_CHANGE_ALM_OFFLINE \<equiv> 0x03"
abbreviation GWD_RETURN_ERR :: int where "GWD_RETURN_ERR \<equiv> -1"

definition mon_sys :: "'w mon \<Rightarrow> 'w rcp_sys" where "mon_sys m = rm_sys (mn_mod m)"

definition mon_put :: "'w rcp_sys \<Rightarrow> 'w mon \<Rightarrow> 'w mon" where "mon_put s m = m\<lparr>mn_mod := (mn_mod m)\<lparr>rm_sys := s\<rparr>\<rparr>"

definition sys_op :: "('w rcp_sys, 'a) rcp \<Rightarrow> ('w mon, 'a) rcp" where
  "sys_op f m = map_option (\<lambda>(r, s). (r, mon_put s m)) (f (mon_sys m))"

definition sys_call :: "('w rcp_sys \<Rightarrow> ('a \<times> 'w rcp_sys) option) \<Rightarrow> ('w mon, 'a) rcp" where
  "sys_call f m = map_option (\<lambda>(x, s). (Inr x, mon_put s m)) (f (mon_sys m))"

text \<open>\<^verbatim>\<open>rcpDevList[i]\<close> read and changed; without a device the access is a fault.\<close>

definition mon_dev :: "nat \<Rightarrow> (rcp_dev \<Rightarrow> 'a) \<Rightarrow> ('w mon, 'a) rcp" where
  "mon_dev i f m = map_option (\<lambda>d. (Inr (f d), m)) (rcp_dev_at (mon_sys m) i)"

definition mon_upd :: "nat \<Rightarrow> (rcp_dev \<Rightarrow> rcp_dev) \<Rightarrow> ('w mon, unit) rcp" where
  "mon_upd i f m = (if rcp_dev_at (mon_sys m) i = None then None else Some (Inr (), mon_put (rcp_dev_upd i f (mon_sys m)) m))"

definition mon_if_valid :: "nat \<Rightarrow> ('w mon, unit) rcp \<Rightarrow> ('w mon, unit) rcp" where
  "mon_if_valid i k m = (if RCP_Dev_Is_Valid (mon_sys m) i then k m else Some (Inr (), m))"

definition alarm_of :: "'w mon \<Rightarrow> 'w alarm_sys" where
  "alarm_of m = \<lparr>al_heap = mn_heap m, al_next = mn_next m, gpstAlmFifo = rm_fifo (mn_mod m), al_world = rcp_world (mon_sys m)\<rparr>"

definition alarm_put :: "'w alarm_sys \<Rightarrow> 'w mon \<Rightarrow> 'w mon" where
  "alarm_put a m = m\<lparr>mn_heap := al_heap a, mn_next := al_next a,
     mn_mod := (mn_mod m)\<lparr>rm_fifo := gpstAlmFifo a, rm_sys := (mon_sys m)\<lparr>rcp_world := al_world a\<rparr>\<rparr>\<rparr>"

text \<open>A message on device \<open>i\<close>, unless the mask hides it; whether it can be queued is only logged.\<close>

definition mon_push :: "'w rcp_env \<Rightarrow> nat \<Rightarrow> (rcp_dev \<Rightarrow> u8 list) \<Rightarrow> u8 \<Rightarrow> u8 \<Rightarrow> ('w mon, unit) rcp" where
  "mon_push env i mac amask type =
     rcp_bind (mon_dev i (\<lambda>d. d)) (\<lambda>d m.
       if rd_alarmMask d AND amask \<noteq> 0 then Some (Inr (), m)
       else Some (Inr (), alarm_put (snd (pushOneSwitchStatusChgMsg (ev_malloc env) (rd_paPort d) (mac d) type 0 (alarm_of m))) m))"

section \<open>Keep-alive and discovery\<close>

definition keep_alive :: "rcp_dev \<Rightarrow> rcp_dev" where
  "keep_alive d =
     (let d = (if rd_timeoutCounter d < RCP_KEEP_ALIVE_TIMEOUT_DEF then d\<lparr>rd_timeoutCounter := rd_timeoutCounter d + 1\<rparr> else d\<lparr>rd_timeoutFlag := 1\<rparr>)
      in d\<lparr>rd_previousOnlineStatus := rd_onlineStatus d, rd_onlineStatus := (if rd_timeoutFlag d = 1 then 0 else 1)\<rparr>)"

definition mon_hello :: "'w rcp_env \<Rightarrow> u8 list \<Rightarrow> nat \<Rightarrow> ('w mon, unit) rcp" where
  "mon_hello env junk i =
     mon_if_valid i (rcp_then (sys_call (RCP_Say_Hello env junk (int i) 0)) (mon_upd i keep_alive))"

text \<open>The copy of the VLAN table is read again; errors are only counted for the log.\<close>

definition vlan_refresh :: "'w rcp_env \<Rightarrow> nat \<Rightarrow> ('w mon, unit) rcp" where
  "vlan_refresh env i =
     (let io = rcp_link env i in
      rcp_each (\<lambda>vlanum. rcp_then (sys_op (rcp_ignore (rcp_bind (RCP_GetVlanVID io vlanum) (vlan_vid_put io vlanum))))
                           (sys_op (rcp_ignore (vlan_port_to io vlanum (vlan_port_put io vlanum))))) [0..<MAX_RCP_VLAN_NUM])"

definition mon_discovery :: "'w rcp_env \<Rightarrow> u8 list \<Rightarrow> u16 \<Rightarrow> ('w mon, unit) rcp" where
  "mon_discovery env junk pvid =
     rcp_then
       (rcp_each (\<lambda>i. mon_if_valid i (rcp_bind (sys_call (RCP_Dev_Is_Exist env junk pvid i)) (\<lambda>e. if e = 1 then vlan_refresh env i else rcp_ret ())))
          [1..<MAX_RRCP_SWITCH_TO_MANAGE])
       (rcp_then (sys_call (RCP_Say_Hello env junk (-1) 0)) (\<lambda>m. Some (Inr (), m\<lparr>iDiscovreyPeriod := RCP_DISCOVERY_PERIOD_DEF\<rparr>)))"

definition mon_hellos :: "'w rcp_env \<Rightarrow> u8 list \<Rightarrow> u16 \<Rightarrow> ('w mon, unit) rcp" where
  "mon_hellos env junk pvid =
     rcp_then (rcp_each (mon_hello env junk) [1..<MAX_RRCP_SWITCH_TO_MANAGE])
       (\<lambda>m. let m = m\<lparr>iDiscovreyPeriod := iDiscovreyPeriod m - 1\<rparr>
            in if iDiscovreyPeriod m \<le> 0 then mon_discovery env junk pvid m else Some (Inr (), m))"

section \<open>Switches that come and go\<close>

text \<open>A switch that went off line, and one that is now at another port.\<close>

definition mon_moved :: "'w rcp_env \<Rightarrow> u8 list \<Rightarrow> u16 \<Rightarrow> nat \<Rightarrow> nat \<Rightarrow> ('w mon, unit) rcp" where
  "mon_moved env junk pvid i j =
     rcp_bind (sys_call (RCP_Dev_Is_Exist env junk pvid j)) (\<lambda>e.
       if e \<noteq> 0 \<and> i \<noteq> j
       then rcp_bind (mon_dev i rd_switchMac) (\<lambda>a. rcp_bind (mon_dev j rd_switchMac) (\<lambda>b.
              if a = b then mon_upd i (\<lambda>d. d\<lparr>rd_switchMac := replicate 6 0, rd_previousswitchMac := replicate 6 0,
                              rd_previousOnlineStatus := 0, rd_onlineStatus := 0, rd_timeoutFlag := 1\<rparr>)
              else rcp_ret ()))
       else rcp_ret ())"

definition offline_check :: "'w rcp_env \<Rightarrow> u8 list \<Rightarrow> u16 \<Rightarrow> nat \<Rightarrow> ('w mon, unit) rcp" where
  "offline_check env junk pvid i =
     rcp_then
       (rcp_bind (mon_dev i (\<lambda>d. rd_onlineStatus d = 0 \<and> rd_previousOnlineStatus d = 1)) (\<lambda>gone.
          if gone
          then rcp_then (mon_push env i rd_switchMac RCP_ALARM_STATUS_OFFLINE ONU_SWITCH_STATUS_CHANGE_ALM_OFFLINE)
                 (mon_upd i (\<lambda>d. d\<lparr>rd_alarmStatus := rd_alarmStatus d OR RCP_ALARM_STATUS_OFFLINE, rd_previousOnlineStatus := 0, rd_timeoutFlag := 1\<rparr>))
          else rcp_ret ()))
       (rcp_bind (mon_dev i rd_alarmStatus) (\<lambda>a.
          if a AND RCP_ALARM_STATUS_OFFLINE \<noteq> 0 then rcp_each (mon_moved env junk pvid i) [1..<MAX_RRCP_SWITCH_TO_MANAGE] else rcp_ret ()))"

definition mon_restore :: "'w rcp_env \<Rightarrow> nat \<Rightarrow> ('w mon, unit) rcp" where
  "mon_restore env i m =
     (case rm_buf (mn_mod m) of None \<Rightarrow> None | Some buf \<Rightarrow> sys_op (rcp_ignore (restoreRcpDevCfgFromFlash (rcp_link env i) buf)) m)"

text \<open>Another switch at the port than before. A failure to read its type ends the check of all switches.\<close>

definition newcomer :: "'w rcp_env \<Rightarrow> u8 list \<Rightarrow> nat \<Rightarrow> ('w mon, unit) rcp" where
  "newcomer env junk i =
     rcp_bind (sys_op (rcp_try (Rcp_Get_Device_Info (rcp_link env i) junk))) (\<lambda>r.
       case r of Inl _ \<Rightarrow> rcp_err GWD_RETURN_ERR
       | Inr _ \<Rightarrow>
         rcp_bind (mon_dev i (\<lambda>d. (rd_previousswitchMac d = replicate 6 0, rd_alarmStatus d AND RCP_ALARM_STATUS_OFFLINE = 0))) (\<lambda>(first, known).
         rcp_then
           (if first
            then rcp_then (mon_push env i rd_switchMac RCP_ALARM_STATUS_REGISTER RCP_ALARM_STATUS_REGISTER)
                   (mon_upd i (\<lambda>d. d\<lparr>rd_previousOnlineStatus := 1, rd_onlineStatus := 1\<rparr>))
            else rcp_then
                   (if known
                    then rcp_then (mon_push env i rd_previousswitchMac RCP_ALARM_STATUS_OFFLINE ONU_SWITCH_STATUS_CHANGE_ALM_OFFLINE)
                           (mon_upd i (\<lambda>d. d\<lparr>rd_timeoutFlag := 1\<rparr>))
                    else rcp_ret ())
                   (rcp_then (mon_push env i rd_switchMac RCP_ALARM_STATUS_REGISTER ONU_SWITCH_STATUS_CHANGE_ALM_REG)
                      (mon_upd i (\<lambda>d. d\<lparr>rd_alarmStatus := RCP_ALARM_STATUS_REGISTER\<rparr>))))
           (rcp_then (mon_upd i (\<lambda>d. d\<lparr>rd_previousswitchMac := rd_switchMac d, rd_previousOnlineStatus := rd_onlineStatus d\<rparr>))
              (mon_restore env i))))"

definition comeback :: "'w rcp_env \<Rightarrow> nat \<Rightarrow> ('w mon, unit) rcp" where
  "comeback env i =
     rcp_bind (mon_dev i rd_alarmStatus) (\<lambda>a.
       rcp_then (if a AND RCP_ALARM_STATUS_OFFLINE = 0 then rcp_ret ()
                 else mon_push env i rd_switchMac RCP_ALARM_STATUS_RE_REGISTER ONU_SWITCH_STATUS_CHANGE_ALM_REREG)
         (rcp_then (mon_upd i (\<lambda>d. d\<lparr>rd_previousOnlineStatus := 1, rd_alarmStatus := RCP_ALARM_STATUS_RE_REGISTER\<rparr>))
            (mon_restore env i)))"

fun isolate_retry :: "'s rcp_io \<Rightarrow> nat \<Rightarrow> nat \<Rightarrow> ('s, unit) rcp" where
  "isolate_retry io port 0 = rcp_ret ()"
| "isolate_retry io port (Suc n) =
     rcp_bind (rcp_try (RCP_SetVlanMgtPortIsolate io port RCP_CONFIG_REGISTER)) (\<lambda>r. case r of Inl _ \<Rightarrow> isolate_retry io port n | Inr _ \<Rightarrow> rcp_ret ())"

text \<open>The management port is set up when it changed or the switch is new; \<open>junkp\<close>: the variable for it before it is set.\<close>

definition settle :: "'w rcp_env \<Rightarrow> nat \<Rightarrow> nat \<Rightarrow> bool \<Rightarrow> ('w mon, unit) rcp" where
  "settle env junkp i shouldUpdateVlan =
     (let io = rcp_link env i in
      rcp_bind (sys_op (mgt_port_or io junkp)) (\<lambda>currentPort.
      rcp_bind (sys_op (rcp_bind (rcp_dev_get io rd_previousUplinkPort) (\<lambda>u. lport_or io 1 (unat u)))) (\<lambda>previousPort.
        if currentPort \<noteq> previousPort \<or> shouldUpdateVlan
        then rcp_then (sys_op (rcp_ignore (RCP_SetVlanPVID io 1 currentPort 1 RCP_CONFIG_REGISTER)))
             (rcp_then (sys_op (rcp_ignore (RCP_SetMirrorRxPort io 1 currentPort 0 RCP_CONFIG_REGISTER)))
             (rcp_then (sys_op (rcp_ignore (RCP_SetMirrorTxPort io 1 currentPort 0 RCP_CONFIG_REGISTER)))
             (rcp_then (sys_op (rcp_ignore (RCP_SetQosPortPriority io 1 currentPort 1 RCP_CONFIG_REGISTER)))
             (rcp_then (sys_op (rcp_ignore (RCP_SetQosPortPriority io 1 previousPort 0 RCP_CONFIG_REGISTER)))
             (rcp_then (sys_op (rcp_bind (RCP_GetVlanPortIsolate io) (\<lambda>isolate. if isolate = 1 then isolate_retry io currentPort 3 else rcp_ret ())))
             (rcp_then (vlan_refresh env i)
               (mon_upd i (\<lambda>d. d\<lparr>rd_previousUplinkPort := ucast (rd_upLinkPort d)\<rparr>))))))))
        else rcp_ret ())))"

definition online_check :: "'w rcp_env \<Rightarrow> u8 list \<Rightarrow> nat \<Rightarrow> nat \<Rightarrow> ('w mon, unit) rcp" where
  "online_check env junk junkp i =
     rcp_bind (mon_dev i (\<lambda>d. (rd_switchMac d \<noteq> rd_previousswitchMac d, rd_onlineStatus d = 1 \<and> rd_previousOnlineStatus d = 0))) (\<lambda>(other, back).
       if other then rcp_then (newcomer env junk i) (settle env junkp i True)
       else if back then rcp_then (comeback env i) (settle env junkp i True)
       else settle env junkp i False)"

text \<open>\<open>reg\<close>: what \<^verbatim>\<open>LIB_IF_ONU_REGISTER_GET\<close> says, or \<open>None\<close> when it fails; \<open>send\<close>: \<^verbatim>\<open>CommOnuMsgSend\<close>.\<close>

definition send_alarms :: "(u8 list \<Rightarrow> 'w \<Rightarrow> int \<times> 'w) \<Rightarrow> ('w \<Rightarrow> bool option \<times> 'w) \<Rightarrow> ('w mon, unit) rcp" where
  "send_alarms send reg m =
     (case reg (rcp_world (mon_sys m)) of (r, w) \<Rightarrow>
        let m = mon_put ((mon_sys m)\<lparr>rcp_world := w\<rparr>) m in
        if r = Some True then map_option (\<lambda>(_, a). (Inr (), alarm_put a m)) (popAllSwitchStatusChgMsg send (alarm_of m))
        else Some (Inr (), m))"

definition status_of :: "'w rcp_env \<Rightarrow> u8 list \<Rightarrow> u16 \<Rightarrow> nat \<Rightarrow> nat \<Rightarrow> ('w mon, unit) rcp" where
  "status_of env junk pvid junkp i =
     mon_if_valid i (rcp_bind (sys_call (RCP_Dev_Is_Exist env junk pvid i)) (\<lambda>e.
       if e \<noteq> 1 then offline_check env junk pvid i else online_check env junk junkp i))"

definition rcp_dev_status_check ::
  "'w rcp_env \<Rightarrow> (u8 list \<Rightarrow> 'w \<Rightarrow> int \<times> 'w) \<Rightarrow> ('w \<Rightarrow> bool option \<times> 'w) \<Rightarrow> u8 list \<Rightarrow> u16 \<Rightarrow> nat \<Rightarrow> ('w mon, unit) rcp" where
  "rcp_dev_status_check env send reg junk pvid junkp =
     rcp_then (rcp_each (status_of env junk pvid junkp) [1..<MAX_RRCP_SWITCH_TO_MANAGE]) (send_alarms send reg)"

text \<open>
  One round of the thread. \<open>tx\<close> is \<^verbatim>\<open>g_onu_tx_policy\<close>, \<open>mgt\<close> is \<^verbatim>\<open>gulEnableEpswitchMgt\<close>; the frames that arrive while the
  thread sleeps are handled then. The result of the check is not used.
\<close>

definition rcp_dev_monitor_round ::
  "'w rcp_env \<Rightarrow> (u8 list \<Rightarrow> 'w \<Rightarrow> int \<times> 'w) \<Rightarrow> ('w \<Rightarrow> bool option \<times> 'w) \<Rightarrow> u8 list \<Rightarrow> u16 \<Rightarrow> nat \<Rightarrow> bool \<Rightarrow> bool \<Rightarrow> ('w mon, unit) rcp" where
  "rcp_dev_monitor_round env send reg junk pvid junkp tx mgt =
     (if \<not> tx then rcp_ret ()
      else rcp_then (if mgt then mon_hellos env junk pvid else rcp_ret ())
           (rcp_then (sys_call (\<lambda>s. map_option (Pair ()) (rcp_receive env s)))
           (if mgt then rcp_ignore (rcp_dev_status_check env send reg junk pvid junkp) else rcp_ret ())))"

section \<open>Loops behind a switch\<close>

text \<open>
  The ports of one switch. The slot and port keep their values when the port has none. A shift by 32 or more is undefined
  (\<open>None\<close>). A port is shut by setting its disable bit.
\<close>

fun loop_ports :: "'s rcp_io \<Rightarrow> u32 \<Rightarrow> nat \<Rightarrow> nat \<times> nat \<Rightarrow> nat list \<Rightarrow> ('s, unit) rcp" where
  "loop_ports io portlist mgtPort sp [] = rcp_ret ()"
| "loop_ports io portlist mgtPort sp (phyPort # ps) =
     rcp_bind (rcp_dev_get io (\<lambda>d. case RCPPort2LPort (rd_deviceId d) 0 phyPort of Inr q \<Rightarrow> q | Inl _ \<Rightarrow> sp)) (\<lambda>(slot, port).
     rcp_bind (rcp_dev_get io rd_loopAndDown) (\<lambda>down.
       let b = push_bit (port - 1) 1 in
       if phyPort \<ge> 32 \<or> port = 0 \<or> port > 32 then rcp_fault
       else rcp_then
         (if bit down phyPort
          then rcp_bind (rcp_try (RCP_GetPortEnable io slot port)) (\<lambda>r. case r of
                 Inl _ \<Rightarrow> rcp_ret ()
               | Inr portstatus \<Rightarrow>
                   if portstatus \<noteq> 0 then rcp_dev_mod io (\<lambda>d. d\<lparr>rd_loopStatus := rd_loopStatus d AND NOT b\<rparr>)
                   else rcp_dev_mod io (\<lambda>d. d\<lparr>rd_loopAndDown := rd_loopAndDown d AND NOT b\<rparr>))
          else rcp_ret ())
         (rcp_then
           (if bit portlist phyPort \<and> port \<noteq> mgtPort
            then rcp_then (rcp_dev_mod io (\<lambda>d. d\<lparr>rd_loopStatus := rd_loopStatus d OR b\<rparr>))
                   (rcp_bind (rcp_try (RCP_SetPortEnable io 1 port 1 RCP_CONFIG_REGISTER)) (\<lambda>r. case r of
                      Inl _ \<Rightarrow> rcp_ret ()
                    | Inr _ \<Rightarrow> rcp_dev_mod io (\<lambda>d. d\<lparr>rd_loopAndDown := rd_loopAndDown d OR b\<rparr>)))
            else rcp_ret ())
           (loop_ports io portlist mgtPort (slot, port) ps))))"

definition loop_check :: "'s rcp_io \<Rightarrow> nat \<Rightarrow> nat \<times> nat \<Rightarrow> ('s, unit) rcp" where
  "loop_check io junkp sp =
     rcp_bind (mgt_port_or io junkp) (\<lambda>mgtPort.
     rcp_bind (rcp_try (RCP_GetLoopPort io)) (\<lambda>r. case r of
       Inl _ \<Rightarrow> rcp_ret ()
     | Inr portlist \<Rightarrow> rcp_bind (rcp_dev_get io rd_numOfPorts) (\<lambda>n. loop_ports io portlist mgtPort sp [0..<n])))"

definition rcp_loopdetect_monitor_round :: "'w rcp_env \<Rightarrow> nat \<Rightarrow> nat \<times> nat \<Rightarrow> bool \<Rightarrow> ('w mon, unit) rcp" where
  "rcp_loopdetect_monitor_round env junkp sp mgt =
     (if mgt then rcp_each (\<lambda>i. mon_if_valid i (sys_op (loop_check (rcp_link env i) junkp sp))) [1..<MAX_RRCP_SWITCH_TO_MANAGE] else rcp_ret ())"

end
