(* ===== verification/Rcp_Setting.thy ===== *)
theory Rcp_Setting
  imports Rcp_Link
begin

text \<open>
  The settings of an attached switch that are one field of a register: reading a setting after
  it was written gives what was written, through the frames of the link, and the other settings stay.
  The settings are the ones whose \<^verbatim>\<open>RCP_Set...\<close> function writes that field and nothing else.
\<close>

section \<open>The settings\<close>

datatype global_setting =
  FullDuplexFC | HalfDuplexFC | BroadcastFC | MulticastFC | BroadcastStormFilter | LoopDetect |
  IGMPSnooping | QosDiffPriority | QosVlanPriority | QosMapMode | QosAdapterFC | QosPrioRatio | VlanEnable |
  VlanUnicastLeaky | VlanMulticastLeaky | VlanArpLeaky | Vlan8021Q | Vlan8021QTagOnly | VlanIRMember |
  VlanIngressFilter | AtuAgingEnable | AtuFastAgingEnable | AtuCtrlFrameFilter

datatype port_setting =
  MIBRxObject | MIBTxObject | MIBDnObject | PortRxBandwidth | PortTxBandwidth | QosPortPriority |
  VlanPortIDAssignment | VlanOutPortTag | VlanInsertPVID | MirrorPort | MirrorRxPort | MirrorTxPort |
  AtuLearning

datatype rcp_setting = Global global_setting | Port port_setting nat nat

primrec get_global :: "'s rcp_io \<Rightarrow> global_setting \<Rightarrow> ('s, u16) rcp" where
  "get_global io FullDuplexFC = RCP_GetFullDuplexFC io"
| "get_global io HalfDuplexFC = RCP_GetHalfDuplexFC io"
| "get_global io BroadcastFC = RCP_GetBroadcastFC io"
| "get_global io MulticastFC = RCP_GetMulticastFC io"
| "get_global io BroadcastStormFilter = RCP_GetBroadcastStormFilter io"
| "get_global io LoopDetect = RCP_GetLoopDetect io"
| "get_global io IGMPSnooping = RCP_GetIGMPSnooping io"
| "get_global io QosDiffPriority = RCP_GetQosDiffPriority io"
| "get_global io QosVlanPriority = RCP_GetQosVlanPriority io"
| "get_global io QosMapMode = RCP_GetQosMapMode io"
| "get_global io QosAdapterFC = RCP_GetQosAdapterFC io"
| "get_global io QosPrioRatio = RCP_GetQosPrioRatio io"
| "get_global io VlanEnable = RCP_GetVlanEnable io"
| "get_global io VlanUnicastLeaky = RCP_GetVlanUnicastLeaky io"
| "get_global io VlanMulticastLeaky = RCP_GetVlanMulticastLeaky io"
| "get_global io VlanArpLeaky = RCP_GetVlanArpLeaky io"
| "get_global io Vlan8021Q = RCP_GetVlan8021Q io"
| "get_global io Vlan8021QTagOnly = RCP_GetVlan8021QTagOnly io"
| "get_global io VlanIRMember = RCP_GetVlanIRMember io"
| "get_global io VlanIngressFilter = RCP_GetVlanIngressFilter io"
| "get_global io AtuAgingEnable = RCP_GetAtuAgingEnable io"
| "get_global io AtuFastAgingEnable = RCP_GetAtuFastAgingEnable io"
| "get_global io AtuCtrlFrameFilter = RCP_GetAtuCtrlFrameFilter io"

primrec set_global :: "'s rcp_io \<Rightarrow> global_setting \<Rightarrow> u16 \<Rightarrow> u32 \<Rightarrow> ('s, unit) rcp" where
  "set_global io FullDuplexFC data flag = RCP_SetFullDuplexFC io data flag"
| "set_global io HalfDuplexFC data flag = RCP_SetHalfDuplexFC io data flag"
| "set_global io BroadcastFC data flag = RCP_SetBroadcastFC io data flag"
| "set_global io MulticastFC data flag = RCP_SetMulticastFC io data flag"
| "set_global io BroadcastStormFilter data flag = RCP_SetBroadcastStormFilter io data flag"
| "set_global io LoopDetect data flag = RCP_SetLoopDetect io data flag"
| "set_global io IGMPSnooping data flag = RCP_SetIGMPSnooping io data flag"
| "set_global io QosDiffPriority data flag = RCP_SetQosDiffPriority io data flag"
| "set_global io QosVlanPriority data flag = RCP_SetQosVlanPriority io data flag"
| "set_global io QosMapMode data flag = RCP_SetQosMapMode io data flag"
| "set_global io QosAdapterFC data flag = RCP_SetQosAdapterFC io data flag"
| "set_global io QosPrioRatio data flag = RCP_SetQosPrioRatio io data flag"
| "set_global io VlanEnable data flag = RCP_SetVlanEnable io data flag"
| "set_global io VlanUnicastLeaky data flag = RCP_SetVlanUnicastLeaky io data flag"
| "set_global io VlanMulticastLeaky data flag = RCP_SetVlanMulticastLeaky io data flag"
| "set_global io VlanArpLeaky data flag = RCP_SetVlanArpLeaky io data flag"
| "set_global io Vlan8021Q data flag = RCP_SetVlan8021Q io data flag"
| "set_global io Vlan8021QTagOnly data flag = RCP_SetVlan8021QTagOnly io data flag"
| "set_global io VlanIRMember data flag = RCP_SetVlanIRMember io data flag"
| "set_global io VlanIngressFilter data flag = RCP_SetVlanIngressFilter io data flag"
| "set_global io AtuAgingEnable data flag = RCP_SetAtuAgingEnable io data flag"
| "set_global io AtuFastAgingEnable data flag = RCP_SetAtuFastAgingEnable io data flag"
| "set_global io AtuCtrlFrameFilter data flag = RCP_SetAtuCtrlFrameFilter io data flag"

primrec get_port :: "'s rcp_io \<Rightarrow> port_setting \<Rightarrow> nat \<Rightarrow> nat \<Rightarrow> ('s, u16) rcp" where
  "get_port io MIBRxObject slot port = RCP_GetMIBRxObject io slot port"
| "get_port io MIBTxObject slot port = RCP_GetMIBTxObject io slot port"
| "get_port io MIBDnObject slot port = RCP_GetMIBDnObject io slot port"
| "get_port io PortRxBandwidth slot port = RCP_GetPortRxBandwidth io slot port"
| "get_port io PortTxBandwidth slot port = RCP_GetPortTxBandwidth io slot port"
| "get_port io QosPortPriority slot port = RCP_GetQosPortPriority io slot port"
| "get_port io VlanPortIDAssignment slot port = RCP_GetVlanPortIDAssignment io slot port"
| "get_port io VlanOutPortTag slot port = RCP_GetVlanOutPortTag io slot port"
| "get_port io VlanInsertPVID slot port = RCP_GetVlanInsertPVID io slot port"
| "get_port io MirrorPort slot port = RCP_GetMirrorPort io slot port"
| "get_port io MirrorRxPort slot port = RCP_GetMirrorRxPort io slot port"
| "get_port io MirrorTxPort slot port = RCP_GetMirrorTxPort io slot port"
| "get_port io AtuLearning slot port = RCP_GetAtuLearning io slot port"

primrec set_port :: "'s rcp_io \<Rightarrow> port_setting \<Rightarrow> nat \<Rightarrow> nat \<Rightarrow> u16 \<Rightarrow> u32 \<Rightarrow> ('s, unit) rcp" where
  "set_port io MIBRxObject slot port data flag = RCP_SetMIBRxObject io slot port data flag"
| "set_port io MIBTxObject slot port data flag = RCP_SetMIBTxObject io slot port data flag"
| "set_port io MIBDnObject slot port data flag = RCP_SetMIBDnObject io slot port data flag"
| "set_port io PortRxBandwidth slot port data flag = RCP_SetPortRxBandwidth io slot port data flag"
| "set_port io PortTxBandwidth slot port data flag = RCP_SetPortTxBandwidth io slot port data flag"
| "set_port io QosPortPriority slot port data flag = RCP_SetQosPortPriority io slot port data flag"
| "set_port io VlanPortIDAssignment slot port data flag = RCP_SetVlanPortIDAssignment io slot port data flag"
| "set_port io VlanOutPortTag slot port data flag = RCP_SetVlanOutPortTag io slot port data flag"
| "set_port io VlanInsertPVID slot port data flag = RCP_SetVlanInsertPVID io slot port data flag"
| "set_port io MirrorPort slot port data flag = RCP_SetMirrorPort io slot port data flag"
| "set_port io MirrorRxPort slot port data flag = RCP_SetMirrorRxPort io slot port data flag"
| "set_port io MirrorTxPort slot port data flag = RCP_SetMirrorTxPort io slot port data flag"
| "set_port io AtuLearning slot port data flag = RCP_SetAtuLearning io slot port data flag"

definition get_setting :: "'s rcp_io \<Rightarrow> rcp_setting \<Rightarrow> ('s, u16) rcp" where
  "get_setting io x = (case x of Global g \<Rightarrow> get_global io g | Port p slot port \<Rightarrow> get_port io p slot port)"

definition set_setting :: "'s rcp_io \<Rightarrow> rcp_setting \<Rightarrow> u16 \<Rightarrow> u32 \<Rightarrow> ('s, unit) rcp" where
  "set_setting io x data flag = (case x of Global g \<Rightarrow> set_global io g data flag | Port p slot port \<Rightarrow> set_port io p slot port data flag)"

lemmas global_setting_defs = RCP_GetFullDuplexFC_def RCP_SetFullDuplexFC_def
  RCP_GetHalfDuplexFC_def RCP_SetHalfDuplexFC_def RCP_GetBroadcastFC_def RCP_SetBroadcastFC_def
  RCP_GetMulticastFC_def RCP_SetMulticastFC_def
  RCP_GetBroadcastStormFilter_def RCP_SetBroadcastStormFilter_def RCP_GetLoopDetect_def RCP_SetLoopDetect_def
  RCP_GetIGMPSnooping_def RCP_SetIGMPSnooping_def RCP_GetQosDiffPriority_def RCP_SetQosDiffPriority_def
  RCP_GetQosVlanPriority_def RCP_SetQosVlanPriority_def RCP_GetQosMapMode_def RCP_SetQosMapMode_def
  RCP_GetQosAdapterFC_def RCP_SetQosAdapterFC_def RCP_GetQosPrioRatio_def RCP_SetQosPrioRatio_def
  RCP_GetVlanEnable_def RCP_SetVlanEnable_def RCP_GetVlanUnicastLeaky_def RCP_SetVlanUnicastLeaky_def
  RCP_GetVlanMulticastLeaky_def RCP_SetVlanMulticastLeaky_def RCP_GetVlanArpLeaky_def RCP_SetVlanArpLeaky_def
  RCP_GetVlan8021Q_def RCP_SetVlan8021Q_def RCP_GetVlan8021QTagOnly_def RCP_SetVlan8021QTagOnly_def
  RCP_GetVlanIRMember_def RCP_SetVlanIRMember_def RCP_GetVlanIngressFilter_def RCP_SetVlanIngressFilter_def
  RCP_GetAtuAgingEnable_def RCP_SetAtuAgingEnable_def
  RCP_GetAtuFastAgingEnable_def RCP_SetAtuFastAgingEnable_def
  RCP_GetAtuCtrlFrameFilter_def RCP_SetAtuCtrlFrameFilter_def

lemmas port_setting_defs = RCP_GetMIBRxObject_def RCP_SetMIBRxObject_def RCP_GetMIBTxObject_def RCP_SetMIBTxObject_def
  RCP_GetMIBDnObject_def RCP_SetMIBDnObject_def RCP_GetPortRxBandwidth_def RCP_SetPortRxBandwidth_def
  RCP_GetPortTxBandwidth_def RCP_SetPortTxBandwidth_def RCP_GetQosPortPriority_def RCP_SetQosPortPriority_def
  RCP_GetVlanPortIDAssignment_def RCP_SetVlanPortIDAssignment_def
  RCP_GetVlanOutPortTag_def RCP_SetVlanOutPortTag_def RCP_GetVlanInsertPVID_def RCP_SetVlanInsertPVID_def
  RCP_GetMirrorPort_def RCP_SetMirrorPort_def RCP_GetMirrorRxPort_def RCP_SetMirrorRxPort_def
  RCP_GetMirrorTxPort_def RCP_SetMirrorTxPort_def RCP_GetAtuLearning_def RCP_SetAtuLearning_def

section \<open>Their fields\<close>

text \<open>
  The data sheet: register, lowest bit and width of each field of the switch; for a port the first
  register, the number of ports in a register, the bits per port, the lowest bit and the width.
\<close>

primrec global_field :: "global_setting \<Rightarrow> nat \<times> nat \<times> nat" where
  "global_field FullDuplexFC = (0x0607, 0, 1)"
| "global_field HalfDuplexFC = (0x0607, 0, 1)"
| "global_field BroadcastFC = (0x0607, 2, 1)"
| "global_field MulticastFC = (0x0607, 3, 1)"
| "global_field BroadcastStormFilter = (0x0607, 4, 1)"
| "global_field LoopDetect = (0x0200, 2, 1)"
| "global_field IGMPSnooping = (0x0308, 0, 1)"
| "global_field QosDiffPriority = (0x0400, 0, 1)"
| "global_field QosVlanPriority = (0x0400, 1, 1)"
| "global_field QosMapMode = (0x0400, 0, 2)"
| "global_field QosAdapterFC = (0x0400, 2, 1)"
| "global_field QosPrioRatio = (0x0400, 3, 2)"
| "global_field VlanEnable = (0x030B, 0, 1)"
| "global_field VlanUnicastLeaky = (0x030B, 1, 1)"
| "global_field VlanMulticastLeaky = (0x030B, 3, 1)"
| "global_field VlanArpLeaky = (0x030B, 2, 1)"
| "global_field Vlan8021Q = (0x030B, 4, 1)"
| "global_field Vlan8021QTagOnly = (0x030B, 5, 1)"
| "global_field VlanIRMember = (0x030B, 6, 1)"
| "global_field VlanIngressFilter = (0x030B, 6, 1)"
| "global_field AtuAgingEnable = (0x0300, 0, 1)"
| "global_field AtuFastAgingEnable = (0x0300, 1, 1)"
| "global_field AtuCtrlFrameFilter = (0x0300, 2, 1)"

primrec port_field :: "port_setting \<Rightarrow> nat \<times> nat \<times> nat \<times> nat \<times> nat" where
  "port_field MIBRxObject = (0x0700, 2, 6, 0, 2)"
| "port_field MIBTxObject = (0x0700, 2, 6, 2, 2)"
| "port_field MIBDnObject = (0x0700, 2, 6, 4, 2)"
| "port_field PortRxBandwidth = (0x020A, 2, 8, 0, 4)"
| "port_field PortTxBandwidth = (0x020A, 2, 8, 4, 4)"
| "port_field QosPortPriority = (0x0401, 16, 1, 0, 1)"
| "port_field VlanPortIDAssignment = (0x030C, 2, 8, 0, 5)"
| "port_field VlanOutPortTag = (0x0319, 8, 2, 0, 2)"
| "port_field VlanInsertPVID = (0x037D, 16, 1, 0, 1)"
| "port_field MirrorPort = (0x0219, 16, 1, 0, 1)"
| "port_field MirrorRxPort = (0x021B, 16, 1, 0, 1)"
| "port_field MirrorTxPort = (0x021D, 16, 1, 0, 1)"
| "port_field AtuLearning = (0x0301, 16, 1, 1, 1)"

text \<open>A field that lies inside its register. The two conditions are the ports for which the code's
  arithmetic leaves the register: the learning bit of the sixteenth port, and the PVID bits beyond port 15.\<close>

definition port_place :: "port_setting \<Rightarrow> nat \<Rightarrow> (nat \<times> nat \<times> nat) option" where
  "port_place p i = (case port_field p of (base, packed, width, pos, len) \<Rightarrow>
     if i < 26 \<and> (p = AtuLearning \<longrightarrow> i \<noteq> 15) \<and> (p = VlanInsertPVID \<longrightarrow> i < 16)
     then Some (base + i div packed, pos + i mod packed * width, len) else None)"

definition setting_place :: "nat \<Rightarrow> rcp_setting \<Rightarrow> (nat \<times> nat \<times> nat) option" where
  "setting_place dv x = (case x of Global g \<Rightarrow> Some (global_field g)
     | Port p slot port \<Rightarrow> (case RCPLPort2Port dv slot port of Inl _ \<Rightarrow> None | Inr (_, i) \<Rightarrow> port_place p i))"

text \<open>Different settings that share bits, two pairs of which are the same setting under two names.\<close>

definition shares_bits :: "rcp_setting \<Rightarrow> rcp_setting \<Rightarrow> bool" where
  "shares_bits x y \<longleftrightarrow> x = y \<or>
     (\<exists>s\<in>{{FullDuplexFC, HalfDuplexFC}, {VlanIRMember, VlanIngressFilter}, {QosMapMode, QosDiffPriority}, {QosMapMode, QosVlanPriority}}.
        x \<in> Global ` s \<and> y \<in> Global ` s)"

definition apart :: "nat \<times> nat \<times> nat \<Rightarrow> nat \<times> nat \<times> nat \<Rightarrow> bool" where
  "apart f g = (case (f, g) of ((a, off, len), (a', off', len')) \<Rightarrow> a \<noteq> a' \<or> off + len \<le> off' \<or> off' + len' \<le> off)"

lemma global_apart: "\<not> shares_bits (Global g) (Global h) \<Longrightarrow> apart (global_field g) (global_field h)"
  by (cases g; cases h) (simp_all add: apart_def shares_bits_def)

lemma port_ranges:
  assumes "port_place p i = Some (a, off, len)"
  shows "i < 26" "a = fst (port_field p) + i div fst (snd (port_field p))" "off + len \<le> 16" "a < 0x800"
  using assms by (auto simp: port_place_def split: prod.splits if_splits) (cases p; auto; presburger)+

lemma RCPLPort2Port_Inr:
  assumes "RCPLPort2Port dv slot port = Inr r"
  shows "slot = 1" "r = (0, port - 1)" "1 \<le> port"
proof -
  have d: "dv < 4" and b: "slot \<noteq> 0" "slot \<le> fst (gDevBoradInfo ! dv)" "1 \<le> port" "port \<le> snd (gDevBoradInfo ! dv)"
    and r: "r = gDevLPortInfo ! dv ! ((slot - 1) * 24 + port)"
    using assms by (auto simp: RCPLPort2Port_def gDevBoradInfo_def split: if_splits)
  from d consider "dv = 0" | "dv = 1" | "dv = 2" | "dv = 3" by linarith
  then have "slot = 1 \<and> r = (0, port - 1)"
    by cases (use b r in \<open>auto simp: gDevBoradInfo_def gDevLPortInfo_def nth_append nth_Cons' le_Suc_eq\<close>)
  then show "slot = 1" "r = (0, port - 1)" "1 \<le> port" using b(3) by auto
qed

lemma setting_place_Port:
  assumes "setting_place dv (Port p slot port) = Some f"
  shows "slot = 1" "1 \<le> port" "port_place p (port - 1) = Some f"
  using assms RCPLPort2Port_Inr [of dv slot port] by (auto simp: setting_place_def split: sum.splits)

lemma global_registers: "fst (global_field g) \<in> {0x0607, 0x0200, 0x0308, 0x0400, 0x030B, 0x0300}" "fst (snd (global_field g)) + snd (snd (global_field g)) \<le> 16"
  by (cases g; simp)+

lemma global_port_apart: "port_place p i = Some f \<Longrightarrow> apart (global_field g) f"
  using global_registers(1) [of g]
  by (cases p) (auto simp: port_place_def apart_def split: if_splits)

lemma step_mult: "m < m' \<Longrightarrow> m * w + w \<le> m' * (w :: nat)"
  using mult_le_mono1 [of "Suc m" m' w] by (simp add: add.commute)

lemma port_place_eq:
  assumes "port_place p i = Some f" "port_field p = (base, packed, width, pos, len)"
  shows "f = (base + i div packed, pos + i mod packed * width, len)" "i div packed \<le> 25 div packed"
  using assms by (auto simp: port_place_def split: if_splits intro: div_le_mono)

lemma same_port_apart:
  assumes f: "port_place p i = Some f" and g: "port_place p j = Some g" and ij: "i \<noteq> j"
  shows "apart f g"
proof -
  obtain b k w o' l where pf: "port_field p = (b, k, w, o', l)" by (metis prod_cases5)
  have lw: "l \<le> w" using pf by (cases p) auto
  note F = port_place_eq [OF f pf] port_place_eq [OF g pf]
  show ?thesis
  proof (cases "i div k = j div k")
    case True
    then have "i mod k \<noteq> j mod k" using ij by (metis div_mult_mod_eq)
    then show ?thesis using lw F step_mult [of "i mod k" "j mod k" w] step_mult [of "j mod k" "i mod k" w]
      by (cases "i mod k < j mod k") (simp_all add: apart_def)
  qed (simp add: apart_def F)
qed

definition port_apart :: "nat \<times> nat \<times> nat \<times> nat \<times> nat \<Rightarrow> nat \<times> nat \<times> nat \<times> nat \<times> nat \<Rightarrow> bool" where
  "port_apart f g = (case (f, g) of ((b, k, w, p, l), (b', k', w', p', l')) \<Rightarrow>
     b + 25 div k < b' \<or> b' + 25 div k' < b \<or>
     b = b' \<and> k = k' \<and> w = w' \<and> p + l \<le> w \<and> p' + l' \<le> w \<and> (p + l \<le> p' \<or> p' + l' \<le> p))"

lemma port_fields_apart: "p \<noteq> q \<Longrightarrow> port_apart (port_field p) (port_field q)"
  by (cases p; cases q) (simp_all add: port_apart_def)

lemma other_port_apart:
  assumes f: "port_place p i = Some f" and g: "port_place q j = Some g" and pq: "p \<noteq> q"
  shows "apart f g"
proof -
  obtain b k w o1 l where pf: "port_field p = (b, k, w, o1, l)" by (metis prod_cases5)
  obtain b' k' w' o2 l' where qf: "port_field q = (b', k', w', o2, l')" by (metis prod_cases5)
  note F = port_place_eq [OF f pf] port_place_eq [OF g qf]
  have a: "port_apart (b, k, w, o1, l) (b', k', w', o2, l')" using port_fields_apart [OF pq] pf qf by simp
  show ?thesis
  proof (cases "b + i div k = b' + j div k'")
    case True
    then have e: "b = b'" "k = k'" "w = w'" "o1 + l \<le> w" "o2 + l' \<le> w" "o1 + l \<le> o2 \<or> o2 + l' \<le> o1"
      using a F by (auto simp: port_apart_def)
    consider "i mod k < j mod k" | "i mod k = j mod k" | "j mod k < i mod k" by linarith
    then show ?thesis using e F step_mult [of "i mod k" "j mod k" w] step_mult [of "j mod k" "i mod k" w]
      by cases (auto simp: apart_def)
  qed (simp add: apart_def F)
qed

lemma setting_places_apart:
  assumes x: "setting_place dv x = Some f" and y: "setting_place dv y = Some g" and n: "\<not> shares_bits x y"
  shows "apart f g"
proof (cases x)
  case gx: (Global a)
  then have f: "f = global_field a" using x by (simp add: setting_place_def)
  show ?thesis
  proof (cases y)
    case (Global b)
    then show ?thesis using global_apart [of a b] n gx f y by (simp add: setting_place_def)
  next
    case (Port q slot port)
    with setting_place_Port [of dv q slot port g] y show ?thesis using global_port_apart f by blast
  qed
next
  case px: (Port p slot port)
  with x have fp: "slot = 1" "1 \<le> port" "port_place p (port - 1) = Some f" using setting_place_Port by blast+
  show ?thesis
  proof (cases y)
    case (Global b)
    then have "apart (global_field b) f" using global_port_apart fp by blast
    then show ?thesis using Global y by (auto simp: apart_def setting_place_def split: prod.splits)
  next
    case (Port q slot' port')
    with y have gp: "slot' = 1" "1 \<le> port'" "port_place q (port' - 1) = Some g" using setting_place_Port by blast+
    show ?thesis
    proof (cases "p = q")
      case True
      then have "port - 1 \<noteq> port' - 1" using n px Port fp gp by (auto simp: shares_bits_def)
      then show ?thesis using same_port_apart fp gp True by blast
    qed (use other_port_apart fp gp in blast)
  qed
qed

section \<open>On a switch\<close>

lemma port_registers: "port_place p i = Some (a, off, len) \<Longrightarrow> a \<notin> {0x0209, 0x0217, 0x0218, 0x0500, 0x0501, 0x0502}"
  by (cases p) (auto simp: port_place_def split: if_splits)

lemma setting_place_bounds:
  assumes "setting_place dv x = Some (a, off, len)"
  shows "a < 0x800" "off + len \<le> 16" "of_nat a \<notin> sw_ctl" "(of_nat a :: u16) \<noteq> RT8326_RRCP_AUTHKEY"
proof -
  have "a < 0x800 \<and> off + len \<le> 16 \<and> a \<notin> {0x0209, 0x0217, 0x0218, 0x0500, 0x0501, 0x0502}"
  proof (cases x)
    case (Global g)
    then show ?thesis using assms global_registers [of g] by (auto simp: setting_place_def)
  next
    case (Port p slot port)
    with assms have "port_place p (port - 1) = Some (a, off, len)" using setting_place_Port by blast
    then show ?thesis using port_ranges(3,4) port_registers by blast
  qed
  then have a: "a < 0x800" "off + len \<le> 16" and n: "a \<notin> {0x0209, 0x0217, 0x0218, 0x0500, 0x0501, 0x0502}" by auto
  from a show "a < 0x800" "off + len \<le> 16" by auto
  have u: "unat (of_nat a :: u16) = a" using a by (simp add: unat_of_nat take_bit_nat_eq_self)
  then have e: "of_nat a = w \<Longrightarrow> a = unat w" for w :: u16 by auto
  show "of_nat a \<notin> sw_ctl" "(of_nat a :: u16) \<noteq> RT8326_RRCP_AUTHKEY"
    using n by (auto simp: sw_ctl_def dest!: e)
qed

lemma phy_of_switch: "RCPLPort2Port (rd_deviceId (sw_dev v)) slot port = Inr (u, i) \<Longrightarrow> phy_of sw_io slot port v = Some (Inr i, v)"
  by (simp add: phy_of_def rcp_lift_def rcp_ret_def)

lemma port_on_switch:
  assumes i: "RCPLPort2Port (rd_deviceId (sw_dev v)) slot port = Inr (u, i)" and f: "port_place p i = Some (a, off, len)"
  shows "get_port sw_io p slot port v = RCP_GetRegField sw_io (of_nat a) off len v"
    "set_port sw_io p slot port data flag v = RCP_SetRegField sw_io (of_nat a) off len data flag v"
proof -
  have q: "i > 15 \<Longrightarrow> i < 26 \<Longrightarrow> i div 16 = 1" "\<not> i > 15 \<Longrightarrow> i div 16 = 0" by auto
  show "get_port sw_io p slot port v = RCP_GetRegField sw_io (of_nat a) off len v"
    "set_port sw_io p slot port data flag v = RCP_SetRegField sw_io (of_nat a) off len data flag v"
    using f q phy_of_switch [OF i]
    by (cases p; auto simp: port_place_def port_setting_defs port_get_def port_set_def rcp_regs rcp_positions split: if_splits)+
qed

lemma setting_on_switch:
  assumes "setting_place (rd_deviceId (sw_dev v)) x = Some (a, off, len)"
  shows "get_setting sw_io x v = RCP_GetRegField sw_io (of_nat a) off len v"
    "set_setting sw_io x data flag v = RCP_SetRegField sw_io (of_nat a) off len data flag v"
proof -
  have "get_setting sw_io x v = RCP_GetRegField sw_io (of_nat a) off len v \<and>
    set_setting sw_io x data flag v = RCP_SetRegField sw_io (of_nat a) off len data flag v"
  proof (cases x)
    case (Global g)
    then show ?thesis using assms by (cases g) (auto simp: setting_place_def get_setting_def set_setting_def global_setting_defs)
  next
    case (Port p slot port)
    with assms obtain u i where "RCPLPort2Port (rd_deviceId (sw_dev v)) slot port = Inr (u, i)" "port_place p i = Some (a, off, len)"
      by (auto simp: setting_place_def split: sum.splits)
    from port_on_switch [OF this] Port show ?thesis by (simp add: get_setting_def set_setting_def)
  qed
  then show "get_setting sw_io x v = RCP_GetRegField sw_io (of_nat a) off len v"
    "set_setting sw_io x data flag v = RCP_SetRegField sw_io (of_nat a) off len data flag v" by auto
qed

lemma setting_read: "setting_place (rd_deviceId (sw_dev v)) x = Some (a, off, len) \<Longrightarrow>
    get_setting sw_io x v = Some (Inr (field_get off len (sw_regs v (of_nat a))), v)"
  by (simp add: setting_on_switch)

lemma setting_written:
  assumes "setting_place (rd_deviceId (sw_dev v)) x = Some (a, off, len)"
  shows "set_setting sw_io x data RCP_CONFIG_REGISTER v = Some (Inr (), sw_upd (of_nat a) (field_set off len data (sw_regs v (of_nat a))) v)"
  using setting_place_bounds [OF assms] setting_on_switch(2) [OF assms]
  by (simp add: RCP_SetRegField_def rcp_flags rcp_then_def rcp_ret_def sw_write_plain)

text \<open>What a read after a write gives.\<close>

lemma read_written:
  fixes data :: u16
  assumes x: "setting_place (rd_deviceId (sw_dev v)) x = Some (a, off, len)" and y: "setting_place (rd_deviceId (sw_dev v)) y = Some (b, off', len')"
  defines "v' \<equiv> sw_upd (of_nat a) (field_set off len data (sw_regs v (of_nat a))) v"
  shows "field_get off len (sw_regs v' (of_nat a)) = take_bit len data"
    "\<not> shares_bits x y \<Longrightarrow> field_get off' len' (sw_regs v' (of_nat b)) = field_get off' len' (sw_regs v (of_nat b))"
proof -
  note bx = setting_place_bounds [OF x] and byy = setting_place_bounds [OF y]
  show "field_get off len (sw_regs v' (of_nat a)) = take_bit len data" using bx by (simp add: v'_def field_get_set)
  assume n: "\<not> shares_bits x y"
  have d: "a \<noteq> b \<or> off + len \<le> off' \<or> off' + len' \<le> off" using setting_places_apart [OF x y n] by (simp add: apart_def)
  have "of_nat a \<noteq> (of_nat b :: u16)" if "a \<noteq> b"
  proof
    assume "of_nat a = (of_nat b :: u16)"
    then have "unat (of_nat a :: u16) = unat (of_nat b :: u16)" by simp
    then show False using that bx(1) byy(1) by (simp add: unat_of_nat take_bit_nat_eq_self)
  qed
  with d show "field_get off' len' (sw_regs v' (of_nat b)) = field_get off' len' (sw_regs v (of_nat b))"
    by (cases "a = b") (auto simp: v'_def field_get_set_other)
qed

section \<open>Through the link\<close>

context reg_access
begin

lemma get_global_sim: "rcp_sim ok view (get_global io g) (get_global sw_io g)"
  by (cases g; simp add: global_setting_defs) (intro field_sims)+

lemma set_global_sim: "rcp_sim ok view (set_global io g data flag) (set_global sw_io g data flag)"
  by (cases g; simp add: global_setting_defs) (intro field_sims)+

lemma get_port_sim: "rcp_sim ok view (get_port io p slot port) (get_port sw_io p slot port)"
  by (cases p; simp add: port_setting_defs port_get_def) (intro field_sims)+

lemma set_port_sim: "rcp_sim ok view (set_port io p slot port data flag) (set_port sw_io p slot port data flag)"
  by (cases p; simp add: port_setting_defs port_set_def) (intro field_sims)+

lemma get_setting_sim: "rcp_sim ok view (get_setting io x) (get_setting sw_io x)"
  by (cases x) (simp_all add: get_setting_def get_global_sim get_port_sim)

lemma set_setting_sim: "rcp_sim ok view (set_setting io x data flag) (set_setting sw_io x data flag)"
  by (cases x) (simp_all add: set_setting_def set_global_sim set_port_sim)

end

end
