(* ===== verification/Rcp_Discover.thy ===== *)
theory Rcp_Discover
  imports Rcp_Flash Rcp_Setting
begin

text \<open>
  From the start of the module to a switch whose registers can be read: \<^verbatim>\<open>RCP_Init\<close>, the hello reply of a
  switch, and the link it gives. At the end, a switch that answers frames, on which the properties are tried.
\<close>

section \<open>Initialisation\<close>

definition rcp_ready :: "('w \<Rightarrow> bool) \<Rightarrow> 'w rcp_sys \<Rightarrow> bool" where
  "rcp_ready good s \<longleftrightarrow> good (rcp_world s) \<and> length (rcpDevList s) = 26 \<and> rcpRegList s = replicate 10 None \<and>
     rcp_sems_ok (rcp_os s) (semAccessRcpRegList s) (semAccessRcpChannel s) \<and> sem_map (rcp_os s) (unat (semAccessRcpDevList s)) = Some 1"

lemma sem_store_ok:
  assumes "osal_wf (rcp_os s)" "k < GW_OSAL_MAX_COUNT_SEM" "sem_map (rcp_os s) k = None" "length name \<le> 20"
  obtains i os' where "sem_store name put s = put i (s\<lparr>rcp_os := os'\<rparr>)" "osal_wf os'" "sem_map (rcp_os s) (unat i) = None"
    "sem_map os' = (sem_map (rcp_os s))(unat i \<mapsto> 1)"
proof -
  obtain i os' where "gw_rcp_sem_create name 1 s = (OSAL_OK, Some i, s\<lparr>rcp_os := os'\<rparr>)" "osal_wf os'" "sem_map (rcp_os s) (unat i) = None"
    "sem_map os' = (sem_map (rcp_os s))(unat i \<mapsto> unat (1 :: u32))"
    by (rule rcp_create_ok [OF assms])
  then show thesis by (intro that [of i os']) (simp_all add: sem_store_def)
qed

text \<open>Four free semaphores at the start: the three of the module and one for an access.\<close>

definition free_sems :: "osal \<Rightarrow> nat set" where "free_sems os = {k. k < GW_OSAL_MAX_COUNT_SEM \<and> sem_map os k = None}"

lemma free_sem_ex:
  assumes "0 < card (free_sems os)"
  obtains k where "k < GW_OSAL_MAX_COUNT_SEM" "sem_map os k = None"
proof -
  have "free_sems os \<noteq> {}" using assms by auto
  then show ?thesis using that by (auto simp: free_sems_def)
qed

lemma free_sems_upd:
  assumes "sem_map os' = (sem_map os)(i \<mapsto> v)" "Suc n \<le> card (free_sems os)"
  shows "n \<le> card (free_sems os')"
proof -
  have f: "finite (free_sems os)" by (simp add: free_sems_def)
  have e: "free_sems os - {i} = free_sems os'" using assms(1) by (auto simp: free_sems_def)
  have "card (free_sems os) - 1 \<le> card (free_sems os - {i})" using f by (simp add: card_Diff_singleton_if)
  then show ?thesis using assms(2) e by simp
qed

lemma RCP_Init_ok:
  assumes os: "osal_wf (rcp_os (rm_sys st))" "4 \<le> card (free_sems (rcp_os (rm_sys st)))"
    and mal: "\<And>w. good w \<Longrightarrow> \<exists>w1. ev_malloc env w = (True, w1) \<and> good w1" and g: "good (rcp_world (rm_sys st))"
    and fe: "\<And>b n w. good w \<Longrightarrow> good (snd (fe_restore fe b n w))"
  shows "\<exists>st' w. RCP_Init env fe almask st = (0, st') \<and> rcp_ready good (rm_sys st') \<and> rcpDevList (rm_sys st') = replicate 26 None \<and>
    rm_fifo st' = Some alarm_fifo_init \<and> good w \<and>
    rm_buf st' = Some (fst (fe_restore fe (replicate 4160 0) glSwitchCfgFileSizeMaxInFlash w)) \<and> gucRcpAlarmMask (rm_sys st') = almask \<and>
    vlan_dot_1q_enable (rm_sys st') = vlan_dot_1q_enable (rm_sys st) \<and> gulGwdRcpAuth (rm_sys st') = gulGwdRcpAuth (rm_sys st) \<and>
    gulEthRxTaskReady (rm_sys st') = gulEthRxTaskReady (rm_sys st)"
proof -
  let ?s = "rm_sys st"
  from mal [OF g] obtain w1 where w1: "ev_malloc env (rcp_world ?s) = (True, w1)" "good w1" by blast
  from mal [OF w1(2)] obtain w2 where w2: "ev_malloc env w1 = (True, w2)" "good w2" by blast
  obtain buf w3 where w3: "fe_restore fe (replicate 4160 0) glSwitchCfgFileSizeMaxInFlash w2 = (buf, w3)" by fastforce
  then have g3: "good w3" using fe [OF w2(2)] by (metis snd_conv)
  let ?sA = "?s\<lparr>gucRcpAlarmMask := almask, rcpDevList := replicate 26 None, rcpRegList := replicate 10 None\<rparr>"
  let ?sB = "?sA\<lparr>rcp_next := rcp_next ?s + 1, rcp_world := w1\<rparr>"
  let ?sC = "?sA\<lparr>rcp_next := rcp_next ?s + 1 + 1, rcp_world := w2\<rparr>"
  let ?sD = "?s\<lparr>gucRcpAlarmMask := almask, rcpDevList := replicate 26 None, rcpRegList := replicate 10 None, rcp_next := rcp_next ?s + 1 + 1, rcp_world := w3\<rparr>"
  have m1: "rcp_malloc env ?sA = (Some (rcp_next ?s), ?sB)" using w1(1) by (simp add: rcp_malloc_def)
  have m2: "rcp_malloc env ?sB = (Some (rcp_next ?s + 1), ?sC)" using w2(1) by (simp add: rcp_malloc_def)
  have fr: "device_conf_read_switch_conf_from_flash fe (replicate (160 * 26) 0) glSwitchCfgFileSizeMaxInFlash ?sC = (buf, ?sD)"
    using w3 by (simp add: device_conf_read_switch_conf_from_flash_def)
  have os0: "rcp_os ?sD = rcp_os ?s" by simp
  obtain k1 where "k1 < GW_OSAL_MAX_COUNT_SEM" "sem_map (rcp_os ?s) k1 = None" by (rule free_sem_ex [OF less_le_trans [OF _ os(2)]]) simp_all
  with sem_store_ok [of ?sD k1 "''rcp_devlst''" "\<lambda>i s. s\<lparr>semAccessRcpDevList := i\<rparr>"] os(1) os0
  obtain i1 o1 where i1: "sem_store ''rcp_devlst'' (\<lambda>i s. s\<lparr>semAccessRcpDevList := i\<rparr>) ?sD = ?sD\<lparr>rcp_os := o1, semAccessRcpDevList := i1\<rparr>"
    "osal_wf o1" "sem_map (rcp_os ?s) (unat i1) = None" "sem_map o1 = (sem_map (rcp_os ?s))(unat i1 \<mapsto> 1)" by auto
  let ?s1 = "?sD\<lparr>rcp_os := o1, semAccessRcpDevList := i1\<rparr>"
  have c1: "3 \<le> card (free_sems o1)" using free_sems_upd [OF i1(4), of 3] os(2) by simp
  obtain k2 where "k2 < GW_OSAL_MAX_COUNT_SEM" "sem_map o1 k2 = None" by (rule free_sem_ex [OF less_le_trans [OF _ c1]]) simp_all
  with sem_store_ok [of ?s1 k2 "''rcp_chan''" "\<lambda>i s. s\<lparr>semAccessRcpChannel := i\<rparr>"] i1(2)
  obtain i2 o2 where i2: "sem_store ''rcp_chan'' (\<lambda>i s. s\<lparr>semAccessRcpChannel := i\<rparr>) ?s1 = ?s1\<lparr>rcp_os := o2, semAccessRcpChannel := i2\<rparr>"
    "osal_wf o2" "sem_map o1 (unat i2) = None" "sem_map o2 = (sem_map o1)(unat i2 \<mapsto> 1)" by auto
  let ?s2 = "?s1\<lparr>rcp_os := o2, semAccessRcpChannel := i2\<rparr>"
  have c2: "2 \<le> card (free_sems o2)" using free_sems_upd [OF i2(4), of 2] c1 by simp
  obtain k3 where "k3 < GW_OSAL_MAX_COUNT_SEM" "sem_map o2 k3 = None" by (rule free_sem_ex [OF less_le_trans [OF _ c2]]) simp_all
  with sem_store_ok [of ?s2 k3 "''rcp reglist''" "\<lambda>i s. s\<lparr>semAccessRcpRegList := i\<rparr>"] i2(2)
  obtain i3 o3 where i3: "sem_store ''rcp reglist'' (\<lambda>i s. s\<lparr>semAccessRcpRegList := i\<rparr>) ?s2 = ?s2\<lparr>rcp_os := o3, semAccessRcpRegList := i3\<rparr>"
    "osal_wf o3" "sem_map o2 (unat i3) = None" "sem_map o3 = (sem_map o2)(unat i3 \<mapsto> 1)" by auto
  let ?s3 = "?s2\<lparr>rcp_os := o3, semAccessRcpRegList := i3\<rparr>"
  have c3: "1 \<le> card (free_sems o3)" using free_sems_upd [OF i3(4), of 1] c2 by simp
  obtain k4 where k4: "k4 < GW_OSAL_MAX_COUNT_SEM" "sem_map o3 k4 = None" by (rule free_sem_ex [OF less_le_trans [OF _ c3]]) simp_all
  have "RCP_Init env fe almask st = (0, \<lparr>rm_sys = ?s3, rm_fifo = Some alarm_fifo_init, rm_buf = Some buf\<rparr>)"
    unfolding RCP_Init_def Let_def rcp_sizes
    by (simp only: m1 m2 fr i1(1) i2(1) i3(1) prod.case option.case)
  moreover have "rcp_ready good ?s3"
  proof -
    have n: "unat i2 \<noteq> unat i1" "unat i3 \<noteq> unat i2" "unat i3 \<noteq> unat i1" using i1(4) i2(3,4) i3(3) by (auto split: if_splits)
    then have "sem_map o3 (unat i1) = Some 1" "sem_map o3 (unat i2) = Some 1" "sem_map o3 (unat i3) = Some 1"
      by (simp_all add: i3(4) i2(4) i1(4))
    then show ?thesis using n i3(2) k4 g3 by (simp add: rcp_ready_def rcp_sems_ok_def exI [of _ k4])
  qed
  ultimately show ?thesis
    by (intro exI [of _ "\<lparr>rm_sys = ?s3, rm_fifo = Some alarm_fifo_init, rm_buf = Some buf\<rparr>"] exI [of _ w2] conjI) (simp_all add: w3 w2(2))
qed

section \<open>Hello\<close>

text \<open>The reply of a switch that has the key of this firmware, as an untagged frame of 60 bytes.\<close>

definition rcp_hello_reply :: "u8 list \<Rightarrow> u8 list \<Rightarrow> u8 \<Rightarrow> u8 list \<Rightarrow> u8 list \<Rightarrow> u8 list \<Rightarrow> u8 list" where
  "rcp_hello_reply parentMac switchMac downLink upMac chip vendor =
     parentMac @ switchMac @ [0x88, 0x99, 0x01, 0x80, 0x23, 0x79, downLink, 0] @ upMac @ chip @ vendor @ replicate 28 0"

definition hello_dev :: "nat \<Rightarrow> u8 list \<Rightarrow> u8 list \<Rightarrow> u8 \<Rightarrow> u8 list \<Rightarrow> u8 list \<Rightarrow> u8 \<Rightarrow> rcp_dev" where
  "hello_dev p parentMac switchMac downLink chip vendor al =
     rcp_dev_zero\<lparr>rd_parentMac := parentMac, rd_parentPort := of_nat p, rd_paSlot := 1, rd_paPort := of_nat p, rd_switchMac := switchMac,
       rd_chipID := chip, rd_vendorID := vendor, rd_upLinkPort := downLink, rd_authenKey := [0x23, 0x79], rd_phyAddr := 0x10, rd_alarmMask := al\<rparr>"

lemma hello_parts:
  fixes downLink :: u8
  assumes len: "length parentMac = 6" "length switchMac = 6" "length upMac = 6" "length chip = 2" "length vendor = 4"
  defines "f \<equiv> rcp_hello_reply parentMac switchMac downLink upMac chip vendor"
  defines "pkt \<equiv> take RCP_PKT_MAX_LENGTH (take 12 f @ [0x81, 0, 0, 0x01] @ drop 12 f @ replicate RCP_PKT_MAX_LENGTH 0)"
  shows "length f = 60" "f ! 12 = 0x88" "pkt_sub pkt 6 3 = Some (take 3 switchMac)" "pkt_sub pkt 16 2 = Some [0x88, 0x99]" "pkt_sub pkt 18 2 = Some [0x01, 0x80]"
    "pkt_sub pkt 30 2 = Some chip" "pkt_sub pkt 0 6 = Some parentMac"
    "pkt_sub pkt 0 36 = Some (parentMac @ switchMac @ [0x81, 0, 0, 0x01, 0x88, 0x99, 0x01, 0x80, 0x23, 0x79, downLink, 0] @ upMac @ chip @ vendor)"
proof -
  obtain p0 p1 p2 p3 p4 p5 where p: "parentMac = [p0, p1, p2, p3, p4, p5]" using len(1) by (auto simp: list6)
  obtain m0 m1 m2 m3 m4 m5 where m: "switchMac = [m0, m1, m2, m3, m4, m5]" using len(2) by (auto simp: list6)
  obtain u0 u1 u2 u3 u4 u5 where u: "upMac = [u0, u1, u2, u3, u4, u5]" using len(3) by (auto simp: list6)
  obtain c0 c1 where c: "chip = [c0, c1]" using len(4) by (auto simp: list2)
  obtain v0 v1 v2 v3 where v: "vendor = [v0, v1, v2, v3]" using len(5) by (auto simp: list4)
  have f: "f = [p0, p1, p2, p3, p4, p5, m0, m1, m2, m3, m4, m5, 0x88, 0x99, 0x01, 0x80, 0x23, 0x79, downLink, 0, u0, u1, u2, u3, u4, u5, c0, c1, v0, v1, v2, v3] @ replicate 28 0"
    by (simp add: f_def rcp_hello_reply_def p m u c v)
  have r: "replicate 80 0 = replicate 16 (0 :: u8) @ replicate 64 0" "replicate 44 0 = replicate 28 (0 :: u8) @ replicate 16 0"
    by (simp_all flip: replicate_add)
  have pkt: "pkt = [p0, p1, p2, p3, p4, p5, m0, m1, m2, m3, m4, m5, 0x81, 0, 0, 0x01, 0x88, 0x99, 0x01, 0x80, 0x23, 0x79, downLink, 0, u0, u1, u2, u3, u4, u5, c0, c1, v0, v1, v2, v3] @ replicate 44 0"
    unfolding pkt_def f RCP_PKT_MAX_LENGTH_def r by simp
  show "length f = 60" "f ! 12 = 0x88" unfolding f by simp_all
  show "pkt_sub pkt 6 3 = Some (take 3 switchMac)" "pkt_sub pkt 16 2 = Some [0x88, 0x99]" "pkt_sub pkt 18 2 = Some [0x01, 0x80]"
    "pkt_sub pkt 30 2 = Some chip" "pkt_sub pkt 0 6 = Some parentMac"
    "pkt_sub pkt 0 36 = Some (parentMac @ switchMac @ [0x81, 0, 0, 0x01, 0x88, 0x99, 0x01, 0x80, 0x23, 0x79, downLink, 0] @ upMac @ chip @ vendor)"
    unfolding pkt by (simp_all add: pkt_sub_def m p u c v)
qed

lemma hello_ok:
  assumes len: "length parentMac = 6" "length switchMac = 6" "length upMac = 6" "length chip = 2" "length vendor = 4"
    and chip: "chip \<in> {[0x0c, 0], [0x0d, 0], [0x0e, 0]}"
    and d: "d < 26" "length (rcpDevList s) = 26" "rcpDevList s ! d = None"
    and vl: "\<not> vlan_dot_1q_enable s" "gulGwdRcpAuth s \<longrightarrow> take 3 switchMac = [0x00, 0x0f, 0xe9]"
    and mal: "ev_malloc env (rcp_world s) = (True, w1)"
    and os: "osal_wf (rcp_os s)" "sem_map (rcp_os s) (unat (semAccessRcpDevList s)) = Some 1"
  obtains os' where "RcpFrameRevHandle env d (rcp_hello_reply parentMac switchMac downLink upMac chip vendor) s =
      Some (1, s\<lparr>rcp_next := rcp_next s + 1, rcp_world := w1,
        rcpDevList := (rcpDevList s)[d := Some (hello_dev d parentMac switchMac downLink chip vendor (gucRcpAlarmMask s))], rcp_os := os'\<rparr>)"
    "osal_wf os'" "sem_map os' = sem_map (rcp_os s)"
proof -
  let ?f = "rcp_hello_reply parentMac switchMac downLink upMac chip vendor"
  define pkt where "pkt = take RCP_PKT_MAX_LENGTH (take 12 ?f @ [0x81, 0, 0, 0x01] @ drop 12 ?f @ replicate RCP_PKT_MAX_LENGTH 0)"
  note parts = hello_parts [OF len, where downLink = downLink, folded pkt_def]
  let ?sem = "semAccessRcpDevList s"
  obtain o1 where o1: "gw_rcp_sem_take ?sem (-1) s = Some (OSAL_OK, s\<lparr>rcp_os := o1\<rparr>)" "osal_wf o1" "sem_map o1 = (sem_map (rcp_os s))(unat ?sem \<mapsto> 0)"
    using rcp_take_ok [of s ?sem 0 "-1"] os by auto
  let ?new = "hello_dev d parentMac switchMac downLink chip vendor (gucRcpAlarmMask s)"
  let ?t = "s\<lparr>rcp_os := o1, rcp_next := rcp_next s + 1, rcp_world := w1, rcpDevList := (rcpDevList s)[d := Some ?new]\<rparr>"
  have t: "osal_wf (rcp_os ?t)" "sem_map (rcp_os ?t) (unat ?sem) = Some 0" "(0::nat) < 1000" using o1 by simp_all
  obtain o2 where o2: "gw_rcp_sem_give ?sem ?t = ?t\<lparr>rcp_os := o2\<rparr>" "osal_wf o2" "sem_map o2 = (sem_map (rcp_os ?t))(unat ?sem \<mapsto> Suc 0)"
    by (rule rcp_give_ok [OF t])
  have auth: "Rcp_ChipId_AuthCheck pkt = Some 0"
    using chip by (auto simp: Rcp_ChipId_AuthCheck_def RCP_HELLO_CHIPID_OFFSET_def parts)
  let ?c = "s\<lparr>rcp_os := o1, rcp_next := rcp_next s + 1, rcp_world := w1, rcpDevList := (rcpDevList s)[d := Some (rcp_dev_zero\<lparr>rd_parentMac := parentMac, rd_parentPort := of_nat d, rd_paSlot := 1, rd_paPort := of_nat d\<rparr>)]\<rparr>"
  have z: "rcp_dev_zero\<lparr>rd_mgtVid := 0\<rparr> = rcp_dev_zero" by (simp add: rcp_dev_zero_def)
  have create: "rcp_dev_create env d pkt (s\<lparr>rcp_os := o1\<rparr>) = Some (True, ?c)"
    using mal vl d by (simp add: rcp_dev_create_def rcp_malloc_def mgt_vid_set_def rcp_dev_upd_def parts Let_def z)
  define P where "P = parentMac @ switchMac @ [0x81, 0, 0, 0x01, 0x88, 0x99, 0x01, 0x80, 0x23, 0x79, downLink, 0] @ upMac @ chip @ vendor"
  have p: "take 6 (drop 6 P) = switchMac" "take 2 (drop 30 P) = chip" "take 4 (drop 32 P) = vendor" "P ! 22 = downLink" "take 2 (drop 20 P) = [0x23, 0x79]"
    using len by (simp_all add: P_def nth_append)
  have b: "pkt_sub pkt 0 36 = Some P" unfolding P_def by (rule parts)
  have upd: "RCP_DevList_Update env d pkt s = Some (0, ?t\<lparr>rcp_os := o2\<rparr>)"
    unfolding RCP_DevList_Update_def auth o1(1) rcp_sizes option.case bind.simps prod.case
    using d vl o2(1) by (simp add: create b p mgt_vid_set_def rcp_dev_upd_def Let_def hello_dev_def rcp_dev_zero_def)
  have "rrcp_packet_handler env d pkt s = Some (0, ?t\<lparr>rcp_os := o2\<rparr>)"
    using vl upd by (simp add: rrcp_packet_handler_def parts del: if_split)
  then have "RcpFrameRevHandle env d ?f s = Some (1, ?t\<lparr>rcp_os := o2\<rparr>)"
    unfolding RcpFrameRevHandle_def pkt_def [symmetric] by (simp add: parts(1,2) RCP_PKT_MAX_LENGTH_def)
  moreover have "sem_map o2 = sem_map (rcp_os s)" using o1(3) o2(3) os by (auto simp: fun_eq_iff)
  ultimately show thesis using o2(2) that [of o2] by simp
qed

section \<open>From the start to the registers\<close>

text \<open>The conditions on a hello reply: the lengths of its fields, a known type of switch, and the vendor when it is checked.\<close>

record hello =
  he_parentMac :: "u8 list"
  he_switchMac :: "u8 list"
  he_downLink :: u8
  he_upMac :: "u8 list"
  he_chip :: "u8 list"
  he_vendor :: "u8 list"

definition hello_wf :: "bool \<Rightarrow> hello \<Rightarrow> bool" where
  "hello_wf auth h \<longleftrightarrow> length (he_parentMac h) = 6 \<and> length (he_switchMac h) = 6 \<and> length (he_upMac h) = 6 \<and>
     he_chip h \<in> {[0x0c, 0], [0x0d, 0], [0x0e, 0]} \<and> length (he_vendor h) = 4 \<and> (auth \<longrightarrow> take 3 (he_switchMac h) = [0x00, 0x0f, 0xe9])"

definition hello_reply :: "hello \<Rightarrow> u8 list" where
  "hello_reply h = rcp_hello_reply (he_parentMac h) (he_switchMac h) (he_downLink h) (he_upMac h) (he_chip h) (he_vendor h)"

definition dev_of_hello :: "nat \<Rightarrow> hello \<Rightarrow> u8 \<Rightarrow> rcp_dev" where
  "dev_of_hello d h al = hello_dev d (he_parentMac h) (he_switchMac h) (he_downLink h) (he_chip h) (he_vendor h) al"

lemma hello_link:
  assumes r: "rcp_ready good s" and d: "d < 26" "rcpDevList s ! d = None" and v: "\<not> vlan_dot_1q_enable s"
    and h: "hello_wf (gulGwdRcpAuth s) h" and c: "rcp_conforms env vw good d False (dev_of_hello d h (gucRcpAlarmMask s))"
  shows "\<exists>s'. RcpFrameRevHandle env d (hello_reply h) s = Some (1, s') \<and> rcp_link_ok env vw good d s' \<and>
    rcp_dev_at s' d = Some (dev_of_hello d h (gucRcpAlarmMask s)) \<and> vw (rcp_world s') = vw (rcp_world s)"
proof -
  have g: "good (rcp_world s)" and o: "osal_wf (rcp_os s)" "sem_map (rcp_os s) (unat (semAccessRcpDevList s)) = Some 1"
    and len: "length (rcpDevList s) = 26" using r by (auto simp: rcp_ready_def rcp_sems_ok_def)
  obtain w1 where w1: "ev_malloc env (rcp_world s) = (True, w1)" "good w1" "vw w1 = vw (rcp_world s)"
    using c g unfolding rcp_conforms_def by blast
  have hp: "length (he_parentMac h) = 6" "length (he_switchMac h) = 6" "length (he_upMac h) = 6" "length (he_chip h) = 2" "length (he_vendor h) = 4"
    "he_chip h \<in> {[0x0c, 0], [0x0d, 0], [0x0e, 0]}" "gulGwdRcpAuth s \<longrightarrow> take 3 (he_switchMac h) = [0x00, 0x0f, 0xe9]"
    using h by (auto simp: hello_wf_def)
  obtain os' where f: "RcpFrameRevHandle env d (hello_reply h) s =
      Some (1, s\<lparr>rcp_next := rcp_next s + 1, rcp_world := w1,
        rcpDevList := (rcpDevList s)[d := Some (dev_of_hello d h (gucRcpAlarmMask s))], rcp_os := os'\<rparr>)"
    "osal_wf os'" "sem_map os' = sem_map (rcp_os s)"
    unfolding hello_reply_def dev_of_hello_def by (rule hello_ok [OF hp(1-6) d(1) len d(2) v hp(7) w1(1) o])
  have wf: "rcp_dev_wf (dev_of_hello d h al)" "rd_switchMac (dev_of_hello d h al) = he_switchMac h" for al
    using hp by (simp_all add: rcp_dev_wf_def dev_of_hello_def hello_dev_def)
  show ?thesis
    using f r d v c w1 len wf hp(7)
    by (simp add: rcp_link_ok_def rcp_ready_def rcp_sems_ok_def rcp_dev_at_def MAX_RRCP_SWITCH_TO_MANAGE_def MAX_RTL_REG_TO_ACCESS_def)
qed

lemma discover:
  assumes os: "osal_wf (rcp_os (rm_sys st))" "4 \<le> card (free_sems (rcp_os (rm_sys st)))"
    and g: "good (rcp_world (rm_sys st))" and fe: "\<And>b n w. good w \<Longrightarrow> good (snd (fe_restore fe b n w))"
    and d: "d < 26" and v: "\<not> vlan_dot_1q_enable (rm_sys st)" and h: "hello_wf (gulGwdRcpAuth (rm_sys st)) h"
    and c: "rcp_conforms env vw good d False (dev_of_hello d h almask)"
  shows "\<exists>st1 s2 w. RCP_Init env fe almask st = (0, st1) \<and> RcpFrameRevHandle env d (hello_reply h) (rm_sys st1) = Some (1, s2) \<and>
    rcp_link_ok env vw good d s2 \<and> rcp_dev_at s2 d = Some (dev_of_hello d h almask) \<and> good w \<and>
    rm_buf st1 = Some (fst (fe_restore fe (replicate 4160 0) glSwitchCfgFileSizeMaxInFlash w))"
proof -
  have m: "\<exists>w1. ev_malloc env w = (True, w1) \<and> good w1" if "good w" for w using c that by (auto simp: rcp_conforms_def)
  from RCP_Init_ok [where good = good, OF os m g fe]
  obtain st1 w where st1: "RCP_Init env fe almask st = (0, st1)" "rcp_ready good (rm_sys st1)" "rcpDevList (rm_sys st1) = replicate 26 None" "good w"
    "rm_buf st1 = Some (fst (fe_restore fe (replicate 4160 0) glSwitchCfgFileSizeMaxInFlash w))" "gucRcpAlarmMask (rm_sys st1) = almask"
    "vlan_dot_1q_enable (rm_sys st1) = vlan_dot_1q_enable (rm_sys st)" "gulGwdRcpAuth (rm_sys st1) = gulGwdRcpAuth (rm_sys st)" by blast
  from st1(3,6-8) d v h c hello_link [OF st1(2) d, of h env vw] show ?thesis using st1(1,4,5) by auto
qed

section \<open>A switch that answers frames\<close>

text \<open>The switch of a test bench, on port 1: it takes the frames apart as they are on the wire.\<close>

record bench =
  bn_switch :: rcp_switch
  bn_replies :: "(nat \<times> u8 list) list"
  bn_flash :: "u16 list"

definition bench_hello :: hello where
  "bench_hello = \<lparr>he_parentMac = [0, 1, 2, 3, 4, 5], he_switchMac = [0x00, 0x0f, 0xe9, 1, 2, 3], he_downLink = 0,
     he_upMac = [0, 1, 2, 3, 4, 5], he_chip = [0x0c, 0], he_vendor = [1, 0, 0, 0]\<rparr>"

definition bench_dev :: rcp_dev where "bench_dev = dev_of_hello 1 bench_hello 0"

definition bench_send :: "nat \<Rightarrow> u8 list \<Rightarrow> bench \<Rightarrow> int \<times> bench" where
  "bench_send p f w =
     (let a = GET_RCP_PKT_SHORT (take 2 (drop 18 f)) in
      if take 2 (drop 12 f) \<noteq> [0x88, 0x99] then (0, w)
      else if f ! 15 = 1 then (0, w\<lparr>bn_replies := [(p, rcp_reply False bench_dev a (sw_vals (bn_switch w) a))]\<rparr>)
      else if f ! 15 = 2 then (0, w\<lparr>bn_switch := sw_write a (GET_RCP_PKT_SHORT (take 2 (drop 20 f))) (bn_switch w)\<rparr>)
      else (0, w))"

definition bench_env :: "bench rcp_env" where
  "bench_env = \<lparr>ev_malloc = \<lambda>w. (True, w), ev_send = bench_send, ev_recv = \<lambda>w. (bn_replies w, w\<lparr>bn_replies := []\<rparr>),
     ev_pvid = \<lambda>_ w. (None, w), ev_oper_up = \<lambda>_ w. (True, w), ev_local_mac = [0, 1, 2, 3, 4, 5], ev_semret = \<lambda>_. 0\<rparr>"

definition bench_flash :: "bench flash_env" where
  "bench_flash = \<lparr>fe_save = \<lambda>b _ w. (0, w\<lparr>bn_flash := b\<rparr>), fe_restore = \<lambda>_ _ w. (bn_flash w, w)\<rparr>"

definition bench_good :: "bench \<Rightarrow> bool" where "bench_good w \<longleftrightarrow> bn_replies w = []"

definition bench_sys :: "bench \<Rightarrow> bench rcp_sys" where
  "bench_sys w = \<lparr>rcpDevList = [], rcpRegList = [], rcp_os = gw_osal_core_init, semAccessRcpDevList = 0, semAccessRcpChannel = 0, semAccessRcpRegList = 0,
     rcp_next = 0, vlan_dot_1q_enable = False, gulGwdRcpAuth = True, gulEthRxTaskReady = True, gucRcpAlarmMask = 0, rcp_world = w\<rparr>"

definition bench_mod :: "bench \<Rightarrow> bench rcp_mod" where
  "bench_mod w = \<lparr>rm_sys = bench_sys w, rm_fifo = None, rm_buf = None\<rparr>"

lemma bench_frames:
  "take 2 (drop 12 (rcp_get_frame False bench_dev a)) = [0x88, 0x99]" "rcp_get_frame False bench_dev a ! 15 = 1"
  "take 2 (drop 18 (rcp_get_frame False bench_dev a)) = rcp_short a"
  "take 2 (drop 12 (rcp_set_frame False bench_dev a x)) = [0x88, 0x99]" "rcp_set_frame False bench_dev a x ! 15 = 2"
  "take 2 (drop 18 (rcp_set_frame False bench_dev a x)) = rcp_short a" "take 2 (drop 20 (rcp_set_frame False bench_dev a x)) = rcp_short x"
  by (simp_all add: rcp_get_frame_def rcp_set_frame_def rcp_frame_def bench_dev_def bench_hello_def dev_of_hello_def hello_dev_def rcp_short_def Let_def)

lemma bench_conforms: "rcp_conforms bench_env bn_switch bench_good 1 False bench_dev"
proof -
  have p: "unat (rd_paPort bench_dev) = 1" by (simp add: bench_dev_def dev_of_hello_def hello_dev_def)
  show ?thesis
    unfolding rcp_conforms_def p
    by (auto simp: bench_env_def bench_send_def bench_frames rcp_short_get bench_good_def Let_def)
qed

lemma free_sems_init: "card (free_sems gw_osal_core_init) = GW_OSAL_MAX_COUNT_SEM"
proof -
  have "free_sems gw_osal_core_init = {..<GW_OSAL_MAX_COUNT_SEM}" by (auto simp: free_sems_def sem_map_def gw_osal_core_init_def sem_zero_def)
  then show ?thesis by simp
qed

lemma bench_start:
  "osal_wf (rcp_os (rm_sys (bench_mod w)))" "4 \<le> card (free_sems (rcp_os (rm_sys (bench_mod w))))" "rcp_world (rm_sys (bench_mod w)) = w"
  "\<not> vlan_dot_1q_enable (rm_sys (bench_mod w))" "hello_wf (gulGwdRcpAuth (rm_sys (bench_mod w))) bench_hello"
  by (simp_all add: bench_mod_def bench_sys_def osal_wf_init free_sems_init GW_OSAL_MAX_COUNT_SEM_def hello_wf_def bench_hello_def)

section \<open>The property\<close>

text \<open>
  C10. A switch that announces itself can be managed. When \<^verbatim>\<open>RCP_Init\<close> has run on an operating-system
  layer with four free semaphores, and a switch on port \<open>d\<close> answers the hello with a well-formed reply of a
  known type (and of the vendor, when that is checked), the frame handler enters it in the device table with the
  addresses of the reply. From then on the read of any register, through the list of waiting accesses, the
  semaphores, the request frame and the reply frame, returns the value that the switch holds.
\<close>

theorem switch_discovered:
  assumes os: "osal_wf (rcp_os (rm_sys st))" "4 \<le> card (free_sems (rcp_os (rm_sys st)))"
    and g: "good (rcp_world (rm_sys st))" and fe: "\<And>b n w. good w \<Longrightarrow> good (snd (fe_restore fe b n w))"
    and d: "d < 26" and v: "\<not> vlan_dot_1q_enable (rm_sys st)" and h: "hello_wf (gulGwdRcpAuth (rm_sys st)) h"
    and c: "rcp_conforms env vw good d False (dev_of_hello d h almask)"
  shows "\<exists>st1 s2. RCP_Init env fe almask st = (0, st1) \<and> RcpFrameRevHandle env d (hello_reply h) (rm_sys st1) = Some (1, s2) \<and>
    rcp_dev_at s2 d = Some (dev_of_hello d h almask) \<and>
    (\<forall>a. \<exists>s3. RCP_Read_Reg env d a s2 = Some (Inr (sw_regs (rcp_view vw d s2) a), s3) \<and> rcp_view vw d s3 = rcp_view vw d s2)"
proof -
  from discover [OF assms] obtain st1 s2 where r: "RCP_Init env fe almask st = (0, st1)"
    "RcpFrameRevHandle env d (hello_reply h) (rm_sys st1) = Some (1, s2)" "rcp_link_ok env vw good d s2"
    "rcp_dev_at s2 d = Some (dev_of_hello d h almask)" by blast
  with RCP_Read_Reg_ok [OF r(3)] show ?thesis by blast
qed

theorem switch_discovered_witness:
  "\<exists>st1 s2. RCP_Init bench_env bench_flash 0 (bench_mod \<lparr>bn_switch = \<lparr>sw_vals = \<lambda>a. ucast a, sw_ee = \<lambda>_. 0, sw_phy = \<lambda>_. 0, sw_dev = bench_dev\<rparr>, bn_replies = [], bn_flash = []\<rparr>) = (0, st1) \<and>
    RcpFrameRevHandle bench_env 1 (hello_reply bench_hello) (rm_sys st1) = Some (1, s2) \<and>
    rcp_dev_at s2 1 = Some bench_dev \<and>
    (\<forall>a. \<exists>s3. RCP_Read_Reg bench_env 1 a s2 = Some (Inr (sw_regs (rcp_view bn_switch 1 s2) a), s3) \<and> rcp_view bn_switch 1 s3 = rcp_view bn_switch 1 s2)"
  unfolding bench_dev_def
  by (rule switch_discovered [where good = bench_good, OF bench_start(1,2) _ _ _ bench_start(4,5) bench_conforms [unfolded bench_dev_def]])
    (simp_all add: bench_start bench_good_def bench_flash_def)

end
