(* ===== verification/Rcp_Correct.thy ===== *)
theory Rcp_Correct
  imports Rcp_Discover
begin

text \<open>
  What holds of the settings of an attached switch, through the frames, the semaphores and the list of waiting
  accesses: a setting that is written is the one that is read, in the registers and in the EEPROM, and
  the settings in the flash memory survive a power cycle.
\<close>

section \<open>Settings\<close>

text \<open>The state in which a switch of type \<open>dv\<close> is attached to port \<open>d\<close>.\<close>

definition attached :: "'w rcp_env \<Rightarrow> ('w \<Rightarrow> rcp_switch) \<Rightarrow> ('w \<Rightarrow> bool) \<Rightarrow> nat \<Rightarrow> nat \<Rightarrow> 'w rcp_sys \<Rightarrow> bool" where
  "attached env vw good d dv s \<longleftrightarrow> rcp_link_ok env vw good d s \<and> map_option rd_deviceId (rcp_dev_at s d) = Some dv"

lemma attachedD:
  assumes "attached env vw good d dv s"
  shows "rcp_link_ok env vw good d s" "rd_deviceId (sw_dev (rcp_view vw d s)) = dv"
  using assms by (auto simp: attached_def rcp_view_def)

lemma attached_view:
  assumes "rcp_link_ok env vw good d s" "rd_deviceId (sw_dev (rcp_view vw d s)) = dv"
  shows "attached env vw good d dv s"
  using assms by (auto simp: attached_def rcp_view_def elim: rcp_link_okE)

lemma link_get_setting:
  assumes "attached env vw good d dv s" "setting_place dv x = Some (a, off, len)"
  shows "\<exists>s'. get_setting (rcp_link env d) x s = Some (Inr (field_get off len (sw_regs (rcp_view vw d s) (of_nat a))), s') \<and>
    attached env vw good d dv s' \<and> rcp_view vw d s' = rcp_view vw d s"
proof -
  note a = attachedD [OF assms(1)]
  have "setting_place (rd_deviceId (sw_dev (rcp_view vw d s))) x = Some (a, off, len)" using assms(2) a(2) by simp
  from rcp_simD [OF link.get_setting_sim a(1) setting_read [OF this]]
  obtain s' where s': "get_setting (rcp_link env d) x s = Some (Inr (field_get off len (sw_regs (rcp_view vw d s) (of_nat a))), s')"
    "rcp_link_ok env vw good d s'" "rcp_view vw d s' = rcp_view vw d s" by blast
  with attached_view [OF s'(2)] a(2) show ?thesis by auto
qed

lemma link_set_setting:
  assumes "attached env vw good d dv s" "setting_place dv x = Some (a, off, len)"
  shows "\<exists>s'. set_setting (rcp_link env d) x data RCP_CONFIG_REGISTER s = Some (Inr (), s') \<and> attached env vw good d dv s' \<and>
    rcp_view vw d s' = sw_upd (of_nat a) (field_set off len data (sw_regs (rcp_view vw d s) (of_nat a))) (rcp_view vw d s)"
proof -
  note a = attachedD [OF assms(1)]
  have "setting_place (rd_deviceId (sw_dev (rcp_view vw d s))) x = Some (a, off, len)" using assms(2) a(2) by simp
  from rcp_simD [OF link.set_setting_sim a(1) setting_written [OF this]]
  obtain s' where s': "set_setting (rcp_link env d) x data RCP_CONFIG_REGISTER s = Some (Inr (), s')" "rcp_link_ok env vw good d s'"
    "rcp_view vw d s' = sw_upd (of_nat a) (field_set off len data (sw_regs (rcp_view vw d s) (of_nat a))) (rcp_view vw d s)" by blast
  with attached_view [OF s'(2)] a(2) show ?thesis by auto
qed

text \<open>
  C11. A setting of an attached switch that has a place in its registers, set in the register, takes the value:
  its getter then gives the bits of the argument that the field has room for, and every other setting, whether of the
  switch or of one of its ports, keeps the value that its getter gave before, unless it is one of the settings
  that share bits with the one set. The accesses succeed, and the switch stays attached. This holds of the mirrored ports
  as well: the comment of \<^verbatim>\<open>RCP_SetMirrorPort\<close> says that only one port can be set as mirrored and that the others cannot be set
  after it, the code sets the bit of any port and leaves those of the others.
\<close>

theorem setting_roundtrip:
  assumes at: "attached env vw good d dv s" and x: "setting_place dv x = Some (a, off, len)"
  shows "\<exists>s1. set_setting (rcp_link env d) x data RCP_CONFIG_REGISTER s = Some (Inr (), s1) \<and> attached env vw good d dv s1 \<and>
    (\<exists>s2. get_setting (rcp_link env d) x s1 = Some (Inr (take_bit len data), s2) \<and> attached env vw good d dv s2) \<and>
    (\<forall>y. setting_place dv y \<noteq> None \<longrightarrow> \<not> shares_bits x y \<longrightarrow>
       (\<exists>v s0 s2. get_setting (rcp_link env d) y s = Some (Inr v, s0) \<and> get_setting (rcp_link env d) y s1 = Some (Inr v, s2)))"
proof -
  let ?v = "rcp_view vw d s"
  have dv: "rd_deviceId (sw_dev ?v) = dv" using attachedD(2) [OF at] .
  from link_set_setting [OF at x, of data] obtain s1 where s1: "set_setting (rcp_link env d) x data RCP_CONFIG_REGISTER s = Some (Inr (), s1)"
    "attached env vw good d dv s1" "rcp_view vw d s1 = sw_upd (of_nat a) (field_set off len data (sw_regs ?v (of_nat a))) ?v" by blast
  have own: "field_get off len (sw_regs (rcp_view vw d s1) (of_nat a)) = take_bit len data"
    unfolding s1(3) by (rule read_written(1) [OF x [folded dv] x [folded dv]])
  moreover have "\<exists>v s0 s2. get_setting (rcp_link env d) y s = Some (Inr v, s0) \<and> get_setting (rcp_link env d) y s1 = Some (Inr v, s2)"
    if y: "setting_place dv y \<noteq> None" "\<not> shares_bits x y" for y
  proof -
    from y(1) obtain b off' len' where p: "setting_place dv y = Some (b, off', len')" by (cases "setting_place dv y") auto
    have "field_get off' len' (sw_regs (rcp_view vw d s1) (of_nat b)) = field_get off' len' (sw_regs ?v (of_nat b))"
      unfolding s1(3) by (rule read_written(2) [OF x [folded dv] p [folded dv] y(2)])
    then show ?thesis using link_get_setting [OF at p] link_get_setting [OF s1(2) p] by auto
  qed
  ultimately show ?thesis using s1(1,2) link_get_setting [OF s1(2) x] by auto
qed

section \<open>The EEPROM\<close>

lemma sw_GetEepromField:
  assumes "take_bit 11 ea = ea"
  shows "\<exists>v'. RCP_GetEepromField sw_io ea off len v = Some (Inr (field_get off len (sw_ee v ea)), v') \<and> sw_core v' = sw_core v"
  using sw_GetEepromValue [OF assms, of v] by (auto simp: RCP_GetEepromField_def rcp_ret_def)

lemma sw_SetEepromField:
  assumes "take_bit 11 ea = ea"
  shows "\<exists>v'. RCP_SetEepromField sw_io ea off len d v = Some (Inr (), v') \<and>
    sw_core v' = (sw_core v)\<lparr>sw_ee := (sw_ee v)(ea := field_set off len d (sw_ee v ea))\<rparr>"
proof -
  from sw_GetEepromValue [OF assms, of v] obtain v1 where v1: "RCP_GetEepromValue sw_io ea v = Some (Inr (Some (sw_ee v ea)), v1)" "sw_core v1 = sw_core v" by blast
  from sw_SetEepromValue [OF assms, of "field_set off len d (sw_ee v ea)" v1] v1 sw_core_eqD(3) [OF v1(2)]
  show ?thesis by (auto simp: RCP_SetEepromField_def)
qed

text \<open>The byte of a register in the EEPROM: within the space of addresses, and no field of a setting crosses two bytes.\<close>

lemma ee_tables: "set (eeMgt @ eeQos @ eePort @ eeMirror @ eeBW @ eeVlan) \<subseteq> {w. unat w < 0x180}"
proof -
  have v: "set eeVlan \<subseteq> {w. unat w < 0x180}" by (auto simp: eeVlan_def unat_of_nat take_bit_nat_eq_self)
  have "set (eeMgt @ eeQos @ eePort @ eeMirror @ eeBW) \<subseteq> {w. unat w < 0x180}"
    by (simp add: eeMgt_def eeQos_def eePort_def eeMirror_def eeBW_def)
  with v show ?thesis by auto
qed

lemma ee_half_place:
  assumes "ee_half tab i off len = Some (Inr (ea, eo, el))" "set tab \<subseteq> {w. unat w < 0x180}"
  shows "unat ea < 0x180" "eo = (if off < 8 then off else off - 8)" "el = len"
  using assms by (auto simp: ee_half_def split: if_splits dest: nth_mem)

lemma ee_address:
  assumes "RCP_GetEeaddrFromReg r off len = Some (Inr (ea, eo, el))"
  shows "unat ea < 0x180" "el = len" "off < 8 \<Longrightarrow> eo = off" "r \<notin> {0x0300, 0x0308, 0x030B, 0x0607, 0x0608} \<Longrightarrow> eo = (if off < 8 then off else off - 8)"
proof -
  let ?tabs = "{eeMgt, eeQos, eePort, eeMirror, eeBW, eeVlan}"
  have t: "tab \<in> ?tabs \<Longrightarrow> set tab \<subseteq> {w. unat w < 0x180}" for tab using ee_tables by auto
  have n: "unat r = 0x0300 \<longleftrightarrow> r = 0x0300" "unat r = 0x0308 \<longleftrightarrow> r = 0x0308" "unat r = 0x030B \<longleftrightarrow> r = 0x030B" "unat r = 0x0607 \<longleftrightarrow> r = 0x0607"
    "unat r = 0x0608 \<longleftrightarrow> r = 0x0608" by (simp_all add: word_unat_eq_iff)
  have "(\<exists>tab\<in>?tabs. \<exists>i. ee_half tab i off len = Some (Inr (ea, eo, el))) \<or>
    (r \<in> {0x0300, 0x0308, 0x030B, 0x0607, 0x0608} \<and> ea \<in> {0x22, 0x26, 0x28, 0x38, 0x68, 0x69} \<and> eo = off \<and> el = len)"
    using assms unfolding RCP_GetEeaddrFromReg_def Let_def by (auto simp: n split: if_splits)
  then have "unat ea < 0x180 \<and> el = len \<and> (off < 8 \<longrightarrow> eo = off) \<and> (r \<notin> {0x0300, 0x0308, 0x030B, 0x0607, 0x0608} \<longrightarrow> eo = (if off < 8 then off else off - 8))"
  proof (elim disjE bexE exE)
    fix tab i assume "tab \<in> ?tabs" "ee_half tab i off len = Some (Inr (ea, eo, el))"
    from ee_half_place [OF this(2) t [OF this(1)]] show ?thesis by simp
  qed auto
  then show "unat ea < 0x180" "el = len" "off < 8 \<Longrightarrow> eo = off" "r \<notin> {0x0300, 0x0308, 0x030B, 0x0607, 0x0608} \<Longrightarrow> eo = (if off < 8 then off else off - 8)"
    by blast+
qed

lemma setting_in_byte:
  assumes "setting_place dv x = Some (a, off, len)"
  shows "off < 8 \<Longrightarrow> off + len \<le> 8" "8 \<le> off \<Longrightarrow> off + len \<le> 16 \<and> a \<notin> {0x0300, 0x0308, 0x030B, 0x0607, 0x0608}"
proof -
  have "(off < 8 \<longrightarrow> off + len \<le> 8) \<and> (8 \<le> off \<longrightarrow> off + len \<le> 16 \<and> a \<notin> {0x0300, 0x0308, 0x030B, 0x0607, 0x0608})"
  proof (cases x)
    case (Global g)
    then show ?thesis using assms by (cases g) (auto simp: setting_place_def)
  next
    case (Port p slot port)
    have q: "port_place p (port - 1) = Some (a, off, len)" using assms Port setting_place_Port by blast
    obtain base packed width pos l where f: "port_field p = (base, packed, width, pos, l)" by (metis prod_cases5)
    obtain m k where mk: "off = pos + m * width" "m < packed" "a = base + k" "k \<le> 25 div packed" "len = l"
      using port_place_eq [OF q f] f by (cases p) auto
    have "off < 8 \<longrightarrow> off + len \<le> 8" using f mk by (cases p; auto; presburger)
    moreover have "a \<notin> {0x0300, 0x0308, 0x030B, 0x0607, 0x0608}" using f mk(3,4) by (cases p) auto
    ultimately show ?thesis using port_ranges(3) [OF q] by blast
  qed
  then show "off < 8 \<Longrightarrow> off + len \<le> 8" "8 \<le> off \<Longrightarrow> off + len \<le> 16 \<and> a \<notin> {0x0300, 0x0308, 0x030B, 0x0607, 0x0608}" by auto
qed

lemma setting_in_eeprom:
  assumes x: "setting_place dv x = Some (a, off, len)" and e: "RCP_GetEeaddrFromReg (of_nat a) off len = Some (Inr (ea, eo, el))"
  shows "take_bit 11 ea = ea" "eo + el \<le> 8" "el = len"
proof -
  have u: "unat (of_nat a :: u16) = a" using setting_place_bounds(1) [OF x] by (simp add: unat_of_nat take_bit_nat_eq_self)
  note f = ee_address [OF e] and b = setting_in_byte [OF x]
  have "unat ea < 2 ^ 11" using f(1) by simp
  then show "take_bit 11 ea = ea" by (simp add: word_unat_eq_iff unsigned_take_bit_eq take_bit_nat_eq_self)
  show "el = len" by (rule f)
  have "(of_nat a :: u16) \<notin> {0x0300, 0x0308, 0x030B, 0x0607, 0x0608}" if "a \<notin> {0x0300, 0x0308, 0x030B, 0x0607, 0x0608}"
  proof
    assume "(of_nat a :: u16) \<in> {0x0300, 0x0308, 0x030B, 0x0607, 0x0608}"
    then have "unat (of_nat a :: u16) \<in> {0x0300, 0x0308, 0x030B, 0x0607, 0x0608}" by auto
    with that u show False by simp
  qed
  then show "eo + el \<le> 8" using b f(2-4) by (cases "off < 8") auto
qed

lemma sw_core_upd_plain: "a \<notin> sw_ctl \<Longrightarrow> sw_core (sw_upd a w v) = sw_upd a w (sw_core v)"
  by (auto simp: sw_core_def sw_upd_def fun_eq_iff)

lemma setting_written_both:
  assumes x: "setting_place (rd_deviceId (sw_dev v)) x = Some (a, off, len)"
    and e: "RCP_GetEeaddrFromReg (of_nat a) off len = Some (Inr (ea, eo, el))"
  shows "\<exists>v'. set_setting sw_io x data RCP_CONFIG_2_BOTH v = Some (Inr (), v') \<and>
    sw_core v' = sw_core (sw_upd (of_nat a) (field_set off len data (sw_regs v (of_nat a))) v\<lparr>sw_ee := (sw_ee v)(ea := field_set eo el (ucast data) (sw_ee v ea))\<rparr>)"
proof -
  note b = setting_place_bounds [OF x]
  from sw_SetEepromField [OF setting_in_eeprom(1) [OF x e], of eo el "ucast data" v]
  obtain v1 where v1: "RCP_SetEepromField sw_io ea eo el (ucast data) v = Some (Inr (), v1)"
    "sw_core v1 = (sw_core v)\<lparr>sw_ee := (sw_ee v)(ea := field_set eo el (ucast data) (sw_ee v ea))\<rparr>" by blast
  have r: "sw_regs v1 (of_nat a) = sw_regs v (of_nat a)"
    using arg_cong [OF v1(2), of "\<lambda>v. sw_regs v (of_nat a)"] b(3) by (simp add: sw_core_def sw_regs_def)
  have "set_setting sw_io x data RCP_CONFIG_2_BOTH v = Some (Inr (), sw_upd (of_nat a) (field_set off len data (sw_regs v (of_nat a))) v1)"
    using setting_on_switch(2) [OF x] b(3,4) v1(1) e r
    by (simp add: RCP_SetRegField_def rcp_flags rcp_then_def ee_place_def sw_write_plain)
  moreover have "sw_core (sw_upd (of_nat a) w v1) = sw_core (sw_upd (of_nat a) w v\<lparr>sw_ee := (sw_ee v)(ea := field_set eo el (ucast data) (sw_ee v ea))\<rparr>)" for w
    using v1(2) b(3) by (simp add: sw_core_upd_plain sw_core_upd) (simp add: sw_upd_def)
  ultimately show ?thesis by blast
qed

text \<open>
  A setting of an attached switch that is set in both places, and for whose register there is a byte in the
  EEPROM: the register and the byte take the value. The getter gives it, and the field of the EEPROM
  byte, read as the code reads the EEPROM, gives it as well, which is what the switch starts with when
  it is powered on again; no other byte of the EEPROM changes. For a register without a byte nothing is changed, and the
  call fails with \<^verbatim>\<open>RCP_BAD_PARAM\<close>.
\<close>

theorem setting_in_both:
  assumes at: "attached env vw good d dv s" and x: "setting_place dv x = Some (a, off, len)"
    and e: "RCP_GetEeaddrFromReg (of_nat a) off len = Some r"
  shows "case r of
      Inl c \<Rightarrow> \<exists>s1. set_setting (rcp_link env d) x data RCP_CONFIG_2_BOTH s = Some (Inl c, s1) \<and> rcp_view vw d s1 = rcp_view vw d s
    | Inr (ea, eo, el) \<Rightarrow> \<exists>s1 s2 s3. set_setting (rcp_link env d) x data RCP_CONFIG_2_BOTH s = Some (Inr (), s1) \<and>
        attached env vw good d dv s1 \<and> get_setting (rcp_link env d) x s1 = Some (Inr (take_bit len data), s2) \<and>
        RCP_GetEepromField (rcp_link env d) ea eo el s1 = Some (Inr (take_bit len (ucast data)), s3) \<and>
        (\<forall>b. b \<noteq> ea \<longrightarrow> sw_ee (rcp_view vw d s1) b = sw_ee (rcp_view vw d s) b)"
proof (cases r)
  case (Inl c)
  let ?v = "rcp_view vw d s"
  note a = attachedD [OF at]
  have "set_setting sw_io x data RCP_CONFIG_2_BOTH ?v = Some (Inl c, ?v)"
    using setting_on_switch(2) [of ?v x a off len data RCP_CONFIG_2_BOTH] x a(2) e Inl
    by (simp add: RCP_SetRegField_def rcp_flags rcp_then_def ee_place_def)
  from rcp_simD [OF link.set_setting_sim a(1) this] show ?thesis using Inl by auto
next
  case (Inr p)
  obtain ea eo el where p: "p = (ea, eo, el)" by (cases p) auto
  let ?v = "rcp_view vw d s"
  note a = attachedD [OF at]
  have x': "setting_place (rd_deviceId (sw_dev ?v)) x = Some (a, off, len)" and e': "RCP_GetEeaddrFromReg (of_nat a) off len = Some (Inr (ea, eo, el))"
    using x a(2) e Inr p by simp_all
  note b = setting_place_bounds [OF x] and ee = setting_in_eeprom [OF x e']
  from setting_written_both [OF x' e', of data] obtain v1 where v1: "set_setting sw_io x data RCP_CONFIG_2_BOTH ?v = Some (Inr (), v1)"
    "sw_core v1 = sw_core (sw_upd (of_nat a) (field_set off len data (sw_regs ?v (of_nat a))) ?v\<lparr>sw_ee := (sw_ee ?v)(ea := field_set eo el (ucast data) (sw_ee ?v ea))\<rparr>)"
    by blast
  from rcp_simD [OF link.set_setting_sim a(1) v1(1)] obtain s1 where s1: "set_setting (rcp_link env d) x data RCP_CONFIG_2_BOTH s = Some (Inr (), s1)"
    "rcp_link_ok env vw good d s1" "rcp_view vw d s1 = v1" by blast
  have at1: "attached env vw good d dv s1" using sw_core_eqD(5) [OF v1(2)] a(2) by (intro attached_view s1(2)) (simp add: s1(3))
  have ev: "sw_ee v1 = (sw_ee ?v)(ea := field_set eo el (ucast data) (sw_ee ?v ea))" using sw_core_eqD(3) [OF v1(2)] by simp
  have "sw_regs v1 (of_nat a) = field_set off len data (sw_regs ?v (of_nat a))" using sw_core_eqD(2) [OF v1(2) b(3)] by simp
  then obtain s2 where g: "get_setting (rcp_link env d) x s1 = Some (Inr (take_bit len data), s2)"
    using link_get_setting [OF at1 x] b(2) by (auto simp: s1(3) field_get_set)
  from sw_GetEepromField [OF ee(1), of eo el v1] obtain v2 where "RCP_GetEepromField sw_io ea eo el v1 = Some (Inr (field_get eo el (sw_ee v1 ea)), v2)" by blast
  moreover have "field_get eo el (sw_ee v1 ea) = take_bit len (ucast data)" using ee(2,3) by (simp add: ev field_get_set)
  ultimately obtain s3 where h: "RCP_GetEepromField (rcp_link env d) ea eo el s1 = Some (Inr (take_bit len (ucast data)), s3)"
    using rcp_simD [OF link.GetEepromField_sim s1(2)] s1(3) by fastforce
  show ?thesis unfolding Inr p sum.case prod.case
    using s1 at1 g h by (intro exI conjI) (auto simp: s1(3) ev)
qed

section \<open>The bytes of the EEPROM\<close>

lemma ee_half_value:
  assumes "ee_half tab i off len = Some (Inr (ea, eo, el))"
  obtains k where "k = 2 * i \<or> k = 2 * i + 1" "k < length tab" "ea = tab ! k"
  using assms by (auto simp: ee_half_def split: if_splits)

text \<open>The tables as ranges.\<close>

lemma ee_tables_upt:
  "eeMgt = map of_nat [0xc..<0x1e]" "eeQos = map of_nat [0x2e..<0x34]" "eePort = map of_nat [0x3a..<0x49]"
  "eeMirror = map of_nat [0x72..<0x7c]" "eeBW = map of_nat [0x80..<0x90]"
  by (simp_all add: eeMgt_def eeQos_def eePort_def eeMirror_def eeBW_def)

lemma unat_add_of_nat: "numeral b + k < 0x200 \<Longrightarrow> unat (numeral b + of_nat k :: u16) = numeral b + k"
  using unat_of_nat [of "numeral b + k", where ?'a = 16] by (simp add: take_bit_nat_eq_self)

lemma ee_values:
  "k < length eeMgt \<Longrightarrow> unat (eeMgt ! k) = 0xc + k" "k < length eeQos \<Longrightarrow> unat (eeQos ! k) = 0x2e + k"
  "k < length eePort \<Longrightarrow> unat (eePort ! k) = 0x3a + k" "k < length eeMirror \<Longrightarrow> unat (eeMirror ! k) = 0x72 + k"
  "k < length eeBW \<Longrightarrow> unat (eeBW ! k) = 0x80 + k" "k < length eeVlan \<Longrightarrow> unat (eeVlan ! k) = (if k = 10 then 0x12 else 0x98 + k)"
  using unat_add_of_nat by (auto simp: ee_tables_upt eeVlan_def nth_append nth_Cons' simp del: upt_rec_numeral)

definition ee_range :: "nat \<Rightarrow> nat \<Rightarrow> nat \<Rightarrow> nat \<Rightarrow> nat \<Rightarrow> bool" where
  "ee_range lo hi base n e \<longleftrightarrow> lo \<le> n \<and> n \<le> hi \<and> (e = base + 2 * (n - lo) \<or> e = base + 2 * (n - lo) + 1)"

text \<open>The register of a byte.\<close>

definition ee_register :: "nat \<Rightarrow> nat" where
  "ee_register e =
     (if e \<le> 0x1d then 0x0200 + (e - 0xc) div 2 else if e \<le> 0x23 then 0x0300 else if e \<le> 0x27 then 0x0308 else if e \<le> 0x29 then 0x030B
      else if e \<le> 0x33 then 0x0400 + (e - 0x2e) div 2 else if e \<le> 0x39 then 0x0607 else if e \<le> 0x49 then 0x060A + (e - 0x3a) div 2
      else if e \<le> 0x69 then 0x0608 else if e \<le> 0x7b then 0x0219 + (e - 0x72) div 2 else if e \<le> 0x8f then 0x020A + (e - 0x80) div 2
      else 0x030C + (e - 0x98) div 2)"

lemma ee_ranges:
  assumes "RCP_GetEeaddrFromReg r off len = Some (Inr (ea, eo, el))"
  shows "unat r = 0x0311 \<and> unat ea = 0x12 \<or>
    (\<exists>(lo, hi, base) \<in> {(0x0200, 0x0208, 0xc), (0x020A, 0x0211, 0x80), (0x0219, 0x021D, 0x72), (0x0300, 0x0300, 0x22), (0x0308, 0x0308, 0x26),
       (0x030B, 0x030B, 0x28), (0x030C, 0x037D, 0x98), (0x0400, 0x0402, 0x2e), (0x0607, 0x0607, 0x38), (0x0608, 0x0608, 0x68), (0x060A, 0x0611, 0x3a)}.
      ee_range lo hi base (unat r) (unat ea))"
  using assms unfolding RCP_GetEeaddrFromReg_def Let_def
  by (auto simp: ee_values ee_range_def split: if_splits elim!: ee_half_value)

lemma ee_register_of:
  assumes "RCP_GetEeaddrFromReg r off len = Some (Inr (ea, eo, el))"
  shows "unat r = 0x0311 \<and> unat ea = 0x12 \<or> unat r = ee_register (unat ea)"
  using ee_ranges [OF assms] by (auto simp: ee_range_def ee_register_def)

lemma ee_shared: "ee_register 0x12 = 0x0203" by (simp add: ee_register_def)

text \<open>
  Different registers have different bytes in the EEPROM, with one exception: the lower half of the
  register \<open>0x0203\<close> and that of the VLAN register \<open>0x0311\<close> share the byte \<open>0x12\<close> (the table of the VLAN bytes has
  \<open>0x12\<close> where its neighbours continue with \<open>0xa2\<close>), so saving one of them overwrites the other.
\<close>

theorem eeprom_bytes_apart:
  assumes "RCP_GetEeaddrFromReg r off len = Some (Inr (ea, eo, el))" "RCP_GetEeaddrFromReg r' off' len' = Some (Inr (ea, eo', el'))" "r \<noteq> r'"
  shows "ea = 0x12 \<and> {r, r'} = {0x0203, 0x0311}"
proof -
  have n: "unat r \<noteq> unat r'" using assms(3) by (simp add: word_unat_eq_iff)
  have "unat ea = 0x12 \<and> (unat r = 0x0203 \<and> unat r' = 0x0311 \<or> unat r = 0x0311 \<and> unat r' = 0x0203)"
    using ee_register_of [OF assms(1)] ee_register_of [OF assms(2)] n by (auto simp: ee_shared)
  then show ?thesis by (auto simp: word_unat_eq_iff)
qed

theorem eeprom_bytes_apart_witness:
  "RCP_GetEeaddrFromReg 0x0203 0 8 = Some (Inr (0x12, 0, 8)) \<and> RCP_GetEeaddrFromReg 0x0311 0 8 = Some (Inr (0x12, 0, 8)) \<and>
    {0x0203, 0x0311} = {0x0203, 0x0311 :: u16}"
proof -
  have e: "RCP_GetEeaddrFromReg 0x0203 0 8 = Some (Inr (0x12, 0, 8))" "RCP_GetEeaddrFromReg 0x0311 0 8 = Some (Inr (0x12, 0, 8))"
    by (simp_all add: RCP_GetEeaddrFromReg_def ee_half_def eeMgt_def eeVlan_def nth_append)
  from eeprom_bytes_apart [OF this] e show ?thesis by simp
qed

section \<open>A busy EEPROM\<close>

lemma poll_zero_stuck:
  assumes m: "\<And>s. P s \<Longrightarrow> \<exists>d s'. m s = Some (Inr d, s') \<and> d \<noteq> 0 \<and> P s'" and s: "P s"
  shows "poll_zero m s = None"
proof -
  have "m' = m \<longrightarrow> P u \<longrightarrow> False" if "poll_zero m' u = Some p" for m' u p
  proof (rule poll_zero.raw_induct [OF _ that], intro impI)
    fix pz m' u p
    assume IH: "\<And>m' u p. pz m' u = Some p \<Longrightarrow> m' = m \<longrightarrow> P u \<longrightarrow> False"
      and st: "Option.bind (m' u) (\<lambda>(r, s'). case r of Inl e \<Rightarrow> Some (Inl e, s')
          | Inr d \<Rightarrow> if d \<noteq> 0 then pz m' s' else Some (Inr (), s')) = Some p"
      and h: "m' = m" "P u"
    from m [OF h(2)] obtain d s' where "m u = Some (Inr d, s')" "d \<noteq> 0" "P s'" by blast
    with st h(1) IH [of m s' p] show False by simp
  qed
  then show ?thesis using s by (cases "poll_zero m s") auto
qed

text \<open>
  C39. The access to the EEPROM of a switch has no time-out: while every read of the control register
  succeeds and shows the busy bit, neither the read nor the write of a byte returns.
\<close>

theorem busy_eeprom_hangs:
  assumes r: "\<And>s a. P s \<Longrightarrow> \<exists>w s'. io_read io a s = Some (Inr w, s') \<and> P s' \<and> (a = 0x0217 \<longrightarrow> bit w 12)"
    and w: "\<And>s a x. P s \<Longrightarrow> \<exists>s'. io_write io a x s = Some (Inr (), s') \<and> P s'" and s: "P s"
  shows "RCP_GetEepromValue io ea s = None \<and> RCP_SetEepromValue io ea v s = None"
proof (rule conjI)
  have g: "\<exists>d s'. RCP_GetRegField io 0x0217 12 1 s = Some (Inr d, s') \<and> d \<noteq> 0 \<and> P s'" if p: "P s" for s
  proof -
    from r [OF p, of "0x0217"] obtain x s' where x: "io_read io 0x0217 s = Some (Inr x, s')" "P s'" "bit x 12" by blast
    have "bit (field_get 12 1 x) 0" using x(3) by (simp add: bit_field_get)
    then have "field_get 12 1 x \<noteq> 0" by auto
    with x(1,2) show ?thesis by (simp add: RCP_GetRegField_def rcp_ret_def)
  qed
  have set: "\<exists>s'. RCP_SetRegisterField io a off len d s = Some (Inr (), s') \<and> P s'" if p: "P s" for a off len d s
  proof -
    from r [OF p, of a] obtain x s' where "io_read io a s = Some (Inr x, s')" "P s'" by blast
    with w [of s' a "field_set off len d x"] show ?thesis by (auto simp: RCP_SetRegisterField_def)
  qed
  have stuck: "poll_zero (RCP_GetRegField io 0x0217 12 1) s = None" if "P s" for s
    by (rule poll_zero_stuck [of P, OF g that])
  from set [OF s, of "0x0217" 0 12 "ea OR 0x0800"] obtain s1 where "RCP_SetRegisterField io 0x0217 0 12 (ea OR 0x0800) s = Some (Inr (), s1)" "P s1" by blast
  with stuck [OF this(2)] show "RCP_GetEepromValue io ea s = None" by (simp add: RCP_GetEepromValue_def rcp_then_def)
  from set [OF s, of "0x0218" 0 8 "ucast v"] obtain s2 where s2: "RCP_SetRegisterField io 0x0218 0 8 (ucast v) s = Some (Inr (), s2)" "P s2" by blast
  from set [OF s2(2), of "0x0217" 0 12 ea] obtain s3 where "RCP_SetRegisterField io 0x0217 0 12 ea s2 = Some (Inr (), s3)" "P s3" by blast
  with s2(1) stuck [OF this(2)] show "RCP_SetEepromValue io ea v s = None" by (simp add: RCP_SetEepromValue_def rcp_then_def)
qed

definition busy_io :: "unit rcp_io" where
  "busy_io = \<lparr>io_read = \<lambda>_ s. Some (Inr 0x1000, s), io_read32 = \<lambda>_ s. Some (Inr 0x1000, s), io_write = \<lambda>_ _ s. Some (Inr (), s),
     io_dev = \<lambda>_. bench_dev, io_mod = \<lambda>_ s. s, io_junk = 0\<rparr>"

theorem busy_eeprom_hangs_witness: "RCP_GetEepromValue busy_io 0x80 () = None \<and> RCP_SetEepromValue busy_io 0x80 1 () = None"
proof -
  have b: "bit (0x1000 :: u16) 12" using bit_exp_iff [where ?'a = u16, of 12 12] by simp
  show ?thesis
    using busy_eeprom_hangs [of "\<lambda>_. True" busy_io "()"] b by (simp add: busy_io_def)
qed

end
