(* ===== verification/Rcp_Power.thy ===== *)
theory Rcp_Power
  imports Rcp_Correct
begin

text \<open>
  The settings of an attached switch in the flash memory, over a power cycle: saved through the link, read back by
  \<^verbatim>\<open>RCP_Init\<close>, and restored when the switch has announced itself.
\<close>

text \<open>
  What the code relies on: saving keeps the buffer, restoring gives what is kept, the port is up, and
  neither these calls nor an allocation change what is kept or the switch.
\<close>

definition flash_keeps :: "'w rcp_env \<Rightarrow> 'w flash_env \<Rightarrow> ('w \<Rightarrow> u16 list) \<Rightarrow> ('w \<Rightarrow> rcp_switch) \<Rightarrow> ('w \<Rightarrow> bool) \<Rightarrow> nat \<Rightarrow> bool" where
  "flash_keeps env fe kept vw good d \<longleftrightarrow>
     (\<forall>b w. good w \<longrightarrow> (\<exists>w'. fe_save fe b glSwitchCfgFileSizeMaxInFlash w = (0, w') \<and> good w' \<and> vw w' = vw w \<and> kept w' = b)) \<and>
     (\<forall>b n w. good w \<longrightarrow> (\<exists>w'. fe_restore fe b n w = (kept w, w') \<and> good w' \<and> kept w' = kept w)) \<and>
     (\<forall>w. good w \<longrightarrow> kept (snd (ev_malloc env w)) = kept w) \<and>
     (\<forall>w. good w \<longrightarrow> (\<exists>w'. ev_oper_up env d w = (True, w') \<and> good w' \<and> vw w' = vw w))"

lemma rcp_link_ok_world:
  assumes "rcp_link_ok env vw good d s" "good w" "vw w = vw (rcp_world s)"
  shows "rcp_link_ok env vw good d (s\<lparr>rcp_world := w\<rparr>)" "rcp_view vw d (s\<lparr>rcp_world := w\<rparr>) = rcp_view vw d s"
  using assms by (auto simp: rcp_link_ok_def rcp_view_def rcp_dev_at_def split: option.splits)

lemma save_one_ok:
  assumes l: "rcp_link_ok env vw good d (rm_sys st)" and dev: "rcp_dev_at (rm_sys st) d = Some dev" "rd_deviceId dev < 256"
    and p: "unat (rd_parentPort dev) = d" "1 \<le> d" "rd_onlineStatus dev = 1" and b: "rm_buf st = Some buf" "length buf = 4160"
    and k: "flash_keeps env fe kept vw good d"
  shows "\<exists>st1 buf'. saveOneRcpDevCfgToFlash env fe junk mgtPvid d st = Some (0, st1) \<and> kept (rcp_world (rm_sys st1)) = buf' \<and>
    good (rcp_world (rm_sys st1)) \<and> length buf' = 4160 \<and>
    (\<forall>j<156. buf' ! j = gusSwitchCfgRegAddrArray ! j) \<and> buf' ! 158 = 156 \<and> buf' ! 159 = gusSwitchDataValidFlag \<and>
    (\<forall>j<156. buf' ! (160 * d + j) = sw_regs (rcp_view vw d (rm_sys st)) (gusSwitchCfgRegAddrArray ! j)) \<and>
    buf' ! (160 * d + 158) = (if rd_vlanPortIsolate dev \<noteq> 0 then 1 else 0) OR push_bit 8 (of_nat (rd_deviceId dev)) \<and>
    buf' ! (160 * d + 159) = gusSwitchDataValidFlag"
proof -
  let ?s = "rm_sys st"
  from l dev obtain d26: "d < 26" and dd: "rcpDevList ?s ! d = Some dev" and g: "good (rcp_world ?s)"
    by (elim rcp_link_okE) auto
  obtain w1 where w1: "ev_oper_up env d (rcp_world ?s) = (True, w1)" "good w1" "vw w1 = vw (rcp_world ?s)"
    using k g by (auto simp: flash_keeps_def)
  let ?s1 = "?s\<lparr>rcp_world := w1\<rparr>"
  note l1 = rcp_link_ok_world [OF l w1(2,3)]
  have ex: "RCP_Dev_Is_Exist env junk (mgtPvid d) d ?s = Some (1, ?s1)"
    using d26 dd w1(1) p(3) by (simp add: RCP_Dev_Is_Exist_def rcp_sizes rcp_oper_up_def)
  have "160 \<le> length buf" using b by simp
  note h = save_header_simps [OF this]
  have dev1: "rcp_dev_at ?s1 d = Some dev" using d26 dd by (simp add: rcp_dev_at_def rcp_sizes)
  have sz: "160 * d + 160 \<le> length (save_header buf)" using h(1) b(2) d26 by simp
  have hd: "\<forall>j<156. save_header buf ! j = gusSwitchCfgRegAddrArray ! j" using h(2) by blast
  from save_block_ok [OF l1(1) dev1 dev(2) p(2) sz hd] obtain buf' s' where sb: "save_block env d d (save_header buf, ?s1) = Some (buf', s')"
    "rcp_link_ok env vw good d s'" "length buf' = length (save_header buf)"
    "\<forall>j<156. buf' ! (160 * d + j) = sw_regs (rcp_view vw d ?s1) (gusSwitchCfgRegAddrArray ! j)"
    "buf' ! (160 * d + 158) = (if rd_vlanPortIsolate dev \<noteq> 0 then 1 else 0) OR push_bit 8 (of_nat (rd_deviceId dev))"
    "buf' ! (160 * d + 159) = gusSwitchDataValidFlag" "\<forall>k. k < 160 * d \<or> 160 * d + 160 \<le> k \<longrightarrow> buf' ! k = save_header buf ! k" by blast
  from sb(2) have gs: "good (rcp_world s')" by (elim rcp_link_okE)
  obtain w2 where w2: "fe_save fe buf' glSwitchCfgFileSizeMaxInFlash (rcp_world s') = (0, w2)" "good w2" "kept w2 = buf'"
    using k gs unfolding flash_keeps_def by blast
  have "saveOneRcpDevCfgToFlash env fe junk mgtPvid d st = Some (0, st\<lparr>rm_sys := s'\<lparr>rcp_world := w2\<rparr>, rm_buf := Some buf'\<rparr>)"
    using b(1) dev(1) p(1) ex sb(1) w2(1) by (simp add: saveOneRcpDevCfgToFlash_def Let_def device_conf_write_switch_conf_to_flash_def)
  moreover have "\<forall>k<160. buf' ! k = save_header buf ! k" using sb(7) p(2) by simp
  ultimately show ?thesis using sb(3-6) h(1-4) b(2) w2(2,3) l1(2) by (intro exI [of _ "st\<lparr>rm_sys := s'\<lparr>rcp_world := w2\<rparr>, rm_buf := Some buf'\<rparr>"] exI [of _ buf']) simp
qed

lemma keeps_device_id: "keeps_link (\<lambda>x. x\<lparr>rd_deviceId := dv\<rparr>)"
  by (simp add: keeps_link_def rd_link_def)

lemma and_one_bit: "x AND 1 \<noteq> 0 \<longleftrightarrow> bit (x :: u16) 0"
  by (simp add: and_one_eq mod_2_eq_odd bit_0)

lemma isolate_bit: "((if b then 1 else 0) OR push_bit 8 (w :: u16)) AND 1 \<noteq> 0 \<longleftrightarrow> b"
  unfolding and_one_bit bit_or_iff bit_push_bit_iff by simp

lemma device_byte: "n < 256 \<Longrightarrow> unat (drop_bit 8 ((if b then 1 else 0) OR push_bit 8 (of_nat n :: u16))) = n"
proof -
  assume n: "n < 256"
  then have t: "take_bit 8 n = n" by (simp add: take_bit_nat_eq_self)
  have "drop_bit 8 ((if b then 1 else 0) OR push_bit 8 (of_nat n :: u16)) = of_nat n"
  proof (rule bit_word_eqI)
    fix k assume k: "k < LENGTH(16)"
    have "k < 8" if "bit n k" using that t by (metis bit_take_bit_iff)
    then show "bit (drop_bit 8 ((if b then 1 else 0) OR push_bit 8 (of_nat n :: u16))) k = bit (of_nat n :: u16) k"
      unfolding bit_drop_bit_eq comp_def bit_or_iff bit_push_bit_iff bit_of_nat_iff
      using k by (cases b) (auto simp: bit_1_iff)
  qed
  then show ?thesis using n by (simp add: unat_of_nat take_bit_nat_eq_self)
qed

text \<open>The start of the system, with the buffer read from the flash memory.\<close>

lemma restart_link:
  assumes os: "osal_wf (rcp_os (rm_sys st2))" "4 \<le> card (free_sems (rcp_os (rm_sys st2)))" and g: "good (rcp_world (rm_sys st2))"
    and kp: "kept (rcp_world (rm_sys st2)) = cfg" and k: "flash_keeps env fe kept vw good d" and d: "d < 26"
    and nv: "\<not> vlan_dot_1q_enable (rm_sys st2)" and h: "hello_wf (gulGwdRcpAuth (rm_sys st2)) h"
    and cf: "rcp_conforms env vw good d False (dev_of_hello d h almask)"
  shows "\<exists>st3 s4. RCP_Init env fe almask st2 = (0, st3) \<and> RcpFrameRevHandle env d (hello_reply h) (rm_sys st3) = Some (1, s4) \<and>
    rcp_link_ok env vw good d s4 \<and> rcp_dev_at s4 d = Some (dev_of_hello d h almask) \<and> rm_buf st3 = Some cfg"
proof -
  let ?good = "\<lambda>w. good w \<and> kept w = cfg"
  have m: "\<exists>w1. ev_malloc env w = (True, w1) \<and> ?good w1" if "?good w" for w
    using cf k that unfolding rcp_conforms_def flash_keeps_def by (metis snd_conv)
  have f: "?good (snd (fe_restore fe b n w))" "fst (fe_restore fe b n w) = kept w" if "?good w" for b n w
    using k that unfolding flash_keeps_def by (metis snd_conv, metis fst_conv)
  have g': "?good (rcp_world (rm_sys st2))" using g kp by simp
  from RCP_Init_ok [where good = ?good, OF os m g' f(1)]
  obtain st3 w where st3: "RCP_Init env fe almask st2 = (0, st3)" "rcp_ready ?good (rm_sys st3)" "rcpDevList (rm_sys st3) = replicate 26 None" "?good w"
    "rm_buf st3 = Some (fst (fe_restore fe (replicate 4160 0) glSwitchCfgFileSizeMaxInFlash w))" "gucRcpAlarmMask (rm_sys st3) = almask"
    "vlan_dot_1q_enable (rm_sys st3) = vlan_dot_1q_enable (rm_sys st2)" "gulGwdRcpAuth (rm_sys st3) = gulGwdRcpAuth (rm_sys st2)" by blast
  have "rcp_ready good (rm_sys st3)" using st3(2) by (auto simp: rcp_ready_def)
  from hello_link [OF this d, of h env vw] st3(3,6-8) d nv h cf
  obtain s4 where "RcpFrameRevHandle env d (hello_reply h) (rm_sys st3) = Some (1, s4)" "rcp_link_ok env vw good d s4"
    "rcp_dev_at s4 d = Some (dev_of_hello d h almask)" by auto
  then show ?thesis using st3(1,4,5) f(2) by auto
qed

text \<open>
  C5. The settings of a switch survive a power cycle. When the settings of an attached switch have been saved, and
  the system starts again with the flash memory as it was left, whatever the state of its memory and of the
  switch, then after \<^verbatim>\<open>RCP_Init\<close>, the hello of a switch of the same type on the same port and
  the restoring of its settings, all registers that are saved have the values that they had, the
  other registers are those that the switch came with, and the isolation flag is the one saved.
\<close>

theorem settings_survive_power_cycle:
  assumes at: "attached env vw good d dv (rm_sys st)" "dv < 256" and dev: "rcp_dev_at (rm_sys st) d = Some dev"
    and p: "unat (rd_parentPort dev) = d" "1 \<le> d" "rd_onlineStatus dev = 1" and b: "rm_buf st = Some buf" "length buf = 4160"
    and k: "flash_keeps env fe kept vw good d"
  shows "\<exists>st1. saveOneRcpDevCfgToFlash env fe junk mgtPvid d st = Some (0, st1) \<and> good (rcp_world (rm_sys st1)) \<and>
    (\<forall>st2 h almask. osal_wf (rcp_os (rm_sys st2)) \<and> 4 \<le> card (free_sems (rcp_os (rm_sys st2))) \<and> good (rcp_world (rm_sys st2)) \<and>
        kept (rcp_world (rm_sys st2)) = kept (rcp_world (rm_sys st1)) \<and> \<not> vlan_dot_1q_enable (rm_sys st2) \<and>
        hello_wf (gulGwdRcpAuth (rm_sys st2)) h \<and> rcp_conforms env vw good d False (dev_of_hello d h almask) \<longrightarrow>
      (\<exists>st3 s4 cfg s5. RCP_Init env fe almask st2 = (0, st3) \<and> RcpFrameRevHandle env d (hello_reply h) (rm_sys st3) = Some (1, s4) \<and>
        rm_buf st3 = Some cfg \<and>
        restoreRcpDevCfgFromFlash (rcp_link env d) cfg (rcp_dev_upd d (\<lambda>x. x\<lparr>rd_deviceId := dv\<rparr>) s4) = Some (Inr (), s5) \<and>
        (\<forall>a\<in>set gusSwitchCfgRegAddrArray. sw_regs (rcp_view vw d s5) a = sw_regs (rcp_view vw d (rm_sys st)) a) \<and>
        (\<forall>a. a \<notin> set gusSwitchCfgRegAddrArray \<longrightarrow> sw_regs (rcp_view vw d s5) a = sw_regs (rcp_view vw d s4) a) \<and>
        rd_vlanPortIsolate (sw_dev (rcp_view vw d s5)) = (if rd_vlanPortIsolate dev \<noteq> 0 then 1 else 0)))"
proof -
  have "rd_deviceId dev < 256" "rd_deviceId dev = dv" using at dev by (auto simp: attached_def)
  note sv = save_one_ok [OF attachedD(1) [OF at(1)] dev this(1) p b k, of junk mgtPvid]
  from sv obtain st1 cfg where st1: "saveOneRcpDevCfgToFlash env fe junk mgtPvid d st = Some (0, st1)" "kept (rcp_world (rm_sys st1)) = cfg"
      "good (rcp_world (rm_sys st1))"
    and c: "length cfg = 4160" "\<forall>j<156. cfg ! j = gusSwitchCfgRegAddrArray ! j" "cfg ! 158 = 156" "cfg ! 159 = gusSwitchDataValidFlag"
      "\<forall>j<156. cfg ! (160 * d + j) = sw_regs (rcp_view vw d (rm_sys st)) (gusSwitchCfgRegAddrArray ! j)"
      "cfg ! (160 * d + 158) = (if rd_vlanPortIsolate dev \<noteq> 0 then 1 else 0) OR push_bit 8 (of_nat dv)"
      "cfg ! (160 * d + 159) = gusSwitchDataValidFlag"
    using \<open>rd_deviceId dev = dv\<close> by blast
  have d: "d < 26" using attachedD(1) [OF at(1)] by (elim rcp_link_okE)
  let ?good = "\<lambda>w. good w \<and> kept w = cfg"
  have "\<exists>st3 s4 cfg s5. RCP_Init env fe almask st2 = (0, st3) \<and> RcpFrameRevHandle env d (hello_reply h) (rm_sys st3) = Some (1, s4) \<and>
        rm_buf st3 = Some cfg \<and>
        restoreRcpDevCfgFromFlash (rcp_link env d) cfg (rcp_dev_upd d (\<lambda>x. x\<lparr>rd_deviceId := dv\<rparr>) s4) = Some (Inr (), s5) \<and>
        (\<forall>a\<in>set gusSwitchCfgRegAddrArray. sw_regs (rcp_view vw d s5) a = sw_regs (rcp_view vw d (rm_sys st)) a) \<and>
        (\<forall>a. a \<notin> set gusSwitchCfgRegAddrArray \<longrightarrow> sw_regs (rcp_view vw d s5) a = sw_regs (rcp_view vw d s4) a) \<and>
        rd_vlanPortIsolate (sw_dev (rcp_view vw d s5)) = (if rd_vlanPortIsolate dev \<noteq> 0 then 1 else 0)"
    if os: "osal_wf (rcp_os (rm_sys st2))" "4 \<le> card (free_sems (rcp_os (rm_sys st2)))" and g: "good (rcp_world (rm_sys st2))"
      and kp: "kept (rcp_world (rm_sys st2)) = kept (rcp_world (rm_sys st1))" and nv: "\<not> vlan_dot_1q_enable (rm_sys st2)"
      and h: "hello_wf (gulGwdRcpAuth (rm_sys st2)) h" and cf: "rcp_conforms env vw good d False (dev_of_hello d h almask)" for st2 h almask
  proof -
    from restart_link [OF os g kp [unfolded st1(2)] k d nv h cf] obtain st3 s4 where r: "RCP_Init env fe almask st2 = (0, st3)"
      "RcpFrameRevHandle env d (hello_reply h) (rm_sys st3) = Some (1, s4)" "rcp_link_ok env vw good d s4"
      "rcp_dev_at s4 d = Some (dev_of_hello d h almask)" "rm_buf st3 = Some cfg" by blast
    let ?s = "rcp_dev_upd d (\<lambda>x. x\<lparr>rd_deviceId := dv\<rparr>) s4"
    note u = rcp_dev_upd_ok [OF r(3) keeps_device_id, of dv]
    have vd: "sw_dev (rcp_view vw d ?s) = (dev_of_hello d h almask)\<lparr>rd_deviceId := dv\<rparr>" using r(4) by (simp add: u(2)) (simp add: rcp_view_def)
    have "unat (rd_parentPort (sw_dev (rcp_view vw d ?s))) = d" "rd_deviceId (sw_dev (rcp_view vw d ?s)) = dv"
      using d by (simp_all add: vd dev_of_hello_def hello_dev_def unat_of_nat take_bit_nat_eq_self)
    moreover have "160 * d + 160 \<le> length cfg" using c(1) d by simp
    moreover have "unat (drop_bit 8 (cfg ! (160 * d + 158))) = dv" unfolding c(6) by (rule device_byte [OF at(2)])
    ultimately obtain v' where v': "restoreRcpDevCfgFromFlash sw_io cfg (rcp_view vw d ?s) = Some (Inr (), v')"
      "\<forall>j<156. sw_regs v' (gusSwitchCfgRegAddrArray ! j) = cfg ! (160 * d + j)"
      "\<forall>a. a \<notin> set gusSwitchCfgRegAddrArray \<longrightarrow> sw_regs v' a = sw_regs (rcp_view vw d ?s) a"
      "rd_vlanPortIsolate (sw_dev v') = (if cfg ! (160 * d + 158) AND 1 \<noteq> 0 then 1 else 0)"
      using restore_switch [of "rcp_view vw d ?s" d cfg] p(2) c(2-4,7) by auto
    from rcp_simD [OF link.restore_sim u(1) v'(1)] obtain s5 where s5: "restoreRcpDevCfgFromFlash (rcp_link env d) cfg ?s = Some (Inr (), s5)"
      "rcp_view vw d s5 = v'" by blast
    have "sw_regs v' a = sw_regs (rcp_view vw d (rm_sys st)) a" if "a \<in> set gusSwitchCfgRegAddrArray" for a
      using that v'(2) c(5) cfg_addresses(1) by (auto simp: in_set_conv_nth)
    moreover have "sw_regs (rcp_view vw d ?s) a = sw_regs (rcp_view vw d s4) a" for a by (simp add: u(2))
    moreover have "rd_vlanPortIsolate (sw_dev v') = (if rd_vlanPortIsolate dev \<noteq> 0 then 1 else 0)"
      unfolding v'(4) c(6) isolate_bit ..
    ultimately show ?thesis using r(1,2,5) s5 v'(3)
      by (intro exI [of _ st3] exI [of _ s4] exI [of _ cfg] exI [of _ s5] conjI) auto
  qed
  with st1(1,3) show ?thesis by blast
qed

text \<open>The switch of the test bench, attached and on line, saved; then the whole system started again.\<close>

lemma bench_attached:
  assumes "bench_good w"
  shows "\<exists>s. attached bench_env bn_switch bench_good 1 0 s \<and> rcp_dev_at s 1 = Some (bench_dev\<lparr>rd_onlineStatus := 1\<rparr>)"
proof -
  have d: "rd_deviceId bench_dev = 0" by (simp add: bench_dev_def dev_of_hello_def hello_dev_def rcp_dev_zero_def)
  from discover [where good = bench_good, OF bench_start(1,2) _ _ _ bench_start(4,5) bench_conforms [unfolded bench_dev_def], of w bench_flash] assms
  obtain s where s: "rcp_link_ok bench_env bn_switch bench_good 1 s" "rcp_dev_at s 1 = Some bench_dev"
    by (auto simp: bench_start bench_flash_def bench_dev_def)
  have "keeps_link (\<lambda>x. x\<lparr>rd_onlineStatus := 1\<rparr>)" by (simp add: keeps_link_def rd_link_def)
  from rcp_dev_upd_ok(1) [OF s(1) this] s d
  have "attached bench_env bn_switch bench_good 1 0 (rcp_dev_upd 1 (\<lambda>x. x\<lparr>rd_onlineStatus := 1\<rparr>) s)"
    "rcp_dev_at (rcp_dev_upd 1 (\<lambda>x. x\<lparr>rd_onlineStatus := 1\<rparr>) s) 1 = Some (bench_dev\<lparr>rd_onlineStatus := 1\<rparr>)"
    by (auto simp: attached_def rcp_dev_at_def rcp_dev_upd_def rcp_sizes elim!: rcp_link_okE)
  then show ?thesis by blast
qed

theorem settings_survive_power_cycle_witness:
  "\<exists>st st1 st3 s4 cfg s5. saveOneRcpDevCfgToFlash bench_env bench_flash [] (\<lambda>_. 0) 1 st = Some (0, st1) \<and>
    RCP_Init bench_env bench_flash 0 (bench_mod (rcp_world (rm_sys st1))) = (0, st3) \<and>
    RcpFrameRevHandle bench_env 1 (hello_reply bench_hello) (rm_sys st3) = Some (1, s4) \<and>
    restoreRcpDevCfgFromFlash (rcp_link bench_env 1) cfg (rcp_dev_upd 1 (\<lambda>x. x\<lparr>rd_deviceId := 0\<rparr>) s4) = Some (Inr (), s5) \<and>
    (\<forall>a\<in>set gusSwitchCfgRegAddrArray. sw_regs (rcp_view bn_switch 1 s5) a = sw_regs (rcp_view bn_switch 1 (rm_sys st)) a)"
proof -
  define w where "w = \<lparr>bn_switch = \<lparr>sw_vals = \<lambda>a. ucast a, sw_ee = \<lambda>_. 0, sw_phy = \<lambda>_. 0, sw_dev = bench_dev\<rparr>, bn_replies = [], bn_flash = []\<rparr>"
  have "bench_good w" by (simp add: w_def bench_good_def)
  from bench_attached [OF this] obtain s where s: "attached bench_env bn_switch bench_good 1 0 s"
    "rcp_dev_at s 1 = Some (bench_dev\<lparr>rd_onlineStatus := 1\<rparr>)" by blast
  define st where "st = \<lparr>rm_sys = s, rm_fifo = None, rm_buf = Some (replicate 4160 0)\<rparr>"
  have "flash_keeps bench_env bench_flash bn_flash bn_switch bench_good 1"
    by (simp add: flash_keeps_def bench_env_def bench_flash_def bench_good_def)
  from settings_survive_power_cycle [of bench_env bn_switch bench_good 1 0 st "bench_dev\<lparr>rd_onlineStatus := 1\<rparr>" "replicate 4160 0" bench_flash bn_flash "[]" "\<lambda>_. 0"]
    s this obtain st1 where st1: "saveOneRcpDevCfgToFlash bench_env bench_flash [] (\<lambda>_. 0) 1 st = Some (0, st1)" "bench_good (rcp_world (rm_sys st1))"
    and r: "\<forall>st2 h almask. osal_wf (rcp_os (rm_sys st2)) \<and> 4 \<le> card (free_sems (rcp_os (rm_sys st2))) \<and> bench_good (rcp_world (rm_sys st2)) \<and>
        bn_flash (rcp_world (rm_sys st2)) = bn_flash (rcp_world (rm_sys st1)) \<and> \<not> vlan_dot_1q_enable (rm_sys st2) \<and>
        hello_wf (gulGwdRcpAuth (rm_sys st2)) h \<and> rcp_conforms bench_env bn_switch bench_good 1 False (dev_of_hello 1 h almask) \<longrightarrow>
      (\<exists>st3 s4 cfg s5. RCP_Init bench_env bench_flash almask st2 = (0, st3) \<and> RcpFrameRevHandle bench_env 1 (hello_reply h) (rm_sys st3) = Some (1, s4) \<and>
        rm_buf st3 = Some cfg \<and>
        restoreRcpDevCfgFromFlash (rcp_link bench_env 1) cfg (rcp_dev_upd 1 (\<lambda>x. x\<lparr>rd_deviceId := 0\<rparr>) s4) = Some (Inr (), s5) \<and>
        (\<forall>a\<in>set gusSwitchCfgRegAddrArray. sw_regs (rcp_view bn_switch 1 s5) a = sw_regs (rcp_view bn_switch 1 (rm_sys st)) a))"
    by (force simp: st_def bench_dev_def dev_of_hello_def hello_dev_def)
  have "\<exists>st3 s4 cfg s5. RCP_Init bench_env bench_flash 0 (bench_mod (rcp_world (rm_sys st1))) = (0, st3) \<and>
      RcpFrameRevHandle bench_env 1 (hello_reply bench_hello) (rm_sys st3) = Some (1, s4) \<and> rm_buf st3 = Some cfg \<and>
      restoreRcpDevCfgFromFlash (rcp_link bench_env 1) cfg (rcp_dev_upd 1 (\<lambda>x. x\<lparr>rd_deviceId := 0\<rparr>) s4) = Some (Inr (), s5) \<and>
      (\<forall>a\<in>set gusSwitchCfgRegAddrArray. sw_regs (rcp_view bn_switch 1 s5) a = sw_regs (rcp_view bn_switch 1 (rm_sys st)) a)"
    by (rule r [rule_format]) (use bench_conforms in \<open>simp add: bench_start st1(2) bench_dev_def\<close>)
  with st1(1) show ?thesis by blast
qed

section \<open>Other properties on the test bench\<close>

theorem setting_roundtrip_witness:
  "\<exists>s s1 s2. attached bench_env bn_switch bench_good 1 0 s \<and>
    set_setting (rcp_link bench_env 1) (Port PortTxBandwidth 1 3) 5 RCP_CONFIG_REGISTER s = Some (Inr (), s1) \<and>
    get_setting (rcp_link bench_env 1) (Port PortTxBandwidth 1 3) s1 = Some (Inr 5, s2)"
proof -
  define w where "w = \<lparr>bn_switch = \<lparr>sw_vals = \<lambda>a. ucast a, sw_ee = \<lambda>_. 0, sw_phy = \<lambda>_. 0, sw_dev = bench_dev\<rparr>, bn_replies = [], bn_flash = []\<rparr>"
  have "bench_good w" by (simp add: w_def bench_good_def)
  from bench_attached [OF this] obtain s where s: "attached bench_env bn_switch bench_good 1 0 s" by blast
  have "setting_place 0 (Port PortTxBandwidth 1 3) = Some (0x020B, 4, 4)"
    by (simp add: setting_place_def RCPLPort2Port_def gDevBoradInfo_def gDevLPortInfo_def port_place_def nth_append)
  from setting_roundtrip [OF s this, of 5] s show ?thesis by (auto simp: take_bit_eq_mod)
qed

theorem setting_in_both_witness:
  "\<exists>s s1 s2 s3. set_setting (rcp_link bench_env 1) (Port PortTxBandwidth 1 3) 5 RCP_CONFIG_2_BOTH s = Some (Inr (), s1) \<and>
    get_setting (rcp_link bench_env 1) (Port PortTxBandwidth 1 3) s1 = Some (Inr 5, s2) \<and>
    RCP_GetEepromField (rcp_link bench_env 1) 0x82 4 4 s1 = Some (Inr 5, s3)"
proof -
  define w where "w = \<lparr>bn_switch = \<lparr>sw_vals = \<lambda>a. ucast a, sw_ee = \<lambda>_. 0, sw_phy = \<lambda>_. 0, sw_dev = bench_dev\<rparr>, bn_replies = [], bn_flash = []\<rparr>"
  have "bench_good w" by (simp add: w_def bench_good_def)
  from bench_attached [OF this] obtain s where s: "attached bench_env bn_switch bench_good 1 0 s" by blast
  have x: "setting_place 0 (Port PortTxBandwidth 1 3) = Some (0x020B, 4, 4)"
    by (simp add: setting_place_def RCPLPort2Port_def gDevBoradInfo_def gDevLPortInfo_def port_place_def nth_append)
  have e: "RCP_GetEeaddrFromReg (of_nat 0x020B) 4 4 = Some (Inr (0x82, 4, 4))"
    by (simp add: RCP_GetEeaddrFromReg_def ee_half_def eeBW_def)
  from setting_in_both [OF s x e, of 5] show ?thesis by (auto simp: take_bit_eq_mod)
qed

end
