(* ===== verification/Rcp_Isolate.thy ===== *)
theory Rcp_Isolate
  imports Rcp_Vlan Rcp_Power
begin

text \<open>
  The VLAN table of a switch as lists, on which each operation is a list update; the isolation of the
  ports as a program on these lists; and what it means for an attached switch.
\<close>

section \<open>The operations through the link\<close>

lemma keeps_vlan: "keeps_link (\<lambda>d. d\<lparr>rd_vlanPort := f d\<rparr>)" "keeps_link (\<lambda>d. d\<lparr>rd_vlanVid := g d\<rparr>)"
  by (simp_all add: keeps_link_def rd_link_def)

context reg_access
begin

lemma port_get_sim: "rcp_sim ok view (port_get io slot port reg pos len) (port_get sw_io slot port reg pos len)"
  unfolding port_get_def by (intro field_sims)

lemma port_set_sim: "rcp_sim ok view (port_set io slot port reg pos len data flag) (port_set sw_io slot port reg pos len data flag)"
  unfolding port_set_def by (intro field_sims)

lemma GetVlanPort_sim: "rcp_sim ok view (RCP_GetVlanPort io k) (RCP_GetVlanPort sw_io k)"
  unfolding RCP_GetVlanPort_def vlan_port_to_def by (intro field_sims)

lemma SetVlanPort_sim: "rcp_sim ok view (RCP_SetVlanPort io k data flag) (RCP_SetVlanPort sw_io k data flag)"
  unfolding RCP_SetVlanPort_def vlan_port_put_def by (intro field_sims keeps_vlan)

lemma SetVlanVID_sim: "rcp_sim ok view (RCP_SetVlanVID io k data flag) (RCP_SetVlanVID sw_io k data flag)"
  unfolding RCP_SetVlanVID_def vlan_vid_put_def by (intro field_sims keeps_vlan)

lemma SetVlanPVID_sim: "rcp_sim ok view (RCP_SetVlanPVID io slot port data flag) (RCP_SetVlanPVID sw_io slot port data flag)"
  unfolding RCP_SetVlanPVID_def RCP_GetVlanNumFromVID_def RCP_SetVlanPortIDAssignment_def by (intro field_sims port_set_sim)

lemma SetVlanInsert_sim: "rcp_sim ok view (RCP_SetVlanInsert io data flag) (RCP_SetVlanInsert sw_io data flag)"
  unfolding RCP_SetVlanInsert_def by (intro field_sims)

lemma isolate_ports_sim: "rcp_sim ok view (isolate_ports io mgt m flag k ps) (isolate_ports sw_io mgt m flag k ps)"
proof (induction ps arbitrary: k)
  case (Cons p ps)
  show ?case unfolding isolate_ports.simps RCP_SetVlanOutPortTag_def
    by (intro field_sims port_set_sim SetVlanPort_sim SetVlanVID_sim SetVlanPVID_sim Cons.IH)
qed (simp add: rcp_sim_pure)

lemma isolate_sim: "rcp_sim ok view (RCP_SetVlanMgtPortIsolate io mgt flag) (RCP_SetVlanMgtPortIsolate sw_io mgt flag)"
  unfolding RCP_SetVlanMgtPortIsolate_def
  by (intro field_sims SetVlanPort_sim SetVlanVID_sim SetVlanPVID_sim SetVlanInsert_sim isolate_ports_sim)

end

section \<open>The VLAN table\<close>

text \<open>
  For each entry the ports and the id, for each port the entry that its untagged frames belong to
  and the treatment of tags, and the copy of the ids in the device data.
\<close>

record vlan_table =
  vt_member :: "u32 list"
  vt_vid :: "u16 list"
  vt_index :: "u16 list"
  vt_tag :: "u16 list"
  vt_cache :: "u16 list"

definition rg :: "rcp_switch \<Rightarrow> nat \<Rightarrow> u16" where "rg v r = sw_regs v (of_nat r)"

lemma rg_upd [simp]:
  "r < 0x800 \<Longrightarrow> q < 0x800 \<Longrightarrow> rg (sw_upd (of_nat r) d v) q = (if q = r then d else rg v q)"
proof -
  assume a: "r < 0x800" "q < 0x800"
  have "of_nat q = (of_nat r :: u16) \<longleftrightarrow> q = r"
  proof
    assume "of_nat q = (of_nat r :: u16)"
    then have "unat (of_nat q :: u16) = unat (of_nat r :: u16)" by simp
    then show "q = r" using a by (simp add: unat_of_nat take_bit_nat_eq_self)
  qed simp
  then show ?thesis by (simp add: rg_def)
qed

lemma rg_dev [simp]: "rg (v\<lparr>sw_dev := x\<rparr>) r = rg v r" by (simp add: rg_def)

definition vlan_table_of :: "nat \<Rightarrow> rcp_switch \<Rightarrow> vlan_table" where
  "vlan_table_of n v =
     \<lparr>vt_member = map (\<lambda>k. if n \<le> 16 then ucast (rg v (0x031D + 3 * k))
          else push_bit 16 (ucast (rg v (0x031E + 3 * k))) OR ucast (rg v (0x031D + 3 * k))) [0..<32],
      vt_vid = map (\<lambda>k. field_get 0 12 (rg v (0x031F + 3 * k))) [0..<32],
      vt_index = map (\<lambda>i. field_get (i mod 2 * 8) 5 (rg v (0x030C + i div 2))) [0..<n],
      vt_tag = map (\<lambda>i. field_get (i mod 8 * 2) 2 (rg v (0x0319 + i div 8))) [0..<n],
      vt_cache = rd_vlanVid (sw_dev v)\<rparr>"

text \<open>The types with no more than 26 ports; beyond, the places of the ports in the registers run into each other.\<close>

definition vlan_ok :: "nat \<Rightarrow> nat \<Rightarrow> rcp_switch \<Rightarrow> bool" where
  "vlan_ok dv n v \<longleftrightarrow> (dv, n) \<in> {(GH1508, 8), (GH1516, 16), (GH1524, 24)} \<and> rd_deviceId (sw_dev v) = dv \<and> rd_numOfPorts (sw_dev v) = n \<and>
     length (rd_vlanVid (sw_dev v)) = 32 \<and> length (rd_vlanPort (sw_dev v)) = 32"

lemma vlan_table_lengths [simp]:
  "length (vt_member (vlan_table_of n v)) = 32" "length (vt_vid (vlan_table_of n v)) = 32"
  "length (vt_index (vlan_table_of n v)) = n" "length (vt_tag (vlan_table_of n v)) = n"
  by (simp_all add: vlan_table_of_def)

lemma vlan_phy:
  assumes "vlan_ok dv n v" "1 \<le> p" "p \<le> n"
  shows "phy_of sw_io 1 p v = Some (Inr (p - 1), v)" "RCPLPort2Port (rd_deviceId (sw_dev v)) 1 p = Inr (0, p - 1)"
proof -
  have "RCPLPort2Port dv 1 p = Inr (0, p - 1)"
    using assms by (auto simp: vlan_ok_def rcp_limits RCPLPort2Port_def gDevBoradInfo_def gDevLPortInfo_def nth_append nth_Cons')
  moreover have "rd_deviceId (sw_dev v) = dv" using assms(1) by (simp add: vlan_ok_def)
  ultimately show "RCPLPort2Port (rd_deviceId (sw_dev v)) 1 p = Inr (0, p - 1)" by simp
  then show "phy_of sw_io 1 p v = Some (Inr (p - 1), v)" by (rule phy_of_switch)
qed

text \<open>An operation with the registers as its target, as a function on the table.\<close>

definition vlan_sim :: "nat \<Rightarrow> nat \<Rightarrow> (rcp_switch, unit) rcp \<Rightarrow> (vlan_table \<Rightarrow> vlan_table) \<Rightarrow> bool" where
  "vlan_sim dv n m f \<longleftrightarrow> (\<forall>v. vlan_ok dv n v \<longrightarrow> (\<exists>v'. m v = Some (Inr (), v') \<and> vlan_ok dv n v' \<and> vlan_table_of n v' = f (vlan_table_of n v)))"

lemma vlan_simD: "vlan_sim dv n m f \<Longrightarrow> vlan_ok dv n v \<Longrightarrow> \<exists>v'. m v = Some (Inr (), v') \<and> vlan_ok dv n v' \<and> vlan_table_of n v' = f (vlan_table_of n v)"
  by (simp add: vlan_sim_def)

lemma vlan_sim_then: "vlan_sim dv n m f \<Longrightarrow> vlan_sim dv n k g \<Longrightarrow> vlan_sim dv n (rcp_then m k) (\<lambda>t. g (f t))"
  unfolding vlan_sim_def by (metis rcp_bind_simps(4))

lemma vlan_sim_ret: "vlan_sim dv n (rcp_ret ()) (\<lambda>t. t)"
  by (simp add: vlan_sim_def rcp_ret_def)

lemma vlan_sim_each: "(\<And>x. x \<in> set xs \<Longrightarrow> vlan_sim dv n (m x) (f x)) \<Longrightarrow> vlan_sim dv n (rcp_each m xs) (fold f xs)"
proof (induction xs)
  case (Cons x xs)
  have "vlan_sim dv n (rcp_then (m x) (rcp_each m xs)) (\<lambda>t. fold f xs (f x t))" by (rule vlan_sim_then) (use Cons in auto)
  then show ?case by (simp add: comp_def)
qed (simp add: vlan_sim_ret id_def)

definition member_of :: "nat \<Rightarrow> u32 \<Rightarrow> u32" where "member_of n d = (if n \<le> 16 then ucast (ucast d :: u16) else d)"

lemma map_upt_upd: "(\<And>i. i < m \<Longrightarrow> g i = (if i = k then x else f i)) \<Longrightarrow> map g [0..<m] = (map f [0..<m])[k := x]"
  by (rule nth_equalityI) (auto simp: nth_list_update)

lemma map_upt_same: "(\<And>i. i < m \<Longrightarrow> g i = f i) \<Longrightarrow> map g [0..<m] = map f [0..<m]" by simp

lemma join_halves: "push_bit 16 (ucast (ucast (drop_bit 16 d) :: u16)) OR ucast (ucast d :: u16) = (d :: u32)"
  by (rule bit_word_eqI) (auto simp: bit_simps)

lemma vlan_reg: "k < 0x800 \<Longrightarrow> k \<notin> {0x0209, 0x0217, 0x0218, 0x0500, 0x0501, 0x0502} \<Longrightarrow>
    io_write sw_io (of_nat k) d v = Some (Inr (), sw_upd (of_nat k) d v) \<and> of_nat k \<noteq> RT8326_RRCP_AUTHKEY \<and> of_nat k \<notin> sw_ctl"
proof -
  assume k: "k < 0x800" "k \<notin> {0x0209, 0x0217, 0x0218, 0x0500, 0x0501, 0x0502}"
  have u: "unat (of_nat k :: u16) = k" using k by (simp add: unat_of_nat take_bit_nat_eq_self)
  have e: "of_nat k = w \<Longrightarrow> k = unat w" for w :: u16 using u by auto
  have "of_nat k \<noteq> RT8326_RRCP_AUTHKEY" "(of_nat k :: u16) \<notin> sw_ctl" using k(2) by (auto simp: sw_ctl_def dest!: e)
  then show ?thesis by (simp add: sw_write_plain)
qed

lemma SetVlanPort_table:
  assumes "k < 32"
  shows "vlan_sim dv n (RCP_SetVlanPort sw_io k d RCP_CONFIG_REGISTER) (\<lambda>t. t\<lparr>vt_member := (vt_member t)[k := member_of n d]\<rparr>)"
  unfolding vlan_sim_def
proof (intro allI impI)
  fix v assume ok: "vlan_ok dv n v"
  have n: "rd_numOfPorts (sw_dev v) = n" "n \<in> {8, 16, 24}" using ok by (auto simp: vlan_ok_def)
  let ?w = "if n \<le> 16 then sw_upd (of_nat (0x031D + 3 * k)) (ucast d) v
    else sw_upd (of_nat (0x031E + 3 * k)) (ucast (drop_bit 16 d)) (sw_upd (of_nat (0x031D + 3 * k)) (ucast d) v)"
  let ?v = "?w\<lparr>sw_dev := (sw_dev ?w)\<lparr>rd_vlanPort := (rd_vlanPort (sw_dev ?w))[k := d]\<rparr>\<rparr>"
  have r: "RT8326_VLAN_PORT_MEMBER k 0 = of_nat (0x031D + 3 * k)" "RT8326_VLAN_PORT_MEMBER k 1 = of_nat (0x031E + 3 * k)"
    by (simp_all add: RT8326_VLAN_PORT_MEMBER_def)
  have w: "io_write sw_io (of_nat (0x031D + 3 * k)) x u = Some (Inr (), sw_upd (of_nat (0x031D + 3 * k)) x u)"
    "io_write sw_io (of_nat (0x031E + 3 * k)) x u = Some (Inr (), sw_upd (of_nat (0x031E + 3 * k)) x u)" for x u
    using vlan_reg [of "0x031D + 3 * k" x u] vlan_reg [of "0x031E + 3 * k" x u] assms by auto
  have "RCP_SetVlanPort sw_io k d RCP_CONFIG_REGISTER v = Some (Inr (), ?v)"
    using assms n(1) by (simp add: RCP_SetVlanPort_def rcp_flags r w vlan_port_put_def del: of_nat_add of_nat_mult of_nat_numeral One_nat_def)
  moreover have "vlan_ok dv n ?v" using ok by (simp add: vlan_ok_def)
  moreover have "vlan_table_of n ?v = (vlan_table_of n v)\<lparr>vt_member := (vt_member (vlan_table_of n v))[k := member_of n d]\<rparr>"
  proof -
    have "vt_member (vlan_table_of n ?v) = (vt_member (vlan_table_of n v))[k := member_of n d]"
      unfolding vlan_table_of_def vlan_table.select_convs
      by (rule map_upt_upd) (use assms in \<open>auto simp: member_of_def join_halves simp del: of_nat_add of_nat_mult of_nat_numeral; presburger\<close>)
    moreover have "vt_vid (vlan_table_of n ?v) = vt_vid (vlan_table_of n v)" "vt_index (vlan_table_of n ?v) = vt_index (vlan_table_of n v)"
      "vt_tag (vlan_table_of n ?v) = vt_tag (vlan_table_of n v)" "vt_cache (vlan_table_of n ?v) = vt_cache (vlan_table_of n v)"
      using assms n(2) by (auto simp: vlan_table_of_def simp del: of_nat_add of_nat_mult of_nat_numeral; presburger)+
    ultimately show ?thesis by (intro vlan_table.equality) simp_all
  qed
  ultimately show "\<exists>v'. RCP_SetVlanPort sw_io k d RCP_CONFIG_REGISTER v = Some (Inr (), v') \<and> vlan_ok dv n v' \<and>
      vlan_table_of n v' = (vlan_table_of n v)\<lparr>vt_member := (vt_member (vlan_table_of n v))[k := member_of n d]\<rparr>" by blast
qed

lemma SetVlanVID_table:
  assumes "k < 32"
  shows "vlan_sim dv n (RCP_SetVlanVID sw_io k d RCP_CONFIG_REGISTER)
    (\<lambda>t. t\<lparr>vt_vid := (vt_vid t)[k := take_bit 12 d], vt_cache := (vt_cache t)[k := d]\<rparr>)"
  unfolding vlan_sim_def
proof (intro allI impI)
  fix v assume ok: "vlan_ok dv n v"
  have n: "n \<in> {8, 16, 24}" using ok by (auto simp: vlan_ok_def)
  let ?a = "0x031F + 3 * k"
  let ?w = "sw_upd (of_nat ?a) (field_set 0 12 d (rg v ?a)) v"
  let ?v = "?w\<lparr>sw_dev := (sw_dev ?w)\<lparr>rd_vlanVid := (rd_vlanVid (sw_dev ?w))[k := d]\<rparr>\<rparr>"
  have r: "RT8326_VLAN_VID k = of_nat ?a" by (simp add: RT8326_VLAN_VID_def)
  have w: "io_write sw_io (of_nat ?a) x u = Some (Inr (), sw_upd (of_nat ?a) x u)" "of_nat ?a \<noteq> RT8326_RRCP_AUTHKEY" "of_nat ?a \<notin> sw_ctl" for x u
    using vlan_reg [of ?a x u] assms by auto
  have "RCP_SetVlanVID sw_io k d RCP_CONFIG_REGISTER v = Some (Inr (), ?v)"
    using assms w(2,3) by (simp add: RCP_SetVlanVID_def rcp_flags r vlan_vid_put_def rg_def sw_write_plain del: of_nat_add of_nat_mult of_nat_numeral)
  moreover have "vlan_ok dv n ?v" using ok by (simp add: vlan_ok_def)
  moreover have "vlan_table_of n ?v = (vlan_table_of n v)\<lparr>vt_vid := (vt_vid (vlan_table_of n v))[k := take_bit 12 d],
      vt_cache := (vt_cache (vlan_table_of n v))[k := d]\<rparr>"
  proof -
    have "vt_vid (vlan_table_of n ?v) = (vt_vid (vlan_table_of n v))[k := take_bit 12 d]"
      unfolding vlan_table_of_def vlan_table.select_convs
      by (rule map_upt_upd) (use assms in \<open>auto simp: field_get_set simp del: of_nat_add of_nat_mult of_nat_numeral\<close>)
    moreover have "vt_member (vlan_table_of n ?v) = vt_member (vlan_table_of n v)"
      unfolding vlan_table_of_def vlan_table.select_convs
      by (rule map_upt_same) (use assms in \<open>auto simp del: of_nat_add of_nat_mult of_nat_numeral; presburger\<close>)
    moreover have "vt_index (vlan_table_of n ?v) = vt_index (vlan_table_of n v)" "vt_tag (vlan_table_of n ?v) = vt_tag (vlan_table_of n v)"
      using assms n by (auto simp: vlan_table_of_def simp del: of_nat_add of_nat_mult of_nat_numeral; presburger)+
    moreover have "vt_cache (vlan_table_of n ?v) = (vt_cache (vlan_table_of n v))[k := d]" by (simp add: vlan_table_of_def)
    ultimately show ?thesis by (intro vlan_table.equality) simp_all
  qed
  ultimately show "\<exists>v'. RCP_SetVlanVID sw_io k d RCP_CONFIG_REGISTER v = Some (Inr (), v') \<and> vlan_ok dv n v' \<and>
      vlan_table_of n v' = (vlan_table_of n v)\<lparr>vt_vid := (vt_vid (vlan_table_of n v))[k := take_bit 12 d], vt_cache := (vt_cache (vlan_table_of n v))[k := d]\<rparr>" by blast
qed

lemma port_set_switch:
  assumes "vlan_ok dv n v" "1 \<le> p" "p \<le> n" "reg (p - 1) = of_nat a" "a < 0x800" "a \<notin> {0x0209, 0x0217, 0x0218, 0x0500, 0x0501, 0x0502}"
  shows "port_set sw_io 1 p reg pos len d RCP_CONFIG_REGISTER v = Some (Inr (), sw_upd (of_nat a) (field_set (pos (p - 1)) len d (rg v a)) v)"
  using vlan_phy(1) [OF assms(1-3)] vlan_reg [OF assms(5,6)] assms(4)
  by (simp add: port_set_def RCP_SetRegField_def rcp_flags rg_def sw_write_plain del: One_nat_def)

lemma packed_apart: "j \<noteq> i \<Longrightarrow> j div k = i div k \<Longrightarrow> len \<le> w \<Longrightarrow> j mod k * w + len \<le> i mod k * w \<or> i mod k * w + len \<le> j mod k * (w :: nat)"
proof -
  assume a: "j \<noteq> i" "j div k = i div k" "len \<le> w"
  then have "j mod k \<noteq> i mod k" by (metis div_mult_mod_eq)
  with a(3) show ?thesis using step_mult [of "j mod k" "i mod k" w] step_mult [of "i mod k" "j mod k" w] by (cases "j mod k < i mod k") auto
qed

lemma SetVlanOutPortTag_table:
  assumes "1 \<le> p" "p \<le> n"
  shows "vlan_sim dv n (RCP_SetVlanOutPortTag sw_io 1 p d RCP_CONFIG_REGISTER) (\<lambda>t. t\<lparr>vt_tag := (vt_tag t)[p - 1 := take_bit 2 d]\<rparr>)"
  unfolding vlan_sim_def
proof (intro allI impI)
  fix v assume ok: "vlan_ok dv n v"
  have n: "n \<in> {8, 16, 24}" using ok by (auto simp: vlan_ok_def)
  define i where "i = p - 1"
  have i: "i < n" "i < 24" using assms n by (auto simp: i_def)
  let ?a = "0x0319 + i div 8"
  let ?v = "sw_upd (of_nat ?a) (field_set (i mod 8 * 2) 2 d (rg v ?a)) v"
  have b: "?a < 0x800" "?a \<notin> {0x0209, 0x0217, 0x0218, 0x0500, 0x0501, 0x0502}" using i by auto
  have "RCP_SetVlanOutPortTag sw_io 1 p d RCP_CONFIG_REGISTER v = Some (Inr (), ?v)"
  proof -
    have r: "RT8326_VLAN_PRI (p - 1) = of_nat ?a" "PriTagCtrl_Pos (p - 1) = i mod 8 * 2"
      by (simp_all add: RT8326_VLAN_PRI_def PriTagCtrl_Pos_def i_def)
    show ?thesis unfolding RCP_SetVlanOutPortTag_def
      by (rule port_set_switch [where reg = RT8326_VLAN_PRI and pos = PriTagCtrl_Pos, OF ok assms r(1) b, unfolded r(2)])
  qed
  moreover have "vlan_ok dv n ?v" using ok by (simp add: vlan_ok_def)
  moreover have "vlan_table_of n ?v = (vlan_table_of n v)\<lparr>vt_tag := (vt_tag (vlan_table_of n v))[i := take_bit 2 d]\<rparr>"
  proof -
    have "vt_tag (vlan_table_of n ?v) = (vt_tag (vlan_table_of n v))[i := take_bit 2 d]"
      unfolding vlan_table_of_def vlan_table.select_convs
    proof (rule map_upt_upd)
      fix j assume j: "j < n"
      have o: "field_get (j mod 8 * 2) 2 (field_set (i mod 8 * 2) 2 d (rg v ?a)) = field_get (j mod 8 * 2) 2 (rg v ?a)" if "j \<noteq> i" "j div 8 = i div 8"
        by (rule field_get_set_other [OF packed_apart [OF that]]) simp_all
      have own: "field_get (i mod 8 * 2) 2 (field_set (i mod 8 * 2) 2 d (rg v ?a)) = take_bit 2 d"
        by (rule field_get_set) simp_all
      have g: "rg ?v (0x0319 + j div 8) = (if 0x0319 + j div 8 = ?a then field_set (i mod 8 * 2) 2 d (rg v ?a) else rg v (0x0319 + j div 8))"
        by (rule rg_upd [OF b(1)]) (use j n in auto)
      show "field_get (j mod 8 * 2) 2 (rg ?v (0x0319 + j div 8)) = (if j = i then take_bit 2 d else field_get (j mod 8 * 2) 2 (rg v (0x0319 + j div 8)))"
        unfolding g using own o by (cases "j = i"; cases "j div 8 = i div 8") simp_all
    qed
    moreover have "vt_member (vlan_table_of n ?v) = vt_member (vlan_table_of n v)" "vt_vid (vlan_table_of n ?v) = vt_vid (vlan_table_of n v)"
      "vt_index (vlan_table_of n ?v) = vt_index (vlan_table_of n v)"
      using i n by (auto simp: vlan_table_of_def simp del: of_nat_add of_nat_mult of_nat_numeral; presburger)+
    moreover have "vt_cache (vlan_table_of n ?v) = vt_cache (vlan_table_of n v)" by (simp add: vlan_table_of_def)
    ultimately show ?thesis by (intro vlan_table.equality) simp_all
  qed
  ultimately show "\<exists>v'. RCP_SetVlanOutPortTag sw_io 1 p d RCP_CONFIG_REGISTER v = Some (Inr (), v') \<and> vlan_ok dv n v' \<and>
      vlan_table_of n v' = (vlan_table_of n v)\<lparr>vt_tag := (vt_tag (vlan_table_of n v))[p - 1 := take_bit 2 d]\<rparr>" unfolding i_def by blast
qed

lemma SetVlanPortIDAssignment_table:
  assumes "1 \<le> p" "p \<le> n"
  shows "vlan_sim dv n (RCP_SetVlanPortIDAssignment sw_io 1 p d RCP_CONFIG_REGISTER) (\<lambda>t. t\<lparr>vt_index := (vt_index t)[p - 1 := take_bit 5 d]\<rparr>)"
  unfolding vlan_sim_def
proof (intro allI impI)
  fix v assume ok: "vlan_ok dv n v"
  have n: "n \<in> {8, 16, 24}" using ok by (auto simp: vlan_ok_def)
  define i where "i = p - 1"
  have i: "i < n" "i < 24" using assms n by (auto simp: i_def)
  let ?a = "0x030C + i div 2"
  let ?v = "sw_upd (of_nat ?a) (field_set (i mod 2 * 8) 5 d (rg v ?a)) v"
  have b: "?a < 0x800" "?a \<notin> {0x0209, 0x0217, 0x0218, 0x0500, 0x0501, 0x0502}" using i by auto
  have "RCP_SetVlanPortIDAssignment sw_io 1 p d RCP_CONFIG_REGISTER v = Some (Inr (), ?v)"
  proof -
    have r: "RT8326_VLAN_IDX (p - 1) = of_nat ?a" "VID_Index_Pos (p - 1) = i mod 2 * 8"
      by (simp_all add: RT8326_VLAN_IDX_def VID_Index_Pos_def i_def)
    show ?thesis unfolding RCP_SetVlanPortIDAssignment_def
      by (rule port_set_switch [where reg = RT8326_VLAN_IDX and pos = VID_Index_Pos, OF ok assms r(1) b, unfolded r(2)])
  qed
  moreover have "vlan_ok dv n ?v" using ok by (simp add: vlan_ok_def)
  moreover have "vlan_table_of n ?v = (vlan_table_of n v)\<lparr>vt_index := (vt_index (vlan_table_of n v))[i := take_bit 5 d]\<rparr>"
  proof -
    have "vt_index (vlan_table_of n ?v) = (vt_index (vlan_table_of n v))[i := take_bit 5 d]"
      unfolding vlan_table_of_def vlan_table.select_convs
    proof (rule map_upt_upd)
      fix j assume j: "j < n"
      have o: "field_get (j mod 2 * 8) 5 (field_set (i mod 2 * 8) 5 d (rg v ?a)) = field_get (j mod 2 * 8) 5 (rg v ?a)" if "j \<noteq> i" "j div 2 = i div 2"
        by (rule field_get_set_other [OF packed_apart [OF that]]) simp_all
      have own: "field_get (i mod 2 * 8) 5 (field_set (i mod 2 * 8) 5 d (rg v ?a)) = take_bit 5 d"
        by (rule field_get_set) simp_all
      have g: "rg ?v (0x030C + j div 2) = (if 0x030C + j div 2 = ?a then field_set (i mod 2 * 8) 5 d (rg v ?a) else rg v (0x030C + j div 2))"
        by (rule rg_upd [OF b(1)]) (use j n in auto)
      show "field_get (j mod 2 * 8) 5 (rg ?v (0x030C + j div 2)) = (if j = i then take_bit 5 d else field_get (j mod 2 * 8) 5 (rg v (0x030C + j div 2)))"
        unfolding g using own o by (cases "j = i"; cases "j div 2 = i div 2") simp_all
    qed
    moreover have "vt_member (vlan_table_of n ?v) = vt_member (vlan_table_of n v)" "vt_vid (vlan_table_of n ?v) = vt_vid (vlan_table_of n v)"
      "vt_tag (vlan_table_of n ?v) = vt_tag (vlan_table_of n v)"
      using i n by (auto simp: vlan_table_of_def simp del: of_nat_add of_nat_mult of_nat_numeral; presburger)+
    moreover have "vt_cache (vlan_table_of n ?v) = vt_cache (vlan_table_of n v)" by (simp add: vlan_table_of_def)
    ultimately show ?thesis by (intro vlan_table.equality) simp_all
  qed
  ultimately show "\<exists>v'. RCP_SetVlanPortIDAssignment sw_io 1 p d RCP_CONFIG_REGISTER v = Some (Inr (), v') \<and> vlan_ok dv n v' \<and>
      vlan_table_of n v' = (vlan_table_of n v)\<lparr>vt_index := (vt_index (vlan_table_of n v))[p - 1 := take_bit 5 d]\<rparr>" unfolding i_def by blast
qed

definition vid_entry :: "u16 list \<Rightarrow> u16 \<Rightarrow> nat" where "vid_entry l x = (case vid_index l x of Some i \<Rightarrow> i | None \<Rightarrow> 0)"

lemma SetVlanPVID_table:
  assumes "1 \<le> p" "p \<le> n"
  shows "vlan_sim dv n (RCP_SetVlanPVID sw_io 1 p x RCP_CONFIG_REGISTER)
    (\<lambda>t. t\<lparr>vt_index := (vt_index t)[p - 1 := take_bit 5 (of_nat (vid_entry (vt_cache t) x))]\<rparr>)"
  unfolding vlan_sim_def
proof (intro allI impI)
  fix v assume ok: "vlan_ok dv n v"
  let ?k = "of_nat (vid_entry (vt_cache (vlan_table_of n v)) x)"
  have "RCP_SetVlanPVID sw_io 1 p x RCP_CONFIG_REGISTER v = RCP_SetVlanPortIDAssignment sw_io 1 p ?k RCP_CONFIG_REGISTER v"
    by (simp add: RCP_SetVlanPVID_def RCP_GetVlanNumFromVID_def vid_entry_def vlan_table_of_def del: One_nat_def)
  with vlan_simD [OF SetVlanPortIDAssignment_table [OF assms, where d = ?k] ok]
  show "\<exists>v'. RCP_SetVlanPVID sw_io 1 p x RCP_CONFIG_REGISTER v = Some (Inr (), v') \<and> vlan_ok dv n v' \<and>
      vlan_table_of n v' = (vlan_table_of n v)\<lparr>vt_index := (vt_index (vlan_table_of n v))[p - 1 := take_bit 5 ?k]\<rparr>" by simp
qed

lemma SetVlanInsert_table: "vlan_sim dv n (RCP_SetVlanInsert sw_io d RCP_CONFIG_REGISTER) (\<lambda>t. t)"
  unfolding vlan_sim_def
proof (intro allI impI)
  fix v assume ok: "vlan_ok dv n v"
  have n: "n \<in> {8, 16, 24}" using ok by (auto simp: vlan_ok_def)
  let ?v = "sw_upd (of_nat 0x037D) d v"
  have "RCP_SetVlanInsert sw_io d RCP_CONFIG_REGISTER v = Some (Inr (), ?v)"
    using vlan_reg [of "0x037D" d v] by (simp add: RCP_SetVlanInsert_def rcp_flags rcp_ret_def)
  moreover have "vlan_ok dv n ?v" using ok by (simp add: vlan_ok_def)
  moreover have "vlan_table_of n ?v = vlan_table_of n v"
    using n by (auto simp: vlan_table_of_def simp del: of_nat_numeral)
  ultimately show "\<exists>v'. RCP_SetVlanInsert sw_io d RCP_CONFIG_REGISTER v = Some (Inr (), v') \<and> vlan_ok dv n v' \<and> vlan_table_of n v' = vlan_table_of n v" by blast
qed

section \<open>The isolation on the table\<close>

definition set_entry :: "nat \<Rightarrow> nat \<Rightarrow> u32 \<Rightarrow> u16 \<Rightarrow> vlan_table \<Rightarrow> vlan_table" where
  "set_entry n k d x t = t\<lparr>vt_member := (vt_member t)[k := member_of n d], vt_vid := (vt_vid t)[k := take_bit 12 x], vt_cache := (vt_cache t)[k := x]\<rparr>"

definition set_index :: "nat \<Rightarrow> u16 \<Rightarrow> vlan_table \<Rightarrow> vlan_table" where
  "set_index p x t = t\<lparr>vt_index := (vt_index t)[p - 1 := take_bit 5 (of_nat (vid_entry (vt_cache t) x))]\<rparr>"

definition set_tag :: "nat \<Rightarrow> u16 \<Rightarrow> vlan_table \<Rightarrow> vlan_table" where
  "set_tag p x t = t\<lparr>vt_tag := (vt_tag t)[p - 1 := take_bit 2 x]\<rparr>"

fun iso :: "nat \<Rightarrow> nat \<Rightarrow> nat \<Rightarrow> nat list \<Rightarrow> vlan_table \<Rightarrow> vlan_table" where
  "iso n mgt k [] t = t"
| "iso n mgt k (p # ps) t =
     (if p = mgt then iso n mgt k ps (set_tag p 0 t)
      else iso n mgt (k + 1) ps (set_index p (of_nat (k + 1)) (set_entry n k (push_bit (mgt - 1) 1 OR push_bit (p - 1) 1) (of_nat (k + 1)) (set_tag p 0 t))))"

lemma vlan_sim_cong: "vlan_sim dv n m f \<Longrightarrow> f = g \<Longrightarrow> vlan_sim dv n m g" by simp

lemma entry_sim:
  assumes "k < 32"
  shows "vlan_sim dv n (rcp_then (RCP_SetVlanPort sw_io k d RCP_CONFIG_REGISTER) (RCP_SetVlanVID sw_io k x RCP_CONFIG_REGISTER)) (set_entry n k d x)"
    "vlan_sim dv n (rcp_then (RCP_SetVlanVID sw_io k x RCP_CONFIG_REGISTER) (RCP_SetVlanPort sw_io k d RCP_CONFIG_REGISTER)) (set_entry n k d x)"
  by (rule vlan_sim_cong [OF vlan_sim_then [OF SetVlanPort_table [OF assms] SetVlanVID_table [OF assms]]], simp add: set_entry_def fun_eq_iff)
    (rule vlan_sim_cong [OF vlan_sim_then [OF SetVlanVID_table [OF assms] SetVlanPort_table [OF assms]]], simp add: set_entry_def fun_eq_iff)

lemma rcp_then_assoc: "rcp_then (rcp_then a b) c = rcp_then a (rcp_then b c)"
  by (simp add: rcp_then_def rcp_bind_assoc)

lemma phy_vlan_sim:
  assumes "1 \<le> p" "p \<le> n" "vlan_sim dv n (m (p - 1)) f"
  shows "vlan_sim dv n (rcp_bind (phy_of sw_io 1 p) m) f"
  unfolding vlan_sim_def
proof (intro allI impI)
  fix v assume ok: "vlan_ok dv n v"
  from vlan_phy(1) [OF ok assms(1,2)] vlan_simD [OF assms(3) ok]
  show "\<exists>v'. rcp_bind (phy_of sw_io 1 p) m v = Some (Inr (), v') \<and> vlan_ok dv n v' \<and> vlan_table_of n v' = f (vlan_table_of n v)" by simp
qed

lemma isolate_ports_table:
  assumes "1 \<le> mgt" "mgt \<le> n" "set ps \<subseteq> {1..n}" "k + length ps \<le> 32"
  shows "vlan_sim dv n (isolate_ports sw_io mgt (push_bit (mgt - 1) 1) RCP_CONFIG_REGISTER k ps) (iso n mgt k ps)"
  using assms(3,4)
proof (induction ps arbitrary: k)
  case Nil
  then show ?case by (simp add: vlan_sim_ret)
next
  case (Cons p ps)
  have p: "1 \<le> p" "p \<le> n" and k: "k < 32" using Cons.prems by auto
  have tag: "vlan_sim dv n (RCP_SetVlanOutPortTag sw_io 1 p 0 RCP_CONFIG_REGISTER) (set_tag p 0)"
    using SetVlanOutPortTag_table [OF p, where d = 0] by (simp add: set_tag_def [abs_def])
  show ?case
  proof (cases "p = mgt")
    case True
    have "vlan_sim dv n (isolate_ports sw_io mgt (push_bit (mgt - 1) 1) RCP_CONFIG_REGISTER k ps) (iso n mgt k ps)"
      by (rule Cons.IH) (use Cons.prems in auto)
    from vlan_sim_then [OF tag this] show ?thesis using True by simp
  next
    case False
    let ?d = "push_bit (mgt - 1) 1 OR push_bit (p - 1) 1" and ?x = "of_nat (k + 1)"
    have r: "vlan_sim dv n (isolate_ports sw_io mgt (push_bit (mgt - 1) 1) RCP_CONFIG_REGISTER (k + 1) ps) (iso n mgt (k + 1) ps)"
      by (rule Cons.IH) (use Cons.prems in auto)
    have "vlan_sim dv n (RCP_SetVlanPVID sw_io 1 p ?x RCP_CONFIG_REGISTER) (set_index p ?x)"
      using SetVlanPVID_table [OF p, where x = ?x] by (simp add: set_index_def [abs_def])
    from vlan_sim_then [OF entry_sim(1) [OF k] vlan_sim_then [OF this r]]
    have "vlan_sim dv n (rcp_then (RCP_SetVlanPort sw_io k ?d RCP_CONFIG_REGISTER) (rcp_then (RCP_SetVlanVID sw_io k ?x RCP_CONFIG_REGISTER)
        (rcp_then (RCP_SetVlanPVID sw_io 1 p ?x RCP_CONFIG_REGISTER) (isolate_ports sw_io mgt (push_bit (mgt - 1) 1) RCP_CONFIG_REGISTER (k + 1) ps))))
      (\<lambda>t. iso n mgt (k + 1) ps (set_index p ?x (set_entry n k ?d ?x t)))" by (simp add: rcp_then_assoc)
    from vlan_sim_then [OF tag phy_vlan_sim [OF p, where m = "\<lambda>phyPort. rcp_then (RCP_SetVlanPort sw_io k (push_bit (mgt - 1) 1 OR push_bit phyPort 1) RCP_CONFIG_REGISTER)
        (rcp_then (RCP_SetVlanVID sw_io k ?x RCP_CONFIG_REGISTER) (rcp_then (RCP_SetVlanPVID sw_io 1 p ?x RCP_CONFIG_REGISTER)
           (isolate_ports sw_io mgt (push_bit (mgt - 1) 1) RCP_CONFIG_REGISTER (k + 1) ps)))", OF this]]
    show ?thesis using False by simp
  qed
qed

definition iso_all :: "nat \<Rightarrow> nat \<Rightarrow> vlan_table \<Rightarrow> vlan_table" where
  "iso_all n mgt t = set_index mgt 1 (fold (\<lambda>k. set_entry n k 0 0) [n..<32] (iso n mgt 1 [1..<n + 1] (set_entry n 0 0xffffffff 1 t)))"

lemma isolate_table:
  assumes "1 \<le> mgt" "mgt \<le> n" "n \<le> 24"
  shows "vlan_sim dv n (RCP_SetVlanMgtPortIsolate sw_io mgt RCP_CONFIG_REGISTER) (iso_all n mgt)"
proof -
  let ?F = RCP_CONFIG_REGISTER
  let ?ports = "isolate_ports sw_io mgt (push_bit (mgt - 1) 1) ?F 1 [1..<n + 1]"
  let ?clear = "rcp_each (\<lambda>k. rcp_then (RCP_SetVlanPort sw_io k 0 ?F) (RCP_SetVlanVID sw_io k 0 ?F)) [n..<32]"
  have "vlan_sim dv n ?ports (iso n mgt 1 [1..<n + 1])" by (rule isolate_ports_table) (use assms in auto)
  moreover have "vlan_sim dv n ?clear (fold (\<lambda>k. set_entry n k 0 0) [n..<32])" by (rule vlan_sim_each) (auto intro: entry_sim)
  moreover have "vlan_sim dv n (RCP_SetVlanPVID sw_io 1 mgt 1 ?F) (set_index mgt 1)"
    using SetVlanPVID_table [OF assms(1,2), where x = 1] by (simp add: set_index_def [abs_def])
  ultimately have "vlan_sim dv n (rcp_then ?ports (rcp_then ?clear (rcp_then (RCP_SetVlanPVID sw_io 1 mgt 1 ?F) (RCP_SetVlanInsert sw_io 0 ?F))))
      (\<lambda>t. set_index mgt 1 (fold (\<lambda>k. set_entry n k 0 0) [n..<32] (iso n mgt 1 [1..<n + 1] t)))"
    by (intro vlan_sim_then [OF _ vlan_sim_then [OF _ vlan_sim_then [OF _ SetVlanInsert_table]]])
  then have body: "vlan_sim dv n (rcp_bind (rcp_dev_get sw_io rd_numOfPorts) (\<lambda>n.
        rcp_then (isolate_ports sw_io mgt (push_bit (mgt - 1) 1) ?F 1 [1..<n + 1])
        (rcp_then (rcp_each (\<lambda>k. rcp_then (RCP_SetVlanPort sw_io k 0 ?F) (RCP_SetVlanVID sw_io k 0 ?F)) [n..<32])
        (rcp_then (RCP_SetVlanPVID sw_io 1 mgt 1 ?F) (RCP_SetVlanInsert sw_io 0 ?F)))))
      (\<lambda>t. set_index mgt 1 (fold (\<lambda>k. set_entry n k 0 0) [n..<32] (iso n mgt 1 [1..<n + 1] t)))"
    by (simp add: vlan_sim_def vlan_ok_def)
  have e: "vlan_sim dv n (rcp_then (RCP_SetVlanVID sw_io 0 1 ?F) (RCP_SetVlanPort sw_io 0 0xffffffff ?F)) (set_entry n 0 0xffffffff 1)"
    by (rule entry_sim) simp
  note p = phy_vlan_sim [OF assms(1,2), where m = "\<lambda>phyPort. rcp_bind (rcp_dev_get sw_io rd_numOfPorts) (\<lambda>n.
        rcp_then (isolate_ports sw_io mgt (push_bit phyPort 1) ?F 1 [1..<n + 1])
        (rcp_then (rcp_each (\<lambda>k. rcp_then (RCP_SetVlanPort sw_io k 0 ?F) (RCP_SetVlanVID sw_io k 0 ?F)) [n..<32])
        (rcp_then (RCP_SetVlanPVID sw_io 1 mgt 1 ?F) (RCP_SetVlanInsert sw_io 0 ?F))))", OF body]
  show ?thesis
    unfolding RCP_SetVlanMgtPortIsolate_def MAX_RCP_VLAN_NUM_def iso_all_def [abs_def]
    using vlan_sim_then [OF e p] by (simp only: rcp_then_assoc)
qed

text \<open>The entry of a port.\<close>

definition iso_entry :: "nat \<Rightarrow> nat \<Rightarrow> nat" where "iso_entry mgt p = (if p < mgt then p else p - 1)"

definition vt_sized :: "nat \<Rightarrow> vlan_table \<Rightarrow> bool" where
  "vt_sized n t \<longleftrightarrow> length (vt_member t) = 32 \<and> length (vt_cache t) = 32 \<and> length (vt_index t) = n"

lemma vid_entry_own:
  assumes "\<forall>j<k. c ! j = of_nat (j + 1)" "c ! k = of_nat (k + 1)" "k < 32" "length c = 32"
  shows "vid_entry c (of_nat (k + 1)) = k"
proof -
  have "c ! j \<noteq> of_nat (k + 1)" if "j < k" for j
  proof
    assume "c ! j = of_nat (k + 1)"
    then have "unat (of_nat (j + 1) :: u16) = unat (of_nat (k + 1) :: u16)" using assms(1) that by simp
    then show False using that assms(3) by (simp add: unat_of_nat take_bit_nat_eq_self del: of_nat_Suc)
  qed
  then have "first_idx (\<lambda>v. v = of_nat (k + 1)) c = k" by (intro first_idx_eqI) (use assms in auto)
  then show ?thesis using assms(3,4) by (simp add: vid_entry_def vid_index_def Let_def)
qed

lemma take5: "k < 32 \<Longrightarrow> take_bit 5 (of_nat k :: u16) = of_nat k"
  by (simp add: word_unat_eq_iff unsigned_take_bit_eq unat_of_nat take_bit_nat_eq_self)

lemma iso_result:
  assumes "vt_sized n t" "1 \<le> mgt" "mgt \<le> n" "n \<le> 24" "1 \<le> q" "q \<le> n + 1" "k = (if q \<le> mgt then q else q - 1)"
    "\<forall>j<k. vt_cache t ! j = of_nat (j + 1)"
  shows "let t' = iso n mgt k [q..<n + 1] t in vt_sized n t' \<and> (\<forall>j<n. vt_cache t' ! j = of_nat (j + 1)) \<and>
    (\<forall>j<k. vt_member t' ! j = vt_member t ! j) \<and> (\<forall>p. 1 \<le> p \<longrightarrow> p < q \<longrightarrow> vt_index t' ! (p - 1) = vt_index t ! (p - 1)) \<and>
    (\<forall>p. q \<le> p \<longrightarrow> p \<le> n \<longrightarrow> p \<noteq> mgt \<longrightarrow> vt_index t' ! (p - 1) = of_nat (iso_entry mgt p) \<and>
       vt_member t' ! iso_entry mgt p = member_of n (push_bit (mgt - 1) 1 OR push_bit (p - 1) 1))"
  using assms
proof (induction "n + 1 - q" arbitrary: q k t)
  case 0
  then have "q = n + 1" "k = n" by auto
  then show ?case using 0 by (simp add: Let_def)
next
  case (Suc m)
  have qn: "q \<le> n" and up: "[q..<n + 1] = q # [Suc q..<n + 1]" using Suc.hyps(2) Suc.prems by (auto simp: upt_conv_Cons)
  have m: "m = n + 1 - Suc q" using Suc.hyps(2) by simp
  show ?case
  proof (cases "q = mgt")
    case True
    have s: "vt_sized n (set_tag q 0 t)" using Suc.prems(1) by (simp add: vt_sized_def set_tag_def)
    have k: "k = (if Suc q \<le> mgt then Suc q else Suc q - 1)" using True Suc.prems(7) by simp
    have c: "\<forall>j<k. vt_cache (set_tag q 0 t) ! j = of_nat (j + 1)" using Suc.prems(8) by (simp add: set_tag_def)
    from Suc.hyps(1) [OF m s Suc.prems(2-4) _ _ k c] qn True show ?thesis unfolding up iso.simps
      by (auto simp: Let_def set_tag_def not_less_eq_eq Suc_le_eq)
  next
    case False
    let ?d = "push_bit (mgt - 1) 1 OR push_bit (q - 1) 1"
    define t1 where "t1 = set_index q (of_nat (k + 1)) (set_entry n k ?d (of_nat (k + 1)) (set_tag q 0 t))"
    have kk: "k < n" "k < 32" "k = iso_entry mgt q" using Suc.prems False qn by (auto simp: iso_entry_def split: if_splits)
    have e: "vid_entry ((vt_cache t)[k := of_nat (k + 1)]) (of_nat (k + 1)) = k"
      by (rule vid_entry_own) (use Suc.prems(1,8) kk in \<open>auto simp: vt_sized_def\<close>)
    have t: "vt_member t1 = (vt_member t)[k := member_of n ?d]" "vt_cache t1 = (vt_cache t)[k := of_nat (k + 1)]"
      "vt_index t1 = (vt_index t)[q - 1 := of_nat k]"
      using e take5 [OF kk(2)] by (simp_all add: t1_def set_index_def set_entry_def set_tag_def del: of_nat_Suc of_nat_add)
    have s: "vt_sized n t1" using Suc.prems(1) by (simp add: vt_sized_def t)
    have k: "k + 1 = (if Suc q \<le> mgt then Suc q else Suc q - 1)" using False Suc.prems(5,7) by auto
    have c: "\<forall>j<k + 1. vt_cache t1 ! j = of_nat (j + 1)" using Suc.prems(1,8) kk unfolding t by (auto simp: vt_sized_def nth_list_update less_Suc_eq)
    from Suc.hyps(1) [OF m s Suc.prems(2-4) _ _ k c] qn
    have r: "vt_sized n (iso n mgt (k + 1) [Suc q..<n + 1] t1)" "\<forall>j<n. vt_cache (iso n mgt (k + 1) [Suc q..<n + 1] t1) ! j = of_nat (j + 1)"
      "\<forall>j<k + 1. vt_member (iso n mgt (k + 1) [Suc q..<n + 1] t1) ! j = vt_member t1 ! j"
      "\<forall>p. 1 \<le> p \<longrightarrow> p < Suc q \<longrightarrow> vt_index (iso n mgt (k + 1) [Suc q..<n + 1] t1) ! (p - 1) = vt_index t1 ! (p - 1)"
      "\<forall>p. Suc q \<le> p \<longrightarrow> p \<le> n \<longrightarrow> p \<noteq> mgt \<longrightarrow> vt_index (iso n mgt (k + 1) [Suc q..<n + 1] t1) ! (p - 1) = of_nat (iso_entry mgt p) \<and>
         vt_member (iso n mgt (k + 1) [Suc q..<n + 1] t1) ! iso_entry mgt p = member_of n (push_bit (mgt - 1) 1 OR push_bit (p - 1) 1)"
      unfolding Let_def by auto
    let ?i = "iso n mgt (k + 1) [Suc q..<n + 1] t1"
    have l: "length (vt_member t) = 32" "length (vt_index t) = n" using Suc.prems(1) by (auto simp: vt_sized_def)
    have o: "vt_index ?i ! (q - 1) = of_nat k" using r(4) [rule_format, of q] Suc.prems(5) qn l(2) by (simp add: t)
    have om: "vt_member ?i ! k = member_of n ?d" using r(3) [rule_format, of k] kk l(1) by (simp add: t)
    have ix: "vt_index ?i ! (p - 1) = vt_index t ! (p - 1)" if "1 \<le> p" "p < q" for p
      using r(4) [rule_format, of p] that by (simp add: t)
    have mm: "vt_member ?i ! j = vt_member t ! j" if "j < k" for j using r(3) [rule_format, of j] that by (simp add: t)
    have "iso n mgt k [q..<n + 1] t = ?i" unfolding up iso.simps t1_def using False by simp
    moreover have "vt_index ?i ! (p - 1) = of_nat (iso_entry mgt p) \<and> vt_member ?i ! iso_entry mgt p = member_of n (push_bit (mgt - 1) 1 OR push_bit (p - 1) 1)"
      if "q \<le> p" "p \<le> n" "p \<noteq> mgt" for p
      using r(5) that o om kk(3) by (cases "p = q") auto
    ultimately show ?thesis using r(1,2) ix mm by (simp add: Let_def)
  qed
qed

lemma fold_entries:
  assumes "j < n"
  shows "vt_member (fold (\<lambda>k. set_entry n k 0 0) [n..<m] t) ! j = vt_member t ! j" "vt_cache (fold (\<lambda>k. set_entry n k 0 0) [n..<m] t) ! j = vt_cache t ! j"
    "vt_index (fold (\<lambda>k. set_entry n k 0 0) [n..<m] t) = vt_index t" "vt_sized n t \<Longrightarrow> vt_sized n (fold (\<lambda>k. set_entry n k 0 0) [n..<m] t)"
  by (induction m) (use assms in \<open>auto simp: set_entry_def vt_sized_def\<close>)

lemma iso_all_result:
  assumes "vt_sized n t" "1 \<le> mgt" "mgt \<le> n" "n \<le> 24" "1 \<le> p" "p \<le> n"
  shows "vt_index (iso_all n mgt t) ! (p - 1) = of_nat (if p = mgt then 0 else iso_entry mgt p)"
    "vt_member (iso_all n mgt t) ! (if p = mgt then 0 else iso_entry mgt p) =
       member_of n (if p = mgt then 0xffffffff else push_bit (mgt - 1) 1 OR push_bit (p - 1) 1)"
proof -
  define t0 where "t0 = set_entry n 0 0xffffffff 1 t"
  define t1 where "t1 = iso n mgt 1 [1..<n + 1] t0"
  define t2 where "t2 = fold (\<lambda>k. set_entry n k 0 0) [n..<32] t1"
  have s0: "vt_sized n t0" "vt_cache t0 ! 0 = 1" "vt_member t0 ! 0 = member_of n 0xffffffff"
    using assms(1) by (simp_all add: t0_def set_entry_def vt_sized_def)
  have r: "vt_sized n t1" "\<forall>j<n. vt_cache t1 ! j = of_nat (j + 1)" "vt_member t1 ! 0 = vt_member t0 ! 0"
    "\<forall>p. 1 \<le> p \<longrightarrow> p \<le> n \<longrightarrow> p \<noteq> mgt \<longrightarrow> vt_index t1 ! (p - 1) = of_nat (iso_entry mgt p) \<and>
       vt_member t1 ! iso_entry mgt p = member_of n (push_bit (mgt - 1) 1 OR push_bit (p - 1) 1)"
    using iso_result [OF s0(1) assms(2-4), of 1 1] assms(2,3) s0(2) by (simp_all add: t1_def Let_def)
  have n0: "0 < n" using assms by simp
  note f = fold_entries(1-3) [where t = t1 and m = 32 and n = n, folded t2_def]
  have s2: "vt_sized n t2" unfolding t2_def by (rule fold_entries(4) [OF n0 r(1)])
  have c2: "vt_cache t2 ! 0 = 1" using f(2) [OF n0] r(2) n0 by simp
  have v: "vid_entry (vt_cache t2) 1 = 0" using vid_entry_own [of 0 "vt_cache t2"] c2 s2 by (simp add: vt_sized_def)
  have e: "iso_all n mgt t = t2\<lparr>vt_index := (vt_index t2)[mgt - 1 := 0]\<rparr>"
    unfolding iso_all_def t0_def [symmetric] t1_def [symmetric] t2_def [symmetric] set_index_def v by simp
  have "vt_index (iso_all n mgt t) ! (p - 1) = of_nat (if p = mgt then 0 else iso_entry mgt p) \<and>
    vt_member (iso_all n mgt t) ! (if p = mgt then 0 else iso_entry mgt p) =
       member_of n (if p = mgt then 0xffffffff else push_bit (mgt - 1) 1 OR push_bit (p - 1) 1)"
  proof (cases "p = mgt")
    case True
    have "length (vt_index t2) = n" using s2 by (simp add: vt_sized_def)
    then show ?thesis using True assms(2,3) s0(3) r(3) f(1) [OF n0] by (simp add: e)
  next
    case False
    have "iso_entry mgt p < n" using False assms by (auto simp: iso_entry_def)
    then show ?thesis using False assms r(4) f(1,3) n0 by (auto simp: e nth_list_update)
  qed
  then show "vt_index (iso_all n mgt t) ! (p - 1) = of_nat (if p = mgt then 0 else iso_entry mgt p)"
    "vt_member (iso_all n mgt t) ! (if p = mgt then 0 else iso_entry mgt p) =
       member_of n (if p = mgt then 0xffffffff else push_bit (mgt - 1) 1 OR push_bit (p - 1) 1)" by auto
qed

section \<open>On an attached switch\<close>

lemma iso_member_bits: "n \<in> {8, 16, 24} \<Longrightarrow> i < n \<Longrightarrow> bit (member_of n d) i \<longleftrightarrow> bit d i"
  by (auto simp: member_of_def bit_simps)

lemma bit_one_port: "i < 32 \<Longrightarrow> bit (push_bit k 1 :: u32) i \<longleftrightarrow> i = k"
  by (auto simp: bit_push_bit_iff bit_1_iff simp del: push_bit_of_1)

lemma switch_member:
  assumes "vlan_ok dv n v" "k < 32"
  shows "RCP_GetVlanPort sw_io k v = Some (Inr (vt_member (vlan_table_of n v) ! k), v)"
proof -
  have n: "rd_numOfPorts (sw_dev v) = n" using assms(1) by (auto simp: vlan_ok_def)
  have r: "RT8326_VLAN_PORT_MEMBER k 0 = of_nat (0x031D + 3 * k)" "RT8326_VLAN_PORT_MEMBER k 1 = of_nat (0x031E + 3 * k)"
    by (simp_all add: RT8326_VLAN_PORT_MEMBER_def)
  show ?thesis using n assms(2)
    by (simp add: RCP_GetVlanPort_def vlan_port_to_def r rcp_ret_def rg_def vlan_table_of_def Let_def del: of_nat_add of_nat_mult of_nat_numeral One_nat_def)
qed

lemma switch_index:
  assumes "vlan_ok dv n v" "1 \<le> p" "p \<le> n"
  shows "RCP_GetVlanPortIDAssignment sw_io 1 p v = Some (Inr (vt_index (vlan_table_of n v) ! (p - 1)), v)"
proof -
  have r: "RT8326_VLAN_IDX (p - 1) = of_nat (0x030C + (p - 1) div 2)" "VID_Index_Pos (p - 1) = (p - 1) mod 2 * 8"
    by (simp_all add: RT8326_VLAN_IDX_def VID_Index_Pos_def)
  have "RCP_GetVlanPortIDAssignment sw_io 1 p v = Some (Inr (field_get ((p - 1) mod 2 * 8) 5 (rg v (0x030C + (p - 1) div 2))), v)"
    by (simp add: RCP_GetVlanPortIDAssignment_def port_get_def vlan_phy(1) [OF assms] r sw_GetRegField rg_def del: One_nat_def of_nat_add)
  moreover have "vt_index (vlan_table_of n v) ! (p - 1) = field_get ((p - 1) mod 2 * 8) 5 (rg v (0x030C + (p - 1) div 2))"
    unfolding vlan_table_of_def vlan_table.select_convs by (subst nth_map) (use assms(2,3) in auto)
  ultimately show ?thesis by simp
qed

text \<open>
  C13. Isolation separates the ports. When the ports of an attached switch with 8, 16 or 24 ports are isolated with a
  management port, then for every other port the VLAN entry that its untagged frames belong to has
  exactly two members, the port itself and the management port, and that of the management port has all
  ports: a frame from one port reaches no other port but the management port. The entries are
  distinct, as the getters of the switch show.
\<close>

theorem ports_isolated:
  assumes at: "attached env vw good d dv s" and dev: "rcp_dev_at s d = Some dev" and n: "(dv, n) \<in> {(GH1508, 8), (GH1516, 16), (GH1524, 24)}"
    and w: "rd_numOfPorts dev = n" "length (rd_vlanVid dev) = 32" "length (rd_vlanPort dev) = 32" and m: "1 \<le> mgt" "mgt \<le> n"
  shows "\<exists>s1. RCP_SetVlanMgtPortIsolate (rcp_link env d) mgt RCP_CONFIG_REGISTER s = Some (Inr (), s1) \<and> attached env vw good d dv s1 \<and>
    (\<forall>p. 1 \<le> p \<longrightarrow> p \<le> n \<longrightarrow> (\<exists>k ports s2 s3. RCP_GetVlanPortIDAssignment (rcp_link env d) 1 p s1 = Some (Inr k, s2) \<and>
       RCP_GetVlanPort (rcp_link env d) (unat k) s1 = Some (Inr ports, s3) \<and>
       unat k = (if p = mgt then 0 else if p < mgt then p else p - 1) \<and>
       (\<forall>i<n. bit ports i \<longleftrightarrow> p = mgt \<or> i = p - 1 \<or> i = mgt - 1)))"
proof -
  let ?v = "rcp_view vw d s"
  note a = attachedD [OF at]
  have sd: "sw_dev ?v = dev" using dev by (simp add: rcp_view_def)
  have ok: "vlan_ok dv n ?v" using a(2) sd n w by (simp add: vlan_ok_def)
  have n24: "n \<le> 24" "n \<in> {8, 16, 24}" using n by auto
  from vlan_simD [OF isolate_table [OF m n24(1)] ok] obtain v1 where v1: "RCP_SetVlanMgtPortIsolate sw_io mgt RCP_CONFIG_REGISTER ?v = Some (Inr (), v1)"
    "vlan_ok dv n v1" "vlan_table_of n v1 = iso_all n mgt (vlan_table_of n ?v)" by blast
  from rcp_simD [OF link.isolate_sim a(1) v1(1)] obtain s1 where s1: "RCP_SetVlanMgtPortIsolate (rcp_link env d) mgt RCP_CONFIG_REGISTER s = Some (Inr (), s1)"
    "rcp_link_ok env vw good d s1" "rcp_view vw d s1 = v1" by blast
  have at1: "attached env vw good d dv s1" using v1(2) by (intro attached_view s1(2)) (simp add: s1(3) vlan_ok_def)
  have sz: "vt_sized n (vlan_table_of n ?v)" using w sd by (simp add: vt_sized_def) (simp add: vlan_table_of_def)
  have "\<exists>k ports s2 s3. RCP_GetVlanPortIDAssignment (rcp_link env d) 1 p s1 = Some (Inr k, s2) \<and>
       RCP_GetVlanPort (rcp_link env d) (unat k) s1 = Some (Inr ports, s3) \<and> unat k = (if p = mgt then 0 else if p < mgt then p else p - 1) \<and>
       (\<forall>i<n. bit ports i \<longleftrightarrow> p = mgt \<or> i = p - 1 \<or> i = mgt - 1)" if p: "1 \<le> p" "p \<le> n" for p
  proof -
    define e where "e = (if p = mgt then 0 else iso_entry mgt p)"
    have e32: "e < 32" using p n24(1) by (auto simp: e_def iso_entry_def)
    then have ue: "unat (of_nat e :: u16) = e" by (simp add: unat_of_nat take_bit_nat_eq_self)
    have ev: "e = (if p = mgt then 0 else if p < mgt then p else p - 1)" by (simp add: e_def iso_entry_def)
    let ?ports = "member_of n (if p = mgt then 0xffffffff else push_bit (mgt - 1) 1 OR push_bit (p - 1) 1)"
    note r = iso_all_result [OF sz m n24(1) p, folded e_def v1(3)]
    from rcp_simD [OF link.port_get_sim s1(2), of 1 p RT8326_VLAN_IDX VID_Index_Pos 5 "Inr (of_nat e)" v1] switch_index [OF v1(2) p] r(1)
    obtain s2 where s2: "RCP_GetVlanPortIDAssignment (rcp_link env d) 1 p s1 = Some (Inr (of_nat e), s2)"
      by (auto simp: RCP_GetVlanPortIDAssignment_def s1(3))
    from rcp_simD [OF link.GetVlanPort_sim s1(2), of e "Inr ?ports" v1] switch_member [OF v1(2) e32] r(2)
    obtain s3 where s3: "RCP_GetVlanPort (rcp_link env d) e s1 = Some (Inr ?ports, s3)" by (auto simp: s1(3))
    have "bit (0xffffffff :: u32) i" if "i < n" for i
    proof -
      have e: "(0xffffffff :: u32) = mask 32" by (simp add: mask_eq_exp_minus_1)
      show ?thesis unfolding e bit_mask_iff using that n24(1) by simp
    qed
    moreover have "i < 32" if "i < n" for i using that n24(1) by simp
    ultimately have "\<forall>i<n. bit ?ports i \<longleftrightarrow> p = mgt \<or> i = p - 1 \<or> i = mgt - 1"
      unfolding iso_member_bits [OF n24(2)] by (auto simp only: bit_or_iff bit_one_port iso_member_bits [OF n24(2)] split: if_splits)
    then show ?thesis using s2 s3 ue ev
      by (intro exI [of _ "of_nat e"] exI [of _ ?ports] exI [of _ s2] exI [of _ s3]) simp
  qed
  with s1(1) at1 show ?thesis by blast
qed

lemma attached_upd:
  assumes "attached env vw good d dv s" "rcp_dev_at s d = Some dev" "keeps_link f" "rd_deviceId (f dev) = dv"
  shows "attached env vw good d dv (rcp_dev_upd d f s)" "rcp_dev_at (rcp_dev_upd d f s) d = Some (f dev)"
  using rcp_dev_upd_ok(1) [OF attachedD(1) [OF assms(1)] assms(3)] assms(2,4) attachedD(1) [OF assms(1)]
  by (auto simp: attached_def rcp_dev_at_def rcp_dev_upd_def rcp_sizes elim!: rcp_link_okE)

theorem ports_isolated_witness:
  "\<exists>s s1. attached bench_env bn_switch bench_good 1 0 s \<and>
    RCP_SetVlanMgtPortIsolate (rcp_link bench_env 1) 3 RCP_CONFIG_REGISTER s = Some (Inr (), s1) \<and>
    (\<exists>k ports s2 s3. RCP_GetVlanPortIDAssignment (rcp_link bench_env 1) 1 5 s1 = Some (Inr k, s2) \<and>
       RCP_GetVlanPort (rcp_link bench_env 1) (unat k) s1 = Some (Inr ports, s3) \<and> unat k = 4 \<and>
       (\<forall>i<8. bit ports i \<longleftrightarrow> i = 4 \<or> i = 2))"
proof -
  define w where "w = \<lparr>bn_switch = \<lparr>sw_vals = \<lambda>a. ucast a, sw_ee = \<lambda>_. 0, sw_phy = \<lambda>_. 0, sw_dev = bench_dev\<rparr>, bn_replies = [], bn_flash = []\<rparr>"
  have "bench_good w" by (simp add: w_def bench_good_def)
  from bench_attached [OF this] obtain s0 where s0: "attached bench_env bn_switch bench_good 1 0 s0"
    "rcp_dev_at s0 1 = Some (bench_dev\<lparr>rd_onlineStatus := 1\<rparr>)" by blast
  define f :: "rcp_dev \<Rightarrow> rcp_dev" where "f = (\<lambda>x. x\<lparr>rd_deviceId := 0, rd_numOfPorts := 8, rd_vlanVid := replicate 32 0, rd_vlanPort := replicate 32 0\<rparr>)"
  have "keeps_link f" by (simp add: keeps_link_def rd_link_def f_def)
  from attached_upd [OF s0 this] have s: "attached bench_env bn_switch bench_good 1 0 (rcp_dev_upd 1 f s0)"
    "rcp_dev_at (rcp_dev_upd 1 f s0) 1 = Some (f (bench_dev\<lparr>rd_onlineStatus := 1\<rparr>))" by (simp_all add: f_def)
  from ports_isolated [OF s, of 8 3] obtain s1
    where s1: "RCP_SetVlanMgtPortIsolate (rcp_link bench_env 1) 3 RCP_CONFIG_REGISTER (rcp_dev_upd 1 f s0) = Some (Inr (), s1)"
      and p: "\<forall>p. 1 \<le> p \<longrightarrow> p \<le> 8 \<longrightarrow> (\<exists>k ports s2 s3. RCP_GetVlanPortIDAssignment (rcp_link bench_env 1) 1 p s1 = Some (Inr k, s2) \<and>
       RCP_GetVlanPort (rcp_link bench_env 1) (unat k) s1 = Some (Inr ports, s3) \<and>
       unat k = (if p = 3 then 0 else if p < 3 then p else p - 1) \<and>
       (\<forall>i<8. bit ports i \<longleftrightarrow> p = 3 \<or> i = p - 1 \<or> i = 3 - 1))"
    by (auto simp: f_def rcp_limits)
  from p [rule_format, of 5] s(1) s1 show ?thesis by (auto simp del: One_nat_def)
qed

end
