(* ===== verification/Rcp_Watch.thy ===== *)
theory Rcp_Watch
  imports Rcp_Mon Rcp_Isolate
begin

text \<open>
  What holds of the parameters in the EEPROM of an attached switch: they lie apart, and each is read as it was written.
\<close>

section \<open>Parameters through the link\<close>

context reg_access
begin

lemma try_sim: "rcp_sim ok view m f \<Longrightarrow> rcp_sim ok view (rcp_try m) (rcp_try f)"
  unfolding rcp_sim_def rcp_try_def by fastforce

lemma get_param_sim: "rcp_sim ok view (get_param io ea is data) (get_param sw_io ea is data)"
proof (induction "is" arbitrary: data)
  case (Cons i "is")
  show ?case unfolding get_param.simps
    by (intro field_sims rcp_sim_fault try_sim) (auto split: sum.split intro: rcp_sims Cons)
qed (simp add: rcp_sim_pure)

lemma Get_Eeprom_Param_sim: "rcp_sim ok view (Rcp_Get_Eeprom_Param io type data) (Rcp_Get_Eeprom_Param sw_io type data)"
  unfolding Rcp_Get_Eeprom_Param_def by (intro field_sims rcp_sim_fault get_param_sim)

lemma Set_Eeprom_Param_sim: "rcp_sim ok view (Rcp_Set_Eeprom_Param io type data) (Rcp_Set_Eeprom_Param sw_io type data)"
  unfolding Rcp_Set_Eeprom_Param_def by (intro field_sims rcp_sim_fault)

end

lemma param_place:
  assumes "t < 7"
  obtains p where "param_addr t = of_nat p" "p + snd (RCPBoardInfoArr ! t) = 0x400 - unat (fst (RCPBoardInfoArr ! t))" "p < 0x400" "snd (RCPBoardInfoArr ! t) \<le> 16"
proof -
  have "t \<in> {0, 1, 2, 3, 4, 5, 6}" using assms by auto
  then have "param_addr t = of_nat (0x400 - unat (fst (RCPBoardInfoArr ! t)) - snd (RCPBoardInfoArr ! t)) \<and>
    0x400 - unat (fst (RCPBoardInfoArr ! t)) - snd (RCPBoardInfoArr ! t) + snd (RCPBoardInfoArr ! t) = 0x400 - unat (fst (RCPBoardInfoArr ! t)) \<and>
    0x400 - unat (fst (RCPBoardInfoArr ! t)) - snd (RCPBoardInfoArr ! t) < 0x400 \<and> snd (RCPBoardInfoArr ! t) \<le> 16"
    by (auto simp: param_addr_def RCPBoardInfoArr_def RCP_EEPROM_BASIC_ADDR_def nth_Cons')
  then show thesis using that by blast
qed

lemma param_byte:
  assumes "t < 7" "i < snd (RCPBoardInfoArr ! t)"
  shows "take_bit 11 (param_addr t + of_nat i) = param_addr t + of_nat i"
    "unat (param_addr t + of_nat i) = 0x400 - unat (fst (RCPBoardInfoArr ! t)) - snd (RCPBoardInfoArr ! t) + i"
proof -
  from param_place [OF assms(1)] obtain p where p: "param_addr t = of_nat p" "p + snd (RCPBoardInfoArr ! t) = 0x400 - unat (fst (RCPBoardInfoArr ! t))" by blast
  have a: "param_addr t + of_nat i = of_nat (p + i)" using p(1) by simp
  have u: "unat (of_nat (p + i) :: u16) = p + i" using p(2) assms(2) by (simp add: unat_of_nat take_bit_nat_eq_self del: of_nat_add)
  show "take_bit 11 (param_addr t + of_nat i) = param_addr t + of_nat i"
    unfolding a word_unat_eq_iff unsigned_take_bit_eq u using p(2) assms(2) by (simp add: take_bit_nat_eq_self)
  show "unat (param_addr t + of_nat i) = 0x400 - unat (fst (RCPBoardInfoArr ! t)) - snd (RCPBoardInfoArr ! t) + i"
    unfolding a u using p(2) by simp
qed

lemma params_apart:
  assumes "t < 7" "i < snd (RCPBoardInfoArr ! t)" "u < 7" "j < snd (RCPBoardInfoArr ! u)" "param_addr t + of_nat i = param_addr u + of_nat j"
  shows "t = u \<and> i = j"
proof -
  have e: "0x400 - unat (fst (RCPBoardInfoArr ! t)) - snd (RCPBoardInfoArr ! t) + i = 0x400 - unat (fst (RCPBoardInfoArr ! u)) - snd (RCPBoardInfoArr ! u) + j"
    using param_byte(2) [OF assms(1,2)] param_byte(2) [OF assms(3,4)] assms(5) by simp
  have "t \<in> {0, 1, 2, 3, 4, 5, 6}" "u \<in> {0, 1, 2, 3, 4, 5, 6}" using assms(1,3) by auto
  then have "t = u" using e assms(2,4) by (auto simp: RCPBoardInfoArr_def nth_Cons')
  then show ?thesis using e by simp
qed

text \<open>The bytes of a parameter on a switch.\<close>

definition param_bytes :: "rcp_switch \<Rightarrow> nat \<Rightarrow> u8 list" where
  "param_bytes v t = map (\<lambda>i. sw_ee v (param_addr t + of_nat i)) [0..<snd (RCPBoardInfoArr ! t)]"

lemma sw_get_param:
  assumes "\<forall>i\<in>set is. i < length data \<and> take_bit 11 (ea + of_nat i) = ea + of_nat i"
  shows "\<exists>v'. get_param sw_io ea is data v = Some (Inr (0, fold (\<lambda>i d. d[i := sw_ee v (ea + of_nat i)]) is data), v') \<and> sw_core v' = sw_core v"
  using assms
proof (induction "is" arbitrary: data v)
  case (Cons i "is")
  from sw_GetEepromValue [of "ea + of_nat i" v] Cons.prems obtain v1 where
    v1: "RCP_GetEepromValue sw_io (ea + of_nat i) v = Some (Inr (Some (sw_ee v (ea + of_nat i))), v1)" "sw_core v1 = sw_core v" by auto
  from Cons.IH [of "data[i := sw_ee v (ea + of_nat i)]" v1] Cons.prems v1 sw_core_eqD(3) [OF v1(2)] show ?case
    by (auto simp: rcp_try_def rcp_bind_def)
qed (simp add: rcp_ret_def)

lemma fold_store: "n \<le> length data \<Longrightarrow> fold (\<lambda>i d. d[i := f i]) [0..<n] data = map f [0..<n] @ drop n data"
  by (induction n) (auto simp: list_update_append Cons_nth_drop_Suc [symmetric])

lemma sw_Get_Eeprom_Param:
  assumes "t < 7" "snd (RCPBoardInfoArr ! t) < length buf"
  shows "\<exists>v'. Rcp_Get_Eeprom_Param sw_io t buf v = Some (Inr (0, param_bytes v t @ 0 # drop (Suc (snd (RCPBoardInfoArr ! t))) buf), v') \<and> sw_core v' = sw_core v"
proof -
  let ?n = "snd (RCPBoardInfoArr ! t)"
  have "\<forall>i\<in>set [0..<?n]. i < length buf \<and> take_bit 11 (param_addr t + of_nat i) = param_addr t + of_nat i"
    using assms param_byte(1) [OF assms(1)] by auto
  from sw_get_param [OF this, of v] obtain v' where v': "get_param sw_io (param_addr t) [0..<?n] buf v = Some (Inr (0, param_bytes v t @ drop ?n buf), v')" "sw_core v' = sw_core v"
    using assms(2) by (auto simp: fold_store param_bytes_def)
  have "(param_bytes v t @ drop ?n buf)[?n := 0] = param_bytes v t @ 0 # drop (Suc ?n) buf"
    using assms(2) by (simp add: param_bytes_def list_update_append Cons_nth_drop_Suc [symmetric])
  then show ?thesis using v' assms(2) by (simp add: Rcp_Get_Eeprom_Param_def Let_def rcp_ret_def param_bytes_def)
qed

lemma sw_set_params:
  assumes "\<forall>i\<in>set is. i < length data \<and> take_bit 11 (ea + of_nat i) = ea + of_nat i"
  shows "\<exists>v'. rcp_each (\<lambda>i. if i \<ge> length data then rcp_fault else RCP_SetEepromValue sw_io (ea + of_nat i) (data ! i)) is v = Some (Inr (), v') \<and>
    sw_core v' = (sw_core v)\<lparr>sw_ee := fold (\<lambda>i e. e(ea + of_nat i := data ! i)) is (sw_ee v)\<rparr>"
  using assms
proof (induction "is" arbitrary: v)
  case (Cons i "is")
  from sw_SetEepromValue [of "ea + of_nat i" "data ! i" v] Cons.prems obtain v1 where
    v1: "RCP_SetEepromValue sw_io (ea + of_nat i) (data ! i) v = Some (Inr (), v1)" "sw_core v1 = (sw_core v)\<lparr>sw_ee := (sw_ee v)(ea + of_nat i := data ! i)\<rparr>" by auto
  have e: "sw_ee v1 = (sw_ee v)(ea + of_nat i := data ! i)" using arg_cong [OF v1(2), of sw_ee] by (simp add: sw_core_def)
  from Cons.prems have "\<forall>i\<in>set is. i < length data \<and> take_bit 11 (ea + of_nat i) = ea + of_nat i" by simp
  from Cons.IH [OF this, of v1] obtain v' where
    v': "rcp_each (\<lambda>i. if i \<ge> length data then rcp_fault else RCP_SetEepromValue sw_io (ea + of_nat i) (data ! i)) is v1 = Some (Inr (), v')"
    "sw_core v' = (sw_core v1)\<lparr>sw_ee := fold (\<lambda>i e. e(ea + of_nat i := data ! i)) is (sw_ee v1)\<rparr>" by blast
  moreover have "w\<lparr>sw_ee := a\<rparr>\<lparr>sw_ee := b\<rparr> = w\<lparr>sw_ee := b\<rparr>" for w :: rcp_switch and a b by simp
  ultimately have "sw_core v' = (sw_core v)\<lparr>sw_ee := fold (\<lambda>i e. e(ea + of_nat i := data ! i)) (i # is) (sw_ee v)\<rparr>"
    unfolding e v1(2) by (simp only: fold.simps o_apply)
  moreover have "rcp_each (\<lambda>i. if i \<ge> length data then rcp_fault else RCP_SetEepromValue sw_io (ea + of_nat i) (data ! i)) (i # is) v = Some (Inr (), v')"
    using v' v1(1) Cons.prems by (simp add: rcp_bind_def)
  ultimately show ?case by blast
qed (simp add: rcp_ret_def sw_core_def)

text \<open>Bytes written one after the other at addresses that differ.\<close>

lemma fold_written:
  assumes "\<forall>i<n. \<forall>j<n. g i = g j \<longrightarrow> i = j" "i < n"
  shows "fold (\<lambda>i e. e(g i := f i)) [0..<n] e (g i) = f i"
  using assms
proof (induction n)
  case (Suc n)
  show ?case
  proof (cases "i = n")
    case False
    then have "i < n" "g i \<noteq> g n" using Suc.prems by auto
    then show ?thesis using Suc by simp
  qed simp
qed simp

lemma fold_elsewhere: "\<forall>i<n. a \<noteq> g i \<Longrightarrow> fold (\<lambda>i e. e(g i := f i)) [0..<n] e a = e a"
  by (induction n) auto

lemma sw_Set_Eeprom_Param:
  assumes "t < 7" "snd (RCPBoardInfoArr ! t) \<le> length data"
  shows "\<exists>v'. Rcp_Set_Eeprom_Param sw_io t data v = Some (Inr (), v') \<and> sw_dev v' = sw_dev v \<and>
    (\<forall>u<7. param_bytes v' u = (if u = t then take (snd (RCPBoardInfoArr ! t)) data else param_bytes v u))"
proof -
  let ?n = "snd (RCPBoardInfoArr ! t)" and ?g = "\<lambda>i. param_addr t + of_nat i"
  have "\<forall>i\<in>set [0..<?n]. i < length data \<and> take_bit 11 (?g i) = ?g i"
    using assms param_byte(1) [OF assms(1)] by auto
  from sw_set_params [OF this, of v] obtain v' where v': "Rcp_Set_Eeprom_Param sw_io t data v = Some (Inr (), v')"
    "sw_core v' = (sw_core v)\<lparr>sw_ee := fold (\<lambda>i e. e(?g i := data ! i)) [0..<?n] (sw_ee v)\<rparr>"
    by (auto simp: Rcp_Set_Eeprom_Param_def)
  have d: "sw_dev v' = sw_dev v" using arg_cong [OF v'(2), of sw_dev] by (simp add: sw_core_def)
  have e: "sw_ee v' = fold (\<lambda>i e. e(?g i := data ! i)) [0..<?n] (sw_ee v)" using arg_cong [OF v'(2), of sw_ee] by (simp add: sw_core_def)
  have inj: "\<forall>i<?n. \<forall>j<?n. ?g i = ?g j \<longrightarrow> i = j" using params_apart [OF assms(1) _ assms(1)] by blast
  have own: "param_bytes v' t = take ?n data"
    unfolding param_bytes_def e by (rule nth_equalityI) (use assms(2) in \<open>auto simp: fold_written [OF inj]\<close>)
  have other: "param_bytes v' u = param_bytes v u" if "u < 7" "u \<noteq> t" for u
    unfolding param_bytes_def e by (rule map_cong [OF refl], rule fold_elsewhere) (use params_apart [OF that(1) _ assms(1)] that in auto)
  show ?thesis using v'(1) d own other by auto
qed

section \<open>Parameters of an attached switch\<close>

text \<open>The bytes of a parameter on the switch of a port.\<close>

definition param_of :: "('w \<Rightarrow> rcp_switch) \<Rightarrow> nat \<Rightarrow> 'w rcp_sys \<Rightarrow> nat \<Rightarrow> u8 list" where
  "param_of vw d s t = param_bytes (rcp_view vw d s) t"

lemma link_get_param:
  assumes at: "attached env vw good d dv s" and t: "t < 7" "snd (RCPBoardInfoArr ! t) < length buf"
  shows "\<exists>s'. Rcp_Get_Eeprom_Param (rcp_link env d) t buf s =
      Some (Inr (0, param_of vw d s t @ 0 # drop (Suc (snd (RCPBoardInfoArr ! t))) buf), s')"
proof -
  from sw_Get_Eeprom_Param [OF t, of "rcp_view vw d s"] obtain v' where
    "Rcp_Get_Eeprom_Param sw_io t buf (rcp_view vw d s) = Some (Inr (0, param_bytes (rcp_view vw d s) t @ 0 # drop (Suc (snd (RCPBoardInfoArr ! t))) buf), v')" by blast
  from rcp_simD [OF link.Get_Eeprom_Param_sim attachedD(1) [OF at] this] show ?thesis by (auto simp: param_of_def)
qed

text \<open>
  C12. The parameters of an attached switch in its EEPROM: the seven parameters lie apart. Writing one
  succeeds and keeps the switch attached. Reading it afterwards gives the bytes that were written, closed with a null byte, and leaves
  the rest of the array of the caller alone. Reading any other parameter gives what it was before.
\<close>

theorem eeprom_params:
  assumes at: "attached env vw good d dv s" and t: "t < 7" "snd (RCPBoardInfoArr ! t) \<le> length data"
  shows "\<exists>s1. Rcp_Set_Eeprom_Param (rcp_link env d) t data s = Some (Inr (), s1) \<and> attached env vw good d dv s1 \<and>
    (\<forall>u<7. \<forall>buf. snd (RCPBoardInfoArr ! u) < length buf \<longrightarrow>
      (\<exists>s2. Rcp_Get_Eeprom_Param (rcp_link env d) u buf s1 =
        Some (Inr (0, (if u = t then take (snd (RCPBoardInfoArr ! t)) data else param_of vw d s u) @ 0 # drop (Suc (snd (RCPBoardInfoArr ! u))) buf), s2)))"
proof -
  let ?v = "rcp_view vw d s"
  note a = attachedD [OF at]
  from sw_Set_Eeprom_Param [OF t, of ?v] obtain v1 where v1: "Rcp_Set_Eeprom_Param sw_io t data ?v = Some (Inr (), v1)" "sw_dev v1 = sw_dev ?v"
    "\<forall>u<7. param_bytes v1 u = (if u = t then take (snd (RCPBoardInfoArr ! t)) data else param_bytes ?v u)" by blast
  from rcp_simD [OF link.Set_Eeprom_Param_sim a(1) v1(1)] obtain s1 where s1: "Rcp_Set_Eeprom_Param (rcp_link env d) t data s = Some (Inr (), s1)"
    "rcp_link_ok env vw good d s1" "rcp_view vw d s1 = v1" by blast
  have at1: "attached env vw good d dv s1" using v1(2) a(2) by (intro attached_view s1(2)) (simp add: s1(3))
  have p: "param_of vw d s1 u = (if u = t then take (snd (RCPBoardInfoArr ! t)) data else param_of vw d s u)" if "u < 7" for u
    using v1(3) that by (simp add: param_of_def s1(3))
  show ?thesis
  proof (rule exI [of _ s1], intro conjI allI impI)
    fix u :: nat and buf :: "u8 list" assume u: "u < 7" "snd (RCPBoardInfoArr ! u) < length buf"
    from link_get_param [OF at1 u] show "\<exists>s2. Rcp_Get_Eeprom_Param (rcp_link env d) u buf s1 =
      Some (Inr (0, (if u = t then take (snd (RCPBoardInfoArr ! t)) data else param_of vw d s u) @ 0 # drop (Suc (snd (RCPBoardInfoArr ! u))) buf), s2)"
      unfolding p [OF u(1)] .
  qed (fact s1(1) at1)+
qed

lemma param_board: "snd (RCPBoardInfoArr ! RCP_EEPROM_MODULE_TYPE) = 2" by (simp add: RCPBoardInfoArr_def numeral_eq_Suc)

theorem eeprom_params_witness:
  "\<exists>s s1 s2. attached bench_env bn_switch bench_good 1 0 s \<and>
    Rcp_Set_Eeprom_Param (rcp_link bench_env 1) RCP_EEPROM_MODULE_TYPE [82, 84] s = Some (Inr (), s1) \<and>
    Rcp_Get_Eeprom_Param (rcp_link bench_env 1) RCP_EEPROM_MODULE_TYPE (replicate 4 7) s1 = Some (Inr (0, [82, 84, 0, 7]), s2)"
proof -
  define w where "w = \<lparr>bn_switch = \<lparr>sw_vals = \<lambda>a. ucast a, sw_ee = \<lambda>_. 0, sw_phy = \<lambda>_. 0, sw_dev = bench_dev\<rparr>, bn_replies = [], bn_flash = []\<rparr>"
  have "bench_good w" by (simp add: w_def bench_good_def)
  from bench_attached [OF this] obtain s where s: "attached bench_env bn_switch bench_good 1 0 s" by blast
  have t: "RCP_EEPROM_MODULE_TYPE < 7" "snd (RCPBoardInfoArr ! RCP_EEPROM_MODULE_TYPE) \<le> length [82, 84 :: u8]"
    "snd (RCPBoardInfoArr ! RCP_EEPROM_MODULE_TYPE) < length (replicate 4 7 :: u8 list)" by (simp_all add: param_board)
  from eeprom_params [OF s t(1,2)] obtain s1 where s1: "Rcp_Set_Eeprom_Param (rcp_link bench_env 1) RCP_EEPROM_MODULE_TYPE [82, 84] s = Some (Inr (), s1)"
    and g: "\<forall>u<7. \<forall>buf. snd (RCPBoardInfoArr ! u) < length buf \<longrightarrow> (\<exists>s2. Rcp_Get_Eeprom_Param (rcp_link bench_env 1) u buf s1 =
      Some (Inr (0, (if u = RCP_EEPROM_MODULE_TYPE then take (snd (RCPBoardInfoArr ! RCP_EEPROM_MODULE_TYPE)) [82, 84] else param_of bn_switch 1 s u) @
        0 # drop (Suc (snd (RCPBoardInfoArr ! u))) buf), s2))" by blast
  from g [rule_format, OF t(1,3)] obtain s2 where s2: "Rcp_Get_Eeprom_Param (rcp_link bench_env 1) RCP_EEPROM_MODULE_TYPE (replicate 4 7) s1 =
      Some (Inr (0, take (snd (RCPBoardInfoArr ! RCP_EEPROM_MODULE_TYPE)) [82, 84] @ 0 # drop (Suc (snd (RCPBoardInfoArr ! RCP_EEPROM_MODULE_TYPE))) (replicate 4 7)), s2)"
    unfolding if_P [OF refl] by blast
  have "take (snd (RCPBoardInfoArr ! RCP_EEPROM_MODULE_TYPE)) [82, 84] @ 0 # drop (Suc (snd (RCPBoardInfoArr ! RCP_EEPROM_MODULE_TYPE))) (replicate 4 7) = [82, 84, 0, 7 :: u8]"
    unfolding param_board by (simp add: numeral_eq_Suc)
  with s s1 s2 show ?thesis by metis
qed

end
