(* ===== verification/Spec2Isabelle.thy ===== *)
theory Spec2Isabelle
  imports Loop_Correct Broad_Storm Cli_Parser Sys_Info User_Mac Util_List Os_Queue Oam_Pty Gw_Log Conf_File Qos Rcp_Watch
begin

text \<open>
  Verification of the ONU firmware: the operating system layer (\<^verbatim>\<open>src/system\<close>), the applications
  (\<^verbatim>\<open>src/apps\<close>) and the VLAN queue map (\<^verbatim>\<open>src/qos\<close>) of an EPON optical network unit.

  \<^bold>\<open>The program.\<close> The OAM channel to the OLT delivers messages in fragments; they are put together,
  dispatched on their opcode, and answered. Packets from the Ethernet ports pass a table of parsers
  and handlers into a priority queue that one thread empties. Software timers run on one thread. The
  loop detection sends frames on every port, marks ports on which they come back and shuts them.
  Attached switches are managed through RRCP frames. The configuration is a file of type-length-value
  records. Below all of it lies the OS layer: tables of threads, semaphores, mutexes and queues, and
  an intrusive list.

  \<^bold>\<open>The theories\<close>, from the bottom:

  \<^item> \<^verbatim>\<open>Prelude\<close>: machine integers, status values, byte images of integers, list lemmas.
  \<^item> \<^verbatim>\<open>Fifo_Spec\<close>, \<^verbatim>\<open>Handle_Table\<close>, \<^verbatim>\<open>Keyed_Store\<close>: the interfaces that several components share,
    as locales: a queue, a table that hands out ids, a registry with one value per key. What
    they promise for every sequence of calls is proved once in the locale.
  \<^item> \<^verbatim>\<open>Util_List\<close> (\<^verbatim>\<open>system/util_list.c\<close>): the intrusive list on an explicit memory of nodes and
    its refinement to lists; an interpretation of \<open>fifo\<close>. The components above use lists of
    nodes where the code uses \<^verbatim>\<open>LIST\<close>.
  \<^item> \<^verbatim>\<open>Os_Core\<close>, \<^verbatim>\<open>Os_Queue\<close> (\<^verbatim>\<open>system/gw_os_api_core.c\<close>): a record of the tables; each call is one
    step, as under the table mutex of the code. The POSIX calls are arguments or part of the
    state. Interpretations of \<open>handle_table\<close>; the timed wait; the priority queue refines an
    abstract queue of levels.
  \<^item> \<^verbatim>\<open>Gw_Timer\<close> (\<^verbatim>\<open>system/gw_timer.c\<close>): a heap of timers, the sorted list and the expire list; the
    round of the timer thread as a function of the application's callbacks and of the 64-bit times it takes, of
    which the control block keeps 32 bits. Rounds over application timers do not fault where \<open>calm_run\<close> holds.
  \<^item> \<^verbatim>\<open>Gw_Log\<close> (\<^verbatim>\<open>apps/gw_log.c\<close>): the ring of log records and its refinement to the last records added.
  \<^item> \<^verbatim>\<open>Oam_Msg\<close> (\<^verbatim>\<open>apps/oam.c\<close>): reassembly, fragmentation and dispatch. Each call of \<^verbatim>\<open>malloc\<close> for a timer has its own
    address: a message of several fragments comes together exactly when its timers get the same one.
  \<^item> \<^verbatim>\<open>Oam_Pty\<close> (\<^verbatim>\<open>apps/oam_core.c\<close>): the session of the remote terminal as a state machine over the messages of
    its queue, and the commands without a session; it sends through \<^verbatim>\<open>Oam_Msg\<close> and starts its thread through \<^verbatim>\<open>Os_Core\<close>.
  \<^item> \<^verbatim>\<open>Cli_Parser\<close> (\<^verbatim>\<open>cli_lib/cli_parser.c\<close>, \<^verbatim>\<open>cli_common.c\<close>): the tree of commands, the words of a line, the search
    for the command that a line abbreviates, completions, history, modes and privileges, and the start of the
    library with its list of registered handlers. \<^verbatim>\<open>Cli_Commands\<close> has the registrations of the applications
    (\<^verbatim>\<open>oam_cli.c\<close>, \<^verbatim>\<open>rcp_switch_cli.c\<close>, \<^verbatim>\<open>gw_cli_commands.c\<close>, \<^verbatim>\<open>poe_api.c\<close> and others), from which \<^verbatim>\<open>Sys_Info\<close>
    builds the tree of the unit, \<open>onu_cli_tree\<close>.
  \<^item> \<^verbatim>\<open>Conf_File\<close> (\<^verbatim>\<open>apps/gw_conf_file.c\<close>), \<^verbatim>\<open>Qos\<close> (\<^verbatim>\<open>qos/qos.c\<close>): the configuration file and the VLAN
    rules, composed in this theory as \<^verbatim>\<open>gw_qos_init\<close> does.
  \<^item> \<^verbatim>\<open>Pkt_Main\<close> (\<^verbatim>\<open>apps/pkt_main.c\<close>): the packet path over the priority queue of \<^verbatim>\<open>Os_Queue\<close>.
  \<^item> \<^verbatim>\<open>Gw_Port\<close> (\<^verbatim>\<open>apps/gw_port.c\<close>, \<^verbatim>\<open>apps/gw_aux.c\<close>), \<^verbatim>\<open>User_Mac\<close> (\<^verbatim>\<open>apps/gw_usermac.c\<close>): port numbers and
    the search for a user's address.
  \<^item> \<^verbatim>\<open>Lpb_List\<close>, \<^verbatim>\<open>Loop_Detect\<close>, \<^verbatim>\<open>Loop_Correct\<close> (\<^verbatim>\<open>apps/gwd_eth_loop_detect.c\<close>): the loop status of the
    ports, the detection thread and its frames, and what histories of them guarantee: received frames that the
    code reads or writes out of bounds (\<open>frame_overrun\<close>) are the only faults of a history.
  \<^item> \<^verbatim>\<open>Sys_Info\<close> (\<^verbatim>\<open>apps/oam.c\<close>): the record of the system information in memory and flash, the commands that set it, in the
    tree of \<^verbatim>\<open>Cli_Parser\<close>, and the requests of the OLT, which call \<^verbatim>\<open>Oam_Msg\<close>, \<^verbatim>\<open>Loop_Detect\<close> and \<^verbatim>\<open>User_Mac\<close>.
  \<^item> \<^verbatim>\<open>Broad_Storm\<close> (\<^verbatim>\<open>apps/gwd_broadstorm.c\<close>): the rates of broadcast frames, the counters of a port that
    decide on the beginning and the end of a storm, and the rounds of the thread.

  \<^item> \<^verbatim>\<open>Rcp_Reg\<close> to \<^verbatim>\<open>Rcp_Watch\<close> (\<^verbatim>\<open>apps/rcp_gwd.c\<close>): the attached switches. \<^verbatim>\<open>Rcp_Reg\<close> has the bit fields of
    registers and EEPROM over a locale \<open>reg_access\<close> of what reading and writing a register promise, \<^verbatim>\<open>Rcp_Port\<close>
    the operations on settings, \<^verbatim>\<open>Rcp_Link\<close> the frames, the list of waiting accesses, the table of devices, and the
    interpretation of \<open>reg_access\<close> on them; \<^verbatim>\<open>Rcp_Dev\<close> the search for devices and the SNMP port lists, \<^verbatim>\<open>Rcp_Alarm\<close> the
    queue of alarms, \<^verbatim>\<open>Rcp_Flash\<close> the saved settings, \<^verbatim>\<open>Rcp_Vlan\<close> the VLAN table, \<^verbatim>\<open>Rcp_Mon\<close> the threads that
    watch the switches and the parameters in their EEPROM (\<^verbatim>\<open>apps/rcp_switch_cli.c\<close>); \<^verbatim>\<open>Rcp_Setting\<close>, \<^verbatim>\<open>Rcp_Discover\<close>,
    \<^verbatim>\<open>Rcp_Correct\<close>, \<^verbatim>\<open>Rcp_Power\<close>, \<^verbatim>\<open>Rcp_Isolate\<close> and \<^verbatim>\<open>Rcp_Watch\<close> what holds of them together. A conforming switch is an environment
    that answers each frame (\<open>rcp_conforms\<close>), and the witnesses have one that takes the frames apart.

  \<^bold>\<open>Conventions.\<close> A NULL dereference, a use of freed memory, an access beyond a buffer and a loop
  that does not end are the value \<open>None\<close>; error codes are integers or datatypes with the source's
  names. Functions of the interface library, the OAM transport, the memory allocator and the
  clock are arguments. Integers keep their width where the code can overflow. Log and debug
  output is left out. An endless thread loop is a sequence of rounds, and properties hold for
  every number of rounds; a polling loop is bounded by the timeout that the code counts down.
  The loops of the configuration file and of the address search may run for ever; they are
  partial functions, and both directions are proved.

  \<^bold>\<open>What the lemmas show.\<close> Each theory has lemmas on its invariant, on each operation, and at its end
  the properties with their witnesses: round trips (messages, frames, configuration, rules),
  refinements (list, priority queue, packet path, rule list), invariants (timers, message list,
  loop status, tables), liveness (periodic timers, quiet ports), and the error behaviour of
  the code where it is surprising.

  \<^bold>\<open>Not modelled.\<close> Of \<^verbatim>\<open>cli_lib\<close> the line editor over terminals and sockets, printing and its filters, and the
  parser of the old telnet commands. The commands themselves (most of \<^verbatim>\<open>rcp_switch_cli.c\<close>, \<^verbatim>\<open>oam_cli.c\<close>, \<^verbatim>\<open>gw_cli_commands.c\<close>)
  parse words and print; only their registrations are modelled. \<^verbatim>\<open>poe_api.c\<close> and \<^verbatim>\<open>poe_cpld.c\<close> write device registers; \<^verbatim>\<open>Pty.c\<close> opens terminals;
  \<^verbatim>\<open>main.c\<close>, \<^verbatim>\<open>gw_main.c\<close> and \<^verbatim>\<open>gw_thread.c\<close> start threads. What is left of \<^verbatim>\<open>oam.c\<close> prints frames,
  tables and flags. The adapter (\<^verbatim>\<open>gwdonuif.c\<close>) calls the interface library through a table of pointers. In \<^verbatim>\<open>oam_core.c\<close> the relay thread is left
  out, since nothing fills its queue.
\<close>

section \<open>VLAN rules in the configuration file\<close>

text \<open>
  \<^verbatim>\<open>gw_qos_init\<close>: an empty rule list and the handlers of type \<^verbatim>\<open>GW_CONF_TYPE_QOSVLANQUEUE\<close>.
  \<open>queue_map\<close>: the interface function that takes the rules.
\<close>

definition gw_qos_init ::
  "(int \<Rightarrow> qos_vlan list option \<Rightarrow> int) \<Rightarrow> qos_vlan list conf_handle list \<Rightarrow> qos_vlan list \<times> qos_vlan list conf_handle list" where
  "gw_qos_init queue_map hs =
     ([], snd (gw_register_conf_handlers True hs 1 (Some (gw_qos_vlan_showrun True))
                (Some (\<lambda>len pv l. fst (snd (gw_qos_vlan_restore (\<lambda>_. True) queue_map True len pv l))))))"

text \<open>
  C35. The rules saved through the handlers that \<^verbatim>\<open>gw_qos_init\<close> registers, into a zeroed memory
  buffer that is large enough, are the rules after a restart that restores the file.
\<close>

theorem rules_survive_reboot:
  assumes "rules_wf l" "list_all (\<lambda>p. unat (qv_port p) < 256) l" "16 + length l * 12 \<le> n" "n < 1073741824"
  shows "\<exists>data pf1 pf2. gw_conf_save id er wfl (0, of_nat n, replicate n 0) (snd (gw_qos_init queue_map [])) 1 pf l = Some (wfl, data, pf1, l) \<and>
    gw_conf_restore (\<lambda>_. True) iv0 t0 l0 (0, of_nat (length data), data) (snd (gw_qos_init queue_map [])) pf1 (fst (gw_qos_init queue_map [])) =
      Some (Some (0, pf2, l))"
proof -
  let ?h = "\<lparr>ch_type = 1, ch_func_s = Some (gw_qos_vlan_showrun True),
    ch_func_r = Some (\<lambda>len pv l. fst (snd (gw_qos_vlan_restore (\<lambda>_. True) queue_map True len pv l)))\<rparr>"
  let ?b = "concat (map rule_bytes l)"
  have h: "gw_qos_init queue_map [] = ([], [?h])"
    by (simp add: gw_qos_init_def gw_register_conf_handlers_def conf_find_def)
  have len: "length l * 12 < 4294967296" using assms(3,4) by simp
  then have u: "unat (of_nat (length ?b) :: u32) = length l * 12" by (simp add: unat_of_nat_u32 del: of_nat_mult)
  have s: "list_all2 (saves l) [?h] [(1, ?b)]"
    by (simp add: saves_def gw_qos_vlan_showrun_def Let_def mult.commute)
  have r: "fst (snd (gw_qos_vlan_restore (\<lambda>_. True) queue_map True (of_nat (length ?b)) ?b [])) = l"
    using restore_rules_bytes [of "[]" l] assms(1,2) u by (simp add: gw_qos_vlan_restore_def Let_def del: of_nat_mult length_rules_bytes)
  have t: "8 + length (tlvs [(1, ?b)]) \<le> length (replicate n (0 :: u8))" "length (replicate n (0 :: u8)) < 1073741824"
    "drop (8 + length (tlvs [(1, ?b)])) (replicate n (0 :: u8)) = replicate (n - (16 + length l * 12)) 0"
    using assms(3,4) by simp_all
  have d: "distinct (map ch_type [?h])" "[?h] \<noteq> []" "\<forall>h \<in> set [?h]. ch_func_r h \<noteq> None \<and> ch_type h \<noteq> 0" by simp_all
  from save_then_restore [OF s d(2,1,3) t, of id er wfl pf iv0 t0 l0 "[]"] r show ?thesis unfolding h by simp
qed

theorem rules_survive_reboot_witness:
  "\<exists>data pf1 pf2. gw_conf_save id (\<lambda>s. (0, s)) 0 (0, 64, replicate 64 0) (snd (gw_qos_init (\<lambda>_ _. 0) [])) 1 gw_conf_file_init
       [\<lparr>qv_port = 3, qv_vid = 4094, qv_queue = 7\<rparr>] = Some (0, data, pf1, [\<lparr>qv_port = 3, qv_vid = 4094, qv_queue = 7\<rparr>]) \<and>
     gw_conf_restore (\<lambda>_. True) 0 0 0 (0, of_nat (length data), data) (snd (gw_qos_init (\<lambda>_ _. 0) [])) pf1
       (fst (gw_qos_init (\<lambda>_ _. 0) [])) = Some (Some (0, pf2, [\<lparr>qv_port = 3, qv_vid = 4094, qv_queue = 7\<rparr>]))"
  using rules_survive_reboot [of "[\<lparr>qv_port = 3, qv_vid = 4094, qv_queue = 7\<rparr>]" 64 "\<lambda>s. (0, s)" 0 "\<lambda>_ _. 0" gw_conf_file_init 0 0 0]
  by (simp add: rules_wf_def half_words_def)

end
